(* ===== verification/Prelude.thy ===== *)
theory Prelude
  imports Main "HOL-Library.Word" "HOL-Library.AList" "HOL-Library.Char_ord"
    "HOL-Library.List_Lexorder"
begin

text \<open>
  What the components share: Rust's integers and their saturating and checked operations,
  clock readings, strings as UTF-8 byte sequences with the operations of \<open>str\<close> that the
  code uses, hash maps, the iterator adaptors, HTTP status codes, and the collections of
  facts that carry the component proofs.
\<close>

named_theorems u64_simps \<open>reading the u64 operations as natural numbers\<close>
named_theorems hm_simps \<open>lookups after hash-map operations\<close>

section \<open>Integers and clock readings\<close>

type_synonym u8 = "8 word"
type_synonym u32 = "32 word"
type_synonym u64 = "64 word"

text \<open>
  A clock reading is a number of nanoseconds: \<open>Instant\<close> and \<open>SystemTime\<close> since an
  arbitrary origin. A handler that reads the clock takes the reading as an argument.
\<close>

type_synonym instant = nat

definition u64_max :: nat where
  "u64_max = 18446744073709551615"

definition sat_add :: "u64 \<Rightarrow> u64 \<Rightarrow> u64" where
  "sat_add a b = (if unat a + unat b \<le> u64_max then a + b else - 1)"

definition sat_sub :: "u64 \<Rightarrow> u64 \<Rightarrow> u64" where
  "sat_sub a b = (if a < b then 0 else a - b)"

definition clamp_u64 :: "nat \<Rightarrow> u64" where
  "clamp_u64 n = of_nat (min n u64_max)"

definition checked_add_usize :: "nat \<Rightarrow> nat \<Rightarrow> nat option" where
  "checked_add_usize a b = (if a + b \<le> u64_max then Some (a + b) else None)"

definition elapsed :: "instant \<Rightarrow> instant \<Rightarrow> nat" where
  "elapsed now at = now - at"

definition as_millis :: "nat \<Rightarrow> nat" where
  "as_millis ns = ns div 1000000"

definition elapsed_ms :: "instant \<Rightarrow> instant \<Rightarrow> u64" where
  "elapsed_ms now at = clamp_u64 (as_millis (elapsed now at))"

abbreviation secs :: "nat \<Rightarrow> nat" where
  "secs n \<equiv> n * 1000000000"

lemma unat_less_u64: "unat (a :: u64) \<le> u64_max"
proof -
  have "unat a < 2 ^ LENGTH(64)" by (rule unsigned_less)
  then show ?thesis by (simp add: u64_max_def)
qed

lemma unat_minus_one_u64: "unat (- 1 :: u64) = u64_max"
  by (simp add: u64_max_def unsigned_minus_1_eq_mask mask_eq_exp_minus_1)

lemma unat_sat_add [u64_simps]: "unat (sat_add a b) = min (unat a + unat b) u64_max"
proof (cases "unat a + unat b \<le> u64_max")
  case True
  then have "unat a + unat b < 2 ^ LENGTH(64)" by (simp add: u64_max_def)
  then have "unat (a + b) = unat a + unat b" by (simp add: unat_add_lem [THEN iffD1])
  with True show ?thesis by (simp add: sat_add_def)
next
  case False
  then show ?thesis by (simp add: sat_add_def unat_minus_one_u64)
qed

lemma unat_sat_sub [u64_simps]: "unat (sat_sub a b) = unat a - unat b"
  by (simp add: sat_sub_def word_less_nat_alt unat_sub_if')

lemma unat_clamp_u64 [u64_simps]: "unat (clamp_u64 n) = min n u64_max"
proof -
  have "min n u64_max < 2 ^ LENGTH(64)" by (simp add: u64_max_def)
  then show ?thesis by (simp add: clamp_u64_def unat_of_nat)
qed

lemmas u64_order = word_le_nat_alt word_less_nat_alt

lemma u64_add_one_neq: "(a :: u64) + 1 \<noteq> a"
  by simp

section \<open>Strings\<close>

text \<open>
  A Rust \<open>String\<close> is its UTF-8 bytes, one \<open>char\<close> of HOL per byte, so that \<open>length\<close> is
  \<open>str::len\<close>. \<open>utf8_chars\<close> groups the bytes into code points (a byte 10xxxxxx continues the
  code point before it), which is what \<open>str::chars\<close> iterates over. \<open>is_whitespace\<close> holds of
  exactly the code points with the property White_Space, \<open>is_control\<close> of those of the general
  category Cc.
\<close>

definition byte_of :: "char \<Rightarrow> nat" where
  "byte_of c = of_char c"

definition is_continuation :: "char \<Rightarrow> bool" where
  "is_continuation c \<longleftrightarrow> 128 \<le> byte_of c \<and> byte_of c < 192"

function utf8_chars :: "string \<Rightarrow> string list" where
  "utf8_chars [] = []"
| "utf8_chars (c # cs) =
     (c # takeWhile is_continuation cs) # utf8_chars (dropWhile is_continuation cs)"
  by pat_completeness auto
termination
  by (relation "measure length") (auto simp: le_imp_less_Suc length_dropWhile_le)

definition is_whitespace :: "string \<Rightarrow> bool" where
  "is_whitespace ch \<longleftrightarrow>
     (case map byte_of ch of
        [b] \<Rightarrow> (9 \<le> b \<and> b \<le> 13) \<or> b = 32
      | [b, c] \<Rightarrow> b = 194 \<and> (c = 133 \<or> c = 160)
      | [b, c, d] \<Rightarrow>
          (b = 225 \<and> c = 154 \<and> d = 128)
        \<or> (b = 226 \<and> c = 128 \<and> ((128 \<le> d \<and> d \<le> 138) \<or> d = 168 \<or> d = 169 \<or> d = 175))
        \<or> (b = 226 \<and> c = 129 \<and> d = 159)
        \<or> (b = 227 \<and> c = 128 \<and> d = 128)
      | _ \<Rightarrow> False)"

definition is_control :: "string \<Rightarrow> bool" where
  "is_control ch \<longleftrightarrow>
     (case map byte_of ch of
        [b] \<Rightarrow> b < 32 \<or> b = 127
      | [b, c] \<Rightarrow> b = 194 \<and> 128 \<le> c \<and> c < 160
      | _ \<Rightarrow> False)"

definition trim :: "string \<Rightarrow> string" where
  "trim s = concat (rev (dropWhile is_whitespace
     (rev (dropWhile is_whitespace (utf8_chars s)))))"

definition blank :: "string \<Rightarrow> bool" where
  "blank s \<longleftrightarrow> trim s = []"

definition take_chars :: "nat \<Rightarrow> string \<Rightarrow> string" where
  "take_chars n s = concat (take n (utf8_chars s))"

definition is_ascii_digit :: "char \<Rightarrow> bool" where
  "is_ascii_digit c \<longleftrightarrow> 48 \<le> byte_of c \<and> byte_of c \<le> 57"

definition is_ascii_alphanumeric :: "char \<Rightarrow> bool" where
  "is_ascii_alphanumeric c \<longleftrightarrow> is_ascii_digit c
     \<or> (65 \<le> byte_of c \<and> byte_of c \<le> 90) \<or> (97 \<le> byte_of c \<and> byte_of c \<le> 122)"

definition is_ascii_hexdigit :: "char \<Rightarrow> bool" where
  "is_ascii_hexdigit c \<longleftrightarrow> is_ascii_digit c
     \<or> (65 \<le> byte_of c \<and> byte_of c \<le> 70) \<or> (97 \<le> byte_of c \<and> byte_of c \<le> 102)"

definition ascii_lower :: "char \<Rightarrow> char" where
  "ascii_lower c = (if 65 \<le> byte_of c \<and> byte_of c \<le> 90 then char_of (byte_of c + 32) else c)"

definition eq_ignore_ascii_case :: "string \<Rightarrow> string \<Rightarrow> bool" where
  "eq_ignore_ascii_case a b \<longleftrightarrow> map ascii_lower a = map ascii_lower b"

definition strip_prefix :: "string \<Rightarrow> string \<Rightarrow> string option" where
  "strip_prefix p s =
     (if take (length p) s = p then Some (drop (length p) s) else None)"

definition ends_with :: "string \<Rightarrow> string \<Rightarrow> bool" where
  "ends_with s suf \<longleftrightarrow> length suf \<le> length s \<and> drop (length s - length suf) s = suf"

fun nat_to_string :: "nat \<Rightarrow> string" where
  "nat_to_string n =
     (if n < 10 then [char_of (48 + n)]
      else nat_to_string (n div 10) @ [char_of (48 + n mod 10)])"

declare nat_to_string.simps [simp del]

text \<open>\<open>{:04}\<close> and \<open>{:02}\<close>\<close>

definition zero_padded :: "nat \<Rightarrow> nat \<Rightarrow> string" where
  "zero_padded width n = (let s = nat_to_string n in replicate (width - length s) CHR ''0'' @ s)"

definition or_default :: "'a \<Rightarrow> 'a option \<Rightarrow> 'a" where
  "or_default d x = (case x of None \<Rightarrow> d | Some v \<Rightarrow> v)"

definition filter_option :: "('a \<Rightarrow> bool) \<Rightarrow> 'a option \<Rightarrow> 'a option" where
  "filter_option P x = (case x of Some v \<Rightarrow> if P v then Some v else None | None \<Rightarrow> None)"

lemma or_default_simps [simp]: "or_default d None = d" "or_default d (Some v) = v"
  by (simp_all add: or_default_def)

lemma concat_utf8_chars [simp]: "concat (utf8_chars s) = s"
  by (induction s rule: utf8_chars.induct) simp_all

lemma length_take_chars: "length (utf8_chars s) \<le> n \<Longrightarrow> take_chars n s = s"
  by (simp add: take_chars_def)

text \<open>
  \<open>chunked\<close>: a list of characters, each of its bytes, as \<open>utf8_chars\<close> answers them; put together, they are
  read back one by one.
\<close>

fun chunked :: "string list \<Rightarrow> bool" where
  "chunked [] = True"
| "chunked (ch # chs) = (ch \<noteq> [] \<and> list_all is_continuation (tl ch)
     \<and> list_all (\<lambda>c. c \<noteq> [] \<and> \<not> is_continuation (hd c)) chs \<and> chunked chs)"

lemma utf8_chars_heads:
  "list_all (\<lambda>c. c \<noteq> [] \<and> \<not> is_continuation (hd c)) (utf8_chars (dropWhile is_continuation s))"
proof (induction s rule: utf8_chars.induct)
  case (2 c cs)
  have "dropWhile is_continuation (dropWhile is_continuation cs) = dropWhile is_continuation cs"
    by (induction cs) auto
  with 2 show ?case by auto
qed simp

lemma chunked_utf8: "chunked (utf8_chars s)"
proof (induction s rule: utf8_chars.induct)
  case (2 c cs)
  then show ?case
    using utf8_chars_heads [of cs] by (auto simp: list_all_iff dest: set_takeWhileD)
qed simp

lemma chunked_takeWhile: "chunked (chs @ rest) \<Longrightarrow> chunked chs \<and> chunked rest"
  by (induction chs) auto

lemma utf8_concat: "chunked chs \<Longrightarrow> utf8_chars (concat chs) = chs"
proof (induction chs)
  case (Cons ch chs)
  obtain c cs where ch: "ch = c # cs" using Cons.prems by (cases ch) auto
  have "concat chs = [] \<or> \<not> is_continuation (hd (concat chs))"
    using Cons.prems by (cases chs) (auto simp: hd_append)
  then have "takeWhile is_continuation (cs @ concat chs) = cs" "dropWhile is_continuation (cs @ concat chs) = concat chs"
    using Cons.prems ch by (cases "concat chs"; auto simp: list_all_iff takeWhile_append2 dropWhile_append2)+
  with Cons ch show ?case by simp
qed simp

lemma take_chars_le: "length (utf8_chars (take_chars n s)) \<le> n"
proof -
  have "chunked (take n (utf8_chars s))" using chunked_takeWhile chunked_utf8 by (metis append_take_drop_id)
  then show ?thesis by (simp add: take_chars_def utf8_concat)
qed

lemma blank_Nil [simp]: "blank []"
  by (simp add: blank_def trim_def)

lemma not_blank_not_Nil: "\<not> blank s \<Longrightarrow> s \<noteq> []"
  by auto

lemma strip_prefix_Some: "strip_prefix p s = Some t \<longleftrightarrow> s = p @ t"
  unfolding strip_prefix_def
  by (metis append_eq_conv_conj option.distinct(1) option.inject)

lemma ends_with_iff: "ends_with s suf \<longleftrightarrow> (\<exists>k. s = k @ suf)"
proof
  assume "ends_with s suf"
  then show "\<exists>k. s = k @ suf" unfolding ends_with_def by (metis append_take_drop_id)
qed (auto simp: ends_with_def)

text \<open>\<open>split\<close> at a character: the parts between its occurrences.\<close>

fun split_at :: "char \<Rightarrow> string \<Rightarrow> string list" where
  "split_at sep [] = [[]]"
| "split_at sep (c # cs) =
     (if c = sep then [] # split_at sep cs
      else case split_at sep cs of [] \<Rightarrow> [[c]] | part # parts \<Rightarrow> (c # part) # parts)"

lemma split_at_none: "sep \<notin> set s \<Longrightarrow> split_at sep s = [s]"
  by (induction s) auto

lemma split_at_append: "sep \<notin> set s \<Longrightarrow> split_at sep (s @ sep # t) = s # split_at sep t"
  by (induction s) auto

section \<open>Iterators\<close>

definition find_index :: "('a \<Rightarrow> bool) \<Rightarrow> 'a list \<Rightarrow> nat option" where
  "find_index P xs =
     (let n = length (takeWhile (\<lambda>x. \<not> P x) xs) in if n < length xs then Some n else None)"

fun rfind_index :: "('a \<Rightarrow> bool) \<Rightarrow> 'a list \<Rightarrow> nat option" where
  "rfind_index P [] = None"
| "rfind_index P (x # xs) =
     (case rfind_index P xs of Some i \<Rightarrow> Some (Suc i)
      | None \<Rightarrow> if P x then Some 0 else None)"

fun update_first :: "('a \<Rightarrow> bool) \<Rightarrow> ('a \<Rightarrow> 'a) \<Rightarrow> 'a list \<Rightarrow> 'a list" where
  "update_first P f [] = []"
| "update_first P f (x # xs) = (if P x then f x # xs else x # update_first P f xs)"

fun min_by_key :: "('a \<Rightarrow> 'k::linorder) \<Rightarrow> 'a list \<Rightarrow> 'a option" where
  "min_by_key k [] = None"
| "min_by_key k (x # xs) =
     (case min_by_key k xs of None \<Rightarrow> Some x
      | Some y \<Rightarrow> if k y < k x then Some y else Some x)"

definition first_opt :: "'a list \<Rightarrow> 'a option" where
  "first_opt xs = (case xs of [] \<Rightarrow> None | x # _ \<Rightarrow> Some x)"

lemma first_opt_simps [simp]: "first_opt [] = None" "first_opt (x # xs) = Some x"
  by (simp_all add: first_opt_def)

lemma find_index_simps [simp]:
  "find_index P [] = None"
  "find_index P (x # xs) = (if P x then Some 0 else map_option Suc (find_index P xs))"
  by (simp_all add: find_index_def Let_def)

lemma find_index_Some:
  "find_index P xs = Some i \<Longrightarrow> i < length xs \<and> P (xs ! i) \<and> (\<forall>j < i. \<not> P (xs ! j))"
proof (induction xs arbitrary: i)
  case (Cons x xs)
  then show ?case
    by (auto split: if_splits simp: nth_Cons less_Suc_eq_0_disj split: nat.splits)
qed simp

lemma find_index_None: "find_index P xs = None \<longleftrightarrow> (\<forall>x \<in> set xs. \<not> P x)"
  by (induction xs) auto

lemma rfind_index_Some:
  "rfind_index P xs = Some i \<Longrightarrow>
     i < length xs \<and> P (xs ! i) \<and> (\<forall>j < length xs. i < j \<longrightarrow> \<not> P (xs ! j))"
proof (induction xs arbitrary: i)
  case (Cons x xs)
  then show ?case
  proof (cases "rfind_index P xs")
    case None
    have none: "\<forall>y \<in> set ys. \<not> P y" if "rfind_index P ys = None" for ys
      using that by (induction ys) (auto split: option.splits if_splits)
    from None Cons.prems have "i = 0" "P x" by (auto split: if_splits)
    then show ?thesis using none [OF None] by (auto simp: nth_Cons split: nat.splits)
  next
    case (Some k)
    with Cons show ?thesis by (auto simp: nth_Cons split: nat.splits)
  qed
qed simp

lemma update_first_map: "map g (update_first P f xs) = map g xs" if "\<And>x. P x \<Longrightarrow> g (f x) = g x"
  using that by (induction xs) auto

lemma length_update_first [simp]: "length (update_first P f xs) = length xs"
  by (induction xs) auto

lemma update_first_none: "\<forall>x \<in> set xs. \<not> P x \<Longrightarrow> update_first P f xs = xs"
  by (induction xs) auto

lemma update_first_split:
  "\<forall>x \<in> set xs. \<not> P x \<Longrightarrow> P y \<Longrightarrow> update_first P f (xs @ y # ys) = xs @ f y # ys"
  by (induction xs) auto

lemma min_by_key_None: "min_by_key k xs = None \<longleftrightarrow> xs = []"
  by (induction xs) (auto split: option.splits)

lemma min_by_key_Some:
  "min_by_key k xs = Some y \<Longrightarrow> y \<in> set xs \<and> (\<forall>x \<in> set xs. k y \<le> k x)"
proof (induction xs arbitrary: y)
  case (Cons x xs)
  show ?case
  proof (cases "min_by_key k xs")
    case None
    with Cons.prems show ?thesis by (auto simp: min_by_key_None)
  next
    case (Some z)
    with Cons.IH have "z \<in> set xs" "\<forall>x \<in> set xs. k z \<le> k x" by auto
    with Some Cons.prems show ?thesis by (auto split: if_splits intro: order_trans less_imp_le)
  qed
qed simp

lemma find_first:
  "List.find P q = Some e \<Longrightarrow> \<exists>pre post. q = pre @ e # post \<and> P e \<and> (\<forall>x \<in> set pre. \<not> P x)"
  by (induction q) (auto split: if_splits, metis append_Nil empty_iff list.set(1),
      metis Cons_eq_appendI set_ConsD)

lemma length_filter_mono:
  "\<forall>x \<in> set xs. P x \<longrightarrow> Q x \<Longrightarrow> length (filter P xs) \<le> length (filter Q xs)"
  by (induction xs) auto

section \<open>Hash maps\<close>

text \<open>
  A \<open>HashMap\<close> is an association list with distinct keys. The order of the list stands for the
  unspecified iteration order: a theorem over every such list holds for every iteration order.
\<close>

type_synonym ('k, 'v) hash_map = "('k \<times> 'v) list"

definition hm_get :: "('k, 'v) hash_map \<Rightarrow> 'k \<Rightarrow> 'v option" where
  "hm_get m k = map_of m k"

definition hm_insert :: "'k \<Rightarrow> 'v \<Rightarrow> ('k, 'v) hash_map \<Rightarrow> ('k, 'v) hash_map" where
  "hm_insert k v m = AList.update k v m"

definition hm_remove :: "'k \<Rightarrow> ('k, 'v) hash_map \<Rightarrow> ('k, 'v) hash_map" where
  "hm_remove k m = filter (\<lambda>(k', _). k' \<noteq> k) m"

definition hm_ok :: "('k, 'v) hash_map \<Rightarrow> bool" where
  "hm_ok m \<longleftrightarrow> distinct (map fst m)"

lemma hm_get_Nil [simp]: "hm_get [] k = None"
  by (simp add: hm_get_def)

lemma hm_get_insert [hm_simps]: "hm_get (hm_insert k v m) k' = (if k' = k then Some v else hm_get m k')"
  by (auto simp: hm_get_def hm_insert_def update_conv)

lemma hm_get_remove [hm_simps]: "hm_get (hm_remove k m) k' = (if k' = k then None else hm_get m k')"
  by (induction m) (auto simp: hm_get_def hm_remove_def)

lemma hm_ok_Nil [simp]: "hm_ok []"
  by (simp add: hm_ok_def)

lemma hm_ok_insert [intro, simp]: "hm_ok m \<Longrightarrow> hm_ok (hm_insert k v m)"
  by (simp add: hm_ok_def hm_insert_def distinct_update)

lemma hm_ok_filter [intro, simp]: "hm_ok m \<Longrightarrow> hm_ok (filter P m)"
  by (induction m) (auto simp: hm_ok_def)

lemma hm_ok_remove [intro, simp]: "hm_ok m \<Longrightarrow> hm_ok (hm_remove k m)"
  unfolding hm_remove_def by (rule hm_ok_filter)

lemma hm_keys_insert: "fst ` set (hm_insert k v m) = insert k (fst ` set m)"
  by (simp add: hm_insert_def dom_update)

lemma hm_length_insert: "length (hm_insert k v m) \<le> Suc (length m)"
  by (induction m) (auto simp: hm_insert_def)

lemma hm_length_remove_member:
  "hm_ok m \<Longrightarrow> hm_get m k = Some v \<Longrightarrow> length (hm_remove k m) < length m"
proof -
  assume "hm_get m k = Some v"
  then have "(k, v) \<in> set m" by (simp add: hm_get_def map_of_SomeD)
  then show ?thesis unfolding hm_remove_def by (intro length_filter_less) auto
qed

lemma hm_get_SomeD: "hm_get m k = Some v \<Longrightarrow> (k, v) \<in> set m"
  by (simp add: hm_get_def map_of_SomeD)

lemma hm_get_eq_Some: "hm_ok m \<Longrightarrow> hm_get m k = Some v \<longleftrightarrow> (k, v) \<in> set m"
  by (simp add: hm_get_def hm_ok_def)

lemma hm_get_filter:
  "hm_ok m \<Longrightarrow> hm_get (filter (\<lambda>(k, v). P k v) m) k =
     (case hm_get m k of None \<Rightarrow> None | Some v \<Rightarrow> if P k v then Some v else None)"
  by (induction m) (auto simp: hm_get_def hm_ok_def rev_image_eqI split: option.splits dest: map_of_SomeD)

lemma hm_ok_map: "hm_ok (map (\<lambda>(k, v). (k, g v)) m) \<longleftrightarrow> hm_ok m"
  by (simp add: hm_ok_def comp_def case_prod_beta)

lemma hm_get_map: "hm_get (map (\<lambda>(k, v). (k, g v)) m) k = map_option g (hm_get m k)"
  by (induction m) (auto simp: hm_get_def)

lemma hm_length_insert_known: "hm_get m k = Some v \<Longrightarrow> length (hm_insert k x m) = length m"
  by (induction m) (auto simp: hm_get_def hm_insert_def split: if_splits)

section \<open>HTTP answers\<close>

text \<open>A \<open>StatusCode\<close> is its number; an error answer is a status with a code and a message.\<close>

type_synonym status = nat

abbreviation BAD_REQUEST :: status where "BAD_REQUEST \<equiv> 400"
abbreviation UNAUTHORIZED :: status where "UNAUTHORIZED \<equiv> 401"
abbreviation FORBIDDEN :: status where "FORBIDDEN \<equiv> 403"
abbreviation NOT_FOUND :: status where "NOT_FOUND \<equiv> 404"
abbreviation CONFLICT :: status where "CONFLICT \<equiv> 409"
abbreviation PAYLOAD_TOO_LARGE :: status where "PAYLOAD_TOO_LARGE \<equiv> 413"
abbreviation UNPROCESSABLE_ENTITY :: status where "UNPROCESSABLE_ENTITY \<equiv> 422"
abbreviation TOO_MANY_REQUESTS :: status where "TOO_MANY_REQUESTS \<equiv> 429"
abbreviation INTERNAL_SERVER_ERROR :: status where "INTERNAL_SERVER_ERROR \<equiv> 500"
abbreviation BAD_GATEWAY :: status where "BAD_GATEWAY \<equiv> 502"
abbreviation SERVICE_UNAVAILABLE :: status where "SERVICE_UNAVAILABLE \<equiv> 503"

end
