(* ===== verification/JamSource.thy ===== *)
theory JamSource
  imports Prelude
begin

text \<open>
  The registry of the source PC that captures Spotify (\<open>jam_source.rs\<close>): one connection at a
  time, the generation it is asked to capture, the generation it reported ready, the repair in
  flight. The registry is a record; a message sent to a connection is logged with the
  connection's number in \<open>src_sent\<close>, a broadcast in \<open>src_events\<close>. An operation that reads the
  clock takes the reading, and one that sends on a channel takes whether the channel is open.
\<close>

section \<open>Samples\<close>

text \<open>
  An \<open>f32\<close> is its IEEE 754 bits. Below infinity, magnitudes are ordered as their bits are.
\<close>

type_synonym f32 = u32

definition f32_abs :: "f32 \<Rightarrow> f32" where
  "f32_abs x = and x 0x7FFFFFFF"

definition f32_is_finite :: "f32 \<Rightarrow> bool" where
  "f32_is_finite x \<longleftrightarrow> f32_abs x < 0x7F800000"

definition f32_one :: f32 where
  "f32_one = 0x3F800000"

definition f32_clamp_unit :: "f32 \<Rightarrow> f32" where
  "f32_clamp_unit x = (if f32_one < f32_abs x then or (and x 0x80000000) f32_one else x)"

definition AUDIBLE_PEAK_THRESHOLD :: f32 where
  "AUDIBLE_PEAK_THRESHOLD = 0x3A03126F"

section \<open>Data\<close>

definition JAM_SOURCE_PROTOCOL_VERSION :: nat where "JAM_SOURCE_PROTOCOL_VERSION = 3"
definition MAX_AUDIO_MESSAGE_BYTES :: nat where "MAX_AUDIO_MESSAGE_BYTES = 4 * 1024 * 1024"
definition SOURCE_ACTIVITY_TIMEOUT :: nat where "SOURCE_ACTIVITY_TIMEOUT = secs 15"
definition SOURCE_FRAME_STALL_TIMEOUT :: nat where "SOURCE_FRAME_STALL_TIMEOUT = secs 3"
definition CAPTURE_RESTART_DEBOUNCE :: nat where "CAPTURE_RESTART_DEBOUNCE = secs 15"
definition SPOTIFY_CONNECT_REPAIR_CAPABILITY :: string where
  "SPOTIFY_CONNECT_REPAIR_CAPABILITY = ''spotify_connect_repair_v1''"

datatype source_event =
    Connected
  | ConnectionReplaced "u64 option"
  | Disconnected "u64 option"
  | AvailabilityChanged bool "u64 option" "string option"
  | FormatEvent u64 u32 u32
  | ReadyEvent u64 u32
  | RestartingEvent u64
  | ErrorEvent u64 string
  | AudioEvent u64 u32 u32 "f32 list"
  | RepairEvent u64 u64 bool string bool "string option"

datatype spotify_connect_repair_action = Activate | Restart

datatype source_command =
    StartCommand u64
  | StopCommand u64
  | RestartCommand u64
  | RepairCommand u64 spotify_connect_repair_action
  | RepairCancelCommand u64
  | CloseCommand

record spotify_connect_repair_result =
  rep_outcome :: string
  rep_was_running_before :: bool

record source_registry =
  src_configured :: bool
  src_connection :: "u64 option"
  src_availability_known :: bool
  src_enabled :: bool
  src_repair_supported :: bool
  src_pending_repair :: "(u64 \<times> u64) option"
  src_desired_generation :: "u64 option"
  src_ready_generation :: "u64 option"
  src_format_generation :: "u64 option"
  src_sample_rate :: "u32 option"
  src_channels :: "u32 option"
  src_pid :: "u32 option"
  src_status :: string
  src_error :: "string option"
  src_last_activity_at :: "instant option"
  src_ready_at :: "instant option"
  src_last_frame_at :: "instant option"
  src_last_audible_at :: "instant option"
  src_restart_pending_generation :: "u64 option"
  src_last_restart :: "(u64 \<times> instant) option"
  src_peak :: f32
  src_next_connection_id :: u64
  src_next_repair_request_id :: u64
  src_sent :: "(u64 \<times> source_command) list"
  src_events :: "source_event list"

record jam_source_snapshot =
  snap_configured :: bool
  snap_connected :: bool
  snap_availability_known :: bool
  snap_enabled :: bool
  snap_status :: string
  snap_error :: "string option"
  snap_generation :: "u64 option"
  snap_ready :: bool
  snap_pid :: "u32 option"
  snap_sample_rate :: "u32 option"
  snap_channels :: "u32 option"
  snap_last_frame_ms :: "u64 option"
  snap_peak :: f32
  snap_repair_supported :: bool

definition registry_new :: "bool \<Rightarrow> source_registry" where
  "registry_new configured =
     \<lparr>src_configured = configured, src_connection = None, src_availability_known = False,
      src_enabled = False, src_repair_supported = False, src_pending_repair = None,
      src_desired_generation = None, src_ready_generation = None, src_format_generation = None,
      src_sample_rate = None, src_channels = None, src_pid = None,
      src_status = (if configured then ''offline'' else ''unconfigured''), src_error = None,
      src_last_activity_at = None, src_ready_at = None, src_last_frame_at = None,
      src_last_audible_at = None, src_restart_pending_generation = None, src_last_restart = None,
      src_peak = 0, src_next_connection_id = 1, src_next_repair_request_id = 1, src_sent = [],
      src_events = []\<rparr>"

definition send_to :: "u64 \<Rightarrow> source_command \<Rightarrow> source_registry \<Rightarrow> source_registry" where
  "send_to c cmd r = r\<lparr>src_sent := src_sent r @ [(c, cmd)]\<rparr>"

definition broadcast :: "source_event \<Rightarrow> source_registry \<Rightarrow> source_registry" where
  "broadcast ev r = r\<lparr>src_events := src_events r @ [ev]\<rparr>"

text \<open>What every reset of a capture clears.\<close>

definition clear_format :: "source_registry \<Rightarrow> source_registry" where
  "clear_format r = r\<lparr>src_ready_generation := None, src_format_generation := None,
     src_sample_rate := None, src_channels := None, src_pid := None\<rparr>"

definition clear_progress :: "source_registry \<Rightarrow> source_registry" where
  "clear_progress r = r\<lparr>src_ready_at := None, src_last_frame_at := None,
     src_last_audible_at := None, src_restart_pending_generation := None,
     src_last_restart := None, src_peak := 0\<rparr>"

definition older_than :: "nat \<Rightarrow> instant \<Rightarrow> instant option \<Rightarrow> bool" where
  "older_than bound now at = (case at of None \<Rightarrow> True | Some t \<Rightarrow> bound < elapsed now t)"

section \<open>Commands of the Jam\<close>

definition source_start ::
  "source_registry \<Rightarrow> u64 \<Rightarrow> instant \<Rightarrow> bool \<Rightarrow> source_registry \<times> (string + unit)" where
  "source_start r generation now channel_open =
     (if \<not> src_configured r then (r, Inl ''Jam source is not configured'')
      else case src_connection r of
        None \<Rightarrow> (r, Inl ''Configured Jam source is offline'')
      | Some c \<Rightarrow>
          if older_than SOURCE_ACTIVITY_TIMEOUT now (src_last_activity_at r)
          then (r, Inl ''Configured Jam source heartbeat is stale'')
          else if \<not> src_availability_known r
          then (r, Inl ''Jam source availability is still negotiating'')
          else if \<not> src_enabled r then (r, Inl ''Jam source is disabled on the source PC'')
          else if src_pending_repair r \<noteq> None
          then (r, Inl ''Spotify Connect repair is still finishing on the source PC'')
          else if \<not> channel_open then (r, Inl ''Configured Jam source disconnected'')
          else
            (clear_progress (clear_format (send_to c (StartCommand generation) r))
               \<lparr>src_desired_generation := Some generation, src_status := ''starting'',
                src_error := None\<rparr>, Inr ()))"

definition source_stop :: "source_registry \<Rightarrow> u64 \<Rightarrow> bool \<Rightarrow> source_registry" where
  "source_stop r generation channel_open =
     (let r1 = (case src_connection r of
                  Some c \<Rightarrow> if channel_open then send_to c (StopCommand generation) r else r
                | None \<Rightarrow> r)
      in if src_desired_generation r1 = Some generation
         then clear_progress (clear_format r1)
           \<lparr>src_desired_generation := None, src_error := None,
            src_status :=
              (if \<not> src_configured r1 then ''unconfigured''
               else if src_connection r1 = None then ''offline''
               else if \<not> src_availability_known r1 then ''negotiating''
               else if src_enabled r1 then ''ready'' else ''disabled'')\<rparr>
         else r1)"

definition capture_packets_stalled :: "source_registry \<Rightarrow> instant \<Rightarrow> bool" where
  "capture_packets_stalled r now \<longleftrightarrow> src_ready_generation r \<noteq> None
     \<and> (case (case src_last_frame_at r of None \<Rightarrow> src_ready_at r | Some t \<Rightarrow> Some t) of
          None \<Rightarrow> False
        | Some t \<Rightarrow> SOURCE_FRAME_STALL_TIMEOUT < elapsed now t)"

definition restart_stalled_capture ::
  "source_registry \<Rightarrow> u64 \<Rightarrow> instant \<Rightarrow> bool \<Rightarrow> source_registry \<times> bool" where
  "restart_stalled_capture r generation now channel_open =
     (if src_desired_generation r \<noteq> Some generation \<or> src_ready_generation r \<noteq> Some generation
         \<or> \<not> src_availability_known r \<or> \<not> src_enabled r \<or> \<not> capture_packets_stalled r now
         \<or> older_than SOURCE_ACTIVITY_TIMEOUT now (src_last_activity_at r)
      then (r, False)
      else if (case src_last_restart r of None \<Rightarrow> False
               | Some (g, at) \<Rightarrow> g = generation \<and> elapsed now at < CAPTURE_RESTART_DEBOUNCE)
      then (r, False)
      else case src_connection r of
        None \<Rightarrow> (r, False)
      | Some c \<Rightarrow>
          if \<not> channel_open then (r, False)
          else ((send_to c (RestartCommand generation) r)
                  \<lparr>src_restart_pending_generation := Some generation,
                   src_last_restart := Some (generation, now)\<rparr>, True))"

text \<open>
  A repair takes the next request number and, under the registry's lock, claims the repair slot
  of the current connection; its answer is then awaited among the broadcasts. The number is
  taken even where the claim is refused, and a passed deadline refuses before it is taken.
\<close>

definition begin_spotify_repair ::
  "source_registry \<Rightarrow> spotify_connect_repair_action \<Rightarrow> bool \<Rightarrow> instant \<Rightarrow> bool
   \<Rightarrow> source_registry \<times> (string + u64 \<times> u64)" where
  "begin_spotify_repair r action deadline_passed now channel_open =
     (if deadline_passed then (r, Inl ''Spotify Connect repair start deadline expired'')
      else
        let request_id = src_next_repair_request_id r;
            r1 = r\<lparr>src_next_repair_request_id := request_id + 1\<rparr>
        in if older_than SOURCE_ACTIVITY_TIMEOUT now (src_last_activity_at r1)
           then (r1, Inl ''Echo Jam source heartbeat is stale'')
           else if \<not> src_repair_supported r1
           then (r1, Inl ''The Echo Jam source desktop app does not support Spotify Connect repair; update it before retrying'')
           else if src_pending_repair r1 \<noteq> None
           then (r1, Inl ''A Spotify Connect repair is already running'')
           else case src_connection r1 of
             None \<Rightarrow> (r1, Inl ''Echo Jam source is offline'')
           | Some c \<Rightarrow>
               if \<not> channel_open
               then (r1, Inl ''Echo Jam source disconnected during Spotify Connect repair'')
               else ((send_to c (RepairCommand request_id action) r1)
                       \<lparr>src_pending_repair := Some (c, request_id)\<rparr>, Inr (c, request_id)))"

text \<open>
  \<open>await_repair_reply\<close> reads the broadcasts received before the deadline; None is the deadline,
  on which the caller's guard sends the cancel command.
\<close>

fun await_repair_reply ::
  "u64 \<Rightarrow> u64 \<Rightarrow> source_event list \<Rightarrow> (string + spotify_connect_repair_result) option" where
  "await_repair_reply c req [] = None"
| "await_repair_reply c req (RepairEvent c' req' success outcome was_running error # evs) =
     (if c' = c \<and> req' = req then
        Some (if success then Inr \<lparr>rep_outcome = outcome, rep_was_running_before = was_running\<rparr>
              else Inl (or_default ''Spotify Connect repair failed on the source PC'' error))
      else await_repair_reply c req evs)"
| "await_repair_reply c req (ConnectionReplaced g # evs) =
     Some (Inl ''Echo Jam source disconnected during Spotify Connect repair'')"
| "await_repair_reply c req (Disconnected g # evs) =
     Some (Inl ''Echo Jam source disconnected during Spotify Connect repair'')"
| "await_repair_reply c req (ev # evs) = await_repair_reply c req evs"

definition finish_spotify_repair ::
  "source_registry \<Rightarrow> u64 \<Rightarrow> u64 \<Rightarrow> source_event list
   \<Rightarrow> source_registry \<times> (string + spotify_connect_repair_result)" where
  "finish_spotify_repair r c req evs =
     (case await_repair_reply c req evs of
        Some reply \<Rightarrow> (r, reply)
      | None \<Rightarrow> (send_to c (RepairCancelCommand req) r,
                 Inl ''Spotify Connect repair timed out on the source PC''))"

section \<open>The state the Jam reads\<close>

definition activity_stale :: "source_registry \<Rightarrow> instant \<Rightarrow> bool" where
  "activity_stale r now \<longleftrightarrow> src_connection r \<noteq> None
     \<and> older_than SOURCE_ACTIVITY_TIMEOUT now (src_last_activity_at r)"

definition last_frame_ms :: "source_registry \<Rightarrow> instant \<Rightarrow> u64 option" where
  "last_frame_ms r now = map_option (elapsed_ms now) (src_last_frame_at r)"

definition snapshot_status :: "source_registry \<Rightarrow> instant \<Rightarrow> string" where
  "snapshot_status r now =
     (if \<not> src_configured r then ''unconfigured''
      else if src_connection r = None \<or> activity_stale r now then ''offline''
      else if \<not> src_availability_known r then ''negotiating''
      else if \<not> src_enabled r then ''disabled''
      else if src_error r \<noteq> None then ''error''
      else if src_desired_generation r \<noteq> None
              \<and> src_ready_generation r \<noteq> src_desired_generation r then ''starting''
      else if src_ready_generation r \<noteq> None then
        (case last_frame_ms r now of
           None \<Rightarrow> if capture_packets_stalled r now then ''stalled'' else ''ready''
         | Some age \<Rightarrow>
             if 3000 < age then ''stalled''
             else if (case src_last_audible_at r of None \<Rightarrow> False
                      | Some t \<Rightarrow> as_millis (elapsed now t) \<le> 2000) then ''live''
             else ''silent'')
      else src_status r)"

definition snapshot :: "source_registry \<Rightarrow> instant \<Rightarrow> jam_source_snapshot" where
  "snapshot r now =
     \<lparr>snap_configured = src_configured r,
      snap_connected = (src_connection r \<noteq> None \<and> \<not> activity_stale r now),
      snap_availability_known = src_availability_known r,
      snap_enabled = src_enabled r,
      snap_status = snapshot_status r now,
      snap_error = (if activity_stale r now then Some ''Jam source heartbeat timed out''
                    else src_error r),
      snap_generation = src_desired_generation r,
      snap_ready = (\<not> activity_stale r now \<and> src_availability_known r \<and> src_enabled r
        \<and> src_desired_generation r \<noteq> None
        \<and> src_ready_generation r = src_desired_generation r),
      snap_pid = src_pid r,
      snap_sample_rate = src_sample_rate r,
      snap_channels = src_channels r,
      snap_last_frame_ms = last_frame_ms r now,
      snap_peak = src_peak r,
      snap_repair_supported = src_repair_supported r\<rparr>"

section \<open>Connections\<close>

definition register :: "source_registry \<Rightarrow> instant \<Rightarrow> bool \<Rightarrow> source_registry \<times> u64" where
  "register r now old_channel_open =
     (let connection_id = src_next_connection_id r;
          old = src_connection r;
          replaced_generation = (if old = None then None else src_desired_generation r);
          r1 = clear_progress (clear_format r)
            \<lparr>src_next_connection_id := connection_id + 1,
             src_connection := Some connection_id,
             src_desired_generation :=
               (if replaced_generation \<noteq> None then None else src_desired_generation r),
             src_availability_known := False, src_enabled := False,
             src_repair_supported := False, src_pending_repair := None,
             src_status := (if src_configured r then ''negotiating'' else ''unconfigured''),
             src_error := None, src_last_activity_at := Some now\<rparr>
      in (case old of
            None \<Rightarrow> broadcast Connected r1
          | Some c \<Rightarrow>
              broadcast (ConnectionReplaced replaced_generation)
                (if old_channel_open then send_to c CloseCommand r1 else r1),
          connection_id))"

definition unregister :: "source_registry \<Rightarrow> u64 \<Rightarrow> source_registry" where
  "unregister r connection_id =
     (if src_connection r = Some connection_id then
        broadcast (Disconnected (src_desired_generation r))
          (clear_progress (clear_format r)
            \<lparr>src_connection := None, src_desired_generation := None,
             src_availability_known := False, src_enabled := False,
             src_repair_supported := False, src_pending_repair := None,
             src_last_activity_at := None,
             src_status := (if src_configured r then ''offline'' else ''unconfigured'')\<rparr>)
      else r)"

section \<open>Messages of the source\<close>

datatype source_text_message =
    Availability bool "string option" "string list"
  | Format u64 u32 u32
  | Ready u64 u32
  | SourceError u64 string
  | Heartbeat u64
  | Restarting u64
  | SpotifyConnectRepair u64 bool string bool "string option"

definition bounded_error :: "string option \<Rightarrow> string option" where
  "bounded_error error =
     (case map_option (take_chars 500) error of
        None \<Rightarrow> None | Some m \<Rightarrow> if blank m then None else Some m)"

definition capture_generation_open :: "source_registry \<Rightarrow> u64 \<Rightarrow> bool" where
  "capture_generation_open r generation \<longleftrightarrow>
     src_availability_known r \<and> src_enabled r \<and> src_desired_generation r = Some generation"

text \<open>A message of the current connection, by its kind.\<close>

fun handle_message ::
  "source_registry \<Rightarrow> u64 \<Rightarrow> source_text_message \<Rightarrow> instant \<Rightarrow> bool \<Rightarrow> source_registry" where
  "handle_message r c (Availability enabled error capabilities) now channel_open =
     (let r1 = r\<lparr>src_last_activity_at := Some now, src_availability_known := True,
                src_enabled := enabled,
                src_repair_supported := SPOTIFY_CONNECT_REPAIR_CAPABILITY \<in> set capabilities\<rparr>;
          error = bounded_error error
      in if enabled then
           let r2 = r1\<lparr>src_error := None,
                 src_status := (if src_desired_generation r1 \<noteq> None then ''starting'' else ''ready'')\<rparr>;
               r3 = (case src_desired_generation r2 of
                       Some g \<Rightarrow> if channel_open then send_to c (StartCommand g) r2 else r2
                     | None \<Rightarrow> r2)
           in broadcast (AvailabilityChanged enabled (src_desired_generation r3) None) r3
         else
           broadcast (AvailabilityChanged enabled (src_desired_generation r1) error)
             (clear_progress (clear_format r1)
               \<lparr>src_desired_generation := None, src_status := ''disabled'', src_error := error\<rparr>))"
| "handle_message r c (Format generation sample_rate channels) now channel_open =
     (if \<not> capture_generation_open r generation
         \<or> \<not> (8000 \<le> sample_rate \<and> sample_rate \<le> 192000) \<or> \<not> (1 \<le> channels \<and> channels \<le> 8)
      then r
      else broadcast (FormatEvent generation sample_rate channels)
        (r\<lparr>src_last_activity_at := Some now, src_format_generation := Some generation,
           src_sample_rate := Some sample_rate, src_channels := Some channels\<rparr>))"
| "handle_message r c (Ready generation pid) now channel_open =
     (if \<not> capture_generation_open r generation then r
      else broadcast (ReadyEvent generation pid)
        (r\<lparr>src_last_activity_at := Some now, src_ready_generation := Some generation,
           src_ready_at := Some now, src_pid := Some pid, src_status := ''ready'',
           src_error := None, src_last_frame_at := None, src_last_audible_at := None,
           src_peak := 0\<rparr>))"
| "handle_message r c (SourceError generation message) now channel_open =
     (if \<not> capture_generation_open r generation then r
      else
        let message = take_chars 500 message in
        broadcast (ErrorEvent generation message)
          (r\<lparr>src_last_activity_at := Some now, src_ready_generation := None,
             src_ready_at := None, src_status := ''error'', src_error := Some message\<rparr>))"
| "handle_message r c (Heartbeat generation) now channel_open =
     (if (case src_desired_generation r of Some desired \<Rightarrow> generation = desired
          | None \<Rightarrow> generation = 0)
      then r\<lparr>src_last_activity_at := Some now\<rparr> else r)"
| "handle_message r c (Restarting generation) now channel_open =
     (if \<not> capture_generation_open r generation
         \<or> src_restart_pending_generation r \<noteq> Some generation
      then r
      else broadcast (RestartingEvent generation)
        ((clear_format r)
           \<lparr>src_last_activity_at := Some now, src_status := ''starting'', src_error := None,
            src_ready_at := None, src_last_frame_at := None, src_last_audible_at := None,
            src_restart_pending_generation := None, src_peak := 0\<rparr>))"
| "handle_message r c (SpotifyConnectRepair request_id success outcome was_running error) now
     channel_open =
     (if src_pending_repair r \<noteq> Some (c, request_id) then r
      else broadcast (RepairEvent c request_id success (take_chars 100 outcome) was_running
             (bounded_error error))
        (r\<lparr>src_pending_repair := None, src_last_activity_at := Some now\<rparr>))"

text \<open>A message that does not parse, or comes from another connection, changes nothing.\<close>

definition handle_text ::
  "source_registry \<Rightarrow> u64 \<Rightarrow> source_text_message option \<Rightarrow> instant \<Rightarrow> bool \<Rightarrow> source_registry" where
  "handle_text r connection_id message now channel_open =
     (case message of None \<Rightarrow> r
      | Some m \<Rightarrow>
          if src_connection r \<noteq> Some connection_id then r
          else handle_message r connection_id m now channel_open)"

section \<open>Audio\<close>

definition u32_from_le_bytes :: "u8 list \<Rightarrow> u32" where
  "u32_from_le_bytes bs = of_nat (foldr (\<lambda>b acc. unat b + 256 * acc) bs 0)"

definition u64_from_le_bytes :: "u8 list \<Rightarrow> u64" where
  "u64_from_le_bytes bs = of_nat (foldr (\<lambda>b acc. unat b + 256 * acc) bs 0)"

fun chunks4 :: "u8 list \<Rightarrow> u8 list list" where
  "chunks4 (a # b # c # d # bs) = [a, b, c, d] # chunks4 bs"
| "chunks4 bs = []"

text \<open>The loop over the samples: None where a sample is not finite.\<close>

fun decode_samples :: "f32 list \<Rightarrow> f32 \<Rightarrow> (f32 list \<times> f32) option" where
  "decode_samples [] peak = Some ([], peak)"
| "decode_samples (x # xs) peak =
     (if \<not> f32_is_finite x then None
      else map_option (\<lambda>(ys, p). (f32_clamp_unit x # ys, p))
             (decode_samples xs (max peak (f32_abs x))))"

text \<open>The guards of \<open>handle_audio\<close> in their order, then the decoded frame with its peak.\<close>

definition accepted_audio ::
  "source_registry \<Rightarrow> u64 \<Rightarrow> u8 list \<Rightarrow> (u64 \<times> u32 \<times> u32 \<times> f32 list \<times> f32) option" where
  "accepted_audio r connection_id bytes =
     (if length bytes < 12 \<or> MAX_AUDIO_MESSAGE_BYTES < length bytes
         \<or> (length bytes - 8) mod 4 \<noteq> 0
      then None
      else
        let generation = u64_from_le_bytes (take 8 bytes) in
        if src_connection r \<noteq> Some connection_id then None
        else if \<not> capture_generation_open r generation
                \<or> src_ready_generation r \<noteq> Some generation
                \<or> src_format_generation r \<noteq> Some generation
        then None
        else case src_sample_rate r of None \<Rightarrow> None | Some sample_rate \<Rightarrow>
            (case src_channels r of None \<Rightarrow> None | Some channels \<Rightarrow>
               if ((length bytes - 8) div 4) mod unat channels \<noteq> 0 then None
               else case decode_samples (map u32_from_le_bytes (chunks4 (drop 8 bytes))) 0 of
                 None \<Rightarrow> None
               | Some (samples, peak) \<Rightarrow>
                   if samples = [] then None
                   else Some (generation, sample_rate, channels, samples, peak)))"

definition handle_audio ::
  "source_registry \<Rightarrow> u64 \<Rightarrow> u8 list \<Rightarrow> instant \<Rightarrow> source_registry" where
  "handle_audio r connection_id bytes now =
     (case accepted_audio r connection_id bytes of
        None \<Rightarrow> r
      | Some (generation, sample_rate, channels, samples, peak) \<Rightarrow>
          broadcast (AudioEvent generation sample_rate channels samples)
            (r\<lparr>src_last_activity_at := Some now, src_last_frame_at := Some now,
               src_peak := peak,
               src_last_audible_at :=
                 (if AUDIBLE_PEAK_THRESHOLD \<le> peak then Some now
                  else src_last_audible_at r)\<rparr>))"

section \<open>Admission of a source\<close>

definition constant_time_eq :: "u8 list \<Rightarrow> u8 list \<Rightarrow> bool" where
  "constant_time_eq left right =
     (if length left \<noteq> length right then False
      else fold (\<lambda>(l, r) difference. or difference (xor l r)) (zip left right) 0 = (0 :: u8))"

definition bytes_of :: "string \<Rightarrow> u8 list" where
  "bytes_of s = map of_char s"

definition jam_source_ws_admit ::
  "string option \<Rightarrow> string option \<Rightarrow> string \<Rightarrow> nat \<Rightarrow> string option \<Rightarrow> status + unit" where
  "jam_source_ws_admit configured_id configured_token source_id protocol authorization =
     (case configured_id of None \<Rightarrow> Inl SERVICE_UNAVAILABLE
      | Some configured_id \<Rightarrow>
     (case configured_token of None \<Rightarrow> Inl SERVICE_UNAVAILABLE
      | Some configured_token \<Rightarrow>
          if protocol \<noteq> JAM_SOURCE_PROTOCOL_VERSION \<or> source_id \<noteq> configured_id
          then Inl FORBIDDEN
          else
           (case authorization of None \<Rightarrow> Inl UNAUTHORIZED
            | Some h \<Rightarrow>
           (case strip_prefix ''Bearer '' h of None \<Rightarrow> Inl UNAUTHORIZED
            | Some supplied_token \<Rightarrow>
                if \<not> constant_time_eq (bytes_of supplied_token) (bytes_of configured_token)
                then Inl UNAUTHORIZED else Inr ()))))"

section \<open>The invariant of the registry\<close>

definition format_in_range :: "u32 option \<Rightarrow> u32 option \<Rightarrow> bool" where
  "format_in_range rate channels \<longleftrightarrow> (\<exists>n ch. rate = Some n \<and> 8000 \<le> n \<and> n \<le> 192000
     \<and> channels = Some ch \<and> 1 \<le> ch \<and> ch \<le> 8)"

definition source_ok :: "source_registry \<Rightarrow> bool" where
  "source_ok r \<longleftrightarrow>
     (src_connection r = None \<longrightarrow> \<not> src_availability_known r \<and> src_pending_repair r = None
        \<and> \<not> src_repair_supported r)
   \<and> (src_enabled r \<longrightarrow> src_availability_known r)
   \<and> (\<forall>g. src_desired_generation r = Some g \<longrightarrow> src_enabled r \<and> src_configured r)
   \<and> (\<forall>g. src_ready_generation r = Some g \<longrightarrow>
        src_desired_generation r = Some g \<and> src_error r = None)
   \<and> (\<forall>g. src_format_generation r = Some g \<longrightarrow>
        src_desired_generation r = Some g \<and> format_in_range (src_sample_rate r) (src_channels r))
   \<and> (\<forall>g. src_restart_pending_generation r = Some g \<longrightarrow> src_desired_generation r = Some g)
   \<and> (\<forall>g t. src_last_restart r = Some (g, t) \<longrightarrow> src_desired_generation r = Some g)
   \<and> (\<forall>c q. src_pending_repair r = Some (c, q) \<longrightarrow> src_connection r = Some c)"

lemma send_to_sel [simp]:
  "src_connection (send_to c m r) = src_connection r"
  "src_configured (send_to c m r) = src_configured r"
  "src_desired_generation (send_to c m r) = src_desired_generation r"
  "src_ready_generation (send_to c m r) = src_ready_generation r"
  "src_format_generation (send_to c m r) = src_format_generation r"
  "src_availability_known (send_to c m r) = src_availability_known r"
  "src_enabled (send_to c m r) = src_enabled r"
  "src_last_restart (send_to c m r) = src_last_restart r"
  "src_events (send_to c m r) = src_events r"
  "src_sent (send_to c m r) = src_sent r @ [(c, m)]"
  "src_last_activity_at (send_to c m r) = src_last_activity_at r"
  "src_error (send_to c m r) = src_error r"
  by (simp_all add: send_to_def)

lemma broadcast_sel [simp]:
  "src_connection (broadcast ev r) = src_connection r"
  "src_desired_generation (broadcast ev r) = src_desired_generation r"
  "src_ready_generation (broadcast ev r) = src_ready_generation r"
  "src_last_restart (broadcast ev r) = src_last_restart r"
  "src_events (broadcast ev r) = src_events r @ [ev]"
  "src_sent (broadcast ev r) = src_sent r"
  by (simp_all add: broadcast_def)

lemma source_ok_send [simp]: "source_ok (send_to c m r) = source_ok r"
  by (simp add: source_ok_def send_to_def)

lemma source_ok_broadcast [simp]: "source_ok (broadcast ev r) = source_ok r"
  by (simp add: source_ok_def broadcast_def)

lemmas clear_defs = clear_format_def clear_progress_def

lemma source_ok_new [simp]: "source_ok (registry_new configured)"
  by (simp add: source_ok_def registry_new_def)

lemmas source_ok_simps = source_ok_def clear_defs send_to_def broadcast_def

lemma source_ok_offline:
  assumes "source_ok r" and "src_connection r = None"
  shows "src_availability_known r = False" "src_enabled r = False"
    "src_desired_generation r = None" "src_pending_repair r = None" "src_repair_supported r = False"
  using assms by (auto simp: source_ok_def intro: option.exhaust [of "src_desired_generation r"])

lemma source_start_ok: "source_ok r \<Longrightarrow> source_ok (fst (source_start r g now op))"
  by (cases "src_connection r"; simp add: source_start_def)
    (simp add: source_ok_simps)

lemma source_stop_ok: "source_ok r \<Longrightarrow> source_ok (source_stop r g op)"
  by (cases "src_connection r"; simp add: source_stop_def Let_def source_ok_offline)
    (auto simp: source_ok_simps)

lemma restart_ok: "source_ok r \<Longrightarrow> source_ok (fst (restart_stalled_capture r g now op))"
  by (cases "src_connection r"; simp add: restart_stalled_capture_def source_ok_offline)
    (auto simp: source_ok_simps)

lemma begin_repair_ok: "source_ok r \<Longrightarrow> source_ok (fst (begin_spotify_repair r a d now op))"
  by (cases "src_connection r"; simp add: begin_spotify_repair_def Let_def source_ok_offline)
    (auto simp: source_ok_simps)

lemma finish_repair_ok: "source_ok r \<Longrightarrow> source_ok (fst (finish_spotify_repair r c q evs))"
  by (simp add: finish_spotify_repair_def split: option.splits)

lemma register_ok: "source_ok r \<Longrightarrow> source_ok (fst (register r now op))"
  unfolding register_def Let_def
  by (simp add: source_ok_simps split: option.split) blast?

lemma unregister_ok: "source_ok r \<Longrightarrow> source_ok (unregister r c)"
  unfolding unregister_def
  by (simp add: source_ok_simps)

lemma handle_message_ok:
  assumes "source_ok r" and "src_connection r = Some c"
  shows "source_ok (handle_message r c m now op)"
proof (cases m)
  case (Availability enabled error caps)
  with assms show ?thesis
    by (cases "src_desired_generation r"; cases enabled; cases "bounded_error error")
      (auto simp: source_ok_simps Let_def)
next
  case (Format g n ch)
  with assms show ?thesis
    by (auto simp: source_ok_simps format_in_range_def capture_generation_open_def)
next
  case (Ready g pid)
  with assms show ?thesis by (auto simp: source_ok_simps capture_generation_open_def)
next
  case (SourceError g msg)
  with assms show ?thesis by (auto simp: source_ok_simps capture_generation_open_def Let_def)
next
  case (Heartbeat g)
  with assms show ?thesis by (auto simp: source_ok_simps split: option.split)
next
  case (Restarting g)
  have "source_ok (clear_format r
      \<lparr>src_last_activity_at := Some now, src_status := ''starting'', src_error := None,
       src_ready_at := None, src_last_frame_at := None, src_last_audible_at := None,
       src_restart_pending_generation := None, src_peak := 0\<rparr>)"
    using assms by (simp add: source_ok_def clear_format_def)
  with Restarting assms(1) show ?thesis by simp
next
  case (SpotifyConnectRepair q ok out run err)
  have "source_ok (r\<lparr>src_pending_repair := None, src_last_activity_at := Some now\<rparr>)"
    using assms by (simp add: source_ok_def)
  with SpotifyConnectRepair assms(1) show ?thesis by simp
qed

lemma handle_text_ok: "source_ok r \<Longrightarrow> source_ok (handle_text r c m now op)"
  by (auto simp: handle_text_def handle_message_ok split: option.splits)

lemma accepted_audio_Some:
  assumes "accepted_audio r c bytes = Some (g, rate, ch, samples, peak)"
  shows "src_connection r = Some c" and "capture_generation_open r g"
    and "src_ready_generation r = Some g" and "src_format_generation r = Some g"
    and "src_sample_rate r = Some rate" and "src_channels r = Some ch"
    and "decode_samples (map u32_from_le_bytes (chunks4 (drop 8 bytes))) 0 = Some (samples, peak)"
    and "samples \<noteq> []" and "((length bytes - 8) div 4) mod unat ch = 0"
    and "12 \<le> length bytes" and "(length bytes - 8) mod 4 = 0"
  using assms unfolding accepted_audio_def Let_def
  by (simp_all split: if_split_asm option.split_asm prod.split_asm)

lemma handle_audio_ok:
  assumes "source_ok r"
  shows "source_ok (handle_audio r c bytes now)"
proof -
  have "source_ok (r\<lparr>src_last_activity_at := Some now, src_last_frame_at := Some now,
      src_peak := peak, src_last_audible_at := x\<rparr>)" for peak x
    using assms by (simp add: source_ok_def)
  then show ?thesis using assms by (simp add: handle_audio_def split: option.split)
qed

section \<open>The registry as a state machine\<close>

inductive source_step :: "source_registry \<Rightarrow> source_registry \<Rightarrow> bool" where
  start: "source_step r (fst (source_start r g now op))"
| stop: "source_step r (source_stop r g op)"
| restart: "source_step r (fst (restart_stalled_capture r g now op))"
| begin_repair: "source_step r (fst (begin_spotify_repair r a late now op))"
| finish_repair: "source_step r (fst (finish_spotify_repair r c q evs))"
| connect: "source_step r (fst (register r now op))"
| disconnect: "source_step r (unregister r c)"
| text_message: "source_step r (handle_text r c m now op)"
| audio_message: "source_step r (handle_audio r c bytes now)"

lemma source_step_ok: "source_step r r' \<Longrightarrow> source_ok r \<Longrightarrow> source_ok r'"
  by (induction rule: source_step.induct)
    (auto intro: source_start_ok source_stop_ok restart_ok begin_repair_ok finish_repair_ok
      register_ok unregister_ok handle_text_ok handle_audio_ok)

lemma source_steps_ok: "source_step\<^sup>*\<^sup>* r r' \<Longrightarrow> source_ok r \<Longrightarrow> source_ok r'"
  by (induction rule: rtranclp_induct) (auto intro: source_step_ok)

lemma reachable_source_ok: "source_step\<^sup>*\<^sup>* (registry_new configured) r \<Longrightarrow> source_ok r"
  using source_ok_new by (rule source_steps_ok [rotated])

text \<open>A message from a connection that is not the current one changes nothing.\<close>

lemma stale_connection_ignored:
  assumes "src_connection r \<noteq> Some c"
  shows "handle_text r c m now op = r" and "handle_audio r c bytes now = r" and "unregister r c = r"
  using assms by (auto simp: handle_text_def handle_audio_def accepted_audio_def Let_def
      unregister_def split: option.splits)

section \<open>What a ready source promises\<close>

lemma ready_status:
  assumes "source_ok r" and "src_configured r" and "src_connection r \<noteq> None"
    and "\<not> activity_stale r now" and "src_enabled r" and "src_availability_known r"
    and "src_desired_generation r = Some g" and "src_ready_generation r = Some g"
  shows "snapshot_status r now \<in> {''ready'', ''live'', ''silent'', ''stalled''}"
proof -
  have "src_error r = None" using assms(1,8) by (simp add: source_ok_def)
  with assms show ?thesis
    by (simp add: snapshot_status_def split: option.split)
qed

lemma snapshot_ready:
  assumes "source_ok r" and "snap_ready (snapshot r now)"
  shows "snap_status (snapshot r now) \<in> {''ready'', ''live'', ''silent'', ''stalled''}"
    and "snap_connected (snapshot r now)" and "snap_configured (snapshot r now)"
    and "snap_error (snapshot r now) = None" and "snap_generation (snapshot r now) \<noteq> None"
proof -
  obtain g where g: "src_desired_generation r = Some g" "src_ready_generation r = Some g"
    and rest: "\<not> activity_stale r now" "src_availability_known r" "src_enabled r"
    using assms(2) by (auto simp: snapshot_def)
  have conf: "src_configured r" using assms(1) g by (simp add: source_ok_def)
  have conn: "src_connection r \<noteq> None" using assms(1) rest(2) source_ok_offline(1) by auto
  have err: "src_error r = None" using assms(1) g(2) by (simp add: source_ok_def)
  show "snap_status (snapshot r now) \<in> {''ready'', ''live'', ''silent'', ''stalled''}"
    using ready_status [OF assms(1) conf conn rest(1) rest(3) rest(2) g] by (simp add: snapshot_def)
  show "snap_connected (snapshot r now)" "snap_configured (snapshot r now)"
    "snap_error (snapshot r now) = None" "snap_generation (snapshot r now) \<noteq> None"
    using conf conn err g rest by (simp_all add: snapshot_def)
qed

section \<open>Audio frames\<close>

lemma length_chunks4: "length (chunks4 bs) = length bs div 4"
  by (induction bs rule: chunks4.induct) simp_all

lemma decode_samples_Some:
  "decode_samples xs p = Some (ys, q) \<Longrightarrow>
     length ys = length xs \<and> list_all f32_is_finite xs \<and> ys = map f32_clamp_unit xs
     \<and> p \<le> q \<and> (\<forall>x \<in> set xs. f32_abs x \<le> q)"
proof (induction xs arbitrary: p ys q)
  case (Cons x xs)
  then show ?case by (auto split: if_splits) fastforce+
qed simp

lemma f32_clamp_unit_bound: "f32_abs (f32_clamp_unit x) \<le> f32_one"
proof (cases "f32_one < f32_abs x")
  case True
  have "and (or (and x 0x80000000) 0x3F800000) 0x7FFFFFFF = (0x3F800000 :: f32)"
    by (simp add: bit.conj_disj_distrib2 and.assoc)
  with True show ?thesis by (simp add: f32_clamp_unit_def f32_abs_def f32_one_def)
qed (simp add: f32_clamp_unit_def)

definition audio_event_ok :: "source_event \<Rightarrow> bool" where
  "audio_event_ok ev \<longleftrightarrow>
     (case ev of
        AudioEvent g rate ch samples \<Rightarrow>
          8000 \<le> rate \<and> rate \<le> 192000 \<and> 1 \<le> ch \<and> ch \<le> 8 \<and> samples \<noteq> []
          \<and> length samples mod unat ch = 0 \<and> list_all (\<lambda>x. f32_abs x \<le> f32_one) samples
      | _ \<Rightarrow> True)"

lemma audio_event_ok_other [simp]:
  "audio_event_ok Connected" "audio_event_ok (ConnectionReplaced g)" "audio_event_ok (Disconnected g)"
  "audio_event_ok (AvailabilityChanged b g e)" "audio_event_ok (FormatEvent n rate ch)"
  "audio_event_ok (ReadyEvent n pid)" "audio_event_ok (RestartingEvent n)"
  "audio_event_ok (ErrorEvent n m)" "audio_event_ok (RepairEvent c q b out run err)"
  by (simp_all add: audio_event_ok_def)

lemma accepted_audio_ok:
  assumes "source_ok r" and "accepted_audio r c bytes = Some (g, rate, ch, samples, peak)"
  shows "audio_event_ok (AudioEvent g rate ch samples)"
proof -
  note acc = accepted_audio_Some [OF assms(2)]
  have "format_in_range (src_sample_rate r) (src_channels r)"
    using assms(1) acc(4) by (simp add: source_ok_def)
  moreover have "samples = map f32_clamp_unit (map u32_from_le_bytes (chunks4 (drop 8 bytes)))"
    and "length samples = (length bytes - 8) div 4"
    using decode_samples_Some [OF acc(7)] by (simp_all add: length_chunks4)
  ultimately show ?thesis
    using acc(5,6,8,9)
    by (auto simp: audio_event_ok_def format_in_range_def list_all_iff f32_clamp_unit_bound)
qed

lemma events_of_step:
  assumes "source_step r r'" and "source_ok r" and "list_all audio_event_ok (src_events r)"
  shows "list_all audio_event_ok (src_events r')"
  using assms
proof (induction rule: source_step.induct)
  case (start r g now op)
  then show ?case by (simp add: source_start_def clear_defs split: option.split)
next
  case (stop r g op)
  then show ?case by (simp add: source_stop_def clear_defs Let_def split: option.split)
next
  case (restart r g now op)
  then show ?case by (simp add: restart_stalled_capture_def split: option.split)
next
  case (begin_repair r a late now op)
  then show ?case by (simp add: begin_spotify_repair_def Let_def split: option.split)
next
  case (finish_repair r c q evs)
  then show ?case by (simp add: finish_spotify_repair_def split: option.split)
next
  case (connect r now op)
  then show ?case
    by (simp add: register_def clear_defs Let_def split: option.split)
next
  case (disconnect r c)
  then show ?case by (simp add: unregister_def clear_defs)
next
  case (text_message r c m now op)
  have "list_all audio_event_ok (src_events (handle_message r c x now op))" for x
    using text_message(2)
    by (cases x) (auto simp: clear_defs Let_def split: option.split)
  with text_message(2) show ?case by (simp add: handle_text_def split: option.split)
next
  case (audio_message r c bytes now)
  then show ?case
    using accepted_audio_ok [of r c bytes] by (auto simp: handle_audio_def split: option.split)
qed

lemma reachable_events_ok:
  "source_step\<^sup>*\<^sup>* (registry_new configured) r \<Longrightarrow> source_ok r \<and> list_all audio_event_ok (src_events r)"
proof (induction rule: rtranclp_induct)
  case (step r r')
  then show ?case using source_step_ok events_of_step by blast
qed (simp_all add: registry_new_def source_ok_def)

section \<open>Debounced restarts\<close>

definition restarted_at :: "u64 \<Rightarrow> instant \<Rightarrow> source_registry \<Rightarrow> bool" where
  "restarted_at g t r \<longleftrightarrow> src_last_restart r = Some (g, t) \<or> src_desired_generation r = None"

lemma restart_accepted:
  "restart_stalled_capture r g now op = (r', True) \<Longrightarrow> src_last_restart r' = Some (g, now)
     \<and> src_desired_generation r' = Some g \<and> (\<exists>c. src_connection r = Some c
     \<and> src_sent r' = src_sent r @ [(c, RestartCommand g)])"
  by (auto simp: restart_stalled_capture_def split: if_splits option.splits)

lemma messages_keep_restart:
  assumes "restarted_at g t r"
  shows "restarted_at g t (handle_text r c m now op)" and "restarted_at g t (handle_audio r c bs now)"
proof -
  have "restarted_at g t (handle_message r c x now op)" for x
    using assms by (cases x) (auto simp: restarted_at_def clear_defs Let_def split: option.split)
  then show "restarted_at g t (handle_text r c m now op)"
    using assms by (simp add: handle_text_def split: option.split)
  show "restarted_at g t (handle_audio r c bs now)"
    using assms by (auto simp: restarted_at_def handle_audio_def split: option.split)
qed

datatype source_input =
    TextInput u64 "source_text_message option" instant bool
  | AudioInput u64 "u8 list" instant

fun receive :: "source_input \<Rightarrow> source_registry \<Rightarrow> source_registry" where
  "receive (TextInput c m now op) r = handle_text r c m now op"
| "receive (AudioInput c bs now) r = handle_audio r c bs now"

lemma receive_all_keeps_restart:
  "restarted_at g t r \<Longrightarrow> restarted_at g t (fold receive inputs r)"
proof (induction inputs arbitrary: r)
  case (Cons i inputs)
  then show ?case by (cases i) (auto intro: messages_keep_restart)
qed simp

lemma restart_debounced:
  "restarted_at g t r \<Longrightarrow> elapsed now t < CAPTURE_RESTART_DEBOUNCE \<Longrightarrow>
     restart_stalled_capture r g now op = (r, False)"
  by (auto simp: restarted_at_def restart_stalled_capture_def)

section \<open>Repairs\<close>

lemma begin_repair_accepted:
  "begin_spotify_repair r a late now op = (r', Inr (c, q)) \<Longrightarrow>
     src_pending_repair r = None \<and> src_pending_repair r' = Some (c, q)
     \<and> src_connection r = Some c \<and> src_sent r' = src_sent r @ [(c, RepairCommand q a)]"
  by (cases "src_pending_repair r") (auto simp: begin_spotify_repair_def Let_def split: if_splits option.splits)

lemma repair_reply_event:
  "await_repair_reply c q evs = Some (Inr res) \<Longrightarrow>
     \<exists>error. RepairEvent c q True (rep_outcome res) (rep_was_running_before res) error \<in> set evs"
  by (induction c q evs rule: await_repair_reply.induct) (auto split: if_splits)

section \<open>Tokens\<close>

lemma or_eq_zero: "or (a :: u8) b = 0 \<longleftrightarrow> a = 0 \<and> b = 0"
  by (auto simp: bit_eq_iff bit_or_iff)

lemma xor_eq_zero: "xor (a :: u8) b = 0 \<longleftrightarrow> a = b"
  by (auto simp: bit_eq_iff bit_xor_iff)

lemma constant_time_fold:
  "length l = length r \<Longrightarrow>
     fold (\<lambda>(x, y) d. or d (xor x y)) (zip l r) a = (0 :: u8) \<longleftrightarrow> a = 0 \<and> l = r"
  by (induction l r arbitrary: a rule: list_induct2) (auto simp: or_eq_zero xor_eq_zero)

lemma constant_time_eq_iff: "constant_time_eq l r \<longleftrightarrow> l = r"
  by (auto simp: constant_time_eq_def constant_time_fold)

lemma of_char_u8_inject: "(of_char a :: u8) = of_char b \<longleftrightarrow> a = b"
proof -
  have u: "unat (of_char c :: u8) = of_char c" for c
  proof -
    have "unat (of_nat (of_char c) :: u8) = of_char c mod 2 ^ LENGTH(8)" by (rule unat_of_nat)
    then show ?thesis unfolding of_nat_of_char by (simp add: of_char_mod_256)
  qed
  show ?thesis by (metis u char_of_char)
qed

lemma bytes_of_inject: "bytes_of a = bytes_of b \<longleftrightarrow> a = b"
  by (simp add: bytes_of_def inj_on_def inj_map_eq_map of_char_u8_inject)

end
