(* ===== verification/JamBot.thy ===== *)
theory JamBot
  imports JamSource
begin

text \<open>
  The relay between the source PC and the listeners (\<open>jam_bot.rs\<close>): waiting for the source to
  become ready, converting its samples to 48 kHz stereo, cutting them into frames of 20 ms, and
  the health flag that the Jam's guards read. What a receiver of the registry's broadcasts gets
  is a list of \<open>received\<close>; the end of the list is the deadline, or the end of the run looked at.
\<close>

section \<open>Waiting for the source\<close>

datatype received = Event source_event | Lagged nat | Closed

definition for_generation :: "u64 \<Rightarrow> u64 option \<Rightarrow> bool" where
  "for_generation generation event_generation \<longleftrightarrow>
     event_generation = None \<or> event_generation = Some generation"

datatype start_outcome = StartReady | StartFailed string | StartTimedOut

fun await_source_ready :: "u64 \<Rightarrow> received list \<Rightarrow> start_outcome" where
  "await_source_ready generation [] = StartTimedOut"
| "await_source_ready generation (Lagged n # rest) = await_source_ready generation rest"
| "await_source_ready generation (Closed # rest) =
     StartFailed ''Jam source event channel closed''"
| "await_source_ready generation (Event ev # rest) =
     (case ev of
        ReadyEvent g pid \<Rightarrow>
          if g = generation then StartReady else await_source_ready generation rest
      | ErrorEvent g message \<Rightarrow>
          if g = generation then StartFailed (''Jam source error: '' @ message)
          else await_source_ready generation rest
      | AvailabilityChanged enabled g error \<Rightarrow>
          if \<not> enabled \<and> for_generation generation g
          then StartFailed (case error of
              Some error \<Rightarrow> ''Jam source was disabled during startup: '' @ error
            | None \<Rightarrow> ''Jam source was disabled during startup'')
          else await_source_ready generation rest
      | Disconnected g \<Rightarrow>
          if for_generation generation g
          then StartFailed ''Jam source disconnected during startup''
          else await_source_ready generation rest
      | ConnectionReplaced g \<Rightarrow>
          if for_generation generation g
          then StartFailed ''Jam source connection was replaced during startup''
          else await_source_ready generation rest
      | _ \<Rightarrow> await_source_ready generation rest)"

text \<open>
  \<open>JamBot::start\<close>: \<open>await\<close> stands for the registry while the bot waits, with the events received,
  the clock and whether the command channel is open at the end of the wait. The registry is
  stopped again on every failure after the start command.
\<close>

definition bot_start ::
  "source_registry \<Rightarrow> u64 \<Rightarrow> instant \<Rightarrow> bool
   \<Rightarrow> (source_registry \<Rightarrow> source_registry \<times> received list \<times> instant \<times> bool)
   \<Rightarrow> source_registry \<times> (string + unit)" where
  "bot_start r generation now channel_open await =
     (case source_start r generation now channel_open of
        (r1, Inl e) \<Rightarrow> (r1, Inl e)
      | (r1, Inr _) \<Rightarrow>
          (case await r1 of (r2, evs, later, still_open) \<Rightarrow>
            (case await_source_ready generation evs of
               StartReady \<Rightarrow> (r2, Inr ())
             | StartFailed e \<Rightarrow> (source_stop r2 generation still_open, Inl e)
             | StartTimedOut \<Rightarrow>
                 (source_stop r2 generation still_open,
                  Inl (''Jam source did not become ready before timeout (status: ''
                       @ snapshot_status r2 later @ '')'')))))"

section \<open>Converting samples\<close>

definition TARGET_RATE :: nat where "TARGET_RATE = 48000"
definition TARGET_CHANNELS :: nat where "TARGET_CHANNELS = 2"
definition FRAME_SAMPLES :: nat where "FRAME_SAMPLES = (TARGET_RATE * 20 div 1000) * TARGET_CHANNELS"

text \<open>
  One output frame, None where the index panics. \<open>mix\<close> is the float \<open>(a + b) * 0.5\<close>.
\<close>

definition sample_at :: "f32 list \<Rightarrow> nat \<Rightarrow> f32 option" where
  "sample_at samples i = (if i < length samples then Some (samples ! i) else None)"

definition convert_frame ::
  "(f32 \<Rightarrow> f32 \<Rightarrow> f32) \<Rightarrow> f32 list \<Rightarrow> nat \<Rightarrow> nat \<Rightarrow> nat \<Rightarrow> f32 list option" where
  "convert_frame mix samples source_channels target_channels source_frame =
     (if source_channels = 1 \<and> target_channels = 2 then
        map_option (\<lambda>sample. [sample, sample]) (sample_at samples source_frame)
      else if source_channels = 2 \<and> target_channels = 1 then
        (case (sample_at samples (source_frame * 2), sample_at samples (source_frame * 2 + 1)) of
           (Some a, Some b) \<Rightarrow> Some [mix a b]
         | _ \<Rightarrow> None)
      else
        Some (map (\<lambda>channel. or_default 0 (sample_at samples (source_frame * source_channels + channel)))
                [0..<target_channels]))"

fun collect_frames :: "(nat \<Rightarrow> f32 list option) \<Rightarrow> nat list \<Rightarrow> f32 list option" where
  "collect_frames f [] = Some []"
| "collect_frames f (i # is) =
     (case f i of None \<Rightarrow> None
      | Some out \<Rightarrow> map_option (\<lambda>rest. out @ rest) (collect_frames f is))"

definition convert_samples ::
  "(f32 \<Rightarrow> f32 \<Rightarrow> f32) \<Rightarrow> f32 list \<Rightarrow> nat \<Rightarrow> nat \<Rightarrow> nat \<Rightarrow> nat \<Rightarrow> f32 list option" where
  "convert_samples mix samples source_rate source_channels target_rate target_channels =
     (if source_rate = target_rate \<and> source_channels = target_channels then Some samples
      else
        let source_channels = max source_channels 1;
            source_frames = length samples div source_channels
        in if source_frames = 0 then Some []
           else
             let target_frames = source_frames * target_rate div max source_rate 1
             in collect_frames (\<lambda>target_frame.
                  convert_frame mix samples source_channels target_channels
                    (min (target_frame * source_rate div target_rate) (source_frames - 1)))
                  [0..<target_frames])"

section \<open>The relay\<close>

record relay =
  relay_accum :: "f32 list"
  relay_healthy :: bool
  relay_frames :: "f32 list list"
  relay_closed :: bool

fun drain_frames :: "f32 list \<Rightarrow> f32 list list \<times> f32 list" where
  "drain_frames accum =
     (if FRAME_SAMPLES \<le> length accum \<and> 0 < FRAME_SAMPLES then
        let (frames, rest) = drain_frames (drop FRAME_SAMPLES accum)
        in (take FRAME_SAMPLES accum # frames, rest)
      else ([], accum))"

declare drain_frames.simps [simp del]

definition unhealthy :: "relay \<Rightarrow> relay" where
  "unhealthy s = s\<lparr>relay_healthy := False, relay_accum := []\<rparr>"

text \<open>One turn of \<open>broadcast_loop\<close>; a panic of the conversion would end the task as a close does.\<close>

definition relay_event ::
  "(f32 \<Rightarrow> f32 \<Rightarrow> f32) \<Rightarrow> u64 \<Rightarrow> source_event \<Rightarrow> relay \<Rightarrow> relay" where
  "relay_event mix generation ev s =
     (case ev of
        AudioEvent g rate channels samples \<Rightarrow>
          if g \<noteq> generation then s
          else
           (case convert_samples mix samples (unat rate) (unat channels) TARGET_RATE TARGET_CHANNELS of
              None \<Rightarrow> s\<lparr>relay_closed := True\<rparr>
            | Some converted \<Rightarrow>
                let (frames, rest) = drain_frames (relay_accum s @ converted)
                in s\<lparr>relay_accum := rest, relay_frames := relay_frames s @ frames\<rparr>)
      | ErrorEvent g _ \<Rightarrow> if g = generation then unhealthy s else s
      | AvailabilityChanged enabled g _ \<Rightarrow>
          if \<not> enabled \<and> for_generation generation g then unhealthy s else s
      | Disconnected g \<Rightarrow> if for_generation generation g then unhealthy s else s
      | Connected \<Rightarrow> unhealthy s
      | ConnectionReplaced g \<Rightarrow> if for_generation generation g then unhealthy s else s
      | RestartingEvent g \<Rightarrow> if g = generation then unhealthy s else s
      | ReadyEvent g _ \<Rightarrow>
          if g = generation then s\<lparr>relay_healthy := True, relay_accum := []\<rparr> else s
      | _ \<Rightarrow> s)"

definition relay_step ::
  "(f32 \<Rightarrow> f32 \<Rightarrow> f32) \<Rightarrow> u64 \<Rightarrow> received \<Rightarrow> relay \<Rightarrow> relay" where
  "relay_step mix generation x s =
     (if relay_closed s then s
      else case x of
        Event ev \<Rightarrow> relay_event mix generation ev s
      | Lagged _ \<Rightarrow> s
      | Closed \<Rightarrow> s\<lparr>relay_healthy := False, relay_closed := True\<rparr>)"

definition relay_new :: relay where
  "relay_new = \<lparr>relay_accum = [], relay_healthy = True, relay_frames = [], relay_closed = False\<rparr>"

definition broadcast_loop :: "(f32 \<Rightarrow> f32 \<Rightarrow> f32) \<Rightarrow> u64 \<Rightarrow> received list \<Rightarrow> relay" where
  "broadcast_loop mix generation xs = fold (relay_step mix generation) xs relay_new"

section \<open>Conversion never panics\<close>

lemma collect_frames_total:
  "(\<And>i. i \<in> set is \<Longrightarrow> \<exists>out. f i = Some out \<and> length out = n) \<Longrightarrow>
     \<exists>out. collect_frames f is = Some out \<and> length out = n * length is"
proof (induction "is")
  case (Cons i "is")
  from Cons.prems [of i] obtain a where "f i = Some a" "length a = n" by auto
  moreover from Cons obtain b where "collect_frames f is = Some b" "length b = n * length is"
    by (metis list.set_intros(2))
  ultimately show ?case by simp
qed simp

lemma convert_frame_stereo:
  assumes "0 < source_channels" and "source_frame < length samples div source_channels"
  shows "\<exists>out. convert_frame mix samples source_channels 2 source_frame = Some out \<and> length out = 2"
  using assms by (auto simp: convert_frame_def sample_at_def)

lemma convert_samples_total:
  assumes "source_rate \<noteq> 48000 \<or> source_channels \<noteq> 2"
  shows "\<exists>out. convert_samples mix samples source_rate source_channels 48000 2 = Some out
    \<and> length out = 2 * (length samples div max source_channels 1 * 48000 div max source_rate 1)"
proof -
  let ?ch = "max source_channels 1"
  let ?frames = "length samples div ?ch"
  show ?thesis
  proof (cases "?frames = 0")
    case True
    with assms show ?thesis by (auto simp: convert_samples_def Let_def)
  next
    case False
    let ?f = "\<lambda>t. convert_frame mix samples ?ch 2 (min (t * source_rate div 48000) (?frames - 1))"
    have "\<exists>out. collect_frames ?f [0 ..< ?frames * 48000 div max source_rate 1] = Some out
        \<and> length out = 2 * length [0 ..< ?frames * 48000 div max source_rate 1]"
      using False by (intro collect_frames_total convert_frame_stereo) simp_all
    moreover have "convert_samples mix samples source_rate source_channels 48000 2
        = collect_frames ?f [0 ..< ?frames * 48000 div max source_rate 1]"
      using False assms by (auto simp: convert_samples_def Let_def)
    ultimately show ?thesis by simp
  qed
qed

lemma convert_samples_not_None:
  "convert_samples mix samples rate channels TARGET_RATE TARGET_CHANNELS \<noteq> None"
proof (cases "rate = 48000 \<and> channels = 2")
  case True
  then show ?thesis by (simp add: convert_samples_def TARGET_RATE_def TARGET_CHANNELS_def)
next
  case False
  then show ?thesis
    using convert_samples_total [of rate channels mix samples]
    by (auto simp: TARGET_RATE_def TARGET_CHANNELS_def)
qed

section \<open>Frames\<close>

lemma FRAME_SAMPLES_pos [simp]: "0 < FRAME_SAMPLES"
  by (simp add: FRAME_SAMPLES_def TARGET_RATE_def TARGET_CHANNELS_def)

lemma drain_frames_spec:
  "drain_frames accum = (frames, rest) \<Longrightarrow> concat frames @ rest = accum
     \<and> length rest < FRAME_SAMPLES \<and> list_all (\<lambda>f. length f = FRAME_SAMPLES) frames"
proof (induction accum arbitrary: frames rest rule: drain_frames.induct)
  case (1 accum)
  show ?case
  proof (cases "FRAME_SAMPLES \<le> length accum")
    case True
    obtain fs rs where rec: "drain_frames (drop FRAME_SAMPLES accum) = (fs, rs)" by fastforce
    with True "1.prems" have "frames = take FRAME_SAMPLES accum # fs" "rest = rs"
      by (simp_all add: drain_frames.simps [of accum] Let_def)
    moreover have "concat fs @ rs = drop FRAME_SAMPLES accum \<and> length rs < FRAME_SAMPLES
        \<and> list_all (\<lambda>f. length f = FRAME_SAMPLES) fs"
      using "1.IH" True rec by simp
    ultimately show ?thesis using True by simp
  next
    case False
    with "1.prems" show ?thesis by (simp add: drain_frames.simps [of accum])
  qed
qed

definition relay_ok :: "relay \<Rightarrow> bool" where
  "relay_ok s \<longleftrightarrow> length (relay_accum s) < FRAME_SAMPLES
     \<and> list_all (\<lambda>f. length f = FRAME_SAMPLES) (relay_frames s)"

lemma relay_step_ok: "relay_ok s \<Longrightarrow> relay_ok (relay_step mix g x s)"
  unfolding relay_step_def relay_event_def
  by (auto simp: relay_ok_def unhealthy_def dest: drain_frames_spec
      split: received.splits source_event.splits option.splits prod.splits)

lemma relay_run_ok: "relay_ok s \<Longrightarrow> relay_ok (fold (relay_step mix g) xs s)"
  by (induction xs arbitrary: s) (auto intro: relay_step_ok)

text \<open>Between two resets the relay loses and invents no sample.\<close>

definition converted_of :: "(f32 \<Rightarrow> f32 \<Rightarrow> f32) \<Rightarrow> u64 \<Rightarrow> received \<Rightarrow> f32 list" where
  "converted_of mix g x =
     (case x of
        Event (AudioEvent g' rate ch samples) \<Rightarrow>
          if g' = g then the (convert_samples mix samples (unat rate) (unat ch) TARGET_RATE TARGET_CHANNELS)
          else []
      | _ \<Rightarrow> [])"

definition audio_or_lag :: "received \<Rightarrow> bool" where
  "audio_or_lag x \<longleftrightarrow> (case x of Event (AudioEvent _ _ _ _) \<Rightarrow> True | Lagged _ \<Rightarrow> True | _ \<Rightarrow> False)"

lemma relay_step_audio:
  assumes "audio_or_lag x" and "\<not> relay_closed s"
  shows "concat (relay_frames (relay_step mix g x s)) @ relay_accum (relay_step mix g x s)
      = concat (relay_frames s) @ relay_accum s @ converted_of mix g x
    \<and> \<not> relay_closed (relay_step mix g x s)"
proof (cases x)
  case (Event ev)
  with assms(1) obtain g' rate ch samples where ev: "ev = AudioEvent g' rate ch samples"
    by (cases ev) (auto simp: audio_or_lag_def)
  obtain out where out: "convert_samples mix samples (unat rate) (unat ch) TARGET_RATE
      TARGET_CHANNELS = Some out" using convert_samples_not_None by fastforce
  obtain fs rs where dr: "drain_frames (relay_accum s @ out) = (fs, rs)" by fastforce
  show ?thesis
    using Event ev out dr assms(2) drain_frames_spec [OF dr]
    by (auto simp: relay_step_def relay_event_def converted_of_def)
qed (use assms in \<open>auto simp: relay_step_def converted_of_def audio_or_lag_def\<close>)

lemma relay_run_audio:
  "list_all audio_or_lag xs \<Longrightarrow> \<not> relay_closed s \<Longrightarrow>
     concat (relay_frames (fold (relay_step mix g) xs s)) @ relay_accum (fold (relay_step mix g) xs s)
      = concat (relay_frames s) @ relay_accum s @ concat (map (converted_of mix g) xs)"
proof (induction xs arbitrary: s)
  case (Cons x xs)
  then show ?case using relay_step_audio [of x s mix g] by simp
qed simp

section \<open>Health\<close>

definition verdict :: "u64 \<Rightarrow> received \<Rightarrow> bool option" where
  "verdict g x =
     (case x of
        Closed \<Rightarrow> Some False
      | Lagged _ \<Rightarrow> None
      | Event ev \<Rightarrow>
         (case ev of
            ReadyEvent g' _ \<Rightarrow> if g' = g then Some True else None
          | ErrorEvent g' _ \<Rightarrow> if g' = g then Some False else None
          | RestartingEvent g' \<Rightarrow> if g' = g then Some False else None
          | AvailabilityChanged enabled g' _ \<Rightarrow>
              if \<not> enabled \<and> for_generation g g' then Some False else None
          | Disconnected g' \<Rightarrow> if for_generation g g' then Some False else None
          | ConnectionReplaced g' \<Rightarrow> if for_generation g g' then Some False else None
          | Connected \<Rightarrow> Some False
          | _ \<Rightarrow> None))"

lemma relay_event_closed: "relay_closed (relay_event mix g ev s) = relay_closed s"
  by (auto simp: relay_event_def unhealthy_def convert_samples_not_None
      split: source_event.split option.split prod.split)

lemma relay_event_healthy:
  "relay_healthy (relay_event mix g ev s) = or_default (relay_healthy s) (verdict g (Event ev))"
  by (auto simp: relay_event_def unhealthy_def verdict_def
      split: source_event.split option.split prod.split)

lemma relay_step_healthy:
  "\<not> relay_closed s \<Longrightarrow> relay_healthy (relay_step mix g x s) = or_default (relay_healthy s) (verdict g x)"
  by (cases x) (simp_all add: relay_step_def relay_event_healthy, simp_all add: verdict_def)

definition last_verdict :: "u64 \<Rightarrow> bool \<Rightarrow> received list \<Rightarrow> bool" where
  "last_verdict g h xs = fold (\<lambda>x h. or_default h (verdict g x)) xs h"

lemma relay_run_healthy:
  "Closed \<notin> set xs \<Longrightarrow> \<not> relay_closed s \<Longrightarrow>
     relay_healthy (fold (relay_step mix g) xs s) = last_verdict g (relay_healthy s) xs"
proof (induction xs arbitrary: s)
  case (Cons x xs)
  have "\<not> relay_closed (relay_step mix g x s)"
    using Cons.prems by (cases x) (auto simp: relay_step_def relay_event_closed)
  with Cons show ?case by (simp add: last_verdict_def relay_step_healthy)
qed (simp add: last_verdict_def)

end
