(* ===== verification/SourceProperties.thy ===== *)
theory SourceProperties
  imports JamBot
begin

text \<open>
  What the source registry (\<open>JamSource\<close>) and the relay (\<open>JamBot\<close>) promise, each with a concrete
  session of a source at which it is exercised.
\<close>

section \<open>A session of a source\<close>

definition demo_registered :: source_registry where
  "demo_registered = fst (register (registry_new True) 0 True)"

definition demo_available :: source_registry where
  "demo_available = handle_text demo_registered 1
     (Some (Availability True None [SPOTIFY_CONNECT_REPAIR_CAPABILITY])) 1 True"

definition demo_started :: source_registry where
  "demo_started = fst (source_start demo_available 7 2 True)"

definition demo_formatted :: source_registry where
  "demo_formatted = handle_text demo_started 1 (Some (Format 7 48000 2)) 3 True"

definition demo_ready :: source_registry where
  "demo_ready = handle_text demo_formatted 1 (Some (Ready 7 42)) 4 True"

lemmas demo_session = demo_registered_def demo_available_def demo_started_def demo_formatted_def
  demo_ready_def

lemmas demo_steps = register_def registry_new_def clear_format_def clear_progress_def Let_def
  broadcast_def send_to_def handle_text_def source_start_def older_than_def elapsed_def
  capture_generation_open_def SOURCE_ACTIVITY_TIMEOUT_def

lemma demo_reachable:
  "source_step\<^sup>*\<^sup>* (registry_new True) demo_ready"
  unfolding demo_session
  by (meson rtranclp.rtrancl_refl rtranclp.rtrancl_into_rtrancl source_step.intros)

section \<open>The registry\<close>

text \<open>
  C16: every state the registry can reach is consistent: a generation is wanted only of a
  configured, enabled source, ready, format and restart belong to the wanted generation, the
  format is in range, a ready source has no error, a repair belongs to the current connection,
  and a source that is not connected offers and owes nothing.
\<close>

theorem reachable_registry_is_consistent:
  assumes "source_step\<^sup>*\<^sup>* (registry_new configured) r"
  shows "source_ok r"
  using assms by (rule reachable_source_ok)

theorem reachable_registry_is_consistent_witness: "source_ok demo_ready"
  by (rule reachable_registry_is_consistent [OF demo_reachable])

text \<open>A source whose snapshot says ready can carry the Jam: it is configured, connected, has no
  error, names its generation, and its status is one of the four that the Jam's recovery
  controls accept.
\<close>

lemma ready_snapshot_allows_recovery:
  assumes "source_step\<^sup>*\<^sup>* (registry_new configured) r" and "snap_ready (snapshot r now)"
  shows "snap_configured (snapshot r now) \<and> snap_connected (snapshot r now)
    \<and> snap_error (snapshot r now) = None \<and> snap_generation (snapshot r now) \<noteq> None
    \<and> snap_status (snapshot r now) \<in> {''ready'', ''live'', ''silent'', ''stalled''}"
  using snapshot_ready [OF reachable_source_ok [OF assms(1)] assms(2)] by blast

text \<open>Every audio frame ever broadcast is playable: its rate and channel count are in range, it is
  not empty, it holds whole frames, and every sample is a number between -1 and 1.
\<close>

lemma broadcast_audio_is_playable:
  assumes "source_step\<^sup>*\<^sup>* (registry_new configured) r"
    and "AudioEvent g rate channels samples \<in> set (src_events r)"
  shows "8000 \<le> rate \<and> rate \<le> 192000 \<and> 1 \<le> channels \<and> channels \<le> 8 \<and> samples \<noteq> []
    \<and> length samples mod unat channels = 0 \<and> list_all (\<lambda>x. f32_abs x \<le> f32_one) samples"
proof -
  have "audio_event_ok (AudioEvent g rate channels samples)"
    using reachable_events_ok [OF assms(1)] assms(2) by (auto simp: list_all_iff)
  then show ?thesis by (simp add: audio_event_ok_def)
qed

text \<open>A source that has been replaced is powerless: no message, no audio and no disconnect of a
  connection that is not the current one changes the registry.
\<close>

lemma replaced_connection_is_ignored:
  assumes "src_connection r \<noteq> Some c"
  shows "handle_text r c message now channel_open = r \<and> handle_audio r c bytes now = r
    \<and> unregister r c = r"
  using stale_connection_ignored [OF assms] by blast

text \<open>A stalled capture is restarted at most once in fifteen seconds: whatever the source sends
  after an accepted restart, a further restart of that generation within that time is refused and
  sends nothing.
\<close>

lemma capture_restart_is_debounced:
  assumes "restart_stalled_capture r g now channel_open = (r1, True)"
    and "elapsed later now < CAPTURE_RESTART_DEBOUNCE"
  shows "restart_stalled_capture (fold receive inputs r1) g later channel_open'
    = (fold receive inputs r1, False)"
proof (rule restart_debounced [OF receive_all_keeps_restart assms(2)])
  show "restarted_at g now r1" using restart_accepted [OF assms(1)] by (simp add: restarted_at_def)
qed

text \<open>One repair runs at a time. A repair that begins is sent to the current connection alone;
  until its own answer arrives every other repair is refused without a message and an answer to
  another request changes nothing; its answer frees the slot and is what the waiting caller gets.
\<close>

lemma repair_is_single_flight:
  assumes "begin_spotify_repair r action late now channel_open = (r1, Inr (c, q))"
  shows "src_pending_repair r = None \<and> src_connection r = Some c
    \<and> src_sent r1 = src_sent r @ [(c, RepairCommand q action)]
    \<and> (\<exists>e. snd (begin_spotify_repair r1 action2 late2 now2 open2) = Inl e)
    \<and> src_sent (fst (begin_spotify_repair r1 action2 late2 now2 open2)) = src_sent r1
    \<and> (q2 \<noteq> q \<longrightarrow> handle_text r1 c2 (Some (SpotifyConnectRepair q2 ok out was err)) now2 open2 = r1)
    \<and> (let r2 = handle_text r1 c (Some (SpotifyConnectRepair q True out was err)) now2 open2
        in src_pending_repair r2 = None
         \<and> (\<exists>ev. src_events r2 = src_events r1 @ [ev]
              \<and> await_repair_reply c q [ev]
                  = Some (Inr \<lparr>rep_outcome = take_chars 100 out, rep_was_running_before = was\<rparr>)))"
proof -
  note b = begin_repair_accepted [OF assms]
  have conn: "src_connection r1 = Some c"
    using assms by (auto simp: begin_spotify_repair_def Let_def split: if_splits option.splits)
  have others: "(\<exists>e. snd (begin_spotify_repair r1 action2 late2 now2 open2) = Inl e)
      \<and> src_sent (fst (begin_spotify_repair r1 action2 late2 now2 open2)) = src_sent r1"
    using b by (simp add: begin_spotify_repair_def Let_def)
  have strange: "q2 \<noteq> q \<longrightarrow> handle_text r1 c2 (Some (SpotifyConnectRepair q2 ok out was err)) now2 open2 = r1"
    using b by (simp add: handle_text_def)
  have own: "handle_text r1 c (Some (SpotifyConnectRepair q True out was err)) now2 open2
      = broadcast (RepairEvent c q True (take_chars 100 out) was (bounded_error err))
          (r1\<lparr>src_pending_repair := None, src_last_activity_at := Some now2\<rparr>)"
    using b conn by (simp add: handle_text_def)
  show ?thesis using b others strange unfolding own Let_def by (simp add: broadcast_def)
qed

text \<open>A source is admitted exactly when a source is configured, it speaks the current protocol
  under the configured name, and it shows the configured token, byte for byte.
\<close>

lemma source_admission_needs_the_token:
  "jam_source_ws_admit configured_id configured_token source_id protocol authorization = Inr ()
   \<longleftrightarrow> (\<exists>token. configured_id = Some source_id \<and> configured_token = Some token \<and> protocol = 3
        \<and> authorization = Some (''Bearer '' @ token))"
proof -
  have strip: "strip_prefix ''Bearer '' h = Some t \<longleftrightarrow> h = ''Bearer '' @ t" for h t
    by (rule strip_prefix_Some)
  have bearer: "strip_prefix ''Bearer '' (''Bearer '' @ t) = Some t" for t
    by (simp only: strip)
  show ?thesis
    unfolding jam_source_ws_admit_def JAM_SOURCE_PROTOCOL_VERSION_def constant_time_eq_iff bytes_of_inject
    by (auto simp: strip bearer [simplified] split: option.splits)
qed

section \<open>The bot\<close>

text \<open>Starting the source for a Jam either succeeds, after the source accepted the start and
  announced that generation as ready, or leaves no source running for it.
\<close>

lemma bot_start_is_ready_or_stopped:
  assumes "bot_start r g now channel_open await = (r', result)"
  shows "case result of
      Inr _ \<Rightarrow> (\<exists>r1 evs later still_open pid. source_start r g now channel_open = (r1, Inr ())
          \<and> await r1 = (r', evs, later, still_open) \<and> Event (ReadyEvent g pid) \<in> set evs)
    | Inl _ \<Rightarrow> (\<exists>e. source_start r g now channel_open = (r', Inl e) \<and> r' = r)
          \<or> src_desired_generation r' \<noteq> Some g"
proof -
  have ready: "await_source_ready g evs = StartReady \<Longrightarrow> \<exists>pid. Event (ReadyEvent g pid) \<in> set evs" for evs
    by (induction g evs rule: await_source_ready.induct)
      (auto split: source_event.splits if_splits option.splits)
  have refused: "source_start r g now channel_open = (r1, Inl e) \<Longrightarrow> r1 = r" for r1 e
    by (auto simp: source_start_def split: if_splits option.splits)
  have stopped: "src_desired_generation (source_stop r2 g op) \<noteq> Some g" for r2 op
    by (simp add: source_stop_def Let_def clear_format_def clear_progress_def split: option.split)
  show ?thesis
    using assms ready refused stopped unfolding bot_start_def
    by (fastforce split: prod.splits sum.splits start_outcome.splits)
qed

text \<open>Converting to 48 kHz stereo never panics, whatever the rate, the channel count (even zero)
  and the number of samples are, and answers exactly the number of frames the two rates give.
\<close>

lemma conversion_is_total:
  "\<exists>out. convert_samples mix samples rate channels TARGET_RATE TARGET_CHANNELS = Some out
     \<and> (if rate = 48000 \<and> channels = 2 then out = samples
        else length out = 2 * (length samples div max channels 1 * 48000 div max rate 1))"
proof (cases "rate = 48000 \<and> channels = 2")
  case True
  then show ?thesis by (simp add: convert_samples_def TARGET_RATE_def TARGET_CHANNELS_def)
next
  case False
  then show ?thesis
    using convert_samples_total [of rate channels mix samples]
    by (auto simp: TARGET_RATE_def TARGET_CHANNELS_def)
qed

text \<open>While the source only sends audio the relay loses and invents no sample: the frames it sends,
  each of exactly 20 ms, followed by what it still holds, less than one frame, are the converted
  samples of its generation in order, also where the receiver lagged.
\<close>

lemma relay_conserves_samples:
  assumes "list_all audio_or_lag xs"
  shows "concat (relay_frames (broadcast_loop mix g xs)) @ relay_accum (broadcast_loop mix g xs)
      = concat (map (converted_of mix g) xs)
    \<and> list_all (\<lambda>f. length f = 1920) (relay_frames (broadcast_loop mix g xs))
    \<and> length (relay_accum (broadcast_loop mix g xs)) < 1920"
proof -
  have "relay_ok (broadcast_loop mix g xs)"
    unfolding broadcast_loop_def by (rule relay_run_ok) (simp add: relay_ok_def relay_new_def)
  moreover have "FRAME_SAMPLES = 1920"
    by (simp add: FRAME_SAMPLES_def TARGET_RATE_def TARGET_CHANNELS_def)
  ultimately show ?thesis
    using relay_run_audio [OF assms, of relay_new mix g]
    by (simp add: broadcast_loop_def relay_ok_def relay_new_def)
qed

text \<open>The health of the relay, on which every guarded Spotify control depends, is what the last
  relevant event of its generation says: true only from the start or a ready event on, false from
  an error, a restart, a disabled or replaced source on.
\<close>

lemma relay_health_is_last_verdict:
  assumes "Closed \<notin> set xs"
  shows "relay_healthy (broadcast_loop mix g xs) = last_verdict g True xs"
  unfolding broadcast_loop_def
  by (subst relay_run_healthy [OF assms]) (simp_all add: relay_new_def)

end
