(* ===== verification/Catalog.thy ===== *)
theory Catalog
  imports Prelude
begin

text \<open>
  The catalog part of \<open>core/control/src/jam_library.rs\<close> that the queue rests on: the summary of
  a track or playlist, the API error, the validation of identifiers, pages and selected
  positions, and the loops that expand a playlist page by page. \<open>fetch_playlist_items_page\<close> and
  \<open>fetch_playlist_summary\<close> ask Spotify: they are the arguments \<open>fetch_page\<close> and \<open>playlist\<close>,
  \<open>latest\<close>. The offsets asked for grow strictly, so one page is asked for at most once and a
  function of the offset loses nothing.
\<close>

section \<open>Data\<close>

record favorite_summary =
  fs_spotify_id :: string
  fs_spotify_uri :: string
  fs_spotify_url :: string
  fs_name :: string
  fs_artist :: "string option"
  fs_owner :: "string option"
  fs_description :: "string option"
  fs_artwork_url :: "string option"
  fs_duration_ms :: "u64 option"
  fs_track_count :: "u64 option"
  fs_snapshot_id :: "string option"
  fs_explicit :: "bool option"

record skipped_playlist_item =
  sk_position :: nat
  sk_reason :: string

record playlist_expansion =
  pe_playlist :: favorite_summary
  pe_tracks :: "(nat \<times> favorite_summary) list"
  pe_skipped :: "skipped_playlist_item list"

record jam_api_error =
  ae_status :: status
  ae_code :: string
  ae_message :: string
  ae_retry_after :: "string option"

definition bad_request :: "string \<Rightarrow> jam_api_error" where
  "bad_request message =
     \<lparr>ae_status = BAD_REQUEST, ae_code = ''bad_request'', ae_message = message,
      ae_retry_after = None\<rparr>"

definition internal_error :: "string \<Rightarrow> jam_api_error" where
  "internal_error message =
     \<lparr>ae_status = INTERNAL_SERVER_ERROR, ae_code = ''storage_error'', ae_message = message,
      ae_retry_after = None\<rparr>"

definition MAX_SEARCH_LIMIT :: nat where "MAX_SEARCH_LIMIT = 10"
definition MAX_PLAYLIST_ITEMS_LIMIT :: nat where "MAX_PLAYLIST_ITEMS_LIMIT = 50"
definition MAX_PLAYLIST_ITEMS_OFFSET :: nat where "MAX_PLAYLIST_ITEMS_OFFSET = 100000"
definition MAX_PLAYLIST_QUEUE_TRACKS :: nat where "MAX_PLAYLIST_QUEUE_TRACKS = 1000"
definition MAX_CATALOG_OFFSET :: nat where "MAX_CATALOG_OFFSET = 1000"

section \<open>Validation\<close>

definition valid_spotify_id :: "string \<Rightarrow> bool" where
  "valid_spotify_id value \<longleftrightarrow> length value = 22 \<and> list_all is_ascii_alphanumeric value"

definition validate_search_page :: "nat \<Rightarrow> nat \<Rightarrow> jam_api_error + unit" where
  "validate_search_page offset limit =
     (if \<not> (1 \<le> limit \<and> limit \<le> MAX_SEARCH_LIMIT) then
        Inl (bad_request ''search limit must be between 1 and 10'')
      else if MAX_CATALOG_OFFSET < offset then
        Inl (bad_request ''offset must be at most 1000'')
      else Inr ())"

definition validate_playlist_items_page :: "nat \<Rightarrow> nat \<Rightarrow> jam_api_error + unit" where
  "validate_playlist_items_page offset limit =
     (if \<not> (1 \<le> limit \<and> limit \<le> MAX_PLAYLIST_ITEMS_LIMIT) then
        Inl (bad_request ''playlist item limit must be between 1 and 50'')
      else if MAX_PLAYLIST_ITEMS_OFFSET < offset then Inl (bad_request ''offset is too large'')
      else Inr ())"

definition playlist_changed_error :: jam_api_error where
  "playlist_changed_error =
     \<lparr>ae_status = CONFLICT, ae_code = ''playlist_changed'',
      ae_message = ''The Spotify playlist changed after it was opened; reload it before queueing'',
      ae_retry_after = None\<rparr>"

definition playlist_batch_too_large_error :: "nat \<Rightarrow> jam_api_error" where
  "playlist_batch_too_large_error item_count =
     \<lparr>ae_status = PAYLOAD_TOO_LARGE, ae_code = ''playlist_batch_too_large'',
      ae_message = ''This playlist operation contains '' @ nat_to_string item_count
        @ '' items; Echo supports at most 1000 at once. Open the playlist and select a smaller group.'',
      ae_retry_after = None\<rparr>"

fun adjacent_equal :: "'a list \<Rightarrow> bool" where
  "adjacent_equal (x # y # zs) = (x = y \<or> adjacent_equal (y # zs))"
| "adjacent_equal _ = False"

definition validate_selected_playlist_positions :: "nat list \<Rightarrow> jam_api_error + nat list" where
  "validate_selected_playlist_positions positions =
     (if positions = [] then
        Inl (bad_request ''selected_positions must contain at least one playlist position'')
      else if MAX_PLAYLIST_QUEUE_TRACKS < length positions then
        Inl (playlist_batch_too_large_error (length positions))
      else if list_ex (\<lambda>position. MAX_PLAYLIST_ITEMS_OFFSET < position) positions then
        Inl (bad_request ''selected playlist positions must be at most 100000'')
      else
        let canonical = sort positions in
        if adjacent_equal canonical then
          Inl (bad_request ''selected_positions must not contain duplicate positions'')
        else Inr canonical)"

definition verify_public_playlist_total :: "favorite_summary \<Rightarrow> u64 \<Rightarrow> jam_api_error + unit" where
  "verify_public_playlist_total playlist public_total =
     (case fs_track_count playlist of
        Some expected \<Rightarrow> if expected \<noteq> public_total then Inl playlist_changed_error else Inr ()
      | None \<Rightarrow> Inr ())"

definition verify_playlist_snapshot ::
  "favorite_summary \<Rightarrow> string option \<Rightarrow> jam_api_error + unit" where
  "verify_playlist_snapshot playlist expected =
     (if expected \<noteq> None \<and> fs_snapshot_id playlist \<noteq> expected then Inl playlist_changed_error
      else Inr ())"

definition verify_playlist_still_matches_snapshot ::
  "(jam_api_error + favorite_summary) \<Rightarrow> string option \<Rightarrow> jam_api_error + unit" where
  "verify_playlist_still_matches_snapshot latest expected =
     (case expected of
        None \<Rightarrow> Inr ()
      | Some snapshot \<Rightarrow>
          (case latest of Inl e \<Rightarrow> Inl e
           | Inr summary \<Rightarrow> verify_playlist_snapshot summary (Some snapshot)))"

definition playlist_items_next_offset :: "string \<Rightarrow> u64 \<Rightarrow> nat \<Rightarrow> nat option" where
  "playlist_items_next_offset items_source item_total consumed =
     (let available = (if items_source = ''local_cache'' then min (unat item_total) 1000 else unat item_total)
      in if consumed < available then Some consumed else None)"

section \<open>Expanding a playlist\<close>

type_synonym playlist_page =
  "(nat \<times> favorite_summary) list \<times> skipped_playlist_item list \<times> u64"

function collect_pages ::
  "(nat \<Rightarrow> jam_api_error + playlist_page) \<Rightarrow> nat \<Rightarrow> u64 option
   \<Rightarrow> (nat \<times> favorite_summary) list \<Rightarrow> skipped_playlist_item list
   \<Rightarrow> jam_api_error + ((nat \<times> favorite_summary) list \<times> skipped_playlist_item list)" where
  "collect_pages fetch_page offset expected_total tracks skipped =
     (case fetch_page offset of
        Inl e \<Rightarrow> Inl e
      | Inr (page_tracks, page_skipped, page_total) \<Rightarrow>
          if expected_total \<noteq> None \<and> expected_total \<noteq> Some page_total then
            Inl playlist_changed_error
          else if MAX_PLAYLIST_QUEUE_TRACKS < unat page_total then
            Inl (playlist_batch_too_large_error (unat page_total))
          else
            let returned = length page_tracks + length page_skipped in
            if returned = 0 then
              (if offset < unat page_total then Inl playlist_changed_error
               else Inr (tracks, skipped))
            else if offset + returned > u64_max \<or> offset + returned > unat page_total then
              Inl playlist_changed_error
            else if offset + returned = unat page_total then
              Inr (tracks @ page_tracks, skipped @ page_skipped)
            else
              collect_pages fetch_page (offset + returned) (Some page_total)
                (tracks @ page_tracks) (skipped @ page_skipped))"
  by pat_completeness auto
termination
  by (relation "measure (\<lambda>(f, offset, e, t, s). 1001 - offset)")
    (auto simp: MAX_PLAYLIST_QUEUE_TRACKS_def intro!: diff_less_mono2)

declare collect_pages.simps [simp del]

definition collect_playlist_item_pages ::
  "(nat \<Rightarrow> jam_api_error + playlist_page)
   \<Rightarrow> jam_api_error + ((nat \<times> favorite_summary) list \<times> skipped_playlist_item list)" where
  "collect_playlist_item_pages fetch_page = collect_pages fetch_page 0 None [] []"

definition snapshot_or :: "string option \<Rightarrow> string option \<Rightarrow> string option" where
  "snapshot_or a b = (case a of Some v \<Rightarrow> Some v | None \<Rightarrow> b)"

definition fetch_playlist_expansion ::
  "(jam_api_error + favorite_summary) \<Rightarrow> (nat \<Rightarrow> jam_api_error + playlist_page)
   \<Rightarrow> (jam_api_error + favorite_summary) \<Rightarrow> string option
   \<Rightarrow> jam_api_error + playlist_expansion" where
  "fetch_playlist_expansion summary fetch_page latest expected =
     (case summary of Inl e \<Rightarrow> Inl e | Inr playlist \<Rightarrow>
      (case verify_playlist_snapshot playlist expected of Inl e \<Rightarrow> Inl e | Inr _ \<Rightarrow>
       (case collect_playlist_item_pages fetch_page of Inl e \<Rightarrow> Inl e | Inr (tracks, skipped) \<Rightarrow>
        (case verify_playlist_still_matches_snapshot latest
                (snapshot_or expected (fs_snapshot_id playlist)) of
           Inl e \<Rightarrow> Inl e
         | Inr _ \<Rightarrow> Inr \<lparr>pe_playlist = playlist, pe_tracks = tracks, pe_skipped = skipped\<rparr>))))"

definition selected_playlist_page_offsets :: "nat list \<Rightarrow> nat list" where
  "selected_playlist_page_offsets positions =
     remdups_adj (map (\<lambda>p. p div MAX_PLAYLIST_ITEMS_LIMIT * MAX_PLAYLIST_ITEMS_LIMIT) positions)"

definition playlist_position_gone_error :: "nat \<Rightarrow> jam_api_error" where
  "playlist_position_gone_error position =
     \<lparr>ae_status = CONFLICT, ae_code = ''playlist_changed'',
      ae_message = ''Playlist position '' @ nat_to_string position
        @ '' is no longer available; reload the playlist before queueing'',
      ae_retry_after = None\<rparr>"

text \<open>Collecting pairs into a \<open>HashMap\<close> keeps the last value of a key.\<close>

definition hm_collect :: "('k \<times> 'v) list \<Rightarrow> ('k, 'v) hash_map" where
  "hm_collect xs = fold (\<lambda>(k, v). hm_insert k v) xs []"

fun take_positions ::
  "nat list \<Rightarrow> (nat, favorite_summary) hash_map \<Rightarrow> (nat, skipped_playlist_item) hash_map
   \<Rightarrow> jam_api_error + ((nat \<times> favorite_summary) list \<times> skipped_playlist_item list)" where
  "take_positions [] tm sm = Inr ([], [])"
| "take_positions (p # ps) tm sm =
     (case hm_get tm p of
        Some track \<Rightarrow>
          (case take_positions ps (hm_remove p tm) sm of
             Inl e \<Rightarrow> Inl e | Inr (ts, ss) \<Rightarrow> Inr ((p, track) # ts, ss))
      | None \<Rightarrow>
          (case hm_get sm p of
             Some item \<Rightarrow>
               (case take_positions ps tm (hm_remove p sm) of
                  Inl e \<Rightarrow> Inl e | Inr (ts, ss) \<Rightarrow> Inr (ts, item # ss))
           | None \<Rightarrow> Inl (playlist_position_gone_error p)))"

definition order_selected_playlist_items ::
  "nat list \<Rightarrow> (nat \<times> favorite_summary) list \<Rightarrow> skipped_playlist_item list
   \<Rightarrow> jam_api_error + ((nat \<times> favorite_summary) list \<times> skipped_playlist_item list)" where
  "order_selected_playlist_items positions tracks skipped =
     take_positions positions (hm_collect tracks)
       (hm_collect (map (\<lambda>item. (sk_position item, item)) skipped))"

fun fetch_selected_pages ::
  "(nat \<Rightarrow> jam_api_error + playlist_page) \<Rightarrow> nat list \<Rightarrow> nat list \<Rightarrow> u64 option
   \<Rightarrow> (nat \<times> favorite_summary) list \<Rightarrow> skipped_playlist_item list
   \<Rightarrow> jam_api_error + ((nat \<times> favorite_summary) list \<times> skipped_playlist_item list)" where
  "fetch_selected_pages fetch_page positions [] observed tracks skipped = Inr (tracks, skipped)"
| "fetch_selected_pages fetch_page positions (offset # offsets) observed tracks skipped =
     (case fetch_page offset of
        Inl e \<Rightarrow> Inl e
      | Inr (page_tracks, page_skipped, page_total) \<Rightarrow>
          if observed \<noteq> None \<and> observed \<noteq> Some page_total then Inl playlist_changed_error
          else if list_ex (\<lambda>position. unat page_total \<le> position) positions then
            Inl \<lparr>ae_status = UNPROCESSABLE_ENTITY, ae_code = ''playlist_position_out_of_range'',
                 ae_message = ''The playlist currently contains ''
                   @ nat_to_string (unat page_total) @ '' items'',
                 ae_retry_after = None\<rparr>
          else
            fetch_selected_pages fetch_page positions offsets (Some page_total)
              (tracks @ filter (\<lambda>(position, _). position \<in> set positions) page_tracks)
              (skipped @ filter (\<lambda>item. sk_position item \<in> set positions) page_skipped))"

definition fetch_playlist_selection ::
  "(jam_api_error + favorite_summary) \<Rightarrow> (nat \<Rightarrow> jam_api_error + playlist_page)
   \<Rightarrow> (jam_api_error + favorite_summary) \<Rightarrow> nat list \<Rightarrow> string option
   \<Rightarrow> jam_api_error + playlist_expansion" where
  "fetch_playlist_selection summary fetch_page latest selected expected =
     (case validate_selected_playlist_positions selected of Inl e \<Rightarrow> Inl e | Inr positions \<Rightarrow>
      (case summary of Inl e \<Rightarrow> Inl e | Inr playlist \<Rightarrow>
       (case verify_playlist_snapshot playlist expected of Inl e \<Rightarrow> Inl e | Inr _ \<Rightarrow>
        (case fetch_selected_pages fetch_page positions
                (selected_playlist_page_offsets positions) None [] [] of
           Inl e \<Rightarrow> Inl e
         | Inr (tracks, skipped) \<Rightarrow>
        (case verify_playlist_still_matches_snapshot latest
                (snapshot_or expected (fs_snapshot_id playlist)) of
           Inl e \<Rightarrow> Inl e
         | Inr _ \<Rightarrow>
        (case order_selected_playlist_items positions tracks skipped of
           Inl e \<Rightarrow> Inl e
         | Inr (ts, ss) \<Rightarrow>
             Inr \<lparr>pe_playlist = playlist, pe_tracks = ts, pe_skipped = ss\<rparr>))))))"

section \<open>What the validation accepts\<close>

lemma adjacent_equal_sorted:
  fixes xs :: "'a::linorder list"
  shows "sorted xs \<Longrightarrow> adjacent_equal xs \<longleftrightarrow> \<not> distinct xs"
proof (induction xs rule: adjacent_equal.induct)
  case (1 x y zs)
  then show ?case by (auto simp: order.antisym)
qed simp_all

lemma validate_positions_Inr:
  "validate_selected_playlist_positions ps = Inr qs \<longleftrightarrow>
     ps \<noteq> [] \<and> length ps \<le> 1000 \<and> (\<forall>p \<in> set ps. p \<le> 100000) \<and> distinct ps \<and> qs = sort ps"
proof -
  have far: "list_ex (\<lambda>p. 100000 < p) ps \<longleftrightarrow> \<not> (\<forall>p \<in> set ps. p \<le> 100000)"
    by (auto simp: list_ex_iff not_le)
  show ?thesis
    by (simp add: validate_selected_playlist_positions_def Let_def adjacent_equal_sorted
        MAX_PLAYLIST_QUEUE_TRACKS_def MAX_PLAYLIST_ITEMS_OFFSET_def far not_less) auto
qed

section \<open>Expansion covers the playlist\<close>

text \<open>A page is contiguous when it holds exactly the positions after the offset asked for.\<close>

definition page_positions ::
  "(nat \<times> favorite_summary) list \<Rightarrow> skipped_playlist_item list \<Rightarrow> nat set" where
  "page_positions tracks skipped = fst ` set tracks \<union> sk_position ` set skipped"

definition contiguous_pages :: "(nat \<Rightarrow> jam_api_error + playlist_page) \<Rightarrow> bool" where
  "contiguous_pages fetch_page \<longleftrightarrow>
     (\<forall>offset tracks skipped count. fetch_page offset = Inr (tracks, skipped, count) \<longrightarrow>
        page_positions tracks skipped = {offset..<offset + length tracks + length skipped})"

lemma page_positions_append:
  "page_positions (ts @ ts') (ss @ ss') = page_positions ts ss \<union> page_positions ts' ss'"
  by (auto simp: page_positions_def)

lemma interval_join: "{0..<a} \<union> {a..<a + b + c} = {0..<(a + b + c)::nat}"
  by auto

lemma collect_pages_covers:
  assumes "contiguous_pages fetch_page"
    and "page_positions tracks skipped = {0..<offset}"
    and "length tracks + length skipped = offset"
    and "collect_pages fetch_page offset expected tracks skipped = Inr (ts, ss)"
  shows "\<exists>n. (\<forall>t. expected = Some t \<longrightarrow> offset \<le> unat t \<longrightarrow> n = unat t) \<and> n \<le> max offset 1000
    \<and> page_positions ts ss = {0..<n} \<and> length ts + length ss = n"
  using assms
proof (induction fetch_page offset expected tracks skipped rule: collect_pages.induct)
  case (1 fetch_page offset expected tracks skipped)
  obtain pt ps pn where page: "fetch_page offset = Inr (pt, ps, pn)"
    using "1.prems"(4) by (subst (asm) collect_pages.simps) (auto split: sum.splits)
  have step: "(if expected \<noteq> None \<and> expected \<noteq> Some pn then Inl playlist_changed_error
     else if MAX_PLAYLIST_QUEUE_TRACKS < unat pn then Inl (playlist_batch_too_large_error (unat pn))
     else if length pt + length ps = 0 then
       (if offset < unat pn then Inl playlist_changed_error else Inr (tracks, skipped))
     else if offset + (length pt + length ps) > u64_max \<or> offset + (length pt + length ps) > unat pn
       then Inl playlist_changed_error
     else if offset + (length pt + length ps) = unat pn then Inr (tracks @ pt, skipped @ ps)
     else collect_pages fetch_page (offset + (length pt + length ps)) (Some pn)
            (tracks @ pt) (skipped @ ps)) = Inr (ts, ss)"
    using "1.prems"(4) by (subst (asm) collect_pages.simps) (simp only: page sum.case prod.case Let_def)
  have new: "page_positions (tracks @ pt) (skipped @ ps)
      = {0..<offset + length pt + length ps}"
  proof -
    have "page_positions pt ps = {offset..<offset + length pt + length ps}"
      using "1.prems"(1) page unfolding contiguous_pages_def by blast
    with "1.prems"(2) show ?thesis by (simp add: page_positions_append interval_join)
  qed
  consider (empty) "length pt + length ps = 0"
    | (last) "length pt + length ps \<noteq> 0" "offset + (length pt + length ps) = unat pn"
    | (more) "length pt + length ps \<noteq> 0" "offset + (length pt + length ps) \<noteq> unat pn"
    by blast
  then show ?case
  proof cases
    case empty
    with step "1.prems" show ?thesis by (auto split: if_splits intro!: exI [of _ offset])
  next
    case last
    with step "1.prems" new show ?thesis
      by (auto split: if_splits simp: MAX_PLAYLIST_QUEUE_TRACKS_def intro!: exI [of _ "unat pn"])
  next
    case more
    with step have rec: "collect_pages fetch_page (offset + (length pt + length ps)) (Some pn)
            (tracks @ pt) (skipped @ ps) = Inr (ts, ss)"
      and le: "offset + (length pt + length ps) \<le> unat pn" "unat pn \<le> 1000"
      and guards: "\<not> (expected \<noteq> None \<and> expected \<noteq> Some pn)"
        "\<not> MAX_PLAYLIST_QUEUE_TRACKS < unat pn"
        "\<not> (offset + (length pt + length ps) > u64_max \<or> offset + (length pt + length ps) > unat pn)"
      by (auto split: if_splits simp: MAX_PLAYLIST_QUEUE_TRACKS_def)
    have "\<exists>n. (\<forall>t. Some pn = Some t \<longrightarrow> offset + (length pt + length ps) \<le> unat t \<longrightarrow> n = unat t)
      \<and> n \<le> max (offset + (length pt + length ps)) 1000
      \<and> page_positions ts ss = {0..<n} \<and> length ts + length ss = n"
      by (rule "1.IH" [OF page _ _ guards(1,2) _ more(1) guards(3) more(2)])
        (use "1.prems" new rec in \<open>simp_all add: add.assoc\<close>)
    with le guards(1) show ?thesis by auto
  qed
qed

section \<open>Selections keep their order\<close>

lemma take_positions_order:
  assumes "distinct ps" and "take_positions ps tm sm = Inr (ts, ss)"
    and "\<forall>p item. hm_get sm p = Some item \<longrightarrow> sk_position item = p"
  shows "map fst ts = filter (\<lambda>p. hm_get tm p \<noteq> None) ps
    \<and> map sk_position ss = filter (\<lambda>p. hm_get tm p = None) ps
    \<and> (\<forall>(p, t) \<in> set ts. hm_get tm p = Some t)"
  using assms
proof (induction ps tm sm arbitrary: ts ss rule: take_positions.induct)
  case (2 p ps tm sm)
  show ?case
  proof (cases "hm_get tm p")
    case None
    then obtain item where item: "hm_get sm p = Some item"
      using "2.prems"(2) by (auto split: option.splits)
    then obtain ss' where rest: "take_positions ps tm (hm_remove p sm) = Inr (ts, ss')"
      and ss: "ss = item # ss'"
      using None "2.prems"(2) by (auto split: sum.splits)
    have "\<forall>q i. hm_get (hm_remove p sm) q = Some i \<longrightarrow> sk_position i = q"
      using "2.prems"(3) by (simp add: hm_simps)
    from "2.IH"(1) [OF None item _ rest this] "2.prems" None ss item show ?thesis by auto
  next
    case (Some track)
    then obtain ts' where rest: "take_positions ps (hm_remove p tm) sm = Inr (ts', ss)"
      and ts: "ts = (p, track) # ts'"
      using "2.prems"(2) by (auto split: sum.splits)
    have same: "filter (\<lambda>q. P (hm_get (hm_remove p tm) q)) ps = filter (\<lambda>q. P (hm_get tm q)) ps"
      for P
      using "2.prems"(1) by (intro filter_cong) (auto simp: hm_simps)
    from "2.IH"(2) [OF Some _ rest "2.prems"(3)] "2.prems"(1) same [of "\<lambda>x. x \<noteq> None"]
      same [of "\<lambda>x. x = None"] Some ts show ?thesis
      by (auto simp: hm_simps split: if_splits)
  qed
qed simp

lemma hm_collect_get:
  "hm_get (fold (\<lambda>(k, v). hm_insert k v) xs m) k = Some v \<Longrightarrow> (k, v) \<in> set xs \<or> hm_get m k = Some v"
  by (induction xs arbitrary: m) (force simp: hm_simps split: if_splits)+

lemma hm_collect_dom:
  "(hm_get (fold (\<lambda>(k, v). hm_insert k v) xs m) k \<noteq> None) \<longleftrightarrow> (k \<in> fst ` set xs \<or> hm_get m k \<noteq> None)"
  by (induction xs arbitrary: m) (force simp: hm_simps split: if_splits)+

lemma order_selected_order:
  assumes "distinct positions"
    and "order_selected_playlist_items positions tracks skipped = Inr (ts, ss)"
  shows "map fst ts = filter (\<lambda>p. p \<in> fst ` set tracks) positions
    \<and> map sk_position ss = filter (\<lambda>p. p \<notin> fst ` set tracks) positions
    \<and> set ts \<subseteq> set tracks"
proof -
  have dom: "(hm_get (hm_collect tracks) p \<noteq> None) \<longleftrightarrow> p \<in> fst ` set tracks" for p
    using hm_collect_dom [of tracks "[]" p] by (simp add: hm_collect_def)
  have "\<forall>p item. hm_get (hm_collect (map (\<lambda>item. (sk_position item, item)) skipped)) p = Some item
      \<longrightarrow> sk_position item = p"
    by (auto simp: hm_collect_def dest!: hm_collect_get)
  from take_positions_order [OF assms(1) _ this] assms(2)
  have *: "map fst ts = filter (\<lambda>p. hm_get (hm_collect tracks) p \<noteq> None) positions"
    "map sk_position ss = filter (\<lambda>p. hm_get (hm_collect tracks) p = None) positions"
    "\<forall>(p, t) \<in> set ts. hm_get (hm_collect tracks) p = Some t"
    by (auto simp: order_selected_playlist_items_def)
  moreover have "set ts \<subseteq> set tracks"
    using *(3) by (fastforce simp: hm_collect_def dest: hm_collect_get)
  ultimately show ?thesis using dom by (simp add: dom [symmetric])
qed

end
