(* ===== verification/JamModel.thy ===== *)
theory JamModel
  imports Catalog
begin

text \<open>
  The data of \<open>core/control/src/jam_session.rs\<close>: the queue entry with its two state tags, the
  observation of Spotify's player, the idempotency receipts, and \<open>JamState\<close>, the one shared
  state behind \<open>AppState::jam\<close>. A field keeps its Rust name behind a prefix for its struct.
\<close>

section \<open>Tokens\<close>

record spotify_token =
  tok_access_token :: string
  tok_refresh_token :: string
  tok_expires_at :: u64
  tok_scope :: string

definition is_ascii_whitespace :: "char \<Rightarrow> bool" where
  "is_ascii_whitespace c \<longleftrightarrow> byte_of c \<in> {9, 10, 12, 13, 32}"

fun split_words :: "string \<Rightarrow> string \<Rightarrow> string list" where
  "split_words word [] = (if word = [] then [] else [word])"
| "split_words word (c # cs) =
     (if is_ascii_whitespace c then (if word = [] then [] else [word]) @ split_words [] cs
      else split_words (word @ [c]) cs)"

definition split_ascii_whitespace :: "string \<Rightarrow> string list" where
  "split_ascii_whitespace s = split_words [] s"

definition SPOTIFY_LIBRARY_SCOPES :: "string list" where
  "SPOTIFY_LIBRARY_SCOPES =
     [''user-library-read'', ''playlist-read-private'', ''playlist-read-collaborative'']"

definition spotify_library_scopes_authorized :: "spotify_token option \<Rightarrow> bool" where
  "spotify_library_scopes_authorized token =
     (case token of None \<Rightarrow> False
      | Some t \<Rightarrow> list_all (\<lambda>scope. scope \<in> set (split_ascii_whitespace (tok_scope t)))
                   SPOTIFY_LIBRARY_SCOPES)"

section \<open>Queue entries\<close>

datatype queue_delivery_state = Pending | SpotifyCommitted | CommitUnknown

definition is_removable :: "queue_delivery_state \<Rightarrow> bool" where
  "is_removable d \<longleftrightarrow> d = Pending"

definition occupies_spotify_frontier :: "queue_delivery_state \<Rightarrow> bool" where
  "occupies_spotify_frontier d \<longleftrightarrow> d = SpotifyCommitted \<or> d = CommitUnknown"

datatype queue_current_match_state = Eligible | AwaitingTransition

record queued_playlist_provenance =
  qp_spotify_id :: string
  qp_spotify_uri :: string
  qp_spotify_url :: string
  qp_name :: string

record queued_track =
  qt_queue_entry_id :: string
  qt_queue_batch_id :: "string option"
  qt_spotify_id :: string
  qt_spotify_uri :: string
  qt_spotify_url :: string
  qt_name :: string
  qt_artist :: string
  qt_album_art_url :: string
  qt_duration_ms :: u64
  qt_added_at_ms :: u64
  qt_added_by_actor_id :: string
  qt_added_by_name :: string
  qt_playlist :: "queued_playlist_provenance option"
  qt_playlist_position :: "nat option"
  qt_added_by :: string

record jam_queue_entry =
  qe_track :: queued_track
  qe_delivery_state :: queue_delivery_state
  qe_can_remove :: bool
  qe_current_match_state :: queue_current_match_state

type_synonym jam_queue = "jam_queue_entry list"

abbreviation entry_id :: "jam_queue_entry \<Rightarrow> string" where
  "entry_id e \<equiv> qt_queue_entry_id (qe_track e)"

abbreviation entry_uri :: "jam_queue_entry \<Rightarrow> string" where
  "entry_uri e \<equiv> qt_spotify_uri (qe_track e)"

definition pending_queue_entry :: "queued_track \<Rightarrow> jam_queue_entry" where
  "pending_queue_entry track =
     \<lparr>qe_track = track, qe_delivery_state = Pending, qe_can_remove = True,
      qe_current_match_state = Eligible\<rparr>"

section \<open>Observations of the player\<close>

record now_playing_info =
  np_spotify_id :: string
  np_spotify_uri :: string
  np_spotify_url :: string
  np_name :: string
  np_artist :: string
  np_album_art_url :: string
  np_duration_ms :: u64
  np_progress_ms :: u64
  np_is_playing :: bool
  np_fetched_at :: "instant option"

record spotify_queue_observation =
  so_current_uri :: string
  so_next_uri :: "string option"

record spotify_placement_observation =
  po_playback_present :: bool
  po_bound_device :: bool
  po_is_playing :: bool
  po_current_uri :: "string option"
  po_progress_ms :: u64
  po_duration_ms :: u64

datatype pre_skip_same_uri_resolution = NotNeeded | AwaitingStillNext | AwaitingIsCurrent

record uncertain_skip_boundary =
  us_pre_skip_current_uri :: string
  us_previous_uri :: "string option"
  us_same_uri_resolution :: pre_skip_same_uri_resolution

section \<open>Receipts\<close>

record track_queue_receipt =
  tr_actor_id :: string
  tr_spotify_id :: string
  tr_generation :: u64
  tr_created_at_ms :: u64
  tr_track :: jam_queue_entry

record playlist_queue_selection_fingerprint =
  pf_selected_positions :: "nat list option"
  pf_snapshot_id :: "string option"

record playlist_queue_failure =
  pqf_status :: nat
  pqf_error :: string
  pqf_message :: string
  pqf_retry_after :: "string option"

record playlist_queue_response =
  pr_schema_version :: nat
  pr_ok :: bool
  pr_partial :: bool
  pr_request_id :: string
  pr_queue_batch_id :: string
  pr_batch_id :: string
  pr_generation :: u64
  pr_playlist :: queued_playlist_provenance
  pr_queued_positions :: "nat list"
  pr_remaining_positions :: "nat list"
  pr_queued_count :: nat
  pr_skipped :: "skipped_playlist_item list"
  pr_skipped_count :: nat
  pr_complete :: bool
  pr_failure :: "playlist_queue_failure option"

record playlist_queue_receipt =
  pl_actor_id :: string
  pl_playlist_id :: string
  pl_selection :: playlist_queue_selection_fingerprint
  pl_generation :: u64
  pl_created_at_ms :: u64
  pl_response :: playlist_queue_response

record queue_removal_fingerprint =
  rf_expected_queue_revision :: u64
  rf_queue_entry_ids :: "string list"

record jam_queue_remove_response =
  rr_ok :: bool
  rr_generation :: u64
  rr_queue_revision :: u64
  rr_removed_entry_ids :: "string list"
  rr_removed_count :: nat

record queue_removal_receipt =
  rm_actor_id :: string
  rm_generation :: u64
  rm_fingerprint :: queue_removal_fingerprint
  rm_created_at_ms :: u64
  rm_response :: jam_queue_remove_response

record jam_audio_connection =
  ac_participant_auth_id :: string
  ac_generation :: u64
  ac_connection_id :: u64

section \<open>The state of a Jam\<close>

record jam_state =
  jam_active :: bool
  jam_starting :: bool
  jam_generation :: u64
  jam_host_identity :: string
  jam_host_participant_auth_id :: string
  jam_spotify_token :: "spotify_token option"
  jam_queue :: jam_queue
  jam_queue_revision :: u64
  jam_track_queue_receipts :: "(string, track_queue_receipt) hash_map"
  jam_playlist_queue_receipts :: "(string, playlist_queue_receipt) hash_map"
  jam_queue_removal_receipts :: "(string, queue_removal_receipt) hash_map"
  jam_queue_control_epoch :: u64
  jam_queue_stop_epoch :: u64
  jam_queue_control_stopped :: bool
  jam_uncertain_skip :: "uncertain_skip_boundary option"
  jam_last_history_spotify_id :: "string option"
  jam_last_history_was_echo :: bool
  jam_now_playing :: "now_playing_info option"
  jam_listeners :: "(string, string) hash_map"
  jam_audio_connections :: "(string, jam_audio_connection) hash_map"
  jam_next_audio_connection_id :: u64
  jam_spotify_device_id :: "string option"
  jam_spotify_device_name :: "string option"
  jam_last_error :: "string option"
  jam_spotify_is_playing :: bool
  jam_audio_expected_since :: "instant option"

definition jam_default :: jam_state where
  "jam_default =
     \<lparr>jam_active = False, jam_starting = False, jam_generation = 0, jam_host_identity = [],
      jam_host_participant_auth_id = [], jam_spotify_token = None, jam_queue = [],
      jam_queue_revision = 0, jam_track_queue_receipts = [], jam_playlist_queue_receipts = [],
      jam_queue_removal_receipts = [], jam_queue_control_epoch = 0, jam_queue_stop_epoch = 0,
      jam_queue_control_stopped = False, jam_uncertain_skip = None,
      jam_last_history_spotify_id = None, jam_last_history_was_echo = False,
      jam_now_playing = None, jam_listeners = [], jam_audio_connections = [],
      jam_next_audio_connection_id = 0, jam_spotify_device_id = None,
      jam_spotify_device_name = None, jam_last_error = None, jam_spotify_is_playing = False,
      jam_audio_expected_since = None\<rparr>"

definition bump_queue_revision :: "jam_state \<Rightarrow> jam_state" where
  "bump_queue_revision jam = jam\<lparr>jam_queue_revision := jam_queue_revision jam + 1\<rparr>"

definition active_generation_matches :: "jam_state \<Rightarrow> u64 \<Rightarrow> bool" where
  "active_generation_matches jam generation \<longleftrightarrow> jam_active jam \<and> jam_generation jam = generation"

lemma bump_queue_revision_sel [simp]:
  "jam_queue (bump_queue_revision jam) = jam_queue jam"
  "jam_active (bump_queue_revision jam) = jam_active jam"
  "jam_generation (bump_queue_revision jam) = jam_generation jam"
  "jam_queue_revision (bump_queue_revision jam) = jam_queue_revision jam + 1"
  "jam_uncertain_skip (bump_queue_revision jam) = jam_uncertain_skip jam"
  "jam_queue_control_stopped (bump_queue_revision jam) = jam_queue_control_stopped jam"
  "jam_queue_stop_epoch (bump_queue_revision jam) = jam_queue_stop_epoch jam"
  "jam_queue_control_epoch (bump_queue_revision jam) = jam_queue_control_epoch jam"
  "jam_now_playing (bump_queue_revision jam) = jam_now_playing jam"
  "jam_listeners (bump_queue_revision jam) = jam_listeners jam"
  "jam_audio_connections (bump_queue_revision jam) = jam_audio_connections jam"
  "jam_spotify_device_id (bump_queue_revision jam) = jam_spotify_device_id jam"
  by (simp_all add: bump_queue_revision_def)

section \<open>The shape of a queue\<close>

text \<open>
  Delivery states are ordered by how far an entry has gone: what Spotify accepted comes before
  what it may have accepted, and both before what Echo still holds. A queue whose entries are
  sorted by it is a run of committed entries, then the unknown ones, then the pending ones.
\<close>

fun delivery_rank :: "queue_delivery_state \<Rightarrow> nat" where
  "delivery_rank SpotifyCommitted = 0"
| "delivery_rank CommitUnknown = 1"
| "delivery_rank Pending = 2"

instantiation queue_delivery_state :: linorder
begin

definition less_eq_queue_delivery_state :: "queue_delivery_state \<Rightarrow> queue_delivery_state \<Rightarrow> bool" where
  "less_eq_queue_delivery_state a b \<longleftrightarrow> delivery_rank a \<le> delivery_rank b"

definition less_queue_delivery_state :: "queue_delivery_state \<Rightarrow> queue_delivery_state \<Rightarrow> bool" where
  "less_queue_delivery_state a b \<longleftrightarrow> delivery_rank a < delivery_rank b"

instance
proof
  fix a b :: queue_delivery_state
  show "a \<le> b \<Longrightarrow> b \<le> a \<Longrightarrow> a = b"
    by (cases a; cases b) (simp_all add: less_eq_queue_delivery_state_def)
qed (auto simp: less_eq_queue_delivery_state_def less_queue_delivery_state_def)

end

lemmas delivery_order = less_eq_queue_delivery_state_def less_queue_delivery_state_def

lemma delivery_le_Pending [simp]: "d \<le> Pending"
  by (cases d) (simp_all add: delivery_order)

lemma Committed_le [simp]: "SpotifyCommitted \<le> d"
  by (cases d) (simp_all add: delivery_order)

lemma frontier_iff [simp]: "occupies_spotify_frontier d \<longleftrightarrow> d \<noteq> Pending"
  by (cases d) (simp_all add: occupies_spotify_frontier_def)

definition frontier_count :: "jam_queue \<Rightarrow> nat" where
  "frontier_count q = length (filter (\<lambda>e. occupies_spotify_frontier (qe_delivery_state e)) q)"

definition unknown_count :: "jam_queue \<Rightarrow> nat" where
  "unknown_count q = length (filter (\<lambda>e. qe_delivery_state e = CommitUnknown) q)"

definition entry_ok :: "jam_queue_entry \<Rightarrow> bool" where
  "entry_ok e \<longleftrightarrow> (qe_can_remove e \<longleftrightarrow> qe_delivery_state e = Pending)
     \<and> (qe_delivery_state e = Pending \<longrightarrow> qe_current_match_state e = Eligible)"

definition queue_ok :: "jam_queue \<Rightarrow> bool" where
  "queue_ok q \<longleftrightarrow> list_all entry_ok q \<and> sorted (map qe_delivery_state q)
     \<and> frontier_count q \<le> 2 \<and> unknown_count q \<le> 1 \<and> distinct (map entry_id q)"

definition jam_queue_ok :: "jam_state \<Rightarrow> bool" where
  "jam_queue_ok jam \<longleftrightarrow> queue_ok (jam_queue jam)"

lemma entry_ok_pending [simp]: "entry_ok (pending_queue_entry t)"
  by (simp add: entry_ok_def pending_queue_entry_def)

lemma queue_ok_Nil [simp]: "queue_ok []"
  by (simp add: queue_ok_def frontier_count_def unknown_count_def)

lemma jam_queue_ok_default [simp]: "jam_queue_ok jam_default"
  by (simp add: jam_queue_ok_def jam_default_def)

lemma queue_ok_entry: "queue_ok q \<Longrightarrow> e \<in> set q \<Longrightarrow> entry_ok e"
  by (simp add: queue_ok_def list_all_iff)

text \<open>Any sub-list kept by a filter, and so any suffix, of a good queue is good.\<close>

lemma queue_ok_filter: "queue_ok q \<Longrightarrow> queue_ok (filter P q)"
proof -
  assume ok: "queue_ok q"
  have le: "length (filter Q (filter P q)) \<le> length (filter Q q)" for Q
    by (induction q) auto
  have "sorted (map qe_delivery_state (filter P q))"
    using ok by (simp add: queue_ok_def sorted_filter)
  then show ?thesis
    using ok le [of "\<lambda>e. occupies_spotify_frontier (qe_delivery_state e)"]
      le [of "\<lambda>e. qe_delivery_state e = CommitUnknown"]
    by (auto simp: queue_ok_def frontier_count_def unknown_count_def list_all_iff distinct_map_filter)
qed

lemma queue_ok_append1: "queue_ok (xs @ ys) \<Longrightarrow> queue_ok xs"
  by (auto simp: queue_ok_def frontier_count_def unknown_count_def sorted_append)

lemma queue_ok_append2: "queue_ok (xs @ ys) \<Longrightarrow> queue_ok ys"
  by (auto simp: queue_ok_def frontier_count_def unknown_count_def sorted_append)

lemma queue_ok_drop: "queue_ok q \<Longrightarrow> queue_ok (drop n q)"
  using queue_ok_append2 [of "take n q" "drop n q"] by simp

lemma queue_ok_tl: "queue_ok (e # q) \<Longrightarrow> queue_ok q"
  using queue_ok_append2 [of "[e]" q] by simp

lemma frontier_count_append [simp]:
  "frontier_count (xs @ ys) = frontier_count xs + frontier_count ys"
  by (simp add: frontier_count_def)

lemma unknown_count_append [simp]:
  "unknown_count (xs @ ys) = unknown_count xs + unknown_count ys"
  by (simp add: unknown_count_def)

lemma frontier_count_Cons [simp]:
  "frontier_count (e # q) = (if qe_delivery_state e \<noteq> Pending then 1 else 0) + frontier_count q"
  by (simp add: frontier_count_def)

lemma unknown_count_Cons [simp]:
  "unknown_count (e # q) = (if qe_delivery_state e = CommitUnknown then 1 else 0) + unknown_count q"
  by (simp add: unknown_count_def)

lemma counts_Nil [simp]: "frontier_count [] = 0" "unknown_count [] = 0"
  by (simp_all add: frontier_count_def unknown_count_def)

end
