(* ===== verification/JamReceipts.thy ===== *)
theory JamReceipts
  imports JamModel
begin

text \<open>
  The idempotency receipts of \<open>jam_session.rs\<close>: one bounded table each for track adds,
  playlist adds and removals. A request identifier that comes back with the same operation is
  answered from the table; with another operation it is a conflict. The three tables share the
  contract \<open>receipt_table\<close>, whose consequences are proved once.
\<close>

section \<open>The tables\<close>

definition evict_oldest :: "('r \<Rightarrow> u64) \<Rightarrow> (string, 'r) hash_map \<Rightarrow> (string, 'r) hash_map" where
  "evict_oldest created m =
     (if 128 \<le> length m then
        (case map_option fst (min_by_key (\<lambda>(_, receipt). created receipt) m) of
           Some oldest \<Rightarrow> hm_remove oldest m
         | None \<Rightarrow> m)
      else m)"

definition insert_track_queue_receipt ::
  "jam_state \<Rightarrow> string \<Rightarrow> track_queue_receipt \<Rightarrow> jam_state" where
  "insert_track_queue_receipt jam request_id receipt =
     jam\<lparr>jam_track_queue_receipts :=
       hm_insert request_id receipt (evict_oldest tr_created_at_ms (jam_track_queue_receipts jam))\<rparr>"

definition track_queue_receipt_response ::
  "jam_state \<Rightarrow> string \<Rightarrow> string \<Rightarrow> string \<Rightarrow> u64 \<Rightarrow> unit + jam_queue_entry option" where
  "track_queue_receipt_response jam request_id actor_id spotify_id generation =
     (case hm_get (jam_track_queue_receipts jam) request_id of
        None \<Rightarrow> Inr None
      | Some receipt \<Rightarrow>
          if tr_actor_id receipt = actor_id \<and> tr_spotify_id receipt = spotify_id
             \<and> tr_generation receipt = generation
          then Inr (Some (tr_track receipt)) else Inl ())"

definition insert_playlist_queue_receipt ::
  "jam_state \<Rightarrow> string \<Rightarrow> playlist_queue_receipt \<Rightarrow> jam_state" where
  "insert_playlist_queue_receipt jam request_id receipt =
     jam\<lparr>jam_playlist_queue_receipts :=
       hm_insert request_id receipt
         (evict_oldest pl_created_at_ms (jam_playlist_queue_receipts jam))\<rparr>"

definition playlist_queue_receipt_response ::
  "jam_state \<Rightarrow> string \<Rightarrow> string \<Rightarrow> string \<Rightarrow> playlist_queue_selection_fingerprint \<Rightarrow> u64
   \<Rightarrow> unit + playlist_queue_response option" where
  "playlist_queue_receipt_response jam request_id actor_id playlist_id selection generation =
     (case hm_get (jam_playlist_queue_receipts jam) request_id of
        None \<Rightarrow> Inr None
      | Some receipt \<Rightarrow>
          if pl_actor_id receipt = actor_id \<and> pl_playlist_id receipt = playlist_id
             \<and> pl_selection receipt = selection \<and> pl_generation receipt = generation
          then Inr (Some (pl_response receipt)) else Inl ())"

definition insert_queue_removal_receipt ::
  "jam_state \<Rightarrow> string \<Rightarrow> queue_removal_receipt \<Rightarrow> jam_state" where
  "insert_queue_removal_receipt jam request_id receipt =
     jam\<lparr>jam_queue_removal_receipts :=
       hm_insert request_id receipt
         (evict_oldest rm_created_at_ms (jam_queue_removal_receipts jam))\<rparr>"

definition queue_removal_receipt_response ::
  "jam_state \<Rightarrow> string \<Rightarrow> string \<Rightarrow> u64 \<Rightarrow> queue_removal_fingerprint
   \<Rightarrow> unit + jam_queue_remove_response option" where
  "queue_removal_receipt_response jam request_id actor_id generation fingerprint =
     (case hm_get (jam_queue_removal_receipts jam) request_id of
        None \<Rightarrow> Inr None
      | Some receipt \<Rightarrow>
          if rm_actor_id receipt = actor_id \<and> rm_generation receipt = generation
             \<and> rm_fingerprint receipt = fingerprint
          then Inr (Some (rm_response receipt)) else Inl ())"

section \<open>Eviction\<close>

lemma evict_oldest_ok [simp]: "hm_ok m \<Longrightarrow> hm_ok (evict_oldest c m)"
  by (auto simp: evict_oldest_def split: option.splits)

lemma evict_oldest_get:
  "hm_get (evict_oldest c m) k = Some r \<Longrightarrow> hm_get m k = Some r"
  by (auto simp: evict_oldest_def hm_simps split: if_splits option.splits)

lemma evict_oldest_small: "length m < 128 \<Longrightarrow> evict_oldest c m = m"
  by (simp add: evict_oldest_def)

lemma evict_oldest_length:
  assumes "hm_ok m" and "length m \<le> 128"
  shows "length (evict_oldest c m) < 128"
proof (cases "128 \<le> length m")
  case True
  then obtain k r where min: "min_by_key (\<lambda>(_, receipt). c receipt) m = Some (k, r)"
    by (cases "min_by_key (\<lambda>(_, receipt). c receipt) m") (auto simp: min_by_key_None)
  then have "(k, r) \<in> set m" by (blast dest: min_by_key_Some)
  then have "length (hm_remove k m) < length m"
    using assms(1) by (intro hm_length_remove_member) (simp_all add: hm_get_eq_Some)
  with True min assms(2) show ?thesis by (simp add: evict_oldest_def)
qed (simp add: evict_oldest_def)

lemma evict_oldest_evicts_min:
  assumes "hm_ok m" and "hm_get m k = Some r" and "hm_get (evict_oldest c m) k = None"
    and "(k', r') \<in> set m"
  shows "c r \<le> c r'"
proof -
  from assms(2,3) obtain r'' where
    min: "min_by_key (\<lambda>(_, receipt). c receipt) m = Some (k, r'')"
    by (auto simp: evict_oldest_def hm_simps split: if_splits option.splits)
  then have "(k, r'') \<in> set m" and le: "\<forall>x \<in> set m. c r'' \<le> (case x of (_, q) \<Rightarrow> c q)"
    by (auto dest!: min_by_key_Some)
  then have "r'' = r" using assms(1,2) by (simp add: hm_get_eq_Some [symmetric])
  with le assms(4) show ?thesis by auto
qed

section \<open>The contract of a receipt table\<close>

locale receipt_table =
  fixes entries :: "'j \<Rightarrow> (string, 'r) hash_map"
    and insert_receipt :: "'j \<Rightarrow> string \<Rightarrow> 'r \<Rightarrow> 'j"
    and created :: "'r \<Rightarrow> u64"
  assumes insert_same: "hm_get (entries (insert_receipt j k r)) k = Some r"
    and insert_other: "k' \<noteq> k \<Longrightarrow> hm_get (entries (insert_receipt j k r)) k' = Some r' \<Longrightarrow>
      hm_get (entries j) k' = Some r'"
    and insert_unique: "hm_ok (entries j) \<Longrightarrow> hm_ok (entries (insert_receipt j k r))"
    and insert_bound: "hm_ok (entries j) \<Longrightarrow> length (entries j) \<le> 128 \<Longrightarrow>
      length (entries (insert_receipt j k r)) \<le> 128"
    and insert_keeps: "length (entries j) < 128 \<Longrightarrow> k' \<noteq> k \<Longrightarrow>
      hm_get (entries (insert_receipt j k r)) k' = hm_get (entries j) k'"
    and insert_evicts_oldest: "hm_ok (entries j) \<Longrightarrow> k' \<noteq> k \<Longrightarrow>
      hm_get (entries j) k' = Some r' \<Longrightarrow> hm_get (entries (insert_receipt j k r)) k' = None \<Longrightarrow>
      (k2, r2) \<in> set (entries j) \<Longrightarrow> created r' \<le> created r2"
begin

definition insert_all :: "'j \<Rightarrow> (string \<times> 'r) list \<Rightarrow> 'j" where
  "insert_all j rs = fold (\<lambda>(k, r) j. insert_receipt j k r) rs j"

lemma insert_all_bounded:
  "hm_ok (entries j) \<Longrightarrow> length (entries j) \<le> 128 \<Longrightarrow>
     hm_ok (entries (insert_all j rs)) \<and> length (entries (insert_all j rs)) \<le> 128"
  unfolding insert_all_def
  by (induction rs arbitrary: j) (auto simp: insert_unique insert_bound)

lemma insert_all_sound:
  "hm_get (entries (insert_all j rs)) k = Some r \<Longrightarrow>
     (k, r) \<in> set rs \<or> hm_get (entries j) k = Some r"
  unfolding insert_all_def
proof (induction rs arbitrary: j)
  case (Cons x rs)
  obtain k' r' where x: "x = (k', r')" by (cases x)
  from Cons.prems x have "(k, r) \<in> set rs \<or> hm_get (entries (insert_receipt j k' r')) k = Some r"
    by (intro Cons.IH) simp
  then show ?case
    by (cases "k = k'") (auto simp: x insert_same dest: insert_other)
qed simp

lemma insert_all_last:
  "hm_get (entries (insert_all j (rs @ [(k, r)]))) k = Some r"
  by (simp add: insert_all_def insert_same)

lemma newest_survives:
  assumes "hm_ok (entries j)" and "hm_get (entries j) k' = Some r'" and "k' \<noteq> k"
    and "(k2, r2) \<in> set (entries j)" and "created r2 < created r'"
  shows "hm_get (entries (insert_receipt j k r)) k' = Some r'"
proof (rule ccontr)
  assume lost: "hm_get (entries (insert_receipt j k r)) k' \<noteq> Some r'"
  show False
  proof (cases "hm_get (entries (insert_receipt j k r)) k'")
    case None
    have "created r' \<le> created r2"
      by (rule insert_evicts_oldest [OF assms(1) assms(3) assms(2) None assms(4)])
    with assms(5) show False by simp
  next
    case (Some r'')
    have "hm_get (entries j) k' = Some r''" by (rule insert_other [OF assms(3) Some])
    with assms(2) Some lost show False by simp
  qed
qed

end

lemma length_insert_evict:
  "hm_ok m \<Longrightarrow> length m \<le> 128 \<Longrightarrow> length (hm_insert k r (evict_oldest c m)) \<le> 128"
  using hm_length_insert [of k r "evict_oldest c m"] evict_oldest_length [of m c] by simp

lemmas receipt_laws = hm_simps length_insert_evict evict_oldest_small

interpretation track_receipts: receipt_table jam_track_queue_receipts insert_track_queue_receipt
  tr_created_at_ms
  by unfold_locales
    (auto simp: insert_track_queue_receipt_def receipt_laws
      dest: evict_oldest_get intro: evict_oldest_evicts_min)

interpretation playlist_receipts: receipt_table jam_playlist_queue_receipts
  insert_playlist_queue_receipt pl_created_at_ms
  by unfold_locales
    (auto simp: insert_playlist_queue_receipt_def receipt_laws
      dest: evict_oldest_get intro: evict_oldest_evicts_min)

interpretation removal_receipts: receipt_table jam_queue_removal_receipts
  insert_queue_removal_receipt rm_created_at_ms
  by unfold_locales
    (auto simp: insert_queue_removal_receipt_def receipt_laws
      dest: evict_oldest_get intro: evict_oldest_evicts_min)

lemma insert_receipts_queue [simp]:
  "jam_queue (insert_track_queue_receipt jam k tr) = jam_queue jam"
  "jam_queue (insert_playlist_queue_receipt jam k pr) = jam_queue jam"
  "jam_queue (insert_queue_removal_receipt jam k rr) = jam_queue jam"
  by (simp_all add: insert_track_queue_receipt_def insert_playlist_queue_receipt_def
      insert_queue_removal_receipt_def)

section \<open>What a replay answers\<close>

lemma track_receipt_replay:
  "track_queue_receipt_response (insert_track_queue_receipt jam k r) k (tr_actor_id r)
     (tr_spotify_id r) (tr_generation r) = Inr (Some (tr_track r))"
  by (simp add: track_queue_receipt_response_def track_receipts.insert_same)

lemma playlist_receipt_replay:
  "playlist_queue_receipt_response (insert_playlist_queue_receipt jam k r) k (pl_actor_id r)
     (pl_playlist_id r) (pl_selection r) (pl_generation r) = Inr (Some (pl_response r))"
  by (simp add: playlist_queue_receipt_response_def playlist_receipts.insert_same)

lemma removal_receipt_replay:
  "queue_removal_receipt_response (insert_queue_removal_receipt jam k r) k (rm_actor_id r)
     (rm_generation r) (rm_fingerprint r) = Inr (Some (rm_response r))"
  by (simp add: queue_removal_receipt_response_def removal_receipts.insert_same)

text \<open>A replay never leaks the answer of another actor, another operation or another Jam.\<close>

lemma track_receipt_no_leak:
  "track_queue_receipt_response jam k a s g = Inr (Some e) \<Longrightarrow>
     \<exists>r. hm_get (jam_track_queue_receipts jam) k = Some r \<and> tr_actor_id r = a
       \<and> tr_spotify_id r = s \<and> tr_generation r = g \<and> tr_track r = e"
  by (auto simp: track_queue_receipt_response_def split: option.splits if_splits)

lemma removal_receipt_no_leak:
  "queue_removal_receipt_response jam k a g f = Inr (Some resp) \<Longrightarrow>
     \<exists>r. hm_get (jam_queue_removal_receipts jam) k = Some r \<and> rm_actor_id r = a
       \<and> rm_generation r = g \<and> rm_fingerprint r = f \<and> rm_response r = resp"
  by (auto simp: queue_removal_receipt_response_def split: option.splits if_splits)

end
