(* ===== verification/SpotifyClient.thy ===== *)
theory SpotifyClient
  imports JamModel JamSource
begin

text \<open>
  The Spotify side of \<open>jam_session.rs\<close>: reading Spotify's JSON answers, its rate limit, one
  authorised request with its single retry, the errors it is turned into, and the choice of the
  configured Spotify Connect device with its bounded repair. Where a message of the code ends in
  the parser's or the transport's own text, that text is left out.
\<close>

section \<open>JSON values\<close>

text \<open>A parsed \<open>serde_json::Value\<close>; the parser itself is not modelled. A number that is no u64 is \<open>JOther\<close>.\<close>

datatype json = JNull | JBool bool | JNum u64 | JOther | JString string | JArray "json list"
  | JObject "(string \<times> json) list"

fun json_get :: "json \<Rightarrow> string \<Rightarrow> json option" where
  "json_get (JObject members) key = map_of members key"
| "json_get _ key = None"

definition json_index :: "json \<Rightarrow> string \<Rightarrow> json" where
  "json_index v key = or_default JNull (json_get v key)"

fun as_str :: "json \<Rightarrow> string option" where
  "as_str (JString s) = Some s"
| "as_str _ = None"

fun as_bool :: "json \<Rightarrow> bool option" where
  "as_bool (JBool b) = Some b"
| "as_bool _ = None"

fun as_u64 :: "json \<Rightarrow> u64 option" where
  "as_u64 (JNum n) = Some n"
| "as_u64 _ = None"

fun as_array :: "json \<Rightarrow> json list option" where
  "as_array (JArray vs) = Some vs"
| "as_array _ = None"

definition nonblank_str :: "json \<Rightarrow> string option" where
  "nonblank_str v =
     (case as_str v of None \<Rightarrow> None | Some s \<Rightarrow> if blank s then None else Some s)"

text \<open>An answer of Spotify: its status, its text and, where the text parses, its JSON value.\<close>

record http_response =
  http_status :: status
  http_text :: string
  http_json :: "json option"
  http_retry_after :: "u64 option"

definition is_success :: "status \<Rightarrow> bool" where
  "is_success s \<longleftrightarrow> 200 \<le> s \<and> s < 300"

definition is_server_error :: "status \<Rightarrow> bool" where
  "is_server_error s \<longleftrightarrow> 500 \<le> s \<and> s < 600"

type_synonym api_error = "status \<times> string"

section \<open>Errors\<close>

definition spotify_upstream_message :: "string \<Rightarrow> json option \<Rightarrow> string" where
  "spotify_upstream_message body parsed =
     (let stated = (case parsed of None \<Rightarrow> None
                    | Some v \<Rightarrow>
                       (case as_str (json_index (json_index v ''error'') ''message'') of
                          Some m \<Rightarrow> Some m
                        | None \<Rightarrow> as_str (json_index v ''error_description'')))
      in case stated of
           Some m \<Rightarrow> if m \<noteq> [] then m
             else (let message = take_chars 300 body in
                   if blank message then ''Spotify request failed'' else message)
         | None \<Rightarrow> (let message = take_chars 300 body in
                   if blank message then ''Spotify request failed'' else message))"

text \<open>\<open>show_status\<close> is the \<open>Display\<close> of a status code (its number and reason phrase).\<close>

definition spotify_response_error ::
  "(status \<Rightarrow> string) \<Rightarrow> http_response \<Rightarrow> string \<Rightarrow> api_error" where
  "spotify_response_error show_status resp operation =
     ((if http_status resp = TOO_MANY_REQUESTS then TOO_MANY_REQUESTS
       else if http_status resp = FORBIDDEN then FORBIDDEN
       else if http_status resp = NOT_FOUND then NOT_FOUND
       else BAD_GATEWAY),
      operation @ '' failed (Spotify '' @ show_status (http_status resp) @ ''): ''
        @ spotify_upstream_message (http_text resp) (http_json resp))"

definition spotify_token_exchange_error ::
  "(status \<Rightarrow> string) \<Rightarrow> status \<Rightarrow> string \<Rightarrow> json option \<Rightarrow> string option \<Rightarrow> jam_api_error" where
  "spotify_token_exchange_error show_status upstream body parsed retry_after =
     (let upstream_message = spotify_upstream_message body parsed in
      if upstream = FORBIDDEN then
        \<lparr>ae_status = FORBIDDEN, ae_code = ''spotify_account_forbidden'',
         ae_message = ''Spotify rejected this account for the Echo Chamber app: '' @ upstream_message
           @ ''. If the app is in Development Mode, add this exact Spotify account under User Management, then reconnect.'',
         ae_retry_after = retry_after\<rparr>
      else if upstream = TOO_MANY_REQUESTS then
        \<lparr>ae_status = TOO_MANY_REQUESTS, ae_code = ''spotify_rate_limited'',
         ae_message = ''Spotify token exchange was rate limited: '' @ upstream_message,
         ae_retry_after = retry_after\<rparr>
      else
        \<lparr>ae_status = BAD_GATEWAY, ae_code = ''spotify_token_exchange_failed'',
         ae_message = ''Spotify token exchange failed (Spotify '' @ show_status upstream @ ''): ''
           @ upstream_message,
         ae_retry_after = retry_after\<rparr>)"

definition spotify_access_validation_error ::
  "(status \<Rightarrow> string) \<Rightarrow> status \<Rightarrow> string \<Rightarrow> json option \<Rightarrow> string option \<Rightarrow> jam_api_error" where
  "spotify_access_validation_error show_status upstream body parsed retry_after =
     (let upstream_message = spotify_upstream_message body parsed in
      if upstream = FORBIDDEN then
        \<lparr>ae_status = FORBIDDEN, ae_code = ''spotify_account_forbidden'',
         ae_message = ''Spotify rejected this account for the Echo Chamber app: '' @ upstream_message
           @ ''. If the app is in Development Mode, add this exact Spotify account under User Management, then reconnect.'',
         ae_retry_after = retry_after\<rparr>
      else if upstream = TOO_MANY_REQUESTS then
        \<lparr>ae_status = TOO_MANY_REQUESTS, ae_code = ''spotify_rate_limited'',
         ae_message = ''Spotify could not verify this connection yet: '' @ upstream_message,
         ae_retry_after = retry_after\<rparr>
      else if upstream = UNAUTHORIZED then
        \<lparr>ae_status = BAD_GATEWAY, ae_code = ''spotify_token_rejected'',
         ae_message = ''Spotify rejected the new access token: '' @ upstream_message,
         ae_retry_after = retry_after\<rparr>
      else
        \<lparr>ae_status = BAD_GATEWAY, ae_code = ''spotify_connection_validation_failed'',
         ae_message = ''Spotify connection validation failed (Spotify '' @ show_status upstream
           @ ''): '' @ upstream_message,
         ae_retry_after = retry_after\<rparr>)"

section \<open>The rate limit\<close>

definition remember_spotify_rate_limit_seconds ::
  "instant option \<Rightarrow> u64 \<Rightarrow> instant \<Rightarrow> instant option" where
  "remember_spotify_rate_limit_seconds guard seconds now =
     (let until = now + secs (unat (min seconds (24 * 60 * 60))) in
      case guard of None \<Rightarrow> Some until
      | Some current \<Rightarrow> if current < until then Some until else guard)"

definition remember_spotify_rate_limit ::
  "instant option \<Rightarrow> http_response \<Rightarrow> instant \<Rightarrow> instant option" where
  "remember_spotify_rate_limit guard resp now =
     (if http_status resp \<noteq> TOO_MANY_REQUESTS then guard
      else case http_retry_after resp of None \<Rightarrow> guard
      | Some seconds \<Rightarrow> remember_spotify_rate_limit_seconds guard seconds now)"

definition spotify_retry_after :: "instant option \<Rightarrow> instant \<Rightarrow> nat option" where
  "spotify_retry_after guard now =
     (case guard of None \<Rightarrow> None
      | Some until \<Rightarrow>
          if until < now then None
          else
            let remaining = until - now
            in Some (max 1 (min u64_max (remaining div 1000000000
                 + (if remaining mod 1000000000 > 0 then 1 else 0)))))"

definition spotify_retry_after_seconds :: "instant option \<Rightarrow> instant \<Rightarrow> string option" where
  "spotify_retry_after_seconds guard now = map_option nat_to_string (spotify_retry_after guard now)"

definition spotify_rate_limit_error :: "instant option \<Rightarrow> instant \<Rightarrow> api_error option" where
  "spotify_rate_limit_error guard now =
     map_option (\<lambda>seconds. (TOO_MANY_REQUESTS,
         ''Spotify rate limit is active; retry after '' @ seconds @ '' seconds''))
       (spotify_retry_after_seconds guard now)"

section \<open>One request\<close>

text \<open>
  The surroundings of a request, by the points where it awaits: whether the request gate gives a
  permit, what each send answers for an access token, the refreshed token, and the rate limit and
  clock as they are at each check (other requests may have moved the limit meanwhile).
\<close>

record request_env =
  env_guard1 :: "instant option"
  env_now1 :: instant
  env_permit1 :: bool
  env_send1 :: "string \<Rightarrow> string + http_response"
  env_refresh :: "spotify_token option"
  env_guard2 :: "instant option"
  env_now2 :: instant
  env_permit2 :: bool
  env_send2 :: "string \<Rightarrow> string + http_response"

definition gate_unavailable :: api_error where
  "gate_unavailable = (SERVICE_UNAVAILABLE, ''Spotify request gate is unavailable'')"

text \<open>The answer comes with the access tokens sent, in order.\<close>

definition spotify_api_request ::
  "spotify_token option \<Rightarrow> request_env \<Rightarrow> (api_error + http_response) \<times> string list" where
  "spotify_api_request token env =
     (case token of None \<Rightarrow> (Inl (BAD_REQUEST, ''Spotify not connected''), [])
      | Some t \<Rightarrow>
     (case spotify_rate_limit_error (env_guard1 env) (env_now1 env) of
        Some e \<Rightarrow> (Inl e, [])
      | None \<Rightarrow>
          if \<not> env_permit1 env then (Inl gate_unavailable, [])
          else case env_send1 env (tok_access_token t) of
            Inl e \<Rightarrow> (Inl (BAD_GATEWAY, e), [tok_access_token t])
          | Inr resp \<Rightarrow>
              if http_status resp \<noteq> UNAUTHORIZED then (Inr resp, [tok_access_token t])
              else case env_refresh env of
                None \<Rightarrow>
                 (case spotify_rate_limit_error (env_guard2 env) (env_now2 env) of
                    Some e \<Rightarrow> (Inl e, [tok_access_token t])
                  | None \<Rightarrow> (Inr resp, [tok_access_token t]))
              | Some new \<Rightarrow>
                 (case spotify_rate_limit_error (env_guard2 env) (env_now2 env) of
                    Some e \<Rightarrow> (Inl e, [tok_access_token t])
                  | None \<Rightarrow>
                      if \<not> env_permit2 env then (Inl gate_unavailable, [tok_access_token t])
                      else case env_send2 env (tok_access_token new) of
                        Inl e \<Rightarrow> (Inl (BAD_GATEWAY, e),
                                    [tok_access_token t, tok_access_token new])
                      | Inr resp2 \<Rightarrow> (Inr resp2, [tok_access_token t, tok_access_token new]))))"

text \<open>
  \<open>refresh_spotify_token\<close> for a request made with the token \<open>old\<close>: another request may have
  refreshed it already. \<open>answer\<close> is Spotify's, None where the permit or the transport fails, and
  \<open>meanwhile\<close> is what other tasks do to the Jam while it is awaited.
\<close>

definition spotify_scope_from_token_response :: "json \<Rightarrow> string option \<Rightarrow> string" where
  "spotify_scope_from_token_response data fallback =
     (case as_str (json_index data ''scope'') of
        Some scope \<Rightarrow> scope
      | None \<Rightarrow> or_default [] fallback)"

definition refreshed_token :: "spotify_token \<Rightarrow> json \<Rightarrow> u64 \<Rightarrow> spotify_token option" where
  "refreshed_token old data now_secs =
     (case as_str (json_index data ''access_token'') of None \<Rightarrow> None
      | Some access_token \<Rightarrow>
          Some \<lparr>tok_access_token = access_token,
                tok_refresh_token =
                  or_default (tok_refresh_token old) (as_str (json_index data ''refresh_token'')),
                tok_expires_at =
                  now_secs + or_default 3600 (as_u64 (json_index data ''expires_in'')),
                tok_scope =
                  spotify_scope_from_token_response data (Some (tok_scope old))\<rparr>)"

definition refresh_spotify_token ::
  "jam_state \<Rightarrow> spotify_token \<Rightarrow> instant option \<Rightarrow> instant \<Rightarrow> http_response option \<Rightarrow> u64
   \<Rightarrow> (jam_state \<Rightarrow> jam_state) \<Rightarrow> jam_state \<times> spotify_token option \<times> bool" where
  "refresh_spotify_token jam old guard now answer now_secs meanwhile =
     (let refresh =
        (if spotify_rate_limit_error guard now \<noteq> None then (jam, None, False)
         else (case Option.bind (Option.bind answer http_json) (\<lambda>data. refreshed_token old data now_secs) of
                 None \<Rightarrow> (meanwhile jam, None, True)
               | Some new \<Rightarrow> ((meanwhile jam)\<lparr>jam_spotify_token := Some new\<rparr>, Some new, True)))
      in case jam_spotify_token jam of
           Some current \<Rightarrow>
             if tok_access_token current \<noteq> tok_access_token old then (jam, Some current, False) else refresh
         | None \<Rightarrow> refresh)"

section \<open>Devices\<close>

definition quoted :: "string \<Rightarrow> string" where
  "quoted s = CHR 0x27 # s @ [CHR 0x27]"

record spotify_device =
  dev_id :: string
  dev_name :: string
  dev_is_restricted :: bool

datatype resolve_error = Unavailable string | OtherError status string

fun resolve_error_response :: "resolve_error \<Rightarrow> api_error" where
  "resolve_error_response (Unavailable message) = (SERVICE_UNAVAILABLE, message)"
| "resolve_error_response (OtherError s message) = (s, message)"

definition ensure_spotify_device_usable :: "spotify_device \<Rightarrow> resolve_error + spotify_device" where
  "ensure_spotify_device_usable device =
     (if dev_is_restricted device then
        Inl (OtherError SERVICE_UNAVAILABLE
          (''Spotify Connect device '' @ quoted (dev_name device)
           @ '' is present but restricted; Echo did not restart Spotify''))
      else Inr device)"

definition select_spotify_device ::
  "spotify_device list \<Rightarrow> string option \<Rightarrow> string option \<Rightarrow> resolve_error + spotify_device" where
  "select_spotify_device candidates configured_id configured_name =
     (let by_name =
            (let name = or_default [] configured_name in
             case filter (\<lambda>d. eq_ignore_ascii_case (dev_name d) name) candidates of
               [] \<Rightarrow> Inl (Unavailable (''Spotify Connect device '' @ quoted name @ '' is unavailable''))
             | [first] \<Rightarrow> ensure_spotify_device_usable first
             | _ \<Rightarrow> Inl (OtherError CONFLICT
                 (''More than one Spotify device is named '' @ quoted name
                  @ ''; configure SPOTIFY_DEVICE_ID'')))
      in case configured_id of None \<Rightarrow> by_name
         | Some cid \<Rightarrow>
            (case List.find (\<lambda>d. dev_id d = cid) candidates of
               Some d \<Rightarrow> ensure_spotify_device_usable d
             | None \<Rightarrow>
                 if configured_name = None
                 then Inl (Unavailable (''Spotify Connect device ID '' @ quoted cid @ '' is unavailable''))
                 else by_name))"

definition device_parse_error :: "string \<Rightarrow> resolve_error" where
  "device_parse_error what = OtherError BAD_GATEWAY (''Spotify devices response '' @ what)"

fun parse_device_entries :: "json list \<Rightarrow> resolve_error + spotify_device list" where
  "parse_device_entries [] = Inr []"
| "parse_device_entries (device # rest) =
     (case json_get device ''id'' of
        None \<Rightarrow> Inl (device_parse_error ''contained an invalid device entry'')
      | Some JNull \<Rightarrow> parse_device_entries rest
      | Some id_value \<Rightarrow>
     (case as_str id_value of
        None \<Rightarrow> Inl (device_parse_error ''contained a non-string device ID'')
      | Some i \<Rightarrow>
     (case Option.bind (json_get device ''name'') as_str of
        None \<Rightarrow> Inl (device_parse_error ''contained an invalid device name'')
      | Some n \<Rightarrow>
     (case Option.bind (json_get device ''is_restricted'') as_bool of
        None \<Rightarrow> Inl (device_parse_error ''contained an invalid restriction state'')
      | Some restricted \<Rightarrow>
          if trim i = [] \<or> trim n = []
          then Inl (device_parse_error ''contained an empty device ID or name'')
          else case parse_device_entries rest of
            Inl e \<Rightarrow> Inl e
          | Inr ds \<Rightarrow> Inr (\<lparr>dev_id = trim i, dev_name = trim n, dev_is_restricted = restricted\<rparr> # ds)))))"

definition parse_spotify_devices :: "json \<Rightarrow> resolve_error + spotify_device list" where
  "parse_spotify_devices data =
     (case Option.bind (json_get data ''devices'') as_array of
        None \<Rightarrow> Inl (device_parse_error (''was invalid: '' @ quoted ''devices'' @ '' was not an array''))
      | Some devices \<Rightarrow> parse_device_entries devices)"

definition resolve_spotify_device_once ::
  "(status \<Rightarrow> string) \<Rightarrow> string option \<Rightarrow> string option \<Rightarrow> api_error + http_response
   \<Rightarrow> resolve_error + spotify_device" where
  "resolve_spotify_device_once show_status configured_id configured_name answer =
     (if configured_id = None \<and> configured_name = None then
        Inl (OtherError SERVICE_UNAVAILABLE
          ''Spotify Connect device is not configured (set SPOTIFY_DEVICE_ID or SPOTIFY_DEVICE_NAME)'')
      else case answer of
        Inl (s, m) \<Rightarrow> Inl (OtherError s m)
      | Inr resp \<Rightarrow>
          if \<not> is_success (http_status resp)
          then (case spotify_response_error show_status resp ''List Spotify devices'' of
                  (s, m) \<Rightarrow> Inl (OtherError s m))
          else case http_json resp of
            None \<Rightarrow> Inl (device_parse_error ''was invalid'')
          | Some data \<Rightarrow>
             (case parse_spotify_devices data of
                Inl e \<Rightarrow> Inl e
              | Inr candidates \<Rightarrow>
                  select_spotify_device candidates configured_id configured_name))"

section \<open>Bounded repair\<close>

text \<open>
  \<open>'s\<close> is whatever the two callbacks act on. A resolve answers None where the deadline passes
  first; \<open>pause\<close> is the sleep between polls. The calls made are returned in order.
\<close>

datatype device_call = ResolveCall | RepairCall spotify_connect_repair_action

record 's device_env =
  de_resolve :: "'s \<Rightarrow> (resolve_error + spotify_device) option \<times> 's"
  de_repair :: "spotify_connect_repair_action \<Rightarrow> 's
    \<Rightarrow> (string + spotify_connect_repair_result) \<times> 's"
  de_sleep :: "'s \<Rightarrow> bool \<times> 's"

definition deadline_error :: resolve_error where
  "deadline_error = OtherError SERVICE_UNAVAILABLE
     ''Spotify Connect device recovery exceeded the 15 second start deadline''"

fun poll_spotify_connect_registration ::
  "'s device_env \<Rightarrow> nat \<Rightarrow> nat \<Rightarrow> 's
   \<Rightarrow> (resolve_error + spotify_device option) \<times> device_call list \<times> 's" where
  "poll_spotify_connect_registration env interval 0 s = (Inr None, [], s)"
| "poll_spotify_connect_registration env interval (Suc remaining) s =
     (case de_resolve env s of
        (None, s1) \<Rightarrow> (Inl deadline_error, [ResolveCall], s1)
      | (Some (Inr device), s1) \<Rightarrow> (Inr (Some device), [ResolveCall], s1)
      | (Some (Inl (OtherError st m)), s1) \<Rightarrow> (Inl (OtherError st m), [ResolveCall], s1)
      | (Some (Inl (Unavailable _)), s1) \<Rightarrow>
          if remaining > 0 \<and> interval > 0 then
            (case de_sleep env s1 of
               (True, s2) \<Rightarrow> (Inl deadline_error, [ResolveCall], s2)
             | (False, s2) \<Rightarrow>
                (case poll_spotify_connect_registration env interval remaining s2 of
                   (res, calls, s3) \<Rightarrow> (res, ResolveCall # calls, s3)))
          else
            (case poll_spotify_connect_registration env interval remaining s1 of
               (res, calls, s3) \<Rightarrow> (res, ResolveCall # calls, s3)))"

definition resolve_spotify_device_with_repair ::
  "'s device_env \<Rightarrow> nat \<Rightarrow> nat \<Rightarrow> 's
   \<Rightarrow> (resolve_error + spotify_device) \<times> device_call list \<times> 's" where
  "resolve_spotify_device_with_repair env poll_attempts interval s =
     (case de_resolve env s of
        (None, s1) \<Rightarrow> (Inl deadline_error, [ResolveCall], s1)
      | (Some (Inr device), s1) \<Rightarrow> (Inr device, [ResolveCall], s1)
      | (Some (Inl (OtherError st m)), s1) \<Rightarrow> (Inl (OtherError st m), [ResolveCall], s1)
      | (Some (Inl (Unavailable unavailable)), s1) \<Rightarrow>
     (case de_repair env Activate s1 of
        (Inl e, s2) \<Rightarrow>
          (Inl (OtherError SERVICE_UNAVAILABLE (unavailable
             @ ''. Echo could not activate Spotify on the source PC: '' @ e)),
           [ResolveCall, RepairCall Activate], s2)
      | (Inr activated, s2) \<Rightarrow>
     (case poll_spotify_connect_registration env interval poll_attempts s2 of
        (Inl e, calls, s3) \<Rightarrow> (Inl e, ResolveCall # RepairCall Activate # calls, s3)
      | (Inr (Some device), calls, s3) \<Rightarrow>
          (Inr device, ResolveCall # RepairCall Activate # calls, s3)
      | (Inr None, calls, s3) \<Rightarrow>
          let failed = Inl (Unavailable (unavailable
                @ '' after Echo tried to re-register Spotify on the source PC''));
              calls1 = ResolveCall # RepairCall Activate # calls
          in if \<not> rep_was_running_before activated then (failed, calls1, s3)
             else
              (case de_repair env Restart s3 of
                 (Inl e, s4) \<Rightarrow>
                   (Inl (OtherError SERVICE_UNAVAILABLE (unavailable
                      @ ''. Echo could not restart Spotify on the source PC: '' @ e)),
                    calls1 @ [RepairCall Restart], s4)
               | (Inr _, s4) \<Rightarrow>
              (case poll_spotify_connect_registration env interval poll_attempts s4 of
                 (Inl e, calls2, s5) \<Rightarrow> (Inl e, calls1 @ RepairCall Restart # calls2, s5)
               | (Inr (Some device), calls2, s5) \<Rightarrow>
                   (Inr device, calls1 @ RepairCall Restart # calls2, s5)
               | (Inr None, calls2, s5) \<Rightarrow>
                   (failed, calls1 @ RepairCall Restart # calls2, s5))))))"

section \<open>Reading the player\<close>

definition spotify_queue_observation_strict ::
  "(status \<Rightarrow> string) \<Rightarrow> api_error + http_response \<Rightarrow> api_error + spotify_queue_observation" where
  "spotify_queue_observation_strict show_status answer =
     (case answer of Inl e \<Rightarrow> Inl e
      | Inr resp \<Rightarrow>
          if \<not> is_success (http_status resp)
          then Inl (spotify_response_error show_status resp ''Read Spotify queue'')
          else case http_json resp of
            None \<Rightarrow> Inl (BAD_GATEWAY, ''Spotify queue response was invalid'')
          | Some data \<Rightarrow>
         (case Option.bind (Option.bind (json_get data ''currently_playing'')
                 (\<lambda>current. json_get current ''uri'')) nonblank_str of
            None \<Rightarrow> Inl (BAD_GATEWAY, ''Spotify queue response did not identify the current track'')
          | Some current_uri \<Rightarrow>
         (case Option.bind (json_get data ''queue'') as_array of
            None \<Rightarrow> Inl (BAD_GATEWAY, ''Spotify queue response did not contain a queue array'')
          | Some [] \<Rightarrow> Inr \<lparr>so_current_uri = current_uri, so_next_uri = None\<rparr>
          | Some (first # _) \<Rightarrow>
             (case Option.bind (json_get first ''uri'') nonblank_str of
                None \<Rightarrow>
                  Inl (BAD_GATEWAY, ''Spotify queue response did not identify its next track'')
              | Some uri \<Rightarrow>
                  Inr \<lparr>so_current_uri = current_uri, so_next_uri = Some uri\<rparr>))))"

definition spotify_queue_placement_observation ::
  "(status \<Rightarrow> string) \<Rightarrow> spotify_device \<Rightarrow> api_error + http_response
   \<Rightarrow> api_error + spotify_placement_observation" where
  "spotify_queue_placement_observation show_status device answer =
     (case answer of Inl e \<Rightarrow> Inl e
      | Inr resp \<Rightarrow>
          if http_status resp = 204
          then Inr \<lparr>po_playback_present = False, po_bound_device = False, po_is_playing = False,
                    po_current_uri = None, po_progress_ms = 0, po_duration_ms = 0\<rparr>
          else if \<not> is_success (http_status resp)
          then Inl (spotify_response_error show_status resp ''Read Spotify playback'')
          else case http_json resp of
            None \<Rightarrow> Inl (BAD_GATEWAY, ''Spotify playback response was invalid'')
          | Some playback \<Rightarrow>
              let item = json_index playback ''item'' in
              Inr \<lparr>po_playback_present = True,
                   po_bound_device =
                     (as_str (json_index (json_index playback ''device'') ''id'')
                        = Some (dev_id device)),
                   po_is_playing = or_default False (as_bool (json_index playback ''is_playing'')),
                   po_current_uri = nonblank_str (json_index item ''uri''),
                   po_progress_ms = or_default 0 (as_u64 (json_index playback ''progress_ms'')),
                   po_duration_ms = or_default 0 (as_u64 (json_index item ''duration_ms''))\<rparr>)"

record spotify_bound_playback =
  bp_is_playing :: bool
  bp_current_uri :: "string option"

text \<open>
  \<open>transfer\<close> answers the request that transfers playback to the device; the flag says whether it
  was made.
\<close>

definition bind_spotify_playback_to_device ::
  "(status \<Rightarrow> string) \<Rightarrow> spotify_device \<Rightarrow> api_error + http_response \<Rightarrow> api_error + http_response
   \<Rightarrow> (api_error + spotify_bound_playback) \<times> bool" where
  "bind_spotify_playback_to_device show_status device answer transfer =
     (let finish = (\<lambda>playback.
            (case transfer of Inl e \<Rightarrow> (Inl e, True)
             | Inr resp \<Rightarrow>
                 if \<not> is_success (http_status resp)
                 then (Inl (spotify_response_error show_status resp ''Transfer Spotify playback''), True)
                 else (Inr playback, True)))
      in case answer of Inl e \<Rightarrow> (Inl e, False)
         | Inr resp \<Rightarrow>
             if http_status resp = 204
             then finish \<lparr>bp_is_playing = False, bp_current_uri = None\<rparr>
             else if is_success (http_status resp) then
              (case http_json resp of
                 None \<Rightarrow> (Inl (BAD_GATEWAY, ''Spotify playback response was invalid''), False)
               | Some playback \<Rightarrow>
                   let bound = \<lparr>bp_is_playing =
                           or_default False (as_bool (json_index playback ''is_playing'')),
                         bp_current_uri =
                           nonblank_str (json_index (json_index playback ''item'') ''uri'')\<rparr>
                   in if as_str (json_index (json_index playback ''device'') ''id'')
                         = Some (dev_id device)
                      then (Inr bound, False) else finish bound)
             else (Inl (spotify_response_error show_status resp ''Read Spotify playback''), False))"

definition pause_result ::
  "(status \<Rightarrow> string) \<Rightarrow> string \<Rightarrow> api_error + http_response \<Rightarrow> api_error + unit" where
  "pause_result show_status operation answer =
     (case answer of Inl e \<Rightarrow> Inl e
      | Inr resp \<Rightarrow>
          if \<not> is_success (http_status resp)
          then Inl (spotify_response_error show_status resp operation) else Inr ())"

section \<open>Rate limits only grow, and are announced in full\<close>

lemma remember_grows:
  "remember_spotify_rate_limit_seconds guard seconds now = Some u \<Longrightarrow>
     (\<forall>g. guard = Some g \<longrightarrow> g \<le> u) \<and> (guard = Some u \<or> u \<le> now + secs 86400)"
proof -
  have "unat (min seconds (24 * 60 * 60)) \<le> 86400"
    by (simp add: min_def word_le_nat_alt)
  then show "remember_spotify_rate_limit_seconds guard seconds now = Some u \<Longrightarrow>
     (\<forall>g. guard = Some g \<longrightarrow> g \<le> u) \<and> (guard = Some u \<or> u \<le> now + secs 86400)"
    by (auto simp: remember_spotify_rate_limit_seconds_def Let_def split: option.splits if_splits)
qed

lemma remember_all_grows:
  "fold (\<lambda>(seconds, now) guard. remember_spotify_rate_limit_seconds guard seconds now) xs (Some g)
     = Some u \<Longrightarrow> g \<le> u"
proof (induction xs arbitrary: g)
  case (Cons x xs)
  obtain n t where x: "x = (n, t)" by (cases x)
  obtain g' where g': "remember_spotify_rate_limit_seconds (Some g) n t = Some g'"
    by (cases "remember_spotify_rate_limit_seconds (Some g) n t")
      (auto simp: remember_spotify_rate_limit_seconds_def Let_def split: if_splits)
  with Cons x have "g' \<le> u" by simp
  then show ?case using remember_grows [OF g'] by auto
qed simp

lemma retry_after_enough:
  assumes "spotify_retry_after (Some until) now = Some n" and "until - now < secs u64_max"
  shows "1 \<le> n" and "until \<le> now + secs n" and "1 < n \<Longrightarrow> now + secs (n - 1) < until"
proof -
  let ?rem = "until - now"
  have le: "now \<le> until" using assms(1) by (auto simp: spotify_retry_after_def split: if_splits)
  let ?k = "?rem div 1000000000 + (if ?rem mod 1000000000 > 0 then 1 else 0)"
  have "?rem div 1000000000 < u64_max" using assms(2) by (simp add: less_mult_imp_div_less)
  then have n: "n = max 1 ?k"
    using assms(1) le by (simp add: spotify_retry_after_def Let_def)
  have ceil: "?rem \<le> ?k * 1000000000"
    using div_mult_mod_eq [of ?rem 1000000000] mod_less_divisor [of 1000000000 ?rem]
    by (auto simp: algebra_simps)
  show "1 \<le> n" using n by simp
  have "?rem \<le> n * 1000000000" using ceil n by (auto intro: order_trans)
  then show "until \<le> now + secs n" using le by simp
  assume "1 < n"
  with n have k: "n = ?k" by simp
  have "(n - 1) * 1000000000 < ?rem"
  proof (cases "?rem mod 1000000000 > 0")
    case True
    then have "n - 1 = ?rem div 1000000000" using k by simp
    then show ?thesis using True div_mult_mod_eq [of ?rem 1000000000] by linarith
  next
    case False
    then have "n = ?rem div 1000000000" and "?rem mod 1000000000 = 0" using k by simp_all
    then have "?rem = n * 1000000000" using div_mult_mod_eq [of ?rem 1000000000] by linarith
    then show ?thesis using \<open>1 < n\<close> by (simp add: diff_mult_distrib)
  qed
  then show "now + secs (n - 1) < until" using le by simp
qed

section \<open>Requests\<close>

lemma request_sends:
  "spotify_api_request token env = (res, sent) \<Longrightarrow>
     length sent \<le> 2
   \<and> (sent \<noteq> [] \<longrightarrow> spotify_rate_limit_error (env_guard1 env) (env_now1 env) = None
        \<and> (\<exists>t. token = Some t \<and> hd sent = tok_access_token t))
   \<and> (length sent = 2 \<longrightarrow> spotify_rate_limit_error (env_guard2 env) (env_now2 env) = None
        \<and> (\<exists>t new first. token = Some t \<and> env_refresh env = Some new
             \<and> sent = [tok_access_token t, tok_access_token new]
             \<and> env_send1 env (tok_access_token t) = Inr first \<and> http_status first = UNAUTHORIZED))"
  unfolding spotify_api_request_def
  by (auto split: option.split_asm sum.split_asm if_split_asm)

section \<open>Device selection\<close>

lemma usable_Inr: "ensure_spotify_device_usable d = Inr d' \<longleftrightarrow> d' = d \<and> \<not> dev_is_restricted d"
  by (auto simp: ensure_spotify_device_usable_def)

lemma select_device_sound:
  "select_spotify_device ds cid cname = Inr d \<Longrightarrow>
     d \<in> set ds \<and> \<not> dev_is_restricted d
   \<and> (cid = Some (dev_id d)
      \<or> (eq_ignore_ascii_case (dev_name d) (or_default [] cname)
         \<and> filter (\<lambda>x. eq_ignore_ascii_case (dev_name x) (or_default [] cname)) ds = [d]))"
proof -
  have one: "filter P ds = [d] \<Longrightarrow> d \<in> set ds \<and> P d" for P
    by (metis (mono_tags, lifting) list.set_intros(1) mem_Collect_eq set_filter)
  show "select_spotify_device ds cid cname = Inr d \<Longrightarrow> ?thesis"
    unfolding select_spotify_device_def Let_def
    by (auto simp: usable_Inr find_Some_iff dest: one
        split: option.split_asm list.split_asm if_split_asm)
qed

section \<open>Repairs are bounded\<close>

lemma poll_calls:
  "poll_spotify_connect_registration env interval n s = (res, calls, s') \<Longrightarrow>
     length calls \<le> n \<and> set calls \<subseteq> {ResolveCall} \<and> (res = Inr None \<longrightarrow> length calls = n)"
proof (induction n arbitrary: s res calls s')
  case (Suc n)
  show ?case
    using Suc.prems
    by (auto split: prod.split_asm option.split_asm sum.split_asm resolve_error.split_asm
        bool.split_asm if_split_asm dest!: Suc.IH)
qed simp

lemmas resolve_splits = prod.split_asm option.split_asm sum.split_asm resolve_error.split_asm
  if_split_asm

definition repair_calls :: "device_call list \<Rightarrow> device_call list" where
  "repair_calls calls = filter (\<lambda>c. c \<noteq> ResolveCall) calls"

lemma repair_calls_simps [simp]:
  "repair_calls [] = []" "repair_calls (ResolveCall # cs) = repair_calls cs"
  "repair_calls (RepairCall a # cs) = RepairCall a # repair_calls cs"
  "repair_calls (xs @ ys) = repair_calls xs @ repair_calls ys"
  by (simp_all add: repair_calls_def)

lemma repair_calls_poll [simp]: "set calls \<subseteq> {ResolveCall} \<Longrightarrow> repair_calls calls = []"
  by (auto simp: repair_calls_def filter_empty_conv)

lemma resolve_calls:
  "resolve_spotify_device_with_repair env n i s = (res, calls, s') \<Longrightarrow>
     repair_calls calls \<in> {[], [RepairCall Activate], [RepairCall Activate, RepairCall Restart]}
   \<and> length calls \<le> 2 * n + 3"
  unfolding resolve_spotify_device_with_repair_def Let_def
  by (auto split: resolve_splits dest!: poll_calls)

lemma resolve_restart_reason:
  "resolve_spotify_device_with_repair env n i s = (res, calls, s') \<Longrightarrow>
     RepairCall Restart \<in> set calls \<Longrightarrow>
     \<exists>s1 s2 m activated. de_resolve env s = (Some (Inl (Unavailable m)), s1)
       \<and> de_repair env Activate s1 = (Inr activated, s2) \<and> rep_was_running_before activated"
  unfolding resolve_spotify_device_with_repair_def Let_def
  by (auto split: resolve_splits dest!: poll_calls)

lemma resolve_other_error_no_repair:
  "resolve_spotify_device_with_repair env n i s = (res, calls, s') \<Longrightarrow>
     repair_calls calls \<noteq> [] \<Longrightarrow> \<exists>m. fst (de_resolve env s) = Some (Inl (Unavailable m))"
  unfolding resolve_spotify_device_with_repair_def Let_def
  by (auto split: resolve_splits)

end
