(* ===== verification/ClientProperties.thy ===== *)
theory ClientProperties
  imports JamReceipts SpotifyClient
begin

text \<open>
  What the Spotify side promises: the validation and expansion of playlists (\<open>Catalog\<close>), the
  idempotency receipts (\<open>JamReceipts\<close>) and the requests, devices and repairs of \<open>SpotifyClient\<close>.
\<close>

section \<open>Playlists\<close>

text \<open>An expansion of a playlist whose pages are contiguous holds every position from 0 up to one
  total exactly once, as a track or as a skipped item, never more than a thousand, and of the
  snapshot the caller asked for, before and after the pages were read.
\<close>

lemma expansion_covers_every_position:
  assumes "contiguous_pages fetch_page"
    and "fetch_playlist_expansion summary fetch_page latest expected = Inr e"
  shows "page_positions (pe_tracks e) (pe_skipped e)
      = {0..<length (pe_tracks e) + length (pe_skipped e)}
    \<and> length (pe_tracks e) + length (pe_skipped e) \<le> 1000
    \<and> (\<forall>s. expected = Some s \<longrightarrow> fs_snapshot_id (pe_playlist e) = Some s
         \<and> (\<exists>l. latest = Inr l \<and> fs_snapshot_id l = Some s))"
proof -
  have "collect_pages fetch_page 0 None [] [] = Inr (pe_tracks e, pe_skipped e)"
    using assms(2) by (auto simp: fetch_playlist_expansion_def collect_playlist_item_pages_def
        split: sum.splits)
  from collect_pages_covers [OF assms(1) _ _ this]
  have "page_positions (pe_tracks e) (pe_skipped e)
      = {0..<length (pe_tracks e) + length (pe_skipped e)}
    \<and> length (pe_tracks e) + length (pe_skipped e) \<le> 1000"
    by (auto simp: page_positions_def)
  moreover have "fs_snapshot_id (pe_playlist e) = Some s \<and> (\<exists>l. latest = Inr l \<and> fs_snapshot_id l = Some s)"
    if "expected = Some s" for s
    using assms(2) that
    by (auto simp: fetch_playlist_expansion_def verify_playlist_snapshot_def snapshot_or_def
        verify_playlist_still_matches_snapshot_def split: sum.splits if_splits)
  ultimately show ?thesis by blast
qed

text \<open>A fetched selection answers each selected position once, in ascending order: some of the
  positions come back as tracks, exactly the others as skipped items.
\<close>

lemma selection_answers_every_position:
  assumes "fetch_playlist_selection summary fetch_page latest selected expected = Inr e"
  shows "distinct selected \<and> (\<exists>playable.
      map fst (pe_tracks e) = filter playable (sort selected)
    \<and> map sk_position (pe_skipped e) = filter (\<lambda>p. \<not> playable p) (sort selected))"
proof -
  obtain tracks skipped positions where
    positions: "validate_selected_playlist_positions selected = Inr positions"
    and order: "order_selected_playlist_items positions tracks skipped = Inr (pe_tracks e, pe_skipped e)"
    using assms by (auto simp: fetch_playlist_selection_def split: sum.splits)
  from positions have sel: "distinct selected" "positions = sort selected"
    by (simp_all add: validate_positions_Inr)
  from order_selected_order [OF _ order] sel show ?thesis
    by (auto intro!: exI [of _ "\<lambda>p. p \<in> fst ` set tracks"])
qed

section \<open>Receipts\<close>

text \<open>A request identifier that comes back is answered with what its first use was answered, if
  the actor, the operation and the Jam are the same, and is a conflict otherwise.
\<close>

lemma receipts_answer_replays:
  "(track_queue_receipt_response (insert_track_queue_receipt jam k tr) k actor spotify_id g
     = (if tr_actor_id tr = actor \<and> tr_spotify_id tr = spotify_id \<and> tr_generation tr = g
        then Inr (Some (tr_track tr)) else Inl ()))
 \<and> (playlist_queue_receipt_response (insert_playlist_queue_receipt jam k pl) k actor playlist sel g
     = (if pl_actor_id pl = actor \<and> pl_playlist_id pl = playlist \<and> pl_selection pl = sel
           \<and> pl_generation pl = g
        then Inr (Some (pl_response pl)) else Inl ()))
 \<and> (queue_removal_receipt_response (insert_queue_removal_receipt jam k rm) k actor g fingerprint
     = (if rm_actor_id rm = actor \<and> rm_generation rm = g \<and> rm_fingerprint rm = fingerprint
        then Inr (Some (rm_response rm)) else Inl ()))"
  by (simp_all add: track_queue_receipt_response_def playlist_queue_receipt_response_def
      queue_removal_receipt_response_def track_receipts.insert_same playlist_receipts.insert_same
      removal_receipts.insert_same)

text \<open>The receipt tables stay bounded and honest: after any sequence of inserts each of the three
  holds at most 128 receipts with one per identifier, and every receipt it gives back was inserted
  or was there before.
\<close>

lemma receipts_bounded:
  assumes "hm_ok (jam_track_queue_receipts jam)" and "length (jam_track_queue_receipts jam) \<le> 128"
    and "hm_ok (jam_playlist_queue_receipts jam)" and "length (jam_playlist_queue_receipts jam) \<le> 128"
    and "hm_ok (jam_queue_removal_receipts jam)" and "length (jam_queue_removal_receipts jam) \<le> 128"
  shows "let t = jam_track_queue_receipts (fold (\<lambda>(k, r) j. insert_track_queue_receipt j k r) ts jam);
             p = jam_playlist_queue_receipts (fold (\<lambda>(k, r) j. insert_playlist_queue_receipt j k r) ps jam);
             m = jam_queue_removal_receipts (fold (\<lambda>(k, r) j. insert_queue_removal_receipt j k r) ms jam)
         in hm_ok t \<and> length t \<le> 128 \<and> hm_ok p \<and> length p \<le> 128 \<and> hm_ok m \<and> length m \<le> 128
          \<and> (\<forall>k r. hm_get t k = Some r \<longrightarrow> (k, r) \<in> set ts \<or> hm_get (jam_track_queue_receipts jam) k = Some r)
          \<and> (\<forall>k r. hm_get p k = Some r \<longrightarrow> (k, r) \<in> set ps \<or> hm_get (jam_playlist_queue_receipts jam) k = Some r)
          \<and> (\<forall>k r. hm_get m k = Some r \<longrightarrow> (k, r) \<in> set ms \<or> hm_get (jam_queue_removal_receipts jam) k = Some r)"
  using track_receipts.insert_all_bounded [OF assms(1,2), of ts]
    playlist_receipts.insert_all_bounded [OF assms(3,4), of ps]
    removal_receipts.insert_all_bounded [OF assms(5,6), of ms]
    track_receipts.insert_all_sound [of jam ts] playlist_receipts.insert_all_sound [of jam ps]
    removal_receipts.insert_all_sound [of jam ms]
  by (simp add: track_receipts.insert_all_def playlist_receipts.insert_all_def
      removal_receipts.insert_all_def)

section \<open>Requests\<close>

lemma remember_covers:
  "\<exists>u. remember_spotify_rate_limit_seconds guard seconds now = Some u
     \<and> now + secs (unat (min seconds 86400)) \<le> u"
  by (cases guard) (auto simp: remember_spotify_rate_limit_seconds_def Let_def)

lemma remember_later_grows:
  assumes "guard = Some g"
  shows "\<exists>u. fold (\<lambda>(seconds, now) guard. remember_spotify_rate_limit_seconds guard seconds now) xs guard
     = Some u \<and> g \<le> u"
proof -
  have "\<exists>u. fold (\<lambda>(seconds, now) guard. remember_spotify_rate_limit_seconds guard seconds now) xs (Some g)
     = Some u" for g
  proof (induction xs arbitrary: g)
    case (Cons x xs)
    obtain n t where x: "x = (n, t)" by (cases x)
    show ?case using remember_covers [of "Some g" n t] Cons.IH by (auto simp: x)
  qed simp
  then show ?thesis using remember_all_grows assms by blast
qed

lemma active_limit_error:
  "now \<le> until \<Longrightarrow> \<exists>message. spotify_rate_limit_error (Some until) now = Some (TOO_MANY_REQUESTS, message)"
  by (simp add: spotify_rate_limit_error_def spotify_retry_after_seconds_def spotify_retry_after_def
      Let_def not_less [symmetric])

text \<open>An answer that limits the rate holds every request back: for the seconds Spotify asked for,
  at most a day, and whatever further limits are remembered meanwhile, a request is refused with
  that status before anything is sent.
\<close>

lemma rate_limit_holds_requests_back:
  assumes "http_status resp = TOO_MANY_REQUESTS" and "http_retry_after resp = Some seconds"
    and "env_guard1 env = fold (\<lambda>(seconds, now) guard. remember_spotify_rate_limit_seconds guard seconds now)
           later (remember_spotify_rate_limit guard resp now)"
    and "env_now1 env \<le> now + secs (unat (min seconds 86400))"
  shows "\<exists>message. spotify_api_request (Some token) env = (Inl (TOO_MANY_REQUESTS, message), [])"
proof -
  obtain g where g: "remember_spotify_rate_limit guard resp now = Some g"
    "now + secs (unat (min seconds 86400)) \<le> g"
    using assms(1,2) remember_covers [of guard seconds now]
    by (auto simp: remember_spotify_rate_limit_def)
  from remember_later_grows [OF g(1)] assms(3) obtain u where u: "env_guard1 env = Some u" "g \<le> u"
    by auto
  with g(2) assms(4) have "env_now1 env \<le> u" by simp
  from active_limit_error [OF this] u(1) show ?thesis
    by (auto simp: spotify_api_request_def)
qed

definition demo_token :: spotify_token where
  "demo_token = \<lparr>tok_access_token = ''t1'', tok_refresh_token = ''r1'', tok_expires_at = 0,
     tok_scope = []\<rparr>"

text \<open>One authorised request sends at most two messages to Spotify. The first carries the current
  token and only goes out while no rate limit is active; a second one follows only an answer 401,
  carries the refreshed token, and again only while no limit is active.
\<close>

lemma request_retries_once_after_refresh:
  "case spotify_api_request token env of (res, sent) \<Rightarrow>
     length sent \<le> 2
   \<and> (sent \<noteq> [] \<longrightarrow> spotify_rate_limit_error (env_guard1 env) (env_now1 env) = None
        \<and> (\<exists>t. token = Some t \<and> hd sent = tok_access_token t))
   \<and> (length sent = 2 \<longrightarrow> spotify_rate_limit_error (env_guard2 env) (env_now2 env) = None
        \<and> (\<exists>t new first. token = Some t \<and> env_refresh env = Some new
             \<and> sent = [tok_access_token t, tok_access_token new]
             \<and> env_send1 env (tok_access_token t) = Inr first \<and> http_status first = UNAUTHORIZED))"
  using request_sends [of token env] by (cases "spotify_api_request token env") simp

definition demo_refresh_env :: request_env where
  "demo_refresh_env = \<lparr>env_guard1 = None, env_now1 = 0, env_permit1 = True,
     env_send1 = (\<lambda>_. Inr \<lparr>http_status = UNAUTHORIZED, http_text = [], http_json = None,
       http_retry_after = None\<rparr>),
     env_refresh = Some (demo_token\<lparr>tok_access_token := ''t2''\<rparr>), env_guard2 = None, env_now2 = 0,
     env_permit2 = True, env_send2 = (\<lambda>_. Inl ''lost'')\<rparr>"

section \<open>Devices\<close>

text \<open>The device chosen for a Jam is one that Spotify listed and that is not restricted; it has
  the configured identifier, or it is the only listed device with the configured name.
\<close>

lemma selected_device_is_the_configured_one:
  assumes "select_spotify_device devices configured_id configured_name = Inr d"
  shows "d \<in> set devices \<and> \<not> dev_is_restricted d
    \<and> (configured_id = Some (dev_id d)
       \<or> filter (\<lambda>x. eq_ignore_ascii_case (dev_name x) (or_default [] configured_name)) devices = [d])"
  using select_device_sound [OF assms] by blast

text \<open>Resolving the device is bounded: at most two repairs, an activation and then a restart, and
  at most 2n+3 calls in all for n polls. A repair is only tried where Spotify did not list
  the device, never for another error, and a restart only where the activation found Spotify
  already running.
\<close>

lemma device_repair_is_bounded:
  "case resolve_spotify_device_with_repair env n interval s of (res, calls, s') \<Rightarrow>
     repair_calls calls \<in> {[], [RepairCall Activate], [RepairCall Activate, RepairCall Restart]}
   \<and> length calls \<le> 2 * n + 3
   \<and> (repair_calls calls \<noteq> [] \<longrightarrow> (\<exists>m. fst (de_resolve env s) = Some (Inl (Unavailable m))))
   \<and> (RepairCall Restart \<in> set calls \<longrightarrow>
        (\<exists>s1 s2 m activated. de_resolve env s = (Some (Inl (Unavailable m)), s1)
           \<and> de_repair env Activate s1 = (Inr activated, s2) \<and> rep_was_running_before activated))"
  using resolve_calls [of env n interval s] resolve_restart_reason [of env n interval s]
    resolve_other_error_no_repair [of env n interval s]
  by (cases "resolve_spotify_device_with_repair env n interval s") simp

end
