(* ===== verification/JamQueue.thy ===== *)
theory JamQueue
  imports JamReceipts
begin

text \<open>
  How an observation of Spotify's player moves the queue (\<open>jam_session.rs\<close>, from
  \<open>reconcile_queue_to_current\<close> to \<open>retire_skipped_queue_frontier\<close>, and
  \<open>retire_finished_queue_frontier\<close>). A function that mutates the queue in place returns the new
  queue with its answer. Every one of them only drops entries that Spotify accepted and only
  unlocks entries that waited for a transition: the contract \<open>queue_advance\<close>.
\<close>

section \<open>The operations\<close>

definition unlock :: "jam_queue_entry \<Rightarrow> jam_queue_entry" where
  "unlock e = e\<lparr>qe_current_match_state := Eligible\<rparr>"

definition eligible_current :: "string \<Rightarrow> jam_queue_entry \<Rightarrow> bool" where
  "eligible_current uri e \<longleftrightarrow> entry_uri e = uri \<and> qe_delivery_state e = SpotifyCommitted
     \<and> qe_current_match_state e = Eligible"

definition awaiting_committed :: "jam_queue_entry \<Rightarrow> bool" where
  "awaiting_committed e \<longleftrightarrow> qe_delivery_state e = SpotifyCommitted
     \<and> qe_current_match_state e = AwaitingTransition"

definition reconcile_queue_to_current ::
  "jam_queue \<Rightarrow> string \<Rightarrow> jam_queue \<times> queued_track list" where
  "reconcile_queue_to_current queue current_uri =
     (if current_uri = [] then (queue, [])
      else case find_index (eligible_current current_uri) queue of
        None \<Rightarrow> (queue, [])
      | Some target_index \<Rightarrow>
          if list_ex (\<lambda>e. qe_delivery_state e = CommitUnknown) (take target_index queue)
          then (queue, [])
          else (dropWhile (\<lambda>e. entry_uri e \<noteq> current_uri) queue,
                map qe_track (takeWhile (\<lambda>e. entry_uri e \<noteq> current_uri) queue)))"

definition committed_queue_track_matching_current ::
  "jam_queue \<Rightarrow> string \<Rightarrow> queued_track option" where
  "committed_queue_track_matching_current queue current_uri =
     (case queue of [] \<Rightarrow> None
      | e # _ \<Rightarrow> if eligible_current current_uri e then Some (qe_track e) else None)"

definition find_enumerated :: "('a list \<Rightarrow> 'a \<Rightarrow> bool) \<Rightarrow> 'a list \<Rightarrow> nat option" where
  "find_enumerated P q = List.find (\<lambda>i. P (take i q) (q ! i)) [0..<length q]"

definition observe_queue_current_transition ::
  "jam_queue \<Rightarrow> string \<Rightarrow> bool \<Rightarrow> jam_queue \<times> bool" where
  "observe_queue_current_transition queue current_uri repeated_occurrence =
     (let moved_on = (\<lambda>e. awaiting_committed e \<and> entry_uri e \<noteq> current_uri);
          q1 = map (\<lambda>e. if moved_on e then unlock e else e) queue;
          changed1 = list_ex moved_on queue;
          matching_transition = find_enumerated (\<lambda>earlier e.
            awaiting_committed e \<and> entry_uri e = current_uri
            \<and> list_ex (\<lambda>x. occupies_spotify_frontier (qe_delivery_state x)
                 \<and> entry_uri x \<noteq> current_uri) earlier) q1;
          q2 = (case matching_transition of None \<Rightarrow> q1 | Some i \<Rightarrow> q1[i := unlock (q1 ! i)]);
          unlocked_matching_transition = (matching_transition \<noteq> None);
          waiting_here = (\<lambda>e. awaiting_committed e \<and> entry_uri e = current_uri)
      in if repeated_occurrence \<and> \<not> unlocked_matching_transition
         then (update_first waiting_here unlock q2,
               changed1 \<or> list_ex waiting_here q2)
         else (q2, changed1 \<or> unlocked_matching_transition))"

definition same_track_occurrence_restarted ::
  "now_playing_info option \<Rightarrow> now_playing_info \<Rightarrow> bool" where
  "same_track_occurrence_restarted previous current =
     (case previous of None \<Rightarrow> False
      | Some p \<Rightarrow>
          if \<not> np_is_playing p \<or> \<not> np_is_playing current \<or> np_spotify_uri current = []
             \<or> np_spotify_uri p \<noteq> np_spotify_uri current \<or> np_duration_ms p = 0
             \<or> np_duration_ms current \<noteq> np_duration_ms p
          then False
          else
            let edge_window_ms = max 2000 (min 15000 (np_duration_ms p div 10)) in
            np_duration_ms p \<le> sat_add (np_progress_ms p) edge_window_ms
            \<and> np_progress_ms current \<le> edge_window_ms
            \<and> sat_add (np_progress_ms current) edge_window_ms < np_progress_ms p)"

definition repeated_occurrence_advance_confirmed ::
  "now_playing_info option \<Rightarrow> now_playing_info \<Rightarrow> string \<Rightarrow> spotify_queue_observation option
   \<Rightarrow> bool" where
  "repeated_occurrence_advance_confirmed previous current repeat_state queue_observation =
     (case queue_observation of None \<Rightarrow> False
      | Some obs \<Rightarrow>
          (repeat_state = ''off'' \<or> repeat_state = ''context'')
          \<and> so_current_uri obs = np_spotify_uri current
          \<and> so_next_uri obs \<noteq> Some (np_spotify_uri current)
          \<and> same_track_occurrence_restarted previous current)"

definition take_eligible_front :: "jam_queue \<Rightarrow> string \<Rightarrow> jam_queue \<times> queued_track option" where
  "take_eligible_front queue current_uri =
     (case queue of [] \<Rightarrow> (queue, None)
      | front # rest \<Rightarrow>
          if entry_uri front \<noteq> current_uri \<or> qe_delivery_state front \<noteq> SpotifyCommitted
             \<or> qe_current_match_state front \<noteq> Eligible
          then (queue, None) else (rest, Some (qe_track front)))"

definition advance_repeated_committed_occurrence ::
  "jam_queue \<Rightarrow> string \<Rightarrow> jam_queue \<times> queued_track option" where
  "advance_repeated_committed_occurrence queue current_uri = take_eligible_front queue current_uri"

definition nonblank :: "string option \<Rightarrow> string option" where
  "nonblank uri = (case uri of Some u \<Rightarrow> if blank u then None else Some u | None \<Rightarrow> None)"

definition retire_skipped_queue_frontier ::
  "jam_queue \<Rightarrow> string option \<Rightarrow> jam_queue \<times> queued_track option" where
  "retire_skipped_queue_frontier queue current_uri =
     (case nonblank current_uri of None \<Rightarrow> (queue, None)
      | Some uri \<Rightarrow> take_eligible_front queue uri)"

definition retire_finished_queue_frontier ::
  "jam_queue \<Rightarrow> string \<Rightarrow> jam_queue \<times> queued_track option" where
  "retire_finished_queue_frontier queue current_uri =
     (if current_uri = [] then (queue, None) else take_eligible_front queue current_uri)"

section \<open>The contract of an advance\<close>

definition unlocks :: "jam_queue_entry \<Rightarrow> jam_queue_entry \<Rightarrow> bool" where
  "unlocks e e' \<longleftrightarrow> e' = e \<or> (awaiting_committed e \<and> e' = unlock e)"

definition advances :: "jam_queue \<Rightarrow> jam_queue \<Rightarrow> bool" where
  "advances q q' \<longleftrightarrow> (\<exists>gone kept. q = gone @ kept
     \<and> (\<forall>e \<in> set gone. qe_delivery_state e = SpotifyCommitted) \<and> list_all2 unlocks kept q')"

lemma unlock_simps [simp]:
  "qe_track (unlock e) = qe_track e" "qe_delivery_state (unlock e) = qe_delivery_state e"
  "qe_can_remove (unlock e) = qe_can_remove e" "qe_current_match_state (unlock e) = Eligible"
  by (simp_all add: unlock_def)

lemma unlocks_refl [simp]: "unlocks e e"
  by (simp add: unlocks_def)

lemma unlocks_same:
  assumes "unlocks e e'"
  shows "qe_track e' = qe_track e" "qe_delivery_state e' = qe_delivery_state e"
    "qe_can_remove e' = qe_can_remove e"
    "qe_delivery_state e \<noteq> SpotifyCommitted \<Longrightarrow> e' = e"
  using assms by (auto simp: unlocks_def awaiting_committed_def)

lemma unlocks_trans: "unlocks a b \<Longrightarrow> unlocks b c \<Longrightarrow> unlocks a c"
  by (auto simp: unlocks_def awaiting_committed_def)

lemma list_all2_unlocks_refl [simp]: "list_all2 unlocks q q"
  by (simp add: list_all2_refl)

lemma unlocks_map:
  "list_all2 unlocks q q' \<Longrightarrow> map qe_track q' = map qe_track q
     \<and> map qe_delivery_state q' = map qe_delivery_state q"
  by (induction rule: list_all2_induct) (auto dest: unlocks_same)

lemma unlocks_filter_uncommitted:
  "list_all2 unlocks q q' \<Longrightarrow>
     filter (\<lambda>e. qe_delivery_state e \<noteq> SpotifyCommitted) q'
       = filter (\<lambda>e. qe_delivery_state e \<noteq> SpotifyCommitted) q"
  by (induction rule: list_all2_induct) (auto simp: unlocks_same)

lemma unlocks_counts:
  "list_all2 unlocks q q' \<Longrightarrow> frontier_count q' = frontier_count q \<and> unknown_count q' = unknown_count q"
  by (induction rule: list_all2_induct) (auto simp: unlocks_same)

lemma unlocks_entry_ok:
  "list_all2 unlocks q q' \<Longrightarrow> list_all entry_ok q \<Longrightarrow> list_all entry_ok q'"
  by (induction rule: list_all2_induct) (auto simp: unlocks_def entry_ok_def awaiting_committed_def)

lemma unlocks_queue_ok:
  assumes "list_all2 unlocks q q'" and "queue_ok q"
  shows "queue_ok q'"
proof -
  have "map entry_id q' = map entry_id q"
    using unlocks_map [OF assms(1)] by (metis map_map [unfolded comp_def])
  then show ?thesis
    using assms unlocks_map [OF assms(1)] unlocks_counts [OF assms(1)] unlocks_entry_ok [OF assms(1)]
    by (simp add: queue_ok_def)
qed

lemma advances_refl [simp]: "advances q q"
  unfolding advances_def by (intro exI [of _ "[]"] exI [of _ q]) simp

lemma advances_unlock: "list_all2 unlocks q q' \<Longrightarrow> advances q q'"
  unfolding advances_def by (intro exI [of _ "[]"] exI [of _ q]) simp

lemma advances_drop: "\<forall>e \<in> set gone. qe_delivery_state e = SpotifyCommitted \<Longrightarrow> advances (gone @ q) q"
  unfolding advances_def by (intro exI [of _ gone] exI [of _ q]) simp

lemma advances_trans:
  assumes "advances a b" and "advances b c"
  shows "advances a c"
proof -
  obtain g1 k1 where a: "a = g1 @ k1" and g1: "\<forall>e \<in> set g1. qe_delivery_state e = SpotifyCommitted"
    and ab: "list_all2 unlocks k1 b"
    using assms(1) by (auto simp: advances_def)
  obtain g2 k2 where b: "b = g2 @ k2" and g2: "\<forall>e \<in> set g2. qe_delivery_state e = SpotifyCommitted"
    and bc: "list_all2 unlocks k2 c"
    using assms(2) by (auto simp: advances_def)
  from ab b obtain h l where k1: "k1 = h @ l" "list_all2 unlocks h g2" "list_all2 unlocks l k2"
    by (auto simp: list_all2_append2)
  have "map qe_delivery_state h = map qe_delivery_state g2"
    using unlocks_map [OF k1(2)] by simp
  with g2 have h: "\<forall>e \<in> set h. qe_delivery_state e = SpotifyCommitted"
    by (metis (no_types, lifting) image_eqI image_set imageE)
  have "list_all2 unlocks l c"
    using list_all2_trans [OF _ k1(3) bc] unlocks_trans by blast
  with a k1(1) g1 h show ?thesis
    unfolding advances_def by (intro exI [of _ "g1 @ h"] exI [of _ l]) auto
qed

lemma advances_queue_ok: "advances q q' \<Longrightarrow> queue_ok q \<Longrightarrow> queue_ok q'"
  by (auto simp: advances_def dest: queue_ok_append2 unlocks_queue_ok)

text \<open>An advance keeps every entry that Spotify has not accepted, in its place and unchanged.\<close>

lemma advances_keeps_uncommitted:
  "advances q q' \<Longrightarrow> filter (\<lambda>e. qe_delivery_state e \<noteq> SpotifyCommitted) q'
     = filter (\<lambda>e. qe_delivery_state e \<noteq> SpotifyCommitted) q"
  by (auto simp: advances_def unlocks_filter_uncommitted filter_empty_conv)

lemma advances_tracks_suffix:
  assumes "advances q q'"
  shows "\<exists>n. map qe_track q' = drop n (map qe_track q)"
proof -
  obtain gone kept where "q = gone @ kept" "list_all2 unlocks kept q'"
    using assms by (auto simp: advances_def)
  then show ?thesis
    using unlocks_map by (intro exI [of _ "length gone"]) auto
qed

locale queue_advance =
  fixes step :: "'a \<Rightarrow> jam_queue \<Rightarrow> jam_queue"
  assumes step_advances: "queue_ok q \<Longrightarrow> advances q (step x q)"
begin

lemma step_queue_ok: "queue_ok q \<Longrightarrow> queue_ok (step x q)"
  using step_advances by (blast intro: advances_queue_ok)

lemma step_keeps_uncommitted:
  "queue_ok q \<Longrightarrow> filter (\<lambda>e. qe_delivery_state e \<noteq> SpotifyCommitted) (step x q)
     = filter (\<lambda>e. qe_delivery_state e \<noteq> SpotifyCommitted) q"
  using step_advances by (blast intro: advances_keeps_uncommitted)

definition run :: "'a list \<Rightarrow> jam_queue \<Rightarrow> jam_queue" where
  "run xs q = fold step xs q"

lemma run_advances: "queue_ok q \<Longrightarrow> advances q (run xs q)"
proof (induction xs arbitrary: q)
  case (Cons x xs)
  then have "advances (step x q) (run xs (step x q))"
    using step_queue_ok by blast
  moreover have "advances q (step x q)" by (rule step_advances [OF Cons.prems])
  ultimately show ?case by (auto simp: run_def intro: advances_trans)
qed (simp add: run_def)

end

section \<open>The operations keep it\<close>

lemma sorted_before_committed:
  "queue_ok (xs @ e # ys) \<Longrightarrow> qe_delivery_state e = SpotifyCommitted \<Longrightarrow> x \<in> set xs \<Longrightarrow>
     qe_delivery_state x = SpotifyCommitted"
  by (auto simp: queue_ok_def sorted_append intro: order.antisym)

lemma eligible_current_uri: "eligible_current uri e \<Longrightarrow> entry_uri e = uri"
  by (simp add: eligible_current_def)

lemma reconcile_advances:
  assumes "queue_ok q"
  shows "advances q (fst (reconcile_queue_to_current q uri))"
proof (cases "fst (reconcile_queue_to_current q uri) = q")
  case False
  then obtain i where i: "find_index (eligible_current uri) q = Some i"
    and res: "fst (reconcile_queue_to_current q uri) = dropWhile (\<lambda>e. entry_uri e \<noteq> uri) q"
    by (auto simp: reconcile_queue_to_current_def split: option.splits if_splits)
  let ?gone = "takeWhile (\<lambda>e. entry_uri e \<noteq> uri) q"
  from i have len: "i < length q" and hit: "eligible_current uri (q ! i)"
    by (auto dest: find_index_Some)
  have split: "q = take i q @ q ! i # drop (Suc i) q"
    using len by (rule id_take_nth_drop)
  have "length ?gone \<le> i"
    using hit len by (metis (mono_tags, lifting) eligible_current_uri not_less nth_mem set_takeWhileD
        takeWhile_nth)
  then have "set ?gone \<subseteq> set (take i q)"
    by (metis set_take_subset_set_take takeWhile_eq_take)
  moreover have "\<forall>x \<in> set (take i q). qe_delivery_state x = SpotifyCommitted"
    using sorted_before_committed [of "take i q" "q ! i"] assms hit split
    by (metis eligible_current_def)
  ultimately have "\<forall>e \<in> set ?gone. qe_delivery_state e = SpotifyCommitted" by blast
  then have "advances (?gone @ dropWhile (\<lambda>e. entry_uri e \<noteq> uri) q)
      (dropWhile (\<lambda>e. entry_uri e \<noteq> uri) q)"
    by (rule advances_drop)
  with res show ?thesis by simp
qed simp

lemma find_enumerated_Some:
  "find_enumerated P q = Some i \<Longrightarrow> i < length q \<and> P (take i q) (q ! i)"
  by (auto simp: find_enumerated_def find_Some_iff)

lemma unlocks_update: "i < length q \<Longrightarrow> awaiting_committed (q ! i) \<Longrightarrow> list_all2 unlocks q (q[i := unlock (q ! i)])"
  by (auto simp: list_all2_conv_all_nth nth_list_update unlocks_def)

lemma unlocks_unlock: "awaiting_committed e \<Longrightarrow> unlocks e (unlock e)"
  by (simp add: unlocks_def)

lemma unlocks_update_first: "list_all2 unlocks q (update_first (\<lambda>e. awaiting_committed e \<and> P e) unlock q)"
  by (induction q) (auto intro: unlocks_unlock)

lemma unlocks_map_if: "list_all2 unlocks q (map (\<lambda>e. if awaiting_committed e \<and> P e then unlock e else e) q)"
  by (simp add: list_all2_conv_all_nth unlocks_def)

lemma list_all2_unlocks_trans:
  "list_all2 unlocks a b \<Longrightarrow> list_all2 unlocks b c \<Longrightarrow> list_all2 unlocks a c"
  using list_all2_trans unlocks_trans by blast

lemma observe_advances: "advances q (fst (observe_queue_current_transition q uri rep))"
proof -
  let ?q1 = "map (\<lambda>e. if awaiting_committed e \<and> entry_uri e \<noteq> uri then unlock e else e) q"
  let ?m = "find_enumerated (\<lambda>earlier e. awaiting_committed e \<and> entry_uri e = uri
            \<and> list_ex (\<lambda>x. occupies_spotify_frontier (qe_delivery_state x)
                 \<and> entry_uri x \<noteq> uri) earlier) ?q1"
  let ?q2 = "case ?m of None \<Rightarrow> ?q1 | Some i \<Rightarrow> ?q1[i := unlock (?q1 ! i)]"
  have "list_all2 unlocks ?q1 ?q2"
    by (cases ?m) (auto dest!: find_enumerated_Some intro!: unlocks_update)
  then have q2: "list_all2 unlocks q ?q2"
    by (rule list_all2_unlocks_trans [OF unlocks_map_if])
  have q3: "list_all2 unlocks ?q2 (update_first (\<lambda>e. awaiting_committed e \<and> entry_uri e = uri) unlock ?q2)"
    by (rule unlocks_update_first)
  have "fst (observe_queue_current_transition q uri rep) =
      (if rep \<and> ?m = None
       then update_first (\<lambda>e. awaiting_committed e \<and> entry_uri e = uri) unlock ?q2 else ?q2)"
    by (simp add: observe_queue_current_transition_def Let_def)
  then show ?thesis
    using q2 list_all2_unlocks_trans [OF q2 q3] by (auto intro!: advances_unlock)
qed

lemma take_eligible_front_advances: "advances q (fst (take_eligible_front q uri))"
proof (cases q)
  case (Cons e es)
  then show ?thesis using advances_drop [of "[e]" es] by (auto simp: take_eligible_front_def)
qed (simp add: take_eligible_front_def)

interpretation reconcile: queue_advance "\<lambda>uri q. fst (reconcile_queue_to_current q uri)"
  by unfold_locales (rule reconcile_advances)

interpretation observe: queue_advance
  "\<lambda>(uri, repeated) q. fst (observe_queue_current_transition q uri repeated)"
  by unfold_locales (auto intro: observe_advances)

interpretation repeated_advance: queue_advance
  "\<lambda>uri q. fst (advance_repeated_committed_occurrence q uri)"
  by unfold_locales (simp add: advance_repeated_committed_occurrence_def take_eligible_front_advances)

interpretation retire_skipped: queue_advance
  "\<lambda>uri q. fst (retire_skipped_queue_frontier q uri)"
  by unfold_locales (simp add: retire_skipped_queue_frontier_def take_eligible_front_advances
      split: option.splits)

interpretation retire_finished: queue_advance
  "\<lambda>uri q. fst (retire_finished_queue_frontier q uri)"
  by unfold_locales (simp add: retire_finished_queue_frontier_def take_eligible_front_advances)

end
