(* ===== verification/JamSkipQueue.thy ===== *)
theory JamSkipQueue
  imports JamQueue
begin

text \<open>
  Skips and track ends as queue transitions (\<open>jam_session.rs\<close>, from
  \<open>SuccessfulSkipQueueTransition\<close> to \<open>retire_stale_frontier_for_queue_placement\<close>): which queue
  occurrence was playing when Spotify's next was called, what a successful skip does to the
  queue, and how an ambiguous skip is kept as a boundary until Spotify's player resolves it.
\<close>

section \<open>The boundary of an ambiguous skip\<close>

datatype uncertain_skip_observation_result = Accepted | Rejected | StillPending

definition queue_observation_required :: "uncertain_skip_boundary \<Rightarrow> string \<Rightarrow> bool" where
  "queue_observation_required b current_uri \<longleftrightarrow>
     current_uri = us_pre_skip_current_uri b \<and> us_same_uri_resolution b = AwaitingStillNext"

definition resolve_observation ::
  "uncertain_skip_boundary \<Rightarrow> string option \<Rightarrow> spotify_queue_observation option
   \<Rightarrow> uncertain_skip_observation_result" where
  "resolve_observation b current_uri queue_observation =
     (case nonblank current_uri of
        None \<Rightarrow> StillPending
      | Some current_uri \<Rightarrow>
          if current_uri \<noteq> us_pre_skip_current_uri b then Accepted
          else if \<not> queue_observation_required b current_uri then Rejected
          else case queue_observation of
            None \<Rightarrow> StillPending
          | Some obs \<Rightarrow>
              if so_current_uri obs \<noteq> us_pre_skip_current_uri b then StillPending
              else if so_next_uri obs = Some (us_pre_skip_current_uri b) then Rejected
              else Accepted)"

definition frontier_entry :: "jam_queue_entry \<Rightarrow> bool" where
  "frontier_entry e \<longleftrightarrow> occupies_spotify_frontier (qe_delivery_state e)"

definition matching_frontier :: "string \<Rightarrow> jam_queue_entry \<Rightarrow> bool" where
  "matching_frontier uri e \<longleftrightarrow> entry_uri e = uri \<and> frontier_entry e"

definition same_uri_skip_observation_required ::
  "jam_queue \<Rightarrow> string option \<Rightarrow> string option \<Rightarrow> bool" where
  "same_uri_skip_observation_required queue current_uri previous_uri =
     (case nonblank current_uri of None \<Rightarrow> False
      | Some current_uri \<Rightarrow>
         (case find_index (\<lambda>e. matching_frontier current_uri e
                  \<and> qe_current_match_state e = AwaitingTransition) queue of
            None \<Rightarrow> False
          | Some awaiting_index \<Rightarrow>
              let earlier_frontier = filter frontier_entry (take awaiting_index queue) in
              if list_ex (\<lambda>e. entry_uri e = current_uri) earlier_frontier then True
              else if earlier_frontier \<noteq> [] then False
              else case nonblank previous_uri of None \<Rightarrow> True
                   | Some previous_uri \<Rightarrow> previous_uri = current_uri))"

section \<open>Which occurrence was playing\<close>

datatype same_uri_skip_observation_error = PlaybackChanged | TargetCommitUnknown

definition preceded_awaiting :: "string \<Rightarrow> string option \<Rightarrow> jam_queue \<Rightarrow> jam_queue_entry \<Rightarrow> bool" where
  "preceded_awaiting current_uri previous_uri earlier e \<longleftrightarrow>
     matching_frontier current_uri e \<and> qe_current_match_state e = AwaitingTransition
     \<and> (let earlier_frontier = filter frontier_entry earlier in
          (earlier_frontier \<noteq> [] \<and> list_all (\<lambda>x. entry_uri x \<noteq> current_uri) earlier_frontier)
        \<or> (earlier_frontier = []
           \<and> (case nonblank previous_uri of None \<Rightarrow> False | Some p \<Rightarrow> p \<noteq> current_uri)))"

definition eligible_match_index :: "jam_queue \<Rightarrow> string \<Rightarrow> nat option" where
  "eligible_match_index queue current_uri =
     find_index (\<lambda>e. matching_frontier current_uri e \<and> qe_current_match_state e = Eligible) queue"

fun authoritative_pre_skip_target_index ::
  "jam_queue \<Rightarrow> string \<Rightarrow> string option \<Rightarrow> pre_skip_same_uri_resolution \<Rightarrow> nat option" where
  "authoritative_pre_skip_target_index queue current_uri previous_uri AwaitingStillNext =
     eligible_match_index queue current_uri"
| "authoritative_pre_skip_target_index queue current_uri previous_uri AwaitingIsCurrent =
     rfind_index (\<lambda>e. matching_frontier current_uri e
       \<and> qe_current_match_state e = AwaitingTransition) queue"
| "authoritative_pre_skip_target_index queue current_uri previous_uri NotNeeded =
     (case find_enumerated (preceded_awaiting current_uri previous_uri) queue of
        Some i \<Rightarrow> Some i
      | None \<Rightarrow> eligible_match_index queue current_uri)"

definition reject_commit_unknown_pre_skip_target ::
  "jam_queue \<Rightarrow> string \<Rightarrow> string option \<Rightarrow> pre_skip_same_uri_resolution
   \<Rightarrow> same_uri_skip_observation_error + unit" where
  "reject_commit_unknown_pre_skip_target queue current_uri previous_uri resolution =
     (case authoritative_pre_skip_target_index queue current_uri previous_uri resolution of
        None \<Rightarrow> Inr ()
      | Some index \<Rightarrow>
          if list_ex (\<lambda>e. qe_delivery_state e = CommitUnknown) (take (Suc index) queue)
          then Inl TargetCommitUnknown else Inr ())"

definition resolve_same_uri_skip_observation ::
  "jam_queue \<Rightarrow> spotify_queue_observation \<Rightarrow> string \<Rightarrow> string option
   \<Rightarrow> same_uri_skip_observation_error + pre_skip_same_uri_resolution" where
  "resolve_same_uri_skip_observation queue obs current_uri previous_uri =
     (if so_current_uri obs \<noteq> current_uri then Inl PlaybackChanged
      else
        let resolution = (if so_next_uri obs = Some current_uri then AwaitingStillNext
                          else AwaitingIsCurrent)
        in case reject_commit_unknown_pre_skip_target queue current_uri previous_uri resolution of
             Inl e \<Rightarrow> Inl e
           | Inr _ \<Rightarrow> Inr resolution)"

text \<open>The answer is the new queue, the tracks removed before the current one, and whether it changed.\<close>

definition reconcile_authoritative_pre_skip_current ::
  "jam_queue \<Rightarrow> string option \<Rightarrow> string option \<Rightarrow> pre_skip_same_uri_resolution
   \<Rightarrow> jam_queue \<times> queued_track list \<times> bool" where
  "reconcile_authoritative_pre_skip_current queue current_uri previous_uri resolution =
     (case nonblank current_uri of None \<Rightarrow> (queue, [], False)
      | Some current_uri \<Rightarrow>
         (case authoritative_pre_skip_target_index queue current_uri previous_uri resolution of
            None \<Rightarrow> (queue, [], False)
          | Some target_index \<Rightarrow>
              if list_ex (\<lambda>e. qe_delivery_state e = CommitUnknown) (take (Suc target_index) queue)
              then (queue, [], False)
              else
                let awaiting = qe_current_match_state (queue ! target_index) = AwaitingTransition;
                    queue1 = (if awaiting
                              then queue[target_index := unlock (queue ! target_index)] else queue);
                    removed = map qe_track (take target_index queue1)
                in (drop target_index queue1, removed, awaiting \<or> removed \<noteq> [])))"

definition authoritative_pre_skip_echo_track ::
  "jam_queue \<Rightarrow> string option \<Rightarrow> string option \<Rightarrow> pre_skip_same_uri_resolution
   \<Rightarrow> queued_track option" where
  "authoritative_pre_skip_echo_track queue current_uri previous_uri resolution =
     (case nonblank current_uri of None \<Rightarrow> None
      | Some current_uri \<Rightarrow>
         (case reject_commit_unknown_pre_skip_target queue current_uri previous_uri resolution of
            Inl _ \<Rightarrow> None
          | Inr _ \<Rightarrow>
              committed_queue_track_matching_current
                (fst (reconcile_authoritative_pre_skip_current queue (Some current_uri)
                        previous_uri resolution))
                current_uri))"

section \<open>A skip that Spotify accepted\<close>

record successful_skip_queue_transition =
  st_removed_before_current :: "queued_track list"
  st_removed :: "queued_track option"
  st_unlocked_successor :: bool
  st_pre_skip_changed :: bool

definition transition_changed :: "successful_skip_queue_transition \<Rightarrow> bool" where
  "transition_changed t \<longleftrightarrow> st_pre_skip_changed t \<or> st_removed t \<noteq> None \<or> st_unlocked_successor t"

definition transition_default :: successful_skip_queue_transition where
  "transition_default = \<lparr>st_removed_before_current = [], st_removed = None,
     st_unlocked_successor = False, st_pre_skip_changed = False\<rparr>"

definition unlock_front :: "jam_queue \<Rightarrow> jam_queue \<times> bool" where
  "unlock_front queue =
     (case queue of [] \<Rightarrow> ([], False)
      | e # es \<Rightarrow> if awaiting_committed e then (unlock e # es, True) else (queue, False))"

definition apply_successful_skip_to_queue ::
  "jam_queue \<Rightarrow> string option \<Rightarrow> string option \<Rightarrow> pre_skip_same_uri_resolution
   \<Rightarrow> jam_queue \<times> successful_skip_queue_transition" where
  "apply_successful_skip_to_queue queue current_uri previous_uri resolution =
     (if (case nonblank current_uri of None \<Rightarrow> False
          | Some u \<Rightarrow> reject_commit_unknown_pre_skip_target queue u previous_uri resolution
                     \<noteq> Inr ())
      then (queue, transition_default)
      else
        let (queue1, removed_before, pre_changed) =
              reconcile_authoritative_pre_skip_current queue current_uri previous_uri resolution;
            (queue2, removed) = retire_skipped_queue_frontier queue1 current_uri;
            (queue3, unlocked) = unlock_front queue2
        in (queue3, \<lparr>st_removed_before_current = removed_before, st_removed = removed,
              st_unlocked_successor = unlocked, st_pre_skip_changed = pre_changed\<rparr>))"

definition reconcile_uncertain_skip_boundary ::
  "jam_state \<Rightarrow> string option \<Rightarrow> spotify_queue_observation option
   \<Rightarrow> jam_state \<times> uncertain_skip_observation_result option" where
  "reconcile_uncertain_skip_boundary jam observed_current_uri queue_observation =
     (case jam_uncertain_skip jam of None \<Rightarrow> (jam, None)
      | Some b \<Rightarrow>
          let result = resolve_observation b observed_current_uri queue_observation;
              settle = (\<lambda>(queue, changed).
                (let jam1 = jam\<lparr>jam_queue := queue\<rparr>;
                     jam2 = (if changed then bump_queue_revision jam1 else jam1)
                 in jam2\<lparr>jam_uncertain_skip := None\<rparr>))
          in case result of
               Accepted \<Rightarrow>
                 (let (q, t) = apply_successful_skip_to_queue (jam_queue jam)
                        (Some (us_pre_skip_current_uri b)) (us_previous_uri b)
                        (us_same_uri_resolution b)
                  in (settle (q, transition_changed t), Some result))
             | Rejected \<Rightarrow>
                 (let (q, _, changed) = reconcile_authoritative_pre_skip_current (jam_queue jam)
                        (Some (us_pre_skip_current_uri b)) (us_previous_uri b)
                        (us_same_uri_resolution b)
                  in (settle (q, changed), Some result))
             | StillPending \<Rightarrow> (jam, Some result))"

definition uncertain_skip_blocks_ordinary_queue_update ::
  "uncertain_skip_observation_result option \<Rightarrow> bool" where
  "uncertain_skip_blocks_ordinary_queue_update result \<longleftrightarrow> result \<noteq> None"

section \<open>Playback that ended\<close>

definition stopped_playback_reached_track_end :: "now_playing_info \<Rightarrow> bool" where
  "stopped_playback_reached_track_end np \<longleftrightarrow>
     \<not> np_is_playing np \<and> np_duration_ms np > 0 \<and> np_duration_ms np \<le> np_progress_ms np"

definition prior_playback_finished_before_no_content ::
  "now_playing_info \<Rightarrow> nat \<Rightarrow> bool" where
  "prior_playback_finished_before_no_content np elapsed_ns \<longleftrightarrow>
     np_is_playing np \<and> np_duration_ms np > 0
     \<and> np_duration_ms np \<le> sat_add (np_progress_ms np) (clamp_u64 (as_millis elapsed_ns))"

definition prior_playback_corroborates_track_end ::
  "now_playing_info \<Rightarrow> string \<Rightarrow> instant \<Rightarrow> bool" where
  "prior_playback_corroborates_track_end previous current_uri now \<longleftrightarrow>
     np_spotify_uri previous = current_uri
     \<and> (case np_fetched_at previous of None \<Rightarrow> False
        | Some at \<Rightarrow> prior_playback_finished_before_no_content previous (elapsed now at))"

definition finished_before_no_content :: "jam_state \<Rightarrow> instant \<Rightarrow> string option" where
  "finished_before_no_content jam now =
     (case jam_now_playing jam of None \<Rightarrow> None
      | Some np \<Rightarrow>
         (case np_fetched_at np of None \<Rightarrow> None
          | Some at \<Rightarrow>
              if prior_playback_finished_before_no_content np (elapsed now at)
              then Some (np_spotify_uri np) else None))"

definition reconcile_queue_after_no_content ::
  "jam_state \<Rightarrow> instant
   \<Rightarrow> jam_state \<times> uncertain_skip_observation_result option \<times> queued_track option" where
  "reconcile_queue_after_no_content jam now =
     (let (jam1, uncertain) = reconcile_uncertain_skip_boundary jam None None in
      if uncertain \<noteq> None then (jam1, uncertain, None)
      else case finished_before_no_content jam1 now of
        None \<Rightarrow> (jam1, None, None)
      | Some uri \<Rightarrow>
          let (queue, finished) = retire_finished_queue_frontier (jam_queue jam1) uri;
              jam2 = jam1\<lparr>jam_queue := queue\<rparr>
          in (if finished \<noteq> None then bump_queue_revision jam2 else jam2, None, finished))"

definition mark_observed_queue_stopped :: "jam_state \<Rightarrow> jam_state \<times> bool" where
  "mark_observed_queue_stopped jam =
     (if jam_queue_control_stopped jam \<or> \<not> list_ex frontier_entry (jam_queue jam)
      then (jam, False)
      else (jam\<lparr>jam_queue_control_epoch := jam_queue_control_epoch jam + 1,
                jam_queue_stop_epoch := jam_queue_stop_epoch jam + 1,
                jam_queue_control_stopped := True\<rparr>, True))"

definition placement_should_queue :: "spotify_placement_observation \<Rightarrow> bool" where
  "placement_should_queue po \<longleftrightarrow> po_playback_present po \<and> po_bound_device po \<and> po_is_playing po"

definition bound_playback_stopped_at_end :: "spotify_placement_observation \<Rightarrow> bool" where
  "bound_playback_stopped_at_end po \<longleftrightarrow>
     po_playback_present po \<and> po_bound_device po \<and> \<not> po_is_playing po
     \<and> po_duration_ms po > 0 \<and> po_duration_ms po \<le> po_progress_ms po"

definition retire_stale_frontier_for_queue_placement ::
  "jam_state \<Rightarrow> spotify_placement_observation \<Rightarrow> instant \<Rightarrow> jam_state \<times> queued_track option" where
  "retire_stale_frontier_for_queue_placement jam obs now =
     (if jam_queue_control_stopped jam then (jam, None)
      else
        case (if bound_playback_stopped_at_end obs then
                (case (po_current_uri obs, jam_now_playing jam) of
                   (Some uri, Some previous) \<Rightarrow>
                     if prior_playback_corroborates_track_end previous uri now
                     then Some uri else None
                 | _ \<Rightarrow> None)
              else if \<not> po_playback_present obs then finished_before_no_content jam now
              else None) of
          None \<Rightarrow> (jam, None)
        | Some finished_uri \<Rightarrow>
           (case retire_finished_queue_frontier (jam_queue jam) finished_uri of
              (_, None) \<Rightarrow> (jam, None)
            | (queue, Some removed) \<Rightarrow>
                ((bump_queue_revision (jam\<lparr>jam_queue := queue\<rparr>))\<lparr>jam_now_playing := None\<rparr>,
                 Some removed)))"

section \<open>Which entry a skip can target\<close>

lemma nonblank_Some: "nonblank u = Some v \<Longrightarrow> u = Some v \<and> v \<noteq> []"
  by (auto simp: nonblank_def split: option.splits if_splits)

lemma nonblank_idem [simp]: "nonblank u = Some v \<Longrightarrow> nonblank (Some v) = Some v"
  by (auto simp: nonblank_def split: option.splits if_splits)

lemma target_index_matches:
  "authoritative_pre_skip_target_index q u p r = Some i \<Longrightarrow> i < length q \<and> matching_frontier u (q ! i)"
  by (cases r) (auto simp: eligible_match_index_def preceded_awaiting_def
      dest!: find_index_Some rfind_index_Some find_enumerated_Some split: option.splits)

lemma take_Suc_committed:
  assumes "queue_ok q" and "i < length q" and "frontier_entry (q ! i)"
    and "\<not> list_ex (\<lambda>e. qe_delivery_state e = CommitUnknown) (take (Suc i) q)"
  shows "qe_delivery_state (q ! i) = SpotifyCommitted"
    and "\<forall>e \<in> set (take i q). qe_delivery_state e = SpotifyCommitted"
proof -
  have "q ! i \<in> set (take (Suc i) q)"
    using assms(2) by (simp add: take_Suc_conv_app_nth)
  with assms(3,4) show com: "qe_delivery_state (q ! i) = SpotifyCommitted"
    by (cases "qe_delivery_state (q ! i)") (auto simp: list_ex_iff frontier_entry_def)
  have "q = take i q @ q ! i # drop (Suc i) q"
    using assms(2) by (rule id_take_nth_drop)
  with assms(1) com show "\<forall>e \<in> set (take i q). qe_delivery_state e = SpotifyCommitted"
    by (metis sorted_before_committed)
qed

lemma pre_skip_advances:
  assumes "queue_ok q"
  shows "advances q (fst (reconcile_authoritative_pre_skip_current q u p r))"
proof (cases "fst (reconcile_authoritative_pre_skip_current q u p r) = q")
  case False
  then obtain v i where v: "nonblank u = Some v"
    and i: "authoritative_pre_skip_target_index q v p r = Some i"
    and safe: "\<not> list_ex (\<lambda>e. qe_delivery_state e = CommitUnknown) (take (Suc i) q)"
    by (auto simp: reconcile_authoritative_pre_skip_current_def split: option.splits if_splits)
  let ?aw = "qe_current_match_state (q ! i) = AwaitingTransition"
  let ?q1 = "if ?aw then q[i := unlock (q ! i)] else q"
  have res: "fst (reconcile_authoritative_pre_skip_current q u p r) = drop i ?q1"
    using v i safe by (simp add: reconcile_authoritative_pre_skip_current_def Let_def)
  from target_index_matches [OF i] have len: "i < length q" and f: "frontier_entry (q ! i)"
    by (auto simp: matching_frontier_def)
  note com = take_Suc_committed [OF assms len f safe]
  have "list_all2 unlocks q ?q1"
    using len com(1) by (auto intro!: unlocks_update simp: awaiting_committed_def)
  then have "list_all2 unlocks (drop i q) (drop i ?q1)" by (rule list_all2_dropI)
  moreover have "advances (take i q @ drop i q) (drop i q)" by (rule advances_drop [OF com(2)])
  ultimately show ?thesis
    unfolding res using advances_trans advances_unlock by fastforce
qed simp

lemma pre_skip_flag:
  "reconcile_authoritative_pre_skip_current q u p r = (q', removed, False) \<Longrightarrow> q' = q"
  by (auto simp: reconcile_authoritative_pre_skip_current_def Let_def
      split: option.splits if_splits)

lemma unlock_front_advances: "advances q (fst (unlock_front q))"
  by (cases q) (auto simp: unlock_front_def intro!: advances_unlock unlocks_unlock)

lemma unlock_front_flag: "unlock_front q = (q', False) \<Longrightarrow> q' = q"
  by (auto simp: unlock_front_def split: list.splits if_splits)

lemma take_eligible_flag: "take_eligible_front q u = (q', None) \<Longrightarrow> q' = q"
  by (auto simp: take_eligible_front_def split: list.splits if_splits)

lemma retire_flags:
  "retire_skipped_queue_frontier q w = (q', None) \<Longrightarrow> q' = q"
  "retire_finished_queue_frontier q u = (q', None) \<Longrightarrow> q' = q"
  by (auto simp: retire_skipped_queue_frontier_def retire_finished_queue_frontier_def
      split: option.splits if_splits dest: take_eligible_flag)

lemma retire_skipped_advances: "queue_ok q \<Longrightarrow> advances q (fst (retire_skipped_queue_frontier q u))"
  by (rule retire_skipped.step_advances)

lemma retire_finished_advances: "queue_ok q \<Longrightarrow> advances q (fst (retire_finished_queue_frontier q u))"
  by (rule retire_finished.step_advances)

lemma skip_advances:
  assumes "queue_ok q"
  shows "advances q (fst (apply_successful_skip_to_queue q u p r))"
proof -
  obtain q1 b1 c1 where 1: "reconcile_authoritative_pre_skip_current q u p r = (q1, b1, c1)"
    by (metis prod_cases3)
  obtain q2 r2 where 2: "retire_skipped_queue_frontier q1 u = (q2, r2)" by fastforce
  obtain q3 c3 where 3: "unlock_front q2 = (q3, c3)" by fastforce
  have a1: "advances q q1" using pre_skip_advances [OF assms, of u p r] 1 by simp
  have "advances q1 q2"
    using retire_skipped_advances [OF advances_queue_ok [OF a1 assms], of u] 2 by simp
  moreover have "advances q2 q3" using unlock_front_advances [of q2] 3 by simp
  ultimately have "advances q q3" using a1 by (blast intro: advances_trans)
  then show ?thesis
    unfolding apply_successful_skip_to_queue_def using 1 2 3 by (simp add: Let_def)
qed

lemma skip_flag:
  "apply_successful_skip_to_queue q u p r = (q', t) \<Longrightarrow> \<not> transition_changed t \<Longrightarrow> q' = q"
  by (auto simp: apply_successful_skip_to_queue_def transition_changed_def Let_def
      split: if_splits prod.splits dest!: pre_skip_flag unlock_front_flag retire_flags)

interpretation pre_skip: queue_advance
  "\<lambda>(u, p, r) q. fst (reconcile_authoritative_pre_skip_current q u p r)"
  by unfold_locales (auto intro: pre_skip_advances)

interpretation skip: queue_advance "\<lambda>(u, p, r) q. fst (apply_successful_skip_to_queue q u p r)"
  by unfold_locales (auto intro: skip_advances)

section \<open>The contract of an observation of the player\<close>

text \<open>
  What an observation may do to the shared state: the queue only advances, the revision changes
  with the queue, and the Jam stays the same Jam. A client that compares revisions then misses
  no change of the queue.
\<close>

definition same_jam :: "jam_state \<Rightarrow> jam_state \<Rightarrow> bool" where
  "same_jam j j' \<longleftrightarrow> jam_active j' = jam_active j \<and> jam_generation j' = jam_generation j
     \<and> jam_host_identity j' = jam_host_identity j \<and> jam_spotify_device_id j' = jam_spotify_device_id j
     \<and> jam_listeners j' = jam_listeners j \<and> jam_audio_connections j' = jam_audio_connections j"

lemma same_jam_refl [simp]: "same_jam j j"
  by (simp add: same_jam_def)

lemma same_jam_trans: "same_jam a b \<Longrightarrow> same_jam b c \<Longrightarrow> same_jam a c"
  by (simp add: same_jam_def)

locale jam_observation =
  fixes step :: "'a \<Rightarrow> jam_state \<Rightarrow> jam_state"
  assumes step_advances: "jam_queue_ok j \<Longrightarrow> advances (jam_queue j) (jam_queue (step x j))"
    and step_same_jam: "same_jam j (step x j)"
    and step_revision: "jam_queue_revision (step x j) = jam_queue_revision j + 1
      \<or> (jam_queue_revision (step x j) = jam_queue_revision j \<and> jam_queue (step x j) = jam_queue j)"
begin

definition run :: "'a list \<Rightarrow> jam_state \<Rightarrow> jam_state" where
  "run xs j = fold step xs j"

lemma step_queue_ok: "jam_queue_ok j \<Longrightarrow> jam_queue_ok (step x j)"
  using step_advances [of j x] advances_queue_ok by (auto simp: jam_queue_ok_def)

lemma run_queue_ok: "jam_queue_ok j \<Longrightarrow> jam_queue_ok (run xs j)"
  unfolding run_def by (induction xs arbitrary: j) (auto intro: step_queue_ok)

lemma run_advances: "jam_queue_ok j \<Longrightarrow> advances (jam_queue j) (jam_queue (run xs j))"
  unfolding run_def
proof (induction xs arbitrary: j)
  case (Cons x xs)
  from Cons.IH [OF step_queue_ok [OF Cons.prems]] step_advances [OF Cons.prems]
  show ?case by (auto intro: advances_trans)
qed simp

lemma run_same_jam: "same_jam j (run xs j)"
  unfolding run_def
  by (induction xs arbitrary: j) (auto intro: same_jam_trans step_same_jam)

lemma run_revision:
  "\<exists>n \<le> length xs. jam_queue_revision (run xs j) = jam_queue_revision j + of_nat n
     \<and> (n = 0 \<longrightarrow> jam_queue (run xs j) = jam_queue j)"
  unfolding run_def
proof (induction xs arbitrary: j)
  case (Cons x xs)
  from Cons.IH [of "step x j"] obtain n where n: "n \<le> length xs"
    "jam_queue_revision (fold step xs (step x j)) = jam_queue_revision (step x j) + of_nat n"
    "n = 0 \<longrightarrow> jam_queue (fold step xs (step x j)) = jam_queue (step x j)" by blast
  from step_revision [where j = j and x = x] show ?case
  proof
    assume "jam_queue_revision (step x j) = jam_queue_revision j + 1"
    with n show ?thesis by (intro exI [of _ "Suc n"]) simp
  next
    assume "jam_queue_revision (step x j) = jam_queue_revision j \<and> jam_queue (step x j) = jam_queue j"
    with n show ?thesis by (intro exI [of _ n]) simp
  qed
qed simp

lemma run_revision_detects_change:
  assumes "length xs \<le> u64_max" and "jam_queue_revision (run xs j) = jam_queue_revision j"
  shows "jam_queue (run xs j) = jam_queue j"
proof -
  obtain n where n: "n \<le> length xs" "jam_queue_revision (run xs j) = jam_queue_revision j + of_nat n"
    "n = 0 \<longrightarrow> jam_queue (run xs j) = jam_queue j"
    using run_revision by blast
  with assms(2) have "(of_nat n :: u64) = 0" by simp
  moreover have "n < 2 ^ LENGTH(64)" using n(1) assms(1) by (simp add: u64_max_def)
  ultimately have "n = 0"
    by (metis mod_less unat_of_nat unsigned_0)
  with n(3) show ?thesis by simp
qed

end

lemma same_jam_fields [simp]:
  "same_jam j (bump_queue_revision j') = same_jam j j'"
  "same_jam j (j'\<lparr>jam_queue := q\<rparr>) = same_jam j j'"
  "same_jam j (j'\<lparr>jam_uncertain_skip := b\<rparr>) = same_jam j j'"
  "same_jam j (j'\<lparr>jam_now_playing := np\<rparr>) = same_jam j j'"
  by (simp_all add: same_jam_def bump_queue_revision_def)

lemma uncertain_advances:
  assumes "jam_queue_ok j"
  shows "advances (jam_queue j) (jam_queue (fst (reconcile_uncertain_skip_boundary j u obs)))"
proof (cases "jam_uncertain_skip j")
  case (Some b)
  note ok = assms [unfolded jam_queue_ok_def]
  let ?skip = "apply_successful_skip_to_queue (jam_queue j) (Some (us_pre_skip_current_uri b))
    (us_previous_uri b) (us_same_uri_resolution b)"
  let ?pre = "reconcile_authoritative_pre_skip_current (jam_queue j)
    (Some (us_pre_skip_current_uri b)) (us_previous_uri b) (us_same_uri_resolution b)"
  have "advances (jam_queue j) (fst ?skip)" "advances (jam_queue j) (fst ?pre)"
    by (rule skip_advances [OF ok], rule pre_skip_advances [OF ok])
  then show ?thesis using Some
    by (cases ?skip; cases ?pre)
      (auto simp: reconcile_uncertain_skip_boundary_def Let_def
        split: uncertain_skip_observation_result.splits)
qed (simp add: reconcile_uncertain_skip_boundary_def)

lemma uncertain_same_jam: "same_jam j (fst (reconcile_uncertain_skip_boundary j u obs))"
  by (auto simp: reconcile_uncertain_skip_boundary_def Let_def
      split: option.splits uncertain_skip_observation_result.splits prod.splits)

lemma uncertain_revision:
  "jam_queue_revision (fst (reconcile_uncertain_skip_boundary j u obs)) = jam_queue_revision j + 1
   \<or> (jam_queue_revision (fst (reconcile_uncertain_skip_boundary j u obs)) = jam_queue_revision j
      \<and> jam_queue (fst (reconcile_uncertain_skip_boundary j u obs)) = jam_queue j)"
  by (auto simp: reconcile_uncertain_skip_boundary_def Let_def
      split: option.splits uncertain_skip_observation_result.splits prod.splits
      dest: skip_flag pre_skip_flag)

interpretation uncertain: jam_observation
  "\<lambda>(u, obs) j. fst (reconcile_uncertain_skip_boundary j u obs)"
  by unfold_locales (auto intro: uncertain_advances uncertain_same_jam simp: uncertain_revision
      split: prod.splits)

lemma uncertain_None:
  "reconcile_uncertain_skip_boundary j u obs = (j', None) \<Longrightarrow> j' = j \<and> jam_uncertain_skip j = None"
  by (auto simp: reconcile_uncertain_skip_boundary_def Let_def
      split: option.splits uncertain_skip_observation_result.splits prod.splits)

lemma no_content_cases:
  obtains (fenced) "fst (reconcile_queue_after_no_content j now)
      = fst (reconcile_uncertain_skip_boundary j None None)"
  | (retired) uri q f where "retire_finished_queue_frontier (jam_queue j) uri = (q, f)"
      and "fst (reconcile_queue_after_no_content j now)
        = (if f \<noteq> None then bump_queue_revision (j\<lparr>jam_queue := q\<rparr>) else j\<lparr>jam_queue := q\<rparr>)"
proof (cases "reconcile_uncertain_skip_boundary j None None")
  case (Pair j1 r)
  show ?thesis
  proof (cases r)
    case None
    then have j1: "j1 = j" using Pair uncertain_None by blast
    show ?thesis
    proof (cases "finished_before_no_content j now")
      case None
      with Pair \<open>r = None\<close> j1 show ?thesis
        by (intro fenced) (simp add: reconcile_queue_after_no_content_def)
    next
      case (Some uri)
      obtain q f where "retire_finished_queue_frontier (jam_queue j) uri = (q, f)" by fastforce
      with Some Pair \<open>r = None\<close> j1 show ?thesis
        by (intro retired) (auto simp: reconcile_queue_after_no_content_def Let_def)
    qed
  next
    case (Some x)
    with Pair show ?thesis
      by (intro fenced) (simp add: reconcile_queue_after_no_content_def)
  qed
qed

interpretation no_content: jam_observation "\<lambda>now j. fst (reconcile_queue_after_no_content j now)"
proof (unfold_locales, goal_cases)
  case (1 j now)
  show ?case
  proof (cases rule: no_content_cases [of j now])
    case fenced
    then show ?thesis using uncertain_advances [OF 1] by simp
  next
    case (retired uri q f)
    then show ?thesis
      using retire_finished_advances [of "jam_queue j" uri] 1 by (simp add: jam_queue_ok_def)
  qed
next
  case (2 j now)
  show ?case
    by (cases rule: no_content_cases [of j now]) (simp_all add: uncertain_same_jam)
next
  case (3 now j)
  show ?case
  proof (cases rule: no_content_cases [of j now])
    case fenced
    then show ?thesis using uncertain_revision by simp
  next
    case (retired uri q f)
    then show ?thesis by (auto dest: retire_flags)
  qed
qed

lemma stale_cases:
  "fst (retire_stale_frontier_for_queue_placement j obs now) = j
   \<or> (\<exists>uri q t. retire_finished_queue_frontier (jam_queue j) uri = (q, Some t)
        \<and> fst (retire_stale_frontier_for_queue_placement j obs now)
          = (bump_queue_revision (j\<lparr>jam_queue := q\<rparr>))\<lparr>jam_now_playing := None\<rparr>)"
proof -
  have "retire_stale_frontier_for_queue_placement j obs now = (j, None) \<or>
    (\<exists>uri q t. retire_finished_queue_frontier (jam_queue j) uri = (q, Some t) \<and>
      retire_stale_frontier_for_queue_placement j obs now
        = ((bump_queue_revision (j\<lparr>jam_queue := q\<rparr>))\<lparr>jam_now_playing := None\<rparr>, Some t))"
    unfolding retire_stale_frontier_for_queue_placement_def
    by (auto split: option.splits prod.splits)
  then show ?thesis by fastforce
qed

interpretation stale: jam_observation
  "\<lambda>(obs, now) j. fst (retire_stale_frontier_for_queue_placement j obs now)"
proof (unfold_locales, goal_cases)
  case (1 j x)
  obtain obs now where x: "x = (obs, now)" by (cases x)
  from 1 have ok: "queue_ok (jam_queue j)" by (simp add: jam_queue_ok_def)
  have "advances (jam_queue j) q"
    if "retire_finished_queue_frontier (jam_queue j) uri = (q, t)" for uri q t
    using retire_finished_advances [OF ok, of uri] that by simp
  then show ?case using stale_cases [of j obs now] by (auto simp: x)
next
  case (2 j x)
  obtain obs now where x: "x = (obs, now)" by (cases x)
  show ?case using stale_cases [of j obs now] by (auto simp: x)
next
  case (3 x j)
  obtain obs now where x: "x = (obs, now)" by (cases x)
  show ?case using stale_cases [of j obs now] by (auto simp: x)
qed

lemma mark_stopped_queue [simp]:
  "jam_queue (fst (mark_observed_queue_stopped j)) = jam_queue j"
  "jam_queue_revision (fst (mark_observed_queue_stopped j)) = jam_queue_revision j"
  "same_jam i (fst (mark_observed_queue_stopped j)) = same_jam i j"
  by (simp_all add: mark_observed_queue_stopped_def same_jam_def)

end
