(* ===== verification/JamLifecycle.thy ===== *)
theory JamLifecycle
  imports JamSkipQueue JamBot SpotifyClient
begin

text \<open>
  The life of a Jam (\<open>jam_session.rs\<close>): start, end, the source checks, the guarded Spotify
  operations and Stop. A handler runs on a \<open>world\<close>; each of its \<open>await\<close> points is an argument
  that answers and may change the world, because other tasks run there. The commands sent to
  Spotify and to the source are logged in order in \<open>w_commands\<close>.
\<close>

section \<open>The world of a handler\<close>

datatype spotify_track_placement = StartedCurrent | QueuedNext

datatype command =
    PauseSpotify string
  | ResumeSpotify string
  | PlaceTrack string string spotify_track_placement
  | SkipNext string
  | TransferPlayback string
  | StopBot u64
  | StopSource u64
  | ScheduleAutoEnd u64

record world =
  w_jam :: jam_state
  w_bot :: "(u64 \<times> bool) option"
  w_commands :: "command list"

type_synonym 'a await = "world \<Rightarrow> 'a \<times> world"

definition issue :: "command \<Rightarrow> world \<Rightarrow> world" where
  "issue c w = w\<lparr>w_commands := w_commands w @ [c]\<rparr>"

definition with_jam :: "world \<Rightarrow> (jam_state \<Rightarrow> jam_state) \<Rightarrow> world" where
  "with_jam w f = w\<lparr>w_jam := f (w_jam w)\<rparr>"

lemma world_sel [simp]:
  "w_jam (issue c w) = w_jam w" "w_bot (issue c w) = w_bot w"
  "w_commands (issue c w) = w_commands w @ [c]"
  "w_jam (with_jam w f) = f (w_jam w)" "w_bot (with_jam w f) = w_bot w"
  "w_commands (with_jam w f) = w_commands w"
  by (simp_all add: issue_def with_jam_def)

section \<open>Clearing a Jam\<close>

definition clear_active_jam_state :: "jam_state \<Rightarrow> jam_state" where
  "clear_active_jam_state jam =
     jam\<lparr>jam_active := False, jam_starting := False, jam_host_identity := [],
         jam_host_participant_auth_id := [], jam_queue := [],
         jam_queue_revision := jam_queue_revision jam + 1,
         jam_track_queue_receipts := [], jam_playlist_queue_receipts := [],
         jam_queue_removal_receipts := [], jam_last_history_spotify_id := None,
         jam_last_history_was_echo := False, jam_listeners := [], jam_audio_connections := [],
         jam_now_playing := None, jam_spotify_device_id := None, jam_spotify_device_name := None,
         jam_spotify_is_playing := False,
         jam_queue_control_epoch := jam_queue_control_epoch jam + 1,
         jam_queue_control_stopped := False, jam_uncertain_skip := None,
         jam_audio_expected_since := None\<rparr>"

datatype jam_end_condition = EndActive | EndActiveOrStarting | EndNoListeners

definition jam_end_condition_matches :: "jam_state \<Rightarrow> u64 \<Rightarrow> jam_end_condition \<Rightarrow> bool" where
  "jam_end_condition_matches jam generation condition \<longleftrightarrow>
     jam_generation jam = generation
     \<and> (case condition of
          EndActive \<Rightarrow> jam_active jam
        | EndActiveOrStarting \<Rightarrow> jam_active jam \<or> jam_starting jam
        | EndNoListeners \<Rightarrow> jam_active jam \<and> jam_listeners jam = [])"

definition bound_spotify_device :: "jam_state \<Rightarrow> u64 \<Rightarrow> spotify_device option" where
  "bound_spotify_device jam generation =
     (if jam_generation jam \<noteq> generation then None
      else case jam_spotify_device_id jam of None \<Rightarrow> None
      | Some i \<Rightarrow> Some \<lparr>dev_id = i, dev_name = or_default [] (jam_spotify_device_name jam),
                        dev_is_restricted = False\<rparr>)"

text \<open>The pause is attempted and its result ignored: teardown goes on.\<close>

definition pause_bound_spotify_before_release ::
  "unit await \<Rightarrow> spotify_device option \<Rightarrow> world \<Rightarrow> world" where
  "pause_bound_spotify_before_release pause device w =
     (case device of None \<Rightarrow> w | Some d \<Rightarrow> snd (pause (issue (PauseSpotify (dev_id d)) w)))"

text \<open>\<open>lock\<close> is the wait for the lock of \<open>jam_bot\<close>.\<close>

definition end_jam_generation_locked ::
  "unit await \<Rightarrow> unit await \<Rightarrow> u64 \<Rightarrow> jam_end_condition \<Rightarrow> string option \<Rightarrow> world
   \<Rightarrow> bool \<times> world" where
  "end_jam_generation_locked pause lock generation condition final_error w =
     (if \<not> jam_end_condition_matches (w_jam w) generation condition then (False, w)
      else
        let device = bound_spotify_device (w_jam w) generation;
            w1 = pause_bound_spotify_before_release pause device w
        in if \<not> jam_end_condition_matches (w_jam w1) generation condition then (False, w1)
           else
             let w2 = with_jam w1 (\<lambda>jam. (clear_active_jam_state jam)\<lparr>jam_last_error := final_error\<rparr>);
                 w3 = snd (lock w2)
             in case w_bot w3 of
                  Some (g, _) \<Rightarrow>
                    if g = generation then (True, issue (StopBot g) (w3\<lparr>w_bot := None\<rparr>))
                    else (True, issue (StopSource generation) w3)
                | None \<Rightarrow> (True, issue (StopSource generation) w3))"

section \<open>The source watchdog\<close>

definition active_jam_source_watchdog_error ::
  "(u64 option \<Rightarrow> string) \<Rightarrow> jam_source_snapshot \<Rightarrow> u64 \<Rightarrow> string option" where
  "active_jam_source_watchdog_error show_gen source generation =
     (let unavailable = \<not> snap_connected source \<or> \<not> snap_availability_known source
            \<or> \<not> snap_enabled source \<or> snap_status source = ''error''
            \<or> snap_generation source \<noteq> Some generation
      in if \<not> unavailable then None
         else case snap_error source of
           Some e \<Rightarrow> Some e
         | None \<Rightarrow>
             if snap_generation source \<noteq> Some generation
             then Some (''Jam source lost the active generation binding (expected ''
                    @ nat_to_string (unat generation) @ '', source ''
                    @ show_gen (snap_generation source) @ '')'')
             else Some (''Jam source became unavailable (status: '' @ snap_status source @ '')''))"

definition end_active_jam_if_source_unhealthy ::
  "(u64 option \<Rightarrow> string) \<Rightarrow> jam_source_snapshot await \<Rightarrow> unit await \<Rightarrow> unit await \<Rightarrow> world
   \<Rightarrow> bool \<times> world" where
  "end_active_jam_if_source_unhealthy show_gen snap pause lock w =
     (if \<not> jam_active (w_jam w) then (False, w)
      else
        let generation = jam_generation (w_jam w); (source, w1) = snap w
        in case active_jam_source_watchdog_error show_gen source generation of
             None \<Rightarrow> (False, w1)
           | Some reason \<Rightarrow>
               end_jam_generation_locked pause lock generation EndActive (Some reason) w1)"

definition end_jam_for_source_unavailable ::
  "unit await \<Rightarrow> unit await \<Rightarrow> u64 \<Rightarrow> string \<Rightarrow> world \<Rightarrow> bool \<times> world" where
  "end_jam_for_source_unavailable pause lock generation reason w =
     end_jam_generation_locked pause lock generation EndActiveOrStarting (Some reason) w"

definition end_jam_if_still_empty ::
  "unit await \<Rightarrow> unit await \<Rightarrow> u64 \<Rightarrow> world \<Rightarrow> bool \<times> world" where
  "end_jam_if_still_empty pause lock generation w =
     end_jam_generation_locked pause lock generation EndNoListeners None w"

section \<open>Revoked participants\<close>

record revoked_binding =
  rb_identity :: string
  rb_auth_id :: string

definition revoke_one :: "revoked_binding \<Rightarrow> jam_state \<Rightarrow> jam_state" where
  "revoke_one b jam =
     (let jam1 = (if hm_get (jam_listeners jam) (rb_identity b) = Some (rb_auth_id b)
                  then jam\<lparr>jam_listeners := hm_remove (rb_identity b) (jam_listeners jam)\<rparr> else jam);
          remove_audio =
            (case hm_get (jam_audio_connections jam1) (rb_identity b) of
               None \<Rightarrow> False | Some c \<Rightarrow> ac_participant_auth_id c = rb_auth_id b)
      in if remove_audio
         then jam1\<lparr>jam_audio_connections :=
                hm_remove (rb_identity b) (jam_audio_connections jam1)\<rparr>
         else jam1)"

definition apply_revoked_participant_bindings ::
  "jam_state \<Rightarrow> revoked_binding list \<Rightarrow> jam_state \<times> u64 option \<times> u64 option" where
  "apply_revoked_participant_bindings jam revoked =
     (let host_revoked = jam_active jam \<and>
            list_ex (\<lambda>b. rb_identity b = jam_host_identity jam
                       \<and> rb_auth_id b = jam_host_participant_auth_id jam) revoked;
          jam1 = fold revoke_one revoked jam
      in if host_revoked then (jam1, Some (jam_generation jam1), None)
         else (jam1, None,
               if jam_active jam1 \<and> jam_listeners jam1 = [] then Some (jam_generation jam1)
               else None))"

definition reconcile_revoked_participant_bindings ::
  "unit await \<Rightarrow> unit await \<Rightarrow> revoked_binding list \<Rightarrow> world \<Rightarrow> world" where
  "reconcile_revoked_participant_bindings pause lock revoked w =
     (if revoked = [] then w
      else case apply_revoked_participant_bindings (w_jam w) revoked of
        (jam, Some generation, _) \<Rightarrow>
          snd (end_jam_generation_locked pause lock generation EndActive
                 (Some ''Jam host authorization was revoked'') (w\<lparr>w_jam := jam\<rparr>))
      | (jam, None, Some generation) \<Rightarrow> issue (ScheduleAutoEnd generation) (w\<lparr>w_jam := jam\<rparr>)
      | (jam, None, None) \<Rightarrow> w\<lparr>w_jam := jam\<rparr>)"

section \<open>Readiness of the source\<close>

definition jam_source_start_preflight :: "jam_source_snapshot \<Rightarrow> api_error + unit" where
  "jam_source_start_preflight source =
     (let message =
        (if \<not> snap_configured source then Some ''Jam source is not configured''
         else if \<not> snap_connected source
         then Some (or_default ''Configured Jam source is offline'' (snap_error source))
         else if \<not> snap_availability_known source
         then Some ''Jam source availability is still negotiating''
         else if \<not> snap_enabled source
         then Some (or_default ''Jam sharing is turned off on the source PC'' (snap_error source))
         else if snap_status source = ''error''
         then Some (or_default ''Jam source is unavailable'' (snap_error source))
         else None)
      in case message of Some m \<Rightarrow> Inl (SERVICE_UNAVAILABLE, m) | None \<Rightarrow> Inr ())"

definition jam_source_ready_for_generation :: "jam_source_snapshot \<Rightarrow> u64 \<Rightarrow> bool" where
  "jam_source_ready_for_generation source generation \<longleftrightarrow>
     jam_source_start_preflight source = Inr () \<and> snap_ready source
     \<and> snap_generation source = Some generation"

definition public_source_health ::
  "bool \<Rightarrow> bool \<Rightarrow> u64 option \<Rightarrow> bool \<Rightarrow> string \<Rightarrow> string option \<Rightarrow> string \<times> string option" where
  "public_source_health active spotify_is_playing audio_expected_ms source_ready source_status
     source_error =
     (if active \<and> source_ready \<and> \<not> spotify_is_playing then (''ready'', None)
      else if active \<and> source_ready \<and> source_status \<noteq> ''live''
      then (if (case audio_expected_ms of None \<Rightarrow> False | Some age \<Rightarrow> 5000 < age)
            then (''stalled'',
                  Some ''Spotify is playing but Echo is receiving no audible audio'')
            else (''ready'', None))
      else (source_status, source_error))"

definition should_restart_stalled_capture ::
  "bool \<Rightarrow> bool \<Rightarrow> u64 option \<Rightarrow> string \<Rightarrow> bool" where
  "should_restart_stalled_capture active spotify_is_playing audio_expected_ms raw_source_status \<longleftrightarrow>
     active \<and> spotify_is_playing
     \<and> (case audio_expected_ms of None \<Rightarrow> False | Some age \<Rightarrow> 5000 < age)
     \<and> raw_source_status = ''stalled''"

definition bot_ready_for :: "world \<Rightarrow> u64 \<Rightarrow> bool" where
  "bot_ready_for w generation \<longleftrightarrow>
     (case w_bot w of None \<Rightarrow> False | Some (g, healthy) \<Rightarrow> g = generation \<and> healthy)"

definition ensure_jam_source_ready ::
  "jam_source_snapshot await \<Rightarrow> instant \<Rightarrow> world \<Rightarrow> (api_error + u64) \<times> world" where
  "ensure_jam_source_ready snap now w =
     (let jam = w_jam w in
      if \<not> jam_active jam then (Inl (CONFLICT, ''No active Jam''), w)
      else
        let generation = jam_generation jam;
            (source, w1) = snap w;
            (public_status, public_error) =
              public_source_health True (jam_spotify_is_playing jam)
                (map_option (elapsed_ms now) (jam_audio_expected_since jam))
                (snap_ready source) (snap_status source) (snap_error source)
        in if \<not> snap_ready source \<or> snap_generation source \<noteq> Some generation
              \<or> \<not> bot_ready_for w1 generation
              \<or> \<not> (public_status = ''ready'' \<or> public_status = ''live'')
           then (Inl (SERVICE_UNAVAILABLE,
                   or_default (''Jam audio source is not ready (status: '' @ public_status @ '')'')
                     public_error), w1)
           else (Inr generation, w1))"

definition source_status_allows_recovery_control :: "string \<Rightarrow> bool" where
  "source_status_allows_recovery_control s \<longleftrightarrow>
     s \<in> {''ready'', ''live'', ''silent'', ''stalled''}"

definition ensure_jam_recovery_controls_ready ::
  "jam_source_snapshot await \<Rightarrow> world \<Rightarrow> (api_error + u64) \<times> world" where
  "ensure_jam_recovery_controls_ready snap w =
     (if \<not> jam_active (w_jam w) then (Inl (CONFLICT, ''No active Jam''), w)
      else
        let generation = jam_generation (w_jam w);
            (source, w1) = snap w
        in if \<not> snap_ready source \<or> snap_generation source \<noteq> Some generation
              \<or> \<not> bot_ready_for w1 generation
              \<or> \<not> source_status_allows_recovery_control (snap_status source)
           then (Inl (SERVICE_UNAVAILABLE,
                   or_default (''Jam audio source cannot accept recovery controls (status: ''
                     @ snap_status source @ '')'') (snap_error source)), w1)
           else (Inr generation, w1))"

section \<open>Guarded Spotify operations\<close>

definition apply_spotify_pause_result ::
  "jam_state \<Rightarrow> u64 \<Rightarrow> string \<Rightarrow> instant \<Rightarrow> jam_state \<times> bool" where
  "apply_spotify_pause_result jam generation device_id now =
     (if \<not> active_generation_matches jam generation \<or> jam_spotify_device_id jam \<noteq> Some device_id
      then (jam, False)
      else
        (jam\<lparr>jam_spotify_is_playing := False,
             jam_queue_control_epoch := jam_queue_control_epoch jam + 1,
             jam_queue_stop_epoch := jam_queue_stop_epoch jam + 1,
             jam_queue_control_stopped := True,
             jam_audio_expected_since := None,
             jam_last_error := None,
             jam_now_playing :=
               map_option (\<lambda>np. np\<lparr>np_is_playing := False, np_fetched_at := Some now\<rparr>)
                 (jam_now_playing jam)\<rparr>, True))"

definition pause_and_mark_spotify_safety_stop ::
  "unit await \<Rightarrow> instant \<Rightarrow> u64 \<Rightarrow> spotify_device \<Rightarrow> string \<Rightarrow> world \<Rightarrow> world" where
  "pause_and_mark_spotify_safety_stop pause now generation device error w =
     (let w1 = pause_bound_spotify_before_release pause (Some device) w
      in case apply_spotify_pause_result (w_jam w1) generation (dev_id device) now of
           (jam, True) \<Rightarrow> w1\<lparr>w_jam := jam\<lparr>jam_last_error := Some error\<rparr>\<rparr>
         | (_, False) \<Rightarrow> w1)"

text \<open>
  What \<open>tokio::select!\<close> between the operation under its timeout and the loss of the controls
  comes to; the loss carries the error of the check that saw it.
\<close>

datatype 'r select_outcome = OpFinished 'r | OpDeadline | ControlsLost status string

text \<open>The surroundings of a guarded operation: the operation, the last check and the safety pause.\<close>

record 'r guard_env =
  ge_op :: "'r select_outcome await"
  ge_snap :: "jam_source_snapshot await"
  ge_pause :: "unit await"
  ge_now :: instant

definition deadline_message :: "string \<Rightarrow> string" where
  "deadline_message operation_name =
     operation_name @ '' exceeded the 15s source-safety deadline''"

definition run_guarded_spotify_recovery_operation ::
  "(api_error + 'r) guard_env \<Rightarrow> u64 \<Rightarrow> spotify_device \<Rightarrow> string \<Rightarrow> world
   \<Rightarrow> (api_error + 'r) \<times> world" where
  "run_guarded_spotify_recovery_operation env generation device operation_name w =
     (let safety = (\<lambda>e w. (Inl e,
            pause_and_mark_spotify_safety_stop (ge_pause env) (ge_now env) generation device
              (snd e) w));
          (outcome, w1) = ge_op env w
      in case outcome of
           OpDeadline \<Rightarrow> safety (SERVICE_UNAVAILABLE, deadline_message operation_name) w1
         | ControlsLost s m \<Rightarrow> safety (s, m) w1
         | OpFinished result \<Rightarrow>
            (case ensure_jam_recovery_controls_ready (ge_snap env) w1 of
               (Inr current, w2) \<Rightarrow>
                 if current = generation then (result, w2)
                 else safety (CONFLICT, ''Jam generation changed during Spotify control'') w2
             | (Inl e, w2) \<Rightarrow> safety e w2))"

definition run_guarded_spotify_recovery_read ::
  "(api_error + 'r) guard_env \<Rightarrow> u64 \<Rightarrow> string \<Rightarrow> world \<Rightarrow> (api_error + 'r) \<times> world" where
  "run_guarded_spotify_recovery_read env generation operation_name w =
     (let (outcome, w1) = ge_op env w
      in case outcome of
           OpDeadline \<Rightarrow> (Inl (SERVICE_UNAVAILABLE, deadline_message operation_name), w1)
         | ControlsLost s m \<Rightarrow> (Inl (s, m), w1)
         | OpFinished result \<Rightarrow>
            (case ensure_jam_recovery_controls_ready (ge_snap env) w1 of
               (Inr current, w2) \<Rightarrow>
                 if current = generation then (result, w2)
                 else (Inl (CONFLICT, ''Jam generation changed during Spotify observation''), w2)
             | (Inl e, w2) \<Rightarrow> (Inl e, w2)))"

end
