(* ===== verification/JamHandlers.thy ===== *)
theory JamHandlers
  imports JamLifecycle
begin

text \<open>
  The handlers that start, stop, join and leave a Jam, and the listeners' audio connections
  (\<open>jam_session.rs\<close>). What \<open>ensure_admin\<close> and \<open>ensure_jam_participant\<close> answer is an argument:
  the status they refuse with, or the participant's identity and installation.
\<close>

section \<open>Starting\<close>

definition next_generation :: "u64 \<Rightarrow> u64" where
  "next_generation g = max (g + 1) 1"

definition fail_jam_start :: "u64 \<Rightarrow> string \<Rightarrow> jam_state \<Rightarrow> jam_state" where
  "fail_jam_start generation error jam =
     (if jam_generation jam = generation \<and> jam_starting jam
      then jam\<lparr>jam_starting := False, jam_active := False, jam_last_error := Some error,
               jam_spotify_is_playing := False, jam_audio_expected_since := None\<rparr>
      else jam)"

definition apply_jam_start_result ::
  "jam_state \<Rightarrow> string \<Rightarrow> string \<Rightarrow> bool \<Rightarrow> jam_state \<times> bool" where
  "apply_jam_start_result jam identity participant_auth_id bot_started =
     (let jam1 = jam\<lparr>jam_starting := False\<rparr> in
      if \<not> bot_started then (jam1, False)
      else (jam1\<lparr>jam_active := True, jam_host_identity := identity,
                 jam_host_participant_auth_id := participant_auth_id,
                 jam_audio_connections := [],
                 jam_listeners := hm_insert identity participant_auth_id (jam_listeners jam1)\<rparr>,
            True))"

text \<open>The await points of \<open>jam_start\<close>, in their order.\<close>

datatype bind_outcome = BindFinished "api_error + spotify_bound_playback" | BindDeadline
  | BindSourceLost string

record start_env =
  se_snap_before :: "jam_source_snapshot await"
  se_resolve :: "(api_error + spotify_device) await"
  se_lock_stale :: "unit await"
  se_stop_bot :: "unit await"
  se_start_bot :: "(string + unit) await"
  se_snap_transfer :: "jam_source_snapshot await"
  se_bind :: "bind_outcome await"
  se_pause :: "unit await"
  se_snap_after :: "jam_source_snapshot await"
  se_bot_healthy :: bool
  se_lock_bot :: "unit await"
  se_binding_current :: bool
  se_now :: instant

definition stop_bot :: "start_env \<Rightarrow> u64 \<Rightarrow> world \<Rightarrow> world" where
  "stop_bot env g w = snd (se_stop_bot env (issue (StopBot g) w))"

definition take_bot :: "start_env \<Rightarrow> unit await \<Rightarrow> world \<Rightarrow> world" where
  "take_bot env lock w =
     (let w1 = snd (lock w) in
      case w_bot w1 of None \<Rightarrow> w1 | Some (g, _) \<Rightarrow> stop_bot env g (w1\<lparr>w_bot := None\<rparr>))"

text \<open>The last step: the Jam becomes active only if it is still the one being started.\<close>

definition activate_jam ::
  "start_env \<Rightarrow> u64 \<Rightarrow> string \<Rightarrow> string \<Rightarrow> spotify_device \<Rightarrow> bool \<Rightarrow> jam_state
   \<Rightarrow> jam_state \<times> bool" where
  "activate_jam env generation identity auth_id device is_playing jam =
     (if jam_generation jam \<noteq> generation \<or> \<not> jam_starting jam \<or> \<not> se_binding_current env
      then (if jam_generation jam = generation \<and> jam_starting jam
            then jam\<lparr>jam_starting := False,
                     jam_last_error := Some ''Jam host authorization changed during startup''\<rparr>
            else jam, False)
      else
        ((fst (apply_jam_start_result jam identity auth_id True))
           \<lparr>jam_spotify_device_id := Some (dev_id device),
            jam_spotify_device_name := Some (dev_name device),
            jam_spotify_is_playing := is_playing,
            jam_queue_control_epoch := jam_queue_control_epoch jam + 1,
            jam_queue_control_stopped := False,
            jam_audio_expected_since := (if is_playing then Some (se_now env) else None)\<rparr>, True))"

text \<open>
  The transfer of playback and the checks after it. A failed bind may still have reached Spotify,
  so every failure from here on pauses the device before the source is released. The log has
  \<open>TransferPlayback\<close> where the bind, which may transfer playback, is entered.
\<close>

definition start_transfer ::
  "start_env \<Rightarrow> u64 \<Rightarrow> string \<Rightarrow> string \<Rightarrow> spotify_device \<Rightarrow> world \<Rightarrow> (api_error + u64) \<times> world" where
  "start_transfer env generation identity auth_id device w =
     (let fail = (\<lambda>e w. (Inl e, with_jam w (fail_jam_start generation (snd e))));
          (bound, w1) = se_bind env (issue (TransferPlayback (dev_id device)) w);
          release = (\<lambda>w. stop_bot env generation
            (pause_bound_spotify_before_release (se_pause env) (Some device) w));
          bind_result = (case bound of
              BindFinished r \<Rightarrow> r
            | BindDeadline \<Rightarrow>
                Inl (SERVICE_UNAVAILABLE, ''Spotify startup exceeded the 15s safety deadline'')
            | BindSourceLost reason \<Rightarrow> Inl (SERVICE_UNAVAILABLE, reason))
      in case bind_result of
           Inl error \<Rightarrow> fail error (release w1)
         | Inr playback \<Rightarrow>
        let (source_after, w2) = se_snap_after env w1
        in if \<not> jam_source_ready_for_generation source_after generation \<or> \<not> se_bot_healthy env
           then fail (SERVICE_UNAVAILABLE,
                  ''Jam source changed while Spotify playback was transferring'') (release w2)
           else
        let w3 = (snd (se_lock_bot env w2))\<lparr>w_bot := Some (generation, True)\<rparr>
        in case activate_jam env generation identity auth_id device (bp_is_playing playback)
                  (w_jam w3) of
             (jam, True) \<Rightarrow> (Inr generation, w3\<lparr>w_jam := jam\<rparr>)
           | (jam, False) \<Rightarrow>
               let w4 = pause_bound_spotify_before_release (se_pause env) (Some device)
                          (w3\<lparr>w_jam := jam\<rparr>)
               in (Inl (CONFLICT, ''Jam start was superseded''),
                   take_bot env (se_lock_bot env) w4))"

text \<open>After the device is known: a stale bot is stopped, the new one started and checked.\<close>

definition start_with_device ::
  "start_env \<Rightarrow> u64 \<Rightarrow> string \<Rightarrow> string \<Rightarrow> spotify_device \<Rightarrow> world \<Rightarrow> (api_error + u64) \<times> world" where
  "start_with_device env generation identity auth_id device w =
     (let fail = (\<lambda>e w. (Inl e, with_jam w (fail_jam_start generation (snd e))));
          w1 = take_bot env (se_lock_stale env) w;
          (bot_started, w2) = se_start_bot env w1
      in case bot_started of
           Inl error \<Rightarrow> fail (SERVICE_UNAVAILABLE, error) w2
         | Inr _ \<Rightarrow>
        let (source, w3) = se_snap_transfer env w2
        in case jam_source_start_preflight source of
             Inl error \<Rightarrow> fail error (stop_bot env generation w3)
           | Inr _ \<Rightarrow>
        if \<not> jam_source_ready_for_generation source generation
        then fail (SERVICE_UNAVAILABLE,
               ''Jam source changed before Spotify playback could be transferred'')
               (stop_bot env generation w3)
        else start_transfer env generation identity auth_id device w3)"

definition begin_start :: "jam_state \<Rightarrow> api_error + jam_state" where
  "begin_start jam =
     (if jam_spotify_token jam = None then Inl (BAD_REQUEST, ''Spotify is not connected'')
      else if jam_active jam \<or> jam_starting jam then Inl (CONFLICT, ''A Jam is already running'')
      else Inr (jam\<lparr>jam_starting := True,
                    jam_generation := next_generation (jam_generation jam),
                    jam_last_error := None\<rparr>))"

definition jam_start ::
  "start_env \<Rightarrow> status option \<Rightarrow> string \<Rightarrow> status + string \<times> string option \<Rightarrow> world
   \<Rightarrow> (api_error + u64) \<times> world" where
  "jam_start env admin_refused identity participant w =
     (case admin_refused of Some s \<Rightarrow> (Inl (s, []), w)
      | None \<Rightarrow>
      if blank identity then (Inl (BAD_REQUEST, ''Identity is required''), w)
      else case participant of
        Inl s \<Rightarrow> (Inl (s, []), w)
      | Inr (_, None) \<Rightarrow> (Inl (UNAUTHORIZED, []), w)
      | Inr (actor_identity, Some actor_auth_id) \<Rightarrow>
      let (source, w1) = se_snap_before env w
      in case jam_source_start_preflight source of
           Inl e \<Rightarrow> (Inl e, w1)
         | Inr _ \<Rightarrow>
        (case begin_start (w_jam w1) of
           Inl e \<Rightarrow> (Inl e, w1)
         | Inr jam \<Rightarrow>
             let generation = jam_generation jam;
                 (resolved, w2) = se_resolve env (w1\<lparr>w_jam := jam\<rparr>)
             in case resolved of
                  Inl error \<Rightarrow>
                    (Inl error, with_jam w2 (fail_jam_start generation (snd error)))
                | Inr device \<Rightarrow>
                    start_with_device env generation actor_identity actor_auth_id device w2))"

section \<open>Stopping\<close>

definition jam_stop_authorized :: "jam_state \<Rightarrow> string \<Rightarrow> string \<Rightarrow> bool" where
  "jam_stop_authorized jam identity participant_auth_id \<longleftrightarrow>
     \<not> blank identity \<and> jam_host_identity jam \<noteq> [] \<and> identity = jam_host_identity jam
     \<and> participant_auth_id = jam_host_participant_auth_id jam"

text \<open>What the four handlers of a participant check first.\<close>

definition checked_participant ::
  "status option \<Rightarrow> string \<Rightarrow> status + string \<times> string option \<Rightarrow> status + string \<times> string" where
  "checked_participant admin_refused identity participant =
     (case admin_refused of Some s \<Rightarrow> Inl s
      | None \<Rightarrow>
          if blank identity then Inl BAD_REQUEST
          else case participant of
            Inl s \<Rightarrow> Inl s
          | Inr (_, None) \<Rightarrow> Inl UNAUTHORIZED
          | Inr (sub, Some auth_id) \<Rightarrow> Inr (sub, auth_id))"

definition jam_stop ::
  "unit await \<Rightarrow> unit await \<Rightarrow> status option \<Rightarrow> string \<Rightarrow> u64
   \<Rightarrow> status + string \<times> string option \<Rightarrow> world \<Rightarrow> (status + unit) \<times> world" where
  "jam_stop pause lock admin_refused identity generation participant w =
     (case checked_participant admin_refused identity participant of
        Inl s \<Rightarrow> (Inl s, w)
      | Inr (sub, auth_id) \<Rightarrow>
          if \<not> active_generation_matches (w_jam w) generation then (Inl CONFLICT, w)
          else if \<not> jam_stop_authorized (w_jam w) sub auth_id then (Inl FORBIDDEN, w)
          else case end_jam_generation_locked pause lock generation EndActive None w of
            (ended, w1) \<Rightarrow> (if ended then Inr () else Inl CONFLICT, w1))"

definition queue_error :: "status \<Rightarrow> string \<Rightarrow> string \<Rightarrow> jam_api_error" where
  "queue_error s code message =
     \<lparr>ae_status = s, ae_code = code, ae_message = message, ae_retry_after = None\<rparr>"

definition spotify_queue_error :: "string option \<Rightarrow> status \<Rightarrow> string \<Rightarrow> string \<Rightarrow> jam_api_error" where
  "spotify_queue_error retry_after s code message =
     (if s = TOO_MANY_REQUESTS
      then (queue_error s code message)\<lparr>ae_retry_after := retry_after\<rparr>
      else queue_error s code message)"

text \<open>\<open>pause\<close> is the pause request with its answer; \<open>retry\<close> the rate limit when it failed.\<close>

definition jam_stop_playback ::
  "(api_error + unit) await \<Rightarrow> string option \<Rightarrow> instant \<Rightarrow> status option \<Rightarrow> status option
   \<Rightarrow> u64 \<Rightarrow> world \<Rightarrow> (jam_api_error + string) \<times> world" where
  "jam_stop_playback pause retry now admin_refused participant_refused generation w =
     (case admin_refused of
        Some s \<Rightarrow> (Inl (queue_error s ''unauthorized'' ''Authentication required''), w)
      | None \<Rightarrow>
     (case participant_refused of
        Some s \<Rightarrow>
          (Inl (queue_error s ''participant_required''
                  ''A current Echo participant token is required''), w)
      | None \<Rightarrow>
          if \<not> active_generation_matches (w_jam w) generation
          then (Inl (queue_error CONFLICT ''generation_changed'' ''Jam generation changed''), w)
          else case bound_spotify_device (w_jam w) generation of
            None \<Rightarrow> (Inl (queue_error SERVICE_UNAVAILABLE ''spotify_device_unavailable''
                           ''The active Jam has no bound Spotify device''), w)
          | Some device \<Rightarrow>
             (case pause (issue (PauseSpotify (dev_id device)) w) of
                (Inl (s, m), w1) \<Rightarrow>
                  (Inl (spotify_queue_error retry s ''spotify_pause_failed'' m), w1)
              | (Inr _, w1) \<Rightarrow>
                 (case apply_spotify_pause_result (w_jam w1) generation (dev_id device) now of
                    (_, False) \<Rightarrow>
                      (Inl (queue_error CONFLICT ''generation_changed''
                              ''Jam changed while Spotify playback was stopping''), w1)
                  | (jam, True) \<Rightarrow> (Inr (dev_name device), w1\<lparr>w_jam := jam\<rparr>)))))"

section \<open>Joining and leaving\<close>

definition jam_join ::
  "jam_source_snapshot await \<Rightarrow> instant \<Rightarrow> status option \<Rightarrow> string \<Rightarrow> u64
   \<Rightarrow> status + string \<times> string option \<Rightarrow> world \<Rightarrow> (status + unit) \<times> world" where
  "jam_join snap now admin_refused identity generation participant w =
     (case checked_participant admin_refused identity participant of
        Inl s \<Rightarrow> (Inl s, w)
      | Inr (sub, auth_id) \<Rightarrow>
          if \<not> active_generation_matches (w_jam w) generation then (Inl CONFLICT, w)
          else case ensure_jam_source_ready snap now w of
            (Inl (s, _), w1) \<Rightarrow> (Inl s, w1)
          | (Inr current, w1) \<Rightarrow>
              if current \<noteq> generation then (Inl CONFLICT, w1)
              else if \<not> active_generation_matches (w_jam w1) current then (Inl CONFLICT, w1)
              else (Inr (), with_jam w1 (\<lambda>jam.
                      jam\<lparr>jam_listeners := hm_insert sub auth_id (jam_listeners jam)\<rparr>)))"

definition jam_leave ::
  "status option \<Rightarrow> string \<Rightarrow> u64 \<Rightarrow> status + string \<times> string option \<Rightarrow> world
   \<Rightarrow> (status + unit) \<times> world" where
  "jam_leave admin_refused identity generation participant w =
     (case checked_participant admin_refused identity participant of
        Inl s \<Rightarrow> (Inl s, w)
      | Inr (sub, auth_id) \<Rightarrow>
          if \<not> active_generation_matches (w_jam w) generation then (Inl CONFLICT, w)
          else
            let jam = revoke_one \<lparr>rb_identity = sub, rb_auth_id = auth_id\<rparr> (w_jam w);
                w1 = w\<lparr>w_jam := jam\<rparr>
            in (Inr (), if jam_active jam \<and> jam_listeners jam = []
                        then issue (ScheduleAutoEnd (jam_generation jam)) w1 else w1))"

definition jam_auto_end_matches :: "jam_state \<Rightarrow> u64 \<Rightarrow> bool" where
  "jam_auto_end_matches jam generation \<longleftrightarrow>
     jam_active jam \<and> jam_generation jam = generation \<and> jam_listeners jam = []"

section \<open>Audio connections\<close>

definition listener_protocol_is_current ::
  "(string \<Rightarrow> nat option) \<Rightarrow> (string, string) hash_map \<Rightarrow> bool" where
  "listener_protocol_is_current parse_u8 params \<longleftrightarrow>
     length params = 2
     \<and> Option.bind (hm_get params ''jam_protocol_version'') parse_u8
         = Some JAM_SOURCE_PROTOCOL_VERSION
     \<and> hm_get params ''generation'' \<noteq> None"

definition listener_attachment_allowed :: "jam_state \<Rightarrow> string \<Rightarrow> string \<Rightarrow> u64 \<Rightarrow> bool" where
  "listener_attachment_allowed jam identity participant_auth_id generation \<longleftrightarrow>
     jam_active jam \<and> jam_generation jam = generation
     \<and> hm_get (jam_listeners jam) identity = Some participant_auth_id"

text \<open>\<open>binding\<close> is the installation bound to the identity, read under the bindings' lock.\<close>

definition register_audio_connection ::
  "jam_state \<Rightarrow> string option \<Rightarrow> string \<Rightarrow> string \<Rightarrow> u64 \<Rightarrow> jam_state \<times> u64 option" where
  "register_audio_connection jam binding identity participant_auth_id generation =
     (if binding \<noteq> Some participant_auth_id then (jam, None)
      else if \<not> listener_attachment_allowed jam identity participant_auth_id generation
      then (jam, None)
      else
        let connection_id = next_generation (jam_next_audio_connection_id jam)
        in (jam\<lparr>jam_next_audio_connection_id := connection_id,
                jam_audio_connections := hm_insert identity
                  \<lparr>ac_participant_auth_id = participant_auth_id, ac_generation = generation,
                   ac_connection_id = connection_id\<rparr> (jam_audio_connections jam)\<rparr>,
            Some connection_id))"

definition audio_connection_matches ::
  "jam_state \<Rightarrow> string \<Rightarrow> string \<Rightarrow> u64 \<Rightarrow> u64 \<Rightarrow> bool" where
  "audio_connection_matches jam identity participant_auth_id generation connection_id \<longleftrightarrow>
     (case hm_get (jam_audio_connections jam) identity of None \<Rightarrow> False
      | Some c \<Rightarrow> ac_participant_auth_id c = participant_auth_id
                \<and> ac_generation c = generation \<and> ac_connection_id c = connection_id)"

definition audio_connection_is_current ::
  "jam_state \<Rightarrow> string option \<Rightarrow> string \<Rightarrow> string \<Rightarrow> u64 \<Rightarrow> u64 \<Rightarrow> bool" where
  "audio_connection_is_current jam binding identity participant_auth_id generation connection_id \<longleftrightarrow>
     binding = Some participant_auth_id
     \<and> listener_attachment_allowed jam identity participant_auth_id generation
     \<and> audio_connection_matches jam identity participant_auth_id generation connection_id"

definition unregister_audio_connection_from_jam ::
  "jam_state \<Rightarrow> string \<Rightarrow> string \<Rightarrow> u64 \<Rightarrow> u64 \<Rightarrow> jam_state \<times> bool" where
  "unregister_audio_connection_from_jam jam identity participant_auth_id generation connection_id =
     (if audio_connection_matches jam identity participant_auth_id generation connection_id
      then (jam\<lparr>jam_audio_connections := hm_remove identity (jam_audio_connections jam)\<rparr>, True)
      else (jam, False))"

section \<open>What a handler may assume of an await\<close>

text \<open>
  The handlers that change the life of a Jam hold the lock \<open>jam_lifecycle\<close>, and every other task
  that would change it, or change what Spotify plays, waits for that lock. So an await may change
  everything but \<open>lifecycle\<close>, and may only add pauses and timers to the log.
\<close>

definition lifecycle :: "world \<Rightarrow> bool \<times> bool \<times> u64 \<times> string option" where
  "lifecycle w = (jam_active (w_jam w), jam_starting (w_jam w), jam_generation (w_jam w),
     jam_spotify_device_id (w_jam w))"

definition harmless :: "command \<Rightarrow> bool" where
  "harmless c \<longleftrightarrow> (case c of PauseSpotify _ \<Rightarrow> True | ScheduleAutoEnd _ \<Rightarrow> True | _ \<Rightarrow> False)"

definition fenced :: "'a await \<Rightarrow> bool" where
  "fenced e \<longleftrightarrow> (\<forall>w. lifecycle (snd (e w)) = lifecycle w
     \<and> (\<exists>added. w_commands (snd (e w)) = w_commands w @ added \<and> list_all harmless added))"

text \<open>
  \<open>release_scan\<close> reads a log: None once the source was released while Spotify may have been
  playing to it, otherwise whether Spotify may be playing now.
\<close>

fun release_step :: "command \<Rightarrow> bool \<Rightarrow> bool option" where
  "release_step (PauseSpotify _) playing = Some False"
| "release_step (ScheduleAutoEnd _) playing = Some playing"
| "release_step (StopBot _) playing = (if playing then None else Some False)"
| "release_step (StopSource _) playing = (if playing then None else Some False)"
| "release_step _ playing = Some True"

fun release_scan :: "command list \<Rightarrow> bool \<Rightarrow> bool option" where
  "release_scan [] playing = Some playing"
| "release_scan (c # cs) playing = Option.bind (release_step c playing) (release_scan cs)"

lemma release_scan_append:
  "release_scan (xs @ ys) b = Option.bind (release_scan xs b) (release_scan ys)"
proof (induction xs arbitrary: b)
  case (Cons c xs)
  then show ?case by (cases "release_step c b") simp_all
qed simp

lemma release_scan_harmless:
  "list_all harmless added \<Longrightarrow> \<exists>b'. release_scan added b = Some b' \<and> (b' \<longrightarrow> b)"
proof (induction added arbitrary: b)
  case (Cons c added)
  then have IH: "\<exists>b'. release_scan added b1 = Some b' \<and> (b' \<longrightarrow> b1)" for b1 by simp
  from Cons.prems show ?case
    using IH [of b] IH [of False] by (cases c) (auto simp: harmless_def)
qed simp

definition scan :: "world \<Rightarrow> bool option" where
  "scan w = release_scan (w_commands w) False"

definition quiet :: "world \<Rightarrow> bool" where
  "quiet w \<longleftrightarrow> scan w = Some False"

lemma scan_issue [simp]: "scan (issue c w) = Option.bind (scan w) (release_step c)"
proof (cases "release_scan (w_commands w) False")
  case (Some b)
  then show ?thesis by (cases "release_step c b") (simp_all add: scan_def release_scan_append)
qed (simp add: scan_def release_scan_append)

lemma scan_with_jam [simp]: "scan (with_jam w f) = scan w" "scan (w\<lparr>w_jam := j\<rparr>) = scan w"
  "scan (w\<lparr>w_bot := b\<rparr>) = scan w"
  by (simp_all add: scan_def)

lemma lifecycle_simps [simp]:
  "lifecycle (issue c w) = lifecycle w" "lifecycle (w\<lparr>w_bot := b\<rparr>) = lifecycle w"
  by (simp_all add: lifecycle_def issue_def)

lemma fenced_lifecycle: "fenced e \<Longrightarrow> lifecycle (snd (e w)) = lifecycle w"
  by (simp add: fenced_def)

lemma fenced_step:
  assumes "fenced e" and "scan w = Some b"
  shows "\<exists>b'. scan (snd (e w)) = Some b' \<and> (b' \<longrightarrow> b)"
proof -
  obtain added where "w_commands (snd (e w)) = w_commands w @ added" "list_all harmless added"
    using assms(1) by (auto simp: fenced_def)
  with assms(2) show ?thesis
    using release_scan_harmless [of added b] by (simp add: scan_def release_scan_append)
qed

lemma fenced_quiet: "fenced e \<Longrightarrow> quiet w \<Longrightarrow> quiet (snd (e w))"
  using fenced_step [of e w False] by (auto simp: quiet_def)

lemma fenced_scan: "fenced e \<Longrightarrow> scan w \<noteq> None \<Longrightarrow> scan (snd (e w)) \<noteq> None"
  using fenced_step by fastforce

lemma pause_quiet:
  assumes "fenced pause" and "scan w \<noteq> None"
  shows "quiet (pause_bound_spotify_before_release pause (Some d) w)"
proof -
  have "quiet (issue (PauseSpotify (dev_id d)) w)" using assms(2) by (auto simp: quiet_def)
  then show ?thesis
    using fenced_quiet [OF assms(1)] by (simp add: pause_bound_spotify_before_release_def)
qed

lemma pause_lifecycle:
  "fenced pause \<Longrightarrow> lifecycle (pause_bound_spotify_before_release pause d w) = lifecycle w"
  by (simp add: pause_bound_spotify_before_release_def fenced_lifecycle split: option.split)

section \<open>Ending\<close>

lemma end_not_ended:
  assumes "fenced pause" and "end_jam_generation_locked pause lock g c e w = (False, w')"
  shows "lifecycle w' = lifecycle w"
  using assms by (auto simp: end_jam_generation_locked_def Let_def pause_lifecycle
      split: if_splits option.splits prod.splits)

lemma clear_lifecycle:
  "lifecycle (with_jam w (\<lambda>jam. (clear_active_jam_state jam)\<lparr>jam_last_error := e\<rparr>))
     = (False, False, jam_generation (w_jam w), None)"
  by (simp add: lifecycle_def clear_active_jam_state_def)

lemma end_ended:
  assumes "fenced pause" and "fenced lock"
    and "end_jam_generation_locked pause lock g c e w = (True, w')"
  shows "jam_end_condition_matches (w_jam w) g c" and "lifecycle w' = (False, False, g, None)"
    and "\<exists>stop. last (w_commands w') = stop \<and> stop \<in> {StopBot g, StopSource g}"
proof -
  let ?w1 = "pause_bound_spotify_before_release pause (bound_spotify_device (w_jam w) g) w"
  let ?w2 = "with_jam ?w1 (\<lambda>jam. (clear_active_jam_state jam)\<lparr>jam_last_error := e\<rparr>)"
  from assms(3) show m: "jam_end_condition_matches (w_jam w) g c"
    by (auto simp: end_jam_generation_locked_def Let_def split: if_splits)
  then have g: "jam_generation (w_jam w) = g" by (simp add: jam_end_condition_matches_def)
  have "jam_generation (w_jam ?w1) = g"
    using pause_lifecycle [OF assms(1), of "bound_spotify_device (w_jam w) g" w] g
    by (simp add: lifecycle_def)
  then have l3: "lifecycle (snd (lock ?w2)) = (False, False, g, None)"
    using fenced_lifecycle [OF assms(2)] clear_lifecycle by metis
  from assms(3) have w': "w' \<in> {issue (StopBot g) ((snd (lock ?w2))\<lparr>w_bot := None\<rparr>),
      issue (StopSource g) (snd (lock ?w2))}"
    by (auto simp: end_jam_generation_locked_def Let_def split: if_splits option.splits prod.splits)
  with l3 show "lifecycle w' = (False, False, g, None)" by auto
  from w' show "\<exists>stop. last (w_commands w') = stop \<and> stop \<in> {StopBot g, StopSource g}" by auto
qed

lemma end_releases_after_pause:
  assumes "fenced pause" and "fenced lock" and "jam_spotify_device_id (w_jam w) \<noteq> None"
    and "scan w \<noteq> None" and "end_jam_generation_locked pause lock g c e w = (r, w')"
  shows "scan w' \<noteq> None" and "r \<Longrightarrow> quiet w'"
proof -
  let ?w1 = "pause_bound_spotify_before_release pause (bound_spotify_device (w_jam w) g) w"
  let ?w2 = "with_jam ?w1 (\<lambda>jam. (clear_active_jam_state jam)\<lparr>jam_last_error := e\<rparr>)"
  have "quiet ?w1" if "jam_generation (w_jam w) = g"
    using assms(3) that pause_quiet [OF assms(1) assms(4)]
    by (auto simp: bound_spotify_device_def)
  moreover have "quiet (snd (lock ?w2))" if "quiet ?w1"
    using that by (intro fenced_quiet [OF assms(2)]) (simp add: quiet_def)
  ultimately show "scan w' \<noteq> None" "r \<Longrightarrow> quiet w'"
    using assms(4,5)
    by (auto simp: end_jam_generation_locked_def Let_def jam_end_condition_matches_def quiet_def
        split: if_splits option.splits prod.splits)
qed

section \<open>Starting\<close>

definition fenced_env :: "start_env \<Rightarrow> bool" where
  "fenced_env env \<longleftrightarrow> fenced (se_snap_before env) \<and> fenced (se_resolve env)
     \<and> fenced (se_lock_stale env) \<and> fenced (se_stop_bot env) \<and> fenced (se_start_bot env)
     \<and> fenced (se_snap_transfer env) \<and> fenced (se_bind env) \<and> fenced (se_pause env)
     \<and> fenced (se_snap_after env) \<and> fenced (se_lock_bot env)"

text \<open>\<open>at l w\<close>: the lifecycle is \<open>l\<close> and no released source may still be playing.\<close>

definition at :: "bool \<times> bool \<times> u64 \<times> string option \<Rightarrow> world \<Rightarrow> bool" where
  "at l w \<longleftrightarrow> lifecycle w = l \<and> quiet w"

lemma fenced_at: "fenced e \<Longrightarrow> at l w \<Longrightarrow> at l (snd (e w))"
  by (simp add: at_def fenced_lifecycle fenced_quiet)

lemma fenced_at': "fenced e \<Longrightarrow> at l w \<Longrightarrow> e w = (a, w') \<Longrightarrow> at l w'"
  using fenced_at [of e l w] by simp

lemma stop_bot_at: "fenced_env env \<Longrightarrow> at l w \<Longrightarrow> at l (stop_bot env g w)"
  unfolding stop_bot_def fenced_env_def
  by (intro fenced_at) (auto simp: at_def quiet_def)

lemma take_bot_at: "fenced_env env \<Longrightarrow> fenced lock \<Longrightarrow> at l w \<Longrightarrow> at l (take_bot env lock w)"
  using fenced_at [of lock l w] stop_bot_at [of env l]
  by (auto simp: take_bot_def Let_def at_def quiet_def split: option.split)

lemma fail_at:
  "at (False, True, g, d) w \<Longrightarrow> at (False, False, g, d) (with_jam w (fail_jam_start g m))"
  by (simp add: at_def lifecycle_def fail_jam_start_def quiet_def)

lemma release_at:
  assumes "fenced_env env" and "lifecycle w = l" and "scan w \<noteq> None"
  shows "at l (stop_bot env g (pause_bound_spotify_before_release (se_pause env) (Some d) w))"
  using assms
  by (intro stop_bot_at) (auto simp: at_def fenced_env_def pause_lifecycle intro!: pause_quiet)

definition started :: "string \<Rightarrow> string \<Rightarrow> spotify_device \<Rightarrow> jam_state \<Rightarrow> bool" where
  "started identity auth_id device jam \<longleftrightarrow> jam_host_identity jam = identity
     \<and> jam_host_participant_auth_id jam = auth_id
     \<and> hm_get (jam_listeners jam) identity = Some auth_id
     \<and> jam_spotify_device_id jam = Some (dev_id device) \<and> jam_audio_connections jam = []"

lemma activate_cases:
  assumes "lifecycle w = (False, True, g, d)"
    and "activate_jam env g identity auth_id device playing (w_jam w) = (jam, ok)"
  shows "ok \<Longrightarrow> lifecycle (w\<lparr>w_jam := jam\<rparr>) = (True, False, g, Some (dev_id device))
      \<and> started identity auth_id device jam"
    and "\<not> ok \<Longrightarrow> lifecycle (w\<lparr>w_jam := jam\<rparr>) = (False, False, g, d)"
  using assms by (auto simp: lifecycle_def activate_jam_def apply_jam_start_result_def Let_def
      started_def hm_simps split: if_splits)

definition start_outcome ::
  "u64 \<Rightarrow> string option \<Rightarrow> string \<Rightarrow> string \<Rightarrow> spotify_device \<Rightarrow> (api_error + u64) \<times> world \<Rightarrow> bool" where
  "start_outcome g d identity auth_id device out \<longleftrightarrow>
     (case out of
        (Inl _, w') \<Rightarrow> at (False, False, g, d) w'
      | (Inr g', w') \<Rightarrow> g' = g \<and> lifecycle w' = (True, False, g, Some (dev_id device))
          \<and> scan w' \<noteq> None \<and> started identity auth_id device (w_jam w'))"

lemma start_failed:
  "at (False, True, g, d) w \<Longrightarrow>
     start_outcome g d identity auth_id device (Inl e, with_jam w (fail_jam_start g m))"
  by (simp add: start_outcome_def fail_at)

lemma superseded_outcome:
  assumes "fenced_env env" and "scan w \<noteq> None" and "lifecycle w = (False, True, g, d)"
    and "activate_jam env g identity auth_id device playing (w_jam w) = (jam, ok)"
  shows "start_outcome g d identity auth_id device
    (if ok then (Inr g, w\<lparr>w_jam := jam\<rparr>)
     else (Inl e, take_bot env (se_lock_bot env)
            (pause_bound_spotify_before_release (se_pause env) (Some device) (w\<lparr>w_jam := jam\<rparr>))))"
proof (cases ok)
  case True
  then show ?thesis
    using activate_cases(1) [OF assms(3,4)] assms(2) by (simp add: start_outcome_def)
next
  case False
  let ?w = "pause_bound_spotify_before_release (se_pause env) (Some device) (w\<lparr>w_jam := jam\<rparr>)"
  note env' = assms(1) [unfolded fenced_env_def]
  have "at (False, False, g, d) ?w"
    using env' activate_cases(2) [OF assms(3,4) False] assms(2)
    by (auto simp: at_def pause_lifecycle intro!: pause_quiet)
  then have "at (False, False, g, d) (take_bot env (se_lock_bot env) ?w)"
    using assms(1) env' by (intro take_bot_at) auto
  with False show ?thesis by (simp add: start_outcome_def)
qed

lemma start_transfer_outcome:
  assumes env: "fenced_env env" and w: "at (False, True, g, d) w"
  shows "start_outcome g d identity auth_id device
    (start_transfer env g identity auth_id device w)"
proof -
  let ?l = "(False, True, g, d)"
  let ?w0 = "issue (TransferPlayback (dev_id device)) w"
  note env' = env [unfolded fenced_env_def]
  obtain bound w1 where bound: "se_bind env ?w0 = (bound, w1)" by fastforce
  have w1: "scan w1 \<noteq> None" "lifecycle w1 = ?l"
    using env' bound fenced_scan [of "se_bind env" ?w0] fenced_lifecycle [of "se_bind env" ?w0] w
    by (auto simp: at_def quiet_def)
  define bind_result where "bind_result = (case bound of BindFinished r \<Rightarrow> r
    | BindDeadline \<Rightarrow> Inl (SERVICE_UNAVAILABLE, ''Spotify startup exceeded the 15s safety deadline'')
    | BindSourceLost reason \<Rightarrow> Inl (SERVICE_UNAVAILABLE, reason))"
  note run = start_transfer_def [of env g identity auth_id device w, simplified Let_def bound
      bind_result_def [symmetric] prod.case]
  show ?thesis
  proof (cases bind_result)
    case (Inl e)
    then show ?thesis unfolding run by (simp add: start_failed release_at [OF env w1(2,1)])
  next
    case (Inr playback)
    obtain after w2 where after: "se_snap_after env w1 = (after, w2)" by fastforce
    have w2: "scan w2 \<noteq> None" "lifecycle w2 = ?l"
      using env' after fenced_scan [of "se_snap_after env" w1] w1
        fenced_lifecycle [of "se_snap_after env" w1] by auto
    let ?w3 = "(snd (se_lock_bot env w2))\<lparr>w_bot := Some (g, True)\<rparr>"
    have w3: "scan ?w3 \<noteq> None" "lifecycle ?w3 = ?l"
      using env' fenced_scan [of "se_lock_bot env" w2] w2 fenced_lifecycle [of "se_lock_bot env" w2]
      by auto
    obtain jam ok where act: "activate_jam env g identity auth_id device
        (bp_is_playing playback) (w_jam ?w3) = (jam, ok)" by fastforce
    show ?thesis
      using superseded_outcome [OF env w3 act, of "(CONFLICT, ''Jam start was superseded'')"]
      unfolding run Inr after sum.case prod.case act
      by (cases ok) (simp_all add: start_failed release_at [OF env w2(2,1)])
  qed
qed

lemma start_with_device_outcome:
  assumes env: "fenced_env env" and w: "at (False, True, g, d) w"
  shows "start_outcome g d identity auth_id device
    (start_with_device env g identity auth_id device w)"
proof -
  let ?l = "(False, True, g, d)"
  let ?w1 = "take_bot env (se_lock_stale env) w"
  note env' = env [unfolded fenced_env_def]
  have w1: "at ?l ?w1" using env env' w by (intro take_bot_at) auto
  obtain st w2 where st: "se_start_bot env ?w1 = (st, w2)" by fastforce
  have w2: "at ?l w2" using fenced_at [of "se_start_bot env" ?l ?w1] w1 st env' by simp
  obtain source w3 where source: "se_snap_transfer env w2 = (source, w3)" by fastforce
  have w3: "at ?l w3" using fenced_at [of "se_snap_transfer env" ?l w2] w2 source env' by simp
  show ?thesis
    unfolding start_with_device_def Let_def st prod.case source
    by (simp add: start_failed w2 stop_bot_at [OF env w3] start_transfer_outcome [OF env w3]
        split: sum.split)
qed

lemma next_generation_pos: "next_generation g \<noteq> 0"
  by (metis max.cobounded2 next_generation_def word_le_0_iff zero_neq_one)

section \<open>Revocation\<close>

definition revokes :: "revoked_binding list \<Rightarrow> string \<Rightarrow> string \<Rightarrow> bool" where
  "revokes rs i a \<longleftrightarrow> (\<exists>b \<in> set rs. rb_identity b = i \<and> rb_auth_id b = a)"

lemma revokes_Cons: "revokes (b # rs) i a \<longleftrightarrow> (rb_identity b = i \<and> rb_auth_id b = a) \<or> revokes rs i a"
  by (auto simp: revokes_def)

lemma revoke_one_listener:
  "hm_get (jam_listeners (revoke_one b jam)) i =
     (if hm_get (jam_listeners jam) i = Some (rb_auth_id b) \<and> rb_identity b = i then None
      else hm_get (jam_listeners jam) i)"
  by (auto simp: revoke_one_def Let_def hm_simps split: option.split)

lemma revoke_one_audio:
  "hm_get (jam_audio_connections (revoke_one b jam)) i =
     (case hm_get (jam_audio_connections jam) i of None \<Rightarrow> None
      | Some c \<Rightarrow> if ac_participant_auth_id c = rb_auth_id b \<and> rb_identity b = i then None else Some c)"
  by (auto simp: revoke_one_def Let_def hm_simps split: option.split)

lemma revoke_all_listener:
  "hm_get (jam_listeners (fold revoke_one rs jam)) i =
     (case hm_get (jam_listeners jam) i of None \<Rightarrow> None
      | Some a \<Rightarrow> if revokes rs i a then None else Some a)"
proof (induction rs arbitrary: jam)
  case (Cons b rs)
  then show ?case by (auto simp: revoke_one_listener revokes_Cons split: option.split)
qed (simp add: revokes_def split: option.split)

lemma revoke_all_audio:
  "hm_get (jam_audio_connections (fold revoke_one rs jam)) i =
     (case hm_get (jam_audio_connections jam) i of None \<Rightarrow> None
      | Some c \<Rightarrow> if revokes rs i (ac_participant_auth_id c) then None else Some c)"
proof (induction rs arbitrary: jam)
  case (Cons b rs)
  then show ?case by (auto simp: revoke_one_audio revokes_Cons split: option.split)
qed (simp add: revokes_def split: option.split)

lemma revoke_one_frame:
  "jam_active (revoke_one b jam) = jam_active jam" "jam_generation (revoke_one b jam) = jam_generation jam"
  "jam_queue (revoke_one b jam) = jam_queue jam" "jam_host_identity (revoke_one b jam) = jam_host_identity jam"
  "jam_starting (revoke_one b jam) = jam_starting jam"
  "jam_spotify_device_id (revoke_one b jam) = jam_spotify_device_id jam"
  by (simp_all add: revoke_one_def Let_def)

lemma revoke_all_frame [simp]:
  "jam_active (fold revoke_one rs jam) = jam_active jam"
  "jam_generation (fold revoke_one rs jam) = jam_generation jam"
  "jam_queue (fold revoke_one rs jam) = jam_queue jam"
  by (induction rs arbitrary: jam) (simp_all add: revoke_one_frame)

lemma apply_revoked_spec:
  assumes "apply_revoked_participant_bindings jam rs = (jam', stop, auto)"
  shows "jam' = fold revoke_one rs jam"
    and "stop = Some g \<longleftrightarrow> g = jam_generation jam \<and> jam_active jam
      \<and> revokes rs (jam_host_identity jam) (jam_host_participant_auth_id jam)"
    and "auto = Some g \<longleftrightarrow> stop = None \<and> g = jam_generation jam \<and> jam_active jam
      \<and> jam_listeners jam' = []"
  using assms
  by (auto simp: apply_revoked_participant_bindings_def Let_def list_ex_iff revokes_def
      split: if_splits)

section \<open>Audio connections\<close>

lemma next_generation_neq: "next_generation x \<noteq> x"
proof
  assume eq: "next_generation x = x"
  show False
  proof (cases "1 \<le> x + 1")
    case True
    with eq show False by (simp add: next_generation_def max_def split: if_splits)
  next
    case False
    then have "x + 1 = 0" by (simp add: not_le)
    with eq show False by (simp add: next_generation_def)
  qed
qed

lemma register_spec:
  "register_audio_connection jam binding i a g = (jam', Some c) \<Longrightarrow>
     binding = Some a \<and> listener_attachment_allowed jam i a g
     \<and> c = next_generation (jam_next_audio_connection_id jam) \<and> jam_next_audio_connection_id jam' = c
     \<and> hm_get (jam_audio_connections jam') i =
         Some \<lparr>ac_participant_auth_id = a, ac_generation = g, ac_connection_id = c\<rparr>
     \<and> (\<forall>j. j \<noteq> i \<longrightarrow> hm_get (jam_audio_connections jam') j = hm_get (jam_audio_connections jam) j)
     \<and> jam_listeners jam' = jam_listeners jam \<and> jam_active jam' = jam_active jam
     \<and> jam_generation jam' = jam_generation jam"
  by (auto simp: register_audio_connection_def Let_def hm_simps split: if_splits)

lemma registered_current:
  "register_audio_connection jam binding i a g = (jam', Some c) \<Longrightarrow>
     audio_connection_is_current jam' binding i a g c"
  by (drule register_spec)
    (simp add: audio_connection_is_current_def listener_attachment_allowed_def audio_connection_matches_def)

lemma superseded_connection:
  assumes "register_audio_connection jam b i a g = (jam1, Some c1)"
    and "register_audio_connection jam1 b' i a' g' = (jam2, Some c2)"
  shows "\<not> audio_connection_is_current jam2 b'' i a'' g'' c1"
    and "unregister_audio_connection_from_jam jam2 i a'' g'' c1 = (jam2, False)"
    and "audio_connection_is_current jam2 b' i a' g' c2"
proof -
  have "c1 \<noteq> c2"
    using register_spec [OF assms(1)] register_spec [OF assms(2)] next_generation_neq by metis
  then show "\<not> audio_connection_is_current jam2 b'' i a'' g'' c1"
    "unregister_audio_connection_from_jam jam2 i a'' g'' c1 = (jam2, False)"
    using register_spec [OF assms(2)]
    by (auto simp: audio_connection_is_current_def audio_connection_matches_def
        unregister_audio_connection_from_jam_def)
  show "audio_connection_is_current jam2 b' i a' g' c2" by (rule registered_current [OF assms(2)])
qed

section \<open>Safety stops\<close>

lemma safety_stop_spec:
  assumes "fenced pause" and "scan w \<noteq> None"
  shows "quiet (pause_and_mark_spotify_safety_stop pause now g device e w)"
    and "lifecycle (pause_and_mark_spotify_safety_stop pause now g device e w) = lifecycle w"
proof -
  let ?w1 = "pause_bound_spotify_before_release pause (Some device) w"
  have "quiet ?w1" "lifecycle ?w1 = lifecycle w"
    using assms by (auto intro: pause_quiet simp: pause_lifecycle)
  then show "quiet (pause_and_mark_spotify_safety_stop pause now g device e w)"
    "lifecycle (pause_and_mark_spotify_safety_stop pause now g device e w) = lifecycle w"
    by (auto simp: pause_and_mark_spotify_safety_stop_def Let_def apply_spotify_pause_result_def
        quiet_def lifecycle_def split: prod.split bool.split if_splits)
qed

text \<open>
  A guarded operation that is refused for safety, whatever Spotify made of the request, leaves
  playback paused; only the operation's own answer is passed on with the controls still ready.
\<close>

lemma guarded_operation_safe:
  assumes "fenced (ge_snap env)" and "fenced (ge_pause env)"
    and "\<And>o' w1. ge_op env w = (o', w1) \<Longrightarrow> scan w1 \<noteq> None"
    and "run_guarded_spotify_recovery_operation env g device name w = (res, w')"
  shows "quiet w' \<or> (\<exists>r w1. ge_op env w = (OpFinished r, w1) \<and> res = r
     \<and> ensure_jam_recovery_controls_ready (ge_snap env) w1 = (Inr g, w') \<and> scan w' \<noteq> None)"
proof -
  obtain out w1 where op: "ge_op env w = (out, w1)" by fastforce
  have s1: "scan w1 \<noteq> None" by (rule assms(3) [OF op])
  have snap: "ensure_jam_recovery_controls_ready (ge_snap env) w1 = (r, w2) \<Longrightarrow> scan w2 \<noteq> None" for r w2
    using s1 fenced_scan [OF assms(1), of w1]
    by (auto simp: ensure_jam_recovery_controls_ready_def Let_def split: if_splits prod.splits)
  note stop = safety_stop_spec(1) [OF assms(2)]
  show ?thesis
  proof (cases out)
    case (OpFinished r)
    obtain ready w2 where ready: "ensure_jam_recovery_controls_ready (ge_snap env) w1 = (ready, w2)"
      by fastforce
    from assms(4) op OpFinished ready show ?thesis
      using stop [OF snap [OF ready]] snap [OF ready]
      by (auto simp: run_guarded_spotify_recovery_operation_def split: sum.splits if_splits)
  qed (use assms(4) op stop [OF s1] in
      \<open>auto simp: run_guarded_spotify_recovery_operation_def\<close>)
qed

end
