(* ===== verification/JamFrontier.thy ===== *)
theory JamFrontier
  imports JamHandlers
begin

text \<open>
  Handing the queue to Spotify (\<open>jam_session.rs\<close>, from \<open>cached_queue_mode\<close> to
  \<open>pump_queue_frontier\<close>): at most two entries are ever accepted ahead, one mutation at a time,
  and an entry whose acceptance is ambiguous is marked as such and blocks the rest.
\<close>

section \<open>Epochs and placements\<close>

definition SPOTIFY_COMMITTED_QUEUE_FRONTIER :: nat where
  "SPOTIFY_COMMITTED_QUEUE_FRONTIER = 2"

definition cached_queue_mode :: "u64 \<Rightarrow> u64 \<Rightarrow> bool option \<Rightarrow> bool option" where
  "cached_queue_mode expected_control_epoch current_control_epoch should_queue =
     (if current_control_epoch = expected_control_epoch then should_queue else None)"

definition enqueue_interrupted_by_stop :: "u64 \<Rightarrow> u64 \<Rightarrow> bool \<Rightarrow> bool" where
  "enqueue_interrupted_by_stop expected_control_epoch current_control_epoch control_stopped \<longleftrightarrow>
     current_control_epoch \<noteq> expected_control_epoch \<and> control_stopped"

definition enqueue_admission_cancelled_by_stop :: "u64 \<Rightarrow> u64 \<Rightarrow> bool" where
  "enqueue_admission_cancelled_by_stop admitted_stop_epoch current_stop_epoch \<longleftrightarrow>
     current_stop_epoch \<noteq> admitted_stop_epoch"

definition queue_control_stopped_after_skip :: "bool \<Rightarrow> bool" where
  "queue_control_stopped_after_skip spotify_was_playing \<longleftrightarrow> \<not> spotify_was_playing"

fun placement_match_state :: "spotify_track_placement \<Rightarrow> queue_current_match_state" where
  "placement_match_state StartedCurrent = Eligible"
| "placement_match_state QueuedNext = AwaitingTransition"

definition spotify_track_placement :: "bool \<Rightarrow> spotify_track_placement" where
  "spotify_track_placement should_queue = (if should_queue then QueuedNext else StartedCurrent)"

record queue_commit_error =
  ce_status :: status
  ce_message :: string
  ce_acceptance_ambiguous :: bool
  ce_intended_placement :: "spotify_track_placement option"

definition definite_queue_commit_error :: "status \<Rightarrow> string \<Rightarrow> queue_commit_error" where
  "definite_queue_commit_error s message =
     \<lparr>ce_status = s, ce_message = message, ce_acceptance_ambiguous = False,
      ce_intended_placement = None\<rparr>"

definition queue_mutation_request_error ::
  "status \<Rightarrow> string \<Rightarrow> spotify_track_placement \<Rightarrow> queue_commit_error" where
  "queue_mutation_request_error s message placement =
     \<lparr>ce_status = s, ce_message = message, ce_acceptance_ambiguous = (s = BAD_GATEWAY),
      ce_intended_placement = Some placement\<rparr>"

definition spotify_mutation_response_is_ambiguous :: "status \<Rightarrow> bool" where
  "spotify_mutation_response_is_ambiguous s \<longleftrightarrow> is_server_error s"

definition spotify_queue_mutation_response_error ::
  "(status \<Rightarrow> string) \<Rightarrow> http_response \<Rightarrow> string \<Rightarrow> spotify_track_placement \<Rightarrow> queue_commit_error" where
  "spotify_queue_mutation_response_error show_status resp operation placement =
     (case spotify_response_error show_status resp operation of
        (s, message) \<Rightarrow>
          \<lparr>ce_status = s, ce_message = message,
           ce_acceptance_ambiguous = spotify_mutation_response_is_ambiguous (http_status resp),
           ce_intended_placement = Some placement\<rparr>)"

definition place_spotify_track ::
  "(status \<Rightarrow> string) \<Rightarrow> spotify_track_placement \<Rightarrow> api_error + http_response
   \<Rightarrow> queue_commit_error + spotify_track_placement" where
  "place_spotify_track show_status placement answer =
     (case answer of
        Inl (s, message) \<Rightarrow> Inl (queue_mutation_request_error s message placement)
      | Inr resp \<Rightarrow>
          if \<not> is_success (http_status resp)
          then Inl (spotify_queue_mutation_response_error show_status resp
                 (if placement = QueuedNext then ''Queue Spotify track'' else ''Start Spotify track'')
                 placement)
          else Inr placement)"

section \<open>The guard of a queue mutation\<close>

definition ambiguous_commit_error ::
  "api_error \<Rightarrow> spotify_track_placement \<Rightarrow> queue_commit_error" where
  "ambiguous_commit_error e placement =
     \<lparr>ce_status = fst e, ce_message = snd e, ce_acceptance_ambiguous = True,
      ce_intended_placement = Some placement\<rparr>"

definition run_guarded_spotify_queue_mutation ::
  "(queue_commit_error + 'r) guard_env \<Rightarrow> u64 \<Rightarrow> spotify_device \<Rightarrow> string
   \<Rightarrow> spotify_track_placement \<Rightarrow> world \<Rightarrow> (queue_commit_error + 'r) \<times> world" where
  "run_guarded_spotify_queue_mutation env generation device operation_name placement w =
     (let unsafe = (\<lambda>e w. (Inl (ambiguous_commit_error e placement),
            pause_and_mark_spotify_safety_stop (ge_pause env) (ge_now env) generation device
              (snd e) w));
          (outcome, w1) = ge_op env w
      in case outcome of
           OpDeadline \<Rightarrow> unsafe (SERVICE_UNAVAILABLE, deadline_message operation_name) w1
         | ControlsLost s m \<Rightarrow> unsafe (s, m) w1
         | OpFinished result \<Rightarrow>
             if (case result of Inl e \<Rightarrow> \<not> ce_acceptance_ambiguous e | Inr _ \<Rightarrow> False)
             then (result, w1)
             else
              (case ensure_jam_recovery_controls_ready (ge_snap env) w1 of
                 (Inr current, w2) \<Rightarrow>
                   if current = generation then (result, w2)
                   else unsafe (CONFLICT, ''Jam generation changed during Spotify queue control'') w2
               | (Inl e, w2) \<Rightarrow> unsafe e w2))"

section \<open>Candidates\<close>

definition queue_has_commit_unknown :: "jam_queue \<Rightarrow> bool" where
  "queue_has_commit_unknown queue \<longleftrightarrow> list_ex (\<lambda>e. qe_delivery_state e = CommitUnknown) queue"

definition queue_frontier_candidate :: "jam_queue \<Rightarrow> jam_queue_entry option" where
  "queue_frontier_candidate queue =
     (if SPOTIFY_COMMITTED_QUEUE_FRONTIER \<le> frontier_count queue \<or> queue_has_commit_unknown queue
      then None
      else List.find (\<lambda>e. qe_delivery_state e = Pending) queue)"

definition has_existing_spotify_frontier :: "jam_queue \<Rightarrow> string \<Rightarrow> bool" where
  "has_existing_spotify_frontier queue candidate_entry_id \<longleftrightarrow>
     list_ex (\<lambda>e. entry_id e \<noteq> candidate_entry_id \<and> frontier_entry e) queue"

definition stopped_frontier_should_resume :: "jam_queue \<Rightarrow> bool \<Rightarrow> bool \<Rightarrow> bool" where
  "stopped_frontier_should_resume queue control_stopped allow_resume_stopped \<longleftrightarrow>
     control_stopped \<and> allow_resume_stopped \<and> list_ex frontier_entry queue"

section \<open>Committing one entry\<close>

text \<open>
  The surroundings of one commit: the wait for the two locks, the first check, the guarded read of
  the player, the guarded resume, the guarded placement and the clock of each later step.
\<close>

record commit_env =
  cm_locks :: "unit await"
  cm_snap :: "jam_source_snapshot await"
  cm_read :: "(api_error + spotify_placement_observation) guard_env"
  cm_read_now :: instant
  cm_resume :: "(api_error + unit) guard_env"
  cm_pause :: "unit await"
  cm_now :: instant
  cm_place :: "spotify_track_placement \<Rightarrow> (queue_commit_error + spotify_track_placement) guard_env"

definition bound_now :: "jam_state \<Rightarrow> u64 \<Rightarrow> spotify_device \<Rightarrow> bool" where
  "bound_now jam generation device \<longleftrightarrow> active_generation_matches jam generation
     \<and> jam_spotify_device_id jam = Some (dev_id device)"

definition playing_now :: "spotify_device \<Rightarrow> instant \<Rightarrow> jam_state \<Rightarrow> jam_state" where
  "playing_now device now jam =
     jam\<lparr>jam_spotify_device_name := Some (dev_name device), jam_spotify_is_playing := True,
         jam_audio_expected_since := Some now, jam_last_error := None, jam_now_playing := None\<rparr>"

definition epoch_current :: "jam_state \<Rightarrow> u64 \<Rightarrow> spotify_device \<Rightarrow> u64 \<Rightarrow> bool" where
  "epoch_current jam generation device control_epoch \<longleftrightarrow>
     bound_now jam generation device \<and> jam_queue_control_epoch jam = control_epoch"

definition retire_before_placement ::
  "spotify_placement_observation \<Rightarrow> instant \<Rightarrow> u64 \<Rightarrow> spotify_device \<Rightarrow> u64 \<Rightarrow> world \<Rightarrow> world" where
  "retire_before_placement obs now generation device control_epoch w =
     (if epoch_current (w_jam w) generation device control_epoch
      then with_jam w (\<lambda>jam. fst (retire_stale_frontier_for_queue_placement jam obs now))
      else w)"

definition mark_paused_before_placement ::
  "u64 \<Rightarrow> spotify_device \<Rightarrow> u64 \<Rightarrow> world \<Rightarrow> world" where
  "mark_paused_before_placement generation device control_epoch w =
     (if epoch_current (w_jam w) generation device control_epoch
      then with_jam w (\<lambda>jam. fst (mark_observed_queue_stopped jam)) else w)"

definition resume_before_placement ::
  "commit_env \<Rightarrow> u64 \<Rightarrow> spotify_device \<Rightarrow> u64 \<Rightarrow> world \<Rightarrow> (queue_commit_error + bool) \<times> world" where
  "resume_before_placement env generation device control_epoch w =
     (case run_guarded_spotify_recovery_operation (cm_resume env) generation device
             ''Resuming Spotify before queue placement''
             (issue (ResumeSpotify (dev_id device)) w) of
        (Inl e, w1) \<Rightarrow> (Inl (definite_queue_commit_error (fst e) (snd e)), w1)
      | (Inr _, w1) \<Rightarrow>
          if \<not> epoch_current (w_jam w1) generation device control_epoch
             \<or> jam_queue_control_stopped (w_jam w1)
          then
            (let message = ''Jam changed after Spotify resumed before queue placement''
             in (Inl (definite_queue_commit_error CONFLICT message),
                 pause_and_mark_spotify_safety_stop (cm_pause env) (cm_now env)
                   generation device message w1))
          else (Inr True, with_jam w1 (playing_now device (cm_now env))))"

definition observe_placement ::
  "commit_env \<Rightarrow> u64 \<Rightarrow> jam_queue_entry \<Rightarrow> spotify_device \<Rightarrow> u64 \<Rightarrow> bool \<Rightarrow> bool \<Rightarrow> world
   \<Rightarrow> (queue_commit_error + bool) \<times> world" where
  "observe_placement env generation entry device control_epoch has_existing_frontier
     allow_resume_stopped w =
     (case run_guarded_spotify_recovery_read (cm_read env) generation
             ''Reading Spotify playback before queue placement'' w of
        (Inl e, w1) \<Rightarrow> (Inl (definite_queue_commit_error (fst e) (snd e)), w1)
      | (Inr obs, w1) \<Rightarrow>
          let w2 = retire_before_placement obs (cm_read_now env) generation device control_epoch w1;
              has_existing =
                (if epoch_current (w_jam w1) generation device control_epoch
                 then has_existing_spotify_frontier (jam_queue (w_jam w2)) (entry_id entry)
                 else has_existing_frontier)
          in if has_existing \<and> \<not> placement_should_queue obs then
               if \<not> allow_resume_stopped then
                 (Inl (definite_queue_commit_error CONFLICT
                    ''Spotify playback is paused; waiting for an explicit queue action''),
                  mark_paused_before_placement generation device control_epoch w2)
               else resume_before_placement env generation device control_epoch w2
             else (Inr (placement_should_queue obs), w2))"

text \<open>What Spotify accepted is recorded, if the entry is still pending in the same Jam.\<close>

definition commit_entry ::
  "spotify_track_placement \<Rightarrow> jam_queue_entry \<Rightarrow> jam_queue_entry" where
  "commit_entry placement e =
     e\<lparr>qe_delivery_state := SpotifyCommitted, qe_can_remove := False,
       qe_current_match_state := placement_match_state placement\<rparr>"

definition apply_commit ::
  "jam_state \<Rightarrow> u64 \<Rightarrow> spotify_device \<Rightarrow> string \<Rightarrow> spotify_track_placement \<Rightarrow> instant
   \<Rightarrow> jam_state \<times> bool" where
  "apply_commit jam generation device eid placement now =
     (if \<not> bound_now jam generation device then (jam, False)
      else case List.find (\<lambda>e. entry_id e = eid) (jam_queue jam) of
        None \<Rightarrow> (jam, False)
      | Some e \<Rightarrow>
          if qe_delivery_state e \<noteq> Pending then (jam, False)
          else
            let jam1 = bump_queue_revision (jam\<lparr>jam_queue :=
                  update_first (\<lambda>e. entry_id e = eid) (commit_entry placement) (jam_queue jam),
                  jam_spotify_device_name := Some (dev_name device), jam_last_error := None\<rparr>)
            in (if placement = StartedCurrent
                then jam1\<lparr>jam_spotify_is_playing := True, jam_audio_expected_since := Some now,
                          jam_queue_control_stopped := False, jam_now_playing := None\<rparr>
                else jam1, True))"

definition place_and_apply ::
  "commit_env \<Rightarrow> u64 \<Rightarrow> jam_queue_entry \<Rightarrow> spotify_device \<Rightarrow> u64 \<Rightarrow> bool \<Rightarrow> world
   \<Rightarrow> (queue_commit_error + u64) \<times> world" where
  "place_and_apply env generation entry device control_epoch should_queue w =
     (let intended = spotify_track_placement should_queue in
      case run_guarded_spotify_queue_mutation (cm_place env intended) generation device
             ''Queueing a Spotify playlist track'' intended
             (issue (PlaceTrack (dev_id device) (entry_uri entry) intended) w) of
        (Inl e, w1) \<Rightarrow> (Inl e, w1)
      | (Inr placement, w1) \<Rightarrow>
         (case apply_commit (w_jam w1) generation device (entry_id entry) placement (cm_now env) of
            (jam, True) \<Rightarrow> (Inr control_epoch, w1\<lparr>w_jam := jam\<rparr>)
          | (_, False) \<Rightarrow>
              let message = ''Jam changed after Spotify accepted a queue track''
              in (Inl (ambiguous_commit_error (CONFLICT, message) placement),
                  pause_and_mark_spotify_safety_stop (cm_pause env) (cm_now env) generation device
                    message w1)))"

definition commit_pending_queue_track_guarded ::
  "commit_env \<Rightarrow> u64 \<Rightarrow> jam_queue_entry \<Rightarrow> bool option \<Rightarrow> u64 \<Rightarrow> bool \<Rightarrow> world
   \<Rightarrow> (queue_commit_error + u64) \<times> world" where
  "commit_pending_queue_track_guarded env generation entry should_queue expected_control_epoch
     allow_resume_stopped w =
     (let definite = (\<lambda>e. Inl (definite_queue_commit_error (fst e) (snd e))) in
      case ensure_jam_recovery_controls_ready (cm_snap env) (snd (cm_locks env w)) of
        (Inl e, w1) \<Rightarrow> (definite e, w1)
      | (Inr current, w1) \<Rightarrow>
          let jam = w_jam w1; control_epoch = jam_queue_control_epoch jam in
          if current \<noteq> generation then (definite (CONFLICT, ''Jam generation changed''), w1)
          else if jam_uncertain_skip jam \<noteq> None
          then (definite (CONFLICT, ''Echo is reconciling an uncertain Spotify Skip''), w1)
          else case bound_spotify_device jam generation of
            None \<Rightarrow> (definite (SERVICE_UNAVAILABLE,
                      ''The active Jam has no bound Spotify device''), w1)
          | Some device \<Rightarrow>
              if enqueue_interrupted_by_stop expected_control_epoch control_epoch
                   (jam_queue_control_stopped jam)
              then (definite (CONFLICT, ''Playlist enqueue was interrupted by Stop Music''), w1)
              else case cached_queue_mode expected_control_epoch control_epoch should_queue of
                Some mode \<Rightarrow> place_and_apply env generation entry device control_epoch mode w1
              | None \<Rightarrow>
                 (case observe_placement env generation entry device control_epoch
                         (has_existing_spotify_frontier (jam_queue jam) (entry_id entry))
                         allow_resume_stopped w1 of
                    (Inl e, w2) \<Rightarrow> (Inl e, w2)
                  | (Inr mode, w2) \<Rightarrow>
                      place_and_apply env generation entry device control_epoch mode w2))"

section \<open>Resuming a stopped queue\<close>

record resume_env =
  re_locks :: "unit await"
  re_snap :: "jam_source_snapshot await"
  re_resume :: "(api_error + unit) guard_env"
  re_pause :: "unit await"
  re_now :: instant

definition resume_stopped_queue_frontier_guarded ::
  "resume_env \<Rightarrow> u64 \<Rightarrow> u64 \<Rightarrow> world \<Rightarrow> (api_error + u64) \<times> world" where
  "resume_stopped_queue_frontier_guarded env generation expected_control_epoch w =
     (case ensure_jam_recovery_controls_ready (re_snap env) (snd (re_locks env w)) of
        (Inl e, w1) \<Rightarrow> (Inl e, w1)
      | (Inr current, w1) \<Rightarrow>
          let jam = w_jam w1; control_epoch = jam_queue_control_epoch jam in
          if current \<noteq> generation then (Inl (CONFLICT, ''Jam generation changed''), w1)
          else if jam_uncertain_skip jam \<noteq> None
          then (Inl (CONFLICT, ''Echo is reconciling an uncertain Spotify Skip''), w1)
          else case bound_spotify_device jam generation of
            None \<Rightarrow> (Inl (SERVICE_UNAVAILABLE, ''The active Jam has no bound Spotify device''), w1)
          | Some device \<Rightarrow>
              if enqueue_interrupted_by_stop expected_control_epoch control_epoch
                   (jam_queue_control_stopped jam)
              then (Inl (CONFLICT,
                      ''Queue resume was interrupted by a newer Stop Music action''), w1)
              else if \<not> jam_queue_control_stopped jam then (Inr control_epoch, w1)
              else case run_guarded_spotify_recovery_operation (re_resume env) generation device
                     ''Resuming the stopped Spotify queue''
                     (issue (ResumeSpotify (dev_id device)) w1) of
                (Inl e, w2) \<Rightarrow> (Inl e, w2)
              | (Inr _, w2) \<Rightarrow>
                  if \<not> bound_now (w_jam w2) generation device
                     \<or> jam_queue_control_epoch (w_jam w2) \<noteq> control_epoch
                  then (Inl (CONFLICT, ''Jam changed after Spotify resumed the queue''),
                        pause_bound_spotify_before_release (re_pause env) (Some device) w2)
                  else (Inr control_epoch,
                        with_jam w2 (\<lambda>jam. (playing_now device (re_now env) jam)
                                       \<lparr>jam_queue_control_stopped := False\<rparr>)))"

section \<open>The pump\<close>

text \<open>The entry whose acceptance Spotify left open, after a failed commit.\<close>

definition mark_commit_failure ::
  "u64 \<Rightarrow> string \<Rightarrow> queue_commit_error \<Rightarrow> jam_state \<Rightarrow> jam_state" where
  "mark_commit_failure generation eid error jam =
     (if \<not> active_generation_matches jam generation then jam
      else
        let jam1 =
          (if ce_acceptance_ambiguous error
              \<and> (case List.find (\<lambda>e. entry_id e = eid) (jam_queue jam) of
                   None \<Rightarrow> False | Some e \<Rightarrow> qe_delivery_state e = Pending)
           then bump_queue_revision (jam\<lparr>jam_queue :=
                  update_first (\<lambda>e. entry_id e = eid)
                    (\<lambda>e. e\<lparr>qe_delivery_state := CommitUnknown, qe_can_remove := False,
                           qe_current_match_state :=
                             (case ce_intended_placement error of
                                Some placement \<Rightarrow> placement_match_state placement
                              | None \<Rightarrow> qe_current_match_state e)\<rparr>)
                    (jam_queue jam)\<rparr>)
           else jam)
        in jam1\<lparr>jam_last_error := Some (ce_message error)\<rparr>)"

text \<open>
  One turn of the loop: None where the pump returns, else the control epoch and the queue mode it
  goes on with. The turns' surroundings are given as a list; \<open>pump_queue_frontier_locked\<close> answers
  whether the loop returned within them.
\<close>

record pump_env =
  pe_resume_env :: resume_env
  pe_commit_env :: commit_env
  pe_settle :: "unit await"

definition pump_turn ::
  "pump_env \<Rightarrow> u64 \<Rightarrow> bool \<Rightarrow> bool option \<Rightarrow> u64 \<Rightarrow> world \<Rightarrow> (bool option \<times> u64) option \<times> world" where
  "pump_turn env generation allow_resume_stopped should_queue control_epoch w =
     (let jam = w_jam w in
      if \<not> active_generation_matches jam generation then (None, w)
      else
        let control_stopped = jam_queue_control_stopped jam;
            should_resume = stopped_frontier_should_resume (jam_queue jam) control_stopped
              allow_resume_stopped;
            track = queue_frontier_candidate (jam_queue jam)
        in if should_resume then
            (case resume_stopped_queue_frontier_guarded (pe_resume_env env) generation
                    control_epoch w of
               (Inr observed, w1) \<Rightarrow> (Some (Some True, observed), w1)
             | (Inl e, w1) \<Rightarrow>
                 (None, with_jam w1 (\<lambda>jam. if active_generation_matches jam generation
                          then jam\<lparr>jam_last_error := Some (snd e)\<rparr> else jam)))
           else if control_stopped \<and> \<not> allow_resume_stopped then (None, w)
           else case track of
             None \<Rightarrow> (None, w)
           | Some entry \<Rightarrow>
              (case commit_pending_queue_track_guarded (pe_commit_env env) generation entry
                      should_queue control_epoch allow_resume_stopped w of
                 (Inr observed, w1) \<Rightarrow> (Some (Some True, observed), w1)
               | (Inl error, w1) \<Rightarrow>
                   (None, with_jam (snd (pe_settle env w1))
                      (mark_commit_failure generation (entry_id entry) error))))"

fun pump_loop ::
  "pump_env list \<Rightarrow> u64 \<Rightarrow> bool \<Rightarrow> bool option \<Rightarrow> u64 \<Rightarrow> world \<Rightarrow> bool \<times> world" where
  "pump_loop [] generation allow_resume_stopped should_queue control_epoch w = (False, w)"
| "pump_loop (env # envs) generation allow_resume_stopped should_queue control_epoch w =
     (case pump_turn env generation allow_resume_stopped should_queue control_epoch w of
        (None, w1) \<Rightarrow> (True, w1)
      | (Some (mode, epoch), w1) \<Rightarrow> pump_loop envs generation allow_resume_stopped mode epoch w1)"

definition pump_queue_frontier_locked ::
  "pump_env list \<Rightarrow> u64 \<Rightarrow> u64 \<Rightarrow> bool \<Rightarrow> world \<Rightarrow> bool \<times> world" where
  "pump_queue_frontier_locked envs generation expected_control_epoch allow_resume_stopped w =
     pump_loop envs generation allow_resume_stopped None expected_control_epoch w"

definition pump_queue_frontier :: "unit await \<Rightarrow> pump_env list \<Rightarrow> u64 \<Rightarrow> world \<Rightarrow> bool \<times> world" where
  "pump_queue_frontier lock envs generation w =
     (let w1 = snd (lock w) in
      pump_queue_frontier_locked envs generation (jam_queue_control_epoch (w_jam w1)) False w1)"

section \<open>What the pump may assume of an await\<close>

text \<open>
  The pump holds the queue's lock, so other tasks add and remove no entry; they may observe the
  player, and where the pump waits without the lifecycle lock they may end the Jam. \<open>rely g\<close> is
  what such a task does to the state, seen from a pump for the generation \<open>g\<close>.
\<close>

definition rely :: "u64 \<Rightarrow> world \<Rightarrow> world \<Rightarrow> bool" where
  "rely g w w' \<longleftrightarrow> (jam_queue_ok (w_jam w) \<longrightarrow> jam_queue_ok (w_jam w'))
     \<and> (jam_queue_ok (w_jam w) \<longrightarrow> active_generation_matches (w_jam w') g \<longrightarrow>
          active_generation_matches (w_jam w) g
          \<and> advances (jam_queue (w_jam w)) (jam_queue (w_jam w')))"

definition relied :: "u64 \<Rightarrow> 'a await \<Rightarrow> bool" where
  "relied g e \<longleftrightarrow> (\<forall>w. rely g w (snd (e w)))"

lemma rely_refl [simp]: "rely g w w"
  by (simp add: rely_def)

lemma rely_trans [trans]: "rely g a b \<Longrightarrow> rely g b c \<Longrightarrow> rely g a c"
  unfolding rely_def by (blast intro: advances_trans)

lemma relied_step: "relied g e \<Longrightarrow> rely g w (snd (e w))"
  by (simp add: relied_def)

text \<open>What leaves the queue and the Jam alone.\<close>

definition same_queue :: "jam_state \<Rightarrow> jam_state \<Rightarrow> bool" where
  "same_queue j j' \<longleftrightarrow> jam_queue j' = jam_queue j \<and> jam_active j' = jam_active j
     \<and> jam_generation j' = jam_generation j"

lemma rely_same: "same_queue (w_jam w) (w_jam w') \<Longrightarrow> rely g w w'"
  by (simp add: rely_def same_queue_def jam_queue_ok_def active_generation_matches_def)

lemma rely_issue [simp]: "rely g w (issue c w)"
  by (rule rely_same) (simp add: same_queue_def)

lemma rely_observation:
  "advances (jam_queue (w_jam w)) (jam_queue (f (w_jam w))) \<or> \<not> jam_queue_ok (w_jam w) \<Longrightarrow>
     same_jam (w_jam w) (f (w_jam w)) \<Longrightarrow> rely g w (with_jam w f)"
  by (auto simp: rely_def same_jam_def jam_queue_ok_def active_generation_matches_def
      dest: advances_queue_ok)

lemma rely_ready:
  assumes "relied g snap" and "ensure_jam_recovery_controls_ready snap w = (r, w')"
  shows "rely g w w'"
  using relied_step [OF assms(1), of w] assms(2)
  by (auto simp: ensure_jam_recovery_controls_ready_def Let_def split: if_splits prod.splits)

lemma rely_pause:
  assumes "relied g pause"
  shows "rely g w (pause_bound_spotify_before_release pause d w)"
  unfolding pause_bound_spotify_before_release_def
  using rely_trans [OF rely_issue relied_step [OF assms]] by (auto split: option.split)

lemma rely_safety_stop:
  assumes "relied g pause"
  shows "rely g w (pause_and_mark_spotify_safety_stop pause now g' device e w)"
proof -
  let ?w1 = "pause_bound_spotify_before_release pause (Some device) w"
  have "same_queue (w_jam ?w1) (w_jam (pause_and_mark_spotify_safety_stop pause now g' device e w))"
    by (auto simp: pause_and_mark_spotify_safety_stop_def Let_def apply_spotify_pause_result_def
        same_queue_def split: prod.split bool.split)
  then show ?thesis using rely_pause [OF assms] rely_same rely_trans by blast
qed

definition relied_guard :: "u64 \<Rightarrow> 'r guard_env \<Rightarrow> bool" where
  "relied_guard g env \<longleftrightarrow> relied g (ge_op env) \<and> relied g (ge_snap env) \<and> relied g (ge_pause env)"

lemma rely_op: "relied_guard g env \<Longrightarrow> ge_op env w = (r, w') \<Longrightarrow> rely g w w'"
  using relied_step [of g "ge_op env" w] by (simp add: relied_guard_def)

lemma rely_operation:
  assumes env: "relied_guard g env"
    and run: "run_guarded_spotify_recovery_operation env g' device name w = (r, w')"
  shows "rely g w w'"
proof -
  obtain out w1 where op: "ge_op env w = (out, w1)" by fastforce
  note r1 = rely_op [OF env op]
  obtain ready w2 where ready: "ensure_jam_recovery_controls_ready (ge_snap env) w1 = (ready, w2)"
    by fastforce
  have r2: "rely g w w2"
    using rely_trans [OF r1 rely_ready [OF _ ready]] env by (simp add: relied_guard_def)
  have stop: "rely g w v \<Longrightarrow> rely g w
      (pause_and_mark_spotify_safety_stop (ge_pause env) (ge_now env) g' device e v)" for v e
    using env rely_safety_stop rely_trans unfolding relied_guard_def by blast
  from run show ?thesis
    unfolding run_guarded_spotify_recovery_operation_def Let_def op prod.case ready
    using r1 r2 by (auto split: select_outcome.splits sum.splits if_splits intro: stop)
qed

lemma rely_read:
  assumes env: "relied_guard g env"
    and run: "run_guarded_spotify_recovery_read env g' name w = (r, w')"
  shows "rely g w w'"
proof -
  obtain out w1 where op: "ge_op env w = (out, w1)" by fastforce
  note r1 = rely_op [OF env op]
  obtain ready w2 where ready: "ensure_jam_recovery_controls_ready (ge_snap env) w1 = (ready, w2)"
    by fastforce
  have r2: "rely g w w2"
    using rely_trans [OF r1 rely_ready [OF _ ready]] env by (simp add: relied_guard_def)
  from run show ?thesis
    unfolding run_guarded_spotify_recovery_read_def Let_def op prod.case ready
    using r1 r2 by (auto split: select_outcome.splits sum.splits if_splits)
qed

lemma rely_mutation:
  assumes env: "relied_guard g env"
    and run: "run_guarded_spotify_queue_mutation env g' device name p w = (r, w')"
  shows "rely g w w'"
proof -
  obtain out w1 where op: "ge_op env w = (out, w1)" by fastforce
  note r1 = rely_op [OF env op]
  obtain ready w2 where ready: "ensure_jam_recovery_controls_ready (ge_snap env) w1 = (ready, w2)"
    by fastforce
  have r2: "rely g w w2"
    using rely_trans [OF r1 rely_ready [OF _ ready]] env by (simp add: relied_guard_def)
  have stop: "rely g w v \<Longrightarrow> rely g w
      (pause_and_mark_spotify_safety_stop (ge_pause env) (ge_now env) g' device e v)" for v e
    using env rely_safety_stop rely_trans unfolding relied_guard_def by blast
  from run show ?thesis
    unfolding run_guarded_spotify_queue_mutation_def Let_def op prod.case ready
    using r1 r2 by (auto split: select_outcome.splits sum.splits if_splits intro: stop)
qed

section \<open>The slot of a candidate\<close>

definition slot :: "jam_queue \<Rightarrow> string \<Rightarrow> bool" where
  "slot q eid \<longleftrightarrow> (\<exists>pre e post. q = pre @ e # post \<and> entry_id e = eid
     \<and> qe_delivery_state e = Pending \<and> (\<forall>x \<in> set pre. qe_delivery_state x = SpotifyCommitted)
     \<and> length pre < 2 \<and> (\<forall>x \<in> set post. qe_delivery_state x = Pending))"

lemma sorted_after_pending:
  "queue_ok (pre @ e # post) \<Longrightarrow> qe_delivery_state e = Pending \<Longrightarrow> x \<in> set post \<Longrightarrow>
     qe_delivery_state x = Pending"
  by (auto simp: queue_ok_def sorted_append intro: order.antisym delivery_le_Pending)

lemma frontier_count_all:
  "\<forall>x \<in> set q. qe_delivery_state x = SpotifyCommitted \<Longrightarrow> frontier_count q = length q \<and> unknown_count q = 0"
  "\<forall>x \<in> set q. qe_delivery_state x = Pending \<Longrightarrow> frontier_count q = 0 \<and> unknown_count q = 0"
  by (induction q) auto

lemma candidate_slot:
  assumes "queue_ok q" and "queue_frontier_candidate q = Some e"
  shows "slot q (entry_id e)"
proof -
  obtain pre post where q: "q = pre @ e # post" and pend: "qe_delivery_state e = Pending"
    and pre: "\<forall>x \<in> set pre. qe_delivery_state x \<noteq> Pending"
    using assms(2) find_first [of "\<lambda>e. qe_delivery_state e = Pending" q e]
    by (auto simp: queue_frontier_candidate_def split: if_splits)
  have few: "frontier_count q < 2" and no_unknown: "\<forall>x \<in> set q. qe_delivery_state x \<noteq> CommitUnknown"
    using assms(2) by (auto simp: queue_frontier_candidate_def queue_has_commit_unknown_def
        SPOTIFY_COMMITTED_QUEUE_FRONTIER_def list_ex_iff split: if_splits)
  have com: "\<forall>x \<in> set pre. qe_delivery_state x = SpotifyCommitted"
    using pre no_unknown q by (metis UnCI queue_delivery_state.exhaust set_append)
  then have "length pre < 2" using few q frontier_count_all(1) [OF com] by simp
  with q pend com sorted_after_pending assms(1) show ?thesis
    unfolding slot_def by blast
qed

lemma slot_advances:
  assumes "slot q eid" and "advances q q'"
  shows "slot q' eid"
proof -
  obtain pre e post where q: "q = pre @ e # post" and e: "entry_id e = eid"
      "qe_delivery_state e = Pending"
    and pre: "\<forall>x \<in> set pre. qe_delivery_state x = SpotifyCommitted" "length pre < 2"
    and post: "\<forall>x \<in> set post. qe_delivery_state x = Pending"
    using assms(1) by (auto simp: slot_def)
  obtain gone kept where g: "q = gone @ kept" "\<forall>x \<in> set gone. qe_delivery_state x = SpotifyCommitted"
    and k: "list_all2 unlocks kept q'"
    using assms(2) by (auto simp: advances_def)
  have "\<exists>pre2. pre = gone @ pre2 \<and> kept = pre2 @ e # post"
    using q g(1) g(2) e(2) by (auto simp: append_eq_append_conv2 append_eq_Cons_conv Cons_eq_append_conv)
  then obtain pre2 where pre2: "pre = gone @ pre2" "kept = pre2 @ e # post" by blast
  obtain p' e' r' where q': "q' = p' @ e' # r'" "list_all2 unlocks pre2 p'" "unlocks e e'"
      "list_all2 unlocks post r'"
    using k pre2(2) by (auto simp: list_all2_append1 list_all2_Cons1)
  have "e' = e" using unlocks_same(4) [OF q'(3)] e(2) by simp
  moreover have "map qe_delivery_state p' = map qe_delivery_state pre2"
    "map qe_delivery_state r' = map qe_delivery_state post"
    using unlocks_map [OF q'(2)] unlocks_map [OF q'(4)] by simp_all
  then have "\<forall>x \<in> set p'. qe_delivery_state x = SpotifyCommitted"
    "\<forall>x \<in> set r'. qe_delivery_state x = Pending"
    using pre(1) post pre2(1) by (auto dest!: map_eq_imp_length_eq arg_cong [where f = set])
  moreover have "length p' < 2"
    using list_all2_lengthD [OF q'(2)] pre(2) pre2(1) by simp
  ultimately show ?thesis using q'(1) e unfolding slot_def by blast
qed

lemma slot_update:
  assumes "queue_ok q" and "slot q eid"
    and "\<And>e. qe_delivery_state e = Pending \<Longrightarrow> entry_id (f e) = entry_id e \<and> entry_ok (f e)
           \<and> qe_delivery_state (f e) \<noteq> Pending"
  shows "queue_ok (update_first (\<lambda>e. entry_id e = eid) f q)"
    and "frontier_count (update_first (\<lambda>e. entry_id e = eid) f q) = Suc (frontier_count q)"
proof -
  obtain pre e post where q: "q = pre @ e # post" and e: "entry_id e = eid"
      "qe_delivery_state e = Pending"
    and pre: "\<forall>x \<in> set pre. qe_delivery_state x = SpotifyCommitted" "length pre < 2"
    and post: "\<forall>x \<in> set post. qe_delivery_state x = Pending"
    using assms(2) by (auto simp: slot_def)
  note f = assms(3) [OF e(2)]
  have "\<forall>x \<in> set pre. entry_id x \<noteq> eid"
    using assms(1) q e(1) by (auto simp: queue_ok_def image_iff)
  then have upd: "update_first (\<lambda>e. entry_id e = eid) f q = pre @ f e # post"
    unfolding q by (rule update_first_split) (rule e(1))
  have sorted: "sorted (map qe_delivery_state (pre @ f e # post))"
    using assms(1) pre(1) post unfolding q queue_ok_def by (auto simp: sorted_append)
  show "queue_ok (update_first (\<lambda>e. entry_id e = eid) f q)"
    unfolding upd using assms(1) f sorted pre(2) frontier_count_all(1) [OF pre(1)]
      frontier_count_all(2) [OF post]
    by (auto simp: queue_ok_def q)
  show "frontier_count (update_first (\<lambda>e. entry_id e = eid) f q) = Suc (frontier_count q)"
    unfolding upd using f e(2) by (simp add: q)
qed

section \<open>The pump keeps the queue\<close>

definition relied_commit :: "u64 \<Rightarrow> commit_env \<Rightarrow> bool" where
  "relied_commit g env \<longleftrightarrow> relied g (cm_locks env) \<and> relied g (cm_snap env)
     \<and> relied_guard g (cm_read env) \<and> relied_guard g (cm_resume env) \<and> relied g (cm_pause env)
     \<and> (\<forall>p. relied_guard g (cm_place env p))"

lemma rely_same_jam_queue:
  "jam_queue (f (w_jam w)) = jam_queue (w_jam w) \<Longrightarrow> jam_active (f (w_jam w)) = jam_active (w_jam w) \<Longrightarrow>
     jam_generation (f (w_jam w)) = jam_generation (w_jam w) \<Longrightarrow> rely g w (with_jam w f)"
  by (rule rely_same) (simp add: same_queue_def)

lemma rely_retire: "rely g w (with_jam w (\<lambda>jam. fst (retire_stale_frontier_for_queue_placement jam obs now)))"
proof (rule rely_observation)
  show "advances (jam_queue (w_jam w))
      (jam_queue (fst (retire_stale_frontier_for_queue_placement (w_jam w) obs now)))
      \<or> \<not> jam_queue_ok (w_jam w)"
    using stale.step_advances [of "w_jam w" "(obs, now)"] by auto
  show "same_jam (w_jam w) (fst (retire_stale_frontier_for_queue_placement (w_jam w) obs now))"
    using stale.step_same_jam [of "w_jam w" "(obs, now)"] by simp
qed

lemma rely_retire_before: "rely g w (retire_before_placement obs now g' device epoch w)"
  using rely_retire by (simp add: retire_before_placement_def)

lemma rely_mark_paused: "rely g w (mark_paused_before_placement g' device epoch w)"
  unfolding mark_paused_before_placement_def
  by (simp add: rely_same_jam_queue mark_observed_queue_stopped_def)

lemma rely_playing: "rely g w (with_jam w (playing_now device now))"
  "rely g w (with_jam w (\<lambda>jam. (playing_now device now jam)\<lparr>jam_queue_control_stopped := False\<rparr>))"
  by (rule rely_same_jam_queue; simp add: playing_now_def)+

lemma rely_resume_before:
  assumes env: "relied_commit g env"
    and run: "resume_before_placement env g' device epoch w = (r, w')"
  shows "rely g w w'"
proof -
  note env' = env [unfolded relied_commit_def]
  obtain x w1 where op: "run_guarded_spotify_recovery_operation (cm_resume env) g' device
      ''Resuming Spotify before queue placement'' (issue (ResumeSpotify (dev_id device)) w) = (x, w1)"
    by fastforce
  have r1: "rely g w w1"
    using rely_trans [OF rely_issue rely_operation [OF _ op]] env' by blast
  have stop: "rely g w (pause_and_mark_spotify_safety_stop (cm_pause env) (cm_now env) g' device e w1)" for e
    using env' r1 rely_safety_stop rely_trans by blast
  from run show ?thesis
    unfolding resume_before_placement_def Let_def op prod.case
    using r1 by (auto split: sum.splits if_splits intro: stop rely_trans [OF r1 rely_playing(1)])
qed

lemma rely_observe:
  assumes env: "relied_commit g env"
    and run: "observe_placement env g' entry device epoch has allow w = (r, w')"
  shows "rely g w w'"
proof -
  obtain read w1 where read: "run_guarded_spotify_recovery_read (cm_read env) g'
      ''Reading Spotify playback before queue placement'' w = (read, w1)" by fastforce
  have r1: "rely g w w1" using env read by (auto simp: relied_commit_def intro: rely_read)
  have r2: "rely g w (retire_before_placement obs now g' device epoch w1)" for obs now
    using rely_trans [OF r1 rely_retire_before] .
  from run show ?thesis
    unfolding observe_placement_def Let_def read prod.case
    using r1 r2 by (auto split: sum.splits if_splits
        intro: rely_trans [OF r2 rely_mark_paused] rely_trans [OF r2 rely_resume_before [OF env]])
qed

lemma apply_commit_result:
  "apply_commit j g device eid p now = (j', True) \<Longrightarrow>
     active_generation_matches j g \<and> active_generation_matches j' g
     \<and> jam_queue j' = update_first (\<lambda>e. entry_id e = eid) (commit_entry p) (jam_queue j)
     \<and> jam_queue_revision j' = jam_queue_revision j + 1"
  by (auto simp: apply_commit_def bound_now_def active_generation_matches_def Let_def
      split: if_splits option.splits)

text \<open>A commit that succeeds records the entry in a state that the rely leads to.\<close>

definition committed :: "u64 \<Rightarrow> string \<Rightarrow> world \<Rightarrow> world \<Rightarrow> bool" where
  "committed g eid w w' \<longleftrightarrow> (\<exists>v device p now. rely g w v
     \<and> apply_commit (w_jam v) g device eid p now = (w_jam w', True))"

lemma place_outcome:
  assumes env: "relied_commit g env"
    and run: "place_and_apply env g entry device epoch mode w = (r, w')"
  shows "(\<exists>e. r = Inl e) \<and> rely g w w' \<or> (\<exists>n. r = Inr n) \<and> committed g (entry_id entry) w w'"
proof -
  note env' = env [unfolded relied_commit_def]
  let ?p = "spotify_track_placement mode"
  obtain res w1 where res: "run_guarded_spotify_queue_mutation (cm_place env ?p) g device
      ''Queueing a Spotify playlist track'' ?p
      (issue (PlaceTrack (dev_id device) (entry_uri entry) ?p) w) = (res, w1)" by fastforce
  have r1: "rely g w w1"
    using rely_trans [OF rely_issue rely_mutation [OF _ res]] env' by blast
  have stop: "rely g w (pause_and_mark_spotify_safety_stop (cm_pause env) (cm_now env) g device e w1)" for e
    using env' r1 rely_safety_stop rely_trans by blast
  show ?thesis
  proof (cases res)
    case (Inl e)
    with run res r1 show ?thesis by (auto simp: place_and_apply_def Let_def)
  next
    case (Inr p)
    obtain j ok where ap: "apply_commit (w_jam w1) g device (entry_id entry) p (cm_now env) = (j, ok)"
      by fastforce
    show ?thesis
    proof (cases ok)
      case True
      with run res Inr ap have "r = Inr epoch" "w' = w1\<lparr>w_jam := j\<rparr>"
        by (simp_all add: place_and_apply_def Let_def)
      with r1 ap True show ?thesis by (auto simp: committed_def)
    next
      case False
      with run res Inr ap stop show ?thesis by (auto simp: place_and_apply_def Let_def)
    qed
  qed
qed

lemma committed_after: "rely g w v \<Longrightarrow> committed g eid v w' \<Longrightarrow> committed g eid w w'"
  unfolding committed_def by (blast intro: rely_trans)

lemma commit_outcome:
  assumes env: "relied_commit g env"
    and run: "commit_pending_queue_track_guarded env g entry mode epoch allow w = (r, w')"
  shows "(\<exists>e. r = Inl e) \<and> rely g w w' \<or> (\<exists>n. r = Inr n) \<and> committed g (entry_id entry) w w'"
proof -
  note env' = env [unfolded relied_commit_def]
  obtain ready w1 where ready: "ensure_jam_recovery_controls_ready (cm_snap env)
      (snd (cm_locks env w)) = (ready, w1)" by fastforce
  have r1: "rely g w w1"
    using env' relied_step [of g "cm_locks env" w] rely_ready [OF _ ready] rely_trans by blast
  have place: "(\<exists>e. x = Inl e) \<and> rely g w v' \<or> (\<exists>n. x = Inr n) \<and> committed g (entry_id entry) w v'"
    if "rely g w v" "place_and_apply env g entry device ep m v = (x, v')" for v device ep m x v'
    using place_outcome [OF env that(2)] that(1) rely_trans committed_after by blast
  have observe: "rely g w v"
    if "observe_placement env g entry device ep h allow w1 = (x, v)" for device ep h x v
    using rely_trans [OF r1 rely_observe [OF env that]] .
  from run show ?thesis
    unfolding commit_pending_queue_track_guarded_def Let_def ready
    using r1 by (auto split: sum.splits if_splits option.splits prod.splits dest: place observe)
qed

lemma rely_resume_frontier:
  assumes "relied g (re_locks env)" and "relied g (re_snap env)" and "relied_guard g (re_resume env)"
    and "relied g (re_pause env)"
    and run: "resume_stopped_queue_frontier_guarded env g' epoch w = (r, w')"
  shows "rely g w w'"
proof -
  obtain ready w1 where ready: "ensure_jam_recovery_controls_ready (re_snap env)
      (snd (re_locks env w)) = (ready, w1)" by fastforce
  have r1: "rely g w w1"
    using assms relied_step [of g "re_locks env" w] rely_ready [OF _ ready] rely_trans by blast
  have resume: "rely g w v"
    if "run_guarded_spotify_recovery_operation (re_resume env) g' device name
          (issue c w1) = (x, v)" for x v name c device
    using rely_trans [OF rely_trans [OF r1 rely_issue] rely_operation [OF assms(3) that]] .
  have pause: "rely g w (pause_bound_spotify_before_release (re_pause env) d v)" if "rely g w v" for v d
    using that rely_pause [OF assms(4)] rely_trans by blast
  have play: "rely g w (with_jam v (\<lambda>jam. (playing_now device now jam)\<lparr>jam_queue_control_stopped := False\<rparr>))"
    if "rely g w v" for v now device
    using that rely_playing(2) rely_trans by blast
  from run show ?thesis
    unfolding resume_stopped_queue_frontier_guarded_def Let_def ready
    using r1 by (auto split: sum.splits if_splits option.splits prod.splits
        intro: pause play dest: resume)
qed

definition relied_pump :: "u64 \<Rightarrow> pump_env \<Rightarrow> bool" where
  "relied_pump g env \<longleftrightarrow> relied_commit g (pe_commit_env env) \<and> relied g (pe_settle env)
     \<and> relied g (re_locks (pe_resume_env env)) \<and> relied g (re_snap (pe_resume_env env))
     \<and> relied_guard g (re_resume (pe_resume_env env)) \<and> relied g (re_pause (pe_resume_env env))"

lemma rely_slot:
  "rely g w v \<Longrightarrow> jam_queue_ok (w_jam w) \<Longrightarrow> active_generation_matches (w_jam v) g \<Longrightarrow>
     slot (jam_queue (w_jam w)) eid \<Longrightarrow> jam_queue_ok (w_jam v) \<and> slot (jam_queue (w_jam v)) eid"
  unfolding rely_def by (blast intro: slot_advances)

lemma commit_entry_fields:
  "entry_id (commit_entry p e) = entry_id e" "entry_ok (commit_entry p e)"
  "qe_delivery_state (commit_entry p e) = SpotifyCommitted"
  by (simp_all add: commit_entry_def entry_ok_def)

lemma committed_queue_ok:
  assumes "committed g eid w w'" and "jam_queue_ok (w_jam w)" and "slot (jam_queue (w_jam w)) eid"
  shows "jam_queue_ok (w_jam w')"
proof -
  obtain v device p now where v: "rely g w v"
    and ap: "apply_commit (w_jam v) g device eid p now = (w_jam w', True)"
    using assms(1) by (auto simp: committed_def)
  note res = apply_commit_result [OF ap]
  have "jam_queue_ok (w_jam v)" "slot (jam_queue (w_jam v)) eid"
    using rely_slot [OF v assms(2) _ assms(3)] res by simp_all
  then show ?thesis
    using res slot_update(1) [of "jam_queue (w_jam v)" eid "commit_entry p"] commit_entry_fields
    by (simp add: jam_queue_ok_def)
qed

lemma mark_failure_queue_ok:
  assumes "jam_queue_ok j" and "active_generation_matches j g \<Longrightarrow> slot (jam_queue j) eid"
  shows "jam_queue_ok (mark_commit_failure g eid error j)"
proof -
  let ?f = "\<lambda>e. e\<lparr>qe_delivery_state := CommitUnknown, qe_can_remove := False,
    qe_current_match_state := (case ce_intended_placement error of
       Some placement \<Rightarrow> placement_match_state placement | None \<Rightarrow> qe_current_match_state e)\<rparr>"
  have "queue_ok (update_first (\<lambda>e. entry_id e = eid) ?f (jam_queue j))"
    if "active_generation_matches j g"
    using assms(1) assms(2) [OF that]
    by (intro slot_update(1)) (simp_all add: jam_queue_ok_def entry_ok_def)
  with assms(1) show ?thesis
    by (simp add: mark_commit_failure_def jam_queue_ok_def Let_def)
qed

lemma pump_turn_queue_ok:
  assumes env: "relied_pump g env" and ok: "jam_queue_ok (w_jam w)"
    and run: "pump_turn env g allow mode epoch w = (r, w')"
  shows "jam_queue_ok (w_jam w')"
proof -
  note env' = env [unfolded relied_pump_def]
  have resume: "jam_queue_ok (w_jam v)"
    if "resume_stopped_queue_frontier_guarded (pe_resume_env env) g epoch w = (x, v)" for x v
    using rely_resume_frontier [OF _ _ _ _ that, of g] env' ok by (simp add: rely_def)
  have finished: "jam_queue_ok (w_jam v)"
    if "queue_frontier_candidate (jam_queue (w_jam w)) = Some e"
      "commit_pending_queue_track_guarded (pe_commit_env env) g e mode epoch allow w = (Inr n, v)" for e n v
    using commit_outcome [OF _ that(2)] env' ok candidate_slot [OF _ that(1)]
    by (auto simp: jam_queue_ok_def intro: committed_queue_ok [unfolded jam_queue_ok_def])
  have failed: "jam_queue_ok (mark_commit_failure g (entry_id e) err (w_jam (snd (pe_settle env v))))"
    if c: "queue_frontier_candidate (jam_queue (w_jam w)) = Some e"
      and r: "commit_pending_queue_track_guarded (pe_commit_env env) g e mode epoch allow w = (Inl err, v)"
    for e err v
  proof (rule mark_failure_queue_ok)
    have "rely g w v" using commit_outcome [OF _ r] env' by auto
    then have s: "rely g w (snd (pe_settle env v))"
      using env' relied_step rely_trans by blast
    then show "jam_queue_ok (w_jam (snd (pe_settle env v)))" using ok by (simp add: rely_def)
    show "slot (jam_queue (w_jam (snd (pe_settle env v)))) (entry_id e)"
      if "active_generation_matches (w_jam (snd (pe_settle env v))) g"
      using rely_slot [OF s ok that] candidate_slot [OF _ c] ok by (simp add: jam_queue_ok_def)
  qed
  from run ok show ?thesis
    unfolding pump_turn_def Let_def
    by (auto split: if_splits sum.splits option.splits prod.splits dest: resume finished failed
        simp: jam_queue_ok_def)
qed

lemma pump_loop_queue_ok:
  "list_all (relied_pump g) envs \<Longrightarrow> jam_queue_ok (w_jam w) \<Longrightarrow>
     pump_loop envs g allow mode epoch w = (r, w') \<Longrightarrow> jam_queue_ok (w_jam w')"
proof (induction envs arbitrary: mode epoch w)
  case (Cons env envs)
  obtain x w1 where turn: "pump_turn env g allow mode epoch w = (x, w1)" by fastforce
  have "jam_queue_ok (w_jam w1)" using pump_turn_queue_ok [OF _ _ turn] Cons.prems by simp
  with Cons turn show ?case by (cases x) (auto split: prod.splits)
qed simp

section \<open>The pump returns\<close>

text \<open>
  With no other task touching the Jam, each turn that goes on uses up room in the frontier, the
  stop flag, or the first look at the player; the ninth turn at the latest returns.
\<close>

definition still :: "'a await \<Rightarrow> bool" where
  "still e \<longleftrightarrow> (\<forall>w. w_jam (snd (e w)) = w_jam w)"

definition still_guard :: "'r guard_env \<Rightarrow> bool" where
  "still_guard env \<longleftrightarrow> still (ge_op env) \<and> still (ge_snap env) \<and> still (ge_pause env)"

definition still_pump :: "pump_env \<Rightarrow> bool" where
  "still_pump env \<longleftrightarrow>
     still (re_locks (pe_resume_env env)) \<and> still (re_snap (pe_resume_env env))
   \<and> still_guard (re_resume (pe_resume_env env)) \<and> still (re_pause (pe_resume_env env))
   \<and> still (cm_locks (pe_commit_env env)) \<and> still (cm_snap (pe_commit_env env))
   \<and> still_guard (cm_read (pe_commit_env env)) \<and> still_guard (cm_resume (pe_commit_env env))
   \<and> still (cm_pause (pe_commit_env env)) \<and> (\<forall>p. still_guard (cm_place (pe_commit_env env) p))
   \<and> still (pe_settle env)"

lemma still_ready:
  "still snap \<Longrightarrow> ensure_jam_recovery_controls_ready snap w = (r, w') \<Longrightarrow> w_jam w' = w_jam w"
  unfolding still_def ensure_jam_recovery_controls_ready_def Let_def
  by (auto split: if_splits prod.splits) (metis snd_conv)+

lemma still_operation:
  assumes "still_guard env"
    and run: "run_guarded_spotify_recovery_operation env g device name w = (Inr r, w')"
  shows "w_jam w' = w_jam w"
proof -
  obtain out w1 where op: "ge_op env w = (out, w1)" by fastforce
  have w1: "w_jam w1 = w_jam w" using assms(1) op unfolding still_guard_def still_def by (metis snd_conv)
  have "still (ge_snap env)" using assms(1) by (simp add: still_guard_def)
  then show ?thesis
    using run w1 still_ready unfolding run_guarded_spotify_recovery_operation_def Let_def op prod.case
    by (auto split: select_outcome.splits sum.splits if_splits prod.splits)
qed

lemma still_read:
  assumes "still_guard env"
    and run: "run_guarded_spotify_recovery_read env g name w = (Inr r, w')"
  shows "w_jam w' = w_jam w"
proof -
  obtain out w1 where op: "ge_op env w = (out, w1)" by fastforce
  have w1: "w_jam w1 = w_jam w" using assms(1) op unfolding still_guard_def still_def by (metis snd_conv)
  have "still (ge_snap env)" using assms(1) by (simp add: still_guard_def)
  then show ?thesis
    using run w1 still_ready unfolding run_guarded_spotify_recovery_read_def Let_def op prod.case
    by (auto split: select_outcome.splits sum.splits if_splits prod.splits)
qed

lemma still_mutation:
  assumes "still_guard env"
    and run: "run_guarded_spotify_queue_mutation env g device name p w = (Inr r, w')"
  shows "w_jam w' = w_jam w"
proof -
  obtain out w1 where op: "ge_op env w = (out, w1)" by fastforce
  have w1: "w_jam w1 = w_jam w" using assms(1) op unfolding still_guard_def still_def by (metis snd_conv)
  have "still (ge_snap env)" using assms(1) by (simp add: still_guard_def)
  then show ?thesis
    using run w1 still_ready unfolding run_guarded_spotify_queue_mutation_def Let_def op prod.case
    by (auto split: select_outcome.splits sum.splits if_splits prod.splits)
qed

lemma still_locks: "still e \<Longrightarrow> w_jam (snd (e w)) = w_jam w"
  by (simp add: still_def)

lemma find_update_frontier:
  "List.find (\<lambda>e. entry_id e = eid) q = Some e \<Longrightarrow> qe_delivery_state e = Pending \<Longrightarrow>
     frontier_count (update_first (\<lambda>e. entry_id e = eid) (commit_entry p) q) = Suc (frontier_count q)"
  by (induction q) (auto simp: commit_entry_fields split: if_splits)

lemma apply_commit_frontier:
  "apply_commit j g device eid p now = (j', True) \<Longrightarrow>
     frontier_count (jam_queue j') = Suc (frontier_count (jam_queue j))
   \<and> (jam_queue_control_stopped j' \<longrightarrow> jam_queue_control_stopped j)
   \<and> jam_queue_control_epoch j' = jam_queue_control_epoch j"
  by (auto simp: apply_commit_def Let_def find_update_frontier split: if_splits option.splits)

definition stop_flag :: "jam_state \<Rightarrow> nat" where
  "stop_flag j = (if jam_queue_control_stopped j then 1 else 0)"

text \<open>\<open>no_later j j'\<close>: the frontier lost at most one entry, nothing was stopped, no epoch passed.\<close>

definition no_later :: "nat \<Rightarrow> jam_state \<Rightarrow> jam_state \<Rightarrow> bool" where
  "no_later n j j' \<longleftrightarrow> frontier_count (jam_queue j) \<le> frontier_count (jam_queue j') + n
     \<and> stop_flag j' \<le> stop_flag j \<and> jam_queue_control_epoch j' = jam_queue_control_epoch j"

lemma no_later_refl [simp]: "no_later n j j"
  by (simp add: no_later_def)

lemma still_place:
  assumes "still_guard (cm_place env (spotify_track_placement mode))"
    and "place_and_apply env g entry device epoch mode w = (Inr n, w')"
  shows "n = epoch \<and> frontier_count (jam_queue (w_jam w')) = Suc (frontier_count (jam_queue (w_jam w)))
    \<and> stop_flag (w_jam w') \<le> stop_flag (w_jam w)
    \<and> jam_queue_control_epoch (w_jam w') = jam_queue_control_epoch (w_jam w)"
proof -
  let ?p = "spotify_track_placement mode"
  obtain p w1 j where m: "run_guarded_spotify_queue_mutation (cm_place env ?p) g device
      ''Queueing a Spotify playlist track'' ?p
      (issue (PlaceTrack (dev_id device) (entry_uri entry) ?p) w) = (Inr p, w1)"
    and ap: "apply_commit (w_jam w1) g device (entry_id entry) p (cm_now env) = (j, True)"
    and w': "w' = w1\<lparr>w_jam := j\<rparr>" "n = epoch"
    using assms(2) by (auto simp: place_and_apply_def Let_def split: prod.splits sum.splits bool.splits)
  have "w_jam w1 = w_jam w" using still_mutation [OF assms(1) m] by simp
  with apply_commit_frontier [OF ap] w' show ?thesis by (auto simp: stop_flag_def)
qed

lemma retire_frontier:
  "no_later 1 j (fst (retire_stale_frontier_for_queue_placement j obs now))"
proof -
  have take: "take_eligible_front q u = (q', Some t) \<Longrightarrow> frontier_count q \<le> frontier_count q' + 1" for q u q' t
    by (auto simp: take_eligible_front_def split: list.splits if_splits)
  have "retire_finished_queue_frontier q u = (q', Some t) \<Longrightarrow> frontier_count q \<le> frontier_count q' + 1" for q u q' t
    by (auto simp: retire_finished_queue_frontier_def dest: take split: if_splits)
  then show ?thesis
    using stale_cases [of j obs now] by (auto simp: no_later_def stop_flag_def)
qed

lemma still_observe:
  assumes env: "still_guard (cm_read env)" "still_guard (cm_resume env)"
    and run: "observe_placement env g entry device epoch has allow w = (Inr m, w')"
  shows "no_later 1 (w_jam w) (w_jam w')"
proof -
  have resume_same: "jam_queue (w_jam v') = jam_queue (w_jam v) \<and> stop_flag (w_jam v') = stop_flag (w_jam v)
      \<and> jam_queue_control_epoch (w_jam v') = jam_queue_control_epoch (w_jam v)"
    if "resume_before_placement env g device epoch v = (Inr m, v')" for v v'
  proof -
    obtain x v1 where op: "run_guarded_spotify_recovery_operation (cm_resume env) g device
        ''Resuming Spotify before queue placement'' (issue (ResumeSpotify (dev_id device)) v) = (x, v1)"
      by fastforce
    with that obtain u where x: "x = Inr u" and v': "v' = with_jam v1 (playing_now device (cm_now env))"
      by (auto simp: resume_before_placement_def Let_def split: sum.splits if_splits)
    have "w_jam v1 = w_jam v" using still_operation [OF env(2) op [unfolded x]] by simp
    with v' show ?thesis by (simp add: playing_now_def stop_flag_def)
  qed
  obtain obs w1 where read: "run_guarded_spotify_recovery_read (cm_read env) g
      ''Reading Spotify playback before queue placement'' w = (Inr obs, w1)"
    using run by (auto simp: observe_placement_def split: prod.splits sum.splits)
  let ?w2 = "retire_before_placement obs (cm_read_now env) g device epoch w1"
  have w1: "w_jam w1 = w_jam w" by (rule still_read [OF env(1) read])
  have w2: "no_later 1 (w_jam w) (w_jam ?w2)"
    using retire_frontier [of "w_jam w" obs "cm_read_now env"]
    by (simp add: retire_before_placement_def w1)
  from run have "w' = ?w2 \<or> resume_before_placement env g device epoch ?w2 = (Inr m, w')"
    by (auto simp: observe_placement_def Let_def read split: if_splits)
  then show ?thesis
    using w2 resume_same [of ?w2 w'] by (auto simp: no_later_def)
qed

lemma still_commit:
  assumes env: "still (cm_locks env)" "still (cm_snap env)" "still_guard (cm_read env)"
      "still_guard (cm_resume env)" "\<And>p. still_guard (cm_place env p)"
    and run: "commit_pending_queue_track_guarded env g entry mode epoch allow w = (Inr n, w')"
  shows "n = jam_queue_control_epoch (w_jam w) \<and> jam_queue_control_epoch (w_jam w') = n
    \<and> stop_flag (w_jam w') \<le> stop_flag (w_jam w)
    \<and> (if cached_queue_mode epoch n mode = None
       then frontier_count (jam_queue (w_jam w)) \<le> frontier_count (jam_queue (w_jam w'))
       else frontier_count (jam_queue (w_jam w')) = Suc (frontier_count (jam_queue (w_jam w))))"
proof -
  obtain cur w1 where ready: "ensure_jam_recovery_controls_ready (cm_snap env)
      (snd (cm_locks env w)) = (Inr cur, w1)"
    using run by (auto simp: commit_pending_queue_track_guarded_def split: prod.splits sum.splits)
  have w1: "w_jam w1 = w_jam w"
    using still_ready [OF env(2) ready] env(1) by (simp add: still_locks)
  let ?ep = "jam_queue_control_epoch (w_jam w)"
  from run obtain device where dev: "bound_spotify_device (w_jam w) g = Some device"
    by (auto simp: commit_pending_queue_track_guarded_def Let_def ready w1
        split: if_splits option.splits)
  show ?thesis
  proof (cases "cached_queue_mode epoch ?ep mode")
    case (Some m)
    with run dev have "place_and_apply env g entry device ?ep m w1 = (Inr n, w')"
      by (auto simp: commit_pending_queue_track_guarded_def Let_def ready w1 split: if_splits)
    from still_place [OF env(5) this] w1 Some show ?thesis by simp
  next
    case None
    with run dev obtain m w2 has where
      obs: "observe_placement env g entry device ?ep has allow w1 = (Inr m, w2)"
      and place: "place_and_apply env g entry device ?ep m w2 = (Inr n, w')"
      by (auto simp: commit_pending_queue_track_guarded_def Let_def ready w1
          split: if_splits prod.splits sum.splits)
    from still_place [OF env(5) place] still_observe [OF env(3,4) obs] w1 None
    show ?thesis by (auto simp: no_later_def)
  qed
qed

lemma still_resume:
  assumes env: "still (re_locks env)" "still (re_snap env)" "still_guard (re_resume env)"
    and run: "resume_stopped_queue_frontier_guarded env g epoch w = (Inr n, w')"
    and stopped: "jam_queue_control_stopped (w_jam w)"
  shows "n = jam_queue_control_epoch (w_jam w) \<and> jam_queue_control_epoch (w_jam w') = n
    \<and> stop_flag (w_jam w') = 0 \<and> jam_queue (w_jam w') = jam_queue (w_jam w)"
proof -
  obtain cur w1 where ready: "ensure_jam_recovery_controls_ready (re_snap env)
      (snd (re_locks env w)) = (Inr cur, w1)"
    using run by (auto simp: resume_stopped_queue_frontier_guarded_def split: prod.splits sum.splits)
  have w1: "w_jam w1 = w_jam w"
    using still_ready [OF env(2) ready] env(1) by (simp add: still_locks)
  from run stopped obtain device u w2 where
    op: "run_guarded_spotify_recovery_operation (re_resume env) g device
        ''Resuming the stopped Spotify queue'' (issue (ResumeSpotify (dev_id device)) w1) = (Inr u, w2)"
    and w': "w' = with_jam w2 (\<lambda>jam. (playing_now device (re_now env) jam)\<lparr>jam_queue_control_stopped := False\<rparr>)"
    and n: "n = jam_queue_control_epoch (w_jam w1)"
    by (auto simp: resume_stopped_queue_frontier_guarded_def Let_def ready w1
        split: if_splits option.splits prod.splits sum.splits)
  have "w_jam w2 = w_jam w" using still_operation [OF env(3) op] w1 by simp
  with w' n w1 show ?thesis by (simp add: playing_now_def stop_flag_def)
qed

definition turns_left :: "bool option \<Rightarrow> u64 \<Rightarrow> jam_state \<Rightarrow> nat" where
  "turns_left mode epoch j = 2 * (2 - frontier_count (jam_queue j)) + stop_flag j
     + (if cached_queue_mode epoch (jam_queue_control_epoch j) mode = None then 3 else 0)"

lemma turn_decreases:
  assumes env: "still_pump env"
    and run: "pump_turn env g allow mode epoch w = (Some (mode', epoch'), w')"
  shows "turns_left mode' epoch' (w_jam w') < turns_left mode epoch (w_jam w)"
proof -
  note env' = env [unfolded still_pump_def]
  consider (resume) "jam_queue_control_stopped (w_jam w)" "mode' = Some True"
      "resume_stopped_queue_frontier_guarded (pe_resume_env env) g epoch w = (Inr epoch', w')"
    | (commit) e where "queue_frontier_candidate (jam_queue (w_jam w)) = Some e" "mode' = Some True"
      "commit_pending_queue_track_guarded (pe_commit_env env) g e mode epoch allow w = (Inr epoch', w')"
    using run
    by (auto simp: pump_turn_def Let_def stopped_frontier_should_resume_def
        split: if_splits option.splits prod.splits sum.splits)
  then show ?thesis
  proof cases
    case resume
    from still_resume [OF _ _ _ resume(3,1)] env' resume(1,2)
    show ?thesis by (auto simp: turns_left_def stop_flag_def cached_queue_mode_def)
  next
    case commit
    have few: "frontier_count (jam_queue (w_jam w)) < 2"
      using commit(1) by (auto simp: queue_frontier_candidate_def
          SPOTIFY_COMMITTED_QUEUE_FRONTIER_def split: if_splits)
    from still_commit [OF _ _ _ _ _ commit(3)] env' commit(2) few
    show ?thesis by (auto simp: turns_left_def cached_queue_mode_def split: if_splits)
  qed
qed

lemma pump_loop_returns:
  "list_all still_pump envs \<Longrightarrow> turns_left mode epoch (w_jam w) < length envs \<Longrightarrow>
     fst (pump_loop envs g allow mode epoch w)"
proof (induction envs arbitrary: mode epoch w)
  case (Cons env envs)
  obtain x w1 where turn: "pump_turn env g allow mode epoch w = (x, w1)" by fastforce
  show ?case
  proof (cases x)
    case (Some p)
    obtain m e where p: "p = (m, e)" by (cases p)
    with turn Some Cons.prems have "turns_left m e (w_jam w1) < length envs"
      using turn_decreases [of env g allow mode epoch w m e w1] by simp
    with Cons turn Some p show ?thesis by simp
  qed (simp add: turn)
qed simp

lemma turns_left_bound: "turns_left mode epoch j \<le> 8"
proof -
  have "2 - frontier_count (jam_queue j) \<le> 2" by simp
  then show ?thesis unfolding turns_left_def stop_flag_def by (auto split: if_splits)
qed

end
