(* ===== verification/QueueProperties.thy ===== *)
theory QueueProperties
  imports JamFrontier
begin

text \<open>
  What the queue promises: the properties of \<open>JamQueue\<close>, \<open>JamSkipQueue\<close> and \<open>JamFrontier\<close> with
  the concrete queues, Jams and surroundings at which they are exercised.
\<close>

section \<open>Examples\<close>

definition demo_track :: "string \<Rightarrow> string \<Rightarrow> queued_track" where
  "demo_track i uri =
     \<lparr>qt_queue_entry_id = i, qt_queue_batch_id = None, qt_spotify_id = uri, qt_spotify_uri = uri,
      qt_spotify_url = [], qt_name = i, qt_artist = [], qt_album_art_url = [],
      qt_duration_ms = 180000, qt_added_at_ms = 0, qt_added_by_actor_id = ''sam'',
      qt_added_by_name = ''Sam'', qt_playlist = None, qt_playlist_position = None,
      qt_added_by = ''Sam''\<rparr>"

definition demo_pending :: "string \<Rightarrow> string \<Rightarrow> jam_queue_entry" where
  "demo_pending i uri = pending_queue_entry (demo_track i uri)"

definition demo_committed :: "string \<Rightarrow> string \<Rightarrow> jam_queue_entry" where
  "demo_committed i uri = commit_entry StartedCurrent (demo_pending i uri)"

definition demo_waiting :: "string \<Rightarrow> string \<Rightarrow> jam_queue_entry" where
  "demo_waiting i uri = commit_entry QueuedNext (demo_pending i uri)"

lemmas demo_entries = demo_track_def demo_pending_def demo_committed_def demo_waiting_def
  commit_entry_def pending_queue_entry_def

definition demo_jam :: "jam_queue \<Rightarrow> jam_state" where
  "demo_jam q = jam_default\<lparr>jam_active := True, jam_generation := 1, jam_queue := q,
     jam_spotify_device_id := Some ''pc'', jam_host_identity := ''sam'',
     jam_host_participant_auth_id := ''auth'', jam_listeners := [(''sam'', ''auth'')]\<rparr>"

definition demo_world :: "jam_queue \<Rightarrow> world" where
  "demo_world q = \<lparr>w_jam = demo_jam q, w_bot = Some (1, True), w_commands = []\<rparr>"

definition demo_snapshot :: "u64 \<Rightarrow> jam_source_snapshot" where
  "demo_snapshot g =
     \<lparr>snap_configured = True, snap_connected = True, snap_availability_known = True,
      snap_enabled = True, snap_status = ''live'', snap_error = None, snap_generation = Some g,
      snap_ready = True, snap_pid = None, snap_sample_rate = None, snap_channels = None,
      snap_last_frame_ms = None, snap_peak = 0, snap_repair_supported = False\<rparr>"

definition answer :: "'a \<Rightarrow> 'a await" where
  "answer a w = (a, w)"

definition demo_guard :: "'r \<Rightarrow> 'r guard_env" where
  "demo_guard r = \<lparr>ge_op = answer (OpFinished r), ge_snap = answer (demo_snapshot 1),
     ge_pause = answer (), ge_now = 0\<rparr>"

definition demo_playing :: spotify_placement_observation where
  "demo_playing = \<lparr>po_playback_present = True, po_bound_device = True, po_is_playing = True,
     po_current_uri = Some ''a'', po_progress_ms = 0, po_duration_ms = 180000\<rparr>"

definition demo_commit_env :: commit_env where
  "demo_commit_env =
     \<lparr>cm_locks = answer (), cm_snap = answer (demo_snapshot 1),
      cm_read = demo_guard (Inr demo_playing), cm_read_now = 0,
      cm_resume = demo_guard (Inr ()), cm_pause = answer (), cm_now = 0,
      cm_place = (\<lambda>p. demo_guard (Inr p))\<rparr>"

definition demo_pump_env :: pump_env where
  "demo_pump_env =
     \<lparr>pe_resume_env = \<lparr>re_locks = answer (), re_snap = answer (demo_snapshot 1),
        re_resume = demo_guard (Inr ()), re_pause = answer (), re_now = 0\<rparr>,
      pe_commit_env = demo_commit_env, pe_settle = answer ()\<rparr>"

lemmas demo_envs = demo_pump_env_def demo_commit_env_def demo_guard_def answer_def

lemma demo_relied: "relied_pump g demo_pump_env"
  by (simp add: demo_envs relied_pump_def relied_commit_def relied_guard_def relied_def)

lemma demo_still: "still_pump demo_pump_env"
  by (simp add: demo_envs still_pump_def still_guard_def still_def)

definition demo_queue :: jam_queue where
  "demo_queue = [demo_committed ''e1'' ''a'', demo_pending ''e2'' ''b'', demo_pending ''e3'' ''c'']"

definition demo_playing_queue :: jam_queue where
  "demo_playing_queue = [demo_committed ''e1'' ''a'', demo_committed ''e2'' ''b'',
     demo_pending ''e3'' ''c'']"

lemma demo_queue_ok: "jam_queue_ok (w_jam (demo_world demo_queue))"
  by (simp add: demo_world_def demo_jam_def demo_queue_def demo_entries jam_queue_ok_def queue_ok_def
      entry_ok_def delivery_order)

lemma demo_jam_ok: "jam_queue_ok (demo_jam demo_queue)"
  using demo_queue_ok by (simp add: demo_world_def)

definition demo_device :: spotify_device where
  "demo_device = \<lparr>dev_id = ''pc'', dev_name = ''PC'', dev_is_restricted = False\<rparr>"

section \<open>The pump\<close>

text \<open>
  C1: whatever other tasks do to the Jam while the pump waits, as far as the locks it holds let
  them, and whatever Spotify answers, the pump keeps the queue's invariant: accepted entries come
  first, at most two are ahead at Spotify, at most one acceptance is unknown, entry identifiers
  stay distinct, and exactly the pending entries can be removed.
\<close>

theorem pump_keeps_queue_invariant:
  assumes "list_all (relied_pump g) envs" and "jam_queue_ok (w_jam w)"
  shows "jam_queue_ok (w_jam (snd (pump_queue_frontier_locked envs g epoch allow w)))"
  using pump_loop_queue_ok [OF assms, of allow None epoch]
  by (cases "pump_loop envs g allow None epoch w") (simp add: pump_queue_frontier_locked_def)

theorem pump_keeps_queue_invariant_witness:
  "jam_queue_ok (w_jam (snd (pump_queue_frontier_locked [demo_pump_env, demo_pump_env] 1 0 False
     (demo_world demo_queue))))"
  by (rule pump_keeps_queue_invariant) (simp_all add: demo_relied demo_queue_ok)

text \<open>
  C25: with no other task touching the Jam, the pump's loop returns by its ninth turn, whatever the
  queue, the epochs and Spotify's answers are.
\<close>

theorem pump_terminates:
  assumes "list_all still_pump envs" and "9 \<le> length envs"
  shows "fst (pump_queue_frontier_locked envs g epoch allow w)"
proof -
  have "turns_left None epoch (w_jam w) < length envs"
    using turns_left_bound [of None epoch "w_jam w"] assms(2) by simp
  then show ?thesis
    unfolding pump_queue_frontier_locked_def by (rule pump_loop_returns [OF assms(1)])
qed

theorem pump_terminates_witness:
  "fst (pump_queue_frontier_locked (replicate 9 demo_pump_env) 1 0 True (demo_world demo_queue))"
  by (rule pump_terminates) (simp_all add: demo_still list_all_iff)

text \<open>A commit that Spotify accepted records exactly one entry: it succeeds only for an entry that
  is still pending in the active Jam on the same device, marks that entry committed and no longer
  removable, keeps every other entry in place, and moves the revision by one; otherwise the Jam is
  untouched.
\<close>

lemma commit_records_one_entry:
  assumes "jam_queue_ok jam"
  shows "case apply_commit jam g device eid placement now of
      (jam', False) \<Rightarrow> jam' = jam
    | (jam', True) \<Rightarrow>
        (\<exists>pre e post. jam_queue jam = pre @ e # post \<and> entry_id e = eid
           \<and> qe_delivery_state e = Pending \<and> jam_queue jam' = pre @ commit_entry placement e # post)
        \<and> jam_active jam \<and> jam_generation jam = g
        \<and> jam_spotify_device_id jam = Some (dev_id device)
        \<and> jam_queue_revision jam' = jam_queue_revision jam + 1"
proof -
  obtain jam' ok where ap: "apply_commit jam g device eid placement now = (jam', ok)" by fastforce
  show ?thesis
  proof (cases ok)
    case True
    have ap': "apply_commit jam g device eid placement now = (jam', True)" using ap True by simp
    then obtain e where e: "List.find (\<lambda>e. entry_id e = eid) (jam_queue jam) = Some e"
      "qe_delivery_state e = Pending"
      and dev: "jam_spotify_device_id jam = Some (dev_id device)"
      by (auto simp: apply_commit_def bound_now_def Let_def split: if_splits option.splits)
    from find_first [OF e(1)] obtain pre post where q: "jam_queue jam = pre @ e # post"
      "entry_id e = eid" "\<forall>x \<in> set pre. entry_id x \<noteq> eid" by blast
    have "update_first (\<lambda>e. entry_id e = eid) (commit_entry placement) (jam_queue jam)
        = pre @ commit_entry placement e # post"
      unfolding q(1) using q(2,3) by (intro update_first_split) auto
    with apply_commit_result [OF ap'] q e dev True ap show ?thesis
      by (auto simp: active_generation_matches_def)
  next
    case False
    with ap have "jam' = jam"
      by (auto simp: apply_commit_def Let_def split: if_splits option.splits)
    with ap False show ?thesis by simp
  qed
qed

section \<open>What an observation may change\<close>

text \<open>Reconciling the queue with the track Spotify reports removes accepted entries from the
  front only, leaves the rest as it was, and names exactly the tracks it removed; when some
  accepted entry may be that track, the front of the new queue is that track.
\<close>

lemma reconcile_retires_played_prefix:
  assumes "queue_ok q"
  shows "\<exists>gone. q = gone @ fst (reconcile_queue_to_current q uri)
     \<and> snd (reconcile_queue_to_current q uri) = map qe_track gone
     \<and> (\<forall>e \<in> set gone. qe_delivery_state e = SpotifyCommitted \<and> entry_uri e \<noteq> uri)
     \<and> (uri \<noteq> [] \<and> list_ex (eligible_current uri) q \<longrightarrow>
          (\<exists>e rest. fst (reconcile_queue_to_current q uri) = e # rest \<and> entry_uri e = uri))"
proof (cases "uri \<noteq> [] \<and> list_ex (eligible_current uri) q")
  case True
  then obtain i where i: "find_index (eligible_current uri) q = Some i"
    by (metis find_index_None list_ex_iff not_Some_eq)
  from find_index_Some [OF i] have len: "i < length q" and hit: "eligible_current uri (q ! i)" by auto
  have com: "qe_delivery_state (q ! i) = SpotifyCommitted" and at: "entry_uri (q ! i) = uri"
    using hit by (simp_all add: eligible_current_def)
  have split: "q = take i q @ q ! i # drop (Suc i) q" using len by (rule id_take_nth_drop)
  have before: "\<forall>x \<in> set (take i q). qe_delivery_state x = SpotifyCommitted"
    using sorted_before_committed [of "take i q" "q ! i"] assms com split by metis
  then have safe: "\<not> list_ex (\<lambda>e. qe_delivery_state e = CommitUnknown) (take i q)"
    by (auto simp: list_ex_iff)
  have res: "reconcile_queue_to_current q uri = (dropWhile (\<lambda>e. entry_uri e \<noteq> uri) q,
      map qe_track (takeWhile (\<lambda>e. entry_uri e \<noteq> uri) q))"
    using True i safe by (simp add: reconcile_queue_to_current_def)
  have "length (takeWhile (\<lambda>e. entry_uri e \<noteq> uri) q) \<le> i"
    using at len by (metis (mono_tags, lifting) not_less nth_mem set_takeWhileD takeWhile_nth)
  then have "set (takeWhile (\<lambda>e. entry_uri e \<noteq> uri) q) \<subseteq> set (take i q)"
    by (metis set_take_subset_set_take takeWhile_eq_take)
  with before have gone: "\<forall>e \<in> set (takeWhile (\<lambda>e. entry_uri e \<noteq> uri) q).
      qe_delivery_state e = SpotifyCommitted \<and> entry_uri e \<noteq> uri"
    using set_takeWhileD by fastforce
  have "dropWhile (\<lambda>e. entry_uri e \<noteq> uri) q \<noteq> []"
    using at len by (auto simp: dropWhile_eq_Nil_conv)
  then have "\<exists>e rest. dropWhile (\<lambda>e. entry_uri e \<noteq> uri) q = e # rest \<and> entry_uri e = uri"
    using hd_dropWhile [of "\<lambda>e. entry_uri e \<noteq> uri" q] by (cases "dropWhile (\<lambda>e. entry_uri e \<noteq> uri) q") auto
  with res gone show ?thesis
    by (intro exI [of _ "takeWhile (\<lambda>e. entry_uri e \<noteq> uri) q"]) auto
next
  case False
  then have "reconcile_queue_to_current q uri = (q, [])"
    by (auto simp: reconcile_queue_to_current_def list_ex_iff dest!: find_index_Some split: option.splits)
  with False show ?thesis by auto
qed

text \<open>What the Jam settles its queue with outside an ordinary observation of the player.\<close>

datatype boundary_observation =
    SkipObserved "string option" "spotify_queue_observation option"
  | NothingPlaying instant
  | PlacementObserved spotify_placement_observation instant

fun observe_boundary :: "boundary_observation \<Rightarrow> jam_state \<Rightarrow> jam_state" where
  "observe_boundary (SkipObserved uri obs) jam = fst (reconcile_uncertain_skip_boundary jam uri obs)"
| "observe_boundary (NothingPlaying now) jam = fst (reconcile_queue_after_no_content jam now)"
| "observe_boundary (PlacementObserved obs now) jam =
     fst (retire_stale_frontier_for_queue_placement jam obs now)"

interpretation boundary: jam_observation observe_boundary
proof (unfold_locales, goal_cases)
  case (1 j x)
  then show ?case
    using uncertain.step_advances [where j = j] no_content.step_advances [where j = j] stale.step_advances [where j = j]
    by (cases x) auto
next
  case (2 j x)
  then show ?case
    using uncertain.step_same_jam [where j = j] no_content.step_same_jam [where j = j] stale.step_same_jam [where j = j]
    by (cases x) auto
next
  case (3 x j)
  show ?case
  proof (cases x)
    case (SkipObserved u obs)
    then show ?thesis using uncertain.step_revision [where j = j and x = "(u, obs)"] by simp
  next
    case (NothingPlaying now)
    then show ?thesis using no_content.step_revision [where j = j and x = now] by simp
  next
    case (PlacementObserved obs now)
    then show ?thesis using stale.step_revision [where j = j and x = "(obs, now)"] by simp
  qed
qed

text \<open>Over any run of them the queue keeps its invariant, only accepted
  entries are retired and the entries Spotify has not accepted stay as they were and in order,
  the Jam stays the same Jam, and an unchanged revision means an unchanged queue, so that a
  client that compares revisions misses no change.
\<close>

lemma observations_keep_unaccepted_and_revise:
  assumes "jam_queue_ok jam" and "length observations \<le> u64_max"
  shows "let jam' = fold observe_boundary observations jam in
       jam_queue_ok jam' \<and> same_jam jam jam'
     \<and> filter (\<lambda>e. qe_delivery_state e \<noteq> SpotifyCommitted) (jam_queue jam')
         = filter (\<lambda>e. qe_delivery_state e \<noteq> SpotifyCommitted) (jam_queue jam)
     \<and> (\<exists>n. map qe_track (jam_queue jam') = drop n (map qe_track (jam_queue jam)))
     \<and> (jam_queue_revision jam' = jam_queue_revision jam \<longrightarrow> jam_queue jam' = jam_queue jam)"
  using boundary.run_queue_ok [OF assms(1)] boundary.run_same_jam
    advances_keeps_uncommitted [OF boundary.run_advances [OF assms(1)]]
    advances_tracks_suffix [OF boundary.run_advances [OF assms(1)]]
    boundary.run_revision_detects_change [OF assms(2)]
  by (simp add: boundary.run_def)

section \<open>Skips\<close>

lemma unlock_at_tracks: "i < length q \<Longrightarrow> map qe_track (q[i := unlock (q ! i)]) = map qe_track q"
  by (metis list_update_id map_update nth_map unlock_simps(1))

lemma pre_skip_tracks:
  "reconcile_authoritative_pre_skip_current q u p r = (q', removed, c) \<Longrightarrow>
     map qe_track q = removed @ map qe_track q'"
  by (auto simp: reconcile_authoritative_pre_skip_current_def Let_def unlock_at_tracks
      simp flip: map_append take_map drop_map
      split: option.splits if_splits dest!: target_index_matches)

lemma retire_skipped_tracks:
  "retire_skipped_queue_frontier q u = (q', removed) \<Longrightarrow>
     map qe_track q = (case removed of Some t \<Rightarrow> [t] | None \<Rightarrow> []) @ map qe_track q'"
  by (auto simp: retire_skipped_queue_frontier_def take_eligible_front_def
      split: option.splits list.splits if_splits)

lemma unlock_front_tracks: "unlock_front q = (q', c) \<Longrightarrow> map qe_track q' = map qe_track q"
  by (auto simp: unlock_front_def split: list.splits if_splits)

lemma skip_tracks:
  "apply_successful_skip_to_queue q u p r = (q', t) \<Longrightarrow>
     map qe_track q = st_removed_before_current t
       @ (case st_removed t of Some x \<Rightarrow> [x] | None \<Rightarrow> []) @ map qe_track q'"
  by (auto simp: apply_successful_skip_to_queue_def transition_default_def Let_def
      split: if_splits prod.splits
      dest!: pre_skip_tracks retire_skipped_tracks unlock_front_tracks)

text \<open>
  C17: a successful skip cuts the queue at the track that was playing: the tracks it reports as
  removed, followed by the tracks left, are the tracks it found; only entries Spotify had accepted
  go, the invariant stays, the entries Spotify has not accepted are untouched, and the transition
  reports a change whenever the queue changed.
\<close>

theorem skip_cuts_accepted_prefix:
  assumes "queue_ok q"
  shows "case apply_successful_skip_to_queue q current_uri previous_uri resolution of (q', t) \<Rightarrow>
       map qe_track q = st_removed_before_current t
         @ (case st_removed t of Some x \<Rightarrow> [x] | None \<Rightarrow> []) @ map qe_track q'
     \<and> queue_ok q'
     \<and> filter (\<lambda>e. qe_delivery_state e \<noteq> SpotifyCommitted) q'
         = filter (\<lambda>e. qe_delivery_state e \<noteq> SpotifyCommitted) q
     \<and> (q' \<noteq> q \<longrightarrow> transition_changed t)"
  using skip.step_queue_ok [OF assms, of "(current_uri, previous_uri, resolution)"]
    skip.step_keeps_uncommitted [OF assms, of "(current_uri, previous_uri, resolution)"]
  by (auto split: prod.split dest: skip_tracks skip_flag)

theorem skip_cuts_accepted_prefix_witness:
  "case apply_successful_skip_to_queue demo_playing_queue (Some ''a'') None NotNeeded of (q', t) \<Rightarrow>
       map qe_track demo_playing_queue = st_removed_before_current t
         @ (case st_removed t of Some x \<Rightarrow> [x] | None \<Rightarrow> []) @ map qe_track q'
     \<and> queue_ok q'
     \<and> filter (\<lambda>e. qe_delivery_state e \<noteq> SpotifyCommitted) q'
         = filter (\<lambda>e. qe_delivery_state e \<noteq> SpotifyCommitted) demo_playing_queue
     \<and> (q' \<noteq> demo_playing_queue \<longrightarrow> transition_changed t)"
  by (rule skip_cuts_accepted_prefix)
    (simp add: demo_playing_queue_def demo_entries queue_ok_def entry_ok_def delivery_order)

text \<open>An ambiguous skip is settled by the first observation that can tell: without a reported
  track the fence and the whole Jam stay; a different track means the skip was accepted; the same
  track means it was rejected, except where the queue holds the same track twice, when Spotify's
  own queue must show whether that track is still next. Settling clears the fence.
\<close>

lemma uncertain_skip_settled_by_observation:
  assumes "jam_uncertain_skip jam = Some b"
  shows "case reconcile_uncertain_skip_boundary jam uri obs of (jam', result) \<Rightarrow>
       (nonblank uri = None \<longrightarrow> result = Some StillPending)
     \<and> (\<forall>u. nonblank uri = Some u \<and> u \<noteq> us_pre_skip_current_uri b \<longrightarrow> result = Some Accepted)
     \<and> (nonblank uri = Some (us_pre_skip_current_uri b) \<longrightarrow>
          (if us_same_uri_resolution b \<noteq> AwaitingStillNext then result = Some Rejected
           else case obs of None \<Rightarrow> result = Some StillPending
             | Some seen \<Rightarrow>
                 if so_current_uri seen \<noteq> us_pre_skip_current_uri b then result = Some StillPending
                 else if so_next_uri seen = Some (us_pre_skip_current_uri b)
                 then result = Some Rejected else result = Some Accepted))
     \<and> (result = Some StillPending \<longrightarrow> jam' = jam)
     \<and> (result \<noteq> Some StillPending \<longrightarrow> jam_uncertain_skip jam' = None)"
proof -
  let ?res = "resolve_observation b uri obs"
  have shape: "case reconcile_uncertain_skip_boundary jam uri obs of (jam', result) \<Rightarrow>
      result = Some ?res \<and> (?res = StillPending \<longrightarrow> jam' = jam)
      \<and> (?res \<noteq> StillPending \<longrightarrow> jam_uncertain_skip jam' = None)"
    using assms by (cases ?res)
      (auto simp: reconcile_uncertain_skip_boundary_def Let_def split: prod.splits)
  have "(nonblank uri = None \<longrightarrow> ?res = StillPending)"
    "\<forall>u. nonblank uri = Some u \<and> u \<noteq> us_pre_skip_current_uri b \<longrightarrow> ?res = Accepted"
    "nonblank uri = Some (us_pre_skip_current_uri b) \<longrightarrow>
       ?res = (if us_same_uri_resolution b \<noteq> AwaitingStillNext then Rejected
         else case obs of None \<Rightarrow> StillPending
           | Some seen \<Rightarrow> if so_current_uri seen \<noteq> us_pre_skip_current_uri b then StillPending
               else if so_next_uri seen = Some (us_pre_skip_current_uri b) then Rejected else Accepted)"
    by (auto simp: resolve_observation_def queue_observation_required_def split: option.splits)
  with shape show ?thesis by (auto split: option.splits)
qed

section \<open>Fences\<close>

text \<open>After Stop Music the background pump places nothing: while the queue is stopped and no one
  asked to resume it, the pump returns at its first turn and neither the Jam nor Spotify sees it.
\<close>

lemma stopped_queue_is_not_pumped:
  assumes "jam_queue_control_stopped (w_jam (snd (lock w)))" and "envs \<noteq> []"
  shows "pump_queue_frontier lock envs g w = (True, snd (lock w))"
  using assms
  by (cases envs) (auto simp: pump_queue_frontier_def pump_queue_frontier_locked_def pump_turn_def
      stopped_frontier_should_resume_def Let_def)

section \<open>What the pump places\<close>

text \<open>The placements sent to Spotify; an await places nothing if what runs during it sends none.\<close>

definition placements :: "world \<Rightarrow> command list" where
  "placements w = filter (\<lambda>c. case c of PlaceTrack _ _ _ \<Rightarrow> True | _ \<Rightarrow> False) (w_commands w)"

definition places_nothing :: "'a await \<Rightarrow> bool" where
  "places_nothing e \<longleftrightarrow> (\<forall>w. placements (snd (e w)) = placements w)"

lemma placements_sel [simp]:
  "placements (with_jam w f) = placements w" "placements (w\<lparr>w_jam := jam\<rparr>) = placements w"
  "placements (issue (ResumeSpotify d) w) = placements w" "placements (issue (PauseSpotify d) w) = placements w"
  by (simp_all add: placements_def with_jam_def issue_def)

lemma placements_await: "places_nothing e \<Longrightarrow> e w = (r, w') \<Longrightarrow> placements w' = placements w"
  by (metis places_nothing_def snd_conv)

lemma placements_ready:
  "places_nothing snap \<Longrightarrow> ensure_jam_recovery_controls_ready snap w = (r, w') \<Longrightarrow> placements w' = placements w"
  by (auto simp: ensure_jam_recovery_controls_ready_def Let_def dest: placements_await split: if_splits prod.splits)

lemma placements_pause:
  "places_nothing pause \<Longrightarrow> placements (pause_bound_spotify_before_release pause d w) = placements w"
  by (simp add: pause_bound_spotify_before_release_def places_nothing_def split: option.split)

lemma placements_safety_stop:
  "places_nothing pause \<Longrightarrow> placements (pause_and_mark_spotify_safety_stop pause now g device e w) = placements w"
  by (simp add: pause_and_mark_spotify_safety_stop_def Let_def placements_pause split: prod.split bool.split)

definition placeless_guard :: "'r guard_env \<Rightarrow> bool" where
  "placeless_guard env \<longleftrightarrow> places_nothing (ge_op env) \<and> places_nothing (ge_snap env) \<and> places_nothing (ge_pause env)"

lemma placements_operation:
  assumes env: "placeless_guard env"
    and run: "run_guarded_spotify_recovery_operation env g device name w = (r, w')"
  shows "placements w' = placements w"
proof -
  obtain out w1 where op: "ge_op env w = (out, w1)" by fastforce
  obtain ready w2 where ready: "ensure_jam_recovery_controls_ready (ge_snap env) w1 = (ready, w2)" by fastforce
  have "placements w1 = placements w" "placements w2 = placements w1"
    using env placements_await [where e = "ge_op env", OF _ op] placements_ready [OF _ ready]
    by (simp_all add: placeless_guard_def)
  moreover have "places_nothing (ge_pause env)" using env by (simp add: placeless_guard_def)
  ultimately show ?thesis
    using run unfolding run_guarded_spotify_recovery_operation_def Let_def op prod.case ready
    by (auto simp: placements_safety_stop split: select_outcome.splits sum.splits if_splits)
qed

text \<open>
  While the pump waits, holding the lock of the queue, other tasks may observe the player, stop the music
  or end the Jam, but place nothing.
\<close>

definition waits_quietly :: "u64 \<Rightarrow> resume_env \<Rightarrow> bool" where
  "waits_quietly g env \<longleftrightarrow> relied g (re_locks env) \<and> relied g (re_snap env) \<and> relied_guard g (re_resume env)
     \<and> relied g (re_pause env) \<and> places_nothing (re_locks env) \<and> places_nothing (re_snap env)
     \<and> placeless_guard (re_resume env) \<and> places_nothing (re_pause env)"

lemma resume_places_nothing:
  assumes env: "waits_quietly g env"
    and run: "resume_stopped_queue_frontier_guarded env g epoch w = (r, w')"
  shows "rely g w w' \<and> placements w' = placements w"
proof
  show "rely g w w'"
    by (rule rely_resume_frontier [OF _ _ _ _ run]) (use env in \<open>simp_all add: waits_quietly_def\<close>)
  obtain ready w1 where ready: "ensure_jam_recovery_controls_ready (re_snap env) (snd (re_locks env w)) = (ready, w1)"
    by fastforce
  have w1: "placements w1 = placements w"
    using env placements_ready [OF _ ready] by (simp add: waits_quietly_def places_nothing_def)
  have resumed: "placements w2 = placements w"
    if "run_guarded_spotify_recovery_operation (re_resume env) g device name (issue (ResumeSpotify d) w1) = (x, w2)"
    for device name d x w2
    using placements_operation [OF _ that] env w1 by (simp add: waits_quietly_def)
  have pause: "places_nothing (re_pause env)" using env by (simp add: waits_quietly_def)
  show "placements w' = placements w"
    using run w1 unfolding resume_stopped_queue_frontier_guarded_def Let_def ready
    by (auto simp: placements_pause [OF pause] split: sum.splits if_splits option.splits prod.splits
        dest: resumed)
qed

definition unknown_entry :: "jam_queue \<Rightarrow> string \<Rightarrow> bool" where
  "unknown_entry q i \<longleftrightarrow> (\<exists>u \<in> set q. entry_id u = i \<and> qe_delivery_state u = CommitUnknown \<and> \<not> qe_can_remove u)"

lemma unknown_entry_kept:
  assumes "advances q q'" "unknown_entry q i"
  shows "unknown_entry q' i"
proof -
  obtain u where u: "u \<in> set q" "entry_id u = i" "qe_delivery_state u = CommitUnknown" "\<not> qe_can_remove u"
    using assms(2) by (auto simp: unknown_entry_def)
  then have "u \<in> set (filter (\<lambda>e. qe_delivery_state e \<noteq> SpotifyCommitted) q')"
    using advances_keeps_uncommitted [OF assms(1)] by simp
  with u show ?thesis by (auto simp: unknown_entry_def)
qed

lemma unknown_blocks_candidate: "unknown_entry q i \<Longrightarrow> queue_frontier_candidate q = None"
  by (auto simp: queue_frontier_candidate_def queue_has_commit_unknown_def unknown_entry_def list_ex_iff)

lemma unknown_turn_places_nothing:
  assumes env: "waits_quietly g (pe_resume_env env)"
    and unknown: "active_generation_matches (w_jam w) g \<Longrightarrow> unknown_entry (jam_queue (w_jam w)) i"
    and run: "pump_turn env g allow mode epoch w = (r, w')"
  shows "rely g w w' \<and> placements w' = placements w"
proof -
  have failed: "rely g v (with_jam v (\<lambda>jam. if active_generation_matches jam g then jam\<lparr>jam_last_error := e\<rparr> else jam))"
    for v e by (rule rely_same_jam_queue) simp_all
  have none: "active_generation_matches (w_jam w) g \<Longrightarrow> queue_frontier_candidate (jam_queue (w_jam w)) = None"
    using unknown unknown_blocks_candidate by blast
  show ?thesis
    using run none unfolding pump_turn_def Let_def
    by (auto split: if_splits sum.splits prod.splits
        dest!: resume_places_nothing [OF env] intro: rely_trans [OF _ failed])
qed

lemma unknown_pump_places_nothing:
  "list_all (\<lambda>env. waits_quietly g (pe_resume_env env)) envs \<Longrightarrow> jam_queue_ok (w_jam w)
   \<Longrightarrow> unknown_entry (jam_queue (w_jam w)) i \<or> \<not> active_generation_matches (w_jam w) g
   \<Longrightarrow> pump_loop envs g allow mode epoch w = (r, w') \<Longrightarrow> rely g w w' \<and> placements w' = placements w"
proof (induction envs arbitrary: mode epoch w)
  case (Cons env envs)
  obtain x w1 where turn: "pump_turn env g allow mode epoch w = (x, w1)" by fastforce
  have one: "rely g w w1 \<and> placements w1 = placements w"
    using unknown_turn_places_nothing [OF _ _ turn] Cons.prems(1,3) by auto
  show ?case
  proof (cases x)
    case None
    then show ?thesis using Cons.prems(4) one turn by simp
  next
    case (Some me)
    have "jam_queue_ok (w_jam w1)" using one Cons.prems(2) by (simp add: rely_def)
    moreover have "unknown_entry (jam_queue (w_jam w1)) i \<or> \<not> active_generation_matches (w_jam w1) g"
      using one Cons.prems(2,3) unknown_entry_kept unfolding rely_def by blast
    ultimately have "rely g w1 w' \<and> placements w' = placements w1"
      using Cons.IH [of w1 "fst me" "snd me"] Cons.prems(1,4) turn Some by (cases me) simp
    then show ?thesis using one rely_trans by metis
  qed
qed simp

end
