(* ===== verification/LifecycleProperties.thy ===== *)
theory LifecycleProperties
  imports QueueProperties
begin

text \<open>
  What the life of a Jam promises: the properties of \<open>JamLifecycle\<close> and \<open>JamHandlers\<close>. The await
  points of a handler are \<open>fenced\<close>: the lock \<open>jam_lifecycle\<close> that the handler holds keeps every
  other task from starting, ending or rebinding the Jam and from starting playback.
\<close>

section \<open>Starting and ending\<close>

lemma answer_fenced [simp]: "fenced (answer a)"
  by (simp add: fenced_def answer_def)

text \<open>
  C7: a start either succeeds or leaves the Jam as it was. When it succeeds no Jam was running,
  the participant is the host and a listener, the device is bound, and the Jam has the next
  generation. When it fails, whatever happened at Spotify meanwhile, no Jam is left starting and
  the source is never released without a pause sent after the last command that could start
  playback.
\<close>

theorem jam_start_outcome:
  assumes "fenced_env env" and "quiet w"
    and "jam_start env admin_refused identity participant w = (res, w')"
  shows "case res of
      Inl _ \<Rightarrow> quiet w' \<and> jam_active (w_jam w') = jam_active (w_jam w)
        \<and> jam_starting (w_jam w') = jam_starting (w_jam w)
    | Inr g \<Rightarrow> \<not> jam_active (w_jam w) \<and> \<not> jam_starting (w_jam w)
        \<and> g = next_generation (jam_generation (w_jam w)) \<and> jam_generation (w_jam w') = g
        \<and> jam_active (w_jam w') \<and> \<not> jam_starting (w_jam w') \<and> scan w' \<noteq> None
        \<and> (\<exists>sub auth_id device. participant = Inr (sub, Some auth_id)
             \<and> started sub auth_id device (w_jam w'))"
proof -
  note env' = assms(1) [unfolded fenced_env_def]
  let ?early = "(\<exists>e. res = Inl e) \<and> lifecycle w' = lifecycle w \<and> quiet w'"
  obtain source w1 where source: "se_snap_before env w = (source, w1)" by fastforce
  have w1: "at (lifecycle w) w1"
    using fenced_at [of "se_snap_before env" "lifecycle w" w] assms(2) source env' by (simp add: at_def)
  have ?thesis if ?early using that by (auto simp: lifecycle_def)
  moreover have "?thesis" if "\<not> ?early"
  proof -
    from that assms(2,3) source w1 obtain sub auth_id jam where
      part: "participant = Inr (sub, Some auth_id)" and jam: "begin_start (w_jam w1) = Inr jam"
      and rest: "(res, w') = (let (resolved, w2) = se_resolve env (w1\<lparr>w_jam := jam\<rparr>)
         in case resolved of
              Inl error \<Rightarrow> (Inl error, with_jam w2 (fail_jam_start (jam_generation jam) (snd error)))
            | Inr device \<Rightarrow> start_with_device env (jam_generation jam) sub auth_id device w2)"
      by (auto simp: jam_start_def Let_def at_def split: option.splits sum.splits if_splits prod.splits)
    define g where "g = jam_generation jam"
    have off: "\<not> jam_active (w_jam w)" "\<not> jam_starting (w_jam w)"
      and g: "g = next_generation (jam_generation (w_jam w))"
      using jam w1 by (auto simp: begin_start_def at_def lifecycle_def g_def split: if_splits)
    let ?d = "jam_spotify_device_id (w_jam w)"
    have w1': "at (False, True, g, ?d) (w1\<lparr>w_jam := jam\<rparr>)"
      using jam w1 by (auto simp: begin_start_def at_def lifecycle_def g_def quiet_def split: if_splits)
    obtain resolved w2 where w2: "se_resolve env (w1\<lparr>w_jam := jam\<rparr>) = (resolved, w2)" by fastforce
    have at2: "at (False, True, g, ?d) w2"
      using fenced_at [of "se_resolve env" "(False, True, g, ?d)"] w1' w2 env' by (metis snd_conv)
    show ?thesis
    proof (cases resolved)
      case (Inl e)
      with rest w2 fail_at [OF at2] off show ?thesis by (auto simp: g_def at_def lifecycle_def)
    next
      case (Inr device)
      with rest w2 start_with_device_outcome [OF assms(1) at2, of sub auth_id device] off g part
      show ?thesis
        by (cases res) (auto simp: start_outcome_def at_def lifecycle_def g_def)
    qed
  qed
  ultimately show ?thesis by blast
qed

definition demo_start_env :: start_env where
  "demo_start_env =
     \<lparr>se_snap_before = answer (demo_snapshot 1), se_resolve = answer (Inr demo_device),
      se_lock_stale = answer (), se_stop_bot = answer (), se_start_bot = answer (Inr ()),
      se_snap_transfer = answer (demo_snapshot 1),
      se_bind = answer (BindFinished (Inr \<lparr>bp_is_playing = True, bp_current_uri = None\<rparr>)),
      se_pause = answer (), se_snap_after = answer (demo_snapshot 1), se_bot_healthy = True,
      se_lock_bot = answer (), se_binding_current = True, se_now = 0\<rparr>"

definition demo_idle :: world where
  "demo_idle = \<lparr>w_jam = jam_default\<lparr>jam_spotify_token := Some \<lparr>tok_access_token = ''t'',
       tok_refresh_token = ''r'', tok_expires_at = 0, tok_scope = []\<rparr>\<rparr>,
     w_bot = None, w_commands = []\<rparr>"

theorem jam_start_outcome_witness:
  "case jam_start demo_start_env None ''sam'' (Inr (''sam'', Some ''auth'')) demo_idle of
      (Inr g, w') \<Rightarrow> g = 1 \<and> jam_active (w_jam w') \<and> jam_host_identity (w_jam w') = ''sam''
    | (Inl _, _) \<Rightarrow> False"
proof -
  have env: "fenced_env demo_start_env" by (simp add: fenced_env_def demo_start_env_def)
  have quiet: "quiet demo_idle" by (simp add: quiet_def scan_def demo_idle_def)
  have named: "\<not> blank ''sam''" by code_simp
  obtain res w' where run: "jam_start demo_start_env None ''sam'' (Inr (''sam'', Some ''auth'')) demo_idle
      = (res, w')" by fastforce
  have "\<exists>g. res = Inr g"
    using run named by (auto simp: jam_start_def begin_start_def start_with_device_def take_bot_def
        start_transfer_def activate_jam_def demo_start_env_def demo_idle_def demo_snapshot_def
        jam_source_start_preflight_def jam_source_ready_for_generation_def answer_def Let_def
        apply_jam_start_result_def next_generation_def jam_default_def with_jam_def issue_def)
  then obtain g where g: "res = Inr g" ..
  from jam_start_outcome [OF env quiet run] g run show ?thesis
    by (auto simp: started_def demo_idle_def jam_default_def next_generation_def)
qed

text \<open>
  C18: ending a Jam is all or nothing and pauses first: if the condition no longer holds the Jam's
  life is untouched; otherwise it is over, its device unbound and its source released last, and
  never while Spotify may still have been told to play to it.
\<close>

theorem end_pauses_before_release:
  assumes "fenced pause" and "fenced lock" and "scan w \<noteq> None"
    and "jam_spotify_device_id (w_jam w) \<noteq> None"
  shows "case end_jam_generation_locked pause lock g condition err w of
      (True, w') \<Rightarrow> jam_end_condition_matches (w_jam w) g condition
        \<and> \<not> jam_active (w_jam w') \<and> \<not> jam_starting (w_jam w')
        \<and> jam_spotify_device_id (w_jam w') = None
        \<and> last (w_commands w') \<in> {StopBot g, StopSource g} \<and> scan w' = Some False
    | (False, w') \<Rightarrow> lifecycle w' = lifecycle w \<and> scan w' \<noteq> None"
proof -
  obtain ended w' where run: "end_jam_generation_locked pause lock g condition err w = (ended, w')"
    by fastforce
  note released = end_releases_after_pause [OF assms(1,2,4,3) run]
  show ?thesis
  proof (cases ended)
    case True
    have run': "end_jam_generation_locked pause lock g condition err w = (True, w')"
      using run True by simp
    from end_ended [OF assms(1,2) run'] released True show ?thesis
      unfolding run by (auto simp: lifecycle_def quiet_def)
  next
    case False
    with end_not_ended [OF assms(1), of lock g condition err w w'] released(1) show ?thesis
      unfolding run by simp
  qed
qed

theorem end_pauses_before_release_witness:
  "case end_jam_generation_locked (answer ()) (answer ()) 1 EndActive None (demo_world demo_queue) of
      (True, w') \<Rightarrow> jam_end_condition_matches (w_jam (demo_world demo_queue)) 1 EndActive
        \<and> \<not> jam_active (w_jam w') \<and> \<not> jam_starting (w_jam w')
        \<and> jam_spotify_device_id (w_jam w') = None
        \<and> last (w_commands w') \<in> {StopBot 1, StopSource 1} \<and> scan w' = Some False
    | (False, w') \<Rightarrow> lifecycle w' = lifecycle (demo_world demo_queue) \<and> scan w' \<noteq> None"
  by (rule end_pauses_before_release)
    (simp_all add: scan_def demo_world_def demo_jam_def)

text \<open>Only the host stops a Jam. A stop that succeeds came from the participant and installation
  recorded as the host of that generation and left no Jam; any other request is refused and the
  Jam's life is as it was.
\<close>

lemma only_the_host_stops:
  assumes "fenced pause" and "fenced lock"
    and "jam_stop pause lock admin_refused identity g participant w = (res, w')"
  shows "case res of
      Inr _ \<Rightarrow> admin_refused = None \<and> active_generation_matches (w_jam w) g
        \<and> participant = Inr (jam_host_identity (w_jam w), Some (jam_host_participant_auth_id (w_jam w)))
        \<and> jam_host_identity (w_jam w) \<noteq> []
        \<and> \<not> jam_active (w_jam w') \<and> \<not> jam_starting (w_jam w')
    | Inl s \<Rightarrow> lifecycle w' = lifecycle w \<and> (w' \<noteq> w \<longrightarrow> s = CONFLICT)"
proof -
  have stopped: "\<not> jam_active (w_jam v) \<and> \<not> jam_starting (w_jam v)"
    if "end_jam_generation_locked pause lock g EndActive None w = (True, v)" for v
    using end_ended(2) [OF assms(1,2) that] by (simp add: lifecycle_def)
  have kept: "lifecycle v = lifecycle w"
    if "end_jam_generation_locked pause lock g EndActive None w = (False, v)" for v
    using end_not_ended [OF assms(1) that] .
  show ?thesis
    using assms(3) unfolding jam_stop_def checked_participant_def jam_stop_authorized_def
    by (auto split: option.splits if_splits sum.splits prod.splits dest: stopped kept)
qed

section \<open>Participants\<close>

text \<open>A revocation takes exactly the revoked bindings: a listener or an audio connection goes if
  and only if its identity and installation were revoked together, and an identity bound to a
  newer installation keeps both. The Jam is to stop exactly when its own host was revoked, and
  its end is scheduled exactly when it would be left without listeners otherwise.
\<close>

lemma revocation_is_exact:
  "case apply_revoked_participant_bindings jam revoked of (jam', stop, auto_end) \<Rightarrow>
     hm_get (jam_listeners jam') i =
       (case hm_get (jam_listeners jam) i of None \<Rightarrow> None
        | Some a \<Rightarrow> if revokes revoked i a then None else Some a)
   \<and> hm_get (jam_audio_connections jam') i =
       (case hm_get (jam_audio_connections jam) i of None \<Rightarrow> None
        | Some c \<Rightarrow> if revokes revoked i (ac_participant_auth_id c) then None else Some c)
   \<and> jam_queue jam' = jam_queue jam
   \<and> (stop = Some g \<longleftrightarrow> g = jam_generation jam \<and> jam_active jam
        \<and> revokes revoked (jam_host_identity jam) (jam_host_participant_auth_id jam))
   \<and> (auto_end = Some g \<longleftrightarrow> stop = None \<and> g = jam_generation jam \<and> jam_active jam
        \<and> jam_listeners jam' = [])"
proof -
  obtain jam' stop auto_end where
    run: "apply_revoked_participant_bindings jam revoked = (jam', stop, auto_end)" by (metis prod_cases3)
  show ?thesis
    unfolding run prod.case apply_revoked_spec(2,3) [OF run]
    unfolding apply_revoked_spec(1) [OF run]
    by (simp add: revoke_all_listener revoke_all_audio)
qed

text \<open>A newer audio connection of a listener supersedes the older one: from its registration on
  the older one is no longer current, under any binding, and its late disconnect removes nothing,
  while the newer one is current.
\<close>

lemma newer_audio_connection_wins:
  assumes "register_audio_connection jam b i a g = (jam1, Some c1)"
    and "register_audio_connection jam1 b' i a' g' = (jam2, Some c2)"
  shows "\<not> audio_connection_is_current jam2 b'' i a'' g'' c1
    \<and> unregister_audio_connection_from_jam jam2 i a'' g'' c1 = (jam2, False)
    \<and> audio_connection_is_current jam2 b' i a' g' c2"
  using superseded_connection [OF assms] by blast

section \<open>Safety\<close>

text \<open>a guarded Spotify operation that is not passed on leaves playback paused: unless the
  operation itself answered and the source can still carry the same Jam, a pause is the last thing
  sent that bears on playback, whatever Spotify made of the operation.
\<close>

lemma refused_operation_leaves_playback_paused:
  assumes "fenced (ge_snap env)" and "fenced (ge_pause env)"
    and "\<And>o' w1. ge_op env w = (o', w1) \<Longrightarrow> scan w1 \<noteq> None"
    and "run_guarded_spotify_recovery_operation env g device name w = (res, w')"
  shows "scan w' = Some False
    \<or> (\<exists>r w1. ge_op env w = (OpFinished r, w1) \<and> res = r
         \<and> ensure_jam_recovery_controls_ready (ge_snap env) w1 = (Inr g, w') \<and> scan w' \<noteq> None)"
  using guarded_operation_safe [OF assms] by (simp add: quiet_def)

definition demo_late_guard :: "(api_error + unit) guard_env" where
  "demo_late_guard = \<lparr>ge_op = answer OpDeadline, ge_snap = answer (demo_snapshot 1),
     ge_pause = answer (), ge_now = 0\<rparr>"

text \<open>Stop Music is a fence. When it answers success the pause was accepted for the device of that
  Jam, the queue is stopped under new epochs, and from that state the background pump returns
  without placing anything.
\<close>

lemma stop_music_fences_the_queue:
  assumes "jam_stop_playback pause retry now admin_refused participant_refused g w = (Inr name, w')"
  shows "\<exists>device w1. bound_spotify_device (w_jam w) g = Some device
    \<and> pause (issue (PauseSpotify (dev_id device)) w) = (Inr (), w1)
    \<and> jam_queue_control_stopped (w_jam w') \<and> \<not> jam_spotify_is_playing (w_jam w')
    \<and> jam_queue_control_epoch (w_jam w') = jam_queue_control_epoch (w_jam w1) + 1
    \<and> jam_queue_stop_epoch (w_jam w') = jam_queue_stop_epoch (w_jam w1) + 1
    \<and> jam_queue (w_jam w') = jam_queue (w_jam w1)
    \<and> pump_queue_frontier (answer ()) (env # envs) g w' = (True, w')"
  using assms
  by (auto simp: jam_stop_playback_def apply_spotify_pause_result_def pump_queue_frontier_def
      pump_queue_frontier_locked_def pump_turn_def stopped_frontier_should_resume_def answer_def Let_def
      split: option.splits if_splits sum.splits prod.splits bool.splits)

text \<open>A participant only becomes a listener of the Jam it asked for, while that Jam is active and
  its source can be heard; the entry binds the identity of its token to its installation and
  leaves every other listener alone.
\<close>

lemma join_needs_the_running_jam:
  assumes "jam_join snap now admin_refused identity g participant w = (Inr (), w')"
  shows "\<exists>sub auth_id w1. participant = Inr (sub, Some auth_id) \<and> admin_refused = None
    \<and> ensure_jam_source_ready snap now w = (Inr g, w1)
    \<and> active_generation_matches (w_jam w) g \<and> active_generation_matches (w_jam w1) g
    \<and> hm_get (jam_listeners (w_jam w')) sub = Some auth_id
    \<and> (\<forall>i. i \<noteq> sub \<longrightarrow> hm_get (jam_listeners (w_jam w')) i = hm_get (jam_listeners (w_jam w1)) i)"
  using assms
  by (auto simp: jam_join_def checked_participant_def hm_simps
      split: option.splits if_splits sum.splits prod.splits)

end
