(* ===== verification/JamQueueApi.thy ===== *)
theory JamQueueApi
  imports JamFrontier "HOL-Library.List_Lexorder" "HOL-Library.Char_ord"
begin

text \<open>
  The handlers that add a track, remove entries and queue a playlist (\<open>jam_session.rs\<close>,
  \<open>remove_pending_queue_entries\<close>, \<open>jam_queue_add\<close> to \<open>jam_queue_playlist_impl\<close>). What the
  authentication answers, the catalogue, the clock and the fresh identifiers are arguments; the
  waits for the locks and the fetches are awaits.
\<close>

section \<open>Requests and answers\<close>

record jam_actor =
  actor_id :: string
  actor_display_name :: string

definition MAX_JAM_ACTOR_DISPLAY_NAME_CHARS :: nat where "MAX_JAM_ACTOR_DISPLAY_NAME_CHARS = 128"

definition bounded_jam_actor_display_name :: "string option \<Rightarrow> string \<Rightarrow> string" where
  "bounded_jam_actor_display_name name fallback =
     take_chars MAX_JAM_ACTOR_DISPLAY_NAME_CHARS
       (or_default (trim fallback) (filter_option (\<lambda>n. n \<noteq> []) (map_option trim name)))"

record jam_queue_request =
  jq_generation :: u64
  jq_request_id :: "string option"
  jq_spotify_uri :: string

record jam_queue_remove_request =
  jr_generation :: u64
  jr_request_id :: string
  jr_expected_queue_revision :: u64
  jr_queue_entry_ids :: "string list"

record playlist_queue_request =
  pq_generation :: u64
  pq_playlist_id :: string
  pq_request_id :: string
  pq_confirmed :: bool
  pq_selected_positions :: "nat list option"
  pq_snapshot_id :: "string option"

text \<open>A refusal, by the shape of its body.\<close>

datatype queue_refusal =
    Refused jam_api_error
  | RemovalConflict string string u64
  | ConfirmationRequired string nat nat

record track_queued =
  tq_request_id :: "string option"
  tq_track :: jam_queue_entry

definition MAX_QUEUE_REMOVAL_ENTRIES :: nat where "MAX_QUEUE_REMOVAL_ENTRIES = 1000"

definition is_id_byte :: "char \<Rightarrow> bool" where
  "is_id_byte c \<longleftrightarrow> is_ascii_alphanumeric c \<or> c = CHR ''-'' \<or> c = CHR ''_''"

definition playlist_queue_request_id_valid :: "string \<Rightarrow> bool" where
  "playlist_queue_request_id_valid request_id \<longleftrightarrow>
     8 \<le> length request_id \<and> length request_id \<le> 128 \<and> list_all is_id_byte request_id"

definition spotify_track_id_from_uri :: "string \<Rightarrow> string option" where
  "spotify_track_id_from_uri uri =
     (case strip_prefix ''spotify:track:'' uri of None \<Rightarrow> None
      | Some i \<Rightarrow> if valid_spotify_id i then Some i else None)"

definition commit_unknown_queue_add_error :: jam_api_error where
  "commit_unknown_queue_add_error = queue_error CONFLICT ''queue_commit_unknown''
     ''Spotify acceptance of an earlier queue entry is unknown. End and restart the Jam before adding more songs''"

definition playlist_queue_selection_fingerprint_of ::
  "playlist_queue_request \<Rightarrow> jam_api_error + playlist_queue_selection_fingerprint" where
  "playlist_queue_selection_fingerprint_of payload =
     (if (case pq_snapshot_id payload of None \<Rightarrow> False
          | Some sid \<Rightarrow> trim sid = [] \<or> 512 < length sid)
      then Inl (queue_error BAD_REQUEST ''invalid_snapshot_id''
             ''snapshot_id must be 1-512 non-whitespace characters when supplied'')
      else case (case pq_selected_positions payload of None \<Rightarrow> Inr None
                 | Some ps \<Rightarrow> (case validate_selected_playlist_positions ps of
                     Inl e \<Rightarrow> Inl e | Inr qs \<Rightarrow> Inr (Some qs))) of
        Inl e \<Rightarrow> Inl e
      | Inr selected \<Rightarrow>
          if selected \<noteq> None \<and> pq_snapshot_id payload = None
          then Inl (queue_error BAD_REQUEST ''playlist_snapshot_required''
                 ''snapshot_id is required when queueing selected playlist positions'')
          else Inr \<lparr>pf_selected_positions = selected, pf_snapshot_id = pq_snapshot_id payload\<rparr>)"

definition playlist_provenance :: "favorite_summary \<Rightarrow> queued_playlist_provenance" where
  "playlist_provenance summary =
     \<lparr>qp_spotify_id = fs_spotify_id summary, qp_spotify_uri = fs_spotify_uri summary,
      qp_spotify_url = fs_spotify_url summary, qp_name = fs_name summary\<rparr>"

text \<open>\<open>secret\<close> is what \<open>random_secret\<close> answers.\<close>

definition queued_track_from_summary ::
  "string \<Rightarrow> favorite_summary \<Rightarrow> jam_actor \<Rightarrow> string option \<Rightarrow> queued_playlist_provenance option
   \<Rightarrow> nat option \<Rightarrow> u64 \<Rightarrow> queued_track" where
  "queued_track_from_summary secret summary actor batch_id playlist playlist_position added_at_ms =
     \<lparr>qt_queue_entry_id = ''qe1_'' @ secret, qt_queue_batch_id = batch_id,
      qt_spotify_id = fs_spotify_id summary, qt_spotify_uri = fs_spotify_uri summary,
      qt_spotify_url = fs_spotify_url summary, qt_name = fs_name summary,
      qt_artist = or_default [] (fs_artist summary),
      qt_album_art_url = or_default [] (fs_artwork_url summary),
      qt_duration_ms = or_default 0 (fs_duration_ms summary), qt_added_at_ms = added_at_ms,
      qt_added_by_actor_id = actor_id actor, qt_added_by_name = actor_display_name actor,
      qt_playlist = playlist, qt_playlist_position = playlist_position,
      qt_added_by = actor_display_name actor\<rparr>"

text \<open>What all three handlers check of their caller.\<close>

definition checked_actor ::
  "status option \<Rightarrow> status + jam_actor \<Rightarrow> queue_refusal + jam_actor" where
  "checked_actor admin_refused actor =
     (case admin_refused of
        Some s \<Rightarrow> Inl (Refused (queue_error s ''unauthorized'' ''Authentication required''))
      | None \<Rightarrow>
         (case actor of
            Inl s \<Rightarrow> Inl (Refused (queue_error s ''actor_required''
                         ''A current Echo participant token is required''))
          | Inr a \<Rightarrow> Inr a))"

definition invalid_request_id :: queue_refusal where
  "invalid_request_id = Refused (queue_error BAD_REQUEST ''invalid_request_id''
     ''request_id must be 8-128 ASCII letters, digits, dashes, or underscores'')"

section \<open>Removing\<close>

datatype queue_removal_mutation_error = QueueChanged | NotRemovable

fun check_removable ::
  "jam_queue \<Rightarrow> string list \<Rightarrow> queue_removal_mutation_error + unit" where
  "check_removable queue [] = Inr ()"
| "check_removable queue (eid # ids) =
     (case List.find (\<lambda>e. entry_id e = eid) queue of
        None \<Rightarrow> Inl QueueChanged
      | Some e \<Rightarrow>
          if \<not> is_removable (qe_delivery_state e) \<or> \<not> qe_can_remove e then Inl NotRemovable
          else check_removable queue ids)"

definition remove_pending_queue_entries ::
  "jam_state \<Rightarrow> string list \<Rightarrow> queue_removal_mutation_error + jam_state" where
  "remove_pending_queue_entries jam ids =
     (case check_removable (jam_queue jam) ids of
        Inl e \<Rightarrow> Inl e
      | Inr _ \<Rightarrow>
          Inr (bump_queue_revision
            (jam\<lparr>jam_queue := filter (\<lambda>e. entry_id e \<notin> set ids) (jam_queue jam)\<rparr>)))"

definition invalid_entry_ids :: "string \<Rightarrow> jam_api_error" where
  "invalid_entry_ids message = queue_error BAD_REQUEST ''invalid_queue_entry_ids'' message"

definition queue_removal_fingerprint_of ::
  "jam_queue_remove_request \<Rightarrow> jam_api_error + queue_removal_fingerprint" where
  "queue_removal_fingerprint_of payload =
     (let ids = jr_queue_entry_ids payload in
      if ids = [] \<or> MAX_QUEUE_REMOVAL_ENTRIES < length ids
      then Inl (invalid_entry_ids ''queue_entry_ids must contain 1-1000 entries'')
      else if list_ex (\<lambda>i. \<not> (8 \<le> length i \<and> length i \<le> 128) \<or> \<not> list_all is_id_byte i) ids
      then Inl (invalid_entry_ids ''queue_entry_ids contains an invalid Echo queue entry ID'')
      else
        let canonical_ids = sort ids in
        if adjacent_equal canonical_ids
        then Inl (invalid_entry_ids ''queue_entry_ids must not contain duplicates'')
        else Inr \<lparr>rf_expected_queue_revision = jr_expected_queue_revision payload,
                  rf_queue_entry_ids = canonical_ids\<rparr>)"

definition remove_locked ::
  "jam_state \<Rightarrow> jam_actor \<Rightarrow> jam_queue_remove_request \<Rightarrow> queue_removal_fingerprint \<Rightarrow> u64
   \<Rightarrow> (queue_refusal + jam_queue_remove_response) \<times> jam_state" where
  "remove_locked jam actor payload fingerprint now_ms =
     (let conflict = (\<lambda>code message. (Inl (RemovalConflict code message (jam_queue_revision jam)), jam)) in
      case queue_removal_receipt_response jam (jr_request_id payload) (actor_id actor)
             (jr_generation payload) fingerprint of
        Inl _ \<Rightarrow> conflict ''request_id_conflict''
                   ''request_id was already used for a different queue removal''
      | Inr (Some response) \<Rightarrow> (Inr response, jam)
      | Inr None \<Rightarrow>
      if \<not> active_generation_matches jam (jr_generation payload)
      then conflict ''generation_changed'' ''Jam generation changed''
      else if jam_queue_revision jam \<noteq> jr_expected_queue_revision payload
      then conflict ''queue_changed'' ''The Jam queue changed; refresh it before removing songs''
      else case remove_pending_queue_entries jam (rf_queue_entry_ids fingerprint) of
        Inl QueueChanged \<Rightarrow>
          conflict ''queue_changed'' ''One or more selected songs are no longer in the Jam queue''
      | Inl NotRemovable \<Rightarrow>
          conflict ''queue_entries_not_removable''
            ''One or more selected songs were already handed to Spotify and cannot be removed''
      | Inr jam1 \<Rightarrow>
          let response = \<lparr>rr_ok = True, rr_generation = jr_generation payload,
                rr_queue_revision = jam_queue_revision jam1,
                rr_removed_entry_ids = jr_queue_entry_ids payload,
                rr_removed_count = length (jr_queue_entry_ids payload)\<rparr>
          in (Inr response,
              insert_queue_removal_receipt jam1 (jr_request_id payload)
                \<lparr>rm_actor_id = actor_id actor, rm_generation = jr_generation payload,
                 rm_fingerprint = fingerprint, rm_created_at_ms = now_ms,
                 rm_response = response\<rparr>))"

definition jam_queue_remove ::
  "unit await \<Rightarrow> status option \<Rightarrow> status + jam_actor \<Rightarrow> jam_queue_remove_request \<Rightarrow> u64 \<Rightarrow> world
   \<Rightarrow> (queue_refusal + jam_queue_remove_response) \<times> world" where
  "jam_queue_remove lock admin_refused actor payload now_ms w =
     (case checked_actor admin_refused actor of
        Inl e \<Rightarrow> (Inl e, w)
      | Inr actor \<Rightarrow>
          if \<not> playlist_queue_request_id_valid (jr_request_id payload)
          then (Inl invalid_request_id, w)
          else case queue_removal_fingerprint_of payload of
            Inl e \<Rightarrow> (Inl (Refused e), w)
          | Inr fingerprint \<Rightarrow>
              let w1 = snd (lock w);
                  (res, jam) = remove_locked (w_jam w1) actor payload fingerprint now_ms
              in (res, w1\<lparr>w_jam := jam\<rparr>))"

section \<open>Adding a track\<close>

text \<open>
  \<open>admit_entries\<close> is the step both enqueues take under the locks \<open>jam_state_refresh\<close> and
  \<open>jam_lifecycle\<close>: the source is checked once more, and the entries join the queue unless a skip is
  unsettled, an acceptance is unknown, or Stop Music came since the request was admitted.
\<close>

record admit_env =
  am_locks :: "unit await"
  am_snap :: "jam_source_snapshot await"
  am_retry :: "string option"

definition admit_entries ::
  "admit_env \<Rightarrow> u64 \<Rightarrow> u64 \<Rightarrow> u64 \<Rightarrow> string \<Rightarrow> string \<Rightarrow> jam_queue_entry list \<Rightarrow> world
   \<Rightarrow> (queue_refusal + unit) \<times> world" where
  "admit_entries env generation control_epoch stop_epoch changed_message stopped_message entries w =
     (let refuse = (\<lambda>s code message. Inl (Refused (queue_error s code message))) in
      case ensure_jam_recovery_controls_ready (am_snap env) (snd (am_locks env w)) of
        (Inl (s, message), w1) \<Rightarrow>
          (Inl (Refused (spotify_queue_error (am_retry env) s ''jam_unavailable'' message)), w1)
      | (Inr current, w1) \<Rightarrow>
          let jam = w_jam w1 in
          if current \<noteq> generation
          then (refuse CONFLICT ''generation_changed'' changed_message, w1)
          else if jam_uncertain_skip jam \<noteq> None
          then (refuse CONFLICT ''skip_reconciliation_required''
                  ''Echo is reconciling the previous Spotify Skip; wait for fresh playback state'', w1)
          else if queue_has_commit_unknown (jam_queue jam)
          then (Inl (Refused commit_unknown_queue_add_error), w1)
          else if enqueue_admission_cancelled_by_stop stop_epoch (jam_queue_stop_epoch jam)
               \<or> enqueue_interrupted_by_stop control_epoch (jam_queue_control_epoch jam)
                    (jam_queue_control_stopped jam)
          then (refuse CONFLICT ''queue_interrupted'' stopped_message, w1)
          else if bound_spotify_device jam generation = None
          then (refuse SERVICE_UNAVAILABLE ''spotify_device_unavailable''
                  ''The active Jam has no bound Spotify device'', w1)
          else (Inr (), with_jam w1 (\<lambda>jam.
                  bump_queue_revision (jam\<lparr>jam_queue := jam_queue jam @ entries\<rparr>))))"

definition request_id_conflict :: "string \<Rightarrow> queue_refusal" where
  "request_id_conflict operation = Refused (queue_error CONFLICT ''request_id_conflict''
     (''request_id was already used for a different '' @ operation @ '' operation''))"

text \<open>The answer of a repeated request: None where the request is new or carries no identifier.\<close>

definition track_replay ::
  "jam_state \<Rightarrow> jam_actor \<Rightarrow> jam_queue_request \<Rightarrow> string \<Rightarrow> (queue_refusal + track_queued) option" where
  "track_replay jam actor payload spotify_id =
     (case jq_request_id payload of None \<Rightarrow> None
      | Some request_id \<Rightarrow>
         (case track_queue_receipt_response jam request_id (actor_id actor) spotify_id
                 (jq_generation payload) of
            Inl _ \<Rightarrow> Some (Inl (request_id_conflict ''track queue''))
          | Inr None \<Rightarrow> None
          | Inr (Some track) \<Rightarrow>
              Some (Inr \<lparr>tq_request_id = Some request_id, tq_track = track\<rparr>)))"

record add_env =
  ad_summary :: "(jam_api_error + favorite_summary) await"
  ad_lock :: "unit await"
  ad_admit :: admit_env
  ad_pump :: "pump_env list"
  ad_secret :: string
  ad_now :: u64
  ad_receipt_now :: u64

text \<open>The last step: the entry is looked up again, and its receipt is kept.\<close>

definition finish_add ::
  "add_env \<Rightarrow> jam_actor \<Rightarrow> jam_queue_request \<Rightarrow> string \<Rightarrow> string \<Rightarrow> jam_state
   \<Rightarrow> (queue_refusal + track_queued) \<times> jam_state" where
  "finish_add env actor payload spotify_id eid jam =
     (case List.find (\<lambda>e. entry_id e = eid) (jam_queue jam) of
        None \<Rightarrow> (Inl (Refused (queue_error CONFLICT ''generation_changed''
                   (''Jam changed while adding the track to Echo'' @ [CHR 0x27] @ ''s queue''))), jam)
      | Some e \<Rightarrow>
          (Inr \<lparr>tq_request_id = jq_request_id payload, tq_track = e\<rparr>,
           case jq_request_id payload of None \<Rightarrow> jam
           | Some request_id \<Rightarrow>
               insert_track_queue_receipt jam request_id
                 \<lparr>tr_actor_id = actor_id actor, tr_spotify_id = spotify_id,
                  tr_generation = jq_generation payload, tr_created_at_ms = ad_receipt_now env,
                  tr_track = e\<rparr>))"

text \<open>Under the queue's lock; None while the pump is still running after the turns given.\<close>

definition add_locked ::
  "add_env \<Rightarrow> jam_actor \<Rightarrow> jam_queue_request \<Rightarrow> string \<Rightarrow> u64 \<Rightarrow> u64 \<Rightarrow> favorite_summary \<Rightarrow> world
   \<Rightarrow> (queue_refusal + track_queued) option \<times> world" where
  "add_locked env actor payload spotify_id control_epoch stop_epoch summary w =
     (case track_replay (w_jam w) actor payload spotify_id of
        Some answer \<Rightarrow> (Some answer, w)
      | None \<Rightarrow>
          let track = queued_track_from_summary (ad_secret env) summary actor None None None (ad_now env)
          in case admit_entries (ad_admit env) (jq_generation payload) control_epoch stop_epoch
                    ''Jam generation changed'' ''Track enqueue was interrupted by Stop Music''
                    [pending_queue_entry track] w of
               (Inl e, w1) \<Rightarrow> (Some (Inl e), w1)
             | (Inr _, w1) \<Rightarrow>
                (case pump_queue_frontier_locked (ad_pump env) (jq_generation payload)
                        control_epoch True w1 of
                   (False, w2) \<Rightarrow> (None, w2)
                 | (True, w2) \<Rightarrow>
                    (case finish_add env actor payload spotify_id (qt_queue_entry_id track) (w_jam w2) of
                       (res, jam) \<Rightarrow> (Some res, w2\<lparr>w_jam := jam\<rparr>))))"

definition jam_queue_add ::
  "add_env \<Rightarrow> status option \<Rightarrow> status + jam_actor \<Rightarrow> jam_queue_request \<Rightarrow> world
   \<Rightarrow> (queue_refusal + track_queued) option \<times> world" where
  "jam_queue_add env admin_refused actor payload w =
     (case checked_actor admin_refused actor of
        Inl e \<Rightarrow> (Some (Inl e), w)
      | Inr actor \<Rightarrow>
      if (case jq_request_id payload of None \<Rightarrow> False
          | Some i \<Rightarrow> \<not> playlist_queue_request_id_valid i)
      then (Some (Inl invalid_request_id), w)
      else case spotify_track_id_from_uri (jq_spotify_uri payload) of
        None \<Rightarrow> (Some (Inl (Refused (queue_error BAD_REQUEST ''invalid_track_uri''
                   ''Invalid Spotify track URI''))), w)
      | Some spotify_id \<Rightarrow>
     (case track_replay (w_jam w) actor payload spotify_id of
        Some answer \<Rightarrow> (Some answer, w)
      | None \<Rightarrow>
      if active_generation_matches (w_jam w) (jq_generation payload)
         \<and> queue_has_commit_unknown (jam_queue (w_jam w))
      then (Some (Inl (Refused commit_unknown_queue_add_error)), w)
      else
        let control_epoch = jam_queue_control_epoch (w_jam w);
            stop_epoch = jam_queue_stop_epoch (w_jam w)
        in case ad_summary env w of
             (Inl e, w1) \<Rightarrow> (Some (Inl (Refused e)), w1)
           | (Inr summary, w1) \<Rightarrow>
               add_locked env actor payload spotify_id control_epoch stop_epoch summary
                 (snd (ad_lock env w1))))"

section \<open>Queueing a playlist\<close>

definition PLAYLIST_CONFIRMATION_THRESHOLD :: nat where "PLAYLIST_CONFIRMATION_THRESHOLD = 25"

record playlist_env =
  py_snap :: "jam_source_snapshot await"
  py_expand :: "playlist_queue_selection_fingerprint \<Rightarrow> (jam_api_error + playlist_expansion) await"
  py_lock :: "unit await"
  py_admit :: admit_env
  py_pump :: "pump_env list"
  py_receipt_lock :: "unit await"
  py_batch_secret :: string
  py_secrets :: "nat \<Rightarrow> string"
  py_now :: u64
  py_receipt_now :: u64

definition playlist_replay ::
  "jam_state \<Rightarrow> jam_actor \<Rightarrow> playlist_queue_request \<Rightarrow> playlist_queue_selection_fingerprint \<Rightarrow> u64
   \<Rightarrow> (queue_refusal + playlist_queue_response) option" where
  "playlist_replay jam actor payload selection generation =
     (case playlist_queue_receipt_response jam (pq_request_id payload) (actor_id actor)
             (pq_playlist_id payload) selection generation of
        Inl _ \<Rightarrow> Some (Inl (request_id_conflict ''playlist queue''))
      | Inr None \<Rightarrow> None
      | Inr (Some response) \<Rightarrow> Some (Inr response))"

text \<open>One entry for each expanded track, in order; each takes a fresh identifier.\<close>

definition playlist_entries ::
  "playlist_env \<Rightarrow> jam_actor \<Rightarrow> string \<Rightarrow> playlist_expansion \<Rightarrow> jam_queue_entry list" where
  "playlist_entries env actor batch_id expansion =
     map (\<lambda>(i, position, summary). pending_queue_entry
           (queued_track_from_summary (py_secrets env i) summary actor (Some batch_id)
              (Some (playlist_provenance (pe_playlist expansion))) (Some position) (py_now env)))
       (List.enumerate 0 (pe_tracks expansion))"

definition playlist_response ::
  "playlist_queue_request \<Rightarrow> u64 \<Rightarrow> string \<Rightarrow> playlist_expansion \<Rightarrow> playlist_queue_response" where
  "playlist_response payload generation batch_id expansion =
     \<lparr>pr_schema_version = 1, pr_ok = True, pr_partial = False,
      pr_request_id = pq_request_id payload, pr_queue_batch_id = batch_id, pr_batch_id = batch_id,
      pr_generation = generation, pr_playlist = playlist_provenance (pe_playlist expansion),
      pr_queued_positions = map fst (pe_tracks expansion), pr_remaining_positions = [],
      pr_queued_count = length (pe_tracks expansion), pr_skipped = pe_skipped expansion,
      pr_skipped_count = length (pe_skipped expansion), pr_complete = True, pr_failure = None\<rparr>"

definition playlist_locked ::
  "playlist_env \<Rightarrow> jam_actor \<Rightarrow> playlist_queue_request \<Rightarrow> playlist_queue_selection_fingerprint \<Rightarrow> u64
   \<Rightarrow> u64 \<Rightarrow> u64 \<Rightarrow> playlist_expansion \<Rightarrow> world
   \<Rightarrow> (queue_refusal + playlist_queue_response) option \<times> world" where
  "playlist_locked env actor payload selection generation control_epoch stop_epoch expansion w =
     (case playlist_replay (w_jam w) actor payload selection generation of
        Some answer \<Rightarrow> (Some answer, w)
      | None \<Rightarrow>
          let batch_id = ''qb1_'' @ py_batch_secret env in
          case admit_entries (py_admit env) generation control_epoch stop_epoch
                 ''Jam generation changed while the playlist was loading''
                 ''Playlist enqueue was interrupted by Stop Music''
                 (playlist_entries env actor batch_id expansion) w of
            (Inl e, w1) \<Rightarrow> (Some (Inl e), w1)
          | (Inr _, w1) \<Rightarrow>
             (case pump_queue_frontier_locked (py_pump env) generation control_epoch True w1 of
                (False, w2) \<Rightarrow> (None, w2)
              | (True, w2) \<Rightarrow>
                  let w3 = snd (py_receipt_lock env w2) in
                  if \<not> active_generation_matches (w_jam w3) generation
                  then (Some (Inl (Refused (queue_error CONFLICT ''generation_changed''
                          ''Jam ended before the playlist enqueue receipt was committed''))), w3)
                  else
                    let response = playlist_response payload generation batch_id expansion
                    in (Some (Inr response), with_jam w3 (\<lambda>jam.
                          insert_playlist_queue_receipt jam (pq_request_id payload)
                            \<lparr>pl_actor_id = actor_id actor, pl_playlist_id = pq_playlist_id payload,
                             pl_selection = selection, pl_generation = generation,
                             pl_created_at_ms = py_receipt_now env, pl_response = response\<rparr>))))"

definition jam_queue_playlist_impl ::
  "playlist_env \<Rightarrow> status option \<Rightarrow> status + jam_actor \<Rightarrow> playlist_queue_request \<Rightarrow> world
   \<Rightarrow> (queue_refusal + playlist_queue_response) option \<times> world" where
  "jam_queue_playlist_impl env admin_refused actor payload w =
     (let refuse = (\<lambda>s code message. Some (Inl (Refused (queue_error s code message)))) in
      case checked_actor admin_refused actor of
        Inl e \<Rightarrow> (Some (Inl e), w)
      | Inr actor \<Rightarrow>
      if \<not> valid_spotify_id (pq_playlist_id payload)
      then (refuse BAD_REQUEST ''invalid_playlist_id'' ''Invalid Spotify playlist ID'', w)
      else if \<not> playlist_queue_request_id_valid (pq_request_id payload)
      then (Some (Inl invalid_request_id), w)
      else case playlist_queue_selection_fingerprint_of payload of
        Inl e \<Rightarrow> (Some (Inl (Refused e)), w)
      | Inr selection \<Rightarrow>
     (case ensure_jam_recovery_controls_ready (py_snap env) w of
        (Inl (s, message), w1) \<Rightarrow> (refuse s ''jam_unavailable'' message, w1)
      | (Inr generation, w1) \<Rightarrow>
      if generation \<noteq> pq_generation payload
      then (refuse CONFLICT ''generation_changed'' ''Jam generation changed'', w1)
      else case playlist_replay (w_jam w1) actor payload selection generation of
        Some answer \<Rightarrow> (Some answer, w1)
      | None \<Rightarrow>
      if queue_has_commit_unknown (jam_queue (w_jam w1))
      then (Some (Inl (Refused commit_unknown_queue_add_error)), w1)
      else
        let control_epoch = jam_queue_control_epoch (w_jam w1);
            stop_epoch = jam_queue_stop_epoch (w_jam w1)
        in case py_expand env selection w1 of
             (Inl e, w2) \<Rightarrow> (Some (Inl (Refused e)), w2)
           | (Inr expansion, w2) \<Rightarrow>
               if pe_tracks expansion = []
               then (refuse UNPROCESSABLE_ENTITY ''playlist_has_no_playable_tracks''
                       ''Playlist has no playable Spotify tracks'', w2)
               else if PLAYLIST_CONFIRMATION_THRESHOLD < length (pe_tracks expansion)
                       \<and> \<not> pq_confirmed payload
               then (Some (Inl (ConfirmationRequired (pq_playlist_id payload)
                       (length (pe_tracks expansion)) (length (pe_skipped expansion)))), w2)
               else playlist_locked env actor payload selection generation control_epoch stop_epoch
                      expansion (snd (py_lock env w2))))"

definition jam_queue_playlist ::
  "playlist_env \<Rightarrow> status option \<Rightarrow> status + jam_actor \<Rightarrow> playlist_queue_request \<Rightarrow> world
   \<Rightarrow> (queue_refusal + playlist_queue_response) option \<times> world" where
  "jam_queue_playlist env admin_refused actor payload w =
     (if pq_selected_positions payload \<noteq> None
      then (Some (Inl (Refused (queue_error BAD_REQUEST ''playlist_selection_endpoint_required''
              ''Queue selected playlist songs through the playlist selection endpoint''))), w)
      else jam_queue_playlist_impl env admin_refused actor payload w)"

definition jam_queue_playlist_selection ::
  "playlist_env \<Rightarrow> status option \<Rightarrow> status + jam_actor \<Rightarrow> playlist_queue_request \<Rightarrow> world
   \<Rightarrow> (queue_refusal + playlist_queue_response) option \<times> world" where
  "jam_queue_playlist_selection env admin_refused actor payload w =
     (if pq_selected_positions payload = None
      then (Some (Inl (Refused (queue_error BAD_REQUEST ''selected_positions_required''
              ''selected_positions is required for the playlist selection endpoint''))), w)
      else jam_queue_playlist_impl env admin_refused actor payload w)"

section \<open>What a removal takes\<close>

lemma find_by_id:
  assumes "distinct (map entry_id q)" and "e \<in> set q"
  shows "List.find (\<lambda>x. entry_id x = entry_id e) q = Some e"
  using assms by (induction q) (auto simp: image_iff)

lemma find_id_Some: "List.find (\<lambda>x. entry_id x = i) q = Some e \<Longrightarrow> e \<in> set q \<and> entry_id e = i"
  by (auto simp: find_Some_iff)

lemma check_removable_iff:
  assumes "queue_ok q"
  shows "check_removable q ids = Inr () \<longleftrightarrow>
    (\<forall>i \<in> set ids. \<exists>e \<in> set q. entry_id e = i \<and> qe_delivery_state e = Pending)"
proof -
  have distinct: "distinct (map entry_id q)" using assms by (simp add: queue_ok_def)
  have removable: "e \<in> set q \<Longrightarrow> qe_can_remove e \<longleftrightarrow> qe_delivery_state e = Pending" for e
    using queue_ok_entry [OF assms] by (simp add: entry_ok_def)
  show ?thesis
  proof (induction ids)
    case (Cons i ids)
    show ?case
    proof (cases "List.find (\<lambda>e. entry_id e = i) q")
      case None
      then have "\<not> (\<exists>e \<in> set q. entry_id e = i)" by (auto simp: find_None_iff)
      with None show ?thesis by auto
    next
      case (Some e)
      note e = find_id_Some [OF Some]
      have "(\<exists>x \<in> set q. entry_id x = i \<and> qe_delivery_state x = Pending)
          \<longleftrightarrow> qe_delivery_state e = Pending"
      proof -
        have "x = e" if "x \<in> set q" "entry_id x = i" for x
          using find_by_id [OF distinct that(1)] Some that(2) by simp
        with e show ?thesis by auto
      qed
      with Some Cons removable e show ?thesis by (auto simp: is_removable_def)
    qed
  qed simp
qed

lemma remove_pending_spec:
  assumes "queue_ok (jam_queue jam)" and "remove_pending_queue_entries jam ids = Inr jam'"
  shows "jam_queue jam' = filter (\<lambda>e. entry_id e \<notin> set ids) (jam_queue jam)"
    and "\<forall>e \<in> set (jam_queue jam). entry_id e \<in> set ids \<longrightarrow> qe_delivery_state e = Pending"
    and "set ids \<subseteq> entry_id ` set (jam_queue jam)"
    and "jam_queue_revision jam' = jam_queue_revision jam + 1"
    and "queue_ok (jam_queue jam')"
proof -
  have ok: "check_removable (jam_queue jam) ids = Inr ()"
    and jam': "jam' = bump_queue_revision
       (jam\<lparr>jam_queue := filter (\<lambda>e. entry_id e \<notin> set ids) (jam_queue jam)\<rparr>)"
    using assms(2) by (auto simp: remove_pending_queue_entries_def split: sum.splits)
  show "jam_queue jam' = filter (\<lambda>e. entry_id e \<notin> set ids) (jam_queue jam)"
    "jam_queue_revision jam' = jam_queue_revision jam + 1"
    "queue_ok (jam_queue jam')"
    using assms(1) by (simp_all add: jam' queue_ok_filter)
  have distinct: "distinct (map entry_id (jam_queue jam))"
    using assms(1) by (simp add: queue_ok_def)
  show "\<forall>e \<in> set (jam_queue jam). entry_id e \<in> set ids \<longrightarrow> qe_delivery_state e = Pending"
    using ok distinct unfolding check_removable_iff [OF assms(1)]
    by (metis inj_onD distinct_map)
  show "set ids \<subseteq> entry_id ` set (jam_queue jam)"
    using ok unfolding check_removable_iff [OF assms(1)] by (auto simp: image_iff)
qed

lemma removal_fingerprint_ids:
  "queue_removal_fingerprint_of payload = Inr f \<Longrightarrow>
     set (rf_queue_entry_ids f) = set (jr_queue_entry_ids payload)
   \<and> distinct (jr_queue_entry_ids payload) \<and> length (jr_queue_entry_ids payload) \<le> 1000
   \<and> jr_queue_entry_ids payload \<noteq> []"
  by (auto simp: queue_removal_fingerprint_of_def Let_def adjacent_equal_sorted
      MAX_QUEUE_REMOVAL_ENTRIES_def split: if_splits)

lemma insert_receipts_revision [simp]:
  "jam_queue_revision (insert_queue_removal_receipt jam k r) = jam_queue_revision jam"
  by (simp add: insert_queue_removal_receipt_def)

text \<open>A removal either answers from its receipt, or takes exactly the entries asked for.\<close>

lemma remove_locked_spec:
  assumes "queue_ok (jam_queue jam)"
    and "remove_locked jam actor payload f now = (Inr resp, jam')"
  shows "(queue_removal_receipt_response jam (jr_request_id payload) (actor_id actor)
            (jr_generation payload) f = Inr (Some resp) \<and> jam' = jam)
    \<or> (active_generation_matches jam (jr_generation payload)
       \<and> jam_queue_revision jam = jr_expected_queue_revision payload
       \<and> jam_queue jam' = filter (\<lambda>e. entry_id e \<notin> set (rf_queue_entry_ids f)) (jam_queue jam)
       \<and> (\<forall>e \<in> set (jam_queue jam). entry_id e \<in> set (rf_queue_entry_ids f)
            \<longrightarrow> qe_delivery_state e = Pending)
       \<and> set (rf_queue_entry_ids f) \<subseteq> entry_id ` set (jam_queue jam)
       \<and> jam_queue_revision jam' = jam_queue_revision jam + 1
       \<and> rr_queue_revision resp = jam_queue_revision jam'
       \<and> rr_removed_entry_ids resp = jr_queue_entry_ids payload)"
  using assms(2) remove_pending_spec(1-4) [OF assms(1)]
  by (auto simp: remove_locked_def Let_def
      split: sum.splits option.splits if_splits queue_removal_mutation_error.splits)

lemma remove_locked_refused:
  "remove_locked jam actor payload f now = (Inl e, jam') \<Longrightarrow> jam' = jam"
  by (auto simp: remove_locked_def Let_def
      split: sum.splits option.splits if_splits queue_removal_mutation_error.splits)

lemma removal_response_insert:
  "queue_removal_receipt_response (insert_queue_removal_receipt jam k r) k a g f =
     (if rm_actor_id r = a \<and> rm_generation r = g \<and> rm_fingerprint r = f
      then Inr (Some (rm_response r)) else Inl ())"
  by (simp add: queue_removal_receipt_response_def removal_receipts.insert_same)

lemma track_response_insert:
  "track_queue_receipt_response (insert_track_queue_receipt jam k r) k a sid g =
     (if tr_actor_id r = a \<and> tr_spotify_id r = sid \<and> tr_generation r = g
      then Inr (Some (tr_track r)) else Inl ())"
  by (simp add: track_queue_receipt_response_def track_receipts.insert_same)

lemma playlist_response_insert:
  "playlist_queue_receipt_response (insert_playlist_queue_receipt jam k r) k a p sel g =
     (if pl_actor_id r = a \<and> pl_playlist_id r = p \<and> pl_selection r = sel \<and> pl_generation r = g
      then Inr (Some (pl_response r)) else Inl ())"
  by (simp add: playlist_queue_receipt_response_def playlist_receipts.insert_same)

lemma remove_locked_receipt:
  "remove_locked jam actor payload f now = (Inr resp, jam') \<Longrightarrow>
     queue_removal_receipt_response jam' (jr_request_id payload) (actor_id actor)
       (jr_generation payload) f = Inr (Some resp)"
  by (auto simp: remove_locked_def Let_def removal_response_insert
      split: sum.splits option.splits if_splits queue_removal_mutation_error.splits)

lemma remove_locked_queue_ok:
  assumes "queue_ok (jam_queue jam)" and "remove_locked jam actor payload f now = (res, jam')"
  shows "queue_ok (jam_queue jam')"
proof (cases res)
  case (Inl e)
  with assms show ?thesis using remove_locked_refused by blast
next
  case (Inr resp)
  have run: "remove_locked jam actor payload f now = (Inr resp, jam')" using assms(2) Inr by simp
  from remove_locked_spec [OF assms(1) run] assms(1) show ?thesis
    by (elim disjE) (simp_all add: queue_ok_filter)
qed

section \<open>What an enqueue adds\<close>

lemma admit_entries_spec:
  assumes "admit_entries env g control_epoch stop_epoch m1 m2 entries w = (Inr (), w')"
  obtains w1 where "ensure_jam_recovery_controls_ready (am_snap env) (snd (am_locks env w)) = (Inr g, w1)"
    and "jam_uncertain_skip (w_jam w1) = None" and "\<not> queue_has_commit_unknown (jam_queue (w_jam w1))"
    and "jam_queue_stop_epoch (w_jam w1) = stop_epoch"
    and "bound_spotify_device (w_jam w1) g \<noteq> None"
    and "w' = with_jam w1 (\<lambda>jam. bump_queue_revision (jam\<lparr>jam_queue := jam_queue jam @ entries\<rparr>))"
  using assms
  by (auto simp: admit_entries_def Let_def enqueue_admission_cancelled_by_stop_def
      split: prod.splits sum.splits if_splits)

lemma queue_ok_append_pending:
  assumes "queue_ok q" and "list_all (\<lambda>e. entry_ok e \<and> qe_delivery_state e = Pending) es"
    and "distinct (map entry_id es)" and "entry_id ` set es \<inter> entry_id ` set q = {}"
  shows "queue_ok (q @ es)"
proof -
  have "sorted (map qe_delivery_state es)"
    using assms(2) by (induction es) (auto simp: list_all_iff)
  moreover have "frontier_count es = 0" "unknown_count es = 0"
    using assms(2) by (induction es) auto
  ultimately show ?thesis
    using assms by (auto simp: queue_ok_def sorted_append list_all_iff)
qed

lemma pending_entry_fields:
  "qe_delivery_state (pending_queue_entry t) = Pending" "qe_track (pending_queue_entry t) = t"
  by (simp_all add: pending_queue_entry_def)

text \<open>
  Identifiers that no other task makes up: \<open>random_secret\<close> gives each caller its own.
\<close>

definition fresh_for :: "string set \<Rightarrow> world \<Rightarrow> bool" where
  "fresh_for ids w \<longleftrightarrow> ids \<inter> entry_id ` set (jam_queue (w_jam w)) = {}"

definition minds_ids :: "string set \<Rightarrow> 'a await \<Rightarrow> bool" where
  "minds_ids ids e \<longleftrightarrow> (\<forall>w. jam_queue_ok (w_jam w) \<and> fresh_for ids w \<longrightarrow>
     jam_queue_ok (w_jam (snd (e w))) \<and> fresh_for ids (snd (e w)))"

lemma minds_ids_step:
  "minds_ids ids e \<Longrightarrow> jam_queue_ok (w_jam w) \<Longrightarrow> fresh_for ids w \<Longrightarrow>
     jam_queue_ok (w_jam (snd (e w))) \<and> fresh_for ids (snd (e w))"
  by (simp add: minds_ids_def)

lemma minds_ids_ready:
  assumes "minds_ids ids snap" and "jam_queue_ok (w_jam w)" and "fresh_for ids w"
    and "ensure_jam_recovery_controls_ready snap w = (r, w')"
  shows "jam_queue_ok (w_jam w') \<and> fresh_for ids w'"
  using minds_ids_step [OF assms(1-3)] assms(2-4)
  by (auto simp: ensure_jam_recovery_controls_ready_def Let_def split: if_splits prod.splits)

lemma admit_queue_ok:
  assumes env: "minds_ids ids (am_locks env)" "minds_ids ids (am_snap env)"
    and w: "jam_queue_ok (w_jam w)" "fresh_for ids w"
    and es: "list_all (\<lambda>e. entry_ok e \<and> qe_delivery_state e = Pending) entries"
      "distinct (map entry_id entries)" "entry_id ` set entries \<subseteq> ids"
    and run: "admit_entries env g ce se m1 m2 entries w = (res, w')"
  shows "jam_queue_ok (w_jam w')"
proof -
  obtain r w1 where ready: "ensure_jam_recovery_controls_ready (am_snap env) (snd (am_locks env w)) = (r, w1)"
    by fastforce
  from minds_ids_step [OF env(1) w] have "jam_queue_ok (w_jam (snd (am_locks env w)))"
    "fresh_for ids (snd (am_locks env w))" by auto
  from minds_ids_ready [OF env(2) this ready]
  have w1: "jam_queue_ok (w_jam w1)" "fresh_for ids w1" by auto
  have "entry_id ` set entries \<inter> entry_id ` set (jam_queue (w_jam w1)) = {}"
    using w1(2) es(3) by (auto simp: fresh_for_def)
  then have "queue_ok (jam_queue (w_jam w1) @ entries)"
    using w1(1) es by (intro queue_ok_append_pending) (simp_all add: jam_queue_ok_def)
  with run ready w1 show ?thesis
    by (auto simp: admit_entries_def Let_def jam_queue_ok_def split: sum.splits if_splits)
qed

lemma finish_add_queue: "finish_add env actor payload sid eid jam = (res, jam') \<Longrightarrow> jam_queue jam' = jam_queue jam"
  by (auto simp: finish_add_def split: option.splits)

lemma playlist_entries_ok:
  "list_all (\<lambda>e. entry_ok e \<and> qe_delivery_state e = Pending) (playlist_entries env actor b x)"
  by (auto simp: playlist_entries_def list_all_iff pending_entry_fields)

lemma map_enumerate:
  "map (\<lambda>x. f (fst x)) (zip [0..<length ys] ys) = map f [0..<length ys]"
  "map (\<lambda>x. g (snd x)) (zip [0..<length ys] ys) = map g ys"
  by (rule nth_equalityI; simp)+

lemma playlist_entries_ids:
  "map entry_id (playlist_entries env actor b x) =
     map (\<lambda>i. ''qe1_'' @ py_secrets env i) [0..<length (pe_tracks x)]"
  by (simp add: playlist_entries_def enumerate_eq_zip comp_def case_prod_beta
      pending_entry_fields queued_track_from_summary_def
      map_enumerate(1) [of "\<lambda>i. ''qe1_'' @ py_secrets env i", simplified])

lemma playlist_entries_positions:
  "map (\<lambda>e. (qt_playlist_position (qe_track e), qt_spotify_id (qe_track e))) (playlist_entries env actor b x)
   = map (\<lambda>(position, summary). (Some position, fs_spotify_id summary)) (pe_tracks x)"
  by (simp add: playlist_entries_def enumerate_eq_zip comp_def case_prod_beta pending_entry_fields
      queued_track_from_summary_def
      map_enumerate(2) [of "\<lambda>x. (Some (fst x), fs_spotify_id (snd x))"])

end
