(* ===== verification/QueueApiProperties.thy ===== *)
theory QueueApiProperties
  imports QueueProperties JamQueueApi
begin

text \<open>
  What the queue's handlers promise: adding, queueing a playlist and removing keep the queue's
  invariant, take effect once per request identifier, and respect the fences.
\<close>

section \<open>Examples\<close>

lemma answer_minds [simp]: "minds_ids ids (answer a)"
  by (simp add: minds_ids_def answer_def)

definition demo_actor :: jam_actor where
  "demo_actor = \<lparr>actor_id = ''actor-sam'', actor_display_name = ''Sam''\<rparr>"

section \<open>The invariant\<close>

lemma pump_locked_queue_ok:
  assumes "list_all (relied_pump g) envs" and "jam_queue_ok (w_jam w)"
    and "pump_queue_frontier_locked envs g epoch allow w = (ended, w')"
  shows "jam_queue_ok (w_jam w')"
  using pump_loop_queue_ok [OF assms(1,2)] assms(3) by (simp add: pump_queue_frontier_locked_def)

lemma add_locked_queue_ok:
  assumes env: "minds_ids {''qe1_'' @ ad_secret env} (am_locks (ad_admit env))"
      "minds_ids {''qe1_'' @ ad_secret env} (am_snap (ad_admit env))"
      "list_all (relied_pump (jq_generation payload)) (ad_pump env)"
    and w: "jam_queue_ok (w_jam w)" "fresh_for {''qe1_'' @ ad_secret env} w"
    and run: "add_locked env actor payload spotify_id ce se summary w = (res, w')"
  shows "jam_queue_ok (w_jam w')"
proof (cases "track_replay (w_jam w) actor payload spotify_id")
  case None
  let ?entry = "pending_queue_entry (queued_track_from_summary (ad_secret env) summary actor None None None (ad_now env))"
  obtain admitted w1 where adm: "admit_entries (ad_admit env) (jq_generation payload) ce se
      ''Jam generation changed'' ''Track enqueue was interrupted by Stop Music'' [?entry] w = (admitted, w1)"
    by fastforce
  have w1: "jam_queue_ok (w_jam w1)"
    by (rule admit_queue_ok [OF env(1,2) w _ _ _ adm])
      (simp_all add: pending_entry_fields queued_track_from_summary_def)
  obtain ended w2 where pump: "pump_queue_frontier_locked (ad_pump env) (jq_generation payload) ce True w1
      = (ended, w2)" by fastforce
  have "jam_queue_ok (w_jam w2)" by (rule pump_locked_queue_ok [OF env(3) w1 pump])
  with w1 run None adm pump show ?thesis
    by (auto simp: add_locked_def Let_def jam_queue_ok_def dest: finish_add_queue
        split: sum.splits bool.splits prod.splits)
qed (use run w in \<open>simp add: add_locked_def\<close>)

text \<open>Adding a track keeps the queue's invariant, whatever the catalogue, Spotify and other tasks
  answer meanwhile, as long as no other task makes up the entry's fresh identifier.
\<close>

lemma add_keeps_queue_invariant:
  assumes "minds_ids {''qe1_'' @ ad_secret env} (ad_summary env)"
    and "minds_ids {''qe1_'' @ ad_secret env} (ad_lock env)"
    and "minds_ids {''qe1_'' @ ad_secret env} (am_locks (ad_admit env))"
    and "minds_ids {''qe1_'' @ ad_secret env} (am_snap (ad_admit env))"
    and "list_all (relied_pump (jq_generation payload)) (ad_pump env)"
    and "jam_queue_ok (w_jam w)" and "fresh_for {''qe1_'' @ ad_secret env} w"
    and "jam_queue_add env admin_refused actor payload w = (res, w')"
  shows "jam_queue_ok (w_jam w')"
proof -
  obtain summary w1 where s: "ad_summary env w = (summary, w1)" by fastforce
  have w1: "jam_queue_ok (w_jam w1)" "fresh_for {''qe1_'' @ ad_secret env} w1"
    using minds_ids_step [OF assms(1,6,7)] s by simp_all
  have locked: "jam_queue_ok (w_jam v)"
    if "add_locked env a payload i ce se x (snd (ad_lock env w1)) = (r, v)" for a i ce se x r v
    using add_locked_queue_ok [OF assms(3,4,5) _ _ that] minds_ids_step [OF assms(2) w1] by blast
  show ?thesis
    using assms(6,8) s w1(1) unfolding jam_queue_add_def Let_def
    by (auto split: sum.splits option.splits if_splits prod.splits dest: locked)
qed

lemma playlist_locked_queue_ok:
  assumes env: "minds_ids ids (am_locks (py_admit env))" "minds_ids ids (am_snap (py_admit env))"
      "minds_ids {} (py_receipt_lock env)" "list_all (relied_pump g) (py_pump env)"
    and secrets: "inj (py_secrets env)" "ids = (\<lambda>s. ''qe1_'' @ s) ` range (py_secrets env)"
    and w: "jam_queue_ok (w_jam w)" "fresh_for ids w"
    and run: "playlist_locked env actor payload selection g ce se x w = (res, w')"
  shows "jam_queue_ok (w_jam w')"
proof (cases "playlist_replay (w_jam w) actor payload selection g")
  case None
  let ?es = "playlist_entries env actor (''qb1_'' @ py_batch_secret env) x"
  obtain admitted w1 where adm: "admit_entries (py_admit env) g ce se
      ''Jam generation changed while the playlist was loading''
      ''Playlist enqueue was interrupted by Stop Music'' ?es w = (admitted, w1)" by fastforce
  have ids: "distinct (map entry_id ?es)" "entry_id ` set ?es \<subseteq> ids"
  proof -
    show "distinct (map entry_id ?es)"
      unfolding playlist_entries_ids using secrets(1) by (simp add: distinct_map inj_on_def inj_def)
    have "entry_id ` set ?es = set (map entry_id ?es)" by simp
    then show "entry_id ` set ?es \<subseteq> ids"
      unfolding playlist_entries_ids secrets(2) by auto
  qed
  have w1: "jam_queue_ok (w_jam w1)"
    by (rule admit_queue_ok [OF env(1,2) w playlist_entries_ok ids adm])
  obtain ended w2 where pump: "pump_queue_frontier_locked (py_pump env) g ce True w1 = (ended, w2)"
    by fastforce
  have w2: "jam_queue_ok (w_jam w2)" by (rule pump_locked_queue_ok [OF env(4) w1 pump])
  have "jam_queue_ok (w_jam (snd (py_receipt_lock env w2)))"
    using minds_ids_step [OF env(3) w2] by (simp add: fresh_for_def)
  with w1 w2 run None adm pump show ?thesis
    by (auto simp: playlist_locked_def Let_def jam_queue_ok_def
        split: sum.splits bool.splits prod.splits if_splits)
qed (use run w in \<open>simp add: playlist_locked_def\<close>)

text \<open>Queueing a playlist, of any size and through either endpoint, keeps the queue's invariant as
  long as the fresh identifiers differ and no other task makes them up.
\<close>

lemma playlist_keeps_queue_invariant:
  assumes "inj (py_secrets env)" and "ids = (\<lambda>s. ''qe1_'' @ s) ` range (py_secrets env)"
    and "minds_ids ids (py_snap env)" and "\<And>selection. minds_ids ids (py_expand env selection)"
    and "minds_ids ids (py_lock env)" and "minds_ids ids (am_locks (py_admit env))"
    and "minds_ids ids (am_snap (py_admit env))" and "minds_ids {} (py_receipt_lock env)"
    and "list_all (relied_pump (pq_generation payload)) (py_pump env)"
    and "jam_queue_ok (w_jam w)" and "fresh_for ids w"
  shows "jam_queue_ok (w_jam (snd (jam_queue_playlist env admin_refused actor payload w)))
    \<and> jam_queue_ok (w_jam (snd (jam_queue_playlist_selection env admin_refused actor payload w)))"
proof -
  obtain ready w1 where ready: "ensure_jam_recovery_controls_ready (py_snap env) w = (ready, w1)"
    by fastforce
  have w1: "jam_queue_ok (w_jam w1)" "fresh_for ids w1"
    using minds_ids_ready [OF assms(3,10,11) ready] by simp_all
  have w2: "jam_queue_ok (w_jam v) \<and> fresh_for ids v" if "py_expand env selection w1 = (x, v)" for selection x v
    using minds_ids_step [OF assms(4) w1, of selection] that by simp
  have locked: "jam_queue_ok (w_jam (snd (playlist_locked env a payload selection'
      (pq_generation payload) ce se y (snd (py_lock env v)))))"
    if "py_expand env selection w1 = (x, v)" for selection x v a selection' ce se y
    using playlist_locked_queue_ok [OF assms(6,7,8,9,1,2) _ _ prod.collapse [symmetric]]
      minds_ids_step [OF assms(5)] w2 [OF that] by blast
  have impl: "jam_queue_ok (w_jam (snd (jam_queue_playlist_impl env admin_refused actor payload w)))"
    using assms(10) w1(1) unfolding jam_queue_playlist_impl_def Let_def ready
    by (auto split: sum.split option.split prod.split dest: locked w2 intro: locked)
  then show ?thesis
    using assms(10) by (simp add: jam_queue_playlist_def jam_queue_playlist_selection_def)
qed

section \<open>Admission\<close>

text \<open>Entries only join the queue of the Jam that was asked for, while its source can carry it and
  its device is bound, with no skip unsettled and no acceptance unknown, and only if no Stop Music
  came since the request was admitted; they join at the end, in order, under a new revision, and a
  refused request leaves the queue as the source check left it.
\<close>

lemma admission_is_fenced:
  "case admit_entries env g control_epoch stop_epoch changed stopped entries w of
      (Inr _, w') \<Rightarrow> \<exists>w1. ensure_jam_recovery_controls_ready (am_snap env) (snd (am_locks env w)) = (Inr g, w1)
        \<and> jam_uncertain_skip (w_jam w1) = None \<and> \<not> queue_has_commit_unknown (jam_queue (w_jam w1))
        \<and> jam_queue_stop_epoch (w_jam w1) = stop_epoch \<and> bound_spotify_device (w_jam w1) g \<noteq> None
        \<and> jam_queue (w_jam w') = jam_queue (w_jam w1) @ entries
        \<and> jam_queue_revision (w_jam w') = jam_queue_revision (w_jam w1) + 1
        \<and> w_commands w' = w_commands w1
    | (Inl _, w') \<Rightarrow> w' = snd (ensure_jam_recovery_controls_ready (am_snap env) (snd (am_locks env w)))"
proof (cases "admit_entries env g control_epoch stop_epoch changed stopped entries w")
  case (Pair res w')
  show ?thesis
  proof (cases res)
    case (Inr u)
    with Pair have run: "admit_entries env g control_epoch stop_epoch changed stopped entries w = (Inr (), w')"
      by simp
    show ?thesis by (rule admit_entries_spec [OF run]) (auto simp: Pair Inr)
  next
    case (Inl e)
    with Pair show ?thesis
      by (auto simp: admit_entries_def Let_def split: prod.splits sum.splits if_splits)
  qed
qed

text \<open>A queued playlist answers for what it queued: the entries carry the positions and tracks of
  the expansion in its order, with distinct fresh identifiers and all still removable, and the
  answer names exactly those positions and the skipped items.
\<close>

lemma playlist_queues_the_expansion:
  assumes "inj (py_secrets env)"
  shows "map (\<lambda>e. (qt_playlist_position (qe_track e), qt_spotify_id (qe_track e)))
       (playlist_entries env actor batch expansion)
     = map (\<lambda>(position, summary). (Some position, fs_spotify_id summary)) (pe_tracks expansion)
    \<and> distinct (map entry_id (playlist_entries env actor batch expansion))
    \<and> list_all (\<lambda>e. qe_delivery_state e = Pending \<and> qe_can_remove e)
        (playlist_entries env actor batch expansion)
    \<and> pr_queued_positions (playlist_response payload g batch expansion) = map fst (pe_tracks expansion)
    \<and> pr_queued_count (playlist_response payload g batch expansion)
        = length (playlist_entries env actor batch expansion)
    \<and> pr_skipped (playlist_response payload g batch expansion) = pe_skipped expansion"
proof -
  have "distinct (map entry_id (playlist_entries env actor batch expansion))"
    unfolding playlist_entries_ids using assms by (simp add: distinct_map inj_on_def inj_def)
  moreover have "list_all (\<lambda>e. qe_delivery_state e = Pending \<and> qe_can_remove e)
      (playlist_entries env actor batch expansion)"
    by (auto simp: playlist_entries_def list_all_iff pending_queue_entry_def)
  moreover have "length (playlist_entries env actor batch expansion) = length (pe_tracks expansion)"
    by (simp add: playlist_entries_def)
  ultimately show ?thesis using playlist_entries_positions by (simp add: playlist_response_def)
qed

section \<open>Removal\<close>

text \<open>
  C27: a removal is exact or nothing. It either repeats the recorded answer of the same request and
  changes nothing, or it was made for the current revision of the Jam asked for, every entry it
  names was in the queue and not yet handed to Spotify, and exactly these are gone, in one new
  revision that the answer states; a refused removal changes nothing.
\<close>

theorem removal_is_exact_or_nothing:
  assumes "jam_queue_ok (w_jam (snd (lock w)))"
    and "jam_queue_remove lock admin_refused actor payload now w = (res, w')"
  shows "case res of
      Inl _ \<Rightarrow> w_jam w' = w_jam w \<or> w_jam w' = w_jam (snd (lock w))
    | Inr resp \<Rightarrow>
        (\<exists>r \<in> set (jam_queue_removal_receipts (w_jam (snd (lock w)))). rm_response (snd r) = resp)
          \<and> w_jam w' = w_jam (snd (lock w))
      \<or> (let jam = w_jam (snd (lock w)); jam' = w_jam w'; ids = set (jr_queue_entry_ids payload) in
          active_generation_matches jam (jr_generation payload)
        \<and> jam_queue_revision jam = jr_expected_queue_revision payload
        \<and> jam_queue jam' = filter (\<lambda>e. entry_id e \<notin> ids) (jam_queue jam)
        \<and> list_all (\<lambda>e. entry_id e \<in> ids \<longrightarrow> qe_delivery_state e = Pending) (jam_queue jam)
        \<and> ids \<subseteq> entry_id ` set (jam_queue jam)
        \<and> jam_queue_revision jam' = jam_queue_revision jam + 1
        \<and> rr_queue_revision resp = jam_queue_revision jam'
        \<and> rr_removed_entry_ids resp = jr_queue_entry_ids payload)"
proof (cases res)
  case (Inl e)
  with assms(2) show ?thesis
    by (auto simp: jam_queue_remove_def Let_def dest: remove_locked_refused
        split: sum.splits if_splits prod.splits)
next
  case (Inr resp)
  let ?jam = "w_jam (snd (lock w))"
  from assms(2) Inr obtain a f where f: "queue_removal_fingerprint_of payload = Inr f"
    and run: "remove_locked ?jam a payload f now = (Inr resp, w_jam w')"
    by (auto simp: jam_queue_remove_def Let_def split: sum.splits if_splits prod.splits)
  have ok: "queue_ok (jam_queue ?jam)" using assms(1) by (simp add: jam_queue_ok_def)
  have receipt: "\<exists>r \<in> set (jam_queue_removal_receipts ?jam). rm_response (snd r) = resp"
    if "queue_removal_receipt_response ?jam (jr_request_id payload) (actor_id a)
          (jr_generation payload) f = Inr (Some resp)"
    using removal_receipt_no_leak [OF that] by (force dest: hm_get_SomeD)
  have ids: "set (rf_queue_entry_ids f) = set (jr_queue_entry_ids payload)"
    using removal_fingerprint_ids [OF f] by simp
  from remove_locked_spec [OF ok run] receipt Inr show ?thesis
    unfolding ids by (auto simp: Let_def list_all_iff)
qed

definition demo_removal_world :: world where
  "demo_removal_world = demo_world [demo_committed ''entry-e1'' ''a'', demo_pending ''entry-e2'' ''b'',
     demo_pending ''entry-e3'' ''c'']"

definition demo_removal_request :: jam_queue_remove_request where
  "demo_removal_request = \<lparr>jr_generation = 1, jr_request_id = ''request-3'',
     jr_expected_queue_revision = 0, jr_queue_entry_ids = [''entry-e2'']\<rparr>"

lemma demo_removal_ok: "jam_queue_ok (w_jam demo_removal_world)"
  by (simp add: demo_removal_world_def demo_world_def demo_jam_def demo_entries jam_queue_ok_def
      queue_ok_def entry_ok_def delivery_order)

lemma demo_removal_runs:
  "\<exists>resp w'. jam_queue_remove (answer ()) None (Inr demo_actor) demo_removal_request 5 demo_removal_world
     = (Inr resp, w') \<and> map entry_id (jam_queue (w_jam w')) = [''entry-e1'', ''entry-e3'']"
proof -
  have valid: "playlist_queue_request_id_valid ''request-3''" by code_simp
  have bytes: "list_all is_id_byte ''entry-e2''" by code_simp
  show ?thesis
    using valid bytes by (simp add: jam_queue_remove_def checked_actor_def demo_removal_request_def
        queue_removal_fingerprint_of_def MAX_QUEUE_REMOVAL_ENTRIES_def answer_def remove_locked_def
        queue_removal_receipt_response_def demo_removal_world_def demo_world_def demo_jam_def
        jam_default_def demo_entries active_generation_matches_def remove_pending_queue_entries_def
        is_removable_def insert_queue_removal_receipt_def bump_queue_revision_def Let_def)
qed

theorem removal_is_exact_or_nothing_witness:
  "\<exists>w'. snd (jam_queue_remove (answer ()) None (Inr demo_actor) demo_removal_request 5 demo_removal_world) = w'
     \<and> filter (\<lambda>e. entry_id e \<noteq> ''entry-e2'') (jam_queue (w_jam demo_removal_world)) = jam_queue (w_jam w')"
proof -
  obtain resp w' where run: "jam_queue_remove (answer ()) None (Inr demo_actor) demo_removal_request 5
      demo_removal_world = (Inr resp, w')"
    and left: "map entry_id (jam_queue (w_jam w')) = [''entry-e1'', ''entry-e3'']"
    using demo_removal_runs by (elim exE conjE)
  have ok: "jam_queue_ok (w_jam (snd (answer () demo_removal_world)))"
    using demo_removal_ok by (simp add: answer_def)
  have none: "jam_queue_removal_receipts (w_jam demo_removal_world) = []"
    by (simp add: demo_removal_world_def demo_world_def demo_jam_def jam_default_def)
  from removal_is_exact_or_nothing [OF ok run] run left none show ?thesis
    by (simp add: answer_def Let_def demo_removal_request_def)
qed

section \<open>Retries\<close>

lemma finish_add_receipt:
  "finish_add env actor payload sid eid jam = (Inr r, jam') \<Longrightarrow> jq_request_id payload = Some i \<Longrightarrow>
     track_queue_receipt_response jam' i (actor_id actor) sid (jq_generation payload)
       = Inr (Some (tq_track r)) \<and> tq_request_id r = Some i"
  by (auto simp: finish_add_def track_response_insert
      split: option.splits)

lemma add_locked_receipt:
  assumes "add_locked env actor payload sid ce se summary w = (Some (Inr r), w')"
    and "jq_request_id payload = Some i"
  shows "track_queue_receipt_response (w_jam w') i (actor_id actor) sid (jq_generation payload)
       = Inr (Some (tq_track r)) \<and> tq_request_id r = Some i"
  using assms
  by (auto simp: add_locked_def track_replay_def Let_def dest: finish_add_receipt
      split: option.splits sum.splits prod.splits bool.splits)

lemma add_receipt:
  assumes "jam_queue_add env None (Inr actor) payload w = (Some (Inr r), w')"
    and "jq_request_id payload = Some i"
  shows "\<exists>sid. spotify_track_id_from_uri (jq_spotify_uri payload) = Some sid
    \<and> playlist_queue_request_id_valid i
    \<and> track_queue_receipt_response (w_jam w') i (actor_id actor) sid (jq_generation payload)
       = Inr (Some (tq_track r)) \<and> tq_request_id r = Some i"
  using assms
  by (auto simp: jam_queue_add_def checked_actor_def track_replay_def Let_def
      dest: add_locked_receipt split: option.splits sum.splits prod.splits if_splits)

lemma playlist_locked_receipt:
  assumes "playlist_locked env actor payload selection g ce se x w = (Some (Inr r), w')"
  shows "playlist_queue_receipt_response (w_jam w') (pq_request_id payload) (actor_id actor)
       (pq_playlist_id payload) selection g = Inr (Some r)"
  using assms
  by (auto simp: playlist_locked_def playlist_replay_def playlist_response_insert Let_def
      split: option.splits sum.splits prod.splits bool.splits if_splits)

lemma playlist_receipt:
  assumes "jam_queue_playlist_impl env None (Inr actor) payload w = (Some (Inr r), w')"
  shows "\<exists>selection. playlist_queue_selection_fingerprint_of payload = Inr selection
    \<and> valid_spotify_id (pq_playlist_id payload) \<and> playlist_queue_request_id_valid (pq_request_id payload)
    \<and> playlist_queue_receipt_response (w_jam w') (pq_request_id payload) (actor_id actor)
       (pq_playlist_id payload) selection (pq_generation payload) = Inr (Some r)"
  using assms
  by (auto simp: jam_queue_playlist_impl_def checked_actor_def playlist_replay_def Let_def
      dest: playlist_locked_receipt split: option.splits sum.splits prod.splits if_splits)

text \<open>
  C26: a retried request takes effect once. Repeating an answered request with its identifier, by the
  same participant, gives the same answer and changes neither the Jam nor what Spotify was sent,
  whatever else happened in between, as long as the receipt of the first is still in its table of at
  most 128: for an added track, for a removal (its receipt is looked up under the lock), and for a
  playlist while the source still carries that Jam.
\<close>

theorem retried_requests_take_effect_once:
  assumes same: "actor_id actor' = actor_id actor"
  shows "(jam_queue_add add None (Inr actor) track_request w = (Some (Inr queued), wa)
      \<and> jq_request_id track_request = Some i
      \<and> hm_get (jam_track_queue_receipts (w_jam w2)) i = hm_get (jam_track_queue_receipts (w_jam wa)) i
    \<longrightarrow> jam_queue_add add' None (Inr actor') track_request w2 = (Some (Inr queued), w2))
   \<and> (jam_queue_remove lock None (Inr actor) removal now w = (Inr removed, wr)
      \<and> hm_get (jam_queue_removal_receipts (w_jam (snd (lock' w2)))) (jr_request_id removal)
          = hm_get (jam_queue_removal_receipts (w_jam wr)) (jr_request_id removal)
    \<longrightarrow> jam_queue_remove lock' None (Inr actor') removal now' w2 = (Inr removed, snd (lock' w2)))
   \<and> (jam_queue_playlist_impl list None (Inr actor) playlist_request w = (Some (Inr listed), wp)
      \<and> ensure_jam_recovery_controls_ready (py_snap list') w2 = (Inr (pq_generation playlist_request), w3)
      \<and> hm_get (jam_playlist_queue_receipts (w_jam w3)) (pq_request_id playlist_request)
          = hm_get (jam_playlist_queue_receipts (w_jam wp)) (pq_request_id playlist_request)
    \<longrightarrow> jam_queue_playlist_impl list' None (Inr actor') playlist_request w2 = (Some (Inr listed), w3))"
proof (intro conjI impI; elim conjE)
  assume "jam_queue_add add None (Inr actor) track_request w = (Some (Inr queued), wa)"
    "jq_request_id track_request = Some i"
    "hm_get (jam_track_queue_receipts (w_jam w2)) i = hm_get (jam_track_queue_receipts (w_jam wa)) i"
  then show "jam_queue_add add' None (Inr actor') track_request w2 = (Some (Inr queued), w2)"
    using add_receipt [of add actor track_request w queued wa i] same
    by (cases queued)
      (auto simp: jam_queue_add_def checked_actor_def track_replay_def track_queue_receipt_response_def)
next
  assume run: "jam_queue_remove lock None (Inr actor) removal now w = (Inr removed, wr)"
    and still: "hm_get (jam_queue_removal_receipts (w_jam (snd (lock' w2)))) (jr_request_id removal)
      = hm_get (jam_queue_removal_receipts (w_jam wr)) (jr_request_id removal)"
  from run obtain f where "queue_removal_fingerprint_of removal = Inr f"
    "playlist_queue_request_id_valid (jr_request_id removal)"
    "queue_removal_receipt_response (w_jam wr) (jr_request_id removal) (actor_id actor)
       (jr_generation removal) f = Inr (Some removed)"
    by (auto simp: jam_queue_remove_def checked_actor_def Let_def dest: remove_locked_receipt
        split: sum.splits if_splits prod.splits)
  with still same show "jam_queue_remove lock' None (Inr actor') removal now' w2 = (Inr removed, snd (lock' w2))"
    by (simp add: jam_queue_remove_def checked_actor_def remove_locked_def queue_removal_receipt_response_def Let_def)
next
  assume "jam_queue_playlist_impl list None (Inr actor) playlist_request w = (Some (Inr listed), wp)"
    "ensure_jam_recovery_controls_ready (py_snap list') w2 = (Inr (pq_generation playlist_request), w3)"
    "hm_get (jam_playlist_queue_receipts (w_jam w3)) (pq_request_id playlist_request)
       = hm_get (jam_playlist_queue_receipts (w_jam wp)) (pq_request_id playlist_request)"
  then show "jam_queue_playlist_impl list' None (Inr actor') playlist_request w2 = (Some (Inr listed), w3)"
    using playlist_receipt [of list actor playlist_request w listed wp] same
    by (auto simp: jam_queue_playlist_impl_def checked_actor_def playlist_replay_def
        playlist_queue_receipt_response_def Let_def)
qed

text \<open>A Jam with two tracks ahead at Spotify, where a track and a playlist of one track are queued.\<close>

definition demo_busy_world :: world where
  "demo_busy_world = demo_world [demo_committed ''entry-e1'' ''a'', demo_committed ''entry-e2'' ''b'']"

definition demo_song :: favorite_summary where
  "demo_song = \<lparr>fs_spotify_id = replicate 22 CHR ''s'', fs_spotify_uri = ''spotify:track:'' @ replicate 22 CHR ''s'',
     fs_spotify_url = [], fs_name = ''Song'', fs_artist = None, fs_owner = None, fs_description = None,
     fs_artwork_url = None, fs_duration_ms = None, fs_track_count = None, fs_snapshot_id = None,
     fs_explicit = None\<rparr>"

definition demo_admit_env :: admit_env where
  "demo_admit_env = \<lparr>am_locks = answer (), am_snap = answer (demo_snapshot 1), am_retry = None\<rparr>"

definition demo_add_env :: add_env where
  "demo_add_env = \<lparr>ad_summary = answer (Inr demo_song), ad_lock = answer (), ad_admit = demo_admit_env,
     ad_pump = [demo_pump_env], ad_secret = ''x'', ad_now = 7, ad_receipt_now = 7\<rparr>"

definition demo_add_request :: jam_queue_request where
  "demo_add_request = \<lparr>jq_generation = 1, jq_request_id = Some ''request-1'',
     jq_spotify_uri = ''spotify:track:'' @ replicate 22 CHR ''s''\<rparr>"

definition demo_playlist_env :: playlist_env where
  "demo_playlist_env = \<lparr>py_snap = answer (demo_snapshot 1),
     py_expand = (\<lambda>_. answer (Inr \<lparr>pe_playlist = demo_song, pe_tracks = [(0, demo_song)], pe_skipped = []\<rparr>)),
     py_lock = answer (), py_admit = demo_admit_env, py_pump = [demo_pump_env], py_receipt_lock = answer (),
     py_batch_secret = ''y'', py_secrets = (\<lambda>i. ''z''), py_now = 8, py_receipt_now = 8\<rparr>"

definition demo_playlist_request :: playlist_queue_request where
  "demo_playlist_request = \<lparr>pq_generation = 1, pq_playlist_id = replicate 22 CHR ''p'',
     pq_request_id = ''request-2'', pq_confirmed = False, pq_selected_positions = None, pq_snapshot_id = None\<rparr>"

lemma demo_uri: "spotify_track_id_from_uri (''spotify:track:'' @ replicate 22 CHR ''s'') = Some (replicate 22 CHR ''s'')"
  by code_simp

lemma demo_request_ids: "playlist_queue_request_id_valid ''request-1''" "playlist_queue_request_id_valid ''request-2''"
  "valid_spotify_id (replicate 22 CHR ''p'')"
  by code_simp+

lemmas demo_requests = demo_busy_world_def demo_world_def demo_jam_def jam_default_def demo_entries demo_envs
  demo_admit_env_def demo_snapshot_def admit_entries_def ensure_jam_recovery_controls_ready_def bot_ready_for_def
  source_status_allows_recovery_control_def queue_has_commit_unknown_def bound_spotify_device_def
  active_generation_matches_def enqueue_admission_cancelled_by_stop_def enqueue_interrupted_by_stop_def
  pump_queue_frontier_locked_def pump_turn_def stopped_frontier_should_resume_def queue_frontier_candidate_def
  SPOTIFY_COMMITTED_QUEUE_FRONTIER_def checked_actor_def with_jam_def bump_queue_revision_def Let_def hm_get_def

lemma demo_add_runs:
  "\<exists>queued w'. jam_queue_add demo_add_env None (Inr demo_actor) demo_add_request demo_busy_world
     = (Some (Inr queued), w')"
  using demo_request_ids(1) demo_uri
  by (simp add: jam_queue_add_def demo_add_request_def demo_add_env_def track_replay_def
      track_queue_receipt_response_def add_locked_def finish_add_def queued_track_from_summary_def demo_requests)

lemma demo_playlist_runs:
  "\<exists>listed w'. jam_queue_playlist_impl demo_playlist_env None (Inr demo_actor) demo_playlist_request demo_busy_world
     = (Some (Inr listed), w')"
  using demo_request_ids(2,3)
  by (simp add: jam_queue_playlist_impl_def demo_playlist_request_def demo_playlist_env_def playlist_replay_def
      playlist_queue_receipt_response_def playlist_locked_def playlist_queue_selection_fingerprint_of_def
      playlist_entries_def queued_track_from_summary_def PLAYLIST_CONFIRMATION_THRESHOLD_def demo_requests)

text \<open>Each is asked again after the queue has been emptied, and gets its first answer.\<close>

definition emptied :: "world \<Rightarrow> world" where
  "emptied w = with_jam w (\<lambda>jam. jam\<lparr>jam_queue := []\<rparr>)"

lemma demo_playlist_ready:
  assumes "jam_queue_playlist_impl demo_playlist_env None (Inr demo_actor) demo_playlist_request demo_busy_world
     = (Some (Inr listed), w')"
  shows "ensure_jam_recovery_controls_ready (py_snap demo_playlist_env) (emptied w') = (Inr 1, emptied w')"
proof -
  have "w' = snd (jam_queue_playlist_impl demo_playlist_env None (Inr demo_actor) demo_playlist_request demo_busy_world)"
    using assms by simp
  also have "jam_active (w_jam \<dots>) \<and> jam_generation (w_jam \<dots>) = 1 \<and> w_bot \<dots> = Some (1, True)"
    using demo_request_ids(2,3)
    by (simp add: jam_queue_playlist_impl_def demo_playlist_request_def demo_playlist_env_def playlist_replay_def
        playlist_queue_receipt_response_def playlist_locked_def playlist_queue_selection_fingerprint_of_def
        playlist_entries_def queued_track_from_summary_def PLAYLIST_CONFIRMATION_THRESHOLD_def
        insert_playlist_queue_receipt_def demo_requests)
  finally show ?thesis
    by (simp add: emptied_def demo_playlist_env_def demo_requests)
qed

theorem retried_requests_take_effect_once_witness:
  "(\<exists>queued w'. jam_queue_add demo_add_env None (Inr demo_actor) demo_add_request demo_busy_world
        = (Some (Inr queued), w')
      \<and> jam_queue_add demo_add_env None (Inr demo_actor) demo_add_request (emptied w') = (Some (Inr queued), emptied w'))
   \<and> (\<exists>removed w'. jam_queue_remove (answer ()) None (Inr demo_actor) demo_removal_request 5 demo_removal_world
        = (Inr removed, w')
      \<and> jam_queue_remove (answer ()) None (Inr demo_actor) demo_removal_request 9 (emptied w') = (Inr removed, emptied w'))
   \<and> (\<exists>listed w'. jam_queue_playlist_impl demo_playlist_env None (Inr demo_actor) demo_playlist_request demo_busy_world
        = (Some (Inr listed), w')
      \<and> jam_queue_playlist_impl demo_playlist_env None (Inr demo_actor) demo_playlist_request (emptied w')
        = (Some (Inr listed), emptied w'))"
proof (intro conjI)
  obtain queued wa where add: "jam_queue_add demo_add_env None (Inr demo_actor) demo_add_request demo_busy_world
      = (Some (Inr queued), wa)" using demo_add_runs by (elim exE)
  have "jq_request_id demo_add_request = Some ''request-1''" by (simp add: demo_add_request_def)
  with add retried_requests_take_effect_once [where actor = demo_actor and actor' = demo_actor
      and add = demo_add_env and track_request = demo_add_request and w = demo_busy_world
      and queued = queued and wa = wa and i = "''request-1''" and ?w2.0 = "emptied wa" and add' = demo_add_env, OF refl, THEN conjunct1]
  show "\<exists>queued w'. jam_queue_add demo_add_env None (Inr demo_actor) demo_add_request demo_busy_world
        = (Some (Inr queued), w')
      \<and> jam_queue_add demo_add_env None (Inr demo_actor) demo_add_request (emptied w') = (Some (Inr queued), emptied w')"
    by (auto simp: emptied_def)
  obtain removed wr where remove: "jam_queue_remove (answer ()) None (Inr demo_actor) demo_removal_request 5
      demo_removal_world = (Inr removed, wr)" using demo_removal_runs by (elim exE conjE)
  with retried_requests_take_effect_once [where actor = demo_actor and actor' = demo_actor
      and lock = "answer ()" and removal = demo_removal_request and now = 5
      and w = demo_removal_world and removed = removed and wr = wr and lock' = "answer ()" and ?w2.0 = "emptied wr"
      and now' = 9, OF refl, THEN conjunct2, THEN conjunct1]
  show "\<exists>removed w'. jam_queue_remove (answer ()) None (Inr demo_actor) demo_removal_request 5 demo_removal_world
        = (Inr removed, w')
      \<and> jam_queue_remove (answer ()) None (Inr demo_actor) demo_removal_request 9 (emptied w') = (Inr removed, emptied w')"
    by (auto simp: emptied_def answer_def)
  obtain listed wp where listed: "jam_queue_playlist_impl demo_playlist_env None (Inr demo_actor) demo_playlist_request
      demo_busy_world = (Some (Inr listed), wp)" using demo_playlist_runs by (elim exE)
  have "pq_generation demo_playlist_request = 1" by (simp add: demo_playlist_request_def)
  with listed demo_playlist_ready [OF listed]
    retried_requests_take_effect_once [where actor = demo_actor and actor' = demo_actor
      and list = demo_playlist_env and playlist_request = demo_playlist_request
      and w = demo_busy_world and listed = listed and wp = wp and list' = demo_playlist_env and ?w2.0 = "emptied wp"
      and ?w3.0 = "emptied wp", OF refl, THEN conjunct2, THEN conjunct2]
  show "\<exists>listed w'. jam_queue_playlist_impl demo_playlist_env None (Inr demo_actor) demo_playlist_request demo_busy_world
        = (Some (Inr listed), w')
      \<and> jam_queue_playlist_impl demo_playlist_env None (Inr demo_actor) demo_playlist_request (emptied w')
        = (Some (Inr listed), emptied w')"
    by (auto simp: emptied_def)
qed

end
