(* ===== verification/FileStore.thy ===== *)
theory FileStore
  imports Prelude
begin

text \<open>
  The files the service keeps: a directory as a map from file names to bytes, the calls of
  \<open>std::fs\<close> the code makes on it, and the two routines every JSON store shares,
  \<open>write_atomic\<close> and the recovery in \<open>open\<close> (\<open>jam_library.rs\<close>, \<open>jam_playlist_cache.rs\<close>).

  What the operating system answers is a list of events, one per call: the call succeeds, fails
  (a write after some of its bytes), or the process is killed there, after which nothing of the
  program runs. An exhausted list means success. A rename is atomic and bytes reach the disk in
  the order they were written, which is what \<open>sync_all\<close> before the renames is for.
\<close>

section \<open>Calls that may fail\<close>

datatype io_kind = NotFound | AlreadyExists | InvalidData | InvalidInput | PermissionDenied
  | NotConnected | OtherError

datatype 'a outcome = Done 'a | Failed io_kind | Halted

datatype io_event = Succeeds | Fails nat | Halts nat

type_synonym files = "(string, string) hash_map"

record disk =
  dk_files :: files
  dk_events :: "io_event list"

type_synonym 'a io = "disk \<Rightarrow> 'a outcome \<times> disk"

definition io_return :: "'a \<Rightarrow> 'a io" where
  "io_return a d = (Done a, d)"

definition io_fail :: "io_kind \<Rightarrow> 'a io" where
  "io_fail k d = (Failed k, d)"

text \<open>The operator \<open>?\<close>: an error ends the function.\<close>

definition io_bind :: "'a io \<Rightarrow> ('a \<Rightarrow> 'b io) \<Rightarrow> 'b io" where
  "io_bind m f d =
     (case m d of (Done a, d1) \<Rightarrow> f a d1 | (Failed k, d1) \<Rightarrow> (Failed k, d1)
      | (Halted, d1) \<Rightarrow> (Halted, d1))"

definition io_then :: "'a io \<Rightarrow> 'b io \<Rightarrow> 'b io" where
  "io_then m n = io_bind m (\<lambda>_. n)"

text \<open>\<open>if let Err(error) = ...\<close> and \<open>let _ = ...\<close>.\<close>

definition io_catch :: "'a io \<Rightarrow> (io_kind \<Rightarrow> 'a io) \<Rightarrow> 'a io" where
  "io_catch m h d = (case m d of (Failed k, d1) \<Rightarrow> h k d1 | r \<Rightarrow> r)"

definition io_ignore :: "unit io \<Rightarrow> unit io" where
  "io_ignore m = io_catch m (\<lambda>_. io_return ())"

definition next_event :: "disk \<Rightarrow> io_event \<times> disk" where
  "next_event d = (case dk_events d of [] \<Rightarrow> (Succeeds, d) | e # es \<Rightarrow> (e, d\<lparr>dk_events := es\<rparr>))"

definition fs_call :: "(files \<Rightarrow> io_kind + 'a \<times> files) \<Rightarrow> 'a io" where
  "fs_call f d =
     (case next_event d of
        (Succeeds, d1) \<Rightarrow>
          (case f (dk_files d1) of Inl k \<Rightarrow> (Failed k, d1)
           | Inr (a, m) \<Rightarrow> (Done a, d1\<lparr>dk_files := m\<rparr>))
      | (Fails _, d1) \<Rightarrow> (Failed OtherError, d1)
      | (Halts _, d1) \<Rightarrow> (Halted, d1))"

definition fs_exists :: "string \<Rightarrow> disk \<Rightarrow> bool" where
  "fs_exists name d \<longleftrightarrow> hm_get (dk_files d) name \<noteq> None"

definition fs_create_new :: "string \<Rightarrow> unit io" where
  "fs_create_new name = fs_call (\<lambda>m. case hm_get m name of Some _ \<Rightarrow> Inl AlreadyExists
     | None \<Rightarrow> Inr ((), hm_insert name [] m))"

definition fs_open_append :: "string \<Rightarrow> unit io" where
  "fs_open_append name = fs_call (\<lambda>m. case hm_get m name of Some _ \<Rightarrow> Inr ((), m)
     | None \<Rightarrow> Inr ((), hm_insert name [] m))"

definition fs_read :: "string \<Rightarrow> string io" where
  "fs_read name = fs_call (\<lambda>m. case hm_get m name of None \<Rightarrow> Inl NotFound | Some s \<Rightarrow> Inr (s, m))"

definition fs_remove :: "string \<Rightarrow> unit io" where
  "fs_remove name = fs_call (\<lambda>m. case hm_get m name of None \<Rightarrow> Inl NotFound
     | Some _ \<Rightarrow> Inr ((), hm_remove name m))"

definition fs_rename :: "string \<Rightarrow> string \<Rightarrow> unit io" where
  "fs_rename old new = fs_call (\<lambda>m. case hm_get m old of None \<Rightarrow> Inl NotFound
     | Some s \<Rightarrow> Inr ((), hm_insert new s (hm_remove old m)))"

definition fs_sync :: "unit io" where
  "fs_sync = fs_call (\<lambda>m. Inr ((), m))"

definition fs_read_dir :: "string list io" where
  "fs_read_dir = fs_call (\<lambda>m. Inr (map fst m, m))"

text \<open>\<open>write_all\<close> at the end of an open file; it may stop after some bytes.\<close>

definition append_bytes :: "string \<Rightarrow> string \<Rightarrow> disk \<Rightarrow> disk" where
  "append_bytes name bytes d =
     d\<lparr>dk_files := hm_insert name (or_default [] (hm_get (dk_files d) name) @ bytes) (dk_files d)\<rparr>"

definition fs_write_all :: "string \<Rightarrow> string \<Rightarrow> unit io" where
  "fs_write_all name bytes d =
     (case next_event d of
        (Succeeds, d1) \<Rightarrow> (Done (), append_bytes name bytes d1)
      | (Fails n, d1) \<Rightarrow> (Failed OtherError, append_bytes name (take n bytes) d1)
      | (Halts n, d1) \<Rightarrow> (Halted, append_bytes name (take n bytes) d1))"

section \<open>Lines of text\<close>

text \<open>
  \<open>BufRead::lines\<close>: a line ends at a newline, which is dropped with a carriage return before it;
  bytes that are not UTF-8 are an error of kind \<open>InvalidData\<close>.
\<close>

definition valid_scalar :: "string \<Rightarrow> bool" where
  "valid_scalar ch \<longleftrightarrow>
     (let cont = (\<lambda>b. 128 \<le> b \<and> b \<le> 191) in
      case map byte_of ch of
        [b] \<Rightarrow> b < 128
      | [b, c] \<Rightarrow> 194 \<le> b \<and> b \<le> 223 \<and> cont c
      | [b, c, d] \<Rightarrow>
          ((b = 224 \<and> 160 \<le> c \<and> c \<le> 191) \<or> (225 \<le> b \<and> b \<le> 236 \<and> cont c)
         \<or> (b = 237 \<and> 128 \<le> c \<and> c \<le> 159) \<or> (238 \<le> b \<and> b \<le> 239 \<and> cont c)) \<and> cont d
      | [b, c, d, e] \<Rightarrow>
          ((b = 240 \<and> 144 \<le> c \<and> c \<le> 191) \<or> (241 \<le> b \<and> b \<le> 243 \<and> cont c)
         \<or> (b = 244 \<and> 128 \<le> c \<and> c \<le> 143)) \<and> cont d \<and> cont e
      | _ \<Rightarrow> False)"

definition utf8_valid :: "string \<Rightarrow> bool" where
  "utf8_valid s \<longleftrightarrow> list_all valid_scalar (utf8_chars s)"

abbreviation newline :: char where "newline \<equiv> CHR 0x0A"
abbreviation carriage_return :: char where "carriage_return \<equiv> CHR 0x0D"

definition strip_cr :: "string \<Rightarrow> string" where
  "strip_cr l = (if l \<noteq> [] \<and> last l = carriage_return then butlast l else l)"

fun split_lines :: "string \<Rightarrow> string \<Rightarrow> string list" where
  "split_lines acc [] = (if acc = [] then [] else [acc])"
| "split_lines acc (c # cs) =
     (if c = newline then strip_cr acc # split_lines [] cs else split_lines (acc @ [c]) cs)"

definition buf_lines :: "string \<Rightarrow> io_kind + string list" where
  "buf_lines content =
     (let ls = split_lines [] content in
      if list_all utf8_valid ls then Inr ls else Inl InvalidData)"

definition io_lines :: "string \<Rightarrow> string list io" where
  "io_lines content = (case buf_lines content of Inl k \<Rightarrow> io_fail k | Inr ls \<Rightarrow> io_return ls)"

section \<open>Atomic replacement\<close>

definition backup_path :: "string \<Rightarrow> string" where
  "backup_path file_name = file_name @ ''.bak''"

definition temp_path :: "string \<Rightarrow> string \<Rightarrow> string" where
  "temp_path file_name suffix = file_name @ ''.'' @ suffix @ ''.tmp''"

definition io_when :: "bool \<Rightarrow> unit io \<Rightarrow> unit io" where
  "io_when b m = (if b then m else io_return ())"

text \<open>\<open>path.exists()\<close> where it is asked; a call that reads only metadata and does not fail.\<close>

definition io_exists :: "string \<Rightarrow> bool io" where
  "io_exists name d = (Done (fs_exists name d), d)"

definition write_atomic :: "string \<Rightarrow> string \<Rightarrow> string \<Rightarrow> unit io" where
  "write_atomic path suffix bytes =
     (let temp = temp_path path suffix; backup = backup_path path in
      io_then (fs_create_new temp) (
      io_then (fs_write_all temp bytes) (
      io_then fs_sync (
      io_bind (io_exists backup) (\<lambda>has_backup.
      io_then (io_when has_backup (fs_remove backup)) (
      io_bind (io_exists path) (\<lambda>had_original.
      io_then (io_when had_original (fs_rename path backup)) (
      io_catch (fs_rename temp path) (\<lambda>error.
        io_then (io_when had_original (io_ignore (fs_rename backup path))) (
        io_then (io_ignore (fs_remove temp))
        (io_fail error)))))))))))"

text \<open>
  \<open>open\<close>, with the parsing and validation of the bytes as \<open>load\<close>: the primary file, or its backup
  where a replacement was interrupted between the two renames, or the default.
\<close>

definition load_from :: "(string \<Rightarrow> 'a option) \<Rightarrow> string \<Rightarrow> 'a io" where
  "load_from load path = io_bind (fs_read path)
     (\<lambda>bytes. case load bytes of None \<Rightarrow> io_fail InvalidData | Some v \<Rightarrow> io_return v)"

definition open_store :: "(string \<Rightarrow> 'a option) \<Rightarrow> 'a \<Rightarrow> string \<Rightarrow> 'a io" where
  "open_store load initial path =
     io_bind (io_exists path) (\<lambda>primary.
     if primary then load_from load path
     else io_bind (io_exists (backup_path path)) (\<lambda>has_backup.
       if has_backup then
         io_bind (load_from load (backup_path path)) (\<lambda>recovered.
         io_then (fs_rename (backup_path path) path) (io_return recovered))
       else io_return initial))"

text \<open>\<open>recover_read_only\<close>: the backup where it is valid, and no writes.\<close>

definition recover_read_only :: "(string \<Rightarrow> 'a option) \<Rightarrow> 'a \<Rightarrow> string \<Rightarrow> 'a io" where
  "recover_read_only load initial path =
     io_catch (load_from load (backup_path path)) (\<lambda>_. io_return initial)"

section \<open>Reasoning about calls\<close>

lemmas io_defs = io_bind_def io_then_def io_catch_def io_ignore_def io_return_def io_fail_def
  io_when_def io_exists_def

lemma next_event_files [simp]:
  "next_event d = (e, d1) \<Longrightarrow> dk_files d1 = dk_files d"
  by (auto simp: next_event_def split: list.splits)

text \<open>What a call does to the files: on success its effect, otherwise nothing.\<close>

lemma fs_call_cases:
  assumes "fs_call f d = (r, d')"
  obtains (ok) a m where "r = Done a" "f (dk_files d) = Inr (a, m)" "dk_files d' = m"
    | (no) "dk_files d' = dk_files d" "\<And>a. r \<noteq> Done a"
proof -
  obtain e d1 where e: "next_event d = (e, d1)" by fastforce
  with next_event_files [OF e] assms show thesis
    by (cases e) (auto simp: fs_call_def intro: ok no split: sum.splits)
qed

lemma io_bind_cases:
  assumes "io_bind m f d = (r, d')"
  obtains (cont) a d1 where "m d = (Done a, d1)" "f a d1 = (r, d')"
    | (stop) r0 where "m d = (r0, d')" "\<And>a. r0 \<noteq> Done a" "\<And>a. r \<noteq> Done a"
        "r = Halted \<longleftrightarrow> r0 = Halted"
  using assms by (auto simp: io_bind_def split: prod.splits outcome.splits)

text \<open>
  An assertion that holds of the files whenever the program may stop. \<open>kept I m Q\<close>: started
  where \<open>I\<close> holds, every call of \<open>m\<close> keeps \<open>I\<close>, and \<open>Q\<close> holds of the answer and the files once
  it returns one.
\<close>

definition runs :: "(files \<Rightarrow> bool) \<Rightarrow> 'a io \<Rightarrow> ('a \<Rightarrow> files \<Rightarrow> bool) \<Rightarrow> (files \<Rightarrow> bool) \<Rightarrow> bool" where
  "runs P m Q I \<longleftrightarrow> (\<forall>d r d'. P (dk_files d) \<longrightarrow> m d = (r, d') \<longrightarrow>
     (case r of Done a \<Rightarrow> Q a (dk_files d') | _ \<Rightarrow> I (dk_files d')))"

lemma runsI:
  "(\<And>d r d'. P (dk_files d) \<Longrightarrow> m d = (r, d') \<Longrightarrow>
     (case r of Done a \<Rightarrow> Q a (dk_files d') | _ \<Rightarrow> I (dk_files d'))) \<Longrightarrow> runs P m Q I"
  by (simp add: runs_def)

lemma runsD:
  "runs P m Q I \<Longrightarrow> P (dk_files d) \<Longrightarrow> m d = (r, d') \<Longrightarrow>
     (case r of Done a \<Rightarrow> Q a (dk_files d') | _ \<Rightarrow> I (dk_files d'))"
  by (simp add: runs_def)

lemma runs_pre: "runs P m Q I \<Longrightarrow> (\<And>m. P' m \<Longrightarrow> P m) \<Longrightarrow> runs P' m Q I"
  unfolding runs_def by blast

lemma runs_post:
  "runs P m Q I \<Longrightarrow> (\<And>a m. Q a m \<Longrightarrow> Q' a m) \<Longrightarrow> (\<And>m. I m \<Longrightarrow> I' m) \<Longrightarrow> runs P m Q' I'"
  unfolding runs_def by (fastforce split: outcome.splits)

lemma runs_bind:
  assumes "runs P m Q I" and "\<And>a. runs (Q a) (f a) R I"
  shows "runs P (io_bind m f) R I"
proof (rule runsI)
  fix d r d' assume P: "P (dk_files d)" and run: "io_bind m f d = (r, d')"
  obtain r1 d1 where m: "m d = (r1, d1)" by fastforce
  from runsD [OF assms(1) P m] have first: "case r1 of Done a \<Rightarrow> Q a (dk_files d1) | _ \<Rightarrow> I (dk_files d1)" .
  show "case r of Done a \<Rightarrow> R a (dk_files d') | _ \<Rightarrow> I (dk_files d')"
  proof (cases r1)
    case (Done a)
    with m run have "f a d1 = (r, d')" by (simp add: io_bind_def)
    with first Done runsD [OF assms(2)] show ?thesis by simp
  qed (use m run first in \<open>auto simp: io_bind_def\<close>)
qed

lemma runs_then: "runs P m (\<lambda>_. Q) I \<Longrightarrow> runs Q n R I \<Longrightarrow> runs P (io_then m n) R I"
  unfolding io_then_def by (rule runs_bind)

lemma runs_return: "(\<And>m. P m \<Longrightarrow> Q a m) \<Longrightarrow> runs P (io_return a) Q I"
  by (simp add: runs_def io_return_def)

lemma runs_fail: "(\<And>m. P m \<Longrightarrow> I m) \<Longrightarrow> runs P (io_fail k) Q I"
  by (simp add: runs_def io_fail_def)

lemma runs_bind_exists:
  "(\<And>b. runs (\<lambda>m. P m \<and> (b \<longleftrightarrow> hm_get m name \<noteq> None)) (f b) R I) \<Longrightarrow>
     runs P (io_bind (io_exists name) f) R I"
  by (simp add: runs_def io_bind_def io_exists_def fs_exists_def)

lemma runs_when:
  "(b \<Longrightarrow> runs P m (\<lambda>_. Q) I) \<Longrightarrow> (\<And>m. \<not> b \<Longrightarrow> P m \<Longrightarrow> Q m) \<Longrightarrow> runs P (io_when b m) (\<lambda>_. Q) I"
  by (auto simp: io_when_def intro: runs_return)

text \<open>A handler runs where the call failed: there \<open>I\<close> holds and, for one call, nothing happened.\<close>

lemma runs_call:
  "(\<And>m. P m \<Longrightarrow> I m) \<Longrightarrow> (\<And>m a m'. P m \<Longrightarrow> f m = Inr (a, m') \<Longrightarrow> Q a m') \<Longrightarrow> runs P (fs_call f) Q I"
proof (rule runsI)
  fix d r d'
  assume stay: "\<And>m. P m \<Longrightarrow> I m" and move: "\<And>m a m'. P m \<Longrightarrow> f m = Inr (a, m') \<Longrightarrow> Q a m'"
    and P: "P (dk_files d)" and run: "fs_call f d = (r, d')"
  from run show "case r of Done a \<Rightarrow> Q a (dk_files d') | _ \<Rightarrow> I (dk_files d')"
  proof (cases rule: fs_call_cases)
    case (ok a m)
    with move [OF P] show ?thesis by simp
  next
    case no
    with stay [OF P] show ?thesis by (cases r) auto
  qed
qed

lemma runs_catch_call:
  assumes "\<And>m. P m \<Longrightarrow> I m" and "\<And>m a m'. P m \<Longrightarrow> f m = Inr (a, m') \<Longrightarrow> Q a m'"
    and "\<And>k. runs P (h k) Q I"
  shows "runs P (io_catch (fs_call f) h) Q I"
proof (rule runsI)
  fix d r d' assume P: "P (dk_files d)" and run: "io_catch (fs_call f) h d = (r, d')"
  obtain r1 d1 where call: "fs_call f d = (r1, d1)" by fastforce
  have "runs P (fs_call f) Q I" by (rule runs_call) (use assms(1,2) in auto)
  then have goal: "case r1 of Done a \<Rightarrow> Q a (dk_files d1) | _ \<Rightarrow> I (dk_files d1)"
    using P call unfolding runs_def by blast
  have same: "dk_files d1 = dk_files d" if "r1 = Failed k" for k
    using call that by (cases rule: fs_call_cases) auto
  show "case r of Done a \<Rightarrow> Q a (dk_files d') | _ \<Rightarrow> I (dk_files d')"
  proof (cases r1)
    case (Failed k)
    with call run have "h k d1 = (r, d')" by (simp add: io_catch_def)
    moreover have "P (dk_files d1)" using same [OF Failed] P by simp
    ultimately show ?thesis using assms(3) unfolding runs_def by blast
  qed (use call run goal in \<open>auto simp: io_catch_def\<close>)
qed

lemma runs_ignore_call:
  assumes "\<And>m. P m \<Longrightarrow> I m" and "\<And>m a m'. P m \<Longrightarrow> f m = Inr (a, m') \<Longrightarrow> Q m'" and "\<And>m. P m \<Longrightarrow> Q m"
  shows "runs P (io_ignore (fs_call f)) (\<lambda>_. Q) I"
  unfolding io_ignore_def by (rule runs_catch_call) (use assms in \<open>auto intro: runs_return\<close>)

lemma runs_write:
  assumes "\<And>m n. P m \<Longrightarrow> I (hm_insert name (or_default [] (hm_get m name) @ take n bytes) m)"
    and "\<And>m. P m \<Longrightarrow> Q (hm_insert name (or_default [] (hm_get m name) @ bytes) m)"
  shows "runs P (fs_write_all name bytes) (\<lambda>_. Q) I"
proof (rule runsI)
  fix d r d' assume P: "P (dk_files d)" and run: "fs_write_all name bytes d = (r, d')"
  obtain e d1 where e: "next_event d = (e, d1)" by fastforce
  with run assms P next_event_files [OF e] show "case r of Done a \<Rightarrow> Q (dk_files d') | _ \<Rightarrow> I (dk_files d')"
    by (cases e) (auto simp: fs_write_all_def append_bytes_def)
qed

lemma runs_conj:
  "runs P m Q I \<Longrightarrow> runs P m Q' I' \<Longrightarrow> runs P m (\<lambda>a x. Q a x \<and> Q' a x) (\<lambda>x. I x \<and> I' x)"
  unfolding runs_def by (fastforce split: outcome.splits)

section \<open>Replacement is atomic\<close>

text \<open>What \<open>open\<close> would find, and the state in which the backup is only a spare copy.\<close>

definition stored :: "string \<Rightarrow> files \<Rightarrow> string option" where
  "stored path m = (case hm_get m path of Some s \<Rightarrow> Some s | None \<Rightarrow> hm_get m (backup_path path))"

definition settled :: "string \<Rightarrow> files \<Rightarrow> bool" where
  "settled path m \<longleftrightarrow> hm_get m path \<noteq> None \<or> hm_get m (backup_path path) = None"

lemma other_paths [simp]:
  "temp_path path suffix \<noteq> path" "path \<noteq> temp_path path suffix"
  "backup_path path \<noteq> path" "path \<noteq> backup_path path"
  by (simp_all add: temp_path_def backup_path_def)

lemma temp_not_backup [simp]:
  "temp_path path suffix \<noteq> backup_path path" "backup_path path \<noteq> temp_path path suffix"
proof -
  have "last (temp_path path suffix) \<noteq> last (backup_path path)"
    by (simp add: temp_path_def backup_path_def)
  then show "temp_path path suffix \<noteq> backup_path path" "backup_path path \<noteq> temp_path path suffix"
    by auto
qed

text \<open>
  Wherever a replacement fails or is cut off, what \<open>open\<close> finds is still the old content; once it
  returns, it is the new one.
\<close>

lemma write_atomic_runs:
  "runs (\<lambda>m. settled path m \<and> stored path m = old) (write_atomic path suffix bytes)
     (\<lambda>_ m. hm_get m path = Some bytes) (\<lambda>m. stored path m = old)"
proof -
  let ?temp = "temp_path path suffix" and ?backup = "backup_path path"
  let ?I = "\<lambda>m. stored path m = old"
  let ?P = "\<lambda>m. settled path m \<and> stored path m = old"
  let ?W = "\<lambda>m. ?P m \<and> hm_get m ?temp = Some bytes"
  let ?N = "\<lambda>m. stored path m = old \<and> hm_get m ?temp = Some bytes \<and> hm_get m ?backup = None"
  let ?R = "\<lambda>had m. stored path m = old \<and> hm_get m ?temp = Some bytes \<and> hm_get m path = None
     \<and> (had \<longleftrightarrow> hm_get m ?backup \<noteq> None)"
  have create: "runs ?P (fs_create_new ?temp) (\<lambda>_ m. ?P m \<and> hm_get m ?temp = Some []) ?I"
    unfolding fs_create_new_def
    by (rule runs_call) (auto simp: stored_def settled_def hm_simps split: option.splits)
  have filled: "runs (\<lambda>m. ?P m \<and> hm_get m ?temp = Some []) (fs_write_all ?temp bytes) (\<lambda>_. ?W) ?I"
    by (rule runs_write) (auto simp: stored_def settled_def hm_simps split: option.splits)
  have sync: "runs ?W fs_sync (\<lambda>_. ?W) ?I"
    unfolding fs_sync_def by (rule runs_call) auto
  have rm: "runs (\<lambda>m. ?W m \<and> (b \<longleftrightarrow> hm_get m ?backup \<noteq> None)) (io_when b (fs_remove ?backup)) (\<lambda>_. ?N) ?I"
    for b
    unfolding fs_remove_def
    by (intro runs_when runs_call)
      (auto simp: stored_def settled_def hm_simps split: option.splits)
  have mv: "runs (\<lambda>m. ?N m \<and> (had \<longleftrightarrow> hm_get m path \<noteq> None))
      (io_when had (fs_rename path ?backup)) (\<lambda>_. ?R had) ?I" for had
    unfolding fs_rename_def
    by (intro runs_when runs_call) (auto simp: stored_def hm_simps split: option.splits)
  have undo: "runs (?R had) (io_then (io_when had (io_ignore (fs_rename ?backup path)))
      (io_then (io_ignore (fs_remove ?temp)) (io_fail k))) Q ?I" for had k Q
    unfolding fs_rename_def fs_remove_def
    by (rule runs_then [where Q = ?I], intro runs_when runs_ignore_call,
        auto simp: stored_def hm_simps split: option.splits)
      (rule runs_then [where Q = ?I], intro runs_ignore_call,
        auto simp: stored_def hm_simps intro: runs_fail split: option.splits)
  have swap: "runs (?R had) (io_catch (fs_rename ?temp path) (\<lambda>error.
      io_then (io_when had (io_ignore (fs_rename ?backup path)))
      (io_then (io_ignore (fs_remove ?temp)) (io_fail error))))
      (\<lambda>_ m. hm_get m path = Some bytes) ?I" for had
    unfolding fs_rename_def [of ?temp]
    by (rule runs_catch_call [OF _ _ undo]) (auto simp: hm_simps split: option.splits)
  show ?thesis
    unfolding write_atomic_def Let_def
    by (rule runs_then [OF create] runs_then [OF filled] runs_then [OF sync])+
      (intro runs_bind_exists runs_then [OF rm] runs_then [OF mv] swap)
qed

section \<open>Stores that survive a crash\<close>

text \<open>
  A store keeps a value in memory and its rendering on disk, and validates what it loads. What the
  JSON stores promise: validation answers only valid values, and a valid value loads again, as
  itself or as one that says the same (\<open>alike\<close>).
\<close>

locale durable_store =
  fixes valid :: "'a \<Rightarrow> bool"
    and validate :: "'a \<Rightarrow> 'a option"
    and alike :: "'a \<Rightarrow> 'a \<Rightarrow> bool"
  assumes validate_valid: "validate x = Some y \<Longrightarrow> valid y"
    and validate_alike: "valid x \<Longrightarrow> \<exists>y. validate x = Some y \<and> alike y x"
    and alike_refl: "alike x x"
begin

text \<open>The disk agrees with a value in memory: opening the store would find one alike.\<close>

definition agrees :: "(string \<Rightarrow> 'a option) \<Rightarrow> 'a \<Rightarrow> string \<Rightarrow> 'a \<Rightarrow> files \<Rightarrow> bool" where
  "agrees parse initial path x m \<longleftrightarrow>
     (case stored path m of None \<Rightarrow> x = initial
      | Some bytes \<Rightarrow> (\<exists>y. Option.bind (parse bytes) validate = Some y \<and> alike y x))"

lemma commit_runs:
  assumes "valid y" and "parse bytes = Some y"
  shows "runs (\<lambda>m. settled path m \<and> agrees parse initial path x m) (write_atomic path suffix bytes)
     (\<lambda>_ m. settled path m \<and> agrees parse initial path y m) (\<lambda>m. agrees parse initial path x m)"
proof -
  have one: "runs (\<lambda>m. settled path m \<and> stored path m = old) (write_atomic path suffix bytes)
      (\<lambda>_ m. settled path m \<and> agrees parse initial path y m) (\<lambda>m. stored path m = old)" for old
    by (rule runs_post [OF write_atomic_runs])
      (use assms validate_alike in \<open>auto simp: agrees_def stored_def settled_def\<close>)
  show ?thesis
    unfolding runs_def
  proof (intro allI impI)
    fix d r d'
    assume pre: "settled path (dk_files d) \<and> agrees parse initial path x (dk_files d)"
      and run: "write_atomic path suffix bytes d = (r, d')"
    from runsD [OF one [of "stored path (dk_files d)"] _ run] pre
    show "case r of Done _ \<Rightarrow> settled path (dk_files d') \<and> agrees parse initial path y (dk_files d')
        | _ \<Rightarrow> agrees parse initial path x (dk_files d')"
      by (cases r) (simp_all add: agrees_def)
  qed
qed

lemma commit_leaves:
  assumes "settled path (dk_files d)" and "agrees parse initial path x (dk_files d)"
    and "valid y" and "parse bytes = Some y"
  shows "case io_then (write_atomic path suffix bytes) (io_return s) d of
      (Done s', d') \<Rightarrow> s' = s \<and> settled path (dk_files d') \<and> agrees parse initial path y (dk_files d')
    | (_, d') \<Rightarrow> agrees parse initial path x (dk_files d')"
proof -
  obtain r d' where w: "write_atomic path suffix bytes d = (r, d')" by fastforce
  have "case r of Done _ \<Rightarrow> settled path (dk_files d') \<and> agrees parse initial path y (dk_files d')
      | _ \<Rightarrow> agrees parse initial path x (dk_files d')"
    using commit_runs [where y = y and parse = parse and bytes = bytes and path = path
        and initial = initial and x = x and suffix = suffix] w assms
    unfolding runs_def by blast
  with w show ?thesis by (cases r) (simp_all add: io_defs)
qed

text \<open>Opening the store again, with nothing failing, answers a value alike.\<close>

lemma reopen_finds:
  assumes "agrees parse initial path x (dk_files d)" and "dk_events d = []"
  shows "\<exists>y d'. open_store (\<lambda>bytes. Option.bind (parse bytes) validate) initial path d = (Done y, d')
     \<and> alike y x"
  using assms alike_refl
  by (auto simp: open_store_def io_defs fs_exists_def load_from_def fs_read_def fs_rename_def
      fs_call_def next_event_def agrees_def stored_def settled_def hm_simps split: option.splits)

lemma opened_is_valid:
  assumes "open_store (\<lambda>bytes. Option.bind (parse bytes) validate) initial path d = (Done x, d')"
    and "valid initial"
  shows "valid x \<and> settled path (dk_files d') \<and> agrees parse initial path x (dk_files d')"
proof -
  have loaded: "valid y" if "Option.bind (parse bytes) validate = Some y" for bytes y
    using that validate_valid by (auto simp: bind_eq_Some_conv)
  show ?thesis
    using assms alike_refl
    by (auto simp: open_store_def io_defs fs_exists_def load_from_def fs_read_def fs_rename_def
        fs_call_def agrees_def stored_def settled_def hm_simps loaded
        split: option.splits if_splits prod.splits outcome.splits io_event.splits sum.splits
        dest: next_event_files)
qed

end

text \<open>
  What the two renames do not survive: when moving the new file into place fails and so does the
  undo, the backup is the only copy, and the next write removes it before its own file is in place.
\<close>

lemma unrestored_backup_is_lost:
  "\<exists>d1. write_atomic ''f'' ''r'' new \<lparr>dk_files = [(''f'', old)],
          dk_events = [Succeeds, Succeeds, Succeeds, Succeeds, Fails 0, Fails 0, Succeeds]\<rparr> = (Failed OtherError, d1)
     \<and> stored ''f'' (dk_files d1) = Some old
     \<and> (\<exists>d2. write_atomic ''f'' ''s'' new
               (d1\<lparr>dk_events := [Succeeds, Succeeds, Succeeds, Succeeds, Halts 0]\<rparr>) = (Halted, d2)
          \<and> stored ''f'' (dk_files d2) = None)"
  by (simp add: write_atomic_def Let_def io_defs fs_create_new_def fs_write_all_def fs_sync_def
      fs_rename_def fs_remove_def fs_call_def next_event_def fs_exists_def append_bytes_def
      hm_insert_def hm_remove_def hm_get_def temp_path_def backup_path_def stored_def or_default_def)

end
