(* ===== verification/JamHistory.thy ===== *)
theory JamHistory
  imports JamModel FileStore "HOL-Library.Multiset"
begin

text \<open>
  The listening history (\<open>jam_history.rs\<close>): one file of JSON rows per day, pruned after thirty days
  on every append. \<open>parse\<close> and \<open>render\<close> stand for serde's codec of a row, \<open>secret\<close> for
  \<open>random_secret\<close>, \<open>to_lowercase\<close> for Unicode's lower case. The directory exists, since \<open>open\<close>
  created it, and holds regular files only.
\<close>

section \<open>Rows\<close>

definition HISTORY_SCHEMA_VERSION :: "16 word" where "HISTORY_SCHEMA_VERSION = 1"
definition HISTORY_RETENTION_DAYS :: u64 where "HISTORY_RETENTION_DAYS = 30"
definition DAY_MS :: u64 where "DAY_MS = 86400000"
definition RETENTION_MS :: u64 where "RETENTION_MS = HISTORY_RETENTION_DAYS * DAY_MS"
definition MAX_HISTORY_LIMIT :: nat where "MAX_HISTORY_LIMIT = 200"

record jam_history_entry =
  he_schema_version :: "16 word"
  he_history_entry_id :: string
  he_played_at_ms :: u64
  he_queue_entry_id :: string
  he_queue_batch_id :: "string option"
  he_spotify_id :: string
  he_spotify_uri :: string
  he_spotify_url :: string
  he_name :: string
  he_artist :: string
  he_album_art_url :: string
  he_duration_ms :: u64
  he_added_at_ms :: u64
  he_added_by_actor_id :: string
  he_added_by_name :: string
  he_added_by :: string
  he_playlist :: "queued_playlist_provenance option"

definition from_track :: "string \<Rightarrow> queued_track \<Rightarrow> u64 \<Rightarrow> jam_history_entry" where
  "from_track secret track played_at_ms =
     \<lparr>he_schema_version = HISTORY_SCHEMA_VERSION, he_history_entry_id = ''jh1_'' @ secret,
      he_played_at_ms = played_at_ms, he_queue_entry_id = qt_queue_entry_id track,
      he_queue_batch_id = qt_queue_batch_id track, he_spotify_id = qt_spotify_id track,
      he_spotify_uri = qt_spotify_uri track, he_spotify_url = qt_spotify_url track,
      he_name = qt_name track, he_artist = qt_artist track,
      he_album_art_url = qt_album_art_url track, he_duration_ms = qt_duration_ms track,
      he_added_at_ms = qt_added_at_ms track, he_added_by_actor_id = qt_added_by_actor_id track,
      he_added_by_name = qt_added_by_name track, he_added_by = qt_added_by track,
      he_playlist = qt_playlist track\<rparr>"

type_synonym row_parser = "string \<Rightarrow> jam_history_entry option"

section \<open>Files\<close>

definition is_history_file :: "string \<Rightarrow> bool" where
  "is_history_file name \<longleftrightarrow>
     strip_prefix ''history-v1-'' name \<noteq> None \<and> ends_with name ''.jsonl''"

definition history_files :: "string list io" where
  "history_files = io_bind fs_read_dir (\<lambda>names. io_return (sort (filter is_history_file names)))"

definition history_path :: "u64 \<Rightarrow> string" where
  "history_path at_ms = ''history-v1-'' @ nat_to_string (unat (at_ms div DAY_MS)) @ ''.jsonl''"

text \<open>\<open>with_extension\<close> on a name that ends in \<open>.jsonl\<close>.\<close>

definition with_extension :: "string \<Rightarrow> string \<Rightarrow> string" where
  "with_extension name ext = take (length name - 5) name @ ext"

definition prune_backup_path :: "string \<Rightarrow> string" where
  "prune_backup_path name = with_extension name ''jsonl.prune.bak''"

definition replace_jsonl :: "string \<Rightarrow> string \<Rightarrow> string list \<Rightarrow> unit io" where
  "replace_jsonl secret path lines =
     (let temp = with_extension path (secret @ ''.tmp''); backup = prune_backup_path path in
      io_then (fs_create_new temp) (
      io_then (fs_write_all temp (concat (map (\<lambda>l. l @ [newline]) lines))) (
      io_then fs_sync (
      io_bind (io_exists backup) (\<lambda>has_backup.
      io_then (io_when has_backup (fs_remove backup)) (
      io_then (fs_rename path backup) (
      io_then (io_catch (fs_rename temp path) (\<lambda>error.
        io_then (io_ignore (fs_rename backup path)) (
        io_then (io_ignore (fs_remove temp))
        (io_fail error))))
      (io_ignore (fs_remove backup)))))))))"

definition row_expired :: "row_parser \<Rightarrow> u64 \<Rightarrow> string \<Rightarrow> bool" where
  "row_expired parse cutoff line =
     (case parse line of None \<Rightarrow> False
      | Some e \<Rightarrow> he_schema_version e = HISTORY_SCHEMA_VERSION \<and> he_played_at_ms e < cutoff)"

definition row_retained :: "row_parser \<Rightarrow> u64 \<Rightarrow> string \<Rightarrow> bool" where
  "row_retained parse cutoff line \<longleftrightarrow> \<not> blank line \<and> \<not> row_expired parse cutoff line"

definition prune_file :: "row_parser \<Rightarrow> (string \<Rightarrow> string) \<Rightarrow> u64 \<Rightarrow> string \<Rightarrow> unit io" where
  "prune_file parse secret cutoff path =
     io_bind (fs_read path) (\<lambda>content.
     io_bind (io_lines content) (\<lambda>lines.
       let retained = filter (row_retained parse cutoff) lines in
       if list_all (row_retained parse cutoff) lines then io_return ()
       else if retained = [] then fs_remove path
       else replace_jsonl (secret path) path retained))"

fun prune_each :: "row_parser \<Rightarrow> (string \<Rightarrow> string) \<Rightarrow> u64 \<Rightarrow> string list \<Rightarrow> unit io" where
  "prune_each parse secret cutoff [] = io_return ()"
| "prune_each parse secret cutoff (path # paths) =
     io_then (prune_file parse secret cutoff path) (prune_each parse secret cutoff paths)"

definition prune_locked :: "row_parser \<Rightarrow> (string \<Rightarrow> string) \<Rightarrow> u64 \<Rightarrow> unit io" where
  "prune_locked parse secret now_ms =
     io_bind history_files (prune_each parse secret (sat_sub now_ms RETENTION_MS))"

section \<open>The store\<close>

record jam_history_store =
  hs_enabled :: bool
  hs_revision :: u64

definition check_enabled :: "jam_history_store \<Rightarrow> unit io" where
  "check_enabled store = (if hs_enabled store then io_return () else io_fail NotConnected)"

definition prune :: "row_parser \<Rightarrow> (string \<Rightarrow> string) \<Rightarrow> jam_history_store \<Rightarrow> u64 \<Rightarrow> unit io" where
  "prune parse secret store now_ms =
     io_then (check_enabled store) (prune_locked parse secret now_ms)"

fun recover_each :: "string list \<Rightarrow> unit io" where
  "recover_each [] = io_return ()"
| "recover_each (name # names) =
     io_then
       (if ends_with name ''.prune.bak'' then
          let original = take (length name - length ''.prune.bak'') name in
          io_bind (io_exists original) (\<lambda>there.
            if there then fs_remove name else fs_rename name original)
        else io_return ())
       (recover_each names)"

definition recover_prune_backups :: "unit io" where
  "recover_prune_backups = io_bind fs_read_dir recover_each"

definition open_history ::
  "row_parser \<Rightarrow> (string \<Rightarrow> string) \<Rightarrow> u64 \<Rightarrow> jam_history_store io" where
  "open_history parse secret now_ms =
     io_then recover_prune_backups (
     (let store = \<lparr>hs_enabled = True, hs_revision = 0\<rparr> in
      io_then (prune parse secret store now_ms) (io_return store)))"

definition disabled_history :: jam_history_store where
  "disabled_history = \<lparr>hs_enabled = False, hs_revision = 0\<rparr>"

text \<open>
  Before a row is written, a file that does not end in a newline (a row was torn) gets one.
\<close>

definition end_torn_row :: "string \<Rightarrow> unit io" where
  "end_torn_row path =
     io_bind (fs_read path) (\<lambda>content.
       io_when (content \<noteq> [] \<and> last content \<noteq> newline) (fs_write_all path [newline]))"

definition append_observation ::
  "row_parser \<Rightarrow> (jam_history_entry \<Rightarrow> string) \<Rightarrow> (string \<Rightarrow> string) \<Rightarrow> string
   \<Rightarrow> jam_history_store \<Rightarrow> queued_track \<Rightarrow> u64 \<Rightarrow> (jam_history_entry \<times> jam_history_store) io" where
  "append_observation parse render secret entry_secret store track played_at_ms =
     (let entry = from_track entry_secret track played_at_ms;
          path = history_path played_at_ms in
      io_then (check_enabled store) (
      io_then (prune_locked parse secret played_at_ms) (
      io_then (fs_open_append path) (
      io_then (end_torn_row path) (
      io_then (fs_write_all path (render entry @ [newline])) (
      io_then fs_sync (
      io_return (entry, store\<lparr>hs_revision := hs_revision store + 1\<rparr>))))))))"

definition visible_rows :: "row_parser \<Rightarrow> u64 \<Rightarrow> string list \<Rightarrow> jam_history_entry list" where
  "visible_rows parse cutoff lines =
     filter (\<lambda>e. he_schema_version e = HISTORY_SCHEMA_VERSION \<and> cutoff \<le> he_played_at_ms e)
       (List.map_filter parse (filter (\<lambda>l. \<not> blank l) lines))"

fun list_each :: "row_parser \<Rightarrow> u64 \<Rightarrow> string list \<Rightarrow> jam_history_entry list io" where
  "list_each parse cutoff [] = io_return []"
| "list_each parse cutoff (path # paths) =
     io_bind (fs_read path) (\<lambda>content.
     io_bind (io_lines content) (\<lambda>lines.
     io_bind (list_each parse cutoff paths) (\<lambda>rest.
     io_return (visible_rows parse cutoff lines @ rest))))"

definition list_history :: "row_parser \<Rightarrow> jam_history_store \<Rightarrow> u64 \<Rightarrow> jam_history_entry list io" where
  "list_history parse store now_ms =
     io_then (check_enabled store) (
     io_bind history_files (list_each parse (sat_sub now_ms RETENTION_MS)))"

section \<open>Runs of one track\<close>

record history_observation =
  ho_spotify_id :: string
  ho_queued_track :: "queued_track option"
  ho_echo_run :: bool

definition new_history_observation ::
  "string option \<Rightarrow> bool \<Rightarrow> string option \<Rightarrow> queued_track option \<Rightarrow> bool \<Rightarrow> bool
   \<Rightarrow> history_observation option" where
  "new_history_observation last_spotify_id last_run_was_echo observed_spotify_id queued_track
       is_playing occurrence_restarted =
     (if \<not> is_playing then None
      else case filter_option (\<lambda>i. i \<noteq> []) observed_spotify_id of None \<Rightarrow> None
      | Some spotify_id \<Rightarrow>
          let matching = filter_option (\<lambda>t. qt_spotify_id t = spotify_id) queued_track;
              same = (last_spotify_id = Some spotify_id);
              became_echo = same \<and> \<not> last_run_was_echo \<and> matching \<noteq> None
          in if same \<and> \<not> occurrence_restarted \<and> \<not> became_echo then None
             else Some \<lparr>ho_spotify_id = spotify_id,
                ho_queued_track = filter_option (\<lambda>_. \<not> same \<or> \<not> last_run_was_echo) matching,
                ho_echo_run = matching \<noteq> None\<rparr>)"

section \<open>Listing\<close>

datatype ordering = Less | Equal | Greater

definition cmp_of :: "'a::linorder \<Rightarrow> 'a \<Rightarrow> ordering" where
  "cmp_of a b = (if a < b then Less else if a = b then Equal else Greater)"

definition cmp_option :: "'a::linorder option \<Rightarrow> 'a option \<Rightarrow> ordering" where
  "cmp_option a b = (case (a, b) of
     (None, None) \<Rightarrow> Equal | (None, Some _) \<Rightarrow> Less | (Some _, None) \<Rightarrow> Greater
   | (Some x, Some y) \<Rightarrow> cmp_of x y)"

definition then_with :: "ordering \<Rightarrow> ordering \<Rightarrow> ordering" where
  "then_with a b = (if a = Equal then b else a)"

definition reverse_ordering :: "ordering \<Rightarrow> ordering" where
  "reverse_ordering a = (case a of Less \<Rightarrow> Greater | Equal \<Rightarrow> Equal | Greater \<Rightarrow> Less)"

definition history_order ::
  "(string \<Rightarrow> string) \<Rightarrow> jam_history_entry \<Rightarrow> jam_history_entry \<Rightarrow> string \<Rightarrow> ordering" where
  "history_order to_lowercase left right sort_name =
     (let text = (\<lambda>f. cmp_of (to_lowercase (f left)) (to_lowercase (f right)));
          primary =
            (if sort_name = ''played_at'' then cmp_of (he_played_at_ms left) (he_played_at_ms right)
             else if sort_name = ''added_at'' then cmp_of (he_added_at_ms left) (he_added_at_ms right)
             else if sort_name = ''track'' then text he_name
             else if sort_name = ''artist'' then text he_artist
             else if sort_name = ''added_by'' then text he_added_by_name
             else if sort_name = ''playlist'' then
               cmp_option (map_option (to_lowercase \<circ> qp_name) (he_playlist left))
                 (map_option (to_lowercase \<circ> qp_name) (he_playlist right))
             else Equal)
      in then_with primary (cmp_of (he_history_entry_id left) (he_history_entry_id right)))"

text \<open>\<open>slice::sort_by\<close>, the stable sort by a comparison.\<close>

fun insert_by :: "('a \<Rightarrow> 'a \<Rightarrow> ordering) \<Rightarrow> 'a \<Rightarrow> 'a list \<Rightarrow> 'a list" where
  "insert_by cmp x [] = [x]"
| "insert_by cmp x (y # ys) = (if cmp x y = Greater then y # insert_by cmp x ys else x # y # ys)"

definition sort_by :: "('a \<Rightarrow> 'a \<Rightarrow> ordering) \<Rightarrow> 'a list \<Rightarrow> 'a list" where
  "sort_by cmp xs = foldr (insert_by cmp) xs []"

record history_query =
  hq_sort :: string
  hq_direction :: string
  hq_actor_id :: "string option"
  hq_playlist_id :: "string option"
  hq_offset :: nat
  hq_limit :: nat

definition default_history_query :: history_query where
  "default_history_query = \<lparr>hq_sort = ''played_at'', hq_direction = ''desc'', hq_actor_id = None,
     hq_playlist_id = None, hq_offset = 0, hq_limit = 50\<rparr>"

record history_response =
  hr_schema_version :: "16 word"
  hr_retention_days :: u64
  hr_items :: "jam_history_entry list"
  hr_offset :: nat
  hr_limit :: nat
  hr_total :: nat

definition history_query_valid :: "history_query \<Rightarrow> bool" where
  "history_query_valid query \<longleftrightarrow>
     hq_sort query \<in> {''played_at'', ''added_at'', ''track'', ''artist'', ''added_by'', ''playlist''}
   \<and> hq_direction query \<in> {''asc'', ''desc''}
   \<and> 1 \<le> hq_limit query \<and> hq_limit query \<le> MAX_HISTORY_LIMIT \<and> hq_offset query \<le> 100000"

definition history_matches :: "history_query \<Rightarrow> jam_history_entry \<Rightarrow> bool" where
  "history_matches query e \<longleftrightarrow>
     (case filter_option (\<lambda>v. v \<noteq> []) (hq_actor_id query) of None \<Rightarrow> True
      | Some actor_id \<Rightarrow> he_added_by_actor_id e = actor_id)
   \<and> (case filter_option (\<lambda>v. v \<noteq> []) (hq_playlist_id query) of None \<Rightarrow> True
      | Some playlist_id \<Rightarrow> map_option qp_spotify_id (he_playlist e) = Some playlist_id)"

definition query_order ::
  "(string \<Rightarrow> string) \<Rightarrow> history_query \<Rightarrow> jam_history_entry \<Rightarrow> jam_history_entry \<Rightarrow> ordering" where
  "query_order to_lowercase query left right =
     (let ordering = history_order to_lowercase left right (hq_sort query)
      in if hq_direction query = ''desc'' then reverse_ordering ordering else ordering)"

definition history_page ::
  "(string \<Rightarrow> string) \<Rightarrow> history_query \<Rightarrow> jam_history_entry list \<Rightarrow> history_response" where
  "history_page to_lowercase query entries =
     (let sorted_entries = sort_by (query_order to_lowercase query)
            (filter (history_matches query) entries)
      in \<lparr>hr_schema_version = HISTORY_SCHEMA_VERSION, hr_retention_days = HISTORY_RETENTION_DAYS,
          hr_items = take (hq_limit query) (drop (hq_offset query) sorted_entries),
          hr_offset = hq_offset query, hr_limit = hq_limit query,
          hr_total = length sorted_entries\<rparr>)"

text \<open>
  \<open>jam_history_list\<close>; \<open>listed\<close> is what the read task answers, None where the task failed to run.
\<close>

definition jam_history_list ::
  "(string \<Rightarrow> string) \<Rightarrow> status option \<Rightarrow> status option \<Rightarrow> history_query
   \<Rightarrow> (io_kind + jam_history_entry list) option \<Rightarrow> (status \<times> string) + history_response" where
  "jam_history_list to_lowercase admin_refused actor_refused query listed =
     (case admin_refused of Some s \<Rightarrow> Inl (s, ''unauthorized'')
      | None \<Rightarrow>
     (case actor_refused of Some s \<Rightarrow> Inl (s, ''actor_required'')
      | None \<Rightarrow>
      if \<not> history_query_valid query then Inl (BAD_REQUEST, ''bad_request'')
      else case listed of
        Some (Inr entries) \<Rightarrow> Inr (history_page to_lowercase query entries)
      | Some (Inl kind) \<Rightarrow>
          Inl (if kind = NotConnected then SERVICE_UNAVAILABLE else INTERNAL_SERVER_ERROR,
               ''history_storage_error'')
      | None \<Rightarrow> Inl (INTERNAL_SERVER_ERROR, ''history_storage_error'')))"

section \<open>Lines and rows\<close>

lemma utf8_chars_snoc:
  "\<not> is_continuation c \<Longrightarrow> utf8_chars (s @ [c]) = utf8_chars s @ [[c]]"
proof (induction s rule: utf8_chars.induct)
  case (2 x xs)
  have "takeWhile is_continuation (xs @ [c]) = takeWhile is_continuation xs"
    "dropWhile is_continuation (xs @ [c]) = dropWhile is_continuation xs @ [c]"
    using 2(2) by (simp_all add: takeWhile_tail dropWhile_append3)
  with 2 show ?case by simp
qed simp

lemma cr_not_continuation: "\<not> is_continuation carriage_return" "\<not> is_continuation newline"
  by (simp_all add: is_continuation_def byte_of_def)

lemma strip_cr_cases:
  obtains "strip_cr l = l" | k where "l = k @ [carriage_return]" "strip_cr l = k"
  by (metis append_butlast_last_id strip_cr_def)

lemma utf8_valid_snoc_cr: "utf8_valid (l @ [carriage_return]) = utf8_valid l"
  by (simp add: utf8_valid_def utf8_chars_snoc cr_not_continuation valid_scalar_def byte_of_def)

text \<open>A row is a line without the carriage returns at its end; they mean nothing to JSON.\<close>

definition strip_crs :: "string \<Rightarrow> string" where
  "strip_crs l = rev (dropWhile (\<lambda>c. c = carriage_return) (rev l))"

lemma strip_crs_snoc [simp]: "strip_crs (l @ [carriage_return]) = strip_crs l"
  by (simp add: strip_crs_def)

lemma strip_crs_strip_cr [simp]: "strip_crs (strip_cr l) = strip_crs l"
  by (rule strip_cr_cases [of l]) auto

definition file_rows :: "string \<Rightarrow> string list" where
  "file_rows content = filter (\<lambda>l. \<not> blank l) (map strip_crs (split_lines [] content))"

text \<open>What is assumed of the codec: a carriage return after a row is white space to it.\<close>

definition parser_ok :: "row_parser \<Rightarrow> bool" where
  "parser_ok parse \<longleftrightarrow> (\<forall>l. parse (l @ [carriage_return]) = parse l)"

lemma strip_crs_induct:
  assumes "\<And>l. P (l @ [carriage_return]) = P l"
  shows "P (strip_crs l) = P l"
proof (induction l rule: rev_induct)
  case (snoc c l)
  then show ?case
    by (cases "c = carriage_return") (simp_all add: assms, simp add: strip_crs_def)
qed (simp add: strip_crs_def)

lemma strip_crs_idem [simp]: "strip_crs (strip_crs l) = strip_crs l"
  by (rule strip_crs_induct) simp

lemma concat_Nil_dropWhile:
  "\<forall>x \<in> set xs. x \<noteq> [] \<Longrightarrow> concat xs = [] \<longleftrightarrow> xs = []"
  by (cases xs) auto

lemma utf8_chars_nonempty: "ch \<in> set (utf8_chars s) \<Longrightarrow> ch \<noteq> []"
  by (induction s rule: utf8_chars.induct) auto

lemma blank_iff: "blank s \<longleftrightarrow> list_all is_whitespace (utf8_chars s)"
proof -
  let ?w = "dropWhile is_whitespace (utf8_chars s)"
  have "trim s = [] \<longleftrightarrow> dropWhile is_whitespace (rev ?w) = []"
    unfolding trim_def
    by (subst concat_Nil_dropWhile) (auto dest!: set_dropWhileD dest: utf8_chars_nonempty)
  also have "\<dots> \<longleftrightarrow> ?w = []"
    using hd_dropWhile [of is_whitespace "utf8_chars s"]
    by (metis dropWhile.simps(1) dropWhile_eq_Nil_conv hd_in_set set_rev rev.simps(1))
  finally show ?thesis by (simp add: blank_def list_all_iff)
qed

lemma blank_snoc_cr: "blank (l @ [carriage_return]) = blank l"
  by (simp add: blank_iff utf8_chars_snoc cr_not_continuation is_whitespace_def byte_of_def)

lemma blank_strip_crs [simp]: "blank (strip_crs l) = blank l"
  by (rule strip_crs_induct) (rule blank_snoc_cr)

lemma parse_strip_crs: "parser_ok parse \<Longrightarrow> parse (strip_crs l) = parse l"
  by (rule strip_crs_induct) (simp add: parser_ok_def)

lemma retained_strip_crs:
  "parser_ok parse \<Longrightarrow> row_retained parse cutoff (strip_crs l) = row_retained parse cutoff l"
  by (simp add: row_retained_def row_expired_def parse_strip_crs)

lemma split_lines_acc:
  "newline \<notin> set s \<Longrightarrow> split_lines acc (s @ newline # t) = strip_cr (acc @ s) # split_lines [] t"
  "newline \<notin> set s \<Longrightarrow> split_lines acc s = (if acc @ s = [] then [] else [acc @ s])"
  by (induction s arbitrary: acc) auto

lemma newline_split:
  obtains "newline \<notin> set s" | a b where "s = a @ newline # b" "newline \<notin> set a"
  by (metis split_list_first)

lemma split_lines_append:
  assumes "a = [] \<or> last a = newline"
  shows "split_lines [] (a @ b) = split_lines [] a @ split_lines [] b"
  using assms
proof (induction "length a" arbitrary: a rule: less_induct)
  case less
  show ?case
  proof (cases rule: newline_split [of a])
    case 1
    with less.prems have "a = []" by (metis last_in_set)
    then show ?thesis by simp
  next
    case (2 s t)
    with less.prems have "t = [] \<or> last t = newline" by (auto split: if_splits)
    with less.hyps [of t] 2 show ?thesis by (simp add: split_lines_acc)
  qed
qed

lemma split_lines_joined:
  "list_all (\<lambda>l. newline \<notin> set l) ls \<Longrightarrow>
     split_lines [] (concat (map (\<lambda>l. l @ [newline]) ls)) = map strip_cr ls"
  by (induction ls) (simp_all add: split_lines_acc)

lemma strip_cr_no_newline: "newline \<notin> set l \<Longrightarrow> newline \<notin> set (strip_cr l)"
  by (rule strip_cr_cases [of l]) auto

lemma split_lines_no_newline:
  "newline \<notin> set acc \<Longrightarrow> list_all (\<lambda>l. newline \<notin> set l) (split_lines acc s)"
  by (induction acc s rule: split_lines.induct) (auto simp: strip_cr_no_newline)

text \<open>Ending a torn row changes no row.\<close>

lemma rows_end_torn: "file_rows (a @ [newline]) = file_rows a" if "a = [] \<or> last a \<noteq> newline"
proof (cases "newline \<in> set a")
  case False
  then show ?thesis
    using split_lines_acc(1) [where s = a and t = "[]" and acc = "[]"]
    by (simp add: file_rows_def split_lines_acc(2) [where acc = "[]"])
next
  case True
  then obtain s t where a: "a = s @ newline # t" "newline \<notin> set t" by (metis split_list_last)
  have "split_lines [] a = split_lines [] (s @ [newline]) @ split_lines [] t"
    using split_lines_append [of "s @ [newline]" t] a by simp
  moreover have "split_lines [] (a @ [newline]) = split_lines [] (s @ [newline]) @ split_lines [] (t @ [newline])"
    using split_lines_append [of "s @ [newline]" "t @ [newline]"] a by simp
  moreover have "t \<noteq> []" using that a by auto
  ultimately show ?thesis
    using a(2) split_lines_acc(2) [where s = t and acc = "[]"] split_lines_acc(1) [where s = t and t = "[]" and acc = "[]"] by (simp add: file_rows_def)
qed

lemma rows_append:
  "a = [] \<or> last a = newline \<Longrightarrow> file_rows (a @ b) = file_rows a @ file_rows b"
  by (simp add: file_rows_def split_lines_append)

end
