(* ===== verification/HistoryLog.thy ===== *)
theory HistoryLog
  imports JamHistory
begin

text \<open>
  The history as a log: the abstract view of its files, what pruning, appending and recovering do to
  it wherever they stop, and what a listing reads.
\<close>

section \<open>The history as a log\<close>

text \<open>
  The abstract history maps each file to its rows. After a crash a file may be found under its
  backup name, from where \<open>open\<close> restores it.
\<close>

definition rows_of :: "files \<Rightarrow> string \<Rightarrow> string list" where
  "rows_of m n = file_rows (or_default [] (hm_get m n))"

definition recovered_rows :: "files \<Rightarrow> string \<Rightarrow> string list" where
  "recovered_rows m n =
     file_rows (or_default [] (if hm_get m n = None then hm_get m (prune_backup_path n) else hm_get m n))"

definition history_clean :: "files \<Rightarrow> bool" where
  "history_clean m \<longleftrightarrow> hm_ok m \<and> (\<forall>n. is_history_file n \<longrightarrow> hm_get m (prune_backup_path n) = None)"

lemma history_name: "is_history_file n \<Longrightarrow> \<exists>k. n = k @ ''.jsonl''"
  unfolding is_history_file_def ends_with_def by (metis append_take_drop_id)

lemma backup_path_eq: "is_history_file n \<Longrightarrow> prune_backup_path n = n @ ''.prune.bak''"
  by (auto dest!: history_name simp: prune_backup_path_def with_extension_def)

lemma not_history_names:
  "\<not> is_history_file (s @ ''.prune.bak'')" "\<not> is_history_file (s @ ''.tmp'')"
  by (auto dest!: history_name dest: arg_cong [of _ _ last])

definition other_files_same :: "string \<Rightarrow> files \<Rightarrow> files \<Rightarrow> bool" where
  "other_files_same path m m' \<longleftrightarrow> (\<forall>n. is_history_file n \<and> n \<noteq> path \<longrightarrow>
     hm_get m' n = hm_get m n \<and> hm_get m' (prune_backup_path n) = hm_get m (prune_backup_path n))"

lemma names_differ:
  assumes "is_history_file n" "is_history_file path"
  shows "n \<noteq> prune_backup_path path" "n \<noteq> with_extension path (secret @ ''.tmp'')"
    "prune_backup_path n \<noteq> with_extension path (secret @ ''.tmp'')"
    "prune_backup_path n = prune_backup_path path \<longleftrightarrow> n = path" "prune_backup_path n \<noteq> path"
proof -
  show "n \<noteq> prune_backup_path path" "prune_backup_path n \<noteq> path"
    "prune_backup_path n = prune_backup_path path \<longleftrightarrow> n = path"
    using assms not_history_names(1) by (auto simp: backup_path_eq)
  show "n \<noteq> with_extension path (secret @ ''.tmp'')"
    using assms(1) not_history_names(2) [of "take (length path - 5) path @ secret"]
    by (auto simp: with_extension_def)
  show "prune_backup_path n \<noteq> with_extension path (secret @ ''.tmp'')"
    using assms by (auto simp: backup_path_eq with_extension_def dest: arg_cong [of _ _ last])
qed

text \<open>Replacing a file: wherever it stops, the old or the new content can be recovered.\<close>

lemma replace_runs:
  fixes lines :: "string list"
  assumes hist: "is_history_file path" and old: "hm_get m0 path = Some c"
    and clean: "hm_get m0 (prune_backup_path path) = None"
  defines "new \<equiv> concat (map (\<lambda>l. l @ [newline]) lines)"
  defines "same \<equiv> other_files_same path m0"
  shows "runs (\<lambda>m. m = m0) (replace_jsonl secret path lines)
     (\<lambda>_ m. same m \<and> hm_get m path = Some new)
     (\<lambda>m. same m \<and> (hm_get m path = Some c \<or> hm_get m path = Some new
        \<or> hm_get m path = None \<and> hm_get m (prune_backup_path path) = Some c))"
proof -
  let ?temp = "with_extension path (secret @ ''.tmp'')" and ?backup = "prune_backup_path path"
  let ?I = "\<lambda>m. same m \<and> (hm_get m path = Some c \<or> hm_get m path = Some new
        \<or> hm_get m path = None \<and> hm_get m ?backup = Some c)"
  let ?P = "\<lambda>m. same m \<and> hm_get m path = Some c \<and> hm_get m ?backup = None"
  let ?W = "\<lambda>m. ?P m \<and> hm_get m ?temp = Some new"
  let ?R = "\<lambda>m. same m \<and> hm_get m path = None \<and> hm_get m ?backup = Some c \<and> hm_get m ?temp = Some new"
  have path: "path \<noteq> ?temp" "?temp \<noteq> path" "path \<noteq> ?backup" "?backup \<noteq> path"
      "?backup \<noteq> ?temp" "?temp \<noteq> ?backup"
    using names_differ [OF hist hist] by metis+
  have others: "n \<noteq> ?temp" "n \<noteq> ?backup" "prune_backup_path n \<noteq> ?temp"
      "prune_backup_path n \<noteq> path" "n \<noteq> path \<Longrightarrow> prune_backup_path n \<noteq> ?backup"
    if "is_history_file n" for n
    using names_differ [OF that hist] by metis+
  note simps = hm_simps other_files_same_def same_def path others
  have start: "runs (\<lambda>m. m = m0) (fs_create_new ?temp) (\<lambda>_ m. ?P m \<and> hm_get m ?temp = Some []) ?I"
    unfolding fs_create_new_def
    by (rule runs_call) (use old clean in \<open>auto simp: simps split: option.splits\<close>)
  have filled: "runs (\<lambda>m. ?P m \<and> hm_get m ?temp = Some []) (fs_write_all ?temp new) (\<lambda>_. ?W) ?I"
    by (rule runs_write) (auto simp: simps)
  have sync: "runs ?W fs_sync (\<lambda>_. ?W) ?I"
    unfolding fs_sync_def by (rule runs_call) auto
  have rm: "runs (\<lambda>m. ?W m \<and> (b \<longleftrightarrow> hm_get m ?backup \<noteq> None)) (io_when b (fs_remove ?backup)) (\<lambda>_. ?W) ?I"
    for b
    unfolding fs_remove_def by (intro runs_when runs_call) auto
  have mv: "runs ?W (fs_rename path ?backup) (\<lambda>_. ?R) ?I"
    unfolding fs_rename_def by (rule runs_call) (auto simp: simps split: option.splits)
  have undo: "runs ?R (io_then (io_ignore (fs_rename ?backup path))
      (io_then (io_ignore (fs_remove ?temp)) (io_fail k))) Q ?I" for k Q
    unfolding fs_rename_def fs_remove_def
    by (rule runs_then [where Q = ?I], rule runs_ignore_call,
        auto simp: simps split: option.splits)
      (rule runs_then [where Q = ?I], intro runs_ignore_call,
        auto simp: simps intro: runs_fail split: option.splits)
  have swap: "runs ?R (io_catch (fs_rename ?temp path) (\<lambda>error.
      io_then (io_ignore (fs_rename ?backup path)) (io_then (io_ignore (fs_remove ?temp)) (io_fail error))))
      (\<lambda>_ m. same m \<and> hm_get m path = Some new) ?I"
    unfolding fs_rename_def [of ?temp]
    by (rule runs_catch_call [OF _ _ undo]) (auto simp: simps split: option.splits)
  have tidy: "runs (\<lambda>m. same m \<and> hm_get m path = Some new) (io_ignore (fs_remove ?backup))
      (\<lambda>_ m. same m \<and> hm_get m path = Some new) ?I"
    unfolding fs_remove_def by (rule runs_ignore_call) (auto simp: simps split: option.splits)
  show ?thesis
    unfolding replace_jsonl_def Let_def new_def [symmetric]
    by (rule runs_then [OF start] runs_then [OF filled] runs_then [OF sync])+
      (intro runs_bind_exists runs_then [OF rm] runs_then [OF mv] runs_then [OF swap] tidy)
qed

lemma runs_read:
  "(\<And>m. P m \<Longrightarrow> I m) \<Longrightarrow>
     runs P (fs_read name) (\<lambda>a m. P m \<and> hm_get m name = Some a) I"
  unfolding fs_read_def by (rule runs_call) (auto split: option.splits)

lemma runs_lines:
  "(\<And>m. P m \<Longrightarrow> I m) \<Longrightarrow>
     runs P (io_lines content) (\<lambda>ls m. P m \<and> ls = split_lines [] content) I"
  by (auto simp: io_lines_def buf_lines_def Let_def intro: runs_return runs_fail split: if_splits)

text \<open>The rows of a rewritten file are the rows that were retained.\<close>

lemma retained_rows:
  assumes "parser_ok parse"
  shows "file_rows (concat (map (\<lambda>l. l @ [newline])
      (filter (row_retained parse cutoff) (split_lines [] content))))
    = filter (row_retained parse cutoff) (file_rows content)"
proof -
  have clean: "list_all (\<lambda>l. newline \<notin> set l) (filter (row_retained parse cutoff) (split_lines [] content))"
    using split_lines_no_newline [of "[]" content] by (simp add: list_all_iff)
  have nonblank: "row_retained parse cutoff l \<Longrightarrow> \<not> blank l" for l
    by (simp add: row_retained_def)
  show ?thesis
    unfolding file_rows_def split_lines_joined [OF clean]
    by (simp add: filter_map comp_def filter_filter retained_strip_crs [OF assms] cong: filter_cong)
      (metis nonblank)
qed

lemma rows_unchanged:
  assumes "parser_ok parse" and "list_all (row_retained parse cutoff) (split_lines [] content)"
  shows "filter (row_retained parse cutoff) (file_rows content) = file_rows content"
proof -
  have "list_all (row_retained parse cutoff) (map strip_crs (split_lines [] content))"
    using assms(2) by (simp add: list_all_iff retained_strip_crs [OF assms(1)])
  then show ?thesis
    unfolding file_rows_def filter_filter by (intro filter_cong) (auto simp: list_all_iff)
qed

lemma no_rows_retained:
  assumes "parser_ok parse" and "filter (row_retained parse cutoff) (split_lines [] content) = []"
  shows "filter (row_retained parse cutoff) (file_rows content) = []"
  using assms(2) by (auto simp: file_rows_def filter_empty_conv retained_strip_crs [OF assms(1)])

lemma other_files_refl [simp]: "other_files_same path m m"
  by (simp add: other_files_same_def)

lemma prune_file_runs:
  assumes hist: "is_history_file path" and codec: "parser_ok parse"
    and clean: "hm_get m0 (prune_backup_path path) = None"
  shows "runs (\<lambda>m. m = m0) (prune_file parse secret cutoff path)
     (\<lambda>_ m. other_files_same path m0 m
        \<and> rows_of m path = filter (row_retained parse cutoff) (rows_of m0 path)
        \<and> (hm_get m path = None \<longrightarrow> hm_get m (prune_backup_path path) = None))
     (\<lambda>m. other_files_same path m0 m \<and> (recovered_rows m path = rows_of m0 path
        \<or> recovered_rows m path = filter (row_retained parse cutoff) (rows_of m0 path)))"
    (is "runs _ _ ?Q ?I")
proof -
  let ?keep = "row_retained parse cutoff"
  have self: "m = m0 \<Longrightarrow> ?I m" for m
    by (auto simp: recovered_rows_def rows_of_def clean or_default_def)
  have rest: "runs (\<lambda>m. m = m0 \<and> hm_get m path = Some content)
      (let retained = filter ?keep ls in
       if list_all ?keep ls then io_return ()
       else if retained = [] then fs_remove path else replace_jsonl (secret path) path retained) ?Q ?I"
    if ls: "ls = split_lines [] content" for content ls
  proof (cases "list_all ?keep ls")
    case True
    then show ?thesis
      using rows_unchanged [OF codec] ls clean
      by (auto simp: rows_of_def intro!: runs_return)
  next
    case changed: False
    show ?thesis
    proof (cases "filter ?keep ls = []")
      case True
      have "runs (\<lambda>m. m = m0 \<and> hm_get m path = Some content) (fs_remove path) ?Q ?I"
        unfolding fs_remove_def
      proof (rule runs_call)
        fix m a m'
        assume m: "m = m0 \<and> hm_get m path = Some content"
          and "(case hm_get m path of None \<Rightarrow> Inl NotFound | Some _ \<Rightarrow> Inr ((), hm_remove path m)) = Inr (a, m')"
        then have m': "m' = hm_remove path m0" by auto
        have empty: "filter ?keep (rows_of m0 path) = []"
          using m no_rows_retained [OF codec True [unfolded ls]] by (auto simp: rows_of_def)
        have "prune_backup_path n \<noteq> path" if "is_history_file n" for n
          using names_differ(5) [OF that hist] .
        then show "?Q a m'" using empty clean hist
          by (auto simp: m' hm_simps other_files_same_def rows_of_def file_rows_def)
      qed (use self in blast)
      with True changed show ?thesis by (simp add: Let_def)
    next
      case False
      have "runs (\<lambda>m. m = m0 \<and> hm_get m path = Some content)
          (replace_jsonl (secret path) path (filter ?keep ls)) ?Q ?I"
      proof (cases "hm_get m0 path = Some content")
        case True
        show ?thesis
          by (rule runs_pre [OF runs_post [OF replace_runs [OF hist True clean]]])
            (use retained_rows [OF codec] ls True in \<open>auto simp: rows_of_def recovered_rows_def\<close>)
      qed (auto simp: runs_def)
      with False changed show ?thesis by (simp add: Let_def)
    qed
  qed
  show ?thesis
    unfolding prune_file_def
    by (rule runs_bind, rule runs_read, erule self, rule runs_bind, rule runs_lines)
      (use self rest in \<open>auto simp: runs_def\<close>)
qed

definition history_settled :: "files \<Rightarrow> bool" where
  "history_settled m \<longleftrightarrow> (\<forall>n. is_history_file n \<longrightarrow>
     hm_get m n = None \<longrightarrow> hm_get m (prune_backup_path n) = None)"

lemma settled_recovered: "history_settled m \<Longrightarrow> is_history_file n \<Longrightarrow> recovered_rows m n = rows_of m n"
  by (auto simp: history_settled_def recovered_rows_def rows_of_def)

lemma clean_settled: "history_clean m \<Longrightarrow> history_settled m"
  by (simp add: history_clean_def history_settled_def)

lemma runs_each: "(\<And>m0. P m0 \<Longrightarrow> runs (\<lambda>m. m = m0) p Q I) \<Longrightarrow> runs P p Q I"
  unfolding runs_def by blast

lemma other_files_rows:
  "other_files_same path m0 m \<Longrightarrow> is_history_file n \<Longrightarrow> n \<noteq> path \<Longrightarrow>
     rows_of m n = rows_of m0 n \<and> recovered_rows m n = recovered_rows m0 n"
  by (simp add: other_files_same_def rows_of_def recovered_rows_def)

text \<open>Pruning some files, in any order and wherever it stops.\<close>

definition pruned_to :: "(string \<Rightarrow> bool) \<Rightarrow> string set \<Rightarrow> files \<Rightarrow> files \<Rightarrow> bool" where
  "pruned_to keep ns m0 m \<longleftrightarrow> history_settled m \<and> (\<forall>n. is_history_file n \<longrightarrow>
     rows_of m n = (if n \<in> ns then filter keep (rows_of m0 n) else rows_of m0 n))"

definition partly_pruned :: "(string \<Rightarrow> bool) \<Rightarrow> files \<Rightarrow> files \<Rightarrow> bool" where
  "partly_pruned keep m0 m \<longleftrightarrow> (\<forall>n. is_history_file n \<longrightarrow>
     recovered_rows m n = rows_of m0 n \<or> recovered_rows m n = filter keep (rows_of m0 n))"

lemma prune_each_runs:
  assumes codec: "parser_ok parse"
    and "list_all is_history_file paths" "distinct paths" "history_settled m0"
    and "list_all (\<lambda>n. hm_get m0 (prune_backup_path n) = None) paths"
  shows "runs (\<lambda>m. m = m0) (prune_each parse secret cutoff paths)
     (\<lambda>_. pruned_to (row_retained parse cutoff) (set paths) m0)
     (partly_pruned (row_retained parse cutoff) m0)"
  using assms(2-)
proof (induction paths arbitrary: m0)
  case Nil
  then show ?case by (auto simp: pruned_to_def intro: runs_return)
next
  case (Cons path paths)
  let ?keep = "row_retained parse cutoff"
  let ?M = "\<lambda>m. other_files_same path m0 m \<and> rows_of m path = filter ?keep (rows_of m0 path)
     \<and> (hm_get m path = None \<longrightarrow> hm_get m (prune_backup_path path) = None)"
  have hist: "is_history_file path" and bak: "hm_get m0 (prune_backup_path path) = None"
    using Cons.prems by simp_all
  have head: "runs (\<lambda>m. m = m0) (prune_file parse secret cutoff path) (\<lambda>_. ?M)
      (partly_pruned ?keep m0)"
    by (rule runs_post [OF prune_file_runs [OF hist codec bak]])
      (use Cons.prems(3) in \<open>auto simp: partly_pruned_def settled_recovered dest: other_files_rows\<close>)
  have tail: "runs (\<lambda>m. m = m1) (prune_each parse secret cutoff paths)
      (\<lambda>_. pruned_to ?keep (set (path # paths)) m0) (partly_pruned ?keep m0)" if M: "?M m1" for m1
  proof -
    have same: "\<forall>n. is_history_file n \<and> n \<noteq> path \<longrightarrow> hm_get m1 n = hm_get m0 n
        \<and> hm_get m1 (prune_backup_path n) = hm_get m0 (prune_backup_path n)"
      using M by (simp add: other_files_same_def)
    have settled: "history_settled m1"
      using M same Cons.prems(3) unfolding history_settled_def by metis
    have baks: "list_all (\<lambda>n. hm_get m1 (prune_backup_path n) = None) paths"
      using same Cons.prems by (auto simp: list_all_iff)
    have rows: "is_history_file n \<Longrightarrow> rows_of m1 n
        = (if n = path then filter ?keep (rows_of m0 n) else rows_of m0 n)" for n
      using M other_files_rows by auto
    have "runs (\<lambda>m. m = m1) (prune_each parse secret cutoff paths)
        (\<lambda>_. pruned_to ?keep (set paths) m1) (partly_pruned ?keep m1)"
      by (rule Cons.IH) (use Cons.prems settled baks in simp_all)
    moreover have "pruned_to ?keep (set (path # paths)) m0 m" if "pruned_to ?keep (set paths) m1 m" for m
      using that Cons.prems rows by (auto simp: pruned_to_def)
    moreover have "partly_pruned ?keep m0 m" if "partly_pruned ?keep m1 m" for m
      unfolding partly_pruned_def
    proof (intro allI impI)
      fix n assume n: "is_history_file n"
      with that rows [OF n] show "recovered_rows m n = rows_of m0 n
          \<or> recovered_rows m n = filter ?keep (rows_of m0 n)"
        by (cases "n = path") (auto simp: partly_pruned_def)
    qed
    ultimately show ?thesis by (rule runs_post)
  qed
  show ?case unfolding prune_each.simps by (rule runs_then [OF head runs_each [OF tail]])
qed

lemma clean_names:
  assumes "history_clean m"
  shows "distinct (sort (filter is_history_file (map fst m)))"
    "list_all is_history_file (sort (filter is_history_file (map fst m)))"
    "is_history_file n \<Longrightarrow> n \<notin> set (sort (filter is_history_file (map fst m))) \<Longrightarrow> rows_of m n = []"
proof -
  show "distinct (sort (filter is_history_file (map fst m)))"
    using assms by (simp add: history_clean_def hm_ok_def)
  show "list_all is_history_file (sort (filter is_history_file (map fst m)))"
    by (simp add: list_all_iff)
  show "rows_of m n = []" if "is_history_file n" "n \<notin> set (sort (filter is_history_file (map fst m)))"
  proof -
    have "hm_get m n = None" using that by (auto simp: hm_get_def map_of_eq_None_iff)
    then show ?thesis by (simp add: rows_of_def file_rows_def)
  qed
qed

lemma prune_runs:
  assumes "parser_ok parse" and clean: "history_clean m0"
  shows "runs (\<lambda>m. m = m0) (prune_locked parse secret now)
     (\<lambda>_. pruned_to (row_retained parse (sat_sub now RETENTION_MS)) UNIV m0)
     (partly_pruned (row_retained parse (sat_sub now RETENTION_MS)) m0)"
proof -
  let ?names = "sort (filter is_history_file (map fst m0))"
  have self: "m = m0 \<Longrightarrow> partly_pruned keep m0 m" for m keep
    using settled_recovered [OF clean_settled [OF clean]] by (simp add: partly_pruned_def)
  have dir: "runs (\<lambda>m. m = m0) history_files (\<lambda>names m. m = m0 \<and> names = ?names)
      (partly_pruned keep m0)" for keep
    unfolding history_files_def fs_read_dir_def
    by (rule runs_bind [where Q = "\<lambda>names m. m = m0 \<and> names = map fst m0"], rule runs_call)
      (auto simp: self intro: runs_return)
  have each: "runs (\<lambda>m. m = m0) (prune_each parse secret cutoff ?names)
      (\<lambda>_. pruned_to (row_retained parse cutoff) UNIV m0) (partly_pruned (row_retained parse cutoff) m0)"
    for cutoff
    by (rule runs_post [OF prune_each_runs [OF assms(1) clean_names(2,1) [OF clean] clean_settled [OF clean]]])
      (use clean clean_names(3) [OF clean] in
        \<open>auto simp: pruned_to_def history_clean_def list_all_iff\<close>)
  show ?thesis
    unfolding prune_locked_def
    by (rule runs_bind [OF dir]) (use each in \<open>auto simp: runs_def\<close>)
qed

section \<open>Appending\<close>

lemma history_path_is_file: "is_history_file (history_path at_ms)"
proof -
  have "strip_prefix ''history-v1-'' (history_path at_ms) \<noteq> None"
    using strip_prefix_Some [of "''history-v1-''"] by (auto simp: history_path_def)
  then show ?thesis by (simp add: is_history_file_def history_path_def ends_with_def)
qed

definition appended_to :: "(string \<Rightarrow> bool) \<Rightarrow> string \<Rightarrow> string \<Rightarrow> files \<Rightarrow> files \<Rightarrow> bool" where
  "appended_to keep path bytes m0 m \<longleftrightarrow> history_settled m \<and> (\<forall>n. is_history_file n \<longrightarrow>
     rows_of m n = filter keep (rows_of m0 n) @ (if n = path then file_rows bytes else []))"

lemma appended_recovered:
  "appended_to keep path bytes m0 m \<Longrightarrow> is_history_file n \<Longrightarrow>
     recovered_rows m n = filter keep (rows_of m0 n) @ (if n = path then file_rows bytes else [])"
  by (simp add: appended_to_def settled_recovered)

lemma file_rows_Nil [simp]: "file_rows [] = []"
  by (simp add: file_rows_def)

text \<open>Adding bytes to a day's file changes only that day.\<close>

lemma insert_history_file:
  assumes "is_history_file path" and "appended_to keep path [] m0 m"
    and "file_rows c = file_rows (or_default [] (hm_get m path)) @ file_rows bytes"
  shows "appended_to keep path bytes m0 (hm_insert path c m)"
proof -
  have "prune_backup_path n \<noteq> path" if "is_history_file n" for n
    using names_differ(5) [OF that assms(1)] .
  with assms show ?thesis
    by (auto simp: appended_to_def history_settled_def rows_of_def hm_simps)
qed

lemma append_runs:
  fixes at_ms :: u64 and parse :: row_parser and render :: "jam_history_entry \<Rightarrow> string"
    and track :: queued_track and entry_secret :: string
  assumes codec: "parser_ok parse" and clean: "history_clean m0"
  defines "keep \<equiv> row_retained parse (sat_sub at_ms RETENTION_MS)"
  defines "path \<equiv> history_path at_ms"
  defines "bytes \<equiv> render (from_track entry_secret track at_ms) @ [newline]"
  shows "runs (\<lambda>m. m = m0) (append_observation parse render secret entry_secret store track at_ms)
     (\<lambda>r m. r = (from_track entry_secret track at_ms, store\<lparr>hs_revision := hs_revision store + 1\<rparr>)
        \<and> appended_to keep path bytes m0 m)
     (\<lambda>m. partly_pruned keep m0 m \<or> (\<exists>k. appended_to keep path (take k bytes) m0 m))"
    (is "runs _ _ _ ?I")
proof -
  let ?A = "appended_to keep path [] m0"
  have hist: "is_history_file path" by (simp add: path_def history_path_is_file)
  have A: "?A m \<Longrightarrow> ?I m" for m by (metis take_0)
  have self: "m = m0 \<Longrightarrow> ?I m" for m
    using settled_recovered [OF clean_settled [OF clean]] by (simp add: partly_pruned_def)
  have enabled: "runs (\<lambda>m. m = m0) (check_enabled store) (\<lambda>_ m. m = m0) ?I"
    using self by (auto simp: check_enabled_def intro: runs_return runs_fail)
  have pruned: "runs (\<lambda>m. m = m0) (prune_locked parse secret at_ms) (\<lambda>_. ?A) ?I"
    by (rule runs_post [OF prune_runs [OF codec clean]])
      (auto simp: keep_def pruned_to_def appended_to_def)
  have opened: "runs ?A (fs_open_append path) (\<lambda>_ m. ?A m \<and> hm_get m path \<noteq> None) ?I"
    unfolding fs_open_append_def
    by (rule runs_call, erule A)
      (auto simp: hm_simps split: option.splits intro: insert_history_file [OF hist])
  let ?C = "\<lambda>m. ?A m \<and> (\<exists>c. hm_get m path = Some c \<and> (c = [] \<or> last c = newline))"
  have torn: "runs (\<lambda>m. ?A m \<and> hm_get m path \<noteq> None) (end_torn_row path) (\<lambda>_. ?C) ?I"
    unfolding end_torn_row_def
  proof (rule runs_bind [OF runs_read])
    show "?I m" if "?A m \<and> hm_get m path \<noteq> None" for m using that A by blast
    show "runs (\<lambda>m. (?A m \<and> hm_get m path \<noteq> None) \<and> hm_get m path = Some content)
        (io_when (content \<noteq> [] \<and> last content \<noteq> newline) (fs_write_all path [newline]))
        (\<lambda>_. ?C) ?I" for content
    proof (rule runs_when, rule runs_write)
      fix m :: files and n
      assume torn: "content \<noteq> [] \<and> last content \<noteq> newline"
        and m: "(?A m \<and> hm_get m path \<noteq> None) \<and> hm_get m path = Some content"
      have "file_rows (content @ take n [newline]) = file_rows content"
        using rows_end_torn [of content] torn by (cases n) simp_all
      then have "?A (hm_insert path (content @ take n [newline]) m)"
        using m insert_history_file [OF hist, where bytes = "[]"] by simp
      then show "?I (hm_insert path (or_default [] (hm_get m path) @ take n [newline]) m)"
        using m A by simp
    next
      fix m :: files
      assume torn: "content \<noteq> [] \<and> last content \<noteq> newline"
        and m: "(?A m \<and> hm_get m path \<noteq> None) \<and> hm_get m path = Some content"
      have "file_rows (content @ [newline]) = file_rows content" using rows_end_torn torn by simp
      then show "?C (hm_insert path (or_default [] (hm_get m path) @ [newline]) m)"
        using m insert_history_file [OF hist, where bytes = "[]"] by (simp add: hm_simps)
    qed auto
  qed
  have row: "runs ?C (fs_write_all path bytes) (\<lambda>_. appended_to keep path bytes m0) ?I"
  proof (rule runs_write)
    fix m :: files and k assume m: "?C m"
    then have "appended_to keep path (take k bytes) m0
        (hm_insert path (or_default [] (hm_get m path) @ take k bytes) m)"
      by (intro insert_history_file [OF hist]) (auto simp: rows_append)
    then show "?I (hm_insert path (or_default [] (hm_get m path) @ take k bytes) m)" by blast
  next
    fix m assume "?C m"
    then show "appended_to keep path bytes m0 (hm_insert path (or_default [] (hm_get m path) @ bytes) m)"
      by (intro insert_history_file [OF hist]) (auto simp: rows_append)
  qed
  have sync: "runs (appended_to keep path bytes m0) fs_sync (\<lambda>_. appended_to keep path bytes m0) ?I"
    unfolding fs_sync_def by (rule runs_call) (auto, metis order_refl take_all)
  show ?thesis
    unfolding append_observation_def Let_def path_def [symmetric] bytes_def [symmetric]
    by (rule runs_then [OF enabled] runs_then [OF pruned] runs_then [OF opened] runs_then [OF torn]
        runs_then [OF row] runs_then [OF sync])+ (simp add: runs_return)
qed

section \<open>Recovering after a crash\<close>

text \<open>No name the service makes up ends in two such suffixes.\<close>

definition single_backups :: "files \<Rightarrow> bool" where
  "single_backups m \<longleftrightarrow> list_all (\<lambda>n. \<not> ends_with n ''.prune.bak.prune.bak'') (map fst m)"

lemma recover_each_spec:
  assumes "dk_events d = []" and "hm_ok (dk_files d)" and "distinct names"
    and "list_all (\<lambda>b. hm_get (dk_files d) b \<noteq> None) names"
    and "list_all (\<lambda>b. \<not> ends_with b ''.prune.bak.prune.bak'') names"
  shows "\<exists>m'. recover_each names d = (Done (), d\<lparr>dk_files := m'\<rparr>) \<and> hm_ok m'
    \<and> (\<forall>n. is_history_file n \<longrightarrow>
         hm_get m' n = (if hm_get (dk_files d) n = None \<and> prune_backup_path n \<in> set names
                        then hm_get (dk_files d) (prune_backup_path n) else hm_get (dk_files d) n)
       \<and> hm_get m' (prune_backup_path n)
           = (if prune_backup_path n \<in> set names then None else hm_get (dk_files d) (prune_backup_path n)))"
  using assms
proof (induction names arbitrary: d)
  case Nil
  then show ?case by (simp add: io_return_def) (metis disk.surjective disk.update_convs(1))
next
  case (Cons b names)
  let ?m = "dk_files d"
  show ?case
  proof (cases "ends_with b ''.prune.bak''")
    case False
    then have "prune_backup_path n \<noteq> b" if "is_history_file n" for n
      using that by (auto simp: backup_path_eq ends_with_iff)
    moreover have "recover_each (b # names) d = recover_each names d"
      using False by (simp add: io_defs)
    ultimately show ?thesis using Cons.IH [of d] Cons.prems by auto
  next
    case True
    then obtain o' where b: "b = o' @ ''.prune.bak''" by (auto simp: ends_with_iff)
    obtain s where s: "hm_get ?m b = Some s" using Cons.prems(4) by auto
    define m1 where "m1 = (if hm_get ?m o' = None then hm_insert o' s (hm_remove b ?m) else hm_remove b ?m)"
    have step: "recover_each (b # names) d = recover_each names (d\<lparr>dk_files := m1\<rparr>)"
      using True s Cons.prems(1)
      by (simp add: io_defs b fs_exists_def fs_remove_def fs_rename_def fs_call_def next_event_def m1_def)
    have left: "b \<notin> set names" using Cons.prems(3) by simp
    then have present: "list_all (\<lambda>b. hm_get m1 b \<noteq> None) names"
      using Cons.prems(4) by (auto simp: m1_def hm_simps list_all_iff)
    have ok1: "hm_ok m1" using Cons.prems(2) by (simp add: m1_def)
    obtain m' where m': "recover_each names (d\<lparr>dk_files := m1\<rparr>) = (Done (), d\<lparr>dk_files := m'\<rparr>)" "hm_ok m'"
      and view: "\<forall>n. is_history_file n \<longrightarrow>
         hm_get m' n = (if hm_get m1 n = None \<and> prune_backup_path n \<in> set names
                        then hm_get m1 (prune_backup_path n) else hm_get m1 n)
       \<and> hm_get m' (prune_backup_path n)
           = (if prune_backup_path n \<in> set names then None else hm_get m1 (prune_backup_path n))"
      using Cons.IH [of "d\<lparr>dk_files := m1\<rparr>"] Cons.prems ok1 present by auto
    have single: "\<not> ends_with o' ''.prune.bak''"
    proof
      assume "ends_with o' ''.prune.bak''"
      then have "ends_with b ''.prune.bak.prune.bak''" using b by (auto simp: ends_with_iff)
      then show False using Cons.prems(5) by simp
    qed
    have "hm_get m' n = (if hm_get ?m n = None \<and> prune_backup_path n \<in> set (b # names)
             then hm_get ?m (prune_backup_path n) else hm_get ?m n)
       \<and> hm_get m' (prune_backup_path n)
           = (if prune_backup_path n \<in> set (b # names) then None else hm_get ?m (prune_backup_path n))"
      if n: "is_history_file n" for n
    proof -
      have bak: "prune_backup_path n = n @ ''.prune.bak''" using n by (rule backup_path_eq)
      have ne: "n \<noteq> b" "prune_backup_path n \<noteq> o'" "prune_backup_path n = b \<longleftrightarrow> n = o'"
        using n single not_history_names(1) by (auto simp: bak b ends_with_iff)
      show ?thesis
      proof (cases "n = o'")
        case True
        have "prune_backup_path o' = b" "o' \<noteq> b" using bak True b by simp_all
        with view [rule_format, OF n] True s left show ?thesis by (auto simp: m1_def hm_simps)
      next
        case False
        with view [rule_format, OF n] ne show ?thesis by (auto simp: m1_def hm_simps)
      qed
    qed
    with step m' show ?thesis by auto
  qed
qed

lemma recover_spec:
  assumes "dk_events d = []" and "hm_ok (dk_files d)" and "single_backups (dk_files d)"
  shows "\<exists>m'. recover_prune_backups d = (Done (), d\<lparr>dk_files := m'\<rparr>) \<and> history_clean m'
     \<and> (\<forall>n. is_history_file n \<longrightarrow> rows_of m' n = recovered_rows (dk_files d) n)"
proof -
  let ?names = "map fst (dk_files d)"
  have present: "list_all (\<lambda>b. hm_get (dk_files d) b \<noteq> None) ?names"
    by (auto simp: list_all_iff hm_get_def map_of_eq_None_iff image_iff)
  have absent: "n \<notin> set ?names \<Longrightarrow> hm_get (dk_files d) n = None" for n
    by (simp add: hm_get_def map_of_eq_None_iff)
  from recover_each_spec [OF assms(1,2) _ present] assms(2,3)
  obtain m' where run: "recover_each ?names d = (Done (), d\<lparr>dk_files := m'\<rparr>)" "hm_ok m'"
    and view: "\<forall>n. is_history_file n \<longrightarrow>
         hm_get m' n = (if hm_get (dk_files d) n = None \<and> prune_backup_path n \<in> set ?names
                        then hm_get (dk_files d) (prune_backup_path n) else hm_get (dk_files d) n)
       \<and> hm_get m' (prune_backup_path n)
           = (if prune_backup_path n \<in> set ?names then None else hm_get (dk_files d) (prune_backup_path n))"
    by (auto simp: hm_ok_def single_backups_def)
  have "recover_prune_backups d = (Done (), d\<lparr>dk_files := m'\<rparr>)"
    using run(1) assms(1)
    by (simp add: recover_prune_backups_def io_bind_def fs_read_dir_def fs_call_def next_event_def)
  moreover have "history_clean m'" using view run(2) absent by (auto simp: history_clean_def)
  moreover have "rows_of m' n = recovered_rows (dk_files d) n" if "is_history_file n" for n
    using view that absent [of "prune_backup_path n"] by (auto simp: rows_of_def recovered_rows_def)
  ultimately show ?thesis by blast
qed

section \<open>Reading\<close>

lemma visible_strip:
  assumes "parser_ok parse"
  shows "visible_rows parse cutoff (filter (\<lambda>l. \<not> blank l) (map strip_crs ls)) = visible_rows parse cutoff ls"
  unfolding visible_rows_def
  by (rule arg_cong [where f = "filter _"], induction ls)
    (auto simp: map_filter_simps parse_strip_crs [OF assms] split: option.splits)

lemma visible_append [simp]:
  "visible_rows parse cutoff (a @ b) = visible_rows parse cutoff a @ visible_rows parse cutoff b"
  by (simp add: visible_rows_def map_filter_def)

lemma visible_retained:
  "visible_rows parse cutoff (filter (row_retained parse cutoff) rows) = visible_rows parse cutoff rows"
  unfolding visible_rows_def
proof (induction rows)
  case (Cons a rows)
  then show ?case
    by (cases "parse a")
      (auto simp: map_filter_simps row_retained_def [of _ _ a] row_expired_def [of _ _ a]
        simp del: filter_filter)
qed simp

lemma list_each_reads:
  assumes "parser_ok parse" and "list_each parse cutoff paths d = (Done es, d')"
  shows "es = concat (map (\<lambda>n. visible_rows parse cutoff (rows_of (dk_files d) n)) paths)
     \<and> dk_files d' = dk_files d"
  using assms(2)
proof (induction paths arbitrary: d es)
  case Nil
  then show ?case by (simp add: io_return_def)
next
  case (Cons path paths)
  from Cons.prems obtain content d1 ls rest where
    read: "fs_read path d = (Done content, d1)" and ls: "buf_lines content = Inr ls"
    and rest: "list_each parse cutoff paths d1 = (Done rest, d')"
    and es: "es = visible_rows parse cutoff ls @ rest"
    by (auto simp: io_bind_def io_lines_def io_return_def io_fail_def
        split: prod.splits outcome.splits sum.splits)
  have files: "hm_get (dk_files d) path = Some content \<and> dk_files d1 = dk_files d"
    using read unfolding fs_read_def by (cases rule: fs_call_cases) (auto split: option.splits)
  have "ls = split_lines [] content" using ls by (auto simp: buf_lines_def Let_def split: if_splits)
  then have "visible_rows parse cutoff ls = visible_rows parse cutoff (rows_of (dk_files d) path)"
    using files visible_strip [OF assms(1)] by (simp add: rows_of_def file_rows_def)
  with Cons.IH [OF rest] es files show ?case by simp
qed

text \<open>A listing is the visible rows of all files in the order of their names.\<close>

lemma list_reads:
  assumes "parser_ok parse" and "list_history parse store now d = (Done es, d')"
  shows "es = concat (map (\<lambda>n. visible_rows parse (sat_sub now RETENTION_MS) (rows_of (dk_files d) n))
       (sort (filter is_history_file (map fst (dk_files d)))))"
proof -
  from assms(2) obtain names d1 where dir: "history_files d = (Done names, d1)"
    and each: "list_each parse (sat_sub now RETENTION_MS) names d1 = (Done es, d')"
    by (auto simp: list_history_def check_enabled_def io_bind_def io_then_def io_return_def io_fail_def
        split: prod.splits outcome.splits if_splits)
  have "dk_files d1 = dk_files d \<and> names = sort (filter is_history_file (map fst (dk_files d)))"
    using dir unfolding history_files_def fs_read_dir_def
    by (auto simp: io_bind_def io_return_def split: prod.splits outcome.splits elim!: fs_call_cases)
  with list_each_reads [OF assms(1) each] show ?thesis by simp
qed

text \<open>As a multiset, a listing is a sum over all files.\<close>

lemma list_mset:
  assumes codec: "parser_ok parse" and "hm_ok (dk_files d)"
    and "list_history parse store now d = (Done es, d')"
    and "finite S" "\<forall>n \<in> fst ` set (dk_files d). is_history_file n \<longrightarrow> n \<in> S" "\<forall>n \<in> S. is_history_file n"
  shows "mset es = (\<Sum>n \<in> S. mset (visible_rows parse (sat_sub now RETENTION_MS) (rows_of (dk_files d) n)))"
proof -
  let ?names = "sort (filter is_history_file (map fst (dk_files d)))"
  let ?f = "\<lambda>n. mset (visible_rows parse (sat_sub now RETENTION_MS) (rows_of (dk_files d) n))"
  have "mset es = sum_list (map ?f ?names)"
    unfolding list_reads [OF codec assms(3)] mset_concat by (simp add: comp_def)
  also have "\<dots> = sum ?f (set ?names)"
    by (rule sum_list_distinct_conv_sum_set) (use assms(2) in \<open>simp add: hm_ok_def\<close>)
  also have "\<dots> = sum ?f S"
  proof (rule sum.mono_neutral_left)
    show "\<forall>n \<in> S - set ?names. ?f n = {#}"
    proof
      fix n assume n: "n \<in> S - set ?names"
      then have "hm_get (dk_files d) n = None"
        using assms(6) by (auto simp: hm_get_def map_of_eq_None_iff)
      then show "?f n = {#}" by (simp add: rows_of_def visible_rows_def map_filter_simps)
    qed
  qed (use assms(4,5) in auto)
  finally show ?thesis .
qed

section \<open>What no call disturbs\<close>

text \<open>
  \<open>keeps I p\<close>: \<open>p\<close> keeps \<open>I\<close> wherever it stops; a call does where \<open>I\<close> is stable under writing and
  removing the file it names.
\<close>

definition keeps :: "(files \<Rightarrow> bool) \<Rightarrow> 'a io \<Rightarrow> bool" where
  "keeps I p \<longleftrightarrow> runs I p (\<lambda>_. I) I"

definition stable :: "(files \<Rightarrow> bool) \<Rightarrow> string \<Rightarrow> bool" where
  "stable I n \<longleftrightarrow> (\<forall>m s. I m \<longrightarrow> I (hm_insert n s m) \<and> I (hm_remove n m))"

lemma keeps_call:
  "(\<And>m a m'. I m \<Longrightarrow> f m = Inr (a, m') \<Longrightarrow> I m') \<Longrightarrow> keeps I (fs_call f)"
  unfolding keeps_def by (rule runs_call) auto

lemma keeps_ops:
  "stable I n \<Longrightarrow> keeps I (fs_create_new n)" "stable I n \<Longrightarrow> keeps I (fs_open_append n)"
  "keeps I (fs_read n)" "stable I n \<Longrightarrow> keeps I (fs_remove n)" "keeps I fs_sync" "keeps I fs_read_dir"
  "stable I n \<Longrightarrow> stable I n' \<Longrightarrow> keeps I (fs_rename n n')"
  unfolding fs_create_new_def fs_open_append_def fs_read_def fs_remove_def fs_sync_def fs_read_dir_def
    fs_rename_def stable_def
  by (rule keeps_call; auto split: option.splits)+

lemma keeps_write: "stable I n \<Longrightarrow> keeps I (fs_write_all n bytes)"
  unfolding keeps_def by (rule runs_write) (auto simp: stable_def)

lemma keeps_catch:
  assumes "keeps I p" and "\<And>k. keeps I (h k)"
  shows "keeps I (io_catch p h)"
  unfolding keeps_def
proof (rule runsI)
  fix d r d' assume ok: "I (dk_files d)" and run: "io_catch p h d = (r, d')"
  obtain r1 d1 where p: "p d = (r1, d1)" by fastforce
  have ok1: "I (dk_files d1)"
    using runsD [OF assms(1) [unfolded keeps_def] ok p] by (cases r1) auto
  show "case r of Done a \<Rightarrow> I (dk_files d') | _ \<Rightarrow> I (dk_files d')"
  proof (cases r1)
    case (Failed k)
    with run p have "h k d1 = (r, d')" by (simp add: io_catch_def)
    from runsD [OF assms(2) [unfolded keeps_def] ok1 this] show ?thesis .
  qed (use run p ok1 in \<open>auto simp: io_catch_def\<close>)
qed

lemma keeps_return: "keeps I (io_return a)"
  unfolding keeps_def by (rule runs_return)

lemma keeps_control:
  "keeps I (io_fail k)" "keeps I (io_exists n)"
  "keeps I w \<Longrightarrow> keeps I (io_when b w)" "keeps I w \<Longrightarrow> keeps I (io_ignore w)"
proof -
  show "keeps I (io_fail k)" unfolding keeps_def by (rule runs_fail)
  show "keeps I (io_exists n)" by (simp add: keeps_def runs_def io_exists_def)
  show "keeps I w \<Longrightarrow> keeps I (io_when b w)"
    by (cases b) (simp_all add: io_when_def keeps_return)
  show "keeps I w \<Longrightarrow> keeps I (io_ignore w)"
    unfolding io_ignore_def by (intro keeps_catch keeps_return)
qed

lemma keeps_bind: "keeps I p \<Longrightarrow> (\<And>a. keeps I (f a)) \<Longrightarrow> keeps I (io_bind p f)"
  unfolding keeps_def by (rule runs_bind)

lemma keeps_then: "keeps I p \<Longrightarrow> keeps I q \<Longrightarrow> keeps I (io_then p q)"
  unfolding io_then_def by (rule keeps_bind)

lemma keeps_lines: "keeps I (io_lines c)"
  by (simp add: io_lines_def keeps_control keeps_return split: sum.splits)

lemmas keeps_rules = keeps_ops keeps_write keeps_return keeps_control keeps_catch keeps_bind keeps_then keeps_lines

definition stable_pruning :: "(files \<Rightarrow> bool) \<Rightarrow> string \<Rightarrow> bool" where
  "stable_pruning I n \<longleftrightarrow> stable I n \<and> stable I (prune_backup_path n)
     \<and> (\<forall>secret. stable I (with_extension n (secret @ ''.tmp'')))"

lemma keeps_prune_file:
  assumes "stable_pruning I n"
  shows "keeps I (prune_file parse secret cutoff n)"
proof -
  note stable = assms [unfolded stable_pruning_def, THEN conjunct1]
    assms [unfolded stable_pruning_def, THEN conjunct2, THEN conjunct1]
    assms [unfolded stable_pruning_def, THEN conjunct2, THEN conjunct2, rule_format]
  have replace: "keeps I (replace_jsonl s n ls)" for s ls
    unfolding replace_jsonl_def Let_def by (intro keeps_rules stable)
  show ?thesis
    unfolding prune_file_def Let_def
    by (intro keeps_rules) (auto intro: keeps_rules replace stable)
qed

lemma history_files_runs:
  "runs I history_files (\<lambda>names m. I m \<and> names = sort (filter is_history_file (map fst m))) I"
  unfolding history_files_def fs_read_dir_def
  by (rule runs_bind [where Q = "\<lambda>names m. I m \<and> names = map fst m"], rule runs_call)
    (auto intro: runs_return)

lemma keeps_prune:
  assumes "\<And>n. is_history_file n \<Longrightarrow> stable_pruning I n"
  shows "keeps I (prune_locked parse secret now)"
proof -
  have each: "list_all is_history_file names \<Longrightarrow> keeps I (prune_each parse secret cutoff names)"
    for names cutoff
    by (induction names) (auto intro: keeps_then keeps_prune_file assms keeps_return)
  show ?thesis
    unfolding keeps_def prune_locked_def
    by (rule runs_bind [OF history_files_runs], rule runs_each,
        rule runs_pre [OF each [unfolded keeps_def]])
      (auto simp: list_all_iff)
qed

lemma keeps_append:
  assumes "\<And>n. is_history_file n \<Longrightarrow> stable_pruning I n"
  shows "keeps I (append_observation parse render secret entry_secret store track at_ms)"
proof -
  have enabled: "keeps I (check_enabled store)"
    by (simp add: check_enabled_def keeps_control keeps_return)
  have path: "stable I (history_path at_ms)"
    using assms [OF history_path_is_file] by (simp add: stable_pruning_def)
  show ?thesis
    unfolding append_observation_def Let_def end_torn_row_def
    by (intro keeps_rules enabled keeps_prune assms path)
qed

text \<open>The names stay in order.\<close>

definition disk_ok :: "files \<Rightarrow> bool" where
  "disk_ok m \<longleftrightarrow> hm_ok m \<and> single_backups m"

lemma plain_stable: "\<not> ends_with n ''.prune.bak.prune.bak'' \<Longrightarrow> stable disk_ok n"
proof -
  have names: "single_backups m \<longleftrightarrow> (\<forall>k \<in> fst ` set m. \<not> ends_with k ''.prune.bak.prune.bak'')" for m
    by (auto simp: single_backups_def list_all_iff)
  assume "\<not> ends_with n ''.prune.bak.prune.bak''"
  then show "stable disk_ok n"
    by (auto simp: stable_def disk_ok_def names hm_keys_insert) (auto simp: hm_remove_def)
qed

lemma names_stable: "is_history_file n \<Longrightarrow> stable_pruning disk_ok n"
  unfolding stable_pruning_def
  by (intro conjI allI plain_stable)
    (auto simp: ends_with_iff backup_path_eq with_extension_def dest!: history_name
      dest: arg_cong [of _ _ last])

text \<open>Pruning and appending elsewhere leave a file as it is.\<close>

lemma other_file_stable:
  "is_history_file n \<Longrightarrow> is_history_file path \<Longrightarrow> path \<noteq> n \<Longrightarrow>
     stable_pruning (\<lambda>m. hm_get m n = Some c) path"
  using names_differ(1,2) [of n path] by (auto simp: stable_pruning_def stable_def hm_simps)

section \<open>Rows that are torn\<close>

text \<open>What serde promises of a rendered row: one line, parsed back, and no proper prefix parses.\<close>

definition row_codec :: "row_parser \<Rightarrow> (jam_history_entry \<Rightarrow> string) \<Rightarrow> jam_history_entry \<Rightarrow> bool" where
  "row_codec parse render e \<longleftrightarrow> parse (render e) = Some e \<and> newline \<notin> set (render e)
     \<and> \<not> blank (render e) \<and> (\<forall>k < length (render e). parse (take k (render e)) = None)"

lemma line_rows: "newline \<notin> set l \<Longrightarrow> file_rows l = filter (\<lambda>l. \<not> blank l) (if l = [] then [] else [strip_crs l])"
  by (simp add: file_rows_def split_lines_acc(2))

lemma torn_rows:
  assumes codec: "parser_ok parse" and row: "row_codec parse render e"
  shows "List.map_filter parse (file_rows (take k (render e @ [newline])))
    = (if length (render e) \<le> k then [e] else [])"
proof (cases "length (render e) \<le> k")
  case True
  have "file_rows (take k (render e @ [newline])) = file_rows (render e)"
  proof (cases "k = length (render e)")
    case False
    with True have "take k (render e @ [newline]) = render e @ [newline]" by simp
    moreover have "render e = [] \<or> last (render e) \<noteq> newline"
      using row by (metis last_in_set row_codec_def)
    ultimately show ?thesis by (simp add: rows_end_torn)
  qed simp
  moreover have "render e \<noteq> []" using row by (auto simp: row_codec_def)
  ultimately show ?thesis
    using row True
    by (auto simp: row_codec_def line_rows map_filter_simps parse_strip_crs [OF codec])
next
  case False
  then have "newline \<notin> set (take k (render e))" "parse (take k (render e)) = None"
    using row by (auto simp: row_codec_def dest: in_set_takeD)
  with False show ?thesis
    by (simp add: line_rows map_filter_simps parse_strip_crs [OF codec])
qed

end
