(* ===== verification/HistoryProperties.thy ===== *)
theory HistoryProperties
  imports HistoryLog
begin

text \<open>
  What the history promises: an append adds one row and drops the expired ones, a crash or a
  failing disk loses no row, pages partition the sorted rows, and a track's run is recorded once.
\<close>

section \<open>Examples\<close>

definition demo_track :: queued_track where
  "demo_track = \<lparr>qt_queue_entry_id = ''qe1_a'', qt_queue_batch_id = None, qt_spotify_id = ''t'',
     qt_spotify_uri = ''spotify:track:t'', qt_spotify_url = [], qt_name = ''A'', qt_artist = ''B'',
     qt_album_art_url = [], qt_duration_ms = 1000, qt_added_at_ms = 1, qt_added_by_actor_id = ''sam'',
     qt_added_by_name = ''Sam'', qt_playlist = None, qt_playlist_position = None,
     qt_added_by = ''Sam''\<rparr>"

text \<open>A codec for the one row the examples write.\<close>

definition demo_render :: "jam_history_entry \<Rightarrow> string" where "demo_render e = ''{}''"

definition demo_parse :: row_parser where
  "demo_parse l = (if strip_crs l = ''{}'' then Some (from_track ''s'' demo_track 5) else None)"

definition demo_disk :: disk where "demo_disk = \<lparr>dk_files = [], dk_events = []\<rparr>"

definition demo_history_store :: jam_history_store where
  "demo_history_store = \<lparr>hs_enabled = True, hs_revision = 0\<rparr>"

lemma demo_parser_ok: "parser_ok demo_parse"
  by (simp add: parser_ok_def demo_parse_def)

lemma braces_not_blank: "\<not> blank ''{}''" by code_simp

lemma demo_row_codec: "row_codec demo_parse demo_render (from_track ''s'' demo_track 5)"
  using braces_not_blank
  by (auto simp: row_codec_def demo_parse_def demo_render_def strip_crs_def less_Suc_eq)

lemma demo_clean: "history_clean (dk_files demo_disk)" "disk_ok (dk_files demo_disk)"
  by (simp_all add: history_clean_def demo_disk_def disk_ok_def single_backups_def)

section \<open>A log of rows\<close>

text \<open>The abstract history: the entries of each file, and the rows this version cannot read.\<close>

definition entry_log :: "row_parser \<Rightarrow> u64 \<Rightarrow> files \<Rightarrow> string \<Rightarrow> jam_history_entry list" where
  "entry_log parse now m n = visible_rows parse (sat_sub now RETENTION_MS) (rows_of m n)"

definition unread_rows :: "row_parser \<Rightarrow> files \<Rightarrow> string \<Rightarrow> string list" where
  "unread_rows parse m n = filter (\<lambda>l. parse l = None) (rows_of m n)"

lemma unread_retained:
  "filter (\<lambda>l. parse l = None) (filter (row_retained parse cutoff) (file_rows c))
     = filter (\<lambda>l. parse l = None) (file_rows c)"
  unfolding filter_filter
  by (rule filter_cong) (auto simp: row_retained_def row_expired_def file_rows_def)

lemma visible_from_rows:
  "visible_rows parse cutoff (file_rows c) = filter (\<lambda>e. he_schema_version e = HISTORY_SCHEMA_VERSION
     \<and> cutoff \<le> he_played_at_ms e) (List.map_filter parse (file_rows c))"
proof -
  have "filter (\<lambda>l. \<not> blank l) (file_rows c) = file_rows c"
    by (auto simp: file_rows_def intro: filter_True)
  then show ?thesis by (simp add: visible_rows_def)
qed

lemma visible_Nil [simp]: "visible_rows parse cutoff [] = []"
  by (simp add: visible_rows_def map_filter_simps)

lemma visible_retained_later:
  assumes "cutoff \<le> cutoff'"
  shows "visible_rows parse cutoff' (filter (row_retained parse cutoff) rows) = visible_rows parse cutoff' rows"
  unfolding visible_rows_def
proof (induction rows)
  case (Cons a rows)
  then show ?case using assms
    by (cases "parse a")
      (auto simp: map_filter_simps row_retained_def [of _ _ a] row_expired_def [of _ _ a]
        simp del: filter_filter)
qed simp

lemma cutoff_le: "sat_sub at_ms RETENTION_MS \<le> at_ms"
  by (simp add: u64_order u64_simps)

lemma torn_visible:
  assumes "parser_ok parse" and "row_codec parse render (from_track es track at_ms)"
  shows "visible_rows parse cutoff (file_rows (take k (render (from_track es track at_ms) @ [newline])))
    = (if length (render (from_track es track at_ms)) \<le> k \<and> cutoff \<le> at_ms
       then [from_track es track at_ms] else [])"
  unfolding visible_from_rows torn_rows [OF assms] by (simp add: from_track_def)

text \<open>
  C2: the history's files implement a log of entries. Pruning changes no entry that is still to be
  shown and never destroys a row this version cannot read; an append adds exactly its entry at the
  end of its day's file, moves the revision by one, and otherwise does what pruning does; and a
  listing that answers is the log, file by file in the order of their names.
\<close>

theorem history_refines_log:
  assumes codec: "parser_ok parse" and row: "row_codec parse render (from_track es track at_ms)"
    and clean: "history_clean (dk_files d)"
  shows "(prune parse secret store at_ms d = (Done (), dp) \<longrightarrow>
        (\<forall>n. is_history_file n \<longrightarrow> entry_log parse at_ms (dk_files dp) n = entry_log parse at_ms (dk_files d) n
           \<and> unread_rows parse (dk_files dp) n = unread_rows parse (dk_files d) n))
    \<and> (append_observation parse render secret es store track at_ms d = (Done (entry, store'), da) \<longrightarrow>
        entry = from_track es track at_ms \<and> hs_revision store' = hs_revision store + 1
        \<and> (\<forall>n. is_history_file n \<longrightarrow>
             entry_log parse at_ms (dk_files da) n
               = entry_log parse at_ms (dk_files d) n @ (if n = history_path at_ms then [entry] else [])
           \<and> unread_rows parse (dk_files da) n = unread_rows parse (dk_files d) n))
    \<and> (list_history parse store at_ms d = (Done entries, dl) \<longrightarrow>
        entries = concat (map (entry_log parse at_ms (dk_files d))
          (sort (filter is_history_file (map fst (dk_files d))))))"
proof (intro conjI impI)
  assume "prune parse secret store at_ms d = (Done (), dp)"
  then have run: "prune_locked parse secret at_ms d = (Done (), dp)"
    by (auto simp: prune_def check_enabled_def io_then_def io_bind_def io_return_def io_fail_def
        split: if_splits)
  have "pruned_to (row_retained parse (sat_sub at_ms RETENTION_MS)) UNIV (dk_files d) (dk_files dp)"
    using runsD [OF prune_runs [OF codec clean] _ run] by simp
  then show "\<forall>n. is_history_file n \<longrightarrow> entry_log parse at_ms (dk_files dp) n = entry_log parse at_ms (dk_files d) n
      \<and> unread_rows parse (dk_files dp) n = unread_rows parse (dk_files d) n"
    unfolding entry_log_def unread_rows_def pruned_to_def
    by (simp add: visible_retained rows_of_def unread_retained del: filter_filter)
next
  assume run: "append_observation parse render secret es store track at_ms d = (Done (entry, store'), da)"
  let ?e = "from_track es track at_ms" and ?keep = "row_retained parse (sat_sub at_ms RETENTION_MS)"
  from runsD [OF append_runs [OF codec clean] _ run]
  have res: "entry = ?e" "store' = store\<lparr>hs_revision := hs_revision store + 1\<rparr>"
    and app: "appended_to ?keep (history_path at_ms) (render ?e @ [newline]) (dk_files d) (dk_files da)"
    by auto
  have shown: "visible_rows parse (sat_sub at_ms RETENTION_MS) (file_rows (render ?e @ [newline])) = [?e]"
    using torn_visible [OF codec row, of "sat_sub at_ms RETENTION_MS" "Suc (length (render ?e))"] cutoff_le
    by simp
  have read: "filter (\<lambda>l. parse l = None) (file_rows (render ?e @ [newline])) = []"
  proof -
    have "file_rows (render ?e @ [newline]) = file_rows (render ?e)"
      using row by (intro rows_end_torn) (metis last_in_set row_codec_def)
    then show ?thesis
      using row by (auto simp: row_codec_def line_rows parse_strip_crs [OF codec])
  qed
  show "entry = ?e" "hs_revision store' = hs_revision store + 1" using res by simp_all
  show "\<forall>n. is_history_file n \<longrightarrow>
      entry_log parse at_ms (dk_files da) n
        = entry_log parse at_ms (dk_files d) n @ (if n = history_path at_ms then [entry] else [])
      \<and> unread_rows parse (dk_files da) n = unread_rows parse (dk_files d) n"
    using app shown read unfolding entry_log_def unread_rows_def appended_to_def res(1)
    by (simp add: visible_retained rows_of_def unread_retained del: filter_filter)
next
  assume "list_history parse store at_ms d = (Done entries, dl)"
  from list_reads [OF codec this]
  show "entries = concat (map (entry_log parse at_ms (dk_files d))
      (sort (filter is_history_file (map fst (dk_files d)))))"
    by (simp add: entry_log_def cong: map_cong)
qed

lemma demo_append:
  "append_observation demo_parse demo_render (\<lambda>n. n) ''s'' demo_history_store demo_track 5 demo_disk
     = (Done (from_track ''s'' demo_track 5, \<lparr>hs_enabled = True, hs_revision = 1\<rparr>),
        \<lparr>dk_files = [(history_path 5, ''{}'' @ [newline])], dk_events = []\<rparr>)"
  by (simp add: append_observation_def Let_def check_enabled_def demo_history_store_def demo_disk_def
      io_defs prune_locked_def history_files_def fs_read_dir_def fs_call_def next_event_def
      fs_open_append_def end_torn_row_def fs_read_def fs_write_all_def append_bytes_def fs_sync_def
      demo_render_def hm_simps) (simp add: hm_insert_def hm_get_def)

theorem history_refines_log_witness:
  "\<exists>entry store' da. append_observation demo_parse demo_render (\<lambda>n. n) ''s'' demo_history_store demo_track 5
       demo_disk = (Done (entry, store'), da)
     \<and> entry_log demo_parse 5 (dk_files da) (history_path 5) = [entry]"
proof -
  have old: "entry_log demo_parse 5 (dk_files demo_disk) (history_path 5) = []"
    by (simp add: entry_log_def demo_disk_def rows_of_def)
  show ?thesis
    using history_refines_log [OF demo_parser_ok demo_row_codec demo_clean(1), THEN conjunct2,
        THEN conjunct1, rule_format, OF demo_append] old history_path_is_file demo_append
    by auto
qed

section \<open>Crashes\<close>

text \<open>Opening the history again, with nothing failing, recovers what a crash left under another name.\<close>

lemma reopened_log:
  assumes codec: "parser_ok parse" and "dk_events d = []" and "disk_ok (dk_files d)"
    and run: "open_history parse secret now d = (Done store, d')"
    and "is_history_file n"
  shows "visible_rows parse (sat_sub now RETENTION_MS) (rows_of (dk_files d') n)
    = visible_rows parse (sat_sub now RETENTION_MS) (recovered_rows (dk_files d) n)"
proof -
  obtain m where rec: "recover_prune_backups d = (Done (), d\<lparr>dk_files := m\<rparr>)" and clean: "history_clean m"
    and rows: "rows_of m n = recovered_rows (dk_files d) n"
    using recover_spec [OF assms(2)] assms(3,5) by (auto simp: disk_ok_def)
  have "prune_locked parse secret now (d\<lparr>dk_files := m\<rparr>) = (Done (), d')"
    using run rec
    by (auto simp: open_history_def Let_def io_then_def io_bind_def prune_def check_enabled_def
        io_return_def split: prod.splits outcome.splits)
  from runsD [OF prune_runs [OF codec clean] _ this]
  have "rows_of (dk_files d') n = filter (row_retained parse (sat_sub now RETENTION_MS)) (rows_of m n)"
    using assms(5) by (simp add: pruned_to_def)
  then show ?thesis using rows by (simp add: visible_retained)
qed

lemma cutoff_mono: "a \<le> b \<Longrightarrow> sat_sub a RETENTION_MS \<le> sat_sub b RETENTION_MS"
  by (simp add: u64_order u64_simps)

text \<open>
  C13: the history survives a crash. Let an append be killed anywhere or fail in any call, with its
  last write cut at any byte; after the next start every entry that was to be shown is shown, and
  besides them at most the appended one, which is there if the append had returned.
\<close>

theorem history_survives_crashes:
  assumes codec: "parser_ok parse" and row: "row_codec parse render (from_track es track at_ms)"
    and clean: "history_clean (dk_files d)" and names: "disk_ok (dk_files d)"
    and run: "append_observation parse render secret es store track at_ms d = (r, d1)"
    and reopen: "open_history parse secret' now (d1\<lparr>dk_events := []\<rparr>) = (Done store', d2)"
    and later: "at_ms \<le> now" and n: "is_history_file n"
  shows "entry_log parse now (dk_files d2) n = entry_log parse now (dk_files d) n
        \<and> (\<forall>a. r \<noteq> Done a \<or> n \<noteq> history_path at_ms \<or> at_ms < sat_sub now RETENTION_MS)
    \<or> n = history_path at_ms
        \<and> entry_log parse now (dk_files d2) n = entry_log parse now (dk_files d) n @ [from_track es track at_ms]"
proof -
  let ?keep = "row_retained parse (sat_sub at_ms RETENTION_MS)"
  let ?e = "from_track es track at_ms"
  let ?bytes = "render ?e @ [newline]"
  let ?view = "\<lambda>rows. visible_rows parse (sat_sub now RETENTION_MS) rows"
  have ok1: "disk_ok (dk_files d1)"
    using runsD [OF keeps_append [OF names_stable, unfolded keeps_def] names run] by (cases r) auto
  have log: "?view (rows_of (dk_files d2) n) = ?view (recovered_rows (dk_files d1) n)"
    using reopened_log [OF codec _ _ reopen n] ok1 by simp
  note keep = visible_retained_later [OF cutoff_mono [OF later]]
  have shown: "?view (file_rows (take k ?bytes))
      = (if length (render ?e) \<le> k \<and> sat_sub now RETENTION_MS \<le> at_ms then [?e] else [])" for k
    by (rule torn_visible [OF codec row])
  note outcome = runsD [OF append_runs [OF codec clean] refl run]
  consider (old) "\<And>a. r \<noteq> Done a" "partly_pruned ?keep (dk_files d) (dk_files d1)"
    | (torn) k where "(\<exists>a. r = Done a) \<longrightarrow> length ?bytes \<le> k"
        "appended_to ?keep (history_path at_ms) (take k ?bytes) (dk_files d) (dk_files d1)"
  proof (cases r)
    case (Done a)
    with outcome have "appended_to ?keep (history_path at_ms) (take (length ?bytes) ?bytes) (dk_files d) (dk_files d1)"
      by simp
    then show thesis by (rule torn [rotated]) simp
  qed (use outcome in \<open>auto intro: old torn\<close>)
  then show ?thesis
  proof cases
    case old
    then have "?view (recovered_rows (dk_files d1) n) = ?view (rows_of (dk_files d) n)"
      using n keep by (auto simp: partly_pruned_def)
    with old(1) show ?thesis by (simp add: log entry_log_def)
  next
    case (torn k)
    show ?thesis
    proof (cases "n = history_path at_ms")
      case False
      with appended_recovered [OF torn(2) n] show ?thesis
        by (simp add: log entry_log_def keep)
    next
      case True
      let ?there = "length (render ?e) \<le> k \<and> sat_sub now RETENTION_MS \<le> at_ms"
      have view: "entry_log parse now (dk_files d2) n
          = entry_log parse now (dk_files d) n @ (if ?there then [?e] else [])"
        unfolding entry_log_def log appended_recovered [OF torn(2) n]
        using True by (simp add: keep shown del: take_append)
      show ?thesis
      proof (cases ?there)
        case False
        have "r \<noteq> Done a \<or> at_ms < sat_sub now RETENTION_MS" for a
        proof (cases "r = Done a")
          case True
          with torn(1) have "length (render ?e) \<le> k" by simp
          with False show ?thesis by (simp add: not_le)
        qed simp
        moreover have "entry_log parse now (dk_files d2) n = entry_log parse now (dk_files d) n"
          by (simp only: view if_not_P [OF False] append_Nil2)
        ultimately show ?thesis by blast
      next
        case there: True
        have "entry_log parse now (dk_files d2) n = entry_log parse now (dk_files d) n @ [?e]"
          by (simp only: view if_P [OF there])
        with True show ?thesis by blast
      qed
    qed
  qed
qed

text \<open>The machine stops after one byte of the row.\<close>

definition demo_crash :: disk where
  "demo_crash = \<lparr>dk_files = [], dk_events = [Succeeds, Succeeds, Succeeds, Halts 1]\<rparr>"

definition demo_torn :: disk where
  "demo_torn = \<lparr>dk_files = [(history_path 5, ''{'')], dk_events = []\<rparr>"

lemma demo_crash_append:
  "append_observation demo_parse demo_render (\<lambda>n. n) ''s'' demo_history_store demo_track 5 demo_crash
     = (Halted, demo_torn)"
  by (simp add: append_observation_def Let_def check_enabled_def demo_history_store_def demo_crash_def
      demo_torn_def io_defs prune_locked_def history_files_def fs_read_dir_def fs_call_def next_event_def
      fs_open_append_def end_torn_row_def fs_read_def fs_write_all_def append_bytes_def
      demo_render_def hm_simps) (simp add: hm_insert_def hm_get_def)

lemma brace_lines: "buf_lines ''{'' = Inr [''{'']" "\<not> blank ''{''" by code_simp+

lemma demo_reopen:
  "open_history demo_parse (\<lambda>n. n) 6 demo_torn = (Done \<lparr>hs_enabled = True, hs_revision = 0\<rparr>, demo_torn)"
proof -
  have hist: "is_history_file (history_path 5)" by (rule history_path_is_file)
  then have "\<not> ends_with (history_path 5) ''.prune.bak''"
    using not_history_names(1) by (auto simp: ends_with_iff)
  with hist show ?thesis
    by (simp add: open_history_def Let_def recover_prune_backups_def prune_def check_enabled_def
        demo_torn_def io_defs fs_read_dir_def fs_call_def next_event_def prune_locked_def
        history_files_def prune_file_def fs_read_def io_lines_def brace_lines row_retained_def
        row_expired_def demo_parse_def strip_crs_def hm_get_def)
qed

theorem history_survives_crashes_witness:
  "fst (append_observation demo_parse demo_render (\<lambda>n. n) ''s'' demo_history_store demo_track 5 demo_crash)
      = Halted
   \<and> entry_log demo_parse 6 (dk_files demo_torn) (history_path 5)
      = entry_log demo_parse 6 (dk_files demo_crash) (history_path 5)"
proof -
  have clean: "history_clean (dk_files demo_crash)" "disk_ok (dk_files demo_crash)"
    using demo_clean by (simp_all add: demo_crash_def demo_disk_def)
  have still: "demo_torn\<lparr>dk_events := []\<rparr> = demo_torn" by (simp add: demo_torn_def)
  have "entry_log demo_parse 6 (dk_files demo_torn) (history_path 5) = []"
    using brace_lines(2)
    by (simp add: entry_log_def demo_torn_def rows_of_def hm_get_def line_rows strip_crs_def
        visible_rows_def map_filter_simps demo_parse_def)
  then show ?thesis
    using history_survives_crashes [OF demo_parser_ok demo_row_codec clean demo_crash_append,
        unfolded still, OF demo_reopen _ history_path_is_file] demo_crash_append
    by fastforce
qed

text \<open>
  C23: a row torn inside a character blocks the history. As soon as one file holds a line that is
  not UTF-8 (a write cut inside a character of a title leaves one), no append, no pruning and no
  listing returns any more, whatever else the disk answers, and the file stays as it is, so neither
  the next start nor the thirty days of retention clear it.
\<close>

theorem torn_character_blocks_history:
  assumes n: "is_history_file n" and c: "hm_get (dk_files d) n = Some c"
    and bad: "\<not> list_all utf8_valid (split_lines [] c)"
  shows "(case append_observation parse render secret es store track at_ms d of
        (Done _, _) \<Rightarrow> False | (_, d1) \<Rightarrow> hm_get (dk_files d1) n = Some c)
    \<and> (case prune parse secret store at_ms d of
        (Done _, _) \<Rightarrow> False | (_, d1) \<Rightarrow> hm_get (dk_files d1) n = Some c)
    \<and> (case list_history parse store at_ms d of
        (Done _, _) \<Rightarrow> False | (_, d1) \<Rightarrow> hm_get (dk_files d1) n = Some c)"
proof -
  let ?I = "\<lambda>m. hm_get m n = Some c"
  have unreadable: "runs ?I (io_bind (fs_read n) (\<lambda>content. io_bind (io_lines content) (f content)))
      (\<lambda>_ _. False) ?I" for f :: "string \<Rightarrow> string list \<Rightarrow> 'x io"
    by (rule runs_bind [OF runs_read])
      (use bad in \<open>auto simp: io_lines_def buf_lines_def Let_def runs_def io_bind_def io_fail_def
         split: sum.splits if_splits\<close>)
  have each: "n \<in> set names \<Longrightarrow> list_all is_history_file names \<Longrightarrow>
      runs ?I (prune_each parse secret cutoff names) (\<lambda>_ _. False) ?I" for names cutoff
  proof (induction names)
    case (Cons path names)
    have stop: "runs ?I (prune_file parse secret cutoff n) (\<lambda>_ _. False) ?I"
      unfolding prune_file_def by (rule unreadable)
    show ?case
    proof (cases "path = n")
      case True
      show ?thesis
        unfolding prune_each.simps True by (rule runs_then [OF stop]) (simp add: runs_def)
    next
      case False
      have "keeps ?I (prune_file parse secret cutoff path)"
        using Cons.prems False by (intro keeps_prune_file other_file_stable [OF n]) auto
      with Cons False show ?thesis
        unfolding prune_each.simps by (intro runs_then) (auto simp: keeps_def)
    qed
  qed simp
  have listed: "n \<in> set names \<Longrightarrow> runs ?I (list_each parse cutoff names) (\<lambda>_ _. False) ?I" for names cutoff
  proof (induction names)
    case (Cons path names)
    show ?case
    proof (cases "path = n")
      case True
      show ?thesis unfolding list_each.simps True by (rule unreadable)
    next
      case False
      with Cons have "runs ?I (list_each parse cutoff names) (\<lambda>_ _. False) ?I" by simp
      then have "runs ?I (io_bind (list_each parse cutoff names) g) (\<lambda>_ _. False) ?I"
        for g :: "jam_history_entry list \<Rightarrow> jam_history_entry list io"
        by (rule runs_bind) (simp add: runs_def)
      then show ?thesis
        unfolding list_each.simps
        by (intro runs_bind [OF keeps_ops(3) [unfolded keeps_def]]
            runs_bind [OF keeps_lines [unfolded keeps_def]])
    qed
  qed simp
  have names: "n \<in> set (sort (filter is_history_file (map fst m)))" if "?I m" for m
    using that n by (force dest!: hm_get_SomeD)
  have prune: "runs ?I (prune_locked parse secret at_ms) (\<lambda>_ _. False) ?I"
    unfolding prune_locked_def
    by (rule runs_bind [OF history_files_runs], rule runs_each, rule runs_pre [OF each])
      (use names in \<open>auto simp: list_all_iff\<close>)
  have lst: "runs ?I (io_bind history_files (list_each parse cutoff)) (\<lambda>_ _. False) ?I" for cutoff
    by (rule runs_bind [OF history_files_runs], rule runs_each, rule runs_pre [OF listed])
      (use names in auto)
  have enabled: "runs ?I (check_enabled store) (\<lambda>_. ?I) ?I"
    by (simp add: check_enabled_def runs_return runs_fail)
  have done_false: "case q of (Done _, _) \<Rightarrow> False | (_, d1) \<Rightarrow> ?I (dk_files d1)"
    if "runs ?I p (\<lambda>_ _. False) ?I" "p d = q" for p :: "'y io" and q
    using runsD [OF that(1) c] that(2) by (cases q) (auto split: outcome.splits)
  have append: "runs ?I (append_observation parse render secret es store track at_ms) (\<lambda>_ _. False) ?I"
    unfolding append_observation_def Let_def
    by (rule runs_then [OF enabled runs_then [OF prune]]) (simp add: runs_def)
  have pruned: "runs ?I (prune parse secret store at_ms) (\<lambda>_ _. False) ?I"
    unfolding prune_def by (rule runs_then [OF enabled prune])
  have listing: "runs ?I (list_history parse store at_ms) (\<lambda>_ _. False) ?I"
    unfolding list_history_def by (rule runs_then [OF enabled lst])
  show ?thesis
    using done_false [OF append refl] done_false [OF pruned refl] done_false [OF listing refl]
    by (intro conjI)
qed

definition demo_blocked :: disk where
  "demo_blocked = \<lparr>dk_files = [(history_path 5, [CHR 0xC3])], dk_events = []\<rparr>"

theorem torn_character_blocks_history_witness:
  "(case append_observation demo_parse demo_render (\<lambda>n. n) ''s'' demo_history_store demo_track 5 demo_blocked of
      (Done _, _) \<Rightarrow> False | (_, d1) \<Rightarrow> hm_get (dk_files d1) (history_path 5) = Some [CHR 0xC3])"
proof -
  have bad: "\<not> list_all utf8_valid (split_lines [] [CHR 0xC3])" by code_simp
  have there: "hm_get (dk_files demo_blocked) (history_path 5) = Some [CHR 0xC3]"
    by (simp add: demo_blocked_def hm_get_def)
  show ?thesis
    by (rule torn_character_blocks_history [OF history_path_is_file there bad, THEN conjunct1])
qed

section \<open>Listings\<close>

text \<open>
  What \<open>sort_by\<close> relies on: the comparison is a total preorder. Sorting then permutes, and orders.
\<close>

locale comparison =
  fixes cmp :: "'a \<Rightarrow> 'a \<Rightarrow> ordering"
  assumes reversed: "cmp b a = reverse_ordering (cmp a b)"
    and transitive: "cmp a b \<noteq> Greater \<Longrightarrow> cmp b c \<noteq> Greater \<Longrightarrow> cmp a c \<noteq> Greater"
begin

lemma greater_less: "cmp a b = Greater \<longleftrightarrow> cmp b a = Less"
  by (subst reversed [of b a]) (cases "cmp a b"; simp add: reverse_ordering_def)

lemma mset_insert_by: "mset (insert_by cmp x xs) = add_mset x (mset xs)"
  by (induction xs) auto

lemma sort_by_permutes: "mset (sort_by cmp xs) = mset xs"
  by (induction xs) (simp_all add: sort_by_def mset_insert_by)

lemma set_insert_by: "set (insert_by cmp x xs) = insert x (set xs)"
  by (metis mset_insert_by set_mset_add_mset_insert set_mset_mset)

lemma sorted_insert_by:
  "sorted_wrt (\<lambda>a b. cmp a b \<noteq> Greater) xs \<Longrightarrow> sorted_wrt (\<lambda>a b. cmp a b \<noteq> Greater) (insert_by cmp x xs)"
proof (induction xs)
  case (Cons y ys)
  have "cmp y x \<noteq> Greater" if "cmp x y = Greater"
    using that greater_less [of x y] by simp
  moreover have "cmp x z \<noteq> Greater" if "cmp x y \<noteq> Greater" "z \<in> set ys" for z
    using that Cons.prems transitive by auto
  ultimately show ?case using Cons by (auto simp: set_insert_by)
qed simp

lemma sort_by_sorts: "sorted_wrt (\<lambda>a b. cmp a b \<noteq> Greater) (sort_by cmp xs)"
  unfolding sort_by_def by (induction xs) (simp_all add: sorted_insert_by)

lemma reverse_comparison: "comparison (\<lambda>a b. reverse_ordering (cmp a b))"
proof
  show "reverse_ordering (cmp b a) = reverse_ordering (reverse_ordering (cmp a b))" for a b
    by (rule arg_cong [OF reversed])
  have rev: "reverse_ordering (cmp a b) = cmp b a" for a b by (rule reversed [symmetric])
  show "reverse_ordering (cmp a b) \<noteq> Greater \<Longrightarrow> reverse_ordering (cmp b c) \<noteq> Greater \<Longrightarrow>
      reverse_ordering (cmp a c) \<noteq> Greater" for a b c
    unfolding rev by (rule transitive)
qed

lemma then_comparison:
  assumes "comparison cmp'"
  shows "comparison (\<lambda>a b. then_with (cmp a b) (cmp' a b))"
proof
  fix a b c
  have rev': "cmp' b a = reverse_ordering (cmp' a b)" by (rule comparison.reversed [OF assms])
  have rev: "cmp b a = reverse_ordering (cmp a b)" by (rule reversed)
  show "then_with (cmp b a) (cmp' b a) = reverse_ordering (then_with (cmp a b) (cmp' a b))"
    unfolding rev rev'
    by (cases "cmp a b"; simp add: then_with_def reverse_ordering_def)
  assume "then_with (cmp a b) (cmp' a b) \<noteq> Greater" "then_with (cmp b c) (cmp' b c) \<noteq> Greater"
  then have le: "cmp a b \<noteq> Greater" "cmp b c \<noteq> Greater"
    and le': "cmp a b = Equal \<Longrightarrow> cmp' a b \<noteq> Greater" "cmp b c = Equal \<Longrightarrow> cmp' b c \<noteq> Greater"
    by (auto simp: then_with_def split: if_splits)
  have ac: "cmp a c \<noteq> Greater" using transitive [OF le] .
  show "then_with (cmp a c) (cmp' a c) \<noteq> Greater"
  proof (cases "cmp a c = Equal")
    case True
    then have "cmp c a \<noteq> Greater" using reversed [where a = a and b = c] by (simp add: reverse_ordering_def)
    with le transitive have "cmp b a \<noteq> Greater" "cmp c b \<noteq> Greater" by blast+
    then have "cmp a b = Equal" "cmp b c = Equal"
      using le reversed [where a = b and b = a] reversed [where a = c and b = b]
      by (cases "cmp b a"; cases "cmp c b"; simp add: reverse_ordering_def)+
    with le' have "cmp' a c \<noteq> Greater" by (intro comparison.transitive [OF assms, of a b c]) auto
    with True show ?thesis by (simp add: then_with_def)
  qed (use ac in \<open>simp add: then_with_def\<close>)
qed

end

lemma cmp_of_comparison: "comparison (\<lambda>a b. cmp_of (f a) (f b))"
  by unfold_locales (auto simp: cmp_of_def reverse_ordering_def split: if_splits)

lemma cmp_option_comparison: "comparison (\<lambda>a b. cmp_option (f a) (f b))"
  by unfold_locales
    (auto simp: cmp_option_def cmp_of_def reverse_ordering_def split: if_splits option.splits)

lemma equal_comparison: "comparison (\<lambda>a b. Equal)"
  by unfold_locales (simp_all add: reverse_ordering_def)

lemma if_comparison:
  "comparison f \<Longrightarrow> comparison g \<Longrightarrow> comparison (\<lambda>a b. if c then f a b else g a b)"
  by (cases c) simp_all

lemma history_order_comparison: "comparison (\<lambda>a b. history_order lc a b sort_name)"
  unfolding history_order_def Let_def
  by (intro comparison.then_comparison [OF _ cmp_of_comparison] if_comparison
      cmp_of_comparison cmp_option_comparison equal_comparison)

interpretation listing: comparison "query_order lc query" for lc query
proof -
  have "query_order lc query = (\<lambda>a b. if hq_direction query = ''desc''
      then reverse_ordering (history_order lc a b (hq_sort query)) else history_order lc a b (hq_sort query))"
    by (simp add: query_order_def Let_def fun_eq_iff)
  then show "comparison (query_order lc query)"
    by (simp only:) (intro if_comparison comparison.reverse_comparison history_order_comparison)
qed

text \<open>The pages of a listing, taken one after the other with the same filter and size, are the
  matching entries in order: nothing is skipped or shown twice, the order is that of the chosen
  column in the chosen direction, and every page states the same total.
\<close>

lemma history_pages_partition:
  "\<exists>whole. mset whole = mset (filter (history_matches query) entries)
     \<and> sorted_wrt (\<lambda>a b. query_order lc query a b \<noteq> Greater) whole
     \<and> concat (map (\<lambda>k. hr_items (history_page lc (query\<lparr>hq_offset := k * hq_limit query\<rparr>) entries)) [0..<pages])
         = take (pages * hq_limit query) whole
     \<and> list_all (\<lambda>k. hr_total (history_page lc (query\<lparr>hq_offset := k\<rparr>) entries) = length whole) [0..<pages]"
proof -
  let ?whole = "sort_by (query_order lc query) (filter (history_matches query) entries)"
  have page: "history_page lc (query\<lparr>hq_offset := k\<rparr>) entries =
      \<lparr>hr_schema_version = HISTORY_SCHEMA_VERSION, hr_retention_days = HISTORY_RETENTION_DAYS,
       hr_items = take (hq_limit query) (drop k ?whole), hr_offset = k, hr_limit = hq_limit query,
       hr_total = length ?whole\<rparr>" for k
  proof -
    have "query_order lc (query\<lparr>hq_offset := k\<rparr>) = query_order lc query"
      "history_matches (query\<lparr>hq_offset := k\<rparr>) = history_matches query"
      by (simp_all add: query_order_def history_matches_def fun_eq_iff)
    then show ?thesis by (simp add: history_page_def Let_def)
  qed
  have "concat (map (\<lambda>k. take l (drop (k * l) xs)) [0..<pages]) = take (pages * l) xs"
    for l and xs :: "jam_history_entry list"
  proof (induction pages)
    case (Suc p)
    have "Suc p * l = p * l + l" by simp
    with Suc show ?case by (simp only: take_add upt_Suc) simp
  qed simp
  then show ?thesis
    using listing.sort_by_permutes listing.sort_by_sorts
    by (intro exI [of _ ?whole]) (simp add: page list_all_iff)
qed

end
