(* ===== verification/JamRefresh.thy ===== *)
theory JamRefresh
  imports JamFrontier JamHistory
begin

text \<open>
  The refresh behind \<open>jam_state\<close> (\<open>jam_session.rs\<close>): the player is read at most every five seconds,
  what it shows advances the queue and the history, the pump runs, and the state is answered. One
  refresh runs at a time (\<open>jam_state_refresh\<close>); the answers of Spotify, the history's disk and the
  clocks are arguments.
\<close>

section \<open>Reading the player\<close>

definition playback_fetch_matches :: "jam_state \<Rightarrow> u64 \<Rightarrow> string \<Rightarrow> bool" where
  "playback_fetch_matches jam generation device_id \<longleftrightarrow>
     jam_active jam \<and> jam_generation jam = generation \<and> jam_spotify_device_id jam = Some device_id"

definition spotify_track_identity :: "json \<Rightarrow> string \<times> string \<times> string" where
  "spotify_track_identity item =
     (if Option.bind (json_get item ''type'') as_str \<noteq> Some ''track'' then ([], [], [])
      else case filter_option valid_spotify_id (Option.bind (json_get item ''id'') as_str) of
        None \<Rightarrow> ([], [], [])
      | Some i \<Rightarrow>
          let uri = ''spotify:track:'' @ i in
          if Option.bind (json_get item ''uri'') as_str \<noteq> Some uri then ([], [], [])
          else (i, uri, ''https://open.spotify.com/track/'' @ i))"

definition first_member :: "json \<Rightarrow> string \<Rightarrow> string" where
  "first_member v key =
     or_default [] (Option.bind (Option.bind (as_array v) first_opt) (\<lambda>a. as_str (json_index a key)))"

definition now_playing_from :: "json \<Rightarrow> instant \<Rightarrow> now_playing_info" where
  "now_playing_from data now =
     (let item = json_index data ''item''; (i, uri, url) = spotify_track_identity item in
      \<lparr>np_spotify_id = i, np_spotify_uri = uri, np_spotify_url = url,
       np_name = or_default [] (as_str (json_index item ''name'')),
       np_artist = first_member (json_index item ''artists'') ''name'',
       np_album_art_url = first_member (json_index (json_index item ''album'') ''images'') ''url'',
       np_duration_ms = or_default 0 (as_u64 (json_index item ''duration_ms'')),
       np_progress_ms = or_default 0 (as_u64 (json_index data ''progress_ms'')),
       np_is_playing = or_default False (as_bool (json_index data ''is_playing'')),
       np_fetched_at = Some now\<rparr>)"

text \<open>The Jam and the device to read, where a read is due.\<close>

definition playback_fetch :: "jam_state \<Rightarrow> instant \<Rightarrow> (u64 \<times> string) option" where
  "playback_fetch jam now =
     (if \<not> jam_active jam \<or> jam_spotify_token jam = None then None
      else if jam_uncertain_skip jam \<noteq> None
           \<or> (case jam_now_playing jam of None \<Rightarrow> True
              | Some np \<Rightarrow> (case np_fetched_at np of None \<Rightarrow> True
                             | Some t \<Rightarrow> elapsed now t > secs 5))
      then map_option (\<lambda>device_id. (jam_generation jam, device_id)) (jam_spotify_device_id jam)
      else None)"

section \<open>What an observation does\<close>

text \<open>Nothing is playing on the account.\<close>

definition observe_no_content :: "jam_state \<Rightarrow> instant \<Rightarrow> jam_state" where
  "observe_no_content jam now =
     (let jam1 = fst (reconcile_queue_after_no_content jam now) in
      fst (mark_observed_queue_stopped
        (jam1\<lparr>jam_spotify_is_playing := False, jam_audio_expected_since := None,
              jam_now_playing := None\<rparr>)))"

definition observe_moved_away :: "jam_state \<Rightarrow> jam_state" where
  "observe_moved_away jam =
     jam\<lparr>jam_spotify_is_playing := False, jam_audio_expected_since := None, jam_now_playing := None,
         jam_last_error := Some (''Spotify playback moved away from configured device '' @ [CHR 0x27]
           @ or_default ''unknown'' (jam_spotify_device_name jam) @ [CHR 0x27])\<rparr>"

definition with_queue :: "(jam_queue \<Rightarrow> jam_queue \<times> bool) \<Rightarrow> jam_state \<Rightarrow> jam_state" where
  "with_queue f jam =
     (let (q, changed) = f (jam_queue jam); jam1 = jam\<lparr>jam_queue := q\<rparr>
      in if changed then bump_queue_revision jam1 else jam1)"

text \<open>The steps an ordinary observation takes on the queue, in the code's order.\<close>

definition advance_repeated :: "string \<Rightarrow> jam_state \<Rightarrow> jam_state" where
  "advance_repeated current_uri = with_queue (\<lambda>q.
     let (q', removed) = advance_repeated_committed_occurrence q current_uri in (q', removed \<noteq> None))"

definition observe_transition :: "string \<Rightarrow> bool \<Rightarrow> jam_state \<Rightarrow> jam_state" where
  "observe_transition current_uri repeated = with_queue (\<lambda>q.
     observe_queue_current_transition q current_uri repeated)"

definition retire_played :: "string \<Rightarrow> jam_state \<Rightarrow> jam_state" where
  "retire_played current_uri = with_queue (\<lambda>q.
     let (q', removed) = reconcile_queue_to_current q current_uri in (q', removed \<noteq> []))"

definition retire_finished :: "string \<Rightarrow> jam_state \<Rightarrow> jam_state" where
  "retire_finished current_uri = with_queue (\<lambda>q.
     let (q', removed) = retire_finished_queue_frontier q current_uri in (q', removed \<noteq> None))"

definition note_playing :: "now_playing_info \<Rightarrow> bool \<Rightarrow> instant \<Rightarrow> jam_state \<Rightarrow> jam_state" where
  "note_playing np pending now jam =
     (let jam1 = jam\<lparr>jam_spotify_is_playing := np_is_playing np\<rparr> in
      if np_is_playing np then
        let jam2 = jam1\<lparr>jam_audio_expected_since :=
              (case jam_audio_expected_since jam1 of None \<Rightarrow> Some now | Some t \<Rightarrow> Some t)\<rparr>
        in if pending then jam2 else jam2\<lparr>jam_last_error := None\<rparr>
      else jam1\<lparr>jam_audio_expected_since := None\<rparr>)"

definition observe_playback ::
  "jam_state \<Rightarrow> string \<Rightarrow> now_playing_info \<Rightarrow> string \<Rightarrow> spotify_queue_observation option \<Rightarrow> instant
   \<Rightarrow> jam_state \<times> history_observation option" where
  "observe_playback jam current_uri np repeat_state queue_observation now =
     (let repeated = repeated_occurrence_advance_confirmed (jam_now_playing jam) np repeat_state
            queue_observation;
          (jam1, uncertain) = reconcile_uncertain_skip_boundary jam (Some current_uri) queue_observation;
          pending = (uncertain = Some StillPending);
          observed = uncertain_skip_blocks_ordinary_queue_update uncertain;
          jam2 = (if observed \<and> \<not> pending then jam1\<lparr>jam_last_error := None\<rparr> else jam1);
          jam3 = note_playing np pending now jam2;
          jam4 = (if repeated \<and> \<not> observed then advance_repeated current_uri jam3 else jam3);
          jam5 = (if \<not> observed then observe_transition current_uri repeated jam4 else jam4);
          jam6 = (if observed then jam5 else retire_played current_uri jam5);
          at_end = (\<not> observed \<and> stopped_playback_reached_track_end np
            \<and> (case jam_now_playing jam6 of None \<Rightarrow> False
               | Some previous \<Rightarrow> prior_playback_corroborates_track_end previous current_uri now));
          jam7 = (if at_end then retire_finished current_uri jam6 else jam6);
          jam8 = (if at_end then fst (mark_observed_queue_stopped jam7) else jam7);
          queued_track = (if pending then None
            else committed_queue_track_matching_current (jam_queue jam8) current_uri);
          history = (if pending then None
            else new_history_observation (jam_last_history_spotify_id jam8)
              (jam_last_history_was_echo jam8)
              (if np_spotify_id np = [] then None else Some (np_spotify_id np))
              queued_track (np_is_playing np) (repeated \<and> \<not> observed))
      in (jam8\<lparr>jam_now_playing := Some np\<rparr>, history))"

definition should_observe_next_queue ::
  "jam_state \<Rightarrow> u64 \<Rightarrow> string \<Rightarrow> now_playing_info \<Rightarrow> string \<Rightarrow> string \<Rightarrow> bool" where
  "should_observe_next_queue jam generation device_id np repeat_state current_uri \<longleftrightarrow>
     playback_fetch_matches jam generation device_id
     \<and> ((repeat_state \<in> {''off'', ''context''}
           \<and> same_track_occurrence_restarted (jam_now_playing jam) np)
       \<or> (case jam_uncertain_skip jam of None \<Rightarrow> False
          | Some boundary \<Rightarrow> queue_observation_required boundary current_uri))"

section \<open>The refresh\<close>

record refresh_env =
  rf_lock :: "unit await"
  rf_due_now :: instant
  rf_player :: "(api_error + http_response) await"
  rf_no_content_now :: instant
  rf_body :: "unit await"
  rf_fetched_at :: instant
  rf_queue :: "(api_error + http_response) await"
  rf_status_text :: "status \<Rightarrow> string"
  rf_now :: instant
  rf_append :: "queued_track \<Rightarrow> bool await"

text \<open>
  \<open>rf_append\<close> appends to the history in a task of its own and answers whether the row was written;
  the task then records the run, in the Jam it was observed in.
\<close>

definition record_run :: "u64 \<Rightarrow> history_observation \<Rightarrow> jam_state \<Rightarrow> jam_state" where
  "record_run generation observation jam =
     (if active_generation_matches jam generation
      then jam\<lparr>jam_last_history_spotify_id := Some (ho_spotify_id observation),
               jam_last_history_was_echo := ho_echo_run observation\<rparr>
      else jam)"

definition persist_jam_history_observation ::
  "(queued_track \<Rightarrow> bool await) \<Rightarrow> u64 \<Rightarrow> history_observation \<Rightarrow> world \<Rightarrow> world" where
  "persist_jam_history_observation append_row generation observation w =
     (case ho_queued_track observation of
        Some track \<Rightarrow>
          (case append_row track w of
             (True, w1) \<Rightarrow> with_jam w1 (record_run generation observation)
           | (False, w1) \<Rightarrow> w1)
      | None \<Rightarrow> with_jam w (record_run generation observation))"

definition spotify_queue_observation_of ::
  "(status \<Rightarrow> string) \<Rightarrow> api_error + http_response \<Rightarrow> spotify_queue_observation option" where
  "spotify_queue_observation_of show_status answer =
     (case spotify_queue_observation_strict show_status answer of Inl _ \<Rightarrow> None | Inr obs \<Rightarrow> Some obs)"

definition apply_player_answer ::
  "refresh_env \<Rightarrow> u64 \<Rightarrow> string \<Rightarrow> json \<Rightarrow> world \<Rightarrow> history_observation option \<times> world" where
  "apply_player_answer env generation device_id data w =
     (let current_uri = or_default [] (as_str (json_index (json_index data ''item'') ''uri''));
          np = now_playing_from data (rf_fetched_at env);
          repeat_state = or_default [] (as_str (json_index data ''repeat_state''));
          (queue_observation, w1) =
            (if should_observe_next_queue (w_jam w) generation device_id np repeat_state current_uri
             then (case rf_queue env w of (answer, w1) \<Rightarrow>
                     (spotify_queue_observation_of (rf_status_text env) answer, w1))
             else (None, w))
      in if \<not> playback_fetch_matches (w_jam w1) generation device_id then (None, w1)
         else if as_str (json_index (json_index data ''device'') ''id'') \<noteq> Some device_id
         then (None, with_jam w1 observe_moved_away)
         else (case observe_playback (w_jam w1) current_uri np repeat_state queue_observation
                      (rf_now env) of
                 (jam, history) \<Rightarrow> (history, w1\<lparr>w_jam := jam\<rparr>)))"

definition refresh_playback :: "refresh_env \<Rightarrow> world \<Rightarrow> world" where
  "refresh_playback env w =
     (case playback_fetch (w_jam w) (rf_due_now env) of
        None \<Rightarrow> w
      | Some (generation, device_id) \<Rightarrow>
         (case rf_player env w of
            (Inl _, w1) \<Rightarrow> w1
          | (Inr resp, w1) \<Rightarrow>
              if http_status resp = 204 then
                if playback_fetch_matches (w_jam w1) generation device_id
                then with_jam w1 (\<lambda>jam. observe_no_content jam (rf_no_content_now env)) else w1
              else if is_success (http_status resp) then
                (let w2 = snd (rf_body env w1) in
                 case http_json resp of None \<Rightarrow> w2
                 | Some data \<Rightarrow>
                    (case apply_player_answer env generation device_id data w2 of
                       (None, w3) \<Rightarrow> w3
                     | (Some observation, w3) \<Rightarrow>
                         persist_jam_history_observation (rf_append env) generation observation w3))
              else w1))"

section \<open>The answer\<close>

record jam_state_response =
  js_active :: bool
  js_starting :: bool
  js_generation :: u64
  js_host_identity :: string
  js_queue :: jam_queue
  js_queue_revision :: u64
  js_history_revision :: u64
  js_now_playing :: "now_playing_info option"
  js_listeners :: "string list"
  js_listener_count :: nat
  js_spotify_connected :: bool
  js_spotify_library_authorized :: bool
  js_spotify_device_id :: "string option"
  js_spotify_device_name :: "string option"
  js_spotify_is_playing :: bool
  js_bot_connected :: bool
  js_last_error :: "string option"
  js_skip_reconciliation_pending :: bool
  js_source_status :: string
  js_source_error :: "string option"
  js_source :: jam_source_snapshot

record state_env =
  st_refresh :: refresh_env
  st_pump_lock :: "unit await"
  st_pump :: "pump_env list"
  st_history_revision :: u64
  st_now :: instant
  st_bot_lock :: "unit await"
  st_snap :: "jam_source_snapshot await"
  st_restart :: "u64 \<Rightarrow> bool await"

definition build_response ::
  "jam_state \<Rightarrow> u64 \<Rightarrow> u64 option \<Rightarrow> bool \<Rightarrow> jam_source_snapshot \<Rightarrow> jam_state_response" where
  "build_response jam history_revision audio_expected_ms bot_healthy source =
     (let (source_status, source_error) = public_source_health (jam_active jam)
            (jam_spotify_is_playing jam) audio_expected_ms (snap_ready source) (snap_status source)
            (snap_error source)
      in \<lparr>js_active = jam_active jam, js_starting = jam_starting jam,
          js_generation = jam_generation jam, js_host_identity = jam_host_identity jam,
          js_queue = jam_queue jam, js_queue_revision = jam_queue_revision jam,
          js_history_revision = history_revision, js_now_playing = jam_now_playing jam,
          js_listeners = map fst (jam_listeners jam), js_listener_count = length (jam_listeners jam),
          js_spotify_connected = (jam_spotify_token jam \<noteq> None),
          js_spotify_library_authorized = spotify_library_scopes_authorized (jam_spotify_token jam),
          js_spotify_device_id = jam_spotify_device_id jam,
          js_spotify_device_name = jam_spotify_device_name jam,
          js_spotify_is_playing = jam_spotify_is_playing jam,
          js_bot_connected = (bot_healthy \<and> snap_ready source
            \<and> snap_generation source = Some (jam_generation jam)),
          js_last_error = jam_last_error jam,
          js_skip_reconciliation_pending = (jam_uncertain_skip jam \<noteq> None),
          js_source_status = source_status, js_source_error = source_error, js_source = source\<rparr>)"

text \<open>None while the pump is still running after the turns given.\<close>

definition jam_state_handler ::
  "state_env \<Rightarrow> status option \<Rightarrow> world \<Rightarrow> (status + jam_state_response) option \<times> world" where
  "jam_state_handler env admin_refused w =
     (case admin_refused of Some s \<Rightarrow> (Some (Inl s), w)
      | None \<Rightarrow>
          let w1 = refresh_playback (st_refresh env) (snd (rf_lock (st_refresh env) w));
              (ended, w2) = (if jam_active (w_jam w1)
                then pump_queue_frontier (st_pump_lock env) (st_pump env) (jam_generation (w_jam w1)) w1
                else (True, w1))
          in if \<not> ended then (None, w2)
             else
               let jam = w_jam w2;
                   audio_expected_ms = map_option (elapsed_ms (st_now env)) (jam_audio_expected_since jam);
                   w3 = snd (st_bot_lock env w2);
                   (source, w4) = st_snap env w3;
                   response = build_response jam (st_history_revision env) audio_expected_ms
                     (bot_ready_for w3 (jam_generation jam)) source;
                   w5 = (if should_restart_stalled_capture (jam_active jam)
                              (jam_spotify_is_playing jam) audio_expected_ms (snap_status source)
                         then snd (st_restart env (jam_generation jam) w4) else w4)
               in (Some (Inr response), w5))"

section \<open>Searching\<close>

record search_track =
  sr_spotify_uri :: string
  sr_name :: string
  sr_artist :: string
  sr_album_art_url :: string
  sr_duration_ms :: u64

definition search_track_from :: "json \<Rightarrow> search_track" where
  "search_track_from item =
     \<lparr>sr_spotify_uri = or_default [] (as_str (json_index item ''uri'')),
      sr_name = or_default [] (as_str (json_index item ''name'')),
      sr_artist = first_member (json_index item ''artists'') ''name'',
      sr_album_art_url = first_member (json_index (json_index item ''album'') ''images'') ''url'',
      sr_duration_ms = or_default 0 (as_u64 (json_index item ''duration_ms''))\<rparr>"

definition jam_search ::
  "status option \<Rightarrow> api_error + http_response \<Rightarrow> status + search_track list" where
  "jam_search admin_refused answer =
     (case admin_refused of Some s \<Rightarrow> Inl s
      | None \<Rightarrow>
     (case answer of Inl _ \<Rightarrow> Inl BAD_GATEWAY
      | Inr resp \<Rightarrow>
          if \<not> is_success (http_status resp) then Inl BAD_GATEWAY
          else case http_json resp of None \<Rightarrow> Inl BAD_GATEWAY
          | Some data \<Rightarrow>
              Inr (map search_track_from
                (or_default [] (as_array (json_index (json_index data ''tracks'') ''items''))))))"

section \<open>Observations as advances\<close>

text \<open>
  \<open>observed n j j'\<close>: \<open>j'\<close> is reached from \<open>j\<close> by observations that moved the revision at most \<open>n\<close>
  times, and at least once where the queue changed.
\<close>

definition observed :: "nat \<Rightarrow> jam_state \<Rightarrow> jam_state \<Rightarrow> bool" where
  "observed n j j' \<longleftrightarrow> advances (jam_queue j) (jam_queue j') \<and> same_jam j j'
     \<and> (\<exists>k \<le> n. jam_queue_revision j' = jam_queue_revision j + of_nat k
          \<and> (k = 0 \<longrightarrow> jam_queue j' = jam_queue j))"

lemma observed_refl: "observed 0 j j"
  by (simp add: observed_def)

lemma observed_trans:
  assumes "observed n a b" and "observed m b c"
  shows "observed (n + m) a c"
proof -
  from assms obtain k l where
    "k \<le> n" "jam_queue_revision b = jam_queue_revision a + of_nat k" "k = 0 \<longrightarrow> jam_queue b = jam_queue a"
    "l \<le> m" "jam_queue_revision c = jam_queue_revision b + of_nat l" "l = 0 \<longrightarrow> jam_queue c = jam_queue b"
    unfolding observed_def by blast
  then have "k + l \<le> n + m" "jam_queue_revision c = jam_queue_revision a + of_nat (k + l)"
    "k + l = 0 \<longrightarrow> jam_queue c = jam_queue a" by (auto simp: add.assoc)
  moreover have "advances (jam_queue a) (jam_queue c)" "same_jam a c"
    using assms advances_trans same_jam_trans unfolding observed_def by blast+
  ultimately show ?thesis unfolding observed_def by blast
qed

lemma observed_mono: "observed n a b \<Longrightarrow> n \<le> m \<Longrightarrow> observed m a b"
  unfolding observed_def by (blast intro: order_trans)

lemma observed_step:
  assumes "advances (jam_queue j) (jam_queue j')" and "same_jam j j'"
    and "jam_queue_revision j' = jam_queue_revision j + 1
      \<or> (jam_queue_revision j' = jam_queue_revision j \<and> jam_queue j' = jam_queue j)"
  shows "observed 1 j j'"
proof -
  have "\<exists>k \<le> 1. jam_queue_revision j' = jam_queue_revision j + of_nat k
      \<and> (k = 0 \<longrightarrow> jam_queue j' = jam_queue j)"
  proof (cases "jam_queue_revision j' = jam_queue_revision j + 1")
    case True
    then show ?thesis by (intro exI [of _ 1]) simp
  next
    case False
    then show ?thesis using assms(3) by (intro exI [of _ 0]) simp
  qed
  with assms(1,2) show ?thesis by (simp add: observed_def)
qed

text \<open>Changes that leave the queue, its revision and the Jam alone.\<close>

lemma observed_other:
  "jam_queue j' = jam_queue j \<Longrightarrow> jam_queue_revision j' = jam_queue_revision j \<Longrightarrow> same_jam j j' \<Longrightarrow>
     observed 0 j j'"
  by (simp add: observed_def)

lemma with_queue_observed:
  assumes "advances (jam_queue j) (fst (f (jam_queue j)))"
    and "\<not> snd (f (jam_queue j)) \<Longrightarrow> fst (f (jam_queue j)) = jam_queue j"
  shows "observed 1 j (with_queue f j)"
  using assms by (intro observed_step) (auto simp: with_queue_def Let_def split: prod.splits)

lemma transition_flag:
  assumes "\<not> snd (observe_queue_current_transition q uri rep)"
  shows "fst (observe_queue_current_transition q uri rep) = q"
proof -
  let ?moved = "\<lambda>e. awaiting_committed e \<and> entry_uri e \<noteq> uri"
  have "\<not> list_ex ?moved q"
    using assms by (auto simp: observe_queue_current_transition_def Let_def split: if_splits)
  then have same: "map (\<lambda>e. if ?moved e then unlock e else e) q = q"
    by (intro map_idI) (auto simp: list_ex_iff)
  show ?thesis
    using assms unfolding observe_queue_current_transition_def Let_def same
    by (auto simp: list_ex_iff intro: update_first_none split: option.splits if_splits)
qed

lemma refresh_steps:
  assumes "jam_queue_ok j"
  shows "observed 1 j (advance_repeated uri j)" "observed 1 j (observe_transition uri rep j)"
    "observed 1 j (retire_played uri j)" "observed 1 j (retire_finished uri j)"
proof -
  have ok: "queue_ok (jam_queue j)" using assms by (simp add: jam_queue_ok_def)
  show "observed 1 j (advance_repeated uri j)"
    unfolding advance_repeated_def
    by (rule with_queue_observed)
      (use repeated_advance.step_advances [OF ok, of uri] take_eligible_flag in
        \<open>auto simp: advance_repeated_committed_occurrence_def split: prod.splits\<close>)
  show "observed 1 j (observe_transition uri rep j)"
    unfolding observe_transition_def
    by (rule with_queue_observed) (use observe_advances transition_flag in auto)
  show "observed 1 j (retire_played uri j)"
    unfolding retire_played_def
  proof (rule with_queue_observed)
    show "advances (jam_queue j) (fst (let (q', removed) = reconcile_queue_to_current (jam_queue j) uri
        in (q', removed \<noteq> [])))"
      using reconcile_advances [OF ok, of uri] by (simp add: case_prod_beta)
    assume "\<not> snd (let (q', removed) = reconcile_queue_to_current (jam_queue j) uri in (q', removed \<noteq> []))"
    then show "fst (let (q', removed) = reconcile_queue_to_current (jam_queue j) uri
        in (q', removed \<noteq> [])) = jam_queue j"
      by (auto simp: reconcile_queue_to_current_def takeWhile_eq_Nil_iff dropWhile_eq_self_iff
          split: option.splits if_splits)
  qed
  show "observed 1 j (retire_finished uri j)"
    unfolding retire_finished_def
    by (rule with_queue_observed)
      (use retire_finished.step_advances [OF ok, of uri] in
        \<open>auto simp: retire_finished_queue_frontier_def case_prod_beta
           intro: take_eligible_flag [OF prod_eqI] split: if_splits\<close>)
qed

lemma observed_queue_ok: "observed n j j' \<Longrightarrow> jam_queue_ok j \<Longrightarrow> jam_queue_ok j'"
  by (auto simp: observed_def jam_queue_ok_def dest: advances_queue_ok)

lemma mark_stopped_observed: "observed 0 j (fst (mark_observed_queue_stopped j))"
  by (rule observed_other) (auto simp: mark_observed_queue_stopped_def same_jam_def)

end
