(* ===== verification/RefreshProperties.thy ===== *)
theory RefreshProperties
  imports QueueProperties JamRefresh
begin

text \<open>
  What a refresh promises: an observation of the player only advances the queue, a late answer
  changes nothing, the queue's invariant holds throughout, a track's run is recorded once, and a placement
  Spotify left open is never repeated.
\<close>

section \<open>One observation\<close>

lemma note_playing_observed: "observed 0 j (note_playing np pending now j)"
  by (rule observed_other) (simp_all add: note_playing_def Let_def same_jam_def)

lemma uncertain_observed:
  assumes "jam_queue_ok j"
  shows "observed 1 j (fst (reconcile_uncertain_skip_boundary j u obs))"
  by (rule observed_step [OF uncertain_advances [OF assms] uncertain_same_jam uncertain_revision])

lemma observed_then:
  assumes "observed n j a" and "jam_queue_ok j" and "jam_queue_ok a \<Longrightarrow> observed m a b"
  shows "observed (n + m) j b"
  using observed_trans [OF assms(1) assms(3)] observed_queue_ok [OF assms(1,2)] by blast

lemmas step_then = observed_then [OF _ _ refresh_steps(1)] observed_then [OF _ _ refresh_steps(2)]
  observed_then [OF _ _ refresh_steps(3)] observed_then [OF _ _ refresh_steps(4)]

lemma observe_playback_observed:
  assumes ok: "jam_queue_ok j" and run: "observe_playback j uri np repeat_state obs now = (j', h)"
  shows "observed 4 j j'"
proof -
  obtain j1 r where r: "reconcile_uncertain_skip_boundary j (Some uri) obs = (j1, r)" by fastforce
  have last: "observed n j a \<Longrightarrow> observed n j (a\<lparr>jam_now_playing := Some np\<rparr>)" for n a
    using observed_trans [OF _ observed_other, of n j a "a\<lparr>jam_now_playing := Some np\<rparr>"]
    by (simp add: same_jam_def)
  show ?thesis
  proof (cases "r = None")
    case False
    let ?j2 = "if uncertain_skip_blocks_ordinary_queue_update r \<and> r \<noteq> Some StillPending
      then j1\<lparr>jam_last_error := None\<rparr> else j1"
    have "observed 1 j j1" using uncertain_observed [OF ok, of "Some uri" obs] r by simp
    then have "observed 1 j ?j2"
      using observed_trans [OF _ observed_other, of 1 j j1 ?j2] by (auto simp: same_jam_def)
    then have "observed 1 j (note_playing np (r = Some StillPending) now ?j2)"
      using observed_trans [OF _ note_playing_observed, of 1 j ?j2] by simp
    from last [OF this] run r False show ?thesis
      by (auto simp: observe_playback_def Let_def uncertain_skip_blocks_ordinary_queue_update_def
          intro: observed_mono)
  next
    case True
    then have j1: "j1 = j" using uncertain_None r by blast
    let ?rep = "repeated_occurrence_advance_confirmed (jam_now_playing j) np repeat_state obs"
    let ?j3 = "note_playing np False now j"
    let ?j4 = "if ?rep then advance_repeated uri ?j3 else ?j3"
    let ?j6 = "retire_played uri (observe_transition uri ?rep ?j4)"
    have "observed 0 j ?j3" by (rule note_playing_observed)
    then have "observed 1 j ?j4"
      using step_then(1) [OF _ ok, of 0 ?j3 uri] by (auto intro: observed_mono)
    from step_then(3) [OF step_then(2) [OF this ok] ok]
    have three: "observed 3 j ?j6" by (simp add: numeral_3_eq_3)
    have "observed 4 j (fst (mark_observed_queue_stopped (retire_finished uri ?j6)))"
      using observed_trans [OF step_then(4) [OF three ok] mark_stopped_observed] by simp
    with three have "observed 4 j (if b then fst (mark_observed_queue_stopped (retire_finished uri ?j6))
        else ?j6)" for b
      by (auto intro: observed_mono)
    moreover have "fst (observe_playback j uri np repeat_state obs now)
        = (if stopped_playback_reached_track_end np
             \<and> (case jam_now_playing ?j6 of None \<Rightarrow> False
                | Some previous \<Rightarrow> prior_playback_corroborates_track_end previous uri now)
           then fst (mark_observed_queue_stopped (retire_finished uri ?j6)) else ?j6)
          \<lparr>jam_now_playing := Some np\<rparr>"
      using r True j1
      by (auto simp: observe_playback_def Let_def uncertain_skip_blocks_ordinary_queue_update_def)
    ultimately show ?thesis using last run by (metis fst_conv)
  qed
qed

lemma observe_no_content_observed:
  assumes ok: "jam_queue_ok j"
  shows "observed 1 j (observe_no_content j now)"
proof -
  let ?j1 = "fst (reconcile_queue_after_no_content j now)"
  have "observed 1 j ?j1"
    by (rule observed_step [OF no_content.step_advances [OF ok] no_content.step_same_jam
        no_content.step_revision])
  then have "observed 1 j (?j1\<lparr>jam_spotify_is_playing := False, jam_audio_expected_since := None,
      jam_now_playing := None\<rparr>)"
    using observed_trans [OF _ observed_other, of 1 j ?j1] by (simp add: same_jam_def)
  from observed_trans [OF this mark_stopped_observed]
  show ?thesis by (simp add: observe_no_content_def Let_def)
qed

lemma observe_moved_away_observed: "observed 0 j (observe_moved_away j)"
  by (rule observed_other) (simp_all add: observe_moved_away_def same_jam_def)

text \<open>
  C9: whatever the player is seen to do (playing, finished, stopped, gone, moved to another device),
  an observation only retires accepted entries from the front and lets go of the ones still waiting
  for their turn: entries Spotify has not accepted stay in order, the Jam, its host, listeners and
  device stay, and the revision moves, by at most four, whenever the queue changes.
\<close>

theorem observation_only_advances:
  assumes "jam_queue_ok jam"
    and "jam' = fst (observe_playback jam uri np repeat_state obs now)
      \<or> jam' = observe_no_content jam now \<or> jam' = observe_moved_away jam"
  shows "jam_queue_ok jam' \<and> same_jam jam jam'
    \<and> filter (\<lambda>e. qe_delivery_state e \<noteq> SpotifyCommitted) (jam_queue jam')
        = filter (\<lambda>e. qe_delivery_state e \<noteq> SpotifyCommitted) (jam_queue jam)
    \<and> (\<exists>k. map qe_track (jam_queue jam') = drop k (map qe_track (jam_queue jam)))
    \<and> (jam_queue jam' \<noteq> jam_queue jam \<longrightarrow> jam_queue_revision jam' \<noteq> jam_queue_revision jam)
    \<and> (\<exists>k \<le> 4. jam_queue_revision jam' = jam_queue_revision jam + of_nat k)"
proof -
  have "observed 4 jam jam'"
    using assms(2) observe_playback_observed [OF assms(1), of uri np repeat_state obs now]
      observed_mono [OF observe_no_content_observed [OF assms(1)], of 4]
      observed_mono [OF observe_moved_away_observed, of 4]
    by (metis prod.collapse one_le_numeral zero_le)
  then obtain k where adv: "advances (jam_queue jam) (jam_queue jam')" and same: "same_jam jam jam'"
    and k: "k \<le> 4" "jam_queue_revision jam' = jam_queue_revision jam + of_nat k"
      "k = 0 \<longrightarrow> jam_queue jam' = jam_queue jam"
    by (auto simp: observed_def)
  have "of_nat k \<noteq> (0 :: u64)" if "k \<noteq> 0"
  proof -
    have "k \<in> {1, 2, 3, 4}" using k(1) that by auto
    then show ?thesis by auto
  qed
  then show ?thesis
    using k same advances_keeps_uncommitted [OF adv] advances_tracks_suffix [OF adv]
      advances_queue_ok [OF adv] assms(1)
    by (auto simp: jam_queue_ok_def)
qed

definition demo_seen :: "string \<Rightarrow> now_playing_info" where
  "demo_seen uri = \<lparr>np_spotify_id = uri, np_spotify_uri = uri, np_spotify_url = [], np_name = [],
     np_artist = [], np_album_art_url = [], np_duration_ms = 180000, np_progress_ms = 5000,
     np_is_playing = True, np_fetched_at = Some 7\<rparr>"

theorem observation_only_advances_witness:
  "let jam' = fst (observe_playback (demo_jam demo_queue) ''b'' (demo_seen ''b'') ''off'' None 9) in
     jam_queue_ok jam' \<and> (\<exists>k. map qe_track (jam_queue jam') = drop k (map qe_track demo_queue))"
proof -
  have "jam_queue (demo_jam demo_queue) = demo_queue" by (simp add: demo_jam_def)
  with observation_only_advances [OF demo_jam_ok disjI1 [OF refl], of "''b''" "demo_seen ''b''"
      "''off''" None 9]
  show ?thesis by (auto simp: Let_def)
qed

section \<open>Placements Spotify left open\<close>

text \<open>
  Everything the Jam takes from the player: an observation while something plays, one while nothing
  does or the account is elsewhere, and what settles an uncertain skip or a placement.
\<close>

datatype player_observation =
    Playing string now_playing_info string "spotify_queue_observation option" instant
  | NotPlaying instant
  | MovedAway
  | AtBoundary boundary_observation

fun observe_player :: "player_observation \<Rightarrow> jam_state \<Rightarrow> jam_state" where
  "observe_player (Playing uri np repeat_state obs now) jam = fst (observe_playback jam uri np repeat_state obs now)"
| "observe_player (NotPlaying now) jam = observe_no_content jam now"
| "observe_player MovedAway jam = observe_moved_away jam"
| "observe_player (AtBoundary x) jam = observe_boundary x jam"

lemma observe_player_advances:
  assumes "jam_queue_ok j"
  shows "advances (jam_queue j) (jam_queue (observe_player x j)) \<and> same_jam j (observe_player x j)"
proof (cases x)
  case (Playing uri np rep obs now)
  obtain j' h where "observe_playback j uri np rep obs now = (j', h)" by fastforce
  from observe_playback_observed [OF assms this] this show ?thesis by (simp add: Playing observed_def)
next
  case (NotPlaying now)
  then show ?thesis using observe_no_content_observed [OF assms] by (simp add: observed_def)
next
  case MovedAway
  then show ?thesis using observe_moved_away_observed by (simp add: observed_def)
next
  case (AtBoundary y)
  then show ?thesis using boundary.step_advances [OF assms] boundary.step_same_jam by simp
qed

lemma observations_advance:
  "jam_queue_ok j \<Longrightarrow> jam_queue_ok (fold observe_player xs j)
     \<and> advances (jam_queue j) (jam_queue (fold observe_player xs j)) \<and> same_jam j (fold observe_player xs j)"
proof (induction xs arbitrary: j)
  case Nil
  then show ?case by (simp add: advances_refl same_jam_def)
next
  case (Cons x xs)
  note one = observe_player_advances [OF Cons.prems, of x]
  have ok: "jam_queue_ok (observe_player x j)"
    using one Cons.prems advances_queue_ok by (auto simp: jam_queue_ok_def)
  show ?case using Cons.IH [OF ok] one by (auto intro: advances_trans simp: same_jam_def)
qed

lemma ambiguous_failure_marked:
  assumes "jam_queue_ok jam" and "active_generation_matches jam g"
    and "jam_queue jam = pre @ e # post" and "qe_delivery_state e = Pending"
    and "\<forall>x \<in> set pre. qe_delivery_state x = SpotifyCommitted" and "length pre < 2"
    and "ce_acceptance_ambiguous error"
  shows "jam_queue_ok (mark_commit_failure g (entry_id e) error jam)
    \<and> unknown_entry (jam_queue (mark_commit_failure g (entry_id e) error jam)) (entry_id e)"
proof -
  let ?f = "\<lambda>e. e\<lparr>qe_delivery_state := CommitUnknown, qe_can_remove := False,
    qe_current_match_state := (case ce_intended_placement error of
       Some placement \<Rightarrow> placement_match_state placement | None \<Rightarrow> qe_current_match_state e)\<rparr>"
  have "distinct (map entry_id (jam_queue jam))" using assms(1) by (simp add: jam_queue_ok_def queue_ok_def)
  then have fresh: "\<forall>x \<in> set pre. entry_id x \<noteq> entry_id e" by (auto simp: assms(3) image_iff)
  then have find: "List.find (\<lambda>x. entry_id x = entry_id e) (jam_queue jam) = Some e"
    unfolding assms(3) by (induction pre) auto
  have "update_first (\<lambda>x. entry_id x = entry_id e) ?f (jam_queue jam) = pre @ ?f e # post"
    unfolding assms(3) by (rule update_first_split [OF fresh]) simp
  then have marked: "jam_queue (mark_commit_failure g (entry_id e) error jam) = pre @ ?f e # post"
    using assms(2,4,7) find by (simp add: mark_commit_failure_def Let_def)
  have "\<forall>x \<in> set post. qe_delivery_state x = Pending"
    using assms(1,3,4) sorted_after_pending [of pre e post] by (auto simp: jam_queue_ok_def)
  then have "slot (jam_queue jam) (entry_id e)" using assms(3-6) unfolding slot_def by blast
  then show ?thesis using marked mark_failure_queue_ok [OF assms(1)] by (auto simp: unknown_entry_def)
qed

text \<open>
  C8: an ambiguous placement is never repeated. When a commit fails without saying whether Spotify
  took the track, its entry is marked as unknown and can no longer be removed. Whatever the player is
  then observed to do, the mark stays, and no pump of the Jam places a track: neither this one again
  nor another behind it. One asked to resume a stopped queue may resume the player, and every other
  returns at once.
\<close>

theorem ambiguous_commit_blocks_pump:
  assumes "jam_queue_ok jam" and "active_generation_matches jam g"
    and "jam_queue jam = pre @ e # post" and "qe_delivery_state e = Pending"
    and "\<forall>x \<in> set pre. qe_delivery_state x = SpotifyCommitted" and "length pre < 2"
    and "ce_acceptance_ambiguous error"
    and "w_jam w = fold observe_player observations (mark_commit_failure g (entry_id e) error jam)"
    and "list_all (\<lambda>env. waits_quietly g (pe_resume_env env)) envs"
    and "pump_queue_frontier_locked envs g epoch allow w = (returned, w')"
  shows "unknown_entry (jam_queue (w_jam w)) (entry_id e)
    \<and> placements w' = placements w
    \<and> (active_generation_matches (w_jam w') g \<longrightarrow> unknown_entry (jam_queue (w_jam w')) (entry_id e))
    \<and> (envs \<noteq> [] \<and> \<not> (allow \<and> jam_queue_control_stopped (w_jam w)) \<longrightarrow> returned \<and> w' = w)"
proof -
  note marked = ambiguous_failure_marked [OF assms(1-7)]
  from observations_advance [OF conjunct1 [OF marked], of observations] marked
  have ok: "jam_queue_ok (w_jam w)" and unknown: "unknown_entry (jam_queue (w_jam w)) (entry_id e)"
    unfolding assms(8) using unknown_entry_kept by blast+
  have "rely g w w' \<and> placements w' = placements w"
    by (rule unknown_pump_places_nothing [OF assms(9) ok disjI1 [OF unknown]])
      (use assms(10) in \<open>simp add: pump_queue_frontier_locked_def\<close>)
  moreover from this have "active_generation_matches (w_jam w') g \<longrightarrow> unknown_entry (jam_queue (w_jam w')) (entry_id e)"
    using ok unknown unknown_entry_kept unfolding rely_def by blast
  moreover have "returned \<and> w' = w" if "envs \<noteq> []" "\<not> (allow \<and> jam_queue_control_stopped (w_jam w))"
  proof -
    have "pump_turn env g allow None epoch w = (None, w)" for env
      using that(2) unknown_blocks_candidate [OF unknown]
      by (auto simp: pump_turn_def stopped_frontier_should_resume_def Let_def)
    then show ?thesis using assms(10) that(1) by (cases envs) (auto simp: pump_queue_frontier_locked_def)
  qed
  ultimately show ?thesis using unknown by blast
qed

definition demo_seen_player :: "player_observation list" where
  "demo_seen_player = [Playing ''a'' (demo_seen ''a'') ''off'' None 3, NotPlaying 5, AtBoundary (SkipObserved (Some ''a'') None)]"

definition demo_unknown_error :: queue_commit_error where
  "demo_unknown_error = ambiguous_commit_error (BAD_GATEWAY, ''timeout'') QueuedNext"

definition demo_unknown_world :: world where
  "demo_unknown_world = (demo_world demo_queue)\<lparr>w_jam := fold observe_player demo_seen_player
     (mark_commit_failure 1 ''e2'' demo_unknown_error (demo_jam demo_queue))\<rparr>"

theorem ambiguous_commit_blocks_pump_witness:
  "unknown_entry (jam_queue (w_jam demo_unknown_world)) ''e2''
   \<and> placements (snd (pump_queue_frontier_locked [demo_pump_env, demo_pump_env] 1 0 True demo_unknown_world)) = []"
proof -
  have "active_generation_matches (demo_jam demo_queue) 1"
    "jam_queue (demo_jam demo_queue)
       = [demo_committed ''e1'' ''a''] @ demo_pending ''e2'' ''b'' # [demo_pending ''e3'' ''c'']"
    "qe_delivery_state (demo_pending ''e2'' ''b'') = Pending"
    "\<forall>x \<in> set [demo_committed ''e1'' ''a'']. qe_delivery_state x = SpotifyCommitted"
    "length [demo_committed ''e1'' ''a''] < 2" "ce_acceptance_ambiguous demo_unknown_error"
    "w_jam demo_unknown_world = fold observe_player demo_seen_player
       (mark_commit_failure 1 (entry_id (demo_pending ''e2'' ''b'')) demo_unknown_error
         (demo_jam demo_queue))"
    "list_all (\<lambda>env. waits_quietly 1 (pe_resume_env env)) [demo_pump_env, demo_pump_env]"
    by (simp_all add: active_generation_matches_def demo_jam_def demo_queue_def demo_entries demo_envs
        demo_unknown_error_def ambiguous_commit_error_def demo_unknown_world_def waits_quietly_def
        relied_def relied_guard_def places_nothing_def placeless_guard_def)
  from ambiguous_commit_blocks_pump [OF demo_jam_ok this prod.collapse [symmetric], of 0 True]
  have "unknown_entry (jam_queue (w_jam demo_unknown_world)) (entry_id (demo_pending ''e2'' ''b''))
    \<and> placements (snd (pump_queue_frontier_locked [demo_pump_env, demo_pump_env] 1 0 True demo_unknown_world))
        = placements demo_unknown_world" by blast
  then show ?thesis by (simp add: demo_entries demo_unknown_world_def demo_world_def placements_def)
qed

section \<open>The whole refresh\<close>

definition keeps_queue :: "'a await \<Rightarrow> bool" where
  "keeps_queue e \<longleftrightarrow> (\<forall>w. jam_queue_ok (w_jam w) \<longrightarrow> jam_queue_ok (w_jam (snd (e w))))"

lemma keeps_queueD: "keeps_queue e \<Longrightarrow> e w = (a, w') \<Longrightarrow> jam_queue_ok (w_jam w) \<Longrightarrow> jam_queue_ok (w_jam w')"
  by (metis keeps_queue_def snd_conv)

definition keeps_refresh :: "refresh_env \<Rightarrow> bool" where
  "keeps_refresh env \<longleftrightarrow> keeps_queue (rf_lock env) \<and> keeps_queue (rf_player env)
     \<and> keeps_queue (rf_body env) \<and> keeps_queue (rf_queue env) \<and> (\<forall>t. keeps_queue (rf_append env t))"

lemma record_run_queue: "jam_queue_ok (record_run g obs j) = jam_queue_ok j"
  by (simp add: record_run_def jam_queue_ok_def)

lemma apply_player_answer_queue_ok:
  assumes "keeps_refresh env" and "jam_queue_ok (w_jam w)"
    and "apply_player_answer env g d data w = (h, w')"
  shows "jam_queue_ok (w_jam w')"
proof -
  have "jam_queue_ok (w_jam w1)" if "rf_queue env w = (a, w1)" for a w1
    using that assms keeps_queueD by (auto simp: keeps_refresh_def)
  moreover have "jam_queue_ok j'" if "observe_playback j uri np rep obs now = (j', h')" "jam_queue_ok j"
    for j j' uri np rep obs now h'
    using observed_queue_ok [OF observe_playback_observed [OF that(2,1)] that(2)] .
  moreover have "jam_queue_ok (observe_moved_away j)" if "jam_queue_ok j" for j
    using observed_queue_ok [OF observe_moved_away_observed that] .
  ultimately show ?thesis
    using assms(2,3) unfolding apply_player_answer_def Let_def
    by (auto simp: with_jam_def split: prod.splits if_splits)
qed

lemma refresh_queue_ok:
  assumes env: "keeps_refresh env" and ok: "jam_queue_ok (w_jam w)"
  shows "jam_queue_ok (w_jam (refresh_playback env w))"
proof (cases "playback_fetch (w_jam w) (rf_due_now env)")
  case (Some gd)
  obtain g d where gd: "gd = (g, d)" by fastforce
  obtain a w1 where player: "rf_player env w = (a, w1)" by fastforce
  have w1: "jam_queue_ok (w_jam w1)" using env player ok keeps_queueD by (auto simp: keeps_refresh_def)
  have w2: "jam_queue_ok (w_jam (snd (rf_body env w1)))"
    using env w1 by (simp add: keeps_refresh_def keeps_queue_def)
  have quiet: "jam_queue_ok (observe_no_content (w_jam w1) now)" for now
    using observed_queue_ok [OF observe_no_content_observed [OF w1] w1] .
  have recorded: "jam_queue_ok (w_jam (persist_jam_history_observation (rf_append env) g obs w3))"
    if "jam_queue_ok (w_jam w3)" for obs w3
    using env that keeps_queueD [of "rf_append env t" for t]
    by (auto simp: persist_jam_history_observation_def with_jam_def record_run_queue keeps_refresh_def
        split: option.split prod.split bool.split)
  show ?thesis
    using Some gd player w1 w2 quiet recorded apply_player_answer_queue_ok [OF env w2]
    by (auto simp: refresh_playback_def with_jam_def Let_def split: sum.split option.split prod.split)
qed (simp add: refresh_playback_def ok)

definition keeps_state :: "state_env \<Rightarrow> bool" where
  "keeps_state env \<longleftrightarrow> keeps_refresh (st_refresh env) \<and> keeps_queue (st_pump_lock env)
     \<and> (\<forall>g. list_all (relied_pump g) (st_pump env)) \<and> keeps_queue (st_bot_lock env)
     \<and> keeps_queue (st_snap env) \<and> (\<forall>g. keeps_queue (st_restart env g))"

text \<open>
  C20: asking for the state of the Jam keeps the queue's invariant, whoever asks and whatever the
  player, Spotify's queue, the history's disk and the pump answer, as long as the other tasks that
  run meanwhile keep it.
\<close>

theorem state_request_keeps_queue_invariant:
  assumes "keeps_state env" and "jam_queue_ok (w_jam w)"
  shows "jam_queue_ok (w_jam (snd (jam_state_handler env refused w)))"
proof -
  define w1 where "w1 = refresh_playback (st_refresh env) (snd (rf_lock (st_refresh env) w))"
  have w1: "jam_queue_ok (w_jam w1)"
    unfolding w1_def using assms
    by (intro refresh_queue_ok) (auto simp: keeps_state_def keeps_refresh_def keeps_queue_def)
  define pumped where "pumped = (if jam_active (w_jam w1)
    then pump_queue_frontier (st_pump_lock env) (st_pump env) (jam_generation (w_jam w1)) w1
    else (True, w1))"
  obtain ended w2 where p: "pumped = (ended, w2)" by fastforce
  have lock: "jam_queue_ok (w_jam (snd (st_pump_lock env w1)))"
    using assms(1) w1 by (simp add: keeps_state_def keeps_queue_def)
  have "list_all (relied_pump g) (st_pump env)" for g using assms(1) by (simp add: keeps_state_def)
  from pump_loop_queue_ok [OF this lock] p w1 have w2: "jam_queue_ok (w_jam w2)"
    by (auto simp: pumped_def pump_queue_frontier_def pump_queue_frontier_locked_def Let_def
        split: if_splits)
  define w3 where "w3 = snd (st_bot_lock env w2)"
  have w3: "jam_queue_ok (w_jam w3)"
    unfolding w3_def using assms(1) w2 by (simp add: keeps_state_def keeps_queue_def)
  have w4: "jam_queue_ok (w_jam (snd (st_snap env w3)))"
    using assms(1) w3 by (simp add: keeps_state_def keeps_queue_def)
  have w5: "jam_queue_ok (w_jam (snd (st_restart env g (snd (st_snap env w3)))))" for g
    using assms(1) w4 by (simp add: keeps_state_def keeps_queue_def)
  show ?thesis
  proof (cases refused)
    case None
    then have "snd (jam_state_handler env refused w) \<in> {w2, snd (st_snap env w3)}
        \<union> range (\<lambda>g. snd (st_restart env g (snd (st_snap env w3))))"
      unfolding jam_state_handler_def Let_def w1_def [symmetric] pumped_def [symmetric] p
      by (simp add: w3_def [symmetric] split: prod.split)
    then show ?thesis using w2 w4 w5 by auto
  qed (simp add: jam_state_handler_def assms(2))
qed

definition demo_refresh_env :: "json \<Rightarrow> refresh_env" where
  "demo_refresh_env player = \<lparr>rf_lock = answer (), rf_due_now = 9,
     rf_player = answer (Inr \<lparr>http_status = 200, http_text = [], http_json = Some player,
       http_retry_after = None\<rparr>),
     rf_no_content_now = 9, rf_body = answer (), rf_fetched_at = 9, rf_queue = answer (Inl (502, [])),
     rf_status_text = (\<lambda>_. []), rf_now = 9, rf_append = (\<lambda>_. answer True)\<rparr>"

definition demo_state_env :: state_env where
  "demo_state_env = \<lparr>st_refresh = demo_refresh_env JNull, st_pump_lock = answer (),
     st_pump = replicate 9 demo_pump_env, st_history_revision = 0, st_now = 9,
     st_bot_lock = answer (), st_snap = answer (demo_snapshot 1), st_restart = (\<lambda>_. answer True)\<rparr>"

lemma demo_keeps: "keeps_state demo_state_env"
  by (simp add: demo_state_env_def demo_refresh_env_def keeps_state_def keeps_refresh_def
      keeps_queue_def answer_def demo_relied list_all_iff)

theorem state_request_keeps_queue_invariant_witness:
  "jam_queue_ok (w_jam (snd (jam_state_handler demo_state_env None (demo_world demo_queue))))"
  by (rule state_request_keeps_queue_invariant [OF demo_keeps demo_queue_ok])

text \<open>An answer of the player that arrives after the Jam ended, a new one began or the device
  changed is thrown away: the refresh leaves the world as the other tasks made it, and no row of
  history is written.
\<close>

lemma late_player_answer_is_ignored:
  assumes "playback_fetch (w_jam w) (rf_due_now env) = Some (g, d)"
    and "w1 = snd (rf_player env w)" and "w2 = snd (rf_body env w1)" and "w3 = snd (rf_queue env w2)"
    and "\<forall>w' \<in> {w1, w2, w3}. \<not> playback_fetch_matches (w_jam w') g d"
  shows "refresh_playback env w = w1 \<or> refresh_playback env w = w2"
proof -
  have "\<not> should_observe_next_queue (w_jam w2) g d np rep uri" for np rep uri
    using assms(5) by (simp add: should_observe_next_queue_def)
  then have "apply_player_answer env g d data w2 = (None, w2)" for data
    using assms(5) by (simp add: apply_player_answer_def Let_def)
  then show ?thesis
    using assms(1,2,3,5)
    by (auto simp: refresh_playback_def Let_def split: sum.split option.split prod.split)
qed

section \<open>Runs of a track\<close>

text \<open>
  What a list of playing observations appends to the history when the disk takes every row: the
  Spotify identifier seen, the accepted entry that matches it, and whether a restart was confirmed.
\<close>

fun rows_appended ::
  "u64 \<Rightarrow> jam_state \<Rightarrow> (string \<times> queued_track option \<times> bool) list \<Rightarrow> queued_track list \<times> jam_state" where
  "rows_appended g jam [] = ([], jam)"
| "rows_appended g jam ((i, queued, restarted) # seen) =
     (case new_history_observation (jam_last_history_spotify_id jam) (jam_last_history_was_echo jam)
              (Some i) queued True restarted of
        None \<Rightarrow> rows_appended g jam seen
      | Some obs \<Rightarrow>
          (case rows_appended g (record_run g obs jam) seen of
             (rows, jam') \<Rightarrow>
               ((case ho_queued_track obs of None \<Rightarrow> rows | Some track \<Rightarrow> track # rows), jam')))"

text \<open>One stretch of observations: an identifier, whether it is an Echo run, how often it is seen.\<close>

definition stretch_ok :: "(string \<times> queued_track option \<times> bool) list \<Rightarrow> string \<Rightarrow> queued_track option \<Rightarrow> bool" where
  "stretch_ok seen i queued \<longleftrightarrow> i \<noteq> [] \<and> seen \<noteq> []
     \<and> (\<forall>t. queued = Some t \<longrightarrow> qt_spotify_id t = i)
     \<and> list_all (\<lambda>(i', queued', _). i' = i \<and> queued' = queued) seen"

lemma rows_appended_same:
  assumes "jam_last_history_spotify_id jam = Some i" and "jam_last_history_was_echo jam = (queued \<noteq> None)"
    and "i \<noteq> []" and "\<forall>t. queued = Some t \<longrightarrow> qt_spotify_id t = i"
    and "list_all (\<lambda>(i', queued', _). i' = i \<and> queued' = queued) seen"
  shows "\<exists>jam'. rows_appended g jam seen = ([], jam')
    \<and> jam_last_history_spotify_id jam' = Some i
    \<and> jam_last_history_was_echo jam' = (queued \<noteq> None) \<and> jam_active jam' = jam_active jam
    \<and> jam_generation jam' = jam_generation jam"
  using assms
proof (induction seen arbitrary: jam)
  case (Cons o1 seen)
  obtain r where o1: "o1 = (i, queued, r)" using Cons.prems(5) by (cases o1) auto
  let ?obs = "\<lparr>ho_spotify_id = i, ho_queued_track = None, ho_echo_run = (queued \<noteq> None)\<rparr>"
  have obs: "new_history_observation (jam_last_history_spotify_id jam) (jam_last_history_was_echo jam)
      (Some i) queued True r = (if r then Some ?obs else None)"
    using Cons.prems(1-4) by (cases queued) (auto simp: new_history_observation_def filter_option_def Let_def)
  show ?case
  proof (cases r)
    case True
    have "record_run g ?obs jam = jam" using Cons.prems(1,2) by (simp add: record_run_def)
    then show ?thesis using Cons.IH [of jam] Cons.prems obs True o1 by auto
  next
    case False
    then show ?thesis using Cons.IH [of jam] Cons.prems obs o1 by simp
  qed
qed simp

lemma rows_appended_append:
  "rows_appended g jam (a @ b) = (case rows_appended g jam a of
     (rows, jam1) \<Rightarrow> (case rows_appended g jam1 b of (rows', jam2) \<Rightarrow> (rows @ rows', jam2)))"
  by (induction a arbitrary: jam) (auto split: option.splits prod.splits)

lemma rows_of_stretch:
  assumes "stretch_ok seen i queued" and "active_generation_matches jam g"
    and "\<not> (jam_last_history_spotify_id jam = Some i
            \<and> (jam_last_history_was_echo jam \<or> queued = None))"
  shows "\<exists>jam'. rows_appended g jam seen = ((case queued of None \<Rightarrow> [] | Some t \<Rightarrow> [t]), jam')
    \<and> jam_last_history_spotify_id jam' = Some i
    \<and> jam_last_history_was_echo jam' = (queued \<noteq> None) \<and> active_generation_matches jam' g"
proof -
  obtain r rest where seen: "seen = (i, queued, r) # rest"
    using assms(1) by (cases seen) (auto simp: stretch_ok_def)
  let ?obs = "\<lparr>ho_spotify_id = i, ho_queued_track = queued, ho_echo_run = (queued \<noteq> None)\<rparr>"
  have obs: "new_history_observation (jam_last_history_spotify_id jam) (jam_last_history_was_echo jam)
      (Some i) queued True r = Some ?obs"
    using assms(1,3) by (cases queued) (auto simp: new_history_observation_def filter_option_def Let_def stretch_ok_def)
  let ?jam1 = "record_run g ?obs jam"
  have "jam_last_history_spotify_id ?jam1 = Some i" "jam_last_history_was_echo ?jam1 = (queued \<noteq> None)"
    "active_generation_matches ?jam1 g"
    using assms(2) by (simp_all add: record_run_def active_generation_matches_def)
  then show ?thesis
    using rows_appended_same [of ?jam1 i queued rest g] assms(1) seen obs
    by (cases queued) (auto simp: stretch_ok_def active_generation_matches_def)
qed

text \<open>
  A listening session as its runs: each starts with a track other than the one before, or where an
  Echo entry takes over the track that was playing on its own.
\<close>

fun runs_ok ::
  "string option \<Rightarrow> bool \<Rightarrow> ((string \<times> queued_track option \<times> bool) list \<times> string \<times> queued_track option) list
   \<Rightarrow> bool" where
  "runs_ok last_id last_echo [] = True"
| "runs_ok last_id last_echo ((seen, i, queued) # rs) =
     (stretch_ok seen i queued \<and> \<not> (last_id = Some i \<and> (last_echo \<or> queued = None))
      \<and> runs_ok (Some i) (queued \<noteq> None) rs)"

text \<open>every run of a track queued in Echo is recorded exactly once, in the order played, however
  often the player is read during it and whatever restarts are seen; what the account plays on its
  own is never recorded.
\<close>

lemma history_records_each_run_once:
  assumes "active_generation_matches jam g"
    and "runs_ok (jam_last_history_spotify_id jam) (jam_last_history_was_echo jam) ss"
  shows "fst (rows_appended g jam (concat (map fst ss))) = List.map_filter (\<lambda>(_, _, queued). queued) ss"
  using assms
proof (induction ss arbitrary: jam)
  case (Cons run ss)
  obtain seen i queued where run: "run = (seen, i, queued)" by (cases run) auto
  obtain jam' where jam': "rows_appended g jam seen = ((case queued of None \<Rightarrow> [] | Some t \<Rightarrow> [t]), jam')"
    "jam_last_history_spotify_id jam' = Some i" "jam_last_history_was_echo jam' = (queued \<noteq> None)"
    "active_generation_matches jam' g"
    using rows_of_stretch [of seen i queued jam g] Cons.prems run by auto
  then show ?case
    using Cons.IH [of jam'] Cons.prems(2) run
    by (auto simp: rows_appended_append List.map_filter_def split: option.split prod.split)
qed (simp add: List.map_filter_def)

end
