(* ===== verification/PlaylistCache.thy ===== *)
theory PlaylistCache
  imports Catalog FileStore "HOL-Library.Multiset"
begin

text \<open>
  The durable cache of playlist pages (\<open>jam_playlist_cache.rs\<close>): chunks of fifty positions under a
  playlist and a Spotify snapshot, merged one validated chunk at a time, evicted by age, and
  written to disk before memory changes. The rendering to JSON and the parsing back are arguments,
  as is the random suffix of the temporary file.
\<close>

section \<open>Data\<close>

definition PLAYLIST_ITEMS_CACHE_SCHEMA_VERSION :: "16 word" where
  "PLAYLIST_ITEMS_CACHE_SCHEMA_VERSION = 2"
definition PLAYLIST_ITEMS_CACHE_CHUNK_SIZE :: nat where "PLAYLIST_ITEMS_CACHE_CHUNK_SIZE = 50"
definition MAX_PLAYLIST_ITEMS_CACHE_TOTAL :: nat where "MAX_PLAYLIST_ITEMS_CACHE_TOTAL = 1000"
definition MAX_PLAYLIST_ITEMS_SOURCE_TOTAL :: nat where "MAX_PLAYLIST_ITEMS_SOURCE_TOTAL = 100000"
definition MAX_CACHE_ENTRIES :: nat where "MAX_CACHE_ENTRIES = 64"
definition MAX_CACHE_POSITIONS :: nat where "MAX_CACHE_POSITIONS = 10000"
definition MAX_SNAPSHOT_ID_LEN :: nat where "MAX_SNAPSHOT_ID_LEN = 512"
definition MAX_SKIP_REASON_LEN :: nat where "MAX_SKIP_REASON_LEN = 256"

lemmas cache_limits = PLAYLIST_ITEMS_CACHE_SCHEMA_VERSION_def PLAYLIST_ITEMS_CACHE_CHUNK_SIZE_def
  MAX_PLAYLIST_ITEMS_CACHE_TOTAL_def MAX_PLAYLIST_ITEMS_SOURCE_TOTAL_def MAX_CACHE_ENTRIES_def
  MAX_CACHE_POSITIONS_def

record cached_playlist_window =
  cw_playlist_id :: string
  cw_snapshot_id :: string
  cw_tracks :: "(nat \<times> favorite_summary) list"
  cw_skipped :: "skipped_playlist_item list"
  cw_offset :: nat
  cw_limit :: nat
  cw_total :: nat
  cw_next_offset :: "nat option"
  cw_complete :: bool
  cw_fetched_at_ms :: u64

record playlist_cache_coverage =
  cc_total :: nat
  cc_cached_count :: nat
  cc_cached_chunk_offsets :: "nat list"
  cc_next_missing_chunk_offset :: "nat option"
  cc_complete :: bool
  cc_updated_at_ms :: u64

datatype persisted_slot = TrackSlot favorite_summary | SkippedSlot string

record persisted_chunk =
  ch_offset :: nat
  ch_fetched_at_ms :: u64
  ch_slots :: "persisted_slot list"

record playlist_cache_entry =
  en_playlist_id :: string
  en_snapshot_id :: string
  en_total :: nat
  en_updated_at_ms :: u64
  en_chunks :: "persisted_chunk list"

record playlist_cache_file =
  cf_schema_version :: "16 word"
  cf_entries :: "playlist_cache_entry list"

definition playlist_cache_file_default :: playlist_cache_file where
  "playlist_cache_file_default =
     \<lparr>cf_schema_version = PLAYLIST_ITEMS_CACHE_SCHEMA_VERSION, cf_entries = []\<rparr>"

record playlist_items_cache =
  pc_path :: string
  pc_writable :: bool
  pc_inner :: playlist_cache_file

section \<open>Validation\<close>

definition aligned_offset :: "nat \<Rightarrow> nat" where
  "aligned_offset position =
     position div PLAYLIST_ITEMS_CACHE_CHUNK_SIZE * PLAYLIST_ITEMS_CACHE_CHUNK_SIZE"

definition cacheable_total :: "nat \<Rightarrow> nat" where
  "cacheable_total n = min n MAX_PLAYLIST_ITEMS_CACHE_TOTAL"

definition valid_key :: "string \<Rightarrow> string \<Rightarrow> bool" where
  "valid_key playlist_id snapshot_id \<longleftrightarrow> valid_spotify_id playlist_id \<and> \<not> blank snapshot_id
     \<and> length snapshot_id \<le> MAX_SNAPSHOT_ID_LEN \<and> \<not> list_ex is_control (utf8_chars snapshot_id)"

definition validate_key :: "string \<Rightarrow> string \<Rightarrow> io_kind + unit" where
  "validate_key playlist_id snapshot_id =
     (if valid_key playlist_id snapshot_id then Inr () else Inl InvalidInput)"

definition validate_position :: "nat \<Rightarrow> nat \<Rightarrow> nat \<Rightarrow> io_kind + unit" where
  "validate_position position offset expected_len =
     (if position < offset \<or> offset + expected_len \<le> position then Inl InvalidInput else Inr ())"

definition validate_track_summary :: "favorite_summary \<Rightarrow> io_kind + unit" where
  "validate_track_summary summary =
     (let expected_uri = ''spotify:track:'' @ fs_spotify_id summary;
          expected_url = ''https://open.spotify.com/track/'' @ fs_spotify_id summary
      in if \<not> valid_spotify_id (fs_spotify_id summary) \<or> fs_spotify_uri summary \<noteq> expected_uri
            \<or> fs_spotify_url summary \<noteq> expected_url \<or> blank (fs_name summary)
            \<or> (case fs_artist summary of None \<Rightarrow> True | Some artist \<Rightarrow> blank artist)
         then Inl InvalidInput else Inr ())"

definition validate_skip_reason :: "string \<Rightarrow> io_kind + unit" where
  "validate_skip_reason reason =
     (if blank reason \<or> MAX_SKIP_REASON_LEN < length reason
         \<or> list_ex is_control (utf8_chars reason)
      then Inl InvalidInput else Inr ())"

section \<open>Building a chunk\<close>

definition expected_length :: "nat \<Rightarrow> nat \<Rightarrow> nat" where
  "expected_length n offset = min (n - offset) PLAYLIST_ITEMS_CACHE_CHUNK_SIZE"

definition place_slot ::
  "nat \<Rightarrow> nat \<Rightarrow> persisted_slot \<Rightarrow> persisted_slot option list \<Rightarrow> io_kind + persisted_slot option list" where
  "place_slot offset position slot slots =
     (let i = position - offset in
      if slots ! i \<noteq> None then Inl InvalidInput else Inr (slots[i := Some slot]))"

fun place_tracks ::
  "nat \<Rightarrow> nat \<Rightarrow> (nat \<times> favorite_summary) list \<Rightarrow> persisted_slot option list
   \<Rightarrow> io_kind + persisted_slot option list" where
  "place_tracks offset n [] slots = Inr slots"
| "place_tracks offset n ((position, summary) # tracks) slots =
     (case validate_position position offset n of Inl e \<Rightarrow> Inl e
      | Inr _ \<Rightarrow> case validate_track_summary summary of Inl e \<Rightarrow> Inl e
      | Inr _ \<Rightarrow> case place_slot offset position (TrackSlot summary) slots of Inl e \<Rightarrow> Inl e
      | Inr slots' \<Rightarrow> place_tracks offset n tracks slots')"

fun place_skipped ::
  "nat \<Rightarrow> nat \<Rightarrow> skipped_playlist_item list \<Rightarrow> persisted_slot option list
   \<Rightarrow> io_kind + persisted_slot option list" where
  "place_skipped offset n [] slots = Inr slots"
| "place_skipped offset n (item # items) slots =
     (case validate_position (sk_position item) offset n of Inl e \<Rightarrow> Inl e
      | Inr _ \<Rightarrow> case validate_skip_reason (sk_reason item) of Inl e \<Rightarrow> Inl e
      | Inr _ \<Rightarrow> case place_slot offset (sk_position item) (SkippedSlot (sk_reason item)) slots of
          Inl e \<Rightarrow> Inl e
      | Inr slots' \<Rightarrow> place_skipped offset n items slots')"

definition build_chunk ::
  "nat \<Rightarrow> nat \<Rightarrow> (nat \<times> favorite_summary) list \<Rightarrow> skipped_playlist_item list \<Rightarrow> u64
   \<Rightarrow> io_kind + persisted_chunk" where
  "build_chunk offset n tracks skipped fetched_at_ms =
     (if offset mod PLAYLIST_ITEMS_CACHE_CHUNK_SIZE \<noteq> 0 then Inl InvalidInput
      else if (n = 0 \<and> offset \<noteq> 0) \<or> (0 < n \<and> cacheable_total n \<le> offset) then Inl InvalidInput
      else
        let expected_len = expected_length n offset in
        case place_tracks offset expected_len tracks (replicate expected_len None) of Inl e \<Rightarrow> Inl e
        | Inr slots1 \<Rightarrow>
        case place_skipped offset expected_len skipped slots1 of Inl e \<Rightarrow> Inl e
        | Inr slots \<Rightarrow>
            if list_ex (\<lambda>s. s = None) slots then Inl InvalidInput
            else Inr \<lparr>ch_offset = offset, ch_fetched_at_ms = fetched_at_ms, ch_slots = map the slots\<rparr>)"

section \<open>Reading\<close>

definition find_entry :: "playlist_cache_file \<Rightarrow> string \<Rightarrow> string \<Rightarrow> playlist_cache_entry option" where
  "find_entry data playlist_id snapshot_id =
     List.find (\<lambda>e. en_playlist_id e = playlist_id \<and> en_snapshot_id e = snapshot_id) (cf_entries data)"

text \<open>\<open>(0..n).step_by(50)\<close>.\<close>

definition chunk_steps :: "nat \<Rightarrow> nat list" where
  "chunk_steps n = filter (\<lambda>i. i mod PLAYLIST_ITEMS_CACHE_CHUNK_SIZE = 0) [0..<n]"

definition entry_complete :: "playlist_cache_entry \<Rightarrow> bool" where
  "entry_complete e =
     (if MAX_PLAYLIST_ITEMS_CACHE_TOTAL < en_total e then False
      else if en_total e = 0 then list_ex (\<lambda>c. ch_offset c = 0 \<and> ch_slots c = []) (en_chunks e)
      else list_all (\<lambda>offset. list_ex (\<lambda>c. ch_offset c = offset) (en_chunks e))
             (chunk_steps (en_total e)))"

definition entry_coverage :: "playlist_cache_entry \<Rightarrow> playlist_cache_coverage" where
  "entry_coverage e =
     (let offsets = sort (map ch_offset (en_chunks e)) in
      \<lparr>cc_total = en_total e, cc_cached_count = sum_list (map (length \<circ> ch_slots) (en_chunks e)),
       cc_cached_chunk_offsets = offsets,
       cc_next_missing_chunk_offset =
         (if en_total e = 0 then (if entry_complete e then None else Some 0)
          else List.find (\<lambda>offset. offset \<notin> set offsets) (chunk_steps (cacheable_total (en_total e)))),
       cc_complete = entry_complete e, cc_updated_at_ms = en_updated_at_ms e\<rparr>)"

fun window_positions ::
  "persisted_chunk list \<Rightarrow> nat list \<Rightarrow> (nat \<times> favorite_summary) list \<Rightarrow> skipped_playlist_item list \<Rightarrow> u64
   \<Rightarrow> ((nat \<times> favorite_summary) list \<times> skipped_playlist_item list \<times> u64) option" where
  "window_positions chunks [] tracks skipped fetched_at_ms = Some (tracks, skipped, fetched_at_ms)"
| "window_positions chunks (position # positions) tracks skipped fetched_at_ms =
     (let chunk_offset = aligned_offset position in
      case List.find (\<lambda>c. ch_offset c = chunk_offset) chunks of None \<Rightarrow> None
      | Some chunk \<Rightarrow>
          if length (ch_slots chunk) \<le> position - chunk_offset then None
          else
            let fetched = max fetched_at_ms (ch_fetched_at_ms chunk) in
            case ch_slots chunk ! (position - chunk_offset) of
              TrackSlot summary \<Rightarrow>
                window_positions chunks positions (tracks @ [(position, summary)]) skipped fetched
            | SkippedSlot reason \<Rightarrow>
                window_positions chunks positions tracks
                  (skipped @ [\<lparr>sk_position = position, sk_reason = reason\<rparr>]) fetched)"

definition cache_window ::
  "playlist_items_cache \<Rightarrow> string \<Rightarrow> string \<Rightarrow> nat \<Rightarrow> nat \<Rightarrow> cached_playlist_window option" where
  "cache_window cache playlist_id snapshot_id offset limit =
     (if \<not> valid_key playlist_id snapshot_id \<or> MAX_PLAYLIST_ITEMS_CACHE_TOTAL < limit then None
      else case find_entry (pc_inner cache) playlist_id snapshot_id of None \<Rightarrow> None
      | Some entry \<Rightarrow>
          if cacheable_total (en_total entry) < offset then None
          else
            let end_position = min (offset + limit) (cacheable_total (en_total entry)) in
            case window_positions (en_chunks entry) [offset..<end_position] [] [] 0 of None \<Rightarrow> None
            | Some (tracks, skipped, fetched_at_ms) \<Rightarrow>
                Some \<lparr>cw_playlist_id = playlist_id, cw_snapshot_id = snapshot_id, cw_tracks = tracks,
                  cw_skipped = skipped, cw_offset = offset, cw_limit = limit,
                  cw_total = en_total entry,
                  cw_next_offset = (if end_position < cacheable_total (en_total entry)
                    then Some end_position else None),
                  cw_complete = entry_complete entry, cw_fetched_at_ms = fetched_at_ms\<rparr>)"

definition has_chunk :: "playlist_items_cache \<Rightarrow> string \<Rightarrow> string \<Rightarrow> nat \<Rightarrow> bool" where
  "has_chunk cache playlist_id snapshot_id offset =
     (if \<not> valid_key playlist_id snapshot_id \<or> offset mod PLAYLIST_ITEMS_CACHE_CHUNK_SIZE \<noteq> 0 then False
      else case find_entry (pc_inner cache) playlist_id snapshot_id of None \<Rightarrow> False
      | Some entry \<Rightarrow> list_ex (\<lambda>c. ch_offset c = offset) (en_chunks entry))"

definition coverage ::
  "playlist_items_cache \<Rightarrow> string \<Rightarrow> string \<Rightarrow> playlist_cache_coverage option" where
  "coverage cache playlist_id snapshot_id =
     (if \<not> valid_key playlist_id snapshot_id then None
      else map_option entry_coverage (find_entry (pc_inner cache) playlist_id snapshot_id))"

definition cached_count :: "playlist_items_cache \<Rightarrow> string \<Rightarrow> string \<Rightarrow> nat" where
  "cached_count cache playlist_id snapshot_id =
     (case coverage cache playlist_id snapshot_id of None \<Rightarrow> 0 | Some c \<Rightarrow> cc_cached_count c)"

definition cache_complete :: "playlist_items_cache \<Rightarrow> string \<Rightarrow> string \<Rightarrow> bool" where
  "cache_complete cache playlist_id snapshot_id =
     (case coverage cache playlist_id snapshot_id of None \<Rightarrow> False | Some c \<Rightarrow> cc_complete c)"

section \<open>Eviction\<close>

definition entry_positions :: "playlist_cache_entry \<Rightarrow> nat" where
  "entry_positions e = sum_list (map (length \<circ> ch_slots) (en_chunks e))"

definition over_limits :: "playlist_cache_entry list \<Rightarrow> bool" where
  "over_limits es \<longleftrightarrow> MAX_CACHE_ENTRIES < length es
     \<or> MAX_CACHE_POSITIONS < sum_list (map entry_positions es)"

definition eviction_candidate ::
  "string \<times> string \<Rightarrow> playlist_cache_entry list \<Rightarrow> nat option" where
  "eviction_candidate protected es =
     map_option fst (min_by_key (\<lambda>(_, e). en_updated_at_ms e)
       (filter (\<lambda>(_, e). (en_playlist_id e, en_snapshot_id e) \<noteq> protected) (List.enumerate 0 es)))"

definition remove_nth :: "nat \<Rightarrow> 'a list \<Rightarrow> 'a list" where
  "remove_nth i xs = take i xs @ drop (Suc i) xs"

lemma eviction_candidate_bound: "eviction_candidate p es = Some i \<Longrightarrow> i < length es"
  unfolding eviction_candidate_def
  by (auto dest!: min_by_key_Some simp: in_set_enumerate_eq)

function prune_to_limits :: "string \<times> string \<Rightarrow> playlist_cache_entry list \<Rightarrow> playlist_cache_entry list" where
  "prune_to_limits protected es =
     (if over_limits es then
        case eviction_candidate protected es of None \<Rightarrow> es
        | Some i \<Rightarrow> prune_to_limits protected (remove_nth i es)
      else es)"
  by pat_completeness auto
termination
  by (relation "measure (\<lambda>(_, es). length es)")
    (auto dest: eviction_candidate_bound simp: remove_nth_def)

declare prune_to_limits.simps [simp del]

section \<open>Loading\<close>

definition slot_valid :: "persisted_slot \<Rightarrow> bool" where
  "slot_valid slot \<longleftrightarrow>
     (case slot of TrackSlot summary \<Rightarrow> validate_track_summary summary = Inr ()
      | SkippedSlot reason \<Rightarrow> validate_skip_reason reason = Inr ())"

definition offset_valid :: "nat \<Rightarrow> nat \<Rightarrow> bool" where
  "offset_valid n offset \<longleftrightarrow> offset mod PLAYLIST_ITEMS_CACHE_CHUNK_SIZE = 0
     \<and> \<not> (n = 0 \<and> offset \<noteq> 0) \<and> \<not> (0 < n \<and> cacheable_total n \<le> offset)"

fun chunks_valid :: "nat \<Rightarrow> nat list \<Rightarrow> persisted_chunk list \<Rightarrow> bool" where
  "chunks_valid n offsets [] = True"
| "chunks_valid n offsets (chunk # chunks) =
     (if \<not> offset_valid n (ch_offset chunk) \<or> ch_offset chunk \<in> set offsets then False
      else if length (ch_slots chunk) \<noteq> expected_length n (ch_offset chunk) then False
      else if \<not> list_all slot_valid (ch_slots chunk) then False
      else chunks_valid n (ch_offset chunk # offsets) chunks)"

fun max_opt :: "u64 list \<Rightarrow> u64 option" where
  "max_opt [] = None"
| "max_opt (x # xs) = Some (case max_opt xs of None \<Rightarrow> x | Some y \<Rightarrow> max x y)"

definition normalized_entry :: "playlist_cache_entry \<Rightarrow> playlist_cache_entry" where
  "normalized_entry e =
     (let chunks = sort_key ch_offset (en_chunks e) in
      e\<lparr>en_chunks := chunks,
        en_updated_at_ms := max (or_default (en_updated_at_ms e) (max_opt (map ch_fetched_at_ms chunks)))
          (en_updated_at_ms e)\<rparr>)"

fun validate_entries ::
  "(string \<times> string) list \<Rightarrow> nat \<Rightarrow> playlist_cache_entry list
   \<Rightarrow> (playlist_cache_entry list \<times> nat) option" where
  "validate_entries keys cached_positions [] = Some ([], cached_positions)"
| "validate_entries keys cached_positions (e # es) =
     (if validate_key (en_playlist_id e) (en_snapshot_id e) \<noteq> Inr () then None
      else if MAX_PLAYLIST_ITEMS_SOURCE_TOTAL < en_total e
              \<or> (en_playlist_id e, en_snapshot_id e) \<in> set keys \<or> en_chunks e = [] then None
      else if \<not> chunks_valid (en_total e) [] (en_chunks e) then None
      else case validate_entries ((en_playlist_id e, en_snapshot_id e) # keys)
                  (cached_positions + entry_positions e) es of None \<Rightarrow> None
        | Some (rest, positions) \<Rightarrow> Some (normalized_entry e # rest, positions))"

text \<open>None is an error of kind \<open>InvalidData\<close>.\<close>

definition validate_file :: "playlist_cache_file \<Rightarrow> playlist_cache_file option" where
  "validate_file data =
     (if cf_schema_version data \<noteq> PLAYLIST_ITEMS_CACHE_SCHEMA_VERSION then None
      else if MAX_CACHE_ENTRIES < length (cf_entries data) then None
      else case validate_entries [] 0 (cf_entries data) of None \<Rightarrow> None
      | Some (es, positions) \<Rightarrow>
          if MAX_CACHE_POSITIONS < positions then None else Some (data\<lparr>cf_entries := es\<rparr>))"

definition load_file :: "(string \<Rightarrow> playlist_cache_file option) \<Rightarrow> string \<Rightarrow> playlist_cache_file option" where
  "load_file parse bytes = Option.bind (parse bytes) validate_file"

definition open_cache :: "(string \<Rightarrow> playlist_cache_file option) \<Rightarrow> string \<Rightarrow> playlist_items_cache io" where
  "open_cache parse path =
     io_bind (open_store (load_file parse) playlist_cache_file_default path) (\<lambda>data.
       io_return \<lparr>pc_path = path, pc_writable = True, pc_inner = data\<rparr>)"

definition recover_cache_read_only ::
  "(string \<Rightarrow> playlist_cache_file option) \<Rightarrow> string \<Rightarrow> playlist_items_cache io" where
  "recover_cache_read_only parse path =
     io_bind (recover_read_only (load_file parse) playlist_cache_file_default path) (\<lambda>data.
       io_return \<lparr>pc_path = path, pc_writable = False, pc_inner = data\<rparr>)"

definition disabled_cache :: "string \<Rightarrow> playlist_items_cache" where
  "disabled_cache path =
     \<lparr>pc_path = path, pc_writable = False, pc_inner = playlist_cache_file_default\<rparr>"

section \<open>Writing\<close>

definition merge_into_entry :: "persisted_chunk \<Rightarrow> u64 \<Rightarrow> playlist_cache_entry \<Rightarrow> playlist_cache_entry" where
  "merge_into_entry chunk fetched_at_ms e =
     e\<lparr>en_updated_at_ms := max (en_updated_at_ms e) fetched_at_ms,
       en_chunks :=
         (if list_ex (\<lambda>c. ch_offset c = ch_offset chunk) (en_chunks e)
          then update_first (\<lambda>c. ch_offset c = ch_offset chunk) (\<lambda>_. chunk) (en_chunks e)
          else sort_key ch_offset (en_chunks e @ [chunk]))\<rparr>"

definition merged_entries ::
  "string \<Rightarrow> string \<Rightarrow> nat \<Rightarrow> persisted_chunk \<Rightarrow> u64 \<Rightarrow> playlist_cache_entry list
   \<Rightarrow> io_kind + playlist_cache_entry list" where
  "merged_entries playlist_id snapshot_id n chunk fetched_at_ms es =
     (let kept = filter (\<lambda>e. en_playlist_id e \<noteq> playlist_id \<or> en_snapshot_id e = snapshot_id) es;
          same = (\<lambda>e. en_playlist_id e = playlist_id \<and> en_snapshot_id e = snapshot_id)
      in case List.find same kept of
           Some e \<Rightarrow>
             if en_total e \<noteq> n then Inl InvalidInput
             else Inr (prune_to_limits (playlist_id, snapshot_id)
                    (update_first same (merge_into_entry chunk fetched_at_ms) kept))
         | None \<Rightarrow>
             Inr (prune_to_limits (playlist_id, snapshot_id)
               (kept @ [merge_into_entry chunk fetched_at_ms
                  \<lparr>en_playlist_id = playlist_id, en_snapshot_id = snapshot_id, en_total = n,
                   en_updated_at_ms = fetched_at_ms, en_chunks = []\<rparr>])))"

definition merge_candidate ::
  "playlist_cache_file \<Rightarrow> favorite_summary \<Rightarrow> nat \<Rightarrow> u64 \<Rightarrow> (nat \<times> favorite_summary) list
   \<Rightarrow> skipped_playlist_item list \<Rightarrow> u64 \<Rightarrow> io_kind + playlist_cache_file" where
  "merge_candidate data playlist offset n tracks skipped fetched_at_ms =
     (case fs_snapshot_id playlist of None \<Rightarrow> Inl InvalidInput
      | Some snapshot_id \<Rightarrow>
      case validate_key (fs_spotify_id playlist) snapshot_id of Inl e \<Rightarrow> Inl e
      | Inr _ \<Rightarrow>
      if MAX_PLAYLIST_ITEMS_SOURCE_TOTAL < unat n then Inl InvalidInput
      else case build_chunk offset (unat n) tracks skipped fetched_at_ms of Inl e \<Rightarrow> Inl e
      | Inr chunk \<Rightarrow>
      case merged_entries (fs_spotify_id playlist) snapshot_id (unat n) chunk fetched_at_ms
             (cf_entries data) of Inl e \<Rightarrow> Inl e
      | Inr es \<Rightarrow> Inr (data\<lparr>cf_entries := es\<rparr>))"

text \<open>
  Memory changes only after the file was written: where the write fails the cache is the one before.
\<close>

definition persist_locked ::
  "(playlist_cache_file \<Rightarrow> string) \<Rightarrow> string \<Rightarrow> playlist_items_cache \<Rightarrow> playlist_cache_file
   \<Rightarrow> playlist_items_cache io" where
  "persist_locked render suffix cache candidate =
     io_then (write_atomic (pc_path cache) suffix (render candidate))
       (io_return (cache\<lparr>pc_inner := candidate\<rparr>))"

definition merge_chunk ::
  "(playlist_cache_file \<Rightarrow> string) \<Rightarrow> string \<Rightarrow> playlist_items_cache \<Rightarrow> favorite_summary \<Rightarrow> nat \<Rightarrow> u64
   \<Rightarrow> (nat \<times> favorite_summary) list \<Rightarrow> skipped_playlist_item list \<Rightarrow> u64 \<Rightarrow> playlist_items_cache io" where
  "merge_chunk render suffix cache playlist offset n tracks skipped fetched_at_ms =
     (if \<not> pc_writable cache then io_fail PermissionDenied
      else case merge_candidate (pc_inner cache) playlist offset n tracks skipped fetched_at_ms of
        Inl e \<Rightarrow> io_fail e
      | Inr candidate \<Rightarrow> persist_locked render suffix cache candidate)"

definition invalidate_snapshot ::
  "(playlist_cache_file \<Rightarrow> string) \<Rightarrow> string \<Rightarrow> playlist_items_cache \<Rightarrow> string \<Rightarrow> string
   \<Rightarrow> (playlist_items_cache \<times> bool) io" where
  "invalidate_snapshot render suffix cache playlist_id snapshot_id =
     (if \<not> pc_writable cache then io_fail PermissionDenied
      else case validate_key playlist_id snapshot_id of Inl e \<Rightarrow> io_fail e
      | Inr _ \<Rightarrow>
          let data = pc_inner cache;
              es = filter (\<lambda>e. en_playlist_id e \<noteq> playlist_id \<or> en_snapshot_id e \<noteq> snapshot_id)
                     (cf_entries data)
          in if length es = length (cf_entries data) then io_return (cache, False)
             else io_bind (persist_locked render suffix cache (data\<lparr>cf_entries := es\<rparr>))
                    (\<lambda>cache'. io_return (cache', True)))"

definition invalidate_stale_snapshots ::
  "(playlist_cache_file \<Rightarrow> string) \<Rightarrow> string \<Rightarrow> playlist_items_cache \<Rightarrow> string \<Rightarrow> string
   \<Rightarrow> (playlist_items_cache \<times> nat) io" where
  "invalidate_stale_snapshots render suffix cache playlist_id current_snapshot_id =
     (if \<not> pc_writable cache then io_fail PermissionDenied
      else case validate_key playlist_id current_snapshot_id of Inl e \<Rightarrow> io_fail e
      | Inr _ \<Rightarrow>
          let data = pc_inner cache;
              es = filter (\<lambda>e. en_playlist_id e \<noteq> playlist_id \<or> en_snapshot_id e = current_snapshot_id)
                     (cf_entries data);
              removed = length (cf_entries data) - length es
          in if removed = 0 then io_return (cache, 0)
             else io_bind (persist_locked render suffix cache (data\<lparr>cf_entries := es\<rparr>))
                    (\<lambda>cache'. io_return (cache', removed)))"

section \<open>The invariant\<close>

definition chunk_ok :: "nat \<Rightarrow> persisted_chunk \<Rightarrow> bool" where
  "chunk_ok n c \<longleftrightarrow> offset_valid n (ch_offset c) \<and> length (ch_slots c) = expected_length n (ch_offset c)
     \<and> list_all slot_valid (ch_slots c)"

definition entry_key :: "playlist_cache_entry \<Rightarrow> string \<times> string" where
  "entry_key e = (en_playlist_id e, en_snapshot_id e)"

definition entry_loads :: "playlist_cache_entry \<Rightarrow> bool" where
  "entry_loads e \<longleftrightarrow> valid_key (en_playlist_id e) (en_snapshot_id e)
     \<and> en_total e \<le> MAX_PLAYLIST_ITEMS_SOURCE_TOTAL \<and> en_chunks e \<noteq> []
     \<and> list_all (chunk_ok (en_total e)) (en_chunks e) \<and> distinct (map ch_offset (en_chunks e))"

definition cache_entry_ok :: "playlist_cache_entry \<Rightarrow> bool" where
  "cache_entry_ok e \<longleftrightarrow> entry_loads e \<and> sorted (map ch_offset (en_chunks e))
     \<and> (\<forall>c \<in> set (en_chunks e). ch_fetched_at_ms c \<le> en_updated_at_ms e)"

definition cache_file_ok :: "playlist_cache_file \<Rightarrow> bool" where
  "cache_file_ok data \<longleftrightarrow> cf_schema_version data = PLAYLIST_ITEMS_CACHE_SCHEMA_VERSION
     \<and> list_all cache_entry_ok (cf_entries data) \<and> distinct (map entry_key (cf_entries data))
     \<and> \<not> over_limits (cf_entries data)"

lemma chunks_valid_iff:
  "chunks_valid n offsets cs \<longleftrightarrow> list_all (chunk_ok n) cs \<and> distinct (map ch_offset cs)
     \<and> set (map ch_offset cs) \<inter> set offsets = {}"
  by (induction cs arbitrary: offsets) (auto simp: chunk_ok_def)

lemma validate_entries_iff:
  "validate_entries keys p es = Some (es', q) \<longleftrightarrow>
     list_all entry_loads es \<and> distinct (map entry_key es) \<and> set (map entry_key es) \<inter> set keys = {}
     \<and> es' = map normalized_entry es \<and> q = p + sum_list (map entry_positions es)"
proof (induction es arbitrary: keys p es' q)
  case (Cons e es)
  let ?guard = "entry_loads e \<and> entry_key e \<notin> set keys"
  show ?case
  proof (cases ?guard)
    case True
    then have "validate_entries keys p (e # es) =
        (case validate_entries (entry_key e # keys) (p + entry_positions e) es of None \<Rightarrow> None
         | Some (rest, positions) \<Rightarrow> Some (normalized_entry e # rest, positions))"
      by (auto simp: entry_loads_def entry_key_def validate_key_def chunks_valid_iff)
    then have "validate_entries keys p (e # es) = Some (es', q) \<longleftrightarrow>
        (\<exists>rest. validate_entries (entry_key e # keys) (p + entry_positions e) es = Some (rest, q)
           \<and> es' = normalized_entry e # rest)"
      by (auto split: option.splits)
    with True show ?thesis by (auto simp: Cons.IH)
  next
    case False
    then have "validate_entries keys p (e # es) = None"
      by (auto simp: entry_loads_def entry_key_def validate_key_def chunks_valid_iff)
    with False show ?thesis by auto
  qed
qed auto

lemma max_opt_Max: "xs \<noteq> [] \<Longrightarrow> max_opt xs = Some (Max (set xs))"
proof (induction xs)
  case (Cons x xs)
  then show ?case by (cases "xs = []") auto
qed simp

lemma normalized_loads: "entry_loads e \<Longrightarrow> cache_entry_ok (normalized_entry e)"
proof -
  assume e: "entry_loads e"
  let ?cs = "sort_key ch_offset (en_chunks e)"
  have "map ch_fetched_at_ms ?cs \<noteq> []" using e
    by (metis entry_loads_def length_0_conv length_map length_sort)
  from max_opt_Max [OF this] have
    "max (or_default (en_updated_at_ms e) (max_opt (map ch_fetched_at_ms ?cs))) (en_updated_at_ms e)
      = max (Max (ch_fetched_at_ms ` set (en_chunks e))) (en_updated_at_ms e)"
    by (simp add: or_default_def)
  moreover have "?cs \<noteq> []" "distinct (map ch_offset ?cs)" "list_all (chunk_ok (en_total e)) ?cs"
    using e \<open>map ch_fetched_at_ms ?cs \<noteq> []\<close> by (auto simp: entry_loads_def list_all_iff distinct_map)
  ultimately show ?thesis
    using e by (auto simp: cache_entry_ok_def normalized_entry_def Let_def entry_loads_def
        intro!: max.coboundedI1)
qed

lemma normalized_ok: "cache_entry_ok e \<Longrightarrow> normalized_entry e = e"
proof -
  assume e: "cache_entry_ok e"
  then have same: "sort_key ch_offset (en_chunks e) = en_chunks e"
    by (intro sort_key_id_if_sorted) (simp add: cache_entry_ok_def)
  have "map ch_fetched_at_ms (en_chunks e) \<noteq> []" using e by (simp add: cache_entry_ok_def entry_loads_def)
  from max_opt_Max [OF this] e this
  have "max (or_default (en_updated_at_ms e) (max_opt (map ch_fetched_at_ms (en_chunks e))))
      (en_updated_at_ms e) = en_updated_at_ms e"
    by (auto simp: or_default_def cache_entry_ok_def intro!: max.absorb2 Max.boundedI)
  with same show ?thesis by (simp add: normalized_entry_def)
qed

lemma normalized_same [simp]:
  "entry_key (normalized_entry e) = entry_key e" "entry_positions (normalized_entry e) = entry_positions e"
proof -
  have "sum_list (map f (sort_key k xs)) = sum_list (map f xs)" for f :: "'a \<Rightarrow> nat" and k :: "'a \<Rightarrow> nat" and xs
    by (metis mset_map mset_sort sum_mset_sum_list)
  then show "entry_key (normalized_entry e) = entry_key e"
    "entry_positions (normalized_entry e) = entry_positions e"
    by (simp_all add: entry_key_def normalized_entry_def Let_def entry_positions_def)
qed

lemma validate_file_ok: "validate_file x = Some y \<Longrightarrow> cache_file_ok y"
  by (auto simp: validate_file_def validate_entries_iff cache_file_ok_def over_limits_def list_all_iff
      comp_def normalized_loads split: if_splits option.splits)

lemma validate_file_same:
  assumes "cache_file_ok x"
  shows "validate_file x = Some x"
proof -
  have "map normalized_entry (cf_entries x) = cf_entries x"
    using assms by (intro map_idI) (auto simp: cache_file_ok_def list_all_iff normalized_ok)
  then have "validate_entries [] 0 (cf_entries x)
      = Some (cf_entries x, sum_list (map entry_positions (cf_entries x)))"
    using assms by (auto simp: validate_entries_iff cache_file_ok_def list_all_iff cache_entry_ok_def)
  with assms show ?thesis
    by (simp add: validate_file_def cache_file_ok_def over_limits_def)
qed

interpretation cache_store: durable_store cache_file_ok validate_file "(=)"
  by unfold_locales (auto intro: validate_file_ok validate_file_same)

end
