(* ===== verification/PlaylistCacheProperties.thy ===== *)
theory PlaylistCacheProperties
  imports PlaylistCache "HOL-Library.Sublist"
begin

text \<open>
  What the playlist cache promises: a chunk that was merged is answered as it was given, a window
  covers its range or is not answered, every state a cache reaches can be loaded again, and a write
  that fails or is cut off loses nothing.
\<close>

section \<open>Eviction\<close>

lemma remove_nth_subseq: "subseq (remove_nth i xs) xs"
proof -
  have "drop (Suc i) xs = drop 1 (drop i xs)" by simp
  then have "subseq (drop (Suc i) xs) (drop i xs)"
    by (metis suffix_drop suffix_imp_subseq)
  then have "subseq (take i xs @ drop (Suc i) xs) (take i xs @ drop i xs)" by (simp only: subseq_append')
  then show ?thesis by (simp add: remove_nth_def)
qed

lemma prune_subseq: "subseq (prune_to_limits p es) es"
proof (induction p es rule: prune_to_limits.induct)
  case (1 p es)
  then show ?case
    by (subst prune_to_limits.simps)
      (auto split: option.split intro: subseq_order.order_trans [OF _ remove_nth_subseq])
qed

lemma prune_keeps_entries:
  "set (prune_to_limits p es) \<subseteq> set es"
  "distinct (map entry_key es) \<Longrightarrow> distinct (map entry_key (prune_to_limits p es))"
proof -
  obtain N where N: "prune_to_limits p es = nths es N" using prune_subseq subseq_conv_nths by metis
  then show "set (prune_to_limits p es) \<subseteq> set es" by (simp add: set_nths_subset)
  show "distinct (map entry_key es) \<Longrightarrow> distinct (map entry_key (prune_to_limits p es))"
    unfolding N by (metis distinct_nthsI nths_map)
qed

lemma eviction_candidate_entry:
  assumes "eviction_candidate p es = Some i"
  shows "i < length es \<and> entry_key (es ! i) \<noteq> p
    \<and> (\<forall>j < length es. entry_key (es ! j) \<noteq> p \<longrightarrow> en_updated_at_ms (es ! i) \<le> en_updated_at_ms (es ! j))"
  using assms unfolding eviction_candidate_def
  by (force dest!: min_by_key_Some simp: in_set_enumerate_eq entry_key_def)

lemma eviction_candidate_None:
  "eviction_candidate p es = None \<longleftrightarrow> (\<forall>e \<in> set es. entry_key e = p)"
proof -
  have "eviction_candidate p es = None \<longleftrightarrow>
      (\<forall>x \<in> set (List.enumerate 0 es). entry_key (snd x) = p)"
    by (simp add: eviction_candidate_def min_by_key_None filter_empty_conv entry_key_def case_prod_beta)
  also have "\<dots> \<longleftrightarrow> (\<forall>e \<in> set (map snd (List.enumerate 0 es)). entry_key e = p)"
    unfolding set_map by blast
  finally show ?thesis by (simp only: map_snd_enumerate)
qed

lemma remove_nth_keeps: "i < length es \<Longrightarrow> e \<in> set es \<Longrightarrow> e \<noteq> es ! i \<Longrightarrow> e \<in> set (remove_nth i es)"
  unfolding remove_nth_def
  by (metis Un_iff append_take_drop_id Cons_nth_drop_Suc set_ConsD set_append)

lemma prune_keeps_protected:
  "e \<in> set es \<Longrightarrow> entry_key e = p \<Longrightarrow> e \<in> set (prune_to_limits p es)"
proof (induction p es rule: prune_to_limits.induct)
  case (1 p es)
  show ?case
  proof (cases "over_limits es")
    case True
    then show ?thesis
    proof (cases "eviction_candidate p es")
      case (Some i)
      with eviction_candidate_entry [OF this] 1(2,3) have "e \<in> set (remove_nth i es)"
        by (intro remove_nth_keeps) auto
      with 1 True Some show ?thesis by (simp add: prune_to_limits.simps [of p es])
    qed (use 1 True in \<open>simp add: prune_to_limits.simps [of p es]\<close>)
  qed (use 1 in \<open>simp add: prune_to_limits.simps [of p es]\<close>)
qed

lemma prune_stops:
  "\<not> over_limits (prune_to_limits p es) \<or> (\<forall>e \<in> set (prune_to_limits p es). entry_key e = p)"
proof (induction p es rule: prune_to_limits.induct)
  case (1 p es)
  show ?case
  proof (cases "over_limits es")
    case True
    with 1 show ?thesis
      by (cases "eviction_candidate p es")
        (simp_all add: prune_to_limits.simps [of p es] eviction_candidate_None [THEN iffD1])
  qed (simp add: prune_to_limits.simps [of p es])
qed

lemma offset_valid_range: "offset_valid n off \<Longrightarrow> off \<in> (*) 50 ` {..< 20}"
proof -
  assume "offset_valid n off"
  then have "off < 1000" "off mod 50 = 0"
    by (auto simp: offset_valid_def cache_limits cacheable_total_def)
  then have "off = 50 * (off div 50)" "off div 50 < 20" by auto
  then show ?thesis by blast
qed

lemma entry_positions_bound: "cache_entry_ok e \<Longrightarrow> entry_positions e \<le> 1000"
proof -
  assume e: "cache_entry_ok e"
  then have ok: "\<forall>c \<in> set (en_chunks e). chunk_ok (en_total e) c" "distinct (map ch_offset (en_chunks e))"
    by (auto simp: cache_entry_ok_def entry_loads_def list_all_iff)
  have "ch_offset ` set (en_chunks e) \<subseteq> (*) 50 ` {..< 20}"
    using ok(1) offset_valid_range by (auto simp: chunk_ok_def)
  then have "card (ch_offset ` set (en_chunks e)) \<le> card ((*) (50 :: nat) ` {..< 20})"
    by (intro card_mono) auto
  also have "\<dots> \<le> 20" using card_image_le [of "{..< 20 :: nat}" "(*) 50"] by simp
  finally have "length (en_chunks e) \<le> 20"
    using distinct_card [OF ok(2)] by simp
  moreover have "entry_positions e \<le> 50 * length (en_chunks e)"
    unfolding entry_positions_def comp_def
    using sum_list_mono [of "en_chunks e" "\<lambda>c. length (ch_slots c)" "\<lambda>_. 50"] ok(1)
    by (simp add: chunk_ok_def expected_length_def cache_limits sum_list_triv mult.commute)
  ultimately show ?thesis by simp
qed

lemma prune_ok:
  assumes "list_all cache_entry_ok es" and "distinct (map entry_key es)"
  shows "\<not> over_limits (prune_to_limits p es)"
proof (rule ccontr)
  let ?r = "prune_to_limits p es"
  assume over: "\<not> \<not> over_limits ?r"
  then have all: "\<forall>e \<in> set ?r. entry_key e = p" using prune_stops by blast
  with prune_keeps_entries(2) [OF assms(2), of p] have "length ?r \<le> 1"
    by (cases ?r; cases "tl ?r") (auto simp: image_iff)
  then show False
    using over assms(1) entry_positions_bound prune_keeps_entries(1) [of p es]
    by (cases ?r) (auto simp: over_limits_def cache_limits list_all_iff dest!: entry_positions_bound)
qed

section \<open>Merging keeps the invariant\<close>

text \<open>\<open>filled\<close>: the slots hold exactly the items, each at its position.\<close>

definition filled :: "nat \<Rightarrow> (nat \<times> persisted_slot) list \<Rightarrow> persisted_slot option list \<Rightarrow> bool" where
  "filled offset items slots \<longleftrightarrow> distinct (map fst items)
     \<and> (\<forall>(position, slot) \<in> set items. offset \<le> position \<and> position - offset < length slots \<and> slot_valid slot)
     \<and> (\<forall>i < length slots. \<forall>slot. slots ! i = Some slot \<longleftrightarrow> (offset + i, slot) \<in> set items)"

lemma filled_place:
  assumes "filled offset items slots" and "validate_position position offset (length slots) = Inr ()"
    and "slot_valid slot" and "place_slot offset position slot slots = Inr slots'"
  shows "filled offset (items @ [(position, slot)]) slots' \<and> length slots' = length slots"
proof -
  let ?i = "position - offset"
  have i: "offset \<le> position" "?i < length slots" "slots ! ?i = None" "slots' = slots[?i := Some slot]"
    using assms(2,4) by (auto simp: validate_position_def place_slot_def Let_def split: if_splits)
  have new: "(position, s) \<notin> set items" for s
    using assms(1) i by (auto simp: filled_def dest!: spec [of _ ?i])
  have "slots' ! j = Some s \<longleftrightarrow> (offset + j, s) \<in> set (items @ [(position, slot)])"
    if "j < length slots" for j s
    using assms(1) that i new by (cases "j = ?i") (auto simp: filled_def)
  with assms(1,3) i new show ?thesis
    by (auto simp: filled_def)
qed

definition track_items :: "(nat \<times> favorite_summary) list \<Rightarrow> (nat \<times> persisted_slot) list" where
  "track_items = map (\<lambda>(position, summary). (position, TrackSlot summary))"

definition skipped_items :: "skipped_playlist_item list \<Rightarrow> (nat \<times> persisted_slot) list" where
  "skipped_items = map (\<lambda>item. (sk_position item, SkippedSlot (sk_reason item)))"

lemma place_tracks_filled:
  "filled offset items slots \<Longrightarrow> place_tracks offset (length slots) tracks slots = Inr slots' \<Longrightarrow>
     filled offset (items @ track_items tracks) slots' \<and> length slots' = length slots"
proof (induction tracks arbitrary: items slots)
  case (Cons t tracks)
  obtain position summary where t: "t = (position, summary)" by fastforce
  obtain slots1 where one: "validate_position position offset (length slots) = Inr ()"
    "validate_track_summary summary = Inr ()"
    "place_slot offset position (TrackSlot summary) slots = Inr slots1"
    "place_tracks offset (length slots) tracks slots1 = Inr slots'"
    using Cons.prems(2) t by (auto split: sum.splits)
  have "filled offset (items @ [(position, TrackSlot summary)]) slots1" "length slots1 = length slots"
    using filled_place [OF Cons.prems(1) one(1) _ one(3)] one(2) by (simp_all add: slot_valid_def)
  with Cons.IH [OF this(1)] one(4) t show ?case by (simp add: track_items_def)
qed (simp add: track_items_def)

lemma place_skipped_filled:
  "filled offset items slots \<Longrightarrow> place_skipped offset (length slots) skipped slots = Inr slots' \<Longrightarrow>
     filled offset (items @ skipped_items skipped) slots' \<and> length slots' = length slots"
proof (induction skipped arbitrary: items slots)
  case (Cons item skipped)
  obtain slots1 where one: "validate_position (sk_position item) offset (length slots) = Inr ()"
    "validate_skip_reason (sk_reason item) = Inr ()"
    "place_slot offset (sk_position item) (SkippedSlot (sk_reason item)) slots = Inr slots1"
    "place_skipped offset (length slots) skipped slots1 = Inr slots'"
    using Cons.prems(2) by (auto split: sum.splits)
  have "filled offset (items @ [(sk_position item, SkippedSlot (sk_reason item))]) slots1"
    "length slots1 = length slots"
    using filled_place [OF Cons.prems(1) one(1) _ one(3)] one(2) by (simp_all add: slot_valid_def)
  with Cons.IH [OF this(1)] one(4) show ?case by (simp add: skipped_items_def)
qed (simp add: skipped_items_def)

text \<open>A chunk that is built holds the items given, one per position of its range, and is valid.\<close>

lemma build_chunk_holds:
  assumes "build_chunk offset n tracks skipped now = Inr chunk"
  defines "items \<equiv> track_items tracks @ skipped_items skipped"
  shows "chunk_ok n chunk \<and> ch_offset chunk = offset \<and> ch_fetched_at_ms chunk = now
    \<and> distinct (map fst items)
    \<and> set items = {(offset + i, ch_slots chunk ! i) | i. i < length (ch_slots chunk)}"
proof -
  let ?n = "expected_length n offset"
  obtain slots1 slots where off: "offset_valid n offset"
    and one: "place_tracks offset ?n tracks (replicate ?n None) = Inr slots1"
    and two: "place_skipped offset ?n skipped slots1 = Inr slots"
    and full: "\<not> list_ex (\<lambda>s. s = None) slots"
    and chunk: "chunk = \<lparr>ch_offset = offset, ch_fetched_at_ms = now, ch_slots = map the slots\<rparr>"
    using assms(1) by (auto simp: build_chunk_def Let_def offset_valid_def split: if_splits sum.splits)
  have "filled offset [] (replicate ?n None)" by (simp add: filled_def)
  from place_tracks_filled [OF this, of tracks slots1] one
  have "filled offset (track_items tracks) slots1" "length slots1 = ?n" by simp_all
  from place_skipped_filled [OF this(1), of skipped slots] this two
  have filled: "filled offset items slots" and len: "length slots = ?n" by (simp_all add: items_def)
  have some: "slots ! i = Some (map the slots ! i)" if "i < length slots" for i
  proof -
    have "slots ! i \<noteq> None" using full nth_mem [OF that] unfolding list_ex_iff by metis
    then show ?thesis using that by auto
  qed
  have mem: "(offset + i, map the slots ! i) \<in> set items" if "i < length slots" for i
    using filled some [OF that] that by (auto simp: filled_def)
  have rev: "\<exists>i. p = offset + i \<and> s = map the slots ! i \<and> i < length slots" if "(p, s) \<in> set items" for p s
  proof -
    have "offset \<le> p" "p - offset < length slots" using filled that by (auto simp: filled_def)
    moreover from this have "slots ! (p - offset) = Some s" using filled that by (auto simp: filled_def)
    ultimately show ?thesis by (intro exI [of _ "p - offset"]) simp
  qed
  from mem have "set items = {(offset + i, ch_slots chunk ! i) | i. i < length (ch_slots chunk)}"
    unfolding chunk by (auto dest!: rev simp del: nth_map)
  moreover have "list_all slot_valid (map the slots)"
    using mem filled by (fastforce simp: list_all_length filled_def)
  ultimately show ?thesis
    using off len filled by (simp add: chunk chunk_ok_def filled_def)
qed

lemma merge_into_entry_ok:
  assumes "cache_entry_ok e \<or> (en_chunks e = [] \<and> valid_key (en_playlist_id e) (en_snapshot_id e)
      \<and> en_total e \<le> MAX_PLAYLIST_ITEMS_SOURCE_TOTAL)"
    and "chunk_ok (en_total e) chunk" and "ch_fetched_at_ms chunk = now"
  shows "cache_entry_ok (merge_into_entry chunk now e)"
proof -
  let ?same = "\<lambda>c. ch_offset c = ch_offset chunk"
  have e: "list_all (chunk_ok (en_total e)) (en_chunks e)" "distinct (map ch_offset (en_chunks e))"
    "sorted (map ch_offset (en_chunks e))" "valid_key (en_playlist_id e) (en_snapshot_id e)"
    "en_total e \<le> MAX_PLAYLIST_ITEMS_SOURCE_TOTAL"
    "\<forall>c \<in> set (en_chunks e). ch_fetched_at_ms c \<le> en_updated_at_ms e"
    using assms(1) by (auto simp: cache_entry_ok_def entry_loads_def)
  show ?thesis
  proof (cases "list_ex ?same (en_chunks e)")
    case True
    obtain pre c post where cs: "en_chunks e = pre @ c # post" "ch_offset c = ch_offset chunk"
      "\<forall>x \<in> set pre. ch_offset x \<noteq> ch_offset chunk"
      using True split_list_first_prop [of "en_chunks e" ?same] by (auto simp: list_ex_iff)
    have "update_first ?same (\<lambda>_. chunk) (en_chunks e) = pre @ chunk # post"
      unfolding cs(1) by (rule update_first_split) (use cs in auto)
    then show ?thesis
      using True e assms(2,3) cs
      by (auto simp: cache_entry_ok_def entry_loads_def merge_into_entry_def sorted_append le_max_iff_disj)
  next
    case False
    moreover have "sort_key ch_offset (en_chunks e @ [chunk]) \<noteq> []"
      by (metis append_is_Nil_conv length_0_conv length_sort not_Cons_self2)
    ultimately show ?thesis
      using e assms(2,3) by (auto simp: cache_entry_ok_def entry_loads_def merge_into_entry_def
          list_all_iff distinct_map list_ex_iff inj_on_def le_max_iff_disj)
  qed
qed

lemma merge_into_entry_same [simp]:
  "entry_key (merge_into_entry chunk now e) = entry_key e"
  "en_total (merge_into_entry chunk now e) = en_total e"
  by (simp_all add: merge_into_entry_def entry_key_def)

lemma merge_into_entry_holds: "chunk \<in> set (en_chunks (merge_into_entry chunk now e))"
proof (cases "list_ex (\<lambda>c. ch_offset c = ch_offset chunk) (en_chunks e)")
  case True
  then obtain pre c post where cs: "en_chunks e = pre @ c # post" "ch_offset c = ch_offset chunk"
    "\<forall>x \<in> set pre. ch_offset x \<noteq> ch_offset chunk"
    using split_list_first_prop [of "en_chunks e" "\<lambda>c. ch_offset c = ch_offset chunk"]
    by (auto simp: list_ex_iff)
  have "update_first (\<lambda>c. ch_offset c = ch_offset chunk) (\<lambda>_. chunk) (en_chunks e) = pre @ chunk # post"
    unfolding cs(1) by (rule update_first_split) (use cs in auto)
  with True show ?thesis by (simp add: merge_into_entry_def)
qed (simp add: merge_into_entry_def)

lemma merged_entries_ok:
  assumes es: "list_all cache_entry_ok es" "distinct (map entry_key es)"
    and chunk: "chunk_ok n chunk" "ch_fetched_at_ms chunk = now"
    and key: "valid_key pid sid" "n \<le> MAX_PLAYLIST_ITEMS_SOURCE_TOTAL"
    and run: "merged_entries pid sid n chunk now es = Inr es'"
  shows "list_all cache_entry_ok es' \<and> distinct (map entry_key es') \<and> \<not> over_limits es'
    \<and> (\<exists>e \<in> set es'. entry_key e = (pid, sid) \<and> en_total e = n \<and> chunk \<in> set (en_chunks e))"
proof -
  define kept where "kept = filter (\<lambda>e. en_playlist_id e \<noteq> pid \<or> en_snapshot_id e = sid) es"
  let ?same = "\<lambda>e. en_playlist_id e = pid \<and> en_snapshot_id e = sid"
  let ?merge = "merge_into_entry chunk now"
  have kept: "list_all cache_entry_ok kept" "distinct (map entry_key kept)"
    using es by (auto simp: kept_def list_all_iff distinct_map intro: inj_on_subset)
  note run' = run [unfolded merged_entries_def Let_def, folded kept_def]
  obtain xs where xs: "es' = prune_to_limits (pid, sid) xs" "list_all cache_entry_ok xs"
    "distinct (map entry_key xs)"
    "\<exists>e \<in> set xs. entry_key e = (pid, sid) \<and> en_total e = n \<and> chunk \<in> set (en_chunks e)"
  proof (cases "List.find ?same kept")
    case (Some e)
    from find_first [OF this] obtain pre post where
      split: "kept = pre @ e # post" "en_playlist_id e = pid" "en_snapshot_id e = sid" "\<forall>x \<in> set pre. \<not> ?same x"
      by (elim exE conjE)
    have upd: "update_first ?same ?merge kept = pre @ ?merge e # post"
      unfolding split(1) by (rule update_first_split) (use split in auto)
    have n: "en_total e = n" using run' Some by (auto split: if_splits)
    have "cache_entry_ok (?merge e)"
      using kept(1) chunk n by (intro merge_into_entry_ok) (auto simp: split(1))
    moreover have "entry_key e = (pid, sid)" using split(2,3) by (simp add: entry_key_def)
    ultimately show thesis
      using run' Some kept upd n merge_into_entry_holds
      by (intro that [of "pre @ ?merge e # post"]) (auto simp: split(1))
  next
    case None
    let ?new = "\<lparr>en_playlist_id = pid, en_snapshot_id = sid, en_total = n, en_updated_at_ms = now,
      en_chunks = []\<rparr>"
    have "cache_entry_ok (?merge ?new)"
      using chunk key by (intro merge_into_entry_ok) auto
    moreover have "entry_key (?merge ?new) = (pid, sid)" by (simp add: entry_key_def merge_into_entry_def)
    moreover have "(pid, sid) \<notin> set (map entry_key kept)"
      using None by (auto simp: find_None_iff entry_key_def)
    moreover have "en_total (?merge ?new) = n" by simp
    ultimately show thesis
      using run' None kept merge_into_entry_holds [of chunk now ?new]
      by (intro that [of "kept @ [?merge ?new]"]) auto
  qed
  with prune_ok [OF xs(2,3)] prune_keeps_entries(2) [of xs "(pid, sid)"] prune_keeps_entries(1) [of "(pid, sid)" xs] show ?thesis
    by (auto simp: list_all_iff dest: prune_keeps_protected)
qed

lemma merge_candidate_ok:
  assumes "cache_file_ok data" and "merge_candidate data playlist offset n tracks skipped now = Inr data'"
  shows "cache_file_ok data' \<and> (\<exists>sid chunk e. fs_snapshot_id playlist = Some sid
    \<and> valid_key (fs_spotify_id playlist) sid
    \<and> build_chunk offset (unat n) tracks skipped now = Inr chunk
    \<and> find_entry data' (fs_spotify_id playlist) sid = Some e \<and> cache_entry_ok e
    \<and> en_total e = unat n \<and> chunk \<in> set (en_chunks e))"
proof -
  obtain sid chunk es where sid: "fs_snapshot_id playlist = Some sid"
    and key: "valid_key (fs_spotify_id playlist) sid" "unat n \<le> MAX_PLAYLIST_ITEMS_SOURCE_TOTAL"
    and chunk: "build_chunk offset (unat n) tracks skipped now = Inr chunk"
    and es: "merged_entries (fs_spotify_id playlist) sid (unat n) chunk now (cf_entries data) = Inr es"
    and data': "data' = data\<lparr>cf_entries := es\<rparr>"
    using assms(2) by (auto simp: merge_candidate_def validate_key_def split: option.splits sum.splits if_splits)
  note ok = merged_entries_ok [OF _ _ _ _ key es]
  have es': "list_all cache_entry_ok es" "distinct (map entry_key es)" "\<not> over_limits es"
    "\<exists>e \<in> set es. entry_key e = (fs_spotify_id playlist, sid) \<and> en_total e = unat n
       \<and> chunk \<in> set (en_chunks e)"
    using ok build_chunk_holds [OF chunk] assms(1) by (auto simp: cache_file_ok_def)
  then obtain e where e: "e \<in> set es" "entry_key e = (fs_spotify_id playlist, sid)"
    "en_total e = unat n" "chunk \<in> set (en_chunks e)" by blast
  obtain e' where e': "find_entry data' (fs_spotify_id playlist) sid = Some e'"
    using e(1,2) by (cases "find_entry data' (fs_spotify_id playlist) sid")
      (auto simp: find_entry_def data' find_None_iff entry_key_def)
  then have "e' \<in> set es" "entry_key e' = entry_key e"
    using e(2) by (auto simp: find_entry_def data' find_Some_iff entry_key_def)
  with e(1) es'(2) have "e' = e" by (auto simp: distinct_map inj_on_def)
  with e e' es' sid key chunk assms(1) show ?thesis
    by (auto simp: cache_file_ok_def data' list_all_iff)
qed

section \<open>Windows\<close>

definition cached_slot :: "persisted_chunk list \<Rightarrow> nat \<Rightarrow> (u64 \<times> persisted_slot) option" where
  "cached_slot chunks position =
     (case List.find (\<lambda>c. ch_offset c = aligned_offset position) chunks of None \<Rightarrow> None
      | Some c \<Rightarrow> if length (ch_slots c) \<le> position - aligned_offset position then None
          else Some (ch_fetched_at_ms c, ch_slots c ! (position - aligned_offset position)))"

definition tracks_at :: "persisted_chunk list \<Rightarrow> nat list \<Rightarrow> (nat \<times> favorite_summary) list" where
  "tracks_at chunks = List.map_filter (\<lambda>p. case cached_slot chunks p of
     Some (_, TrackSlot summary) \<Rightarrow> Some (p, summary) | _ \<Rightarrow> None)"

definition skipped_at :: "persisted_chunk list \<Rightarrow> nat list \<Rightarrow> skipped_playlist_item list" where
  "skipped_at chunks = List.map_filter (\<lambda>p. case cached_slot chunks p of
     Some (_, SkippedSlot reason) \<Rightarrow> Some \<lparr>sk_position = p, sk_reason = reason\<rparr> | _ \<Rightarrow> None)"

lemma window_positions_step:
  "window_positions chunks (p # ps) tracks skipped now =
     (case cached_slot chunks p of None \<Rightarrow> None
      | Some (fetched, TrackSlot summary) \<Rightarrow>
          window_positions chunks ps (tracks @ [(p, summary)]) skipped (max now fetched)
      | Some (fetched, SkippedSlot reason) \<Rightarrow>
          window_positions chunks ps tracks (skipped @ [\<lparr>sk_position = p, sk_reason = reason\<rparr>])
            (max now fetched))"
  by (simp add: cached_slot_def Let_def split: option.split persisted_slot.split)

lemma window_positions_result:
  "window_positions chunks ps tracks skipped now =
     (if \<forall>p \<in> set ps. cached_slot chunks p \<noteq> None
      then Some (tracks @ tracks_at chunks ps, skipped @ skipped_at chunks ps,
        fold (\<lambda>p now. max now (case cached_slot chunks p of Some (t, _) \<Rightarrow> t | None \<Rightarrow> now)) ps now)
      else None)"
proof (induction ps arbitrary: tracks skipped now)
  case (Cons p ps)
  show ?case
  proof (cases "cached_slot chunks p")
    case (Some x)
    obtain t slot where "x = (t, slot)" by fastforce
    with Some Cons show ?thesis
      by (cases slot)
        (auto simp: window_positions_step tracks_at_def skipped_at_def List.map_filter_simps simp del: window_positions.simps)
  qed (simp add: window_positions_step del: window_positions.simps)
qed (simp add: tracks_at_def skipped_at_def List.map_filter_simps)

definition is_track_at :: "persisted_chunk list \<Rightarrow> nat \<Rightarrow> bool" where
  "is_track_at chunks p \<longleftrightarrow> (\<exists>t summary. cached_slot chunks p = Some (t, TrackSlot summary))"

lemma tracks_at_positions: "map fst (tracks_at chunks ps) = filter (is_track_at chunks) ps"
  by (induction ps)
    (auto simp: tracks_at_def List.map_filter_simps is_track_at_def split: option.split persisted_slot.split)

lemma skipped_at_positions:
  "\<forall>p \<in> set ps. cached_slot chunks p \<noteq> None \<Longrightarrow>
     map sk_position (skipped_at chunks ps) = filter (\<lambda>p. \<not> is_track_at chunks p) ps"
  by (induction ps)
    (auto simp: skipped_at_def List.map_filter_simps is_track_at_def split: option.splits persisted_slot.splits)

lemma cache_window_view:
  assumes "cache_window cache pid sid offset limit = Some w"
  obtains e where "find_entry (pc_inner cache) pid sid = Some e" "valid_key pid sid"
    "offset \<le> cacheable_total (en_total e)" "cw_total w = en_total e"
    "\<forall>p \<in> set [offset..<min (offset + limit) (cacheable_total (en_total e))].
       cached_slot (en_chunks e) p \<noteq> None"
    "cw_tracks w = tracks_at (en_chunks e) [offset..<min (offset + limit) (cacheable_total (en_total e))]"
    "cw_skipped w = skipped_at (en_chunks e) [offset..<min (offset + limit) (cacheable_total (en_total e))]"
    "cw_next_offset w = (if offset + limit < cacheable_total (en_total e) then Some (offset + limit) else None)"
  using assms
  by (auto simp: cache_window_def Let_def window_positions_result min_less_iff_disj
      split: if_splits option.splits)

text \<open>A window that is answered covers its range: every position from the offset up to the limit or
  the end of what can be cached appears exactly once, as a track or as a skipped item, in the order
  of the playlist, and the next offset is where the window ends.
\<close>

lemma window_covers_its_range:
  assumes "cache_window cache pid sid offset limit = Some w"
  shows "let last = min (offset + limit) (cacheable_total (cw_total w)) in
     sort (map fst (cw_tracks w) @ map sk_position (cw_skipped w)) = [offset..<last]
     \<and> sorted (map fst (cw_tracks w)) \<and> sorted (map sk_position (cw_skipped w))
     \<and> cw_next_offset w = (if last < cacheable_total (cw_total w) then Some last else None)"
proof -
  obtain e where "find_entry (pc_inner cache) pid sid = Some e" "valid_key pid sid"
    "offset \<le> cacheable_total (en_total e)" and e: "cw_total w = en_total e"
    "\<forall>p \<in> set [offset..<min (offset + limit) (cacheable_total (en_total e))].
       cached_slot (en_chunks e) p \<noteq> None"
    "cw_tracks w = tracks_at (en_chunks e) [offset..<min (offset + limit) (cacheable_total (en_total e))]"
    "cw_skipped w = skipped_at (en_chunks e) [offset..<min (offset + limit) (cacheable_total (en_total e))]"
    "cw_next_offset w = (if offset + limit < cacheable_total (en_total e) then Some (offset + limit) else None)"
    using assms by (rule cache_window_view)
  let ?ps = "[offset..<min (offset + limit) (cacheable_total (cw_total w))]"
  have parts: "map fst (cw_tracks w) = filter (is_track_at (en_chunks e)) ?ps"
    "map sk_position (cw_skipped w) = filter (\<lambda>p. \<not> is_track_at (en_chunks e) p) ?ps"
    using e by (simp_all only: tracks_at_positions skipped_at_positions)
  have "sort (map fst (cw_tracks w) @ map sk_position (cw_skipped w)) = ?ps"
    unfolding parts
    by (rule properties_for_sort)
      (simp_all only: mset_append mset_filter multiset_partition [symmetric] sorted_upt)
  moreover have "sorted (map fst (cw_tracks w))" "sorted (map sk_position (cw_skipped w))"
    unfolding parts by (simp_all add: sorted_wrt_filter)
  ultimately show ?thesis using e(1,5) by (auto simp: Let_def min_def)
qed

section \<open>Merging and reading back\<close>

lemma chunk_fits: "\<not> MAX_PLAYLIST_ITEMS_CACHE_TOTAL < PLAYLIST_ITEMS_CACHE_CHUNK_SIZE"
  by (simp add: cache_limits)

lemma find_chunk:
  assumes "distinct (map ch_offset cs)" and "c \<in> set cs"
  shows "List.find (\<lambda>x. ch_offset x = ch_offset c) cs = Some c"
  using assms by (induction cs) (auto simp: rev_image_eqI)

lemma aligned_in_chunk:
  "offset mod PLAYLIST_ITEMS_CACHE_CHUNK_SIZE = 0 \<Longrightarrow> i < PLAYLIST_ITEMS_CACHE_CHUNK_SIZE \<Longrightarrow>
     aligned_offset (offset + i) = offset"
  by (auto simp: aligned_offset_def cache_limits elim!: dvdE)

lemma cached_in_chunk:
  assumes "cache_entry_ok e" and "c \<in> set (en_chunks e)" and "i < length (ch_slots c)"
  shows "cached_slot (en_chunks e) (ch_offset c + i) = Some (ch_fetched_at_ms c, ch_slots c ! i)"
proof -
  have c: "chunk_ok (en_total e) c" "distinct (map ch_offset (en_chunks e))"
    using assms by (auto simp: cache_entry_ok_def entry_loads_def list_all_iff)
  then have "aligned_offset (ch_offset c + i) = ch_offset c"
    using assms(3) by (intro aligned_in_chunk) (auto simp: chunk_ok_def offset_valid_def expected_length_def)
  then show ?thesis using find_chunk [OF c(2) assms(2)] assms(3) by (simp add: cached_slot_def)
qed

text \<open>The range of a chunk is the part of the playlist from its offset, fifty positions at most.\<close>

lemma chunk_range:
  assumes "chunk_ok n c"
  shows "min (ch_offset c + PLAYLIST_ITEMS_CACHE_CHUNK_SIZE) (cacheable_total n)
      = ch_offset c + length (ch_slots c)" "ch_offset c \<le> cacheable_total n"
proof -
  obtain k where k: "ch_offset c = 50 * k" using assms
    by (auto simp: chunk_ok_def offset_valid_def cache_limits mod_eq_0_iff_dvd elim!: dvdE)
  have len: "length (ch_slots c) = min (n - ch_offset c) 50"
    "n = 0 \<Longrightarrow> ch_offset c = 0" "0 < n \<Longrightarrow> ch_offset c < min n 1000"
    using assms by (auto simp: chunk_ok_def offset_valid_def expected_length_def cacheable_total_def cache_limits)
  have "ch_offset c + 50 \<le> 1000" if "0 < n" using len(3) [OF that] k by simp
  with len show "min (ch_offset c + PLAYLIST_ITEMS_CACHE_CHUNK_SIZE) (cacheable_total n)
      = ch_offset c + length (ch_slots c)" "ch_offset c \<le> cacheable_total n"
    unfolding cacheable_total_def cache_limits by (cases "n = 0"; auto simp: min_def)+
qed

lemma in_tracks_at:
  "(p, s) \<in> set (tracks_at chunks ps) \<longleftrightarrow>
     p \<in> set ps \<and> (\<exists>t. cached_slot chunks p = Some (t, TrackSlot s))"
  by (induction ps)
    (auto simp: tracks_at_def List.map_filter_simps split: option.splits persisted_slot.splits)

lemma in_skipped_at:
  "item \<in> set (skipped_at chunks ps) \<longleftrightarrow> sk_position item \<in> set ps
     \<and> (\<exists>t. cached_slot chunks (sk_position item) = Some (t, SkippedSlot (sk_reason item)))"
  by (induction ps)
    (auto simp: skipped_at_def List.map_filter_simps split: option.splits persisted_slot.splits)

lemma in_items:
  "(p, TrackSlot s) \<in> set (track_items tracks @ skipped_items skipped) \<longleftrightarrow> (p, s) \<in> set tracks"
  "(sk_position item, SkippedSlot (sk_reason item)) \<in> set (track_items tracks @ skipped_items skipped)
     \<longleftrightarrow> item \<in> set skipped"
proof -
  show "(p, TrackSlot s) \<in> set (track_items tracks @ skipped_items skipped) \<longleftrightarrow> (p, s) \<in> set tracks"
    by (force simp: track_items_def skipped_items_def)
  have "item \<in> set skipped"
    if lhs: "(sk_position item, SkippedSlot (sk_reason item)) \<in> set (skipped_items skipped)"
  proof -
    obtain x where x: "x \<in> set skipped"
      "(sk_position item, SkippedSlot (sk_reason item)) = (sk_position x, SkippedSlot (sk_reason x))"
      using lhs unfolding skipped_items_def set_map by blast
    from x(2) have "x = item" by simp
    with x(1) show ?thesis by simp
  qed
  then show "(sk_position item, SkippedSlot (sk_reason item))
      \<in> set (track_items tracks @ skipped_items skipped) \<longleftrightarrow> item \<in> set skipped"
    by (auto simp: track_items_def skipped_items_def)
qed

lemma chunk_window:
  assumes e: "cache_entry_ok e" and c: "c \<in> set (en_chunks e)"
    and items: "set (track_items tracks @ skipped_items skipped)
        = {(ch_offset c + i, ch_slots c ! i) | i. i < length (ch_slots c)}"
      "distinct (map fst (track_items tracks @ skipped_items skipped))"
  defines "ps \<equiv> [ch_offset c..<ch_offset c + length (ch_slots c)]"
  shows "tracks_at (en_chunks e) ps = sort_key fst tracks"
    "skipped_at (en_chunks e) ps = sort_key sk_position skipped"
    "\<forall>p \<in> set ps. cached_slot (en_chunks e) p \<noteq> None"
proof -
  have slot: "cached_slot (en_chunks e) p = Some (t, s) \<longleftrightarrow>
      t = ch_fetched_at_ms c \<and> (p, s) \<in> set (track_items tracks @ skipped_items skipped)"
    if "p \<in> set ps" for p t s
  proof -
    obtain i where i: "p = ch_offset c + i" "i < length (ch_slots c)"
      using \<open>p \<in> set ps\<close> by (auto simp: ps_def dest: le_Suc_ex)
    with cached_in_chunk [OF e c i(2)] show ?thesis unfolding items(1) by auto
  qed
  have pos: "p \<in> set ps" if "(p, s) \<in> set (track_items tracks @ skipped_items skipped)" for p s
    using that unfolding items(1) by (auto simp: ps_def)
  show all: "\<forall>p \<in> set ps. cached_slot (en_chunks e) p \<noteq> None"
  proof
    fix p assume "p \<in> set ps"
    then obtain i where "p = ch_offset c + i" "i < length (ch_slots c)"
      by (auto simp: ps_def dest: le_Suc_ex)
    with cached_in_chunk [OF e c] show "cached_slot (en_chunks e) p \<noteq> None" by simp
  qed
  have "set (tracks_at (en_chunks e) ps) = set tracks"
    using slot pos [OF in_items(1) [THEN iffD2]]
    by (auto simp: in_tracks_at in_items simp del: set_append)
  moreover have "sorted (map fst (tracks_at (en_chunks e) ps))" "distinct (map fst (tracks_at (en_chunks e) ps))"
    unfolding tracks_at_positions by (simp_all add: ps_def sorted_wrt_filter)
  moreover have "distinct (map fst tracks)"
    using items(2) by (simp add: track_items_def comp_def case_prod_beta)
  ultimately show "tracks_at (en_chunks e) ps = sort_key fst tracks"
    by (intro map_sorted_distinct_set_unique [where f = fst]) (auto simp: distinct_map)
  have "item \<in> set (skipped_at (en_chunks e) ps) \<longleftrightarrow> item \<in> set skipped" for item
    using slot [of "sk_position item" t "SkippedSlot (sk_reason item)" for t] pos [of "sk_position item" "SkippedSlot (sk_reason item)"]
    by (auto simp: in_skipped_at in_items simp del: set_append)
  then have "set (skipped_at (en_chunks e) ps) = set skipped" by blast
  moreover have "sorted (map sk_position (skipped_at (en_chunks e) ps))"
    "distinct (map sk_position (skipped_at (en_chunks e) ps))"
    unfolding skipped_at_positions [OF all] by (simp_all add: ps_def sorted_wrt_filter)
  moreover have "distinct (map sk_position skipped)"
    using items(2) by (simp add: skipped_items_def comp_def)
  ultimately show "skipped_at (en_chunks e) ps = sort_key sk_position skipped"
    by (intro map_sorted_distinct_set_unique [where f = sk_position]) (auto simp: distinct_map)
qed

text \<open>
  C12: a merge that succeeds can be read back: the window of the merged chunk answers exactly the
  tracks and the skipped items that were given, each once and in the order of the playlist.
\<close>

theorem merged_chunk_is_answered:
  assumes "cache_file_ok (pc_inner cache)"
    and "merge_chunk render tmp cache playlist offset n tracks skipped now d = (Done cache', d')"
  shows "\<exists>sid w. fs_snapshot_id playlist = Some sid
    \<and> cache_window cache' (fs_spotify_id playlist) sid offset PLAYLIST_ITEMS_CACHE_CHUNK_SIZE = Some w
    \<and> cw_tracks w = sort_key fst tracks \<and> cw_skipped w = sort_key sk_position skipped
    \<and> cw_total w = unat n \<and> has_chunk cache' (fs_spotify_id playlist) sid offset"
proof -
  obtain data' where merge: "merge_candidate (pc_inner cache) playlist offset n tracks skipped now = Inr data'"
    and cache': "cache' = cache\<lparr>pc_inner := data'\<rparr>"
    using assms(2) by (auto simp: merge_chunk_def persist_locked_def io_defs
        split: if_splits sum.splits prod.splits outcome.splits)
  from merge_candidate_ok [OF assms(1) merge] obtain sid chunk e where
    sid: "fs_snapshot_id playlist = Some sid" "valid_key (fs_spotify_id playlist) sid"
    and chunk: "build_chunk offset (unat n) tracks skipped now = Inr chunk"
    and e: "find_entry data' (fs_spotify_id playlist) sid = Some e" "cache_entry_ok e"
      "en_total e = unat n" "chunk \<in> set (en_chunks e)" by blast
  from build_chunk_holds [OF chunk] have c: "chunk_ok (unat n) chunk" "ch_offset chunk = offset"
    "distinct (map fst (track_items tracks @ skipped_items skipped))"
    "set (track_items tracks @ skipped_items skipped)
       = {(ch_offset chunk + i, ch_slots chunk ! i) | i. i < length (ch_slots chunk)}" by blast+
  note parts = chunk_window [OF e(2,4) c(4,3)]
  note range = chunk_range [OF c(1), unfolded c(2)]
  have "cache_window cache' (fs_spotify_id playlist) sid offset PLAYLIST_ITEMS_CACHE_CHUNK_SIZE \<noteq> None"
    and "\<forall>w. cache_window cache' (fs_spotify_id playlist) sid offset PLAYLIST_ITEMS_CACHE_CHUNK_SIZE = Some w
      \<longrightarrow> cw_tracks w = sort_key fst tracks \<and> cw_skipped w = sort_key sk_position skipped \<and> cw_total w = unat n"
    using sid(2) e(1,3) parts [unfolded c(2)] range(2) chunk_fits
    by (auto simp: cache_window_def cache' Let_def range(1) window_positions_result not_less)
  moreover have "has_chunk cache' (fs_spotify_id playlist) sid offset"
    using sid(2) e(1,4) c(1,2) by (auto simp: has_chunk_def cache' list_ex_iff chunk_ok_def offset_valid_def)
  ultimately show ?thesis using sid(1) by auto
qed

section \<open>Concrete caches\<close>

definition demo_song :: favorite_summary where
  "demo_song = \<lparr>fs_spotify_id = ''0123456789012345678901'',
     fs_spotify_uri = ''spotify:track:0123456789012345678901'',
     fs_spotify_url = ''https://open.spotify.com/track/0123456789012345678901'', fs_name = ''Song'',
     fs_artist = Some ''Band'', fs_owner = None, fs_description = None, fs_artwork_url = None,
     fs_duration_ms = None, fs_track_count = None, fs_snapshot_id = None, fs_explicit = None\<rparr>"

definition demo_list :: favorite_summary where
  "demo_list = demo_song\<lparr>fs_spotify_id := ''0000000000000000000000'', fs_snapshot_id := Some ''s1''\<rparr>"

definition demo_cache :: playlist_items_cache where
  "demo_cache = \<lparr>pc_path = ''c'', pc_writable = True, pc_inner = playlist_cache_file_default\<rparr>"

definition demo_skip :: skipped_playlist_item where
  "demo_skip = \<lparr>sk_position = 1, sk_reason = ''local''\<rparr>"

definition demo_merged :: playlist_cache_file where
  "demo_merged = playlist_cache_file_default\<lparr>cf_entries :=
     [\<lparr>en_playlist_id = ''0000000000000000000000'', en_snapshot_id = ''s1'', en_total = 2,
       en_updated_at_ms = 7,
       en_chunks = [\<lparr>ch_offset = 0, ch_fetched_at_ms = 7,
         ch_slots = [TrackSlot demo_song, SkippedSlot ''local'']\<rparr>]\<rparr>]\<rparr>"

lemma demo_default_ok: "cache_file_ok playlist_cache_file_default"
  by (simp add: cache_file_ok_def playlist_cache_file_default_def over_limits_def)

lemma demo_texts: "validate_track_summary demo_song = Inr ()" "validate_skip_reason ''local'' = Inr ()"
  "valid_key ''0000000000000000000000'' ''s1''"
  by code_simp+

lemma demo_chunk:
  "build_chunk 0 2 [(0, demo_song)] [demo_skip] 7 = Inr \<lparr>ch_offset = 0, ch_fetched_at_ms = 7,
     ch_slots = [TrackSlot demo_song, SkippedSlot ''local'']\<rparr>"
  using demo_texts(1,2)
  by (simp add: build_chunk_def cache_limits cacheable_total_def expected_length_def demo_skip_def
      validate_position_def place_slot_def numeral_2_eq_2)

lemma demo_merge:
  "merge_candidate (pc_inner demo_cache) demo_list 0 2 [(0, demo_song)] [demo_skip] 7 = Inr demo_merged"
  using demo_chunk
  by (simp add: merge_candidate_def demo_list_def validate_key_def demo_texts
      MAX_PLAYLIST_ITEMS_SOURCE_TOTAL_def demo_cache_def demo_merged_def
      playlist_cache_file_default_def merged_entries_def merge_into_entry_def
      prune_to_limits.simps over_limits_def MAX_CACHE_ENTRIES_def MAX_CACHE_POSITIONS_def
      entry_positions_def)

definition demo_cache_disk :: "io_event list \<Rightarrow> disk" where
  "demo_cache_disk events = \<lparr>dk_files = [], dk_events = events\<rparr>"

definition demo_cache_render :: "playlist_cache_file \<Rightarrow> string" where
  "demo_cache_render data = (if data = demo_merged then ''m'' else ''d'')"

lemma demo_write:
  "merge_chunk demo_cache_render ''r'' demo_cache demo_list 0 2 [(0, demo_song)] [demo_skip] 7 (demo_cache_disk [])
     = (Done (demo_cache\<lparr>pc_inner := demo_merged\<rparr>), \<lparr>dk_files = [(''c'', ''m'')], dk_events = []\<rparr>)"
  unfolding merge_chunk_def demo_merge
  by (simp add: Let_def demo_cache_def persist_locked_def write_atomic_def io_defs demo_cache_disk_def
      fs_create_new_def fs_write_all_def fs_sync_def fs_rename_def fs_call_def next_event_def fs_exists_def
      append_bytes_def hm_insert_def hm_remove_def hm_get_def demo_cache_render_def
      temp_path_def backup_path_def)

theorem merged_chunk_is_answered_witness:
  "\<exists>w. cache_window (demo_cache\<lparr>pc_inner := demo_merged\<rparr>) ''0000000000000000000000'' ''s1'' 0
       PLAYLIST_ITEMS_CACHE_CHUNK_SIZE = Some w
     \<and> cw_tracks w = [(0, demo_song)] \<and> cw_skipped w = [demo_skip] \<and> cw_total w = 2"
proof -
  have "cache_file_ok (pc_inner demo_cache)" by (simp add: demo_cache_def demo_default_ok)
  from merged_chunk_is_answered [OF this demo_write] show ?thesis
    by (auto simp: demo_list_def)
qed

section \<open>Eviction is by age\<close>

text \<open>What a merge evicts to stay within sixty-four playlists and ten thousand positions is the
  least recently fetched: nothing evicted was updated after anything kept, the playlist just merged
  is never evicted, and the order of the others stays.
\<close>

lemma eviction_is_oldest_first:
  assumes "e \<in> set es" and "e \<notin> set (prune_to_limits protected es)"
  shows "entry_key e \<noteq> protected \<and> subseq (prune_to_limits protected es) es
    \<and> (\<forall>kept \<in> set (prune_to_limits protected es). entry_key kept = protected
         \<or> en_updated_at_ms e \<le> en_updated_at_ms kept)"
proof -
  have "\<forall>kept \<in> set (prune_to_limits protected es). entry_key kept = protected
         \<or> en_updated_at_ms e \<le> en_updated_at_ms kept"
    using assms
  proof (induction protected es rule: prune_to_limits.induct)
    case (1 p es)
    obtain i where over: "over_limits es" and i: "eviction_candidate p es = Some i"
      using 1(2,3) by (auto simp: prune_to_limits.simps [of p es] split: if_splits option.splits)
    then have step: "prune_to_limits p es = prune_to_limits p (remove_nth i es)"
      by (simp add: prune_to_limits.simps [of p es])
    note cand = eviction_candidate_entry [OF i]
    show ?case
    proof (cases "e \<in> set (remove_nth i es)")
      case True
      with 1 over i step show ?thesis by simp
    next
      case False
      with remove_nth_keeps [of i es e] 1(2) cand have "e = es ! i" by blast
      moreover have "set (prune_to_limits p (remove_nth i es)) \<subseteq> set es"
        using prune_keeps_entries(1) [of p es] step by simp
      ultimately show ?thesis using cand unfolding step by (metis in_set_conv_nth subsetD)
    qed
  qed
  then show ?thesis using prune_subseq prune_keeps_protected assms by blast
qed

section \<open>Writes that fail\<close>

text \<open>What can be asked of the cache that writes it; the flag or the count answered is dropped.\<close>

datatype cache_request =
    MergeChunk favorite_summary nat u64 "(nat \<times> favorite_summary) list" "skipped_playlist_item list" u64
  | InvalidateSnapshot string string
  | InvalidateStale string string

definition serve ::
  "(playlist_cache_file \<Rightarrow> string) \<Rightarrow> string \<Rightarrow> cache_request \<Rightarrow> playlist_items_cache
   \<Rightarrow> playlist_items_cache io" where
  "serve render tmp request cache =
     (case request of
        MergeChunk playlist offset n tracks skipped now \<Rightarrow>
          merge_chunk render tmp cache playlist offset n tracks skipped now
      | InvalidateSnapshot pid sid \<Rightarrow>
          io_bind (invalidate_snapshot render tmp cache pid sid) (\<lambda>(cache', _). io_return cache')
      | InvalidateStale pid sid \<Rightarrow>
          io_bind (invalidate_stale_snapshots render tmp cache pid sid) (\<lambda>(cache', _). io_return cache'))"

text \<open>The value a request would write, where it writes.\<close>

definition request_candidate :: "cache_request \<Rightarrow> playlist_cache_file \<Rightarrow> playlist_cache_file option" where
  "request_candidate request data =
     (case request of
        MergeChunk playlist offset n tracks skipped now \<Rightarrow>
          (case merge_candidate data playlist offset n tracks skipped now of Inl _ \<Rightarrow> None | Inr x \<Rightarrow> Some x)
      | InvalidateSnapshot pid sid \<Rightarrow> Some (data\<lparr>cf_entries :=
          filter (\<lambda>e. en_playlist_id e \<noteq> pid \<or> en_snapshot_id e \<noteq> sid) (cf_entries data)\<rparr>)
      | InvalidateStale pid sid \<Rightarrow> Some (data\<lparr>cf_entries :=
          filter (\<lambda>e. en_playlist_id e \<noteq> pid \<or> en_snapshot_id e = sid) (cf_entries data)\<rparr>))"

text \<open>Every request either leaves cache and disk alone or writes one valid candidate.\<close>

lemma filtered_file_ok: "cache_file_ok data \<Longrightarrow> cache_file_ok (data\<lparr>cf_entries := filter P (cf_entries data)\<rparr>)"
proof -
  have shorter: "sum_list (map f (filter P xs)) \<le> sum_list (map f xs)"
    for f :: "playlist_cache_entry \<Rightarrow> nat" and xs
    by (induction xs) auto
  assume "cache_file_ok data"
  then show ?thesis
    by (auto simp: cache_file_ok_def over_limits_def not_less list_all_iff distinct_map
        intro: inj_on_subset order_trans [OF length_filter_le] order_trans [OF shorter])
qed

lemma serve_cases:
  assumes "cache_file_ok (pc_inner cache)"
  shows "(\<exists>k. serve render tmp request cache = io_fail k) \<or> serve render tmp request cache = io_return cache
    \<or> (\<exists>data. cache_file_ok data \<and> request_candidate request (pc_inner cache) = Some data
        \<and> serve render tmp request cache = persist_locked render tmp cache data)"
proof -
  have bind: "io_bind (io_bind m (\<lambda>c. io_return (c, x))) (\<lambda>(c, _). io_return c) = m"
    for m :: "playlist_items_cache io" and x :: 'x
    by (rule ext) (simp add: io_bind_def io_return_def split: prod.split outcome.split)
  have drop: "io_bind (io_fail k) f = io_fail k" "io_bind (io_return x) g = g x"
    for k x and f :: "'u \<Rightarrow> 'v io" and g :: "'w \<Rightarrow> 'v io"
    by (simp_all add: io_defs fun_eq_iff)
  show ?thesis
  proof (cases request)
    case (MergeChunk playlist offset n tracks skipped now)
    show ?thesis
    proof (cases "merge_candidate (pc_inner cache) playlist offset n tracks skipped now")
      case (Inr data)
      with merge_candidate_ok [OF assms Inr] MergeChunk show ?thesis
        by (cases "pc_writable cache") (simp_all add: serve_def request_candidate_def merge_chunk_def, blast+)
    qed (use MergeChunk in \<open>simp add: serve_def merge_chunk_def, blast\<close>)
  next
    case (InvalidateSnapshot pid sid)
    then show ?thesis
      using filtered_file_ok [OF assms]
      by (auto simp: serve_def request_candidate_def invalidate_snapshot_def Let_def drop bind split: sum.split)
  next
    case (InvalidateStale pid sid)
    then show ?thesis
      using filtered_file_ok [OF assms]
      by (auto simp: serve_def request_candidate_def invalidate_stale_snapshots_def Let_def drop bind split: sum.split)
  qed
qed

text \<open>
  Memory and disk agree: the value is valid, opening the files would find it, and the backup is only
  a spare copy. \<open>reopened\<close> is what a restart of the service answers when no call fails.
\<close>

definition synced :: "(string \<Rightarrow> playlist_cache_file option) \<Rightarrow> playlist_items_cache \<Rightarrow> disk \<Rightarrow> bool" where
  "synced parse cache d \<longleftrightarrow> cache_file_ok (pc_inner cache) \<and> settled (pc_path cache) (dk_files d)
     \<and> cache_store.agrees parse playlist_cache_file_default (pc_path cache) (pc_inner cache) (dk_files d)"

definition reopened ::
  "(string \<Rightarrow> playlist_cache_file option) \<Rightarrow> string \<Rightarrow> disk \<Rightarrow> playlist_items_cache outcome \<times> disk" where
  "reopened parse path d = open_cache parse path (d\<lparr>dk_events := []\<rparr>)"

lemma load_file_validates: "load_file parse = (\<lambda>bytes. Option.bind (parse bytes) validate_file)"
  by (simp add: fun_eq_iff load_file_def)

lemma opened_synced:
  assumes "open_cache parse path d = (Done cache, d')"
  shows "synced parse cache d' \<and> pc_path cache = path \<and> pc_writable cache"
proof -
  obtain data d1 where "open_store (load_file parse) playlist_cache_file_default path d = (Done data, d')"
    "cache = \<lparr>pc_path = path, pc_writable = True, pc_inner = data\<rparr>"
    using assms by (auto simp: open_cache_def io_defs split: prod.splits outcome.splits)
  with cache_store.opened_is_valid [OF this(1) [unfolded load_file_validates] demo_default_ok]
  show ?thesis by (simp add: synced_def)
qed

lemma reopened_agrees:
  assumes "cache_store.agrees parse playlist_cache_file_default path data (dk_files d)"
  shows "\<exists>d'. reopened parse path d = (Done \<lparr>pc_path = path, pc_writable = True, pc_inner = data\<rparr>, d')"
proof -
  have "cache_store.agrees parse playlist_cache_file_default path data (dk_files (d\<lparr>dk_events := []\<rparr>))"
    using assms by simp
  from cache_store.reopen_finds [OF this] obtain d' where
    "open_store (load_file parse) playlist_cache_file_default path (d\<lparr>dk_events := []\<rparr>) = (Done data, d')"
    unfolding load_file_validates by auto
  then show ?thesis by (simp add: reopened_def open_cache_def io_defs)
qed

text \<open>
  C14: every request to an open cache, whatever fails or is cut off, leaves files from which a restart
  answers either exactly the cache the request returned or, where it returned none, exactly the
  cache before; and every cache returned is valid, within its limits, and agrees with the disk.
\<close>

theorem cache_requests_survive_failures:
  assumes "\<forall>data. request_candidate request (pc_inner cache) = Some data \<longrightarrow> parse (render data) = Some data"
    and "synced parse cache d"
  shows "case serve render tmp request cache d of
      (Done cache', d') \<Rightarrow> synced parse cache' d' \<and> pc_path cache' = pc_path cache
        \<and> map_prod id (\<lambda>_. ()) (reopened parse (pc_path cache) d') = (Done (cache'\<lparr>pc_writable := True\<rparr>), ())
    | (_, d') \<Rightarrow>
        map_prod id (\<lambda>_. ()) (reopened parse (pc_path cache) d') = (Done (cache\<lparr>pc_writable := True\<rparr>), ())"
proof -
  let ?path = "pc_path cache" and ?agrees = "cache_store.agrees parse playlist_cache_file_default"
  have ok: "cache_file_ok (pc_inner cache)" using assms(2) by (simp add: synced_def)
  have again: "map_prod id (\<lambda>_. ()) (reopened parse ?path d') = (Done (c\<lparr>pc_writable := True\<rparr>), ())"
    if "?agrees ?path (pc_inner c) (dk_files d')" "pc_path c = ?path" for c d'
    using reopened_agrees [OF that(1)] that(2) by auto
  have here: "map_prod id (\<lambda>_. ()) (reopened parse ?path d) = (Done (cache\<lparr>pc_writable := True\<rparr>), ())"
    using again [of cache d] assms(2) by (simp add: synced_def)
  from serve_cases [OF ok, of render tmp request] consider
      (fail) k where "serve render tmp request cache = io_fail k"
    | (same) "serve render tmp request cache = io_return cache"
    | (put) data where "cache_file_ok data" "request_candidate request (pc_inner cache) = Some data"
        "serve render tmp request cache = persist_locked render tmp cache data" by blast
  then show ?thesis
  proof cases
    case put
    have "parse (render data) = Some data" using put(2) assms(1) by simp
    with cache_store.commit_leaves [where path = ?path and d = d and initial = playlist_cache_file_default
        and x = "pc_inner cache" and suffix = tmp and s = "cache\<lparr>pc_inner := data\<rparr>" and y = data
        and parse = parse and bytes = "render data"] put(1) assms(2)
    have "case persist_locked render tmp cache data d of
        (Done s, d') \<Rightarrow> s = cache\<lparr>pc_inner := data\<rparr> \<and> settled ?path (dk_files d') \<and> ?agrees ?path data (dk_files d')
      | (_, d') \<Rightarrow> ?agrees ?path (pc_inner cache) (dk_files d')"
      by (simp add: persist_locked_def synced_def)
    with put again [of "cache\<lparr>pc_inner := data\<rparr>"] again [of cache] show ?thesis
      by (auto simp: synced_def split: prod.splits outcome.splits)
  qed (use here assms(2) in \<open>simp_all add: io_defs\<close>)
qed

text \<open>The first merge of a new cache, cut off while the file is moved into place.\<close>

definition demo_cache_parse :: "string \<Rightarrow> playlist_cache_file option" where
  "demo_cache_parse bytes = (if bytes = ''m'' then Some demo_merged else None)"

theorem cache_requests_survive_failures_witness:
  "case merge_chunk demo_cache_render ''r'' demo_cache demo_list 0 2 [(0, demo_song)] [demo_skip] 7
       (demo_cache_disk [Succeeds, Succeeds, Succeeds, Halts 0]) of
     (Done _, _) \<Rightarrow> False
   | (_, d') \<Rightarrow> fst (reopened demo_cache_parse ''c'' d') = Done demo_cache"
proof -
  let ?request = "MergeChunk demo_list 0 2 [(0, demo_song)] [demo_skip] 7"
    and ?d = "demo_cache_disk [Succeeds, Succeeds, Succeeds, Halts 0]"
  have cut: "\<exists>d'. merge_chunk demo_cache_render ''r'' demo_cache demo_list 0 2 [(0, demo_song)] [demo_skip] 7 ?d
      = (Halted, d')"
    unfolding merge_chunk_def demo_merge
    by (simp add: Let_def demo_cache_def persist_locked_def write_atomic_def io_defs demo_cache_disk_def
        fs_create_new_def fs_write_all_def fs_sync_def fs_rename_def fs_call_def next_event_def
        fs_exists_def append_bytes_def hm_insert_def hm_remove_def hm_get_def temp_path_def backup_path_def)
  have "\<forall>data. request_candidate ?request (pc_inner demo_cache) = Some data \<longrightarrow>
      demo_cache_parse (demo_cache_render data) = Some data"
    using demo_merge by (simp add: request_candidate_def demo_cache_parse_def demo_cache_render_def)
  moreover have "synced demo_cache_parse demo_cache ?d"
    by (simp add: synced_def demo_cache_def demo_default_ok settled_def demo_cache_disk_def
        cache_store.agrees_def stored_def)
  ultimately have "case serve demo_cache_render ''r'' ?request demo_cache ?d of
      (Done cache', d') \<Rightarrow> synced demo_cache_parse cache' d' \<and> pc_path cache' = pc_path demo_cache
        \<and> map_prod id (\<lambda>_. ()) (reopened demo_cache_parse (pc_path demo_cache) d')
            = (Done (cache'\<lparr>pc_writable := True\<rparr>), ())
    | (_, d') \<Rightarrow> map_prod id (\<lambda>_. ()) (reopened demo_cache_parse (pc_path demo_cache) d')
            = (Done (demo_cache\<lparr>pc_writable := True\<rparr>), ())"
    by (rule cache_requests_survive_failures)
  with cut show ?thesis by (auto simp: serve_def demo_cache_def map_prod_def split: prod.splits)
qed

end
