(* ===== verification/FavoriteStore.thy ===== *)
theory FavoriteStore
  imports JamQueueApi JamHistory
begin

text \<open>
  The shared library of favourites (\<open>jam_library.rs\<close>): who favoured which track or playlist, kept
  in memory and in one JSON file, the short-lived cache of playlist covers, and the normalisation of
  what Spotify answers. The rendering to JSON and the parsing back, the parsing of URLs and
  Unicode's lower case are arguments.
\<close>

section \<open>Data\<close>

definition FAVORITES_SCHEMA_VERSION :: "16 word" where "FAVORITES_SCHEMA_VERSION = 1"
definition MAX_FAVORITES_LIMIT :: nat where "MAX_FAVORITES_LIMIT = 200"
definition PLAYLIST_ARTWORK_CACHE_MAX_ENTRIES :: nat where "PLAYLIST_ARTWORK_CACHE_MAX_ENTRIES = 512"
definition PLAYLIST_ARTWORK_CACHE_TTL_MS :: u64 where "PLAYLIST_ARTWORK_CACHE_TTL_MS = 3600000"
definition PLAYLIST_ARTWORK_NEGATIVE_TTL_MS :: u64 where "PLAYLIST_ARTWORK_NEGATIVE_TTL_MS = 300000"
definition PLAYLIST_ARTWORK_REFRESH_MAX_IDS :: nat where "PLAYLIST_ARTWORK_REFRESH_MAX_IDS = 50"

datatype favorite_kind = FavoriteTrack | FavoritePlaylist

definition kind_as_str :: "favorite_kind \<Rightarrow> string" where
  "kind_as_str kind = (case kind of FavoriteTrack \<Rightarrow> ''track'' | FavoritePlaylist \<Rightarrow> ''playlist'')"

definition kind_from_str :: "string \<Rightarrow> (status \<times> string) + favorite_kind" where
  "kind_from_str value =
     (if value = ''track'' then Inr FavoriteTrack
      else if value = ''playlist'' then Inr FavoritePlaylist
      else Inl (BAD_REQUEST, ''kind must be track or playlist''))"

record favorite_attribution =
  at_actor_id :: string
  at_display_name :: string
  at_added_at_ms :: u64
  at_source :: string

record favorite_item =
  fi_kind :: favorite_kind
  fi_summary :: favorite_summary
  fi_attributions :: "favorite_attribution list"

record favorite_file =
  ff_schema_version :: "16 word"
  ff_items :: "favorite_item list"

definition favorite_file_default :: favorite_file where
  "favorite_file_default = \<lparr>ff_schema_version = FAVORITES_SCHEMA_VERSION, ff_items = []\<rparr>"

record favorite_view =
  fv_kind :: favorite_kind
  fv_summary :: favorite_summary
  fv_attributions :: "favorite_attribution list"
  fv_contributor_count :: nat
  fv_favorited_by_me :: bool

record favorite_mutation =
  fm_item_created :: bool
  fm_attribution_added :: bool

record playlist_artwork_entry =
  pa_artwork_url :: "string option"
  pa_expires_at_ms :: u64
  pa_last_accessed_at_ms :: u64

record favorite_store =
  fav_path :: string
  fav_writable :: bool
  fav_inner :: favorite_file
  fav_artwork :: "(string, playlist_artwork_entry) hash_map"
  fav_artwork_generation :: u64

definition item_key :: "favorite_item \<Rightarrow> favorite_kind \<times> string" where
  "item_key item = (fi_kind item, fs_spotify_id (fi_summary item))"

section \<open>Covers of playlists\<close>

text \<open>What \<open>reqwest::Url\<close> reads from a text; \<open>url_text\<close> is its own rendering.\<close>

record parsed_url =
  url_scheme :: string
  url_username :: string
  url_password :: "string option"
  url_port :: "nat option"
  url_host :: "string option"
  url_text :: string

definition safe_spotify_playlist_artwork_url :: "(string \<Rightarrow> parsed_url option) \<Rightarrow> string \<Rightarrow> string option" where
  "safe_spotify_playlist_artwork_url parse_url value =
     (case parse_url (trim value) of None \<Rightarrow> None
      | Some parsed \<Rightarrow>
          if url_scheme parsed \<noteq> ''https'' \<or> url_username parsed \<noteq> [] \<or> url_password parsed \<noteq> None
             \<or> url_port parsed \<noteq> None then None
          else case url_host parsed of None \<Rightarrow> None
          | Some h \<Rightarrow>
              let host = map ascii_lower h;
                  spotify_cdn = (host = ''scdn.co'' \<or> ends_with host ''.scdn.co''
                    \<or> host = ''spotifycdn.com'' \<or> ends_with host ''.spotifycdn.com'')
              in if spotify_cdn then Some (url_text parsed) else None)"

definition remember_playlist_artwork_if_generation ::
  "(string \<Rightarrow> parsed_url option) \<Rightarrow> string \<Rightarrow> string option \<Rightarrow> u64 \<Rightarrow> u64 \<Rightarrow> favorite_store \<Rightarrow> favorite_store" where
  "remember_playlist_artwork_if_generation parse_url spotify_id artwork_url now_ms expected_generation store =
     (if \<not> valid_spotify_id spotify_id \<or> fav_artwork_generation store \<noteq> expected_generation then store
      else
        let url = Option.bind artwork_url (safe_spotify_playlist_artwork_url parse_url);
            ttl_ms = (if url \<noteq> None then PLAYLIST_ARTWORK_CACHE_TTL_MS else PLAYLIST_ARTWORK_NEGATIVE_TTL_MS);
            cache = fav_artwork store;
            room = (if hm_get cache spotify_id = None
                      \<and> PLAYLIST_ARTWORK_CACHE_MAX_ENTRIES \<le> length cache
              then (case min_by_key (\<lambda>(_, e). pa_last_accessed_at_ms e) cache of None \<Rightarrow> cache
                | Some (oldest_id, _) \<Rightarrow> hm_remove oldest_id cache)
              else cache)
        in store\<lparr>fav_artwork := hm_insert spotify_id
             \<lparr>pa_artwork_url = url, pa_expires_at_ms = sat_add now_ms ttl_ms,
              pa_last_accessed_at_ms = now_ms\<rparr> room\<rparr>)"

definition remember_playlist_artwork ::
  "(string \<Rightarrow> parsed_url option) \<Rightarrow> string \<Rightarrow> string option \<Rightarrow> u64 \<Rightarrow> favorite_store \<Rightarrow> favorite_store" where
  "remember_playlist_artwork parse_url spotify_id artwork_url now_ms store =
     remember_playlist_artwork_if_generation parse_url spotify_id artwork_url now_ms
       (fav_artwork_generation store) store"

definition cached_playlist_artwork ::
  "string \<Rightarrow> u64 \<Rightarrow> favorite_store \<Rightarrow> string option option \<times> favorite_store" where
  "cached_playlist_artwork spotify_id now_ms store =
     (case hm_get (fav_artwork store) spotify_id of None \<Rightarrow> (None, store)
      | Some e \<Rightarrow>
          if pa_expires_at_ms e \<le> now_ms
          then (None, store\<lparr>fav_artwork := hm_remove spotify_id (fav_artwork store)\<rparr>)
          else (Some (pa_artwork_url e), store\<lparr>fav_artwork :=
                  hm_insert spotify_id (e\<lparr>pa_last_accessed_at_ms := now_ms\<rparr>) (fav_artwork store)\<rparr>))"

text \<open>The views with the covers known, and the playlists whose cover is missing, each once.\<close>

fun apply_covers ::
  "u64 \<Rightarrow> favorite_view list \<Rightarrow> string list \<Rightarrow> favorite_store \<Rightarrow> favorite_view list \<times> string list \<times> favorite_store" where
  "apply_covers now_ms [] missing store = ([], missing, store)"
| "apply_covers now_ms (view # views) missing store =
     (if fv_kind view \<noteq> FavoritePlaylist then
        (case apply_covers now_ms views missing store of (vs, m, s) \<Rightarrow> (view # vs, m, s))
      else
        let i = fs_spotify_id (fv_summary view) in
        case cached_playlist_artwork i now_ms store of
          (Some url, store1) \<Rightarrow>
            (case apply_covers now_ms views missing store1 of (vs, m, s) \<Rightarrow>
               (view\<lparr>fv_summary := (fv_summary view)\<lparr>fs_artwork_url := url\<rparr>\<rparr> # vs, m, s))
        | (None, store1) \<Rightarrow>
            (case apply_covers now_ms views (if i \<in> set missing then missing else missing @ [i]) store1 of
               (vs, m, s) \<Rightarrow> (view # vs, m, s)))"

definition apply_cached_playlist_artwork ::
  "favorite_view list \<Rightarrow> u64 \<Rightarrow> favorite_store \<Rightarrow> favorite_view list \<times> string list \<times> favorite_store" where
  "apply_cached_playlist_artwork views now_ms store = apply_covers now_ms views [] store"

definition clear_playlist_artwork_cache :: "favorite_store \<Rightarrow> favorite_store" where
  "clear_playlist_artwork_cache store =
     store\<lparr>fav_artwork_generation := fav_artwork_generation store + 1, fav_artwork := []\<rparr>"

section \<open>Items\<close>

definition summary_for_persistence :: "favorite_kind \<Rightarrow> favorite_summary \<Rightarrow> favorite_summary" where
  "summary_for_persistence kind summary =
     (if kind = FavoritePlaylist then summary\<lparr>fs_artwork_url := None\<rparr> else summary)"

definition favorite_state :: "favorite_store \<Rightarrow> favorite_kind \<Rightarrow> string \<Rightarrow> string \<Rightarrow> bool \<times> nat" where
  "favorite_state store kind spotify_id actor =
     (case List.find (\<lambda>item. item_key item = (kind, spotify_id)) (ff_items (fav_inner store)) of
        None \<Rightarrow> (False, 0)
      | Some item \<Rightarrow> (list_ex (\<lambda>a. at_actor_id a = actor) (fi_attributions item),
                      length (fi_attributions item)))"

definition new_attribution :: "jam_actor \<Rightarrow> string \<Rightarrow> u64 \<Rightarrow> favorite_attribution" where
  "new_attribution actor source added_at_ms =
     \<lparr>at_actor_id = actor_id actor, at_display_name = actor_display_name actor,
      at_added_at_ms = added_at_ms, at_source = source\<rparr>"

text \<open>A known item: its summary is replaced, and its actor renamed or added.\<close>

definition contribute ::
  "favorite_summary \<Rightarrow> jam_actor \<Rightarrow> string \<Rightarrow> u64 \<Rightarrow> favorite_item \<Rightarrow> favorite_item \<times> bool" where
  "contribute summary actor source added_at_ms item =
     (let mine = (\<lambda>a. at_actor_id a = actor_id actor) in
      if list_ex mine (fi_attributions item) then
        (item\<lparr>fi_summary := summary, fi_attributions := update_first mine
            (\<lambda>a. a\<lparr>at_display_name := actor_display_name actor\<rparr>) (fi_attributions item)\<rparr>, False)
      else
        (item\<lparr>fi_summary := summary,
           fi_attributions := fi_attributions item @ [new_attribution actor source added_at_ms]\<rparr>, True))"

definition new_item ::
  "favorite_kind \<Rightarrow> favorite_summary \<Rightarrow> jam_actor \<Rightarrow> string \<Rightarrow> u64 \<Rightarrow> favorite_item" where
  "new_item kind summary actor source added_at_ms =
     \<lparr>fi_kind = kind, fi_summary = summary,
      fi_attributions = [new_attribution actor source added_at_ms]\<rparr>"

definition upsert_item ::
  "favorite_kind \<Rightarrow> favorite_summary \<Rightarrow> jam_actor \<Rightarrow> string \<Rightarrow> u64 \<Rightarrow> favorite_item list
   \<Rightarrow> favorite_item list \<times> favorite_item \<times> favorite_mutation" where
  "upsert_item kind raw actor source added_at_ms items =
     (let summary = summary_for_persistence kind raw in
      case find_index (\<lambda>item. item_key item = (kind, fs_spotify_id summary)) items of
        Some i \<Rightarrow>
          (case contribute summary actor source added_at_ms (items ! i) of (item, added) \<Rightarrow>
             (items[i := item], item, \<lparr>fm_item_created = False, fm_attribution_added = added\<rparr>))
      | None \<Rightarrow>
          let item = new_item kind summary actor source added_at_ms in
          (items @ [item], item, \<lparr>fm_item_created = True, fm_attribution_added = True\<rparr>))"

text \<open>\<open>upsert_many\<close>: the positions of the items are kept in a hash map by their key.\<close>

definition item_indices :: "favorite_item list \<Rightarrow> (favorite_kind \<times> string, nat) hash_map" where
  "item_indices items =
     fold (\<lambda>(i, item). hm_insert (item_key item) i) (List.enumerate 0 items) []"

fun upsert_items ::
  "(favorite_kind \<times> favorite_summary \<times> string) list \<Rightarrow> jam_actor \<Rightarrow> u64
   \<Rightarrow> (favorite_kind \<times> string, nat) hash_map \<Rightarrow> favorite_item list \<Rightarrow> nat \<Rightarrow> nat
   \<Rightarrow> favorite_item list \<times> nat \<times> nat" where
  "upsert_items [] actor added_at_ms indices items created added = (items, created, added)"
| "upsert_items ((kind, raw, source) # entries) actor added_at_ms indices items created added =
     (let summary = summary_for_persistence kind raw; key = (kind, fs_spotify_id summary) in
      case hm_get indices key of
        Some i \<Rightarrow>
          (case contribute summary actor source added_at_ms (items ! i) of (item, was_added) \<Rightarrow>
             upsert_items entries actor added_at_ms indices (items[i := item]) created
               (if was_added then added + 1 else added))
      | None \<Rightarrow>
          upsert_items entries actor added_at_ms (hm_insert key (length items) indices)
            (items @ [new_item kind summary actor source added_at_ms]) (created + 1) (added + 1))"

definition remove_at :: "nat \<Rightarrow> 'a list \<Rightarrow> 'a list" where
  "remove_at i xs = take i xs @ drop (Suc i) xs"

text \<open>None where nothing changed.\<close>

definition remove_actor_from ::
  "favorite_kind \<Rightarrow> string \<Rightarrow> string \<Rightarrow> favorite_item list \<Rightarrow> favorite_item list option" where
  "remove_actor_from kind spotify_id actor items =
     (case find_index (\<lambda>item. item_key item = (kind, spotify_id)) items of None \<Rightarrow> None
      | Some i \<Rightarrow>
          let before = fi_attributions (items ! i);
              after = filter (\<lambda>a. at_actor_id a \<noteq> actor) before
          in if length after = length before then None
             else if after = [] then Some (remove_at i items)
             else Some (items[i := (items ! i)\<lparr>fi_attributions := after\<rparr>]))"

section \<open>The file\<close>

fun retain_first_actors :: "string list \<Rightarrow> favorite_attribution list \<Rightarrow> favorite_attribution list" where
  "retain_first_actors actors [] = []"
| "retain_first_actors actors (a # as) =
     (if at_actor_id a \<noteq> [] \<and> at_actor_id a \<notin> set actors
      then a # retain_first_actors (at_actor_id a # actors) as
      else retain_first_actors actors as)"

definition bounded_attribution :: "favorite_attribution \<Rightarrow> favorite_attribution" where
  "bounded_attribution a =
     a\<lparr>at_display_name := bounded_jam_actor_display_name (Some (at_display_name a)) (at_actor_id a)\<rparr>"

fun validate_items ::
  "(favorite_kind \<times> string) list \<Rightarrow> favorite_item list \<Rightarrow> favorite_item list option" where
  "validate_items keys [] = Some []"
| "validate_items keys (raw # items) =
     (let item = raw\<lparr>fi_summary := summary_for_persistence (fi_kind raw) (fi_summary raw)\<rparr> in
      if \<not> valid_spotify_id (fs_spotify_id (fi_summary item)) \<or> blank (fs_name (fi_summary item))
         \<or> item_key item \<in> set keys then None
      else
        let kept = retain_first_actors [] (fi_attributions item) in
        if kept = [] then None
        else map_option (\<lambda>rest. item\<lparr>fi_attributions := map bounded_attribution kept\<rparr> # rest)
               (validate_items (item_key item # keys) items))"

text \<open>None is an error of kind \<open>InvalidData\<close>.\<close>

definition validate_favorite_file :: "favorite_file \<Rightarrow> favorite_file option" where
  "validate_favorite_file data =
     map_option (\<lambda>items. data\<lparr>ff_items := items\<rparr>) (validate_items [] (ff_items data))"

definition check_favorite_file :: "favorite_file \<Rightarrow> favorite_file option" where
  "check_favorite_file data =
     (if ff_schema_version data \<noteq> FAVORITES_SCHEMA_VERSION then None else validate_favorite_file data)"

definition load_favorite_file :: "(string \<Rightarrow> favorite_file option) \<Rightarrow> string \<Rightarrow> favorite_file option" where
  "load_favorite_file parse bytes = Option.bind (parse bytes) check_favorite_file"

definition favorites_with :: "string \<Rightarrow> bool \<Rightarrow> favorite_file \<Rightarrow> favorite_store" where
  "favorites_with path writable data =
     \<lparr>fav_path = path, fav_writable = writable, fav_inner = data, fav_artwork = [],
      fav_artwork_generation = 0\<rparr>"

definition open_favorites :: "(string \<Rightarrow> favorite_file option) \<Rightarrow> string \<Rightarrow> favorite_store io" where
  "open_favorites parse path =
     io_bind (open_store (load_favorite_file parse) favorite_file_default path)
       (\<lambda>data. io_return (favorites_with path True data))"

definition recover_favorites_read_only :: "(string \<Rightarrow> favorite_file option) \<Rightarrow> string \<Rightarrow> favorite_store io" where
  "recover_favorites_read_only parse path =
     io_bind (recover_read_only (load_favorite_file parse) favorite_file_default path)
       (\<lambda>data. io_return (favorites_with path False data))"

definition disabled_favorites :: "string \<Rightarrow> favorite_store" where
  "disabled_favorites path = favorites_with path False favorite_file_default"

section \<open>Mutations\<close>

definition persist_favorites ::
  "(favorite_file \<Rightarrow> string) \<Rightarrow> string \<Rightarrow> favorite_store \<Rightarrow> favorite_file \<Rightarrow> favorite_store io" where
  "persist_favorites render tmp store candidate =
     (if \<not> fav_writable store then io_fail PermissionDenied
      else io_then (write_atomic (fav_path store) tmp (render candidate))
        (io_return (store\<lparr>fav_inner := candidate\<rparr>)))"

definition upsert ::
  "(favorite_file \<Rightarrow> string) \<Rightarrow> (string \<Rightarrow> parsed_url option) \<Rightarrow> string \<Rightarrow> u64 \<Rightarrow> favorite_store \<Rightarrow> favorite_kind
   \<Rightarrow> favorite_summary \<Rightarrow> jam_actor \<Rightarrow> string \<Rightarrow> u64
   \<Rightarrow> (favorite_store \<times> favorite_item \<times> favorite_mutation) io" where
  "upsert render parse_url tmp now_ms store kind summary actor source added_at_ms =
     (case upsert_item kind summary actor source added_at_ms (ff_items (fav_inner store)) of
        (items, item, mutation) \<Rightarrow>
          io_bind (persist_favorites render tmp store ((fav_inner store)\<lparr>ff_items := items\<rparr>)) (\<lambda>store1.
          io_return (if kind = FavoritePlaylist
              then remember_playlist_artwork parse_url (fs_spotify_id summary) (fs_artwork_url summary)
                     now_ms store1
              else store1, item, mutation)))"

definition upsert_many ::
  "(favorite_file \<Rightarrow> string) \<Rightarrow> (string \<Rightarrow> parsed_url option) \<Rightarrow> string \<Rightarrow> u64 \<Rightarrow> favorite_store
   \<Rightarrow> (favorite_kind \<times> favorite_summary \<times> string) list \<Rightarrow> jam_actor \<Rightarrow> u64
   \<Rightarrow> (favorite_store \<times> nat \<times> nat) io" where
  "upsert_many render parse_url tmp now_ms store entries actor added_at_ms =
     (let items0 = ff_items (fav_inner store) in
      case upsert_items entries actor added_at_ms (item_indices items0) items0 0 0 of
        (items, created, added) \<Rightarrow>
          io_bind (persist_favorites render tmp store ((fav_inner store)\<lparr>ff_items := items\<rparr>)) (\<lambda>store1.
          io_return (fold (\<lambda>(kind, summary, _) s. if kind = FavoritePlaylist
                then remember_playlist_artwork parse_url (fs_spotify_id summary) (fs_artwork_url summary)
                       now_ms s
                else s) entries store1, created, added)))"

definition remove_actor ::
  "(favorite_file \<Rightarrow> string) \<Rightarrow> string \<Rightarrow> favorite_store \<Rightarrow> favorite_kind \<Rightarrow> string \<Rightarrow> string
   \<Rightarrow> (favorite_store \<times> bool) io" where
  "remove_actor render tmp store kind spotify_id actor =
     (case remove_actor_from kind spotify_id actor (ff_items (fav_inner store)) of
        None \<Rightarrow> io_return (store, False)
      | Some items \<Rightarrow>
          io_bind (persist_favorites render tmp store ((fav_inner store)\<lparr>ff_items := items\<rparr>)) (\<lambda>store1.
          io_return (store1, True)))"

section \<open>The invariant\<close>

definition favorite_item_ok :: "favorite_item \<Rightarrow> bool" where
  "favorite_item_ok item \<longleftrightarrow> valid_spotify_id (fs_spotify_id (fi_summary item))
     \<and> \<not> blank (fs_name (fi_summary item))
     \<and> summary_for_persistence (fi_kind item) (fi_summary item) = fi_summary item
     \<and> fi_attributions item \<noteq> [] \<and> [] \<notin> set (map at_actor_id (fi_attributions item))
     \<and> distinct (map at_actor_id (fi_attributions item))"

definition favorites_ok :: "favorite_file \<Rightarrow> bool" where
  "favorites_ok data \<longleftrightarrow> ff_schema_version data = FAVORITES_SCHEMA_VERSION
     \<and> list_all favorite_item_ok (ff_items data) \<and> distinct (map item_key (ff_items data))"

text \<open>A file loads again up to the display names, which loading trims and cuts.\<close>

definition forget_names :: "favorite_file \<Rightarrow> favorite_file" where
  "forget_names data = data\<lparr>ff_items := map (\<lambda>item. item\<lparr>fi_attributions :=
     map (\<lambda>a. a\<lparr>at_display_name := []\<rparr>) (fi_attributions item)\<rparr>) (ff_items data)\<rparr>"

definition same_favorites :: "favorite_file \<Rightarrow> favorite_file \<Rightarrow> bool" where
  "same_favorites a b \<longleftrightarrow> forget_names a = forget_names b"

lemma retain_first_actors_ok:
  "distinct (map at_actor_id (retain_first_actors actors as))
   \<and> [] \<notin> set (map at_actor_id (retain_first_actors actors as))
   \<and> set (map at_actor_id (retain_first_actors actors as)) \<inter> set actors = {}"
  by (induction actors as rule: retain_first_actors.induct) auto

lemma retain_first_actors_same:
  "distinct (map at_actor_id as) \<Longrightarrow> [] \<notin> set (map at_actor_id as) \<Longrightarrow>
     set (map at_actor_id as) \<inter> set actors = {} \<Longrightarrow> retain_first_actors actors as = as"
  by (induction actors as rule: retain_first_actors.induct) auto

lemma bounded_attribution_id [simp]: "at_actor_id (bounded_attribution a) = at_actor_id a"
  by (simp add: bounded_attribution_def)

lemma map_bounded_id [simp]: "map at_actor_id (map bounded_attribution as) = map at_actor_id as"
  by simp

lemma summary_for_persistence_simps [simp]:
  "summary_for_persistence kind (summary_for_persistence kind s) = summary_for_persistence kind s"
  "fs_spotify_id (summary_for_persistence kind s) = fs_spotify_id s"
  "fs_name (summary_for_persistence kind s) = fs_name s"
  by (simp_all add: summary_for_persistence_def)

lemma validate_items_ok:
  "validate_items keys items = Some items' \<Longrightarrow>
     list_all favorite_item_ok items' \<and> distinct (map item_key items')
     \<and> set (map item_key items') \<inter> set keys = {}"
proof (induction items arbitrary: keys items')
  case (Cons raw items)
  define item where "item = raw\<lparr>fi_summary := summary_for_persistence (fi_kind raw) (fi_summary raw)\<rparr>"
  define kept where "kept = retain_first_actors [] (fi_attributions item)"
  from Cons.prems obtain rest where
    guards: "valid_spotify_id (fs_spotify_id (fi_summary item))" "\<not> blank (fs_name (fi_summary item))"
      "item_key item \<notin> set keys" "kept \<noteq> []"
    and rest: "validate_items (item_key item # keys) items = Some rest"
    and items': "items' = item\<lparr>fi_attributions := map bounded_attribution kept\<rparr> # rest"
    by (auto simp: Let_def item_def [symmetric] kept_def [symmetric] split: if_splits)
  have "summary_for_persistence (fi_kind item) (fi_summary item) = fi_summary item"
    by (simp add: item_def)
  then have "favorite_item_ok (item\<lparr>fi_attributions := map bounded_attribution kept\<rparr>)"
    using guards retain_first_actors_ok [of "[]" "fi_attributions item"]
    by (simp add: favorite_item_ok_def kept_def [symmetric] comp_def)
  moreover have "item_key (item\<lparr>fi_attributions := x\<rparr>) = item_key item" for x
    by (simp add: item_key_def)
  ultimately show ?case using Cons.IH [OF rest] guards items' by auto
qed auto

definition bounded_item :: "favorite_item \<Rightarrow> favorite_item" where
  "bounded_item item = item\<lparr>fi_attributions := map bounded_attribution (fi_attributions item)\<rparr>"

lemma validate_items_same:
  "list_all favorite_item_ok items \<Longrightarrow> distinct (map item_key items) \<Longrightarrow>
     set (map item_key items) \<inter> set keys = {} \<Longrightarrow> validate_items keys items = Some (map bounded_item items)"
proof (induction items arbitrary: keys)
  case (Cons item items)
  then have same: "item\<lparr>fi_summary := summary_for_persistence (fi_kind item) (fi_summary item)\<rparr> = item"
    by (simp add: favorite_item_ok_def)
  have kept: "retain_first_actors [] (fi_attributions item) = fi_attributions item"
    using Cons.prems(1) by (intro retain_first_actors_same) (auto simp: favorite_item_ok_def)
  show ?case
    using Cons unfolding validate_items.simps Let_def same kept
    by (auto simp: favorite_item_ok_def bounded_item_def)
qed simp

lemma forget_bounded: "forget_names (data\<lparr>ff_items := map bounded_item (ff_items data)\<rparr>) = forget_names data"
  by (simp add: forget_names_def bounded_item_def bounded_attribution_def comp_def)

lemma check_favorite_file_ok: "check_favorite_file x = Some y \<Longrightarrow> favorites_ok y"
  by (auto simp: check_favorite_file_def validate_favorite_file_def favorites_ok_def
      dest!: validate_items_ok split: if_splits)

lemma check_favorite_file_alike:
  assumes "favorites_ok x"
  shows "\<exists>y. check_favorite_file x = Some y \<and> same_favorites y x"
proof -
  have "validate_items [] (ff_items x) = Some (map bounded_item (ff_items x))"
    using assms by (intro validate_items_same) (auto simp: favorites_ok_def)
  with assms forget_bounded [of x] show ?thesis
    by (simp add: check_favorite_file_def validate_favorite_file_def favorites_ok_def same_favorites_def)
qed

interpretation favorites: durable_store favorites_ok check_favorite_file same_favorites
proof unfold_locales
  show "same_favorites x x" for x by (simp add: same_favorites_def)
qed (fact check_favorite_file_ok check_favorite_file_alike)+

end
