(* ===== verification/FavoriteApi.thy ===== *)
theory FavoriteApi
  imports FavoriteStore
begin

text \<open>
  The requests on the library of favourites (\<open>jam_library.rs\<close>): what Spotify's objects become, the
  listing, adding, removing and the import of a Spotify library. The answers of the authentication
  and of Spotify, the clocks and the random suffixes of temporary files are arguments. A storage
  task that panics is left out: its closure does not.
\<close>

section \<open>One request to Spotify\<close>

definition api_failure :: "status \<Rightarrow> string \<Rightarrow> string \<Rightarrow> jam_api_error" where
  "api_failure s code message =
     \<lparr>ae_status = s, ae_code = code, ae_message = message, ae_retry_after = None\<rparr>"

definition unauthorized_error :: "status \<Rightarrow> jam_api_error" where
  "unauthorized_error s = api_failure s ''unauthorized'' ''Authentication required''"

definition actor_required_error :: "status \<Rightarrow> jam_api_error" where
  "actor_required_error s =
     api_failure s ''actor_required'' ''A current Echo participant token is required''"

definition spotify_library_scope_required_error :: jam_api_error where
  "spotify_library_scope_required_error = api_failure FORBIDDEN ''spotify_library_scope_required''
     ''Spotify Library access is missing. Use Refresh Spotify Access, then try again.''"

definition upstream_failure :: "status \<Rightarrow> status \<times> string" where
  "upstream_failure upstream =
     (if upstream = 400 then (BAD_REQUEST, ''spotify_bad_request'')
      else if upstream = 401 then (UNAUTHORIZED, ''spotify_unauthorized'')
      else if upstream = 403 then (FORBIDDEN, ''spotify_forbidden'')
      else if upstream = 404 then (NOT_FOUND, ''spotify_not_found'')
      else if upstream = 429 then (TOO_MANY_REQUESTS, ''spotify_rate_limited'')
      else (BAD_GATEWAY, ''spotify_upstream_error''))"

definition upstream_message :: "json option \<Rightarrow> string" where
  "upstream_message body =
     or_default ''Spotify request failed'' (filter_option (\<lambda>m. m \<noteq> [])
       (Option.bind body (\<lambda>value.
          case as_str (json_index (json_index value ''error'') ''message'') of Some m \<Rightarrow> Some m
          | None \<Rightarrow> as_str (json_index value ''error_description''))))"

text \<open>
  \<open>header\<close> is the raw header \<open>Retry-After\<close> of the answer, \<open>cooldown\<close> the seconds left of the rate
  limit. A body that is not JSON fails with the parser's text, which is left out.
\<close>

definition spotify_json_request ::
  "string option \<Rightarrow> string option \<Rightarrow> api_error + http_response \<Rightarrow> jam_api_error + json" where
  "spotify_json_request cooldown header answer =
     (case answer of
        Inl (s, message) \<Rightarrow>
          Inl \<lparr>ae_status = s,
               ae_code = (if s = TOO_MANY_REQUESTS then ''spotify_rate_limited'' else ''spotify_request_failed''),
               ae_message = message,
               ae_retry_after = (if s = TOO_MANY_REQUESTS then cooldown else None)\<rparr>
      | Inr response \<Rightarrow>
          if \<not> is_success (http_status response) then
            (case upstream_failure (http_status response) of (s, code) \<Rightarrow>
               Inl \<lparr>ae_status = s, ae_code = code, ae_message = upstream_message (http_json response),
                    ae_retry_after = header\<rparr>)
          else if blank (http_text response) then Inr JNull
          else case http_json response of Some value \<Rightarrow> Inr value
            | None \<Rightarrow> Inl (api_failure BAD_GATEWAY ''spotify_invalid_response''
                ''Spotify returned invalid JSON''))"

section \<open>Spotify's objects\<close>

fun json_path :: "json \<Rightarrow> string list \<Rightarrow> json option" where
  "json_path value [] = Some value"
| "json_path value (key # keys) = Option.bind (json_get value key) (\<lambda>v. json_path v keys)"

definition string_at :: "json \<Rightarrow> string list \<Rightarrow> string option" where
  "string_at value path =
     filter_option (\<lambda>v. v \<noteq> []) (map_option trim (Option.bind (json_path value path) as_str))"

definition first_image :: "json \<Rightarrow> string option" where
  "first_image value =
     Option.bind (Option.bind (Option.bind (json_get value ''images'') as_array) first_opt)
       (\<lambda>image. string_at image [''url''])"

definition playlist_artwork_from_images_response :: "json \<Rightarrow> string option" where
  "playlist_artwork_from_images_response value =
     Option.bind (Option.bind (as_array value) first_opt) (\<lambda>image. string_at image [''url''])"

fun join_with :: "string \<Rightarrow> string list \<Rightarrow> string" where
  "join_with sep [] = []"
| "join_with sep [s] = s"
| "join_with sep (s # ss) = s @ sep @ join_with sep ss"

definition artists :: "json \<Rightarrow> string option" where
  "artists value =
     Option.bind (Option.bind (json_get value ''artists'') as_array) (\<lambda>values.
       let names = List.map_filter (\<lambda>artist. string_at artist [''name'']) values
       in if names = [] then None else Some (join_with '', '' names))"

definition other_type :: "json \<Rightarrow> string \<Rightarrow> bool" where
  "other_type value expected \<longleftrightarrow>
     (case Option.bind (json_get value ''type'') as_str of None \<Rightarrow> False | Some t \<Rightarrow> t \<noteq> expected)"

definition normalize_track :: "json \<Rightarrow> string + favorite_summary" where
  "normalize_track value =
     (if other_type value ''track'' then Inl ''non_track''
      else if Option.bind (json_get value ''is_local'') as_bool = Some True then Inl ''local_track''
      else if Option.bind (json_get value ''is_playable'') as_bool = Some False then Inl ''unplayable''
      else case filter_option valid_spotify_id (string_at value [''id'']) of None \<Rightarrow> Inl ''malformed''
      | Some i \<Rightarrow>
      case filter_option (\<lambda>uri. uri = ''spotify:track:'' @ i) (string_at value [''uri'']) of
        None \<Rightarrow> Inl ''malformed''
      | Some uri \<Rightarrow>
      case string_at value [''name''] of None \<Rightarrow> Inl ''malformed''
      | Some name \<Rightarrow>
      case artists value of None \<Rightarrow> Inl ''malformed''
      | Some artist \<Rightarrow>
          Inr \<lparr>fs_spotify_id = i, fs_spotify_uri = uri,
               fs_spotify_url = ''https://open.spotify.com/track/'' @ i, fs_name = name,
               fs_artist = Some artist, fs_owner = None, fs_description = None,
               fs_artwork_url = Option.bind (json_get value ''album'') first_image,
               fs_duration_ms = Option.bind (json_get value ''duration_ms'') as_u64,
               fs_track_count = None, fs_snapshot_id = None,
               fs_explicit = Option.bind (json_get value ''explicit'') as_bool\<rparr>)"

definition or_else :: "'a option \<Rightarrow> 'a option \<Rightarrow> 'a option" where
  "or_else a b = (case a of None \<Rightarrow> b | Some _ \<Rightarrow> a)"

definition normalize_playlist :: "json \<Rightarrow> string + favorite_summary" where
  "normalize_playlist value =
     (if other_type value ''playlist'' then Inl ''non_playlist''
      else case filter_option valid_spotify_id (string_at value [''id'']) of None \<Rightarrow> Inl ''malformed''
      | Some i \<Rightarrow>
      case filter_option (\<lambda>uri. uri = ''spotify:playlist:'' @ i) (string_at value [''uri'']) of
        None \<Rightarrow> Inl ''malformed''
      | Some uri \<Rightarrow>
      case string_at value [''name''] of None \<Rightarrow> Inl ''malformed''
      | Some name \<Rightarrow>
          Inr \<lparr>fs_spotify_id = i, fs_spotify_uri = uri,
               fs_spotify_url = ''https://open.spotify.com/playlist/'' @ i, fs_name = name,
               fs_artist = None,
               fs_owner = or_else (string_at value [''owner'', ''display_name''])
                 (string_at value [''owner'', ''id'']),
               fs_description = string_at value [''description''],
               fs_artwork_url = first_image value, fs_duration_ms = None,
               fs_track_count =
                 or_else (Option.bind (Option.bind (json_get value ''items'') (\<lambda>v. json_get v ''total'')) as_u64)
                   (Option.bind (Option.bind (json_get value ''tracks'') (\<lambda>v. json_get v ''total'')) as_u64),
               fs_snapshot_id = string_at value [''snapshot_id''], fs_explicit = None\<rparr>)"

section \<open>Listing\<close>

record favorite_list_query =
  fq_kind :: string
  fq_actor_id :: "string option"
  fq_sort :: string
  fq_direction :: string
  fq_offset :: nat
  fq_limit :: nat

definition default_favorite_list_query :: favorite_list_query where
  "default_favorite_list_query = \<lparr>fq_kind = ''all'', fq_actor_id = None, fq_sort = ''added_at'',
     fq_direction = ''desc'', fq_offset = 0, fq_limit = 50\<rparr>"

record favorite_contributor =
  fc_actor_id :: string
  fc_display_name :: string
  fc_count :: nat

record favorite_list_response =
  fl_schema_version :: "16 word"
  fl_items :: "favorite_view list"
  fl_offset :: nat
  fl_limit :: nat
  fl_total :: nat
  fl_tracks :: nat
  fl_playlists :: nat
  fl_contributor_count :: nat
  fl_contributors :: "favorite_contributor list"

definition item_added_at :: "favorite_item \<Rightarrow> u64" where
  "item_added_at item =
     (case map at_added_at_ms (fi_attributions item) of [] \<Rightarrow> 0 | t # ts \<Rightarrow> fold max ts t)"

definition item_added_by :: "(string \<Rightarrow> string) \<Rightarrow> favorite_item \<Rightarrow> string" where
  "item_added_by to_lowercase item =
     join_with [CHR 0x00] (sort (map (\<lambda>a. to_lowercase (at_display_name a)) (fi_attributions item)))"

definition favorite_sort_order ::
  "(string \<Rightarrow> string) \<Rightarrow> favorite_item \<Rightarrow> favorite_item \<Rightarrow> string \<Rightarrow> ordering" where
  "favorite_sort_order to_lowercase left right sort_name =
     (let primary =
        (if sort_name = ''added_at'' then cmp_of (item_added_at left) (item_added_at right)
         else if sort_name = ''name'' then
           cmp_of (to_lowercase (fs_name (fi_summary left))) (to_lowercase (fs_name (fi_summary right)))
         else if sort_name = ''added_by'' then
           cmp_of (item_added_by to_lowercase left) (item_added_by to_lowercase right)
         else if sort_name = ''kind'' then
           cmp_of (kind_as_str (fi_kind left)) (kind_as_str (fi_kind right))
         else Equal)
      in then_with primary (cmp_of (fs_spotify_id (fi_summary left)) (fs_spotify_id (fi_summary right))))"

definition validate_favorite_query :: "favorite_list_query \<Rightarrow> jam_api_error + unit" where
  "validate_favorite_query query =
     (if fq_kind query \<notin> {''all'', ''track'', ''playlist''} then
        Inl (bad_request ''kind must be all, track, or playlist'')
      else if fq_sort query \<notin> {''added_at'', ''name'', ''added_by'', ''kind''} then
        Inl (bad_request ''sort must be added_at, name, added_by, or kind'')
      else if fq_direction query \<notin> {''asc'', ''desc''} then
        Inl (bad_request ''direction must be asc or desc'')
      else if \<not> (1 \<le> fq_limit query \<and> fq_limit query \<le> MAX_FAVORITES_LIMIT) then
        Inl (bad_request ''limit must be between 1 and 200'')
      else if 100000 < fq_offset query then Inl (bad_request ''offset is too large'')
      else if (case fq_actor_id query of None \<Rightarrow> False | Some actor \<Rightarrow> 128 < length actor) then
        Inl (bad_request ''invalid actor_id'')
      else Inr ())"

definition count_contributors ::
  "favorite_attribution list \<Rightarrow> (string, string \<times> nat) hash_map" where
  "count_contributors as =
     fold (\<lambda>a m. hm_insert (at_actor_id a) (at_display_name a,
        (case hm_get m (at_actor_id a) of None \<Rightarrow> 1 | Some (_, n) \<Rightarrow> Suc n)) m) as []"

definition contributor_order ::
  "(string \<Rightarrow> string) \<Rightarrow> favorite_contributor \<Rightarrow> favorite_contributor \<Rightarrow> ordering" where
  "contributor_order to_lowercase left right =
     then_with (cmp_of (to_lowercase (fc_display_name left)) (to_lowercase (fc_display_name right)))
       (cmp_of (fc_actor_id left) (fc_actor_id right))"

definition contributor_summaries ::
  "(string \<Rightarrow> string) \<Rightarrow> favorite_item list \<Rightarrow> favorite_contributor list" where
  "contributor_summaries to_lowercase items =
     sort_by (contributor_order to_lowercase)
       (map (\<lambda>(actor, name, n). \<lparr>fc_actor_id = actor, fc_display_name = name, fc_count = n\<rparr>)
         (count_contributors (concat (map fi_attributions items))))"

definition facet_items :: "favorite_list_query \<Rightarrow> favorite_item list \<Rightarrow> favorite_item list" where
  "facet_items query =
     filter (\<lambda>item. fq_kind query = ''all'' \<or> kind_as_str (fi_kind item) = fq_kind query)"

definition by_contributor :: "favorite_list_query \<Rightarrow> favorite_item \<Rightarrow> bool" where
  "by_contributor query item \<longleftrightarrow>
     (case filter_option (\<lambda>a. a \<noteq> []) (fq_actor_id query) of None \<Rightarrow> True
      | Some actor \<Rightarrow> list_ex (\<lambda>a. at_actor_id a = actor) (fi_attributions item))"

definition favorite_query_order ::
  "(string \<Rightarrow> string) \<Rightarrow> favorite_list_query \<Rightarrow> favorite_item \<Rightarrow> favorite_item \<Rightarrow> ordering" where
  "favorite_query_order to_lowercase query left right =
     (let ordering = favorite_sort_order to_lowercase left right (fq_sort query)
      in if fq_direction query = ''desc'' then reverse_ordering ordering else ordering)"

definition favorite_view_of :: "string \<Rightarrow> favorite_item \<Rightarrow> favorite_view" where
  "favorite_view_of actor item =
     \<lparr>fv_kind = fi_kind item, fv_summary = fi_summary item, fv_attributions = fi_attributions item,
      fv_contributor_count = length (fi_attributions item),
      fv_favorited_by_me = list_ex (\<lambda>a. at_actor_id a = actor) (fi_attributions item)\<rparr>"

definition favorite_page ::
  "(string \<Rightarrow> string) \<Rightarrow> string \<Rightarrow> favorite_list_query \<Rightarrow> favorite_item list \<Rightarrow> favorite_list_response" where
  "favorite_page to_lowercase actor query stored_items =
     (let facets = facet_items query stored_items;
          contributors = contributor_summaries to_lowercase facets;
          items = sort_by (favorite_query_order to_lowercase query) (filter (by_contributor query) facets)
      in \<lparr>fl_schema_version = FAVORITES_SCHEMA_VERSION,
          fl_items = map (favorite_view_of actor) (take (fq_limit query) (drop (fq_offset query) items)),
          fl_offset = fq_offset query, fl_limit = fq_limit query, fl_total = length items,
          fl_tracks = length (filter (\<lambda>item. fi_kind item = FavoriteTrack) items),
          fl_playlists = length (filter (\<lambda>item. fi_kind item = FavoritePlaylist) items),
          fl_contributor_count = length contributors, fl_contributors = contributors\<rparr>)"

text \<open>
  The covers that were fetched, in the order they arrived before the deadline, each with the time
  and what other tasks did to the store meanwhile.
\<close>

type_synonym cover_answer =
  "string \<times> (jam_api_error + string option) \<times> u64 \<times> (favorite_store \<Rightarrow> favorite_store)"

record hydrate_env =
  hy_now :: u64
  hy_connected :: bool
  hy_refresh_lock :: "favorite_store \<Rightarrow> bool \<times> favorite_store"
  hy_locked_now :: u64
  hy_answers :: "string list \<Rightarrow> cover_answer list"
  hy_last_now :: u64

definition bounded_playlist_artwork_misses :: "string list \<Rightarrow> string list" where
  "bounded_playlist_artwork_misses missing = take PLAYLIST_ARTWORK_REFRESH_MAX_IDS missing"

definition keep_cover ::
  "(string \<Rightarrow> parsed_url option) \<Rightarrow> u64 \<Rightarrow> cover_answer \<Rightarrow> favorite_store \<Rightarrow> favorite_store" where
  "keep_cover parse_url generation answer store =
     (case answer of (spotify_id, result, now_ms, others) \<Rightarrow>
        (case result of
           Inr artwork_url \<Rightarrow>
             remember_playlist_artwork_if_generation parse_url spotify_id artwork_url now_ms generation
               (others store)
         | Inl e \<Rightarrow>
             if ae_status e = TOO_MANY_REQUESTS then others store
             else remember_playlist_artwork_if_generation parse_url spotify_id None now_ms generation
               (others store)))"

definition hydrate_favorite_playlist_artwork ::
  "(string \<Rightarrow> parsed_url option) \<Rightarrow> hydrate_env \<Rightarrow> favorite_view list \<Rightarrow> favorite_store
   \<Rightarrow> favorite_view list \<times> favorite_store" where
  "hydrate_favorite_playlist_artwork parse_url env views store =
     (case apply_cached_playlist_artwork views (hy_now env) store of (views1, missing, store1) \<Rightarrow>
        if missing = [] \<or> \<not> hy_connected env then (views1, store1)
        else case hy_refresh_lock env store1 of (locked, store2) \<Rightarrow>
          if \<not> locked then (views1, store2)
          else case apply_cached_playlist_artwork views1 (hy_locked_now env) store2 of
            (views2, missing2, store3) \<Rightarrow>
              let wanted = bounded_playlist_artwork_misses missing2 in
              if wanted = [] then (views2, store3)
              else
                let store4 = fold (keep_cover parse_url (fav_artwork_generation store3))
                      (hy_answers env wanted) store3
                in case apply_cached_playlist_artwork views2 (hy_last_now env) store4 of
                  (views3, _, store5) \<Rightarrow> (views3, store5))"

definition jam_favorites_list ::
  "(string \<Rightarrow> string) \<Rightarrow> (string \<Rightarrow> parsed_url option) \<Rightarrow> hydrate_env \<Rightarrow> status option \<Rightarrow> status + jam_actor
   \<Rightarrow> favorite_list_query \<Rightarrow> favorite_store \<Rightarrow> (jam_api_error + favorite_list_response) \<times> favorite_store" where
  "jam_favorites_list to_lowercase parse_url env admin_refused actor query store =
     (case admin_refused of Some s \<Rightarrow> (Inl (unauthorized_error s), store)
      | None \<Rightarrow>
     (case actor of Inl s \<Rightarrow> (Inl (actor_required_error s), store)
      | Inr a \<Rightarrow>
     (case validate_favorite_query query of Inl e \<Rightarrow> (Inl e, store)
      | Inr _ \<Rightarrow>
          let page = favorite_page to_lowercase (actor_id a) query (ff_items (fav_inner store)) in
          case hydrate_favorite_playlist_artwork parse_url env (fl_items page) store of
            (views, store1) \<Rightarrow> (Inr (page\<lparr>fl_items := views\<rparr>), store1))))"

section \<open>Adding and removing\<close>

text \<open>A storage error becomes a value; a killed process stays one.\<close>

definition io_attempt :: "'a io \<Rightarrow> (io_kind + 'a) io" where
  "io_attempt m d = (case m d of (Done a, d1) \<Rightarrow> (Done (Inr a), d1) | (Failed k, d1) \<Rightarrow> (Done (Inl k), d1)
     | (Halted, d1) \<Rightarrow> (Halted, d1))"

definition fetch_favorite_summary ::
  "favorite_kind \<Rightarrow> string \<Rightarrow> jam_api_error + json \<Rightarrow> jam_api_error + favorite_summary" where
  "fetch_favorite_summary kind spotify_id answer =
     (if \<not> valid_spotify_id spotify_id then Inl (bad_request ''invalid Spotify item ID'')
      else case answer of Inl e \<Rightarrow> Inl e
      | Inr data \<Rightarrow>
          (case (case kind of FavoriteTrack \<Rightarrow> normalize_track data
                 | FavoritePlaylist \<Rightarrow> normalize_playlist data) of
             Inl reason \<Rightarrow> Inl (api_failure BAD_GATEWAY ''spotify_invalid_item''
               (''Spotify item was malformed: '' @ reason))
           | Inr summary \<Rightarrow> Inr summary))"

definition jam_favorite_put ::
  "(favorite_file \<Rightarrow> string) \<Rightarrow> (string \<Rightarrow> parsed_url option) \<Rightarrow> string \<Rightarrow> u64 \<Rightarrow> u64 \<Rightarrow> u64
   \<Rightarrow> status option \<Rightarrow> status + jam_actor \<Rightarrow> string \<Rightarrow> string \<Rightarrow> jam_api_error + json \<Rightarrow> favorite_store
   \<Rightarrow> ((jam_api_error + favorite_view) \<times> favorite_store) io" where
  "jam_favorite_put render parse_url tmp added_at_ms cover_ms view_ms admin_refused actor kind_name
       spotify_id answer store =
     (case admin_refused of Some s \<Rightarrow> io_return (Inl (unauthorized_error s), store)
      | None \<Rightarrow>
     (case actor of Inl s \<Rightarrow> io_return (Inl (actor_required_error s), store)
      | Inr a \<Rightarrow>
     (case kind_from_str kind_name of Inl (_, message) \<Rightarrow> io_return (Inl (bad_request message), store)
      | Inr kind \<Rightarrow>
     (case fetch_favorite_summary kind spotify_id answer of Inl e \<Rightarrow> io_return (Inl e, store)
      | Inr summary \<Rightarrow>
          io_bind (io_attempt (upsert render parse_url tmp cover_ms store kind summary a ''echo'' added_at_ms))
            (\<lambda>outcome. io_return (case outcome of
                Inl _ \<Rightarrow> (Inl (internal_error ''Could not persist favorite''), store)
              | Inr (store1, item, _) \<Rightarrow>
                  let view = (favorite_view_of (actor_id a) item)\<lparr>fv_favorited_by_me := True\<rparr> in
                  case apply_cached_playlist_artwork [view] view_ms store1 of
                    (views, _, store2) \<Rightarrow> (Inr (hd views), store2)))))))"

definition jam_favorite_delete ::
  "(favorite_file \<Rightarrow> string) \<Rightarrow> string \<Rightarrow> status option \<Rightarrow> status + jam_actor \<Rightarrow> string \<Rightarrow> string
   \<Rightarrow> favorite_store \<Rightarrow> ((jam_api_error + unit) \<times> favorite_store) io" where
  "jam_favorite_delete render tmp admin_refused actor kind_name spotify_id store =
     (case admin_refused of Some s \<Rightarrow> io_return (Inl (unauthorized_error s), store)
      | None \<Rightarrow>
     (case actor of Inl s \<Rightarrow> io_return (Inl (actor_required_error s), store)
      | Inr a \<Rightarrow>
     (case kind_from_str kind_name of Inl (_, message) \<Rightarrow> io_return (Inl (bad_request message), store)
      | Inr kind \<Rightarrow>
          if \<not> valid_spotify_id spotify_id then
            io_return (Inl (bad_request ''invalid Spotify item ID''), store)
          else
            io_bind (io_attempt (remove_actor render tmp store kind spotify_id (actor_id a)))
              (\<lambda>outcome. io_return (case outcome of
                  Inl _ \<Rightarrow> (Inl (internal_error ''Could not persist favorite''), store)
                | Inr (store1, _) \<Rightarrow> (Inr (), store1))))))"

section \<open>Importing a Spotify library\<close>

record favorite_import =
  im_tracks_seen :: nat
  im_playlists_seen :: nat
  im_items_created :: nat
  im_attributions_added :: nat
  im_skipped :: nat

text \<open>
  One page: the answer of Spotify, the random suffix and the time of the covers. A page of saved
  tracks wraps each track; an item that is malformed is skipped.
\<close>

type_synonym import_page = "(jam_api_error + json) \<times> string \<times> u64"

definition page_items :: "json \<Rightarrow> json list" where
  "page_items data = or_default [] (Option.bind (json_get data ''items'') as_array)"

definition page_total :: "json \<Rightarrow> nat" where
  "page_total data = unat (or_default 0 (Option.bind (json_get data ''total'') as_u64))"

definition right_option :: "'e + 'a \<Rightarrow> 'a option" where
  "right_option x = (case x of Inl _ \<Rightarrow> None | Inr a \<Rightarrow> Some a)"

definition saved_track :: "json \<Rightarrow> favorite_summary option" where
  "saved_track wrapper = Option.bind (json_get wrapper ''track'') (\<lambda>t. right_option (normalize_track t))"

definition followed_playlist :: "json \<Rightarrow> favorite_summary option" where
  "followed_playlist value = right_option (normalize_playlist value)"

definition page_entries ::
  "favorite_kind \<Rightarrow> json \<Rightarrow> (favorite_kind \<times> favorite_summary \<times> string) list" where
  "page_entries kind data =
     (case kind of
        FavoriteTrack \<Rightarrow> map (\<lambda>s. (FavoriteTrack, s, ''spotify_saved_tracks''))
          (List.map_filter saved_track (page_items data))
      | FavoritePlaylist \<Rightarrow> map (\<lambda>s. (FavoritePlaylist, s, ''spotify_playlists''))
          (List.map_filter followed_playlist (page_items data)))"

definition persist_import_page ::
  "(favorite_file \<Rightarrow> string) \<Rightarrow> (string \<Rightarrow> parsed_url option) \<Rightarrow> string \<Rightarrow> u64
   \<Rightarrow> (favorite_kind \<times> favorite_summary \<times> string) list \<Rightarrow> jam_actor \<Rightarrow> u64 \<Rightarrow> favorite_store
   \<Rightarrow> (io_kind + (favorite_store \<times> nat \<times> nat)) io" where
  "persist_import_page render parse_url tmp cover_ms entries actor imported_at_ms store =
     (if entries = [] then io_return (Inr (store, 0, 0))
      else io_attempt (upsert_many render parse_url tmp cover_ms store entries actor imported_at_ms))"

definition import_counts :: "favorite_kind \<Rightarrow> nat \<Rightarrow> nat \<Rightarrow> nat \<Rightarrow> nat \<Rightarrow> favorite_import \<Rightarrow> favorite_import" where
  "import_counts kind returned skipped created added c =
     c\<lparr>im_tracks_seen := im_tracks_seen c + (if kind = FavoriteTrack then returned else 0),
       im_playlists_seen := im_playlists_seen c + (if kind = FavoritePlaylist then returned else 0),
       im_items_created := im_items_created c + created,
       im_attributions_added := im_attributions_added c + added,
       im_skipped := im_skipped c + skipped\<rparr>"

text \<open>
  The loop over the pages of one kind. It asks for the next page while Spotify returns items and
  says there are more; None is the loop still asking after the answers given.
\<close>

fun import_pages ::
  "(favorite_file \<Rightarrow> string) \<Rightarrow> (string \<Rightarrow> parsed_url option) \<Rightarrow> favorite_kind \<Rightarrow> jam_actor \<Rightarrow> u64
   \<Rightarrow> import_page list \<Rightarrow> nat \<Rightarrow> favorite_import \<Rightarrow> favorite_store
   \<Rightarrow> ((jam_api_error + favorite_import) option \<times> favorite_store) io" where
  "import_pages render parse_url kind actor imported_at_ms [] offset counts store =
     io_return (None, store)"
| "import_pages render parse_url kind actor imported_at_ms ((answer, tmp, cover_ms) # pages) offset
       counts store =
     (case answer of Inl e \<Rightarrow> io_return (Some (Inl e), store)
      | Inr data \<Rightarrow>
          let returned = length (page_items data); entries = page_entries kind data in
          io_bind (persist_import_page render parse_url tmp cover_ms entries actor imported_at_ms store)
            (\<lambda>outcome. case outcome of
               Inl _ \<Rightarrow> io_return (Some (Inl (internal_error ''Could not persist favorites'')), store)
             | Inr (store1, created, added) \<Rightarrow>
                 let counts1 = import_counts kind returned (returned - length entries) created added counts;
                     next_offset = min (offset + returned) u64_max
                 in if returned = 0 \<or> page_total data \<le> next_offset
                    then io_return (Some (Inr counts1), store1)
                    else import_pages render parse_url kind actor imported_at_ms pages next_offset
                           counts1 store1))"

definition jam_favorites_import_spotify ::
  "(favorite_file \<Rightarrow> string) \<Rightarrow> (string \<Rightarrow> parsed_url option) \<Rightarrow> status option \<Rightarrow> status + jam_actor
   \<Rightarrow> spotify_token option \<Rightarrow> u64 \<Rightarrow> import_page list \<Rightarrow> import_page list \<Rightarrow> favorite_store
   \<Rightarrow> ((jam_api_error + favorite_import) option \<times> favorite_store) io" where
  "jam_favorites_import_spotify render parse_url admin_refused actor token imported_at_ms track_pages
       playlist_pages store =
     (case admin_refused of Some s \<Rightarrow> io_return (Some (Inl (unauthorized_error s)), store)
      | None \<Rightarrow>
     (case actor of Inl s \<Rightarrow> io_return (Some (Inl (actor_required_error s)), store)
      | Inr a \<Rightarrow>
          if token = None then
            io_return (Some (Inl (api_failure BAD_REQUEST ''spotify_not_connected''
              ''Connect Spotify before importing favorites'')), store)
          else if \<not> spotify_library_scopes_authorized token then
            io_return (Some (Inl spotify_library_scope_required_error), store)
          else
            io_bind (import_pages render parse_url FavoriteTrack a imported_at_ms track_pages 0
                \<lparr>im_tracks_seen = 0, im_playlists_seen = 0, im_items_created = 0,
                 im_attributions_added = 0, im_skipped = 0\<rparr> store)
              (\<lambda>(result, store1).
                 case result of
                   Some (Inr counts) \<Rightarrow>
                     import_pages render parse_url FavoritePlaylist a imported_at_ms playlist_pages 0
                       counts store1
                 | _ \<Rightarrow> io_return (result, store1))))"

end
