(* ===== verification/FavoriteProperties.thy ===== *)
theory FavoriteProperties
  imports FavoriteApi PlaylistCache
begin

text \<open>
  What the library of favourites promises: it is a relation between items and actors that adding and
  removing change at one point, an import is the same as adding one by one, what Spotify answers can
  be stored, nothing is lost by a failing write, and the covers shown are bounded and fresh.
\<close>

section \<open>Favourites as a relation\<close>

text \<open>The contributors of an item, the empty set for one that is not kept.\<close>

definition contributors :: "favorite_item list \<Rightarrow> favorite_kind \<times> string \<Rightarrow> string set" where
  "contributors items key =
     (case List.find (\<lambda>item. item_key item = key) items of None \<Rightarrow> {}
      | Some item \<Rightarrow> at_actor_id ` set (fi_attributions item))"

definition items_ok :: "favorite_item list \<Rightarrow> bool" where
  "items_ok items \<longleftrightarrow> list_all favorite_item_ok items \<and> distinct (map item_key items)"

lemma favorites_ok_items: "favorites_ok data \<longleftrightarrow> ff_schema_version data = FAVORITES_SCHEMA_VERSION \<and> items_ok (ff_items data)"
  by (simp add: favorites_ok_def items_ok_def)

text \<open>The index of a key in a list without duplicate keys.\<close>

lemma index_split:
  assumes "find_index (\<lambda>item. item_key item = key) items = Some i"
  obtains pre item post where "items = pre @ item # post" "item_key item = key" "length pre = i"
    "items ! i = item"
proof -
  from find_index_Some [OF assms] have i: "i < length items" "item_key (items ! i) = key" by auto
  then show thesis
    by (intro that [of "take i items" "items ! i" "drop (Suc i) items"]) (simp_all add: id_take_nth_drop)
qed

lemma find_distinct:
  "distinct (map item_key (pre @ item # post)) \<Longrightarrow>
     List.find (\<lambda>x. item_key x = key) (pre @ item # post)
       = (if key = item_key item then Some item else List.find (\<lambda>x. item_key x = key) (pre @ post))"
  by (induction pre) (auto simp: find_None_iff rev_image_eqI)

lemma contributors_split:
  assumes "distinct (map item_key (pre @ item # post))"
  shows "contributors (pre @ item # post) key = (if key = item_key item
      then at_actor_id ` set (fi_attributions item) else contributors (pre @ post) key)"
  using find_distinct [OF assms] by (simp add: contributors_def)

lemma contribute_facts:
  assumes "contribute summary actor source now item = (item', added)"
  shows "at_actor_id ` set (fi_attributions item') = insert (actor_id actor) (at_actor_id ` set (fi_attributions item))"
    "added \<longleftrightarrow> actor_id actor \<notin> at_actor_id ` set (fi_attributions item)"
    "fi_kind item' = fi_kind item" "fi_summary item' = summary"
    "distinct (map at_actor_id (fi_attributions item)) \<Longrightarrow> distinct (map at_actor_id (fi_attributions item'))"
    "fi_attributions item' \<noteq> []"
proof -
  let ?mine = "\<lambda>a. at_actor_id a = actor_id actor" and ?as = "fi_attributions item"
  let ?new = "update_first ?mine (\<lambda>a. a\<lparr>at_display_name := actor_display_name actor\<rparr>) ?as"
  have same: "map at_actor_id ?new = map at_actor_id ?as" by (rule update_first_map) simp
  have ex: "list_ex ?mine ?as \<longleftrightarrow> actor_id actor \<in> at_actor_id ` set ?as"
    unfolding list_ex_iff image_iff by metis
  have "at_actor_id ` set (fi_attributions item') = insert (actor_id actor) (at_actor_id ` set ?as)
    \<and> (added \<longleftrightarrow> actor_id actor \<notin> at_actor_id ` set ?as)
    \<and> fi_kind item' = fi_kind item \<and> fi_summary item' = summary
    \<and> (distinct (map at_actor_id ?as) \<longrightarrow> distinct (map at_actor_id (fi_attributions item')))
    \<and> fi_attributions item' \<noteq> []"
  proof (cases "actor_id actor \<in> at_actor_id ` set ?as")
    case True
    then have "item' = item\<lparr>fi_summary := summary, fi_attributions := ?new\<rparr>" "\<not> added"
      using assms ex by (simp_all add: contribute_def Let_def)
    moreover have "at_actor_id ` set ?new = at_actor_id ` set ?as" using same by (metis list.set_map)
    moreover have "?new \<noteq> []" using True by (cases ?as) auto
    ultimately show ?thesis using True same by (simp add: insert_absorb)
  next
    case False
    then show ?thesis using assms ex by (auto simp: contribute_def Let_def new_attribution_def)
  qed
  then show "at_actor_id ` set (fi_attributions item') = insert (actor_id actor) (at_actor_id ` set ?as)"
    "added \<longleftrightarrow> actor_id actor \<notin> at_actor_id ` set ?as"
    "fi_kind item' = fi_kind item" "fi_summary item' = summary"
    "distinct (map at_actor_id ?as) \<Longrightarrow> distinct (map at_actor_id (fi_attributions item'))"
    "fi_attributions item' \<noteq> []"
    by auto
qed

text \<open>What can be stored: what the normalisation of Spotify's objects answers.\<close>

definition storable :: "favorite_summary \<Rightarrow> bool" where
  "storable summary \<longleftrightarrow> valid_spotify_id (fs_spotify_id summary) \<and> \<not> blank (fs_name summary)"

lemma upsert_item_spec:
  assumes ok: "items_ok items" and s: "storable raw" and a: "actor_id actor \<noteq> []"
    and run: "upsert_item kind raw actor source now items = (items', item, mutation)"
  shows "items_ok items'"
    "contributors items' = (contributors items)((kind, fs_spotify_id raw) :=
       insert (actor_id actor) (contributors items (kind, fs_spotify_id raw)))"
    "fm_item_created mutation \<longleftrightarrow> contributors items (kind, fs_spotify_id raw) = {}"
    "fm_attribution_added mutation \<longleftrightarrow> actor_id actor \<notin> contributors items (kind, fs_spotify_id raw)"
    "item \<in> set items' \<and> item_key item = (kind, fs_spotify_id raw)
       \<and> fi_summary item = summary_for_persistence kind raw"
proof -
  let ?key = "(kind, fs_spotify_id raw)" and ?summary = "summary_for_persistence kind raw"
  have "items_ok items' \<and> contributors items' = (contributors items)(?key :=
       insert (actor_id actor) (contributors items ?key))
    \<and> (fm_item_created mutation \<longleftrightarrow> contributors items ?key = {})
    \<and> (fm_attribution_added mutation \<longleftrightarrow> actor_id actor \<notin> contributors items ?key)
    \<and> item \<in> set items' \<and> item_key item = ?key \<and> fi_summary item = ?summary"
  proof (cases "find_index (\<lambda>item. item_key item = ?key) items")
    case None
    then have fresh: "?key \<notin> set (map item_key items)" by (auto simp: find_index_None)
    have new: "item_key (new_item kind ?summary actor source now) = ?key"
      "favorite_item_ok (new_item kind ?summary actor source now)"
      using s a by (simp_all add: item_key_def new_item_def favorite_item_ok_def storable_def new_attribution_def)
    have none: "contributors items ?key = {}"
    proof -
      have "List.find (\<lambda>item. item_key item = ?key) items = None"
        using fresh by (auto simp: find_None_iff rev_image_eqI)
      then show ?thesis by (simp add: contributors_def)
    qed
    have "distinct (map item_key (items @ new_item kind ?summary actor source now # []))"
      using fresh new ok by (simp add: items_ok_def)
    note grown = contributors_split [OF this]
    have mine: "at_actor_id ` set (fi_attributions (new_item kind ?summary actor source now)) = {actor_id actor}"
      "fi_summary (new_item kind ?summary actor source now) = ?summary"
      by (simp_all add: new_item_def new_attribution_def)
    have "items' = items @ [new_item kind ?summary actor source now]"
      "item = new_item kind ?summary actor source now"
      "mutation = \<lparr>fm_item_created = True, fm_attribution_added = True\<rparr>"
      using None run by (auto simp: upsert_item_def Let_def)
    with grown new fresh ok none mine show ?thesis
      by (auto simp: items_ok_def fun_eq_iff)
  next
    case (Some i)
    then obtain pre old post where split: "items = pre @ old # post" "item_key old = ?key" "length pre = i"
      "items ! i = old"
      by (rule index_split)
    obtain new added where c: "contribute ?summary actor source now old = (new, added)" by fastforce
    note facts = contribute_facts [OF c]
    have key: "item_key new = ?key" using facts(3,4) split(2) by (simp add: item_key_def)
    have "favorite_item_ok new"
      using ok s a facts split(1,2) key
      by (auto simp: favorite_item_ok_def items_ok_def item_key_def storable_def)
    moreover have "items' = pre @ new # post" "item = new" "fm_item_created mutation = False"
      "fm_attribution_added mutation = added"
      using run Some split c by (auto simp: upsert_item_def Let_def)
    moreover have "distinct (map item_key (pre @ old # post))" "distinct (map item_key (pre @ new # post))"
      using ok split key by (auto simp: items_ok_def)
    note contributors_split [OF this(1)] contributors_split [OF this(2)]
    moreover have "fi_attributions old \<noteq> []" using ok split(1) by (simp add: items_ok_def favorite_item_ok_def)
    ultimately show ?thesis
      using ok split key facts by (auto simp: items_ok_def fun_eq_iff)
  qed
  then show "items_ok items'"
    "contributors items' = (contributors items)(?key := insert (actor_id actor) (contributors items ?key))"
    "fm_item_created mutation \<longleftrightarrow> contributors items ?key = {}"
    "fm_attribution_added mutation \<longleftrightarrow> actor_id actor \<notin> contributors items ?key"
    "item \<in> set items' \<and> item_key item = ?key \<and> fi_summary item = ?summary"
    by auto
qed

lemma remove_actor_spec:
  assumes ok: "items_ok items" and run: "remove_actor_from kind i actor items = Some items'"
  shows "items_ok items' \<and> contributors items' = (contributors items)((kind, i) :=
      contributors items (kind, i) - {actor}) \<and> actor \<in> contributors items (kind, i)"
proof -
  let ?key = "(kind, i)" and ?keep = "filter (\<lambda>a. at_actor_id a \<noteq> actor)"
  obtain j where j: "find_index (\<lambda>item. item_key item = ?key) items = Some j"
    using run by (auto simp: remove_actor_from_def split: option.splits)
  then obtain pre old post where split: "items = pre @ old # post" "item_key old = ?key" "length pre = j"
    "items ! j = old"
    by (rule index_split)
  have changed: "length (?keep (fi_attributions old)) \<noteq> length (fi_attributions old)"
    and items': "items' = (if ?keep (fi_attributions old) = [] then pre @ post
      else pre @ old\<lparr>fi_attributions := ?keep (fi_attributions old)\<rparr> # post)"
    using run j split by (auto simp: remove_actor_from_def Let_def remove_at_def split: if_splits)
  have mine: "actor \<in> at_actor_id ` set (fi_attributions old)"
    using changed by (metis (mono_tags, lifting) filter_True image_eqI)
  have dist: "distinct (map item_key (pre @ old # post))" using ok split(1) by (simp add: items_ok_def)
  have kept: "at_actor_id ` set (?keep as) = at_actor_id ` set as - {actor}" for as by auto
  have gone: "contributors (pre @ post) ?key = {}"
  proof -
    have "List.find (\<lambda>x. item_key x = ?key) (pre @ post) = None"
      using dist split(2) by (auto simp: find_None_iff rev_image_eqI)
    then show ?thesis by (simp add: contributors_def)
  qed
  note before = contributors_split [OF dist]
  show ?thesis
  proof (cases "?keep (fi_attributions old) = []")
    case True
    then have "at_actor_id ` set (fi_attributions old) - {actor} = {}" using kept [of "fi_attributions old"] by simp
    moreover have "items_ok (pre @ post)" using ok split(1) by (auto simp: items_ok_def)
    ultimately show ?thesis
      using True items' before gone split(1,2) mine by (auto simp: fun_eq_iff)
  next
    case False
    let ?new = "old\<lparr>fi_attributions := ?keep (fi_attributions old)\<rparr>"
    have key: "item_key ?new = ?key" using split(2) by (simp add: item_key_def)
    then have "distinct (map item_key (pre @ ?new # post))" using dist split(2) by simp
    note after = contributors_split [OF this]
    have "favorite_item_ok ?new"
      using ok False split(1) by (auto simp: items_ok_def favorite_item_ok_def distinct_map intro: inj_on_subset)
    then have "items_ok (pre @ ?new # post)"
      using ok split(1,2) key by (simp add: items_ok_def)
    then show ?thesis
      using False items' before after kept key split(1,2) mine by (auto simp: fun_eq_iff)
  qed
qed

lemma remove_actor_none:
  assumes "items_ok items" and "remove_actor_from kind i actor items = None"
  shows "actor \<notin> contributors items (kind, i)"
proof (cases "find_index (\<lambda>item. item_key item = (kind, i)) items")
  case None
  then have "List.find (\<lambda>x. item_key x = (kind, i)) items = None"
    by (auto simp: find_None_iff find_index_None)
  then show ?thesis by (simp add: contributors_def)
next
  case (Some j)
  then obtain pre old post where split: "items = pre @ old # post" "item_key old = (kind, i)" "length pre = j"
    "items ! j = old"
    by (rule index_split)
  have "length (filter (\<lambda>a. at_actor_id a \<noteq> actor) (fi_attributions old)) = length (fi_attributions old)"
    using assms(2) Some split(4) by (auto simp: remove_actor_from_def Let_def split: if_splits)
  then have "filter (\<lambda>a. at_actor_id a \<noteq> actor) (fi_attributions old) = fi_attributions old"
    by (metis filter_id_conv length_filter_less less_irrefl)
  then have "actor \<notin> at_actor_id ` set (fi_attributions old)"
    by (auto simp: filter_id_conv)
  moreover have "distinct (map item_key (pre @ old # post))" using assms(1) split(1) by (simp add: items_ok_def)
  ultimately show ?thesis using contributors_split split(1,2) by simp
qed

lemma contributors_state:
  assumes "items_ok items"
  shows "(case List.find (\<lambda>item. item_key item = key) items of None \<Rightarrow> (False, 0)
    | Some item \<Rightarrow> (list_ex (\<lambda>a. at_actor_id a = actor) (fi_attributions item),
        length (fi_attributions item))) = (actor \<in> contributors items key, card (contributors items key))"
proof (cases "List.find (\<lambda>item. item_key item = key) items")
  case (Some item)
  then have "item \<in> set items" by (auto simp: find_Some_iff)
  with assms have "distinct (map at_actor_id (fi_attributions item))"
    by (auto simp: items_ok_def list_all_iff favorite_item_ok_def)
  from distinct_card [OF this] Some show ?thesis
    by (auto simp: contributors_def list_ex_iff)
qed (simp add: contributors_def)

section \<open>Importing many is adding one by one\<close>

definition indexes :: "(favorite_kind \<times> string, nat) hash_map \<Rightarrow> favorite_item list \<Rightarrow> bool" where
  "indexes m items \<longleftrightarrow> (\<forall>key. hm_get m key = find_index (\<lambda>item. item_key item = key) items)"

lemma find_index_snoc:
  "find_index P (xs @ [x]) = (case find_index P xs of Some i \<Rightarrow> Some i
     | None \<Rightarrow> if P x then Some (length xs) else None)"
  by (induction xs) (auto simp: find_index_simps split: option.split)

lemma item_indices_snoc:
  "item_indices (items @ [item]) = hm_insert (item_key item) (length items) (item_indices items)"
  by (simp add: item_indices_def enumerate_append_eq)

lemma item_indices_indexes:
  "distinct (map item_key items) \<Longrightarrow> indexes (item_indices items) items"
proof (induction items rule: rev_induct)
  case Nil
  then show ?case by (simp add: item_indices_def indexes_def find_index_simps)
next
  case (snoc item items)
  then have "find_index (\<lambda>x. item_key x = item_key item) items = None"
    by (auto simp: find_index_None rev_image_eqI)
  with snoc show ?case
    by (auto simp: indexes_def item_indices_snoc hm_simps find_index_snoc split: option.split)
qed

lemma contribute_key: "contribute (summary_for_persistence kind raw) actor source now old = (new, added) \<Longrightarrow>
    item_key old = (kind, fs_spotify_id raw) \<Longrightarrow> item_key new = (kind, fs_spotify_id raw)"
  using contribute_facts(3,4) by (fastforce simp: item_key_def)

text \<open>Replacing an item by one of the same key keeps every index.\<close>

lemma find_index_update:
  assumes "find_index (\<lambda>item. item_key item = k) items = Some i" and "item_key new = k"
  shows "find_index (\<lambda>item. item_key item = key) (items[i := new]) = find_index (\<lambda>item. item_key item = key) items"
proof -
  have "map item_key (items[i := new]) = map item_key items"
    using find_index_Some [OF assms(1)] assms(2) by (simp add: map_update list_update_same_conv)
  moreover have "find_index (\<lambda>item. item_key item = key) xs = find_index (\<lambda>k. k = key) (map item_key xs)" for xs
    by (induction xs) (simp_all add: find_index_simps)
  ultimately show ?thesis by simp
qed

lemma upsert_items_steps:
  assumes "indexes m items"
  shows "upsert_items entries actor now m items created added =
    fold (\<lambda>(kind, raw, source) (items, created, added).
        case upsert_item kind raw actor source now items of (items', _, mutation) \<Rightarrow>
          (items', if fm_item_created mutation then created + 1 else created,
           if fm_attribution_added mutation then added + 1 else added))
      entries (items, created, added)"
  using assms
proof (induction entries arbitrary: m items created added)
  case (Cons entry entries)
  obtain kind raw source where entry: "entry = (kind, raw, source)" by (cases entry) auto
  let ?summary = "summary_for_persistence kind raw" and ?key = "(kind, fs_spotify_id raw)"
  have get: "hm_get m ?key = find_index (\<lambda>item. item_key item = ?key) items"
    using Cons.prems by (simp add: indexes_def)
  show ?case
  proof (cases "find_index (\<lambda>item. item_key item = ?key) items")
    case None
    let ?new = "new_item kind ?summary actor source now"
    have key: "item_key ?new = ?key" by (simp add: new_item_def item_key_def)
    then have "indexes (hm_insert ?key (length items) m) (items @ [?new])"
      using Cons.prems None by (auto simp: indexes_def hm_simps find_index_snoc split: option.split)
    from Cons.IH [OF this] None get entry show ?thesis
      by (simp add: upsert_item_def Let_def)
  next
    case (Some i)
    obtain new was where c: "contribute ?summary actor source now (items ! i) = (new, was)" by fastforce
    have "item_key (items ! i) = ?key" using find_index_Some [OF Some] by simp
    from contribute_key [OF c this] have "item_key new = ?key" .
    then have "indexes m (items[i := new])"
      using Cons.prems find_index_update [OF Some] by (simp add: indexes_def)
    from Cons.IH [OF this] Some get entry c show ?thesis
      by (simp add: upsert_item_def Let_def)
  qed
qed simp

section \<open>Trimmed text\<close>

lemma utf8_trim: "utf8_chars (trim s) = rev (dropWhile is_whitespace (rev (dropWhile is_whitespace (utf8_chars s))))"
proof -
  let ?w = "dropWhile is_whitespace (utf8_chars s)"
  have "chunked (takeWhile is_whitespace (utf8_chars s) @ ?w)" using chunked_utf8 by simp
  then have w: "chunked ?w" by (blast dest: chunked_takeWhile)
  have "?w = rev (dropWhile is_whitespace (rev ?w)) @ rev (takeWhile is_whitespace (rev ?w))"
    by (metis rev_append rev_rev_ident takeWhile_dropWhile_id)
  with w have "chunked (rev (dropWhile is_whitespace (rev ?w)))" by (metis chunked_takeWhile)
  then show ?thesis unfolding trim_def by (rule utf8_concat)
qed

lemma trim_not_blank: "trim s \<noteq> [] \<Longrightarrow> \<not> blank (trim s)"
proof -
  let ?r = "rev (dropWhile is_whitespace (utf8_chars s))"
  assume "trim s \<noteq> []"
  then have "utf8_chars (trim s) \<noteq> []" by (cases "trim s") auto
  then have ne: "dropWhile is_whitespace ?r \<noteq> []" by (simp add: utf8_trim)
  then have "\<not> is_whitespace (hd (dropWhile is_whitespace ?r))" by (rule hd_dropWhile)
  moreover have "hd (dropWhile is_whitespace ?r) \<in> set (utf8_chars (trim s))"
    using ne by (simp add: utf8_trim)
  ultimately show ?thesis by (auto simp: blank_iff list_all_iff)
qed

lemma string_at_not_blank: "string_at v path = Some s \<Longrightarrow> \<not> blank s"
  by (auto simp: string_at_def filter_option_def trim_not_blank split: option.splits if_splits)

lemma utf8_chars_append:
  "b \<noteq> [] \<Longrightarrow> \<not> is_continuation (hd b) \<Longrightarrow> utf8_chars (a @ b) = utf8_chars a @ utf8_chars b"
proof (induction a rule: utf8_chars.induct)
  case (2 c cs)
  have "takeWhile is_continuation (cs @ b) = takeWhile is_continuation cs"
    "dropWhile is_continuation (cs @ b) = dropWhile is_continuation cs @ b"
    using 2(2,3) by (cases b; simp add: takeWhile_tail dropWhile_append3)+
  with 2 show ?case by simp
qed simp

lemma join_not_blank:
  assumes "names \<noteq> []" and "\<forall>n \<in> set names. \<not> blank n"
  shows "\<not> blank (join_with '', '' names)"
proof (cases names)
  case (Cons a rest)
  show ?thesis
  proof (cases rest)
    case (Cons b tail)
    have "utf8_chars (a @ '', '' @ join_with '', '' rest) = utf8_chars a @ utf8_chars ('', '' @ join_with '', '' rest)"
      by (rule utf8_chars_append) (simp_all add: is_continuation_def byte_of_def)
    then have "\<not> blank (a @ '', '' @ join_with '', '' rest)"
      using assms(2) \<open>names = a # rest\<close> by (simp only: blank_iff list_all_append) (simp add: blank_iff)
    then show ?thesis using Cons \<open>names = a # rest\<close> by simp
  qed (use assms Cons in simp)
qed (use assms in simp)

lemma artists_not_blank: "artists v = Some a \<Longrightarrow> \<not> blank a"
proof -
  assume "artists v = Some a"
  then obtain vs where "List.map_filter (\<lambda>artist. string_at artist [''name'']) vs \<noteq> []"
    "a = join_with '', '' (List.map_filter (\<lambda>artist. string_at artist [''name'']) vs)"
    by (auto simp: artists_def Let_def bind_eq_Some_conv split: if_splits)
  moreover have "\<forall>n \<in> set (List.map_filter (\<lambda>artist. string_at artist [''name'']) vs). \<not> blank n"
    by (induction vs) (auto simp: List.map_filter_simps string_at_not_blank split: option.splits)
  ultimately show ?thesis using join_not_blank by blast
qed

lemma filter_option_Some: "filter_option P x = Some y \<longleftrightarrow> x = Some y \<and> P y"
  by (auto simp: filter_option_def split: option.splits if_splits)

text \<open>
  C22: whatever Spotify answers, what the normalisation accepts can be stored: a track passes the
  validation of the playlist cache and of the library, a playlist that of the library, and their
  links are the ones made from their identifiers.
\<close>

theorem normalized_objects_are_valid:
  "(case normalize_track value of Inl _ \<Rightarrow> True
    | Inr s \<Rightarrow> validate_track_summary s = Inr () \<and> storable s)
   \<and> (case normalize_playlist value of Inl _ \<Rightarrow> True
    | Inr s \<Rightarrow> storable s \<and> fs_spotify_uri s = ''spotify:playlist:'' @ fs_spotify_id s)"
  by (auto simp: normalize_track_def normalize_playlist_def validate_track_summary_def storable_def
      filter_option_Some artists_not_blank string_at_not_blank split: sum.splits option.splits if_splits)

section \<open>Adding and removing change the relation at one point\<close>

definition favored_by :: "favorite_store \<Rightarrow> favorite_kind \<times> string \<Rightarrow> string set" where
  "favored_by store = contributors (ff_items (fav_inner store))"

lemma remember_keeps_items [simp]:
  "fav_inner (remember_playlist_artwork parse_url i url now store) = fav_inner store"
  "fav_path (remember_playlist_artwork parse_url i url now store) = fav_path store"
  "fav_writable (remember_playlist_artwork parse_url i url now store) = fav_writable store"
  by (simp_all add: remember_playlist_artwork_def remember_playlist_artwork_if_generation_def Let_def)

lemma persist_done:
  "persist_favorites render tmp store candidate d = (Done store', d') \<Longrightarrow>
     store' = store\<lparr>fav_inner := candidate\<rparr>"
  by (auto simp: persist_favorites_def io_defs split: if_splits prod.splits outcome.splits)

lemma upsert_done:
  assumes "upsert render parse_url tmp now_ms store kind summary actor source t d = (Done (store', item, m), d')"
  shows "\<exists>items. upsert_item kind summary actor source t (ff_items (fav_inner store)) = (items, item, m)
    \<and> fav_inner store' = (fav_inner store)\<lparr>ff_items := items\<rparr>"
proof -
  obtain items item0 m0 where up: "upsert_item kind summary actor source t (ff_items (fav_inner store)) = (items, item0, m0)"
    by (cases "upsert_item kind summary actor source t (ff_items (fav_inner store))") auto
  show ?thesis
    using assms unfolding upsert_def up
    by (auto simp: io_bind_def io_return_def split: prod.splits outcome.splits if_splits dest!: persist_done)
qed

lemma remove_done:
  assumes "remove_actor render tmp store kind i actor d = (Done (store', changed), d')"
  shows "(case remove_actor_from kind i actor (ff_items (fav_inner store)) of
      None \<Rightarrow> store' = store \<and> \<not> changed
    | Some items \<Rightarrow> changed \<and> fav_inner store' = (fav_inner store)\<lparr>ff_items := items\<rparr>)"
  using assms
  by (auto simp: remove_actor_def io_bind_def io_return_def split: prod.splits outcome.splits option.splits
      dest!: persist_done)

text \<open>
  C5: the library is a relation between items and actors. Adding, where it succeeds, adds the actor
  to the one item and says whether the item and the contribution are new; removing takes the actor
  from the one item, which goes when its last contributor does, and says whether anything changed;
  the state of an item is whether the actor is among its contributors and how many they are.
\<close>

theorem favorites_refine_relation:
  assumes "favorites_ok (fav_inner store)" and "storable summary" and "actor_id actor \<noteq> []"
  shows "(case upsert render parse_url tmp now_ms store kind summary actor source t d of
      (Done (store', item, m), _) \<Rightarrow>
        favored_by store' = (favored_by store)((kind, fs_spotify_id summary) :=
          insert (actor_id actor) (favored_by store (kind, fs_spotify_id summary)))
        \<and> (fm_item_created m \<longleftrightarrow> favored_by store (kind, fs_spotify_id summary) = {})
        \<and> (fm_attribution_added m \<longleftrightarrow> actor_id actor \<notin> favored_by store (kind, fs_spotify_id summary))
        \<and> favorites_ok (fav_inner store')
    | _ \<Rightarrow> True)
   \<and> (case remove_actor render tmp store kind i a d of
      (Done (store', changed), _) \<Rightarrow>
        favored_by store' = (favored_by store)((kind, i) := favored_by store (kind, i) - {a})
        \<and> (changed \<longleftrightarrow> a \<in> favored_by store (kind, i)) \<and> favorites_ok (fav_inner store')
    | _ \<Rightarrow> True)
   \<and> favorite_state store kind i a = (a \<in> favored_by store (kind, i), card (favored_by store (kind, i)))"
proof (intro conjI)
  let ?items = "ff_items (fav_inner store)"
  have ok: "items_ok ?items" "ff_schema_version (fav_inner store) = FAVORITES_SCHEMA_VERSION"
    using assms(1) by (simp_all add: favorites_ok_items)
  show "case upsert render parse_url tmp now_ms store kind summary actor source t d of
      (Done (store', item, m), _) \<Rightarrow>
        favored_by store' = (favored_by store)((kind, fs_spotify_id summary) :=
          insert (actor_id actor) (favored_by store (kind, fs_spotify_id summary)))
        \<and> (fm_item_created m \<longleftrightarrow> favored_by store (kind, fs_spotify_id summary) = {})
        \<and> (fm_attribution_added m \<longleftrightarrow> actor_id actor \<notin> favored_by store (kind, fs_spotify_id summary))
        \<and> favorites_ok (fav_inner store')
    | _ \<Rightarrow> True"
    using upsert_item_spec [OF ok(1) assms(2,3)] ok(2)
    by (auto simp: favored_by_def favorites_ok_items split: prod.split outcome.split dest!: upsert_done)
  show "case remove_actor render tmp store kind i a d of
      (Done (store', changed), _) \<Rightarrow>
        favored_by store' = (favored_by store)((kind, i) := favored_by store (kind, i) - {a})
        \<and> (changed \<longleftrightarrow> a \<in> favored_by store (kind, i)) \<and> favorites_ok (fav_inner store')
    | _ \<Rightarrow> True"
    using remove_actor_spec [OF ok(1), of kind i a] remove_actor_none [OF ok(1), of kind i a] ok assms(1)
    by (auto simp: favored_by_def favorites_ok_items split: prod.split outcome.split option.splits
        dest!: remove_done)
  show "favorite_state store kind i a = (a \<in> favored_by store (kind, i), card (favored_by store (kind, i)))"
    unfolding favorite_state_def favored_by_def by (rule contributors_state [OF ok(1)])
qed

definition demo_hit :: favorite_summary where
  "demo_hit = \<lparr>fs_spotify_id = ''0123456789012345678901'',
     fs_spotify_uri = ''spotify:track:0123456789012345678901'',
     fs_spotify_url = ''https://open.spotify.com/track/0123456789012345678901'', fs_name = ''Song'',
     fs_artist = Some ''Band'', fs_owner = None, fs_description = None, fs_artwork_url = None,
     fs_duration_ms = None, fs_track_count = None, fs_snapshot_id = None, fs_explicit = None\<rparr>"

definition demo_fan :: jam_actor where
  "demo_fan = \<lparr>actor_id = ''sam'', actor_display_name = ''Sam''\<rparr>"

definition demo_library :: favorite_store where
  "demo_library = favorites_with ''f'' True favorite_file_default"

definition demo_liked :: favorite_file where
  "demo_liked = \<lparr>ff_schema_version = FAVORITES_SCHEMA_VERSION,
     ff_items = [new_item FavoriteTrack demo_hit demo_fan ''echo'' 5]\<rparr>"

lemma demo_storable: "storable demo_hit"
proof -
  have "valid_spotify_id ''0123456789012345678901''" "\<not> blank ''Song''" by code_simp+
  then show ?thesis by (simp add: storable_def demo_hit_def)
qed

lemma demo_ids: "actor_id demo_fan = ''sam''" "fs_spotify_id demo_hit = ''0123456789012345678901''"
  by (simp_all add: demo_fan_def demo_hit_def)

lemma demo_library_ok: "favorites_ok (fav_inner demo_library)"
  by (simp add: favorites_ok_def demo_library_def favorites_with_def favorite_file_default_def)

lemma demo_upsert:
  "upsert (\<lambda>_. ''x'') parse_url ''r'' 9 demo_library FavoriteTrack demo_hit demo_fan ''echo'' 5
      \<lparr>dk_files = [], dk_events = []\<rparr>
    = (Done (demo_library\<lparr>fav_inner := demo_liked\<rparr>, new_item FavoriteTrack demo_hit demo_fan ''echo'' 5,
        \<lparr>fm_item_created = True, fm_attribution_added = True\<rparr>),
       \<lparr>dk_files = [(''f'', ''x'')], dk_events = []\<rparr>)"
  by (simp add: upsert_def upsert_item_def Let_def demo_library_def favorites_with_def
      favorite_file_default_def persist_favorites_def summary_for_persistence_def demo_liked_def
      write_atomic_def io_defs fs_create_new_def fs_write_all_def fs_sync_def fs_rename_def fs_call_def
      next_event_def fs_exists_def append_bytes_def hm_insert_def hm_remove_def hm_get_def or_default_def
      temp_path_def backup_path_def)

theorem favorites_refine_relation_witness:
  "favored_by (demo_library\<lparr>fav_inner := demo_liked\<rparr>) (FavoriteTrack, ''0123456789012345678901'')
     = insert ''sam'' (favored_by demo_library (FavoriteTrack, ''0123456789012345678901''))"
  using favorites_refine_relation [OF demo_library_ok demo_storable, where actor = demo_fan
      and render = "\<lambda>_. ''x''" and tmp = "''r''" and now_ms = 9 and kind = FavoriteTrack
      and source = "''echo''" and t = 5 and d = "\<lparr>dk_files = [], dk_events = []\<rparr>"]
  by (simp add: demo_upsert demo_ids)

section \<open>Importing\<close>

lemma upsert_many_done:
  assumes "upsert_many render parse_url tmp now_ms store entries actor t d = (Done (store', created, added), d')"
  shows "\<exists>items. upsert_items entries actor t (item_indices (ff_items (fav_inner store)))
      (ff_items (fav_inner store)) 0 0 = (items, created, added)
    \<and> fav_inner store' = (fav_inner store)\<lparr>ff_items := items\<rparr>"
proof -
  let ?items = "ff_items (fav_inner store)"
  let ?remember = "\<lambda>(kind, summary, _) s. if kind = FavoritePlaylist
    then remember_playlist_artwork parse_url (fs_spotify_id summary) (fs_artwork_url summary) now_ms s else s"
  obtain items c a where up: "upsert_items entries actor t (item_indices ?items) ?items 0 0 = (items, c, a)"
    by (cases "upsert_items entries actor t (item_indices ?items) ?items 0 0") auto
  have same: "fav_inner (fold ?remember es s) = fav_inner s"
    for es :: "(favorite_kind \<times> favorite_summary \<times> string) list" and s
    by (induction es arbitrary: s) auto
  show ?thesis
    using assms unfolding upsert_many_def Let_def up
    by (auto simp: io_bind_def io_return_def same split: prod.splits outcome.splits dest!: persist_done)
qed

definition upsert_step ::
  "jam_actor \<Rightarrow> u64 \<Rightarrow> favorite_kind \<times> favorite_summary \<times> string
   \<Rightarrow> favorite_item list \<times> nat \<times> nat \<Rightarrow> favorite_item list \<times> nat \<times> nat" where
  "upsert_step actor t entry state =
     (case entry of (kind, raw, source) \<Rightarrow> case state of (items, created, added) \<Rightarrow>
        case upsert_item kind raw actor source t items of (items', _, mutation) \<Rightarrow>
          (items', if fm_item_created mutation then created + 1 else created,
           if fm_attribution_added mutation then added + 1 else added))"

lemma upsert_steps_relation:
  assumes "items_ok items" and "\<forall>(_, summary, _) \<in> set entries. storable summary" and "actor_id actor \<noteq> []"
    and "fold (upsert_step actor t) entries (items, created, added) = (items', created', added')"
  shows "items_ok items' \<and> contributors items' = (\<lambda>key. contributors items key \<union>
      (if \<exists>(kind, summary, _) \<in> set entries. key = (kind, fs_spotify_id summary) then {actor_id actor} else {}))"
  using assms
proof (induction entries arbitrary: items created added)
  case (Cons entry entries)
  obtain kind raw source where entry: "entry = (kind, raw, source)" by (cases entry) auto
  obtain items1 item m where up: "upsert_item kind raw actor source t items = (items1, item, m)"
    by (cases "upsert_item kind raw actor source t items") auto
  note spec = upsert_item_spec [OF Cons.prems(1) _ Cons.prems(3) up]
  have s: "storable raw" using Cons.prems(2) entry by auto
  obtain c a where "upsert_step actor t entry (items, created, added) = (items1, c, a)"
    using entry up by (auto simp: upsert_step_def)
  with Cons.IH [OF spec(1) [OF s], of c a] Cons.prems spec(2) [OF s] entry show ?case
    by (auto simp: fun_eq_iff)
qed auto

text \<open>
  C15: importing many entries at once, with the positions of the items kept in a hash map, leaves
  exactly the library and answers exactly the counts that adding them one by one would, repeated
  items included; the actor then favours what was favoured before and every entry, and nobody
  else's contribution changes.
\<close>

theorem import_equals_adding_one_by_one:
  assumes "favorites_ok (fav_inner store)" and "\<forall>(_, summary, _) \<in> set entries. storable summary"
    and "actor_id actor \<noteq> []"
  shows "case upsert_many render parse_url tmp now_ms store entries actor t d of
      (Done (store', created, added), _) \<Rightarrow>
        (ff_items (fav_inner store'), created, added)
            = fold (upsert_step actor t) entries (ff_items (fav_inner store), 0, 0)
        \<and> favorites_ok (fav_inner store')
        \<and> favored_by store' = (\<lambda>key. favored_by store key \<union>
            (if \<exists>(kind, summary, _) \<in> set entries. key = (kind, fs_spotify_id summary)
             then {actor_id actor} else {}))
    | _ \<Rightarrow> True"
proof -
  let ?items = "ff_items (fav_inner store)"
  have ok: "items_ok ?items" using assms(1) by (simp add: favorites_ok_items)
  then have "upsert_items entries actor t (item_indices ?items) ?items 0 0
      = fold (\<lambda>e s. upsert_step actor t e s) entries (?items, 0, 0)"
    by (subst upsert_items_steps [OF item_indices_indexes])
      (auto simp: items_ok_def upsert_step_def case_prod_beta intro!: fold_cong)
  then have steps: "upsert_items entries actor t (item_indices ?items) ?items 0 0
      = fold (upsert_step actor t) entries (?items, 0, 0)" by simp
  show ?thesis
    using upsert_steps_relation [OF ok assms(2,3)] assms(1)
    by (auto simp: favored_by_def favorites_ok_items steps split: prod.split outcome.split
        dest!: upsert_many_done)
qed

definition demo_twice :: "(favorite_kind \<times> favorite_summary \<times> string) list" where
  "demo_twice = [(FavoriteTrack, demo_hit, ''a''), (FavoriteTrack, demo_hit, ''b'')]"

lemma demo_import:
  "\<exists>store' d'. upsert_many (\<lambda>_. ''x'') parse_url ''r'' 9 demo_library demo_twice demo_fan 5
      \<lparr>dk_files = [], dk_events = []\<rparr> = (Done (store', 1, 1), d')"
  by (simp add: upsert_many_def demo_twice_def item_indices_def Let_def demo_library_def favorites_with_def
      favorite_file_default_def persist_favorites_def summary_for_persistence_def contribute_def
      new_item_def new_attribution_def write_atomic_def io_defs fs_create_new_def fs_write_all_def
      fs_sync_def fs_rename_def fs_call_def next_event_def fs_exists_def append_bytes_def hm_insert_def
      hm_remove_def hm_get_def or_default_def temp_path_def backup_path_def)

theorem import_equals_adding_one_by_one_witness:
  "\<exists>store' d'. upsert_many (\<lambda>_. ''x'') (\<lambda>_. None) ''r'' 9 demo_library demo_twice demo_fan 5
      \<lparr>dk_files = [], dk_events = []\<rparr> = (Done (store', 1, 1), d')
    \<and> (ff_items (fav_inner store'), 1, 1) = fold (upsert_step demo_fan 5) demo_twice ([], 0, 0)"
proof -
  obtain store' d' where run: "upsert_many (\<lambda>_. ''x'') (\<lambda>_. None) ''r'' 9 demo_library demo_twice demo_fan 5
      \<lparr>dk_files = [], dk_events = []\<rparr> = (Done (store', 1, 1), d')"
    using demo_import by blast
  have "\<forall>(_, summary, _) \<in> set demo_twice. storable summary" using demo_storable by (simp add: demo_twice_def)
  then have "(ff_items (fav_inner store'), 1, 1)
      = fold (upsert_step demo_fan 5) demo_twice (ff_items (fav_inner demo_library), 0, 0)"
    using import_equals_adding_one_by_one [OF demo_library_ok, where entries = demo_twice
        and actor = demo_fan and render = "\<lambda>_. ''x''" and parse_url = "\<lambda>_. None" and tmp = "''r''"
        and now_ms = 9 and t = 5 and d = "\<lparr>dk_files = [], dk_events = []\<rparr>"] run
    by (simp add: demo_ids)
  with run show ?thesis
    by (simp add: demo_library_def favorites_with_def favorite_file_default_def)
qed

lemma page_total_bound: "page_total data \<le> u64_max"
  by (simp add: page_total_def unat_less_u64)

lemma persist_page_never_fails:
  "persist_import_page render parse_url tmp cover_ms entries actor t store d \<noteq> (Failed k, d')"
  by (auto simp: persist_import_page_def io_return_def io_attempt_def split: prod.splits outcome.splits)

lemma import_progress:
  "\<not> (k = 0 \<or> m \<le> min (offset + k) u) \<Longrightarrow> m \<le> n \<Longrightarrow> m \<le> u \<Longrightarrow> n - offset < Suc l \<Longrightarrow>
     n - min (offset + k) u < (l :: nat)"
  by (auto simp: min_def split: if_splits)

text \<open>An answer was given, unless the process was killed.\<close>

definition answered :: "('a option \<times> favorite_store) outcome \<times> disk \<Rightarrow> bool" where
  "answered r \<longleftrightarrow> (case fst r of Done (result, _) \<Rightarrow> result \<noteq> None | Failed _ \<Rightarrow> False | Halted \<Rightarrow> True)"

lemma import_pages_end:
  assumes "\<forall>(answer, _) \<in> set pages. \<forall>data. answer = Inr data \<longrightarrow> page_total data \<le> n"
    and "n - offset < length pages"
  shows "answered (import_pages render parse_url kind actor t pages offset counts store d)"
  using assms
proof (induction pages arbitrary: offset counts store d)
  case (Cons page pages)
  obtain answer tmp cover_ms where page: "page = (answer, tmp, cover_ms)" by (cases page) auto
  show ?case
  proof (cases answer)
    case (Inr data)
    let ?entries = "page_entries kind data" and ?returned = "length (page_items data)"
    let ?next = "min (offset + ?returned) u64_max"
    have bound: "page_total data \<le> n" using Cons.prems(1) page Inr by auto
    obtain r d1 where put: "persist_import_page render parse_url tmp cover_ms ?entries actor t store d = (r, d1)"
      by fastforce
    have go: "n - ?next < length pages" if "\<not> (?returned = 0 \<or> page_total data \<le> ?next)"
      using import_progress [OF that bound page_total_bound] Cons.prems(2) by simp
    note rec = Cons.IH [OF _ go]
    show ?thesis
      using put persist_page_never_fails [of render parse_url tmp cover_ms ?entries actor t store d] rec
        Cons.prems(1) page Inr
      by (cases r) (auto simp: answered_def Let_def io_bind_def io_return_def split: sum.split)
  qed (simp add: page io_return_def answered_def)
qed simp

text \<open>
  C21: an import ends: where Spotify never says that a library holds more than n items, the loop
  over its pages asks for at most n + 1 of them, whatever it answers otherwise, and a write
  that fails is reported instead of ending the import without an answer.
\<close>

theorem import_ends:
  assumes "\<forall>(answer, _) \<in> set track_pages \<union> set playlist_pages. \<forall>data. answer = Inr data \<longrightarrow> page_total data \<le> n"
    and "n < length track_pages" and "n < length playlist_pages"
  shows "answered (jam_favorites_import_spotify render parse_url refused actor token t track_pages
    playlist_pages store d)"
proof -
  have ends: "answered (import_pages render parse_url kind a t pages 0 counts s d1)"
    if "pages = track_pages \<or> pages = playlist_pages" for kind a pages counts s d1
    using assms that by (intro import_pages_end [where n = n]) auto
  have bind: "answered (io_bind m f d)"
    if "answered (m d)" "\<And>x s d1. x \<noteq> None \<Longrightarrow> answered (f (x, s) d1)" for m f d
  proof -
    obtain r d1 where m: "m d = (r, d1)" by fastforce
    show ?thesis
    proof (cases r)
      case (Done xs)
      obtain x s where xs: "xs = (x, s)" by fastforce
      have "x \<noteq> None" using that(1) m Done xs by (simp add: answered_def)
      from that(2) [OF this, of s d1] m Done xs show ?thesis by (simp add: io_bind_def)
    qed (use that(1) m in \<open>simp_all add: answered_def io_bind_def\<close>)
  qed
  have ret: "answered (io_return (x, s) d)" if "x \<noteq> None" for x s d
    using that by (simp add: io_return_def answered_def)
  show ?thesis
    unfolding jam_favorites_import_spotify_def
    using ends by (auto intro!: bind ret split: option.split sum.split)
qed

theorem import_ends_witness:
  "answered (jam_favorites_import_spotify (\<lambda>_. ''x'') (\<lambda>_. None) None (Inr demo_fan) None 5
     [(Inr JNull, ''r'', 9)] [(Inr JNull, ''q'', 9)] demo_library \<lparr>dk_files = [], dk_events = []\<rparr>)"
  by (rule import_ends [where n = 0]) (simp_all add: page_total_def)

section \<open>Writes that fail\<close>

datatype favorite_request =
    Upsert favorite_kind favorite_summary jam_actor string u64
  | UpsertMany "(favorite_kind \<times> favorite_summary \<times> string) list" jam_actor u64
  | RemoveActor favorite_kind string string

definition request_ok :: "favorite_request \<Rightarrow> bool" where
  "request_ok request \<longleftrightarrow>
     (case request of
        Upsert kind summary actor source t \<Rightarrow> storable summary \<and> actor_id actor \<noteq> []
      | UpsertMany entries actor t \<Rightarrow>
          list_all (\<lambda>(_, summary, _). storable summary) entries \<and> actor_id actor \<noteq> []
      | RemoveActor _ _ _ \<Rightarrow> True)"

text \<open>The items a request would write.\<close>

definition requested_items :: "favorite_request \<Rightarrow> favorite_item list \<Rightarrow> favorite_item list" where
  "requested_items request items =
     (case request of
        Upsert kind summary actor source t \<Rightarrow> fst (upsert_item kind summary actor source t items)
      | UpsertMany entries actor t \<Rightarrow> fst (upsert_items entries actor t (item_indices items) items 0 0)
      | RemoveActor kind i actor \<Rightarrow> or_default items (remove_actor_from kind i actor items))"

definition serve_favorites ::
  "(favorite_file \<Rightarrow> string) \<Rightarrow> (string \<Rightarrow> parsed_url option) \<Rightarrow> string \<Rightarrow> u64 \<Rightarrow> favorite_request
   \<Rightarrow> favorite_store \<Rightarrow> favorite_store io" where
  "serve_favorites render parse_url tmp now_ms request store =
     (case request of
        Upsert kind summary actor source t \<Rightarrow>
          io_bind (upsert render parse_url tmp now_ms store kind summary actor source t)
            (\<lambda>(store', _). io_return store')
      | UpsertMany entries actor t \<Rightarrow>
          io_bind (upsert_many render parse_url tmp now_ms store entries actor t)
            (\<lambda>(store', _). io_return store')
      | RemoveActor kind i actor \<Rightarrow>
          io_bind (remove_actor render tmp store kind i actor) (\<lambda>(store', _). io_return store'))"

lemma requested_items_ok:
  assumes "items_ok items" and "request_ok request"
  shows "items_ok (requested_items request items)"
proof (cases request)
  case (Upsert kind summary actor source t)
  obtain items' item m where "upsert_item kind summary actor source t items = (items', item, m)"
    by (cases "upsert_item kind summary actor source t items") auto
  with upsert_item_spec(1) [OF assms(1) _ _ this] assms(2) Upsert show ?thesis
    by (simp add: requested_items_def request_ok_def)
next
  case (UpsertMany entries actor t)
  have "upsert_items entries actor t (item_indices items) items 0 0
      = fold (\<lambda>e s. upsert_step actor t e s) entries (items, 0, 0)"
    using assms(1) by (subst upsert_items_steps [OF item_indices_indexes])
      (auto simp: items_ok_def upsert_step_def case_prod_beta intro!: fold_cong)
  then have steps: "upsert_items entries actor t (item_indices items) items 0 0
      = fold (upsert_step actor t) entries (items, 0, 0)" by simp
  obtain items' c a where "fold (upsert_step actor t) entries (items, 0, 0) = (items', c, a)"
    by (cases "fold (upsert_step actor t) entries (items, 0, 0)") auto
  with upsert_steps_relation [OF assms(1) _ _ this] assms(2) UpsertMany steps show ?thesis
    by (auto simp: requested_items_def request_ok_def list_all_iff)
next
  case (RemoveActor kind i actor)
  then show ?thesis
    using assms(1) remove_actor_spec [OF assms(1), of kind i actor]
    by (cases "remove_actor_from kind i actor items") (auto simp: requested_items_def or_default_def)
qed

text \<open>A request leaves everything alone, or commits the items it would write.\<close>

lemma io_bind_assoc: "io_bind (io_bind m f) g = io_bind m (\<lambda>x. io_bind (f x) g)"
  by (rule ext) (simp add: io_bind_def split: prod.split outcome.split)

lemma io_bind_return: "io_bind (io_return x) f = f x"
  by (rule ext) (simp add: io_bind_def io_return_def)

definition only_covers :: "(favorite_store \<Rightarrow> favorite_store) \<Rightarrow> bool" where
  "only_covers cover \<longleftrightarrow> (\<forall>s. fav_inner (cover s) = fav_inner s \<and> fav_path (cover s) = fav_path s
     \<and> fav_writable (cover s) = fav_writable s)"

definition requested_file :: "favorite_request \<Rightarrow> favorite_store \<Rightarrow> favorite_file" where
  "requested_file request store =
     (fav_inner store)\<lparr>ff_items := requested_items request (ff_items (fav_inner store))\<rparr>"

lemma only_covers_fold:
  "(\<And>e. only_covers (f e)) \<Longrightarrow> only_covers (fold f es)"
  unfolding only_covers_def by (induction es) auto

lemma serve_favorites_cases:
  assumes "fav_writable store"
  shows "serve_favorites render parse_url tmp now_ms request store = io_return store
    \<or> (\<exists>cover. only_covers cover \<and> serve_favorites render parse_url tmp now_ms request store =
         io_bind (io_then (write_atomic (fav_path store) tmp (render (requested_file request store)))
             (io_return (store\<lparr>fav_inner := requested_file request store\<rparr>)))
           (\<lambda>s. io_return (cover s)))"
proof (cases request)
  case (Upsert kind summary actor source t)
  obtain items item m where up: "upsert_item kind summary actor source t (ff_items (fav_inner store)) = (items, item, m)"
    by (cases "upsert_item kind summary actor source t (ff_items (fav_inner store))") auto
  let ?cover = "\<lambda>s. if kind = FavoritePlaylist
    then remember_playlist_artwork parse_url (fs_spotify_id summary) (fs_artwork_url summary) now_ms s else s"
  have "only_covers ?cover" by (simp add: only_covers_def)
  with up Upsert assms show ?thesis
    by (auto simp: serve_favorites_def upsert_def persist_favorites_def requested_file_def
        requested_items_def io_bind_assoc io_bind_return intro!: exI [of _ ?cover])
next
  case (UpsertMany entries actor t)
  obtain items c a where up: "upsert_items entries actor t (item_indices (ff_items (fav_inner store)))
      (ff_items (fav_inner store)) 0 0 = (items, c, a)"
    by (cases "upsert_items entries actor t (item_indices (ff_items (fav_inner store)))
      (ff_items (fav_inner store)) 0 0") auto
  let ?cover = "fold (\<lambda>(kind, summary, _) s. if kind = FavoritePlaylist
      then remember_playlist_artwork parse_url (fs_spotify_id summary) (fs_artwork_url summary) now_ms s
      else s) entries"
  have "only_covers ?cover" by (rule only_covers_fold) (auto simp: only_covers_def split: if_splits)
  with up UpsertMany assms show ?thesis
    by (auto simp: serve_favorites_def upsert_many_def Let_def persist_favorites_def requested_file_def
        requested_items_def io_bind_assoc io_bind_return intro!: exI [of _ ?cover])
next
  case (RemoveActor kind i actor)
  have "only_covers (\<lambda>s. s)" by (simp add: only_covers_def)
  with RemoveActor assms show ?thesis
    by (cases "remove_actor_from kind i actor (ff_items (fav_inner store))")
      (auto simp: serve_favorites_def remove_actor_def persist_favorites_def requested_file_def
        requested_items_def io_bind_assoc io_bind_return or_default_def intro!: exI [of _ "\<lambda>s. s"])
qed

text \<open>Memory and disk agree, and the store can write.\<close>

definition library_synced :: "(string \<Rightarrow> favorite_file option) \<Rightarrow> favorite_store \<Rightarrow> disk \<Rightarrow> bool" where
  "library_synced parse store d \<longleftrightarrow> favorites_ok (fav_inner store) \<and> fav_writable store
     \<and> settled (fav_path store) (dk_files d)
     \<and> favorites.agrees parse favorite_file_default (fav_path store) (fav_inner store) (dk_files d)"

text \<open>What a restart answers when no call fails: a library with these favourites.\<close>

definition restarts_with :: "(string \<Rightarrow> favorite_file option) \<Rightarrow> string \<Rightarrow> favorite_file \<Rightarrow> disk \<Rightarrow> bool" where
  "restarts_with parse path data d \<longleftrightarrow>
     (case fst (open_favorites parse path (d\<lparr>dk_events := []\<rparr>)) of
        Done store \<Rightarrow> same_favorites (fav_inner store) data | _ \<Rightarrow> False)"

lemma agrees_restarts:
  assumes "favorites.agrees parse favorite_file_default path data (dk_files d)"
  shows "restarts_with parse path data d"
proof -
  have "favorites.agrees parse favorite_file_default path data (dk_files (d\<lparr>dk_events := []\<rparr>))"
    using assms by simp
  from favorites.reopen_finds [OF this] obtain y d' where
    "open_store (load_favorite_file parse) favorite_file_default path (d\<lparr>dk_events := []\<rparr>) = (Done y, d')"
    "same_favorites y data"
    by (auto simp: load_favorite_file_def [abs_def])
  then show ?thesis
    by (simp add: restarts_with_def open_favorites_def io_defs favorites_with_def)
qed

text \<open>
  C19: every request to the library, whatever fails or is cut off, leaves a file from which a restart
  answers either exactly the favourites the request made or, where it did not return, exactly those
  before, up to the display names loading trims; and the library stays valid and writable.
\<close>

theorem favorites_survive_failures:
  assumes "parse (render (requested_file request store)) = Some (requested_file request store)"
    and "library_synced parse store d" and "request_ok request"
  shows "case serve_favorites render parse_url tmp now_ms request store d of
      (Done store', d') \<Rightarrow> library_synced parse store' d'
        \<and> restarts_with parse (fav_path store) (fav_inner store') d'
    | (_, d') \<Rightarrow> restarts_with parse (fav_path store) (fav_inner store) d'"
proof -
  let ?file = "requested_file request store"
  have ok: "favorites_ok ?file"
    using assms(2,3) requested_items_ok by (simp add: library_synced_def requested_file_def favorites_ok_items)
  have w: "fav_writable store" using assms(2) by (simp add: library_synced_def)
  from serve_favorites_cases [OF w, of render parse_url tmp now_ms request] consider
      (same) "serve_favorites render parse_url tmp now_ms request store = io_return store"
    | (put) cover where "only_covers cover" "serve_favorites render parse_url tmp now_ms request store =
         io_bind (io_then (write_atomic (fav_path store) tmp (render ?file))
             (io_return (store\<lparr>fav_inner := ?file\<rparr>))) (\<lambda>s. io_return (cover s))" by blast
  then show ?thesis
  proof cases
    case same
    then show ?thesis using assms(2) agrees_restarts by (auto simp: io_return_def library_synced_def)
  next
    case put
    obtain r d' where run: "io_then (write_atomic (fav_path store) tmp (render ?file))
        (io_return (store\<lparr>fav_inner := ?file\<rparr>)) d = (r, d')" by fastforce
    have out: "case r of Done s' \<Rightarrow> s' = store\<lparr>fav_inner := ?file\<rparr> \<and> settled (fav_path store) (dk_files d')
          \<and> favorites.agrees parse favorite_file_default (fav_path store) ?file (dk_files d')
        | _ \<Rightarrow> favorites.agrees parse favorite_file_default (fav_path store) (fav_inner store) (dk_files d')"
      using favorites.commit_leaves [where path = "fav_path store" and d = d and initial = favorite_file_default
          and x = "fav_inner store" and suffix = tmp and s = "store\<lparr>fav_inner := ?file\<rparr>" and y = ?file
          and parse = parse and bytes = "render ?file"] ok assms(1,2) run
      by (auto simp: library_synced_def split: outcome.splits)
    have "fav_inner (cover (store\<lparr>fav_inner := ?file\<rparr>)) = ?file"
      "fav_path (cover (store\<lparr>fav_inner := ?file\<rparr>)) = fav_path store"
      "fav_writable (cover (store\<lparr>fav_inner := ?file\<rparr>))"
      using put(1) w by (simp_all add: only_covers_def)
    with out run put(2) ok agrees_restarts show ?thesis
      by (cases r) (auto simp: io_bind_def io_return_def library_synced_def)
  qed
qed

text \<open>Adding to a library that holds an item, cut off between the two renames.\<close>

definition demo_parse_file :: "string \<Rightarrow> favorite_file option" where
  "demo_parse_file bytes = (if bytes = ''x'' then Some demo_liked else if bytes = ''e'' then Some favorite_file_default
     else None)"

theorem favorites_survive_failures_witness:
  "case serve_favorites (\<lambda>_. ''x'') (\<lambda>_. None) ''r'' 9 (Upsert FavoriteTrack demo_hit demo_fan ''echo'' 5)
       demo_library \<lparr>dk_files = [(''f'', ''e'')],
         dk_events = [Succeeds, Succeeds, Succeeds, Succeeds, Halts 0]\<rparr> of
     (Done store', d') \<Rightarrow> library_synced demo_parse_file store' d'
       \<and> restarts_with demo_parse_file (fav_path demo_library) (fav_inner store') d'
   | (_, d') \<Rightarrow> restarts_with demo_parse_file (fav_path demo_library) (fav_inner demo_library) d'"
proof (rule favorites_survive_failures)
  have "requested_file (Upsert FavoriteTrack demo_hit demo_fan ''echo'' 5) demo_library = demo_liked"
    by (simp add: requested_file_def requested_items_def upsert_item_def Let_def demo_library_def
        favorites_with_def favorite_file_default_def demo_liked_def summary_for_persistence_def)
  then show "demo_parse_file ''x'' = Some (requested_file (Upsert FavoriteTrack demo_hit demo_fan ''echo'' 5) demo_library)"
    by (simp add: demo_parse_file_def)
  have "check_favorite_file favorite_file_default = Some favorite_file_default"
    by (simp add: check_favorite_file_def validate_favorite_file_def favorite_file_default_def)
  then show "library_synced demo_parse_file demo_library
      \<lparr>dk_files = [(''f'', ''e'')], dk_events = [Succeeds, Succeeds, Succeeds, Succeeds, Halts 0]\<rparr>"
    using demo_library_ok
    by (simp add: library_synced_def demo_library_def favorites_with_def settled_def favorites.agrees_def
        stored_def hm_get_def demo_parse_file_def same_favorites_def)
  show "request_ok (Upsert FavoriteTrack demo_hit demo_fan ''echo'' 5)"
    using demo_storable by (simp add: request_ok_def demo_ids)
qed

section \<open>Covers\<close>

text \<open>The cache of covers holds at most 512, and never answers a cover after its time: what is
  remembered is answered until it expires (an hour, five minutes where there is no cover on
  Spotify's own hosts) and not from then on; and an answer of Spotify that was asked for before the
  cache was cleared is thrown away.
\<close>

lemma covers_are_bounded_and_expire:
  assumes "hm_ok (fav_artwork store)" and "length (fav_artwork store) \<le> PLAYLIST_ARTWORK_CACHE_MAX_ENTRIES"
  shows "let store' = remember_playlist_artwork_if_generation parse_url i url now generation store;
      shown = Option.bind url (safe_spotify_playlist_artwork_url parse_url);
      expires = sat_add now (if shown \<noteq> None then PLAYLIST_ARTWORK_CACHE_TTL_MS else PLAYLIST_ARTWORK_NEGATIVE_TTL_MS)
    in hm_ok (fav_artwork store') \<and> length (fav_artwork store') \<le> PLAYLIST_ARTWORK_CACHE_MAX_ENTRIES
      \<and> (if valid_spotify_id i \<and> fav_artwork_generation store = generation
         then fst (cached_playlist_artwork i late store') = (if late < expires then Some shown else None)
         else store' = store)
      \<and> remember_playlist_artwork_if_generation parse_url i url now (fav_artwork_generation store)
           (clear_playlist_artwork_cache store) = clear_playlist_artwork_cache store
      \<and> fst (cached_playlist_artwork i late (clear_playlist_artwork_cache store)) = None"
proof -
  let ?cache = "fav_artwork store"
  define room where "room = (if hm_get ?cache i = None \<and> PLAYLIST_ARTWORK_CACHE_MAX_ENTRIES \<le> length ?cache
    then (case min_by_key (\<lambda>(_, e). pa_last_accessed_at_ms e) ?cache of None \<Rightarrow> ?cache
      | Some (oldest_id, _) \<Rightarrow> hm_remove oldest_id ?cache) else ?cache)"
  have room: "hm_ok room" using assms(1) by (auto simp: room_def split: option.split)
  have small: "length (hm_insert i e room) \<le> PLAYLIST_ARTWORK_CACHE_MAX_ENTRIES" for e
  proof (cases "hm_get ?cache i")
    case None
    show ?thesis
    proof (cases "PLAYLIST_ARTWORK_CACHE_MAX_ENTRIES \<le> length ?cache")
      case True
      then have "?cache \<noteq> []" by (auto simp: PLAYLIST_ARTWORK_CACHE_MAX_ENTRIES_def)
      then obtain oldest x where old: "min_by_key (\<lambda>(_, e). pa_last_accessed_at_ms e) ?cache = Some (oldest, x)"
        by (cases "min_by_key (\<lambda>(_, e). pa_last_accessed_at_ms e) ?cache") (auto simp: min_by_key_None)
      then have "hm_get ?cache oldest = Some x"
        using assms(1) by (auto simp: hm_get_eq_Some dest: min_by_key_Some)
      from hm_length_remove_member [OF assms(1) this] old None True
      have "length room < length ?cache" by (simp add: room_def)
      with assms(2) hm_length_insert [of i e room] show ?thesis by simp
    next
      case False
      then show ?thesis using hm_length_insert [of i e room] by (simp add: room_def)
    qed
  next
    case (Some e0)
    then have "room = ?cache" by (simp add: room_def)
    moreover have "length (hm_insert i e ?cache) = length ?cache"
      by (rule hm_length_insert_known [OF Some])
    ultimately show ?thesis using assms(2) by simp
  qed
  define shown where "shown = Option.bind url (safe_spotify_playlist_artwork_url parse_url)"
  define expires where "expires =
    sat_add now (if shown \<noteq> None then PLAYLIST_ARTWORK_CACHE_TTL_MS else PLAYLIST_ARTWORK_NEGATIVE_TTL_MS)"
  let ?entry = "\<lparr>pa_artwork_url = shown, pa_expires_at_ms = expires, pa_last_accessed_at_ms = now\<rparr>"
  have remember: "remember_playlist_artwork_if_generation parse_url i url now generation store =
      (if \<not> valid_spotify_id i \<or> fav_artwork_generation store \<noteq> generation then store
       else store\<lparr>fav_artwork := hm_insert i ?entry room\<rparr>)"
    unfolding remember_playlist_artwork_if_generation_def Let_def room_def shown_def expires_def
    by (rule refl)
  have "remember_playlist_artwork_if_generation parse_url i url now (fav_artwork_generation store)
      (clear_playlist_artwork_cache store) = clear_playlist_artwork_cache store"
    by (simp add: remember_playlist_artwork_if_generation_def clear_playlist_artwork_cache_def)
  moreover have "fst (cached_playlist_artwork i late (clear_playlist_artwork_cache store)) = None"
    by (simp add: cached_playlist_artwork_def clear_playlist_artwork_cache_def)
  moreover have "fst (cached_playlist_artwork i late (store\<lparr>fav_artwork := hm_insert i ?entry room\<rparr>))
      = (if late < expires then Some shown else None)"
    by (auto simp: cached_playlist_artwork_def hm_simps not_le)
  ultimately show ?thesis
    unfolding Let_def remember shown_def [symmetric] expires_def [symmetric]
    using room small assms by simp
qed

end
