(* ===== verification/OwnerAuth.thy ===== *)
theory OwnerAuth
  imports JamSource
begin

text \<open>
  The owner of the diagnostics (\<open>diagnostics_auth.rs\<close>): the check of the configured secret, the
  limiter of login attempts, the tokens and the guard of the owner's routes. The password hash and
  the signing of tokens (argon2 and jsonwebtoken) are arguments.
\<close>

section \<open>The configured secret\<close>

definition DIAGNOSTICS_OWNER_ISSUER :: string where "DIAGNOSTICS_OWNER_ISSUER = ''echo-core-control''"
definition DIAGNOSTICS_OWNER_AUDIENCE :: string where "DIAGNOSTICS_OWNER_AUDIENCE = ''echo-diagnostics''"
definition DIAGNOSTICS_OWNER_SUBJECT :: string where "DIAGNOSTICS_OWNER_SUBJECT = ''diagnostics-owner''"
definition DIAGNOSTICS_OWNER_SCOPE :: string where "DIAGNOSTICS_OWNER_SCOPE = ''diagnostics:owner''"
definition DIAGNOSTICS_OWNER_TOKEN_TTL_SECS :: u64 where "DIAGNOSTICS_OWNER_TOKEN_TTL_SECS = 3600"
definition OWNER_LOGIN_MAX_FAILURES :: nat where "OWNER_LOGIN_MAX_FAILURES = 5"
definition OWNER_LOGIN_GLOBAL_MAX_FAILURES :: nat where "OWNER_LOGIN_GLOBAL_MAX_FAILURES = 100"
definition OWNER_LOGIN_MAX_RATE_KEYS :: nat where "OWNER_LOGIN_MAX_RATE_KEYS = 64"
definition OWNER_LOGIN_WINDOW :: nat where "OWNER_LOGIN_WINDOW = secs 900"
definition OWNER_SECRET_MIN_BYTES :: nat where "OWNER_SECRET_MIN_BYTES = 32"

definition secrets_equal :: "string \<Rightarrow> string \<Rightarrow> bool" where
  "secrets_equal left right = constant_time_eq (bytes_of left) (bytes_of right)"

definition is_ascii_lowercase :: "char \<Rightarrow> bool" where
  "is_ascii_lowercase c \<longleftrightarrow> 97 \<le> byte_of c \<and> byte_of c \<le> 122"

definition is_ascii_uppercase :: "char \<Rightarrow> bool" where
  "is_ascii_uppercase c \<longleftrightarrow> 65 \<le> byte_of c \<and> byte_of c \<le> 90"

definition owner_secret_has_minimum_diversity :: "string \<Rightarrow> bool" where
  "owner_secret_has_minimum_diversity candidate =
     (let classes = filter id [list_ex is_ascii_lowercase candidate, list_ex is_ascii_uppercase candidate,
            list_ex is_ascii_digit candidate, list_ex (\<lambda>c. \<not> is_ascii_alphanumeric c) candidate]
      in 8 \<le> length (remdups candidate) \<and> 2 \<le> length classes)"

text \<open>\<open>verify hash password\<close> is None where the hash cannot be parsed.\<close>

definition owner_secret_is_safe ::
  "(string \<Rightarrow> string \<Rightarrow> bool option) \<Rightarrow> string \<Rightarrow> string option \<Rightarrow> string option \<Rightarrow> string list \<Rightarrow> bool" where
  "owner_secret_is_safe verify candidate admin_password_hash admin_password other_secrets =
     (if length candidate < OWNER_SECRET_MIN_BYTES \<or> \<not> owner_secret_has_minimum_diversity candidate
      then False
      else if (case admin_password of None \<Rightarrow> False | Some password \<Rightarrow> secrets_equal candidate password)
      then False
      else if (case admin_password_hash of None \<Rightarrow> False
               | Some hash \<Rightarrow> verify hash candidate = Some True) then False
      else \<not> list_ex (secrets_equal candidate) other_secrets)"

record owner_config =
  oc_diagnostics_owner_secret :: "string option"
  oc_admin_password_hash :: "string option"
  oc_admin_password :: "string option"
  oc_admin_jwt_secret :: string
  oc_livekit_api_secret :: string
  oc_turn_pass :: "string option"
  oc_jam_source_token :: "string option"
  oc_github_pat :: "string option"

definition option_list :: "'a option \<Rightarrow> 'a list" where
  "option_list x = (case x of None \<Rightarrow> [] | Some v \<Rightarrow> [v])"

definition other_credentials :: "owner_config \<Rightarrow> string list" where
  "other_credentials config =
     [oc_admin_jwt_secret config, oc_livekit_api_secret config] @ option_list (oc_turn_pass config)
       @ option_list (oc_jam_source_token config) @ option_list (oc_github_pat config)"

definition diagnostics_owner_secret_is_safe ::
  "(string \<Rightarrow> string \<Rightarrow> bool option) \<Rightarrow> owner_config \<Rightarrow> bool" where
  "diagnostics_owner_secret_is_safe verify config =
     (case oc_diagnostics_owner_secret config of None \<Rightarrow> False
      | Some candidate \<Rightarrow> owner_secret_is_safe verify candidate (oc_admin_password_hash config)
          (oc_admin_password config) (other_credentials config))"

text \<open>What \<open>main\<close> makes of it before the configuration is shared.\<close>

definition loaded_owner_config ::
  "(string \<Rightarrow> string \<Rightarrow> bool option) \<Rightarrow> owner_config \<Rightarrow> owner_config" where
  "loaded_owner_config verify config =
     (if diagnostics_owner_secret_is_safe verify config then config
      else config\<lparr>oc_diagnostics_owner_secret := None\<rparr>)"

section \<open>The limiter\<close>

record 'ip owner_login_limiter =
  ol_global_failures :: "instant list"
  ol_by_ip :: "('ip, instant list) hash_map"

definition empty_limiter :: "'ip owner_login_limiter" where
  "empty_limiter = \<lparr>ol_global_failures = [], ol_by_ip = []\<rparr>"

datatype owner_login_decision = Authorized | Rejected | RateLimited

definition trim_failures :: "instant \<Rightarrow> instant list \<Rightarrow> instant list" where
  "trim_failures now = dropWhile (\<lambda>failure. OWNER_LOGIN_WINDOW \<le> elapsed now failure)"

definition prune_limiter :: "instant \<Rightarrow> 'ip owner_login_limiter \<Rightarrow> 'ip owner_login_limiter" where
  "prune_limiter now l =
     l\<lparr>ol_global_failures := trim_failures now (ol_global_failures l),
       ol_by_ip := filter (\<lambda>(_, failures). failures \<noteq> [])
         (map (\<lambda>(ip, failures). (ip, trim_failures now failures)) (ol_by_ip l))\<rparr>"

definition evaluate ::
  "'ip \<Rightarrow> instant \<Rightarrow> bool \<Rightarrow> 'ip owner_login_limiter \<Rightarrow> owner_login_decision \<times> 'ip owner_login_limiter" where
  "evaluate ip now secret_matches l =
     (let l1 = prune_limiter now l;
          new_ip = (hm_get (ol_by_ip l1) ip = None);
          ip_failures = (case hm_get (ol_by_ip l1) ip of None \<Rightarrow> 0 | Some failures \<Rightarrow> length failures)
      in if OWNER_LOGIN_GLOBAL_MAX_FAILURES \<le> length (ol_global_failures l1)
            \<or> OWNER_LOGIN_MAX_FAILURES \<le> ip_failures
            \<or> (new_ip \<and> OWNER_LOGIN_MAX_RATE_KEYS \<le> length (ol_by_ip l1))
         then (RateLimited, l1)
         else if secret_matches then (Authorized, l1\<lparr>ol_by_ip := hm_remove ip (ol_by_ip l1)\<rparr>)
         else (Rejected,
           l1\<lparr>ol_global_failures := ol_global_failures l1 @ [now],
              ol_by_ip := hm_insert ip (or_default [] (hm_get (ol_by_ip l1) ip) @ [now]) (ol_by_ip l1)\<rparr>))"

section \<open>Tokens\<close>

record diagnostics_owner_claims =
  do_iss :: string
  do_sub :: string
  do_aud :: string
  do_scope :: string
  do_iat :: u64
  do_exp :: u64

text \<open>
  \<open>encode secret claims\<close> signs; None is an error of the library. \<open>decode secret token\<close> answers the
  claims of a token with a valid signature, the required claims, the audience and issuer asked for
  and an expiry still to come (the leeway is set to zero).
\<close>

type_synonym owner_encode = "string \<Rightarrow> diagnostics_owner_claims \<Rightarrow> string option"
type_synonym owner_decode = "string \<Rightarrow> string \<Rightarrow> diagnostics_owner_claims option"

definition owner_claims :: "u64 \<Rightarrow> diagnostics_owner_claims" where
  "owner_claims now =
     \<lparr>do_iss = DIAGNOSTICS_OWNER_ISSUER, do_sub = DIAGNOSTICS_OWNER_SUBJECT,
      do_aud = DIAGNOSTICS_OWNER_AUDIENCE, do_scope = DIAGNOSTICS_OWNER_SCOPE, do_iat = now,
      do_exp = sat_add now DIAGNOSTICS_OWNER_TOKEN_TTL_SECS\<rparr>"

definition issue_diagnostics_owner_token :: "owner_encode \<Rightarrow> string \<Rightarrow> u64 \<Rightarrow> string option" where
  "issue_diagnostics_owner_token encode secret now = encode secret (owner_claims now)"

definition decode_diagnostics_owner_token ::
  "owner_decode \<Rightarrow> u64 \<Rightarrow> string \<Rightarrow> string \<Rightarrow> status + diagnostics_owner_claims" where
  "decode_diagnostics_owner_token decode now secret token =
     (case decode secret token of None \<Rightarrow> Inl UNAUTHORIZED
      | Some claims \<Rightarrow>
          let maximum_future_iat = sat_add now 60; maximum_ttl = DIAGNOSTICS_OWNER_TOKEN_TTL_SECS in
          if do_sub claims \<noteq> DIAGNOSTICS_OWNER_SUBJECT \<or> do_scope claims \<noteq> DIAGNOSTICS_OWNER_SCOPE
             \<or> maximum_future_iat < do_iat claims \<or> do_exp claims \<le> do_iat claims
             \<or> maximum_ttl < sat_sub (do_exp claims) (do_iat claims)
          then Inl UNAUTHORIZED else Inr claims)"

definition configured_owner_secret :: "bool \<Rightarrow> owner_config \<Rightarrow> status + string" where
  "configured_owner_secret diagnostics config =
     (if \<not> diagnostics then Inl NOT_FOUND
      else case oc_diagnostics_owner_secret config of None \<Rightarrow> Inl NOT_FOUND
      | Some secret \<Rightarrow> if OWNER_SECRET_MIN_BYTES \<le> length secret then Inr secret else Inl NOT_FOUND)"

text \<open>The header \<open>authorization\<close> as text, None where it is missing or not text.\<close>

definition bearer_token :: "string option \<Rightarrow> status + string" where
  "bearer_token authorization =
     (case Option.bind authorization (strip_prefix ''Bearer '') of None \<Rightarrow> Inl UNAUTHORIZED
      | Some token \<Rightarrow> if token = [] then Inl UNAUTHORIZED else Inr token)"

definition ensure_diagnostics_owner ::
  "owner_decode \<Rightarrow> u64 \<Rightarrow> bool \<Rightarrow> owner_config \<Rightarrow> string option \<Rightarrow> status + diagnostics_owner_claims" where
  "ensure_diagnostics_owner decode now diagnostics config authorization =
     (case configured_owner_secret diagnostics config of Inl s \<Rightarrow> Inl s
      | Inr secret \<Rightarrow>
     (case bearer_token authorization of Inl s \<Rightarrow> Inl s
      | Inr token \<Rightarrow> decode_diagnostics_owner_token decode now secret token))"

section \<open>Answers\<close>

record 'a owner_answer =
  oa_status :: status
  oa_headers :: "(string, string) hash_map"
  oa_body :: "'a option"

definition add_no_store :: "'a owner_answer \<Rightarrow> 'a owner_answer" where
  "add_no_store response =
     response\<lparr>oa_headers := hm_insert ''cache-control'' ''no-store'' (oa_headers response)\<rparr>"

definition no_store_status :: "status \<Rightarrow> 'a owner_answer" where
  "no_store_status s = add_no_store \<lparr>oa_status = s, oa_headers = [], oa_body = None\<rparr>"

definition no_store_retry_after :: "status \<Rightarrow> nat \<Rightarrow> 'a owner_answer" where
  "no_store_retry_after s retry_after_seconds =
     (let response = no_store_status s in
      response\<lparr>oa_headers := hm_insert ''retry-after'' (nat_to_string retry_after_seconds)
        (oa_headers response)\<rparr>)"

record owner_login_body =
  ob_token :: string
  ob_expires_in_seconds :: u64

text \<open>\<open>payload\<close> is the secret of the request, or the status with which its JSON was rejected.\<close>

definition diagnostics_owner_login ::
  "owner_encode \<Rightarrow> bool \<Rightarrow> owner_config \<Rightarrow> 'ip \<Rightarrow> status + string \<Rightarrow> instant \<Rightarrow> u64
   \<Rightarrow> 'ip owner_login_limiter \<Rightarrow> owner_login_body owner_answer \<times> 'ip owner_login_limiter" where
  "diagnostics_owner_login encode diagnostics config ip payload at now l =
     (case configured_owner_secret diagnostics config of Inl s \<Rightarrow> (no_store_status s, l)
      | Inr configured_secret \<Rightarrow>
     (case payload of Inl s \<Rightarrow> (no_store_status s, l)
      | Inr secret \<Rightarrow>
     (case evaluate ip at (secrets_equal configured_secret secret) l of
        (Rejected, l1) \<Rightarrow> (no_store_status UNAUTHORIZED, l1)
      | (RateLimited, l1) \<Rightarrow>
          (no_store_retry_after TOO_MANY_REQUESTS (OWNER_LOGIN_WINDOW div secs 1), l1)
      | (Authorized, l1) \<Rightarrow>
          (case issue_diagnostics_owner_token encode configured_secret now of
             None \<Rightarrow> (no_store_status INTERNAL_SERVER_ERROR, l1)
           | Some token \<Rightarrow>
               (add_no_store \<lparr>oa_status = 200, oa_headers = [], oa_body = Some
                  \<lparr>ob_token = token, ob_expires_in_seconds = DIAGNOSTICS_OWNER_TOKEN_TTL_SECS\<rparr>\<rparr>, l1)))))"

definition require_diagnostics_owner ::
  "owner_decode \<Rightarrow> u64 \<Rightarrow> bool \<Rightarrow> owner_config \<Rightarrow> string option
   \<Rightarrow> (diagnostics_owner_claims \<Rightarrow> 'a owner_answer) \<Rightarrow> 'a owner_answer" where
  "require_diagnostics_owner decode now diagnostics config authorization next_layer =
     (case ensure_diagnostics_owner decode now diagnostics config authorization of
        Inl s \<Rightarrow> no_store_status s
      | Inr claims \<Rightarrow> add_no_store (next_layer claims))"

section \<open>Facts on the limiter\<close>

text \<open>A list of failures in the order they happened, seen at \<open>now\<close>.\<close>

lemma trim_sorted:
  "sorted fs \<Longrightarrow> trim_failures now fs = filter (\<lambda>f. elapsed now f < OWNER_LOGIN_WINDOW) fs"
proof (induction fs)
  case (Cons f fs)
  show ?case
  proof (cases "elapsed now f < OWNER_LOGIN_WINDOW")
    case True
    then have "\<forall>g \<in> set (f # fs). elapsed now g < OWNER_LOGIN_WINDOW"
      using Cons.prems by (auto simp: elapsed_def)
    then show ?thesis using True by (simp add: trim_failures_def)
  next
    case False
    with Cons show ?thesis by (simp add: trim_failures_def)
  qed
qed (simp add: trim_failures_def)

lemma secrets_equal_iff: "secrets_equal a b \<longleftrightarrow> a = b"
  by (simp add: secrets_equal_def constant_time_eq_iff bytes_of_inject)

lemma no_store_body [simp]:
  "oa_body (add_no_store response) = oa_body response" "oa_body (no_store_status s) = None"
  "oa_body (no_store_retry_after s n) = None"
  by (simp_all add: add_no_store_def no_store_status_def no_store_retry_after_def)

lemma no_store_headers [simp]:
  "hm_get (oa_headers (add_no_store response)) ''cache-control'' = Some ''no-store''"
  "hm_get (oa_headers (no_store_status s)) ''cache-control'' = Some ''no-store''"
  "hm_get (oa_headers (no_store_retry_after s n)) ''cache-control'' = Some ''no-store''"
  by (simp_all add: add_no_store_def no_store_status_def no_store_retry_after_def hm_simps)

end
