(* ===== verification/OwnerProperties.thy ===== *)
theory OwnerProperties
  imports OwnerAuth
begin

text \<open>Properties of the diagnostics owner's login, tokens and guard (\<open>diagnostics_auth.rs\<close>).\<close>

section \<open>A bucket of failures\<close>

text \<open>
  \<open>seen now fs\<close> are the failures still counted at \<open>now\<close>; \<open>at_most n fs\<close> says that no stretch of
  fifteen minutes holds more than \<open>n\<close> of them.
\<close>

abbreviation seen :: "instant \<Rightarrow> instant list \<Rightarrow> instant list" where
  "seen now fs \<equiv> filter (\<lambda>f. elapsed now f < OWNER_LOGIN_WINDOW) fs"

definition at_most :: "nat \<Rightarrow> instant list \<Rightarrow> bool" where
  "at_most n fs \<longleftrightarrow> (\<forall>t. length (filter (\<lambda>f. t \<le> f \<and> f < t + OWNER_LOGIN_WINDOW) fs) \<le> n)"

lemma seen_seen: "before \<le> now \<Longrightarrow> seen now (seen before fs) = seen now fs"
  unfolding filter_filter by (rule filter_cong) (auto simp: elapsed_def)

lemma trim_seen: "sorted fs \<Longrightarrow> before \<le> now \<Longrightarrow> trim_failures now (seen before fs) = seen now fs"
  by (simp add: trim_sorted sorted_filter [where f = id, simplified] seen_seen del: filter_filter)

lemma at_most_push:
  assumes "at_most n fs" and "\<forall>f \<in> set fs. f \<le> now" and "length (seen now fs) < n"
  shows "at_most n (fs @ [now])"
  unfolding at_most_def
proof
  fix t
  show "length (filter (\<lambda>f. t \<le> f \<and> f < t + OWNER_LOGIN_WINDOW) (fs @ [now])) \<le> n"
  proof (cases "t \<le> now \<and> now < t + OWNER_LOGIN_WINDOW")
    case True
    then have "length (filter (\<lambda>f. t \<le> f \<and> f < t + OWNER_LOGIN_WINDOW) fs) \<le> length (seen now fs)"
      using assms(2) by (intro length_filter_mono) (auto simp: elapsed_def)
    with True assms(3) show ?thesis by simp
  next
    case False
    with assms(1) show ?thesis by (auto simp: at_most_def)
  qed
qed

lemma seen_push: "seen now (fs @ [now]) = seen now fs @ [now]"
  by (simp add: elapsed_def OWNER_LOGIN_WINDOW_def)

section \<open>Runs of attempts\<close>

fun attempts ::
  "('ip \<times> instant \<times> bool) list \<Rightarrow> 'ip owner_login_limiter
   \<Rightarrow> owner_login_decision list \<times> 'ip owner_login_limiter" where
  "attempts [] l = ([], l)"
| "attempts ((ip, now, matches) # calls) l =
     (case evaluate ip now matches l of (d, l1) \<Rightarrow>
        (case attempts calls l1 of (ds, l2) \<Rightarrow> (d # ds, l2)))"

text \<open>The times at which a wrong secret of one of the chosen addresses was compared.\<close>

definition compared ::
  "('ip \<Rightarrow> bool) \<Rightarrow> ('ip \<times> instant \<times> bool) list \<Rightarrow> owner_login_decision list \<Rightarrow> instant list" where
  "compared P calls ds =
     map (\<lambda>((_, now, _), _). now) (filter (\<lambda>((ip, _, _), d). P ip \<and> d = Rejected) (zip calls ds))"

text \<open>The bucket of one address holds what is still seen of its failures.\<close>

definition bucket :: "('ip, instant list) hash_map \<Rightarrow> 'ip \<Rightarrow> instant list \<Rightarrow> bool" where
  "bucket m ip fs \<longleftrightarrow> hm_get m ip = (if fs = [] then None else Some fs)"

definition limiter_ok :: "'ip owner_login_limiter \<Rightarrow> instant \<Rightarrow> instant list \<Rightarrow> bool" where
  "limiter_ok l last_call failures \<longleftrightarrow>
     sorted failures \<and> (\<forall>f \<in> set failures. f \<le> last_call) \<and> at_most OWNER_LOGIN_GLOBAL_MAX_FAILURES failures
     \<and> ol_global_failures l = seen last_call failures
     \<and> hm_ok (ol_by_ip l) \<and> length (ol_by_ip l) \<le> OWNER_LOGIN_MAX_RATE_KEYS"

definition address_ok :: "'ip \<Rightarrow> 'ip owner_login_limiter \<Rightarrow> instant \<Rightarrow> instant list \<Rightarrow> bool" where
  "address_ok ip l last_call failures \<longleftrightarrow>
     sorted failures \<and> (\<forall>f \<in> set failures. f \<le> last_call) \<and> at_most OWNER_LOGIN_MAX_FAILURES failures
     \<and> bucket (ol_by_ip l) ip (seen last_call failures)"

lemma sorted_push: "sorted fs \<Longrightarrow> \<forall>f \<in> set fs. f \<le> (now :: nat) \<Longrightarrow> sorted (fs @ [now])"
  by (simp add: sorted_append)

lemma prune_by_ip:
  assumes "hm_ok (ol_by_ip l)"
  shows "hm_ok (ol_by_ip (prune_limiter now l))"
    and "length (ol_by_ip (prune_limiter now l)) \<le> length (ol_by_ip l)"
    and "hm_get (ol_by_ip (prune_limiter now l)) ip =
      (case hm_get (ol_by_ip l) ip of None \<Rightarrow> None
       | Some fs \<Rightarrow> if trim_failures now fs = [] then None else Some (trim_failures now fs))"
proof -
  let ?m = "map (\<lambda>(ip, failures). (ip, trim_failures now failures)) (ol_by_ip l)"
  have m: "hm_ok ?m" using assms by (simp add: hm_ok_map)
  show "hm_ok (ol_by_ip (prune_limiter now l))" using m by (simp add: prune_limiter_def)
  show "length (ol_by_ip (prune_limiter now l)) \<le> length (ol_by_ip l)"
    using length_filter_le [of "\<lambda>(_, failures). failures \<noteq> []" ?m] by (simp add: prune_limiter_def)
  show "hm_get (ol_by_ip (prune_limiter now l)) ip =
      (case hm_get (ol_by_ip l) ip of None \<Rightarrow> None
       | Some fs \<Rightarrow> if trim_failures now fs = [] then None else Some (trim_failures now fs))"
    using hm_get_filter [OF m, where P = "\<lambda>_ failures. failures \<noteq> []" and k = ip]
    by (auto simp: prune_limiter_def hm_get_map split: option.split)
qed

lemma prune_limiter_ok:
  assumes "limiter_ok l last_call failures" and "last_call \<le> now"
  shows "limiter_ok (prune_limiter now l) now failures"
proof -
  from assms have "ol_global_failures (prune_limiter now l) = seen now failures"
    by (simp add: prune_limiter_def limiter_ok_def trim_seen)
  with assms prune_by_ip [of l now] show ?thesis by (auto simp: limiter_ok_def)
qed

lemma prune_address_ok:
  assumes "address_ok ip l last_call failures" and "hm_ok (ol_by_ip l)" and "last_call \<le> now"
  shows "address_ok ip (prune_limiter now l) now failures"
proof -
  from assms have trim: "trim_failures now (seen last_call failures) = seen now failures"
    by (simp add: address_ok_def trim_seen)
  have "bucket (ol_by_ip (prune_limiter now l)) ip (seen now failures)"
  proof (cases "seen last_call failures = []")
    case True
    then have "seen now failures = []" using trim by (simp add: trim_failures_def)
    with True assms prune_by_ip(3) [OF assms(2)] show ?thesis by (simp add: address_ok_def bucket_def)
  next
    case False
    with assms trim prune_by_ip(3) [OF assms(2)] show ?thesis by (simp add: address_ok_def bucket_def)
  qed
  with assms show ?thesis by (auto simp: address_ok_def)
qed

lemma bucket_length: "bucket m ip fs \<Longrightarrow> or_default [] (hm_get m ip) = fs"
  by (auto simp: bucket_def)

lemma evaluate_cases:
  assumes "evaluate ip now secret_matches l = (d, l')" and "l1 = prune_limiter now l"
  obtains (limited) "d = RateLimited" "l' = l1"
    | (authorized) "d = Authorized" "secret_matches" "l' = l1\<lparr>ol_by_ip := hm_remove ip (ol_by_ip l1)\<rparr>"
    | (rejected) "d = Rejected" "\<not> secret_matches"
        "length (ol_global_failures l1) < OWNER_LOGIN_GLOBAL_MAX_FAILURES"
        "length (or_default [] (hm_get (ol_by_ip l1) ip)) < OWNER_LOGIN_MAX_FAILURES"
        "hm_get (ol_by_ip l1) ip = None \<longrightarrow> length (ol_by_ip l1) < OWNER_LOGIN_MAX_RATE_KEYS"
        "l' = l1\<lparr>ol_global_failures := ol_global_failures l1 @ [now],
           ol_by_ip := hm_insert ip (or_default [] (hm_get (ol_by_ip l1) ip) @ [now]) (ol_by_ip l1)\<rparr>"
proof -
  define full where "full \<longleftrightarrow> OWNER_LOGIN_GLOBAL_MAX_FAILURES \<le> length (ol_global_failures l1)
    \<or> OWNER_LOGIN_MAX_FAILURES \<le> (case hm_get (ol_by_ip l1) ip of None \<Rightarrow> 0 | Some failures \<Rightarrow> length failures)
    \<or> (hm_get (ol_by_ip l1) ip = None \<and> OWNER_LOGIN_MAX_RATE_KEYS \<le> length (ol_by_ip l1))"
  have run: "evaluate ip now secret_matches l =
    (if full then (RateLimited, l1)
     else if secret_matches then (Authorized, l1\<lparr>ol_by_ip := hm_remove ip (ol_by_ip l1)\<rparr>)
     else (Rejected, l1\<lparr>ol_global_failures := ol_global_failures l1 @ [now],
           ol_by_ip := hm_insert ip (or_default [] (hm_get (ol_by_ip l1) ip) @ [now]) (ol_by_ip l1)\<rparr>))"
    unfolding evaluate_def Let_def full_def assms(2) by (rule refl)
  show thesis
  proof (cases full)
    case True
    with run assms(1) show ?thesis by (intro limited) simp_all
  next
    case False
    show ?thesis
    proof (cases secret_matches)
      case True
      with False run assms(1) show ?thesis by (intro authorized) simp_all
    next
      case no: False
      have "length (or_default [] (hm_get (ol_by_ip l1) ip)) < OWNER_LOGIN_MAX_FAILURES"
        using False by (cases "hm_get (ol_by_ip l1) ip") (auto simp: full_def)
      moreover have "length (ol_global_failures l1) < OWNER_LOGIN_GLOBAL_MAX_FAILURES"
        "hm_get (ol_by_ip l1) ip = None \<longrightarrow> length (ol_by_ip l1) < OWNER_LOGIN_MAX_RATE_KEYS"
        using False by (auto simp: full_def)
      ultimately show ?thesis using no False run assms(1) by (intro rejected) simp_all
    qed
  qed
qed

lemma evaluate_limiter_ok:
  assumes "limiter_ok l last_call failures" and "last_call \<le> now" and "evaluate ip now secret_matches l = (d, l')"
  shows "limiter_ok l' now (if d = Rejected then failures @ [now] else failures)"
proof -
  let ?l = "prune_limiter now l"
  have ok: "limiter_ok ?l now failures" using assms(1,2) by (rule prune_limiter_ok)
  have size: "length (hm_insert ip v (ol_by_ip ?l)) \<le> OWNER_LOGIN_MAX_RATE_KEYS"
    if "hm_get (ol_by_ip ?l) ip = None \<longrightarrow> length (ol_by_ip ?l) < OWNER_LOGIN_MAX_RATE_KEYS" for v
  proof (cases "hm_get (ol_by_ip ?l) ip")
    case None
    with that hm_length_insert [of ip v "ol_by_ip ?l"] show ?thesis by simp
  next
    case (Some w)
    with ok show ?thesis by (simp add: limiter_ok_def hm_length_insert_known)
  qed
  have removed: "length (hm_remove ip (ol_by_ip ?l)) \<le> OWNER_LOGIN_MAX_RATE_KEYS"
    using ok length_filter_le le_trans unfolding hm_remove_def limiter_ok_def by blast
  from assms(3) refl show ?thesis
  proof (cases rule: evaluate_cases)
    case limited
    with ok show ?thesis by simp
  next
    case authorized
    with ok removed show ?thesis by (simp add: limiter_ok_def)
  next
    case rejected
    with ok size [of "or_default [] (hm_get (ol_by_ip ?l) ip) @ [now]"] at_most_push [of OWNER_LOGIN_GLOBAL_MAX_FAILURES failures now]
    show ?thesis by (simp add: limiter_ok_def sorted_append seen_push del: filter_append)
  qed
qed

lemma evaluate_address_ok:
  assumes "address_ok a l last_call failures" and "limiter_ok l last_call others" and "last_call \<le> now"
    and "evaluate ip now secret_matches l = (d, l')" and "ip = a \<longrightarrow> \<not> secret_matches"
  shows "address_ok a l' now (if ip = a \<and> d = Rejected then failures @ [now] else failures)"
proof -
  let ?l = "prune_limiter now l"
  have ok: "address_ok a ?l now failures"
    using assms(1-3) by (intro prune_address_ok) (auto simp: limiter_ok_def)
  then have b: "bucket (ol_by_ip ?l) a (seen now failures)" by (simp add: address_ok_def)
  from assms(4) refl show ?thesis
  proof (cases rule: evaluate_cases)
    case limited
    with ok show ?thesis by simp
  next
    case authorized
    with ok assms(5) show ?thesis by (auto simp: address_ok_def bucket_def hm_simps)
  next
    case rejected
    show ?thesis
    proof (cases "ip = a")
      case False
      with ok rejected show ?thesis by (auto simp: address_ok_def bucket_def hm_simps)
    next
      case True
      with rejected(4) bucket_length [OF b] have "length (seen now failures) < OWNER_LOGIN_MAX_FAILURES"
        by simp
      with ok at_most_push [of OWNER_LOGIN_MAX_FAILURES failures now]
      have "at_most OWNER_LOGIN_MAX_FAILURES (failures @ [now])" by (simp add: address_ok_def)
      moreover have "bucket (ol_by_ip l') a (seen now (failures @ [now]))"
        using True rejected(6) bucket_length [OF b] by (simp add: bucket_def hm_simps seen_push del: filter_append)
      ultimately show ?thesis
        using ok True rejected(1) by (simp add: address_ok_def sorted_append del: filter_append)
    qed
  qed
qed

lemma compared_step:
  "compared P ((ip, now, matches) # calls) (d # ds)
     = (if P ip \<and> d = Rejected then [now] else []) @ compared P calls ds"
  by (simp add: compared_def)

lemma attempts_ok:
  assumes "limiter_ok l last_call failures" and "sorted (map (fst \<circ> snd) calls)"
    and "\<forall>(_, now, _) \<in> set calls. last_call \<le> now" and "attempts calls l = (ds, l')"
  shows "\<exists>final. limiter_ok l' final (failures @ compared (\<lambda>_. True) calls ds)"
  using assms
proof (induction calls arbitrary: l last_call failures ds)
  case Nil
  then show ?case by (auto simp: compared_def)
next
  case (Cons call calls)
  obtain ip now matches where call: "call = (ip, now, matches)" by (cases call)
  obtain d l1 where one: "evaluate ip now matches l = (d, l1)" by fastforce
  obtain ds1 where rest: "attempts calls l1 = (ds1, l')" and ds: "ds = d # ds1"
    using Cons.prems(4) by (auto simp: call one split: prod.splits)
  have "limiter_ok l1 now (if d = Rejected then failures @ [now] else failures)"
    using evaluate_limiter_ok [OF Cons.prems(1) _ one] Cons.prems(3) by (simp add: call)
  moreover have "\<forall>(_, t, _) \<in> set calls. now \<le> t" "sorted (map (fst \<circ> snd) calls)"
    using Cons.prems(2) by (auto simp: call comp_def)
  ultimately show ?case
    using Cons.IH [OF _ _ _ rest] by (fastforce simp: call ds compared_step)
qed

lemma attempts_address_ok:
  assumes "address_ok a l last_call failures" and "limiter_ok l last_call others"
    and "sorted (map (fst \<circ> snd) calls)"
    and "\<forall>(_, now, _) \<in> set calls. last_call \<le> now" and "attempts calls l = (ds, l')"
    and "\<forall>(ip, _, matches) \<in> set calls. ip = a \<longrightarrow> \<not> matches"
  shows "\<exists>final. address_ok a l' final (failures @ compared (\<lambda>ip. ip = a) calls ds)"
  using assms
proof (induction calls arbitrary: l last_call failures others ds)
  case Nil
  then show ?case by (auto simp: compared_def)
next
  case (Cons call calls)
  obtain ip now matches where call: "call = (ip, now, matches)" by (cases call)
  obtain d l1 where one: "evaluate ip now matches l = (d, l1)" by fastforce
  obtain ds1 where rest: "attempts calls l1 = (ds1, l')" and ds: "ds = d # ds1"
    using Cons.prems(5) by (auto simp: call one split: prod.splits)
  have later: "last_call \<le> now" using Cons.prems(4) by (simp add: call)
  have "limiter_ok l1 now (if d = Rejected then others @ [now] else others)"
    by (rule evaluate_limiter_ok [OF Cons.prems(2) later one])
  moreover have "address_ok a l1 now (if ip = a \<and> d = Rejected then failures @ [now] else failures)"
    using evaluate_address_ok [OF Cons.prems(1,2) later one] Cons.prems(6) by (simp add: call)
  moreover have "\<forall>(_, t, _) \<in> set calls. now \<le> t" "sorted (map (fst \<circ> snd) calls)"
    "\<forall>(ip, _, matches) \<in> set calls. ip = a \<longrightarrow> \<not> matches"
    using Cons.prems(3,6) by (auto simp: call comp_def)
  ultimately show ?case
    using Cons.IH [OF _ _ _ _ rest] by (fastforce simp: call ds compared_step)
qed

lemma empty_ok:
  "limiter_ok empty_limiter 0 []" "address_ok a empty_limiter 0 []"
  by (simp_all add: limiter_ok_def address_ok_def empty_limiter_def at_most_def bucket_def)

text \<open>guesses of the owner's secret are bounded. Over any run of login attempts, in the order of
  their times, no stretch of fifteen minutes holds more than a hundred comparisons with a wrong
  secret, nor more than five from one address that does not know the secret, whatever the other
  addresses do; and the limiter never holds more than sixty-four addresses.
\<close>

lemma owner_guesses_are_bounded:
  assumes "sorted (map (fst \<circ> snd) calls)"
  shows "case attempts calls empty_limiter of (ds, l) \<Rightarrow>
      at_most 100 (compared (\<lambda>_. True) calls ds)
    \<and> ((\<forall>(ip, _, matches) \<in> set calls. ip = a \<longrightarrow> \<not> matches)
        \<longrightarrow> at_most 5 (compared (\<lambda>ip. ip = a) calls ds))
    \<and> length (ol_by_ip l) \<le> 64"
proof -
  obtain ds l where run: "attempts calls empty_limiter = (ds, l)" by fastforce
  have from_zero: "\<forall>(_, now, _) \<in> set calls. 0 \<le> now" by simp
  obtain final where all: "limiter_ok l final (compared (\<lambda>_. True) calls ds)"
    using attempts_ok [OF empty_ok(1) assms from_zero run] by auto
  have "at_most 5 (compared (\<lambda>ip. ip = a) calls ds)"
    if "\<forall>(ip, _, matches) \<in> set calls. ip = a \<longrightarrow> \<not> matches"
    using attempts_address_ok [OF empty_ok(2) empty_ok(1) assms from_zero run that]
    by (auto simp: address_ok_def OWNER_LOGIN_MAX_FAILURES_def)
  with all run show ?thesis
    by (simp add: limiter_ok_def OWNER_LOGIN_GLOBAL_MAX_FAILURES_def OWNER_LOGIN_MAX_RATE_KEYS_def)
qed

text \<open>Seven guesses from one address, a second apart: two of them are not compared.\<close>

section \<open>Tokens and the guard\<close>

text \<open>
  What is documented of the library: a token signed with a secret decodes under that secret to its
  claims as long as it has not expired, and what decodes has not expired and names the audience and
  the issuer that were asked for.
\<close>

definition jwt_sound :: "owner_encode \<Rightarrow> owner_decode \<Rightarrow> u64 \<Rightarrow> bool" where
  "jwt_sound encode decode now \<longleftrightarrow>
     (\<forall>secret claims token. encode secret claims = Some token \<longrightarrow> now < do_exp claims
        \<longrightarrow> do_aud claims = DIAGNOSTICS_OWNER_AUDIENCE \<longrightarrow> do_iss claims = DIAGNOSTICS_OWNER_ISSUER
        \<longrightarrow> decode secret token = Some claims)
   \<and> (\<forall>secret token claims. decode secret token = Some claims \<longrightarrow> now < do_exp claims)"

lemma owner_claims_ok:
  assumes "at \<le> now" and "now < sat_add at DIAGNOSTICS_OWNER_TOKEN_TTL_SECS"
  shows "\<not> sat_add now 60 < at" "\<not> sat_add at DIAGNOSTICS_OWNER_TOKEN_TTL_SECS \<le> at"
    "\<not> DIAGNOSTICS_OWNER_TOKEN_TTL_SECS < sat_sub (sat_add at DIAGNOSTICS_OWNER_TOKEN_TTL_SECS) at"
  using assms unat_less_u64 [of at] unat_less_u64 [of now]
  by (auto simp: u64_order u64_simps DIAGNOSTICS_OWNER_TOKEN_TTL_SECS_def)

lemma evaluate_authorized: "evaluate ip now secret_matches l = (Authorized, l') \<Longrightarrow> secret_matches"
  by (erule evaluate_cases [OF _ refl]) simp_all

lemma owner_login_cases:
  obtains (refused) answer l' where "diagnostics_owner_login encode diagnostics config ip payload t at l = (answer, l')"
      "oa_body answer = None" "hm_get (oa_headers answer) ''cache-control'' = Some ''no-store''"
    | (granted) secret token l' where "payload = Inr secret"
        "configured_owner_secret diagnostics config = Inr secret" "encode secret (owner_claims at) = Some token"
        "diagnostics_owner_login encode diagnostics config ip payload t at l =
           (add_no_store \<lparr>oa_status = 200, oa_headers = [], oa_body = Some
              \<lparr>ob_token = token, ob_expires_in_seconds = DIAGNOSTICS_OWNER_TOKEN_TTL_SECS\<rparr>\<rparr>, l')"
        "oc_diagnostics_owner_secret config = Some secret"
proof (cases "configured_owner_secret diagnostics config")
  case (Inl s)
  then show ?thesis by (intro refused) (auto simp: diagnostics_owner_login_def)
next
  case configured: (Inr secret)
  then have known: "oc_diagnostics_owner_secret config = Some secret"
    by (auto simp: configured_owner_secret_def split: if_splits option.splits)
  show ?thesis
  proof (cases payload)
    case (Inl s)
    with configured show ?thesis by (intro refused) (auto simp: diagnostics_owner_login_def)
  next
    case (Inr given)
    obtain d l1 where e: "evaluate ip t (secrets_equal secret given) l = (d, l1)" by fastforce
    show ?thesis
    proof (cases "d = Authorized \<and> encode secret (owner_claims at) \<noteq> None")
      case True
      with e evaluate_authorized [of ip t "secrets_equal secret given" l] have "given = secret"
        by (simp add: secrets_equal_iff)
      moreover from True obtain token where "encode secret (owner_claims at) = Some token" by blast
      ultimately show ?thesis using True Inr configured e known
        by (intro granted [of secret token l1])
          (simp_all add: diagnostics_owner_login_def issue_diagnostics_owner_token_def)
    next
      case False
      with Inr configured e show ?thesis
        by (cases d; intro refused)
          (auto simp: diagnostics_owner_login_def issue_diagnostics_owner_token_def)
    qed
  qed
qed

text \<open>The owner's token opens the owner's routes for one hour and nothing else does. A login that
  is answered with a token was made with the configured secret; that token passes the guard until
  it expires an hour later; what passes the guard was issued at most a minute ahead and for at most
  an hour, with the subject and scope of the owner; and every answer of the login and of the guard
  forbids caching.
\<close>

lemma owner_token_opens_for_one_hour:
  assumes "jwt_sound encode decode now" and "at \<le> now"
    and "now < sat_add at DIAGNOSTICS_OWNER_TOKEN_TTL_SECS"
  shows "(case diagnostics_owner_login encode diagnostics config ip payload t at l of (answer, l') \<Rightarrow>
      hm_get (oa_headers answer) ''cache-control'' = Some ''no-store''
    \<and> (case oa_body answer of None \<Rightarrow> True | Some body \<Rightarrow>
         (\<exists>secret. payload = Inr secret \<and> oc_diagnostics_owner_secret config = Some secret)
       \<and> (ob_token body \<noteq> [] \<longrightarrow> ensure_diagnostics_owner decode now diagnostics config
             (Some (''Bearer '' @ ob_token body)) = Inr (owner_claims at))))
    \<and> hm_get (oa_headers (require_diagnostics_owner decode now diagnostics config header handler))
         ''cache-control'' = Some ''no-store''
    \<and> (case ensure_diagnostics_owner decode now diagnostics config header of Inl _ \<Rightarrow> True
      | Inr claims \<Rightarrow> do_sub claims = DIAGNOSTICS_OWNER_SUBJECT \<and> do_scope claims = DIAGNOSTICS_OWNER_SCOPE
          \<and> now < do_exp claims \<and> unat (do_exp claims) \<le> unat (do_iat claims) + 3600
          \<and> unat (do_iat claims) \<le> unat now + 60)"
proof (intro conjI)
  show "case diagnostics_owner_login encode diagnostics config ip payload t at l of (answer, l') \<Rightarrow>
      hm_get (oa_headers answer) ''cache-control'' = Some ''no-store''
    \<and> (case oa_body answer of None \<Rightarrow> True | Some body \<Rightarrow>
         (\<exists>secret. payload = Inr secret \<and> oc_diagnostics_owner_secret config = Some secret)
       \<and> (ob_token body \<noteq> [] \<longrightarrow> ensure_diagnostics_owner decode now diagnostics config
             (Some (''Bearer '' @ ob_token body)) = Inr (owner_claims at)))"
  proof (cases rule: owner_login_cases [of encode diagnostics config ip payload t at l])
    case (refused answer l')
    then show ?thesis by simp
  next
    case (granted secret token l')
    have "decode secret token = Some (owner_claims at)"
      using assms granted(3) by (simp add: jwt_sound_def owner_claims_def)
    with granted owner_claims_ok [OF assms(2,3)] show ?thesis
      by (auto simp: ensure_diagnostics_owner_def bearer_token_def strip_prefix_def
          decode_diagnostics_owner_token_def owner_claims_def Let_def)
  qed
next
  show "hm_get (oa_headers (require_diagnostics_owner decode now diagnostics config header handler))
         ''cache-control'' = Some ''no-store''"
    by (simp add: require_diagnostics_owner_def split: sum.split)
next
  have token: "case decode_diagnostics_owner_token decode now secret token of Inl _ \<Rightarrow> True
      | Inr claims \<Rightarrow> do_sub claims = DIAGNOSTICS_OWNER_SUBJECT \<and> do_scope claims = DIAGNOSTICS_OWNER_SCOPE
          \<and> now < do_exp claims \<and> unat (do_exp claims) \<le> unat (do_iat claims) + 3600
          \<and> unat (do_iat claims) \<le> unat now + 60" for secret token
    using assms(1) by (auto simp: decode_diagnostics_owner_token_def Let_def jwt_sound_def u64_order u64_simps
        DIAGNOSTICS_OWNER_TOKEN_TTL_SECS_def split: option.split)
  show "case ensure_diagnostics_owner decode now diagnostics config header of Inl _ \<Rightarrow> True
      | Inr claims \<Rightarrow> do_sub claims = DIAGNOSTICS_OWNER_SUBJECT \<and> do_scope claims = DIAGNOSTICS_OWNER_SCOPE
          \<and> now < do_exp claims \<and> unat (do_exp claims) \<le> unat (do_iat claims) + 3600
          \<and> unat (do_iat claims) \<le> unat now + 60"
  proof (cases "configured_owner_secret diagnostics config")
    case (Inr secret)
    then show ?thesis using token [of secret] by (cases "bearer_token header") (simp_all add: ensure_diagnostics_owner_def)
  qed (simp add: ensure_diagnostics_owner_def)
qed

end
