(* ===== verification/ConfigUtil.thy ===== *)
theory ConfigUtil
  imports Prelude
begin

text \<open>
  The helpers of \<open>config.rs\<close> that compute: the civil date of a day count and the encoding of query
  parameters.
\<close>

section \<open>Dates\<close>

definition is_leap_year :: "int \<Rightarrow> bool" where
  "is_leap_year y \<longleftrightarrow> (y mod 4 = 0 \<and> y mod 100 \<noteq> 0) \<or> y mod 400 = 0"

definition days_in_year :: "int \<Rightarrow> int" where
  "days_in_year y = (if is_leap_year y then 366 else 365)"

function year_loop :: "int \<Rightarrow> int \<Rightarrow> int \<times> int" where
  "year_loop y remaining =
     (if remaining < days_in_year y then (y, remaining)
      else year_loop (y + 1) (remaining - days_in_year y))"
  by pat_completeness auto
termination
  by (relation "measure (\<lambda>(_, remaining). nat remaining)") (auto simp: days_in_year_def split: if_splits)

declare year_loop.simps [simp del]

definition month_days :: "int \<Rightarrow> int list" where
  "month_days y = [31, if is_leap_year y then 29 else 28, 31, 30, 31, 30, 31, 31, 30, 31, 30, 31]"

text \<open>The month's index and the days left in it; index 0 where no month was found.\<close>

fun month_loop :: "nat \<Rightarrow> int list \<Rightarrow> int \<Rightarrow> nat \<times> int" where
  "month_loop i [] remaining = (0, remaining)"
| "month_loop i (md # mds) remaining =
     (if remaining < md then (i, remaining) else month_loop (Suc i) mds (remaining - md))"

text \<open>\<open>days as i64\<close> reads the word as signed; the date's parts are cast back to \<open>u64\<close>.\<close>

definition epoch_days_to_date :: "u64 \<Rightarrow> u64 \<times> u64 \<times> u64" where
  "epoch_days_to_date days =
     (case year_loop 1970 (sint days) of (y, remaining) \<Rightarrow>
        (case month_loop 0 (month_days y) remaining of (m, left) \<Rightarrow>
           (of_int y, of_nat (m + 1), of_int (left + 1))))"

section \<open>Query parameters\<close>

definition is_unreserved :: "char \<Rightarrow> bool" where
  "is_unreserved c \<longleftrightarrow> is_ascii_alphanumeric c \<or> c \<in> set ''-_.~''"

text \<open>\<open>{:02X}\<close>\<close>

definition hex_digit_upper :: "nat \<Rightarrow> char" where
  "hex_digit_upper n = (if n < 10 then char_of (48 + n) else char_of (55 + n))"

definition urlencoded :: "string \<Rightarrow> string" where
  "urlencoded s = concat (map (\<lambda>b. if is_unreserved b then [b]
     else [CHR ''%'', hex_digit_upper (byte_of b div 16), hex_digit_upper (byte_of b mod 16)]) s)"

section \<open>The calendar\<close>

text \<open>
  The reference: the day after a date, from the lengths of the months. A date is year, month and
  day, all counted from one.
\<close>

definition month_length :: "int \<Rightarrow> nat \<Rightarrow> int" where
  "month_length y m = month_days y ! (m - 1)"

fun next_day :: "int \<times> nat \<times> int \<Rightarrow> int \<times> nat \<times> int" where
  "next_day (y, m, d) =
     (if d < month_length y m then (y, m, d + 1)
      else if m < 12 then (y, m + 1, 1) else (y + 1, 1, 1))"

text \<open>The date of a day within a year, and of a day count.\<close>

definition date_in_year :: "int \<Rightarrow> int \<Rightarrow> int \<times> nat \<times> int" where
  "date_in_year y remaining =
     (case month_loop 0 (month_days y) remaining of (m, left) \<Rightarrow> (y, m + 1, left + 1))"

definition date_from :: "int \<Rightarrow> int \<Rightarrow> int \<times> nat \<times> int" where
  "date_from y n = (case year_loop y n of (y', remaining) \<Rightarrow> date_in_year y' remaining)"

lemma month_loop_step:
  assumes "0 \<le> r" and "r + 1 < sum_list mds" and "\<forall>md \<in> set mds. 0 < md"
  shows "case month_loop i mds r of (m, left) \<Rightarrow>
    month_loop i mds (r + 1) = (if left + 1 < mds ! (m - i) then (m, left + 1) else (m + 1, 0))
    \<and> i \<le> m \<and> (left + 1 < mds ! (m - i) \<or> m + 1 < i + length mds)"
  using assms
proof (induction mds arbitrary: i r)
  case (Cons md mds)
  show ?case
  proof (cases "r < md")
    case True
    show ?thesis
    proof (cases "r + 1 < md")
      case False
      with True Cons.prems have "mds \<noteq> []" by auto
      then obtain md' mds' where "mds = md' # mds'" by (cases mds) auto
      with True False Cons.prems show ?thesis by auto
    qed (use True in simp)
  next
    case False
    have "r - md + 1 = r + 1 - md" by simp
    with Cons.IH [of "r - md" "Suc i"] False Cons.prems show ?thesis
      by (auto simp: nth_Cons' split: prod.splits if_splits)
  qed
qed simp

lemma month_days_simps:
  "sum_list (month_days y) = days_in_year y" "\<forall>md \<in> set (month_days y). 0 < md"
  "length (month_days y) = 12"
  by (simp_all add: month_days_def days_in_year_def)

lemma date_in_year_next:
  assumes "0 \<le> r" and "r + 1 < days_in_year y"
  shows "date_in_year y (r + 1) = next_day (date_in_year y r)"
proof -
  obtain m left where m: "month_loop 0 (month_days y) r = (m, left)" by fastforce
  from month_loop_step [of r "month_days y" 0] assms m
  show ?thesis by (auto simp: date_in_year_def month_length_def month_days_simps)
qed

lemma last_day_of_year: "date_in_year y (days_in_year y - 1) = (y, 12, 31)"
  by (simp add: date_in_year_def month_days_def days_in_year_def)

lemma date_from_next: "0 \<le> n \<Longrightarrow> date_from y (n + 1) = next_day (date_from y n)"
proof (induction y n rule: year_loop.induct)
  case (1 y n)
  consider (within) "n + 1 < days_in_year y" | (turn) "n + 1 = days_in_year y" | (later) "days_in_year y \<le> n"
    by linarith
  then show ?case
  proof cases
    case within
    with 1(2) show ?thesis
      using date_in_year_next by (simp add: date_from_def year_loop.simps [of y])
  next
    case turn
    then have n: "n = days_in_year y - 1" by simp
    have "date_from y n = (y, 12, 31)"
      using last_day_of_year by (simp add: date_from_def n year_loop.simps [of y])
    moreover have "date_from y (n + 1) = (y + 1, 1, 1)"
      by (simp add: date_from_def n year_loop.simps [of y] year_loop.simps [of "y + 1" 0]
          days_in_year_def date_in_year_def month_days_def)
    ultimately show ?thesis by (simp add: month_length_def month_days_def)
  next
    case later
    have "date_from y n = date_from (y + 1) (n - days_in_year y)"
      "date_from y (n + 1) = date_from (y + 1) (n - days_in_year y + 1)"
      using later by (simp_all add: date_from_def year_loop.simps [of y] algebra_simps)
    with 1(1) later show ?thesis by simp
  qed
qed

lemma date_from_steps: "date_from 1970 (int n) = (next_day ^^ n) (1970, 1, 1)"
proof (induction n)
  case 0
  show ?case
    by (simp add: date_from_def year_loop.simps [of 1970 0] days_in_year_def date_in_year_def month_days_def)
next
  case (Suc n)
  have "date_from 1970 (int (Suc n)) = next_day (date_from 1970 (int n))"
    using date_from_next [of "int n" 1970] by (simp add: add.commute)
  with Suc show ?case by simp
qed

text \<open>The date that names a session log is the date of the calendar: day 0 is the first of
  January 1970, and every further day is the next day of the calendar, through months and leap years.
\<close>

lemma epoch_dates_follow_the_calendar:
  assumes "n < 2 ^ 63"
  shows "epoch_days_to_date (of_nat n) =
    (case (next_day ^^ n) (1970, 1, 1) of (y, m, d) \<Rightarrow> (of_int y, of_nat m, of_int d))"
proof -
  have "sint (of_nat n :: u64) = int n"
  proof -
    have "int n < 2 ^ 63" using assms by (metis of_nat_less_numeral_power_cancel_iff)
    moreover have "uint (of_nat n :: u64) = int n"
      using calculation by (simp add: uint_nat unat_of_nat take_bit_nat_eq_self)
    ultimately show ?thesis by (simp add: sint_uint signed_take_bit_int_eq_self)
  qed
  then show ?thesis
    using date_from_steps [of n]
    by (auto simp: epoch_days_to_date_def date_from_def date_in_year_def split: prod.splits)
qed

section \<open>Reading back a query parameter\<close>

definition hex_value :: "char \<Rightarrow> nat option" where
  "hex_value c =
     (if is_ascii_digit c then Some (byte_of c - 48)
      else if 65 \<le> byte_of c \<and> byte_of c \<le> 70 then Some (byte_of c - 55)
      else if 97 \<le> byte_of c \<and> byte_of c \<le> 102 then Some (byte_of c - 87) else None)"

text \<open>Percent decoding (RFC 3986); None where a percent sign starts no escape.\<close>

fun percent_decode :: "string \<Rightarrow> string option" where
  "percent_decode [] = Some []"
| "percent_decode (c # cs) =
     (if c \<noteq> CHR ''%'' then map_option (Cons c) (percent_decode cs)
      else case cs of h # l # rest \<Rightarrow>
        (case (hex_value h, hex_value l) of
           (Some a, Some b) \<Rightarrow> map_option (Cons (char_of (16 * a + b))) (percent_decode rest)
         | _ \<Rightarrow> None)
      | _ \<Rightarrow> None)"

lemma byte_of_char: "n < 256 \<Longrightarrow> byte_of (char_of n) = n" "char_of (byte_of c) = c" "byte_of c < 256"
  by (simp_all add: byte_of_def)

lemma hex_round_trip: "n < 16 \<Longrightarrow> hex_value (hex_digit_upper n) = Some n"
  by (simp add: hex_value_def hex_digit_upper_def is_ascii_digit_def byte_of_char)

lemma not_percent: "is_unreserved c \<Longrightarrow> c \<noteq> CHR ''%''"
  by (auto simp: is_unreserved_def is_ascii_alphanumeric_def is_ascii_digit_def byte_of_def)

text \<open>A search reaches Spotify as it was typed: whatever its bytes, an encoded parameter decodes to
  the parameter, and it is made of unreserved characters and percent escapes only, so that it cannot
  add or end a parameter of the request.
\<close>

lemma query_parameters_round_trip:
  "percent_decode (urlencoded s) = Some s
   \<and> list_all (\<lambda>c. is_unreserved c \<or> c = CHR ''%'') (urlencoded s)"
proof (induction s)
  case (Cons c s)
  have hex: "is_unreserved (hex_digit_upper n)" if "n < 16" for n
    using that by (auto simp: is_unreserved_def is_ascii_alphanumeric_def is_ascii_digit_def
        hex_digit_upper_def byte_of_char)
  have bounds: "byte_of c div 16 < 16" "byte_of c mod 16 < 16" using byte_of_char(3) [of c] by auto
  have "16 * (byte_of c div 16) + byte_of c mod 16 = byte_of c" by simp
  with Cons bounds hex show ?case
    using not_percent [of c]
    by (auto simp: urlencoded_def hex_round_trip byte_of_char(2))
qed (simp add: urlencoded_def)

end
