(* ===== verification/Participants.thy ===== *)
theory Participants
  imports JamQueueApi FileStore
begin

text \<open>
  Who may act in a room (\<open>auth.rs\<close>): the bindings of identities to installations, the tokens that
  carry them, and the checks of every route. The signing of tokens and the keyed hash (jsonwebtoken
  and hmac) are arguments, as are clocks and random identifiers.
\<close>

section \<open>Data\<close>

definition PARTICIPANT_ACTIVE_SECS :: u64 where "PARTICIPANT_ACTIVE_SECS = 20"

record token_request =
  tq_room :: string
  tq_identity :: string
  tq_name :: "string option"
  tq_viewer_version :: "string option"
  tq_participant_auth_key :: "string option"

record livekit_video_grant =
  vg_room :: string
  vg_room_join :: bool
  vg_can_publish :: bool
  vg_can_subscribe :: bool
  vg_can_publish_data :: bool

record livekit_claims =
  lk_iss :: string
  lk_sub :: string
  lk_exp :: u64
  lk_iat :: u64
  lk_echo_participant_auth_id :: "string option"
  lk_echo_actor_id :: "string option"
  lk_name :: "string option"
  lk_video :: livekit_video_grant

record admin_claims =
  adm_sub :: string
  adm_role :: string
  adm_exp :: u64
  adm_iat :: u64

record authenticated_participant =
  ap_identity :: string
  ap_name :: string
  ap_room :: string
  ap_participant_auth_id :: string

record participant_entry =
  pe_identity :: string
  pe_name :: string
  pe_room_id :: string
  pe_last_seen :: u64
  pe_last_heartbeat_at :: "u64 option"
  pe_viewer_version :: "string option"

record participant_binding =
  pb_auth_key :: string
  pb_auth_id :: string

type_synonym participants = "(string, participant_entry) hash_map"
type_synonym bindings = "(string, participant_binding) hash_map"

datatype companion_identity_kind = ScreenPublisher | NativePresenter

definition companion_kind :: "string \<Rightarrow> companion_identity_kind option" where
  "companion_kind identity =
     (if ends_with identity ''$screen'' then Some ScreenPublisher
      else if ends_with identity ''$native-presenter'' then Some NativePresenter else None)"

definition livekit_grant :: "string \<Rightarrow> companion_identity_kind option \<Rightarrow> livekit_video_grant" where
  "livekit_grant room kind =
     (case kind of
        Some ScreenPublisher \<Rightarrow> \<lparr>vg_room = room, vg_room_join = True, vg_can_publish = True,
          vg_can_subscribe = False, vg_can_publish_data = True\<rparr>
      | Some NativePresenter \<Rightarrow> \<lparr>vg_room = room, vg_room_join = True, vg_can_publish = False,
          vg_can_subscribe = True, vg_can_publish_data = False\<rparr>
      | None \<Rightarrow> \<lparr>vg_room = room, vg_room_join = True, vg_can_publish = True,
          vg_can_subscribe = True, vg_can_publish_data = True\<rparr>)"

definition skip_participant_tracking :: "companion_identity_kind option \<Rightarrow> bool" where
  "skip_participant_tracking kind \<longleftrightarrow> kind \<noteq> None"

definition participant_auth_key_is_valid :: "string \<Rightarrow> bool" where
  "participant_auth_key_is_valid key \<longleftrightarrow> length key = 64 \<and> list_all is_ascii_hexdigit key"

definition participant_auth_keys_equal :: "string \<Rightarrow> string \<Rightarrow> bool" where
  "participant_auth_keys_equal left right = constant_time_eq (bytes_of left) (bytes_of right)"

text \<open>\<open>{byte:02x}\<close>\<close>

definition hex_digit_lower :: "nat \<Rightarrow> char" where
  "hex_digit_lower n = (if n < 10 then char_of (48 + n) else char_of (87 + n))"

definition hex_bytes :: "string \<Rightarrow> string" where
  "hex_bytes s = concat (map (\<lambda>b. [hex_digit_lower (byte_of b div 16), hex_digit_lower (byte_of b mod 16)]) s)"

definition derive_echo_actor_id :: "(string \<Rightarrow> string \<Rightarrow> string) \<Rightarrow> string \<Rightarrow> string \<Rightarrow> string" where
  "derive_echo_actor_id hmac server_secret participant_auth_key =
     ''ea1_'' @ hex_bytes (hmac server_secret (''echo-actor-v1'' @ [CHR 0x00] @ participant_auth_key))"

section \<open>The secret of the actors\<close>

text \<open>\<open>random\<close> is the secret drawn where there is none; the directory exists.\<close>

definition read_secret :: "string \<Rightarrow> string io" where
  "read_secret path = io_bind (fs_read path) (\<lambda>secret.
     if length secret \<noteq> 64 \<or> \<not> list_all is_ascii_hexdigit secret then io_fail InvalidData
     else io_return secret)"

definition create_secret :: "string \<Rightarrow> string \<Rightarrow> string io" where
  "create_secret path random d =
     (case fs_create_new path d of
        (Done _, d1) \<Rightarrow>
          io_then (fs_write_all path random) (io_then fs_sync (io_return random)) d1
      | (Failed k, d1) \<Rightarrow> if k = AlreadyExists then read_secret path d1 else (Failed k, d1)
      | (Halted, d1) \<Rightarrow> (Halted, d1))"

definition load_or_create_jam_actor_secret :: "string \<Rightarrow> string \<Rightarrow> string io" where
  "load_or_create_jam_actor_secret path random =
     io_catch (read_secret path) (\<lambda>k. if k = NotFound then create_secret path random else io_fail k)"

section \<open>Binding an identity\<close>

text \<open>\<open>rsplitn(2, '-').last()\<close>: what comes before the last hyphen, or everything.\<close>

definition name_base :: "string \<Rightarrow> string" where
  "name_base identity =
     (case rfind_index (\<lambda>c. c = CHR ''-'') identity of None \<Rightarrow> identity | Some i \<Rightarrow> take i identity)"

record bind_result =
  br_auth_id :: string
  br_revoked :: "revoked_binding list"

definition same_name_identities :: "string \<Rightarrow> participants \<Rightarrow> bindings \<Rightarrow> string list" where
  "same_name_identities identity participants bindings =
     remdups (filter (\<lambda>key. key \<noteq> identity \<and> name_base key = name_base identity)
       (map fst participants @ map fst bindings))"

definition presence_active :: "u64 \<Rightarrow> participants \<Rightarrow> string \<Rightarrow> bool" where
  "presence_active now participants key \<longleftrightarrow>
     (case hm_get participants key of None \<Rightarrow> False
      | Some entry \<Rightarrow> sat_sub now (pe_last_seen entry) < PARTICIPANT_ACTIVE_SECS)"

fun drop_identities ::
  "string list \<Rightarrow> participants \<Rightarrow> bindings \<Rightarrow> participants \<times> bindings \<times> revoked_binding list" where
  "drop_identities [] participants bindings = (participants, bindings, [])"
| "drop_identities (key # keys) participants bindings =
     (case drop_identities keys (hm_remove key participants) (hm_remove key bindings) of
        (participants', bindings', revoked) \<Rightarrow>
          (participants', bindings', (case hm_get bindings key of None \<Rightarrow> revoked
             | Some binding \<Rightarrow> \<lparr>rb_identity = key, rb_auth_id = pb_auth_id binding\<rparr> # revoked)))"

definition seen_participant :: "token_request \<Rightarrow> u64 \<Rightarrow> participants \<Rightarrow> participants" where
  "seen_participant payload now participants =
     hm_insert (tq_identity payload)
       (case hm_get participants (tq_identity payload) of
          Some existing \<Rightarrow>
            (if PARTICIPANT_ACTIVE_SECS \<le> sat_sub now (pe_last_seen existing)
             then existing\<lparr>pe_room_id := tq_room payload,
                    pe_name := or_default (pe_name existing) (tq_name payload)\<rparr>
             else existing)\<lparr>pe_last_seen := now\<rparr>
        | None \<Rightarrow> \<lparr>pe_identity = tq_identity payload, pe_name = or_default [] (tq_name payload),
            pe_room_id = tq_room payload, pe_last_seen = now, pe_last_heartbeat_at = None,
            pe_viewer_version = None\<rparr>)
       participants"

definition bind_participant_identity ::
  "participants \<Rightarrow> bindings \<Rightarrow> token_request \<Rightarrow> u64 \<Rightarrow> string
   \<Rightarrow> (status + bind_result) \<times> participants \<times> bindings" where
  "bind_participant_identity participants bindings payload now replacement_auth_id =
     (case filter_option participant_auth_key_is_valid (tq_participant_auth_key payload) of
        None \<Rightarrow> (Inl BAD_REQUEST, participants, bindings)
      | Some auth_key \<Rightarrow>
          let identity = tq_identity payload; existing_binding = hm_get bindings identity;
              same_installation = (case existing_binding of None \<Rightarrow> False
                | Some binding \<Rightarrow> participant_auth_keys_equal (pb_auth_key binding) auth_key);
              same_names = same_name_identities identity participants bindings
          in if existing_binding \<noteq> None \<and> \<not> same_installation then (Inl CONFLICT, participants, bindings)
             else if list_ex (presence_active now participants) same_names
             then (Inl CONFLICT, participants, bindings)
             else case drop_identities same_names participants bindings of
               (participants1, bindings1, revoked) \<Rightarrow>
                 let (auth_id, bindings2) =
                       (case existing_binding of
                          Some binding \<Rightarrow> (pb_auth_id binding, bindings1)
                        | None \<Rightarrow> (replacement_auth_id,
                            hm_insert identity \<lparr>pb_auth_key = auth_key, pb_auth_id = replacement_auth_id\<rparr>
                              bindings1))
                 in (Inr \<lparr>br_auth_id = auth_id, br_revoked = revoked\<rparr>,
                     seen_participant payload now participants1, bindings2))"

section \<open>Tokens and checks\<close>

text \<open>
  \<open>encode secret claims\<close> signs, None an error of the library; \<open>decode secret token\<close> answers the
  claims of a token with a valid signature that has not expired.
\<close>

type_synonym livekit_encode = "string \<Rightarrow> livekit_claims \<Rightarrow> string option"
type_synonym livekit_decode = "string \<Rightarrow> string \<Rightarrow> livekit_claims option"
type_synonym admin_encode = "string \<Rightarrow> admin_claims \<Rightarrow> string option"
type_synonym admin_decode = "string \<Rightarrow> string \<Rightarrow> admin_claims option"

record auth_config =
  cf_admin_password_hash :: "string option"
  cf_admin_password :: "string option"
  cf_admin_jwt_secret :: string
  cf_admin_token_ttl_secs :: u64
  cf_livekit_api_key :: string
  cf_livekit_api_secret :: string
  cf_livekit_token_ttl_secs :: u64

text \<open>Headers as text, None where they are missing or not text.\<close>

definition ensure_admin :: "admin_decode \<Rightarrow> auth_config \<Rightarrow> string option \<Rightarrow> status + unit" where
  "ensure_admin decode config authorization =
     (case Option.bind authorization (strip_prefix ''Bearer '') of None \<Rightarrow> Inl UNAUTHORIZED
      | Some token \<Rightarrow>
     (case decode (cf_admin_jwt_secret config) token of None \<Rightarrow> Inl UNAUTHORIZED
      | Some claims \<Rightarrow> if adm_role claims \<noteq> ''admin'' then Inl UNAUTHORIZED else Inr ()))"

definition decode_livekit_token ::
  "livekit_decode \<Rightarrow> auth_config \<Rightarrow> string \<Rightarrow> status + livekit_claims" where
  "decode_livekit_token decode config token =
     (case decode (cf_livekit_api_secret config) token of None \<Rightarrow> Inl UNAUTHORIZED
      | Some claims \<Rightarrow> if lk_iss claims \<noteq> cf_livekit_api_key config then Inl UNAUTHORIZED else Inr claims)"

definition ensure_livekit :: "livekit_decode \<Rightarrow> auth_config \<Rightarrow> string option \<Rightarrow> status + livekit_claims" where
  "ensure_livekit decode config authorization =
     (case Option.bind authorization (strip_prefix ''Bearer '') of None \<Rightarrow> Inl UNAUTHORIZED
      | Some token \<Rightarrow> decode_livekit_token decode config token)"

definition participant_claims_match :: "livekit_claims \<Rightarrow> string \<Rightarrow> participant_binding \<Rightarrow> bool" where
  "participant_claims_match claims claimed_identity binding \<longleftrightarrow>
     \<not> blank claimed_identity \<and> lk_sub claims = claimed_identity \<and> companion_kind (lk_sub claims) = None
   \<and> vg_room_join (lk_video claims) \<and> lk_echo_participant_auth_id claims \<noteq> None
   \<and> lk_echo_participant_auth_id claims = Some (pb_auth_id binding)"

definition ensure_current_participant_claims ::
  "bindings \<Rightarrow> livekit_claims \<Rightarrow> string \<Rightarrow> status + livekit_claims" where
  "ensure_current_participant_claims bindings claims claimed_identity =
     (case hm_get bindings claimed_identity of None \<Rightarrow> Inl UNAUTHORIZED
      | Some binding \<Rightarrow>
          if \<not> participant_claims_match claims claimed_identity binding then Inl UNAUTHORIZED else Inr claims)"

definition ensure_livekit_participant ::
  "livekit_decode \<Rightarrow> auth_config \<Rightarrow> bindings \<Rightarrow> string option \<Rightarrow> string \<Rightarrow> status + livekit_claims" where
  "ensure_livekit_participant decode config bindings authorization claimed_identity =
     (case ensure_livekit decode config authorization of Inl s \<Rightarrow> Inl s
      | Inr claims \<Rightarrow> ensure_current_participant_claims bindings claims claimed_identity)"

definition active_participant_from_maps ::
  "livekit_claims \<Rightarrow> participants \<Rightarrow> bindings \<Rightarrow> u64 \<Rightarrow> authenticated_participant option" where
  "active_participant_from_maps claims participants bindings now =
     (if blank (lk_sub claims) \<or> blank (vg_room (lk_video claims)) \<or> lk_exp claims \<le> now
         \<or> sat_add now 30 < lk_iat claims \<or> lk_exp claims < lk_iat claims then None
      else case hm_get participants (lk_sub claims) of None \<Rightarrow> None
      | Some entry \<Rightarrow>
     (case hm_get bindings (lk_sub claims) of None \<Rightarrow> None
      | Some binding \<Rightarrow>
          if \<not> participant_claims_match claims (lk_sub claims) binding
             \<or> pe_room_id entry \<noteq> vg_room (lk_video claims)
             \<or> (case pe_last_heartbeat_at entry of None \<Rightarrow> True
                | Some heartbeat \<Rightarrow> PARTICIPANT_ACTIVE_SECS \<le> sat_sub now heartbeat) then None
          else Some \<lparr>ap_identity = pe_identity entry, ap_name = pe_name entry, ap_room = pe_room_id entry,
                 ap_participant_auth_id = pb_auth_id binding\<rparr>))"

definition ensure_livekit_active_participant ::
  "livekit_decode \<Rightarrow> auth_config \<Rightarrow> participants \<Rightarrow> bindings \<Rightarrow> u64 \<Rightarrow> string option
   \<Rightarrow> status + authenticated_participant" where
  "ensure_livekit_active_participant decode config participants bindings now authorization =
     (case ensure_livekit decode config authorization of Inl s \<Rightarrow> Inl s
      | Inr claims \<Rightarrow>
     (case active_participant_from_maps claims participants bindings now of None \<Rightarrow> Inl UNAUTHORIZED
      | Some participant \<Rightarrow> Inr participant))"

definition ensure_jam_participant ::
  "livekit_decode \<Rightarrow> auth_config \<Rightarrow> bindings \<Rightarrow> string option \<Rightarrow> string option \<Rightarrow> status + livekit_claims" where
  "ensure_jam_participant decode config bindings participant_token claimed_identity =
     (case filter_option (\<lambda>t. t \<noteq> []) participant_token of None \<Rightarrow> Inl UNAUTHORIZED
      | Some token \<Rightarrow>
     (case decode_livekit_token decode config token of Inl s \<Rightarrow> Inl s
      | Inr claims \<Rightarrow>
          ensure_current_participant_claims bindings claims (or_default (lk_sub claims) claimed_identity)))"

definition jam_actor_from_claims :: "livekit_claims \<Rightarrow> status + jam_actor" where
  "jam_actor_from_claims claims =
     (case filter_option (\<lambda>a. \<not> blank a) (lk_echo_actor_id claims) of None \<Rightarrow> Inl UNAUTHORIZED
      | Some actor \<Rightarrow> Inr \<lparr>actor_id = actor,
          actor_display_name = bounded_jam_actor_display_name (lk_name claims) (lk_sub claims)\<rparr>)"

definition ensure_jam_actor ::
  "livekit_decode \<Rightarrow> auth_config \<Rightarrow> string option \<Rightarrow> bindings \<Rightarrow> string option \<Rightarrow> status + jam_actor" where
  "ensure_jam_actor decode config actor_secret bindings participant_token =
     (if actor_secret = None then Inl SERVICE_UNAVAILABLE
      else case ensure_jam_participant decode config bindings participant_token None of Inl s \<Rightarrow> Inl s
      | Inr claims \<Rightarrow> jam_actor_from_claims claims)"

definition ensure_jam_participant_token ::
  "livekit_decode \<Rightarrow> auth_config \<Rightarrow> bindings \<Rightarrow> string \<Rightarrow> status + livekit_claims" where
  "ensure_jam_participant_token decode config bindings token =
     (case decode_livekit_token decode config token of Inl s \<Rightarrow> Inl s
      | Inr claims \<Rightarrow> ensure_current_participant_claims bindings claims (lk_sub claims))"

end
