(* ===== verification/RoomApi.thy ===== *)
theory RoomApi
  imports Participants ConfigUtil
begin

text \<open>
  The requests on rooms and their people (\<open>auth.rs\<close>, \<open>rooms.rs\<close>, the cleanup in \<open>main.rs\<close>). A handler
  runs on a \<open>server\<close>: the world of the Jam with the maps of presence, bindings and rooms. Where a
  handler lets go of the locks, by an \<open>await\<close> or between two critical sections, an argument stands
  for what other tasks do to the server meanwhile.
\<close>

section \<open>The server\<close>

record session_event =
  se_event_type :: string
  se_identity :: string
  se_name :: string
  se_room_id :: string
  se_timestamp :: u64
  se_duration_secs :: "u64 option"

record room_info =
  ri_room_id :: string
  ri_created_at :: u64

text \<open>\<open>sv_events\<close> are the session events in the order they are handed to the log.\<close>

record server =
  sv_world :: world
  sv_participants :: participants
  sv_bindings :: bindings
  sv_joined_at :: "(string, u64) hash_map"
  sv_client_stats :: "(string, json) hash_map"
  sv_rooms :: "(string, room_info) hash_map"
  sv_events :: "session_event list"

type_synonym others = "server \<Rightarrow> server"

definition with_world :: "(world \<Rightarrow> world) \<Rightarrow> server \<Rightarrow> server" where
  "with_world f s = s\<lparr>sv_world := f (sv_world s)\<rparr>"

definition with_server_jam :: "(jam_state \<Rightarrow> jam_state) \<Rightarrow> server \<Rightarrow> server" where
  "with_server_jam f = with_world (\<lambda>w. with_jam w f)"

definition log_event :: "session_event \<Rightarrow> server \<Rightarrow> server" where
  "log_event e s = s\<lparr>sv_events := sv_events s @ [e]\<rparr>"

section \<open>Logging in\<close>

record login_response =
  lr_token :: string
  lr_expires_in_seconds :: u64

definition LOGIN_WINDOW :: nat where "LOGIN_WINDOW = secs 900"

text \<open>The failed attempts of an address, with the time of the first.\<close>

type_synonym 'ip login_attempts = "('ip, u32 \<times> instant) hash_map"

definition login_admitted :: "'ip \<Rightarrow> instant \<Rightarrow> 'ip login_attempts \<Rightarrow> bool \<times> 'ip login_attempts" where
  "login_admitted ip now attempts =
     (let kept = filter (\<lambda>(_, _, first). elapsed now first < LOGIN_WINDOW) attempts in
      (case hm_get kept ip of None \<Rightarrow> True
       | Some (count, first) \<Rightarrow> \<not> (5 \<le> count \<and> elapsed now first < LOGIN_WINDOW), kept))"

definition login_failed :: "'ip \<Rightarrow> instant \<Rightarrow> 'ip login_attempts \<Rightarrow> 'ip login_attempts" where
  "login_failed ip now attempts =
     (let (count, first) = or_default (0, now) (hm_get attempts ip) in
      hm_insert ip (count + 1, first) attempts)"

definition verify_password ::
  "(string \<Rightarrow> string \<Rightarrow> bool option) \<Rightarrow> auth_config \<Rightarrow> string \<Rightarrow> bool" where
  "verify_password verify config password =
     (case Option.bind (cf_admin_password_hash config) (\<lambda>hash. verify hash password) of
        Some ok \<Rightarrow> ok
      | None \<Rightarrow> (case cf_admin_password config of Some plain \<Rightarrow> plain = password | None \<Rightarrow> False))"

text \<open>
  \<open>checked\<close> and \<open>answered\<close> are what other logins do to the attempts between the three critical
  sections; \<open>now\<close> is the time of the token, \<open>tried_at\<close> and \<open>failed_at\<close> those of the attempts.
\<close>

definition login ::
  "(string \<Rightarrow> string \<Rightarrow> bool option) \<Rightarrow> admin_encode \<Rightarrow> auth_config \<Rightarrow> 'ip \<Rightarrow> string \<Rightarrow> instant \<Rightarrow> instant
   \<Rightarrow> u64 \<Rightarrow> ('ip login_attempts \<Rightarrow> 'ip login_attempts) \<Rightarrow> 'ip login_attempts
   \<Rightarrow> (status + login_response) \<times> 'ip login_attempts" where
  "login verify encode config ip password tried_at failed_at now checked attempts =
     (case login_admitted ip tried_at attempts of
        (False, attempts1) \<Rightarrow> (Inl TOO_MANY_REQUESTS, attempts1)
      | (True, attempts1) \<Rightarrow>
          if \<not> verify_password verify config password
          then (Inl UNAUTHORIZED, login_failed ip failed_at (checked attempts1))
          else
            let attempts2 = hm_remove ip (checked attempts1);
                claims = \<lparr>adm_sub = ''admin'', adm_role = ''admin'',
                  adm_exp = now + cf_admin_token_ttl_secs config, adm_iat = now\<rparr>
            in case encode (cf_admin_jwt_secret config) claims of
                 None \<Rightarrow> (Inl INTERNAL_SERVER_ERROR, attempts2)
               | Some token \<Rightarrow> (Inr \<lparr>lr_token = token,
                   lr_expires_in_seconds = cf_admin_token_ttl_secs config\<rparr>, attempts2))"

section \<open>Issuing a token\<close>

text \<open>
  \<open>lifecycle\<close> is the wait for the lock of the Jam's life, \<open>pause\<close> and \<open>lock\<close> are the awaits of ending a
  Jam.
\<close>

record token_env =
  te_now :: u64
  te_fresh_auth_id :: string
  te_lifecycle :: others
  te_pause :: "unit await"
  te_lock :: "unit await"
  te_encode :: livekit_encode
  te_hmac :: "string \<Rightarrow> string \<Rightarrow> string"
  te_actor_secret :: "string option"

definition name_too_long :: "string option \<Rightarrow> bool" where
  "name_too_long name \<longleftrightarrow>
     (case name of None \<Rightarrow> False
      | Some n \<Rightarrow> MAX_JAM_ACTOR_DISPLAY_NAME_CHARS
                < length (take (MAX_JAM_ACTOR_DISPLAY_NAME_CHARS + 1) (utf8_chars n)))"

definition reconcile_revoked :: "token_env \<Rightarrow> revoked_binding list \<Rightarrow> server \<Rightarrow> server" where
  "reconcile_revoked env revoked s =
     (if revoked = [] then s
      else with_world (reconcile_revoked_participant_bindings (te_pause env) (te_lock env) revoked)
             (te_lifecycle env s))"

definition token_claims ::
  "token_env \<Rightarrow> auth_config \<Rightarrow> token_request \<Rightarrow> string option \<Rightarrow> livekit_claims" where
  "token_claims env config payload participant_auth_id =
     \<lparr>lk_iss = cf_livekit_api_key config, lk_sub = tq_identity payload,
      lk_exp = te_now env + cf_livekit_token_ttl_secs config, lk_iat = te_now env,
      lk_echo_participant_auth_id = participant_auth_id,
      lk_echo_actor_id = Option.bind (tq_participant_auth_key payload) (\<lambda>key.
        map_option (\<lambda>secret. derive_echo_actor_id (te_hmac env) secret key) (te_actor_secret env)),
      lk_name = tq_name payload,
      lk_video = livekit_grant (tq_room payload) (companion_kind (tq_identity payload))\<rparr>"

definition bind_identity ::
  "token_env \<Rightarrow> token_request \<Rightarrow> server \<Rightarrow> (status + string option \<times> revoked_binding list) \<times> server" where
  "bind_identity env payload s =
     (if skip_participant_tracking (companion_kind (tq_identity payload)) then (Inr (None, []), s)
      else case bind_participant_identity (sv_participants s) (sv_bindings s) payload (te_now env)
                  (te_fresh_auth_id env) of
        (Inl e, _) \<Rightarrow> (Inl e, s)
      | (Inr result, participants, bindings) \<Rightarrow>
          (Inr (Some (br_auth_id result), br_revoked result),
           s\<lparr>sv_participants := participants, sv_bindings := bindings\<rparr>))"

definition issue_token ::
  "token_env \<Rightarrow> auth_config \<Rightarrow> status option \<Rightarrow> token_request \<Rightarrow> server \<Rightarrow> (status + string \<times> u64) \<times> server" where
  "issue_token env config admin_refused payload s =
     (case admin_refused of Some e \<Rightarrow> (Inl e, s)
      | None \<Rightarrow>
          if name_too_long (tq_name payload) then (Inl BAD_REQUEST, s)
          else case bind_identity env payload s of (Inl e, s1) \<Rightarrow> (Inl e, s1)
          | (Inr (auth_id, revoked), s1) \<Rightarrow>
              let s2 = reconcile_revoked env revoked s1 in
              (case te_encode env (cf_livekit_api_secret config) (token_claims env config payload auth_id) of
                 None \<Rightarrow> (Inl INTERNAL_SERVER_ERROR, s2)
               | Some token \<Rightarrow> (Inr (token, cf_livekit_token_ttl_secs config), s2)))"

section \<open>Presence\<close>

definition heartbeat_entry ::
  "string \<Rightarrow> string \<Rightarrow> string \<Rightarrow> string option \<Rightarrow> u64 \<Rightarrow> participant_entry option \<Rightarrow> participant_entry" where
  "heartbeat_entry identity room_id name viewer_version now known =
     (case known of
        Some entry \<Rightarrow> entry\<lparr>pe_last_seen := now, pe_last_heartbeat_at := Some now, pe_room_id := room_id,
          pe_name := name,
          pe_viewer_version := (if viewer_version \<noteq> None then viewer_version else pe_viewer_version entry)\<rparr>
      | None \<Rightarrow> \<lparr>pe_identity = identity, pe_name = name, pe_room_id = room_id, pe_last_seen = now,
          pe_last_heartbeat_at = Some now, pe_viewer_version = viewer_version\<rparr>)"

definition note_join :: "string \<Rightarrow> string \<Rightarrow> string \<Rightarrow> u64 \<Rightarrow> server \<Rightarrow> server" where
  "note_join identity name room_id now s =
     (if hm_get (sv_joined_at s) identity \<noteq> None then s
      else log_event \<lparr>se_event_type = ''join'', se_identity = identity, se_name = name, se_room_id = room_id,
             se_timestamp = now, se_duration_secs = None\<rparr>
           (s\<lparr>sv_joined_at := hm_insert identity now (sv_joined_at s)\<rparr>))"

text \<open>
  The check of the token reads the bindings under their lock; \<open>checked\<close> is what happens before the
  participants are locked, \<open>seen\<close> before the join times are. The answer says whether the viewer is stale.
\<close>

definition participant_heartbeat ::
  "status + livekit_claims \<Rightarrow> token_request \<Rightarrow> u64 \<Rightarrow> others \<Rightarrow> others \<Rightarrow> string \<Rightarrow> server \<Rightarrow> (status + bool) \<times> server" where
  "participant_heartbeat claims payload now checked seen current_stamp s =
     (case claims of Inl e \<Rightarrow> (Inl e, s)
      | Inr c \<Rightarrow>
          let identity = lk_sub c; room_id = vg_room (lk_video c); name = or_default identity (lk_name c);
              s1 = checked s;
              s2 = s1\<lparr>sv_participants := hm_insert identity (heartbeat_entry identity room_id name
                     (tq_viewer_version payload) now (hm_get (sv_participants s1) identity)) (sv_participants s1)\<rparr>
          in (Inr (tq_viewer_version payload \<noteq> Some current_stamp),
              note_join identity name room_id now (seen s2)))"

definition note_leave :: "string \<Rightarrow> u64 \<Rightarrow> participant_entry \<Rightarrow> server \<Rightarrow> server" where
  "note_leave identity now entry s =
     (let duration = map_option (sat_sub now) (hm_get (sv_joined_at s) identity) in
      log_event \<lparr>se_event_type = ''leave'', se_identity = pe_identity entry, se_name = pe_name entry,
          se_room_id = pe_room_id entry, se_timestamp = now, se_duration_secs = duration\<rparr>
        (s\<lparr>sv_joined_at := hm_remove identity (sv_joined_at s)\<rparr>))"

definition auto_end_generation :: "jam_state \<Rightarrow> u64 option" where
  "auto_end_generation jam =
     (if jam_active jam \<and> jam_listeners jam = [] then Some (jam_generation jam) else None)"

definition schedule_auto_end :: "u64 option \<Rightarrow> server \<Rightarrow> server" where
  "schedule_auto_end generation s =
     (case generation of None \<Rightarrow> s | Some g \<Rightarrow> with_world (issue (ScheduleAutoEnd g)) s)"

text \<open>What comes before the last critical section of \<open>participant_leave\<close>.\<close>

definition leave_begin :: "string \<Rightarrow> u64 \<Rightarrow> server \<Rightarrow> server" where
  "leave_begin identity now s =
     (let s1 = (case hm_get (sv_participants s) identity of None \<Rightarrow> s
                | Some entry \<Rightarrow> note_leave identity now entry s)
      in s1\<lparr>sv_client_stats := hm_remove identity (sv_client_stats s1)\<rparr>)"

definition leave_finish :: "string \<Rightarrow> string \<Rightarrow> server \<Rightarrow> (status + unit) \<times> server" where
  "leave_finish identity auth_id s =
     (if map_option pb_auth_id (hm_get (sv_bindings s) identity) \<noteq> Some auth_id then (Inl UNAUTHORIZED, s)
      else
        let s1 = with_server_jam (revoke_one \<lparr>rb_identity = identity, rb_auth_id = auth_id\<rparr>)
              (s\<lparr>sv_participants := hm_remove identity (sv_participants s)\<rparr>)
        in (Inr (), schedule_auto_end (auto_end_generation (w_jam (sv_world s1))) s1))"

definition participant_leave ::
  "status + livekit_claims \<Rightarrow> u64 \<Rightarrow> others \<Rightarrow> others \<Rightarrow> server \<Rightarrow> (status + unit) \<times> server" where
  "participant_leave claims now checked logged s =
     (case claims of Inl e \<Rightarrow> (Inl e, s)
      | Inr c \<Rightarrow>
     (case lk_echo_participant_auth_id c of None \<Rightarrow> (Inl UNAUTHORIZED, s)
      | Some auth_id \<Rightarrow>
          leave_finish (lk_sub c) auth_id (logged (leave_begin (lk_sub c) now (checked s)))))"

section \<open>Stale presence\<close>

definition has_current_audio :: "string \<Rightarrow> string \<Rightarrow> jam_state \<Rightarrow> bool" where
  "has_current_audio identity auth_id jam \<longleftrightarrow>
     jam_active jam \<and> hm_get (jam_listeners jam) identity = Some auth_id
   \<and> (case hm_get (jam_audio_connections jam) identity of None \<Rightarrow> False
      | Some c \<Rightarrow> ac_participant_auth_id c = auth_id \<and> ac_generation c = jam_generation jam)"

fun remove_stale ::
  "string list \<Rightarrow> participants \<Rightarrow> bindings \<Rightarrow> jam_state \<Rightarrow> participant_entry list
   \<Rightarrow> participants \<times> jam_state \<times> participant_entry list" where
  "remove_stale [] participants bindings jam removed = (participants, jam, removed)"
| "remove_stale (identity # identities) participants bindings jam removed =
     (case hm_get bindings identity of
        None \<Rightarrow> remove_stale identities participants bindings jam removed
      | Some binding \<Rightarrow>
          if has_current_audio identity (pb_auth_id binding) jam
          then remove_stale identities participants bindings jam removed
          else remove_stale identities (hm_remove identity participants) bindings
                 (revoke_one \<lparr>rb_identity = identity, rb_auth_id = pb_auth_id binding\<rparr> jam)
                 (case hm_get participants identity of None \<Rightarrow> removed | Some entry \<Rightarrow> removed @ [entry]))"

definition stale_identities :: "u64 \<Rightarrow> participants \<Rightarrow> string list" where
  "stale_identities now participants =
     map fst (filter (\<lambda>(_, entry). 20 \<le> sat_sub now (pe_last_seen entry)) participants)"

definition remove_stale_participants_exact ::
  "participants \<Rightarrow> bindings \<Rightarrow> jam_state \<Rightarrow> u64
   \<Rightarrow> participants \<times> jam_state \<times> participant_entry list \<times> u64 option" where
  "remove_stale_participants_exact participants bindings jam now =
     (case remove_stale (stale_identities now participants) participants bindings jam [] of
        (participants1, jam1, removed) \<Rightarrow> (participants1, jam1, removed, auto_end_generation jam1))"

text \<open>One turn of the cleanup task; \<open>cleaned\<close> runs before each removed entry is logged.\<close>

fun log_removed :: "u64 \<Rightarrow> others \<Rightarrow> participant_entry list \<Rightarrow> server \<Rightarrow> server" where
  "log_removed now cleaned [] s = s"
| "log_removed now cleaned (entry # entries) s =
     (let s1 = note_leave (pe_identity entry) now entry (cleaned s) in
      log_removed now cleaned entries
        (s1\<lparr>sv_client_stats := hm_remove (pe_identity entry) (sv_client_stats s1)\<rparr>))"

definition cleanup_turn :: "u64 \<Rightarrow> others \<Rightarrow> server \<Rightarrow> server" where
  "cleanup_turn now cleaned s =
     (case remove_stale_participants_exact (sv_participants s) (sv_bindings s) (w_jam (sv_world s)) now of
        (participants, jam, removed, generation) \<Rightarrow>
          schedule_auto_end generation (log_removed now cleaned removed
            (with_server_jam (\<lambda>_. jam) (s\<lparr>sv_participants := participants\<rparr>))))"

section \<open>Kicking\<close>

text \<open>
  The answers of the media server to the two removals, with what other tasks do during them, and
  between the two local steps.
\<close>

record kick_env =
  ke_main :: "string + bool"
  ke_main_others :: others
  ke_screen :: "string + bool"
  ke_screen_others :: others
  ke_between :: others
  ke_token_env :: token_env

definition kick_presence :: "string \<Rightarrow> server \<Rightarrow> server" where
  "kick_presence identity s =
     s\<lparr>sv_participants := filter (\<lambda>(_, p). pe_identity p \<noteq> identity) (sv_participants s)\<rparr>"

definition kick_binding :: "string \<Rightarrow> server \<Rightarrow> revoked_binding list \<times> server" where
  "kick_binding identity s =
     (case hm_get (sv_bindings s) identity of None \<Rightarrow> ([], s)
      | Some binding \<Rightarrow> ([\<lparr>rb_identity = identity, rb_auth_id = pb_auth_id binding\<rparr>],
          s\<lparr>sv_bindings := hm_remove identity (sv_bindings s)\<rparr>))"

definition admin_kick_participant ::
  "kick_env \<Rightarrow> status option \<Rightarrow> string \<Rightarrow> server \<Rightarrow> (status + bool \<times> bool) \<times> server" where
  "admin_kick_participant env admin_refused identity s =
     (case admin_refused of Some e \<Rightarrow> (Inl e, s)
      | None \<Rightarrow>
     (case ke_main env of Inl _ \<Rightarrow> (Inl BAD_GATEWAY, ke_main_others env s)
      | Inr main_kicked \<Rightarrow>
          let screen_kicked = (case ke_screen env of Inl _ \<Rightarrow> False | Inr kicked \<Rightarrow> kicked);
              s1 = ke_screen_others env (ke_main_others env s);
              (revoked, s2) = kick_binding identity (ke_between env (kick_presence identity s1))
          in (Inr (main_kicked, screen_kicked), reconcile_revoked (ke_token_env env) revoked s2)))"

section \<open>Rooms\<close>

definition is_safe_path_component :: "string \<Rightarrow> bool" where
  "is_safe_path_component s \<longleftrightarrow>
     s \<noteq> [] \<and> CHR ''/'' \<notin> set s \<and> CHR 0x5C \<notin> set s \<and> CHR '':'' \<notin> set s
   \<and> list_all (\<lambda>i. take 2 (drop i s) \<noteq> ''..'') [0..<length s] \<and> \<not> list_ex is_control (utf8_chars s) \<and> s \<noteq> ''.''"

definition list_rooms :: "status option \<Rightarrow> server \<Rightarrow> status + room_info list" where
  "list_rooms admin_refused s =
     (case admin_refused of Some e \<Rightarrow> Inl e | None \<Rightarrow> Inr (map snd (sv_rooms s)))"

definition create_room :: "status option \<Rightarrow> string \<Rightarrow> u64 \<Rightarrow> server \<Rightarrow> (status + room_info) \<times> server" where
  "create_room admin_refused room_id now s =
     (case admin_refused of Some e \<Rightarrow> (Inl e, s)
      | None \<Rightarrow>
          if \<not> is_safe_path_component room_id then (Inl BAD_REQUEST, s)
          else case hm_get (sv_rooms s) room_id of Some info \<Rightarrow> (Inr info, s)
          | None \<Rightarrow>
              let info = \<lparr>ri_room_id = room_id, ri_created_at = now\<rparr> in
              (Inr info, s\<lparr>sv_rooms := hm_insert room_id info (sv_rooms s)\<rparr>))"

definition get_room :: "status option \<Rightarrow> string \<Rightarrow> server \<Rightarrow> status + room_info" where
  "get_room admin_refused room_id s =
     (case admin_refused of Some e \<Rightarrow> Inl e
      | None \<Rightarrow> (case hm_get (sv_rooms s) room_id of Some info \<Rightarrow> Inr info | None \<Rightarrow> Inl NOT_FOUND))"

definition delete_room :: "status option \<Rightarrow> string \<Rightarrow> server \<Rightarrow> (status + status) \<times> server" where
  "delete_room admin_refused room_id s =
     (case admin_refused of Some e \<Rightarrow> (Inl e, s)
      | None \<Rightarrow> (Inr 204, s\<lparr>sv_rooms := hm_remove room_id (sv_rooms s)\<rparr>))"

definition group_by_room ::
  "participant_entry list \<Rightarrow> (string, (string \<times> string) list) hash_map" where
  "group_by_room entries =
     fold (\<lambda>p m. hm_insert (pe_room_id p)
       (or_default [] (hm_get m (pe_room_id p)) @ [(pe_identity p, pe_name p)]) m) entries []"

definition rooms_status ::
  "status option \<Rightarrow> server \<Rightarrow> status + (string \<times> (string \<times> string) list) list" where
  "rooms_status admin_refused s =
     (case admin_refused of Some e \<Rightarrow> Inl e
      | None \<Rightarrow> Inr (group_by_room (map snd (sv_participants s))))"

definition metrics :: "status option \<Rightarrow> u64 \<Rightarrow> server \<Rightarrow> status + nat \<times> u64" where
  "metrics admin_refused now s =
     (case admin_refused of Some e \<Rightarrow> Inl e | None \<Rightarrow> Inr (length (sv_rooms s), now))"

section \<open>Joining the Jam\<close>

text \<open>
  \<open>jam_join\<close> with the check of its token: the check comes first, the wait for the lock of the Jam's
  life after it.
\<close>

definition participant_of_claims :: "status + livekit_claims \<Rightarrow> status + string \<times> string option" where
  "participant_of_claims claims =
     (case claims of Inl e \<Rightarrow> Inl e | Inr c \<Rightarrow> Inr (lk_sub c, lk_echo_participant_auth_id c))"

definition server_jam_join ::
  "livekit_decode \<Rightarrow> auth_config \<Rightarrow> others \<Rightarrow> jam_source_snapshot await \<Rightarrow> instant \<Rightarrow> status option
   \<Rightarrow> string option \<Rightarrow> string \<Rightarrow> u64 \<Rightarrow> server \<Rightarrow> (status + unit) \<times> server" where
  "server_jam_join decode config waiting snap now admin_refused participant_token identity generation s =
     (let participant = participant_of_claims
            (ensure_jam_participant decode config (sv_bindings s) participant_token (Some identity));
          s1 = waiting s;
          (r, w) = jam_join snap now admin_refused identity generation participant (sv_world s1)
      in (r, s1\<lparr>sv_world := w\<rparr>))"

end
