(* ===== verification/ParticipantProperties.thy ===== *)
theory ParticipantProperties
  imports RoomApi QueueProperties
begin

text \<open>
  Presence and bindings under every sequence and interleaving of requests: who is present holds a
  binding, a name is held once, a binding is lost only by a kick or to the same name after a silence,
  what an issued token opens, and what a kick ends.
\<close>

section \<open>Binding, by keys\<close>

lemma same_name_identities_iff:
  "k \<in> set (same_name_identities i ps bs)
   \<longleftrightarrow> k \<noteq> i \<and> name_base k = name_base i \<and> (hm_get ps k \<noteq> None \<or> hm_get bs k \<noteq> None)"
  by (auto simp: same_name_identities_def hm_get_def map_of_eq_None_iff)

lemma drop_identities_get:
  "drop_identities keys ps bs = (ps', bs', revoked)
   \<Longrightarrow> hm_get ps' k = (if k \<in> set keys then None else hm_get ps k)
     \<and> hm_get bs' k = (if k \<in> set keys then None else hm_get bs k)"
  by (induction keys arbitrary: ps bs ps' bs' revoked) (auto simp: hm_simps split: prod.splits)

lemma drop_identities_ok:
  "drop_identities keys ps bs = (ps', bs', revoked) \<Longrightarrow> hm_ok ps \<Longrightarrow> hm_ok bs \<Longrightarrow> hm_ok ps' \<and> hm_ok bs'"
  by (induction keys arbitrary: ps bs ps' bs' revoked) (auto split: prod.splits)

lemma drop_identities_revoked:
  "drop_identities keys ps bs = (ps', bs', revoked) \<Longrightarrow> distinct keys
   \<Longrightarrow> b \<in> set revoked \<longleftrightarrow> rb_identity b \<in> set keys
         \<and> map_option pb_auth_id (hm_get bs (rb_identity b)) = Some (rb_auth_id b)"
proof (induction keys arbitrary: ps bs ps' bs' revoked)
  case (Cons key keys)
  obtain ps1 bs1 r1 where rest:
    "drop_identities keys (hm_remove key ps) (hm_remove key bs) = (ps1, bs1, r1)"
    by (cases "drop_identities keys (hm_remove key ps) (hm_remove key bs)")
  have later: "b \<in> set r1 \<longleftrightarrow> rb_identity b \<in> set keys
      \<and> map_option pb_auth_id (hm_get (hm_remove key bs) (rb_identity b)) = Some (rb_auth_id b)"
    using Cons.IH [OF rest] Cons.prems(2) by simp
  show ?case
    using Cons.prems rest later
    by (cases b) (auto simp: hm_simps split: option.splits if_splits)
qed simp

definition kept_binding :: "string \<Rightarrow> string \<Rightarrow> participant_binding option \<Rightarrow> participant_binding" where
  "kept_binding auth_key fresh known = (case known of Some b \<Rightarrow> b | None \<Rightarrow> \<lparr>pb_auth_key = auth_key, pb_auth_id = fresh\<rparr>)"

lemma bind_participant_identity_Inr:
  assumes "bind_participant_identity ps bs payload now fresh = (Inr r, ps', bs')"
  obtains auth_key where "tq_participant_auth_key payload = Some auth_key"
    "participant_auth_key_is_valid auth_key"
    "\<And>b. hm_get bs (tq_identity payload) = Some b \<Longrightarrow> participant_auth_keys_equal (pb_auth_key b) auth_key"
    "\<And>k. k \<noteq> tq_identity payload \<Longrightarrow> name_base k = name_base (tq_identity payload)
       \<Longrightarrow> hm_get bs k \<noteq> None \<Longrightarrow> \<not> presence_active now ps k"
    "br_auth_id r = pb_auth_id (kept_binding auth_key fresh (hm_get bs (tq_identity payload)))"
    "\<And>k. hm_get bs' k = (if k = tq_identity payload
         then Some (kept_binding auth_key fresh (hm_get bs (tq_identity payload)))
       else if name_base k = name_base (tq_identity payload) then None else hm_get bs k)"
    "\<And>k. k \<noteq> tq_identity payload \<Longrightarrow>
       hm_get ps' k = (if name_base k = name_base (tq_identity payload) then None else hm_get ps k)"
    "hm_get ps' (tq_identity payload)
       = hm_get (seen_participant payload now ps) (tq_identity payload)"
    "hm_ok ps \<Longrightarrow> hm_ok bs \<Longrightarrow> hm_ok ps' \<and> hm_ok bs'"
    "\<And>b. b \<in> set (br_revoked r) \<longleftrightarrow> rb_identity b \<noteq> tq_identity payload
       \<and> name_base (rb_identity b) = name_base (tq_identity payload)
       \<and> map_option pb_auth_id (hm_get bs (rb_identity b)) = Some (rb_auth_id b)"
proof -
  let ?i = "tq_identity payload"
  let ?names = "same_name_identities ?i ps bs"
  obtain key where key: "tq_participant_auth_key payload = Some key" "participant_auth_key_is_valid key"
    using assms by (auto simp: bind_participant_identity_def filter_option_def Let_def split: option.splits if_splits)
  obtain ps1 bs1 revoked where drop: "drop_identities ?names ps bs = (ps1, bs1, revoked)"
    by (cases "drop_identities ?names ps bs")
  have distinct: "distinct ?names" by (simp add: same_name_identities_def)
  have fo: "filter_option participant_auth_key_is_valid (tq_participant_auth_key payload) = Some key"
    using key by (simp add: filter_option_def)
  have res: "(hm_get bs ?i = None \<or> (\<exists>b. hm_get bs ?i = Some b \<and> participant_auth_keys_equal (pb_auth_key b) key))
     \<and> \<not> list_ex (presence_active now ps) ?names
     \<and> r = \<lparr>br_auth_id = pb_auth_id (kept_binding key fresh (hm_get bs ?i)), br_revoked = revoked\<rparr>
     \<and> ps' = seen_participant payload now ps1
     \<and> bs' = (if hm_get bs ?i = None then hm_insert ?i (kept_binding key fresh None) bs1 else bs1)"
    using assms unfolding bind_participant_identity_def fo
    by (simp add: Let_def drop kept_binding_def split: option.splits if_splits)
  have i: "?i \<notin> set ?names" by (simp add: same_name_identities_iff)
  note get = drop_identities_get [OF drop]
  show ?thesis
  proof
    show "hm_get bs' k = (if k = ?i then Some (kept_binding key fresh (hm_get bs ?i))
       else if name_base k = name_base ?i then None else hm_get bs k)" for k
      using res get [of k] i by (auto simp: hm_simps kept_binding_def same_name_identities_iff split: if_splits option.splits)
    show "k \<noteq> ?i \<Longrightarrow> hm_get ps' k = (if name_base k = name_base ?i then None else hm_get ps k)" for k
      using res get [of k] by (auto simp: seen_participant_def hm_simps same_name_identities_iff split: if_splits)
    show "hm_get ps' ?i = hm_get (seen_participant payload now ps) ?i"
      using res get [of ?i] i by (simp add: seen_participant_def hm_simps)
    show "hm_ok ps \<Longrightarrow> hm_ok bs \<Longrightarrow> hm_ok ps' \<and> hm_ok bs'"
      using res drop_identities_ok [OF drop] by (auto simp: seen_participant_def)
    show "b \<in> set (br_revoked r) \<longleftrightarrow> rb_identity b \<noteq> ?i \<and> name_base (rb_identity b) = name_base ?i
       \<and> map_option pb_auth_id (hm_get bs (rb_identity b)) = Some (rb_auth_id b)" for b
      using res drop_identities_revoked [OF drop distinct, of b] by (auto simp: same_name_identities_iff)
  qed (use key res in \<open>auto simp: list_ex_iff same_name_identities_iff\<close>)
qed

section \<open>What happens to presence\<close>

text \<open>Between the critical sections of one request other tasks leave presence and bindings alone.\<close>

definition undisturbed :: "others \<Rightarrow> bool" where
  "undisturbed f \<longleftrightarrow> (\<forall>s. sv_participants (f s) = sv_participants s \<and> sv_bindings (f s) = sv_bindings s)"

datatype presence_event =
    Issue token_env auth_config "status option" token_request
  | Beat livekit_decode auth_config "string option" token_request u64 others others string
  | Leave "status + livekit_claims" u64 others others
  | Clean u64 others
  | Kick kick_env "status option" string
  | Elsewhere others

fun presence_step :: "presence_event \<Rightarrow> server \<Rightarrow> server" where
  "presence_step (Issue env config refused payload) s = snd (issue_token env config refused payload s)"
| "presence_step (Beat decode config authorization payload now checked seen stamp) s =
     snd (participant_heartbeat (ensure_livekit_participant decode config (sv_bindings s) authorization
            (tq_identity payload)) payload now checked seen stamp s)"
| "presence_step (Leave claims now checked logged) s = snd (participant_leave claims now checked logged s)"
| "presence_step (Clean now cleaned) s = cleanup_turn now cleaned s"
| "presence_step (Kick env refused identity) s = snd (admin_kick_participant env refused identity s)"
| "presence_step (Elsewhere f) s = f s"

fun event_quiet :: "presence_event \<Rightarrow> bool" where
  "event_quiet (Issue env _ _ _) = undisturbed (te_lifecycle env)"
| "event_quiet (Beat _ _ _ _ _ checked seen _) = (undisturbed checked \<and> undisturbed seen)"
| "event_quiet (Leave _ _ checked logged) = (undisturbed checked \<and> undisturbed logged)"
| "event_quiet (Clean _ cleaned) = undisturbed cleaned"
| "event_quiet (Kick env _ _) =
     (undisturbed (ke_main_others env) \<and> undisturbed (ke_screen_others env) \<and> undisturbed (ke_between env)
      \<and> undisturbed (te_lifecycle (ke_token_env env)))"
| "event_quiet (Elsewhere f) = undisturbed f"

lemma undisturbedD [simp]:
  "undisturbed f \<Longrightarrow> sv_participants (f s) = sv_participants s" "undisturbed f \<Longrightarrow> sv_bindings (f s) = sv_bindings s"
  by (auto simp: undisturbed_def)

lemma server_updates [simp]:
  "sv_participants (with_world g s) = sv_participants s" "sv_bindings (with_world g s) = sv_bindings s"
  "sv_participants (log_event e s) = sv_participants s" "sv_bindings (log_event e s) = sv_bindings s"
  "sv_participants (with_server_jam h s) = sv_participants s"
  "sv_bindings (with_server_jam h s) = sv_bindings s"
  "sv_participants (schedule_auto_end o' s) = sv_participants s"
  "sv_bindings (schedule_auto_end o' s) = sv_bindings s"
  "sv_participants (note_join i n r t s) = sv_participants s" "sv_bindings (note_join i n r t s) = sv_bindings s"
  "sv_participants (note_leave i t x s) = sv_participants s" "sv_bindings (note_leave i t x s) = sv_bindings s"
  "sv_participants (leave_begin i t s) = sv_participants s" "sv_bindings (leave_begin i t s) = sv_bindings s"
  by (auto simp: with_world_def log_event_def with_server_jam_def schedule_auto_end_def note_join_def
      note_leave_def leave_begin_def Let_def split: option.splits)

lemma reconcile_revoked_maps [simp]:
  "undisturbed (te_lifecycle env) \<Longrightarrow> sv_participants (reconcile_revoked env r s) = sv_participants s"
  "undisturbed (te_lifecycle env) \<Longrightarrow> sv_bindings (reconcile_revoked env r s) = sv_bindings s"
  by (auto simp: reconcile_revoked_def)

lemma issue_token_maps:
  assumes "undisturbed (te_lifecycle env)"
  shows "(sv_participants (snd (issue_token env config refused payload s)) = sv_participants s
      \<and> sv_bindings (snd (issue_token env config refused payload s)) = sv_bindings s)
    \<or> (companion_kind (tq_identity payload) = None \<and> refused = None
      \<and> (\<exists>r. bind_participant_identity (sv_participants s) (sv_bindings s) payload (te_now env) (te_fresh_auth_id env)
          = (Inr r, sv_participants (snd (issue_token env config refused payload s)),
             sv_bindings (snd (issue_token env config refused payload s)))))"
  using assms
  by (auto simp: issue_token_def bind_identity_def skip_participant_tracking_def Let_def
      split: option.splits sum.splits prod.splits)

lemma leave_maps:
  assumes "undisturbed checked" "undisturbed logged"
  shows "sv_bindings (snd (participant_leave claims now checked logged s)) = sv_bindings s
    \<and> (sv_participants (snd (participant_leave claims now checked logged s)) = sv_participants s
      \<or> (\<exists>i. sv_participants (snd (participant_leave claims now checked logged s)) = hm_remove i (sv_participants s)))"
  using assms by (auto simp: participant_leave_def leave_finish_def Let_def split: sum.splits option.splits)

lemma log_removed_maps [simp]:
  "undisturbed cleaned \<Longrightarrow> sv_participants (log_removed now cleaned xs s) = sv_participants s"
  "undisturbed cleaned \<Longrightarrow> sv_bindings (log_removed now cleaned xs s) = sv_bindings s"
  by (induction now cleaned xs s rule: log_removed.induct) (simp_all add: Let_def)

lemma revoke_one_get:
  "hm_get (jam_listeners (revoke_one b jam)) k
     = (if k = rb_identity b \<and> hm_get (jam_listeners jam) k = Some (rb_auth_id b) then None
        else hm_get (jam_listeners jam) k)"
  "hm_get (jam_audio_connections (revoke_one b jam)) k
     = (if k = rb_identity b
           \<and> map_option ac_participant_auth_id (hm_get (jam_audio_connections jam) k) = Some (rb_auth_id b)
        then None else hm_get (jam_audio_connections jam) k)"
  by (auto simp: revoke_one_def Let_def hm_simps split: option.splits)

lemma revoke_one_sel [simp]:
  "jam_active (revoke_one b jam) = jam_active jam" "jam_generation (revoke_one b jam) = jam_generation jam"
  by (auto simp: revoke_one_def Let_def)

text \<open>Whom the cleanup may remove: a bound participant who is not listening to the current Jam.\<close>

definition cleanable :: "bindings \<Rightarrow> jam_state \<Rightarrow> string \<Rightarrow> bool" where
  "cleanable bs jam k \<longleftrightarrow>
     (case hm_get bs k of None \<Rightarrow> False | Some b \<Rightarrow> \<not> has_current_audio k (pb_auth_id b) jam)"

definition bound_auth :: "bindings \<Rightarrow> string \<Rightarrow> string option" where
  "bound_auth bs k = map_option pb_auth_id (hm_get bs k)"

lemma cleanable_revoke_other [simp]:
  "k \<noteq> rb_identity b \<Longrightarrow> cleanable bs (revoke_one b jam) k = cleanable bs jam k"
  by (auto simp: cleanable_def has_current_audio_def revoke_one_get split: option.splits)

lemma remove_stale_get:
  "remove_stale ids ps bs jam removed = (ps', jam', removed') \<Longrightarrow> distinct ids
   \<Longrightarrow> hm_get ps' k = (if k \<in> set ids \<and> cleanable bs jam k then None else hm_get ps k)
     \<and> hm_get (jam_listeners jam') k
         = (if k \<in> set ids \<and> cleanable bs jam k \<and> hm_get (jam_listeners jam) k = bound_auth bs k then None
            else hm_get (jam_listeners jam) k)
     \<and> hm_get (jam_audio_connections jam') k
         = (if k \<in> set ids \<and> cleanable bs jam k
               \<and> map_option ac_participant_auth_id (hm_get (jam_audio_connections jam) k) = bound_auth bs k then None
            else hm_get (jam_audio_connections jam) k)
     \<and> jam_active jam' = jam_active jam \<and> jam_generation jam' = jam_generation jam
     \<and> (hm_ok ps \<longrightarrow> hm_ok ps')"
proof (induction ids arbitrary: ps jam removed)
  case (Cons i ids)
  show ?case
  proof (cases "cleanable bs jam i")
    case False
    then have "remove_stale ids ps bs jam removed = (ps', jam', removed')"
      using Cons.prems(1) by (auto simp: cleanable_def split: option.splits if_splits)
    from Cons.IH [OF this] Cons.prems(2) False show ?thesis by auto
  next
    case True
    then obtain b where b: "hm_get bs i = Some b" by (auto simp: cleanable_def split: option.splits)
    let ?jam = "revoke_one \<lparr>rb_identity = i, rb_auth_id = pb_auth_id b\<rparr> jam"
    obtain more where rest: "remove_stale ids (hm_remove i ps) bs ?jam more = (ps', jam', removed')"
      using Cons.prems(1) True b by (auto simp: cleanable_def split: option.splits)
    have i: "i \<notin> set ids" and d: "distinct ids" using Cons.prems(2) by auto
    note IH = Cons.IH [OF rest d]
    show ?thesis
    proof (cases "k = i")
      case True
      then show ?thesis using IH i b \<open>cleanable bs jam i\<close>
        by (auto simp: hm_simps revoke_one_get bound_auth_def)
    next
      case False
      have "cleanable bs ?jam k = cleanable bs jam k" using False by simp
      then show ?thesis using IH False by (auto simp: hm_simps revoke_one_get)
    qed
  qed
qed simp

lemma stale_identities_distinct: "hm_ok ps \<Longrightarrow> distinct (stale_identities now ps)"
  by (simp add: stale_identities_def hm_ok_def distinct_map_filter)

lemma stale_identities_iff:
  "hm_ok ps \<Longrightarrow> k \<in> set (stale_identities now ps)
     \<longleftrightarrow> (\<exists>e. hm_get ps k = Some e \<and> PARTICIPANT_ACTIVE_SECS \<le> sat_sub now (pe_last_seen e))"
  by (force simp: stale_identities_def hm_get_eq_Some PARTICIPANT_ACTIVE_SECS_def)

lemma cleanup_maps:
  assumes "undisturbed cleaned" "hm_ok (sv_participants s)"
  shows "sv_bindings (cleanup_turn now cleaned s) = sv_bindings s
    \<and> hm_ok (sv_participants (cleanup_turn now cleaned s))
    \<and> (\<forall>k. hm_get (sv_participants (cleanup_turn now cleaned s)) k = None
         \<or> hm_get (sv_participants (cleanup_turn now cleaned s)) k = hm_get (sv_participants s) k)"
  using assms remove_stale_get [OF _ stale_identities_distinct]
  by (fastforce simp: cleanup_turn_def remove_stale_participants_exact_def split: prod.splits)

lemma hm_remove_absent: "hm_get m k = None \<Longrightarrow> hm_remove k m = m"
  by (force simp: hm_remove_def hm_get_def map_of_eq_None_iff filter_id_conv)

lemma kick_maps:
  fixes s
  assumes "event_quiet (Kick env refused identity)"
  defines "s' \<equiv> presence_step (Kick env refused identity) s"
  shows "(sv_participants s' = sv_participants s \<and> sv_bindings s' = sv_bindings s)
    \<or> (refused = None \<and> sv_participants s' = filter (\<lambda>(_, p). pe_identity p \<noteq> identity) (sv_participants s)
       \<and> sv_bindings s' = hm_remove identity (sv_bindings s))"
  using assms
  by (auto simp: admin_kick_participant_def kick_presence_def kick_binding_def hm_remove_absent Let_def
      split: option.splits sum.splits prod.splits)

section \<open>Presence is bound\<close>

definition bound_presence :: "server \<Rightarrow> bool" where
  "bound_presence s \<longleftrightarrow>
     hm_ok (sv_participants s) \<and> hm_ok (sv_bindings s)
   \<and> (\<forall>k e. hm_get (sv_participants s) k = Some e \<longrightarrow> pe_identity e = k \<and> hm_get (sv_bindings s) k \<noteq> None)
   \<and> (\<forall>k. hm_get (sv_bindings s) k \<noteq> None \<longrightarrow> companion_kind k = None)
   \<and> (\<forall>k k'. hm_get (sv_bindings s) k \<noteq> None \<longrightarrow> hm_get (sv_bindings s) k' \<noteq> None
        \<longrightarrow> name_base k = name_base k' \<longrightarrow> k = k')"

text \<open>
  \<open>tasks K R f\<close>: \<open>f\<close> is a run of other requests, one after the other or one inside another, between two
  critical sections of which further requests run, in turn interleaved. In it no identity of \<open>K\<close> is
  kicked or displaced by another of its name, and none of \<open>R\<close> becomes present. A heartbeat needs that
  of its own identity between its check and its entry, a kick between its two local steps.
\<close>

definition admits_presence :: "status option \<Rightarrow> token_request \<Rightarrow> bool" where
  "admits_presence refused payload \<longleftrightarrow> refused = None \<and> companion_kind (tq_identity payload) = None"

inductive tasks :: "string set \<Rightarrow> string set \<Rightarrow> others \<Rightarrow> bool" where
  elsewhere: "undisturbed f \<Longrightarrow> tasks K R f"
| sequence: "tasks K R f \<Longrightarrow> tasks K R f' \<Longrightarrow> tasks K R (\<lambda>s. f' (f s))"
| token: "tasks K R (te_lifecycle env)
    \<Longrightarrow> admits_presence refused payload \<longrightarrow> tq_identity payload \<notin> R
      \<and> (\<forall>k \<in> K. k \<noteq> tq_identity payload \<longrightarrow> name_base k \<noteq> name_base (tq_identity payload))
    \<Longrightarrow> tasks K R (presence_step (Issue env config refused payload))"
| heartbeat: "tasks (insert (tq_identity payload) K) R checked \<Longrightarrow> tasks K R seen \<Longrightarrow> tq_identity payload \<notin> R
    \<Longrightarrow> tasks K R (presence_step (Beat decode config authorization payload now checked seen stamp))"
| departure: "tasks K R checked \<Longrightarrow> tasks K R logged \<Longrightarrow> tasks K R (presence_step (Leave claims now checked logged))"
| cleanup: "tasks K R cleaned \<Longrightarrow> tasks K R (presence_step (Clean now cleaned))"
| kick: "tasks K R (ke_main_others env) \<Longrightarrow> tasks K R (ke_screen_others env)
    \<Longrightarrow> tasks K (insert i R) (ke_between env) \<Longrightarrow> tasks K R (te_lifecycle (ke_token_env env))
    \<Longrightarrow> refused = None \<longrightarrow> i \<notin> K
    \<Longrightarrow> tasks K R (presence_step (Kick env refused i))"

inductive presence_reachable :: "server \<Rightarrow> bool" where
  opened: "sv_participants s = [] \<Longrightarrow> sv_bindings s = [] \<Longrightarrow> presence_reachable s"
| stepped: "presence_reachable s \<Longrightarrow> tasks {} {} f \<Longrightarrow> presence_reachable (f s)"

lemma bound_presence_shrinks:
  assumes "bound_presence s" "sv_bindings s' = sv_bindings s" "hm_ok (sv_participants s')"
    "\<And>k. hm_get (sv_participants s') k = None \<or> hm_get (sv_participants s') k = hm_get (sv_participants s) k"
  shows "bound_presence s'"
  unfolding bound_presence_def assms(2)
  using assms(1,3) assms(4) unfolding bound_presence_def by (metis option.distinct(1))

lemma bound_presence_same:
  "bound_presence s \<Longrightarrow> sv_bindings s' = sv_bindings s \<Longrightarrow> sv_participants s' = sv_participants s \<Longrightarrow> bound_presence s'"
  by (simp add: bound_presence_def)

lemma bound_presence_bind:
  assumes inv: "bound_presence s"
    and bind: "bind_participant_identity (sv_participants s) (sv_bindings s) payload now fresh
      = (Inr r, sv_participants s', sv_bindings s')"
    and person: "companion_kind (tq_identity payload) = None"
  shows "bound_presence s'"
proof -
  let ?i = "tq_identity payload"
  obtain key where
    bs: "\<And>k. hm_get (sv_bindings s') k = (if k = ?i then Some (kept_binding key fresh (hm_get (sv_bindings s) ?i))
       else if name_base k = name_base ?i then None else hm_get (sv_bindings s) k)" and
    ps: "\<And>k. k \<noteq> ?i \<Longrightarrow> hm_get (sv_participants s') k
       = (if name_base k = name_base ?i then None else hm_get (sv_participants s) k)" and
    seen: "hm_get (sv_participants s') ?i = hm_get (seen_participant payload now (sv_participants s)) ?i" and
    ok: "hm_ok (sv_participants s) \<Longrightarrow> hm_ok (sv_bindings s)
       \<Longrightarrow> hm_ok (sv_participants s') \<and> hm_ok (sv_bindings s')"
    by (rule bind_participant_identity_Inr [OF bind]) (rule that)
  have id: "pe_identity e = ?i" if "hm_get (sv_participants s') ?i = Some e" for e
    using that inv unfolding seen seen_participant_def bound_presence_def
    by (auto simp: hm_simps split: option.splits if_splits)
  have "pe_identity e = k \<and> hm_get (sv_bindings s') k \<noteq> None" if "hm_get (sv_participants s') k = Some e" for k e
    using that id inv bs [of k] ps [of k] unfolding bound_presence_def by (cases "k = ?i") (auto split: if_splits)
  moreover have "companion_kind k = None" if "hm_get (sv_bindings s') k \<noteq> None" for k
    using that person inv bs [of k] unfolding bound_presence_def by (auto split: if_splits)
  moreover have "k = k'" if "hm_get (sv_bindings s') k \<noteq> None" "hm_get (sv_bindings s') k' \<noteq> None"
      "name_base k = name_base k'" for k k'
    using that inv bs [of k] bs [of k'] unfolding bound_presence_def by (auto split: if_splits)
  ultimately show ?thesis using ok inv unfolding bound_presence_def by blast
qed

lemma ensure_livekit_participant_Inr:
  "ensure_livekit_participant decode config bs authorization i = Inr c
   \<Longrightarrow> lk_sub c = i \<and> (\<exists>b. hm_get bs i = Some b \<and> lk_echo_participant_auth_id c = Some (pb_auth_id b))
     \<and> companion_kind i = None \<and> vg_room_join (lk_video c)"
  by (auto simp: ensure_livekit_participant_def ensure_current_participant_claims_def
      participant_claims_match_def split: sum.splits option.splits if_splits)

text \<open>What a run of tasks keeps of the presence of a server.\<close>

definition keeps_presence :: "string set \<Rightarrow> string set \<Rightarrow> others \<Rightarrow> bool" where
  "keeps_presence K R f \<longleftrightarrow> (\<forall>s. bound_presence s \<longrightarrow> bound_presence (f s)
     \<and> (\<forall>k \<in> K. hm_get (sv_bindings s) k \<noteq> None \<longrightarrow> hm_get (sv_bindings (f s)) k \<noteq> None)
     \<and> (\<forall>k \<in> R. hm_get (sv_participants s) k = None \<longrightarrow> hm_get (sv_participants (f s)) k = None))"

lemma keeps_presenceD:
  assumes "keeps_presence K R f" "bound_presence s"
  shows "bound_presence (f s)"
    "k \<in> K \<Longrightarrow> hm_get (sv_bindings s) k \<noteq> None \<Longrightarrow> hm_get (sv_bindings (f s)) k \<noteq> None"
    "k \<in> R \<Longrightarrow> hm_get (sv_participants s) k = None \<Longrightarrow> hm_get (sv_participants (f s)) k = None"
  using assms by (auto simp: keeps_presence_def)

lemma keeps_presence_same:
  "(\<And>s. sv_participants (f s) = sv_participants s \<and> sv_bindings (f s) = sv_bindings s) \<Longrightarrow> keeps_presence K R f"
  by (simp add: keeps_presence_def bound_presence_same)

lemma keeps_presence_comp:
  "keeps_presence K R f \<Longrightarrow> keeps_presence K R f' \<Longrightarrow> keeps_presence K R (\<lambda>s. f' (f s))"
  unfolding keeps_presence_def by blast

lemma keeps_presence_shrinks:
  assumes "\<And>s. sv_bindings (f s) = sv_bindings s"
    "\<And>s. bound_presence s \<Longrightarrow> hm_ok (sv_participants (f s))"
    "\<And>s k. bound_presence s \<Longrightarrow>
       hm_get (sv_participants (f s)) k = None \<or> hm_get (sv_participants (f s)) k = hm_get (sv_participants s) k"
  shows "keeps_presence K R f"
  unfolding keeps_presence_def
proof (intro allI impI conjI ballI)
  fix s assume inv: "bound_presence s"
  show "bound_presence (f s)" using inv assms by (intro bound_presence_shrinks [OF inv])
  show "hm_get (sv_participants s) k = None \<Longrightarrow> hm_get (sv_participants (f s)) k = None" for k
    using assms(3) [OF inv, of k] by auto
qed (simp add: assms(1))

lemma keeps_presence_reconcile:
  assumes "keeps_presence K R (te_lifecycle env)"
  shows "keeps_presence K R (reconcile_revoked env revoked)"
  using assms by (auto simp: keeps_presence_def reconcile_revoked_def bound_presence_same)

lemma keeps_presence_bind:
  assumes "admits_presence None payload \<longrightarrow> tq_identity payload \<notin> R
      \<and> (\<forall>k \<in> K. k \<noteq> tq_identity payload \<longrightarrow> name_base k \<noteq> name_base (tq_identity payload))"
  shows "keeps_presence K R (\<lambda>s. snd (bind_identity env payload s))"
  unfolding keeps_presence_def
proof (intro allI impI)
  fix s assume inv: "bound_presence s"
  let ?s = "snd (bind_identity env payload s)"
  consider (same) "sv_participants ?s = sv_participants s \<and> sv_bindings ?s = sv_bindings s"
    | (bound) r where "companion_kind (tq_identity payload) = None"
        "bind_participant_identity (sv_participants s) (sv_bindings s) payload (te_now env) (te_fresh_auth_id env)
          = (Inr r, sv_participants ?s, sv_bindings ?s)"
  proof -
    obtain r ps bs where bind: "bind_participant_identity (sv_participants s) (sv_bindings s) payload (te_now env)
        (te_fresh_auth_id env) = (r, ps, bs)" by (metis prod_cases3)
    then show thesis using that
      by (cases "companion_kind (tq_identity payload)"; cases r)
        (simp_all add: bind_identity_def skip_participant_tracking_def)
  qed
  then show "bound_presence ?s
     \<and> (\<forall>k \<in> K. hm_get (sv_bindings s) k \<noteq> None \<longrightarrow> hm_get (sv_bindings ?s) k \<noteq> None)
     \<and> (\<forall>k \<in> R. hm_get (sv_participants s) k = None \<longrightarrow> hm_get (sv_participants ?s) k = None)"
  proof cases
    case same
    then show ?thesis by (simp add: bound_presence_same [OF inv])
  next
    case bound
    note away = assms [unfolded admits_presence_def, simplified, rule_format, OF bound(1)]
    obtain key where
      bs: "\<And>k. hm_get (sv_bindings ?s) k = (if k = tq_identity payload
           then Some (kept_binding key (te_fresh_auth_id env) (hm_get (sv_bindings s) (tq_identity payload)))
         else if name_base k = name_base (tq_identity payload) then None else hm_get (sv_bindings s) k)" and
      ps: "\<And>k. k \<noteq> tq_identity payload \<Longrightarrow> hm_get (sv_participants ?s) k
         = (if name_base k = name_base (tq_identity payload) then None else hm_get (sv_participants s) k)"
      by (rule bind_participant_identity_Inr [OF bound(2)]) (rule that)
    have "hm_get (sv_bindings ?s) k \<noteq> None" if "k \<in> K" "hm_get (sv_bindings s) k \<noteq> None" for k
      using bs [of k] away that by auto
    moreover have "hm_get (sv_participants ?s) k = None" if "k \<in> R" "hm_get (sv_participants s) k = None" for k
    proof -
      have "k \<noteq> tq_identity payload" using away that by auto
      then show ?thesis using ps [of k] that by simp
    qed
    ultimately show ?thesis using bound_presence_bind [OF inv bound(2,1)] by blast
  qed
qed

lemma keeps_presence_token:
  assumes "keeps_presence K R (te_lifecycle env)"
    "admits_presence refused payload \<longrightarrow> tq_identity payload \<notin> R
      \<and> (\<forall>k \<in> K. k \<noteq> tq_identity payload \<longrightarrow> name_base k \<noteq> name_base (tq_identity payload))"
  shows "keeps_presence K R (\<lambda>s. snd (issue_token env config refused payload s))"
proof -
  have bind: "keeps_presence K R (\<lambda>s. snd (bind_identity env payload s))" if "refused = None"
    using keeps_presence_bind assms(2) that by auto
  have "snd (issue_token env config refused payload s) = s
      \<or> refused = None \<and> (\<exists>revoked. snd (issue_token env config refused payload s)
          = reconcile_revoked env revoked (snd (bind_identity env payload s)))" for s
  proof (cases "refused = None \<and> \<not> name_too_long (tq_name payload)")
    case False
    then show ?thesis by (auto simp: issue_token_def split: option.splits)
  next
    case True
    obtain r s1 where bind: "bind_identity env payload s = (r, s1)" by fastforce
    show ?thesis
    proof (cases r)
      case (Inl e)
      then show ?thesis using True bind by (intro disjI2 conjI exI [of _ "[]"]) (simp_all add: issue_token_def reconcile_revoked_def)
    next
      case (Inr bound)
      then show ?thesis using True bind
        by (auto simp: issue_token_def Let_def split: prod.split option.split)
    qed
  qed
  then show ?thesis
    using keeps_presence_comp [OF bind keeps_presence_reconcile [OF assms(1)]]
    unfolding keeps_presence_def by metis
qed

lemma heartbeat_entered:
  assumes inv: "bound_presence s" and "hm_get (sv_bindings s) i \<noteq> None"
  shows "bound_presence (s\<lparr>sv_participants := hm_insert i (heartbeat_entry i room name version now
    (hm_get (sv_participants s) i)) (sv_participants s)\<rparr>)"
proof -
  have "pe_identity (heartbeat_entry i room name version now (hm_get (sv_participants s) i)) = i"
    using inv unfolding bound_presence_def by (auto simp: heartbeat_entry_def split: option.splits)
  then show ?thesis using assms unfolding bound_presence_def by (auto simp: hm_simps)
qed

lemma keeps_presence_heartbeat:
  assumes "keeps_presence (insert (tq_identity payload) K) R checked" "keeps_presence K R seen"
    "tq_identity payload \<notin> R"
  shows "keeps_presence K R (\<lambda>s. snd (participant_heartbeat (ensure_livekit_participant decode config (sv_bindings s)
    authorization (tq_identity payload)) payload now checked seen stamp s))"
  unfolding keeps_presence_def
proof (intro allI impI)
  fix s assume inv: "bound_presence s"
  let ?s' = "snd (participant_heartbeat (ensure_livekit_participant decode config (sv_bindings s)
    authorization (tq_identity payload)) payload now checked seen stamp s)"
  show "bound_presence ?s'
     \<and> (\<forall>k \<in> K. hm_get (sv_bindings s) k \<noteq> None \<longrightarrow> hm_get (sv_bindings ?s') k \<noteq> None)
     \<and> (\<forall>k \<in> R. hm_get (sv_participants s) k = None \<longrightarrow> hm_get (sv_participants ?s') k = None)"
  proof (cases "ensure_livekit_participant decode config (sv_bindings s) authorization (tq_identity payload)")
    case (Inl e)
    then show ?thesis using inv by (simp add: participant_heartbeat_def)
  next
    case (Inr c)
    let ?i = "tq_identity payload"
    let ?s = "(checked s)\<lparr>sv_participants := hm_insert ?i (heartbeat_entry ?i (vg_room (lk_video c))
      (or_default ?i (lk_name c)) (tq_viewer_version payload) now (hm_get (sv_participants (checked s)) ?i))
      (sv_participants (checked s))\<rparr>"
    from ensure_livekit_participant_Inr [OF Inr] have i: "lk_sub c = ?i" and bound: "hm_get (sv_bindings s) ?i \<noteq> None"
      by auto
    note during = keeps_presenceD [OF assms(1) inv]
    have entered: "bound_presence ?s" using during bound by (intro heartbeat_entered) auto
    note after = keeps_presenceD [OF assms(2) entered]
    have s': "sv_participants ?s' = sv_participants (seen ?s)" "sv_bindings ?s' = sv_bindings (seen ?s)"
      using Inr i by (simp_all add: participant_heartbeat_def Let_def)
    have "bound_presence ?s'" by (rule bound_presence_same [OF after(1)]) (simp_all add: s')
    moreover have "hm_get (sv_bindings ?s') k \<noteq> None" if "k \<in> K" "hm_get (sv_bindings s) k \<noteq> None" for k
      using during(2) [of k] after(2) [of k] that by (simp add: s')
    moreover have "hm_get (sv_participants ?s') k = None" if "k \<in> R" "hm_get (sv_participants s) k = None" for k
      proof -
      have "k \<noteq> ?i" using that(1) assms(3) by auto
      then show ?thesis using during(3) [of k] after(3) [of k] that by (simp add: s' hm_simps)
    qed
    ultimately show ?thesis by blast
  qed
qed

lemma keeps_presence_leave:
  assumes "keeps_presence K R checked" "keeps_presence K R logged"
  shows "keeps_presence K R (\<lambda>s. snd (participant_leave claims now checked logged s))"
proof -
  have begun: "keeps_presence K R (leave_begin i now)" for i by (rule keeps_presence_same) simp
  have finish: "keeps_presence K R (\<lambda>s. snd (leave_finish i a s))" for i a
    by (rule keeps_presence_shrinks) (auto simp: leave_finish_def Let_def hm_simps bound_presence_def)
  have "keeps_presence K R (\<lambda>s. snd (leave_finish i a (logged (leave_begin i now (checked s)))))" for i a
    by (rule keeps_presence_comp [OF keeps_presence_comp [OF keeps_presence_comp [OF assms(1) begun] assms(2)] finish])
  then show ?thesis
    by (cases claims; cases "lk_echo_participant_auth_id (projr claims)")
      (simp_all add: participant_leave_def keeps_presence_same)
qed

lemma keeps_presence_log_removed:
  "keeps_presence K R cleaned \<Longrightarrow> keeps_presence K R (log_removed now cleaned entries)"
proof (induction entries)
  case Nil
  then show ?case by (simp add: keeps_presence_same)
next
  case (Cons entry entries)
  let ?logged = "\<lambda>s. let s1 = note_leave (pe_identity entry) now entry s
    in s1\<lparr>sv_client_stats := hm_remove (pe_identity entry) (sv_client_stats s1)\<rparr>"
  have "keeps_presence K R ?logged" by (rule keeps_presence_same) (simp add: Let_def)
  from keeps_presence_comp [OF keeps_presence_comp [OF Cons.prems this] Cons.IH [OF Cons.prems]]
  show ?case by (simp add: Let_def)
qed

lemma keeps_presence_cleanup:
  assumes "keeps_presence K R cleaned"
  shows "keeps_presence K R (cleanup_turn now cleaned)"
  unfolding keeps_presence_def
proof (intro allI impI)
  fix s assume inv: "bound_presence s"
  obtain ps jam removed g where exact: "remove_stale_participants_exact (sv_participants s) (sv_bindings s)
      (w_jam (sv_world s)) now = (ps, jam, removed, g)" by (metis prod_cases4)
  let ?s = "with_server_jam (\<lambda>_. jam) (s\<lparr>sv_participants := ps\<rparr>)"
  have ok: "hm_ok (sv_participants s)" using inv by (simp add: bound_presence_def)
  have run: "remove_stale (stale_identities now (sv_participants s)) (sv_participants s) (sv_bindings s)
      (w_jam (sv_world s)) [] = (ps, jam, removed)"
    using exact by (simp add: remove_stale_participants_exact_def split: prod.splits)
  note got = remove_stale_get [OF run stale_identities_distinct [OF ok]]
  have first: "bound_presence ?s" using got ok by (intro bound_presence_shrinks [OF inv]) auto
  note rest = keeps_presenceD [OF keeps_presence_log_removed [OF assms, of now removed] first]
  have s': "sv_participants (cleanup_turn now cleaned s) = sv_participants (log_removed now cleaned removed ?s)"
    "sv_bindings (cleanup_turn now cleaned s) = sv_bindings (log_removed now cleaned removed ?s)"
    by (simp_all add: cleanup_turn_def exact)
  have "bound_presence (cleanup_turn now cleaned s)" by (rule bound_presence_same [OF rest(1)]) (simp_all add: s')
  moreover have "hm_get (sv_bindings (cleanup_turn now cleaned s)) k \<noteq> None"
    if "k \<in> K" "hm_get (sv_bindings s) k \<noteq> None" for k using rest(2) [of k] that by (simp add: s')
  moreover have "hm_get (sv_participants (cleanup_turn now cleaned s)) k = None"
    if "k \<in> R" "hm_get (sv_participants s) k = None" for k using rest(3) [of k] that got [of k] by (simp add: s')
  ultimately show "bound_presence (cleanup_turn now cleaned s)
     \<and> (\<forall>k \<in> K. hm_get (sv_bindings s) k \<noteq> None \<longrightarrow> hm_get (sv_bindings (cleanup_turn now cleaned s)) k \<noteq> None)
     \<and> (\<forall>k \<in> R. hm_get (sv_participants s) k = None
          \<longrightarrow> hm_get (sv_participants (cleanup_turn now cleaned s)) k = None)" by blast
qed

lemma kick_presence_get:
  "bound_presence s \<Longrightarrow> hm_get (sv_participants (kick_presence i s)) k
     = (if k = i then None else hm_get (sv_participants s) k)"
  using hm_get_filter [of "sv_participants s" "\<lambda>_ p. pe_identity p \<noteq> i" k]
  by (cases "hm_get (sv_participants s) k") (auto simp: bound_presence_def kick_presence_def)

lemma kick_binding_maps:
  "sv_participants (snd (kick_binding i s)) = sv_participants s"
  "sv_bindings (snd (kick_binding i s)) = hm_remove i (sv_bindings s)"
  by (auto simp: kick_binding_def hm_remove_absent split: option.splits)

lemma keeps_presence_local_kick:
  assumes between: "keeps_presence K (insert i R) f" and spared: "i \<notin> K"
  shows "keeps_presence K R (\<lambda>s. snd (kick_binding i (f (kick_presence i s))))"
  unfolding keeps_presence_def
proof (intro allI impI)
  fix s assume inv: "bound_presence s"
  let ?s = "f (kick_presence i s)"
  have first: "bound_presence (kick_presence i s)"
    using inv kick_presence_get [OF inv, of i]
    by (intro bound_presence_shrinks [OF inv]) (auto simp: kick_presence_def bound_presence_def)
  note later = keeps_presenceD [OF between first]
  have gone: "hm_get (sv_participants ?s) i = None" using later(3) kick_presence_get [OF inv] by simp
  have "bound_presence (snd (kick_binding i ?s))"
    using later(1) gone unfolding bound_presence_def kick_binding_maps by (auto simp: hm_simps)
  moreover have "hm_get (sv_bindings (snd (kick_binding i ?s))) k \<noteq> None"
    if "k \<in> K" "hm_get (sv_bindings s) k \<noteq> None" for k
  proof -
    have "hm_get (sv_bindings (kick_presence i s)) k \<noteq> None" using that by (simp add: kick_presence_def)
    then show ?thesis using later(2) [of k] that spared by (auto simp: kick_binding_maps hm_simps)
  qed
  moreover have "hm_get (sv_participants (snd (kick_binding i ?s))) k = None"
    if "k \<in> R" "hm_get (sv_participants s) k = None" for k
    using later(3) [of k] that kick_presence_get [OF inv, of i k] by (simp add: kick_binding_maps split: if_splits)
  ultimately show "bound_presence (snd (kick_binding i ?s))
     \<and> (\<forall>k \<in> K. hm_get (sv_bindings s) k \<noteq> None \<longrightarrow> hm_get (sv_bindings (snd (kick_binding i ?s))) k \<noteq> None)
     \<and> (\<forall>k \<in> R. hm_get (sv_participants s) k = None
          \<longrightarrow> hm_get (sv_participants (snd (kick_binding i ?s))) k = None)" by blast
qed

lemma keeps_presence_kick:
  assumes "keeps_presence K R (ke_main_others env)" "keeps_presence K R (ke_screen_others env)"
    "keeps_presence K (insert i R) (ke_between env)" "keeps_presence K R (te_lifecycle (ke_token_env env))"
    "refused = None \<longrightarrow> i \<notin> K"
  shows "keeps_presence K R (\<lambda>s. snd (admin_kick_participant env refused i s))"
proof (cases refused)
  case (Some e)
  then show ?thesis by (simp add: admin_kick_participant_def keeps_presence_same)
next
  case None
  have local: "keeps_presence K R (\<lambda>s. snd (kick_binding i (ke_between env (kick_presence i s))))"
    by (rule keeps_presence_local_kick [OF assms(3)]) (use assms(5) None in simp)
  show ?thesis
  proof (cases "ke_main env")
    case (Inl e)
    then show ?thesis using None assms(1) by (simp add: admin_kick_participant_def)
  next
    case (Inr kicked)
    have all: "keeps_presence K R (\<lambda>s. reconcile_revoked (ke_token_env env) revoked
        (snd (kick_binding i (ke_between env (kick_presence i (ke_screen_others env (ke_main_others env s)))))))" for revoked
      by (rule keeps_presence_comp [OF keeps_presence_comp [OF keeps_presence_comp [OF assms(1,2)] local]
            keeps_presence_reconcile [OF assms(4)]])
    have "snd (admin_kick_participant env refused i s) = reconcile_revoked (ke_token_env env)
        (fst (kick_binding i (ke_between env (kick_presence i (ke_screen_others env (ke_main_others env s))))))
        (snd (kick_binding i (ke_between env (kick_presence i (ke_screen_others env (ke_main_others env s))))))" for s
      using None Inr by (simp add: admin_kick_participant_def Let_def split: prod.split)
    then show ?thesis using all unfolding keeps_presence_def by metis
  qed
qed

lemma tasks_keep_presence: "tasks K R f \<Longrightarrow> keeps_presence K R f"
proof (induction rule: tasks.induct)
  case (elsewhere f K R)
  then show ?case by (intro keeps_presence_same) simp
next
  case (sequence K R f f')
  show ?case by (rule keeps_presence_comp [OF sequence.IH])
next
  case (token K R env refused payload config)
  show ?case using keeps_presence_token [OF token.IH token.hyps(2), of config] by simp
next
  case (heartbeat payload K R checked seen decode config authorization now stamp)
  show ?case using keeps_presence_heartbeat [OF heartbeat.IH heartbeat.hyps(3)] by simp
next
  case (departure K R checked logged claims now)
  show ?case using keeps_presence_leave [OF departure.IH, of claims now] by simp
next
  case (cleanup K R cleaned now)
  show ?case using keeps_presence_cleanup [OF cleanup.IH, of now] by simp
next
  case (kick K R env i refused)
  show ?case using keeps_presence_kick [OF kick.IH kick.hyps(5)] by simp
qed

lemma presence_reachable_bound: "presence_reachable s \<Longrightarrow> bound_presence s"
proof (induction rule: presence_reachable.induct)
  case (opened s)
  then show ?case by (simp add: bound_presence_def)
next
  case (stepped s f)
  then show ?case using keeps_presenceD(1) [OF tasks_keep_presence] by blast
qed

definition demo_request :: "string \<Rightarrow> char \<Rightarrow> token_request" where
  "demo_request identity digit = \<lparr>tq_room = ''main'', tq_identity = identity, tq_name = Some ''Sam'',
     tq_viewer_version = None, tq_participant_auth_key = Some (replicate 64 digit)\<rparr>"

definition demo_auth :: auth_config where
  "demo_auth = \<lparr>cf_admin_password_hash = None, cf_admin_password = None, cf_admin_jwt_secret = [],
     cf_admin_token_ttl_secs = 3600, cf_livekit_api_key = ''key'', cf_livekit_api_secret = ''secret'',
     cf_livekit_token_ttl_secs = 3600\<rparr>"

definition demo_claims :: "string \<Rightarrow> string \<Rightarrow> u64 \<Rightarrow> livekit_claims" where
  "demo_claims identity auth_id now = \<lparr>lk_iss = ''key'', lk_sub = identity, lk_exp = now + 3600, lk_iat = now,
     lk_echo_participant_auth_id = Some auth_id, lk_echo_actor_id = None, lk_name = Some ''Sam'',
     lk_video = livekit_grant ''main'' None\<rparr>"

text \<open>One token is ever signed in the example: that of \<open>sam-1\<close>, at 100.\<close>

definition demo_encode :: livekit_encode where
  "demo_encode secret claims = (if claims = demo_claims ''sam-1'' ''auth'' 100 then Some ''signed'' else None)"

definition demo_decode :: livekit_decode where
  "demo_decode secret token = (if token = ''signed'' then Some (demo_claims ''sam-1'' ''auth'' 100) else None)"

definition demo_issue_env :: token_env where
  "demo_issue_env = \<lparr>te_now = 100, te_fresh_auth_id = ''auth'', te_lifecycle = id, te_pause = answer (),
     te_lock = answer (), te_encode = demo_encode, te_hmac = (\<lambda>_ _. []), te_actor_secret = None\<rparr>"

definition demo_server :: server where
  "demo_server = \<lparr>sv_world = demo_world [], sv_participants = [], sv_bindings = [], sv_joined_at = [],
     sv_client_stats = [], sv_rooms = [], sv_events = []\<rparr>"

definition demo_key :: participant_binding where
  "demo_key = \<lparr>pb_auth_key = replicate 64 CHR ''1'', pb_auth_id = ''auth''\<rparr>"

definition demo_present :: participant_entry where
  "demo_present = \<lparr>pe_identity = ''sam-1'', pe_name = ''Sam'', pe_room_id = ''main'', pe_last_seen = 100,
     pe_last_heartbeat_at = None, pe_viewer_version = None\<rparr>"

lemma demo_issue:
  "issue_token demo_issue_env demo_auth None (demo_request ''sam-1'' CHR ''1'') demo_server
     = (Inr (''signed'', 3600), demo_server\<lparr>sv_participants := [(''sam-1'', demo_present)],
          sv_bindings := [(''sam-1'', demo_key)]\<rparr>)"
  by code_simp

text \<open>
  C28: Whoever is present holds a binding, under a name nobody else holds: whatever tokens, heartbeats,
  departures, cleanups and kicks have run, one after the other or interleaved between their critical
  sections, but for two races: an identity kicked or displaced between the check and the entry of its own
  heartbeat, and one that becomes present between the two local steps of its own kick.
\<close>

theorem presence_is_bound:
  assumes "presence_reachable s"
  shows "hm_ok (sv_participants s) \<and> hm_ok (sv_bindings s)
    \<and> (\<forall>k e. hm_get (sv_participants s) k = Some e \<longrightarrow> pe_identity e = k \<and> hm_get (sv_bindings s) k \<noteq> None)
    \<and> (\<forall>k. hm_get (sv_bindings s) k \<noteq> None \<longrightarrow> companion_kind k = None)
    \<and> (\<forall>k k'. hm_get (sv_bindings s) k \<noteq> None \<longrightarrow> hm_get (sv_bindings s) k' \<noteq> None
         \<longrightarrow> name_base k = name_base k' \<longrightarrow> k = k')"
  using presence_reachable_bound [OF assms] by (simp add: bound_presence_def)

theorem presence_is_bound_witness:
  "hm_get (sv_participants (presence_step (Issue demo_issue_env demo_auth None (demo_request ''sam-1'' CHR ''1''))
      demo_server)) ''sam-1'' = Some demo_present
   \<and> hm_get (sv_bindings (presence_step (Issue demo_issue_env demo_auth None (demo_request ''sam-1'' CHR ''1''))
      demo_server)) ''sam-1'' \<noteq> None"
proof -
  let ?e = "Issue demo_issue_env demo_auth None (demo_request ''sam-1'' CHR ''1'')"
  have "presence_reachable demo_server" by (rule opened) (simp_all add: demo_server_def)
  moreover have "tasks {} {} (presence_step ?e)"
    by (rule token) (simp_all add: demo_issue_env_def undisturbed_def elsewhere)
  ultimately have "presence_reachable (presence_step ?e demo_server)" by (rule stepped)
  from presence_is_bound [OF this]
  have bound: "hm_get (sv_participants (presence_step ?e demo_server)) k = Some x
      \<Longrightarrow> hm_get (sv_bindings (presence_step ?e demo_server)) k \<noteq> None" for k x by blast
  have present: "hm_get (sv_participants (presence_step ?e demo_server)) ''sam-1'' = Some demo_present"
    by (simp add: demo_issue hm_get_def)
  with bound show ?thesis by blast
qed

text \<open>The first of the two races: a kick that fits between the check and the entry leaves a presence unbound.\<close>

lemma raced_heartbeat_is_unbound:
  assumes "ensure_livekit_participant decode config (sv_bindings s) authorization (tq_identity payload) = Inr c"
    "hm_get (sv_bindings (checked s)) (tq_identity payload) = None" "undisturbed seen"
  shows "hm_get (sv_participants (presence_step (Beat decode config authorization payload now checked seen stamp) s))
      (tq_identity payload) \<noteq> None
    \<and> hm_get (sv_bindings (presence_step (Beat decode config authorization payload now checked seen stamp) s))
      (tq_identity payload) = None"
  using assms ensure_livekit_participant_Inr [OF assms(1)] by (simp add: participant_heartbeat_def Let_def hm_simps)

section \<open>Who keeps an identity\<close>

text \<open>What can take a binding away: a kick, or an admitted token for another identity of the name.\<close>

fun displaces :: "string \<Rightarrow> presence_event \<Rightarrow> bool" where
  "displaces k (Kick _ refused i) \<longleftrightarrow> refused = None \<and> i = k"
| "displaces k (Issue _ _ refused p) \<longleftrightarrow>
     refused = None \<and> tq_identity p \<noteq> k \<and> name_base (tq_identity p) = name_base k"
| "displaces k _ \<longleftrightarrow> False"

lemma binding_kept_step:
  assumes "hm_get (sv_bindings s) k = Some b" "event_quiet e" "\<not> displaces k e"
  shows "hm_get (sv_bindings (presence_step e s)) k = Some b"
proof (cases e)
  case (Issue env config refused payload)
  have "hm_get bs' k = Some b"
    if bind: "bind_participant_identity (sv_participants s) (sv_bindings s) payload now fresh = (Inr r, ps', bs')"
      and same: "tq_identity payload \<noteq> k \<longrightarrow> name_base (tq_identity payload) \<noteq> name_base k" for now fresh r ps' bs'
  proof -
    obtain key where "\<And>i. hm_get bs' i = (if i = tq_identity payload
         then Some (kept_binding key fresh (hm_get (sv_bindings s) (tq_identity payload)))
       else if name_base i = name_base (tq_identity payload) then None else hm_get (sv_bindings s) i)"
      by (rule bind_participant_identity_Inr [OF bind]) (rule that)
    from this [of k] show ?thesis using same assms(1) by (auto simp: kept_binding_def)
  qed
  then show ?thesis
    using issue_token_maps [of env config refused payload s] assms by (auto simp: Issue)
next
  case (Beat decode config authorization payload now checked seen stamp)
  then show ?thesis using assms
    by (auto simp: participant_heartbeat_def Let_def split: sum.split)
next
  case (Leave claims now checked logged)
  then show ?thesis using assms leave_maps [of checked logged claims now s] by simp
next
  case (Clean now cleaned)
  have "sv_bindings (cleanup_turn now cleaned s) = sv_bindings s" if "undisturbed cleaned"
    using that by (simp add: cleanup_turn_def split: prod.split)
  then show ?thesis using Clean assms by simp
next
  case (Kick env refused i)
  then show ?thesis using assms kick_maps [of env refused i s] by (auto simp: hm_simps)
next
  case (Elsewhere f)
  then show ?thesis using assms by simp
qed

lemma binding_kept:
  "hm_get (sv_bindings s) k = Some b \<Longrightarrow> list_all event_quiet es \<Longrightarrow> list_all (\<lambda>e. \<not> displaces k e) es
   \<Longrightarrow> hm_get (sv_bindings (fold presence_step es s)) k = Some b"
  by (induction es arbitrary: s) (simp_all add: binding_kept_step)

lemma bind_other_installation:
  assumes "hm_get bs (tq_identity payload) = Some b" "tq_participant_auth_key payload = Some key"
    "key \<noteq> pb_auth_key b"
  shows "bind_participant_identity ps bs payload now fresh
    = (Inl (if participant_auth_key_is_valid key then CONFLICT else BAD_REQUEST), ps, bs)"
  using assms by (auto simp: bind_participant_identity_def filter_option_def participant_auth_keys_equal_def
      constant_time_eq_iff bytes_of_inject Let_def)

lemma issue_token_refused:
  assumes "\<not> name_too_long (tq_name payload)" "companion_kind (tq_identity payload) = None"
    "bind_participant_identity (sv_participants s) (sv_bindings s) payload (te_now env) (te_fresh_auth_id env)
      = (Inl e, sv_participants s, sv_bindings s)"
  shows "issue_token env config None payload s = (Inl e, s)"
  using assms by (simp add: issue_token_def bind_identity_def skip_participant_tracking_def)

text \<open>An identity stays with the installation it was bound to. Whatever happens afterwards, short of a
  kick or a token for another identity of that name, a request for it under another installation's key
  is refused and changes nothing; and while its holder is present, another identity of that name is
  refused too.
\<close>

lemma installation_keeps_its_identity:
  assumes bound: "hm_get (sv_bindings s) k = Some b"
    and events: "list_all event_quiet es" "list_all (\<lambda>e. \<not> displaces k e) es"
    and request: "tq_participant_auth_key payload = Some key" "\<not> name_too_long (tq_name payload)"
      "companion_kind (tq_identity payload) = None" "participant_auth_key_is_valid key"
    and claim: "tq_identity payload = k \<and> key \<noteq> pb_auth_key b
      \<or> tq_identity payload \<noteq> k \<and> name_base (tq_identity payload) = name_base k
        \<and> presence_active (te_now env) (sv_participants (fold presence_step es s)) k"
  shows "issue_token env config None payload (fold presence_step es s) = (Inl CONFLICT, fold presence_step es s)"
proof (rule issue_token_refused [OF request(2,3)])
  let ?s = "fold presence_step es s"
  have b: "hm_get (sv_bindings ?s) k = Some b" by (rule binding_kept [OF bound events])
  show "bind_participant_identity (sv_participants ?s) (sv_bindings ?s) payload (te_now env) (te_fresh_auth_id env)
      = (Inl CONFLICT, sv_participants ?s, sv_bindings ?s)"
  proof (cases "tq_identity payload = k")
    case True
    then show ?thesis using bind_other_installation [OF _ request(1)] b claim request(4) by simp
  next
    case False
    then have "k \<in> set (same_name_identities (tq_identity payload) (sv_participants ?s) (sv_bindings ?s))"
      "presence_active (te_now env) (sv_participants ?s) k"
      using claim b by (auto simp: same_name_identities_iff)
    then have "list_ex (presence_active (te_now env) (sv_participants ?s))
        (same_name_identities (tq_identity payload) (sv_participants ?s) (sv_bindings ?s))"
      by (auto simp: list_ex_iff)
    then show ?thesis using request by (simp add: bind_participant_identity_def filter_option_def Let_def)
  qed
qed

definition demo_bound :: server where
  "demo_bound = demo_server\<lparr>sv_participants := [(''sam-1'', demo_present)], sv_bindings := [(''sam-1'', demo_key)]\<rparr>"

section \<open>What a token opens\<close>

lemma le_sat_add: "a \<le> sat_add a b"
proof (cases "unat a + unat b \<le> u64_max")
  case True
  then have "unat (a + b) = unat a + unat b" by (simp add: u64_max_def unat_word_ariths)
  with True show ?thesis by (simp add: sat_add_def word_le_nat_alt)
qed (simp add: sat_add_def)

definition bearer :: "string \<Rightarrow> string option" where
  "bearer token = Some (''Bearer '' @ token)"

text \<open>A token that was signed is read back until it expires.\<close>

definition signs :: "livekit_encode \<Rightarrow> livekit_decode \<Rightarrow> u64 \<Rightarrow> bool" where
  "signs encode decode now \<longleftrightarrow>
     (\<forall>secret claims token. encode secret claims = Some token \<longrightarrow> now < lk_exp claims
        \<longrightarrow> decode secret token = Some claims)"

lemma issue_token_Inr:
  assumes "issue_token env config None payload s = (Inr (token, ttl), s1)" "companion_kind (tq_identity payload) = None"
    "undisturbed (te_lifecycle env)"
  shows "\<exists>b. hm_get (sv_bindings s1) (tq_identity payload) = Some b
    \<and> te_encode env (cf_livekit_api_secret config) (token_claims env config payload (Some (pb_auth_id b))) = Some token
    \<and> ttl = cf_livekit_token_ttl_secs config"
proof -
  obtain r ps' bs' where bind: "bind_participant_identity (sv_participants s) (sv_bindings s) payload (te_now env)
      (te_fresh_auth_id env) = (Inr r, ps', bs')" and sv: "sv_bindings s1 = bs'"
    and enc: "te_encode env (cf_livekit_api_secret config) (token_claims env config payload (Some (br_auth_id r))) = Some token"
      "ttl = cf_livekit_token_ttl_secs config"
    using assms by (auto simp: issue_token_def bind_identity_def skip_participant_tracking_def Let_def
        split: if_splits sum.splits prod.splits option.splits)
  obtain key where "br_auth_id r = pb_auth_id (kept_binding key (te_fresh_auth_id env)
        (hm_get (sv_bindings s) (tq_identity payload)))"
     "\<And>k. hm_get bs' k = (if k = tq_identity payload
         then Some (kept_binding key (te_fresh_auth_id env) (hm_get (sv_bindings s) (tq_identity payload)))
       else if name_base k = name_base (tq_identity payload) then None else hm_get (sv_bindings s) k)"
    by (rule bind_participant_identity_Inr [OF bind]) (rule that)
  with sv enc show ?thesis by simp
qed

lemma token_claims_sel [simp]:
  "lk_sub (token_claims env config payload a) = tq_identity payload"
  "lk_iss (token_claims env config payload a) = cf_livekit_api_key config"
  "lk_exp (token_claims env config payload a) = te_now env + cf_livekit_token_ttl_secs config"
  "lk_iat (token_claims env config payload a) = te_now env"
  "lk_echo_participant_auth_id (token_claims env config payload a) = a"
  "lk_name (token_claims env config payload a) = tq_name payload"
  "companion_kind (tq_identity payload) = None
     \<Longrightarrow> lk_video (token_claims env config payload a) = livekit_grant (tq_room payload) None"
  by (simp_all add: token_claims_def)

lemma livekit_grant_None [simp]:
  "vg_room (livekit_grant room None) = room" "vg_room_join (livekit_grant room None)"
  by (simp_all add: livekit_grant_def)

text \<open>A token opens exactly its identity, exactly until the identity is bound anew. Read with the
  library's promise for signatures, the token just issued passes the check of every route for its own
  identity as long as that binding stands, for no other identity, and for none once the binding is
  gone or replaced; and after a heartbeat with it its holder counts as active for twenty seconds.
\<close>

lemma issued_token_opens_until_rebound:
  assumes issued: "issue_token env config None payload s = (Inr (token, ttl), s1)"
    and person: "companion_kind (tq_identity payload) = None" "\<not> blank (tq_identity payload)"
    and quiet: "undisturbed (te_lifecycle env)" "undisturbed checked" "undisturbed seen"
    and jwt: "signs (te_encode env) decode now"
    and time: "now < te_now env + cf_livekit_token_ttl_secs config" "te_now env \<le> now" "\<not> blank (tq_room payload)"
  shows "(let b = hm_get (sv_bindings s1) (tq_identity payload); header = bearer token in
      (case ensure_livekit_participant decode config (sv_bindings s2) header i of
         Inl e \<Rightarrow> e = UNAUTHORIZED
           \<and> (i \<noteq> tq_identity payload \<or> bound_auth (sv_bindings s2) i \<noteq> map_option pb_auth_id b)
       | Inr c \<Rightarrow> i = tq_identity payload \<and> bound_auth (sv_bindings s2) i = map_option pb_auth_id b
           \<and> lk_sub c = i \<and> vg_room (lk_video c) = tq_room payload)
    \<and> (bound_auth (sv_bindings s2) (tq_identity payload) = map_option pb_auth_id b \<and> bound_presence s2
       \<longrightarrow> (let s3 = presence_step (Beat decode config header payload now checked seen stamp) s2 in
           ensure_livekit_active_participant decode config (sv_participants s3) (sv_bindings s3) now header
             = Inr \<lparr>ap_identity = tq_identity payload, ap_name = or_default (tq_identity payload) (tq_name payload),
                 ap_room = tq_room payload, ap_participant_auth_id = the (map_option pb_auth_id b)\<rparr>)))"
proof -
  let ?i = "tq_identity payload"
  obtain b where b: "hm_get (sv_bindings s1) ?i = Some b"
    and enc: "te_encode env (cf_livekit_api_secret config) (token_claims env config payload (Some (pb_auth_id b))) = Some token"
    using issue_token_Inr [OF issued person(1) quiet(1)] by blast
  let ?c = "token_claims env config payload (Some (pb_auth_id b))"
  have lk: "ensure_livekit decode config (bearer token) = Inr ?c"
    using jwt enc time(1) unfolding signs_def
    by (simp add: ensure_livekit_def decode_livekit_token_def bearer_def strip_prefix_def)
  have route: "ensure_livekit_participant decode config bs (bearer token) i
      = (if i = ?i \<and> bound_auth bs i = Some (pb_auth_id b) then Inr ?c else Inl UNAUTHORIZED)" for bs i
    using person by (auto simp: ensure_livekit_participant_def lk ensure_current_participant_claims_def
        participant_claims_match_def bound_auth_def split: option.splits)
  have active: "ensure_livekit_active_participant decode config (sv_participants s3) (sv_bindings s3) now
        (bearer token)
      = Inr \<lparr>ap_identity = ?i, ap_name = or_default ?i (tq_name payload), ap_room = tq_room payload,
          ap_participant_auth_id = pb_auth_id b\<rparr>"
    if s3: "s3 = presence_step (Beat decode config (bearer token) payload now checked seen stamp) s2"
      and stands: "bound_auth (sv_bindings s2) ?i = Some (pb_auth_id b)" "bound_presence s2" for s3
  proof -
    let ?e = "heartbeat_entry ?i (tq_room payload) (or_default ?i (tq_name payload)) (tq_viewer_version payload) now
      (hm_get (sv_participants s2) ?i)"
    have maps: "sv_bindings s3 = sv_bindings s2" "hm_get (sv_participants s3) ?i = Some ?e"
      using stands quiet person unfolding s3 by (simp_all add: route participant_heartbeat_def Let_def hm_simps)
    have e: "pe_identity ?e = ?i" "pe_name ?e = or_default ?i (tq_name payload)" "pe_room_id ?e = tq_room payload"
      "pe_last_heartbeat_at ?e = Some now"
      using stands(2) unfolding bound_presence_def by (auto simp: heartbeat_entry_def split: option.split)
    obtain b2 where b2: "hm_get (sv_bindings s2) ?i = Some b2" "pb_auth_id b2 = pb_auth_id b"
      using stands(1) by (auto simp: bound_auth_def)
    have skew: "\<not> sat_add now 30 < te_now env" "\<not> te_now env + cf_livekit_token_ttl_secs config < te_now env"
      using time order_trans [OF time(2) le_sat_add] by (auto simp: not_less)
    show ?thesis
      using person time skew b2 e by (simp add: ensure_livekit_active_participant_def lk active_participant_from_maps_def
          maps participant_claims_match_def not_le sat_sub_def PARTICIPANT_ACTIVE_SECS_def)
  qed
  show ?thesis using b active person(1) by (auto simp: Let_def route)
qed

lemma demo_bound_presence: "bound_presence demo_bound"
  by (simp add: bound_presence_def demo_bound_def demo_present_def hm_get_def hm_ok_def) code_simp

section \<open>The cleanup\<close>

lemma remove_stale_removed:
  "remove_stale ids ps bs jam removed = (ps', jam', removed') \<Longrightarrow> distinct ids
   \<Longrightarrow> removed' = removed @ map (\<lambda>k. the (hm_get ps k)) (filter (\<lambda>k. cleanable bs jam k \<and> hm_get ps k \<noteq> None) ids)"
proof (induction ids arbitrary: ps jam removed)
  case (Cons i ids)
  show ?case
  proof (cases "cleanable bs jam i")
    case False
    then have "remove_stale ids ps bs jam removed = (ps', jam', removed')"
      using Cons.prems(1) by (auto simp: cleanable_def split: option.splits if_splits)
    from Cons.IH [OF this] Cons.prems(2) False show ?thesis by simp
  next
    case True
    then obtain b where b: "hm_get bs i = Some b" by (auto simp: cleanable_def split: option.splits)
    let ?jam = "revoke_one \<lparr>rb_identity = i, rb_auth_id = pb_auth_id b\<rparr> jam"
    let ?removed = "removed @ (case hm_get ps i of None \<Rightarrow> [] | Some e \<Rightarrow> [e])"
    have rest: "remove_stale ids (hm_remove i ps) bs ?jam ?removed = (ps', jam', removed')"
      using Cons.prems(1) True b by (auto simp: cleanable_def split: option.splits)
    have others: "filter (\<lambda>k. cleanable bs ?jam k \<and> hm_get (hm_remove i ps) k \<noteq> None) ids
        = filter (\<lambda>k. cleanable bs jam k \<and> hm_get ps k \<noteq> None) ids"
      "map (\<lambda>k. the (hm_get (hm_remove i ps) k)) (filter (\<lambda>k. cleanable bs jam k \<and> hm_get ps k \<noteq> None) ids)
        = map (\<lambda>k. the (hm_get ps k)) (filter (\<lambda>k. cleanable bs jam k \<and> hm_get ps k \<noteq> None) ids)"
      using Cons.prems(2) by (auto simp: hm_simps intro!: filter_cong map_cong)
    show ?thesis using Cons.IH [OF rest] Cons.prems(2) True by (simp only: others) (simp split: option.splits)
  qed
qed simp

text \<open>The cleanup removes exactly the bound participants who have been silent for twenty seconds and
  are not listening to the running Jam over a connection of their own; each is reported once; with each
  go its place among the listeners and its connection, as far as they belong to the same binding, and
  nobody else's; and the Jam is up for ending exactly if no listener is left.
\<close>

lemma cleanup_removes_exactly_the_silent:
  assumes "remove_stale_participants_exact ps bs jam now = (ps', jam', removed, generation)" "hm_ok ps"
  defines "gone \<equiv> \<lambda>k. (\<exists>e. hm_get ps k = Some e \<and> PARTICIPANT_ACTIVE_SECS \<le> sat_sub now (pe_last_seen e))
    \<and> (\<exists>b. hm_get bs k = Some b \<and> \<not> has_current_audio k (pb_auth_id b) jam)"
  shows "hm_get ps' k = (if gone k then None else hm_get ps k)
    \<and> hm_get (jam_listeners jam') k
        = (if gone k \<and> hm_get (jam_listeners jam) k = bound_auth bs k then None else hm_get (jam_listeners jam) k)
    \<and> hm_get (jam_audio_connections jam') k
        = (if gone k \<and> map_option ac_participant_auth_id (hm_get (jam_audio_connections jam) k) = bound_auth bs k
           then None else hm_get (jam_audio_connections jam) k)
    \<and> removed = map snd (filter (\<lambda>(k, _). gone k) ps)
    \<and> generation = (if jam_active jam \<and> jam_listeners jam' = [] then Some (jam_generation jam) else None)"
proof -
  let ?ids = "stale_identities now ps"
  have d: "distinct ?ids" by (rule stale_identities_distinct [OF assms(2)])
  obtain run: "remove_stale ?ids ps bs jam [] = (ps', jam', removed)" and gen: "generation = auto_end_generation jam'"
    using assms(1) by (auto simp: remove_stale_participants_exact_def split: prod.splits)
  have gone: "gone k \<longleftrightarrow> k \<in> set ?ids \<and> cleanable bs jam k" for k
    unfolding gone_def stale_identities_iff [OF assms(2)] cleanable_def by (auto split: option.splits)
  have present: "(k, e) \<in> set ps \<Longrightarrow> hm_get ps k = Some e" for k e by (simp add: hm_get_eq_Some [OF assms(2)])
  have "removed = map (\<lambda>k. the (hm_get ps k)) (filter (\<lambda>k. cleanable bs jam k \<and> hm_get ps k \<noteq> None) ?ids)"
    using remove_stale_removed [OF run d] by simp
  also have "\<dots> = map (\<lambda>k. the (hm_get ps k)) (filter gone (map fst ps))"
    unfolding stale_identities_def filter_map filter_filter map_map comp_def
    by (rule map_cong [OF filter_cong [OF refl]])
      (auto simp: gone_def cleanable_def PARTICIPANT_ACTIVE_SECS_def dest!: present split: option.splits)
  also have "\<dots> = map snd (filter (\<lambda>(k, _). gone k) ps)"
    unfolding filter_map map_map comp_def by (rule map_cong [OF filter_cong [OF refl]]) (auto dest: present)
  finally have "removed = map snd (filter (\<lambda>(k, _). gone k) ps)" .
  then show ?thesis using remove_stale_get [OF run d, of k] gen by (simp add: gone auto_end_generation_def)
qed

definition demo_silent :: "server" where
  "demo_silent = with_server_jam (\<lambda>jam. jam\<lparr>jam_listeners := [(''sam-1'', ''auth'')]\<rparr>) demo_bound"

section \<open>Ghosts\<close>

lemma cleanup_keeps_unbound_listener:
  assumes ok: "hm_ok (sv_participants s)" and unbound: "hm_get (sv_bindings s) i = None"
    and listens: "hm_get (jam_listeners (w_jam (sv_world s))) i = Some a"
  shows "hm_get (jam_listeners (w_jam (sv_world (cleanup_turn now (\<lambda>x. x) s)))) i = Some a
    \<and> w_commands (sv_world (cleanup_turn now (\<lambda>x. x) s)) = w_commands (sv_world s)
    \<and> sv_bindings (cleanup_turn now (\<lambda>x. x) s) = sv_bindings s
    \<and> hm_ok (sv_participants (cleanup_turn now (\<lambda>x. x) s))
    \<and> hm_get (sv_participants (cleanup_turn now (\<lambda>x. x) s)) i = hm_get (sv_participants s) i"
proof -
  let ?jam = "w_jam (sv_world s)"
  obtain ps' jam' removed where run: "remove_stale (stale_identities now (sv_participants s)) (sv_participants s)
      (sv_bindings s) ?jam [] = (ps', jam', removed)"
    by (cases "remove_stale (stale_identities now (sv_participants s)) (sv_participants s) (sv_bindings s) ?jam []")
  have world: "sv_world (log_removed now (\<lambda>x. x) xs t) = sv_world t" for xs t
    by (induction xs arbitrary: t) (auto simp: Let_def note_leave_def log_event_def)
  have "cleanable (sv_bindings s) ?jam i = False" using unbound by (simp add: cleanable_def)
  note got = remove_stale_get [OF run stale_identities_distinct [OF ok], of i, unfolded this]
  then have "jam_listeners jam' \<noteq> []" using listens by auto
  then have none: "auto_end_generation jam' = None" by (simp add: auto_end_generation_def)
  have quiet: "undisturbed (\<lambda>x. x)" by (simp add: undisturbed_def)
  show ?thesis
    using got listens ok quiet
    by (simp add: cleanup_turn_def remove_stale_participants_exact_def run none schedule_auto_end_def world
        with_server_jam_def with_world_def with_jam_def)
qed

lemma cleanups_keep_unbound_listener:
  "hm_ok (sv_participants s) \<Longrightarrow> hm_get (sv_bindings s) i = None
   \<Longrightarrow> hm_get (jam_listeners (w_jam (sv_world s))) i = Some a
   \<Longrightarrow> hm_get (jam_listeners (w_jam (sv_world (fold (\<lambda>t. cleanup_turn t (\<lambda>x. x)) ts s)))) i = Some a
     \<and> w_commands (sv_world (fold (\<lambda>t. cleanup_turn t (\<lambda>x. x)) ts s)) = w_commands (sv_world s)
     \<and> sv_bindings (fold (\<lambda>t. cleanup_turn t (\<lambda>x. x)) ts s) = sv_bindings s
     \<and> hm_get (sv_participants (fold (\<lambda>t. cleanup_turn t (\<lambda>x. x)) ts s)) i = hm_get (sv_participants s) i"
proof (induction ts arbitrary: s)
  case (Cons t ts)
  show ?case
    using cleanup_keeps_unbound_listener [OF Cons.prems, of t] Cons.IH [of "cleanup_turn t (\<lambda>x. x) s"] Cons.prems(2)
    by simp
qed simp

lemma join_listens:
  assumes "jam_join snap now admin_refused identity g (Inr (sub, auth_id)) w = (Inr (), w')"
  shows "hm_get (jam_listeners (w_jam w')) sub = auth_id \<and> auth_id \<noteq> None"
  using assms by (auto simp: jam_join_def checked_participant_def hm_simps
      split: option.splits if_splits sum.splits prod.splits)

text \<open>
  A join checks its token before it asks for the lock of the Jam's life. If a whole kick, with its
  reconciliation, fits in between, it still makes a listener of the identity; every later request in its
  name is refused, departure included, until it is bound anew, and no cleanup removes it.
\<close>

lemma late_join_survives_cleanups:
  assumes join: "server_jam_join decode config waiting snap now admin_refused token i g s = (Inr (), s1)"
    and kicked: "hm_get (sv_bindings (waiting s)) i = None" "hm_ok (sv_participants (waiting s))"
  shows "hm_get (jam_listeners (w_jam (sv_world (fold (\<lambda>t. cleanup_turn t (\<lambda>x. x)) ts s1)))) i \<noteq> None
    \<and> w_commands (sv_world (fold (\<lambda>t. cleanup_turn t (\<lambda>x. x)) ts s1)) = w_commands (sv_world s1)
    \<and> ensure_livekit_participant decode config (sv_bindings (fold (\<lambda>t. cleanup_turn t (\<lambda>x. x)) ts s1)) header i
        = Inl UNAUTHORIZED"
proof -
  obtain c where c: "ensure_jam_participant decode config (sv_bindings s) token (Some i) = Inr c"
    and w: "jam_join snap now admin_refused i g (Inr (lk_sub c, lk_echo_participant_auth_id c))
      (sv_world (waiting s)) = (Inr (), sv_world s1)"
    and s1: "sv_participants s1 = sv_participants (waiting s)" "sv_bindings s1 = sv_bindings (waiting s)"
  proof (cases "ensure_jam_participant decode config (sv_bindings s) token (Some i)")
    case (Inl e)
    then have False using join
      by (auto simp: server_jam_join_def participant_of_claims_def jam_join_def checked_participant_def Let_def
          split: prod.splits option.splits if_splits)
    then show ?thesis ..
  next
    case (Inr c)
    then show ?thesis using join that [of c]
      by (auto simp: server_jam_join_def participant_of_claims_def Let_def split: prod.splits)
  qed
  have "lk_sub c = i"
    using c by (auto simp: ensure_jam_participant_def ensure_current_participant_claims_def participant_claims_match_def
        split: option.splits sum.splits if_splits)
  then obtain a where a: "hm_get (jam_listeners (w_jam (sv_world s1))) i = Some a"
    using join_listens [OF w] by auto
  show ?thesis
    using cleanups_keep_unbound_listener [of s1 i a ts] a kicked s1
    by (auto simp: ensure_livekit_participant_def ensure_current_participant_claims_def ensure_livekit_def
        decode_livekit_token_def split: option.splits)
qed

text \<open>The kick of \<open>sam-1\<close> that overtakes its request to join the Jam of \<open>sam\<close>.\<close>

definition demo_kick :: others where
  "demo_kick s = snd (admin_kick_participant \<lparr>ke_main = Inr True, ke_main_others = id, ke_screen = Inr False,
     ke_screen_others = id, ke_between = id, ke_token_env = demo_issue_env\<rparr> None ''sam-1'' s)"

section \<open>What a kick ends\<close>

definition listens :: "string \<Rightarrow> string \<Rightarrow> jam_state \<Rightarrow> bool" where
  "listens i a jam \<longleftrightarrow> hm_get (jam_listeners jam) i = Some a
     \<or> map_option ac_participant_auth_id (hm_get (jam_audio_connections jam) i) = Some a"

text \<open>Under the lock of the Jam's life nobody joins.\<close>

definition admits_nobody :: "string \<Rightarrow> string \<Rightarrow> 'a await \<Rightarrow> bool" where
  "admits_nobody i a e \<longleftrightarrow> (\<forall>w. \<not> listens i a (w_jam w) \<longrightarrow> \<not> listens i a (w_jam (snd (e w))))"

lemma revoke_one_not_listening:
  "\<not> listens i a (revoke_one \<lparr>rb_identity = i, rb_auth_id = a\<rparr> jam)"
  by (auto simp: listens_def revoke_one_get)

lemma issue_jam [simp]: "w_jam (issue c w) = w_jam w"
  by (simp add: issue_def)

lemma end_not_listening:
  assumes "admits_nobody i a pause" "admits_nobody i a lock" "\<not> listens i a (w_jam w)"
  shows "\<not> listens i a (w_jam (snd (end_jam_generation_locked pause lock g cond final w)))"
proof -
  have "\<not> listens i a (w_jam (pause_bound_spotify_before_release pause d w))" for d
    using assms(1,3) by (simp add: pause_bound_spotify_before_release_def admits_nobody_def split: option.split)
  moreover have "\<not> listens i a ((clear_active_jam_state jam)\<lparr>jam_last_error := final\<rparr>)" for jam
    by (simp add: listens_def clear_active_jam_state_def hm_get_def)
  ultimately show ?thesis
    using assms(2,3) by (auto simp: end_jam_generation_locked_def Let_def admits_nobody_def with_jam_def split: option.split)
qed

lemma end_inactive:
  assumes "fenced pause" "fenced lock" "jam_active (w_jam w)"
  shows "\<not> jam_active (w_jam (snd (end_jam_generation_locked pause lock (jam_generation (w_jam w)) EndActive final w)))"
proof -
  let ?w = "pause_bound_spotify_before_release pause (bound_spotify_device (w_jam w) (jam_generation (w_jam w))) w"
  have life: "lifecycle (snd (e v)) = lifecycle v" if "fenced e" for e :: "unit await" and v
    using that by (simp add: fenced_def)
  have "lifecycle ?w = lifecycle w"
    using life [OF assms(1)] by (auto simp: pause_bound_spotify_before_release_def lifecycle_def split: option.split)
  then have "jam_end_condition_matches (w_jam ?w) (jam_generation (w_jam w)) EndActive"
    "jam_end_condition_matches (w_jam w) (jam_generation (w_jam w)) EndActive"
    using assms(3) by (simp_all add: lifecycle_def jam_end_condition_matches_def active_generation_matches_def)
  then show ?thesis
    using life [OF assms(2)]
    by (auto simp: end_jam_generation_locked_def Let_def with_jam_def lifecycle_def clear_active_jam_state_def split: option.split)
qed


text \<open>The join of \<open>sam-1\<close> passed its check before the kick and gets the lock before the kick does.\<close>

definition demo_join :: "server \<Rightarrow> (status + unit) \<times> server" where
  "demo_join s = server_jam_join demo_decode demo_auth (\<lambda>_. s) (answer (demo_snapshot 1)) 0 None (Some ''signed'') ''sam-1'' 1 demo_bound"

definition demo_kick_env :: kick_env where
  "demo_kick_env = \<lparr>ke_main = Inr True, ke_main_others = id, ke_screen = Inr False, ke_screen_others = id, ke_between = id,
     ke_token_env = demo_issue_env\<lparr>te_lifecycle := snd \<circ> demo_join\<rparr>\<rparr>"


end
