(* ===== verification/LoginProperties.thy ===== *)
theory LoginProperties
  imports RoomApi
begin

text \<open>
  How many passwords an address may try: five from its first failure on, so at most nine within any
  fifteen minutes when its logins run one after the other, and five more for each correct one, which
  clears its failures.
\<close>

fun login_run ::
  "(string \<Rightarrow> string \<Rightarrow> bool option) \<Rightarrow> admin_encode \<Rightarrow> auth_config \<Rightarrow> u64
   \<Rightarrow> ('ip \<times> string \<times> instant) list \<Rightarrow> 'ip login_attempts \<Rightarrow> ('ip \<times> (status + login_response)) list" where
  "login_run verify encode config now [] attempts = []"
| "login_run verify encode config now ((ip, password, t) # requests) attempts =
     (case login verify encode config ip password t t now id attempts of
        (r, attempts1) \<Rightarrow> (ip, r) # login_run verify encode config now requests attempts1)"

definition guesses :: "'ip \<Rightarrow> ('ip \<times> (status + login_response)) list \<Rightarrow> nat" where
  "guesses ip answers = length (filter (\<lambda>(i, r). i = ip \<and> r = Inl UNAUTHORIZED) answers)"

text \<open>The logins of an address whose password was judged to be right.\<close>

definition right_passwords :: "'ip \<Rightarrow> ('ip \<times> (status + login_response)) list \<Rightarrow> nat" where
  "right_passwords ip answers =
     length (filter (\<lambda>(i, r). i = ip \<and> r \<noteq> Inl UNAUTHORIZED \<and> r \<noteq> Inl TOO_MANY_REQUESTS) answers)"

text \<open>The attempts of an address after the entries older than fifteen minutes are dropped.\<close>

definition recent :: "instant \<Rightarrow> (u32 \<times> instant) option \<Rightarrow> (u32 \<times> instant) option" where
  "recent t a = filter_option (\<lambda>(_, first). elapsed t first < LOGIN_WINDOW) a"

lemma hm_get_recent:
  "hm_ok attempts \<Longrightarrow> hm_get (filter (\<lambda>(_, _, first). elapsed t first < LOGIN_WINDOW) attempts) ip
     = recent t (hm_get attempts ip)"
  using hm_get_filter [of attempts "\<lambda>_ (_, first). elapsed t first < LOGIN_WINDOW" ip]
  by (simp add: recent_def filter_option_def case_prod_unfold split: option.splits)

lemma login_attempts_of:
  assumes "hm_ok attempts" "login verify encode config ip password t t now id attempts = (r, attempts1)"
  shows "hm_ok attempts1 \<and> (i \<noteq> ip \<longrightarrow> hm_get attempts1 i = recent t (hm_get attempts i))
    \<and> (case recent t (hm_get attempts ip) of
         Some (n, first) \<Rightarrow>
           if 5 \<le> n then r = Inl TOO_MANY_REQUESTS \<and> hm_get attempts1 ip = Some (n, first)
           else if verify_password verify config password
           then r \<noteq> Inl UNAUTHORIZED \<and> r \<noteq> Inl TOO_MANY_REQUESTS \<and> hm_get attempts1 ip = None
           else r = Inl UNAUTHORIZED \<and> hm_get attempts1 ip = Some (n + 1, first)
       | None \<Rightarrow>
           if verify_password verify config password
           then r \<noteq> Inl UNAUTHORIZED \<and> r \<noteq> Inl TOO_MANY_REQUESTS \<and> hm_get attempts1 ip = None
           else r = Inl UNAUTHORIZED \<and> hm_get attempts1 ip = Some (1, t))"
proof -
  let ?kept = "filter (\<lambda>(_, _, first). elapsed t first < LOGIN_WINDOW) attempts"
  have ok: "hm_ok ?kept" using assms(1) by (rule hm_ok_filter)
  have get: "hm_get ?kept j = recent t (hm_get attempts j)" for j by (rule hm_get_recent [OF assms(1)])
  have fresh: "recent t (hm_get attempts ip) = Some (n, first) \<Longrightarrow> elapsed t first < LOGIN_WINDOW" for n first
    by (auto simp: recent_def filter_option_def split: option.splits if_splits)
  show ?thesis
    using assms(2) ok get fresh unfolding login_def login_admitted_def Let_def
    by (auto simp: login_failed_def hm_simps or_default_def split: option.splits if_splits prod.splits bool.splits)
qed

text \<open>
  The attempts left to an address whose entry is \<open>a\<close>, for logins before \<open>deadline\<close>: what its entry
  leaves, and five more if the entry expires before then.
\<close>

definition attempts_left :: "instant \<Rightarrow> (u32 \<times> instant) option \<Rightarrow> nat" where
  "attempts_left deadline a = (case a of None \<Rightarrow> 5
     | Some (n, first) \<Rightarrow> (5 - unat n) + (if first + LOGIN_WINDOW < deadline then 5 else 0))"

lemma attempts_left_recent:
  "t < deadline \<Longrightarrow> attempts_left deadline (recent t a) \<le> attempts_left deadline a"
  by (auto simp: attempts_left_def recent_def filter_option_def elapsed_def LOGIN_WINDOW_def split: option.splits)

lemma guesses_left:
  assumes "hm_ok attempts" "sorted (map (snd \<circ> snd) requests)"
    "\<forall>(i, password, t) \<in> set requests. start \<le> t \<and> t < deadline" "deadline \<le> start + LOGIN_WINDOW"
  shows "guesses ip (login_run verify encode config now requests attempts)
    \<le> attempts_left deadline (hm_get attempts ip)
      + 5 * right_passwords ip (login_run verify encode config now requests attempts)"
  using assms(1-3)
proof (induction requests arbitrary: attempts)
  case Nil
  then show ?case by (simp add: guesses_def)
next
  case (Cons request requests)
  obtain i password t where request: "request = (i, password, t)" by (cases request)
  obtain r attempts1 where login: "login verify encode config i password t t now id attempts = (r, attempts1)"
    by fastforce
  note step = login_attempts_of [OF Cons.prems(1) login, of ip]
  let ?run = "login_run verify encode config now requests attempts1"
  have rest: "guesses ip ?run \<le> attempts_left deadline (hm_get attempts1 ip) + 5 * right_passwords ip ?run"
    using Cons step by (simp add: request)
  have t: "start \<le> t" "t < deadline" using Cons.prems(3) by (auto simp: request)
  have run: "guesses ip (login_run verify encode config now (request # requests) attempts)
      = (if i = ip \<and> r = Inl UNAUTHORIZED then 1 else 0) + guesses ip ?run"
    "right_passwords ip (login_run verify encode config now (request # requests) attempts)
      = (if i = ip \<and> r \<noteq> Inl UNAUTHORIZED \<and> r \<noteq> Inl TOO_MANY_REQUESTS then 1 else 0) + right_passwords ip ?run"
    by (simp_all add: request login guesses_def right_passwords_def)
  note recent = attempts_left_recent [OF t(2), of "hm_get attempts ip"]
  have cleared: "attempts_left deadline None = 5" by (simp add: attempts_left_def)
  show ?case
  proof (cases "i = ip")
    case False
    then show ?thesis using step rest recent run by simp
  next
    case ip: True
    show ?thesis
    proof (cases "recent t (hm_get attempts ip)")
      case None
      have "attempts_left deadline (Some (1, t)) = 4" using t assms(4) by (simp add: attempts_left_def)
      then show ?thesis using step ip None rest recent run cleared
        by (cases "verify_password verify config password") auto
    next
      case (Some a)
      obtain n first where a: "a = (n, first)" by (cases a)
      have one_less: "attempts_left deadline (Some (n + 1, first)) + 1 = attempts_left deadline (Some (n, first))"
        if "\<not> 5 \<le> n"
      proof -
        have "unat n < 5" "unat (n + 1) = unat n + 1"
          using that by (simp_all add: not_le word_less_nat_alt unat_word_ariths)
        then show ?thesis by (simp add: attempts_left_def)
      qed
      show ?thesis using step ip Some a rest recent run cleared one_less
        by (cases "5 \<le> n"; cases "verify_password verify config password") auto
    qed
  qed
qed

text \<open>
  C30: Whatever the addresses do and whatever passwords they try: of an address whose logins run one after
  the other, at most five wrong passwords are judged within fifteen minutes when it had no failures
  before, and at most nine when earlier ones are remembered (four left of them and five anew); each
  right password of that address clears its failures, and allows five more.
\<close>

theorem password_guesses_are_bounded:
  assumes "hm_ok attempts" "sorted (map (snd \<circ> snd) requests)"
    "\<forall>(i, password, t) \<in> set requests. start \<le> t \<and> t < start + LOGIN_WINDOW"
    "\<forall>(n, first) \<in> set_option (hm_get attempts ip). 0 < n"
    "answers = login_run verify encode config now requests attempts"
  shows "guesses ip answers \<le> (if hm_get attempts ip = None then 5 else 9) + 5 * right_passwords ip answers"
proof -
  have "attempts_left (start + LOGIN_WINDOW) (hm_get attempts ip) \<le> (if hm_get attempts ip = None then 5 else 9)"
    using assms(4) by (auto simp: attempts_left_def word_less_nat_alt split: option.splits)
  then show ?thesis
    using guesses_left [OF assms(1-3) order_refl, of ip verify encode config now] unfolding assms(5) by linarith
qed

text \<open>Four wrong passwords, the right one, six wrong ones, at once one after the other.\<close>

definition demo_admin :: auth_config where
  "demo_admin = \<lparr>cf_admin_password_hash = None, cf_admin_password = Some ''good'', cf_admin_jwt_secret = [],
     cf_admin_token_ttl_secs = 0, cf_livekit_api_key = [], cf_livekit_api_secret = [], cf_livekit_token_ttl_secs = 0\<rparr>"

definition demo_logins :: "(unit \<times> string \<times> instant) list" where
  "demo_logins = replicate 4 ((), ''bad'', 3) @ [((), ''good'', 3)] @ replicate 6 ((), ''bad'', 3)"

theorem password_guesses_are_bounded_witness:
  "guesses () (login_run (\<lambda>_ _. None) (\<lambda>_ _. None) demo_admin 0 demo_logins [])
      \<le> 5 + 5 * right_passwords () (login_run (\<lambda>_ _. None) (\<lambda>_ _. None) demo_admin 0 demo_logins [])"
  using password_guesses_are_bounded [OF _ _ _ _ refl, where start = 3 and attempts = "[]" and requests = demo_logins and ip = "()"]
  by (simp add: demo_logins_def LOGIN_WINDOW_def sorted_append)

text \<open>
  The check and the count are two critical sections, so logins that run at once are all judged: \<open>n\<close> of
  them that were admitted before the first failed raise the count by \<open>n\<close>, past five.
\<close>

lemma concurrent_guesses_are_all_judged:
  assumes "\<not> verify_password verify config password"
    and "login_admitted ip t attempts = (True, attempts1)" "hm_get (others attempts1) ip = Some (count, first)"
  shows "fst (login verify encode config ip password t failed now others attempts) = Inl UNAUTHORIZED
    \<and> hm_get (snd (login verify encode config ip password t failed now others attempts)) ip = Some (count + 1, first)"
  using assms by (simp add: login_def login_failed_def or_default_def hm_simps)

end
