(* ===== verification/JamSkip.thy ===== *)
theory JamSkip
  imports JamRefresh JamQueueApi
begin

text \<open>
  The request to skip the current track (\<open>jam_skip\<close> in \<open>jam_session.rs\<close>). Spotify's next cannot be
  asked for twice by mistake: what was playing is established first, under a guard; then one request
  is sent; and when its acceptance is ambiguous a boundary is kept, which blocks further skips until
  an observation of the player settles it.
\<close>

section \<open>The surroundings of a skip\<close>

text \<open>
  \<open>sk_locks\<close> is the wait for the locks of the queue, the refresh and the Jam's life; \<open>sk_bind\<close> and
  \<open>sk_queue\<close> are the awaits of the preflight and \<open>sk_next\<close> that of the skip, each of which the guard
  around it may interrupt. \<open>sk_retry\<close> is the rate limit when the request failed.
\<close>

record skip_env =
  sk_locks :: "unit await"
  sk_snap :: "jam_source_snapshot await"
  sk_bind :: "(api_error + spotify_bound_playback) select_outcome await"
  sk_queue :: "(api_error + http_response) select_outcome await"
  sk_pre_snap :: "jam_source_snapshot await"
  sk_pre_pause :: "unit await"
  sk_append :: "queued_track \<Rightarrow> bool await"
  sk_next :: "(api_error + http_response) select_outcome await"
  sk_next_snap :: "jam_source_snapshot await"
  sk_next_pause :: "unit await"
  sk_pause :: "unit await"
  sk_now :: instant
  sk_retry :: "string option"
  sk_status_text :: "status \<Rightarrow> string"
  sk_pump :: "pump_env list"

section \<open>The mutation\<close>

record skip_mutation_error =
  sm_status :: status
  sm_message :: string
  sm_acceptance_ambiguous :: bool

definition skip_mutation_request_error :: "status \<Rightarrow> string \<Rightarrow> skip_mutation_error" where
  "skip_mutation_request_error s message =
     \<lparr>sm_status = s, sm_message = message, sm_acceptance_ambiguous = (s = BAD_GATEWAY)\<rparr>"

definition spotify_skip_mutation_response_error ::
  "(status \<Rightarrow> string) \<Rightarrow> http_response \<Rightarrow> skip_mutation_error" where
  "spotify_skip_mutation_response_error show_status resp =
     (case spotify_response_error show_status resp ''Skip Spotify track'' of
        (s, message) \<Rightarrow> \<lparr>sm_status = s, sm_message = message,
          sm_acceptance_ambiguous = spotify_mutation_response_is_ambiguous (http_status resp)\<rparr>)"

definition ambiguous_skip_error :: "status \<Rightarrow> string \<Rightarrow> skip_mutation_error" where
  "ambiguous_skip_error s message = \<lparr>sm_status = s, sm_message = message, sm_acceptance_ambiguous = True\<rparr>"

definition run_guarded_spotify_skip_mutation ::
  "(skip_mutation_error + 'r) guard_env \<Rightarrow> u64 \<Rightarrow> spotify_device \<Rightarrow> world
   \<Rightarrow> (skip_mutation_error + 'r) \<times> world" where
  "run_guarded_spotify_skip_mutation env generation device w =
     (let settle = (\<lambda>r w. (r, case r of
            Inl e \<Rightarrow> if sm_acceptance_ambiguous e
              then pause_and_mark_spotify_safety_stop (ge_pause env) (ge_now env) generation device
                     (sm_message e) w
              else w
          | Inr _ \<Rightarrow> w));
          (outcome, w1) = ge_op env w
      in case outcome of
           OpDeadline \<Rightarrow> settle (Inl (ambiguous_skip_error SERVICE_UNAVAILABLE
             (deadline_message ''Skipping a Spotify track''))) w1
         | ControlsLost s m \<Rightarrow> settle (Inl (ambiguous_skip_error s m)) w1
         | OpFinished result \<Rightarrow>
             if (case result of Inl e \<Rightarrow> \<not> sm_acceptance_ambiguous e | Inr _ \<Rightarrow> False)
             then (result, w1)
             else
              (case ensure_jam_recovery_controls_ready (ge_snap env) w1 of
                 (Inr current, w2) \<Rightarrow>
                   if current = generation then settle result w2
                   else settle (Inl (ambiguous_skip_error CONFLICT
                          ''Jam generation changed during Spotify Skip'')) w2
               | (Inl (s, m), w2) \<Rightarrow> settle (Inl (ambiguous_skip_error s m)) w2))"

section \<open>What was playing\<close>

definition playback_changed_error :: api_error where
  "playback_changed_error = (CONFLICT, ''Spotify playback changed while resolving the queued occurrence'')"

definition jam_changed_error :: api_error where
  "jam_changed_error = (CONFLICT, ''Jam changed while resolving the queued occurrence'')"

definition skip_target_error :: "string \<Rightarrow> same_uri_skip_observation_error \<Rightarrow> api_error" where
  "skip_target_error target e =
     (case e of PlaybackChanged \<Rightarrow> playback_changed_error
      | TargetCommitUnknown \<Rightarrow> (CONFLICT,
          ''Echo cannot safely Skip because Spotify acceptance of this '' @ target @ '' is unknown''))"

type_synonym skip_observation = "spotify_bound_playback \<times> string option \<times> pre_skip_same_uri_resolution"

text \<open>The last check of the preflight, with nothing awaited since the resolution.\<close>

definition check_skip_target ::
  "u64 \<Rightarrow> spotify_device \<Rightarrow> spotify_bound_playback \<Rightarrow> string option \<Rightarrow> pre_skip_same_uri_resolution
   \<Rightarrow> world \<Rightarrow> (api_error + skip_observation) select_outcome \<times> world" where
  "check_skip_target generation device playback previous_uri resolution w =
     (OpFinished
       (case bp_current_uri playback of None \<Rightarrow> Inl playback_changed_error
        | Some current_uri \<Rightarrow>
            if \<not> bound_now (w_jam w) generation device then Inl jam_changed_error
            else case reject_commit_unknown_pre_skip_target (jam_queue (w_jam w)) current_uri previous_uri
                        resolution of
              Inl e \<Rightarrow> Inl (skip_target_error ''queue entry'' e)
            | Inr _ \<Rightarrow> Inr (playback, previous_uri, resolution)), w)"

definition resolve_skip_occurrence ::
  "skip_env \<Rightarrow> u64 \<Rightarrow> spotify_device \<Rightarrow> spotify_bound_playback \<Rightarrow> string \<Rightarrow> string option
   \<Rightarrow> world \<Rightarrow> (api_error + skip_observation) select_outcome \<times> world" where
  "resolve_skip_occurrence env generation device playback current_uri previous_uri w =
     (case sk_queue env w of
        (OpDeadline, w1) \<Rightarrow> (OpDeadline, w1)
      | (ControlsLost s m, w1) \<Rightarrow> (ControlsLost s m, w1)
      | (OpFinished answer, w1) \<Rightarrow>
         (case spotify_queue_observation_strict (sk_status_text env) answer of
            Inl e \<Rightarrow> (OpFinished (Inl e), w1)
          | Inr obs \<Rightarrow>
              if \<not> bound_now (w_jam w1) generation device then (OpFinished (Inl jam_changed_error), w1)
              else case resolve_same_uri_skip_observation (jam_queue (w_jam w1)) obs current_uri previous_uri of
                Inl e \<Rightarrow> (OpFinished (Inl (skip_target_error ''same-song queue entry'' e)), w1)
              | Inr resolution \<Rightarrow> check_skip_target generation device playback previous_uri resolution w1))"

definition skip_preflight ::
  "skip_env \<Rightarrow> u64 \<Rightarrow> spotify_device \<Rightarrow> world \<Rightarrow> (api_error + skip_observation) select_outcome \<times> world" where
  "skip_preflight env generation device w =
     (case sk_bind env (issue (TransferPlayback (dev_id device)) w) of
        (OpDeadline, w1) \<Rightarrow> (OpDeadline, w1)
      | (ControlsLost s m, w1) \<Rightarrow> (ControlsLost s m, w1)
      | (OpFinished (Inl e), w1) \<Rightarrow> (OpFinished (Inl e), w1)
      | (OpFinished (Inr playback), w1) \<Rightarrow>
         (case bp_current_uri playback of
            None \<Rightarrow> (OpFinished (Inl (CONFLICT, ''Spotify has no current track to skip'')), w1)
          | Some current_uri \<Rightarrow>
              if \<not> bound_now (w_jam w1) generation device
              then (OpFinished (Inl (CONFLICT, ''Jam changed while preparing to skip the Spotify track'')), w1)
              else
                let previous_uri = map_option np_spotify_uri (jam_now_playing (w_jam w1)) in
                if same_uri_skip_observation_required (jam_queue (w_jam w1)) (Some current_uri) previous_uri
                then resolve_skip_occurrence env generation device playback current_uri previous_uri w1
                else check_skip_target generation device playback previous_uri NotNeeded w1))"

section \<open>The request\<close>

definition pre_skip_history :: "jam_state \<Rightarrow> skip_observation \<Rightarrow> history_observation option" where
  "pre_skip_history jam seen =
     (case seen of (playback, previous_uri, resolution) \<Rightarrow>
        new_history_observation (jam_last_history_spotify_id jam) (jam_last_history_was_echo jam)
          (Option.bind (bp_current_uri playback) spotify_track_id_from_uri)
          (authoritative_pre_skip_echo_track (jam_queue jam) (bp_current_uri playback) previous_uri resolution)
          (bp_is_playing playback) (resolution = AwaitingIsCurrent))"

definition note_pre_skip_history :: "skip_env \<Rightarrow> u64 \<Rightarrow> skip_observation \<Rightarrow> world \<Rightarrow> world" where
  "note_pre_skip_history env generation seen w =
     (case pre_skip_history (w_jam w) seen of None \<Rightarrow> w
      | Some observation \<Rightarrow> persist_jam_history_observation (sk_append env) generation observation w)"

definition send_skip ::
  "skip_env \<Rightarrow> world \<Rightarrow> (skip_mutation_error + unit) select_outcome \<times> world" where
  "send_skip env w =
     (case sk_next env w of
        (OpDeadline, w1) \<Rightarrow> (OpDeadline, w1)
      | (ControlsLost s m, w1) \<Rightarrow> (ControlsLost s m, w1)
      | (OpFinished (Inl (s, message)), w1) \<Rightarrow> (OpFinished (Inl (skip_mutation_request_error s message)), w1)
      | (OpFinished (Inr resp), w1) \<Rightarrow>
          (OpFinished (if \<not> is_success (http_status resp)
             then Inl (spotify_skip_mutation_response_error (sk_status_text env) resp) else Inr ()), w1))"

definition keep_skip_boundary ::
  "u64 \<Rightarrow> spotify_device \<Rightarrow> skip_observation \<Rightarrow> string \<Rightarrow> jam_state \<Rightarrow> jam_state" where
  "keep_skip_boundary generation device seen message jam =
     (case seen of (playback, previous_uri, resolution) \<Rightarrow>
        if \<not> bound_now jam generation device then jam
        else jam\<lparr>jam_uncertain_skip := Some \<lparr>us_pre_skip_current_uri = or_default [] (bp_current_uri playback),
               us_previous_uri = previous_uri, us_same_uri_resolution = resolution\<rparr>,
             jam_last_error := Some message\<rparr>)"

definition apply_skip ::
  "spotify_device \<Rightarrow> skip_observation \<Rightarrow> instant \<Rightarrow> jam_state \<Rightarrow> jam_state" where
  "apply_skip device seen now jam =
     (case seen of (playback, previous_uri, resolution) \<Rightarrow>
       (case apply_successful_skip_to_queue (jam_queue jam) (bp_current_uri playback) previous_uri resolution of
          (queue, transition) \<Rightarrow>
            let jam1 = jam\<lparr>jam_queue := queue\<rparr>;
                jam2 = (if transition_changed transition then bump_queue_revision jam1 else jam1);
                stopped = queue_control_stopped_after_skip (bp_is_playing playback)
            in jam2\<lparr>jam_spotify_device_name := Some (dev_name device),
                 jam_spotify_is_playing := bp_is_playing playback,
                 jam_audio_expected_since := (if bp_is_playing playback then Some now else None),
                 jam_last_error := None, jam_queue_control_epoch := jam_queue_control_epoch jam2 + 1,
                 jam_queue_control_stopped := stopped,
                 jam_queue_stop_epoch := (if stopped then jam_queue_stop_epoch jam2 + 1
                   else jam_queue_stop_epoch jam2),
                 jam_now_playing := None\<rparr>))"

text \<open>With what was playing established: history, the one request, and what its answer means.\<close>

definition perform_skip ::
  "skip_env \<Rightarrow> u64 \<Rightarrow> spotify_device \<Rightarrow> skip_observation \<Rightarrow> world \<Rightarrow> (jam_api_error + u64) \<times> world" where
  "perform_skip env generation device seen w =
     (let w1 = note_pre_skip_history env generation seen w;
          guard = \<lparr>ge_op = send_skip env, ge_snap = sk_next_snap env, ge_pause = sk_next_pause env,
            ge_now = sk_now env\<rparr>
      in case run_guarded_spotify_skip_mutation guard generation device
                (issue (SkipNext (dev_id device)) w1) of
           (Inl e, w2) \<Rightarrow>
             if sm_acceptance_ambiguous e
             then (Inl (spotify_queue_error (sk_retry env) (sm_status e) ''spotify_skip_unknown'' (sm_message e)),
                   with_jam w2 (keep_skip_boundary generation device seen (sm_message e)))
             else (Inl (spotify_queue_error (sk_retry env) (sm_status e) ''spotify_skip_failed'' (sm_message e)), w2)
         | (Inr _, w2) \<Rightarrow>
             if \<not> bound_now (w_jam w2) generation device
             then (Inl (queue_error CONFLICT ''generation_changed'' ''Jam changed while skipping the Spotify track''),
                   pause_and_mark_spotify_safety_stop (sk_pause env) (sk_now env) generation device
                     ''Jam changed while skipping the Spotify track'' w2)
             else
               let w3 = with_jam w2 (apply_skip device seen (sk_now env))
               in (Inr (jam_queue_control_epoch (w_jam w3)), w3))"

definition skip_locked :: "skip_env \<Rightarrow> u64 \<Rightarrow> world \<Rightarrow> (jam_api_error + u64) \<times> world" where
  "skip_locked env requested w =
     (case ensure_jam_recovery_controls_ready (sk_snap env) w of
        (Inl (s, message), w1) \<Rightarrow> (Inl (spotify_queue_error (sk_retry env) s ''jam_unavailable'' message), w1)
      | (Inr generation, w1) \<Rightarrow>
          if generation \<noteq> requested
          then (Inl (queue_error CONFLICT ''generation_changed'' ''Jam generation changed''), w1)
          else if jam_uncertain_skip (w_jam w1) \<noteq> None
          then (Inl (queue_error CONFLICT ''skip_reconciliation_required''
                  ''Echo is reconciling the previous Spotify Skip; wait for fresh playback state''), w1)
          else case bound_spotify_device (w_jam w1) generation of
            None \<Rightarrow> (Inl (queue_error SERVICE_UNAVAILABLE ''spotify_device_unavailable''
                      ''The active Jam has no bound Spotify device''), w1)
          | Some device \<Rightarrow>
             (case run_guarded_spotify_recovery_operation
                     \<lparr>ge_op = skip_preflight env generation device, ge_snap = sk_pre_snap env,
                      ge_pause = sk_pre_pause env, ge_now = sk_now env\<rparr>
                     generation device ''Skipping a Spotify track'' w1 of
                (Inl (s, message), w2) \<Rightarrow>
                  (Inl (spotify_queue_error (sk_retry env) s ''spotify_skip_failed'' message), w2)
              | (Inr seen, w2) \<Rightarrow> perform_skip env generation device seen w2))"

definition jam_skip ::
  "skip_env \<Rightarrow> status option \<Rightarrow> status option \<Rightarrow> u64 \<Rightarrow> world \<Rightarrow> (jam_api_error + unit) \<times> world" where
  "jam_skip env admin_refused participant_refused generation w =
     (case admin_refused of
        Some s \<Rightarrow> (Inl (queue_error s ''unauthorized'' ''Authentication required''), w)
      | None \<Rightarrow>
     (case participant_refused of
        Some s \<Rightarrow> (Inl (queue_error s ''participant_required''
                     ''A current Echo participant token is required''), w)
      | None \<Rightarrow>
     (case skip_locked env generation (snd (sk_locks env w)) of
        (Inl e, w1) \<Rightarrow> (Inl e, w1)
      | (Inr epoch, w1) \<Rightarrow>
          (Inr (), snd (pump_queue_frontier_locked (sk_pump env) generation epoch False w1)))))"

end
