(* ===== verification/SkipProperties.thy ===== *)
theory SkipProperties
  imports JamSkip LifecycleProperties
begin

text \<open>
  Skips: the queue's invariant through everything a skip does, and that a skip whose acceptance is
  ambiguous is never repeated.
\<close>

section \<open>The queue\<close>

definition relied_skip :: "u64 \<Rightarrow> skip_env \<Rightarrow> bool" where
  "relied_skip g env \<longleftrightarrow> relied g (sk_locks env) \<and> relied g (sk_snap env) \<and> relied g (sk_bind env)
     \<and> relied g (sk_queue env) \<and> relied g (sk_pre_snap env) \<and> relied g (sk_pre_pause env)
     \<and> (\<forall>t. relied g (sk_append env t)) \<and> relied g (sk_next env) \<and> relied g (sk_next_snap env)
     \<and> relied g (sk_next_pause env) \<and> relied g (sk_pause env) \<and> list_all (relied_pump g) (sk_pump env)"

lemma rely_skip_mutation:
  assumes env: "relied_guard g env" and run: "run_guarded_spotify_skip_mutation env g' device w = (r, w')"
  shows "rely g w w'"
proof -
  obtain out w1 where op: "ge_op env w = (out, w1)" by fastforce
  note r1 = rely_op [OF env op]
  obtain ready w2 where ready: "ensure_jam_recovery_controls_ready (ge_snap env) w1 = (ready, w2)"
    by fastforce
  have r2: "rely g w w2"
    using rely_trans [OF r1 rely_ready [OF _ ready]] env by (simp add: relied_guard_def)
  have stop: "rely g w v \<Longrightarrow> rely g w
      (pause_and_mark_spotify_safety_stop (ge_pause env) (ge_now env) g' device e v)" for v e
    using env rely_safety_stop rely_trans unfolding relied_guard_def by blast
  from run show ?thesis
    unfolding run_guarded_spotify_skip_mutation_def Let_def op prod.case ready
    using r1 r2 by (auto split: select_outcome.splits sum.splits if_splits intro: stop)
qed

lemma check_skip_target_world [simp]: "snd (check_skip_target g device playback p r w) = w"
  by (simp add: check_skip_target_def)

lemma skip_preflight_world:
  "snd (skip_preflight env g device w) = (let w1 = snd (sk_bind env (issue (TransferPlayback (dev_id device)) w)) in w1)
   \<or> snd (skip_preflight env g device w)
       = snd (sk_queue env (snd (sk_bind env (issue (TransferPlayback (dev_id device)) w))))"
proof -
  obtain out w1 where bind: "sk_bind env (issue (TransferPlayback (dev_id device)) w) = (out, w1)" by fastforce
  obtain out2 w2 where queue: "sk_queue env w1 = (out2, w2)" by fastforce
  show ?thesis
    unfolding skip_preflight_def bind resolve_skip_occurrence_def Let_def
    by (auto simp: queue split: select_outcome.splits sum.splits option.splits)
qed

lemma rely_preflight:
  assumes "relied_skip g env"
  shows "relied g (skip_preflight env g' device)"
  unfolding relied_def
proof
  fix w
  have "relied g (sk_bind env)" "relied g (sk_queue env)" using assms by (simp_all add: relied_skip_def)
  then have "rely g w (snd (sk_bind env (issue (TransferPlayback (dev_id device)) w)))"
    "rely g w (snd (sk_queue env (snd (sk_bind env (issue (TransferPlayback (dev_id device)) w)))))"
    by (blast intro: rely_trans [OF rely_issue] rely_trans relied_step)+
  then show "rely g w (snd (skip_preflight env g' device w))"
    using skip_preflight_world [of env g' device w] by (auto simp: Let_def)
qed

lemma send_skip_world: "snd (send_skip env w) = snd (sk_next env w)"
  unfolding send_skip_def by (cases "sk_next env w") (auto split: select_outcome.split sum.split)

lemma rely_history:
  assumes "relied_skip g env"
  shows "rely g w (note_pre_skip_history env g' seen w)"
proof -
  have same: "rely g v (with_jam v (record_run g' observation))" for v observation
    by (rule rely_same) (simp add: same_queue_def record_run_def)
  show ?thesis
  proof (cases "pre_skip_history (w_jam w) seen")
    case None
    then show ?thesis by (simp add: note_pre_skip_history_def rely_same same_queue_def)
  next
    case (Some observation)
    show ?thesis
    proof (cases "ho_queued_track observation")
      case None
      then show ?thesis using Some same
        by (simp add: note_pre_skip_history_def persist_jam_history_observation_def)
    next
      case (Some track)
      have "rely g w (snd (sk_append env track w))"
        using assms relied_step [of g "sk_append env track" w] by (simp add: relied_skip_def)
      then show ?thesis using \<open>pre_skip_history (w_jam w) seen = Some observation\<close> Some same rely_trans
        by (cases "sk_append env track w")
          (auto simp: note_pre_skip_history_def persist_jam_history_observation_def split: bool.split)
    qed
  qed
qed

lemma apply_skip_rely: "rely g w (with_jam w (apply_skip device seen now))"
proof -
  obtain playback previous resolution where seen: "seen = (playback, previous, resolution)" by (cases seen)
  obtain q t where q: "apply_successful_skip_to_queue (jam_queue (w_jam w)) (bp_current_uri playback) previous resolution
    = (q, t)" by fastforce
  have "jam_queue_ok (w_jam w) \<Longrightarrow> advances (jam_queue (w_jam w)) q"
    using skip_advances [of "jam_queue (w_jam w)" "bp_current_uri playback" previous resolution] q
    by (simp add: jam_queue_ok_def)
  moreover have "jam_queue (apply_skip device seen now (w_jam w)) = q"
    "same_jam (w_jam w) (apply_skip device seen now (w_jam w))"
    by (simp_all add: apply_skip_def seen q Let_def same_jam_def bump_queue_revision_def)
  ultimately show ?thesis using rely_observation by metis
qed

lemma keep_boundary_rely: "rely g w (with_jam w (keep_skip_boundary g' device seen m))"
  by (rule rely_same) (simp add: same_queue_def keep_skip_boundary_def split: prod.split)

lemma rely_perform:
  assumes env: "relied_skip g env" and run: "perform_skip env g' device seen w = (r, w')"
  shows "rely g w w'"
proof -
  let ?w1 = "issue (SkipNext (dev_id device)) (note_pre_skip_history env g' seen w)"
  let ?guard = "\<lparr>ge_op = send_skip env, ge_snap = sk_next_snap env, ge_pause = sk_next_pause env, ge_now = sk_now env\<rparr>"
  have r1: "rely g w ?w1" by (rule rely_trans [OF rely_history [OF env] rely_issue])
  have guard: "relied_guard g ?guard"
    using env by (simp add: relied_guard_def relied_skip_def relied_def send_skip_world)
  obtain a w2 where mut: "run_guarded_spotify_skip_mutation ?guard g' device ?w1 = (a, w2)" by fastforce
  have r2: "rely g w w2" by (rule rely_trans [OF r1 rely_skip_mutation [OF guard mut]])
  have "relied g (sk_pause env)" using env by (simp add: relied_skip_def)
  note stop = rely_safety_stop [OF this]
  from run show ?thesis
    unfolding perform_skip_def Let_def mut prod.case
    using r2 by (auto split: sum.splits if_splits
        intro: rely_trans [OF r2 stop] rely_trans [OF r2 apply_skip_rely] rely_trans [OF r2 keep_boundary_rely])
qed

lemma rely_skip_locked:
  assumes env: "relied_skip g env" and run: "skip_locked env g' w = (r, w')"
  shows "rely g w w'"
proof -
  obtain ready w1 where ready: "ensure_jam_recovery_controls_ready (sk_snap env) w = (ready, w1)" by fastforce
  have r1: "rely g w w1" using env rely_ready [OF _ ready] by (simp add: relied_skip_def)
  show ?thesis
  proof (cases "\<exists>device. ready = Inr g' \<and> jam_uncertain_skip (w_jam w1) = None
      \<and> bound_spotify_device (w_jam w1) g' = Some device")
    case False
    then show ?thesis using run r1 unfolding skip_locked_def ready
      by (auto split: sum.splits if_splits option.splits)
  next
    case True
    then obtain device where go: "ready = Inr g'" "jam_uncertain_skip (w_jam w1) = None"
      "bound_spotify_device (w_jam w1) g' = Some device" by blast
    let ?guard = "\<lparr>ge_op = skip_preflight env g' device, ge_snap = sk_pre_snap env, ge_pause = sk_pre_pause env,
      ge_now = sk_now env\<rparr>"
    obtain a w2 where op: "run_guarded_spotify_recovery_operation ?guard g' device ''Skipping a Spotify track'' w1
      = (a, w2)" by fastforce
    have "relied_guard g ?guard" using env rely_preflight [OF env] by (simp add: relied_guard_def relied_skip_def)
    then have r2: "rely g w w2" using rely_trans [OF r1] rely_operation [OF _ op] by blast
    from run go show ?thesis unfolding skip_locked_def ready
      using r2 rely_perform [OF env] rely_trans [OF r2]
      by (auto simp: op split: sum.splits)
  qed
qed

text \<open>
  C31: Skipping keeps the queue's invariant. Whatever the player answers, whichever awaits are cut short,
  and whatever other tasks do to the Jam as far as the locks held let them, after a skip and the refill
  that follows it the queue is still in order, with at most two entries ahead at Spotify and at most
  one of unknown acceptance.
\<close>

theorem skip_keeps_queue_invariant:
  assumes "relied_skip g env" "jam_queue_ok (w_jam w)"
  shows "jam_queue_ok (w_jam (snd (jam_skip env admin_refused participant_refused g w)))"
proof -
  have locks: "rely g w (snd (sk_locks env w))" using assms(1) by (simp add: relied_skip_def relied_step)
  obtain r w1 where run: "skip_locked env g (snd (sk_locks env w)) = (r, w1)" by fastforce
  have ok: "jam_queue_ok (w_jam w1)"
    using rely_trans [OF locks rely_skip_locked [OF assms(1) run]] assms(2) by (simp add: rely_def)
  have "list_all (relied_pump g) (sk_pump env)" using assms(1) by (simp add: relied_skip_def)
  note pump = pump_loop_queue_ok [OF this ok]
  show ?thesis
    using assms(2) ok pump
    by (auto simp: jam_skip_def run pump_queue_frontier_locked_def split: option.split sum.split
        intro: pump [OF prod.collapse [symmetric]])
qed

section \<open>One skip\<close>

definition is_skip :: "command \<Rightarrow> bool" where
  "is_skip c = (case c of SkipNext _ \<Rightarrow> True | _ \<Rightarrow> False)"

definition skips :: "world \<Rightarrow> nat" where
  "skips w = length (filter is_skip (w_commands w))"

text \<open>The locks held keep the Jam's life as it is and let no other skip through.\<close>

definition calm :: "world \<Rightarrow> world \<Rightarrow> bool" where
  "calm w w' \<longleftrightarrow> lifecycle w' = lifecycle w \<and> skips w' = skips w"

lemma calm_refl [simp]: "calm w w" by (simp add: calm_def)

lemma calm_trans [trans]: "calm a b \<Longrightarrow> calm b c \<Longrightarrow> calm a c" by (simp add: calm_def)

lemma calm_fenced:
  assumes "fenced e"
  shows "calm w (snd (e w))"
proof -
  obtain added where "w_commands (snd (e w)) = w_commands w @ added" "list_all harmless added"
    using assms by (auto simp: fenced_def)
  moreover have "harmless c \<Longrightarrow> \<not> is_skip c" for c by (cases c) (simp_all add: harmless_def is_skip_def)
  ultimately show ?thesis
    using fenced_lifecycle [OF assms, of w]
    by (simp add: calm_def skips_def list_all_iff filter_empty_conv)
qed

lemma calm_issue: "\<not> is_skip c \<Longrightarrow> calm w (issue c w)"
  by (simp add: calm_def skips_def issue_def lifecycle_def)

lemma calm_pause: "fenced pause \<Longrightarrow> calm w (pause_bound_spotify_before_release pause d w)"
  unfolding pause_bound_spotify_before_release_def
  by (auto intro: calm_trans [OF calm_issue calm_fenced] simp: is_skip_def split: option.split)

lemma calm_safety_stop:
  assumes "fenced pause"
  shows "calm w (pause_and_mark_spotify_safety_stop pause now g device e w)"
proof -
  let ?w1 = "pause_bound_spotify_before_release pause (Some device) w"
  have "calm ?w1 (pause_and_mark_spotify_safety_stop pause now g device e w)"
    by (auto simp: calm_def skips_def lifecycle_def pause_and_mark_spotify_safety_stop_def Let_def
        apply_spotify_pause_result_def split: prod.split bool.split)
  then show ?thesis using calm_pause [OF assms] calm_trans by blast
qed

lemma calm_ready:
  "fenced snap \<Longrightarrow> ensure_jam_recovery_controls_ready snap w = (r, w') \<Longrightarrow> calm w w'"
  using calm_fenced [of snap w]
  by (auto simp: ensure_jam_recovery_controls_ready_def Let_def split: if_splits prod.splits)

lemma calm_operation:
  assumes env: "calm w (snd (ge_op env w))" "fenced (ge_snap env)" "fenced (ge_pause env)"
    and run: "run_guarded_spotify_recovery_operation env g device name w = (r, w')"
  shows "calm w w'"
proof -
  obtain out w1 where op: "ge_op env w = (out, w1)" by fastforce
  obtain ready w2 where ready: "ensure_jam_recovery_controls_ready (ge_snap env) w1 = (ready, w2)" by fastforce
  have r1: "calm w w1" using env(1) op by simp
  have r2: "calm w w2" by (rule calm_trans [OF r1 calm_ready [OF env(2) ready]])
  note stop = calm_safety_stop [OF env(3)]
  from run show ?thesis
    unfolding run_guarded_spotify_recovery_operation_def Let_def op prod.case ready
    using r1 r2 by (auto split: select_outcome.splits sum.splits if_splits
        intro: calm_trans [OF r1 stop] calm_trans [OF r2 stop])
qed

lemma calm_mutation:
  assumes env: "calm w (snd (ge_op env w))" "fenced (ge_snap env)" "fenced (ge_pause env)"
    and run: "run_guarded_spotify_skip_mutation env g device w = (r, w')"
  shows "calm w w'"
proof -
  obtain out w1 where op: "ge_op env w = (out, w1)" by fastforce
  obtain ready w2 where ready: "ensure_jam_recovery_controls_ready (ge_snap env) w1 = (ready, w2)" by fastforce
  have r1: "calm w w1" using env(1) op by simp
  have r2: "calm w w2" by (rule calm_trans [OF r1 calm_ready [OF env(2) ready]])
  note stop = calm_safety_stop [OF env(3)]
  from run show ?thesis
    unfolding run_guarded_spotify_skip_mutation_def Let_def op prod.case ready
    using r1 r2 by (auto split: select_outcome.splits sum.splits if_splits
        intro: calm_trans [OF r1 stop] calm_trans [OF r2 stop])
qed

definition fenced_skip :: "skip_env \<Rightarrow> bool" where
  "fenced_skip env \<longleftrightarrow> fenced (sk_snap env) \<and> fenced (sk_bind env) \<and> fenced (sk_queue env)
     \<and> fenced (sk_pre_snap env) \<and> fenced (sk_pre_pause env) \<and> (\<forall>t. fenced (sk_append env t))
     \<and> fenced (sk_next env) \<and> fenced (sk_next_snap env) \<and> fenced (sk_next_pause env) \<and> fenced (sk_pause env)"

lemma bound_now_lifecycle:
  "lifecycle w' = lifecycle w \<Longrightarrow> bound_now (w_jam w') g d = bound_now (w_jam w) g d"
  by (simp add: bound_now_def lifecycle_def active_generation_matches_def)

lemma ready_is_bound:
  assumes "fenced snap" "ensure_jam_recovery_controls_ready snap w = (Inr g, w')"
    "bound_spotify_device (w_jam w') g = Some d"
  shows "bound_now (w_jam w') g d"
proof -
  have "lifecycle w' = lifecycle w" using calm_ready [OF assms(1,2)] by (simp add: calm_def)
  then have "jam_active (w_jam w')"
    using assms(2) by (auto simp: lifecycle_def ensure_jam_recovery_controls_ready_def Let_def
        split: if_splits prod.splits)
  then show ?thesis using assms(3)
    by (auto simp: bound_now_def active_generation_matches_def bound_spotify_device_def split: if_splits option.splits)
qed

lemma calm_preflight:
  assumes "fenced_skip env"
  shows "calm w (snd (skip_preflight env g device w))"
proof -
  let ?w1 = "snd (sk_bind env (issue (TransferPlayback (dev_id device)) w))"
  have f: "fenced (sk_bind env)" "fenced (sk_queue env)" using assms by (simp_all add: fenced_skip_def)
  have r1: "calm w ?w1" by (rule calm_trans [OF calm_issue calm_fenced [OF f(1)]]) (simp add: is_skip_def)
  moreover have "calm w (snd (sk_queue env ?w1))" by (rule calm_trans [OF r1 calm_fenced [OF f(2)]])
  ultimately show ?thesis using skip_preflight_world [of env g device w] by (auto simp: Let_def)
qed

lemma calm_history:
  assumes "fenced_skip env"
  shows "calm w (note_pre_skip_history env g seen w)"
proof -
  have same: "calm v (with_jam v (record_run g observation))" for v observation
    by (simp add: calm_def skips_def lifecycle_def record_run_def)
  have append: "calm w (snd (sk_append env track w))" for track
    using assms by (simp add: fenced_skip_def calm_fenced)
  show ?thesis
    unfolding note_pre_skip_history_def persist_jam_history_observation_def
    using same append calm_trans [OF _ same]
    by (auto split: option.split prod.split bool.split) (metis snd_conv)+
qed

lemma error_codes [simp]:
  "ae_code (queue_error s c m) = c" "ae_code (spotify_queue_error r s c m) = c"
  by (simp_all add: queue_error_def spotify_queue_error_def)

lemma perform_unknown:
  assumes env: "fenced_skip env" and bound: "bound_now (w_jam w) g device"
    and run: "perform_skip env g device seen w = (r, w')"
  shows "skips w' = Suc (skips w)
    \<and> (\<forall>e. r = Inl e \<longrightarrow> ae_code e = ''spotify_skip_unknown'' \<longrightarrow> jam_uncertain_skip (w_jam w') \<noteq> None)"
proof -
  let ?w0 = "note_pre_skip_history env g seen w"
  let ?w1 = "issue (SkipNext (dev_id device)) ?w0"
  let ?guard = "\<lparr>ge_op = send_skip env, ge_snap = sk_next_snap env, ge_pause = sk_next_pause env, ge_now = sk_now env\<rparr>"
  have f: "fenced (sk_next env)" "fenced (sk_next_snap env)" "fenced (sk_next_pause env)" "fenced (sk_pause env)"
    using env by (simp_all add: fenced_skip_def)
  have one: "skips ?w1 = Suc (skips w)" "lifecycle ?w1 = lifecycle w"
    using calm_history [OF env, of w g seen] by (simp_all add: calm_def skips_def issue_def is_skip_def lifecycle_def)
  obtain a w2 where mut: "run_guarded_spotify_skip_mutation ?guard g device ?w1 = (a, w2)" by fastforce
  have "calm ?w1 (snd (ge_op ?guard ?w1))" using calm_fenced [OF f(1)] by (simp add: send_skip_world)
  then have calm: "calm ?w1 w2" using calm_mutation [OF _ _ _ mut] f by simp
  then have still: "bound_now (w_jam w2) g device" "skips w2 = Suc (skips w)"
    using bound bound_now_lifecycle [of w2 w] one by (simp_all add: calm_def)
  have keep: "skips (with_jam w2 h) = skips w2" for h by (simp add: skips_def)
  show ?thesis
    using run still keep calm_safety_stop [OF f(4), of w2]
    unfolding perform_skip_def Let_def mut prod.case
    by (auto simp: keep_skip_boundary_def calm_def
        split: sum.splits if_splits prod.splits)
qed

lemma skip_locked_unknown:
  assumes env: "fenced_skip env" and run: "skip_locked env g w = (r, w')"
  shows "(skips w' = skips w \<and> (\<forall>e. r = Inl e \<longrightarrow> ae_code e \<noteq> ''spotify_skip_unknown'') \<and> (\<forall>x. r \<noteq> Inr x))
    \<or> (skips w' = Suc (skips w)
      \<and> (\<forall>e. r = Inl e \<longrightarrow> ae_code e = ''spotify_skip_unknown'' \<longrightarrow> jam_uncertain_skip (w_jam w') \<noteq> None))"
proof -
  obtain ready w1 where ready: "ensure_jam_recovery_controls_ready (sk_snap env) w = (ready, w1)" by fastforce
  have f: "fenced (sk_snap env)" "fenced (sk_pre_snap env)" "fenced (sk_pre_pause env)"
    using env by (simp_all add: fenced_skip_def)
  have r1: "calm w w1" by (rule calm_ready [OF f(1) ready])
  show ?thesis
  proof (cases "\<exists>device. ready = Inr g \<and> jam_uncertain_skip (w_jam w1) = None
      \<and> bound_spotify_device (w_jam w1) g = Some device")
    case False
    then show ?thesis using run r1 unfolding skip_locked_def ready
      by (auto simp: calm_def split: sum.splits if_splits option.splits)
  next
    case True
    then obtain device where go: "ready = Inr g" "jam_uncertain_skip (w_jam w1) = None"
      "bound_spotify_device (w_jam w1) g = Some device" by blast
    have bound: "bound_now (w_jam w1) g device" using ready_is_bound [OF f(1)] ready go by blast
    let ?guard = "\<lparr>ge_op = skip_preflight env g device, ge_snap = sk_pre_snap env, ge_pause = sk_pre_pause env,
      ge_now = sk_now env\<rparr>"
    obtain a w2 where op: "run_guarded_spotify_recovery_operation ?guard g device ''Skipping a Spotify track'' w1
      = (a, w2)" by fastforce
    have r2: "calm w1 w2" using calm_operation [OF _ _ _ op] calm_preflight [OF env] f by simp
    then have still: "bound_now (w_jam w2) g device" "skips w2 = skips w"
      using bound bound_now_lifecycle [of w2 w1] r1 by (simp_all add: calm_def)
    show ?thesis
    proof (cases a)
      case (Inl e)
      then show ?thesis using run go still unfolding skip_locked_def ready
        by (auto simp: op split: prod.splits)
    next
      case (Inr seen)
      then have "perform_skip env g device seen w2 = (r, w')"
        using run go unfolding skip_locked_def ready by (simp add: op)
      from perform_unknown [OF env still(1) this] still(2) show ?thesis by simp
    qed
  qed
qed

text \<open>Nobody settles the open skip during these awaits, and nobody skips.\<close>

definition leaves_skip_open :: "skip_env \<Rightarrow> bool" where
  "leaves_skip_open env \<longleftrightarrow> (\<forall>w. jam_uncertain_skip (w_jam (snd (sk_locks env w))) = jam_uncertain_skip (w_jam w)
     \<and> skips (snd (sk_locks env w)) = skips w
     \<and> jam_uncertain_skip (w_jam (snd (sk_snap env w))) = jam_uncertain_skip (w_jam w)
     \<and> skips (snd (sk_snap env w)) = skips w)"

lemma open_skip_blocks:
  assumes "leaves_skip_open env" "jam_uncertain_skip (w_jam w) \<noteq> None"
  shows "jam_uncertain_skip (w_jam (snd (jam_skip env a p g w))) \<noteq> None
    \<and> skips (snd (jam_skip env a p g w)) = skips w \<and> (\<exists>e. fst (jam_skip env a p g w) = Inl e)"
proof -
  let ?w = "snd (sk_locks env w)"
  obtain ready w1 where ready: "ensure_jam_recovery_controls_ready (sk_snap env) ?w = (ready, w1)" by fastforce
  have "w1 = ?w \<or> w1 = snd (sk_snap env ?w)"
    using ready by (auto simp: ensure_jam_recovery_controls_ready_def Let_def split: if_splits prod.splits)
  then have "jam_uncertain_skip (w_jam w1) = jam_uncertain_skip (w_jam w)" "skips w1 = skips w"
    using assms(1) by (auto simp: leaves_skip_open_def)
  then show ?thesis using assms(2)
    by (auto simp: jam_skip_def skip_locked_def ready split: option.split sum.split)
qed

lemma open_skips_block:
  "\<forall>(env, g) \<in> set later. leaves_skip_open env \<Longrightarrow> jam_uncertain_skip (w_jam w) \<noteq> None
   \<Longrightarrow> jam_uncertain_skip (w_jam (fold (\<lambda>(env, g) w. snd (jam_skip env None None g w)) later w)) \<noteq> None
     \<and> skips (fold (\<lambda>(env, g) w. snd (jam_skip env None None g w)) later w) = skips w"
proof (induction later arbitrary: w)
  case (Cons request later)
  obtain env g where request: "request = (env, g)" by (cases request)
  have "leaves_skip_open env" using Cons.prems(1) by (simp add: request)
  from open_skip_blocks [OF this Cons.prems(2), of None None g] Cons.IH [of "snd (jam_skip env None None g w)"] Cons.prems(1)
  show ?case by (simp add: request)
qed simp

text \<open>
  C32: A request to skip asks Spotify for its next track at most once, and exactly once before it goes on
  to refill the queue; and when the acceptance was ambiguous, no further request to skip reaches
  Spotify, however many are made, until something settles the open skip.
\<close>

theorem ambiguous_skip_is_not_repeated:
  assumes env: "fenced_skip env" and run: "jam_skip env None None g w = (r, w')"
    and locks: "skips (snd (sk_locks env w)) = skips w"
    and later: "\<forall>(env, g) \<in> set later. leaves_skip_open env"
  shows "case r of
      Inr _ \<Rightarrow> (\<exists>epoch w1. skips w1 = Suc (skips w)
        \<and> w' = snd (pump_queue_frontier_locked (sk_pump env) g epoch False w1))
    | Inl e \<Rightarrow> skips w' \<le> Suc (skips w)
        \<and> (ae_code e = ''spotify_skip_unknown'' \<longrightarrow> skips w' = Suc (skips w)
            \<and> skips (fold (\<lambda>(env, g) w. snd (jam_skip env None None g w)) later w') = skips w')"
proof -
  obtain r1 w1 where locked: "skip_locked env g (snd (sk_locks env w)) = (r1, w1)" by fastforce
  note one = skip_locked_unknown [OF env locked] locks
  show ?thesis
  proof (cases r1)
    case (Inl e)
    then have r: "r = Inl e" "w' = w1" using run by (simp_all add: jam_skip_def locked)
    show ?thesis using one r Inl open_skips_block [OF later, of w1] by auto
  next
    case (Inr epoch)
    then have "r = Inr ()" "w' = snd (pump_queue_frontier_locked (sk_pump env) g epoch False w1)"
      "skips w1 = Suc (skips w)"
      using run one by (auto simp: jam_skip_def locked)
    then show ?thesis by auto
  qed
qed

section \<open>Examples\<close>

text \<open>A skip that Spotify does not answer: the connection breaks after the request was sent.\<close>

definition demo_skip_env :: skip_env where
  "demo_skip_env = \<lparr>sk_locks = answer (), sk_snap = answer (demo_snapshot 1),
     sk_bind = answer (OpFinished (Inr \<lparr>bp_is_playing = True, bp_current_uri = Some ''a''\<rparr>)),
     sk_queue = answer OpDeadline, sk_pre_snap = answer (demo_snapshot 1), sk_pre_pause = answer (),
     sk_append = (\<lambda>_. answer True), sk_next = answer (OpFinished (Inl (BAD_GATEWAY, ''closed''))),
     sk_next_snap = answer (demo_snapshot 1), sk_next_pause = answer (), sk_pause = answer (), sk_now = 0,
     sk_retry = None, sk_status_text = (\<lambda>_. []), sk_pump = [demo_pump_env]\<rparr>"

lemma relied_answer [simp]: "relied g (answer x)"
  by (simp add: relied_def answer_def rely_same same_queue_def)

theorem skip_keeps_queue_invariant_witness:
  "jam_queue_ok (w_jam (snd (jam_skip demo_skip_env None None 1 (demo_world demo_queue))))"
proof (rule skip_keeps_queue_invariant)
  show "relied_skip 1 demo_skip_env" by (simp add: relied_skip_def demo_skip_env_def demo_relied)
qed (rule demo_queue_ok)

theorem ambiguous_skip_is_not_repeated_witness:
  "skips (fold (\<lambda>(env, g) w. snd (jam_skip env None None g w)) (replicate 3 (demo_skip_env, 1))
     (snd (jam_skip demo_skip_env None None 1 (demo_world demo_queue)))) = 1"
proof -
  let ?run = "jam_skip demo_skip_env None None 1 (demo_world demo_queue)"
  have fenced: "fenced_skip demo_skip_env" by (simp add: fenced_skip_def demo_skip_env_def)
  have locks: "skips (snd (sk_locks demo_skip_env (demo_world demo_queue))) = skips (demo_world demo_queue)"
    by (simp add: demo_skip_env_def answer_def)
  have later: "\<forall>(env, g) \<in> set (replicate 3 (demo_skip_env, 1 :: u64)). leaves_skip_open env"
    by (simp add: leaves_skip_open_def demo_skip_env_def answer_def)
  have code: "case fst ?run of Inl e \<Rightarrow> ae_code e = ''spotify_skip_unknown'' | Inr _ \<Rightarrow> False" by code_simp
  obtain r w' where run: "?run = (r, w')" by fastforce
  have none: "skips (demo_world demo_queue) = 0" by (simp add: skips_def demo_world_def)
  from ambiguous_skip_is_not_repeated [OF fenced run locks later] code run none show ?thesis
    by (cases r) simp_all
qed

end
