(* ===== verification/PlainFiles.thy ===== *)
theory PlainFiles
  imports FileStore
begin

text \<open>
  Files that are written in place (\<open>fs::write\<close>): created or cut to nothing, then written. Stopped in
  between, such a file holds a prefix of what was to be written; nothing of what it held is left.
\<close>

definition fs_create :: "string \<Rightarrow> unit io" where
  "fs_create name = fs_call (\<lambda>m. Inr ((), hm_insert name [] m))"

definition fs_write :: "string \<Rightarrow> string \<Rightarrow> unit io" where
  "fs_write name bytes = io_then (fs_create name) (fs_write_all name bytes)"

lemma fs_write_cases:
  assumes "fs_write name bytes d = (r, d')"
  obtains (written) "r = Done ()" "dk_files d' = hm_insert name bytes (dk_files d)"
    | (untouched) "r \<noteq> Done ()" "dk_files d' = dk_files d"
    | (torn) n where "r \<noteq> Done ()" "dk_files d' = hm_insert name (take n bytes) (dk_files d)"
proof -
  have twice: "hm_insert name x (hm_insert name y m) = hm_insert name x m" for x y m
    by (induction m) (auto simp: hm_insert_def)
  show thesis
  proof (cases "fs_create name d")
    case (Pair r1 d1)
    show thesis
    proof (cases r1)
      case (Done u)
      from fs_call_cases [OF Pair [unfolded fs_create_def]] Done
      have d1: "dk_files d1 = hm_insert name [] (dk_files d)" by auto
      obtain e d2 where e: "next_event d1 = (e, d2)" by fastforce
      have d2: "dk_files d2 = dk_files d1" using next_event_files [OF e] .
      show thesis
        using assms Pair Done e d1 d2 unfolding fs_write_def
        by (cases e) (auto simp: io_defs fs_write_all_def append_bytes_def hm_simps or_default_def twice
            intro: written torn)
    next
      case (Failed k)
      from fs_call_cases [OF Pair [unfolded fs_create_def]] Failed
      have "dk_files d1 = dk_files d" by auto
      then show thesis using assms Pair Failed unfolding fs_write_def by (auto simp: io_defs intro: untouched)
    next
      case Halted
      from fs_call_cases [OF Pair [unfolded fs_create_def]] Halted
      have "dk_files d1 = dk_files d" by auto
      then show thesis using assms Pair Halted unfolding fs_write_def by (auto simp: io_defs intro: untouched)
    qed
  qed
qed

text \<open>Only the file written is touched.\<close>

lemma fs_write_others:
  "fs_write name bytes d = (r, d') \<Longrightarrow> k \<noteq> name \<Longrightarrow> hm_get (dk_files d') k = hm_get (dk_files d) k"
  by (erule fs_write_cases) (simp_all add: hm_simps)

end
