(* ===== verification/SpotifyAuth.thy ===== *)
theory SpotifyAuth
  imports FavoriteApi ConfigUtil PlainFiles
begin

text \<open>
  Connecting Spotify (\<open>jam_session.rs\<close>, from \<open>jam_spotify_init\<close> to \<open>persist_spotify_token\<close>): the address
  the host opens, the callback, the code the client fetches, and the exchange of the code for a token,
  which replaces a working token only after it has proved good.
\<close>

section \<open>State\<close>

record spotify_pending =
  pe_state :: string
  pe_code :: "string option"

text \<open>What of the service's state the connection touches; the file system is that of the token file.\<close>

record connection =
  cx_jam :: jam_state
  cx_pending :: "spotify_pending option"
  cx_favorites :: favorite_store
  cx_rate_limit :: "instant option"
  cx_disk :: disk

section \<open>The address and the callback\<close>

definition spotify_redirect_uri :: "nat \<Rightarrow> string" where
  "spotify_redirect_uri port = ''https://127.0.0.1:'' @ nat_to_string port @ ''/api/jam/spotify-callback''"

definition spotify_scopes :: string where
  "spotify_scopes = ''user-read-private user-modify-playback-state user-read-currently-playing user-read-playback-state user-library-read playlist-read-private playlist-read-collaborative''"

definition spotify_auth_url :: "string \<Rightarrow> nat \<Rightarrow> string \<Rightarrow> string \<Rightarrow> string" where
  "spotify_auth_url client_id port state challenge =
     ''https://accounts.spotify.com/authorize?client_id='' @ urlencoded client_id
     @ ''&response_type=code&redirect_uri='' @ urlencoded (spotify_redirect_uri port)
     @ ''&scope='' @ urlencoded spotify_scopes @ ''&state='' @ urlencoded state
     @ ''&code_challenge='' @ urlencoded challenge @ ''&code_challenge_method=S256''"

definition jam_spotify_init ::
  "status option \<Rightarrow> string \<Rightarrow> nat \<Rightarrow> string \<Rightarrow> string \<Rightarrow> connection \<Rightarrow> (status + string) \<times> connection" where
  "jam_spotify_init admin_refused client_id port state challenge c =
     (case admin_refused of Some s \<Rightarrow> (Inl s, c)
      | None \<Rightarrow>
          if client_id = [] then (Inl BAD_REQUEST, c)
          else (Inr (spotify_auth_url client_id port state challenge),
                c\<lparr>cx_pending := Some \<lparr>pe_state = state, pe_code = None\<rparr>\<rparr>))"

definition jam_spotify_callback :: "string \<Rightarrow> string \<Rightarrow> connection \<Rightarrow> (status + unit) \<times> connection" where
  "jam_spotify_callback state code c =
     (case cx_pending c of None \<Rightarrow> (Inl BAD_REQUEST, c)
      | Some p \<Rightarrow>
          if pe_state p \<noteq> state then (Inl BAD_REQUEST, c)
          else (Inr (), c\<lparr>cx_pending := Some (p\<lparr>pe_code := Some code\<rparr>)\<rparr>))"

definition jam_spotify_code :: "status option \<Rightarrow> string \<Rightarrow> connection \<Rightarrow> status + string" where
  "jam_spotify_code admin_refused state c =
     (case admin_refused of Some s \<Rightarrow> Inl s
      | None \<Rightarrow>
     (case cx_pending c of None \<Rightarrow> Inl NOT_FOUND
      | Some p \<Rightarrow> (case (if pe_state p = state then pe_code p else None) of
                    Some code \<Rightarrow> Inr code | None \<Rightarrow> Inl NOT_FOUND)))"

section \<open>The token\<close>

text \<open>\<open>render\<close> writes a token as JSON, None where that fails.\<close>

definition persist_spotify_token ::
  "(spotify_token \<Rightarrow> string option) \<Rightarrow> string \<Rightarrow> spotify_token \<Rightarrow> bool \<Rightarrow> disk \<Rightarrow> bool \<times> disk" where
  "persist_spotify_token render path token storage_enabled d =
     (if \<not> storage_enabled then (False, d)
      else case render token of None \<Rightarrow> (False, d)
      | Some text \<Rightarrow> (case fs_write path text d of (Done _, d1) \<Rightarrow> (True, d1) | (_, d1) \<Rightarrow> (False, d1)))"

text \<open>
  The start of the service (\<open>main.rs\<close>): the token of the file, if it is there and parses.
\<close>

definition load_spotify_token :: "(string \<Rightarrow> spotify_token option) \<Rightarrow> string \<Rightarrow> bool \<Rightarrow> disk \<Rightarrow> spotify_token option" where
  "load_spotify_token parse path storage_enabled d =
     (if storage_enabled \<and> fs_exists path d
      then (case fst (fs_read path d) of Done text \<Rightarrow> if utf8_valid text then parse text else None | _ \<Rightarrow> None)
      else None)"

text \<open>
  The surroundings of an exchange: the answer of the token endpoint with its Retry-After as text, None
  where the transport failed; the permit, the times and the answer of the check, which depends on the
  access token it is sent with; and what other requests do while the two answers are awaited.
\<close>

record exchange_env =
  xe_answer :: "(http_response \<times> string option) option"
  xe_exchanging :: "connection \<Rightarrow> connection"
  xe_now_secs :: u64
  xe_permit :: bool
  xe_check_now :: instant
  xe_check :: "string \<Rightarrow> (http_response \<times> string option) option"
  xe_checking :: "connection \<Rightarrow> connection"
  xe_checked_now :: instant
  xe_status_text :: "status \<Rightarrow> string"
  xe_render :: "spotify_token \<Rightarrow> string option"

definition connection_error :: "string \<Rightarrow> string \<Rightarrow> jam_api_error" where
  "connection_error code message =
     \<lparr>ae_status = BAD_GATEWAY, ae_code = code, ae_message = message, ae_retry_after = None\<rparr>"

definition validate_spotify_access_token ::
  "exchange_env \<Rightarrow> spotify_token \<Rightarrow> connection \<Rightarrow> (jam_api_error + unit) \<times> connection" where
  "validate_spotify_access_token env token c =
     (case spotify_rate_limit_error (cx_rate_limit c) (xe_check_now env) of
        Some (s, message) \<Rightarrow> (Inl \<lparr>ae_status = s, ae_code = ''spotify_rate_limited'', ae_message = message,
          ae_retry_after = spotify_retry_after_seconds (cx_rate_limit c) (xe_check_now env)\<rparr>, c)
      | None \<Rightarrow>
          if \<not> xe_permit env
          then (Inl \<lparr>ae_status = SERVICE_UNAVAILABLE, ae_code = ''spotify_request_failed'',
            ae_message = ''Spotify request gate is unavailable'', ae_retry_after = None\<rparr>, c)
          else
            let c1 = xe_checking env c; failed = connection_error ''spotify_connection_validation_failed'' in
            case xe_check env (tok_access_token token) of
              None \<Rightarrow> (Inl (failed ''Could not validate the Spotify connection: ''), c1)
            | Some (resp, retry_after) \<Rightarrow>
                (if \<not> is_success (http_status resp)
                 then Inl (spotify_access_validation_error (xe_status_text env) (http_status resp)
                        (http_text resp) (http_json resp) retry_after)
                 else if http_json resp = None then Inl (failed ''Spotify returned an invalid account response: '')
                 else Inr (),
                 c1\<lparr>cx_rate_limit := remember_spotify_rate_limit (cx_rate_limit c1) resp (xe_checked_now env)\<rparr>))"

definition exchanged_token :: "json \<Rightarrow> u64 \<Rightarrow> jam_api_error + spotify_token" where
  "exchanged_token data now_secs =
     (case as_str (json_index data ''access_token'') of
        None \<Rightarrow> Inl (connection_error ''spotify_token_exchange_failed''
                     ''Spotify token response did not include an access token'')
      | Some access_token \<Rightarrow>
     (case as_str (json_index data ''refresh_token'') of
        None \<Rightarrow> Inl (connection_error ''spotify_token_exchange_failed''
                     ''Spotify token response did not include a refresh token'')
      | Some refresh_token \<Rightarrow>
          Inr \<lparr>tok_access_token = access_token, tok_refresh_token = refresh_token,
            tok_expires_at = now_secs + or_default 3600 (as_u64 (json_index data ''expires_in'')),
            tok_scope = spotify_scope_from_token_response data None\<rparr>))"

definition keep_spotify_token ::
  "exchange_env \<Rightarrow> string \<Rightarrow> bool \<Rightarrow> spotify_token \<Rightarrow> connection \<Rightarrow> connection" where
  "keep_spotify_token env path storage_enabled token c =
     c\<lparr>cx_jam := (cx_jam c)\<lparr>jam_spotify_token := Some token\<rparr>,
       cx_favorites := clear_playlist_artwork_cache (cx_favorites c), cx_pending := None,
       cx_disk := snd (persist_spotify_token (xe_render env) path token storage_enabled (cx_disk c))\<rparr>"

definition jam_spotify_token_request ::
  "exchange_env \<Rightarrow> status option \<Rightarrow> string \<Rightarrow> string \<Rightarrow> bool \<Rightarrow> connection \<Rightarrow> (jam_api_error + unit) \<times> connection" where
  "jam_spotify_token_request env admin_refused client_id path storage_enabled c =
     (case admin_refused of
        Some s \<Rightarrow> (Inl \<lparr>ae_status = s, ae_code = ''unauthorized'', ae_message = ''Authentication required'',
                     ae_retry_after = None\<rparr>, c)
      | None \<Rightarrow>
          if client_id = [] then (Inl (bad_request ''Spotify is not configured''), c)
          else
            let c1 = xe_exchanging env c; failed = connection_error ''spotify_token_exchange_failed'' in
            case xe_answer env of
              None \<Rightarrow> (Inl (failed ''Could not exchange the Spotify authorization code: ''), c1)
            | Some (resp, retry_after) \<Rightarrow>
                if \<not> is_success (http_status resp)
                then (Inl (spotify_token_exchange_error (xe_status_text env) (http_status resp) (http_text resp)
                        (http_json resp) retry_after), c1)
                else case http_json resp of
                  None \<Rightarrow> (Inl (failed ''Spotify returned an invalid token response: ''), c1)
                | Some data \<Rightarrow>
               (case exchanged_token data (xe_now_secs env) of
                  Inl e \<Rightarrow> (Inl e, c1)
                | Inr token \<Rightarrow>
                    if \<not> spotify_library_scopes_authorized (Some token)
                    then (Inl spotify_library_scope_required_error, c1)
                    else case validate_spotify_access_token env token c1 of
                      (Inl e, c2) \<Rightarrow> (Inl e, c2)
                    | (Inr _, c2) \<Rightarrow> (Inr (), keep_spotify_token env path storage_enabled token c2)))"

section \<open>The token is replaced by a good one only\<close>

text \<open>
  C33: A token that works is given up only for one that is good. Whatever the requests to Spotify answer,
  if the exchange is refused, everything is as other requests left it: token, pending connection and
  covers; and it succeeds only with the token that Spotify exchanged for the code, which has all the
  scopes the library needs, and only after Spotify accepted a request sent with that very token; then no
  cover fetched with the old account is left.
\<close>

theorem token_is_replaced_by_a_good_one:
  "case jam_spotify_token_request env admin_refused client_id path storage_enabled c of
     (Inl e, c') \<Rightarrow> c' = c \<or> c' = xe_exchanging env c
       \<or> c' = (xe_checking env (xe_exchanging env c))\<lparr>cx_rate_limit := cx_rate_limit c'\<rparr>
   | (Inr _, c') \<Rightarrow> (\<exists>token exchanged first data resp retry.
       jam_spotify_token (cx_jam c') = Some token \<and> spotify_library_scopes_authorized (Some token)
       \<and> xe_answer env = Some (exchanged, first) \<and> http_json exchanged = Some data
       \<and> exchanged_token data (xe_now_secs env) = Inr token
       \<and> xe_check env (tok_access_token token) = Some (resp, retry) \<and> is_success (http_status resp) \<and> http_json resp \<noteq> None
       \<and> fav_artwork (cx_favorites c') = [] \<and> cx_pending c' = None \<and> admin_refused = None)"
proof -
  have validated: "validate_spotify_access_token env token c1 = (r, c2) \<Longrightarrow>
      (case r of Inl _ \<Rightarrow> c2 = c1 \<or> c2 = (xe_checking env c1)\<lparr>cx_rate_limit := cx_rate_limit c2\<rparr>
       | Inr _ \<Rightarrow> \<exists>resp retry. xe_check env (tok_access_token token) = Some (resp, retry)
           \<and> is_success (http_status resp) \<and> http_json resp \<noteq> None)"
    for token c1 r c2
    by (auto simp: validate_spotify_access_token_def Let_def split: option.splits if_splits)
  have kept: "jam_spotify_token (cx_jam (keep_spotify_token env path storage_enabled token c2)) = Some token"
    "fav_artwork (cx_favorites (keep_spotify_token env path storage_enabled token c2)) = []"
    "cx_pending (keep_spotify_token env path storage_enabled token c2) = None" for token c2
    by (simp_all add: keep_spotify_token_def clear_playlist_artwork_cache_def)
  show ?thesis
    unfolding jam_spotify_token_request_def
    using kept by (auto simp: Let_def split: option.split sum.split prod.split dest!: validated)
qed

text \<open>An exchange that succeeds: Spotify knows the token \<open>new\<close> and no other.\<close>

definition demo_exchanged :: json where
  "demo_exchanged = JObject [(''access_token'', JString ''new''), (''refresh_token'', JString ''again''),
     (''scope'', JString spotify_scopes)]"

definition ok_response :: "json \<Rightarrow> http_response" where
  "ok_response data = \<lparr>http_status = 200, http_text = [], http_json = Some data, http_retry_after = None\<rparr>"

definition demo_exchange_env :: exchange_env where
  "demo_exchange_env = \<lparr>xe_answer = Some (ok_response demo_exchanged, None), xe_exchanging = id, xe_now_secs = 100,
     xe_permit = True, xe_check_now = 0,
     xe_check = (\<lambda>bearer. if bearer = ''new'' then Some (ok_response (JObject []), None) else None),
     xe_checking = id, xe_checked_now = 0, xe_status_text = (\<lambda>_. []), xe_render = (\<lambda>_. None)\<rparr>"

lemma demo_exchanged_token:
  "exchanged_token demo_exchanged 100 = Inr \<lparr>tok_access_token = ''new'', tok_refresh_token = ''again'',
     tok_expires_at = 3700, tok_scope = spotify_scopes\<rparr>"
  by code_simp

lemma demo_scopes: "spotify_library_scopes_authorized (Some \<lparr>tok_access_token = ''new'', tok_refresh_token = ''again'',
     tok_expires_at = 3700, tok_scope = spotify_scopes\<rparr>)"
  by code_simp

definition demo_connection :: connection where
  "demo_connection = \<lparr>cx_jam = jam_default, cx_pending = Some \<lparr>pe_state = ''s'', pe_code = Some ''c''\<rparr>,
     cx_favorites = \<lparr>fav_path = [], fav_writable = False, fav_inner = favorite_file_default,
       fav_artwork = [], fav_artwork_generation = 0\<rparr>,
     cx_rate_limit = None, cx_disk = \<lparr>dk_files = [], dk_events = []\<rparr>\<rparr>"

theorem token_is_replaced_by_a_good_one_witness:
  "\<exists>c' token. jam_spotify_token_request demo_exchange_env None ''client'' ''file'' False demo_connection = (Inr (), c')
     \<and> jam_spotify_token (cx_jam c') = Some token \<and> xe_check demo_exchange_env (tok_access_token token) \<noteq> None"
proof -
  have "fst (jam_spotify_token_request demo_exchange_env None ''client'' ''file'' False demo_connection) = Inr ()"
    by (simp add: jam_spotify_token_request_def demo_exchange_env_def demo_connection_def ok_response_def demo_exchanged_token
        demo_scopes is_success_def validate_spotify_access_token_def spotify_rate_limit_error_def spotify_retry_after_seconds_def spotify_retry_after_def Let_def)
  then obtain c' where run:
    "jam_spotify_token_request demo_exchange_env None ''client'' ''file'' False demo_connection = (Inr (), c')"
    by (metis prod.collapse)
  from token_is_replaced_by_a_good_one [where env = demo_exchange_env and admin_refused = None
      and client_id = "''client''" and path = "''file''" and storage_enabled = False and c = demo_connection]
  show ?thesis unfolding run by auto
qed

section \<open>The address is what it is meant to be\<close>

text \<open>The query of an address as a server reads it: pairs of decoded names and values.\<close>

definition query_pair :: "string \<Rightarrow> (string \<times> string) option" where
  "query_pair part = (case split_at (CHR ''='') part of
     [name, value] \<Rightarrow> Option.bind (percent_decode name) (\<lambda>n. map_option (Pair n) (percent_decode value))
   | _ \<Rightarrow> None)"

definition query_of :: "string \<Rightarrow> (string \<times> string) option list" where
  "query_of url = (case split_at (CHR ''?'') url of
     [_, query] \<Rightarrow> map query_pair (split_at (CHR ''&'') query) | _ \<Rightarrow> [])"

lemma urlencoded_chars: "c \<in> set (urlencoded s) \<Longrightarrow> is_unreserved c \<or> c = CHR ''%''"
  using query_parameters_round_trip [of s] by (auto simp: list_all_iff)

lemma urlencoded_no_separator:
  "CHR ''&'' \<notin> set (urlencoded s)" "CHR ''='' \<notin> set (urlencoded s)" "CHR ''?'' \<notin> set (urlencoded s)"
proof -
  have "is_unreserved (CHR ''&'') = False" "is_unreserved (CHR ''='') = False" "is_unreserved (CHR ''?'') = False"
    by code_simp+
  then show "CHR ''&'' \<notin> set (urlencoded s)" "CHR ''='' \<notin> set (urlencoded s)" "CHR ''?'' \<notin> set (urlencoded s)"
    using urlencoded_chars by fastforce+
qed

lemma urlencoded_decodes [simp]: "percent_decode (urlencoded s) = Some s"
  by (rule conjunct1 [OF query_parameters_round_trip])

lemma query_pair_encoded:
  assumes "CHR ''='' \<notin> set name" "percent_decode name = Some name"
  shows "query_pair (name @ CHR ''='' # urlencoded value) = Some (name, value)"
  using assms(2) split_at_append [OF assms(1)] split_at_none [OF urlencoded_no_separator(2)]
  by (simp add: query_pair_def)

text \<open>The address the host opens at Spotify asks for exactly what it is meant to: whatever the client
  identifier, the state and the challenge contain, a server that decodes its query reads these
  parameters with these values, and no others.
\<close>

lemma authorization_address_is_exact:
  "query_of (spotify_auth_url client_id port state challenge) = map Some
     [(''client_id'', client_id), (''response_type'', ''code''), (''redirect_uri'', spotify_redirect_uri port),
      (''scope'', spotify_scopes), (''state'', state), (''code_challenge'', challenge),
      (''code_challenge_method'', ''S256'')]"
proof -
  define pair where "pair = (\<lambda>name value. name @ CHR ''='' # urlencoded value)"
  let ?parts = "[pair ''client_id'' client_id, ''response_type=code'', pair ''redirect_uri'' (spotify_redirect_uri port),
    pair ''scope'' spotify_scopes, pair ''state'' state, pair ''code_challenge'' challenge,
    ''code_challenge_method=S256'']"
  let ?names = "[''client_id'', ''redirect_uri'', ''scope'', ''state'', ''code_challenge'']"
  let ?join = "\<lambda>parts last. concat (map (\<lambda>p. p @ ''&'') parts) @ last"
  have url: "spotify_auth_url client_id port state challenge
      = ''https://accounts.spotify.com/authorize'' @ CHR ''?'' # ?join (butlast ?parts) (last ?parts)"
    by (simp add: spotify_auth_url_def pair_def)
  have amp: "CHR ''&'' \<notin> set p" and mark: "CHR ''?'' \<notin> set p" if "p \<in> set ?parts" for p
    using that urlencoded_no_separator by (auto simp: pair_def)
  have join: "split_at (CHR ''&'') (?join parts p) = parts @ [p]"
    if "\<forall>q \<in> set (p # parts). CHR ''&'' \<notin> set q" for parts p
    using that by (induction parts) (simp_all add: split_at_append split_at_none)
  have "split_at (CHR ''&'') (?join (butlast ?parts) (last ?parts)) = butlast ?parts @ [last ?parts]"
    by (rule join) (use amp in auto)
  moreover have "CHR ''?'' \<notin> set (?join (butlast ?parts) (last ?parts))"
    using mark by auto
  moreover have "CHR ''?'' \<notin> set ''https://accounts.spotify.com/authorize''" by simp
  ultimately have "query_of (spotify_auth_url client_id port state challenge) = map query_pair ?parts"
    unfolding url query_of_def by (simp add: split_at_append split_at_none)
  moreover have "query_pair (pair name v) = Some (name, v)" if "name \<in> set ?names" for name v
  proof -
    have "list_all (\<lambda>name. CHR ''='' \<notin> set name \<and> percent_decode name = Some name) ?names" by code_simp
    then have "CHR ''='' \<notin> set name" "percent_decode name = Some name" using that by (auto simp: list_all_iff)
    then show ?thesis unfolding pair_def by (rule query_pair_encoded)
  qed
  moreover have "query_pair ''response_type=code'' = Some (''response_type'', ''code'')"
    "query_pair ''code_challenge_method=S256'' = Some (''code_challenge_method'', ''S256'')" by code_simp+
  ultimately show ?thesis by simp
qed

section \<open>What is lost\<close>

text \<open>
  The token file is written in place. A write that stops in it leaves a part of the new text and nothing
  of the old: unless that part parses, the next start has no token, though the old one was on the disk.
\<close>

lemma torn_token_is_lost:
  assumes "render token = Some text" "n < length text" "parse (take n text) = None" "storage_enabled"
    "dk_events d = [Succeeds, Halts n]"
  shows "load_spotify_token parse path storage_enabled (snd (persist_spotify_token render path token storage_enabled d)) = None"
  using assms
  by (simp add: persist_spotify_token_def fs_write_def fs_create_def fs_call_def next_event_def fs_write_all_def
      append_bytes_def io_defs load_spotify_token_def fs_exists_def fs_read_def hm_simps or_default_def)

text \<open>A connection begun while another one's token is being checked is dropped: its callback is refused.\<close>

lemma newer_connection_is_dropped:
  assumes "jam_spotify_token_request env None client_id path storage_enabled c = (Inr (), c')"
  shows "jam_spotify_callback state code c' = (Inl BAD_REQUEST, c')"
  using assms
  by (auto simp: jam_spotify_token_request_def jam_spotify_callback_def keep_spotify_token_def Let_def
      split: option.splits if_splits sum.splits prod.splits)

text \<open>A refresh of the old token that is answered after a new connection puts the old account back.\<close>

lemma refresh_overwrites_new_connection:
  assumes "jam_spotify_token jam = Some old" "spotify_rate_limit_error guard now = None"
    "Option.bind (Option.bind answer http_json) (\<lambda>data. refreshed_token old data now_secs) = Some refreshed"
  shows "jam_spotify_token (fst (refresh_spotify_token jam old guard now answer now_secs
           (\<lambda>jam. jam\<lparr>jam_spotify_token := Some connected\<rparr>))) = Some refreshed"
  using assms by (simp add: refresh_spotify_token_def)

end
