(* ===== verification/AudioStream.thy ===== *)
theory AudioStream
  imports RoomApi
begin

text \<open>
  The listeners' audio (\<open>jam_audio_ws_handler\<close> in \<open>jam_session.rs\<close>): a WebSocket that authenticates with
  its first message, is registered as the connection of a listener, and then relays the bot's frames
  until a check, every five seconds, finds it no longer current.
\<close>

section \<open>The connection\<close>

datatype client_message = ReadyMessage | AudioFrame "u8 list" | CloseMessage

text \<open>
  What one turn of the loop's \<open>select\<close> finds: the tick of the check, a frame of the bot (and whether
  it could be sent), a lag, the end of the bot, a message of the client, or its end.
\<close>

datatype stream_event = MembershipTick | FrameReady "u32 list" bool | FramesLagged | BotStopped
  | PeerMessage | PeerGone

text \<open>\<open>f32::to_le_bytes\<close>, on the bits of the sample.\<close>

definition to_le_bytes :: "u32 \<Rightarrow> u8 list" where
  "to_le_bytes w = [ucast w, ucast (drop_bit 8 w), ucast (drop_bit 16 w), ucast (drop_bit 24 w)]"

definition frame_bytes :: "u32 list \<Rightarrow> u8 list" where
  "frame_bytes samples = concat (map to_le_bytes samples)"

text \<open>
  \<open>as_first\<close> is the text of the first message, None without one within five seconds; \<open>as_parse\<close> reads
  its type and token, None where it is no such object. The arguments of type \<open>others\<close> are what other
  tasks do while the handler waits.
\<close>

record stream_env =
  as_first :: "string option"
  as_first_others :: others
  as_parse :: "string \<Rightarrow> (string \<times> string) option"
  as_decode :: livekit_decode
  as_config :: auth_config
  as_snap :: "jam_source_snapshot await"
  as_now :: instant
  as_bot_lock :: others
  as_ready_sent :: bool
  as_ready_others :: others
  as_turns :: "(others \<times> stream_event) list"

definition parse_jam_audio_auth_message ::
  "(string \<Rightarrow> (string \<times> string) option) \<Rightarrow> string \<Rightarrow> string option" where
  "parse_jam_audio_auth_message parse text =
     (if 16 * 1024 < length text then None
      else case parse text of None \<Rightarrow> None
      | Some (message_type, token) \<Rightarrow> if message_type = ''auth'' \<and> token \<noteq> [] then Some token else None)"

definition binding_of :: "server \<Rightarrow> string \<Rightarrow> string option" where
  "binding_of s identity = map_option pb_auth_id (hm_get (sv_bindings s) identity)"

definition stream_current :: "string \<Rightarrow> string \<Rightarrow> u64 \<Rightarrow> u64 \<Rightarrow> server \<Rightarrow> bool" where
  "stream_current identity auth_id generation connection_id s =
     audio_connection_is_current (w_jam (sv_world s)) (binding_of s identity) identity auth_id generation
       connection_id"

definition unregister_audio_connection :: "string \<Rightarrow> string \<Rightarrow> u64 \<Rightarrow> u64 \<Rightarrow> server \<Rightarrow> server" where
  "unregister_audio_connection identity auth_id generation connection_id =
     with_server_jam (\<lambda>jam.
       fst (unregister_audio_connection_from_jam jam identity auth_id generation connection_id))"

text \<open>Authentication: the token of the first message, against the bindings at that time.\<close>

definition stream_claims :: "stream_env \<Rightarrow> server \<Rightarrow> (string \<times> string) option" where
  "stream_claims env s =
     (case Option.bind (as_first env) (parse_jam_audio_auth_message (as_parse env)) of None \<Rightarrow> None
      | Some token \<Rightarrow>
     (case ensure_jam_participant_token (as_decode env) (as_config env) (sv_bindings s) token of
        Inl _ \<Rightarrow> None
      | Inr c \<Rightarrow> map_option (Pair (lk_sub c)) (lk_echo_participant_auth_id c)))"

text \<open>Up to the registration: the source and the bot of this Jam, and the listener's place.\<close>

definition stream_admission ::
  "stream_env \<Rightarrow> u64 \<Rightarrow> server \<Rightarrow> (string \<times> string \<times> u64) option \<times> server" where
  "stream_admission env generation s =
     (let s1 = as_first_others env s in
      case stream_claims env s1 of None \<Rightarrow> (None, s1)
      | Some (identity, auth_id) \<Rightarrow>
     (case ensure_jam_source_ready (as_snap env) (as_now env) (sv_world s1) of
        (ready, w) \<Rightarrow>
          let s2 = s1\<lparr>sv_world := w\<rparr> in
          if ready \<noteq> Inr generation then (None, s2)
          else
            let s3 = as_bot_lock env s2 in
            if \<not> bot_ready_for (sv_world s3) generation then (None, s3)
            else case register_audio_connection (w_jam (sv_world s3)) (binding_of s3 identity) identity auth_id
                        generation of
              (_, None) \<Rightarrow> (None, s3)
            | (jam, Some connection_id) \<Rightarrow>
                (Some (identity, auth_id, connection_id), with_server_jam (\<lambda>_. jam) s3)))"

text \<open>The loop; the last answer says whether it ended within the turns given.\<close>

fun stream_loop ::
  "string \<Rightarrow> string \<Rightarrow> u64 \<Rightarrow> u64 \<Rightarrow> (others \<times> stream_event) list \<Rightarrow> server \<Rightarrow> client_message list \<times> server \<times> bool" where
  "stream_loop identity auth_id generation connection_id [] s = ([], s, False)"
| "stream_loop identity auth_id generation connection_id ((f, e) # turns) s =
     (let s1 = f s; go_on = stream_loop identity auth_id generation connection_id turns s1 in
      case e of
        MembershipTick \<Rightarrow>
          if stream_current identity auth_id generation connection_id s1 then go_on
          else ([CloseMessage], s1, True)
      | FrameReady samples sent \<Rightarrow>
          if \<not> sent then ([], s1, True)
          else (case go_on of (messages, s2, ended) \<Rightarrow> (AudioFrame (frame_bytes samples) # messages, s2, ended))
      | FramesLagged \<Rightarrow> go_on
      | BotStopped \<Rightarrow> ([CloseMessage], s1, True)
      | PeerMessage \<Rightarrow> go_on
      | PeerGone \<Rightarrow> ([], s1, True))"

definition jam_audio_ws_handler ::
  "stream_env \<Rightarrow> u64 \<Rightarrow> server \<Rightarrow> client_message list \<times> server \<times> bool" where
  "jam_audio_ws_handler env generation s =
     (case stream_admission env generation s of
        (None, s1) \<Rightarrow> ([CloseMessage], s1, True)
      | (Some (identity, auth_id, connection_id), s1) \<Rightarrow>
          let s2 = as_ready_others env s1;
              leave = unregister_audio_connection identity auth_id generation connection_id in
          if \<not> as_ready_sent env then ([], leave s2, True)
          else case stream_loop identity auth_id generation connection_id (as_turns env) s2 of
            (messages, s3, ended) \<Rightarrow> (ReadyMessage # messages, if ended then leave s3 else s3, ended))"

definition jam_audio_ws ::
  "(string \<Rightarrow> nat option) \<Rightarrow> (string \<Rightarrow> u64 option) \<Rightarrow> (string, string) hash_map \<Rightarrow> stream_env \<Rightarrow> server
   \<Rightarrow> (status + client_message list) \<times> server" where
  "jam_audio_ws parse_u8 parse_u64 params env s =
     (if \<not> listener_protocol_is_current parse_u8 params then (Inl 426, s)
      else case Option.bind (hm_get params ''generation'') parse_u64 of None \<Rightarrow> (Inl BAD_REQUEST, s)
      | Some generation \<Rightarrow>
         (case jam_audio_ws_handler env generation s of (messages, s1, _) \<Rightarrow> (Inr messages, s1)))"

end
