(* ===== verification/StreamProperties.thy ===== *)
theory StreamProperties
  imports AudioStream ParticipantProperties
begin

text \<open>Who hears the Jam: the stream of a listener ends with its membership.\<close>

section \<open>Who hears what\<close>

lemma u32_le_round_trip: "u32_from_le_bytes (to_le_bytes w) = w"
proof -
  let ?n = "unat w"
  have byte: "unat (ucast v :: u8) = unat v mod 256" for v :: u32
    by (simp add: unsigned_ucast_eq take_bit_eq_mod)
  have "?n < 2 ^ 32" using unsigned_less [of w] by simp
  then have "?n div 256 div 256 div 256 mod 256 = ?n div 256 div 256 div 256"
    by (intro mod_less) (simp add: div_mult2_eq [symmetric] less_mult_imp_div_less)
  then have "?n mod 256 + 256 * (?n div 256 mod 256 + 256 * (?n div 256 div 256 mod 256
      + 256 * (?n div 256 div 256 div 256 mod 256))) = ?n"
    by (simp add: mod_mult_div_eq)
  moreover have "unat (drop_bit 8 w) = ?n div 256" "unat (drop_bit 16 w) = ?n div 256 div 256"
    "unat (drop_bit 24 w) = ?n div 256 div 256 div 256"
    by (simp_all add: unat_drop_bit_eq drop_bit_eq_div unat_div div_mult2_eq [symmetric])
  ultimately have "foldr (\<lambda>b acc. unat b + 256 * acc) (to_le_bytes w) 0 = ?n"
    unfolding to_le_bytes_def by (simp only: foldr.simps byte comp_def id_apply mult_0_right add_0_right)
  then show ?thesis by (simp add: u32_from_le_bytes_def)
qed

lemma frame_bytes_round_trip: "map u32_from_le_bytes (chunks4 (frame_bytes samples)) = samples"
  by (induction samples) (simp_all add: frame_bytes_def to_le_bytes_def u32_le_round_trip [unfolded to_le_bytes_def])

lemma stream_loop_append:
  "stream_loop i a g c pre s = (messages, s1, False)
   \<Longrightarrow> stream_loop i a g c (pre @ turns) s
     = (case stream_loop i a g c turns s1 of (rest, s2, ended) \<Rightarrow> (messages @ rest, s2, ended))"
proof (induction pre arbitrary: s messages)
  case (Cons turn pre)
  obtain f e where turn: "turn = (f, e)" by (cases turn)
  obtain messages' s' ended where rest: "stream_loop i a g c pre (f s) = (messages', s', ended)" by (metis prod_cases3)
  show ?case
    using Cons.prems Cons.IH [of "f s" messages'] rest
    by (cases e) (auto simp: turn Let_def split: if_splits prod.splits)
qed simp

lemma unregister_only_own:
  "hm_get (jam_audio_connections (w_jam (sv_world (unregister_audio_connection i a g c s)))) k
     = (if k = i \<and> audio_connection_matches (w_jam (sv_world s)) i a g c then None
        else hm_get (jam_audio_connections (w_jam (sv_world s))) k)"
  by (simp add: unregister_audio_connection_def unregister_audio_connection_from_jam_def with_server_jam_def
      with_world_def with_jam_def hm_simps)

lemma unregistered: "\<not> stream_current i a g c (unregister_audio_connection i a g c s)"
  by (auto simp: stream_current_def audio_connection_is_current_def audio_connection_matches_def
      unregister_only_own split: option.splits if_splits)

text \<open>
  C34: A listener hears the Jam exactly as long as it belongs there, to within a check. The stream opens
  only for the installation bound to the identity, listed as a listener of this Jam; every frame is sent
  bit for bit; and at the first check at which the binding, the listener's place or the connection is
  no longer its own, it gets nothing more but the close, whatever frames were still to come, and leaves
  no connection of its own behind while no other connection is touched.
\<close>

theorem stream_ends_with_membership:
  assumes open_stream: "stream_admission env g s = (Some (i, a, c), s1)" "as_ready_sent env"
    and turns: "as_turns env = pre @ (f, MembershipTick) # post"
    and before: "stream_loop i a g c pre (as_ready_others env s1) = (messages, s2, False)"
    and lost: "\<not> stream_current i a g c (f s2)"
  shows "stream_current i a g c s1
    \<and> fst (jam_audio_ws_handler env g s) = ReadyMessage # messages @ [CloseMessage]
    \<and> (\<forall>samples. map u32_from_le_bytes (chunks4 (frame_bytes samples)) = samples)
    \<and> (let s' = fst (snd (jam_audio_ws_handler env g s)) in \<not> stream_current i a g c s'
        \<and> (\<forall>k. k \<noteq> i \<or> \<not> audio_connection_matches (w_jam (sv_world (f s2))) i a g c \<longrightarrow>
            hm_get (jam_audio_connections (w_jam (sv_world s'))) k
              = hm_get (jam_audio_connections (w_jam (sv_world (f s2)))) k))"
proof -
  have current: "stream_current i a g c s1"
    using open_stream(1)
    by (auto simp: stream_admission_def Let_def stream_current_def audio_connection_is_current_def
        register_audio_connection_def audio_connection_matches_def listener_attachment_allowed_def binding_of_def
        with_server_jam_def with_world_def with_jam_def hm_simps split: option.splits if_splits prod.splits)
  have "stream_loop i a g c (as_turns env) (as_ready_others env s1) = (messages @ [CloseMessage], f s2, True)"
    unfolding turns stream_loop_append [OF before] using lost by (simp add: Let_def)
  then have run: "jam_audio_ws_handler env g s
      = (ReadyMessage # messages @ [CloseMessage], unregister_audio_connection i a g c (f s2), True)"
    using open_stream by (simp add: jam_audio_ws_handler_def Let_def)
  show ?thesis
    using current frame_bytes_round_trip unregistered [of i a g c "f s2"] unregister_only_own [of i a g c "f s2"]
    unfolding run by (auto simp: Let_def)
qed

text \<open>\<open>sam-1\<close> listens, is kicked after its first frame, and the next check closes the stream.\<close>

definition demo_stream :: stream_env where
  "demo_stream = \<lparr>as_first = Some ''first'', as_first_others = id, as_parse = (\<lambda>_. Some (''auth'', ''signed'')),
     as_decode = demo_decode, as_config = demo_auth, as_snap = answer (demo_snapshot 1), as_now = 0,
     as_bot_lock = id, as_ready_sent = True, as_ready_others = id,
     as_turns = [(id, FrameReady [1] True)] @ (demo_kick, MembershipTick) # [(id, FrameReady [2] True)]\<rparr>"

theorem stream_ends_with_membership_witness:
  "fst (jam_audio_ws_handler demo_stream 1 demo_silent) = [ReadyMessage, AudioFrame [1, 0, 0, 0], CloseMessage]"
proof -
  let ?s1 = "snd (stream_admission demo_stream 1 demo_silent)"
  have "fst (stream_admission demo_stream 1 demo_silent) = Some (''sam-1'', ''auth'', 1)" by code_simp
  then have admitted: "stream_admission demo_stream 1 demo_silent = (Some (''sam-1'', ''auth'', 1), ?s1)"
    by (metis prod.collapse)
  have ready: "as_ready_sent demo_stream" and turns: "as_turns demo_stream
      = [(id, FrameReady [1] True)] @ (demo_kick, MembershipTick) # [(id, FrameReady [2] True)]"
    by (simp_all add: demo_stream_def)
  have before: "stream_loop ''sam-1'' ''auth'' 1 1 [(id, FrameReady [1] True)] (as_ready_others demo_stream ?s1)
      = ([AudioFrame [1, 0, 0, 0]], ?s1, False)"
    by (simp add: demo_stream_def frame_bytes_def to_le_bytes_def Let_def)
  have lost: "\<not> stream_current ''sam-1'' ''auth'' 1 1 (demo_kick ?s1)" by code_simp
  from stream_ends_with_membership [OF admitted ready turns before lost] show ?thesis by simp
qed

end
