(* ===== verification/Chat.thy ===== *)
theory Chat
  imports RoomApi PlainFiles
begin

text \<open>
  Messages and files of a room (\<open>chat.rs\<close>), and the log of its sessions (\<open>append_session_event\<close> in
  \<open>rooms.rs\<close>). Each history is one file, read whole, changed and written in place; a file that cannot be
  read counts as empty, and a write that fails is not reported. The codecs are arguments, the
  directories exist, and requests for avatars and chimes run one at a time.
\<close>

section \<open>Paths\<close>

definition join_path :: "string \<Rightarrow> string \<Rightarrow> string" where
  "join_path dir name = dir @ ''/'' @ name"

text \<open>\<open>fs::read_to_string\<close>\<close>

definition fs_read_to_string :: "string \<Rightarrow> string io" where
  "fs_read_to_string path = io_bind (fs_read path)
     (\<lambda>text. if utf8_valid text then io_return text else io_fail InvalidData)"

section \<open>Messages\<close>

record chat_state =
  cs_dir :: string
  cs_uploads_dir :: string
  cs_max_upload_bytes :: nat

record chat_message =
  msg_type :: string
  msg_identity :: string
  msg_name :: string
  msg_text :: string
  msg_timestamp :: u64
  msg_room :: string
  msg_id :: "string option"
  msg_file_url :: "string option"
  msg_file_name :: "string option"
  msg_file_type :: "string option"

type_synonym history_parser = "string \<Rightarrow> chat_message list option"
type_synonym history_renderer = "chat_message list \<Rightarrow> string option"

definition chat_history_path :: "string \<Rightarrow> string \<Rightarrow> string" where
  "chat_history_path dir room =
     join_path dir ((if is_safe_path_component room then room else ''_invalid'') @ ''.json'')"

definition load_chat_history :: "history_parser \<Rightarrow> string \<Rightarrow> string \<Rightarrow> chat_message list io" where
  "load_chat_history parse dir room =
     (let path = chat_history_path dir room in
      io_bind (io_exists path) (\<lambda>present.
        if \<not> present then io_return []
        else io_catch (io_bind (fs_read_to_string path) (\<lambda>content. io_return (or_default [] (parse content))))
               (\<lambda>_. io_return [])))"

definition MAX_CHAT_HISTORY :: nat where "MAX_CHAT_HISTORY = 1000"

definition last_messages :: "chat_message list \<Rightarrow> chat_message list" where
  "last_messages history =
     (if MAX_CHAT_HISTORY < length history then drop (length history - MAX_CHAT_HISTORY) history else history)"

definition write_history :: "('a \<Rightarrow> string option) \<Rightarrow> string \<Rightarrow> 'a \<Rightarrow> unit io" where
  "write_history render path history =
     (case render history of None \<Rightarrow> io_return () | Some json \<Rightarrow> io_ignore (fs_write path json))"

definition save_chat_message_to_disk ::
  "history_parser \<Rightarrow> history_renderer \<Rightarrow> string \<Rightarrow> chat_message \<Rightarrow> unit io" where
  "save_chat_message_to_disk parse render dir message =
     io_bind (load_chat_history parse dir (msg_room message)) (\<lambda>history.
       write_history render (chat_history_path dir (msg_room message)) (last_messages (history @ [message])))"

definition survives_deletion :: "string \<Rightarrow> string \<Rightarrow> chat_message \<Rightarrow> bool" where
  "survives_deletion message_id requester m \<longleftrightarrow> (msg_id m = Some message_id \<longrightarrow> msg_identity m \<noteq> requester)"

definition delete_chat_message_from_disk ::
  "history_parser \<Rightarrow> history_renderer \<Rightarrow> string \<Rightarrow> string \<Rightarrow> string \<Rightarrow> string \<Rightarrow> bool io" where
  "delete_chat_message_from_disk parse render dir room message_id requester =
     io_bind (load_chat_history parse dir room) (\<lambda>before.
       let history = filter (survives_deletion message_id requester) before in
       if length history = length before then io_return False
       else io_then (write_history render (chat_history_path dir room) history) (io_return True))"

text \<open>The answer of a deletion is whether a message was deleted.\<close>

definition chat_delete_message ::
  "history_parser \<Rightarrow> history_renderer \<Rightarrow> chat_state \<Rightarrow> status option \<Rightarrow> string \<Rightarrow> string \<Rightarrow> string
   \<Rightarrow> (status + bool) io" where
  "chat_delete_message parse render chat admin_refused room message_id identity =
     (case admin_refused of Some s \<Rightarrow> io_return (Inl s)
      | None \<Rightarrow> io_bind (delete_chat_message_from_disk parse render (cs_dir chat) room message_id identity)
                (\<lambda>deleted. io_return (Inr deleted)))"

definition chat_save_message ::
  "history_parser \<Rightarrow> history_renderer \<Rightarrow> chat_state \<Rightarrow> status option \<Rightarrow> chat_message \<Rightarrow> (status + unit) io" where
  "chat_save_message parse render chat admin_refused message =
     (case admin_refused of Some s \<Rightarrow> io_return (Inl s)
      | None \<Rightarrow> io_then (save_chat_message_to_disk parse render (cs_dir chat) message) (io_return (Inr ())))"

definition chat_get_history ::
  "history_parser \<Rightarrow> chat_state \<Rightarrow> status option \<Rightarrow> string \<Rightarrow> (status + chat_message list) io" where
  "chat_get_history parse chat admin_refused room =
     (case admin_refused of Some s \<Rightarrow> io_return (Inl s)
      | None \<Rightarrow> io_bind (load_chat_history parse (cs_dir chat) room) (\<lambda>history. io_return (Inr history)))"

section \<open>Uploads\<close>

definition is_generated_chat_upload_name :: "string \<Rightarrow> bool" where
  "is_generated_chat_upload_name file_name \<longleftrightarrow>
     is_safe_path_component file_name
   \<and> (case strip_prefix ''upload-'' file_name of None \<Rightarrow> False
      | Some suffix \<Rightarrow> suffix \<noteq> [] \<and> list_all is_ascii_digit suffix)"

text \<open>An upload is answered with its address or with what is wrong; \<open>now_ms\<close> is the clock.\<close>

definition chat_upload_file ::
  "chat_state \<Rightarrow> status option \<Rightarrow> u64 \<Rightarrow> string \<Rightarrow> (status + (string + string)) io" where
  "chat_upload_file chat admin_refused now_ms body =
     (case admin_refused of Some s \<Rightarrow> io_return (Inl s)
      | None \<Rightarrow>
          if body = [] then io_return (Inr (Inl ''Empty file''))
          else if cs_max_upload_bytes chat < length body
          then io_return (Inr (Inl ''File too large (max 10MB)''))
          else
            let file_name = ''upload-'' @ nat_to_string (unat now_ms) in
            io_catch (io_then (fs_write (join_path (cs_uploads_dir chat) file_name) body)
                        (io_return (Inr (Inr (''/api/chat/uploads/'' @ file_name)))))
              (\<lambda>_. io_return (Inr (Inl ''Upload failed: ''))))"

definition image_content_type :: "string \<Rightarrow> string option" where
  "image_content_type file_name =
     (if ends_with file_name ''.png'' then Some ''image/png''
      else if ends_with file_name ''.jpg'' \<or> ends_with file_name ''.jpeg'' then Some ''image/jpeg''
      else if ends_with file_name ''.gif'' then Some ''image/gif''
      else if ends_with file_name ''.webp'' then Some ''image/webp'' else None)"

definition upload_content_type :: "string \<Rightarrow> string" where
  "upload_content_type file_name =
     (case image_content_type file_name of Some t \<Rightarrow> t
      | None \<Rightarrow> if ends_with file_name ''.pdf'' then ''application/pdf'' else ''application/octet-stream'')"

text \<open>A file is answered with its content type and its bytes; \<open>refused\<close> is the check of its route.\<close>

definition serve_file :: "string \<Rightarrow> string \<Rightarrow> (status + string \<times> string) io" where
  "serve_file content_type path =
     io_catch (io_bind (fs_read path) (\<lambda>bytes. io_return (Inr (content_type, bytes))))
       (\<lambda>_. io_return (Inl NOT_FOUND))"

definition chat_get_upload :: "chat_state \<Rightarrow> status option \<Rightarrow> string \<Rightarrow> (status + string \<times> string) io" where
  "chat_get_upload chat refused file_name =
     (case refused of Some s \<Rightarrow> io_return (Inl s)
      | None \<Rightarrow>
          if \<not> is_generated_chat_upload_name file_name then io_return (Inl BAD_REQUEST)
          else serve_file (upload_content_type file_name) (join_path (cs_uploads_dir chat) file_name))"

section \<open>Avatars and chimes\<close>

type_synonym avatars = "(string, string) hash_map"

record chime_entry =
  ce_file_name :: string
  ce_mime :: string

type_synonym chimes = "(string, chime_entry) hash_map"

definition avatar_extension :: "string \<Rightarrow> string option" where
  "avatar_extension content_type =
     (if content_type = ''image/jpeg'' then Some ''jpg''
      else if content_type = ''image/png'' then Some ''png''
      else if content_type = ''image/webp'' then Some ''webp''
      else if content_type = ''image/gif'' then Some ''gif'' else None)"

definition avatar_file_name :: "string \<Rightarrow> string \<Rightarrow> string" where
  "avatar_file_name identity ext = ''avatar-'' @ name_base identity @ ''.'' @ ext"

definition remove_old_file :: "string \<Rightarrow> string option \<Rightarrow> string \<Rightarrow> unit io" where
  "remove_old_file dir old file_name =
     (case old of None \<Rightarrow> io_return ()
      | Some old_file \<Rightarrow> io_when (old_file \<noteq> file_name) (io_ignore (fs_remove (join_path dir old_file))))"

definition avatar_upload ::
  "string \<Rightarrow> status option \<Rightarrow> string option \<Rightarrow> string \<Rightarrow> string \<Rightarrow> avatars
   \<Rightarrow> ((status + (string + string)) \<times> avatars) io" where
  "avatar_upload dir admin_refused content_type identity body avatars =
     (case admin_refused of Some s \<Rightarrow> io_return (Inl s, avatars)
      | None \<Rightarrow>
          if body = [] then io_return (Inr (Inl ''Empty file''), avatars)
          else if 50 * 1024 * 1024 < length body
          then io_return (Inr (Inl ''Avatar too large (max 50MB)''), avatars)
          else case avatar_extension (or_default ''application/octet-stream'' content_type) of
            None \<Rightarrow> io_return (Inr (Inl ''Unsupported image type (use jpeg, png, webp, or gif)''), avatars)
          | Some ext \<Rightarrow>
              let base = name_base identity; file_name = avatar_file_name identity ext in
              io_then (remove_old_file dir (hm_get avatars base) file_name)
                (io_catch (io_then (fs_write (join_path dir file_name) body)
                   (io_return (Inr (Inr (''/api/avatar/'' @ base)), hm_insert base file_name avatars)))
                   (\<lambda>_. io_return (Inr (Inl ''Avatar upload failed: ''), avatars))))"

definition avatar_get :: "string \<Rightarrow> string \<Rightarrow> avatars \<Rightarrow> (status + string \<times> string) io" where
  "avatar_get dir identity avatars =
     (case hm_get avatars (name_base identity) of None \<Rightarrow> io_return (Inl NOT_FOUND)
      | Some file_name \<Rightarrow>
          serve_file (or_default ''application/octet-stream'' (image_content_type file_name))
            (join_path dir file_name))"

definition chime_mime_from_ext :: "string \<Rightarrow> string" where
  "chime_mime_from_ext fname =
     (if ends_with fname ''.mp3'' then ''audio/mpeg''
      else if ends_with fname ''.wav'' then ''audio/wav''
      else if ends_with fname ''.ogg'' then ''audio/ogg''
      else if ends_with fname ''.webm'' then ''audio/webm''
      else if ends_with fname ''.m4a'' then ''audio/mp4''
      else if ends_with fname ''.aac'' then ''audio/aac''
      else if ends_with fname ''.flac'' then ''audio/flac''
      else ''application/octet-stream'')"

definition chime_extension :: "string \<Rightarrow> string option" where
  "chime_extension ct =
     (if ct \<in> {''audio/mpeg'', ''audio/mp3''} then Some ''mp3''
      else if ct \<in> {''audio/wav'', ''audio/x-wav'', ''audio/wave''} then Some ''wav''
      else if ct \<in> {''audio/ogg'', ''audio/vorbis''} then Some ''ogg''
      else if ct = ''audio/webm'' then Some ''webm''
      else if ct \<in> {''audio/mp4'', ''audio/x-m4a'', ''audio/m4a'', ''audio/aac''} then Some ''m4a''
      else if ct \<in> {''audio/flac'', ''audio/x-flac''} then Some ''flac''
      else strip_prefix ''audio/'' ct)"

definition chime_key :: "string \<Rightarrow> string \<Rightarrow> string" where
  "chime_key identity kind = name_base identity @ ''-'' @ kind"

definition chime_upload ::
  "string \<Rightarrow> status option \<Rightarrow> string option \<Rightarrow> string \<Rightarrow> string \<Rightarrow> string \<Rightarrow> chimes
   \<Rightarrow> ((status + (string + string)) \<times> chimes) io" where
  "chime_upload dir admin_refused content_type identity kind body chimes =
     (case admin_refused of Some s \<Rightarrow> io_return (Inl s, chimes)
      | None \<Rightarrow>
          if body = [] then io_return (Inr (Inl ''Empty file''), chimes)
          else if 2 * 1024 * 1024 < length body
          then io_return (Inr (Inl ''Chime too large (max 2MB)''), chimes)
          else if kind \<noteq> ''enter'' \<and> kind \<noteq> ''exit''
          then io_return (Inr (Inl (''kind must be '' @ [CHR 0x27] @ ''enter'' @ [CHR 0x27] @ '' or ''
                 @ [CHR 0x27] @ ''exit'' @ [CHR 0x27])), chimes)
          else
            let ct = or_default ''application/octet-stream'' content_type in
            case chime_extension ct of
              None \<Rightarrow> io_return (Inr (Inl (''Unsupported type: '' @ ct
                 @ ''. Upload an audio file (mp3, wav, ogg, m4a, etc.)'')), chimes)
            | Some ext \<Rightarrow>
                let key = chime_key identity kind; file_name = ''chime-'' @ key @ ''.'' @ ext in
                io_then (remove_old_file dir (map_option ce_file_name (hm_get chimes key)) file_name)
                  (io_catch (io_then (fs_write (join_path dir file_name) body)
                     (io_return (Inr (Inr (''/api/chime/'' @ name_base identity @ ''/'' @ kind)),
                        hm_insert key \<lparr>ce_file_name = file_name, ce_mime = chime_mime_from_ext file_name\<rparr> chimes)))
                     (\<lambda>_. io_return (Inr (Inl ''Chime upload failed: ''), chimes))))"

definition chime_get :: "string \<Rightarrow> string \<Rightarrow> string \<Rightarrow> chimes \<Rightarrow> (status + string \<times> string) io" where
  "chime_get dir identity kind chimes =
     (case hm_get chimes (chime_key identity kind) of None \<Rightarrow> io_return (Inl NOT_FOUND)
      | Some entry \<Rightarrow> serve_file (ce_mime entry) (join_path dir (ce_file_name entry)))"

definition chime_delete ::
  "string \<Rightarrow> status option \<Rightarrow> string \<Rightarrow> string \<Rightarrow> chimes \<Rightarrow> ((status + unit) \<times> chimes) io" where
  "chime_delete dir admin_refused identity kind chimes =
     (case admin_refused of Some s \<Rightarrow> io_return (Inl s, chimes)
      | None \<Rightarrow>
          let key = chime_key identity kind; chimes1 = hm_remove key chimes in
          case hm_get chimes key of None \<Rightarrow> io_return (Inr (), chimes1)
          | Some entry \<Rightarrow>
              io_then (io_ignore (fs_remove (join_path dir (ce_file_name entry)))) (io_return (Inr (), chimes1)))"

section \<open>The log of sessions\<close>

definition session_file_name :: "u64 \<Rightarrow> string" where
  "session_file_name now =
     (case epoch_days_to_date (now div 86400) of (year, month, day) \<Rightarrow>
        ''sessions-'' @ zero_padded 4 (unat year) @ ''-'' @ zero_padded 2 (unat month) @ ''-''
        @ zero_padded 2 (unat day) @ ''.json'')"

definition append_session_event ::
  "(string \<Rightarrow> session_event list option) \<Rightarrow> (session_event list \<Rightarrow> string option) \<Rightarrow> string \<Rightarrow> u64
   \<Rightarrow> session_event \<Rightarrow> unit io" where
  "append_session_event parse render dir now event =
     (let path = join_path dir (session_file_name now) in
      io_bind (io_catch (io_bind (fs_read_to_string path) (\<lambda>data. io_return (or_default [] (parse data))))
                 (\<lambda>_. io_return []))
        (\<lambda>events. write_history render path (events @ [event])))"

end
