(* ===== verification/ChatProperties.thy ===== *)
theory ChatProperties
  imports Chat "HOL-Library.Sublist"
begin

text \<open>
  What a room's history file keeps of the messages posted in the room: all of the last ones where every
  call on the file succeeds, and nothing else than posted messages, in their order, where calls fail or
  the process is stopped; and a failed read that costs the whole history.
\<close>

section \<open>Lists kept in a file\<close>

text \<open>
  What a reader of the file is given by the calls that succeed, and the law of a codec on the lists over
  \<open>ms\<close>: it reads back what it wrote, and rejects what a write that was stopped left.
\<close>

definition list_at :: "(string \<Rightarrow> 'a list option) \<Rightarrow> string \<Rightarrow> disk \<Rightarrow> 'a list" where
  "list_at parse path d =
     (case hm_get (dk_files d) path of None \<Rightarrow> []
      | Some text \<Rightarrow> if utf8_valid text then or_default [] (parse text) else [])"

definition list_codec :: "'a set \<Rightarrow> (string \<Rightarrow> 'a list option) \<Rightarrow> ('a list \<Rightarrow> string option) \<Rightarrow> bool" where
  "list_codec ms parse render \<longleftrightarrow>
     (\<forall>xs. set xs \<subseteq> ms \<longrightarrow>
        (\<exists>s. render xs = Some s \<and> utf8_valid s \<and> parse s = Some xs
           \<and> (\<forall>n < length s. utf8_valid (take n s) \<longrightarrow> parse (take n s) = None)))"

lemma list_codecD:
  assumes "list_codec ms parse render" "set xs \<subseteq> ms"
  shows "\<exists>s. render xs = Some s \<and> utf8_valid s \<and> parse s = Some xs
    \<and> (\<forall>n. utf8_valid (take n s) \<longrightarrow> or_default [] (parse (take n s)) \<in> {[], xs})"
proof -
  from assms obtain s where s: "render xs = Some s" "utf8_valid s" "parse s = Some xs"
    "\<forall>n < length s. utf8_valid (take n s) \<longrightarrow> parse (take n s) = None"
    unfolding list_codec_def by blast
  have "or_default [] (parse (take n s)) \<in> {[], xs}" if "utf8_valid (take n s)" for n
    using s that by (cases "n < length s") (auto simp: or_default_def)
  with s show ?thesis by blast
qed

text \<open>Writing a list: the file then reads as that list, as the empty one, or as before.\<close>

lemma list_at_insert:
  "list_at parse path (d\<lparr>dk_files := m\<rparr>) = list_at parse path \<lparr>dk_files = m, dk_events = []\<rparr>"
  by (simp add: list_at_def)

lemma list_at_files: "dk_files d = dk_files d' \<Longrightarrow> list_at parse path d = list_at parse path d'"
  by (simp add: list_at_def)

lemma write_history_cases:
  assumes codec: "list_codec ms parse render" and xs: "set xs \<subseteq> ms"
    and w: "write_history render path xs d = (r, d')"
  shows "list_at parse path d' \<in> {list_at parse path d, [], xs}"
proof -
  obtain s where s: "render xs = Some s" "utf8_valid s" "parse s = Some xs"
    "\<forall>n. utf8_valid (take n s) \<longrightarrow> or_default [] (parse (take n s)) \<in> {[], xs}"
    using list_codecD [OF codec xs] by blast
  obtain r1 d1 where w1: "fs_write path s d = (r1, d1)" by fastforce
  have d': "dk_files d' = dk_files d1"
    using w w1 s(1) by (auto simp: write_history_def io_defs split: outcome.splits)
  from w1 show ?thesis
  proof (cases rule: fs_write_cases)
    case written
    with s d' show ?thesis by (simp add: list_at_def hm_simps or_default_def)
  next
    case untouched
    with d' show ?thesis by (simp add: list_at_def)
  next
    case (torn n)
    with s(4) d' show ?thesis by (simp add: list_at_def hm_simps)
  qed
qed

lemma write_history_others:
  "write_history render path xs d = (r, d') \<Longrightarrow> k \<noteq> path \<Longrightarrow> hm_get (dk_files d') k = hm_get (dk_files d) k"
proof (cases "render xs")
  case (Some s)
  moreover assume "write_history render path xs d = (r, d')" "k \<noteq> path"
  moreover obtain r1 d1 where "fs_write path s d = (r1, d1)" by fastforce
  moreover note fs_write_others [OF this]
  ultimately show ?thesis
    by (auto simp: write_history_def io_defs split: outcome.splits)
qed (auto simp: write_history_def io_defs)

lemma fs_write_healthy:
  "dk_events d = [] \<Longrightarrow> \<exists>d'. fs_write path s d = (Done (), d') \<and> dk_events d' = []
     \<and> dk_files d' = hm_insert path s (dk_files d)"
proof -
  have twice: "hm_insert name x (hm_insert name y m) = hm_insert name x m" for x y :: string and name :: string and m
    by (induction m) (auto simp: hm_insert_def)
  assume "dk_events d = []"
  then show ?thesis
    by (simp add: fs_write_def io_defs fs_create_def fs_call_def next_event_def fs_write_all_def append_bytes_def
        hm_simps or_default_def twice)
qed

lemma write_history_healthy:
  assumes "list_codec ms parse render" "set xs \<subseteq> ms" "dk_events d = []"
  obtains d' where "write_history render path xs d = (Done (), d')" "dk_events d' = []"
    "list_at parse path d' = xs"
proof -
  obtain s where s: "render xs = Some s" "utf8_valid s" "parse s = Some xs"
    using list_codecD [OF assms(1,2)] by blast
  obtain d' where "fs_write path s d = (Done (), d')" "dk_events d' = []"
    "dk_files d' = hm_insert path s (dk_files d)"
    using fs_write_healthy [OF assms(3)] by blast
  with s show thesis
    by (intro that [of d']) (auto simp: write_history_def io_defs list_at_def hm_simps or_default_def)
qed

text \<open>
  A reader that takes a file that it cannot read for an empty list, and what an update through it does to
  the list.
\<close>

locale list_reader =
  fixes read_list :: "'a list io" and path :: string and parse :: "string \<Rightarrow> 'a list option"
  assumes reads: "read_list d = (r, d1) \<Longrightarrow> dk_files d1 = dk_files d"
    and reads_list: "read_list d = (Done xs, d1) \<Longrightarrow> xs = list_at parse path d \<or> xs = []"
    and reads_all: "dk_events d = [] \<Longrightarrow> read_list d = (Done (list_at parse path d), d)"
begin

lemma update_cases:
  assumes "list_codec ms parse render"
    and "\<And>xs. set xs \<subseteq> ms \<Longrightarrow> set (f xs) \<subseteq> ms" and "set (list_at parse path d) \<subseteq> ms"
    and u: "io_bind read_list (\<lambda>xs. write_history render path (f xs)) d = (r, d')"
  shows "list_at parse path d' \<in> {list_at parse path d, [], f (list_at parse path d), f []}"
proof -
  obtain r1 d1 where d1: "read_list d = (r1, d1)" by fastforce
  have same: "list_at parse path d1 = list_at parse path d" by (rule list_at_files [OF reads [OF d1]])
  show ?thesis
  proof (cases r1)
    case (Done xs)
    then have xs: "xs = list_at parse path d \<or> xs = []" using reads_list d1 by simp
    then have "set (f xs) \<subseteq> ms" using assms(2) [of xs] assms(3) by auto
    moreover have "write_history render path (f xs) d1 = (r, d')" using u d1 Done by (simp add: io_bind_def)
    ultimately have "list_at parse path d' \<in> {list_at parse path d, [], f xs}"
      using write_history_cases [OF assms(1)] same by metis
    with xs show ?thesis by auto
  qed (use u d1 same in \<open>auto simp: io_bind_def\<close>)
qed

lemma update_others:
  assumes "io_bind read_list (\<lambda>xs. write_history render path (f xs)) d = (r, d')" "k \<noteq> path"
  shows "hm_get (dk_files d') k = hm_get (dk_files d) k"
proof -
  obtain r1 d1 where d1: "read_list d = (r1, d1)" by fastforce
  show ?thesis
    using assms d1 reads [OF d1] write_history_others [of render path _ d1 r d' k]
    by (cases r1) (auto simp: io_bind_def)
qed

lemma update_healthy:
  assumes "list_codec ms parse render" "set (f (list_at parse path d)) \<subseteq> ms" "dk_events d = []"
  obtains d' where "io_bind read_list (\<lambda>xs. write_history render path (f xs)) d = (Done (), d')"
    "dk_events d' = []" "list_at parse path d' = f (list_at parse path d)"
proof -
  obtain d' where "write_history render path (f (list_at parse path d)) d = (Done (), d')" "dk_events d' = []"
    "list_at parse path d' = f (list_at parse path d)"
    by (rule write_history_healthy [OF assms])
  then show thesis by (intro that [of d']) (simp_all add: io_bind_def reads_all assms(3))
qed

end

text \<open>The readers of the two logs.\<close>

lemma fs_read_to_string_cases:
  assumes "fs_read_to_string path d = (r, d1)"
  shows "dk_files d1 = dk_files d
    \<and> (\<forall>text. r = Done text \<longrightarrow> hm_get (dk_files d) path = Some text \<and> utf8_valid text)"
proof -
  obtain r0 d0 where d0: "fs_read path d = (r0, d0)" by fastforce
  from d0 [unfolded fs_read_def] show ?thesis
  proof (cases rule: fs_call_cases)
    case (ok a m)
    then show ?thesis using assms d0
      by (auto simp: fs_read_to_string_def io_defs split: option.splits if_splits)
  next
    case no
    then show ?thesis using assms d0 by (cases r0) (auto simp: fs_read_to_string_def io_defs)
  qed
qed

lemma fs_read_to_string_healthy:
  "dk_events d = [] \<Longrightarrow> fs_read_to_string path d =
     (case hm_get (dk_files d) path of None \<Rightarrow> Failed NotFound
      | Some text \<Rightarrow> if utf8_valid text then Done text else Failed InvalidData, d)"
  by (simp add: fs_read_to_string_def io_defs fs_read_def fs_call_def next_event_def split: option.splits)

abbreviation read_or_empty :: "(string \<Rightarrow> 'a list option) \<Rightarrow> string \<Rightarrow> 'a list io" where
  "read_or_empty parse path \<equiv>
     io_catch (io_bind (fs_read_to_string path) (\<lambda>text. io_return (or_default [] (parse text)))) (\<lambda>_. io_return [])"

lemma read_or_empty_files: "read_or_empty parse path d = (r, d1) \<Longrightarrow> dk_files d1 = dk_files d"
proof -
  assume a: "read_or_empty parse path d = (r, d1)"
  obtain r0 d0 where d0: "fs_read_to_string path d = (r0, d0)" by fastforce
  show "dk_files d1 = dk_files d"
    using a d0 fs_read_to_string_cases [OF d0] by (cases r0) (auto simp: io_defs)
qed

lemma read_or_empty_list:
  "read_or_empty parse path d = (Done xs, d1) \<Longrightarrow> xs = list_at parse path d \<or> xs = []"
proof -
  assume a: "read_or_empty parse path d = (Done xs, d1)"
  obtain r0 d0 where d0: "fs_read_to_string path d = (r0, d0)" by fastforce
  show ?thesis
    using a d0 fs_read_to_string_cases [OF d0] by (cases r0) (auto simp: io_defs list_at_def)
qed

lemma read_or_empty_healthy:
  "dk_events d = [] \<Longrightarrow> read_or_empty parse path d = (Done (list_at parse path d), d)"
  by (simp add: io_defs fs_read_to_string_healthy list_at_def split: option.splits)

interpretation sessions: list_reader "read_or_empty parse path" path parse for parse :: "string \<Rightarrow> session_event list option" and path
  by unfold_locales (fact read_or_empty_files read_or_empty_list read_or_empty_healthy)+

lemma load_chat_history_reads:
  "load_chat_history parse dir room d =
     (if fs_exists (chat_history_path dir room) d then read_or_empty parse (chat_history_path dir room) d else (Done [], d))"
  by (simp add: load_chat_history_def Let_def io_bind_def [of "io_exists _"] io_exists_def io_return_def)

interpretation chats: list_reader "load_chat_history parse dir room" "chat_history_path dir room" parse for parse dir room
proof unfold_locales
  show "dk_files d1 = dk_files d" if "load_chat_history parse dir room d = (r, d1)" for d r d1
    using that read_or_empty_files unfolding load_chat_history_reads by (metis prod.inject)
  show "xs = list_at parse (chat_history_path dir room) d \<or> xs = []"
    if "load_chat_history parse dir room d = (Done xs, d1)" for d xs d1
    using that read_or_empty_list unfolding load_chat_history_reads by (metis outcome.inject prod.inject)
  show "load_chat_history parse dir room d = (Done (list_at parse (chat_history_path dir room) d), d)"
    if "dk_events d = []" for d
    using that unfolding load_chat_history_reads by (simp add: read_or_empty_healthy fs_exists_def list_at_def)
qed

section \<open>What is posted and what is kept\<close>

datatype chat_op = Post chat_message | Delete string string string

definition run_chat_op ::
  "history_parser \<Rightarrow> history_renderer \<Rightarrow> chat_state \<Rightarrow> chat_op \<Rightarrow> disk \<Rightarrow> disk" where
  "run_chat_op parse render chat c d =
     (case c of
        Post m \<Rightarrow> snd (chat_save_message parse render chat None m d)
      | Delete room message_id identity \<Rightarrow>
          snd (chat_delete_message parse render chat None room message_id identity d))"

definition run_chat :: "history_parser \<Rightarrow> history_renderer \<Rightarrow> chat_state \<Rightarrow> chat_op list \<Rightarrow> disk \<Rightarrow> disk" where
  "run_chat parse render chat ops d = fold (run_chat_op parse render chat) ops d"

text \<open>The history of a room as its users mean it.\<close>

definition last_of :: "nat \<Rightarrow> 'a list \<Rightarrow> 'a list" where
  "last_of n xs = drop (length xs - n) xs"

definition room_step :: "string \<Rightarrow> chat_op \<Rightarrow> chat_message list \<Rightarrow> chat_message list" where
  "room_step room c history =
     (case c of
        Post m \<Rightarrow> if msg_room m = room then last_of 1000 (history @ [m]) else history
      | Delete r message_id identity \<Rightarrow>
          if r = room then filter (\<lambda>m. \<not> (msg_id m = Some message_id \<and> msg_identity m = identity)) history
          else history)"

lemma room_step_code:
  "room_step room (Post m) history = (if msg_room m = room then last_messages (history @ [m]) else history)"
  "room_step room (Delete r message_id identity) history =
     (if r = room then filter (survives_deletion message_id identity) history else history)"
proof -
  have "survives_deletion message_id identity = (\<lambda>m. \<not> (msg_id m = Some message_id \<and> msg_identity m = identity))"
    by (auto simp: survives_deletion_def)
  then show "room_step room (Delete r message_id identity) history =
     (if r = room then filter (survives_deletion message_id identity) history else history)"
    by (simp add: room_step_def)
qed (simp add: room_step_def last_messages_def last_of_def MAX_CHAT_HISTORY_def)

definition room_history :: "string \<Rightarrow> chat_op list \<Rightarrow> chat_message list \<Rightarrow> chat_message list" where
  "room_history room ops history = fold (room_step room) ops history"

definition posted_in :: "string \<Rightarrow> chat_op list \<Rightarrow> chat_message list" where
  "posted_in room ops = concat (map (\<lambda>c. case c of Post m \<Rightarrow> if msg_room m = room then [m] else [] | _ \<Rightarrow> []) ops)"

definition op_message :: "chat_op \<Rightarrow> chat_message set" where
  "op_message c = (case c of Post m \<Rightarrow> {m} | _ \<Rightarrow> {})"

abbreviation history_of :: "history_parser \<Rightarrow> chat_state \<Rightarrow> string \<Rightarrow> disk \<Rightarrow> chat_message list" where
  "history_of parse chat room \<equiv> list_at parse (chat_history_path (cs_dir chat) room)"

text \<open>A room with a name of its own has a file of its own.\<close>

definition own_name :: "string \<Rightarrow> bool" where
  "own_name room \<longleftrightarrow> is_safe_path_component room \<and> room \<noteq> ''_invalid''"

lemma own_path: "own_name room \<Longrightarrow> chat_history_path dir r = chat_history_path dir room \<longleftrightarrow> r = room"
  by (auto simp: own_name_def chat_history_path_def join_path_def)

lemma last_messages_subset: "set (last_messages xs) \<subseteq> set xs"
  by (auto simp: last_messages_def dest: in_set_dropD)

lemma save_is_update:
  "save_chat_message_to_disk parse render dir m =
     io_bind (load_chat_history parse dir (msg_room m))
       (\<lambda>xs. write_history render (chat_history_path dir (msg_room m)) (last_messages (xs @ [m])))"
  by (simp add: save_chat_message_to_disk_def)

lemma post_disk:
  "run_chat_op parse render chat (Post m) d = snd (save_chat_message_to_disk parse render (cs_dir chat) m d)"
  by (auto simp: run_chat_op_def chat_save_message_def io_defs split: prod.splits outcome.splits)

text \<open>A deletion that changes nothing does not write.\<close>

lemma delete_disk:
  obtains (kept) "dk_files (run_chat_op parse render chat (Delete room message_id identity) d) = dk_files d"
    | (written) r where "io_bind (load_chat_history parse (cs_dir chat) room)
        (\<lambda>xs. write_history render (chat_history_path (cs_dir chat) room) (filter (survives_deletion message_id identity) xs)) d
        = (r, run_chat_op parse render chat (Delete room message_id identity) d)"
proof -
  let ?d = "run_chat_op parse render chat (Delete room message_id identity) d"
  let ?f = "filter (survives_deletion message_id identity)"
  obtain r1 d1 where d1: "load_chat_history parse (cs_dir chat) room d = (r1, d1)" by fastforce
  note same = chats.reads [OF d1]
  show thesis
  proof (cases r1)
    case (Done xs)
    show thesis
    proof (cases "length (?f xs) = length xs")
      case True
      then have "dk_files ?d = dk_files d"
        using d1 Done same
        by (simp add: run_chat_op_def chat_delete_message_def delete_chat_message_from_disk_def io_defs)
      then show thesis by (rule kept)
    next
      case False
      obtain r2 d2 where d2: "write_history render (chat_history_path (cs_dir chat) room) (?f xs) d1 = (r2, d2)"
        by fastforce
      then have "?d = d2"
        using d1 Done False
        by (cases r2) (simp_all add: run_chat_op_def chat_delete_message_def delete_chat_message_from_disk_def io_defs)
      with d1 d2 Done written [of r2] show thesis by (simp add: io_bind_def)
    qed
  next
    case (Failed k)
    then show thesis using d1 same
      by (intro kept) (simp add: run_chat_op_def chat_delete_message_def delete_chat_message_from_disk_def io_defs)
  next
    case Halted
    then show thesis using d1 same
      by (intro kept) (simp add: run_chat_op_def chat_delete_message_def delete_chat_message_from_disk_def io_defs)
  qed
qed

text \<open>One operation, where calls may fail or the process may be stopped, and where none does.\<close>

definition room_of_op :: "chat_op \<Rightarrow> string" where
  "room_of_op c = (case c of Post m \<Rightarrow> msg_room m | Delete room _ _ \<Rightarrow> room)"

lemma op_other_path:
  assumes "chat_history_path (cs_dir chat) room \<noteq> chat_history_path (cs_dir chat) (room_of_op c)"
  shows "history_of parse chat room (run_chat_op parse render chat c d) = history_of parse chat room d"
proof -
  let ?p = "chat_history_path (cs_dir chat)"
  note ne = assms
  have "hm_get (dk_files (run_chat_op parse render chat c d)) (?p room) = hm_get (dk_files d) (?p room)"
  proof (cases c)
    case (Post m)
    obtain r d' where "save_chat_message_to_disk parse render (cs_dir chat) m d = (r, d')" by fastforce
    with chats.update_others [OF this [unfolded save_is_update], of "?p room"] ne Post show ?thesis
      by (simp add: post_disk room_of_op_def)
  next
    case (Delete r message_id identity)
    show ?thesis
    proof (cases rule: delete_disk [of parse render chat r message_id identity d])
      case (written res)
      from chats.update_others [OF written, of "?p room"] ne Delete show ?thesis by (simp add: room_of_op_def)
    qed (simp add: Delete)
  qed
  then show ?thesis by (simp add: list_at_def)
qed

lemma op_other_room:
  "own_name room \<Longrightarrow> room_of_op c \<noteq> room
   \<Longrightarrow> history_of parse chat room (run_chat_op parse render chat c d) = history_of parse chat room d"
  by (rule op_other_path) (metis own_path)

lemma room_step_other: "room_of_op c \<noteq> room \<Longrightarrow> room_step room c h = h"
  by (cases c) (simp_all add: room_of_op_def room_step_code)

lemma room_step_known:
  "op_message c \<subseteq> ms \<Longrightarrow> set h \<subseteq> ms \<Longrightarrow> set (room_step room c h) \<subseteq> ms"
  by (cases c) (auto simp: room_step_code op_message_def dest!: last_messages_subset [THEN subsetD])

lemma op_own_room:
  assumes "own_name room" "list_codec ms parse render" "op_message c \<subseteq> ms" "set (history_of parse chat room d) \<subseteq> ms"
  shows "history_of parse chat room (run_chat_op parse render chat c d)
    \<in> {history_of parse chat room d, [], room_step room c (history_of parse chat room d), room_step room c []}"
proof (cases "room_of_op c = room")
  case False
  then show ?thesis by (simp add: op_other_room assms(1) room_step_other)
next
  case True
  show ?thesis
  proof (cases c)
    case (Post m)
    with True have room: "msg_room m = room" by (simp add: room_of_op_def)
    obtain r d' where save: "save_chat_message_to_disk parse render (cs_dir chat) m d = (r, d')" by fastforce
    have "m \<in> ms" using assms(3) Post by (simp add: op_message_def)
    then have "set (last_messages (xs @ [m])) \<subseteq> ms" if "set xs \<subseteq> ms" for xs
      using that last_messages_subset [of "xs @ [m]"] by auto
    from chats.update_cases [OF assms(2) this assms(4) save [unfolded save_is_update room]] save
    show ?thesis by (simp add: Post post_disk room_step_code room)
  next
    case (Delete r message_id identity)
    with True have room: "r = room" by (simp add: room_of_op_def)
    show ?thesis
    proof (cases rule: delete_disk [of parse render chat room message_id identity d])
      case kept
      then show ?thesis unfolding Delete room by (metis insertI1 list_at_files)
    next
      case (written res)
      have "set (filter (survives_deletion message_id identity) xs) \<subseteq> ms" if "set xs \<subseteq> ms" for xs
        using that by auto
      from chats.update_cases [OF assms(2) this assms(4) written] show ?thesis
        by (simp add: Delete room room_step_code)
    qed
  qed
qed

lemma op_healthy:
  assumes "list_codec ms parse render" "dk_events d = []" "op_message c \<subseteq> ms"
    and "set (history_of parse chat (room_of_op c) d) \<subseteq> ms"
  shows "dk_events (run_chat_op parse render chat c d) = []
    \<and> history_of parse chat (room_of_op c) (run_chat_op parse render chat c d)
      = room_step (room_of_op c) c (history_of parse chat (room_of_op c) d)"
proof (cases c)
  case (Post m)
  let ?h = "history_of parse chat (msg_room m) d"
  have "set (last_messages (?h @ [m])) \<subseteq> ms"
    using assms(3,4) last_messages_subset [of "?h @ [m]"] by (auto simp: Post op_message_def room_of_op_def)
  then obtain d' where "save_chat_message_to_disk parse render (cs_dir chat) m d = (Done (), d')"
    "dk_events d' = []" "history_of parse chat (msg_room m) d' = last_messages (?h @ [m])"
    unfolding save_is_update
    by (rule chats.update_healthy [where f = "\<lambda>xs. last_messages (xs @ [m])", OF assms(1) _ assms(2)])
  then show ?thesis by (simp add: Post post_disk room_of_op_def room_step_code)
next
  case (Delete room message_id identity)
  let ?h = "history_of parse chat room d" and ?f = "filter (survives_deletion message_id identity)"
  have known: "set (?f ?h) \<subseteq> ms" using assms(4) by (auto simp: Delete room_of_op_def)
  have loaded: "load_chat_history parse (cs_dir chat) room d = (Done ?h, d)" by (rule chats.reads_all [OF assms(2)])
  show ?thesis
  proof (cases "length (?f ?h) = length ?h")
    case True
    then have "?f ?h = ?h" by (metis length_filter_less filter_True less_irrefl)
    with loaded True assms(2) show ?thesis
      by (simp add: Delete run_chat_op_def chat_delete_message_def delete_chat_message_from_disk_def io_defs
          room_of_op_def room_step_code)
  next
    case False
    obtain d' where "write_history render (chat_history_path (cs_dir chat) room) (?f ?h) d = (Done (), d')"
      "dk_events d' = []" "history_of parse chat room d' = ?f ?h"
      by (rule write_history_healthy [OF assms(1) known assms(2)])
    with loaded False show ?thesis
      by (simp add: Delete run_chat_op_def chat_delete_message_def delete_chat_message_from_disk_def io_defs
          room_of_op_def room_step_code)
  qed
qed

lemma op_healthy_own:
  assumes "own_name room" "list_codec ms parse render" "dk_events d = []" "op_message c \<subseteq> ms"
    and "\<And>r. set (history_of parse chat r d) \<subseteq> ms"
  shows "dk_events (run_chat_op parse render chat c d) = []
    \<and> history_of parse chat room (run_chat_op parse render chat c d) = room_step room c (history_of parse chat room d)"
  using op_healthy [OF assms(2,3,4), of chat] assms(5) op_other_room [OF assms(1), of c parse chat render d]
    room_step_other [of c room]
  by (cases "room_of_op c = room") simp_all

lemma op_known:
  assumes "list_codec ms parse render" "dk_events d = []" "op_message c \<subseteq> ms"
    and known: "\<And>r. set (history_of parse chat r d) \<subseteq> ms"
  shows "set (history_of parse chat r (run_chat_op parse render chat c d)) \<subseteq> ms"
proof (cases "chat_history_path (cs_dir chat) r = chat_history_path (cs_dir chat) (room_of_op c)")
  case True
  then show ?thesis
    using op_healthy [OF assms(1-3) known] room_step_known [OF assms(3) known] by metis
next
  case False
  then show ?thesis by (simp add: op_other_path known)
qed

text \<open>A list with its last part cut off, or without some of its members, holds nothing else.\<close>

lemma subseq_last_messages: "subseq (last_messages xs) xs"
  using subseq_drop_many [of "drop (length xs - MAX_CHAT_HISTORY) xs" "drop (length xs - MAX_CHAT_HISTORY) xs"
      "take (length xs - MAX_CHAT_HISTORY) xs"]
  by (simp add: last_messages_def)

lemma subseq_room_step: "subseq (room_step room c h) (h @ posted_in room [c])"
  by (cases c) (auto simp: room_step_code posted_in_def intro: subseq_last_messages subseq_filter_left)

lemma length_room_step: "length h \<le> MAX_CHAT_HISTORY \<Longrightarrow> length (room_step room c h) \<le> MAX_CHAT_HISTORY"
  by (cases c) (auto simp: room_step_code last_messages_def intro: le_trans [OF length_filter_le])

lemma posted_in_Cons: "posted_in room (c # ops) = posted_in room [c] @ posted_in room ops"
  by (simp add: posted_in_def)

section \<open>Properties\<close>

text \<open>A codec for the examples: one letter for each entry, and a full stop.\<close>

definition letter_render :: "('a \<Rightarrow> char) \<Rightarrow> 'a list \<Rightarrow> string option" where
  "letter_render code xs = Some (map code xs @ [CHR ''.''])"

definition letter_parse :: "(char \<Rightarrow> 'a) \<Rightarrow> string \<Rightarrow> 'a list option" where
  "letter_parse decode s =
     (if s \<noteq> [] \<and> last s = CHR ''.'' \<and> CHR ''.'' \<notin> set (butlast s) then Some (map decode (butlast s)) else None)"

lemma ascii_utf8: "list_all (\<lambda>c. byte_of c < 128) s \<Longrightarrow> utf8_valid s"
proof (induction s)
  case (Cons c s)
  then have "takeWhile is_continuation s = [] \<and> dropWhile is_continuation s = s"
    by (cases s) (simp_all add: is_continuation_def)
  with Cons show ?case by (simp add: utf8_valid_def valid_scalar_def)
qed (simp add: utf8_valid_def)

lemma letter_parse_cut: "CHR ''.'' \<notin> set ys \<Longrightarrow> letter_parse decode ys = None"
  by (cases ys rule: rev_cases) (auto simp: letter_parse_def)

lemma letter_codec:
  assumes "\<forall>m \<in> ms. decode (code m) = m \<and> code m \<noteq> CHR ''.'' \<and> byte_of (code m) < 128"
  shows "list_codec ms (letter_parse decode) (letter_render code)"
  unfolding list_codec_def
proof (intro allI impI)
  fix xs assume xs: "set xs \<subseteq> ms"
  have undone: "map decode (map code xs) = xs" using xs assms by (induction xs) auto
  have dot: "CHR ''.'' \<notin> set (map code xs)" using xs assms by force
  have "list_all (\<lambda>c. byte_of c < 128) (map code xs @ [CHR ''.''])"
    using xs assms by (auto simp: list_all_iff byte_of_def)
  then have "utf8_valid (map code xs @ [CHR ''.''])" by (rule ascii_utf8)
  moreover have "letter_parse decode (map code xs @ [CHR ''.'']) = Some xs"
    using undone dot by (simp add: letter_parse_def)
  moreover have "letter_parse decode (take n (map code xs @ [CHR ''.''])) = None"
    if "n < length (map code xs @ [CHR ''.''])" for n
  proof -
    have "take n (map code xs @ [CHR ''.'']) = take n (map code xs)" using that by simp
    moreover have "CHR ''.'' \<notin> set (take n (map code xs))" using dot by (meson in_set_takeD)
    ultimately show ?thesis by (metis letter_parse_cut)
  qed
  ultimately show "\<exists>s. letter_render code xs = Some s \<and> utf8_valid s \<and> letter_parse decode s = Some xs
      \<and> (\<forall>n < length s. utf8_valid (take n s) \<longrightarrow> letter_parse decode (take n s) = None)"
    by (auto simp: letter_render_def)
qed

definition demo_post :: "string \<Rightarrow> chat_message" where
  "demo_post t = \<lparr>msg_type = ''chat'', msg_identity = t, msg_name = t, msg_text = t, msg_timestamp = 1,
     msg_room = ''den'', msg_id = Some t, msg_file_url = None, msg_file_name = None, msg_file_type = None\<rparr>"

abbreviation "ann_post \<equiv> demo_post ''a''"
abbreviation "ben_post \<equiv> demo_post ''b''"

definition demo_render :: history_renderer where
  "demo_render = letter_render (\<lambda>m. hd (msg_text m))"

definition demo_parse :: history_parser where
  "demo_parse = letter_parse (\<lambda>c. demo_post [c])"

lemma demo_codec: "list_codec {ann_post, ben_post} demo_parse demo_render"
  unfolding demo_parse_def demo_render_def by (rule letter_codec) (simp add: demo_post_def byte_of_def)

definition demo_chat :: chat_state where
  "demo_chat = \<lparr>cs_dir = ''chat'', cs_uploads_dir = ''up'', cs_max_upload_bytes = 10\<rparr>"

definition demo_ops :: "chat_op list" where
  "demo_ops = [Post ann_post, Post ben_post, Delete ''den'' ''a'' ''b'', Delete ''den'' ''b'' ''b'']"

lemma demo_ops_known: "\<forall>c \<in> set demo_ops. op_message c \<subseteq> {ann_post, ben_post}"
  by (simp add: demo_ops_def op_message_def)

lemma demo_own_name: "own_name ''den''"
  by code_simp

lemma run_chat_healthy:
  assumes "own_name room" "list_codec ms parse render"
  shows "dk_events d = [] \<Longrightarrow> \<forall>c \<in> set ops. op_message c \<subseteq> ms \<Longrightarrow> \<forall>r. set (history_of parse chat r d) \<subseteq> ms
    \<Longrightarrow> dk_events (run_chat parse render chat ops d) = []
      \<and> history_of parse chat room (run_chat parse render chat ops d) = room_history room ops (history_of parse chat room d)"
proof (induction ops arbitrary: d)
  case (Cons c ops)
  let ?d = "run_chat_op parse render chat c d"
  have step: "dk_events ?d = []" "history_of parse chat room ?d = room_step room c (history_of parse chat room d)"
    using op_healthy_own [OF assms, of d c chat] Cons.prems by auto
  have "\<forall>r. set (history_of parse chat r ?d) \<subseteq> ms"
    using op_known [OF assms(2), of d c chat] Cons.prems by auto
  from Cons.IH [OF step(1) _ this] Cons.prems(2) step(2) show ?case
    by (simp add: run_chat_def room_history_def)
qed (simp add: run_chat_def room_history_def)

lemma run_chat_any:
  assumes "own_name room" "list_codec ms parse render"
  shows "\<forall>c \<in> set ops. op_message c \<subseteq> ms \<Longrightarrow> set (history_of parse chat room d) \<subseteq> ms
    \<Longrightarrow> subseq (history_of parse chat room d) before \<Longrightarrow> length (history_of parse chat room d) \<le> MAX_CHAT_HISTORY
    \<Longrightarrow> subseq (history_of parse chat room (run_chat parse render chat ops d)) (before @ posted_in room ops)
      \<and> length (history_of parse chat room (run_chat parse render chat ops d)) \<le> MAX_CHAT_HISTORY"
proof (induction ops arbitrary: d before)
  case (Cons c ops)
  let ?d = "run_chat_op parse render chat c d"
  have c: "op_message c \<subseteq> ms" using Cons.prems(1) by simp
  have step: "history_of parse chat room ?d
    \<in> {history_of parse chat room d, [], room_step room c (history_of parse chat room d), room_step room c []}"
    by (rule op_own_room [OF assms c Cons.prems(2)])
  have sub: "subseq (room_step room c h) (before @ posted_in room [c])" if "subseq h before" for h
    using subseq_room_step [of room c h] that subseq_order.trans list_emb_append_mono [OF that subseq_order.order_refl]
    by blast
  have "subseq (history_of parse chat room ?d) (before @ posted_in room [c])"
    using step sub [OF Cons.prems(3)] sub [of "[]"] Cons.prems(3) by (auto intro: subseq_rev_drop_many)
  moreover have "set (history_of parse chat room ?d) \<subseteq> ms"
    using step room_step_known [OF c, of _ room] Cons.prems(2) by (metis empty_subsetI insertE list.set(1) singletonD)
  moreover have "length (history_of parse chat room ?d) \<le> MAX_CHAT_HISTORY"
    using step length_room_step [of _ room c] Cons.prems(4) by (metis insertE le0 list.size(3) singletonD)
  ultimately show ?case
    using Cons.IH [of ?d "before @ posted_in room [c]"] Cons.prems(1)
    by (simp add: run_chat_def posted_in_Cons [of room c ops])
qed (simp add: run_chat_def posted_in_def)

text \<open>
  C35. The history the service shows for a room, after any messages and deletions in any rooms, is the one
  its users mean: each message posted in the room at the end, at most the last thousand kept, and a message
  removed exactly where its own author deletes it by its id; what happens in other rooms has no effect. Every
  call on the files succeeds here, and the codec reads back what it wrote.
\<close>

theorem room_history_is_what_was_posted:
  assumes "own_name room" "list_codec ms parse render" "dk_events d = []"
    and "\<forall>c \<in> set ops. op_message c \<subseteq> ms" "\<forall>r. set (history_of parse chat r d) \<subseteq> ms"
  shows "fst (chat_get_history parse chat None room (run_chat parse render chat ops d))
    = Done (Inr (room_history room ops (history_of parse chat room d)))"
  using run_chat_healthy [OF assms(1,2,3,4,5)] chats.reads_all [of _ parse "cs_dir chat" room]
  by (simp add: chat_get_history_def io_bind_def io_return_def)

theorem room_history_is_what_was_posted_witness:
  "fst (chat_get_history demo_parse demo_chat None ''den'' (run_chat demo_parse demo_render demo_chat demo_ops \<lparr>dk_files = [], dk_events = []\<rparr>))
    = Done (Inr [ann_post])"
proof -
  have "room_history ''den'' demo_ops [] = [ann_post]" by code_simp
  then show ?thesis
    using room_history_is_what_was_posted [OF demo_own_name demo_codec, of "\<lparr>dk_files = [], dk_events = []\<rparr>" demo_ops demo_chat]
    by (simp add: demo_ops_known list_at_def hm_get_def)
qed

text \<open>. Whatever calls fail and wherever the process is stopped while messages are posted and deleted, the
  history shown for a room holds nothing but messages that were there before or have been posted in that
  room since, in their order, and at most a thousand: a write that is cut short loses messages and never
  invents, repeats or reorders one.
\<close>

lemma only_posted_messages_are_shown:
  assumes "own_name room" "list_codec ms parse render"
    and "\<forall>c \<in> set ops. op_message c \<subseteq> ms" "set (history_of parse chat room d) \<subseteq> ms"
    and "length (history_of parse chat room d) \<le> MAX_CHAT_HISTORY"
    and "fst (chat_get_history parse chat None room (run_chat parse render chat ops d)) = Done (Inr shown)"
  shows "subseq shown (history_of parse chat room d @ posted_in room ops) \<and> length shown \<le> MAX_CHAT_HISTORY"
proof -
  let ?d = "run_chat parse render chat ops d"
  obtain r d1 where load: "load_chat_history parse (cs_dir chat) room ?d = (r, d1)" by fastforce
  then have "r = Done shown"
    using assms(6) by (cases r) (auto simp: chat_get_history_def io_bind_def io_return_def)
  then have "shown = history_of parse chat room ?d \<or> shown = []" using chats.reads_list load by simp
  then show ?thesis
    using run_chat_any [OF assms(1-4) subseq_order.order_refl assms(5)] by auto
qed

text \<open>A read that fails once costs the history: the next message is written alone.\<close>

lemma failed_read_erases_history:
  assumes "fs_exists (chat_history_path dir (msg_room m)) d" "dk_events d = [Fails n]"
    and "list_codec ms parse render" "m \<in> ms"
  shows "\<exists>d'. save_chat_message_to_disk parse render dir m d = (Done (), d')
    \<and> list_at parse (chat_history_path dir (msg_room m)) d' = [m]"
proof -
  let ?path = "chat_history_path dir (msg_room m)"
  have "read_or_empty parse ?path d = (Done [], d\<lparr>dk_events := []\<rparr>)"
    using assms(2) by (simp add: io_defs fs_read_to_string_def fs_read_def fs_call_def next_event_def)
  then have "load_chat_history parse dir (msg_room m) d = (Done [], d\<lparr>dk_events := []\<rparr>)"
    using assms(1) by (simp add: load_chat_history_reads)
  moreover obtain d' where "write_history render ?path [m] (d\<lparr>dk_events := []\<rparr>) = (Done (), d')"
    "list_at parse ?path d' = [m]"
    by (rule write_history_healthy [OF assms(3), of "[m]" "d\<lparr>dk_events := []\<rparr>" ?path]) (use assms(4) in auto)
  ultimately show ?thesis
    by (auto simp: save_chat_message_to_disk_def io_bind_def last_messages_def MAX_CHAT_HISTORY_def)
qed

text \<open>The session log of a day: one more event at its end.\<close>

lemma session_event_is_appended:
  assumes "list_codec ms parse render" "dk_events d = []" "event \<in> ms"
    and "set (list_at parse (join_path dir (session_file_name now)) d) \<subseteq> ms"
  shows "\<exists>d'. append_session_event parse render dir now event d = (Done (), d')
    \<and> list_at parse (join_path dir (session_file_name now)) d'
      = list_at parse (join_path dir (session_file_name now)) d @ [event]"
proof -
  let ?path = "join_path dir (session_file_name now)"
  have "set (list_at parse ?path d @ [event]) \<subseteq> ms" using assms(3,4) by simp
  then obtain d' where "io_bind (read_or_empty parse ?path) (\<lambda>xs. write_history render ?path (xs @ [event])) d = (Done (), d')"
    "list_at parse ?path d' = list_at parse ?path d @ [event]"
    by (rule sessions.update_healthy [where f = "\<lambda>xs. xs @ [event]", OF assms(1) _ assms(2)])
  then show ?thesis by (auto simp: append_session_event_def Let_def)
qed

end
