(* ===== verification/Soundboard.thy ===== *)
theory Soundboard
  imports Chat
begin

text \<open>
  The sounds of the rooms (\<open>soundboard.rs\<close>): two maps over the same sounds, by room and by id, and a
  file that is written whole after every change. The codec, random ids and the clock are arguments;
  the directories exist.
\<close>

type_synonym u16 = "16 word"

record soundboard_sound =
  so_id :: string
  so_room_id :: string
  so_name :: string
  so_icon :: string
  so_volume :: u16
  so_file_name :: string
  so_mime :: "string option"
  so_uploaded_at :: u64

type_synonym sounds = "(string, soundboard_sound) hash_map"

record soundboard_state =
  sb_dir :: string
  sb_max_bytes :: nat
  sb_max_sounds_per_room :: nat
  sb_rooms :: "(string, sounds) hash_map"
  sb_index :: sounds

record soundboard_public =
  sp_id :: string
  sp_room_id :: string
  sp_name :: string
  sp_icon :: string
  sp_volume :: u16

record soundboard_upload_query =
  uq_room_id :: string
  uq_name :: "string option"
  uq_icon :: "string option"
  uq_volume :: "u16 option"

record soundboard_update_request =
  ur_room_id :: string
  ur_sound_id :: string
  ur_name :: "string option"
  ur_icon :: "string option"
  ur_volume :: "u16 option"

text \<open>U+1F50A\<close>

definition default_soundboard_icon :: string where
  "default_soundboard_icon = [CHR 0xF0, CHR 0x9F, CHR 0x94, CHR 0x8A]"

definition default_soundboard_volume :: u16 where "default_soundboard_volume = 100"

definition soundboard_public_of :: "soundboard_sound \<Rightarrow> soundboard_public" where
  "soundboard_public_of sound = \<lparr>sp_id = so_id sound, sp_room_id = so_room_id sound, sp_name = so_name sound,
     sp_icon = so_icon sound, sp_volume = so_volume sound\<rparr>"

section \<open>Files\<close>

definition soundboard_meta_path :: "string \<Rightarrow> string" where
  "soundboard_meta_path dir = join_path dir ''soundboard.json''"

definition soundboard_room_dir :: "string \<Rightarrow> string \<Rightarrow> string" where
  "soundboard_room_dir dir room_id = join_path dir (if is_safe_path_component room_id then room_id else ''_invalid'')"

definition soundboard_file_path :: "string \<Rightarrow> string \<Rightarrow> string \<Rightarrow> string" where
  "soundboard_file_path dir room_id file_name =
     join_path (soundboard_room_dir dir room_id) (if is_safe_path_component file_name then file_name else ''_invalid'')"

definition room_entry :: "string \<Rightarrow> soundboard_state \<Rightarrow> sounds" where
  "room_entry room_id board = or_default [] (hm_get (sb_rooms board) room_id)"

definition put_room :: "string \<Rightarrow> sounds \<Rightarrow> soundboard_state \<Rightarrow> soundboard_state" where
  "put_room room_id room board = board\<lparr>sb_rooms := hm_insert room_id room (sb_rooms board)\<rparr>"

definition put_index :: "soundboard_sound \<Rightarrow> soundboard_state \<Rightarrow> soundboard_state" where
  "put_index sound board = board\<lparr>sb_index := hm_insert (so_id sound) sound (sb_index board)\<rparr>"

text \<open>One sound of the file, left out when its own file is gone.\<close>

definition load_sound :: "soundboard_sound \<Rightarrow> soundboard_state \<Rightarrow> soundboard_state io" where
  "load_sound entry board =
     (let sound = (if blank (so_icon entry) then entry\<lparr>so_icon := default_soundboard_icon\<rparr> else entry) in
      io_bind (io_exists (soundboard_file_path (sb_dir board) (so_room_id sound) (so_file_name sound)))
        (\<lambda>present. io_return
          (if \<not> present then board
           else put_index sound
                  (put_room (so_room_id sound) (hm_insert (so_id sound) sound (room_entry (so_room_id sound) board)) board))))"

fun load_sounds :: "soundboard_sound list \<Rightarrow> soundboard_state \<Rightarrow> soundboard_state io" where
  "load_sounds [] board = io_return board"
| "load_sounds (s # ss) board = io_bind (load_sound s board) (load_sounds ss)"

definition load_soundboard ::
  "(string \<Rightarrow> soundboard_sound list option) \<Rightarrow> soundboard_state \<Rightarrow> soundboard_state io" where
  "load_soundboard parse board =
     (let meta = soundboard_meta_path (sb_dir board) in
      io_bind (io_exists meta) (\<lambda>present.
        if \<not> present then io_return board
        else io_bind (io_catch (io_bind (fs_read_to_string meta) (\<lambda>contents. io_return (parse contents)))
                        (\<lambda>_. io_return None))
               (\<lambda>loaded. case loaded of None \<Rightarrow> io_return board | Some sounds \<Rightarrow> load_sounds sounds board)))"

definition persist_soundboard ::
  "(soundboard_sound list \<Rightarrow> string option) \<Rightarrow> soundboard_state \<Rightarrow> unit io" where
  "persist_soundboard render board =
     write_history render (soundboard_meta_path (sb_dir board)) (map snd (sb_index board))"

section \<open>Requests\<close>

text \<open>An answer is what is wrong, or the sound.\<close>

type_synonym sound_answer = "status + (string + soundboard_public)"

definition soundboard_list ::
  "status option \<Rightarrow> string \<Rightarrow> soundboard_state \<Rightarrow> status + soundboard_public list" where
  "soundboard_list refused room_id board =
     (case refused of Some s \<Rightarrow> Inl s
      | None \<Rightarrow> Inr (map (soundboard_public_of \<circ> snd) (room_entry room_id board)))"

definition soundboard_file ::
  "(string \<Rightarrow> bool) \<Rightarrow> status option \<Rightarrow> string \<Rightarrow> soundboard_state \<Rightarrow> (status + string \<times> string) io" where
  "soundboard_file header_value_ok refused sound_id board =
     (case refused of Some s \<Rightarrow> io_return (Inl s)
      | None \<Rightarrow>
          case hm_get (sb_index board) sound_id of None \<Rightarrow> io_return (Inl NOT_FOUND)
          | Some sound \<Rightarrow>
              let mime = or_default ''application/octet-stream'' (so_mime sound) in
              serve_file (if header_value_ok mime then mime else ''application/octet-stream'')
                (soundboard_file_path (sb_dir board) (so_room_id sound) (so_file_name sound)))"

definition sound_extension :: "string \<Rightarrow> string" where
  "sound_extension mime =
     (if mime = ''audio/mpeg'' then ''mp3''
      else if mime = ''audio/wav'' then ''wav''
      else if mime = ''audio/ogg'' then ''ogg''
      else if mime = ''audio/webm'' then ''webm''
      else if mime = ''audio/mp4'' then ''mp4'' else ''bin'')"

definition uploaded_sound ::
  "string \<Rightarrow> u64 \<Rightarrow> string option \<Rightarrow> soundboard_upload_query \<Rightarrow> soundboard_sound" where
  "uploaded_sound sid now_ms mime query =
     \<lparr>so_id = sid, so_room_id = uq_room_id query,
      so_name = take_chars 60 (trim (or_default ''Sound'' (uq_name query))),
      so_icon = or_default default_soundboard_icon (uq_icon query),
      so_volume = min (or_default default_soundboard_volume (uq_volume query)) 200,
      so_file_name = sid @ ''.'' @ sound_extension (or_default [] mime),
      so_mime = mime, so_uploaded_at = now_ms\<rparr>"

definition soundboard_upload ::
  "(soundboard_sound list \<Rightarrow> string option) \<Rightarrow> status option \<Rightarrow> string \<Rightarrow> u64 \<Rightarrow> string option
   \<Rightarrow> soundboard_upload_query \<Rightarrow> string \<Rightarrow> soundboard_state \<Rightarrow> (sound_answer \<times> soundboard_state) io" where
  "soundboard_upload render refused sid now_ms mime query body board =
     (case refused of Some s \<Rightarrow> io_return (Inl s, board)
      | None \<Rightarrow>
          if blank (uq_room_id query) then io_return (Inr (Inl ''Missing roomId''), board)
          else if body = [] then io_return (Inr (Inl ''Empty audio payload''), board)
          else if sb_max_bytes board < length body then io_return (Inr (Inl ''Audio file too large''), board)
          else
            let room_id = uq_room_id query;
                room = room_entry room_id board;
                board1 = put_room room_id room board in
            if sb_max_sounds_per_room board \<le> length room
            then io_return (Inr (Inl ''Soundboard is full for this room''), board1)
            else
              let sound = uploaded_sound sid now_ms mime query;
                  path = join_path (soundboard_room_dir (sb_dir board) room_id) (so_file_name sound);
                  board2 = put_index sound (put_room room_id (hm_insert sid sound room) board1) in
              io_bind (io_catch (io_then (fs_write path body) (io_return True)) (\<lambda>_. io_return False))
                (\<lambda>saved. if \<not> saved then io_return (Inr (Inl ''Unable to save audio''), board1)
                   else io_then (persist_soundboard render board2)
                          (io_return (Inr (Inr (soundboard_public_of sound)), board2))))"

definition updated_sound :: "u64 \<Rightarrow> soundboard_update_request \<Rightarrow> soundboard_sound \<Rightarrow> soundboard_sound" where
  "updated_sound now_ms payload sound =
     sound\<lparr>so_name := (case ur_name payload of None \<Rightarrow> so_name sound | Some n \<Rightarrow> take_chars 60 (trim n)),
           so_icon := or_default (so_icon sound) (ur_icon payload),
           so_volume := (case ur_volume payload of None \<Rightarrow> so_volume sound | Some v \<Rightarrow> min v 200),
           so_uploaded_at := now_ms\<rparr>"

definition soundboard_update ::
  "(soundboard_sound list \<Rightarrow> string option) \<Rightarrow> status option \<Rightarrow> u64 \<Rightarrow> soundboard_update_request
   \<Rightarrow> soundboard_state \<Rightarrow> (sound_answer \<times> soundboard_state) io" where
  "soundboard_update render refused now_ms payload board =
     (case refused of Some s \<Rightarrow> io_return (Inl s, board)
      | None \<Rightarrow>
          case hm_get (sb_index board) (ur_sound_id payload) of
            None \<Rightarrow> io_return (Inr (Inl ''Sound not found''), board)
          | Some sound \<Rightarrow>
              if so_room_id sound \<noteq> ur_room_id payload then io_return (Inr (Inl ''Room mismatch''), board)
              else
                let updated = updated_sound now_ms payload sound;
                    board1 = board\<lparr>sb_index := hm_insert (ur_sound_id payload) updated (sb_index board)\<rparr>;
                    board2 = (case hm_get (sb_rooms board1) (so_room_id updated) of None \<Rightarrow> board1
                       | Some room \<Rightarrow> put_room (so_room_id updated) (hm_insert (so_id updated) updated room) board1) in
                io_then (persist_soundboard render board2)
                  (io_return (Inr (Inr (soundboard_public_of updated)), board2)))"

end
