(* ===== verification/SoundboardProperties.thy ===== *)
theory SoundboardProperties
  imports Soundboard ChatProperties
begin

text \<open>
  The two maps of the soundboard hold the same sounds, within the limits of a room, a name and a volume,
  and come back from the file as they were, but for the sounds whose own files are gone.
\<close>

section \<open>The maps agree\<close>

definition sound_ok :: "soundboard_sound \<Rightarrow> bool" where
  "sound_ok s \<longleftrightarrow> unat (so_volume s) \<le> 200 \<and> length (utf8_chars (so_name s)) \<le> 60"

definition board_ok :: "soundboard_state \<Rightarrow> bool" where
  "board_ok b \<longleftrightarrow> hm_ok (sb_index b)
     \<and> (\<forall>i s. hm_get (sb_index b) i = Some s
          \<longrightarrow> so_id s = i \<and> sound_ok s \<and> hm_get (room_entry (so_room_id s) b) i = Some s)
     \<and> (\<forall>r i s. hm_get (room_entry r b) i = Some s \<longrightarrow> so_room_id s = r \<and> hm_get (sb_index b) i = Some s)
     \<and> (\<forall>r. hm_ok (room_entry r b) \<and> length (room_entry r b) \<le> sb_max_sounds_per_room b)"

text \<open>A sound put in both maps.\<close>

definition place_sound :: "soundboard_sound \<Rightarrow> soundboard_state \<Rightarrow> soundboard_state" where
  "place_sound s b = put_index s (put_room (so_room_id s) (hm_insert (so_id s) s (room_entry (so_room_id s) b)) b)"

lemma board_fields [simp]:
  "sb_dir (put_index s b) = sb_dir b" "sb_max_sounds_per_room (put_index s b) = sb_max_sounds_per_room b"
  "sb_rooms (put_index s b) = sb_rooms b" "room_entry r (put_index s b) = room_entry r b"
  "sb_dir (put_room r' m b) = sb_dir b" "sb_max_sounds_per_room (put_room r' m b) = sb_max_sounds_per_room b"
  "sb_index (put_room r' m b) = sb_index b" "sb_index (put_index s b) = hm_insert (so_id s) s (sb_index b)"
  "room_entry r (put_room r' m b) = (if r = r' then m else room_entry r b)"
  by (simp_all add: put_index_def put_room_def room_entry_def hm_simps or_default_def)

lemma placed [simp]:
  "sb_dir (place_sound s b) = sb_dir b" "sb_max_sounds_per_room (place_sound s b) = sb_max_sounds_per_room b"
  "sb_index (place_sound s b) = hm_insert (so_id s) s (sb_index b)"
  "room_entry r (place_sound s b) =
     (if r = so_room_id s then hm_insert (so_id s) s (room_entry r b) else room_entry r b)"
  by (simp_all add: place_sound_def)

text \<open>Boards that hold the same; an empty room is no room.\<close>

definition same_board :: "soundboard_state \<Rightarrow> soundboard_state \<Rightarrow> bool" where
  "same_board b b' \<longleftrightarrow> sb_index b' = sb_index b \<and> sb_max_sounds_per_room b' = sb_max_sounds_per_room b
     \<and> (\<forall>r. room_entry r b' = room_entry r b)"

lemma board_ok_same: "same_board b b' \<Longrightarrow> board_ok b' = board_ok b"
  by (simp add: board_ok_def same_board_def)

lemma room_of_known:
  "board_ok b \<Longrightarrow> hm_get (sb_index b) i = Some old
   \<Longrightarrow> hm_get (room_entry r b) i = (if r = so_room_id old then Some old else None)"
  unfolding board_ok_def by (metis not_None_eq option.inject)

lemma room_of_unknown: "board_ok b \<Longrightarrow> hm_get (sb_index b) i = None \<Longrightarrow> hm_get (room_entry r b) i = None"
  unfolding board_ok_def by (metis not_None_eq option.distinct(1))

lemma place_ok:
  assumes ok: "board_ok b" and s: "sound_ok s"
    and room: "hm_get (sb_index b) (so_id s) = None \<and> length (room_entry (so_room_id s) b) < sb_max_sounds_per_room b
      \<or> (\<exists>old. hm_get (sb_index b) (so_id s) = Some old \<and> so_room_id old = so_room_id s)"
  shows "board_ok (place_sound s b)"
proof -
  let ?b = "place_sound s b"
  have index: "hm_ok (sb_index b)"
    and known: "\<And>i x. hm_get (sb_index b) i = Some x
        \<Longrightarrow> so_id x = i \<and> sound_ok x \<and> hm_get (room_entry (so_room_id x) b) i = Some x"
    and in_room: "\<And>r i x. hm_get (room_entry r b) i = Some x \<Longrightarrow> so_room_id x = r \<and> hm_get (sb_index b) i = Some x"
    and rooms: "\<And>r. hm_ok (room_entry r b)" "\<And>r. length (room_entry r b) \<le> sb_max_sounds_per_room b"
    using ok unfolding board_ok_def by blast+
  have elsewhere: "hm_get (room_entry r b) (so_id s) = None" if "r \<noteq> so_room_id s" for r
    using room that room_of_known [OF ok] room_of_unknown [OF ok] by metis
  have limit: "length (hm_insert (so_id s) s (room_entry (so_room_id s) b)) \<le> sb_max_sounds_per_room b"
    using room
  proof
    assume "hm_get (sb_index b) (so_id s) = None \<and> length (room_entry (so_room_id s) b) < sb_max_sounds_per_room b"
    then show ?thesis using hm_length_insert [of "so_id s" s "room_entry (so_room_id s) b"] by linarith
  next
    assume "\<exists>old. hm_get (sb_index b) (so_id s) = Some old \<and> so_room_id old = so_room_id s"
    then obtain old where "hm_get (room_entry (so_room_id s) b) (so_id s) = Some old"
      using room_of_known [OF ok] by metis
    then show ?thesis by (simp add: hm_length_insert_known rooms(2))
  qed
  have known': "so_id x = i \<and> sound_ok x \<and> hm_get (room_entry (so_room_id x) ?b) i = Some x"
    if "hm_get (sb_index ?b) i = Some x" for i x
  proof (cases "i = so_id s")
    case False
    with that have "hm_get (sb_index b) i = Some x" by (simp add: hm_simps)
    from known [OF this] False show ?thesis by (auto simp: hm_simps)
  qed (use that s in \<open>simp add: hm_simps\<close>)
  have in_room': "so_room_id x = r \<and> hm_get (sb_index ?b) i = Some x" if "hm_get (room_entry r ?b) i = Some x" for r i x
  proof (cases "i = so_id s")
    case True
    with that elsewhere show ?thesis by (cases "r = so_room_id s") (auto simp: hm_simps)
  next
    case False
    with that have "hm_get (room_entry r b) i = Some x" by (simp add: hm_simps split: if_splits)
    from in_room [OF this] False show ?thesis by (simp add: hm_simps)
  qed
  have "hm_ok (room_entry r ?b) \<and> length (room_entry r ?b) \<le> sb_max_sounds_per_room ?b" for r
    using rooms limit by simp
  moreover have "hm_ok (sb_index ?b)" by (simp add: index)
  ultimately show ?thesis unfolding board_ok_def using known' in_room' by blast
qed

section \<open>Uploads and changes\<close>

lemma uploaded_ok: "sound_ok (uploaded_sound sid now mime query)"
  by (simp add: sound_ok_def uploaded_sound_def take_chars_le min_def word_le_nat_alt)

lemma updated_ok: "sound_ok s \<Longrightarrow> sound_ok (updated_sound now payload s)"
  by (auto simp: sound_ok_def updated_sound_def take_chars_le min_def word_le_nat_alt split: option.splits)

datatype board_op =
    Upload string u64 "string option" soundboard_upload_query string
  | Update u64 soundboard_update_request

definition run_board_op ::
  "(soundboard_sound list \<Rightarrow> string option) \<Rightarrow> board_op \<Rightarrow> soundboard_state \<Rightarrow> soundboard_state io" where
  "run_board_op render c board =
     io_bind (case c of
         Upload sid now mime query body \<Rightarrow> soundboard_upload render None sid now mime query body board
       | Update now payload \<Rightarrow> soundboard_update render None now payload board)
       (\<lambda>(_, b). io_return b)"

fun run_board ::
  "(soundboard_sound list \<Rightarrow> string option) \<Rightarrow> board_op list \<Rightarrow> soundboard_state \<Rightarrow> soundboard_state io" where
  "run_board render [] board = io_return board"
| "run_board render (c # cs) board = io_bind (run_board_op render c board) (run_board render cs)"

text \<open>The ids that uploads draw are new.\<close>

definition drawn_ids :: "board_op list \<Rightarrow> string list" where
  "drawn_ids cs = concat (map (\<lambda>c. case c of Upload sid _ _ _ _ \<Rightarrow> [sid] | Update _ _ \<Rightarrow> []) cs)"

definition fresh_ids :: "board_op list \<Rightarrow> soundboard_state \<Rightarrow> bool" where
  "fresh_ids cs b \<longleftrightarrow> distinct (drawn_ids cs) \<and> list_all (\<lambda>sid. hm_get (sb_index b) sid = None) (drawn_ids cs)"

lemma upload_cases:
  assumes "soundboard_upload render None sid now mime query body b d = (Done (answer, b'), d')"
  shows "same_board b b'
    \<or> length (room_entry (uq_room_id query) b) < sb_max_sounds_per_room b
      \<and> same_board (place_sound (uploaded_sound sid now mime query) b) b'"
proof -
  let ?room = "uq_room_id query" and ?sound = "uploaded_sound sid now mime query"
  let ?b1 = "put_room ?room (room_entry ?room b) b"
  let ?b2 = "put_index ?sound (put_room ?room (hm_insert sid ?sound (room_entry ?room b)) ?b1)"
  have fields: "so_room_id ?sound = ?room" "so_id ?sound = sid" by (simp_all add: uploaded_sound_def)
  have "same_board b ?b1" "same_board (place_sound ?sound b) ?b2"
    by (simp_all add: same_board_def fields)
  moreover have "b' = b \<or> b' = ?b1 \<or> \<not> sb_max_sounds_per_room b \<le> length (room_entry ?room b) \<and> b' = ?b2"
    using assms unfolding soundboard_upload_def Let_def io_bind_def io_then_def io_return_def
    by (auto split: if_splits prod.splits outcome.splits)
  moreover have "same_board b b" by (simp add: same_board_def)
  ultimately show ?thesis by auto
qed

lemma sound_update_cases:
  assumes "soundboard_update render None now payload b d = (Done (answer, b'), d')" and ok: "board_ok b"
  shows "b' = b \<or> (\<exists>old. hm_get (sb_index b) (so_id old) = Some old
      \<and> so_room_id (updated_sound now payload old) = so_room_id old \<and> so_id (updated_sound now payload old) = so_id old
      \<and> same_board (place_sound (updated_sound now payload old) b) b')"
proof (cases "hm_get (sb_index b) (ur_sound_id payload)")
  case (Some old)
  let ?new = "updated_sound now payload old" and ?sid = "ur_sound_id payload"
  have fields: "so_room_id ?new = so_room_id old" "so_id ?new = so_id old" by (simp_all add: updated_sound_def)
  have sid: "so_id old = ?sid" using Some ok by (simp add: board_ok_def)
  have known: "hm_get (room_entry (so_room_id old) b) ?sid = Some old" using room_of_known [OF ok Some] by simp
  then obtain room where room: "hm_get (sb_rooms b) (so_room_id old) = Some room" "room_entry (so_room_id old) b = room"
    by (cases "hm_get (sb_rooms b) (so_room_id old)") (auto simp: room_entry_def or_default_def)
  let ?b2 = "put_room (so_room_id old) (hm_insert ?sid ?new room) (b\<lparr>sb_index := hm_insert ?sid ?new (sb_index b)\<rparr>)"
  have "same_board (place_sound ?new b) ?b2"
    using room by (simp add: same_board_def fields sid) (simp add: room_entry_def)
  moreover have "b' = b \<or> b' = ?b2"
    using assms(1) Some room(1) unfolding soundboard_update_def Let_def io_bind_def io_then_def io_return_def
    by (auto simp: fields sid split: if_splits prod.splits outcome.splits)
  ultimately show ?thesis using Some sid fields by auto
qed (use assms(1) in \<open>simp add: soundboard_update_def io_return_def\<close>)

lemma run_board_op_ok:
  assumes ok: "board_ok b" and run: "run_board_op render c b d = (Done b', d')"
    and "\<forall>sid \<in> set (drawn_ids [c]). hm_get (sb_index b) sid = None"
  shows "board_ok b' \<and> (\<forall>sid. hm_get (sb_index b) sid = None \<longrightarrow> sid \<notin> set (drawn_ids [c]) \<longrightarrow> hm_get (sb_index b') sid = None)"
proof (cases c)
  case (Upload sid now mime query body)
  let ?sound = "uploaded_sound sid now mime query"
  have fields: "so_room_id ?sound = uq_room_id query" "so_id ?sound = sid" by (simp_all add: uploaded_sound_def)
  obtain answer where "soundboard_upload render None sid now mime query body b d = (Done (answer, b'), d')"
    using run Upload by (auto simp: run_board_op_def io_bind_def io_return_def split: outcome.splits prod.splits)
  from upload_cases [OF this] show ?thesis
  proof
    assume same: "same_board b b'"
    then have "board_ok b'" using ok board_ok_same by blast
    with same show ?thesis by (simp add: same_board_def)
  next
    assume placed: "length (room_entry (uq_room_id query) b) < sb_max_sounds_per_room b \<and> same_board (place_sound ?sound b) b'"
    have "hm_get (sb_index b) sid = None" using assms(3) Upload by (simp add: drawn_ids_def)
    then have "board_ok (place_sound ?sound b)" using placed by (intro place_ok [OF ok uploaded_ok]) (simp add: fields)
    then have "board_ok b'" using placed board_ok_same by blast
    with placed show ?thesis by (auto simp: same_board_def hm_simps fields Upload drawn_ids_def)
  qed
next
  case (Update now payload)
  obtain answer where "soundboard_update render None now payload b d = (Done (answer, b'), d')"
    using run Update by (auto simp: run_board_op_def io_bind_def io_return_def split: outcome.splits prod.splits)
  from sound_update_cases [OF this ok] show ?thesis
  proof (elim disjE exE conjE)
    fix old
    let ?new = "updated_sound now payload old"
    assume old: "hm_get (sb_index b) (so_id old) = Some old" "so_room_id ?new = so_room_id old" "so_id ?new = so_id old"
      "same_board (place_sound ?new b) b'"
    have "sound_ok old" using ok old(1) by (simp add: board_ok_def)
    then have "board_ok (place_sound ?new b)" using old by (intro place_ok [OF ok updated_ok]) auto
    then have "board_ok b'" using old(4) board_ok_same by blast
    with old show ?thesis by (auto simp: same_board_def hm_simps)
  qed (use ok in simp)
qed

lemma drawn_ids_Cons: "drawn_ids (c # cs) = drawn_ids [c] @ drawn_ids cs"
  by (simp add: drawn_ids_def)

lemma run_board_ok:
  "board_ok b \<Longrightarrow> fresh_ids cs b \<Longrightarrow> run_board render cs b d = (Done b', d') \<Longrightarrow> board_ok b'"
proof (induction cs arbitrary: b d)
  case (Cons c cs)
  from Cons.prems(3) obtain b1 d1 where c: "run_board_op render c b d = (Done b1, d1)"
    and cs: "run_board render cs b1 d1 = (Done b', d')"
    by (auto simp: io_bind_def split: prod.splits outcome.splits)
  have "\<forall>sid \<in> set (drawn_ids [c]). hm_get (sb_index b) sid = None"
    using Cons.prems(2) by (simp add: fresh_ids_def drawn_ids_Cons [of c cs] list_all_iff)
  note step = run_board_op_ok [OF Cons.prems(1) c this]
  then have "fresh_ids cs b1"
    using Cons.prems(2) by (auto simp: fresh_ids_def drawn_ids_Cons [of c cs] list_all_iff)
  with step Cons.IH [OF _ _ cs] show ?case by blast
qed (simp add: io_return_def)

section \<open>After a restart\<close>

definition restored_sound :: "soundboard_sound \<Rightarrow> soundboard_sound" where
  "restored_sound s = (if blank (so_icon s) then s\<lparr>so_icon := default_soundboard_icon\<rparr> else s)"

definition has_file :: "string \<Rightarrow> disk \<Rightarrow> soundboard_sound \<Rightarrow> bool" where
  "has_file dir d s \<longleftrightarrow> fs_exists (soundboard_file_path dir (so_room_id s) (so_file_name s)) d"

definition returned :: "string \<Rightarrow> disk \<Rightarrow> soundboard_sound option \<Rightarrow> soundboard_sound option" where
  "returned dir d x = (case x of Some s \<Rightarrow> if has_file dir d s then Some (restored_sound s) else None | None \<Rightarrow> None)"

lemma restored_fields [simp]: "so_id (restored_sound s) = so_id s" "so_room_id (restored_sound s) = so_room_id s"
  "so_file_name (restored_sound s) = so_file_name s"
  by (simp_all add: restored_sound_def)

lemma load_sound_exact:
  "load_sound s b d = (Done (if has_file (sb_dir b) d s then place_sound (restored_sound s) b else b), d)"
  by (simp add: load_sound_def Let_def io_bind_def io_exists_def io_return_def restored_sound_def [symmetric]
      has_file_def place_sound_def)

text \<open>Sounds with ids of their own, loaded one after the other.\<close>

lemma load_sounds_exact:
  "distinct (map so_id ss) \<Longrightarrow> \<exists>b'. load_sounds ss b d = (Done b', d) \<and> sb_dir b' = sb_dir b
     \<and> (\<forall>i. hm_get (sb_index b') i =
          (case find (\<lambda>s. so_id s = i) ss of
             Some s \<Rightarrow> if has_file (sb_dir b) d s then Some (restored_sound s) else hm_get (sb_index b) i
           | None \<Rightarrow> hm_get (sb_index b) i))
     \<and> (\<forall>r i. hm_get (room_entry r b') i =
          (case find (\<lambda>s. so_id s = i) ss of
             Some s \<Rightarrow> if has_file (sb_dir b) d s \<and> so_room_id s = r then Some (restored_sound s)
                       else hm_get (room_entry r b) i
           | None \<Rightarrow> hm_get (room_entry r b) i))"
proof (induction ss arbitrary: b)
  case (Cons s ss)
  let ?b = "if has_file (sb_dir b) d s then place_sound (restored_sound s) b else b"
  have dir: "sb_dir ?b = sb_dir b" by simp
  have rest: "find (\<lambda>x. so_id x = so_id s) ss = None" using Cons.prems by (auto simp: find_None_iff) (metis image_eqI)
  from Cons.IH [of ?b] Cons.prems obtain b' where b': "load_sounds ss ?b d = (Done b', d)" "sb_dir b' = sb_dir b"
    "\<And>i. hm_get (sb_index b') i = (case find (\<lambda>s. so_id s = i) ss of
             Some s \<Rightarrow> if has_file (sb_dir b) d s then Some (restored_sound s) else hm_get (sb_index ?b) i
           | None \<Rightarrow> hm_get (sb_index ?b) i)"
    "\<And>r i. hm_get (room_entry r b') i = (case find (\<lambda>s. so_id s = i) ss of
             Some s \<Rightarrow> if has_file (sb_dir b) d s \<and> so_room_id s = r then Some (restored_sound s)
                       else hm_get (room_entry r ?b) i
           | None \<Rightarrow> hm_get (room_entry r ?b) i)"
    unfolding dir by auto
  have "load_sounds (s # ss) b d = (Done b', d)"
    using b'(1) by (simp add: io_bind_def load_sound_exact)
  moreover have "hm_get (sb_index b') i = (case find (\<lambda>s. so_id s = i) (s # ss) of
             Some s \<Rightarrow> if has_file (sb_dir b) d s then Some (restored_sound s) else hm_get (sb_index b) i
           | None \<Rightarrow> hm_get (sb_index b) i)" for i
    using rest by (simp add: b'(3) hm_simps split: option.splits) auto
  moreover have "hm_get (room_entry r b') i = (case find (\<lambda>s. so_id s = i) (s # ss) of
             Some s \<Rightarrow> if has_file (sb_dir b) d s \<and> so_room_id s = r then Some (restored_sound s)
                       else hm_get (room_entry r b) i
           | None \<Rightarrow> hm_get (room_entry r b) i)" for r i
    using rest by (simp add: b'(4) hm_simps split: option.splits) auto
  ultimately show ?case using b'(2) by blast
qed (simp add: io_return_def)

lemma find_value: "map (f \<circ> snd) m = map fst m \<Longrightarrow> find (\<lambda>x. f x = i) (map snd m) = hm_get m i"
  unfolding hm_get_def by (induction m) auto

lemma find_sound:
  assumes "board_ok b"
  shows "find (\<lambda>s. so_id s = i) (map snd (sb_index b)) = hm_get (sb_index b) i"
    and "distinct (map so_id (map snd (sb_index b)))"
proof -
  have ok: "hm_ok (sb_index b)" "\<And>i s. hm_get (sb_index b) i = Some s \<Longrightarrow> so_id s = i"
    using assms unfolding board_ok_def by blast+
  have "so_id (snd p) = fst p" if "p \<in> set (sb_index b)" for p
    using ok that hm_get_eq_Some [of "sb_index b" "fst p" "snd p"] by simp
  then have keys: "map (so_id \<circ> snd) (sb_index b) = map fst (sb_index b)" by simp
  show "distinct (map so_id (map snd (sb_index b)))" unfolding map_map keys using ok(1) by (simp add: hm_ok_def)
  show "find (\<lambda>s. so_id s = i) (map snd (sb_index b)) = hm_get (sb_index b) i" by (rule find_value [OF keys])
qed

definition emptied :: "soundboard_state \<Rightarrow> soundboard_state" where
  "emptied b = b\<lparr>sb_rooms := [], sb_index := []\<rparr>"

lemma emptied_fields [simp]: "sb_dir (emptied b) = sb_dir b" "sb_index (emptied b) = []" "room_entry r (emptied b) = []"
  by (simp_all add: emptied_def room_entry_def or_default_def)

lemma persist_exact:
  assumes "list_codec ms parse render" "set (map snd (sb_index b)) \<subseteq> ms" "dk_events d = []"
  obtains d' where "persist_soundboard render b d = (Done (), d')"
    "\<And>b0. sb_dir b0 = sb_dir b \<Longrightarrow> load_soundboard parse b0 d' = load_sounds (map snd (sb_index b)) b0 d'"
proof -
  let ?meta = "soundboard_meta_path (sb_dir b)"
  obtain json where json: "render (map snd (sb_index b)) = Some json" "utf8_valid json"
    "parse json = Some (map snd (sb_index b))"
    using list_codecD [OF assms(1,2)] by blast
  obtain d' where d': "fs_write ?meta json d = (Done (), d')" "dk_events d' = []"
    "dk_files d' = hm_insert ?meta json (dk_files d)"
    using fs_write_healthy [OF assms(3)] by blast
  have "persist_soundboard render b d = (Done (), d')"
    using d'(1) json(1) by (simp add: persist_soundboard_def write_history_def io_defs)
  moreover have "load_soundboard parse b0 d' = load_sounds (map snd (sb_index b)) b0 d'" if "sb_dir b0 = sb_dir b" for b0
    using d'(2,3) json(2,3) that
    by (simp add: load_soundboard_def Let_def io_defs io_exists_def fs_exists_def fs_read_to_string_healthy hm_simps)
  ultimately show thesis by (rule that)
qed

section \<open>Properties\<close>

text \<open>A board with two sounds, one of which has lost its file.\<close>

definition demo_sound :: "string \<Rightarrow> soundboard_sound" where
  "demo_sound i = \<lparr>so_id = i, so_room_id = ''den'', so_name = i, so_icon = ''!'', so_volume = 100,
     so_file_name = i, so_mime = None, so_uploaded_at = 1\<rparr>"

definition so_letter :: "soundboard_sound \<Rightarrow> char" where "so_letter s = hd (so_id s)"
definition so_of_letter :: "char \<Rightarrow> soundboard_sound" where "so_of_letter c = demo_sound [c]"

definition demo_board :: soundboard_state where
  "demo_board = \<lparr>sb_dir = ''d'', sb_max_bytes = 10, sb_max_sounds_per_room = 2, sb_rooms = [], sb_index = []\<rparr>"

definition demo_full_board :: soundboard_state where
  "demo_full_board = place_sound (demo_sound ''b'') (place_sound (demo_sound ''a'') demo_board)"

definition quiet_disk :: disk where "quiet_disk = \<lparr>dk_files = [], dk_events = []\<rparr>"

definition demo_sound_disk :: disk where
  "demo_sound_disk = quiet_disk\<lparr>dk_files := [(''d/den/a'', ''!'')]\<rparr>"

definition demo_board_ops :: "board_op list" where
  "demo_board_ops =
     [Upload ''a'' 1 None \<lparr>uq_room_id = ''den'', uq_name = None, uq_icon = None, uq_volume = Some 300\<rparr> ''!'',
      Update 2 \<lparr>ur_room_id = ''den'', ur_sound_id = ''a'', ur_name = Some ''Bell'', ur_icon = None, ur_volume = None\<rparr>]"

lemma demo_board_ok: "board_ok demo_board"
  by (simp add: board_ok_def demo_board_def room_entry_def or_default_def)

lemma demo_full_board_ok: "board_ok demo_full_board"
proof -
  have "sound_ok (demo_sound ''a'')" "sound_ok (demo_sound ''b'')" by code_simp+
  moreover have "hm_get (sb_index demo_board) (so_id (demo_sound ''a'')) = None
      \<and> length (room_entry (so_room_id (demo_sound ''a'')) demo_board) < sb_max_sounds_per_room demo_board" by code_simp
  moreover have "hm_get (sb_index (place_sound (demo_sound ''a'') demo_board)) (so_id (demo_sound ''b'')) = None
      \<and> length (room_entry (so_room_id (demo_sound ''b'')) (place_sound (demo_sound ''a'') demo_board))
        < sb_max_sounds_per_room (place_sound (demo_sound ''a'') demo_board)" by code_simp
  ultimately show ?thesis
    unfolding demo_full_board_def by (intro place_ok [OF _ _ disjI1] demo_board_ok)
qed
text \<open>
  C39. Uploads and changes of sounds, in any order, with any requests and with any failure of the disk, keep the
  two maps of the soundboard in step: a sound is found by its id exactly where its room lists it, once, no
  room holds more sounds than it may, no name more than 60 characters and no volume is above 200. The ids that
  uploads draw are new.
\<close>

theorem soundboard_stays_consistent:
  assumes "board_ok b" "fresh_ids cs b" "run_board render cs b d = (Done b', d')"
  shows "board_ok b'"
  by (rule run_board_ok [OF assms])

theorem soundboard_stays_consistent_witness:
  "\<exists>b'. fst (run_board (letter_render so_letter) demo_board_ops demo_board quiet_disk) = Done b'
     \<and> board_ok b' \<and> hm_get (sb_index b') ''a'' \<noteq> None"
proof -
  let ?r = "run_board (letter_render so_letter) demo_board_ops demo_board quiet_disk"
  have "(case fst ?r of Done b' \<Rightarrow> hm_get (sb_index b') ''a'' \<noteq> None | _ \<Rightarrow> False)" by code_simp
  then obtain b' where b': "fst ?r = Done b'" "hm_get (sb_index b') ''a'' \<noteq> None" by (auto split: outcome.splits)
  then have run: "?r = (Done b', snd ?r)" by (metis prod.collapse)
  have "fresh_ids demo_board_ops demo_board" by code_simp
  with b' soundboard_stays_consistent [OF demo_board_ok _ run] show ?thesis by blast
qed

text \<open>
  C40. Loading the soundboard after a restart gives the sounds that were last written, by id and by room, each
  with the default icon where it had none, and leaves out exactly those whose own file is gone.
\<close>

theorem soundboard_survives_restart:
  assumes "board_ok b" "list_codec ms parse render" "set (map snd (sb_index b)) \<subseteq> ms" "dk_events d = []"
    and "persist_soundboard render b d = (Done (), d')"
  shows "\<exists>b'. fst (load_soundboard parse (emptied b) d') = Done b'
    \<and> (\<forall>i. hm_get (sb_index b') i = returned (sb_dir b) d' (hm_get (sb_index b) i))
    \<and> (\<forall>r i. hm_get (room_entry r b') i = returned (sb_dir b) d' (hm_get (room_entry r b) i))"
proof -
  obtain d1 where "persist_soundboard render b d = (Done (), d1)"
    "load_soundboard parse (emptied b) d1 = load_sounds (map snd (sb_index b)) (emptied b) d1"
    by (rule persist_exact [OF assms(2,3,4)]) simp
  then have load: "load_soundboard parse (emptied b) d' = load_sounds (map snd (sb_index b)) (emptied b) d'"
    using assms(5) by simp
  from load_sounds_exact [OF find_sound(2) [OF assms(1)], of "emptied b" d']
  obtain b' where b': "load_sounds (map snd (sb_index b)) (emptied b) d' = (Done b', d')"
    "\<forall>i. hm_get (sb_index b') i = (case hm_get (sb_index b) i of
        Some s \<Rightarrow> if has_file (sb_dir b) d' s then Some (restored_sound s) else None | None \<Rightarrow> None)"
    "\<forall>r i. hm_get (room_entry r b') i = (case hm_get (sb_index b) i of
        Some s \<Rightarrow> if has_file (sb_dir b) d' s \<and> so_room_id s = r then Some (restored_sound s) else None | None \<Rightarrow> None)"
    unfolding emptied_fields find_sound(1) [OF assms(1)] hm_get_Nil by blast
  have "hm_get (room_entry r b') i = returned (sb_dir b) d' (hm_get (room_entry r b) i)" for r i
    using b'(3) room_of_known [OF assms(1)] room_of_unknown [OF assms(1)]
    by (cases "hm_get (sb_index b) i") (auto simp: returned_def)
  with b' load show ?thesis by (intro exI [of _ b']) (auto simp: returned_def split: option.splits)
qed

theorem soundboard_survives_restart_witness:
  "\<exists>d' b'. persist_soundboard (letter_render so_letter) demo_full_board demo_sound_disk = (Done (), d')
     \<and> fst (load_soundboard (letter_parse so_of_letter) (emptied demo_full_board) d') = Done b'
     \<and> hm_get (sb_index b') ''a'' = Some (demo_sound ''a'') \<and> hm_get (sb_index b') ''b'' = None"
proof -
  let ?p = "persist_soundboard (letter_render so_letter) demo_full_board demo_sound_disk"
  have "fst ?p = Done ()" by code_simp
  then have p: "?p = (Done (), snd ?p)" by (metis prod.collapse)
  have codec: "list_codec {demo_sound ''a'', demo_sound ''b''} (letter_parse so_of_letter) (letter_render so_letter)"
    by (rule letter_codec) (simp add: demo_sound_def so_letter_def so_of_letter_def byte_of_def)
  have known: "set (map snd (sb_index demo_full_board)) \<subseteq> {demo_sound ''a'', demo_sound ''b''}" by code_simp
  have quiet: "dk_events demo_sound_disk = []" by code_simp
  have "returned (sb_dir demo_full_board) (snd ?p) (hm_get (sb_index demo_full_board) ''a'') = Some (demo_sound ''a'')"
    "returned (sb_dir demo_full_board) (snd ?p) (hm_get (sb_index demo_full_board) ''b'') = None"
    by code_simp+
  with soundboard_survives_restart [OF demo_full_board_ok codec known quiet p] p show ?thesis by metis
qed

end
