(* ===== verification/DiagnosticText.thy ===== *)
theory DiagnosticText
  imports OwnerAuth SpotifyClient FileStore
begin

text \<open>
  How a client's text is cleaned of what may identify or authorise somebody (\<open>diagnostics.rs\<close>, from
  \<open>sanitize_value\<close> to \<open>consume_while\<close>): a text passes through recognisers, one after the other, each of which
  replaces what it finds by a marker. Positions are byte offsets, as in the code.
\<close>

section \<open>Pieces of text\<close>

abbreviation double_quote :: char where "double_quote \<equiv> CHR 0x22"
abbreviation single_quote :: char where "single_quote \<equiv> CHR 0x27"
abbreviation backslash :: char where "backslash \<equiv> CHR 0x5C"
abbreviation tab :: char where "tab \<equiv> CHR 0x09"

text \<open>A character of several bytes is none of these.\<close>

definition one_of :: "char list \<Rightarrow> string \<Rightarrow> bool" where
  "one_of cs ch = (case ch of [c] \<Rightarrow> c \<in> set cs | _ \<Rightarrow> False)"

definition is_ascii :: "char \<Rightarrow> bool" where
  "is_ascii c \<longleftrightarrow> byte_of c < 128"

definition is_ascii_alphabetic :: "char \<Rightarrow> bool" where
  "is_ascii_alphabetic c \<longleftrightarrow> is_ascii_lowercase c \<or> is_ascii_uppercase c"

definition starts_with :: "string \<Rightarrow> string \<Rightarrow> bool" where
  "starts_with s p \<longleftrightarrow> take (length p) s = p"

definition contains_str :: "string \<Rightarrow> string \<Rightarrow> bool" where
  "contains_str s needle \<longleftrightarrow> list_ex (\<lambda>i. starts_with (drop i s) needle) [0..<Suc (length s)]"

text \<open>\<open>split_inclusive('\n')\<close>: the lines, each with the newline that ends it.\<close>

fun split_inclusive :: "string \<Rightarrow> string \<Rightarrow> string list" where
  "split_inclusive line [] = (if line = [] then [] else [line])"
| "split_inclusive line (c # cs) =
     (if c = newline then (line @ [c]) # split_inclusive [] cs else split_inclusive (line @ [c]) cs)"

definition starts_with_ascii_case_insensitive :: "string \<Rightarrow> string \<Rightarrow> bool" where
  "starts_with_ascii_case_insensitive s prefix \<longleftrightarrow> eq_ignore_ascii_case (take (length prefix) s) prefix"

definition consume_until :: "string \<Rightarrow> nat \<Rightarrow> (string \<Rightarrow> bool) \<Rightarrow> nat" where
  "consume_until input start stop =
     start + length (concat (takeWhile (\<lambda>ch. \<not> stop ch) (utf8_chars (drop start input))))"

definition consume_while :: "string \<Rightarrow> nat \<Rightarrow> (char \<Rightarrow> bool) \<Rightarrow> nat" where
  "consume_while input start keep = start + length (takeWhile (\<lambda>b. is_ascii b \<and> keep b) (drop start input))"

definition skip_ascii_whitespace :: "string \<Rightarrow> nat \<Rightarrow> nat" where
  "skip_ascii_whitespace input cursor = cursor + length (takeWhile is_ascii_whitespace (drop cursor input))"

definition skip_ascii_whitespace_and_quotes :: "string \<Rightarrow> nat \<Rightarrow> nat" where
  "skip_ascii_whitespace_and_quotes input cursor =
     cursor + length (takeWhile (\<lambda>b. is_ascii_whitespace b \<or> b \<in> {double_quote, single_quote}) (drop cursor input))"

definition consume_secret_value :: "string \<Rightarrow> nat \<Rightarrow> nat" where
  "consume_secret_value input start =
     consume_until input start (\<lambda>ch. is_whitespace ch
       \<or> one_of ([double_quote, single_quote] @ '',;}])<>'') ch)"

definition sub_string :: "string \<Rightarrow> nat \<Rightarrow> nat \<Rightarrow> string" where
  "sub_string input start fin = take (fin - start) (drop start input)"

section \<open>Boundaries\<close>

definition is_path_boundary :: "string \<Rightarrow> nat \<Rightarrow> bool" where
  "is_path_boundary input start \<longleftrightarrow>
     (case rev (utf8_chars (take start input)) of [] \<Rightarrow> True
      | ch # _ \<Rightarrow> is_whitespace ch \<or> one_of (''([{=:'' @ [double_quote, single_quote]) ch)"

definition is_word_byte :: "char \<Rightarrow> bool" where
  "is_word_byte c \<longleftrightarrow> is_ascii_alphanumeric c \<or> c = CHR ''_''"

definition is_word_boundary :: "string \<Rightarrow> nat \<Rightarrow> bool" where
  "is_word_boundary input start \<longleftrightarrow> start = 0 \<or> \<not> is_word_byte (input ! (start - 1))"

definition is_word_end :: "string \<Rightarrow> nat \<Rightarrow> bool" where
  "is_word_end input fin \<longleftrightarrow> length input \<le> fin \<or> \<not> is_word_byte (input ! fin)"

definition is_token_boundary :: "string \<Rightarrow> nat \<Rightarrow> bool" where
  "is_token_boundary input start \<longleftrightarrow>
     start = 0 \<or> \<not> (is_ascii_alphanumeric (input ! (start - 1)) \<or> input ! (start - 1) \<in> set ''_-'')"

definition is_email_local_byte :: "char \<Rightarrow> bool" where
  "is_email_local_byte c \<longleftrightarrow> is_ascii_alphanumeric c \<or> c \<in> set ''._+-''"

definition is_email_candidate_byte :: "char \<Rightarrow> bool" where
  "is_email_candidate_byte c \<longleftrightarrow> is_email_local_byte c \<or> c = CHR ''@''"

definition is_email_boundary :: "string \<Rightarrow> nat \<Rightarrow> bool" where
  "is_email_boundary input start \<longleftrightarrow> start = 0 \<or> \<not> is_email_candidate_byte (input ! (start - 1))"

definition is_ipv6_boundary :: "string \<Rightarrow> nat \<Rightarrow> bool" where
  "is_ipv6_boundary input start \<longleftrightarrow>
     start = 0 \<or> \<not> (is_ascii_hexdigit (input ! (start - 1)) \<or> input ! (start - 1) = CHR '':'')"

section \<open>Addresses\<close>

text \<open>
  What \<open>Ipv4Addr::from_str\<close> and \<open>Ipv6Addr::from_str\<close> of the standard library accept: readers that answer
  the rest of the text. A number is a longest run of digits; only the hexadecimal ones may begin with
  zeros.
\<close>

definition read_number :: "(char \<Rightarrow> bool) \<Rightarrow> nat \<Rightarrow> (string \<Rightarrow> bool) \<Rightarrow> bool \<Rightarrow> string \<Rightarrow> string option" where
  "read_number is_digit max_digits fits allow_zero_prefix s =
     (let ds = takeWhile is_digit s in
      if ds = [] \<or> max_digits < length ds \<or> (\<not> allow_zero_prefix \<and> hd ds = CHR ''0'' \<and> 1 < length ds) \<or> \<not> fits ds
      then None else Some (drop (length ds) s))"

definition decimal :: "string \<Rightarrow> nat" where
  "decimal ds = foldl (\<lambda>n c. n * 10 + (byte_of c - 48)) 0 ds"

definition read_octet :: "string \<Rightarrow> string option" where
  "read_octet = read_number is_ascii_digit 3 (\<lambda>ds. decimal ds \<le> 255) False"

text \<open>Four hexadecimal digits always fit.\<close>

definition read_group :: "string \<Rightarrow> string option" where
  "read_group = read_number is_ascii_hexdigit 4 (\<lambda>_. True) True"

definition read_given_char :: "char \<Rightarrow> string \<Rightarrow> string option" where
  "read_given_char c s = (case s of [] \<Rightarrow> None | x # xs \<Rightarrow> if x = c then Some xs else None)"

definition read_separator :: "char \<Rightarrow> nat \<Rightarrow> (string \<Rightarrow> string option) \<Rightarrow> string \<Rightarrow> string option" where
  "read_separator sep i inner s = (if i = 0 then inner s else Option.bind (read_given_char sep s) inner)"

definition read_ipv4_addr :: "string \<Rightarrow> string option" where
  "read_ipv4_addr s =
     foldl (\<lambda>rest i. Option.bind rest (read_separator (CHR ''.'') i read_octet)) (Some s) [0, 1, 2, 3]"

definition ipv4_addr_ok :: "string \<Rightarrow> bool" where
  "ipv4_addr_ok s \<longleftrightarrow> length s \<le> 15 \<and> read_ipv4_addr s = Some []"

text \<open>The groups still to read, the index of the next one, and the text.\<close>

fun read_groups :: "nat \<Rightarrow> nat \<Rightarrow> string \<Rightarrow> nat \<times> bool \<times> string" where
  "read_groups 0 i s = (i, False, s)"
| "read_groups (Suc k) i s =
     (case (if k = 0 then None else read_separator (CHR '':'') i read_ipv4_addr s) of
        Some rest \<Rightarrow> (i + 2, True, rest)
      | None \<Rightarrow>
     (case read_separator (CHR '':'') i read_group s of
        Some rest \<Rightarrow> read_groups k (Suc i) rest
      | None \<Rightarrow> (i, False, s)))"

definition ipv6_addr_ok :: "string \<Rightarrow> bool" where
  "ipv6_addr_ok s \<longleftrightarrow>
     (case read_groups 8 0 s of (head_size, head_ipv4, rest) \<Rightarrow>
        if head_size = 8 then rest = []
        else if head_ipv4 then False
        else case Option.bind (read_given_char (CHR '':'') rest) (read_given_char (CHR '':'')) of
          None \<Rightarrow> False
        | Some tail \<Rightarrow> (case read_groups (8 - (head_size + 1)) 0 tail of (_, _, left) \<Rightarrow> left = []))"

section \<open>Recognisers\<close>

text \<open>A recogniser looks at a position and answers where what it found ends, and its marker.\<close>

type_synonym detector = "string \<Rightarrow> nat \<Rightarrow> (nat \<times> string) option"

definition REDACTED_AUTH :: string where "REDACTED_AUTH = ''[REDACTED_AUTH]''"
definition REDACTED_EMAIL :: string where "REDACTED_EMAIL = ''[REDACTED_EMAIL]''"
definition REDACTED_IP :: string where "REDACTED_IP = ''[REDACTED_IP]''"
definition REDACTED_JWT :: string where "REDACTED_JWT = ''[REDACTED_JWT]''"
definition REDACTED_PATH :: string where "REDACTED_PATH = ''[REDACTED_PATH]''"
definition REDACTED_QUERY :: string where "REDACTED_QUERY = ''[REDACTED_QUERY]''"
definition REDACTED_URL :: string where "REDACTED_URL = ''[REDACTED_URL]''"
definition REDACTED_FIELD :: string where "REDACTED_FIELD = ''[REDACTED_FIELD]''"
definition REDACTED_SDP :: string where "REDACTED_SDP = ''[REDACTED_SDP]''"

definition url_stop :: "string \<Rightarrow> bool" where
  "url_stop ch \<longleftrightarrow> is_whitespace ch \<or> one_of ([double_quote, single_quote] @ ''<>)]}'') ch"

definition path_stop :: "string \<Rightarrow> bool" where
  "path_stop = one_of ([newline, carriage_return, tab, double_quote, single_quote] @ ''<>|,;)]}'')"

definition line_stop :: "string \<Rightarrow> bool" where
  "line_stop = one_of [newline, carriage_return]"

definition detect_url :: detector where
  "detect_url input start =
     (if \<not> list_ex (starts_with_ascii_case_insensitive (drop start input)) [''https://'', ''http://'', ''wss://'', ''ws://'']
         \<or> \<not> is_token_boundary input start
      then None else Some (consume_until input start url_stop, REDACTED_URL))"

definition detect_file_uri :: detector where
  "detect_file_uri input start =
     (if \<not> starts_with_ascii_case_insensitive (drop start input) ''file://'' \<or> \<not> is_path_boundary input start
      then None else Some (consume_until input start path_stop, REDACTED_PATH))"

definition detect_absolute_path :: detector where
  "detect_absolute_path input start =
     (let tail = drop start input;
          windows = 3 \<le> length tail \<and> is_ascii_alphabetic (tail ! 0) \<and> tail ! 1 = CHR '':''
                    \<and> tail ! 2 \<in> {CHR ''/'', backslash};
          unc = starts_with tail [backslash, backslash];
          unix = starts_with tail ''/'' \<and> 1 < length tail \<and> tail ! 1 \<noteq> CHR ''/'';
          tilde = starts_with tail ''~/'' \<or> starts_with tail [CHR ''~'', backslash] in
      if \<not> (windows \<or> unc \<or> unix \<or> tilde) \<or> \<not> is_path_boundary input start then None
      else Some (consume_until input start path_stop, REDACTED_PATH))"

definition auth_scheme_at :: "string \<Rightarrow> nat \<Rightarrow> string option" where
  "auth_scheme_at input start =
     find (\<lambda>scheme. starts_with_ascii_case_insensitive (drop start input) scheme \<and> is_word_boundary input start
        \<and> is_word_end input (start + length scheme)) [''bearer'', ''basic'', ''digest'']"

definition detect_auth_scheme_value :: detector where
  "detect_auth_scheme_value input start =
     (case auth_scheme_at input start of None \<Rightarrow> None
      | Some scheme \<Rightarrow>
          let after = start + length scheme in
          if length input \<le> after \<or> \<not> is_whitespace (hd (utf8_chars (drop after input))) then None
          else
            let cursor = skip_ascii_whitespace input after;
                fin = (if scheme = ''digest'' then consume_until input cursor line_stop
                       else consume_secret_value input cursor) in
            if cursor < fin then Some (fin, REDACTED_AUTH) else None)"

definition normalize_step :: "char \<Rightarrow> string \<times> bool \<Rightarrow> string \<times> bool" where
  "normalize_step c acc =
     (case acc of (normalized, previous_was_lower_or_digit) \<Rightarrow>
        if is_ascii_uppercase c
        then ((if previous_was_lower_or_digit \<and> \<not> ends_with normalized ''_'' then normalized @ ''_'' else normalized)
                @ [ascii_lower c], False)
        else if c = CHR ''-'' \<or> is_ascii_whitespace c
        then (if \<not> ends_with normalized ''_'' then normalized @ ''_'' else normalized, False)
        else (normalized @ [ascii_lower c], is_ascii_lowercase c \<or> is_ascii_digit c))"

definition normalize_sensitive_key :: "string \<Rightarrow> string" where
  "normalize_sensitive_key key = fst (fold normalize_step key ([], False))"

text \<open>No needle overlaps itself, so that every occurrence is one of \<open>match_indices\<close>.\<close>

definition contains_key_component :: "string \<Rightarrow> string \<Rightarrow> bool" where
  "contains_key_component normalized needle \<longleftrightarrow>
     list_ex (\<lambda>start. starts_with (drop start normalized) needle
        \<and> (start = 0 \<or> normalized ! (start - 1) = CHR ''_'')
        \<and> (start + length needle = length normalized \<or> normalized ! (start + length needle) = CHR ''_''))
       [0..<Suc (length normalized - length needle)]"

definition sensitive_components :: "string list" where
  "sensitive_components = [''auth'', ''authorization'', ''bearer'', ''candidate'', ''chat'', ''clipboard'', ''content'',
     ''cookie'', ''credential'', ''device_label'', ''email'', ''frame'', ''jwt'', ''key'', ''password'', ''path'',
     ''process'', ''screenshot'', ''sdp'', ''secret'', ''serial'', ''ssid'', ''token'', ''window_title'']"

definition is_sensitive_key :: "string \<Rightarrow> bool" where
  "is_sensitive_key key \<longleftrightarrow> list_ex (contains_key_component (normalize_sensitive_key key)) sensitive_components"

definition detect_labeled_secret :: detector where
  "detect_labeled_secret input start =
     (if \<not> is_word_boundary input start \<or> \<not> is_ascii_alphabetic (input ! start) then None
      else
        let label_end = consume_while input start (\<lambda>b. is_ascii_alphanumeric b \<or> b \<in> set ''_-'');
            cursor = skip_ascii_whitespace_and_quotes input label_end in
        if length input \<le> cursor \<or> input ! cursor \<notin> set '':='' then None
        else if \<not> is_sensitive_key (sub_string input start label_end) then None
        else
          let secret = skip_ascii_whitespace_and_quotes input (cursor + 1);
              fin = consume_until input secret line_stop in
          if secret < fin then Some (fin, REDACTED_AUTH) else None)"

definition detect_jwt :: detector where
  "detect_jwt input start =
     (if \<not> starts_with (drop start input) ''eyJ'' \<or> \<not> is_token_boundary input start then None
      else
        let fin = consume_while input start (\<lambda>b. is_ascii_alphanumeric b \<or> b \<in> set ''_-.'') in
        case split_at (CHR ''.'') (sub_string input start fin) of
          [a, b, c] \<Rightarrow> if 3 \<le> length a \<and> 4 \<le> length b \<and> 4 \<le> length c then Some (fin, REDACTED_JWT) else None
        | _ \<Rightarrow> None)"

definition detect_opaque_token :: detector where
  "detect_opaque_token input start =
     (if \<not> is_ascii_alphanumeric (input ! start) \<or> \<not> is_token_boundary input start then None
      else
        let fin = consume_while input start (\<lambda>b. is_ascii_alphanumeric b \<or> b \<in> set ''_-'');
            candidate = sub_string input start fin;
            kinds = map (\<lambda>P. of_bool (list_ex P candidate) :: nat) [is_ascii_lowercase, is_ascii_uppercase, is_ascii_digit] in
        if length candidate < 32 then None
        else if 2 \<le> sum_list kinds then Some (fin, REDACTED_FIELD) else None)"

definition strip_trailing :: "string \<Rightarrow> nat \<Rightarrow> nat \<Rightarrow> (char \<Rightarrow> bool) \<Rightarrow> nat" where
  "strip_trailing input start fin drop_it =
     start + length (dropWhile drop_it (rev (sub_string input start fin)))"

definition detect_email :: detector where
  "detect_email input start =
     (if \<not> is_email_local_byte (input ! start) \<or> \<not> is_email_boundary input start then None
      else
        let fin = strip_trailing input start (consume_while input start is_email_candidate_byte)
                    (\<lambda>b. b \<in> set ''.-_'') in
        case split_at (CHR ''@'') (sub_string input start fin) of
          local # d # ds \<Rightarrow>
            if local = [] \<or> d = [] \<or> ds \<noteq> [] \<or> CHR ''.'' \<notin> set d
               \<or> \<not> list_all (\<lambda>b. is_ascii_alphanumeric b \<or> b \<in> set ''.-'') d
            then None else Some (fin, REDACTED_EMAIL)
        | _ \<Rightarrow> None)"

definition detect_ipv4 :: detector where
  "detect_ipv4 input start =
     (if \<not> is_ascii_digit (input ! start)
         \<or> (0 < start \<and> (is_ascii_digit (input ! (start - 1)) \<or> input ! (start - 1) = CHR ''.''))
      then None
      else
        let fin = strip_trailing input start (consume_while input start (\<lambda>b. is_ascii_digit b \<or> b = CHR ''.''))
                    (\<lambda>b. b = CHR ''.'') in
        if ipv4_addr_ok (sub_string input start fin) then Some (fin, REDACTED_IP) else None)"

definition before_zone :: "string \<Rightarrow> string" where
  "before_zone candidate = hd (split_at (CHR ''%'') candidate)"

definition detect_bracketed_ipv6 :: detector where
  "detect_bracketed_ipv6 input start =
     (if input ! start \<noteq> CHR ''['' then None
      else case find_index (\<lambda>c. c = CHR '']'') (drop (start + 1) input) of None \<Rightarrow> None
      | Some offset \<Rightarrow>
          let close = offset + start + 1 in
          if ipv6_addr_ok (before_zone (sub_string input (start + 1) close)) then Some (close + 1, REDACTED_IP)
          else None)"

definition detect_ipv6 :: detector where
  "detect_ipv6 input start =
     (if \<not> (is_ascii_hexdigit (input ! start) \<or> input ! start = CHR '':'') \<or> \<not> is_ipv6_boundary input start then None
      else
        let fin = consume_while input start (\<lambda>b. is_ascii_hexdigit b \<or> b \<in> set '':.%_-'');
            candidate = sub_string input start fin in
        if length (filter (\<lambda>b. b = CHR '':'') candidate) < 2 then None
        else if ipv6_addr_ok (before_zone candidate) then Some (fin, REDACTED_IP) else None)"

section \<open>Replacing\<close>

definition hit :: "(nat \<times> string) option \<Rightarrow> nat \<Rightarrow> (nat \<times> string) option" where
  "hit found cursor = (case found of Some (fin, marker) \<Rightarrow> if cursor < fin then Some (fin, marker) else None | None \<Rightarrow> None)"

lemma hit_later: "hit found cursor = Some (fin, marker) \<Longrightarrow> cursor < fin"
  by (auto simp: hit_def split: option.splits prod.splits if_splits)

lemma utf8_char_nonempty: "utf8_chars s = ch # chs \<Longrightarrow> ch \<noteq> []"
  by (cases s) auto

function redact_from :: "detector \<Rightarrow> string \<Rightarrow> nat \<Rightarrow> string" where
  "redact_from detector input cursor =
     (if length input \<le> cursor then []
      else case hit (detector input cursor) cursor of
        Some (fin, marker) \<Rightarrow> marker @ redact_from detector input fin
      | None \<Rightarrow>
          (case utf8_chars (drop cursor input) of [] \<Rightarrow> []
           | ch # _ \<Rightarrow> ch @ redact_from detector input (cursor + length ch)))"
  by pat_completeness auto

termination
  by (relation "measure (\<lambda>(_, input, cursor). length input - cursor)")
     (auto dest: hit_later utf8_char_nonempty simp: not_le intro!: diff_less_mono2)

declare redact_from.simps [simp del]

definition redact_with :: "string \<Rightarrow> detector \<Rightarrow> string" where
  "redact_with input detector = redact_from detector input 0"

definition sensitive_line :: "string \<Rightarrow> bool" where
  "sensitive_line content \<longleftrightarrow>
     (let normalized = map ascii_lower (trim content) in
      contains_str normalized ''candidate:'' \<or> contains_str normalized ''ice-ufrag''
      \<or> contains_str normalized ''ice-pwd'' \<or> normalized = ''v=0'' \<or> starts_with normalized ''o=''
      \<or> starts_with normalized ''c=in ip'' \<or> starts_with normalized ''a=fingerprint:'')"

definition redact_line :: "string \<Rightarrow> string" where
  "redact_line line =
     (let ended = ends_with line [newline]; content = (if ended then butlast line else line) in
      (if sensitive_line content then REDACTED_SDP else content) @ (if ended then [newline] else []))"

definition redact_sdp_and_candidate_lines :: "string \<Rightarrow> string" where
  "redact_sdp_and_candidate_lines input = concat (map redact_line (split_inclusive [] input))"

definition query_end :: "string \<Rightarrow> nat \<Rightarrow> nat" where
  "query_end input start = consume_until input start url_stop"

definition looks_like_query_start :: "string \<Rightarrow> nat \<Rightarrow> bool" where
  "looks_like_query_start input question \<longleftrightarrow>
     CHR ''='' \<in> set (sub_string input (question + 1) (query_end input (question + 1)))"

definition detect_query :: detector where
  "detect_query input cursor =
     (if input ! cursor = CHR ''?'' \<and> looks_like_query_start input cursor
      then Some (query_end input (cursor + 1), ''?'' @ REDACTED_QUERY) else None)"

definition redact_url_queries :: "string \<Rightarrow> string" where
  "redact_url_queries input = redact_with input detect_query"

definition is_char_boundary :: "string \<Rightarrow> nat \<Rightarrow> bool" where
  "is_char_boundary s i \<longleftrightarrow> i = 0 \<or> i = length s \<or> (i < length s \<and> \<not> is_continuation (s ! i))"

fun boundary_below :: "string \<Rightarrow> nat \<Rightarrow> nat" where
  "boundary_below s 0 = 0"
| "boundary_below s (Suc n) = (if is_char_boundary s (Suc n) then Suc n else boundary_below s n)"

definition truncate_to_byte_len :: "string \<Rightarrow> nat \<Rightarrow> string" where
  "truncate_to_byte_len value maximum_bytes =
     (if length value \<le> maximum_bytes then value else take (boundary_below value maximum_bytes) value)"

definition sanitize_text :: "string \<Rightarrow> string" where
  "sanitize_text input =
     (let t = redact_sdp_and_candidate_lines input;
          t = redact_with t detect_url;
          t = redact_with t detect_file_uri;
          t = redact_with t detect_absolute_path;
          t = redact_url_queries t;
          t = redact_with t detect_auth_scheme_value;
          t = redact_with t detect_labeled_secret;
          t = redact_with t detect_jwt;
          t = redact_with t detect_opaque_token;
          t = redact_with t detect_email;
          t = redact_with t detect_bracketed_ipv6;
          t = redact_with t detect_ipv6;
          t = redact_with t detect_ipv4
      in truncate_to_byte_len t (length input))"

definition sanitize_optional_text :: "string option \<Rightarrow> string option" where
  "sanitize_optional_text = map_option sanitize_text"

text \<open>Structured details: a value under a sensitive key is replaced whole.\<close>

fun sanitize_value :: "string \<Rightarrow> json \<Rightarrow> json" where
  "sanitize_value key (JString s) = (if is_sensitive_key key then JString REDACTED_FIELD else JString (sanitize_text s))"
| "sanitize_value key (JArray vs) =
     (if is_sensitive_key key then JString REDACTED_FIELD else JArray (map (sanitize_value []) vs))"
| "sanitize_value key (JObject ms) =
     (if is_sensitive_key key then JString REDACTED_FIELD else JObject (map (\<lambda>(k, v). (k, sanitize_value k v)) ms))"
| "sanitize_value key v = (if is_sensitive_key key then JString REDACTED_FIELD else v)"

end
