(* ===== verification/DiagnosticRecord.thy ===== *)
theory DiagnosticRecord
  imports DiagnosticText Participants
begin

text \<open>
  The incidents that clients report (\<open>diagnostics.rs\<close>): the envelope, what is accepted of it and what is kept.
  A check answers what is wrong, and None when nothing is; maps of details are lists of members, in their
  order. The rendering of an envelope as JSON and the keyed hash are arguments.
\<close>

section \<open>Data\<close>

definition INCIDENT_SCHEMA_VERSION :: nat where "INCIDENT_SCHEMA_VERSION = 1"
definition STORED_RECORD_VERSION :: nat where "STORED_RECORD_VERSION = 1"
definition MAX_REQUEST_BYTES :: nat where "MAX_REQUEST_BYTES = 256 * 1024"
definition MAX_STORED_RECORD_BYTES :: nat where "MAX_STORED_RECORD_BYTES = MAX_REQUEST_BYTES + 16 * 1024"
definition MAX_EVENTS :: nat where "MAX_EVENTS = 200"
definition MAX_EVENT_MESSAGE_BYTES :: nat where "MAX_EVENT_MESSAGE_BYTES = 2 * 1024"
definition MAX_DETAIL_STRING_BYTES :: nat where "MAX_DETAIL_STRING_BYTES = 1024"
definition MAX_DETAIL_DEPTH :: nat where "MAX_DETAIL_DEPTH = 6"
definition MAX_DETAIL_CONTAINER_ITEMS :: nat where "MAX_DETAIL_CONTAINER_ITEMS = 32"
definition MAX_DETAIL_NODES_PER_EVENT :: nat where "MAX_DETAIL_NODES_PER_EVENT = 256"
definition MAX_CLOCK_SKEW_MS :: u64 where "MAX_CLOCK_SKEW_MS = 5 * 60 * 1000"
definition MAX_ENVELOPE_AGE_MS :: u64 where "MAX_ENVELOPE_AGE_MS = 7 * 24 * 60 * 60 * 1000"
definition INCIDENT_ID_PREFIX :: string where "INCIDENT_ID_PREFIX = ''inc_''"

datatype client_kind = BrowserClient | DesktopClient
datatype operating_system = Macos | Windows | Linux | Ios | Android | UnknownSystem
datatype cpu_architecture = Aarch64 | X86_64 | X86 | Arm | UnknownArchitecture

datatype diagnostic_event_type = SessionStart | SessionEnd | UncleanShutdown | JavascriptError
  | UnhandledRejection | ConsoleWarning | ConsoleError | Permission | Media | Connection | Reconnect
  | TauriIpcError | NativeError

datatype diagnostic_severity = Debug | Info | Warning | Error | Fatal

text \<open>The derived orders: that of the declarations.\<close>

fun event_type_rank :: "diagnostic_event_type \<Rightarrow> nat" where
  "event_type_rank SessionStart = 0" | "event_type_rank SessionEnd = 1" | "event_type_rank UncleanShutdown = 2"
| "event_type_rank JavascriptError = 3" | "event_type_rank UnhandledRejection = 4" | "event_type_rank ConsoleWarning = 5"
| "event_type_rank ConsoleError = 6" | "event_type_rank Permission = 7" | "event_type_rank Media = 8"
| "event_type_rank Connection = 9" | "event_type_rank Reconnect = 10" | "event_type_rank TauriIpcError = 11"
| "event_type_rank NativeError = 12"

fun severity_rank :: "diagnostic_severity \<Rightarrow> nat" where
  "severity_rank Debug = 0" | "severity_rank Info = 1" | "severity_rank Warning = 2" | "severity_rank Error = 3"
| "severity_rank Fatal = 4"

lemma event_type_rank_inject: "event_type_rank a = event_type_rank b \<longleftrightarrow> a = b"
  by (cases a; cases b) simp_all

lemma severity_rank_inject: "severity_rank a = severity_rank b \<longleftrightarrow> a = b"
  by (cases a; cases b) simp_all

instantiation diagnostic_event_type :: linorder
begin

definition less_eq_diagnostic_event_type :: "diagnostic_event_type \<Rightarrow> diagnostic_event_type \<Rightarrow> bool" where
  "a \<le> b \<longleftrightarrow> event_type_rank a \<le> event_type_rank b"

definition less_diagnostic_event_type :: "diagnostic_event_type \<Rightarrow> diagnostic_event_type \<Rightarrow> bool" where
  "a < b \<longleftrightarrow> event_type_rank a < event_type_rank b"

instance
  by standard (auto simp: less_eq_diagnostic_event_type_def less_diagnostic_event_type_def event_type_rank_inject [symmetric])

end

instantiation diagnostic_severity :: linorder
begin

definition less_eq_diagnostic_severity :: "diagnostic_severity \<Rightarrow> diagnostic_severity \<Rightarrow> bool" where
  "a \<le> b \<longleftrightarrow> severity_rank a \<le> severity_rank b"

definition less_diagnostic_severity :: "diagnostic_severity \<Rightarrow> diagnostic_severity \<Rightarrow> bool" where
  "a < b \<longleftrightarrow> severity_rank a < severity_rank b"

instance
  by standard (auto simp: less_eq_diagnostic_severity_def less_diagnostic_severity_def severity_rank_inject [symmetric])

end

record runtime_info =
  rt_browser_name :: "string option"
  rt_browser_version :: "string option"
  rt_webview_version :: "string option"
  rt_livekit_version :: "string option"
  rt_tauri_version :: "string option"

record app_info =
  app_version :: string
  app_git_sha :: string
  app_channel :: string
  app_runtimes :: runtime_info

record platform_info =
  pl_client_kind :: client_kind
  pl_operating_system :: operating_system
  pl_architecture :: cpu_architecture
  pl_os_version :: "string option"
  pl_os_build :: "string option"

record incident_event =
  ev_sequence :: u32
  ev_timestamp_ms :: u64
  ev_event_type :: diagnostic_event_type
  ev_severity :: diagnostic_severity
  ev_code :: string
  ev_fingerprint :: "string option"
  ev_message :: "string option"
  ev_details :: "(string \<times> json) list"

record incident_envelope =
  en_schema_version :: nat
  en_envelope_id :: string
  en_install_id :: string
  en_session_id :: string
  en_captured_at_ms :: u64
  en_sent_at_ms :: u64
  en_app :: app_info
  en_platform :: platform_info
  en_events :: "incident_event list"

record stored_incident =
  si_record_version :: nat
  si_incident_id :: string
  si_received_at_ms :: u64
  si_authenticated_identity :: string
  si_authenticated_identity_digest :: string
  si_payload_digest :: string
  si_envelope :: incident_envelope

record incident_summary =
  su_incident_id :: string
  su_envelope_id :: string
  su_authenticated_identity :: string
  su_received_at_ms :: u64
  su_captured_at_ms :: u64
  su_session_id :: string
  su_app_version :: string
  su_channel :: string
  su_client_kind :: client_kind
  su_operating_system :: operating_system
  su_architecture :: cpu_architecture
  su_event_count :: nat
  su_highest_severity :: diagnostic_severity
  su_event_types :: "diagnostic_event_type list"

datatype validation_error = UnsupportedSchemaVersion | InvalidIdentifier string | InvalidTimestamp string
  | EmptyEvents | TooManyEvents | InvalidEventOrder | InvalidString string | StringTooLong string
  | DetailTooDeep | DetailContainerTooLarge | TooManyDetailNodes | InvalidDetailKey | DisallowedDetailKey

datatype diagnostics_error = BodyTooLarge | CapacityExceeded | InvalidJson | ValidationFailed validation_error
  | SerializationFailed | IoFailed | LockPoisoned

definition summary_of :: "stored_incident \<Rightarrow> incident_summary" where
  "summary_of r =
     (let e = si_envelope r; types = remdups_adj (sort (map ev_event_type (en_events e)));
          severities = map ev_severity (en_events e) in
      \<lparr>su_incident_id = si_incident_id r, su_envelope_id = en_envelope_id e,
       su_authenticated_identity = si_authenticated_identity r, su_received_at_ms = si_received_at_ms r,
       su_captured_at_ms = en_captured_at_ms e, su_session_id = en_session_id e,
       su_app_version = app_version (en_app e), su_channel = app_channel (en_app e),
       su_client_kind = pl_client_kind (en_platform e), su_operating_system = pl_operating_system (en_platform e),
       su_architecture = pl_architecture (en_platform e), su_event_count = length (en_events e),
       su_highest_severity = (if severities = [] then Info else fold max severities Debug),
       su_event_types = types\<rparr>)"

section \<open>Validation\<close>

text \<open>The checks of a function, in their order: the first thing that is wrong.\<close>

definition first_error :: "validation_error option list \<Rightarrow> validation_error option" where
  "first_error cs = (case filter (\<lambda>c. c \<noteq> None) cs of [] \<Rightarrow> None | c # _ \<Rightarrow> c)"

definition wrong :: "bool \<Rightarrow> validation_error \<Rightarrow> validation_error option" where
  "wrong b e = (if b then Some e else None)"

definition is_lower_hex :: "char \<Rightarrow> bool" where
  "is_lower_hex c \<longleftrightarrow> is_ascii_digit c \<or> (97 \<le> byte_of c \<and> byte_of c \<le> 102)"

definition validate_uuid :: "string \<Rightarrow> string \<Rightarrow> validation_error option" where
  "validate_uuid value field =
     wrong (length value \<noteq> 36
        \<or> \<not> list_all (\<lambda>(i, b). if i \<in> {8, 13, 18, 23} then b = CHR ''-'' else is_lower_hex b)
              (enumerate 0 value))
       (InvalidIdentifier field)"

definition validate_incident_id :: "string \<Rightarrow> validation_error option" where
  "validate_incident_id value =
     wrong (case strip_prefix INCIDENT_ID_PREFIX value of None \<Rightarrow> True
            | Some hex \<Rightarrow> length hex \<noteq> 32 \<or> \<not> list_all is_lower_hex hex)
       (InvalidIdentifier ''incident_id'')"

definition validate_envelope_timestamp :: "u64 \<Rightarrow> u64 \<Rightarrow> string \<Rightarrow> validation_error option" where
  "validate_envelope_timestamp value now_ms field =
     wrong (value = 0 \<or> sat_add now_ms MAX_CLOCK_SKEW_MS < value \<or> sat_add value MAX_ENVELOPE_AGE_MS < now_ms)
       (InvalidTimestamp field)"

definition validate_git_sha :: "string \<Rightarrow> validation_error option" where
  "validate_git_sha value =
     wrong (length value < 7 \<or> 12 < length value \<or> \<not> list_all is_lower_hex value) (InvalidString ''app.git_sha'')"

definition validate_channel :: "string \<Rightarrow> validation_error option" where
  "validate_channel value =
     wrong (value \<notin> set [''web'', ''web-canary'', ''web-smoke'', ''desktop-stable'', ''desktop-canary'', ''test''])
       (InvalidString ''app.channel'')"

definition is_code_byte :: "char \<Rightarrow> bool" where
  "is_code_byte b \<longleftrightarrow> is_ascii_alphanumeric b \<or> b \<in> set ''_-.''"

definition validate_code :: "string \<Rightarrow> nat \<Rightarrow> string \<Rightarrow> validation_error option" where
  "validate_code value max_bytes field =
     wrong (value = [] \<or> max_bytes < length value \<or> \<not> is_ascii_alphanumeric (hd value) \<or> \<not> list_all is_code_byte value)
       (InvalidString field)"

fun code_prefixes :: "diagnostic_event_type \<Rightarrow> string list" where
  "code_prefixes SessionStart = [''session.'']"
| "code_prefixes SessionEnd = [''session.'']"
| "code_prefixes UncleanShutdown = [''session.'']"
| "code_prefixes JavascriptError = [''javascript.'', ''promise.'']"
| "code_prefixes UnhandledRejection = [''javascript.'', ''promise.'']"
| "code_prefixes ConsoleWarning = [''console.'']"
| "code_prefixes ConsoleError = [''console.'']"
| "code_prefixes Permission = [''permission.'', ''microphone.'', ''camera.'', ''screen_share.'']"
| "code_prefixes Media = [''media.'', ''microphone.'', ''camera.'', ''screen_share.'']"
| "code_prefixes Connection = [''connection.'', ''ice.'', ''livekit.'', ''sfu.'', ''webrtc.'']"
| "code_prefixes Reconnect = [''reconnect.'', ''connection.'']"
| "code_prefixes TauriIpcError = [''tauri.'']"
| "code_prefixes NativeError = [''native.'']"

definition code_segment_ok :: "string \<Rightarrow> bool" where
  "code_segment_ok segment \<longleftrightarrow> segment \<noteq> [] \<and> is_ascii_alphabetic (hd segment)
     \<and> list_all (\<lambda>b. is_ascii_alphanumeric b \<or> b \<in> set ''_-'') segment"

definition validate_event_code :: "diagnostic_event_type \<Rightarrow> string \<Rightarrow> validation_error option" where
  "validate_event_code event_type value =
     first_error
       [validate_code value 96 ''event.code'',
        wrong (\<not> list_all code_segment_ok (split_at (CHR ''.'') value)) (InvalidString ''event.code''),
        wrong (\<not> list_ex (starts_with value) (code_prefixes event_type)) (InvalidString ''event.code'')]"

definition validate_metadata_string :: "string \<Rightarrow> nat \<Rightarrow> string \<Rightarrow> validation_error option" where
  "validate_metadata_string value max_bytes field =
     first_error
       [wrong (value = []) (InvalidString field), wrong (max_bytes < length value) (StringTooLong field),
        wrong (list_ex is_control (utf8_chars value)) (InvalidString field)]"

definition validate_optional_metadata :: "string option \<Rightarrow> nat \<Rightarrow> string \<Rightarrow> validation_error option" where
  "validate_optional_metadata value max_bytes field =
     (case value of None \<Rightarrow> None | Some v \<Rightarrow> validate_metadata_string v max_bytes field)"

definition validate_runtime_info :: "runtime_info \<Rightarrow> validation_error option" where
  "validate_runtime_info rt =
     first_error
       [validate_optional_metadata (rt_browser_name rt) 64 ''runtime.browser_name'',
        validate_optional_metadata (rt_browser_version rt) 64 ''runtime.browser_version'',
        validate_optional_metadata (rt_webview_version rt) 64 ''runtime.webview_version'',
        validate_optional_metadata (rt_livekit_version rt) 64 ''runtime.livekit_version'',
        validate_optional_metadata (rt_tauri_version rt) 64 ''runtime.tauri_version'']"

definition validate_free_text :: "string \<Rightarrow> nat \<Rightarrow> string \<Rightarrow> validation_error option" where
  "validate_free_text value max_bytes field =
     first_error
       [wrong (max_bytes < length value) (StringTooLong field),
        wrong (list_ex (\<lambda>ch. is_control ch \<and> \<not> one_of [newline, carriage_return, tab] ch) (utf8_chars value)) (InvalidString field)]"

definition validate_server_identity :: "string \<Rightarrow> validation_error option" where
  "validate_server_identity value =
     first_error [validate_free_text value 128 ''authenticated_identity'',
       wrong (value = []) (InvalidString ''authenticated_identity'')]"

definition allowed_detail_keys :: "string list" where
  "allowed_detail_keys =
     [''action'', ''actual'', ''attempt'', ''audio'', ''bitrate_bps'', ''browser'', ''camera'', ''candidate_type'',
      ''channel_count'', ''clean'', ''codec'', ''column'', ''connection_state'', ''count'', ''current'', ''denied'',
      ''device_count'', ''device_kind'', ''direction'', ''duration_ms'', ''enabled'', ''ended'', ''energy_detected'',
      ''error_code'', ''expected'', ''failure_stage'', ''fps'', ''granted'', ''height'', ''ice_state'', ''jitter_ms'',
      ''kind'', ''line'', ''media_kind'', ''microphone'', ''muted'', ''nack_count'', ''network_state'', ''operation'',
      ''output'', ''packet_loss_percent'', ''permission'', ''permission_state'', ''phase'', ''pli_count'', ''previous'',
      ''protocol'', ''published'', ''reconnect_count'', ''requested'', ''resolution'', ''result'', ''room_state'',
      ''rtt_ms'', ''sample_rate_hz'', ''screen'', ''selected'', ''source_category'', ''stage'', ''started'', ''state'',
      ''status'', ''subscribed'', ''target'', ''track_state'', ''transport'', ''unclean'', ''video'', ''visibility'',
      ''width'']"

definition is_allowed_detail_key :: "string \<Rightarrow> bool" where
  "is_allowed_detail_key key \<longleftrightarrow> key \<in> set allowed_detail_keys"

definition validate_detail_key :: "string \<Rightarrow> validation_error option" where
  "validate_detail_key key =
     first_error
       [wrong (key = [] \<or> 48 < length key \<or> \<not> is_ascii_lowercase (hd key)
          \<or> \<not> list_all (\<lambda>b. is_ascii_lowercase b \<or> is_ascii_digit b \<or> b = CHR ''_'') key) InvalidDetailKey,
        wrong (\<not> is_allowed_detail_key key) DisallowedDetailKey]"

text \<open>A value at a depth, with the nodes counted so far; the answer is the new count.\<close>

fun validate_detail_value :: "json \<Rightarrow> nat \<Rightarrow> nat \<Rightarrow> validation_error + nat"
  and validate_detail_values :: "json list \<Rightarrow> nat \<Rightarrow> nat \<Rightarrow> validation_error + nat"
  and validate_detail_members :: "(string \<times> json) list \<Rightarrow> nat \<Rightarrow> nat \<Rightarrow> validation_error + nat" where
  "validate_detail_value v depth nodes =
     (if MAX_DETAIL_DEPTH < depth then Inl DetailTooDeep
      else if MAX_DETAIL_NODES_PER_EVENT < nodes + 1 then Inl TooManyDetailNodes
      else case v of
        JString s \<Rightarrow> (case validate_free_text s MAX_DETAIL_STRING_BYTES ''event.details string'' of
                       Some e \<Rightarrow> Inl e | None \<Rightarrow> Inr (nodes + 1))
      | JArray vs \<Rightarrow> if MAX_DETAIL_CONTAINER_ITEMS < length vs then Inl DetailContainerTooLarge
                    else validate_detail_values vs (depth + 1) (nodes + 1)
      | JObject ms \<Rightarrow> if MAX_DETAIL_CONTAINER_ITEMS < length ms then Inl DetailContainerTooLarge
                     else validate_detail_members ms (depth + 1) (nodes + 1)
      | _ \<Rightarrow> Inr (nodes + 1))"
| "validate_detail_values [] depth nodes = Inr nodes"
| "validate_detail_values (v # vs) depth nodes =
     (case validate_detail_value v depth nodes of Inl e \<Rightarrow> Inl e | Inr n \<Rightarrow> validate_detail_values vs depth n)"
| "validate_detail_members [] depth nodes = Inr nodes"
| "validate_detail_members ((k, v) # ms) depth nodes =
     (case validate_detail_key k of Some e \<Rightarrow> Inl e
      | None \<Rightarrow>
     (case validate_detail_value v depth nodes of Inl e \<Rightarrow> Inl e | Inr n \<Rightarrow> validate_detail_members ms depth n))"

text \<open>An event after the one with this sequence number and time.\<close>

definition validate_event :: "incident_envelope \<Rightarrow> (u32 \<times> u64) option \<Rightarrow> incident_event \<Rightarrow> validation_error option" where
  "validate_event envelope prior event =
     first_error
       [wrong (ev_timestamp_ms event < en_captured_at_ms envelope \<or> en_sent_at_ms envelope < ev_timestamp_ms event
          \<or> (case prior of None \<Rightarrow> False
             | Some (sequence, timestamp) \<Rightarrow> ev_sequence event \<le> sequence \<or> ev_timestamp_ms event < timestamp))
          InvalidEventOrder,
        validate_event_code (ev_event_type event) (ev_code event),
        (case ev_fingerprint event of None \<Rightarrow> None | Some f \<Rightarrow> validate_code f 128 ''event.fingerprint''),
        (case ev_message event of None \<Rightarrow> None
         | Some m \<Rightarrow> validate_free_text m MAX_EVENT_MESSAGE_BYTES ''event.message''),
        wrong (MAX_DETAIL_CONTAINER_ITEMS < length (ev_details event)) DetailContainerTooLarge,
        (case validate_detail_members (ev_details event) 1 0 of Inl e \<Rightarrow> Some e | Inr _ \<Rightarrow> None)]"

fun validate_events ::
  "incident_envelope \<Rightarrow> (u32 \<times> u64) option \<Rightarrow> incident_event list \<Rightarrow> validation_error option" where
  "validate_events envelope prior [] = None"
| "validate_events envelope prior (event # events) =
     (case validate_event envelope prior event of Some e \<Rightarrow> Some e
      | None \<Rightarrow> validate_events envelope (Some (ev_sequence event, ev_timestamp_ms event)) events)"

definition validate_envelope :: "incident_envelope \<Rightarrow> u64 \<Rightarrow> validation_error option" where
  "validate_envelope e now_ms =
     first_error
       [wrong (en_schema_version e \<noteq> INCIDENT_SCHEMA_VERSION) UnsupportedSchemaVersion,
        validate_uuid (en_envelope_id e) ''envelope_id'',
        validate_uuid (en_install_id e) ''install_id'',
        validate_uuid (en_session_id e) ''session_id'',
        validate_envelope_timestamp (en_captured_at_ms e) now_ms ''captured_at_ms'',
        validate_envelope_timestamp (en_sent_at_ms e) now_ms ''sent_at_ms'',
        wrong (en_sent_at_ms e < en_captured_at_ms e) (InvalidTimestamp ''sent_at_ms''),
        validate_metadata_string (app_version (en_app e)) 32 ''app.version'',
        validate_git_sha (app_git_sha (en_app e)),
        validate_channel (app_channel (en_app e)),
        validate_runtime_info (app_runtimes (en_app e)),
        validate_optional_metadata (pl_os_version (en_platform e)) 64 ''platform.os_version'',
        validate_optional_metadata (pl_os_build (en_platform e)) 64 ''platform.os_build'',
        wrong (en_events e = []) EmptyEvents,
        wrong (MAX_EVENTS < length (en_events e)) TooManyEvents,
        validate_events e None (en_events e)]"

section \<open>What is kept\<close>

definition sanitize_event :: "incident_event \<Rightarrow> incident_event" where
  "sanitize_event event =
     event\<lparr>ev_code := sanitize_text (ev_code event), ev_fingerprint := None, ev_message := None,
           ev_details := map (\<lambda>(k, v). (k, sanitize_value k v)) (ev_details event)\<rparr>"

definition sanitize_runtimes :: "runtime_info \<Rightarrow> runtime_info" where
  "sanitize_runtimes rt =
     \<lparr>rt_browser_name = sanitize_optional_text (rt_browser_name rt),
      rt_browser_version = sanitize_optional_text (rt_browser_version rt),
      rt_webview_version = sanitize_optional_text (rt_webview_version rt),
      rt_livekit_version = sanitize_optional_text (rt_livekit_version rt),
      rt_tauri_version = sanitize_optional_text (rt_tauri_version rt)\<rparr>"

definition sanitize_envelope :: "incident_envelope \<Rightarrow> incident_envelope" where
  "sanitize_envelope e =
     e\<lparr>en_app := \<lparr>app_version = sanitize_text (app_version (en_app e)), app_git_sha = sanitize_text (app_git_sha (en_app e)),
          app_channel = sanitize_text (app_channel (en_app e)), app_runtimes = sanitize_runtimes (app_runtimes (en_app e))\<rparr>,
       en_platform := (en_platform e)\<lparr>pl_os_version := sanitize_optional_text (pl_os_version (en_platform e)),
          pl_os_build := sanitize_optional_text (pl_os_build (en_platform e))\<rparr>,
       en_events := map sanitize_event (en_events e)\<rparr>"

definition sanitize_stored_incident :: "stored_incident \<Rightarrow> stored_incident" where
  "sanitize_stored_incident r =
     r\<lparr>si_authenticated_identity := sanitize_text (si_authenticated_identity r),
       si_envelope := sanitize_envelope (si_envelope r)\<rparr>"

definition parse_validate_and_sanitize ::
  "(string \<Rightarrow> incident_envelope option) \<Rightarrow> string \<Rightarrow> u64 \<Rightarrow> diagnostics_error + incident_envelope" where
  "parse_validate_and_sanitize parse raw_body now_ms =
     (if MAX_REQUEST_BYTES < length raw_body then Inl BodyTooLarge
      else case parse raw_body of None \<Rightarrow> Inl InvalidJson
      | Some envelope \<Rightarrow>
          (case validate_envelope envelope now_ms of Some e \<Rightarrow> Inl (ValidationFailed e)
           | None \<Rightarrow> Inr (sanitize_envelope envelope)))"

section \<open>Digests\<close>

type_synonym u128 = "128 word"

definition fnv_step :: "char \<Rightarrow> u128 \<Rightarrow> u128" where
  "fnv_step b hash = xor hash (of_nat (byte_of b)) * 0x0000000001000000000000000000013b"

definition fnv1a128 :: "string \<Rightarrow> u128" where
  "fnv1a128 bytes = fold fnv_step bytes 0x6c62272e07bb014262b821756295c58d"

text \<open>\<open>{:032x}\<close>\<close>

definition hex_u128 :: "u128 \<Rightarrow> string" where
  "hex_u128 w = map (\<lambda>i. hex_digit_lower (unat w div 16 ^ i mod 16)) (rev [0..<32])"

definition payload_digest :: "(incident_envelope \<Rightarrow> string option) \<Rightarrow> incident_envelope \<Rightarrow> string option" where
  "payload_digest render envelope =
     map_option (\<lambda>canonical. ''fnv1a128:'' @ hex_u128 (fnv1a128 canonical)) (render envelope)"

definition identity_digest :: "(string \<Rightarrow> string \<Rightarrow> string) \<Rightarrow> string \<Rightarrow> string \<Rightarrow> string" where
  "identity_digest mac key identity =
     ''hmac-sha256:'' @ hex_bytes (mac key (''echo-diagnostics-identity-v1'' @ [CHR 0x00] @ identity))"

definition validate_identity_digest :: "string \<Rightarrow> bool" where
  "validate_identity_digest value =
     (case strip_prefix ''hmac-sha256:'' value of None \<Rightarrow> False
      | Some hex \<Rightarrow> length hex = 64 \<and> list_all (\<lambda>b. is_ascii_hexdigit b \<and> \<not> is_ascii_uppercase b) hex)"

text \<open>Up to eight draws of sixteen random bytes; \<open>taken\<close> says whether an id is in use.\<close>

definition generate_unique_incident_id :: "string list \<Rightarrow> (string \<Rightarrow> bool) \<Rightarrow> string option" where
  "generate_unique_incident_id draws taken =
     find (\<lambda>i. \<not> taken i) (map (\<lambda>random. INCIDENT_ID_PREFIX @ hex_bytes random) (take 8 draws))"

end
