(* ===== verification/DiagnosticProperties.thy ===== *)
theory DiagnosticProperties
  imports DiagnosticRecord
begin

text \<open>
  What the cleaning of a client's text keeps from the store, what is accepted of a report, and where the
  recognisers miss.
\<close>

section \<open>Passes over a text\<close>

definition start_ok :: "string \<Rightarrow> bool" where
  "start_ok s \<longleftrightarrow> s = [] \<or> \<not> is_continuation (hd s)"

lemma utf8_ascii: "list_all is_ascii s \<Longrightarrow> utf8_chars s = map (\<lambda>c. [c]) s"
proof (induction s)
  case (Cons c s)
  then have "takeWhile is_continuation s = [] \<and> dropWhile is_continuation s = s"
    by (cases s) (simp_all add: is_continuation_def is_ascii_def)
  with Cons show ?case by simp
qed simp

lemma utf8_first: "is_ascii c \<Longrightarrow> start_ok s \<Longrightarrow> utf8_chars (c # s) = [c] # utf8_chars s"
  by (cases s) (simp_all add: start_ok_def)

text \<open>Where a recogniser is silent in a prefix of ASCII characters, the prefix stays.\<close>

lemma redact_prefix:
  assumes "list_all is_ascii p" "start_ok t" "\<And>c. c < length p \<Longrightarrow> hit (d (p @ t) c) c = None"
  shows "redact_with (p @ t) d = p @ redact_from d (p @ t) (length p)"
proof -
  have "redact_from d (p @ t) k = drop k p @ redact_from d (p @ t) (length p)" if "k \<le> length p" for k
    using that
  proof (induction rule: inc_induct)
    case (step k)
    have rest: "start_ok (drop (Suc k) p @ t)"
    proof (cases "drop (Suc k) p")
      case (Cons x xs)
      then have "x \<in> set p" by (metis in_set_dropD list.set_intros(1))
      then have "is_ascii x" using assms(1) by (simp add: list_all_iff)
      then show ?thesis by (simp add: Cons start_ok_def is_continuation_def is_ascii_def)
    qed (simp add: assms(2))
    have "p ! k \<in> set p" using step.hyps by simp
    then have "is_ascii (p ! k)" using assms(1) by (simp add: list_all_iff)
    then have chars: "utf8_chars (drop k (p @ t)) = [p ! k] # utf8_chars (drop (Suc k) p @ t)"
      using step.hyps utf8_first [OF _ rest] by (simp add: Cons_nth_drop_Suc [symmetric])
    have "redact_from d (p @ t) k = p ! k # redact_from d (p @ t) (Suc k)"
      using step.hyps assms(3) [of k] chars by (subst redact_from.simps) simp
    then show ?case using step by (simp add: Cons_nth_drop_Suc [symmetric])
  qed simp
  from this [of 0] show ?thesis by (simp add: redact_with_def)
qed

text \<open>What a pass leaves of the rest: the rest, or something with a marker in it.\<close>

definition marker_ok :: "string \<Rightarrow> bool" where
  "marker_ok m \<longleftrightarrow> m \<noteq> [] \<and> is_ascii (hd m) \<and> CHR ''['' \<in> set m \<and> newline \<notin> set m \<and> carriage_return \<notin> set m"

definition marks :: "detector \<Rightarrow> bool" where
  "marks d \<longleftrightarrow> (\<forall>input c fin m. d input c = Some (fin, m) \<longrightarrow> marker_ok m)"

lemma hit_found: "hit found c = Some x \<Longrightarrow> found = Some x"
  by (auto simp: hit_def split: option.splits prod.splits if_splits)

lemma redact_from_end: "length input \<le> c \<Longrightarrow> redact_from d input c = []"
  by (subst redact_from.simps) simp

lemma redact_from_hit:
  "c < length input \<Longrightarrow> hit (d input c) c = Some (fin, m) \<Longrightarrow> redact_from d input c = m @ redact_from d input fin"
  by (subst redact_from.simps) simp

lemma redact_from_miss:
  "c < length input \<Longrightarrow> hit (d input c) c = None \<Longrightarrow> utf8_chars (drop c input) = ch # chs
   \<Longrightarrow> redact_from d input c = ch @ redact_from d input (c + length ch)"
  by (subst redact_from.simps) simp

lemma utf8_split: "utf8_chars s = ch # chs \<Longrightarrow> s = ch @ drop (length ch) s"
  by (metis append_eq_conv_conj concat.simps(2) concat_utf8_chars)

lemma redact_from_rest:
  "marks d \<Longrightarrow> (redact_from d input c = drop c input \<or> CHR ''['' \<in> set (redact_from d input c))
    \<and> (newline \<notin> set (drop c input) \<longrightarrow> newline \<notin> set (redact_from d input c))
    \<and> (carriage_return \<notin> set (drop c input) \<longrightarrow> carriage_return \<notin> set (redact_from d input c))"
proof (induction d input c rule: redact_from.induct)
  case (1 d input c)
  show ?case
  proof (cases "c < length input")
    case True
    show ?thesis
    proof (cases "hit (d input c) c")
      case None
      obtain ch chs where ch: "utf8_chars (drop c input) = ch # chs" using True by (cases "drop c input") auto
      have split: "drop c input = ch @ drop (c + length ch) input"
        using utf8_split [OF ch] by (simp add: add.commute)
      show ?thesis
        using 1(1)[OF _ None ch 1(3)] True redact_from_miss [where d = d and input = input, OF True None ch]
        by (subst (1 2 3) split) auto
    next
      case (Some x)
      obtain fin m where x: "x = (fin, m)" by (cases x)
      then have m: "marker_ok m" using 1(3) hit_found [OF Some] by (auto simp: marks_def)
      have later: "set (drop fin input) \<subseteq> set (drop c input)"
        using hit_later [of "d input c" c fin m] Some x by (simp add: set_drop_subset_set_drop)
      show ?thesis
        using 1(2)[OF _ Some [unfolded x] refl 1(3)] True redact_from_hit [where d = d and input = input, OF True Some [unfolded x]] m later
        by (auto simp: marker_ok_def)
    qed
  qed (simp add: redact_from_end)
qed

lemma markers_ok:
  "marker_ok REDACTED_AUTH" "marker_ok REDACTED_EMAIL" "marker_ok REDACTED_IP" "marker_ok REDACTED_JWT"
  "marker_ok REDACTED_PATH" "marker_ok (CHR ''?'' # REDACTED_QUERY)" "marker_ok REDACTED_URL" "marker_ok REDACTED_FIELD"
  by code_simp+

lemma detectors_mark:
  "marks detect_url" "marks detect_file_uri" "marks detect_absolute_path" "marks detect_query"
  "marks detect_auth_scheme_value"
  unfolding marks_def detect_url_def detect_file_uri_def detect_absolute_path_def detect_query_def
    detect_auth_scheme_value_def
  by (auto simp: Let_def markers_ok split: if_splits option.splits)

text \<open>The rest still begins with a character.\<close>

lemma redact_from_start:
  assumes "marks d" "start_ok (drop c input)"
  shows "start_ok (redact_from d input c)"
proof (cases "c < length input")
  case True
  show ?thesis
  proof (cases "hit (d input c) c")
    case None
    obtain ch chs where ch: "utf8_chars (drop c input) = ch # chs" using True by (cases "drop c input") auto
    then have "ch \<noteq> []" "hd ch = hd (drop c input)"
      using utf8_char_nonempty [OF ch] utf8_split [OF ch] by (auto dest: arg_cong [where f = hd])
    then show ?thesis
      using assms(2) True redact_from_miss [where d = d and input = input, OF True None ch] by (simp add: start_ok_def)
  next
    case (Some x)
    obtain fin m where x: "x = (fin, m)" by (cases x)
    then have "marker_ok m" using assms(1) hit_found [OF Some] by (auto simp: marks_def)
    then show ?thesis
      using redact_from_hit [where d = d and input = input, OF True Some [unfolded x]]
      by (auto simp: start_ok_def marker_ok_def is_ascii_def is_continuation_def)
  qed
qed (simp add: redact_from_end start_ok_def)

section \<open>A secret behind its label\<close>

text \<open>
  A label as the recogniser reads it, at least two characters long and not the name of the scheme of an
  address, which an earlier pass would take it for.
\<close>

definition label_byte :: "char \<Rightarrow> bool" where
  "label_byte b \<longleftrightarrow> is_ascii_alphanumeric b \<or> b \<in> set ''_-''"

definition secret_label :: "string \<Rightarrow> bool" where
  "secret_label label \<longleftrightarrow> 2 \<le> length label \<and> is_ascii_alphabetic (hd label) \<and> list_all label_byte label
     \<and> is_sensitive_key label
     \<and> map ascii_lower label \<notin> set [''https'', ''http'', ''wss'', ''ws'', ''file'']"

definition blank_or_quote :: "char \<Rightarrow> bool" where
  "blank_or_quote b \<longleftrightarrow> is_ascii_whitespace b \<or> b \<in> {double_quote, single_quote}"

text \<open>What is left to a pass: the label, the separator and a rest of the line with something in it.\<close>

definition labelled :: "string \<Rightarrow> char \<Rightarrow> string \<Rightarrow> bool" where
  "labelled label sep t \<longleftrightarrow> secret_label label \<and> sep \<in> set '':='' \<and> start_ok t
     \<and> newline \<notin> set t \<and> carriage_return \<notin> set t \<and> \<not> list_all blank_or_quote t"

lemma label_byte_ascii: "label_byte b \<Longrightarrow> is_ascii b"
  by (auto simp: label_byte_def is_ascii_alphanumeric_def is_ascii_digit_def is_ascii_def byte_of_def)

lemma label_byte_not:
  "label_byte b \<Longrightarrow> b \<notin> set '':=?/~([{'' \<and> b \<notin> {double_quote, single_quote, backslash} \<and> \<not> is_whitespace [b]"
  by (auto simp: label_byte_def is_ascii_alphanumeric_def is_ascii_digit_def byte_of_def is_whitespace_def)

lemma pass_keeps_label:
  assumes l: "labelled label sep t" and d: "marks d"
    and quiet: "\<And>c. c \<le> length label \<Longrightarrow> hit (d (label @ sep # t) c) c = None"
  shows "\<exists>t'. redact_with (label @ sep # t) d = label @ sep # t' \<and> labelled label sep t'"
proof -
  let ?p = "label @ [sep]" and ?in = "label @ sep # t"
  let ?t = "redact_from d ?in (length ?p)"
  have "is_ascii sep" using l by (auto simp: labelled_def is_ascii_def byte_of_def)
  then have ascii: "list_all is_ascii ?p"
    using l label_byte_ascii by (auto simp: labelled_def secret_label_def list_all_iff)
  have start: "start_ok t" using l by (simp add: labelled_def)
  have "redact_with (?p @ t) d = ?p @ redact_from d (?p @ t) (length ?p)"
    by (rule redact_prefix [OF ascii start]) (use quiet in simp)
  then have out: "redact_with ?in d = label @ sep # ?t" by simp
  have rest: "drop (length ?p) ?in = t" by simp
  note r = redact_from_rest [OF d, of ?in "length ?p", unfolded rest]
  have "\<not> list_all blank_or_quote ?t"
  proof (cases "?t = t")
    case True
    then show ?thesis using l by (simp add: labelled_def)
  next
    case False
    then have "CHR ''['' \<in> set ?t" using r by blast
    moreover have "\<not> blank_or_quote (CHR ''['')" by code_simp
    ultimately show ?thesis by (auto simp: list_all_iff)
  qed
  moreover have "start_ok ?t" using redact_from_start [OF d, of "length ?p" ?in] start rest by simp
  ultimately have "labelled label sep ?t" using l r by (simp add: labelled_def)
  with out show ?thesis by blast
qed

lemma label_byte_lower: "label_byte (ascii_lower c) \<longleftrightarrow> label_byte c"
  by (auto simp: label_byte_def ascii_lower_def is_ascii_alphanumeric_def is_ascii_digit_def byte_of_def of_char_of)

lemma takeWhile_take: "takeWhile P (take n xs) = take n (takeWhile P xs)"
proof (induction xs arbitrary: n)
  case (Cons x xs)
  then show ?case by (cases n) simp_all
qed simp

lemma labelledD:
  assumes "labelled label sep t"
  shows "2 \<le> length label" "list_all label_byte label" "sep \<in> set '':=''" "\<not> label_byte sep" "start_ok t"
    "map ascii_lower label \<notin> set [''https'', ''http'', ''wss'', ''ws'', ''file'']"
    "is_ascii_alphabetic (label ! 0)" "is_sensitive_key label" "newline \<notin> set t" "carriage_return \<notin> set t"
    "\<not> list_all blank_or_quote t"
proof -
  have "label \<noteq> []" using assms by (auto simp: labelled_def secret_label_def)
  then show "2 \<le> length label" "list_all label_byte label" "sep \<in> set '':=''" "start_ok t"
    "map ascii_lower label \<notin> set [''https'', ''http'', ''wss'', ''ws'', ''file'']"
    "is_ascii_alphabetic (label ! 0)" "is_sensitive_key label" "newline \<notin> set t" "carriage_return \<notin> set t"
    "\<not> list_all blank_or_quote t"
    using assms by (simp_all add: labelled_def secret_label_def hd_conv_nth)
  then show "\<not> label_byte sep"
    by (auto simp: label_byte_def is_ascii_alphanumeric_def is_ascii_digit_def byte_of_def)
qed

lemma labelled_takeWhile: "labelled label sep t \<Longrightarrow> takeWhile label_byte (label @ sep # t) = label"
  using labelledD(2,4) [of label sep t] by (simp add: list_all_iff)

lemma labelled_nth: "labelled label sep t \<Longrightarrow> c < length label \<Longrightarrow> label_byte ((label @ sep # t) ! c)"
  using labelledD(2) [of label sep t] by (simp add: nth_append list_all_iff)

text \<open>An address cannot begin at the label, whose name is no scheme.\<close>

lemma scheme_is_label:
  assumes l: "labelled label sep t" and w: "list_all label_byte w"
    and s: "starts_with_ascii_case_insensitive (label @ sep # t) (w @ ''://'')"
  shows "map ascii_lower label = map ascii_lower w"
proof -
  let ?n = "length w + 3"
  have colon: "\<not> label_byte (ascii_lower (CHR '':''))" by code_simp
  have "map ascii_lower (take ?n (label @ sep # t)) = map ascii_lower (w @ ''://'')"
    using s by (simp add: starts_with_ascii_case_insensitive_def eq_ignore_ascii_case_def numeral_3_eq_3)
  then have "takeWhile label_byte (map ascii_lower (take ?n (label @ sep # t)))
      = takeWhile label_byte (map ascii_lower (w @ ''://''))" by simp
  moreover have "takeWhile label_byte (map ascii_lower xs) = map ascii_lower (takeWhile label_byte xs)" for xs
    by (simp add: takeWhile_map comp_def label_byte_lower)
  moreover have "takeWhile label_byte (w @ ''://'') = w" using w colon
    by (simp add: list_all_iff label_byte_lower)
  ultimately have *: "map ascii_lower (take ?n label) = map ascii_lower w"
    by (simp add: takeWhile_take labelled_takeWhile [OF l] del: take_append map_append)
  then have "length (take ?n label) = length w" by (metis length_map)
  then have "length label \<le> ?n" by simp
  with * show ?thesis by simp
qed

lemma no_address_at_label:
  assumes l: "labelled label sep t" and w: "w \<in> set [''https'', ''http'', ''wss'', ''ws'', ''file'']"
  shows "\<not> starts_with_ascii_case_insensitive (label @ sep # t) (w @ ''://'')"
proof
  assume s: "starts_with_ascii_case_insensitive (label @ sep # t) (w @ ''://'')"
  have "list_all label_byte w" using w by (elim in_set_conv_nth [THEN iffD1, THEN exE]) (auto simp: less_Suc_eq numeral_eq_Suc label_byte_def is_ascii_alphanumeric_def byte_of_def)
  moreover have "map ascii_lower w = w" using w by (auto simp: ascii_lower_def byte_of_def)
  ultimately show False using scheme_is_label [OF l _ s] labelledD(6) [OF l] w by simp
qed

lemma inside_label:
  assumes l: "labelled label sep t" and c: "0 < c" "c \<le> length label"
  shows "\<not> is_token_boundary (label @ sep # t) c" "\<not> is_path_boundary (label @ sep # t) c"
proof -
  let ?b = "(label @ sep # t) ! (c - 1)"
  have b: "label_byte ?b" using labelled_nth [OF l, of "c - 1"] c by simp
  then show "\<not> is_token_boundary (label @ sep # t) c"
    using c by (auto simp: is_token_boundary_def label_byte_def)
  have "take c (label @ sep # t) = take (c - 1) label @ [?b]"
    using c by (cases c) (auto simp: take_Suc_conv_app_nth nth_append)
  moreover have "list_all is_ascii (take (c - 1) label @ [?b])"
    using labelledD(2) [OF l] b label_byte_ascii by (auto simp: list_all_iff dest: in_set_takeD)
  ultimately show "\<not> is_path_boundary (label @ sep # t) c"
    using label_byte_not [OF b] by (auto simp: is_path_boundary_def utf8_ascii one_of_def)
qed

lemma address_passes_quiet:
  assumes l: "labelled label sep t" and c: "c \<le> length label"
  shows "detect_url (label @ sep # t) c = None" "detect_file_uri (label @ sep # t) c = None"
proof -
  show "detect_url (label @ sep # t) c = None"
    using inside_label(1) [OF l] c no_address_at_label [OF l, of "''https''"] no_address_at_label [OF l, of "''http''"]
      no_address_at_label [OF l, of "''wss''"] no_address_at_label [OF l, of "''ws''"]
    by (cases c) (simp_all add: detect_url_def)
  show "detect_file_uri (label @ sep # t) c = None"
    using inside_label(2) [OF l] c no_address_at_label [OF l, of "''file''"]
    by (cases c) (simp_all add: detect_file_uri_def)
qed

lemma path_pass_quiet:
  assumes l: "labelled label sep t" and c: "c \<le> length label"
  shows "detect_absolute_path (label @ sep # t) c = None"
proof (cases c)
  case 0
  obtain a b rest where label: "label = a # b # rest" using labelledD(1) [OF l] by (cases label; cases "tl label") auto
  then have "label_byte a" "label_byte b" using labelledD(2) [OF l] by simp_all
  then show ?thesis using label_byte_not [of a] label_byte_not [of b]
    by (simp add: 0 label detect_absolute_path_def Let_def starts_with_def)
next
  case (Suc n)
  then show ?thesis using inside_label(2) [OF l, of c] c by (simp add: detect_absolute_path_def Let_def)
qed

lemma query_pass_quiet:
  assumes l: "labelled label sep t" and c: "c \<le> length label"
  shows "detect_query (label @ sep # t) c = None"
proof -
  have "(label @ sep # t) ! c \<noteq> CHR ''?''"
  proof (cases "c < length label")
    case True
    then show ?thesis using label_byte_not [OF labelled_nth [OF l True]] by auto
  next
    case False
    then show ?thesis using c labelledD(3) [OF l] by auto
  qed
  then show ?thesis by (simp add: detect_query_def)
qed

lemma auth_scheme_pass_quiet:
  assumes l: "labelled label sep t" and c: "c \<le> length label"
  shows "detect_auth_scheme_value (label @ sep # t) c = None"
proof (cases "auth_scheme_at (label @ sep # t) c")
  case (Some w)
  let ?after = "c + length w"
  have w: "w \<in> set [''bearer'', ''basic'', ''digest'']"
    and s: "starts_with_ascii_case_insensitive (drop c (label @ sep # t)) w"
    using Some by (auto simp: auth_scheme_at_def find_Some_iff nth_Cons' split: if_splits)
  have sep: "is_ascii sep" "\<not> is_whitespace [sep]" "ascii_lower sep \<notin> set (map ascii_lower w)"
    using labelledD(3) [OF l] w by (auto simp: is_ascii_def byte_of_def is_whitespace_def ascii_lower_def)
  have le: "?after \<le> length label"
  proof (rule ccontr)
    assume "\<not> ?after \<le> length label"
    then have "sep \<in> set (take (length w) (drop c (label @ sep # t)))"
      using c by (cases "length w - length (drop c label)") auto
    then have "ascii_lower sep \<in> set (map ascii_lower (take (length w) (drop c (label @ sep # t))))"
      unfolding set_map by (rule imageI)
    with s sep(3) show False by (simp add: starts_with_ascii_case_insensitive_def eq_ignore_ascii_case_def)
  qed
  have "\<not> is_whitespace (hd (utf8_chars (drop ?after (label @ sep # t))))"
  proof (cases "?after = length label")
    case True
    then show ?thesis using sep utf8_first [OF sep(1) labelledD(5) [OF l]] by simp
  next
    case False
    then have lt: "?after < length label" using le by simp
    have b: "label_byte (label ! ?after)" using labelled_nth [OF l lt] lt by (simp add: nth_append)
    have "is_ascii x" if "drop (Suc ?after) label = x # xs" for x xs
      using that labelledD(2) [OF l] label_byte_ascii by (metis in_set_dropD list.set_intros(1) list_all_iff)
    then have "start_ok (drop (Suc ?after) label @ sep # t)"
      using sep(1) by (cases "drop (Suc ?after) label") (auto simp: start_ok_def is_ascii_def is_continuation_def)
    then have "utf8_chars (drop ?after (label @ sep # t)) = [label ! ?after] # utf8_chars (drop (Suc ?after) label @ sep # t)"
      using utf8_first [OF label_byte_ascii [OF b]] lt by (simp add: Cons_nth_drop_Suc [symmetric])
    then show ?thesis using label_byte_not [OF b] by simp
  qed
  then show ?thesis using Some by (simp add: detect_auth_scheme_value_def Let_def)
qed (simp add: detect_auth_scheme_value_def)

lemma utf8_part: "ch \<in> set (utf8_chars s) \<Longrightarrow> set ch \<subseteq> set s"
  by (metis UN_upper concat_utf8_chars set_concat)

lemma secret_pass_fires:
  assumes l: "labelled label sep t"
  shows "redact_with (label @ sep # t) detect_labeled_secret = REDACTED_AUTH"
proof -
  let ?in = "label @ sep # t"
  let ?k = "length (takeWhile blank_or_quote t)"
  have [simp]: "label \<noteq> []" using labelledD(1) [OF l] by auto
  have keep: "(\<lambda>b. is_ascii b \<and> (is_ascii_alphanumeric b \<or> b \<in> set ''_-'')) = label_byte"
    using label_byte_ascii by (auto simp: label_byte_def fun_eq_iff)
  have blank: "(\<lambda>b. is_ascii_whitespace b \<or> b \<in> {double_quote, single_quote}) = blank_or_quote"
    by (simp add: blank_or_quote_def fun_eq_iff)
  have "\<not> blank_or_quote sep"
    using labelledD(3) [OF l] by (auto simp: blank_or_quote_def is_ascii_whitespace_def byte_of_def)
  then have cursor: "consume_while ?in 0 (\<lambda>b. is_ascii_alphanumeric b \<or> b \<in> set ''_-'') = length label"
    "skip_ascii_whitespace_and_quotes ?in (length label) = length label"
    "skip_ascii_whitespace_and_quotes ?in (length label + 1) = length label + 1 + ?k"
    by (simp_all only: consume_while_def skip_ascii_whitespace_and_quotes_def keep blank)
       (simp_all add: labelled_takeWhile [OF l])
  have "drop (length label + 1 + ?k) ?in = dropWhile blank_or_quote t"
    by (simp add: dropWhile_eq_drop)
  moreover have "\<not> line_stop ch" if "ch \<in> set (utf8_chars (dropWhile blank_or_quote t))" for ch
  proof
    assume "line_stop ch"
    then have "newline \<in> set ch \<or> carriage_return \<in> set ch"
      by (auto simp: line_stop_def one_of_def split: list.splits)
    moreover have "set ch \<subseteq> set (dropWhile blank_or_quote t)" using utf8_part [OF that] .
    ultimately have "newline \<in> set t \<or> carriage_return \<in> set t"
      by (auto dest: set_dropWhileD)
    then show False using labelledD(9,10) [OF l] by simp
  qed
  ultimately have fin: "consume_until ?in (length label + 1 + ?k) line_stop = length ?in"
    using arg_cong [OF takeWhile_dropWhile_id [of blank_or_quote t], of length]
    by (simp add: consume_until_def takeWhile_eq_all_conv [THEN iffD2] del: takeWhile_dropWhile_id)
  have "takeWhile blank_or_quote t \<noteq> t" using labelledD(11) [OF l] by (auto simp: list_all_iff takeWhile_eq_all_conv)
  then have "?k < length t" by (metis length_takeWhile_le nat_less_le takeWhile_eq_take take_all_iff)
  then have "detect_labeled_secret ?in 0 = Some (length ?in, REDACTED_AUTH)"
    using labelledD(3,7,8) [OF l] cursor fin
    by (auto simp: detect_labeled_secret_def is_word_boundary_def Let_def sub_string_def nth_append)
  then show ?thesis
    by (simp add: redact_with_def redact_from_hit [where fin = "length ?in" and m = REDACTED_AUTH] hit_def redact_from_end)
qed

lemma one_line: "newline \<notin> set s \<Longrightarrow> s \<noteq> [] \<Longrightarrow> redact_sdp_and_candidate_lines s \<in> {s, REDACTED_SDP}"
proof -
  assume s: "newline \<notin> set s" "s \<noteq> []"
  have "split_inclusive line s = [line @ s]" if "newline \<notin> set s" "line @ s \<noteq> []" for line s
    using that by (induction s arbitrary: line) auto
  from this [of s "[]"] s have "split_inclusive [] s = [s]" by simp
  moreover have "\<not> ends_with s [newline]"
    using s by (auto simp: ends_with_def dest!: arg_cong [where f = set] in_set_dropD)
  ultimately show ?thesis by (simp add: redact_sdp_and_candidate_lines_def redact_line_def Let_def)
qed

definition silent :: "detector \<Rightarrow> string \<Rightarrow> bool" where
  "silent d m \<longleftrightarrow> list_all (\<lambda>c. d m c = None) [0..<length m]"

lemma silent_pass: "silent d m \<Longrightarrow> list_all is_ascii m \<Longrightarrow> redact_with m d = m"
  using redact_prefix [of m "[]" d] by (simp add: silent_def list_all_iff start_ok_def hit_def redact_from_end)

text \<open>The markers themselves pass every recogniser.\<close>

lemma sdp_silent:
  "silent detect_url REDACTED_SDP"
  "silent detect_file_uri REDACTED_SDP"
  "silent detect_absolute_path REDACTED_SDP"
  "silent detect_query REDACTED_SDP"
  "silent detect_auth_scheme_value REDACTED_SDP"
  "silent detect_labeled_secret REDACTED_SDP"
  "silent detect_jwt REDACTED_SDP"
  "silent detect_opaque_token REDACTED_SDP"
  "silent detect_email REDACTED_SDP"
  "silent detect_bracketed_ipv6 REDACTED_SDP"
  "silent detect_ipv6 REDACTED_SDP"
  "silent detect_ipv4 REDACTED_SDP"
  subgoal by code_simp
  subgoal by code_simp
  subgoal by code_simp
  subgoal by code_simp
  subgoal by code_simp
  subgoal by code_simp
  subgoal by code_simp
  subgoal by code_simp
  subgoal by code_simp
  subgoal by code_simp
  subgoal by code_simp
  subgoal by code_simp
  done

lemma auth_silent:
  "silent detect_jwt REDACTED_AUTH"
  "silent detect_opaque_token REDACTED_AUTH"
  "silent detect_email REDACTED_AUTH"
  "silent detect_bracketed_ipv6 REDACTED_AUTH"
  "silent detect_ipv6 REDACTED_AUTH"
  "silent detect_ipv4 REDACTED_AUTH"
  subgoal by code_simp
  subgoal by code_simp
  subgoal by code_simp
  subgoal by code_simp
  subgoal by code_simp
  subgoal by code_simp
  done

lemma marker_ascii: "list_all is_ascii REDACTED_AUTH" "list_all is_ascii REDACTED_SDP"
  by code_simp+

lemmas sdp_stays = sdp_silent [THEN silent_pass, OF marker_ascii(2)]
lemmas auth_stays = auth_silent [THEN silent_pass, OF marker_ascii(1)]

lemma truncate_ascii:
  assumes "list_all is_ascii m"
  shows "truncate_to_byte_len m n = take n m"
proof (cases "length m \<le> n")
  case False
  then have "is_ascii (m ! n)" using assms by (simp add: list_all_length)
  with False have "is_char_boundary m n" by (auto simp: is_char_boundary_def is_ascii_def is_continuation_def)
  then have "boundary_below m n = n" by (cases n) simp_all
  then show ?thesis using False by (simp add: truncate_to_byte_len_def)
qed (simp add: truncate_to_byte_len_def)

text \<open>
  C0. A secret behind its label leaves no trace: whatever follows \<open>password=\<close> or any other sensitive label at the
  start of a line, the cleaned text is the marker for secrets or the marker for a line of a session description,
  cut to the length of the text, so that all that remains of the secret is how long it was.
\<close>

theorem labelled_secret_is_gone:
  assumes "labelled label sep secret"
  shows "sanitize_text (label @ sep # secret)
    \<in> {take (length (label @ sep # secret)) REDACTED_AUTH, take (length (label @ sep # secret)) REDACTED_SDP}"
proof -
  let ?in = "label @ sep # secret"
  define rest where "rest s = redact_with (redact_with (redact_with (redact_with (redact_with (redact_with s detect_jwt)
    detect_opaque_token) detect_email) detect_bracketed_ipv6) detect_ipv6) detect_ipv4" for s
  define early where "early s = redact_with (redact_url_queries (redact_with (redact_with (redact_with s detect_url)
    detect_file_uri) detect_absolute_path)) detect_auth_scheme_value" for s
  have out: "sanitize_text ?in = truncate_to_byte_len
     (rest (redact_with (early (redact_sdp_and_candidate_lines ?in)) detect_labeled_secret)) (length ?in)"
    by (simp only: sanitize_text_def rest_def early_def Let_def)
  have quiet: "\<exists>t'. early (label @ sep # secret) = label @ sep # t' \<and> labelled label sep t'"
    unfolding early_def redact_url_queries_def
  proof -
    let ?L = "\<lambda>s. \<exists>t. s = label @ sep # t \<and> labelled label sep t"
    have pass: "?L (redact_with s d)" if "?L s" "marks d"
      "\<And>t c. labelled label sep t \<Longrightarrow> c \<le> length label \<Longrightarrow> d (label @ sep # t) c = None" for s d
      using that pass_keeps_label [of label sep _ d] by (fastforce simp: hit_def)
    show "?L (redact_with (redact_with (redact_with (redact_with (redact_with ?in detect_url)
      detect_file_uri) detect_absolute_path) detect_query) detect_auth_scheme_value)"
      using assms by (intro pass detectors_mark address_passes_quiet path_pass_quiet query_pass_quiet auth_scheme_pass_quiet) auto
  qed
  have line: "newline \<notin> set ?in" "?in \<noteq> []"
    using labelledD(2,3,9) [OF assms] label_byte_not [of newline] by (auto simp: list_all_iff is_whitespace_def byte_of_def)
  have "redact_with (early ?in) detect_labeled_secret = REDACTED_AUTH"
    using quiet secret_pass_fires by auto
  moreover have "redact_with (early REDACTED_SDP) detect_labeled_secret = REDACTED_SDP"
    by (simp only: early_def redact_url_queries_def sdp_stays)
  ultimately have "redact_with (early (redact_sdp_and_candidate_lines ?in)) detect_labeled_secret \<in> {REDACTED_AUTH, REDACTED_SDP}"
    using one_line [OF line] by auto
  moreover have "rest m = m" if "m \<in> {REDACTED_AUTH, REDACTED_SDP}" for m
    using that by (auto simp only: rest_def sdp_stays auth_stays)
  ultimately have "rest (redact_with (early (redact_sdp_and_candidate_lines ?in)) detect_labeled_secret)
    \<in> {REDACTED_AUTH, REDACTED_SDP}" by auto
  then show ?thesis unfolding out using truncate_ascii marker_ascii by auto
qed

lemma labelled_example: "labelled ''password'' (CHR ''='') ''hunter2''"
  by code_simp

lemma labelled_secret_is_gone_witness:
  "sanitize_text (''password'' @ CHR ''='' # ''hunter2'') \<in>
    {take (length (''password'' @ CHR ''='' # ''hunter2'')) REDACTED_AUTH,
     take (length (''password'' @ CHR ''='' # ''hunter2'')) REDACTED_SDP}"
  by (rule labelled_secret_is_gone [OF labelled_example])

section \<open>Where the recognisers miss\<close>

text \<open>
  An address of version 6 is lost when a full stop or a colon follows it, since nothing is taken off its end, and
  one of version 4 when a full stop stands before it.
\<close>

lemma address_before_a_stop_stays: "sanitize_text ''see fe80::1.'' = ''see fe80::1.''"
  by code_simp

lemma address_after_a_stop_stays: "sanitize_text ''host .10.0.0.1'' = ''host .10.0.0.1''"
  by code_simp

text \<open>The details may have a \<open>candidate_type\<close>, which is sensitive because of its first word.\<close>

lemma candidate_type_is_always_masked:
  "is_allowed_detail_key ''candidate_type'' \<and> sanitize_value ''candidate_type'' (JString ''host'') = JString REDACTED_FIELD"
  by code_simp

end
