(* ===== verification/ReportProperties.thy ===== *)
theory ReportProperties
  imports DiagnosticRecord
begin

text \<open>
  What the diagnostics accept of a report, and what they keep of it: validation against a declarative
  description of an acceptable report, and the shape of everything that was cleaned.
\<close>

section \<open>Checks\<close>

lemma first_error_none: "first_error cs = None \<longleftrightarrow> list_all (\<lambda>c. c = None) cs"
  by (induction cs) (auto simp: first_error_def split: list.splits)

lemma wrong_none [simp]: "wrong b e = None \<longleftrightarrow> \<not> b"
  by (simp add: wrong_def)

text \<open>A value of the details, below it so many levels and in it so many nodes.\<close>

fun levels :: "json \<Rightarrow> nat" where
  "levels (JArray vs) = foldr (\<lambda>v n. max (Suc (levels v)) n) vs 0"
| "levels (JObject ms) = foldr (\<lambda>m n. max (Suc (levels (snd m))) n) ms 0"
| "levels v = 0"

fun nodes :: "json \<Rightarrow> nat" where
  "nodes (JArray vs) = Suc (sum_list (map nodes vs))"
| "nodes (JObject ms) = Suc (sum_list (map (\<lambda>m. nodes (snd m)) ms))"
| "nodes v = 1"

definition key_ok :: "string \<Rightarrow> bool" where
  "key_ok key \<longleftrightarrow> key \<in> set allowed_detail_keys"

definition clean_string :: "nat \<Rightarrow> string \<Rightarrow> bool" where
  "clean_string n s \<longleftrightarrow> length s \<le> n
     \<and> list_all (\<lambda>ch. \<not> is_control ch \<or> one_of [newline, carriage_return, tab] ch) (utf8_chars s)"

fun detail_ok :: "json \<Rightarrow> bool" where
  "detail_ok (JString s) = clean_string 1024 s"
| "detail_ok (JArray vs) = (length vs \<le> 32 \<and> list_all detail_ok vs)"
| "detail_ok (JObject ms) = (length ms \<le> 32 \<and> list_all (\<lambda>m. key_ok (fst m) \<and> detail_ok (snd m)) ms)"
| "detail_ok v = True"

lemma allowed_keys_valid: "list_all (\<lambda>key. validate_detail_key key = None) allowed_detail_keys"
  by code_simp

lemma validate_detail_key_none: "validate_detail_key key = None \<longleftrightarrow> key_ok key"
  using allowed_keys_valid
  by (auto simp: key_ok_def list_all_iff) (simp add: validate_detail_key_def first_error_none is_allowed_detail_key_def)

lemma validate_free_text_none: "validate_free_text s n f = None \<longleftrightarrow> clean_string n s"
  by (auto simp: validate_free_text_def first_error_none clean_string_def list_all_iff list_ex_iff)

declare validate_detail_value.simps [simp del]

lemma levels_bound:
  "d + foldr (\<lambda>v n. max (Suc (levels (f v))) n) vs 0 \<le> m \<longleftrightarrow> d \<le> m \<and> (\<forall>v\<in>set vs. Suc d + levels (f v) \<le> m)"
  by (induction vs) auto

lemma validate_detail_value_accepts:
  "validate_detail_value v d k = Inr n \<longleftrightarrow>
     detail_ok v \<and> d + levels v \<le> 6 \<and> k + nodes v \<le> 256 \<and> n = k + nodes v"
  "k \<le> 256 \<Longrightarrow> validate_detail_values vs d k = Inr n \<longleftrightarrow>
     list_all detail_ok vs \<and> (\<forall>v\<in>set vs. d + levels v \<le> 6) \<and> k + sum_list (map nodes vs) \<le> 256
     \<and> n = k + sum_list (map nodes vs)"
  "k \<le> 256 \<Longrightarrow> validate_detail_members ms d k = Inr n \<longleftrightarrow>
     list_all (\<lambda>m. key_ok (fst m) \<and> detail_ok (snd m)) ms \<and> (\<forall>m\<in>set ms. d + levels (snd m) \<le> 6)
     \<and> k + sum_list (map (\<lambda>m. nodes (snd m)) ms) \<le> 256 \<and> n = k + sum_list (map (\<lambda>m. nodes (snd m)) ms)"
proof (induction v d k and vs d k and ms d k arbitrary: n and n and n
    rule: validate_detail_value_validate_detail_values_validate_detail_members.induct)
  case (1 v d k)
  note limits = MAX_DETAIL_DEPTH_def MAX_DETAIL_NODES_PER_EVENT_def MAX_DETAIL_CONTAINER_ITEMS_def MAX_DETAIL_STRING_BYTES_def
  show ?case
  proof (cases v)
    case (JString s)
    then show ?thesis
      using validate_free_text_none [of s 1024 "''event.details string''"]
      by (cases "validate_free_text s 1024 ''event.details string''") (auto simp: validate_detail_value.simps limits)
  next
    case (JArray vs)
    then show ?thesis
      using 1(1)[OF _ _ JArray] levels_bound [of d "\<lambda>v. v" vs 6]
      by (auto simp: validate_detail_value.simps limits not_less)
  next
    case (JObject ms)
    then show ?thesis
      using 1(2)[OF _ _ JObject] levels_bound [of d snd ms 6]
      by (auto simp: validate_detail_value.simps limits not_less)
  qed (auto simp: validate_detail_value.simps limits)
next
  case (3 v vs d k)
  show ?case
  proof (cases "validate_detail_value v d k")
    case (Inl e)
    then show ?thesis using 3(1)[of "k + nodes v"] by auto
  next
    case (Inr b)
    then have "detail_ok v" "d + levels v \<le> 6" "k + nodes v \<le> 256" "b = k + nodes v" using 3(1)[of b] by simp_all
    then show ?thesis using Inr 3(2)[OF Inr, of n] by (auto simp: add.assoc)
  qed
next
  case (5 key v ms d k)
  show ?case
  proof (cases "validate_detail_key key")
    case None
    show ?thesis
    proof (cases "validate_detail_value v d k")
      case (Inl e)
      then show ?thesis using None 5(1)[OF None, of "k + nodes v"] by auto
    next
      case (Inr b)
      then have "detail_ok v" "d + levels v \<le> 6" "k + nodes v \<le> 256" "b = k + nodes v" using 5(1)[OF None, of b] by simp_all
      then show ?thesis using None Inr 5(2)[OF None Inr, of n] validate_detail_key_none [of key] by (auto simp: add.assoc)
    qed
  qed (use validate_detail_key_none [of key] in auto)
qed auto

section \<open>An acceptable report\<close>

text \<open>A code is words between dots, the first of them one that belongs to the type of the event.\<close>

definition code_ok :: "diagnostic_event_type \<Rightarrow> string \<Rightarrow> bool" where
  "code_ok event_type code \<longleftrightarrow> length code \<le> 96 \<and> list_all code_segment_ok (split_at (CHR ''.'') code)
     \<and> list_ex (starts_with code) (code_prefixes event_type)"

lemma split_at_bytes:
  "set s \<subseteq> insert sep (\<Union> (set ` set (split_at sep s)))" "split_at sep s \<noteq> []"
  by (induction s) (auto split: list.splits, blast)

lemma code_bytes:
  assumes "list_all code_segment_ok (split_at (CHR ''.'') code)"
  shows "validate_code code n f = None \<longleftrightarrow> length code \<le> n"
proof -
  have byte: "is_code_byte b" if "b \<in> set code" for b
  proof (cases "b = CHR ''.''")
    case False
    moreover have "b \<in> insert (CHR ''.'') (\<Union> (set ` set (split_at (CHR ''.'') code)))"
      by (rule subsetD [OF split_at_bytes(1) that])
    ultimately obtain part where "part \<in> set (split_at (CHR ''.'') code)" "b \<in> set part" by auto
    then show ?thesis using assms by (auto simp: list_all_iff code_segment_ok_def is_code_byte_def)
  qed (simp add: is_code_byte_def)
  obtain c cs where code: "code = c # cs" using assms by (cases code) (auto simp: code_segment_ok_def)
  have "c \<noteq> CHR ''.''" using assms by (auto simp: code code_segment_ok_def)
  then have "is_ascii_alphabetic c" using assms
    by (auto simp: code code_segment_ok_def split: list.splits)
  then have "is_ascii_alphanumeric c"
    by (auto simp: is_ascii_alphabetic_def is_ascii_alphanumeric_def is_ascii_lowercase_def is_ascii_uppercase_def)
  then show ?thesis using byte by (auto simp: validate_code_def code list_all_iff)
qed

lemma validate_event_code_none: "validate_event_code t code = None \<longleftrightarrow> code_ok t code"
  using code_bytes [of code 96 "''event.code''"]
  by (auto simp: validate_event_code_def first_error_none code_ok_def)

definition metadata_ok :: "nat \<Rightarrow> string \<Rightarrow> bool" where
  "metadata_ok n s \<longleftrightarrow> s \<noteq> [] \<and> length s \<le> n \<and> list_all (\<lambda>ch. \<not> is_control ch) (utf8_chars s)"

lemma validate_metadata_none: "validate_metadata_string s n f = None \<longleftrightarrow> metadata_ok n s"
  by (auto simp: validate_metadata_string_def first_error_none metadata_ok_def list_all_iff list_ex_iff)

lemma validate_optional_none: "validate_optional_metadata s n f = None \<longleftrightarrow> case_option True (metadata_ok n) s"
  by (cases s) (simp_all add: validate_optional_metadata_def validate_metadata_none)

definition event_ok :: "incident_envelope \<Rightarrow> incident_event \<Rightarrow> bool" where
  "event_ok e event \<longleftrightarrow>
     en_captured_at_ms e \<le> ev_timestamp_ms event \<and> ev_timestamp_ms event \<le> en_sent_at_ms e
     \<and> code_ok (ev_event_type event) (ev_code event)
     \<and> case_option True (\<lambda>f. validate_code f 128 ''event.fingerprint'' = None) (ev_fingerprint event)
     \<and> case_option True (clean_string 2048) (ev_message event)
     \<and> length (ev_details event) \<le> 32
     \<and> list_all (\<lambda>m. key_ok (fst m) \<and> detail_ok (snd m) \<and> levels (snd m) \<le> 5) (ev_details event)
     \<and> sum_list (map (\<lambda>m. nodes (snd m)) (ev_details event)) \<le> 256"

definition follows :: "incident_event \<Rightarrow> incident_event \<Rightarrow> bool" where
  "follows a b \<longleftrightarrow> ev_sequence a < ev_sequence b \<and> ev_timestamp_ms a \<le> ev_timestamp_ms b"

lemma validate_event_none:
  "validate_event e prior event = None \<longleftrightarrow> event_ok e event
     \<and> (case prior of None \<Rightarrow> True | Some (n, t) \<Rightarrow> n < ev_sequence event \<and> t \<le> ev_timestamp_ms event)"
proof -
  have members: "(case validate_detail_members (ev_details event) 1 0 of Inl e \<Rightarrow> Some e | Inr _ \<Rightarrow> None) = None \<longleftrightarrow>
      list_all (\<lambda>m. key_ok (fst m) \<and> detail_ok (snd m) \<and> levels (snd m) \<le> 5) (ev_details event)
      \<and> sum_list (map (\<lambda>m. nodes (snd m)) (ev_details event)) \<le> 256"
  proof -
    have "(case r of Inl e \<Rightarrow> Some e | Inr _ \<Rightarrow> None) = None \<longleftrightarrow> (\<exists>n. r = Inr n)" for r :: "validation_error + nat"
      by (cases r) simp_all
    then show ?thesis using validate_detail_value_accepts(3) [of 0 "ev_details event" 1] by (auto simp: list_all_iff)
  qed
  show ?thesis
    by (cases "ev_fingerprint event"; cases "ev_message event"; cases prior)
       (auto simp: validate_event_def first_error_none event_ok_def members [unfolded One_nat_def] validate_event_code_none
          validate_free_text_none MAX_EVENT_MESSAGE_BYTES_def MAX_DETAIL_CONTAINER_ITEMS_def not_less not_le)
qed

lemma validate_events_none:
  "validate_events e prior events = None \<longleftrightarrow> list_all (event_ok e) events \<and> sorted_wrt follows events
     \<and> (case prior of None \<Rightarrow> True
        | Some (n, t) \<Rightarrow> list_all (\<lambda>event. n < ev_sequence event \<and> t \<le> ev_timestamp_ms event) events)"
proof (induction events arbitrary: prior)
  case (Cons event events)
  show ?case
    using Cons [of "Some (ev_sequence event, ev_timestamp_ms event)"] validate_event_none [of e prior event]
    by (cases prior; cases "validate_event e prior event") (auto simp: follows_def list_all_iff; meson order.strict_trans order_trans)+
qed (auto split: option.splits)

text \<open>What is asked of the rest of the envelope; times are compared without overflow.\<close>

definition uuid_shaped :: "string \<Rightarrow> bool" where
  "uuid_shaped s \<longleftrightarrow> length s = 36
     \<and> list_all (\<lambda>i. if i \<in> {8, 13, 18, 23} then s ! i = CHR ''-'' else is_lower_hex (s ! i)) [0..<length s]"

definition timely :: "u64 \<Rightarrow> u64 \<Rightarrow> bool" where
  "timely t now \<longleftrightarrow> t \<noteq> 0 \<and> unat t \<le> unat now + 5 * 60000 \<and> unat now \<le> unat t + 7 * 86400000"

definition runtimes_ok :: "runtime_info \<Rightarrow> bool" where
  "runtimes_ok r \<longleftrightarrow> list_all (case_option True (metadata_ok 64))
     [rt_browser_name r, rt_browser_version r, rt_webview_version r, rt_livekit_version r, rt_tauri_version r]"

definition app_ok :: "app_info \<Rightarrow> bool" where
  "app_ok a \<longleftrightarrow> metadata_ok 32 (app_version a)
     \<and> length (app_git_sha a) \<in> {7..12} \<and> list_all is_lower_hex (app_git_sha a)
     \<and> app_channel a \<in> set [''web'', ''web-canary'', ''web-smoke'', ''desktop-stable'', ''desktop-canary'', ''test'']
     \<and> runtimes_ok (app_runtimes a)"

definition envelope_ok :: "incident_envelope \<Rightarrow> u64 \<Rightarrow> bool" where
  "envelope_ok e now \<longleftrightarrow>
     en_schema_version e = 1 \<and> uuid_shaped (en_envelope_id e) \<and> uuid_shaped (en_install_id e) \<and> uuid_shaped (en_session_id e)
     \<and> timely (en_captured_at_ms e) now \<and> timely (en_sent_at_ms e) now \<and> en_captured_at_ms e \<le> en_sent_at_ms e
     \<and> app_ok (en_app e) \<and> case_option True (metadata_ok 64) (pl_os_version (en_platform e))
     \<and> case_option True (metadata_ok 64) (pl_os_build (en_platform e))
     \<and> length (en_events e) \<in> {1..200} \<and> list_all (event_ok e) (en_events e) \<and> sorted_wrt follows (en_events e)"

lemma validate_uuid_none: "validate_uuid s f = None \<longleftrightarrow> uuid_shaped s"
proof -
  have "list_all P (enumerate 0 s) = list_all (\<lambda>i. P (i, s ! i)) [0..<length s]" for P
    by (auto simp: list_all_length nth_enumerate_eq)
  then show ?thesis by (auto simp: validate_uuid_def uuid_shaped_def)
qed

lemma validate_timestamp_none: "validate_envelope_timestamp t now f = None \<longleftrightarrow> timely t now"
  using unat_less_u64 [of t] unat_less_u64 [of now]
  by (auto simp: validate_envelope_timestamp_def timely_def word_less_nat_alt unat_sat_add not_less
      MAX_CLOCK_SKEW_MS_def MAX_ENVELOPE_AGE_MS_def u64_max_def)

lemma validation_decides:
  "validate_envelope e now = None \<longleftrightarrow> envelope_ok e now"
  by (auto simp: validate_envelope_def first_error_none envelope_ok_def validate_uuid_none validate_timestamp_none
      validate_metadata_none validate_optional_none validate_events_none validate_git_sha_def validate_channel_def
      validate_runtime_info_def runtimes_ok_def app_ok_def INCIDENT_SCHEMA_VERSION_def MAX_EVENTS_def not_less Suc_le_eq)

text \<open>
  C37. What is accepted of a report is exactly what the description allows: version and identifiers, both times
  within five minutes of the future and seven days of the past and in their order, at most two hundred events with
  rising sequence numbers and times inside the report's, codes that belong to their type, and details with known
  keys, at most six levels and 256 values deep and wide, with no control characters in any text.
\<close>

theorem validation_accepts_exactly_the_acceptable:
  "validate_envelope e now = None \<longleftrightarrow> envelope_ok e now"
  by (rule validation_decides)

section \<open>What is kept\<close>

lemma boundary_below_le: "boundary_below s n \<le> n"
  by (induction n) auto

lemma length_sanitize_text: "length (sanitize_text s) \<le> length s"
  using boundary_below_le [of _ "length s"]
  by (auto simp: sanitize_text_def Let_def truncate_to_byte_len_def min_def intro: le_trans)

text \<open>A value below a key, as it is kept: nothing but the marker below a sensitive key.\<close>

fun masked :: "string \<Rightarrow> json \<Rightarrow> bool" where
  "masked key (JString s) = (if is_sensitive_key key then s = REDACTED_FIELD else length s \<le> 1024)"
| "masked key (JArray vs) = (\<not> is_sensitive_key key \<and> length vs \<le> 32 \<and> list_all (masked []) vs)"
| "masked key (JObject ms) = (\<not> is_sensitive_key key \<and> length ms \<le> 32
     \<and> list_all (\<lambda>m. key_ok (fst m) \<and> masked (fst m) (snd m)) ms)"
| "masked key v = (\<not> is_sensitive_key key)"

lemma sanitize_value_masked: "detail_ok v \<Longrightarrow> masked key (sanitize_value key v)"
proof (induction key v rule: sanitize_value.induct)
  case (1 key s)
  then show ?case using le_trans [OF length_sanitize_text] by (auto simp: clean_string_def)
qed (auto simp: list_all_iff split_beta)

definition kept_event :: "incident_event \<Rightarrow> bool" where
  "kept_event event \<longleftrightarrow> ev_message event = None \<and> ev_fingerprint event = None \<and> length (ev_details event) \<le> 32
     \<and> list_all (\<lambda>m. key_ok (fst m) \<and> masked (fst m) (snd m)) (ev_details event)"

text \<open>
  C38. Of an accepted report the diagnostics keep the events in their order, without their messages and
  fingerprints, and of the details only values below known keys: below a sensitive key nothing but the marker, at
  any depth, and no text longer than what was sent may be.
\<close>

theorem accepted_reports_are_masked:
  assumes "parse_validate_and_sanitize parse raw_body now_ms = Inr kept"
  shows "length raw_body \<le> 262144
    \<and> (\<exists>sent. parse raw_body = Some sent \<and> envelope_ok sent now_ms
         \<and> map ev_sequence (en_events kept) = map ev_sequence (en_events sent))
    \<and> en_events kept \<noteq> [] \<and> sorted_wrt follows (en_events kept) \<and> list_all kept_event (en_events kept)"
proof -
  obtain sent where sent: "parse raw_body = Some sent" "envelope_ok sent now_ms" "kept = sanitize_envelope sent"
    and short: "length raw_body \<le> 262144"
    using assms validation_decides
    by (auto simp: parse_validate_and_sanitize_def MAX_REQUEST_BYTES_def split: if_splits option.splits)
  have "kept_event (sanitize_event event)" if "event \<in> set (en_events sent)" for event
    using that sent(2) sanitize_value_masked
    by (auto simp: envelope_ok_def list_all_iff event_ok_def kept_event_def sanitize_event_def split_beta)
  moreover have "follows (sanitize_event a) (sanitize_event b) = follows a b" for a b
    by (simp add: follows_def sanitize_event_def)
  ultimately show ?thesis
    using sent short by (auto simp: sanitize_envelope_def envelope_ok_def list_all_iff sorted_wrt_map sanitize_event_def comp_def)
qed

definition demo_event :: incident_event where
  "demo_event = \<lparr>ev_sequence = 1, ev_timestamp_ms = 1000, ev_event_type = Connection, ev_severity = Warning,
     ev_code = ''ice.failed'', ev_fingerprint = None, ev_message = Some ''no route'',
     ev_details = [(''candidate_type'', JString ''host''), (''result'', JString ''lost'')]\<rparr>"

definition demo_report :: incident_envelope where
  "demo_report = \<lparr>en_schema_version = 1, en_envelope_id = ''0123abcd-0000-4000-8000-0123456789ab'',
     en_install_id = ''0123abcd-0000-4000-8000-0123456789ac'', en_session_id = ''0123abcd-0000-4000-8000-0123456789ad'',
     en_captured_at_ms = 900, en_sent_at_ms = 1100,
     en_app = \<lparr>app_version = ''1.2.3'', app_git_sha = ''abc1234'', app_channel = ''web'',
       app_runtimes = \<lparr>rt_browser_name = Some ''Firefox'', rt_browser_version = None, rt_webview_version = None,
         rt_livekit_version = None, rt_tauri_version = None\<rparr>\<rparr>,
     en_platform = \<lparr>pl_client_kind = BrowserClient, pl_operating_system = Linux, pl_architecture = X86_64,
       pl_os_version = None, pl_os_build = None\<rparr>,
     en_events = [demo_event]\<rparr>"

lemma demo_event_ok: "event_ok demo_report demo_event"
proof -
  have "code_ok Connection ''ice.failed''" by code_simp
  moreover have "list_all (\<lambda>m. key_ok (fst m)) (ev_details demo_event)" by code_simp
  moreover have "list_all (\<lambda>ch. \<not> is_control ch) (utf8_chars ''no route'' @ utf8_chars ''host'' @ utf8_chars ''lost'')"
    by code_simp
  ultimately show ?thesis
    by (simp add: event_ok_def demo_event_def demo_report_def clean_string_def list_all_iff)
qed

lemma demo_report_ok: "envelope_ok demo_report 2000"
proof -
  have "uuid_shaped (en_envelope_id demo_report)" by code_simp
  moreover have "uuid_shaped (en_install_id demo_report)" by code_simp
  moreover have "uuid_shaped (en_session_id demo_report)" by code_simp
  moreover have "app_ok (en_app demo_report)" by code_simp
  ultimately show ?thesis
    using demo_event_ok by (simp add: envelope_ok_def timely_def) (simp add: demo_report_def)
qed

lemma demo_accepted:
  "parse_validate_and_sanitize (\<lambda>_. Some demo_report) ''{}'' 2000 = Inr (sanitize_envelope demo_report)"
  using demo_report_ok [folded validation_decides]
  by (simp add: parse_validate_and_sanitize_def MAX_REQUEST_BYTES_def)

lemma accepted_reports_are_masked_witness:
  "length ''{}'' \<le> 262144
    \<and> (\<exists>sent. (\<lambda>_. Some demo_report) ''{}'' = Some sent \<and> envelope_ok sent 2000
         \<and> map ev_sequence (en_events (sanitize_envelope demo_report)) = map ev_sequence (en_events sent))
    \<and> en_events (sanitize_envelope demo_report) \<noteq> [] \<and> sorted_wrt follows (en_events (sanitize_envelope demo_report))
    \<and> list_all kept_event (en_events (sanitize_envelope demo_report))"
  by (rule accepted_reports_are_masked [OF demo_accepted])

end
