(* ===== verification/DiagnosticFiles.thy ===== *)
theory DiagnosticFiles
  imports DiagnosticRecord JamHistory "HOL-Library.Signed_Division"
begin

text \<open>
  The files of the diagnostics (\<open>diagnostics.rs\<close>): one file of JSON rows per day, their names, how they are
  read, rewritten and pruned, and the recovery after a crash. The directory holds regular files only, reading a
  file is one call, and the keyed names of temporary files come from \<open>random\<close>.
\<close>

section \<open>Dates\<close>

definition MILLIS_PER_DAY :: u64 where "MILLIS_PER_DAY = 24 * 60 * 60 * 1000"
definition STORAGE_PREFIX :: string where "STORAGE_PREFIX = ''diagnostics-''"
definition STORAGE_SUFFIX :: string where "STORAGE_SUFFIX = ''.jsonl''"
definition STORAGE_LOCK_FILE :: string where "STORAGE_LOCK_FILE = ''.echo-diagnostics.lock''"
definition IDENTITY_KEY_FILE :: string where "IDENTITY_KEY_FILE = ''.echo-diagnostics-identity-key''"
definition IDENTITY_KEY_BYTES :: nat where "IDENTITY_KEY_BYTES = 32"
definition MAX_CAP_EVICTION_HEADROOM_BYTES :: nat where "MAX_CAP_EVICTION_HEADROOM_BYTES = 4 * 1024 * 1024"
definition MAX_LIST_LIMIT :: nat where "MAX_LIST_LIMIT = 200"

text \<open>Division of an \<open>i64\<close> rounds towards zero; only the eras may be negative.\<close>

definition year_of_era :: "int \<Rightarrow> int" where
  "year_of_era day_of_era = (day_of_era - day_of_era div 1460 + day_of_era div 36524 - day_of_era div 146096) div 365"

definition civil_from_days :: "int \<Rightarrow> int \<times> int \<times> int" where
  "civil_from_days days_since_epoch =
     (let z = days_since_epoch + 719468;
          era = (if 0 \<le> z then z else z - 146096) sdiv 146097;
          day_of_era = z - era * 146097;
          yoe = year_of_era day_of_era;
          day_of_year = day_of_era - (365 * yoe + yoe div 4 - yoe div 100);
          month_prime = (5 * day_of_year + 2) div 153;
          day = day_of_year - (153 * month_prime + 2) div 5 + 1;
          month = month_prime + (if month_prime < 10 then 3 else - 9)
      in (yoe + era * 400 + (if month \<le> 2 then 1 else 0), month, day))"

definition days_from_civil :: "int \<Rightarrow> int \<Rightarrow> int \<Rightarrow> int" where
  "days_from_civil year month day =
     (let adjusted_year = year - (if month \<le> 2 then 1 else 0);
          era = (if 0 \<le> adjusted_year then adjusted_year else adjusted_year - 399) sdiv 400;
          yoe = adjusted_year - era * 400;
          month_prime = month + (if 2 < month then - 3 else 9);
          day_of_year = (153 * month_prime + 2) div 5 + day - 1;
          day_of_era = yoe * 365 + yoe div 4 - yoe div 100 + day_of_year
      in era * 146097 + day_of_era - 719468)"

definition storage_file_name :: "u64 \<Rightarrow> string" where
  "storage_file_name timestamp_ms =
     (case civil_from_days (int (unat (timestamp_ms div MILLIS_PER_DAY))) of (year, month, day_of_month) \<Rightarrow>
        STORAGE_PREFIX @ zero_padded 4 (nat year) @ ''-'' @ zero_padded 2 (nat month) @ ''-''
        @ zero_padded 2 (nat day_of_month) @ STORAGE_SUFFIX)"

text \<open>\<open>str::parse\<close>: a sign, where the type has one, or a plus, and digits; four characters never overflow.\<close>

definition parse_int :: "bool \<Rightarrow> string \<Rightarrow> int option" where
  "parse_int allow_minus s =
     (let minus = allow_minus \<and> starts_with s ''-'';
          digits = (if minus \<or> starts_with s ''+'' then tl s else s) in
      if digits = [] \<or> \<not> list_all is_ascii_digit digits then None
      else Some ((if minus then - 1 else 1) * int (decimal digits)))"

definition parse_storage_file_name :: "string \<Rightarrow> int option" where
  "parse_storage_file_name file_name =
     (case strip_prefix STORAGE_PREFIX file_name of None \<Rightarrow> None
      | Some rest \<Rightarrow>
          if \<not> ends_with rest STORAGE_SUFFIX then None
          else
            let date = take (length rest - length STORAGE_SUFFIX) rest in
            if length date \<noteq> 10 \<or> date ! 4 \<noteq> CHR ''-'' \<or> date ! 7 \<noteq> CHR ''-'' then None
            else case (parse_int True (take 4 date), parse_int False (take 2 (drop 5 date)), parse_int False (drop 8 date)) of
              (Some year, Some month, Some day) \<Rightarrow>
                if \<not> (1 \<le> month \<and> month \<le> 12) \<or> \<not> (1 \<le> day \<and> day \<le> 31) then None
                else
                  let days = days_from_civil year month day in
                  if civil_from_days days = (year, month, day) then Some days else None
            | _ \<Rightarrow> None)"

text \<open>A name that parses holds no separator, so that it is the last part of its path.\<close>

definition checked_storage_path :: "string \<Rightarrow> diagnostics_error + string" where
  "checked_storage_path file_name =
     (if parse_storage_file_name file_name = None then Inl (ValidationFailed (InvalidIdentifier ''storage_file''))
      else Inr file_name)"

section \<open>Reading\<close>

text \<open>The files of days, from the oldest, with their sizes.\<close>

type_synonym storage_entry = "int \<times> string \<times> nat"

definition storage_order :: "storage_entry \<Rightarrow> storage_entry \<Rightarrow> ordering" where
  "storage_order left right =
     then_with (cmp_of (fst left) (fst right)) (cmp_of (fst (snd left)) (fst (snd right)))"

definition storage_entries :: "files \<Rightarrow> storage_entry list" where
  "storage_entries m =
     sort_by storage_order (List.map_filter
       (\<lambda>(file_name, content). map_option (\<lambda>day. (day, file_name, length content)) (parse_storage_file_name file_name)) m)"

definition storage_files :: "storage_entry list io" where
  "storage_files = fs_call (\<lambda>m. Inr (storage_entries m, m))"

text \<open>One line with the newline that ends it; what is too long, is not JSON or is empty is skipped.\<close>

type_synonym incident_parser = "string \<Rightarrow> stored_incident option"

definition strip_line_end :: "string \<Rightarrow> string" where
  "strip_line_end line = rev (dropWhile (\<lambda>c. c = newline \<or> c = carriage_return) (rev line))"

definition read_record :: "incident_parser \<Rightarrow> string \<Rightarrow> stored_incident option" where
  "read_record parse line =
     (if line = [] \<or> MAX_STORED_RECORD_BYTES + 1 < length line then None
      else
        let body = strip_line_end line in
        if MAX_STORED_RECORD_BYTES < length body then None else map_option sanitize_stored_incident (parse body))"

definition jsonl_records :: "incident_parser \<Rightarrow> string \<Rightarrow> stored_incident list" where
  "jsonl_records parse content = List.map_filter (read_record parse) (split_inclusive [] content)"

definition read_jsonl_records :: "incident_parser \<Rightarrow> string \<Rightarrow> stored_incident list io" where
  "read_jsonl_records parse path = io_bind (fs_read path) (\<lambda>content. io_return (jsonl_records parse content))"

fun read_each :: "incident_parser \<Rightarrow> storage_entry list \<Rightarrow> (stored_incident \<times> string) list io" where
  "read_each parse [] = io_return []"
| "read_each parse ((day, file_name, bytes) # entries) =
     io_bind (read_jsonl_records parse file_name) (\<lambda>records.
     io_bind (read_each parse entries) (\<lambda>rest.
     io_return (map (\<lambda>record. (record, file_name)) records @ rest)))"

definition for_each_record :: "incident_parser \<Rightarrow> (stored_incident \<times> string) list io" where
  "for_each_record parse = io_bind storage_files (read_each parse)"

definition find_record :: "incident_parser \<Rightarrow> string \<Rightarrow> string \<Rightarrow> stored_incident option io" where
  "find_record parse path incident_id =
     io_bind (read_jsonl_records parse path) (\<lambda>records.
     io_return (find (\<lambda>record. si_incident_id record = incident_id) records))"

section \<open>The index\<close>

record index_entry =
  ie_incident_id :: string
  ie_payload_digest :: string
  ie_file_name :: string

record store_index =
  ix_by_envelope_key :: "(string \<times> string, index_entry) hash_map"
  ix_by_incident_id :: "(string, index_entry) hash_map"

definition hm_or_insert :: "'k \<Rightarrow> 'v \<Rightarrow> ('k, 'v) hash_map \<Rightarrow> ('k, 'v) hash_map" where
  "hm_or_insert k v m = (if hm_get m k = None then hm_insert k v m else m)"

definition well_formed_record :: "stored_incident \<Rightarrow> bool" where
  "well_formed_record r \<longleftrightarrow> si_record_version r = STORED_RECORD_VERSION \<and> validate_incident_id (si_incident_id r) = None
     \<and> validate_uuid (en_envelope_id (si_envelope r)) ''envelope_id'' = None
     \<and> validate_identity_digest (si_authenticated_identity_digest r)"

definition envelope_key :: "stored_incident \<Rightarrow> string \<times> string" where
  "envelope_key r = (si_authenticated_identity_digest r, en_envelope_id (si_envelope r))"

definition index_entry_of :: "stored_incident \<Rightarrow> string \<Rightarrow> index_entry" where
  "index_entry_of r file_name =
     \<lparr>ie_incident_id = si_incident_id r, ie_payload_digest = si_payload_digest r, ie_file_name = file_name\<rparr>"

definition index_record :: "stored_incident \<times> string \<Rightarrow> store_index \<Rightarrow> store_index" where
  "index_record rf index =
     (case rf of (r, file_name) \<Rightarrow>
        if \<not> well_formed_record r then index
        else index\<lparr>ix_by_envelope_key := hm_or_insert (envelope_key r) (index_entry_of r file_name) (ix_by_envelope_key index),
                   ix_by_incident_id := hm_or_insert (si_incident_id r) (index_entry_of r file_name) (ix_by_incident_id index)\<rparr>)"

definition empty_index :: store_index where
  "empty_index = \<lparr>ix_by_envelope_key = [], ix_by_incident_id = []\<rparr>"

definition load_index :: "incident_parser \<Rightarrow> store_index io" where
  "load_index parse = io_bind (for_each_record parse) (\<lambda>records. io_return (fold index_record records empty_index))"

section \<open>Writing\<close>

definition append_json_line :: "string \<Rightarrow> string \<Rightarrow> unit io" where
  "append_json_line path line =
     io_then (fs_open_append path) (
     io_then (end_torn_row path) (
     io_then (fs_write_all path line) (
     io_then (fs_write_all path [newline])
     fs_sync)))"

text \<open>Whether a call succeeded.\<close>

definition io_try :: "unit io \<Rightarrow> bool io" where
  "io_try m = io_catch (io_then m (io_return True)) (\<lambda>_. io_return False)"

definition commit_rewrite :: "string \<Rightarrow> string \<Rightarrow> string \<Rightarrow> unit io" where
  "commit_rewrite path temp backup =
     io_bind (io_exists backup) (\<lambda>has_backup.
     io_then (io_when has_backup (fs_remove backup)) (
     io_then (fs_rename path backup) (
     io_then (io_catch (fs_rename temp path) (\<lambda>swap_error.
       io_bind (io_try (fs_rename backup path)) (\<lambda>restored.
       io_then (io_ignore (fs_remove temp))
       (io_fail (if restored then swap_error else OtherError)))))
     (io_ignore (fs_remove backup)))))"

text \<open>A file without one incident; the lines are read as UTF-8 while the others are written.\<close>

definition line_matches :: "incident_parser \<Rightarrow> string \<Rightarrow> string \<Rightarrow> bool" where
  "line_matches parse incident_id line =
     (case parse line of None \<Rightarrow> False | Some r \<Rightarrow> si_incident_id r = incident_id)"

fun copy_others :: "incident_parser \<Rightarrow> string \<Rightarrow> string \<Rightarrow> bool \<Rightarrow> string list \<Rightarrow> bool io" where
  "copy_others parse temp incident_id removed [] = io_return removed"
| "copy_others parse temp incident_id removed (line # lines) =
     (if \<not> utf8_valid line then io_fail InvalidData
      else if line_matches parse incident_id line then copy_others parse temp incident_id True lines
      else
        io_then (fs_write_all temp line) (
        io_then (fs_write_all temp [newline])
        (copy_others parse temp incident_id removed lines)))"

definition rewrite_without_incident :: "incident_parser \<Rightarrow> string \<Rightarrow> string \<Rightarrow> string \<Rightarrow> bool io" where
  "rewrite_without_incident parse random path incident_id =
     (if parse_storage_file_name path = None then io_fail InvalidInput
      else
        let temp = temp_path path random in
        io_then (fs_create_new temp) (
        io_bind (fs_read path) (\<lambda>content.
        io_bind (copy_others parse temp incident_id False (split_lines [] content)) (\<lambda>removed.
        io_then fs_sync (
        if \<not> removed then io_then (io_ignore (fs_remove temp)) (io_return False)
        else io_then (commit_rewrite path temp (backup_path path)) (io_return True))))))"

fun drop_oldest :: "nat \<Rightarrow> nat \<Rightarrow> string list \<Rightarrow> string list" where
  "drop_oldest discarded minimum_bytes [] = []"
| "drop_oldest discarded minimum_bytes (line # lines) =
     (if discarded < minimum_bytes then drop_oldest (discarded + length line) minimum_bytes lines else line # lines)"

definition fs_len :: "string \<Rightarrow> nat io" where
  "fs_len name = fs_call (\<lambda>m. case hm_get m name of None \<Rightarrow> Inl NotFound | Some s \<Rightarrow> Inr (length s, m))"

definition rewrite_drop_oldest_bytes :: "string \<Rightarrow> string \<Rightarrow> nat \<Rightarrow> nat io" where
  "rewrite_drop_oldest_bytes random path minimum_bytes =
     (if parse_storage_file_name path = None then io_fail InvalidInput
      else
        let temp = temp_path path random in
        io_bind (fs_len path) (\<lambda>original_bytes.
        io_then (fs_create_new temp) (
        io_bind (fs_read path) (\<lambda>content.
        io_then (fs_write_all temp (concat (drop_oldest 0 minimum_bytes (split_inclusive [] content)))) (
        io_then fs_sync (
        io_then (commit_rewrite path temp (backup_path path)) (
        io_bind (fs_len path) (\<lambda>retained_bytes.
        io_return (original_bytes - retained_bytes)))))))))"

section \<open>Recovery\<close>

definition strip_suffix :: "string \<Rightarrow> string \<Rightarrow> string option" where
  "strip_suffix suf s = (if ends_with s suf then Some (take (length s - length suf) s) else None)"

definition is_storage_name :: "string \<Rightarrow> bool" where
  "is_storage_name name \<longleftrightarrow> parse_storage_file_name name \<noteq> None"

definition rsplit_once :: "char \<Rightarrow> string \<Rightarrow> (string \<times> string) option" where
  "rsplit_once c s =
     (if c \<notin> set s then None
      else let after = rev (takeWhile (\<lambda>x. x \<noteq> c) (rev s)) in Some (take (length s - length after - 1) s, after))"

fun restore_backups :: "string list \<Rightarrow> unit io" where
  "restore_backups [] = io_return ()"
| "restore_backups (file_name # names) =
     io_then
       (case strip_suffix ''.bak'' file_name of None \<Rightarrow> io_return ()
        | Some original \<Rightarrow>
            if \<not> is_storage_name original then io_return ()
            else io_bind (io_exists original) (\<lambda>there. io_when (\<not> there) (fs_rename file_name original)))
       (restore_backups names)"

definition is_rewrite_temp :: "string \<Rightarrow> bool" where
  "is_rewrite_temp file_name =
     (case Option.bind (strip_suffix ''.tmp'' file_name) (rsplit_once (CHR ''.'')) of None \<Rightarrow> False
      | Some (original, random) \<Rightarrow>
          is_storage_name original \<and> length random = 16 \<and> list_all is_ascii_hexdigit random)"

fun clean_artifacts :: "string list \<Rightarrow> unit io" where
  "clean_artifacts [] = io_return ()"
| "clean_artifacts (file_name # names) =
     io_then
       (case strip_suffix ''.bak'' file_name of
          Some original \<Rightarrow>
            io_bind (io_exists original) (\<lambda>there.
              io_when (is_storage_name original \<and> there) (io_ignore (fs_remove file_name)))
        | None \<Rightarrow> io_when (is_rewrite_temp file_name) (io_ignore (fs_remove file_name)))
       (clean_artifacts names)"

definition recover_rewrite_artifacts :: "unit io" where
  "recover_rewrite_artifacts =
     io_bind fs_read_dir (\<lambda>names.
       let artifacts = sort names in io_then (restore_backups artifacts) (clean_artifacts artifacts))"

text \<open>The end of the last whole line, looked for from the end, a chunk at a time.\<close>

definition SEARCH_CHUNK_BYTES :: nat where "SEARCH_CHUNK_BYTES = 8 * 1024"

definition last_newline :: "string \<Rightarrow> nat option" where
  "last_newline chunk =
     (if newline \<in> set chunk then Some (length chunk - 1 - length (takeWhile (\<lambda>c. c \<noteq> newline) (rev chunk))) else None)"

function truncate_at :: "string \<Rightarrow> nat \<Rightarrow> nat" where
  "truncate_at content search_end =
     (if search_end = 0 then 0
      else
        let search_start = search_end - SEARCH_CHUNK_BYTES;
            chunk = drop search_start (take search_end content) in
        case last_newline chunk of
          Some newline_at \<Rightarrow> search_start + newline_at + 1
        | None \<Rightarrow> truncate_at content search_start)"
  by pat_completeness auto
termination by (relation "measure snd") (auto simp: SEARCH_CHUNK_BYTES_def)

declare truncate_at.simps [simp del]

definition fs_set_len :: "string \<Rightarrow> nat \<Rightarrow> unit io" where
  "fs_set_len name n = fs_call (\<lambda>m. case hm_get m name of None \<Rightarrow> Inl NotFound
     | Some s \<Rightarrow> Inr ((), hm_insert name (take n s) m))"

fun cut_tails :: "storage_entry list \<Rightarrow> unit io" where
  "cut_tails [] = io_return ()"
| "cut_tails ((day, path, bytes) # entries) =
     io_then
       (if bytes = 0 then io_return ()
        else
          io_bind (fs_read path) (\<lambda>content.
            if content \<noteq> [] \<and> last content = newline then io_return ()
            else io_then (fs_set_len path (truncate_at content (length content))) fs_sync))
       (cut_tails entries)"

definition recover_crash_tails :: "unit io" where
  "recover_crash_tails = io_bind storage_files cut_tails"

definition recover_store_state :: "unit io" where
  "recover_store_state = io_then recover_rewrite_artifacts recover_crash_tails"

end
