(* ===== verification/DiagnosticStore.thy ===== *)
theory DiagnosticStore
  imports DiagnosticFiles
begin

text \<open>
  The store of incidents (\<open>DiagnosticStore\<close> of \<open>diagnostics.rs\<close>): its files with an index of them in memory. Every
  operation holds \<open>io_lock\<close> from its first look at the index to its end, so that operations follow one another.
  A result is an error or a value; an error of the disk is \<open>IoFailed\<close>.
\<close>

section \<open>Data\<close>

datatype append_outcome = Stored string | Duplicate string | Conflict string

record retention_policy =
  rp_max_age_ms :: u64
  rp_max_total_bytes :: nat

record prune_report =
  pr_removed_files :: "string list"
  pr_removed_bytes :: nat
  pr_retained_bytes :: nat

record diagnostic_store =
  ds_poisoned :: bool
  ds_index :: store_index
  ds_identity_key :: string

text \<open>What the store is given: serde's parser and renderers, HMAC-SHA-256 and the random bytes.\<close>

record incident_codec =
  ic_parse :: "string \<Rightarrow> stored_incident option"
  ic_render :: "stored_incident \<Rightarrow> string option"
  ic_canonical :: "incident_envelope \<Rightarrow> string option"
  ic_parse_envelope :: "string \<Rightarrow> incident_envelope option"
  ic_mac :: "string \<Rightarrow> string \<Rightarrow> string"

type_synonym 'a checked = "(diagnostics_error + 'a) io"

definition lifted :: "'a io \<Rightarrow> 'a checked" where
  "lifted m = io_catch (io_bind m (\<lambda>a. io_return (Inr a))) (\<lambda>_. io_return (Inl IoFailed))"

definition ck_bind :: "'a checked \<Rightarrow> ('a \<Rightarrow> 'b checked) \<Rightarrow> 'b checked" where
  "ck_bind m f = io_bind m (\<lambda>r. case r of Inl e \<Rightarrow> io_return (Inl e) | Inr a \<Rightarrow> f a)"

section \<open>Making room\<close>

text \<open>\<open>cutoff_day\<close> of both pruning functions: the first day to keep.\<close>

definition cutoff_day :: "u64 \<Rightarrow> retention_policy \<Rightarrow> int" where
  "cutoff_day now_ms policy = int (unat (sat_sub now_ms (rp_max_age_ms policy) div MILLIS_PER_DAY))"

definition total_bytes :: "storage_entry list \<Rightarrow> nat" where
  "total_bytes entries = sum_list (map (\<lambda>(_, _, bytes). bytes) entries)"

text \<open>The entries that are left, and those that were removed.\<close>

fun remove_old :: "int \<Rightarrow> storage_entry list \<Rightarrow> (storage_entry list \<times> storage_entry list) io" where
  "remove_old cutoff [] = io_return ([], [])"
| "remove_old cutoff ((day, path, bytes) # entries) =
     (if day < cutoff then
        io_then (fs_remove path) (
        io_bind (remove_old cutoff entries) (\<lambda>(left, removed). io_return (left, (day, path, bytes) # removed)))
      else
        io_bind (remove_old cutoff entries) (\<lambda>(left, removed). io_return ((day, path, bytes) # left, removed)))"

text \<open>Whole files first, then the oldest rows of the one that need not go entirely.\<close>

fun evict :: "(string \<Rightarrow> string) \<Rightarrow> nat \<Rightarrow> storage_entry list \<Rightarrow> nat \<times> bool \<Rightarrow> (nat \<times> bool) checked" where
  "evict random target [] (retained, changed) = io_return (Inr (retained, changed))"
| "evict random target ((day, path, bytes) # entries) (retained, changed) =
     (if retained \<le> target then io_return (Inr (retained, changed))
      else if bytes \<le> retained - target then
        ck_bind (lifted (fs_remove path)) (\<lambda>_. evict random target entries (retained - bytes, True))
      else
        ck_bind (lifted (rewrite_drop_oldest_bytes (random path) path (retained - target))) (\<lambda>freed.
          if freed = 0 then io_return (Inl CapacityExceeded)
          else evict random target entries (retained - freed, True)))"

definition prune_for_append ::
  "(string \<Rightarrow> string) \<Rightarrow> u64 \<Rightarrow> retention_policy \<Rightarrow> nat \<Rightarrow> bool checked" where
  "prune_for_append random now_ms policy incoming_bytes =
     (if rp_max_total_bytes policy < incoming_bytes then io_return (Inl CapacityExceeded)
      else
        ck_bind (lifted recover_rewrite_artifacts) (\<lambda>_.
        ck_bind (lifted storage_files) (\<lambda>entries.
        ck_bind (lifted (remove_old (cutoff_day now_ms policy) entries)) (\<lambda>(left, removed).
          let retained = total_bytes entries - total_bytes removed;
              maximum_existing_bytes = rp_max_total_bytes policy - incoming_bytes;
              headroom = min (rp_max_total_bytes policy div 10) MAX_CAP_EVICTION_HEADROOM_BYTES in
          ck_bind (if maximum_existing_bytes < retained
                   then evict random (maximum_existing_bytes - headroom) left (retained, removed \<noteq> [])
                   else io_return (Inr (retained, removed \<noteq> []))) (\<lambda>(retained, changed).
          if maximum_existing_bytes < retained then io_return (Inl CapacityExceeded)
          else io_return (Inr changed))))))"

fun remove_over :: "nat \<Rightarrow> storage_entry list \<Rightarrow> nat \<Rightarrow> (nat \<times> storage_entry list) io" where
  "remove_over maximum [] retained = io_return (retained, [])"
| "remove_over maximum ((day, path, bytes) # entries) retained =
     (if retained \<le> maximum then io_return (retained, [])
      else
        io_then (fs_remove path) (
        io_bind (remove_over maximum entries (retained - bytes)) (\<lambda>(retained, removed).
          io_return (retained, (day, path, bytes) # removed))))"

definition prune_directory :: "u64 \<Rightarrow> retention_policy \<Rightarrow> prune_report io" where
  "prune_directory now_ms policy =
     io_then recover_rewrite_artifacts (
     io_bind storage_files (\<lambda>entries.
     io_bind (remove_old (cutoff_day now_ms policy) entries) (\<lambda>(left, old).
     io_bind (remove_over (rp_max_total_bytes policy) left (total_bytes entries - total_bytes old)) (\<lambda>(retained, over).
     io_return \<lparr>pr_removed_files = map (\<lambda>(_, path, _). path) (old @ over), pr_removed_bytes = total_bytes (old @ over),
       pr_retained_bytes = retained\<rparr>))))"

section \<open>Opening\<close>

definition load_or_create_identity_key :: "string \<Rightarrow> string io" where
  "load_or_create_identity_key random_key =
     io_bind (io_catch (io_bind (fs_read IDENTITY_KEY_FILE) (\<lambda>key. io_return (Some key)))
         (\<lambda>error. if error = NotFound then io_return None else io_fail error)) (\<lambda>found.
       case found of
         Some key \<Rightarrow> if length key \<noteq> IDENTITY_KEY_BYTES then io_fail InvalidData else io_return key
       | None \<Rightarrow>
           io_bind storage_files (\<lambda>entries.
             if entries \<noteq> [] then io_fail InvalidData
             else
               io_then (fs_create_new IDENTITY_KEY_FILE) (
               io_then (io_catch (io_then (fs_write_all IDENTITY_KEY_FILE random_key) fs_sync) (\<lambda>error.
                 io_then (io_ignore (fs_remove IDENTITY_KEY_FILE)) (io_fail error)))
               (io_return random_key))))"

definition recover_and_rebuild_index :: "incident_parser \<Rightarrow> store_index io" where
  "recover_and_rebuild_index parse = io_then recover_store_state (load_index parse)"

text \<open>The directory and the lock file; \<open>locked\<close> says whether another process holds the lock.\<close>

definition open_internal ::
  "incident_codec \<Rightarrow> string \<Rightarrow> bool \<Rightarrow> (u64 \<times> retention_policy) option \<Rightarrow> diagnostic_store checked" where
  "open_internal codec random_key locked startup_policy =
     lifted (
       io_then fs_sync (
       io_then fs_sync (
       io_then (fs_open_append STORAGE_LOCK_FILE) (
       io_then (if locked then io_fail OtherError else io_return ()) (
       io_then recover_store_state (
       io_bind (load_or_create_identity_key random_key) (\<lambda>key.
       io_then (case startup_policy of None \<Rightarrow> io_return ()
                | Some (now_ms, policy) \<Rightarrow> io_then (prune_directory now_ms policy) recover_store_state) (
       io_bind (load_index (ic_parse codec)) (\<lambda>index.
       io_return \<lparr>ds_poisoned = False, ds_index = index, ds_identity_key = key\<rparr>)))))))))"

section \<open>Operations\<close>

text \<open>An operation answers, with the store after it.\<close>

type_synonym 'a store_op = "diagnostic_store \<Rightarrow> ((diagnostics_error + 'a) \<times> diagnostic_store) io"

definition reconcile_or_poison :: "incident_parser \<Rightarrow> diagnostic_store \<Rightarrow> diagnostic_store io" where
  "reconcile_or_poison parse store =
     io_catch (io_bind (recover_and_rebuild_index parse) (\<lambda>index. io_return (store\<lparr>ds_index := index\<rparr>)))
       (\<lambda>_. io_return (store\<lparr>ds_poisoned := True\<rparr>))"

definition rebuild_or_fail :: "incident_parser \<Rightarrow> unit store_op" where
  "rebuild_or_fail parse store =
     io_catch (io_bind (recover_and_rebuild_index parse) (\<lambda>index. io_return (Inr (), store\<lparr>ds_index := index\<rparr>)))
       (\<lambda>_. io_return (Inl IoFailed, store\<lparr>ds_poisoned := True\<rparr>))"

definition make_room ::
  "incident_parser \<Rightarrow> (string \<Rightarrow> string) \<Rightarrow> u64 \<Rightarrow> retention_policy option \<Rightarrow> nat \<Rightarrow> unit store_op" where
  "make_room parse random received_at_ms policy incoming_bytes store =
     (case policy of None \<Rightarrow> io_return (Inr (), store)
      | Some policy \<Rightarrow>
          io_bind (prune_for_append random received_at_ms policy incoming_bytes) (\<lambda>report.
            case report of
              Inl error \<Rightarrow> io_bind (reconcile_or_poison parse store) (\<lambda>store. io_return (Inl error, store))
            | Inr changed \<Rightarrow> if changed then rebuild_or_fail parse store else io_return (Inr (), store)))"

text \<open>A failed append: what reached the disk is synced again, or the store refuses all further work.\<close>

definition append_failed :: "incident_parser \<Rightarrow> string \<Rightarrow> append_outcome store_op" where
  "append_failed parse path store =
     io_bind (io_try (io_then (fs_call (\<lambda>m. if hm_get m path = None then Inl NotFound else Inr ((), m))) fs_sync)) (\<lambda>synced.
       if \<not> synced then io_return (Inl IoFailed, store\<lparr>ds_poisoned := True\<rparr>)
       else io_bind (reconcile_or_poison parse store) (\<lambda>store. io_return (Inl IoFailed, store)))"

definition index_new :: "stored_incident \<Rightarrow> string \<Rightarrow> diagnostic_store \<Rightarrow> diagnostic_store" where
  "index_new r file_name store =
     store\<lparr>ds_index := \<lparr>
        ix_by_envelope_key = hm_insert (envelope_key r) (index_entry_of r file_name) (ix_by_envelope_key (ds_index store)),
        ix_by_incident_id = hm_insert (si_incident_id r) (index_entry_of r file_name) (ix_by_incident_id (ds_index store))\<rparr>\<rparr>"

definition write_record :: "incident_parser \<Rightarrow> stored_incident \<Rightarrow> string \<Rightarrow> append_outcome store_op" where
  "write_record parse r line store =
     (let path = storage_file_name (si_received_at_ms r) in
      io_bind (io_try (append_json_line path line)) (\<lambda>written.
        if \<not> written then append_failed parse path store
        else io_return (Inr (Stored (si_incident_id r)), index_new r path store)))"

definition append_internal ::
  "incident_codec \<Rightarrow> string list \<Rightarrow> (string \<Rightarrow> string) \<Rightarrow> string \<Rightarrow> incident_envelope \<Rightarrow> u64
   \<Rightarrow> retention_policy option \<Rightarrow> append_outcome store_op" where
  "append_internal codec draws random authenticated_identity envelope received_at_ms policy store =
     (if ds_poisoned store then io_return (Inl LockPoisoned, store)
      else case validate_envelope envelope received_at_ms of Some e \<Rightarrow> io_return (Inl (ValidationFailed e), store)
      | None \<Rightarrow>
     (let envelope = sanitize_envelope envelope in
      case validate_server_identity authenticated_identity of Some e \<Rightarrow> io_return (Inl (ValidationFailed e), store)
      | None \<Rightarrow>
     (let digest = identity_digest (ic_mac codec) (ds_identity_key store) authenticated_identity in
      case payload_digest (ic_canonical codec) envelope of None \<Rightarrow> io_return (Inl SerializationFailed, store)
      | Some payload \<Rightarrow>
     (case hm_get (ix_by_envelope_key (ds_index store)) (digest, en_envelope_id envelope) of
        Some existing \<Rightarrow>
          io_return (Inr (if ie_payload_digest existing = payload then Duplicate (ie_incident_id existing)
                          else Conflict (ie_incident_id existing)), store)
      | None \<Rightarrow>
     (case generate_unique_incident_id draws (\<lambda>i. hm_get (ix_by_incident_id (ds_index store)) i \<noteq> None) of
        None \<Rightarrow> io_return (Inl SerializationFailed, store)
      | Some incident_id \<Rightarrow>
     (let r = \<lparr>si_record_version = STORED_RECORD_VERSION, si_incident_id = incident_id, si_received_at_ms = received_at_ms,
               si_authenticated_identity = sanitize_text authenticated_identity, si_authenticated_identity_digest = digest,
               si_payload_digest = payload, si_envelope = envelope\<rparr> in
      case ic_render codec r of None \<Rightarrow> io_return (Inl SerializationFailed, store)
      | Some line \<Rightarrow>
          if MAX_STORED_RECORD_BYTES < length line then io_return (Inl BodyTooLarge, store)
          else
            io_bind (make_room (ic_parse codec) random received_at_ms policy (length line + 1) store) (\<lambda>(room, store).
              case room of Inl error \<Rightarrow> io_return (Inl error, store)
              | Inr _ \<Rightarrow> write_record (ic_parse codec) r line store)))))))"

definition ingest_with_policy ::
  "incident_codec \<Rightarrow> string list \<Rightarrow> (string \<Rightarrow> string) \<Rightarrow> string \<Rightarrow> string \<Rightarrow> u64 \<Rightarrow> retention_policy \<Rightarrow> append_outcome store_op" where
  "ingest_with_policy codec draws random authenticated_identity raw_body received_at_ms policy store =
     (case parse_validate_and_sanitize (ic_parse_envelope codec) raw_body received_at_ms of
        Inl error \<Rightarrow> io_return (Inl error, store)
      | Inr envelope \<Rightarrow> append_internal codec draws random authenticated_identity envelope received_at_ms (Some policy) store)"

text \<open>The newest summaries: whenever twice too many were collected, the oldest of them are dropped.\<close>

definition summary_order :: "incident_summary \<Rightarrow> incident_summary \<Rightarrow> ordering" where
  "summary_order left right =
     then_with (cmp_of (su_received_at_ms right) (su_received_at_ms left))
       (cmp_of (su_incident_id right) (su_incident_id left))"

definition sort_summaries :: "incident_summary list \<Rightarrow> incident_summary list" where
  "sort_summaries = sort_by summary_order"

definition before_cursor :: "(u64 \<times> string) option \<Rightarrow> stored_incident \<Rightarrow> bool" where
  "before_cursor before r =
     (case before of None \<Rightarrow> True
      | Some (received_at_ms, incident_id) \<Rightarrow>
          \<not> (received_at_ms < si_received_at_ms r
             \<or> (si_received_at_ms r = received_at_ms \<and> incident_id \<le> si_incident_id r)))"

definition collect_summary ::
  "nat \<Rightarrow> (u64 \<times> string) option \<Rightarrow> stored_incident \<times> string \<Rightarrow> incident_summary list \<Rightarrow> incident_summary list" where
  "collect_summary limit before rf summaries =
     (if \<not> before_cursor before (fst rf) then summaries
      else
        let summaries = summaries @ [summary_of (fst rf)] in
        if limit * 2 < length summaries then take limit (sort_summaries summaries) else summaries)"

definition list_summaries :: "incident_parser \<Rightarrow> nat \<Rightarrow> (u64 \<times> string) option \<Rightarrow> incident_summary list store_op" where
  "list_summaries parse limit before store =
     (if ds_poisoned store then io_return (Inl LockPoisoned, store)
      else
        let limit = min limit MAX_LIST_LIMIT in
        if limit = 0 then io_return (Inr [], store)
        else case Option.bind before (\<lambda>(_, incident_id). validate_incident_id incident_id) of
          Some e \<Rightarrow> io_return (Inl (ValidationFailed e), store)
        | None \<Rightarrow>
            io_bind (lifted (for_each_record parse)) (\<lambda>records.
              io_return (map_sum (\<lambda>e. e) (\<lambda>rs. take limit (sort_summaries (fold (collect_summary limit before) rs []))) records,
                store)))"

definition get_incident :: "incident_parser \<Rightarrow> string \<Rightarrow> stored_incident option store_op" where
  "get_incident parse incident_id store =
     (if ds_poisoned store then io_return (Inl LockPoisoned, store)
      else case validate_incident_id incident_id of Some e \<Rightarrow> io_return (Inl (ValidationFailed e), store)
      | None \<Rightarrow>
     (case hm_get (ix_by_incident_id (ds_index store)) incident_id of None \<Rightarrow> io_return (Inr None, store)
      | Some entry \<Rightarrow>
     (case checked_storage_path (ie_file_name entry) of Inl error \<Rightarrow> io_return (Inl error, store)
      | Inr path \<Rightarrow>
          io_bind (lifted (find_record parse path incident_id)) (\<lambda>found.
            io_return (map_sum (\<lambda>e. e) (map_option sanitize_stored_incident) found, store)))))"

definition redacted_download_json ::
  "incident_parser \<Rightarrow> (stored_incident \<Rightarrow> string option) \<Rightarrow> string \<Rightarrow> string option store_op" where
  "redacted_download_json parse render_pretty incident_id store =
     io_bind (get_incident parse incident_id store) (\<lambda>(found, store).
       io_return (case found of Inl error \<Rightarrow> Inl error | Inr None \<Rightarrow> Inr None
         | Inr (Some r) \<Rightarrow> (case render_pretty r of None \<Rightarrow> Inl SerializationFailed | Some json \<Rightarrow> Inr (Some (json @ [newline]))),
         store))"

definition forget_incident :: "string \<Rightarrow> diagnostic_store \<Rightarrow> diagnostic_store" where
  "forget_incident incident_id store =
     store\<lparr>ds_index := \<lparr>
        ix_by_envelope_key = filter (\<lambda>(_, entry). ie_incident_id entry \<noteq> incident_id) (ix_by_envelope_key (ds_index store)),
        ix_by_incident_id = hm_remove incident_id (ix_by_incident_id (ds_index store))\<rparr>\<rparr>"

definition delete_incident :: "incident_parser \<Rightarrow> (string \<Rightarrow> string) \<Rightarrow> string \<Rightarrow> bool store_op" where
  "delete_incident parse random incident_id store =
     (if ds_poisoned store then io_return (Inl LockPoisoned, store)
      else case validate_incident_id incident_id of Some e \<Rightarrow> io_return (Inl (ValidationFailed e), store)
      | None \<Rightarrow>
     (case hm_get (ix_by_incident_id (ds_index store)) incident_id of None \<Rightarrow> io_return (Inr False, store)
      | Some entry \<Rightarrow>
     (case checked_storage_path (ie_file_name entry) of Inl error \<Rightarrow> io_return (Inl error, store)
      | Inr path \<Rightarrow>
          io_bind (lifted (rewrite_without_incident parse (random path) path incident_id)) (\<lambda>removed.
            case removed of
              Inl error \<Rightarrow> io_bind (reconcile_or_poison parse store) (\<lambda>store. io_return (Inl error, store))
            | Inr removed \<Rightarrow>
                io_return (Inr removed, if removed then forget_incident incident_id store else store)))))"

definition prune_store :: "incident_parser \<Rightarrow> u64 \<Rightarrow> retention_policy \<Rightarrow> prune_report store_op" where
  "prune_store parse now_ms policy store =
     (if ds_poisoned store then io_return (Inl LockPoisoned, store)
      else
        io_bind (lifted (prune_directory now_ms policy)) (\<lambda>report.
        io_bind (rebuild_or_fail parse store) (\<lambda>(rebuilt, store).
        io_return (case rebuilt of Inl error \<Rightarrow> Inl error | Inr _ \<Rightarrow> report, store))))"

end
