(* ===== verification/DiagnosticView.thy ===== *)
theory DiagnosticView
  imports DiagnosticStore HistoryLog "HOL-Library.Sublist"
begin

text \<open>
  What the files of the diagnostics hold, seen through an interrupted rewrite, and what each routine on them does
  to it wherever it stops: rows are only ever dropped.
\<close>

section \<open>Names\<close>

lemma storage_name: "is_storage_name n \<Longrightarrow> \<exists>k. n = k @ ''.jsonl''"
  unfolding is_storage_name_def parse_storage_file_name_def STORAGE_SUFFIX_def strip_prefix_def ends_with_def
  by (auto split: if_splits simp: Let_def) (metis append_take_drop_id append.assoc)

lemma not_storage_names:
  "\<not> is_storage_name (s @ ''.bak'')" "\<not> is_storage_name (s @ ''.tmp'')"
  "\<not> is_storage_name STORAGE_LOCK_FILE" "\<not> is_storage_name IDENTITY_KEY_FILE"
  by (auto dest!: storage_name dest: arg_cong [of _ _ last] simp: STORAGE_LOCK_FILE_def IDENTITY_KEY_FILE_def)

lemma storage_names_differ:
  assumes "is_storage_name n" "is_storage_name path"
  shows "n \<noteq> backup_path path" "backup_path path \<noteq> n" "n \<noteq> temp_path path r" "temp_path path r \<noteq> n"
    "backup_path n \<noteq> temp_path path r" "temp_path path r \<noteq> backup_path n" "backup_path n = backup_path path \<longleftrightarrow> n = path"
proof -
  show "n \<noteq> backup_path path" "n \<noteq> temp_path path r"
    using assms(1) not_storage_names(1) [of path] not_storage_names(2) [of "path @ ''.'' @ r"]
    by (auto simp: backup_path_def temp_path_def)
  show "backup_path n \<noteq> temp_path path r"
    by (auto simp: backup_path_def temp_path_def dest: arg_cong [of _ _ last])
  then show "backup_path path \<noteq> n" "temp_path path r \<noteq> n" "temp_path path r \<noteq> backup_path n"
    "backup_path n = backup_path path \<longleftrightarrow> n = path"
    using \<open>n \<noteq> backup_path path\<close> \<open>n \<noteq> temp_path path r\<close> by (auto simp: backup_path_def)
qed

section \<open>Rows\<close>

definition disk_rows :: "files \<Rightarrow> string \<Rightarrow> string list" where
  "disk_rows m n = (case stored n m of None \<Rightarrow> [] | Some content \<Rightarrow> split_lines [] content)"

text \<open>No carriage returns: the store never writes one.\<close>

definition plain :: "files \<Rightarrow> bool" where
  "plain m \<longleftrightarrow> hm_ok m \<and> (\<forall>n c. is_storage_name n \<longrightarrow> hm_get m n = Some c \<or> hm_get m (backup_path n) = Some c
     \<longrightarrow> carriage_return \<notin> set c)"

definition shrunk :: "files \<Rightarrow> files \<Rightarrow> bool" where
  "shrunk m m' \<longleftrightarrow> (\<forall>n. is_storage_name n \<longrightarrow> subseq (disk_rows m' n) (disk_rows m n))"

definition same_content :: "files \<Rightarrow> files \<Rightarrow> bool" where
  "same_content m m' \<longleftrightarrow> (\<forall>n. is_storage_name n \<longrightarrow> stored n m' = stored n m)"

definition whole_content :: "files \<Rightarrow> bool" where
  "whole_content m \<longleftrightarrow> (\<forall>n c. is_storage_name n \<and> stored n m = Some c \<longrightarrow> c = [] \<or> last c = newline)"

definition all_settled :: "files \<Rightarrow> bool" where
  "all_settled m \<longleftrightarrow> (\<forall>n. is_storage_name n \<longrightarrow> settled n m)"

definition no_backups :: "files \<Rightarrow> bool" where
  "no_backups m \<longleftrightarrow> (\<forall>n. is_storage_name n \<longrightarrow> hm_get m (backup_path n) = None)"

lemma shrunk_refl [simp, intro]: "shrunk m m"
  by (simp add: shrunk_def)

lemma shrunk_trans: "shrunk m1 m2 \<Longrightarrow> shrunk m2 m3 \<Longrightarrow> shrunk m1 m3"
  unfolding shrunk_def by (meson subseq_order.order_trans)

lemma same_shrunk: "same_content m m' \<Longrightarrow> shrunk m m'"
  by (simp add: same_content_def shrunk_def disk_rows_def)

lemma same_content_rows: "same_content m m' \<Longrightarrow> is_storage_name n \<Longrightarrow> disk_rows m' n = disk_rows m n"
  by (simp add: same_content_def disk_rows_def)

lemma same_content_sym: "same_content m m' \<Longrightarrow> same_content m' m"
  by (simp add: same_content_def)

lemma same_content_whole: "same_content m m' \<Longrightarrow> whole_content m' = whole_content m"
  unfolding same_content_def whole_content_def by metis

lemma same_refl [simp, intro]: "same_content m m"
  by (simp add: same_content_def)

lemma same_trans: "same_content m1 m2 \<Longrightarrow> same_content m2 m3 \<Longrightarrow> same_content m1 m3"
  by (simp add: same_content_def)

lemma no_backups_settled: "no_backups m \<Longrightarrow> all_settled m"
  by (simp add: no_backups_def all_settled_def settled_def)

text \<open>A change outside the files of days and their backups.\<close>

definition aside :: "string \<Rightarrow> bool" where
  "aside x \<longleftrightarrow> \<not> is_storage_name x \<and> (\<forall>n. is_storage_name n \<longrightarrow> backup_path n \<noteq> x)"

lemma aside_names [simp]: "aside STORAGE_LOCK_FILE" "aside IDENTITY_KEY_FILE" "aside (s @ ''.tmp'')"
  using not_storage_names
  by (auto simp: aside_def backup_path_def STORAGE_LOCK_FILE_def IDENTITY_KEY_FILE_def dest: arg_cong [of _ _ last])

lemma aside_temp [simp]: "aside (temp_path path r)"
  using aside_names(3) [of "path @ ''.'' @ r"] by (simp add: temp_path_def)

definition alongside :: "files \<Rightarrow> files \<Rightarrow> bool" where
  "alongside m m' \<longleftrightarrow> (hm_ok m \<longrightarrow> hm_ok m') \<and> (\<forall>n. is_storage_name n \<longrightarrow>
     hm_get m' n = hm_get m n \<and> hm_get m' (backup_path n) = hm_get m (backup_path n))"

lemma alongside_refl [simp, intro]: "alongside m m"
  by (simp add: alongside_def)

lemma alongside_insert: "aside x \<Longrightarrow> alongside m0 m \<Longrightarrow> alongside m0 (hm_insert x v m)"
  by (auto simp: alongside_def aside_def hm_simps)

lemma alongside_remove: "aside x \<Longrightarrow> alongside m0 m \<Longrightarrow> alongside m0 (hm_remove x m)"
  by (auto simp: alongside_def aside_def hm_simps)

lemma alongside_view:
  assumes "alongside m m'"
  shows "same_content m m'" "plain m \<Longrightarrow> plain m'" "all_settled m \<Longrightarrow> all_settled m'" "no_backups m \<Longrightarrow> no_backups m'"
  using assms
  by (auto simp: alongside_def same_content_def stored_def plain_def all_settled_def settled_def no_backups_def
      split: option.split)

text \<open>The lines of a file without carriage returns.\<close>

lemma strip_cr_none: "carriage_return \<notin> set l \<Longrightarrow> strip_cr l = l"
  by (cases l rule: rev_cases) (auto simp: strip_cr_def)

lemma split_lines_plain:
  "carriage_return \<notin> set acc \<Longrightarrow> carriage_return \<notin> set s \<Longrightarrow> list_all (\<lambda>l. carriage_return \<notin> set l) (split_lines acc s)"
  by (induction acc s rule: split_lines.induct) (auto simp: strip_cr_none)

lemma split_inclusive_acc:
  "newline \<notin> set s \<Longrightarrow> split_inclusive acc (s @ newline # t) = (acc @ s @ [newline]) # split_inclusive [] t"
  "newline \<notin> set s \<Longrightarrow> split_inclusive acc s = (if acc @ s = [] then [] else [acc @ s])"
  by (induction s arbitrary: acc) auto

lemma concat_split_inclusive: "concat (split_inclusive acc s) = acc @ s"
  by (induction acc s rule: split_inclusive.induct) auto

text \<open>The first row and the others.\<close>

lemma rows_cases:
  assumes "carriage_return \<notin> set s"
  obtains (none) "s = []" "split_lines [] s = []" "split_inclusive [] s = []"
    | (tail) "s \<noteq> []" "newline \<notin> set s" "split_lines [] s = [s]" "split_inclusive [] s = [s]"
    | (row) l t where "s = l @ newline # t" "newline \<notin> set l" "carriage_return \<notin> set t" "carriage_return \<notin> set l"
        "split_lines [] s = l # split_lines [] t" "split_inclusive [] s = (l @ [newline]) # split_inclusive [] t"
proof (cases rule: newline_split [of s])
  case 1
  then show ?thesis using none tail split_lines_acc(2) [of s "[]"] split_inclusive_acc(2) [of s "[]"] by (cases "s = []") auto
next
  case (2 l t)
  then show ?thesis using row [of l t] assms split_lines_acc(1) [of l "[]" t] split_inclusive_acc(1) [of l "[]" t]
    by (simp add: strip_cr_none)
qed

lemma rows_induct [consumes 1, case_names none tail row]:
  assumes "carriage_return \<notin> set s"
    and "P []" and "\<And>s. s \<noteq> [] \<Longrightarrow> newline \<notin> set s \<Longrightarrow> carriage_return \<notin> set s \<Longrightarrow> P s"
    and "\<And>l t. newline \<notin> set l \<Longrightarrow> carriage_return \<notin> set l \<Longrightarrow> carriage_return \<notin> set t \<Longrightarrow> P t \<Longrightarrow> P (l @ newline # t)"
  shows "P s"
  using assms(1)
proof (induction "length s" arbitrary: s rule: less_induct)
  case less
  show ?case
  proof (cases rule: newline_split [of s])
    case 1
    then show ?thesis using assms(2,3) less.prems by (cases "s = []") auto
  next
    case (2 l t)
    then show ?thesis using assms(4) [of l t] less by auto
  qed
qed

lemma rows_simps:
  "newline \<notin> set s \<Longrightarrow> split_lines [] s = (if s = [] then [] else [s])"
  "newline \<notin> set s \<Longrightarrow> split_inclusive [] s = (if s = [] then [] else [s])"
  "newline \<notin> set l \<Longrightarrow> carriage_return \<notin> set l \<Longrightarrow> split_lines [] (l @ newline # t) = l # split_lines [] t"
  "newline \<notin> set l \<Longrightarrow> split_inclusive [] (l @ newline # t) = (l @ [newline]) # split_inclusive [] t"
  using split_lines_acc [of s "[]"] split_inclusive_acc [of s "[]"] split_lines_acc(1) [of l "[]" t] split_inclusive_acc(1) [of l "[]" t]
  by (auto simp: strip_cr_none)

text \<open>Dropping pieces from the front drops rows, and cutting a torn tail the last one.\<close>

lemma drop_oldest_rows:
  "carriage_return \<notin> set s \<Longrightarrow> \<exists>k. split_lines [] (concat (drop_oldest d n (split_inclusive [] s))) = drop k (split_lines [] s)"
proof (induction s arbitrary: d rule: rows_induct)
  case none
  then show ?case by simp
next
  case (tail s)
  then show ?case by (auto simp: rows_simps intro: exI [of _ 0] exI [of _ 1])
next
  case (row l t)
  show ?case
  proof (cases "d < n")
    case True
    then show ?thesis using row by (auto simp: rows_simps) (metis drop_Suc_Cons)
  next
    case False
    then show ?thesis using row by (auto simp: rows_simps concat_split_inclusive intro: exI [of _ 0])
  qed
qed

lemma drop_oldest_set: "set (concat (drop_oldest d n ls)) \<subseteq> set (concat ls)"
  by (induction d n ls rule: drop_oldest.induct) auto

definition whole_lines :: "string \<Rightarrow> string" where
  "whole_lines content = rev (dropWhile (\<lambda>c. c \<noteq> newline) (rev content))"

lemma whole_lines_cases:
  obtains "whole_lines s = s" | t where "s = whole_lines s @ t" "newline \<notin> set t" "t \<noteq> []"
    "whole_lines s = [] \<or> last (whole_lines s) = newline"
proof -
  have split: "s = whole_lines s @ rev (takeWhile (\<lambda>c. c \<noteq> newline) (rev s))"
    unfolding whole_lines_def by (metis rev_append rev_rev_ident takeWhile_dropWhile_id)
  have "newline \<notin> set (rev (takeWhile (\<lambda>c. c \<noteq> newline) (rev s)))" by (auto dest: set_takeWhileD)
  moreover have "whole_lines s = [] \<or> last (whole_lines s) = newline"
    unfolding whole_lines_def using hd_dropWhile [of "\<lambda>c. c \<noteq> newline" "rev s"] by (auto simp: last_rev)
  ultimately show thesis using that split by (metis append_Nil2)
qed

lemma whole_lines_rows: "subseq (split_lines [] (whole_lines s)) (split_lines [] s)"
proof (cases rule: whole_lines_cases [of s])
  case (2 t)
  then have "split_lines [] s = split_lines [] (whole_lines s) @ split_lines [] t"
    using split_lines_append [of "whole_lines s" t] by simp
  then show ?thesis by (simp add: prefix_imp_subseq)
qed simp

lemma whole_lines_take: "take (length (whole_lines s)) s = whole_lines s"
  by (cases rule: whole_lines_cases [of s]) (simp, metis append_eq_conv_conj)

text \<open>The search from the end, a chunk at a time, finds the end of the whole lines.\<close>

lemma whole_lines_append:
  "newline \<in> set t \<Longrightarrow> whole_lines (s @ t) = s @ whole_lines t"
  "newline \<notin> set t \<Longrightarrow> whole_lines (s @ t) = whole_lines s"
proof -
  show "newline \<in> set t \<Longrightarrow> whole_lines (s @ t) = s @ whole_lines t"
    by (simp add: whole_lines_def dropWhile_append1)
  assume "newline \<notin> set t"
  then have "\<And>x. x \<in> set (rev t) \<Longrightarrow> x \<noteq> newline" by auto
  then show "whole_lines (s @ t) = whole_lines s"
    unfolding whole_lines_def rev_append by (subst dropWhile_append2) auto
qed

lemma last_newline_None: "last_newline s = None \<longleftrightarrow> newline \<notin> set s"
  by (simp add: last_newline_def)

lemma last_newline_Some: "last_newline s = Some k \<Longrightarrow> newline \<in> set s \<and> k + 1 = length (whole_lines s)"
proof -
  assume k: "last_newline s = Some k"
  have "length (takeWhile (\<lambda>c. c \<noteq> newline) (rev s)) + length (dropWhile (\<lambda>c. c \<noteq> newline) (rev s)) = length s"
    by (metis length_append length_rev takeWhile_dropWhile_id)
  moreover have "dropWhile (\<lambda>c. c \<noteq> newline) (rev s) \<noteq> []" if "newline \<in> set s"
    using that by (simp add: dropWhile_eq_Nil_conv)
  ultimately show ?thesis
    using k by (cases "dropWhile (\<lambda>c. c \<noteq> newline) (rev s)") (auto simp: last_newline_def whole_lines_def split: if_splits)
qed

lemma truncate_at_whole: "n \<le> length s \<Longrightarrow> truncate_at s n = length (whole_lines (take n s))"
proof (induction s n rule: truncate_at.induct)
  case (1 s n)
  let ?start = "n - SEARCH_CHUNK_BYTES"
  let ?chunk = "drop ?start (take n s)"
  have parts: "take n s = take ?start s @ ?chunk" by (metis append_take_drop_id diff_le_self min.absorb1 take_take)
  show ?case
  proof (cases "n = 0")
    case True
    then show ?thesis by (simp add: truncate_at.simps whole_lines_def)
  next
    case False
    show ?thesis
    proof (cases "last_newline ?chunk")
      case None
      then have "truncate_at s n = length (whole_lines (take ?start s))"
        using 1 False by (subst truncate_at.simps) simp
      then show ?thesis using None parts whole_lines_append(2) by (simp add: last_newline_None) metis
    next
      case (Some k)
      have "whole_lines (take n s) = take ?start s @ whole_lines ?chunk"
        using last_newline_Some [OF Some] parts whole_lines_append(1) by metis
      then show ?thesis
        using Some False 1(2) last_newline_Some [OF Some] by (subst truncate_at.simps) simp
    qed
  qed
qed

lemma truncate_at_end [simp]: "truncate_at s (length s) = length (whole_lines s)"
  by (simp add: truncate_at_whole)

section \<open>Rewriting a file\<close>

lemma runs_lifted:
  assumes "runs P m Q I"
  shows "runs P (lifted m) (\<lambda>r x. case r of Inr a \<Rightarrow> Q a x | Inl _ \<Rightarrow> I x) I"
proof (rule runsI)
  fix d r d' assume P: "P (dk_files d)" and run: "lifted m d = (r, d')"
  obtain r1 d1 where m: "m d = (r1, d1)" by fastforce
  from runsD [OF assms P m] run m show "case r of Done a \<Rightarrow> case a of Inr a \<Rightarrow> Q a (dk_files d') | Inl _ \<Rightarrow> I (dk_files d')
      | _ \<Rightarrow> I (dk_files d')"
    by (cases r1) (auto simp: lifted_def io_defs)
qed

lemma runs_ck_bind:
  assumes "runs P m (\<lambda>r x. case r of Inr a \<Rightarrow> Q a x | Inl _ \<Rightarrow> J x) I" and "\<And>a. runs (Q a) (f a) R I"
    and "\<And>e x. J x \<Longrightarrow> R (Inl e) x"
  shows "runs P (ck_bind m f) R I"
  unfolding ck_bind_def
proof (rule runs_bind [OF assms(1)])
  fix r show "runs (\<lambda>x. case r of Inr a \<Rightarrow> Q a x | Inl _ \<Rightarrow> J x)
      (case r of Inl e \<Rightarrow> io_return (Inl e) | Inr a \<Rightarrow> f a) R I"
    using assms(2,3) by (cases r) (auto intro: runs_return)
qed

lemma runs_catch:
  assumes "runs P m Q J" and "\<And>k. runs J (h k) Q I" and "\<And>x. J x \<Longrightarrow> I x"
  shows "runs P (io_catch m h) Q I"
proof (rule runsI)
  fix d r d' assume P: "P (dk_files d)" and run: "io_catch m h d = (r, d')"
  obtain r1 d1 where m: "m d = (r1, d1)" by fastforce
  show "case r of Done a \<Rightarrow> Q a (dk_files d') | _ \<Rightarrow> I (dk_files d')"
    using runsD [OF assms(1) P m] run m runsD [OF assms(2), of d1 _ r d'] assms(3)
    by (cases r1) (auto simp: io_catch_def)
qed

lemma runs_try:
  assumes "runs P m (\<lambda>_. Q) I"
  shows "runs P (io_try m) (\<lambda>b x. if b then Q x else I x) I"
  unfolding io_try_def
proof (rule runs_catch [where J = I])
  show "runs P (io_then m (io_return True)) (\<lambda>b x. if b then Q x else I x) I"
    by (rule runs_then [OF assms]) (auto intro: runs_return)
qed (auto intro: runs_return)

lemma runs_ignore: "runs P m (\<lambda>_. Q) I \<Longrightarrow> (\<And>x. I x \<Longrightarrow> Q x) \<Longrightarrow> runs P (io_ignore m) (\<lambda>_. Q) I"
  unfolding io_ignore_def by (rule runs_catch [where J = I]) (auto intro: runs_return)

text \<open>
  The content of a file is replaced by another; whatever fails, one of them is found again, and nothing but the old
  content is left as a backup.
\<close>

definition rewritten :: "string \<Rightarrow> string \<Rightarrow> string \<Rightarrow> files \<Rightarrow> files \<Rightarrow> bool" where
  "rewritten path c t m0 m \<longleftrightarrow> (hm_ok m0 \<longrightarrow> hm_ok m)
     \<and> (\<forall>n. is_storage_name n \<and> n \<noteq> path \<longrightarrow> hm_get m n = hm_get m0 n \<and> hm_get m (backup_path n) = hm_get m0 (backup_path n))
     \<and> hm_get m path \<in> {None, Some c, Some t} \<and> hm_get m (backup_path path) \<in> {None, Some c, hm_get m0 (backup_path path)}
     \<and> (stored path m = Some c \<or> hm_get m path = Some t)"

lemma commit_rewrite_runs:
  assumes path: "is_storage_name path"
  shows "runs (\<lambda>m. rewritten path c t m0 m \<and> hm_get m path = Some c \<and> hm_get m (temp_path path r) = Some t)
     (commit_rewrite path (temp_path path r) (backup_path path))
     (\<lambda>_ m. rewritten path c t m0 m \<and> hm_get m path = Some t) (rewritten path c t m0)"
proof -
  let ?temp = "temp_path path r" and ?backup = "backup_path path"
  let ?I = "rewritten path c t m0"
  let ?W = "\<lambda>m. ?I m \<and> hm_get m path = Some c \<and> hm_get m ?temp = Some t"
  let ?R = "\<lambda>m. ?I m \<and> hm_get m path = None \<and> hm_get m ?backup = Some c \<and> hm_get m ?temp = Some t"
  have others: "n \<noteq> ?temp" "n \<noteq> ?backup" "backup_path n \<noteq> ?temp" "backup_path n \<noteq> path" "n \<noteq> path \<Longrightarrow> backup_path n \<noteq> ?backup"
    if "is_storage_name n" for n
    using storage_names_differ [OF that path] storage_names_differ(2) [OF path that] by auto
  note simps = hm_simps rewritten_def stored_def others
  have rm: "runs (\<lambda>m. ?W m \<and> (b \<longleftrightarrow> hm_get m ?backup \<noteq> None)) (io_when b (fs_remove ?backup)) (\<lambda>_. ?W) ?I" for b
    unfolding fs_remove_def by (intro runs_when runs_call) (auto simp: simps split: option.splits)
  have mv: "runs ?W (fs_rename path ?backup) (\<lambda>_. ?R) ?I"
    unfolding fs_rename_def by (rule runs_call) (auto simp: simps split: option.splits)
  have undo: "runs ?R (io_bind (io_try (fs_rename ?backup path)) (\<lambda>restored.
      io_then (io_ignore (fs_remove ?temp)) (io_fail (if restored then k else OtherError)))) Q ?I" for k Q
  proof (rule runs_bind [OF runs_try [where Q = ?I]])
    show "runs ?R (fs_rename ?backup path) (\<lambda>_. ?I) ?I"
      unfolding fs_rename_def by (rule runs_call) (auto simp: simps split: option.splits)
    have "runs ?I (io_ignore (fs_remove ?temp)) (\<lambda>_. ?I) ?I"
      unfolding fs_remove_def by (rule runs_ignore_call) (auto simp: simps split: option.splits)
    then show "runs (\<lambda>x. if restored then ?I x else ?I x) (io_then (io_ignore (fs_remove ?temp))
        (io_fail (if restored then k else OtherError))) Q ?I" for restored
      by (auto intro: runs_then runs_fail)
  qed
  have swap: "runs ?R (io_catch (fs_rename ?temp path) (\<lambda>swap_error.
      io_bind (io_try (fs_rename ?backup path)) (\<lambda>restored.
      io_then (io_ignore (fs_remove ?temp)) (io_fail (if restored then swap_error else OtherError)))))
      (\<lambda>_ m. ?I m \<and> hm_get m path = Some t) ?I"
    unfolding fs_rename_def [of ?temp]
    by (rule runs_catch_call [OF _ _ undo]) (auto simp: simps split: option.splits)
  have tidy: "runs (\<lambda>m. ?I m \<and> hm_get m path = Some t) (io_ignore (fs_remove ?backup))
      (\<lambda>_ m. ?I m \<and> hm_get m path = Some t) ?I"
    unfolding fs_remove_def by (rule runs_ignore_call) (auto simp: simps split: option.splits)
  show ?thesis
    unfolding commit_rewrite_def
    by (intro runs_bind_exists runs_then [OF rm] runs_then [OF mv] runs_then [OF swap] tidy)
qed

text \<open>What a rewrite means for the rows.\<close>

lemma rewritten_view:
  assumes m: "rewritten path c t m0 m" and path: "is_storage_name path" "stored path m0 = Some c" and m0: "plain m0"
    and t: "carriage_return \<notin> set t" "subseq (split_lines [] t) (split_lines [] c)"
  shows "plain m" "shrunk m0 m"
proof -
  have "carriage_return \<notin> set c"
    using m0 path by (auto simp: plain_def stored_def split: option.splits)
  then show "plain m"
    unfolding plain_def
  proof (intro conjI allI impI)
    show "hm_ok m" using m m0 by (simp add: rewritten_def plain_def)
    fix n x assume n: "is_storage_name n" and x: "hm_get m n = Some x \<or> hm_get m (backup_path n) = Some x"
    show "carriage_return \<notin> set x"
    proof (cases "n = path")
      case True
      then show ?thesis using x m m0 path t \<open>carriage_return \<notin> set c\<close> unfolding rewritten_def plain_def by fastforce
    next
      case False
      then show ?thesis using n x m m0 unfolding rewritten_def plain_def by metis
    qed
  qed
  have "disk_rows m path \<in> {split_lines [] c, split_lines [] t}"
    using m by (auto simp: rewritten_def disk_rows_def stored_def split: option.splits)
  moreover have "disk_rows m n = disk_rows m0 n" if "is_storage_name n" "n \<noteq> path" for n
  proof -
    have "stored n m = stored n m0" using m that unfolding rewritten_def stored_def by metis
    then show ?thesis by (simp add: disk_rows_def)
  qed
  moreover have "disk_rows m0 path = split_lines [] c" using path by (simp add: disk_rows_def)
  ultimately show "shrunk m0 m"
    using t(2) unfolding shrunk_def by (metis insert_iff singletonD subseq_order.order_refl)
qed

text \<open>Copying the other lines, and the two rewrites.\<close>

lemma copy_others_runs:
  assumes G: "\<And>m v. G m \<Longrightarrow> G (hm_insert temp v m)"
  shows "runs (\<lambda>m. G m \<and> hm_get m temp = Some acc) (copy_others parse temp i removed lines)
     (\<lambda>found m. G m \<and> found = (removed \<or> list_ex (line_matches parse i) lines)
        \<and> hm_get m temp = Some (acc @ concat (map (\<lambda>l. l @ [newline]) (filter (\<lambda>l. \<not> line_matches parse i l) lines)))) G"
proof (induction lines arbitrary: acc removed)
  case Nil
  then show ?case by (auto intro: runs_return)
next
  case (Cons line lines)
  have "runs (\<lambda>m. G m \<and> hm_get m temp = Some acc) (fs_write_all temp line) (\<lambda>_ m. G m \<and> hm_get m temp = Some (acc @ line)) G"
    by (rule runs_write) (auto simp: G hm_simps or_default_def)
  moreover have "runs (\<lambda>m. G m \<and> hm_get m temp = Some (acc @ line)) (fs_write_all temp [newline])
      (\<lambda>_ m. G m \<and> hm_get m temp = Some (acc @ line @ [newline])) G"
    by (rule runs_write) (auto simp: G hm_simps or_default_def)
  ultimately show ?case
    using Cons [of "acc @ line @ [newline]" removed] Cons [of acc True]
    by (auto intro!: runs_fail runs_then simp: append_assoc)
qed

definition without_incident :: "incident_parser \<Rightarrow> string \<Rightarrow> string \<Rightarrow> string" where
  "without_incident parse i c =
     concat (map (\<lambda>l. l @ [newline]) (filter (\<lambda>l. \<not> line_matches parse i l) (split_lines [] c)))"

lemma rewrite_without_runs:
  assumes path: "is_storage_name path" and c: "hm_get m0 path = Some c"
    and t: "t = without_incident parse i c"
  shows "runs (\<lambda>m. m = m0) (rewrite_without_incident parse r path i)
     (\<lambda>found m. found = list_ex (line_matches parse i) (split_lines [] c)
        \<and> (if found then rewritten path c t m0 m \<and> hm_get m path = Some t else alongside m0 m))
     (rewritten path c t m0)"
proof -
  let ?temp = "temp_path path r" and ?I = "rewritten path c t m0"
  let ?G = "\<lambda>m. alongside m0 m"
  have aside: "aside ?temp" by simp
  have G: "?I m" if "?G m" for m
    using that c path by (auto simp: alongside_def rewritten_def stored_def)
  have ins: "?G (hm_insert ?temp v m)" if "?G m" for m v
    by (rule alongside_insert [OF aside that])
  have create: "runs (\<lambda>m. m = m0) (fs_create_new ?temp) (\<lambda>_ m. ?G m \<and> hm_get m ?temp = Some []) ?I"
    unfolding fs_create_new_def by (rule runs_call) (auto simp: G ins hm_simps split: option.splits)
  have read: "runs (\<lambda>m. ?G m \<and> hm_get m ?temp = Some []) (fs_read path)
      (\<lambda>x m. (?G m \<and> hm_get m ?temp = Some []) \<and> hm_get m path = Some x) ?I"
    by (rule runs_read) (simp add: G)
  have copy: "runs (\<lambda>m. (?G m \<and> hm_get m ?temp = Some []) \<and> hm_get m path = Some x)
      (copy_others parse ?temp i False (split_lines [] x))
      (\<lambda>found m. ?G m \<and> found = list_ex (line_matches parse i) (split_lines [] c) \<and> hm_get m ?temp = Some t) ?I" for x
  proof (cases "x = c")
    case True
    show ?thesis
      unfolding True
      by (rule runs_pre [OF runs_post [OF copy_others_runs [of ?G ?temp "[]" parse i False "split_lines [] c"]]])
        (auto simp: ins t without_incident_def intro: G [unfolded t without_incident_def])
  next
    case False
    then show ?thesis using c path by (auto simp: runs_def alongside_def)
  qed
  have sync: "runs (\<lambda>m. ?G m \<and> found = list_ex (line_matches parse i) (split_lines [] c) \<and> hm_get m ?temp = Some t) fs_sync
      (\<lambda>_ m. ?G m \<and> found = list_ex (line_matches parse i) (split_lines [] c) \<and> hm_get m ?temp = Some t) ?I" for found
    unfolding fs_sync_def by (rule runs_call) (auto simp: G)
  have drop: "runs (\<lambda>m. ?G m \<and> hm_get m ?temp = Some t) (io_ignore (fs_remove ?temp)) (\<lambda>_. ?G) ?I"
    unfolding fs_remove_def
    by (rule runs_ignore_call) (auto simp: G alongside_remove [OF aside] split: option.splits)
  have commit: "runs (\<lambda>m. ?G m \<and> hm_get m ?temp = Some t) (commit_rewrite path ?temp (backup_path path))
      (\<lambda>_ m. ?I m \<and> hm_get m path = Some t) ?I"
    by (rule runs_pre [OF commit_rewrite_runs [OF path]]) (use G c path in \<open>auto simp: alongside_def\<close>)
  have "runs (\<lambda>m. ?G m \<and> found = list_ex (line_matches parse i) (split_lines [] c) \<and> hm_get m ?temp = Some t)
      (if \<not> found then io_then (io_ignore (fs_remove ?temp)) (io_return False)
       else io_then (commit_rewrite path ?temp (backup_path path)) (io_return True))
      (\<lambda>found m. found = list_ex (line_matches parse i) (split_lines [] c)
        \<and> (if found then ?I m \<and> hm_get m path = Some t else alongside m0 m)) ?I" for found
  proof (cases "found = list_ex (line_matches parse i) (split_lines [] c)")
    case True
    then show ?thesis
      by (cases found) (auto intro!: runs_then [OF drop] runs_then [OF commit] runs_return)
  qed (simp add: runs_def)
  note last = this
  have "runs (\<lambda>m. m = m0) (io_then (fs_create_new ?temp) (io_bind (fs_read path) (\<lambda>content.
      io_bind (copy_others parse ?temp i False (split_lines [] content)) (\<lambda>found.
      io_then fs_sync (
      if \<not> found then io_then (io_ignore (fs_remove ?temp)) (io_return False)
      else io_then (commit_rewrite path ?temp (backup_path path)) (io_return True))))))
     (\<lambda>found m. found = list_ex (line_matches parse i) (split_lines [] c)
        \<and> (if found then ?I m \<and> hm_get m path = Some t else alongside m0 m)) ?I"
    by (rule runs_then [OF create], rule runs_bind [OF read], rule runs_bind [OF copy], rule runs_then [OF sync], rule last)
  then show ?thesis
    using path by (auto simp: rewrite_without_incident_def is_storage_name_def Let_def)
qed

definition without_oldest :: "nat \<Rightarrow> string \<Rightarrow> string" where
  "without_oldest n c = concat (drop_oldest 0 n (split_inclusive [] c))"

lemma rewrite_drop_runs:
  assumes path: "is_storage_name path" and c: "hm_get m0 path = Some c" and t: "t = without_oldest n c"
  shows "runs (\<lambda>m. m = m0) (rewrite_drop_oldest_bytes r path n)
     (\<lambda>freed m. rewritten path c t m0 m \<and> hm_get m path = Some t \<and> freed = length c - length t)
     (rewritten path c t m0)"
proof -
  let ?temp = "temp_path path r" and ?I = "rewritten path c t m0"
  let ?G = "\<lambda>m. alongside m0 m"
  have aside: "aside ?temp" by simp
  have G: "?I m" if "?G m" for m
    using that c path by (auto simp: alongside_def rewritten_def stored_def)
  have ins: "?G (hm_insert ?temp v m)" if "?G m" for m v
    by (rule alongside_insert [OF aside that])
  have len: "runs P (fs_len path) (\<lambda>x m. P m \<and> map_option length (hm_get m path) = Some x) ?I" if "\<And>m. P m \<Longrightarrow> ?I m" for P
    unfolding fs_len_def by (rule runs_call) (auto simp: that split: option.splits)
  have create: "runs (\<lambda>m. m = m0 \<and> map_option length (hm_get m path) = Some x) (fs_create_new ?temp)
      (\<lambda>_ m. ?G m \<and> hm_get m ?temp = Some [] \<and> x = length c) ?I" for x
    unfolding fs_create_new_def by (rule runs_call) (use c in \<open>auto simp: G ins hm_simps split: option.splits\<close>)
  have read: "runs (\<lambda>m. ?G m \<and> hm_get m ?temp = Some [] \<and> x = length c) (fs_read path)
      (\<lambda>y m. (?G m \<and> hm_get m ?temp = Some [] \<and> x = length c) \<and> hm_get m path = Some y) ?I" for x
    by (rule runs_read) (simp add: G)
  have fill: "runs (\<lambda>m. (?G m \<and> hm_get m ?temp = Some [] \<and> x = length c) \<and> hm_get m path = Some y)
      (fs_write_all ?temp (concat (drop_oldest 0 n (split_inclusive [] y))))
      (\<lambda>_ m. ?G m \<and> hm_get m ?temp = Some t \<and> x = length c) ?I" for x y
  proof (rule runs_write)
    fix m assume m: "(?G m \<and> hm_get m ?temp = Some [] \<and> x = length c) \<and> hm_get m path = Some y"
    then have "y = c" using c path by (auto simp: alongside_def)
    then show "?I (hm_insert ?temp (or_default [] (hm_get m ?temp) @ take k (concat (drop_oldest 0 n (split_inclusive [] y)))) m)"
      "?G (hm_insert ?temp (or_default [] (hm_get m ?temp) @ concat (drop_oldest 0 n (split_inclusive [] y))) m)
       \<and> hm_get (hm_insert ?temp (or_default [] (hm_get m ?temp) @ concat (drop_oldest 0 n (split_inclusive [] y))) m) ?temp = Some t
       \<and> x = length c" for k
      using m by (simp_all add: G ins hm_simps or_default_def t [symmetric] without_oldest_def [symmetric])
  qed
  have sync: "runs (\<lambda>m. ?G m \<and> hm_get m ?temp = Some t \<and> x = length c) fs_sync
      (\<lambda>_ m. ?G m \<and> hm_get m ?temp = Some t \<and> x = length c) ?I" for x
    unfolding fs_sync_def by (rule runs_call) (auto simp: G)
  have commit: "runs (\<lambda>m. ?G m \<and> hm_get m ?temp = Some t \<and> x = length c) (commit_rewrite path ?temp (backup_path path))
      (\<lambda>_ m. ?I m \<and> hm_get m path = Some t \<and> x = length c) ?I" for x
  proof (cases "x = length c")
    case True
    then show ?thesis
      by (intro runs_pre [OF runs_post [OF commit_rewrite_runs [OF path]]]) (use G c path in \<open>auto simp: alongside_def\<close>)
  qed (simp add: runs_def)
  have "runs (\<lambda>m. m = m0) (io_bind (fs_len path) (\<lambda>original_bytes.
        io_then (fs_create_new ?temp) (
        io_bind (fs_read path) (\<lambda>content.
        io_then (fs_write_all ?temp (concat (drop_oldest 0 n (split_inclusive [] content)))) (
        io_then fs_sync (
        io_then (commit_rewrite path ?temp (backup_path path)) (
        io_bind (fs_len path) (\<lambda>retained_bytes.
        io_return (original_bytes - retained_bytes)))))))))
     (\<lambda>freed m. ?I m \<and> hm_get m path = Some t \<and> freed = length c - length t) ?I"
    by (rule runs_bind [OF len], use G in simp, rule runs_then [OF create], rule runs_bind [OF read],
        rule runs_then [OF fill], rule runs_then [OF sync], rule runs_then [OF commit], rule runs_bind [OF len])
      (auto intro!: runs_return)
  then show ?thesis using path by (auto simp: rewrite_drop_oldest_bytes_def is_storage_name_def Let_def)
qed

text \<open>Both drop rows only.\<close>

lemma without_oldest_view:
  assumes "carriage_return \<notin> set c"
  shows "carriage_return \<notin> set (without_oldest n c)" "subseq (split_lines [] (without_oldest n c)) (split_lines [] c)"
proof -
  show "carriage_return \<notin> set (without_oldest n c)"
    using assms drop_oldest_set [of 0 n "split_inclusive [] c"] concat_split_inclusive [of "[]" c]
    by (auto simp: without_oldest_def)
  show "subseq (split_lines [] (without_oldest n c)) (split_lines [] c)"
    using drop_oldest_rows [OF assms, of 0 n] by (auto simp: without_oldest_def subseq_drop_many intro: suffix_imp_subseq suffix_drop)
qed

lemma without_incident_rows:
  assumes "carriage_return \<notin> set c"
  shows "split_lines [] (without_incident parse i c) = filter (\<lambda>l. \<not> line_matches parse i l) (split_lines [] c)"
    "carriage_return \<notin> set (without_incident parse i c)"
proof -
  have rows: "list_all (\<lambda>l. newline \<notin> set l) (filter (\<lambda>l. \<not> line_matches parse i l) (split_lines [] c))"
    "\<forall>l \<in> set (split_lines [] c). carriage_return \<notin> set l"
    using split_lines_no_newline [of "[]" c] split_lines_plain [of "[]" c] assms by (auto simp: list_all_iff)
  then show "split_lines [] (without_incident parse i c) = filter (\<lambda>l. \<not> line_matches parse i l) (split_lines [] c)"
    using split_lines_joined [OF rows(1)] unfolding without_incident_def by (auto intro!: map_idI strip_cr_none)
  show "carriage_return \<notin> set (without_incident parse i c)"
    using rows(2) by (auto simp: without_incident_def)
qed

section \<open>Recovery\<close>

definition kept :: "files \<Rightarrow> files \<Rightarrow> bool" where
  "kept m0 m \<longleftrightarrow> plain m \<and> shrunk m0 m"

definition all_whole :: "files \<Rightarrow> bool" where
  "all_whole m \<longleftrightarrow> (\<forall>n c. is_storage_name n \<and> hm_get m n = Some c \<longrightarrow> c = [] \<or> last c = newline)"

lemma settled_whole: "all_settled m \<Longrightarrow> all_whole m \<longleftrightarrow> whole_content m"
  unfolding all_whole_def whole_content_def all_settled_def settled_def stored_def by (metis option.case_eq_if option.collapse option.sel)

text \<open>No call fails; the process may still die at any of them.\<close>

definition no_fails :: "disk \<Rightarrow> bool" where
  "no_fails d \<longleftrightarrow> (\<forall>n. Fails n \<notin> set (dk_events d))"

lemma next_event_no_fails: "next_event d = (e, d1) \<Longrightarrow> no_fails d \<Longrightarrow> no_fails d1 \<and> e \<noteq> Fails n"
  unfolding next_event_def no_fails_def by (cases "dk_events d") (simp, force)

lemma fs_call_no_fails: "fs_call f d = (r, d') \<Longrightarrow> no_fails d \<Longrightarrow> no_fails d'"
proof -
  assume call: "fs_call f d = (r, d')" and d: "no_fails d"
  obtain e d1 where e: "next_event d = (e, d1)" by fastforce
  have "no_fails d1" using next_event_no_fails [OF e d] by simp
  moreover have "dk_events d' = dk_events d1"
    using call by (cases e) (auto simp: fs_call_def e split: sum.splits)
  ultimately show ?thesis by (simp add: no_fails_def)
qed

lemma fs_call_failed:
  assumes "fs_call f d = (Failed k, d')" "no_fails d"
  shows "f (dk_files d) = Inl k"
proof -
  obtain e d1 where e: "next_event d = (e, d1)" by fastforce
  then show ?thesis
    using assms next_event_no_fails [OF e assms(2)] next_event_files [OF e]
    by (cases e) (auto simp: fs_call_def split: sum.splits)
qed

lemma strip_suffix_Some: "strip_suffix suf s = Some x \<longleftrightarrow> s = x @ suf"
  by (auto simp: strip_suffix_def ends_with_def) (metis append_take_drop_id)

lemma strip_bak: "strip_suffix ''.bak'' f = Some n \<longleftrightarrow> f = backup_path n"
  by (simp add: strip_suffix_Some backup_path_def)

lemma strip_bak_None: "strip_suffix ''.bak'' f = None \<Longrightarrow> f \<noteq> backup_path n"
  by (auto simp: strip_bak [symmetric])

text \<open>Moving a backup back changes nothing that can be found.\<close>

lemma restore_view:
  assumes n: "is_storage_name n" "hm_get m n = None" "hm_get m (backup_path n) = Some c"
  defines "m' \<equiv> hm_insert n c (hm_remove (backup_path n) m)"
  shows "same_content m m'" "plain m \<Longrightarrow> plain m'" "settled n m'"
    "is_storage_name k \<Longrightarrow> settled k m \<Longrightarrow> settled k m'"
    "is_storage_name k \<Longrightarrow> hm_get m' (backup_path k) \<noteq> None \<Longrightarrow> hm_get m (backup_path k) \<noteq> None"
proof -
  have get: "hm_get m' k = (if k = n then Some c else hm_get m k)"
    "hm_get m' (backup_path k) = (if k = n then None else hm_get m (backup_path k))" if "is_storage_name k" for k
    using storage_names_differ [OF that n(1)] storage_names_differ [OF n(1) that] by (auto simp: m'_def hm_simps)
  show "same_content m m'"
    using n by (auto simp: same_content_def stored_def get split: option.split)
  show "plain m'" if "plain m"
    using that n unfolding plain_def m'_def [symmetric] by (auto simp: get split: if_splits) (auto simp: m'_def)
  show "settled n m'" "is_storage_name k \<Longrightarrow> settled k m \<Longrightarrow> settled k m'"
    "is_storage_name k \<Longrightarrow> hm_get m' (backup_path k) \<noteq> None \<Longrightarrow> hm_get m (backup_path k) \<noteq> None"
    using n by (auto simp: settled_def get split: if_splits)
qed

lemma restore_backups_runs:
  "runs (\<lambda>m. plain m \<and> same_content m0 m \<and> (\<forall>n. is_storage_name n \<longrightarrow> settled n m \<or> backup_path n \<in> set names)
       \<and> (\<forall>n. is_storage_name n \<and> hm_get m (backup_path n) \<noteq> None \<longrightarrow> backup_path n \<in> B))
     (restore_backups names)
     (\<lambda>_ m. plain m \<and> same_content m0 m \<and> all_settled m
       \<and> (\<forall>n. is_storage_name n \<and> hm_get m (backup_path n) \<noteq> None \<longrightarrow> backup_path n \<in> B))
     (\<lambda>m. plain m \<and> same_content m0 m)"
proof (induction names)
  case Nil
  then show ?case by (auto simp: all_settled_def intro: runs_return)
next
  case (Cons f names)
  let ?S = "\<lambda>names m. plain m \<and> same_content m0 m \<and> (\<forall>n. is_storage_name n \<longrightarrow> settled n m \<or> backup_path n \<in> set names)
       \<and> (\<forall>n. is_storage_name n \<and> hm_get m (backup_path n) \<noteq> None \<longrightarrow> backup_path n \<in> B)"
  have "runs (?S (f # names))
      (case strip_suffix ''.bak'' f of None \<Rightarrow> io_return ()
       | Some original \<Rightarrow> if \<not> is_storage_name original then io_return ()
           else io_bind (io_exists original) (\<lambda>there. io_when (\<not> there) (fs_rename f original)))
      (\<lambda>_. ?S names) (\<lambda>m. plain m \<and> same_content m0 m)"
  proof (cases "strip_suffix ''.bak'' f")
    case None
    have "backup_path n \<noteq> f" for n using strip_bak_None [OF None, of n] by simp
    then show ?thesis by (simp add: None runs_return)
  next
    case (Some n)
    then have f: "f = backup_path n" by (simp add: strip_bak)
    show ?thesis
    proof (cases "is_storage_name n")
      case False
      then show ?thesis by (simp add: Some) (auto simp: f backup_path_def intro!: runs_return)
    next
      case True
      have "runs (\<lambda>m. ?S (f # names) m \<and> (there \<longleftrightarrow> hm_get m n \<noteq> None)) (io_when (\<not> there) (fs_rename f n))
          (\<lambda>_. ?S names) (\<lambda>m. plain m \<and> same_content m0 m)" for there
      proof (rule runs_when)
        show "runs (\<lambda>m. ?S (f # names) m \<and> (there \<longleftrightarrow> hm_get m n \<noteq> None)) (fs_rename f n) (\<lambda>_. ?S names)
            (\<lambda>m. plain m \<and> same_content m0 m)" if "\<not> there"
          unfolding fs_rename_def
        proof (rule runs_call)
          fix m a m'
          assume m: "?S (f # names) m \<and> (there \<longleftrightarrow> hm_get m n \<noteq> None)"
            and call: "(case hm_get m f of None \<Rightarrow> Inl NotFound | Some s \<Rightarrow> Inr ((), hm_insert n s (hm_remove f m))) = Inr (a, m')"
          then obtain c where c: "hm_get m (backup_path n) = Some c" "m' = hm_insert n c (hm_remove (backup_path n) m)"
            by (auto simp: f split: option.splits)
          have none: "hm_get m n = None" using m that by simp
          note view = restore_view [OF True none c(1), folded c(2)]
          show "?S names m'"
          proof (intro conjI allI impI)
            show "plain m'" "same_content m0 m'" using m view(1,2) same_trans by auto
            show "settled k m' \<or> backup_path k \<in> set names" if "is_storage_name k" for k
              using m view(3) view(4) [OF that] that f storage_names_differ(7) [OF that True] by (cases "k = n") auto
            show "backup_path k \<in> B" if "is_storage_name k \<and> hm_get m' (backup_path k) \<noteq> None" for k
              using m view(5) [of k] that by auto
          qed
        qed simp
        show "?S names m" if "\<not> \<not> there" "?S (f # names) m \<and> (there \<longleftrightarrow> hm_get m n \<noteq> None)" for m
          using that f storage_names_differ(7) [OF _ True] by (auto simp: settled_def)
      qed
      then show ?thesis by (auto simp: Some True intro: runs_bind_exists)
    qed
  qed
  then show ?case unfolding restore_backups.simps by (rule runs_then [OF _ Cons])
qed

text \<open>Removing a backup beside its file, or a temporary file.\<close>

lemma spare_view:
  assumes f: "aside f \<or> (\<exists>n. is_storage_name n \<and> f = backup_path n \<and> hm_get m n \<noteq> None)"
  shows "same_content m (hm_remove f m)" "plain m \<Longrightarrow> plain (hm_remove f m)" "all_settled m \<Longrightarrow> all_settled (hm_remove f m)"
    "no_backups m \<Longrightarrow> no_backups (hm_remove f m)" "all_whole m \<Longrightarrow> all_whole (hm_remove f m)"
proof -
  have get: "hm_get (hm_remove f m) k = hm_get m k" if "is_storage_name k" for k
    using f that storage_names_differ(1) [OF that] by (auto simp: hm_simps aside_def)
  have bak: "hm_get (hm_remove f m) (backup_path k) = (if f = backup_path k then None else hm_get m (backup_path k))" for k
    by (simp add: hm_simps)
  have there: "hm_get m k \<noteq> None" if "is_storage_name k" "f = backup_path k" for k
    using f that storage_names_differ(7) by (auto simp: aside_def)
  have "stored k (hm_remove f m) = stored k m" if "is_storage_name k" for k
    unfolding stored_def get [OF that] bak using there [OF that] by (auto split: option.split)
  then show "same_content m (hm_remove f m)" by (simp add: same_content_def)
  show "plain (hm_remove f m)" if "plain m"
    using that by (auto simp: plain_def get bak split: if_splits)
  show "all_settled (hm_remove f m)" if "all_settled m"
    using that by (auto simp: all_settled_def settled_def get bak)
  show "no_backups (hm_remove f m)" if "no_backups m"
    using that by (auto simp: no_backups_def bak)
  show "all_whole (hm_remove f m)" if "all_whole m"
    using that unfolding all_whole_def by (metis get)
qed

lemma rewrite_temp_aside: "is_rewrite_temp f \<Longrightarrow> aside f"
  by (auto simp: is_rewrite_temp_def bind_eq_Some_conv strip_suffix_Some split: option.splits)

lemma clean_artifacts_runs:
  "runs (\<lambda>m. plain m \<and> same_content m0 m \<and> all_settled m \<and> (b \<longrightarrow> no_backups m)) (clean_artifacts names)
     (\<lambda>_ m. plain m \<and> same_content m0 m \<and> all_settled m \<and> (b \<longrightarrow> no_backups m)) (\<lambda>m. plain m \<and> same_content m0 m)"
proof (induction names)
  case Nil
  then show ?case by (auto intro: runs_return)
next
  case (Cons f names)
  let ?P = "\<lambda>m. plain m \<and> same_content m0 m \<and> all_settled m \<and> (b \<longrightarrow> no_backups m)"
  let ?I = "\<lambda>m. plain m \<and> same_content m0 m"
  have rm: "runs (\<lambda>m. ?P m \<and> (aside f \<or> (\<exists>n. is_storage_name n \<and> f = backup_path n \<and> hm_get m n \<noteq> None)))
      (io_ignore (fs_remove f)) (\<lambda>_. ?P) ?I"
    unfolding fs_remove_def
  proof (rule runs_ignore_call)
    fix m a m'
    assume m: "?P m \<and> (aside f \<or> (\<exists>n. is_storage_name n \<and> f = backup_path n \<and> hm_get m n \<noteq> None))"
      and "(case hm_get m f of None \<Rightarrow> Inl NotFound | Some _ \<Rightarrow> Inr ((), hm_remove f m)) = Inr (a, m')"
    then have "m' = hm_remove f m" by (auto split: option.splits)
    then show "?P m'" using m spare_view [of f m] same_trans by blast
  qed auto
  have "runs ?P
      (case strip_suffix ''.bak'' f of
         Some original \<Rightarrow> io_bind (io_exists original) (\<lambda>there.
           io_when (is_storage_name original \<and> there) (io_ignore (fs_remove f)))
       | None \<Rightarrow> io_when (is_rewrite_temp f) (io_ignore (fs_remove f))) (\<lambda>_. ?P) ?I"
  proof (cases "strip_suffix ''.bak'' f")
    case None
    then show ?thesis
      using runs_pre [OF rm] rewrite_temp_aside by (auto intro!: runs_when)
  next
    case (Some n)
    then have f: "f = backup_path n" by (simp add: strip_bak)
    show ?thesis
      unfolding Some option.case
      by (rule runs_bind_exists, rule runs_when, rule runs_pre [OF rm]) (auto simp: f)
  qed
  then show ?case unfolding clean_artifacts.simps by (rule runs_then [OF _ Cons])
qed

lemma recover_runs:
  "runs (\<lambda>m. m = m0 \<and> plain m0) recover_rewrite_artifacts
     (\<lambda>_ m. plain m \<and> same_content m0 m \<and> all_settled m \<and> (no_backups m0 \<longrightarrow> no_backups m))
     (\<lambda>m. plain m \<and> same_content m0 m)"
proof -
  let ?B = "if no_backups m0 then {} else UNIV"
  have read: "runs (\<lambda>m. m = m0 \<and> plain m0) fs_read_dir (\<lambda>names m. (m = m0 \<and> plain m0) \<and> names = map fst m0)
      (\<lambda>m. plain m \<and> same_content m0 m)"
    unfolding fs_read_dir_def by (rule runs_call) auto
  have restore: "runs (\<lambda>m. (m = m0 \<and> plain m0) \<and> names = map fst m0) (restore_backups (sort names))
      (\<lambda>_ m. plain m \<and> same_content m0 m \<and> all_settled m \<and> (no_backups m0 \<longrightarrow> no_backups m)) (\<lambda>m. plain m \<and> same_content m0 m)" for names
  proof (rule runs_pre [OF runs_post [OF restore_backups_runs [of m0 "sort names" ?B]]])
    fix m assume m: "(m = m0 \<and> plain m0) \<and> names = map fst m0"
    have "settled n m0 \<or> backup_path n \<in> set (sort names)" for n
      using m by (cases "hm_get m0 (backup_path n)") (auto simp: settled_def dest: hm_get_SomeD intro: rev_image_eqI)
    then show "plain m \<and> same_content m0 m \<and> (\<forall>n. is_storage_name n \<longrightarrow> settled n m \<or> backup_path n \<in> set (sort names))
        \<and> (\<forall>n. is_storage_name n \<and> hm_get m (backup_path n) \<noteq> None \<longrightarrow> backup_path n \<in> ?B)"
      using m by (auto simp: no_backups_def)
  qed (auto simp: no_backups_def split: if_splits)
  show ?thesis
    unfolding recover_rewrite_artifacts_def Let_def
    by (rule runs_bind [OF read], rule runs_then [OF restore], rule clean_artifacts_runs)
qed

text \<open>When no call fails, no backup is left beside its file.\<close>

lemma io_bind_Done: "io_bind m f d = (Done a, d') \<longleftrightarrow> (\<exists>b d1. m d = (Done b, d1) \<and> f b d1 = (Done a, d'))"
  by (auto simp: io_bind_def split: prod.splits outcome.splits)

lemma io_then_Done: "io_then m n d = (Done a, d') \<longleftrightarrow> (\<exists>b d1. m d = (Done b, d1) \<and> n d1 = (Done a, d'))"
  by (simp add: io_then_def io_bind_Done)

lemma ignore_remove_no_fails:
  assumes "io_ignore (fs_remove f) d = (Done a, d')" "no_fails d"
  shows "no_fails d'" "hm_get (dk_files d') x = (if x = f then None else hm_get (dk_files d) x)"
proof -
  obtain r d1 where call: "fs_remove f d = (r, d1)" by fastforce
  then have d': "d' = d1" using assms by (cases r) (auto simp: io_ignore_def io_catch_def io_return_def)
  show "no_fails d'" unfolding d' by (rule fs_call_no_fails [OF call [unfolded fs_remove_def] assms(2)])
  show "hm_get (dk_files d') x = (if x = f then None else hm_get (dk_files d) x)"
    using call [unfolded fs_remove_def]
  proof (cases rule: fs_call_cases)
    case (ok a m)
    then have "dk_files d1 = hm_remove f (dk_files d)" by (auto split: option.splits)
    then show ?thesis by (simp add: d' hm_simps)
  next
    case no
    then obtain k where "r = Failed k"
      using call assms(1) by (cases r) (auto simp: io_ignore_def io_catch_def)
    then have "hm_get (dk_files d) f = None"
      using fs_call_failed [OF call [unfolded fs_remove_def \<open>r = Failed k\<close>] assms(2)] by (auto split: option.splits)
    then show ?thesis using no by (simp add: d')
  qed
qed

lemma restore_backups_no_fails: "restore_backups names d = (Done a, d') \<Longrightarrow> no_fails d \<Longrightarrow> no_fails d'"
proof (induction names arbitrary: d)
  case (Cons f names)
  have step: "no_fails d1" if "io_bind (io_exists original) (\<lambda>there. io_when (\<not> there) (fs_rename f original)) d = (Done b, d1)"
    for original b d1
    using that Cons.prems(2) fs_call_no_fails [of _ d "Done b" d1]
    by (auto simp: io_bind_Done io_exists_def io_when_def io_return_def fs_rename_def split: if_splits)
  show ?case
    using Cons step by (auto simp: io_then_Done io_return_def split: option.splits if_splits)
qed (auto simp: io_return_def)

lemma clean_artifacts_tidy:
  "clean_artifacts names d = (Done a, d') \<Longrightarrow> no_fails d \<Longrightarrow>
     (\<And>n. is_storage_name n \<Longrightarrow> hm_get (dk_files d) (backup_path n) \<noteq> None \<Longrightarrow>
        hm_get (dk_files d) n \<noteq> None \<and> backup_path n \<in> set names) \<Longrightarrow> no_backups (dk_files d')"
proof (induction names arbitrary: d)
  case Nil
  have "hm_get (dk_files d) (backup_path n) = None" if "is_storage_name n" for n
    using Nil(3) [OF that] by (cases "hm_get (dk_files d) (backup_path n)") auto
  then show ?case using Nil(1) by (simp add: no_backups_def io_return_def)
next
  case (Cons f names)
  from Cons.prems(1) obtain b d1 where
    step: "(case strip_suffix ''.bak'' f of
         Some original \<Rightarrow> io_bind (io_exists original) (\<lambda>there.
           io_when (is_storage_name original \<and> there) (io_ignore (fs_remove f)))
       | None \<Rightarrow> io_when (is_rewrite_temp f) (io_ignore (fs_remove f))) d = (Done b, d1)"
    and rest: "clean_artifacts names d1 = (Done a, d')"
    by (auto simp: io_then_Done)
  have effect: "no_fails d1 \<and> (\<forall>x. x \<noteq> f \<longrightarrow> hm_get (dk_files d1) x = hm_get (dk_files d) x)
      \<and> (\<forall>n. is_storage_name n \<and> f = backup_path n \<longrightarrow> hm_get (dk_files d1) f = None)
      \<and> (is_storage_name f \<longrightarrow> hm_get (dk_files d1) f = hm_get (dk_files d) f)"
  proof (cases "strip_suffix ''.bak'' f")
    case None
    have "\<not> is_storage_name f" if "is_rewrite_temp f" using rewrite_temp_aside [OF that] by (simp add: aside_def)
    then show ?thesis
      using step None strip_bak_None [OF None] Cons.prems(2) ignore_remove_no_fails [of f d b d1]
      by (cases "is_rewrite_temp f") (auto simp: io_when_def io_return_def)
  next
    case (Some n)
    then have f: "f = backup_path n" by (simp add: strip_bak)
    have "hm_get (dk_files d) f = None" if "is_storage_name n" "\<not> fs_exists n d"
      using that Cons.prems(3) [of n] by (cases "hm_get (dk_files d) f") (auto simp: f fs_exists_def)
    moreover have "\<not> is_storage_name f" using f not_storage_names(1) by (simp add: backup_path_def)
    ultimately show ?thesis
      using step Some Cons.prems(2) ignore_remove_no_fails [of f d b d1]
      by (cases "is_storage_name n \<and> fs_exists n d")
         (auto simp: f io_bind_Done io_exists_def io_when_def io_return_def fs_exists_def backup_path_def)
  qed
  show ?case
  proof (rule Cons.IH [OF rest])
    show "no_fails d1" using effect by simp
    fix n assume n: "is_storage_name n" "hm_get (dk_files d1) (backup_path n) \<noteq> None"
    then have "f \<noteq> backup_path n" using effect by auto
    then have "hm_get (dk_files d) (backup_path n) \<noteq> None" using n effect by metis
    then have "hm_get (dk_files d) n \<noteq> None \<and> backup_path n \<in> set (f # names)" using Cons.prems(3) n(1) by blast
    then show "hm_get (dk_files d1) n \<noteq> None \<and> backup_path n \<in> set names"
      using \<open>f \<noteq> backup_path n\<close> effect n(1) by (cases "f = n") auto
  qed
qed

definition tidy :: "disk \<Rightarrow> bool" where
  "tidy d \<longleftrightarrow> no_backups (dk_files d) \<or> no_fails d"

lemma fs_read_dir_Done:
  assumes "fs_read_dir d = (Done names, d1)"
  shows "names = map fst (dk_files d) \<and> dk_files d1 = dk_files d"
  using assms [unfolded fs_read_dir_def]
proof (cases rule: fs_call_cases)
  case (ok a m)
  then show ?thesis by auto
next
  case no
  then show ?thesis using no(2) [of names] by simp
qed

lemma recover_tidy:
  assumes run: "recover_rewrite_artifacts d = (Done a, d')" and "plain (dk_files d)" "tidy d"
  shows "no_backups (dk_files d')"
proof (cases "no_backups (dk_files d)")
  case True
  have "dk_files d = dk_files d \<and> plain (dk_files d)" using assms(2) by simp
  from runsD [OF recover_runs this run] show ?thesis using True by simp
next
  case False
  then have calm: "no_fails d" using assms(3) by (simp add: tidy_def)
  obtain names d1 b d2 where read: "fs_read_dir d = (Done names, d1)"
    and restore: "restore_backups (sort names) d1 = (Done b, d2)" and clean: "clean_artifacts (sort names) d2 = (Done a, d')"
    using run unfolding recover_rewrite_artifacts_def Let_def io_bind_Done io_then_Done by blast
  have names: "names = map fst (dk_files d)" "dk_files d1 = dk_files d"
    using fs_read_dir_Done [OF read] by simp_all
  have "no_fails d1" by (rule fs_call_no_fails [OF read [unfolded fs_read_dir_def] calm])
  then have calm2: "no_fails d2" by (rule restore_backups_no_fails [OF restore])
  have known: "backup_path n \<in> set names" if "hm_get (dk_files d1) (backup_path n) \<noteq> None" for n
  proof -
    obtain c where "hm_get (dk_files d) (backup_path n) = Some c" using \<open>_ \<noteq> None\<close> names(2) by auto
    then have "(backup_path n, c) \<in> set (dk_files d)" by (rule hm_get_SomeD)
    then show ?thesis unfolding names(1) by force
  qed
  have "plain (dk_files d1) \<and> same_content (dk_files d) (dk_files d1)
      \<and> (\<forall>n. is_storage_name n \<longrightarrow> settled n (dk_files d1) \<or> backup_path n \<in> set (sort names))
      \<and> (\<forall>n. is_storage_name n \<and> hm_get (dk_files d1) (backup_path n) \<noteq> None \<longrightarrow> backup_path n \<in> set names)"
    using assms(2) names(2) known unfolding settled_def set_sort by (metis same_refl)
  then have pre: "plain (dk_files d1) \<and> same_content (dk_files d) (dk_files d1)
      \<and> (\<forall>n. is_storage_name n \<longrightarrow> settled n (dk_files d1) \<or> backup_path n \<in> set (sort names))
      \<and> (\<forall>n. is_storage_name n \<and> hm_get (dk_files d1) (backup_path n) \<noteq> None \<longrightarrow> backup_path n \<in> set names)" by simp
  from runsD [OF restore_backups_runs pre restore]
  have after: "all_settled (dk_files d2)" "\<And>n. is_storage_name n \<Longrightarrow> hm_get (dk_files d2) (backup_path n) \<noteq> None \<Longrightarrow> backup_path n \<in> set (sort names)"
    by simp_all
  show ?thesis
  proof (rule clean_artifacts_tidy [OF clean calm2])
    fix n assume n: "is_storage_name n" "hm_get (dk_files d2) (backup_path n) \<noteq> None"
    then show "hm_get (dk_files d2) n \<noteq> None \<and> backup_path n \<in> set (sort names)"
      using after(1) after(2) [OF n] unfolding all_settled_def settled_def by metis
  qed
qed

section \<open>Cutting and removing\<close>

text \<open>One file of a day gets another content, which shows some of its rows.\<close>

lemma replace_view:
  assumes n: "is_storage_name n" "hm_get m n = Some c" and t: "carriage_return \<notin> set t" "subseq (split_lines [] t) (split_lines [] c)"
  defines "m' \<equiv> hm_insert n t m"
  shows "shrunk m m'" "plain m \<Longrightarrow> plain m'" "all_settled m \<Longrightarrow> all_settled m'" "no_backups m \<Longrightarrow> no_backups m'"
proof -
  have get: "hm_get m' k = (if k = n then Some t else hm_get m k)" "hm_get m' (backup_path k) = hm_get m (backup_path k)"
    if "is_storage_name k" for k
    using storage_names_differ(2) [OF n(1) that] by (auto simp: m'_def hm_simps)
  show "shrunk m m'"
    unfolding shrunk_def disk_rows_def stored_def using t n by (auto simp: get split: option.split)
  show "plain m'" if "plain m"
    using that t(1) unfolding plain_def by (auto simp: get split: if_splits) (auto simp: m'_def)
  show "all_settled m \<Longrightarrow> all_settled m'" "no_backups m \<Longrightarrow> no_backups m'"
    by (auto simp: all_settled_def settled_def no_backups_def get)
qed

text \<open>A file without a backup is removed.\<close>

lemma remove_view:
  assumes n: "is_storage_name n" "hm_get m (backup_path n) = None"
  defines "m' \<equiv> hm_remove n m"
  shows "shrunk m m'" "plain m \<Longrightarrow> plain m'" "all_settled m \<Longrightarrow> all_settled m'" "no_backups m \<Longrightarrow> no_backups m'"
    "all_whole m \<Longrightarrow> all_whole m'"
proof -
  have get: "hm_get m' k = (if k = n then None else hm_get m k)" "hm_get m' (backup_path k) = hm_get m (backup_path k)"
    if "is_storage_name k" for k
    using storage_names_differ(2) [OF n(1) that] by (auto simp: m'_def hm_simps)
  show "shrunk m m'"
    unfolding shrunk_def disk_rows_def stored_def using n by (auto simp: get split: option.split)
  show "plain m'" if "plain m"
    using that unfolding plain_def by (auto simp: get split: if_splits) (auto simp: m'_def)
  show "all_settled m \<Longrightarrow> all_settled m'" "no_backups m \<Longrightarrow> no_backups m'" "all_whole m \<Longrightarrow> all_whole m'"
    using n by (auto simp: all_settled_def settled_def no_backups_def all_whole_def get split: if_splits) blast
qed

text \<open>The entries of a directory are its files of days, each once.\<close>

lemma insert_by_set: "set (insert_by cmp x ys) = insert x (set ys)"
  by (induction ys) auto

lemma insert_by_mset: "mset (insert_by cmp x ys) = add_mset x (mset ys)"
  by (induction ys) auto

lemma sort_by_mset: "mset (sort_by cmp xs) = mset xs"
  by (induction xs) (simp_all add: sort_by_def insert_by_mset)

definition listed :: "files \<Rightarrow> storage_entry \<Rightarrow> bool" where
  "listed m e \<longleftrightarrow> (case e of (_, n, b) \<Rightarrow> is_storage_name n \<and> map_option length (hm_get m n) = Some b)"

definition entry_name :: "storage_entry \<Rightarrow> string" where
  "entry_name e = fst (snd e)"

lemma storage_entries_ok:
  assumes "hm_ok m"
  shows "list_all (listed m) (storage_entries m)" "distinct (map entry_name (storage_entries m))"
    "entry_name ` set (storage_entries m) = {n. is_storage_name n \<and> hm_get m n \<noteq> None}"
proof -
  let ?f = "\<lambda>(file_name, content). map_option (\<lambda>day. (day, file_name, length content)) (parse_storage_file_name file_name)"
  let ?es = "List.map_filter ?f m"
  have same: "mset (storage_entries m) = mset ?es" by (simp add: storage_entries_def sort_by_mset)
  then have set: "set (storage_entries m) = set ?es" by (rule mset_eq_setD)
  have es: "(d, n, b) \<in> set (List.map_filter ?f xs) \<longleftrightarrow> parse_storage_file_name n = Some d \<and> (\<exists>c. (n, c) \<in> set xs \<and> b = length c)"
    for d n b xs
    by (induction xs) (auto split: option.splits)
  show "list_all (listed m) (storage_entries m)"
    using assms by (auto simp: list_all_iff set es listed_def is_storage_name_def hm_get_eq_Some intro: exI)
  show "entry_name ` set (storage_entries m) = {n. is_storage_name n \<and> hm_get m n \<noteq> None}" (is "?A = ?B")
  proof
    show "?A \<subseteq> ?B"
    proof
      fix n assume "n \<in> ?A"
      then obtain d b where "(d, n, b) \<in> set ?es" by (auto simp: set entry_name_def)
      then show "n \<in> ?B" using assms by (auto simp: es is_storage_name_def hm_get_eq_Some intro: exI)
    qed
    show "?B \<subseteq> ?A"
    proof
      fix n assume "n \<in> ?B"
      then obtain d c where "parse_storage_file_name n = Some d" "(n, c) \<in> set m"
        by (auto simp: is_storage_name_def dest: hm_get_SomeD)
      then have "(d, n, length c) \<in> set ?es" by (auto simp: es)
      then show "n \<in> ?A" unfolding set entry_name_def by force
    qed
  qed
  have names: "map entry_name (List.map_filter ?f xs) = filter is_storage_name (map fst xs)" for xs
    by (induction xs) (auto simp: entry_name_def is_storage_name_def split: option.splits)
  have d: "distinct (map entry_name ?es)" unfolding names using assms by (simp add: hm_ok_def)
  have p: "mset (map entry_name (storage_entries m)) = mset (map entry_name ?es)" unfolding mset_map same ..
  show "distinct (map entry_name (storage_entries m))" by (rule iffD2 [OF mset_eq_imp_distinct_iff [OF p] d])
qed

lemma runs_entries:
  "(\<And>m. P m \<Longrightarrow> I m) \<Longrightarrow> runs P storage_files (\<lambda>es m. P m \<and> es = storage_entries m) I"
  unfolding storage_files_def by (rule runs_call) auto

definition whole_but :: "string set \<Rightarrow> files \<Rightarrow> bool" where
  "whole_but N m \<longleftrightarrow> (\<forall>n c. is_storage_name n \<and> n \<notin> N \<and> hm_get m n = Some c \<longrightarrow> c = [] \<or> last c = newline)"

lemma whole_but_drop:
  "whole_but (insert n N) m \<Longrightarrow> hm_get m n = Some c \<Longrightarrow> c = [] \<or> last c = newline \<Longrightarrow> whole_but N m"
  unfolding whole_but_def by (metis insert_iff option.inject)

lemma whole_but_cut:
  "whole_but (insert n N) m \<Longrightarrow> c = [] \<or> last c = newline \<Longrightarrow> whole_but N (hm_insert n c m)"
  unfolding whole_but_def hm_get_insert by (metis insert_iff option.inject)

lemma listed_insert: "listed m e \<Longrightarrow> entry_name e \<noteq> n \<Longrightarrow> listed (hm_insert n c m) e"
  by (auto simp: listed_def entry_name_def hm_simps split: prod.splits)

lemma listed_remove: "listed m e \<Longrightarrow> entry_name e \<noteq> n \<Longrightarrow> listed (hm_remove n m) e"
  by (auto simp: listed_def entry_name_def hm_simps split: prod.splits)

lemma cut_tails_runs:
  "runs (\<lambda>m. kept m0 m \<and> all_settled m \<and> (b \<longrightarrow> no_backups m) \<and> whole_but (entry_name ` set es) m
       \<and> list_all (listed m) es \<and> distinct (map entry_name es))
     (cut_tails es) (\<lambda>_ m. kept m0 m \<and> all_settled m \<and> (b \<longrightarrow> no_backups m) \<and> all_whole m) (kept m0)"
proof (induction es)
  case Nil
  then show ?case by (auto simp: all_whole_def whole_but_def intro: runs_return)
next
  case (Cons e es)
  obtain d n k where e: "e = (d, n, k)" by (cases e)
  let ?P = "\<lambda>es m. kept m0 m \<and> all_settled m \<and> (b \<longrightarrow> no_backups m) \<and> whole_but (entry_name ` set es) m
       \<and> list_all (listed m) es \<and> distinct (map entry_name es)"
  have P: "?P (e # es) m \<Longrightarrow> is_storage_name n \<and> whole_but (insert n (entry_name ` set es)) m \<and> map_option length (hm_get m n) = Some k
      \<and> n \<notin> entry_name ` set es \<and> list_all (listed m) es" for m
    by (simp add: e entry_name_def listed_def)
  have drop: "?P es m" if "?P (e # es) m" "hm_get m n = Some c" "c = [] \<or> last c = newline" for m c
    using that P [OF that(1)] whole_but_drop [of n _ m c] by simp
  have cut: "runs (\<lambda>m. ?P (e # es) m \<and> hm_get m n = Some c) (fs_set_len n (length (whole_lines c))) (\<lambda>_. ?P es) (kept m0)" for c
    unfolding fs_set_len_def
  proof (rule runs_call)
    fix m a m'
    assume m: "?P (e # es) m \<and> hm_get m n = Some c"
      and "(case hm_get m n of None \<Rightarrow> Inl NotFound | Some s \<Rightarrow> Inr ((), hm_insert n (take (length (whole_lines c)) s) m)) = Inr (a, m')"
    then have m': "m' = hm_insert n (whole_lines c) m" by (auto simp: whole_lines_take)
    have n: "is_storage_name n" "n \<notin> entry_name ` set es" using P m by blast+
    have plain: "plain m" using m by (simp add: kept_def)
    then have "carriage_return \<notin> set (whole_lines c)"
      using m n by (auto simp: plain_def whole_lines_def dest: set_dropWhileD)
    note view = replace_view [OF n(1) _ this whole_lines_rows, of m, folded m']
    have "whole_lines c = [] \<or> last (whole_lines c) = newline"
      unfolding whole_lines_def using hd_dropWhile [of "\<lambda>c. c \<noteq> newline" "rev c"] by (auto simp: last_rev)
    moreover have "whole_but (insert n (entry_name ` set es)) m" using P m by blast
    ultimately have "whole_but (entry_name ` set es) m'" unfolding m' by (intro whole_but_cut)
    moreover have "list_all (listed m') es"
      using P [of m] m n unfolding m' by (auto simp: list_all_iff image_iff intro!: listed_insert)
    moreover have "kept m0 m'" using m view plain shrunk_trans [of m0 m m'] by (simp add: kept_def)
    ultimately show "?P es m'" using m view by simp
  qed (simp add: kept_def)
  have "runs (?P (e # es)) (if k = 0 then io_return ()
      else io_bind (fs_read n) (\<lambda>content. if content \<noteq> [] \<and> last content = newline then io_return ()
        else io_then (fs_set_len n (length (whole_lines content))) fs_sync)) (\<lambda>_. ?P es) (kept m0)"
  proof (cases "k = 0")
    case True
    have "?P es m" if m: "?P (e # es) m" for m
    proof -
      have "hm_get m n = Some []" using P [OF m] True by auto
      then show ?thesis using drop [OF m] by blast
    qed
    then have "runs (?P (e # es)) (io_return ()) (\<lambda>_. ?P es) (kept m0)" by (rule runs_return)
    then show ?thesis using True by simp
  next
    case False
    have "runs (\<lambda>m. ?P (e # es) m \<and> hm_get m n = Some c)
        (if c \<noteq> [] \<and> last c = newline then io_return () else io_then (fs_set_len n (length (whole_lines c))) fs_sync)
        (\<lambda>_. ?P es) (kept m0)" for c
    proof (cases "c \<noteq> [] \<and> last c = newline")
      case True
      have "runs (\<lambda>m. ?P (e # es) m \<and> hm_get m n = Some c) (io_return ()) (\<lambda>_. ?P es) (kept m0)"
        by (rule runs_return) (use drop True in blast)
      then show ?thesis using True by simp
    next
      case False
      have "runs (?P es) fs_sync (\<lambda>_. ?P es) (kept m0)" unfolding fs_sync_def by (rule runs_call) auto
      then show ?thesis unfolding if_not_P [OF False] by (rule runs_then [OF cut])
    qed
    note rest = this
    have "runs (?P (e # es)) (fs_read n) (\<lambda>c m. ?P (e # es) m \<and> hm_get m n = Some c) (kept m0)" by (rule runs_read) simp
    from runs_bind [OF this rest] show ?thesis using False by simp
  qed
  from runs_then [OF this Cons] show ?case unfolding e cut_tails.simps truncate_at_end .
qed

end
