(* ===== verification/DiagnosticRoom.thy ===== *)
theory DiagnosticRoom
  imports DiagnosticView
begin

text \<open>
  Pruning the files of the diagnostics: what is left, how many bytes it has, and that nothing but rows is lost
  wherever it stops.
\<close>

section \<open>Bytes\<close>

definition size_of :: "files \<Rightarrow> string \<Rightarrow> nat" where
  "size_of m n = (case hm_get m n of None \<Rightarrow> 0 | Some c \<Rightarrow> length c)"

definition total_size :: "files \<Rightarrow> nat" where
  "total_size m = sum (size_of m) {n. is_storage_name n \<and> hm_get m n \<noteq> None}"

lemma finite_names: "finite {n. P n \<and> hm_get m n \<noteq> None}"
  by (rule finite_subset [of _ "fst ` set m"]) (auto dest!: hm_get_SomeD intro: rev_image_eqI)

lemma total_change:
  assumes n: "is_storage_name n" and same: "\<And>k. is_storage_name k \<Longrightarrow> k \<noteq> n \<Longrightarrow> hm_get m' k = hm_get m k"
  shows "total_size m' + size_of m n = total_size m + size_of m' n"
proof -
  let ?A = "{k. (is_storage_name k \<and> k \<noteq> n) \<and> hm_get m k \<noteq> None}"
  have split: "total_size x = sum (size_of x) ?A + size_of x n" if "\<And>k. is_storage_name k \<Longrightarrow> k \<noteq> n \<Longrightarrow> hm_get x k = hm_get m k" for x
  proof (cases "hm_get x n")
    case None
    then have "{k. is_storage_name k \<and> hm_get x k \<noteq> None} = ?A" using that by (intro Collect_cong) metis
    then show ?thesis using None by (simp add: total_size_def size_of_def)
  next
    case (Some c)
    then have "{k. is_storage_name k \<and> hm_get x k \<noteq> None} = insert n ?A" using that n by auto
    moreover have "n \<notin> ?A" by simp
    ultimately show ?thesis using finite_names [of "\<lambda>k. is_storage_name k \<and> k \<noteq> n" m] by (simp add: total_size_def add.commute)
  qed
  have "sum (size_of m') ?A = sum (size_of m) ?A"
    by (rule sum.cong) (auto simp: size_of_def same)
  then show ?thesis using split [of m] split [of m'] same by simp
qed

lemma total_same: "(\<And>k. is_storage_name k \<Longrightarrow> hm_get m' k = hm_get m k) \<Longrightarrow> total_size m' = total_size m"
  unfolding total_size_def size_of_def by (intro sum.cong) auto

lemma total_entries:
  assumes "hm_ok m"
  shows "total_bytes (storage_entries m) = total_size m"
proof -
  let ?es = "storage_entries m"
  have "total_size m = sum (size_of m) (set (map entry_name ?es))"
    unfolding total_size_def set_map storage_entries_ok(3) [OF assms] ..
  also have "\<dots> = sum_list (map (size_of m) (map entry_name ?es))"
    by (rule sum.distinct_set_conv_list [OF storage_entries_ok(2) [OF assms]])
  also have "\<dots> = total_bytes ?es"
    unfolding total_bytes_def map_map
    using storage_entries_ok(1) [OF assms]
    by (intro arg_cong [where f = sum_list] map_cong) (fastforce simp: list_all_iff listed_def entry_name_def size_of_def split: prod.splits)+
  finally show ?thesis by simp
qed

lemma listed_size: "listed m (d, n, b) \<Longrightarrow> is_storage_name n \<and> (\<exists>c. hm_get m n = Some c \<and> length c = b) \<and> size_of m n = b"
  by (auto simp: listed_def size_of_def)

section \<open>Removing files\<close>

definition sound :: "files \<Rightarrow> files \<Rightarrow> bool" where
  "sound m0 m \<longleftrightarrow> kept m0 m \<and> all_settled m \<and> all_whole m"

lemma remove_file_runs:
  assumes n: "is_storage_name n"
  shows "runs (\<lambda>m. sound m0 m \<and> hm_get m (backup_path n) = None \<and> no_backups m \<and> size_of m n = b \<and> hm_get m n \<noteq> None
       \<and> total_size m = T \<and> list_all (listed m) es \<and> n \<notin> entry_name ` set es)
     (fs_remove n) (\<lambda>_ m. sound m0 m \<and> no_backups m \<and> total_size m + b = T \<and> list_all (listed m) es) (kept m0)"
  unfolding fs_remove_def
proof (rule runs_call)
  fix m a m'
  assume m: "sound m0 m \<and> hm_get m (backup_path n) = None \<and> no_backups m \<and> size_of m n = b \<and> hm_get m n \<noteq> None
       \<and> total_size m = T \<and> list_all (listed m) es \<and> n \<notin> entry_name ` set es"
    and "(case hm_get m n of None \<Rightarrow> Inl NotFound | Some _ \<Rightarrow> Inr ((), hm_remove n m)) = Inr (a, m')"
  then have m': "m' = hm_remove n m" by (auto split: option.splits)
  have bak: "hm_get m (backup_path n) = None" using m by simp
  note view = remove_view [OF n bak, folded m']
  have "total_size m' + size_of m n = total_size m + size_of m' n"
    by (rule total_change [OF n]) (simp add: m' hm_simps)
  then have "total_size m' + b = T" using m by (simp add: m' size_of_def hm_simps)
  moreover have "list_all (listed m') es"
    using m by (auto simp: list_all_iff m' image_iff intro: listed_remove)
  ultimately show "sound m0 m' \<and> no_backups m' \<and> total_size m' + b = T \<and> list_all (listed m') es"
    using m view shrunk_trans [of m0 m m'] by (simp add: sound_def kept_def)
qed (simp add: sound_def)

text \<open>\<open>fr\<close> are entries that were passed over before.\<close>

lemma remove_old_runs:
  "runs (\<lambda>m. sound m0 m \<and> no_backups m \<and> total_size m = T \<and> list_all (listed m) (fr @ es) \<and> distinct (map entry_name (fr @ es))
       \<and> (r \<longrightarrow> same_content m0 m))
     (remove_old cutoff es)
     (\<lambda>(left, removed) m. sound m0 m \<and> no_backups m \<and> total_size m + total_bytes removed = T
       \<and> list_all (listed m) (fr @ left) \<and> distinct (map entry_name (fr @ left)) \<and> (r \<and> removed = [] \<longrightarrow> same_content m0 m))
     (kept m0)"
proof (induction es arbitrary: fr T r)
  case Nil
  then show ?case by (auto simp: total_bytes_def intro: runs_return)
next
  case (Cons e es)
  obtain d n b where e: "e = (d, n, b)" by (cases e)
  let ?P = "\<lambda>m. sound m0 m \<and> no_backups m \<and> total_size m = T \<and> list_all (listed m) (fr @ e # es)
     \<and> distinct (map entry_name (fr @ e # es)) \<and> (r \<longrightarrow> same_content m0 m)"
  let ?Q = "\<lambda>(left, removed) m. sound m0 m \<and> no_backups m \<and> total_size m + total_bytes removed = T
       \<and> list_all (listed m) (fr @ left) \<and> distinct (map entry_name (fr @ left)) \<and> (r \<and> removed = [] \<longrightarrow> same_content m0 m)"
  show ?case
  proof (cases "d < cutoff")
    case True
    let ?R = "\<lambda>m. sound m0 m \<and> no_backups m \<and> total_size m + b = T \<and> list_all (listed m) (fr @ es) \<and> distinct (map entry_name (fr @ es))"
    have rm: "runs ?P (fs_remove n) (\<lambda>_. ?R) (kept m0)"
    proof (cases "is_storage_name n \<and> distinct (map entry_name (fr @ e # es))")
      case True
      show ?thesis
        by (rule runs_pre [OF runs_post [OF remove_file_runs [OF conjunct1 [OF True], of m0 b T "fr @ es"]]])
          (use True in \<open>auto simp: e entry_name_def no_backups_def dest: listed_size\<close>)
    next
      case False
      then show ?thesis by (auto simp: runs_def e listed_def)
    qed
    have "runs ?R (remove_old cutoff es) (\<lambda>(left, removed). ?Q (left, e # removed)) (kept m0)"
    proof (cases "b \<le> T")
      case True
      show ?thesis
        by (rule runs_pre [OF runs_post [OF Cons [of "T - b" fr False]]])
          (use True in \<open>auto simp: e total_bytes_def\<close>)
    qed (auto simp: runs_def)
    then have "runs ?R (io_bind (remove_old cutoff es) (\<lambda>(left, removed). io_return (left, e # removed))) ?Q (kept m0)"
      by (rule runs_bind) (auto intro!: runs_return split: prod.splits)
    from runs_then [OF rm this] show ?thesis using True by (simp add: e)
  next
    case False
    have "runs ?P (remove_old cutoff es) (\<lambda>(left, removed). ?Q (e # left, removed)) (kept m0)"
      by (rule runs_pre [OF runs_post [OF Cons [of T "fr @ [e]" r]]]) auto
    then have "runs ?P (io_bind (remove_old cutoff es) (\<lambda>(left, removed). io_return (e # left, removed))) ?Q (kept m0)"
    proof (rule runs_bind)
      fix p show "runs ((\<lambda>(left, removed). ?Q (e # left, removed)) p) (case p of (left, removed) \<Rightarrow> io_return (e # left, removed)) ?Q (kept m0)"
        by (cases p, simp only: prod.case, rule runs_return) (simp_all add: sound_def)
    qed
    then show ?thesis using False by (simp add: e)
  qed
qed

lemma remove_over_runs:
  "runs (\<lambda>m. sound m0 m \<and> no_backups m \<and> total_size m = retained \<and> list_all (listed m) es \<and> distinct (map entry_name es))
     (remove_over maximum es retained)
     (\<lambda>(retained, removed) m. sound m0 m \<and> no_backups m \<and> total_size m = retained) (kept m0)"
proof (induction es arbitrary: retained)
  case Nil
  then show ?case by (auto intro: runs_return)
next
  case (Cons e es)
  obtain d n b where e: "e = (d, n, b)" by (cases e)
  let ?P = "\<lambda>m. sound m0 m \<and> no_backups m \<and> total_size m = retained \<and> list_all (listed m) (e # es) \<and> distinct (map entry_name (e # es))"
  let ?R = "\<lambda>m. sound m0 m \<and> no_backups m \<and> total_size m = retained - b \<and> list_all (listed m) es \<and> distinct (map entry_name es)"
  have rm: "runs ?P (fs_remove n) (\<lambda>_. ?R) (kept m0)"
  proof (cases "is_storage_name n \<and> distinct (map entry_name (e # es))")
    case True
    show ?thesis
      by (rule runs_pre [OF runs_post [OF remove_file_runs [OF conjunct1 [OF True], of m0 b retained es]]])
        (use True in \<open>auto simp: e entry_name_def no_backups_def dest: listed_size\<close>)
  next
    case False
    then show ?thesis by (auto simp: runs_def e listed_def)
  qed
  have go: "runs ?R (io_bind (remove_over maximum es (retained - b)) (\<lambda>(retained, removed). io_return (retained, e # removed)))
      (\<lambda>(retained, removed) m. sound m0 m \<and> no_backups m \<and> total_size m = retained) (kept m0)"
    by (rule runs_bind [OF Cons]) (auto intro!: runs_return split: prod.splits)
  show ?case
    using runs_then [OF rm go] by (auto simp: e intro: runs_return)
qed

section \<open>Making room for a record\<close>

lemma drop_oldest_suffix: "\<exists>p. concat ls = p @ concat (drop_oldest d n ls)"
proof (induction d n ls rule: drop_oldest.induct)
  case (2 d n l ls)
  show ?case
  proof (cases "d < n")
    case True
    then obtain p where "concat ls = p @ concat (drop_oldest (d + length l) n ls)" using 2 by blast
    then have "concat (l # ls) = (l @ p) @ concat (drop_oldest d n (l # ls))" using True by simp
    then show ?thesis ..
  next
    case False
    then have "concat (l # ls) = [] @ concat (drop_oldest d n (l # ls))" by simp
    then show ?thesis ..
  qed
qed simp

lemma without_oldest_suffix: "\<exists>p. c = p @ without_oldest n c"
  using drop_oldest_suffix [of "split_inclusive [] c" 0 n] concat_split_inclusive [of "[]" c] by (simp add: without_oldest_def)

lemma without_oldest_whole: "c = [] \<or> last c = newline \<Longrightarrow> without_oldest n c = [] \<or> last (without_oldest n c) = newline"
  using without_oldest_suffix [of c n] by (cases "without_oldest n c = []") (auto, metis append_is_Nil_conv last_appendR)

text \<open>A rewritten file, seen in the directory.\<close>

lemma rewritten_sound:
  assumes m0: "sound ma m0" and path: "is_storage_name path" "hm_get m0 path = Some c" and t: "t = without_oldest n c"
    and m: "rewritten path c t m0 m" "hm_get m path = Some t"
  shows "sound ma m" "total_size m + (length c - length t) = total_size m0"
    "is_storage_name k \<Longrightarrow> k \<noteq> path \<Longrightarrow> hm_get m k = hm_get m0 k \<and> hm_get m (backup_path k) = hm_get m0 (backup_path k)"
proof -
  have m0': "plain m0" "all_settled m0" "all_whole m0" "shrunk ma m0" using m0 by (simp_all add: sound_def kept_def)
  have c: "carriage_return \<notin> set c" using m0'(1) path by (auto simp: plain_def)
  have stored: "stored path m0 = Some c" using path by (simp add: stored_def)
  note view = rewritten_view [OF m(1) path(1) stored m0'(1) without_oldest_view [OF c, of n, folded t]]
  have other: "hm_get m k = hm_get m0 k \<and> hm_get m (backup_path k) = hm_get m0 (backup_path k)"
    if "is_storage_name k" "k \<noteq> path" for k
    using m(1) that by (simp add: rewritten_def)
  then show "is_storage_name k \<Longrightarrow> k \<noteq> path \<Longrightarrow> hm_get m k = hm_get m0 k \<and> hm_get m (backup_path k) = hm_get m0 (backup_path k)" .
  have "settled k m" if "is_storage_name k" for k
    using other [OF that] m0'(2) that m(2) by (cases "k = path") (auto simp: settled_def all_settled_def)
  moreover have "x = [] \<or> last x = newline" if "is_storage_name k" "hm_get m k = Some x" for k x
    using other [OF that(1)] m0'(3) that m(2) path without_oldest_whole [of c n, folded t]
    by (cases "k = path") (auto simp: all_whole_def)
  ultimately show "sound ma m"
    using view shrunk_trans [OF m0'(4) view(2)] by (auto simp: sound_def kept_def all_settled_def all_whole_def)
  have "length t \<le> length c" using without_oldest_suffix [of c n] unfolding t by (metis le_add2 length_append)
  moreover have "total_size m + size_of m0 path = total_size m0 + size_of m path"
    by (rule total_change [OF path(1)]) (simp add: other)
  ultimately show "total_size m + (length c - length t) = total_size m0"
    using path(2) m(2) by (simp add: size_of_def)
qed

lemma kept_trans: "kept m1 m2 \<Longrightarrow> kept m2 m3 \<Longrightarrow> kept m1 m3"
  unfolding kept_def using shrunk_trans by blast

definition evicting :: "files \<Rightarrow> storage_entry list \<Rightarrow> nat \<Rightarrow> files \<Rightarrow> bool" where
  "evicting m0 es retained m \<longleftrightarrow> sound m0 m \<and> total_size m = retained \<and> list_all (listed m) es
     \<and> distinct (map entry_name es) \<and> (\<forall>e \<in> set es. hm_get m (backup_path (entry_name e)) = None)"

lemma evicting_remove:
  "runs (evicting m0 ((d, n, b) # es) retained) (fs_remove n) (\<lambda>_. evicting m0 es (retained - b)) (kept m0)"
  unfolding fs_remove_def
proof (rule runs_call)
  fix m a m'
  assume m: "evicting m0 ((d, n, b) # es) retained m"
    and "(case hm_get m n of None \<Rightarrow> Inl NotFound | Some _ \<Rightarrow> Inr ((), hm_remove n m)) = Inr (a, m')"
  then have m': "m' = hm_remove n m" by (auto split: option.splits)
  have n: "is_storage_name n" "hm_get m (backup_path n) = None" "size_of m n = b" "n \<notin> entry_name ` set es"
    using m by (auto simp: evicting_def entry_name_def dest: listed_size)
  note view = remove_view [OF n(1,2), folded m']
  have "total_size m' + size_of m n = total_size m + size_of m' n"
    by (rule total_change [OF n(1)]) (simp add: m' hm_simps)
  then have "total_size m' = retained - b" using m n(3) by (simp add: evicting_def m' size_of_def hm_simps)
  moreover have "list_all (listed m') es"
    using m n(4) by (auto simp: evicting_def list_all_iff m' image_iff intro: listed_remove)
  moreover have "hm_get m' (backup_path (entry_name e)) = None" if "e \<in> set es" for e
    using m that by (auto simp: evicting_def m' hm_simps)
  ultimately show "evicting m0 es (retained - b) m'"
    using m view shrunk_trans [of m0 m m'] by (simp add: evicting_def sound_def kept_def)
qed (simp add: evicting_def sound_def)

lemma evicting_rewrite:
  "runs (evicting m0 ((d, n, b) # es) retained) (rewrite_drop_oldest_bytes r n k)
     (\<lambda>freed. evicting m0 es (retained - freed)) (kept m0)"
proof (rule runs_each)
  fix m assume m: "evicting m0 ((d, n, b) # es) retained m"
  then obtain c where n: "is_storage_name n" "hm_get m n = Some c" "n \<notin> entry_name ` set es"
    by (auto simp: evicting_def entry_name_def listed_def)
  have sound: "sound m0 m" using m by (simp add: evicting_def)
  show "runs (\<lambda>x. x = m) (rewrite_drop_oldest_bytes r n k) (\<lambda>freed. evicting m0 es (retained - freed)) (kept m0)"
  proof (rule runs_post [OF rewrite_drop_runs [OF n(1,2) refl]])
    fix freed m'
    assume m': "rewritten n c (without_oldest k c) m m' \<and> hm_get m' n = Some (without_oldest k c)
      \<and> freed = length c - length (without_oldest k c)"
    note after = rewritten_sound [OF sound n(1,2) refl conjunct1 [OF m'] conjunct1 [OF conjunct2 [OF m']]]
    have "listed m' e \<and> hm_get m' (backup_path (entry_name e)) = None" if "e \<in> set es" for e
    proof -
      obtain d' n' b' where e: "e = (d', n', b')" by (cases e)
      have "n' \<noteq> n" using n(3) that e by (force simp: entry_name_def)
      moreover have "listed m e" "hm_get m (backup_path (entry_name e)) = None"
        using m that by (auto simp: evicting_def list_all_iff)
      ultimately show ?thesis using after(3) [of n'] by (simp add: listed_def entry_name_def e)
    qed
    then show "evicting m0 es (retained - freed) m'"
      using after(1,2) m m' by (auto simp: evicting_def list_all_iff)
  next
    fix m' assume "rewritten n c (without_oldest k c) m m'"
    moreover have "plain m" "carriage_return \<notin> set c" using sound n(1,2) by (auto simp: sound_def kept_def plain_def)
    ultimately have "plain m' \<and> shrunk m m'"
      using rewritten_view [of n c "without_oldest k c" m m'] n(1,2) without_oldest_view by (simp add: stored_def)
    then show "kept m0 m'" using sound shrunk_trans by (auto simp: sound_def kept_def)
  qed
qed

lemma evict_runs:
  "runs (\<lambda>m. evicting m0 es retained m \<and> (\<not> changed \<longrightarrow> same_content m0 m)) (evict random target es (retained, changed))
     (\<lambda>r m. case r of Inl _ \<Rightarrow> kept m0 m
        | Inr (retained, changed) \<Rightarrow> sound m0 m \<and> total_size m = retained \<and> (\<not> changed \<longrightarrow> same_content m0 m)) (kept m0)"
proof (induction es arbitrary: retained changed)
  case Nil
  then show ?case by (auto simp: evicting_def intro: runs_return)
next
  case (Cons e es)
  obtain d n b where e: "e = (d, n, b)" by (cases e)
  let ?Q = "\<lambda>r m. case r of Inl _ \<Rightarrow> kept m0 m
    | Inr (retained, changed) \<Rightarrow> sound m0 m \<and> total_size m = retained \<and> (\<not> changed \<longrightarrow> same_content m0 m)"
  have rest: "runs (evicting m0 es retained) (evict random target es (retained, True)) ?Q (kept m0)" for retained
    using Cons [of retained True] by simp
  have rm: "runs (evicting m0 ((d, n, b) # es) retained)
      (ck_bind (lifted (fs_remove n)) (\<lambda>_. evict random target es (retained - b, True))) ?Q (kept m0)"
    by (rule runs_ck_bind [OF runs_lifted [OF evicting_remove] rest]) simp
  have "runs (evicting m0 es (retained - freed))
      (if freed = 0 then io_return (Inl CapacityExceeded) else evict random target es (retained - freed, True)) ?Q (kept m0)" for freed
    by (cases "freed = 0") (auto intro!: runs_return simp: rest, simp add: evicting_def sound_def)
  then have cut: "runs (evicting m0 ((d, n, b) # es) retained)
      (ck_bind (lifted (rewrite_drop_oldest_bytes (random n) n (retained - target))) (\<lambda>freed.
         if freed = 0 then io_return (Inl CapacityExceeded) else evict random target es (retained - freed, True))) ?Q (kept m0)"
    by (intro runs_ck_bind [OF runs_lifted [OF evicting_rewrite]]) simp_all
  consider "retained \<le> target" | "\<not> retained \<le> target" "b \<le> retained - target" | "\<not> retained \<le> target" "\<not> b \<le> retained - target"
    by blast
  then show ?case
  proof cases
    case 1
    then show ?thesis by (simp add: e) (rule runs_return, simp add: evicting_def)
  next
    case 2
    have "runs (\<lambda>m. evicting m0 ((d, n, b) # es) retained m \<and> (\<not> changed \<longrightarrow> same_content m0 m))
      (ck_bind (lifted (fs_remove n)) (\<lambda>_. evict random target es (retained - b, True))) ?Q (kept m0)"
      by (rule runs_pre [OF rm]) simp
    then show ?thesis using 2 by (simp add: e)
  next
    case 3
    have "runs (\<lambda>m. evicting m0 ((d, n, b) # es) retained m \<and> (\<not> changed \<longrightarrow> same_content m0 m))
      (ck_bind (lifted (rewrite_drop_oldest_bytes (random n) n (retained - target))) (\<lambda>freed.
         if freed = 0 then io_return (Inl CapacityExceeded) else evict random target es (retained - freed, True))) ?Q (kept m0)"
      by (rule runs_pre [OF cut]) simp
    then show ?thesis using 3 by (simp add: e)
  qed
qed

text \<open>Both prunings, once the artifacts of rewrites are gone.\<close>

lemma entries_listed:
  assumes "sound m0 m"
  shows "list_all (listed m) (storage_entries m)" "distinct (map entry_name (storage_entries m))"
    "total_bytes (storage_entries m) = total_size m"
proof -
  have "hm_ok m" using assms by (simp add: sound_def kept_def plain_def)
  then show "list_all (listed m) (storage_entries m)" "distinct (map entry_name (storage_entries m))"
    "total_bytes (storage_entries m) = total_size m"
    using storage_entries_ok(1,2) total_entries by blast+
qed

lemma remove_old_entries:
  "runs (\<lambda>m. (sound m0 m \<and> no_backups m \<and> same_content m0 m) \<and> es = storage_entries m)
     (remove_old cutoff es)
     (\<lambda>(left, removed) m. sound m0 m \<and> no_backups m \<and> total_size m = total_bytes es - total_bytes removed
       \<and> list_all (listed m) left \<and> distinct (map entry_name left) \<and> (removed = [] \<longrightarrow> same_content m0 m)) (kept m0)"
  using entries_listed
  by (intro runs_pre [OF runs_post [OF remove_old_runs [of m0 "total_bytes es" "[]" es True cutoff]]]) auto

lemma make_room_runs:
  fixes policy :: retention_policy
  assumes "incoming \<le> rp_max_total_bytes policy"
  shows "runs (\<lambda>m. sound m0 m \<and> no_backups m \<and> same_content m0 m)
     (ck_bind (lifted storage_files) (\<lambda>entries.
        ck_bind (lifted (remove_old cutoff entries)) (\<lambda>(left, removed).
          let retained = total_bytes entries - total_bytes removed;
              maximum_existing_bytes = rp_max_total_bytes policy - incoming;
              headroom = min (rp_max_total_bytes policy div 10) MAX_CAP_EVICTION_HEADROOM_BYTES in
          ck_bind (if maximum_existing_bytes < retained
                   then evict random (maximum_existing_bytes - headroom) left (retained, removed \<noteq> [])
                   else io_return (Inr (retained, removed \<noteq> []))) (\<lambda>(retained, changed).
          if maximum_existing_bytes < retained then io_return (Inl CapacityExceeded)
          else io_return (Inr changed)))))
     (\<lambda>r m. case r of Inl _ \<Rightarrow> kept m0 m
        | Inr changed \<Rightarrow> sound m0 m \<and> (\<not> changed \<longrightarrow> same_content m0 m) \<and> total_size m + incoming \<le> rp_max_total_bytes policy)
     (kept m0)"
proof (rule runs_ck_bind [OF runs_lifted [OF runs_entries]], simp add: sound_def)
  let ?max = "rp_max_total_bytes policy - incoming"
  let ?Q = "\<lambda>r m. case r of Inl _ \<Rightarrow> kept m0 m
    | Inr (retained, changed) \<Rightarrow> sound m0 m \<and> total_size m = retained \<and> (\<not> changed \<longrightarrow> same_content m0 m)"
  fix es
  show "runs (\<lambda>m. (sound m0 m \<and> no_backups m \<and> same_content m0 m) \<and> es = storage_entries m)
     (ck_bind (lifted (remove_old cutoff es)) (\<lambda>(left, removed).
          let retained = total_bytes es - total_bytes removed;
              maximum_existing_bytes = ?max;
              headroom = min (rp_max_total_bytes policy div 10) MAX_CAP_EVICTION_HEADROOM_BYTES in
          ck_bind (if maximum_existing_bytes < retained
                   then evict random (maximum_existing_bytes - headroom) left (retained, removed \<noteq> [])
                   else io_return (Inr (retained, removed \<noteq> []))) (\<lambda>(retained, changed).
          if maximum_existing_bytes < retained then io_return (Inl CapacityExceeded)
          else io_return (Inr changed))))
     (\<lambda>r m. case r of Inl _ \<Rightarrow> kept m0 m
        | Inr changed \<Rightarrow> sound m0 m \<and> (\<not> changed \<longrightarrow> same_content m0 m) \<and> total_size m + incoming \<le> rp_max_total_bytes policy)
     (kept m0)"
  proof (rule runs_ck_bind [OF runs_lifted [OF remove_old_entries]])
    fix p :: "storage_entry list \<times> storage_entry list"
    obtain left removed where p: "p = (left, removed)" by (cases p)
    let ?P = "\<lambda>m. sound m0 m \<and> no_backups m \<and> total_size m = total_bytes es - total_bytes removed
       \<and> list_all (listed m) left \<and> distinct (map entry_name left) \<and> (removed = [] \<longrightarrow> same_content m0 m)"
    let ?retained = "total_bytes es - total_bytes removed"
    have "runs ?P (evict random target left (?retained, removed \<noteq> [])) ?Q (kept m0)" for target
      by (rule runs_pre [OF evict_runs]) (auto simp: evicting_def no_backups_def list_all_iff listed_def entry_name_def)
    moreover have "runs ?P (io_return (Inr (?retained, removed \<noteq> []))) ?Q (kept m0)"
      by (rule runs_return) simp
    ultimately have "runs ?P (if ?max < ?retained then evict random target left (?retained, removed \<noteq> [])
        else io_return (Inr (?retained, removed \<noteq> []))) ?Q (kept m0)" for target
      by (cases "?max < ?retained") (simp_all only: if_True if_False)
    moreover have "runs (\<lambda>m. case q of (retained, changed) \<Rightarrow> sound m0 m \<and> total_size m = retained \<and> (\<not> changed \<longrightarrow> same_content m0 m))
       ((\<lambda>(retained, changed). if ?max < retained then io_return (Inl CapacityExceeded) else io_return (Inr changed)) q)
       (\<lambda>r m. case r of Inl _ \<Rightarrow> kept m0 m
          | Inr changed \<Rightarrow> sound m0 m \<and> (\<not> changed \<longrightarrow> same_content m0 m) \<and> total_size m + incoming \<le> rp_max_total_bytes policy)
       (kept m0)" for q
      using assms by (cases q) (auto intro!: runs_return simp: sound_def)
    ultimately show "runs ((\<lambda>(left, removed) m. sound m0 m \<and> no_backups m \<and> total_size m = total_bytes es - total_bytes removed
       \<and> list_all (listed m) left \<and> distinct (map entry_name left) \<and> (removed = [] \<longrightarrow> same_content m0 m)) p)
      (case p of (left, removed) \<Rightarrow>
          let retained = total_bytes es - total_bytes removed;
              maximum_existing_bytes = ?max;
              headroom = min (rp_max_total_bytes policy div 10) MAX_CAP_EVICTION_HEADROOM_BYTES in
          ck_bind (if maximum_existing_bytes < retained
                   then evict random (maximum_existing_bytes - headroom) left (retained, removed \<noteq> [])
                   else io_return (Inr (retained, removed \<noteq> []))) (\<lambda>(retained, changed).
          if maximum_existing_bytes < retained then io_return (Inl CapacityExceeded)
          else io_return (Inr changed)))
     (\<lambda>r m. case r of Inl _ \<Rightarrow> kept m0 m
        | Inr changed \<Rightarrow> sound m0 m \<and> (\<not> changed \<longrightarrow> same_content m0 m) \<and> total_size m + incoming \<le> rp_max_total_bytes policy)
     (kept m0)"
      unfolding p prod.case Let_def
      by (rule runs_ck_bind [where J = "kept m0" and
          Q = "\<lambda>p m. case p of (retained, changed) \<Rightarrow> sound m0 m \<and> total_size m = retained \<and> (\<not> changed \<longrightarrow> same_content m0 m)"]) simp
  qed simp
qed simp

lemma prune_directory_runs:
  "runs (\<lambda>m. sound m0 m \<and> no_backups m \<and> same_content m0 m)
     (io_bind storage_files (\<lambda>entries.
      io_bind (remove_old cutoff entries) (\<lambda>(left, old).
      io_bind (remove_over maximum left (total_bytes entries - total_bytes old)) (\<lambda>(retained, over).
      io_return \<lparr>pr_removed_files = map (\<lambda>(_, path, _). path) (old @ over), pr_removed_bytes = total_bytes (old @ over),
        pr_retained_bytes = retained\<rparr>))))
     (\<lambda>report m. sound m0 m \<and> no_backups m \<and> pr_retained_bytes report = total_size m) (kept m0)"
proof (rule runs_bind [OF runs_entries], simp add: sound_def, rule runs_bind [OF remove_old_entries])
  fix es :: "storage_entry list" and p :: "storage_entry list \<times> storage_entry list"
  obtain left old where p: "p = (left, old)" by (cases p)
  have "runs (\<lambda>m. sound m0 m \<and> no_backups m \<and> total_size m = total_bytes es - total_bytes old
       \<and> list_all (listed m) left \<and> distinct (map entry_name left) \<and> (old = [] \<longrightarrow> same_content m0 m))
      (remove_over maximum left (total_bytes es - total_bytes old))
      (\<lambda>(retained, removed) m. sound m0 m \<and> no_backups m \<and> total_size m = retained) (kept m0)"
    by (rule runs_pre [OF remove_over_runs]) simp
  then show "runs ((\<lambda>(left, removed) m. sound m0 m \<and> no_backups m \<and> total_size m = total_bytes es - total_bytes removed
       \<and> list_all (listed m) left \<and> distinct (map entry_name left) \<and> (removed = [] \<longrightarrow> same_content m0 m)) p)
     (case p of (left, old) \<Rightarrow>
      io_bind (remove_over maximum left (total_bytes es - total_bytes old)) (\<lambda>(retained, over).
      io_return \<lparr>pr_removed_files = map (\<lambda>(_, path, _). path) (old @ over), pr_removed_bytes = total_bytes (old @ over),
        pr_retained_bytes = retained\<rparr>))
     (\<lambda>report m. sound m0 m \<and> no_backups m \<and> pr_retained_bytes report = total_size m) (kept m0)"
    unfolding p prod.case by (rule runs_bind) (auto intro!: runs_return)
qed

section \<open>Recovery of the whole store\<close>

lemma cut_whole_runs:
  "runs (\<lambda>m. m = m0 \<and> all_whole m0 \<and> list_all (listed m0) es) (cut_tails es) (\<lambda>_ m. m = m0) (\<lambda>m. m = m0)"
proof (induction es)
  case Nil
  then show ?case by (auto intro: runs_return)
next
  case (Cons e es)
  obtain d n k where e: "e = (d, n, k)" by (cases e)
  let ?P = "\<lambda>es m. m = m0 \<and> all_whole m0 \<and> list_all (listed m0) es"
  have read: "runs (?P (e # es)) (fs_read n) (\<lambda>c m. ?P (e # es) m \<and> hm_get m n = Some c) (\<lambda>m. m = m0)" by (rule runs_read) simp
  have "runs (\<lambda>m. ?P (e # es) m \<and> hm_get m n = Some c)
      (if c \<noteq> [] \<and> last c = newline then io_return () else io_then (fs_set_len n (truncate_at c (length c))) fs_sync)
      (\<lambda>_. ?P es) (\<lambda>m. m = m0)" if "k \<noteq> 0" for c
  proof (cases "c \<noteq> [] \<and> last c = newline")
    case True
    have "runs (\<lambda>m. ?P (e # es) m \<and> hm_get m n = Some c) (io_return ()) (\<lambda>_. ?P es) (\<lambda>m. m = m0)"
      by (rule runs_return) simp
    then show ?thesis using True by simp
  next
    case False
    have "\<not> (?P (e # es) m \<and> hm_get m n = Some c)" for m
    proof
      assume "?P (e # es) m \<and> hm_get m n = Some c"
      then have "c \<noteq> []" "c = [] \<or> last c = newline" using that by (auto simp: e listed_def all_whole_def)
      then show False using False by blast
    qed
    then show ?thesis unfolding runs_def by blast
  qed
  note tail = this
  have "runs (?P (e # es)) (if k = 0 then io_return ()
      else io_bind (fs_read n) (\<lambda>content. if content \<noteq> [] \<and> last content = newline then io_return ()
        else io_then (fs_set_len n (truncate_at content (length content))) fs_sync)) (\<lambda>_. ?P es) (\<lambda>m. m = m0)"
  proof (cases "k = 0")
    case True
    have "runs (?P (e # es)) (io_return ()) (\<lambda>_. ?P es) (\<lambda>m. m = m0)" by (rule runs_return) simp
    then show ?thesis using True by simp
  next
    case False
    from runs_bind [OF read tail [OF this]] show ?thesis using False by (simp only: if_False)
  qed
  from runs_then [OF this Cons] show ?case unfolding e cut_tails.simps .
qed

lemma crash_tails_runs:
  "runs (\<lambda>m. plain m \<and> same_content m0 m \<and> all_settled m \<and> (b \<longrightarrow> no_backups m)) recover_crash_tails
     (\<lambda>_ m. sound m0 m \<and> (b \<longrightarrow> no_backups m) \<and> (whole_content m0 \<longrightarrow> same_content m0 m))
     (\<lambda>m. kept m0 m \<and> (whole_content m0 \<longrightarrow> same_content m0 m))"
    (is "runs ?P _ _ ?I")
proof -
  let ?s = "whole_content m0"
  have "runs (\<lambda>m. ?P m \<and> es = storage_entries m) (cut_tails es)
      (\<lambda>_ m. sound m0 m \<and> (b \<longrightarrow> no_backups m) \<and> (?s \<longrightarrow> same_content m0 m)) ?I" for es
  proof (rule runs_each)
    fix m1 assume m1: "?P m1 \<and> es = storage_entries m1"
    then have ok: "hm_ok m1" by (simp add: plain_def)
    have "runs (\<lambda>m. m = m1) (cut_tails es)
        (\<lambda>_ m. kept m0 m \<and> all_settled m \<and> (b \<longrightarrow> no_backups m) \<and> all_whole m) (kept m0)"
    proof (rule runs_pre [OF cut_tails_runs])
      fix m assume "m = m1"
      moreover have "whole_but (entry_name ` set es) m1"
        using m1 storage_entries_ok(3) [OF ok] by (auto simp: whole_but_def)
      ultimately show "kept m0 m \<and> all_settled m \<and> (b \<longrightarrow> no_backups m) \<and> whole_but (entry_name ` set es) m
          \<and> list_all (listed m) es \<and> distinct (map entry_name es)"
        using m1 storage_entries_ok(1,2) [OF ok] by (simp add: kept_def same_shrunk)
    qed
    moreover have "runs (\<lambda>m. m = m1) (cut_tails es) (\<lambda>_ m. ?s \<longrightarrow> same_content m0 m) (\<lambda>m. ?s \<longrightarrow> same_content m0 m)"
    proof (cases ?s)
      case True
      show ?thesis
        by (rule runs_pre [OF runs_post [OF cut_whole_runs [of m1 es]]])
          (use m1 True same_content_whole [of m0 m1] settled_whole [of m1] storage_entries_ok(1) [OF ok] in auto)
    next
      case False
      then show ?thesis by (auto simp: runs_def split: outcome.splits)
    qed
    ultimately show "runs (\<lambda>m. m = m1) (cut_tails es)
        (\<lambda>_ m. sound m0 m \<and> (b \<longrightarrow> no_backups m) \<and> (?s \<longrightarrow> same_content m0 m)) ?I"
      by (rule runs_post [OF runs_conj]) (auto simp: sound_def)
  qed
  moreover have "runs ?P storage_files (\<lambda>es m. ?P m \<and> es = storage_entries m) ?I"
    by (rule runs_entries) (auto simp: kept_def same_shrunk)
  ultimately show ?thesis unfolding recover_crash_tails_def by (blast intro: runs_bind)
qed

lemma recover_state_runs:
  "runs (\<lambda>m. m = m0 \<and> plain m0) recover_store_state
     (\<lambda>_ m. sound m0 m \<and> (no_backups m0 \<longrightarrow> no_backups m) \<and> (whole_content m0 \<longrightarrow> same_content m0 m))
     (\<lambda>m. kept m0 m \<and> (whole_content m0 \<longrightarrow> same_content m0 m))"
proof -
  have "runs (\<lambda>m. m = m0 \<and> plain m0) recover_rewrite_artifacts
      (\<lambda>_ m. plain m \<and> same_content m0 m \<and> all_settled m \<and> (no_backups m0 \<longrightarrow> no_backups m))
      (\<lambda>m. kept m0 m \<and> (whole_content m0 \<longrightarrow> same_content m0 m))"
    by (rule runs_post [OF recover_runs]) (auto simp: kept_def same_shrunk)
  then show ?thesis unfolding recover_store_state_def by (rule runs_then [OF _ crash_tails_runs])
qed

end
