(* ===== verification/DiagnosticIndex.thy ===== *)
theory DiagnosticIndex
  imports DiagnosticRoom
begin

text \<open>
  The records the files of the diagnostics hold, and the index: \<open>load_index\<close> finds exactly them, and a row that is
  appended adds one of them or none.
\<close>

lemma runs_none: "(\<And>m. \<not> P m) \<Longrightarrow> runs P p Q I"
  by (simp add: runs_def)

section \<open>Records\<close>

definition row_record :: "incident_parser \<Rightarrow> string \<Rightarrow> stored_incident option" where
  "row_record parse l = (if MAX_STORED_RECORD_BYTES < length l then None else map_option sanitize_stored_incident (parse l))"

definition disk_records :: "incident_parser \<Rightarrow> files \<Rightarrow> string \<Rightarrow> stored_incident list" where
  "disk_records parse m n = filter well_formed_record (List.map_filter (row_record parse) (disk_rows m n))"

definition held :: "incident_parser \<Rightarrow> files \<Rightarrow> (stored_incident \<times> string) set" where
  "held parse m = {(r, n). is_storage_name n \<and> r \<in> set (disk_records parse m n)}"

text \<open>No two records have the same name, whether it is the key of the envelope or the id of the incident.\<close>

definition unique :: "(stored_incident \<Rightarrow> 'k) \<Rightarrow> incident_parser \<Rightarrow> files \<Rightarrow> bool" where
  "unique f parse m \<longleftrightarrow> (\<forall>n. is_storage_name n \<longrightarrow> distinct (map f (disk_records parse m n))) \<and> inj_on (\<lambda>(r, _). f r) (held parse m)"

definition once :: "incident_parser \<Rightarrow> files \<Rightarrow> bool" where
  "once parse m \<longleftrightarrow> unique envelope_key parse m \<and> unique si_incident_id parse m"

definition names_held :: "(stored_incident \<Rightarrow> 'k) \<Rightarrow> ('k, index_entry) hash_map \<Rightarrow> (stored_incident \<times> string) set \<Rightarrow> bool" where
  "names_held f tbl H \<longleftrightarrow> hm_ok tbl \<and> (\<forall>k e. hm_get tbl k = Some e \<longleftrightarrow> (\<exists>r n. (r, n) \<in> H \<and> f r = k \<and> e = index_entry_of r n))"

definition indexed :: "incident_parser \<Rightarrow> files \<Rightarrow> store_index \<Rightarrow> bool" where
  "indexed parse m ix \<longleftrightarrow> names_held envelope_key (ix_by_envelope_key ix) (held parse m)
     \<and> names_held si_incident_id (ix_by_incident_id ix) (held parse m)"

lemma subseq_map_filter: "subseq xs ys \<Longrightarrow> subseq (List.map_filter f xs) (List.map_filter f ys)"
  unfolding map_filter_def by (intro subseq_map subseq_filter)

lemma disk_records_shrunk: "shrunk m m' \<Longrightarrow> is_storage_name n \<Longrightarrow> subseq (disk_records parse m' n) (disk_records parse m n)"
  unfolding disk_records_def shrunk_def by (intro subseq_filter subseq_map_filter) blast

lemma subseq_set: "subseq xs ys \<Longrightarrow> set xs \<subseteq> set ys"
  by (induction rule: list_emb.induct) auto

lemma subseq_distinct: "subseq xs ys \<Longrightarrow> distinct ys \<Longrightarrow> distinct xs"
proof (induction rule: list_emb.induct)
  case (list_emb_Cons2 x y xs ys)
  then show ?case using subseq_set [of xs ys] by auto
qed simp_all

lemma held_shrunk: "shrunk m m' \<Longrightarrow> held parse m' \<subseteq> held parse m"
  unfolding held_def using disk_records_shrunk subseq_set by blast

lemma unique_shrunk:
  assumes "unique f parse m" "shrunk m m'"
  shows "unique f parse m'"
  unfolding unique_def
proof (intro conjI allI impI)
  fix n assume n: "is_storage_name n"
  have "distinct (map f (disk_records parse m n))" using assms(1) n by (simp add: unique_def)
  then show "distinct (map f (disk_records parse m' n))"
    by (rule subseq_distinct [OF subseq_map [OF disk_records_shrunk [OF assms(2) n]]])
next
  have "inj_on (\<lambda>(r, _). f r) (held parse m)" using assms(1) by (simp add: unique_def)
  then show "inj_on (\<lambda>(r, _). f r) (held parse m')" by (rule inj_on_subset [OF _ held_shrunk [OF assms(2)]])
qed

lemma once_shrunk: "once parse m \<Longrightarrow> shrunk m m' \<Longrightarrow> once parse m'"
  using unique_shrunk [of envelope_key parse m m'] unique_shrunk [of si_incident_id parse m m'] by (simp add: once_def)

lemma same_held:
  assumes "same_content m m'"
  shows "held parse m' = held parse m" "once parse m' = once parse m" "indexed parse m' ix = indexed parse m ix"
proof -
  have "disk_records parse m' n = disk_records parse m n" if "is_storage_name n" for n
    using assms that by (simp add: disk_records_def same_content_rows)
  note records = this
  show held: "held parse m' = held parse m" by (auto simp: held_def records)
  show "once parse m' = once parse m" 
  proof -
    have "same_content m' m" by (rule same_content_sym [OF assms])
    then show ?thesis using assms once_shrunk [OF _ same_shrunk] by metis
  qed
  show "indexed parse m' ix = indexed parse m ix" unfolding indexed_def held ..
qed

text \<open>What is read of a file is what its rows hold.\<close>

lemma strip_line_end_plain: "newline \<notin> set l \<Longrightarrow> carriage_return \<notin> set l \<Longrightarrow> strip_line_end (l @ [newline]) = l \<and> strip_line_end l = l"
  unfolding strip_line_end_def by (cases l rule: rev_cases) auto

lemma jsonl_rows: "carriage_return \<notin> set c \<Longrightarrow> jsonl_records parse c = List.map_filter (row_record parse) (split_lines [] c)"
proof (induction c rule: rows_induct)
  case none
  then show ?case by (simp add: jsonl_records_def)
next
  case (tail s)
  then show ?case
    using strip_line_end_plain [of s]
    by (auto simp: jsonl_records_def rows_simps read_record_def row_record_def Let_def split: option.splits)
next
  case (row l t)
  then show ?case
    using strip_line_end_plain [of l]
    by (auto simp: jsonl_records_def rows_simps read_record_def row_record_def Let_def split: option.splits)
qed

section \<open>Loading the index\<close>

lemma names_held_empty: "names_held f [] {}"
  by (simp add: names_held_def)

lemma names_held_insert:
  assumes "names_held f tbl H" "inj_on (\<lambda>(r, _). f r) (insert (r, n) H)"
  shows "names_held f (hm_or_insert (f r) (index_entry_of r n) tbl) (insert (r, n) H)"
proof (cases "hm_get tbl (f r)")
  case None
  then show ?thesis
    using assms(1) unfolding names_held_def hm_or_insert_def by (auto simp: hm_simps) (metis option.distinct(1))+
next
  case (Some e)
  then obtain r' n' where "(r', n') \<in> H" "f r' = f r" "e = index_entry_of r' n'"
    using assms(1) unfolding names_held_def by metis
  moreover from this have "(r', n') = (r, n)"
    using inj_onD [OF assms(2), of "(r', n')" "(r, n)"] by simp
  ultimately have "insert (r, n) H = H" by auto
  then show ?thesis using assms(1) Some by (simp add: hm_or_insert_def)
qed

lemma fold_index_record:
  assumes "names_held envelope_key (ix_by_envelope_key ix) H" "names_held si_incident_id (ix_by_incident_id ix) H"
    and "H' = H \<union> {(r, n) \<in> set rs. well_formed_record r}"
    and "inj_on (\<lambda>(r, _). envelope_key r) H'" "inj_on (\<lambda>(r, _). si_incident_id r) H'"
  shows "names_held envelope_key (ix_by_envelope_key (fold index_record rs ix)) H'
     \<and> names_held si_incident_id (ix_by_incident_id (fold index_record rs ix)) H'"
  using assms
proof (induction rs arbitrary: ix H)
  case Nil
  then show ?case by simp
next
  case (Cons p rs)
  obtain r n where p: "p = (r, n)" by (cases p)
  show ?case
  proof (cases "well_formed_record r")
    case True
    have H': "H' = insert (r, n) H \<union> {(r, n) \<in> set rs. well_formed_record r}"
      using True unfolding Cons.prems(3) p by auto
    then have "insert (r, n) H \<subseteq> H'" by blast
    note inj = Cons.prems(4,5) [THEN inj_on_subset, OF this]
    have "names_held envelope_key (ix_by_envelope_key (index_record p ix)) (insert (r, n) H)"
      "names_held si_incident_id (ix_by_incident_id (index_record p ix)) (insert (r, n) H)"
      using names_held_insert [OF Cons.prems(1) inj(1)] names_held_insert [OF Cons.prems(2) inj(2)] True
      by (simp_all add: p index_record_def)
    from Cons.IH [OF this H' Cons.prems(4,5)] show ?thesis by simp
  next
    case False
    have H': "H' = H \<union> {(r, n) \<in> set rs. well_formed_record r}"
      using False unfolding Cons.prems(3) p by auto
    have "index_record p ix = ix" using False by (simp add: p index_record_def)
    with Cons.IH [OF Cons.prems(1,2) H' Cons.prems(4,5)] show ?thesis by simp
  qed
qed

lemma read_each_runs:
  "runs (\<lambda>m. m = m0 \<and> list_all (listed m0) es) (read_each parse es)
     (\<lambda>rs m. m = m0 \<and> set rs = {(r, n). n \<in> entry_name ` set es \<and> r \<in> set (jsonl_records parse (the (hm_get m0 n)))})
     (\<lambda>m. m = m0)"
proof (induction es)
  case Nil
  then show ?case by (auto intro: runs_return)
next
  case (Cons e es)
  obtain d n k where e: "e = (d, n, k)" by (cases e)
  let ?P = "\<lambda>m. m = m0 \<and> list_all (listed m0) (e # es)"
  let ?R = "\<lambda>es. {(r, n). n \<in> entry_name ` set es \<and> r \<in> set (jsonl_records parse (the (hm_get m0 n)))}"
  have "runs ?P (fs_read n) (\<lambda>c m. ?P m \<and> hm_get m n = Some c) (\<lambda>m. m = m0)" by (rule runs_read) simp
  then have read: "runs ?P (read_jsonl_records parse n)
      (\<lambda>rs m. (m = m0 \<and> list_all (listed m0) es) \<and> rs = jsonl_records parse (the (hm_get m0 n))) (\<lambda>m. m = m0)"
    unfolding read_jsonl_records_def by (rule runs_bind) (auto intro!: runs_return)
  have "runs (\<lambda>m. (m = m0 \<and> list_all (listed m0) es) \<and> rs = jsonl_records parse (the (hm_get m0 n)))
      (io_bind (read_each parse es) (\<lambda>rest. io_return (map (\<lambda>record. (record, n)) rs @ rest)))
      (\<lambda>rs m. m = m0 \<and> set rs = ?R (e # es)) (\<lambda>m. m = m0)" for rs
  proof (cases "rs = jsonl_records parse (the (hm_get m0 n))")
    case True
    have "runs (\<lambda>m. (m = m0 \<and> list_all (listed m0) es) \<and> rs = jsonl_records parse (the (hm_get m0 n)))
        (read_each parse es) (\<lambda>rest m. m = m0 \<and> set rest = ?R es) (\<lambda>m. m = m0)"
      by (rule runs_pre [OF Cons]) simp
    then show ?thesis
    proof (rule runs_bind, intro runs_return)
      fix rest m assume "m = m0 \<and> set rest = ?R es"
      moreover have "?R (e # es) = (\<lambda>r. (r, n)) ` set rs \<union> ?R es" by (auto simp: True e entry_name_def)
      ultimately show "m = m0 \<and> set (map (\<lambda>record. (record, n)) rs @ rest) = ?R (e # es)" by simp
    qed
  qed (simp add: runs_def)
  from runs_bind [OF read this] show ?case by (simp add: e)
qed

lemma load_index_runs:
  "runs (\<lambda>m. m = m0 \<and> plain m0 \<and> all_settled m0 \<and> once parse m0) (load_index parse)
     (\<lambda>ix m. m = m0 \<and> indexed parse m0 ix) (\<lambda>m. m = m0)"
proof -
  let ?P = "\<lambda>m. m = m0 \<and> plain m0 \<and> all_settled m0 \<and> once parse m0"
  let ?all = "{(r, n). n \<in> entry_name ` set (storage_entries m0) \<and> r \<in> set (jsonl_records parse (the (hm_get m0 n)))}"
  have "runs ?P (for_each_record parse) (\<lambda>rs m. ?P m \<and> set rs = ?all) (\<lambda>m. m = m0)"
  proof (cases "?P m0")
    case True
    then have ok: "hm_ok m0" by (simp add: plain_def)
    have "runs ?P storage_files (\<lambda>es m. ?P m \<and> es = storage_entries m) (\<lambda>m. m = m0)" by (rule runs_entries) simp
    moreover have "runs (\<lambda>m. ?P m \<and> es = storage_entries m) (read_each parse es) (\<lambda>rs m. ?P m \<and> set rs = ?all) (\<lambda>m. m = m0)" for es
    proof (cases "es = storage_entries m0")
      case es: True
      have l: "list_all (listed m0) es" unfolding es by (rule storage_entries_ok(1) [OF ok])
      have "runs (\<lambda>m. m = m0 \<and> list_all (listed m0) es) (read_each parse es) (\<lambda>rs m. m = m0 \<and> set rs = ?all) (\<lambda>m. m = m0)"
        unfolding es by (rule read_each_runs)
      then have "runs (\<lambda>m. m = m0 \<and> list_all (listed m0) es) (read_each parse es) (\<lambda>rs m. ?P m \<and> set rs = ?all) (\<lambda>m. m = m0)"
      proof (rule runs_post)
        fix rs m assume a: "m = m0 \<and> set rs = ?all"
        show "?P m \<and> set rs = ?all"
          by (rule conjI [OF conjI [OF conjunct1 [OF a] conjunct2 [OF True]] conjunct2 [OF a]])
      qed
      then show ?thesis by (rule runs_pre) (use l in blast)
    next
      case False
      show ?thesis by (rule runs_none) (use False in blast)
    qed
    ultimately show ?thesis unfolding for_each_record_def by (rule runs_bind)
  next
    case False
    show ?thesis by (rule runs_none) (use False in blast)
  qed
  moreover have "runs (\<lambda>m. ?P m \<and> set rs = ?all) (io_return (fold index_record rs empty_index))
      (\<lambda>ix m. m = m0 \<and> indexed parse m0 ix) (\<lambda>m. m = m0)" for rs
  proof (rule runs_return)
    fix m assume m: "?P m \<and> set rs = ?all"
    have ok: "hm_ok m0" using m by (simp add: plain_def)
    have "(r, n) \<in> set rs \<and> well_formed_record r \<longleftrightarrow> (r, n) \<in> held parse m0" for r n
    proof (cases "is_storage_name n \<and> hm_get m0 n \<noteq> None")
      case True
      then obtain c where c: "hm_get m0 n = Some c" by blast
      then have "carriage_return \<notin> set c" using m True by (auto simp: plain_def)
      then have "jsonl_records parse c = List.map_filter (row_record parse) (disk_rows m0 n)"
        by (simp add: jsonl_rows disk_rows_def stored_def c)
      then show ?thesis
        using m True c storage_entries_ok(3) [OF ok] by (auto simp: held_def disk_records_def)
    next
      case False
      then have "disk_rows m0 n = []" if "is_storage_name n"
        using m that by (auto simp: disk_rows_def stored_def all_settled_def settled_def split: option.splits)
      then show ?thesis
        using m False storage_entries_ok(3) [OF ok] by (auto simp: held_def disk_records_def)
    qed
    then have all: "held parse m0 = {} \<union> {(r, n) \<in> set rs. well_formed_record r}" by auto
    show "m = m0 \<and> indexed parse m0 (fold index_record rs empty_index)"
      using fold_index_record [of empty_index "{}" "held parse m0" rs, OF _ _ all] m
      by (simp add: indexed_def empty_index_def once_def unique_def names_held_empty)
  qed
  ultimately show ?thesis unfolding load_index_def by (rule runs_bind)
qed

section \<open>Appending a row\<close>

text \<open>What a file has after some bytes were added to it.\<close>

definition grown :: "string \<Rightarrow> files \<Rightarrow> string \<Rightarrow> files \<Rightarrow> bool" where
  "grown path m0 x m \<longleftrightarrow> hm_ok m \<and> hm_get m path = Some (or_default [] (hm_get m0 path) @ x)
     \<and> (\<forall>y. y \<noteq> path \<longrightarrow> hm_get m y = hm_get m0 y)"

lemma append_line_runs:
  assumes m0: "hm_ok m0" and whole: "or_default [] (hm_get m0 path) = [] \<or> last (or_default [] (hm_get m0 path)) = newline"
  shows "runs (\<lambda>m. m = m0) (append_json_line path line) (\<lambda>_. grown path m0 (line @ [newline]))
     (\<lambda>m. m = m0 \<or> (\<exists>k. grown path m0 (take k (line @ [newline])) m))"
proof -
  let ?I = "\<lambda>m. m = m0 \<or> (\<exists>k. grown path m0 (take k (line @ [newline])) m)"
  have I: "?I m" if "grown path m0 (take k (line @ [newline])) m" for m k using that by blast
  have I0: "?I m" if "grown path m0 [] m" for m using I [of 0] that by simp
  have open': "runs (\<lambda>m. m = m0) (fs_open_append path) (\<lambda>_. grown path m0 []) ?I"
    unfolding fs_open_append_def
    by (rule runs_call) (auto simp: grown_def hm_simps m0 or_default_def split: option.splits)
  have torn: "runs (grown path m0 []) (end_torn_row path) (\<lambda>_. grown path m0 []) ?I"
    unfolding end_torn_row_def
  proof (rule runs_bind [OF runs_read], rule I0, assumption, rule runs_when)
    fix content
    assume "content \<noteq> [] \<and> last content \<noteq> newline"
    then show "runs (\<lambda>m. grown path m0 [] m \<and> hm_get m path = Some content) (fs_write_all path [newline]) (\<lambda>_. grown path m0 []) ?I"
      using whole by (intro runs_none) (auto simp: grown_def)
  qed simp
  have w1: "runs (grown path m0 []) (fs_write_all path line) (\<lambda>_. grown path m0 line) ?I"
  proof (rule runs_write)
    fix m n assume m: "grown path m0 [] m"
    then have "grown path m0 (take n line) (hm_insert path (or_default [] (hm_get m path) @ take n line) m)"
      by (auto simp: grown_def hm_simps or_default_def)
    moreover have "take n line = take (min n (length line)) (line @ [newline])" by (simp add: min_def)
    ultimately show "?I (hm_insert path (or_default [] (hm_get m path) @ take n line) m)" using I by metis
    show "grown path m0 line (hm_insert path (or_default [] (hm_get m path) @ line) m)"
      using m by (auto simp: grown_def hm_simps or_default_def)
  qed
  have w2: "runs (grown path m0 line) (fs_write_all path [newline]) (\<lambda>_. grown path m0 (line @ [newline])) ?I"
  proof (rule runs_write)
    fix m n assume m: "grown path m0 line m"
    then have "grown path m0 (take (length line + n) (line @ [newline])) (hm_insert path (or_default [] (hm_get m path) @ take n [newline]) m)"
      by (auto simp: grown_def hm_simps or_default_def)
    then show "?I (hm_insert path (or_default [] (hm_get m path) @ take n [newline]) m)" by (rule I)
    show "grown path m0 (line @ [newline]) (hm_insert path (or_default [] (hm_get m path) @ [newline]) m)"
      using m by (auto simp: grown_def hm_simps or_default_def)
  qed
  have sync: "runs (grown path m0 (line @ [newline])) fs_sync (\<lambda>_. grown path m0 (line @ [newline])) ?I"
    unfolding fs_sync_def by (rule runs_call) (use I [of "length line + 1"] in auto)
  show ?thesis
    unfolding append_json_line_def by (rule runs_then [OF open'], rule runs_then [OF torn], rule runs_then [OF w1], rule runs_then [OF w2], rule sync)
qed

lemma grown_view:
  assumes m: "grown path m0 (take k (line @ [newline])) m" and path: "is_storage_name path"
    and m0: "plain m0" "all_settled m0" "all_whole m0" and line: "newline \<notin> set line" "carriage_return \<notin> set line" "line \<noteq> []"
  shows "plain m" "all_settled m" "no_backups m0 \<Longrightarrow> no_backups m"
    "disk_rows m path = disk_rows m0 path @ (if k = 0 then [] else [take k line])"
    "is_storage_name n \<Longrightarrow> n \<noteq> path \<Longrightarrow> disk_rows m n = disk_rows m0 n"
    "length line < k \<Longrightarrow> all_whole m \<and> total_size m = total_size m0 + length line + 1"
proof -
  let ?old = "or_default [] (hm_get m0 path)" and ?x = "take k (line @ [newline])"
  have old: "?old = [] \<or> last ?old = newline" "carriage_return \<notin> set ?old"
    using m0 path by (auto simp: all_whole_def plain_def or_default_def split: option.splits)
  have get: "hm_get m path = Some (?old @ ?x)" "\<And>y. y \<noteq> path \<Longrightarrow> hm_get m y = hm_get m0 y"
    using m by (simp_all add: grown_def)
  have bak: "hm_get m (backup_path n) = hm_get m0 (backup_path n)" if "is_storage_name n" for n
    using get(2) storage_names_differ(2) [OF path that] by simp
  have x: "carriage_return \<notin> set ?x" using line(2) by (auto dest: in_set_takeD)
  show "plain m"
    unfolding plain_def
  proof (intro conjI allI impI)
    show "hm_ok m" using m by (simp add: grown_def)
    fix n c assume n: "is_storage_name n" "hm_get m n = Some c \<or> hm_get m (backup_path n) = Some c"
    show "carriage_return \<notin> set c"
      using n get x old(2) bak [OF n(1)] m0(1) by (cases "n = path") (auto simp: plain_def)
  qed
  show "all_settled m"
    unfolding all_settled_def
  proof (intro allI impI)
    fix n assume n: "is_storage_name n"
    show "settled n m" using m0(2) get(1) get(2) [of n] bak [OF n] n by (cases "n = path") (auto simp: all_settled_def settled_def)
  qed
  show "no_backups m0 \<Longrightarrow> no_backups m" using bak by (simp add: no_backups_def)
  show "disk_rows m n = disk_rows m0 n" if "is_storage_name n" "n \<noteq> path"
    unfolding disk_rows_def stored_def get(2) [OF that(2)] bak [OF that(1)] ..
  have "disk_rows m0 path = split_lines [] ?old"
    using m0(2) path by (auto simp: disk_rows_def stored_def all_settled_def settled_def or_default_def split: option.splits)
  moreover have "disk_rows m path = split_lines [] ?old @ split_lines [] ?x"
    using split_lines_append [OF old(1)] by (simp add: disk_rows_def stored_def get(1))
  moreover have "split_lines [] ?x = (if k = 0 then [] else [take k line])"
  proof (cases "k \<le> length line")
    case True
    have "newline \<notin> set (take k line)" using line(1) by (auto dest: in_set_takeD)
    then show ?thesis using True line(3) rows_simps(1) [of "take k line"] by simp
  next
    case False
    then show ?thesis using rows_simps(3) [OF line(1,2), of "[]"] by simp
  qed
  ultimately show "disk_rows m path = disk_rows m0 path @ (if k = 0 then [] else [take k line])" by simp
  assume k: "length line < k"
  have "total_size m + size_of m0 path = total_size m0 + size_of m path"
    by (rule total_change [OF path]) (simp add: get(2))
  moreover have "all_whole m"
    unfolding all_whole_def
  proof (intro allI impI)
    fix n c assume n: "is_storage_name n \<and> hm_get m n = Some c"
    show "c = [] \<or> last c = newline"
      using n get k m0(3) by (cases "n = path") (auto simp: all_whole_def)
  qed
  ultimately show "all_whole m \<and> total_size m = total_size m0 + length line + 1"
    using get(1) k by (auto simp: size_of_def or_default_def split: option.splits)
qed

section \<open>A record that is written\<close>

text \<open>
  What is relied on of serde and of the key: a rendered record is one line, the fields that name it are read back
  from it and from no part of it, and the authentication code has 32 bytes.
\<close>

definition same_identity :: "stored_incident \<Rightarrow> stored_incident \<Rightarrow> bool" where
  "same_identity r' r \<longleftrightarrow> si_record_version r' = si_record_version r \<and> si_incident_id r' = si_incident_id r
     \<and> si_authenticated_identity_digest r' = si_authenticated_identity_digest r \<and> si_payload_digest r' = si_payload_digest r
     \<and> en_envelope_id (si_envelope r') = en_envelope_id (si_envelope r)"

definition codec_ok :: "incident_codec \<Rightarrow> bool" where
  "codec_ok codec \<longleftrightarrow>
     (\<forall>r line. ic_render codec r = Some line \<longrightarrow> line \<noteq> [] \<and> newline \<notin> set line \<and> carriage_return \<notin> set line
        \<and> (\<exists>r'. ic_parse codec line = Some r' \<and> same_identity r' r)
        \<and> (\<forall>k < length line. ic_parse codec (take k line) = None))
     \<and> (\<forall>key message. length (ic_mac codec key message) = 32)"

lemma same_identity_names:
  assumes "same_identity r' r"
  shows "envelope_key r' = envelope_key r" "si_incident_id r' = si_incident_id r" "index_entry_of r' n = index_entry_of r n"
    "well_formed_record r' = well_formed_record r" "same_identity (sanitize_stored_incident r') r"
  using assms
  by (simp_all add: same_identity_def envelope_key_def index_entry_of_def well_formed_record_def sanitize_stored_incident_def
      sanitize_envelope_def)

lemma map_filter_append_list: "List.map_filter f (xs @ ys) = List.map_filter f xs @ List.map_filter f ys"
  by (simp add: map_filter_def)

lemma grown_records:
  assumes view: "disk_rows m path = disk_rows m0 path @ (if k = 0 then [] else [take k line])"
      "\<And>n. is_storage_name n \<Longrightarrow> n \<noteq> path \<Longrightarrow> disk_rows m n = disk_rows m0 n"
    and codec: "codec_ok codec" "ic_render codec r = Some line" "length line \<le> MAX_STORED_RECORD_BYTES" and r: "well_formed_record r"
    and path: "is_storage_name path"
  shows "\<exists>r'. same_identity r' r \<and> disk_records (ic_parse codec) m path = disk_records (ic_parse codec) m0 path @ (if k < length line then [] else [r'])
     \<and> held (ic_parse codec) m = (if k < length line then {} else {(r', path)}) \<union> held (ic_parse codec) m0
     \<and> (\<forall>n. is_storage_name n \<longrightarrow> n \<noteq> path \<longrightarrow> disk_records (ic_parse codec) m n = disk_records (ic_parse codec) m0 n)"
proof -
  let ?parse = "ic_parse codec"
  obtain r0 where line: "line \<noteq> []" "?parse line = Some r0" "same_identity r0 r" "\<And>j. j < length line \<Longrightarrow> ?parse (take j line) = None"
    using codec(1,2) unfolding codec_ok_def by blast
  let ?r = "sanitize_stored_incident r0"
  have same: "same_identity ?r r" and wf: "well_formed_record ?r"
    using same_identity_names(5) [OF line(3)] same_identity_names(4) [of ?r r] r by simp_all
  have "row_record ?parse (take k line) = (if k < length line then None else Some ?r)"
    using codec(3) line(2) line(4) [of k] by (auto simp: row_record_def)
  then have new: "disk_records ?parse m path = disk_records ?parse m0 path @ (if k < length line then [] else [?r])"
    using wf line(1) line(4) [of 0] by (auto simp: disk_records_def view(1) map_filter_append_list)
  have other: "disk_records ?parse m n = disk_records ?parse m0 n" if "is_storage_name n" "n \<noteq> path" for n
    using view(2) [OF that] by (simp add: disk_records_def)
  have "held ?parse m = (if k < length line then {} else {(?r, path)}) \<union> held ?parse m0"
  proof (intro set_eqI)
    fix p :: "stored_incident \<times> string"
    obtain x n where p: "p = (x, n)" by (cases p)
    show "p \<in> held ?parse m \<longleftrightarrow> p \<in> (if k < length line then {} else {(?r, path)}) \<union> held ?parse m0"
      using new other [of n] path by (cases "n = path") (auto simp: held_def p)
  qed
  then show ?thesis using same new other by blast
qed

lemma unique_grown:
  assumes "unique f parse m0" and path: "is_storage_name path"
    and new: "disk_records parse m path = disk_records parse m0 path @ (if b then [] else [r'])"
      "held parse m = (if b then {} else {(r', path)}) \<union> held parse m0"
      "\<And>n. is_storage_name n \<Longrightarrow> n \<noteq> path \<Longrightarrow> disk_records parse m n = disk_records parse m0 n"
    and fresh: "\<And>r n. (r, n) \<in> held parse m0 \<Longrightarrow> f r \<noteq> f r'"
  shows "unique f parse m"
  unfolding unique_def
proof (intro conjI allI impI)
  fix n assume n: "is_storage_name n"
  have "distinct (map f (disk_records parse m0 n))" using assms(1) n by (simp add: unique_def)
  moreover have "f r' \<notin> f ` set (disk_records parse m0 path)" using fresh path by (fastforce simp: held_def)
  ultimately show "distinct (map f (disk_records parse m n))"
    using new(1) new(3) [OF n] by (cases "n = path") auto
next
  have "inj_on (\<lambda>(r, _). f r) (held parse m0)" using assms(1) by (simp add: unique_def)
  moreover have "f r' \<notin> (\<lambda>(r, _). f r) ` held parse m0" using fresh by force
  ultimately show "inj_on (\<lambda>(r, _). f r) (held parse m)" by (auto simp: new(2) inj_on_insert)
qed

lemma names_held_new:
  assumes "names_held f tbl H" "\<And>r n. (r, n) \<in> H \<Longrightarrow> f r \<noteq> f r'" "f r' = f r" "index_entry_of r' n = index_entry_of r n"
  shows "names_held f (hm_insert (f r) (index_entry_of r n) tbl) (insert (r', n) H)"
  using assms unfolding names_held_def by (auto simp: hm_simps) metis

end
