(* ===== verification/DiagnosticDates.thy ===== *)
theory DiagnosticDates
  imports DiagnosticFiles
begin

text \<open>
  The names of the files of the diagnostics: the day a file is named after is read back from its name.
\<close>

section \<open>Years\<close>

lemma int_div_eq: "(k::int) * q \<le> x \<Longrightarrow> x < k * q + k \<Longrightarrow> 0 < k \<Longrightarrow> x div k = q"
  using int_div_pos_eq [of x k q "x - k * q"] by linarith
lemma year_of_era_bounds:
  fixes doe :: int
  assumes "0 \<le> doe" "doe \<le> 146096"
  defines "y \<equiv> year_of_era doe"
  shows "0 \<le> y \<and> y \<le> 399 \<and> 0 \<le> doe - (365 * y + y div 4 - y div 100) \<and> doe - (365 * y + y div 4 - y div 100) \<le> 365"
proof (cases "doe = 146096")
  case True
  then show ?thesis by (simp add: y_def year_of_era_def)
next
  case False
  define c where "c = doe div 36524"
  define e where "e = doe - 36524 * c"
  define b where "b = (24 * c + e) div 1460"
  define s where "s = 24 * c + e - 1460 * b"
  define w where "w = (s - 24 * c - b) div 365"
  have e: "0 \<le> e" "e < 36524" unfolding e_def c_def by linarith+
  have c: "0 \<le> c" "c \<le> 3" using e assms False unfolding e_def by linarith+
  have s: "0 \<le> s" "s < 1460" unfolding s_def b_def by linarith+
  have b: "0 \<le> b" "b \<le> 25" using s e c unfolding s_def by linarith+
  have w: "365 * w \<le> s - 24 * c - b" "s - 24 * c - b < 365 * w + 365" unfolding w_def by linarith+
  have doe: "doe = 36524 * c + e" "e = 1460 * b + s - 24 * c" by (simp_all add: e_def s_def)
  have a: "doe div 1460 = 25 * c + b" using doe s by (intro int_div_eq; simp add: algebra_simps)
  have d: "doe div 146096 = 0" using assms False by (intro int_div_eq; simp add: algebra_simps)
  have ws: "- 1 \<le> w" "w \<le> 3" using w s c b by linarith+
  have y: "y = 100 * c + 4 * b + w"
    unfolding y_def year_of_era_def a d c_def [symmetric] using w doe by (intro int_div_eq; simp add: algebra_simps)
  have top: "4 * b + w \<le> 99"
  proof (cases "b = 25")
    case True
    then have "s < 24 + 24 * c" using doe e by linarith
    then show ?thesis using w True by linarith
  qed (use b ws in linarith)
  have bottom: "0 \<le> 4 * b + w"
  proof (cases "b = 0")
    case True
    then have "0 \<le> s - 24 * c" using doe e by linarith
    then show ?thesis using w True by linarith
  qed (use b ws in linarith)
  have h: "y div 100 = c" unfolding y using top bottom by (intro int_div_eq; simp add: algebra_simps)
  show ?thesis
  proof (cases "w = - 1")
    case True
    have "y div 4 = 25 * c + b - 1" unfolding y using True by (intro int_div_eq; simp add: algebra_simps)
    then show ?thesis using h y True w s c b doe top bottom by simp
  next
    case False
    have "y div 4 = 25 * c + b" unfolding y using False ws by (intro int_div_eq; simp add: algebra_simps)
    then show ?thesis using h y w s c b doe top bottom by simp
  qed
qed

section \<open>Days\<close>

lemma sdiv_nonneg: "0 \<le> (x::int) \<Longrightarrow> 0 < k \<Longrightarrow> x sdiv k = x div k"
  by (cases "x = 0") (simp_all add: signed_divide_int_def sgn_if)

lemma civil_round_trip:
  assumes "0 \<le> days" "civil_from_days days = (y, m, d)"
  shows "days_from_civil y m d = days" "1 \<le> m \<and> m \<le> 12" "1 \<le> d \<and> d \<le> 31" "0 \<le> y" "days < 2786860 \<Longrightarrow> y \<le> 9600"
proof -
  let ?z = "days + 719468"
  define era where "era = ?z div 146097"
  define doe where "doe = ?z - era * 146097"
  define yoe where "yoe = year_of_era doe"
  define doy where "doy = doe - (365 * yoe + yoe div 4 - yoe div 100)"
  define mp where "mp = (5 * doy + 2) div 153"
  have era: "(if 0 \<le> ?z then ?z else ?z - 146096) sdiv 146097 = era"
    using assms(1) by (simp add: era_def sdiv_nonneg)
  have doe: "0 \<le> doe" "doe \<le> 146096" "0 \<le> era" using assms(1) unfolding doe_def era_def by linarith+
  have yoe: "0 \<le> yoe" "yoe \<le> 399" "0 \<le> doy" "doy \<le> 365"
    using year_of_era_bounds [OF doe(1,2)] unfolding doy_def yoe_def by simp_all
  have mp: "0 \<le> mp" "mp \<le> 11" using yoe(3,4) unfolding mp_def by linarith+
  have "m = mp + (if mp < 10 then 3 else - 9) \<and> y = yoe + era * 400 + (if mp + (if mp < 10 then 3 else - 9) \<le> 2 then 1 else 0)
      \<and> d = doy - (153 * mp + 2) div 5 + 1"
    using assms(2) unfolding civil_from_days_def Let_def era
    unfolding doe_def [symmetric] yoe_def [symmetric] doy_def [symmetric] mp_def [symmetric] prod.inject by metis
  then have parts: "y = yoe + era * 400 + (if m \<le> 2 then 1 else 0)" "m = mp + (if mp < 10 then 3 else - 9)"
    "d = doy - (153 * mp + 2) div 5 + 1" by metis+
  show "1 \<le> m \<and> m \<le> 12" using mp unfolding parts(2) by auto
  show "1 \<le> d \<and> d \<le> 31" using yoe(3,4) unfolding parts(3) mp_def by linarith
  show "0 \<le> y" using yoe doe(3) unfolding parts(1) by auto
  show "y \<le> 9600" if "days < 2786860"
  proof -
    have "era \<le> 23" using that unfolding era_def by linarith
    then show ?thesis using yoe(2) unfolding parts(1) by auto
  qed
  have adjusted: "y - (if m \<le> 2 then 1 else 0) = yoe + era * 400" using parts(1) by simp
  have "(if 0 \<le> yoe + era * 400 then yoe + era * 400 else yoe + era * 400 - 399) sdiv 400 = era"
    using yoe(1,2) doe(3) by (simp add: sdiv_nonneg)
  moreover have "m + (if 2 < m then - 3 else 9) = mp" using mp unfolding parts(2) by auto
  ultimately show "days_from_civil y m d = days"
    unfolding days_from_civil_def Let_def adjusted using parts(3)
    by (simp add: doy_def doe_def)
qed

section \<open>Numbers\<close>

lemma digits_read: "decimal (s @ [c]) = decimal s * 10 + (byte_of c - 48)"
  by (simp add: decimal_def)

lemma nat_to_string_digits: "list_all is_ascii_digit (nat_to_string n) \<and> decimal (nat_to_string n) = n \<and> nat_to_string n \<noteq> []"
proof (induction n rule: nat_to_string.induct)
  case (1 n)
  have digit: "is_ascii_digit (char_of (48 + k))" "byte_of (char_of (48 + k)) = 48 + k" if "k < 10" for k :: nat
    using that by (simp_all add: is_ascii_digit_def byte_of_def)
  show ?case
  proof (cases "n < 10")
    case True
    then show ?thesis using digit [of n] by (simp add: nat_to_string.simps [of n] decimal_def)
  next
    case False
    then show ?thesis
      using 1 digit [of "n mod 10"] by (simp add: nat_to_string.simps [of n] digits_read)
  qed
qed

lemma length_nat_to_string: "n < 10 ^ w \<Longrightarrow> 0 < w \<Longrightarrow> length (nat_to_string n) \<le> w"
proof (induction n arbitrary: w rule: nat_to_string.induct)
  case (1 n)
  show ?case
  proof (cases "n < 10")
    case True
    then show ?thesis using 1(3) by (simp add: nat_to_string.simps [of n])
  next
    case False
    then obtain v where w: "w = Suc v" "0 < v" using 1(2,3) by (cases w; cases "w - 1") auto
    then have "n div 10 < 10 ^ v" using 1(2) by (simp add: less_mult_imp_div_less mult.commute)
    then show ?thesis using 1(1) [OF False] w False by (simp add: nat_to_string.simps [of n])
  qed
qed

lemma zero_padded_ok:
  assumes "n < 10 ^ w" "0 < w"
  shows "length (zero_padded w n) = w" "list_all is_ascii_digit (zero_padded w n)" "decimal (zero_padded w n) = n"
proof -
  have "decimal (replicate k (CHR ''0'') @ s) = decimal s" for k s
    by (induction k) (simp_all add: decimal_def byte_of_def)
  then show "decimal (zero_padded w n) = n" using nat_to_string_digits [of n] by (simp add: zero_padded_def Let_def)
  show "length (zero_padded w n) = w" using length_nat_to_string [OF assms] by (simp add: zero_padded_def Let_def)
  show "list_all is_ascii_digit (zero_padded w n)"
    using nat_to_string_digits [of n] by (auto simp: zero_padded_def Let_def list_all_iff is_ascii_digit_def byte_of_def)
qed

lemma parse_int_digits: "list_all is_ascii_digit s \<Longrightarrow> s \<noteq> [] \<Longrightarrow> parse_int b s = Some (int (decimal s))"
  by (cases s) (auto simp: parse_int_def Let_def starts_with_def is_ascii_digit_def byte_of_def)

section \<open>Names\<close>

lemma storage_name_day:
  assumes "unat t div unat MILLIS_PER_DAY < 2786860"
  shows "parse_storage_file_name (storage_file_name t) = Some (int (unat t div unat MILLIS_PER_DAY))"
proof -
  let ?day = "int (unat t div unat MILLIS_PER_DAY)"
  obtain y m d where civil: "civil_from_days ?day = (y, m, d)" by (cases "civil_from_days ?day") auto
  note date = civil_round_trip [OF _ civil, simplified]
  have num: "nat y < 10 ^ 4" "nat m < 10 ^ 2" "nat d < 10 ^ 2" "0 \<le> y" "0 \<le> m" "0 \<le> d"
    using date assms by auto
  let ?Y = "zero_padded 4 (nat y)" and ?M = "zero_padded 2 (nat m)" and ?D = "zero_padded 2 (nat d)"
  note Y = zero_padded_ok [OF num(1), simplified] and M = zero_padded_ok [OF num(2), simplified] and D = zero_padded_ok [OF num(3), simplified]
  define date' where "date' = ?Y @ ''-'' @ ?M @ ''-'' @ ?D"
  have name: "storage_file_name t = STORAGE_PREFIX @ date' @ STORAGE_SUFFIX"
    using civil by (simp add: date'_def storage_file_name_def unat_div)
  have shape: "length date' = 10" "date' ! 4 = CHR ''-''" "date' ! 7 = CHR ''-''" "take 4 date' = ?Y"
    "take 2 (drop 5 date') = ?M" "drop 8 date' = ?D"
    using Y(1) M(1) D(1) by (simp_all add: date'_def nth_append)
  have "parse_int True ?Y = Some y" "parse_int False ?M = Some m" "parse_int False ?D = Some d"
    using Y M D num parse_int_digits [of ?Y True] parse_int_digits [of ?M False] parse_int_digits [of ?D False]
    by (auto simp flip: length_greater_0_conv)
  moreover have "ends_with (date' @ STORAGE_SUFFIX) STORAGE_SUFFIX"
    "take (length (date' @ STORAGE_SUFFIX) - length STORAGE_SUFFIX) (date' @ STORAGE_SUFFIX) = date'"
    by (simp_all add: ends_with_iff)
  moreover have "strip_prefix STORAGE_PREFIX (storage_file_name t) = Some (date' @ STORAGE_SUFFIX)"
    by (simp add: name strip_prefix_Some)
  ultimately show ?thesis
    unfolding parse_storage_file_name_def Let_def using shape date civil by simp
qed

end
