(* ===== verification/DiagnosticService.thy ===== *)
theory DiagnosticService
  imports DiagnosticIndex DiagnosticDates ReportProperties
begin

text \<open>
  The store of incidents as a whole: what every operation keeps of it, however it is cut short, and what is left
  when the service is started again.
\<close>

section \<open>The invariant\<close>

definition ready :: "incident_parser \<Rightarrow> store_index \<Rightarrow> files \<Rightarrow> bool" where
  "ready parse ix m \<longleftrightarrow> sound m m \<and> once parse m \<and> indexed parse m ix"

definition safe :: "incident_parser \<Rightarrow> files \<Rightarrow> bool" where
  "safe parse m \<longleftrightarrow> plain m \<and> once parse m"

definition store_ok :: "incident_parser \<Rightarrow> diagnostic_store \<Rightarrow> files \<Rightarrow> bool" where
  "store_ok parse store m \<longleftrightarrow> safe parse m \<and> (ds_poisoned store \<or> ready parse (ds_index store) m)"

lemma kept_safe: "safe parse m0 \<Longrightarrow> kept m0 m \<Longrightarrow> safe parse m"
  using once_shrunk [of parse m0 m] by (simp add: safe_def kept_def)

lemma ready_safe: "ready parse ix m \<Longrightarrow> safe parse m"
  by (simp add: ready_def safe_def sound_def kept_def)

lemma sound_self: "sound m m \<longleftrightarrow> plain m \<and> all_settled m \<and> all_whole m"
  by (auto simp: sound_def kept_def)

lemma ready_same: "ready parse ix m0 \<Longrightarrow> sound m0 m \<Longrightarrow> same_content m0 m \<Longrightarrow> ready parse ix m"
  using same_held(2) [of m0 m parse] same_held(3) [of m0 m parse ix] by (simp add: ready_def sound_def kept_def)

lemma sound_whole: "sound m0 m \<Longrightarrow> whole_content m"
  by (simp add: sound_def settled_whole [symmetric])

lemma same_total_size:
  assumes "sound m1 m" "sound m2 m'" "same_content m m'"
  shows "total_size m' = total_size m"
proof (rule total_same)
  have get: "hm_get x k = stored k x" if "all_settled x" "is_storage_name k" for x k
    using that by (auto simp: all_settled_def settled_def stored_def split: option.split)
  fix k assume "is_storage_name k"
  then show "hm_get m' k = hm_get m k" using assms get by (simp add: sound_def same_content_def)
qed

section \<open>Runs on tidy disks\<close>

definition calmly :: "(files \<Rightarrow> bool) \<Rightarrow> 'a io \<Rightarrow> ('a \<Rightarrow> files \<Rightarrow> bool) \<Rightarrow> (files \<Rightarrow> bool) \<Rightarrow> bool" where
  "calmly P m Q I \<longleftrightarrow> (\<forall>d r d'. tidy d \<longrightarrow> P (dk_files d) \<longrightarrow> m d = (r, d') \<longrightarrow>
     (case r of Done a \<Rightarrow> Q a (dk_files d') | _ \<Rightarrow> I (dk_files d')))"

lemma calmlyI:
  "(\<And>d r d'. tidy d \<Longrightarrow> P (dk_files d) \<Longrightarrow> m d = (r, d') \<Longrightarrow>
     (case r of Done a \<Rightarrow> Q a (dk_files d') | _ \<Rightarrow> I (dk_files d'))) \<Longrightarrow> calmly P m Q I"
  by (simp add: calmly_def)

lemma calmlyD:
  "calmly P m Q I \<Longrightarrow> tidy d \<Longrightarrow> P (dk_files d) \<Longrightarrow> m d = (r, d') \<Longrightarrow>
     (case r of Done a \<Rightarrow> Q a (dk_files d') | _ \<Rightarrow> I (dk_files d'))"
  by (simp add: calmly_def)

lemma calmly_runs: "runs P m Q I \<Longrightarrow> calmly P m Q I"
  by (simp add: calmly_def runs_def)

lemma calmly_pre: "calmly P m Q I \<Longrightarrow> (\<And>m. P' m \<Longrightarrow> P m) \<Longrightarrow> calmly P' m Q I"
  unfolding calmly_def by blast

lemma calmly_post:
  "calmly P m Q I \<Longrightarrow> (\<And>a m. Q a m \<Longrightarrow> Q' a m) \<Longrightarrow> (\<And>m. I m \<Longrightarrow> I' m) \<Longrightarrow> calmly P m Q' I'"
  unfolding calmly_def by (fastforce split: outcome.splits)

lemma calmly_bind:
  assumes "calmly P m Q I" and "\<And>a. runs (Q a) (f a) R I"
  shows "calmly P (io_bind m f) R I"
proof (rule calmlyI)
  fix d r d' assume d: "tidy d" "P (dk_files d)" and run: "io_bind m f d = (r, d')"
  obtain r1 d1 where m: "m d = (r1, d1)" by fastforce
  from calmlyD [OF assms(1) d m] have first: "case r1 of Done a \<Rightarrow> Q a (dk_files d1) | _ \<Rightarrow> I (dk_files d1)" .
  show "case r of Done a \<Rightarrow> R a (dk_files d') | _ \<Rightarrow> I (dk_files d')"
    using first run m runsD [OF assms(2), of _ d1 r d'] by (cases r1) (auto simp: io_bind_def)
qed

lemma calmly_lifted:
  assumes "calmly P m Q I"
  shows "calmly P (lifted m) (\<lambda>r x. case r of Inr a \<Rightarrow> Q a x | Inl _ \<Rightarrow> I x) I"
proof (rule calmlyI)
  fix d r d' assume d: "tidy d" "P (dk_files d)" and run: "lifted m d = (r, d')"
  obtain r1 d1 where m: "m d = (r1, d1)" by fastforce
  from calmlyD [OF assms d m] run m show "case r of Done a \<Rightarrow> case a of Inr a \<Rightarrow> Q a (dk_files d') | Inl _ \<Rightarrow> I (dk_files d')
      | _ \<Rightarrow> I (dk_files d')"
    by (cases r1) (auto simp: lifted_def io_defs)
qed

lemma calmly_ck_bind:
  assumes "calmly P m (\<lambda>r x. case r of Inr a \<Rightarrow> Q a x | Inl _ \<Rightarrow> J x) I" and "\<And>a. runs (Q a) (f a) R I"
    and "\<And>e x. J x \<Longrightarrow> R (Inl e) x"
  shows "calmly P (ck_bind m f) R I"
  unfolding ck_bind_def
proof (rule calmly_bind [OF assms(1)])
  fix r show "runs (\<lambda>x. case r of Inr a \<Rightarrow> Q a x | Inl _ \<Rightarrow> J x)
      (case r of Inl e \<Rightarrow> io_return (Inl e) | Inr a \<Rightarrow> f a) R I"
    using assms(2,3) by (cases r) (auto intro: runs_return)
qed

lemma calmly_return: "(\<And>m. P m \<Longrightarrow> Q a m) \<Longrightarrow> calmly P (io_return a) Q I"
  by (rule calmly_runs [OF runs_return])

lemma recover_calm:
  "calmly (\<lambda>m. m = m0 \<and> sound m0 m0) recover_rewrite_artifacts (\<lambda>_ m. sound m0 m \<and> no_backups m \<and> same_content m0 m) (kept m0)"
proof (rule calmlyI)
  fix d r d' assume d: "tidy d" "dk_files d = m0 \<and> sound m0 m0" and run: "recover_rewrite_artifacts d = (r, d')"
  have pre: "dk_files d = m0 \<and> plain m0" using d by (simp add: sound_self)
  from runsD [OF recover_runs pre run] d recover_tidy [of d _ d'] run
  show "case r of Done a \<Rightarrow> sound m0 (dk_files d') \<and> no_backups (dk_files d') \<and> same_content m0 (dk_files d')
      | _ \<Rightarrow> kept m0 (dk_files d')"
    by (cases r) (auto simp: sound_def kept_def same_shrunk settled_whole dest: same_content_whole)
qed

lemma prune_for_append_calm:
  "calmly (\<lambda>m. m = m0 \<and> sound m0 m0) (prune_for_append random now_ms policy incoming)
     (\<lambda>r m. case r of Inl _ \<Rightarrow> kept m0 m
        | Inr changed \<Rightarrow> sound m0 m \<and> (\<not> changed \<longrightarrow> same_content m0 m) \<and> total_size m + incoming \<le> rp_max_total_bytes policy)
     (kept m0)"
proof (cases "rp_max_total_bytes policy < incoming")
  case True
  then show ?thesis by (auto simp: prune_for_append_def sound_def intro!: calmly_return)
next
  case False
  then have "incoming \<le> rp_max_total_bytes policy" by simp
  from calmly_ck_bind [OF calmly_lifted [OF recover_calm] make_room_runs [OF this]] False show ?thesis
    unfolding prune_for_append_def by (simp del: not_less)
qed

lemma prune_directory_calm:
  "calmly (\<lambda>m. m = m0 \<and> sound m0 m0) (prune_directory now_ms policy)
     (\<lambda>report m. sound m0 m \<and> no_backups m \<and> pr_retained_bytes report = total_size m) (kept m0)"
  unfolding prune_directory_def io_then_def by (rule calmly_bind [OF recover_calm prune_directory_runs])

section \<open>Recovery\<close>

lemma rebuild_runs:
  "runs (\<lambda>m. safe parse m) (recover_and_rebuild_index parse) (\<lambda>ix m. ready parse ix m) (safe parse)"
proof (rule runs_each)
  fix m0 assume m0: "safe parse m0"
  have state: "runs (\<lambda>m. m = m0) recover_store_state (\<lambda>_ m. sound m0 m) (kept m0)"
    using m0 by (intro runs_pre [OF runs_post [OF recover_state_runs [of m0]]]) (auto simp: safe_def)
  have "runs (sound m0) (load_index parse) (ready parse) (safe parse)"
  proof (rule runs_each)
    fix m1 assume m1: "sound m0 m1"
    then have "safe parse m1" using kept_safe [OF m0] by (simp add: sound_def)
    then show "runs (\<lambda>m. m = m1) (load_index parse) (ready parse) (safe parse)"
      using m1 by (intro runs_pre [OF runs_post [OF load_index_runs [of m1]]])
        (auto simp: ready_def safe_def sound_def kept_def)
  qed
  moreover have "runs (\<lambda>m. m = m0) recover_store_state (\<lambda>_ m. sound m0 m) (safe parse)"
    by (rule runs_post [OF state _ kept_safe [OF m0]])
  ultimately show "runs (\<lambda>m. m = m0) (recover_and_rebuild_index parse) (ready parse) (safe parse)"
    unfolding recover_and_rebuild_index_def by (intro runs_then)
qed

text \<open>Where no row is torn, a rebuild loses nothing.\<close>

lemma rebuild_same_runs:
  "runs (\<lambda>m. m = m0 \<and> plain m0 \<and> whole_content m0) (recover_and_rebuild_index parse) (\<lambda>_. same_content m0) (same_content m0)"
proof -
  have "runs (\<lambda>m. m = m0 \<and> plain m0 \<and> whole_content m0) recover_store_state (\<lambda>_. same_content m0) (same_content m0)"
  proof (cases "whole_content m0")
    case True
    then show ?thesis
      by (intro runs_pre [OF runs_post [OF recover_state_runs [of m0]]]) auto
  qed (simp add: runs_none)
  moreover have "runs (same_content m0) (load_index parse) (\<lambda>_. same_content m0) (same_content m0)"
  proof -
    have read: "runs (same_content m0) (read_each parse es) (\<lambda>_. same_content m0) (same_content m0)" for es
    proof (induction es)
      case (Cons e es)
      obtain d n k where e: "e = (d, n, k)" by (cases e)
      have "runs (same_content m0) (read_jsonl_records parse n) (\<lambda>_. same_content m0) (same_content m0)"
        unfolding read_jsonl_records_def by (rule runs_bind [OF runs_read]) (auto intro: runs_return)
      then show ?case unfolding e read_each.simps using Cons by (auto intro!: runs_bind runs_return)
    qed (auto intro: runs_return)
    have "runs (same_content m0) storage_files (\<lambda>_. same_content m0) (same_content m0)"
      unfolding storage_files_def by (rule runs_call) auto
    then show ?thesis
      unfolding load_index_def for_each_record_def using read by (auto intro!: runs_bind runs_return)
  qed
  ultimately show ?thesis unfolding recover_and_rebuild_index_def by (rule runs_then)
qed

lemma reconcile_runs:
  "runs (safe parse) (reconcile_or_poison parse store) (\<lambda>store'. store_ok parse store') (safe parse)"
  unfolding reconcile_or_poison_def
proof (rule runs_catch [where J = "safe parse"])
  show "runs (safe parse) (io_bind (recover_and_rebuild_index parse) (\<lambda>index. io_return (store\<lparr>ds_index := index\<rparr>)))
      (\<lambda>store'. store_ok parse store') (safe parse)"
    by (rule runs_bind [OF rebuild_runs]) (auto intro!: runs_return simp: store_ok_def ready_safe)
qed (auto intro!: runs_return simp: store_ok_def)

lemma rebuild_or_fail_runs:
  assumes "\<not> ds_poisoned store"
  shows "runs (\<lambda>m. m = m1 \<and> sound m1 m1 \<and> once parse m1) (rebuild_or_fail parse store)
     (\<lambda>(r, store') m. case r of Inl _ \<Rightarrow> store_ok parse store' m
        | Inr _ \<Rightarrow> \<not> ds_poisoned store' \<and> ready parse (ds_index store') m \<and> same_content m1 m) (safe parse)"
  unfolding rebuild_or_fail_def
proof (rule runs_catch [where J = "safe parse"])
  have "runs (\<lambda>m. m = m1 \<and> sound m1 m1 \<and> once parse m1) (recover_and_rebuild_index parse)
      (\<lambda>ix m. ready parse ix m \<and> same_content m1 m) (\<lambda>m. safe parse m \<and> same_content m1 m)"
    by (rule runs_conj [OF runs_pre [OF rebuild_runs] runs_pre [OF rebuild_same_runs]]) (auto simp: safe_def sound_self settled_whole)
  then have "runs (\<lambda>m. m = m1 \<and> sound m1 m1 \<and> once parse m1) (recover_and_rebuild_index parse)
      (\<lambda>ix m. ready parse ix m \<and> same_content m1 m) (safe parse)"
    by (rule runs_post) auto
  then show "runs (\<lambda>m. m = m1 \<and> sound m1 m1 \<and> once parse m1)
      (io_bind (recover_and_rebuild_index parse) (\<lambda>index. io_return (Inr (), store\<lparr>ds_index := index\<rparr>)))
      (\<lambda>(r, store') m. case r of Inl _ \<Rightarrow> store_ok parse store' m
        | Inr _ \<Rightarrow> \<not> ds_poisoned store' \<and> ready parse (ds_index store') m \<and> same_content m1 m) (safe parse)"
    by (rule runs_bind) (auto intro!: runs_return simp: assms)
qed (auto intro!: runs_return simp: store_ok_def)

section \<open>Ingestion\<close>

lemma make_room_calm:
  assumes "\<not> ds_poisoned store"
  shows "calmly (\<lambda>m. m = m0 \<and> ready parse (ds_index store) m0)
     (make_room parse random received_at_ms (Some policy) incoming store)
     (\<lambda>(r, store') m. case r of Inl _ \<Rightarrow> store_ok parse store' m
        | Inr _ \<Rightarrow> \<not> ds_poisoned store' \<and> ready parse (ds_index store') m \<and> shrunk m0 m
            \<and> total_size m + incoming \<le> rp_max_total_bytes policy) (safe parse)"
    (is "calmly ?P _ ?Q _")
proof (cases "ready parse (ds_index store) m0")
  case m0: True
  have safe: "safe parse m0" by (rule ready_safe [OF m0])
  have sound: "sound m0 m0" using m0 by (simp add: ready_def)
  let ?R = "\<lambda>r m. case r of Inl _ \<Rightarrow> kept m0 m
    | Inr changed \<Rightarrow> sound m0 m \<and> (\<not> changed \<longrightarrow> same_content m0 m) \<and> total_size m + incoming \<le> rp_max_total_bytes policy"
  have prune: "calmly ?P (prune_for_append random received_at_ms policy incoming) ?R (safe parse)"
    by (rule calmly_pre [OF calmly_post [OF prune_for_append_calm [of m0]]]) (auto simp: sound kept_safe [OF safe])
  have failed: "runs (kept m0) (io_bind (reconcile_or_poison parse store) (\<lambda>store. io_return (Inl error, store))) ?Q (safe parse)"
    for error :: diagnostics_error
    by (rule runs_bind [OF runs_pre [OF reconcile_runs]]) (auto intro!: runs_return simp: kept_safe [OF safe])
  have "runs (?R (Inr changed)) (if changed then rebuild_or_fail parse store else io_return (Inr (), store)) ?Q (safe parse)" for changed
  proof (cases changed)
    case True
    have "runs (?R (Inr changed)) (rebuild_or_fail parse store) ?Q (safe parse)"
    proof (rule runs_each)
      fix m1 assume m1: "?R (Inr changed) m1"
      then have s1: "sound m1 m1" "once parse m1" "shrunk m0 m1"
        using kept_safe [OF safe, of m1] by (auto simp: sound_def safe_def kept_def)
      show "runs (\<lambda>m. m = m1) (rebuild_or_fail parse store) ?Q (safe parse)"
      proof (rule runs_pre [OF runs_post [OF rebuild_or_fail_runs [OF assms, of m1]]])
        fix a :: "(diagnostics_error + unit) \<times> diagnostic_store" and m
        assume a: "(case a of (r, store') \<Rightarrow> \<lambda>m. case r of Inl _ \<Rightarrow> store_ok parse store' m
          | Inr _ \<Rightarrow> \<not> ds_poisoned store' \<and> ready parse (ds_index store') m \<and> same_content m1 m) m"
        have "total_size m = total_size m1" if "ready parse ix m" "same_content m1 m" for ix
          using same_total_size [OF s1(1) _ that(2)] that(1) by (auto simp: ready_def)
        then show "?Q a m"
          using a m1 shrunk_trans [OF s1(3)] by (auto split: sum.splits simp: same_shrunk)
      qed (use s1 in auto)
    qed
    then show ?thesis using True by simp
  next
    case False
    show ?thesis
      using ready_same [OF m0] by (auto simp: False assms same_shrunk intro!: runs_return)
  qed
  then have "runs (?R r) (case r of Inl error \<Rightarrow> io_bind (reconcile_or_poison parse store) (\<lambda>store. io_return (Inl error, store))
      | Inr changed \<Rightarrow> if changed then rebuild_or_fail parse store else io_return (Inr (), store)) ?Q (safe parse)" for r
    using failed by (cases r) simp_all
  from calmly_bind [OF prune this] show ?thesis by (simp add: make_room_def)
qed (simp add: calmly_def)

lemma append_failed_runs:
  "runs (safe parse) (append_failed parse path store) (\<lambda>(r, store') m. store_ok parse store' m \<and> r = Inl IoFailed) (safe parse)"
  unfolding append_failed_def
proof (rule runs_bind [OF runs_try [where Q = "safe parse"]])
  show "runs (safe parse) (io_then (fs_call (\<lambda>m. if hm_get m path = None then Inl NotFound else Inr ((), m))) fs_sync)
      (\<lambda>_. safe parse) (safe parse)"
    unfolding fs_sync_def by (intro runs_then [OF runs_call] runs_call) (auto split: if_splits)
  let ?Q = "\<lambda>(r, store') m. store_ok parse store' m \<and> r = Inl IoFailed"
  fix synced
  have "runs (safe parse) (io_bind (reconcile_or_poison parse store) (\<lambda>store. io_return (Inl IoFailed, store))) ?Q (safe parse)"
    by (rule runs_bind [OF reconcile_runs]) (auto intro!: runs_return)
  moreover have "runs (safe parse) (io_return (Inl IoFailed, store\<lparr>ds_poisoned := True\<rparr>)) ?Q (safe parse)"
    by (rule runs_return) (simp add: store_ok_def)
  ultimately show "runs (\<lambda>x. if synced then safe parse x else safe parse x)
      (if \<not> synced then io_return (Inl IoFailed, store\<lparr>ds_poisoned := True\<rparr>)
       else io_bind (reconcile_or_poison parse store) (\<lambda>store. io_return (Inl IoFailed, store))) ?Q (safe parse)"
    by (cases synced) simp_all
qed

text \<open>A row that is new to the index.\<close>

lemma indexed_fresh:
  assumes "indexed parse m ix" "hm_get (ix_by_envelope_key ix) (envelope_key r) = None" "hm_get (ix_by_incident_id ix) (si_incident_id r) = None"
    and "(x, n) \<in> held parse m"
  shows "envelope_key x \<noteq> envelope_key r" "si_incident_id x \<noteq> si_incident_id r"
  using assms unfolding indexed_def names_held_def by (metis option.distinct(1))+

lemma grown_store:
  assumes m: "grown path m0 (take k (line @ [newline])) m" and path: "is_storage_name path"
    and m0: "ready (ic_parse codec) (ds_index store) m0"
    and codec: "codec_ok codec" "ic_render codec r = Some line" "length line \<le> MAX_STORED_RECORD_BYTES" and r: "well_formed_record r"
    and fresh: "\<And>x n. (x, n) \<in> held (ic_parse codec) m0 \<Longrightarrow> envelope_key x \<noteq> envelope_key r \<and> si_incident_id x \<noteq> si_incident_id r"
  shows "safe (ic_parse codec) m"
    "length line < k \<Longrightarrow> ready (ic_parse codec) (ds_index (index_new r path store)) m \<and> total_size m = total_size m0 + length line + 1"
proof -
  let ?parse = "ic_parse codec"
  have line: "line \<noteq> []" "newline \<notin> set line" "carriage_return \<notin> set line"
    using codec(1,2) unfolding codec_ok_def by blast+
  have files: "plain m0" "all_settled m0" "all_whole m0" "once ?parse m0" "indexed ?parse m0 (ds_index store)"
    using m0 by (simp_all add: ready_def sound_self)
  note view = grown_view [OF m path files(1-3) line(2,3,1)]
  obtain r' where r': "same_identity r' r" and recs: "disk_records ?parse m path = disk_records ?parse m0 path @ (if k < length line then [] else [r'])"
      "held ?parse m = (if k < length line then {} else {(r', path)}) \<union> held ?parse m0"
      "\<And>n. is_storage_name n \<Longrightarrow> n \<noteq> path \<Longrightarrow> disk_records ?parse m n = disk_records ?parse m0 n"
    using grown_records [OF view(4) view(5) codec r path] by blast
  note same = same_identity_names [OF r']
  have "unique envelope_key ?parse m" "unique si_incident_id ?parse m"
    using unique_grown [where f = envelope_key, OF _ path recs] unique_grown [where f = si_incident_id, OF _ path recs]
      files(4) fresh by (simp_all add: once_def same(1,2))
  then have once: "once ?parse m" by (simp add: once_def)
  then show "safe ?parse m" using view(1) by (simp add: safe_def)
  assume k: "length line < k"
  have "names_held envelope_key (hm_insert (envelope_key r) (index_entry_of r path) (ix_by_envelope_key (ds_index store))) (held ?parse m)"
    "names_held si_incident_id (hm_insert (si_incident_id r) (index_entry_of r path) (ix_by_incident_id (ds_index store))) (held ?parse m)"
    using files(5) fresh same(1-3) k recs(2)
      names_held_new [of envelope_key "ix_by_envelope_key (ds_index store)" "held ?parse m0" r' r path]
      names_held_new [of si_incident_id "ix_by_incident_id (ds_index store)" "held ?parse m0" r' r path]
    by (simp_all add: indexed_def)
  then have "indexed ?parse m (ds_index (index_new r path store))" by (simp add: indexed_def index_new_def)
  then show "ready ?parse (ds_index (index_new r path store)) m \<and> total_size m = total_size m0 + length line + 1"
    using once view(1,2) view(6) [OF k] by (simp add: ready_def sound_self)
qed

lemma write_record_runs:
  assumes path: "is_storage_name (storage_file_name (si_received_at_ms r))"
    and m0: "ready (ic_parse codec) (ds_index store) m0" "\<not> ds_poisoned store"
    and codec: "codec_ok codec" "ic_render codec r = Some line" "length line \<le> MAX_STORED_RECORD_BYTES" and r: "well_formed_record r"
    and fresh: "\<And>x n. (x, n) \<in> held (ic_parse codec) m0 \<Longrightarrow> envelope_key x \<noteq> envelope_key r \<and> si_incident_id x \<noteq> si_incident_id r"
  shows "runs (\<lambda>m. m = m0) (write_record (ic_parse codec) r line store)
     (\<lambda>(res, store') m. store_ok (ic_parse codec) store' m
        \<and> (case res of Inl _ \<Rightarrow> True | Inr outcome \<Rightarrow> outcome = Stored (si_incident_id r) \<and> \<not> ds_poisoned store'
             \<and> total_size m = total_size m0 + length line + 1
             \<and> hm_get (ix_by_envelope_key (ds_index store')) (envelope_key r)
                 = Some (index_entry_of r (storage_file_name (si_received_at_ms r))))) (safe (ic_parse codec))"
    (is "runs _ _ ?Q _")
proof -
  let ?parse = "ic_parse codec" and ?path = "storage_file_name (si_received_at_ms r)"
  have after: "safe ?parse m"
    "length line < k \<Longrightarrow> ready ?parse (ds_index (index_new r ?path store)) m \<and> total_size m = total_size m0 + length line + 1"
    if "grown ?path m0 (take k (line @ [newline])) m" for k m
    using grown_store [OF that path m0(1) codec r] fresh by blast+
  have whole: "or_default [] (hm_get m0 ?path) = [] \<or> last (or_default [] (hm_get m0 ?path)) = newline"
    using m0(1) path by (auto simp: ready_def sound_self all_whole_def or_default_def split: option.splits)
  have ok: "hm_ok m0" using m0(1) by (simp add: ready_def sound_self plain_def)
  have "runs (\<lambda>m. m = m0) (append_json_line ?path line) (\<lambda>_. grown ?path m0 (line @ [newline])) (safe ?parse)"
    by (rule runs_post [OF append_line_runs [OF ok whole]]) (use after(1) ready_safe [OF m0(1)] in auto)
  note attempt = runs_try [OF this]
  have "runs (\<lambda>x. if written then grown ?path m0 (line @ [newline]) x else safe ?parse x)
      (if \<not> written then append_failed ?parse ?path store
       else io_return (Inr (Stored (si_incident_id r)), index_new r ?path store)) ?Q (safe ?parse)" for written
  proof (cases written)
    case True
    have "runs (grown ?path m0 (line @ [newline])) (io_return (Inr (Stored (si_incident_id r)), index_new r ?path store)) ?Q (safe ?parse)"
    proof (rule runs_return)
      fix m assume "grown ?path m0 (line @ [newline]) m"
      then have "grown ?path m0 (take (length line + 1) (line @ [newline])) m" by simp
      from after(2) [OF this] after(1) [OF this] show "?Q (Inr (Stored (si_incident_id r)), index_new r ?path store) m"
        using m0(2) by (auto simp: store_ok_def index_new_def hm_simps)
    qed
    then show ?thesis using True by simp
  next
    case False
    have "runs (safe ?parse) (append_failed ?parse ?path store) ?Q (safe ?parse)"
      by (rule runs_post [OF append_failed_runs]) auto
    then show ?thesis using False by simp
  qed
  from runs_bind [OF attempt this] show ?thesis by (simp add: write_record_def Let_def)
qed

text \<open>The names a new record is given.\<close>

lemma hex_digits:
  assumes "n < 16"
  shows "is_lower_hex (hex_digit_lower n)" "is_ascii_hexdigit (hex_digit_lower n)" "\<not> is_ascii_uppercase (hex_digit_lower n)"
proof -
  have "byte_of (hex_digit_lower n) = (if n < 10 then 48 + n else 87 + n)"
    using assms by (simp add: hex_digit_lower_def byte_of_def)
  then show "is_lower_hex (hex_digit_lower n)" "is_ascii_hexdigit (hex_digit_lower n)" "\<not> is_ascii_uppercase (hex_digit_lower n)"
    using assms by (simp_all add: is_lower_hex_def is_ascii_hexdigit_def is_ascii_digit_def is_ascii_uppercase_def)
qed

lemma hex_bytes_ok:
  "length (hex_bytes s) = 2 * length s" "list_all is_lower_hex (hex_bytes s)"
  "list_all (\<lambda>b. is_ascii_hexdigit b \<and> \<not> is_ascii_uppercase b) (hex_bytes s)"
proof -
  have "byte_of b div 16 < 16" "byte_of b mod 16 < 16" for b by (simp_all add: byte_of_def less_mult_imp_div_less)
  then show "length (hex_bytes s) = 2 * length s" "list_all is_lower_hex (hex_bytes s)"
    "list_all (\<lambda>b. is_ascii_hexdigit b \<and> \<not> is_ascii_uppercase b) (hex_bytes s)"
    using hex_digits by (induction s) (simp_all add: hex_bytes_def)
qed

lemma found_member: "find P xs = Some x \<Longrightarrow> x \<in> set xs \<and> P x"
  by (induction xs) (auto split: if_splits)

lemma drawn_id:
  assumes "generate_unique_incident_id draws taken = Some i" "\<forall>draw \<in> set draws. length draw = 16"
  shows "validate_incident_id i = None" "\<not> taken i"
proof -
  obtain draw where draw: "draw \<in> set (take 8 draws)" "i = INCIDENT_ID_PREFIX @ hex_bytes draw" "\<not> taken i"
    using found_member [OF assms(1) [unfolded generate_unique_incident_id_def]] by auto
  then have "length draw = 16" using assms(2) by (auto dest: in_set_takeD)
  then show "validate_incident_id i = None" "\<not> taken i"
    using draw hex_bytes_ok(1,2) [of draw] by (simp_all add: validate_incident_id_def wrong_def strip_prefix_def)
qed

lemma digest_ok: "codec_ok codec \<Longrightarrow> validate_identity_digest (identity_digest (ic_mac codec) key identity)"
  using hex_bytes_ok(1,3) by (simp add: codec_ok_def validate_identity_digest_def identity_digest_def strip_prefix_def)

lemma sanitized_envelope_id [simp]: "en_envelope_id (sanitize_envelope e) = en_envelope_id e"
  by (simp add: sanitize_envelope_def)

lemma envelope_id_kept:
  assumes "validate_envelope e t = None"
  shows "validate_uuid (en_envelope_id (sanitize_envelope e)) ''envelope_id'' = None"
proof -
  have "validate_uuid (en_envelope_id e) ''envelope_id'' = None"
    using assms unfolding validate_envelope_def first_error_none by simp
  then show ?thesis by (simp add: sanitize_envelope_def)
qed

text \<open>
  What an ingestion answers. \<open>Stored\<close> means that the record is in the index with the digest of what was sent, and that
  the files keep to the bound of the policy.
\<close>

definition ingested ::
  "incident_codec \<Rightarrow> string \<Rightarrow> string \<Rightarrow> incident_envelope \<Rightarrow> retention_policy \<Rightarrow> (diagnostics_error + append_outcome) \<times> diagnostic_store \<Rightarrow> files \<Rightarrow> bool" where
  "ingested codec key identity envelope policy a m \<longleftrightarrow>
     (case a of (res, store') \<Rightarrow> store_ok (ic_parse codec) store' m
        \<and> (case res of Inr (Stored i) \<Rightarrow> \<not> ds_poisoned store' \<and> total_size m \<le> rp_max_total_bytes policy
             \<and> (\<exists>e. hm_get (ix_by_envelope_key (ds_index store'))
                  (identity_digest (ic_mac codec) key identity, en_envelope_id envelope) = Some e \<and> ie_incident_id e = i
                  \<and> payload_digest (ic_canonical codec) (sanitize_envelope envelope) = Some (ie_payload_digest e))
           | _ \<Rightarrow> True))"

lemma append_internal_calm:
  assumes codec: "codec_ok codec" and path: "is_storage_name (storage_file_name t)" and draws: "\<forall>draw \<in> set draws. length draw = 16"
    and m0: "ready (ic_parse codec) (ds_index store) m0" "\<not> ds_poisoned store"
  shows "calmly (\<lambda>m. m = m0) (append_internal codec draws random identity envelope t (Some policy) store)
     (ingested codec (ds_identity_key store) identity envelope policy) (safe (ic_parse codec))"
proof -
  let ?parse = "ic_parse codec" and ?Q = "ingested codec (ds_identity_key store) identity envelope policy"
  have ok: "store_ok ?parse store m0" using m0 ready_safe by (simp add: store_ok_def)
  have stop: "calmly (\<lambda>m. m = m0) (io_return (x, store)) ?Q (safe ?parse)" if "\<And>i. x \<noteq> Inr (Stored i)" for x
    by (rule calmly_return) (use ok that in \<open>auto simp: ingested_def split: sum.split append_outcome.split\<close>)
  show ?thesis
  proof (cases "validate_envelope envelope t")
    case None
    note valid = this
    let ?env = "sanitize_envelope envelope" and ?digest = "identity_digest (ic_mac codec) (ds_identity_key store) identity"
    show ?thesis
    proof (cases "validate_server_identity identity = None \<and> payload_digest (ic_canonical codec) ?env \<noteq> None
        \<and> hm_get (ix_by_envelope_key (ds_index store)) (?digest, en_envelope_id ?env) = None
        \<and> generate_unique_incident_id draws (\<lambda>i. hm_get (ix_by_incident_id (ds_index store)) i \<noteq> None) \<noteq> None")
      case False
      then show ?thesis
        using stop valid m0(2) by (auto simp: append_internal_def Let_def split: option.split)
    next
      case True
      then obtain payload i where new: "validate_server_identity identity = None" "payload_digest (ic_canonical codec) ?env = Some payload"
        "hm_get (ix_by_envelope_key (ds_index store)) (?digest, en_envelope_id ?env) = None"
        "generate_unique_incident_id draws (\<lambda>i. hm_get (ix_by_incident_id (ds_index store)) i \<noteq> None) = Some i"
        by auto
      let ?r = "\<lparr>si_record_version = STORED_RECORD_VERSION, si_incident_id = i, si_received_at_ms = t,
               si_authenticated_identity = sanitize_text identity, si_authenticated_identity_digest = ?digest,
               si_payload_digest = payload, si_envelope = ?env\<rparr>"
      note id = drawn_id [OF new(4) draws]
      have wf: "well_formed_record ?r"
        using id(1) digest_ok [OF codec] envelope_id_kept [OF valid] by (simp add: well_formed_record_def)
      show ?thesis
      proof (cases "\<exists>line. ic_render codec ?r = Some line \<and> length line \<le> MAX_STORED_RECORD_BYTES")
        case False
        then show ?thesis
          using stop valid new m0(2) by (cases "ic_render codec ?r") (auto simp: append_internal_def Let_def)
      next
        case True
        then obtain line where line: "ic_render codec ?r = Some line" "length line \<le> MAX_STORED_RECORD_BYTES" by blast
        let ?room = "make_room ?parse random t (Some policy) (length line + 1) store"
        let ?R = "\<lambda>(room, store') m. case room of Inl _ \<Rightarrow> store_ok ?parse store' m
          | Inr _ \<Rightarrow> \<not> ds_poisoned store' \<and> ready ?parse (ds_index store') m \<and> shrunk m0 m
              \<and> total_size m + (length line + 1) \<le> rp_max_total_bytes policy"
        have room: "calmly (\<lambda>m. m = m0) ?room ?R (safe ?parse)"
          by (rule calmly_pre [OF make_room_calm [OF m0(2)]]) (use m0 in simp)
        have writing: "runs (?R (Inr u, store'))
            (write_record ?parse ?r line store') ?Q (safe ?parse)" for store' u
        proof (rule runs_each)
          fix m1 assume "?R (Inr u, store') m1"
          then have m1: "ready ?parse (ds_index store') m1" "\<not> ds_poisoned store'" "shrunk m0 m1"
            "total_size m1 + (length line + 1) \<le> rp_max_total_bytes policy" by auto
          have fresh: "envelope_key x \<noteq> envelope_key ?r \<and> si_incident_id x \<noteq> si_incident_id ?r" if "(x, n) \<in> held ?parse m1" for x n
          proof -
            have "(x, n) \<in> held ?parse m0" using that held_shrunk [OF m1(3)] by blast
            moreover have "indexed ?parse m0 (ds_index store)" using m0(1) by (simp add: ready_def)
            ultimately show ?thesis
              using indexed_fresh [of ?parse m0 "ds_index store" ?r x n] new(3) id(2) by (simp add: envelope_key_def)
          qed
          have "is_storage_name (storage_file_name (si_received_at_ms ?r))" using path by simp
          from runs_post [OF write_record_runs [OF this m1(1,2) codec line wf fresh]]
          show "runs (\<lambda>m. m = m1) (write_record ?parse ?r line store') ?Q (safe ?parse)"
          proof (rule runs_post)
            fix a :: "(diagnostics_error + append_outcome) \<times> diagnostic_store" and m
            assume "(case a of (res, store') \<Rightarrow> \<lambda>m. store_ok ?parse store' m
              \<and> (case res of Inl _ \<Rightarrow> True | Inr outcome \<Rightarrow> outcome = Stored (si_incident_id ?r) \<and> \<not> ds_poisoned store'
                   \<and> total_size m = total_size m1 + length line + 1
                   \<and> hm_get (ix_by_envelope_key (ds_index store')) (envelope_key ?r)
                       = Some (index_entry_of ?r (storage_file_name (si_received_at_ms ?r))))) m"
            then show "?Q a m"
              using m1(4) new(2) by (auto simp: ingested_def envelope_key_def index_entry_of_def split: sum.splits)
          qed
        qed
        have "runs (?R a) (case a of (room, store') \<Rightarrow> case room of Inl error \<Rightarrow> io_return (Inl error, store')
            | Inr _ \<Rightarrow> write_record ?parse ?r line store') ?Q (safe ?parse)" for a
        proof (cases a)
          case (Pair room store')
          then show ?thesis
            using writing by (cases room) (auto simp: ingested_def intro!: runs_return)
        qed
        from calmly_bind [OF room this] show ?thesis
          using valid new line m0(2) by (simp add: append_internal_def Let_def)
      qed
    qed
  qed (use stop m0(2) in \<open>auto simp: append_internal_def\<close>)
qed

lemma ingest_calm:
  assumes codec: "codec_ok codec" and path: "is_storage_name (storage_file_name t)" and draws: "\<forall>draw \<in> set draws. length draw = 16"
  shows "calmly (store_ok (ic_parse codec) store) (ingest_with_policy codec draws random identity body t policy store)
     (\<lambda>(res, store') m. store_ok (ic_parse codec) store' m
        \<and> (case res of Inr (Stored i) \<Rightarrow> total_size m \<le> rp_max_total_bytes policy | _ \<Rightarrow> True)) (safe (ic_parse codec))"
    (is "calmly ?P _ ?Q ?I")
proof (cases "parse_validate_and_sanitize (ic_parse_envelope codec) body t")
  case (Inl e)
  then show ?thesis by (auto simp: ingest_with_policy_def intro!: calmly_return)
next
  case (Inr envelope)
  show ?thesis
  proof (cases "ds_poisoned store")
    case True
    then show ?thesis by (auto simp: ingest_with_policy_def append_internal_def Inr intro!: calmly_return)
  next
    case False
    show ?thesis
      unfolding calmly_def
    proof (intro allI impI)
      fix d r d' assume d: "tidy d" "?P (dk_files d)" and run: "ingest_with_policy codec draws random identity body t policy store d = (r, d')"
      have m0: "ready (ic_parse codec) (ds_index store) (dk_files d)" using d(2) False by (simp add: store_ok_def)
      from calmlyD [OF append_internal_calm [OF codec path draws m0 False] d(1) refl run [unfolded ingest_with_policy_def Inr sum.case]]
      show "case r of Done a \<Rightarrow> ?Q a (dk_files d') | _ \<Rightarrow> ?I (dk_files d')"
        by (auto simp: ingested_def split: outcome.splits sum.splits append_outcome.splits)
    qed
  qed
qed

section \<open>Deletion\<close>

lemma matching_row:
  assumes "row_record parse l = Some r"
  shows "line_matches parse i l \<longleftrightarrow> si_incident_id r = i"
  using assms by (auto simp: row_record_def line_matches_def sanitize_stored_incident_def split: if_splits)

lemma unmatched_records:
  "filter well_formed_record (List.map_filter (row_record parse) (filter (\<lambda>l. \<not> line_matches parse i l) ls))
     = filter (\<lambda>r. si_incident_id r \<noteq> i) (filter well_formed_record (List.map_filter (row_record parse) ls))"
proof (induction ls)
  case (Cons l ls)
  then show ?case
    using matching_row [of parse l _ i] by (cases "row_record parse l") auto
qed simp

lemma without_incident_whole: "without_incident parse i c = [] \<or> last (without_incident parse i c) = newline"
proof -
  have "concat (map (\<lambda>l. l @ [newline]) ls) = [] \<or> last (concat (map (\<lambda>l. l @ [newline]) ls)) = newline" for ls
    by (cases ls rule: rev_cases) simp_all
  then show ?thesis unfolding without_incident_def by blast
qed

definition without :: "string \<Rightarrow> (stored_incident \<times> string) set \<Rightarrow> (stored_incident \<times> string) set" where
  "without i H = {(r, n) \<in> H. si_incident_id r \<noteq> i}"

lemma names_held_filter:
  assumes "names_held f tbl H"
  shows "names_held f (filter (\<lambda>(_, e). ie_incident_id e \<noteq> i) tbl) (without i H)"
proof -
  have ok: "hm_ok tbl" and all: "\<And>k e. hm_get tbl k = Some e \<longleftrightarrow> (\<exists>r n. (r, n) \<in> H \<and> f r = k \<and> e = index_entry_of r n)"
    using assms by (simp_all add: names_held_def)
  have "hm_get (filter (\<lambda>(_, e). ie_incident_id e \<noteq> i) tbl) k = Some e \<longleftrightarrow> hm_get tbl k = Some e \<and> ie_incident_id e \<noteq> i" for k e
    using hm_get_filter [OF ok, of "\<lambda>_ e. ie_incident_id e \<noteq> i" k] by (auto split: option.splits if_splits)
  then show ?thesis
    unfolding names_held_def all using ok by (auto simp: without_def index_entry_of_def)
qed

lemma names_held_remove:
  assumes "names_held si_incident_id tbl H"
  shows "names_held si_incident_id (hm_remove i tbl) (without i H)"
  using assms by (auto simp: names_held_def without_def hm_simps)

text \<open>The state after the file of an incident was rewritten.\<close>

lemma deleted_store:
  assumes m0: "ready parse (ds_index store) m0" and held: "(x, path) \<in> held parse m0" "si_incident_id x = i"
    and c: "hm_get m0 path = Some c" and m: "rewritten path c (without_incident parse i c) m0 m"
  shows "safe parse m" "held parse m \<subseteq> held parse m0" "without i (held parse m0) \<subseteq> held parse m"
    "hm_get m path = Some (without_incident parse i c) \<Longrightarrow>
       ready parse (ds_index (forget_incident i store)) m \<and> held parse m = without i (held parse m0)"
proof -
  let ?t = "without_incident parse i c"
  have files: "plain m0" "all_settled m0" "all_whole m0" "once parse m0" "indexed parse m0 (ds_index store)"
    using m0 by (simp_all add: ready_def sound_self)
  have path: "is_storage_name path" using held(1) by (simp add: held_def)
  have "carriage_return \<notin> set c" using files(1) path c by (auto simp: plain_def)
  note rows = without_incident_rows [OF this, of parse i]
  have stored: "stored path m0 = Some c" using c by (simp add: stored_def)
  note view = rewritten_view [OF m path stored files(1) rows(2)]
  have sub: "subseq (split_lines [] ?t) (split_lines [] c)" unfolding rows(1) by simp
  have shrunk: "plain m" "shrunk m0 m" using view sub by simp_all
  then show safe: "safe parse m" using once_shrunk files(4) by (simp add: safe_def)
  show "held parse m \<subseteq> held parse m0" by (rule held_shrunk [OF shrunk(2)])
  have other: "hm_get m n = hm_get m0 n \<and> hm_get m (backup_path n) = hm_get m0 (backup_path n)" if "is_storage_name n" "n \<noteq> path" for n
    using m that by (simp add: rewritten_def)
  have other_records: "disk_records parse m n = disk_records parse m0 n" if "is_storage_name n" "n \<noteq> path" for n
  proof -
    have "stored n m = stored n m0" unfolding stored_def using other [OF that] by (simp only:)
    then show ?thesis by (simp add: disk_records_def disk_rows_def)
  qed
  have "disk_rows m path \<in> {split_lines [] c, split_lines [] ?t}"
    using m by (auto simp: rewritten_def disk_rows_def stored_def split: option.splits)
  moreover have old: "disk_rows m0 path = split_lines [] c" using stored by (simp add: disk_rows_def)
  ultimately have cases: "disk_records parse m path \<in> {disk_records parse m0 path, filter (\<lambda>r. si_incident_id r \<noteq> i) (disk_records parse m0 path)}"
    using rows(1) unmatched_records [of parse i "split_lines [] c"] by (auto simp: disk_records_def)
  show "without i (held parse m0) \<subseteq> held parse m"
  proof clarify
    fix r n assume r: "(r, n) \<in> without i (held parse m0)"
    then show "(r, n) \<in> held parse m"
      using cases other_records [of n] by (cases "n = path") (auto simp: without_def held_def)
  qed
  assume t: "hm_get m path = Some ?t"
  then have "disk_rows m path = split_lines [] ?t" by (simp add: disk_rows_def stored_def)
  then have new: "disk_records parse m path = filter (\<lambda>r. si_incident_id r \<noteq> i) (disk_records parse m0 path)"
    using rows(1) unmatched_records [of parse i "split_lines [] c"] by (simp add: disk_records_def old)
  have "held parse m = without i (held parse m0)"
  proof (intro set_eqI)
    fix p :: "stored_incident \<times> string"
    obtain r n where p: "p = (r, n)" by (cases p)
    have "si_incident_id r \<noteq> i" if "(r, n) \<in> held parse m0" "n \<noteq> path"
    proof
      assume "si_incident_id r = i"
      then have "(r, n) = (x, path)"
        using inj_onD [of "\<lambda>(r, _). si_incident_id r" "held parse m0" "(r, n)" "(x, path)"] that(1) held files(4)
        by (simp add: once_def unique_def)
      then show False using that(2) by simp
    qed
    then show "p \<in> held parse m \<longleftrightarrow> p \<in> without i (held parse m0)"
      using new other_records [of n] path by (cases "n = path") (auto simp: held_def without_def p)
  qed
  moreover have "all_settled m"
    unfolding all_settled_def
  proof (intro allI impI)
    fix n assume n: "is_storage_name n"
    show "settled n m" using other [OF n] t files(2) n by (cases "n = path") (auto simp: settled_def all_settled_def)
  qed
  moreover have "all_whole m"
    unfolding all_whole_def
  proof (intro allI impI)
    fix n y assume n: "is_storage_name n \<and> hm_get m n = Some y"
    show "y = [] \<or> last y = newline"
    proof (cases "n = path")
      case True
      then show ?thesis using n t without_incident_whole [of parse i c] by simp
    next
      case False
      then have "hm_get m0 n = Some y" using n other [of n] by simp
      then show ?thesis using n files(3) unfolding all_whole_def by blast
    qed
  qed
  moreover have "names_held envelope_key (ix_by_envelope_key (ds_index (forget_incident i store))) (without i (held parse m0))"
    "names_held si_incident_id (ix_by_incident_id (ds_index (forget_incident i store))) (without i (held parse m0))"
    using files(5) names_held_filter [of envelope_key] names_held_remove by (simp_all add: indexed_def forget_incident_def)
  ultimately show "ready parse (ds_index (forget_incident i store)) m \<and> held parse m = without i (held parse m0)"
    using safe shrunk(1) by (simp add: ready_def sound_self indexed_def safe_def)
qed

text \<open>
  A deletion: when it answers that the incident was removed, exactly its records are gone; whatever else it answers,
  and wherever it dies, every other record is still there.
\<close>

definition deleted :: "incident_parser \<Rightarrow> string \<Rightarrow> files \<Rightarrow> files \<Rightarrow> bool" where
  "deleted parse i m0 m \<longleftrightarrow> safe parse m \<and> held parse m \<subseteq> held parse m0 \<and> without i (held parse m0) \<subseteq> held parse m"

lemma deleted_self: "safe parse m0 \<Longrightarrow> deleted parse i m0 m0"
  by (auto simp: deleted_def without_def)

lemma deleted_same: "deleted parse i m0 m \<Longrightarrow> same_content m m' \<Longrightarrow> safe parse m' \<Longrightarrow> deleted parse i m0 m'"
  using same_held(1) [of m m' parse] by (simp add: deleted_def)

lemma rewritten_whole:
  assumes "rewritten path c t m0 m" "whole_content m0" "stored path m0 = Some c" "t = [] \<or> last t = newline" "is_storage_name path"
  shows "whole_content m"
  unfolding whole_content_def
proof (intro allI impI)
  fix n x assume n: "is_storage_name n \<and> stored n m = Some x"
  have "c = [] \<or> last c = newline" using assms(2,3,5) by (auto simp: whole_content_def)
  moreover have "x = c \<or> x = t" if "n = path"
    using n assms(1) that by (auto simp: rewritten_def stored_def split: option.splits)
  moreover have "stored n m0 = Some x" if "n \<noteq> path"
    using n assms(1) that unfolding rewritten_def stored_def by metis
  ultimately show "x = [] \<or> last x = newline"
    using n assms(2,4) unfolding whole_content_def by metis
qed

lemma reconcile_deleted_runs:
  "runs (\<lambda>m. m = m1 \<and> deleted parse i m0 m1 \<and> whole_content m1) (reconcile_or_poison parse store)
     (\<lambda>store' m. store_ok parse store' m \<and> deleted parse i m0 m) (deleted parse i m0)"
  unfolding reconcile_or_poison_def
proof (rule runs_catch [where J = "deleted parse i m0"])
  let ?P = "\<lambda>m. m = m1 \<and> deleted parse i m0 m1 \<and> whole_content m1"
  have "runs ?P (recover_and_rebuild_index parse) (\<lambda>ix m. ready parse ix m \<and> deleted parse i m0 m) (deleted parse i m0)"
  proof (cases "?P m1")
    case True
    have "runs ?P (recover_and_rebuild_index parse) (\<lambda>ix m. ready parse ix m \<and> same_content m1 m) (\<lambda>m. safe parse m \<and> same_content m1 m)"
      by (rule runs_conj [OF runs_pre [OF rebuild_runs] runs_pre [OF rebuild_same_runs]]) (auto simp: deleted_def safe_def)
    then show ?thesis
      by (rule runs_post) (use True deleted_same ready_safe in blast)+
  next
    case False
    show ?thesis by (rule runs_none) (use False in blast)
  qed
  then show "runs ?P (io_bind (recover_and_rebuild_index parse) (\<lambda>index. io_return (store\<lparr>ds_index := index\<rparr>)))
      (\<lambda>store' m. store_ok parse store' m \<and> deleted parse i m0 m) (deleted parse i m0)"
    by (rule runs_bind) (auto intro!: runs_return simp: store_ok_def ready_safe)
qed (auto intro!: runs_return simp: store_ok_def deleted_def)

lemma delete_runs:
  assumes store: "store_ok parse store m0"
  shows "runs (\<lambda>m. m = m0) (delete_incident parse random i store)
     (\<lambda>(res, store') m. store_ok parse store' m \<and> deleted parse i m0 m
        \<and> (res = Inr True \<longrightarrow> held parse m = without i (held parse m0))) (deleted parse i m0)"
    (is "runs _ _ ?Q ?I")
proof -
  have safe: "safe parse m0" using store by (simp add: store_ok_def)
  have stop: "runs (\<lambda>m. m = m0) (io_return (x, store)) ?Q ?I" if "x \<noteq> Inr True" for x
    by (rule runs_return) (use store that deleted_self [OF safe] in auto)
  show ?thesis
  proof (cases "ds_poisoned store \<or> validate_incident_id i \<noteq> None \<or> hm_get (ix_by_incident_id (ds_index store)) i = None")
    case True
    then show ?thesis using stop by (auto simp: delete_incident_def split: option.split)
  next
    case False
    then obtain entry where go: "\<not> ds_poisoned store" "validate_incident_id i = None"
      "hm_get (ix_by_incident_id (ds_index store)) i = Some entry" by auto
    have m0: "ready parse (ds_index store) m0" using store go(1) by (simp add: store_ok_def)
    then obtain x path where x: "(x, path) \<in> held parse m0" "si_incident_id x = i" "entry = index_entry_of x path"
      using go(3) by (auto simp: ready_def indexed_def names_held_def)
    have path: "is_storage_name path" and found: "disk_rows m0 path \<noteq> []"
      using x(1) by (auto simp: held_def disk_records_def)
    have sound: "sound m0 m0" using m0 by (simp add: ready_def)
    have files: "plain m0" "all_settled m0" "whole_content m0"
      using sound sound_whole [OF sound] by (simp_all add: sound_self)
    then obtain c where c: "hm_get m0 path = Some c"
      using found path by (auto simp: disk_rows_def stored_def all_settled_def settled_def split: option.splits)
    let ?t = "without_incident parse i c"
    note after = deleted_store [OF m0 x(1,2) c]
    have I: "?I m \<and> whole_content m" if "rewritten path c ?t m0 m" for m
      using after [OF that] rewritten_whole [OF that files(3) _ without_incident_whole path] c
      by (simp add: deleted_def stored_def)
    have same: "store_ok parse store m \<and> ?I m" if "alongside m0 m" for m
    proof -
      note view = alongside_view [OF that]
      have "sound m0 m" using view files settled_whole same_content_whole [OF view(1)] by (simp add: sound_def kept_def same_shrunk)
      then have "ready parse (ds_index store) m" by (rule ready_same [OF m0 _ view(1)])
      then show ?thesis using deleted_same [OF deleted_self [OF safe] view(1)] ready_safe by (auto simp: store_ok_def)
    qed
    let ?Q' = "\<lambda>found m. if found then rewritten path c ?t m0 m \<and> hm_get m path = Some ?t else alongside m0 m"
    have rewrite: "runs (\<lambda>m. m = m0) (rewrite_without_incident parse (random path) path i) ?Q' (rewritten path c ?t m0)"
      by (rule runs_post [OF rewrite_without_runs [OF path c refl]]) auto
    have "runs (\<lambda>m. case r of Inr found \<Rightarrow> ?Q' found m | Inl _ \<Rightarrow> rewritten path c ?t m0 m)
        (case r of Inl error \<Rightarrow> io_bind (reconcile_or_poison parse store) (\<lambda>store. io_return (Inl error, store))
         | Inr removed \<Rightarrow> io_return (Inr removed, if removed then forget_incident i store else store)) ?Q ?I" for r
    proof (cases r)
      case (Inl e)
      have "runs (rewritten path c ?t m0) (reconcile_or_poison parse store) (\<lambda>store' m. store_ok parse store' m \<and> ?I m) ?I"
        by (rule runs_each, rule runs_pre [OF reconcile_deleted_runs]) (use I in blast)
      then have "runs (rewritten path c ?t m0) (io_bind (reconcile_or_poison parse store) (\<lambda>store. io_return (Inl e, store))) ?Q ?I"
        by (rule runs_bind) (auto intro!: runs_return)
      then show ?thesis by (simp add: Inl)
    next
      case (Inr found)
      show ?thesis
      proof (cases found)
        case True
        have "runs (\<lambda>m. rewritten path c ?t m0 m \<and> hm_get m path = Some ?t) (io_return (Inr True, forget_incident i store)) ?Q ?I"
          by (rule runs_return) (use after(1,4) I ready_safe in \<open>auto simp: store_ok_def\<close>)
        then show ?thesis using True Inr by simp
      next
        case False
        have "runs (alongside m0) (io_return (Inr False, store)) ?Q ?I" by (rule runs_return) (use same in auto)
        then show ?thesis using False Inr by simp
      qed
    qed
    note rest = this
    have "runs (\<lambda>m. m = m0) (lifted (rewrite_without_incident parse (random path) path i))
        (\<lambda>r m. case r of Inr found \<Rightarrow> ?Q' found m | Inl _ \<Rightarrow> rewritten path c ?t m0 m) ?I"
      by (rule runs_post [OF runs_lifted [OF rewrite]]) (use I in auto)
    moreover have "checked_storage_path (ie_file_name entry) = Inr path"
      using x(3) path by (auto simp: checked_storage_path_def index_entry_of_def is_storage_name_def)
    ultimately show ?thesis
      using runs_bind [OF _ rest] go by (simp add: delete_incident_def)
  qed
qed

section \<open>Pruning and opening\<close>

lemma prune_store_calm:
  "calmly (store_ok parse store) (prune_store parse now_ms policy store)
     (\<lambda>(res, store') m. store_ok parse store' m) (safe parse)"
proof (cases "ds_poisoned store")
  case True
  then show ?thesis by (auto simp: prune_store_def intro!: calmly_return)
next
  case False
  have "calmly (\<lambda>m. m = m0) (prune_store parse now_ms policy store) (\<lambda>(res, store') m. store_ok parse store' m) (safe parse)"
    if m0: "store_ok parse store m0" for m0
  proof -
    have ready: "ready parse (ds_index store) m0" using m0 False by (simp add: store_ok_def)
    then have safe: "safe parse m0" and sound: "sound m0 m0" using ready_safe by (auto simp: ready_def)
    have "calmly (\<lambda>m. m = m0) (prune_directory now_ms policy) (\<lambda>_. safe parse) (safe parse)"
      by (rule calmly_pre [OF calmly_post [OF prune_directory_calm [of m0]]])
        (use sound kept_safe [OF safe] in \<open>auto simp: sound_def\<close>)
    then have pruned: "calmly (\<lambda>m. m = m0) (lifted (prune_directory now_ms policy)) (\<lambda>_. safe parse) (safe parse)"
      by (rule calmly_post [OF calmly_lifted]) (auto split: sum.splits)
    have "runs (safe parse) (rebuild_or_fail parse store) (\<lambda>(_, store') m. store_ok parse store' m) (safe parse)"
      unfolding rebuild_or_fail_def
    proof (rule runs_catch [where J = "safe parse"])
      show "runs (safe parse) (io_bind (recover_and_rebuild_index parse) (\<lambda>index. io_return (Inr (), store\<lparr>ds_index := index\<rparr>)))
          (\<lambda>(_, store') m. store_ok parse store' m) (safe parse)"
        by (rule runs_bind [OF rebuild_runs]) (auto intro!: runs_return simp: store_ok_def ready_safe)
    qed (auto intro!: runs_return simp: store_ok_def)
    then have "runs (safe parse) (io_bind (rebuild_or_fail parse store) (\<lambda>(rebuilt, store).
        io_return (case rebuilt of Inl error \<Rightarrow> Inl error | Inr _ \<Rightarrow> report, store)))
        (\<lambda>(res, store') m. store_ok parse store' m) (safe parse)" for report :: "diagnostics_error + prune_report"
      by (rule runs_bind) (auto intro!: runs_return)
    from calmly_bind [OF pruned this] show ?thesis using False by (simp add: prune_store_def)
  qed
  then show ?thesis unfolding calmly_def by blast
qed

text \<open>Files beside the days are created.\<close>

lemma identity_key_runs:
  "runs (\<lambda>m. safe parse m \<and> sound m m \<and> (b \<longrightarrow> no_backups m)) (load_or_create_identity_key random_key)
     (\<lambda>_ m. safe parse m \<and> sound m m \<and> (b \<longrightarrow> no_backups m)) (safe parse)"
proof -
  let ?P = "\<lambda>m. safe parse m \<and> sound m m \<and> (b \<longrightarrow> no_backups m)"
  have aside: "?P m'" if "alongside m m'" "?P m" for m m'
  proof -
    note view = alongside_view [OF that(1)]
    have "safe parse m'" using that(2) view(2) same_held(2) [OF view(1), of parse] by (simp add: safe_def)
    moreover have "sound m' m'" using that(2) view(2,3) settled_whole [of m] settled_whole [of m'] same_content_whole [OF view(1)] by (simp add: sound_self)
    ultimately show ?thesis using that(2) view(4) by simp
  qed
  have put: "?P (hm_insert IDENTITY_KEY_FILE v m)" if "?P m" for v m
    by (rule aside [OF alongside_insert [OF aside_names(2) alongside_refl] that])
  have drop: "?P (hm_remove IDENTITY_KEY_FILE m)" if "?P m" for m
    by (rule aside [OF alongside_remove [OF aside_names(2) alongside_refl] that])
  have read: "runs ?P (io_catch (io_bind (fs_read IDENTITY_KEY_FILE) (\<lambda>key. io_return (Some key)))
      (\<lambda>error. if error = NotFound then io_return None else io_fail error)) (\<lambda>_. ?P) (safe parse)"
  proof (rule runs_catch [where J = ?P])
    have "runs ?P (fs_read IDENTITY_KEY_FILE) (\<lambda>c m. ?P m \<and> hm_get m IDENTITY_KEY_FILE = Some c) ?P" by (rule runs_read)
    then show "runs ?P (io_bind (fs_read IDENTITY_KEY_FILE) (\<lambda>key. io_return (Some key))) (\<lambda>_. ?P) ?P"
      by (rule runs_bind) (rule runs_return, simp)
  qed (auto intro!: runs_return runs_fail)
  have list: "runs ?P storage_files (\<lambda>_. ?P) (safe parse)"
    unfolding storage_files_def by (rule runs_call) auto
  have create: "runs ?P (fs_create_new IDENTITY_KEY_FILE) (\<lambda>_. ?P) (safe parse)"
    unfolding fs_create_new_def by (rule runs_call) (use put in \<open>auto split: option.splits\<close>)
  have fill: "runs ?P (io_catch (io_then (fs_write_all IDENTITY_KEY_FILE random_key) fs_sync) (\<lambda>error.
      io_then (io_ignore (fs_remove IDENTITY_KEY_FILE)) (io_fail error))) (\<lambda>_. ?P) (safe parse)"
  proof (rule runs_catch [where J = ?P])
    have "runs ?P (fs_write_all IDENTITY_KEY_FILE random_key) (\<lambda>_. ?P) ?P" by (rule runs_write) (use put in auto)
    moreover have "runs ?P fs_sync (\<lambda>_. ?P) ?P" unfolding fs_sync_def by (rule runs_call) auto
    ultimately show "runs ?P (io_then (fs_write_all IDENTITY_KEY_FILE random_key) fs_sync) (\<lambda>_. ?P) ?P" by (rule runs_then)
    have "runs ?P (io_ignore (fs_remove IDENTITY_KEY_FILE)) (\<lambda>_. ?P) (safe parse)"
      unfolding fs_remove_def by (rule runs_ignore_call) (use drop in \<open>auto split: option.splits\<close>)
    then show "runs ?P (io_then (io_ignore (fs_remove IDENTITY_KEY_FILE)) (io_fail k)) (\<lambda>_. ?P) (safe parse)" for k
      by (rule runs_then) (rule runs_fail, simp)
  qed simp
  have "runs ?P (io_return random_key) (\<lambda>_. ?P) (safe parse)" by (rule runs_return)
  note make = runs_then [OF create runs_then [OF fill this]]
  show ?thesis
    unfolding load_or_create_identity_key_def
  proof (rule runs_bind [OF read])
    fix found
    show "runs ?P (case found of
         Some key \<Rightarrow> if length key \<noteq> IDENTITY_KEY_BYTES then io_fail InvalidData else io_return key
       | None \<Rightarrow> io_bind storage_files (\<lambda>entries. if entries \<noteq> [] then io_fail InvalidData
             else io_then (fs_create_new IDENTITY_KEY_FILE) (
               io_then (io_catch (io_then (fs_write_all IDENTITY_KEY_FILE random_key) fs_sync) (\<lambda>error.
                 io_then (io_ignore (fs_remove IDENTITY_KEY_FILE)) (io_fail error)))
               (io_return random_key)))) (\<lambda>_. ?P) (safe parse)"
    proof (cases found)
      case None
      have "runs ?P (if entries \<noteq> [] then io_fail InvalidData
             else io_then (fs_create_new IDENTITY_KEY_FILE) (
               io_then (io_catch (io_then (fs_write_all IDENTITY_KEY_FILE random_key) fs_sync) (\<lambda>error.
                 io_then (io_ignore (fs_remove IDENTITY_KEY_FILE)) (io_fail error)))
               (io_return random_key))) (\<lambda>_. ?P) (safe parse)" for entries :: "storage_entry list"
        using make by (cases "entries = []") (auto intro!: runs_fail)
      from runs_bind [OF list this] show ?thesis by (simp add: None)
    qed (auto intro!: runs_fail runs_return)
  qed
qed

lemma calmly_then_call:
  assumes "\<And>m. P m \<Longrightarrow> I m"
    and "\<And>m a m'. P m \<Longrightarrow> f m = Inr (a, m') \<Longrightarrow> P m' \<and> (no_backups m \<longrightarrow> no_backups m')"
    and "calmly P n Q I"
  shows "calmly P (io_then (fs_call f) n) Q I"
proof (rule calmlyI)
  fix d r d' assume d: "tidy d" "P (dk_files d)" and run: "io_then (fs_call f) n d = (r, d')"
  obtain r1 d1 where call: "fs_call f d = (r1, d1)" by fastforce
  show "case r of Done a \<Rightarrow> Q a (dk_files d') | _ \<Rightarrow> I (dk_files d')"
    using call
  proof (cases rule: fs_call_cases)
    case (ok a m)
    then have "P (dk_files d1)" "no_backups (dk_files d) \<Longrightarrow> no_backups (dk_files d1)" using assms(2) d(2) by simp_all
    moreover have "tidy d1" using d(1) calculation(2) fs_call_no_fails [OF call] by (auto simp: tidy_def)
    moreover have "n d1 = (r, d')" using run call ok(1) by (simp add: io_then_def io_bind_def)
    ultimately show ?thesis using calmlyD [OF assms(3)] by blast
  next
    case no
    then have "d' = d1" "\<And>a. r \<noteq> Done a" using run call by (auto simp: io_then_def io_bind_def split: outcome.splits)
    then show ?thesis using no(1) assms(1) d(2) by (cases r) auto
  qed
qed

lemma calmly_then_sync: "(\<And>m. P m \<Longrightarrow> I m) \<Longrightarrow> calmly P n Q I \<Longrightarrow> calmly P (io_then fs_sync n) Q I"
  unfolding fs_sync_def by (rule calmly_then_call) auto

lemma recover_state_calm:
  "calmly (safe parse) recover_store_state (\<lambda>_ m. safe parse m \<and> sound m m \<and> no_backups m) (safe parse)"
proof (rule calmlyI)
  fix d r d' assume d: "tidy d" "safe parse (dk_files d)" and run: "recover_store_state d = (r, d')"
  let ?m = "dk_files d"
  have clean: "calmly (\<lambda>m. m = ?m) recover_rewrite_artifacts
      (\<lambda>_ m. plain m \<and> same_content ?m m \<and> all_settled m \<and> (True \<longrightarrow> no_backups m)) (\<lambda>m. plain m \<and> same_content ?m m)"
  proof (rule calmlyI)
    fix e r1 e1 assume e: "tidy e" "dk_files e = ?m" and run1: "recover_rewrite_artifacts e = (r1, e1)"
    have pre: "dk_files e = ?m \<and> plain ?m" using e(2) d(2) by (simp add: safe_def)
    from runsD [OF recover_runs pre run1] recover_tidy [of e _ e1] run1 e d(2)
    show "case r1 of Done a \<Rightarrow> plain (dk_files e1) \<and> same_content ?m (dk_files e1) \<and> all_settled (dk_files e1)
        \<and> (True \<longrightarrow> no_backups (dk_files e1)) | _ \<Rightarrow> plain (dk_files e1) \<and> same_content ?m (dk_files e1)"
      by (cases r1) (auto simp: safe_def)
  qed
  have "calmly (\<lambda>m. m = ?m) recover_store_state (\<lambda>_ m. sound ?m m \<and> (True \<longrightarrow> no_backups m)) (kept ?m)"
    unfolding recover_store_state_def io_then_def
  proof (rule calmly_bind)
    show "calmly (\<lambda>m. m = ?m) recover_rewrite_artifacts
        (\<lambda>_ m. plain m \<and> same_content ?m m \<and> all_settled m \<and> (True \<longrightarrow> no_backups m)) (kept ?m)"
      by (rule calmly_post [OF clean]) (auto simp: kept_def same_shrunk)
    show "runs (\<lambda>m. plain m \<and> same_content ?m m \<and> all_settled m \<and> (True \<longrightarrow> no_backups m)) recover_crash_tails
        (\<lambda>_ m. sound ?m m \<and> (True \<longrightarrow> no_backups m)) (kept ?m)"
      by (rule runs_post [OF crash_tails_runs [where b = True]]) auto
  qed
  from calmlyD [OF this d(1) refl run] kept_safe [OF d(2)]
  show "case r of Done a \<Rightarrow> safe parse (dk_files d') \<and> sound (dk_files d') (dk_files d') \<and> no_backups (dk_files d')
      | _ \<Rightarrow> safe parse (dk_files d')"
    by (cases r) (auto simp: sound_def kept_def)
qed

lemma open_calm:
  "calmly (safe (ic_parse codec)) (open_internal codec random_key locked startup)
     (\<lambda>res m. safe (ic_parse codec) m \<and> (case res of Inl _ \<Rightarrow> True | Inr store \<Rightarrow> \<not> ds_poisoned store \<and> store_ok (ic_parse codec) store m))
     (safe (ic_parse codec))"
proof -
  let ?parse = "ic_parse codec"
  let ?P = "\<lambda>m. safe ?parse m \<and> sound m m \<and> (True \<longrightarrow> no_backups m)"
  have prune: "runs ?P (prune_directory now_ms policy) (\<lambda>_. safe ?parse) (safe ?parse)" for now_ms policy
  proof (rule runs_each)
    fix m0 assume m0: "?P m0"
    have "runs (\<lambda>m. m = m0) recover_rewrite_artifacts (\<lambda>_ m. sound m0 m \<and> no_backups m \<and> same_content m0 m) (kept m0)"
      by (rule runs_pre [OF runs_post [OF recover_runs [of m0]]])
        (use m0 same_content_whole [of m0] sound_whole [of m0 m0] settled_whole in \<open>auto simp: sound_def kept_def same_shrunk\<close>)
    then have "runs (\<lambda>m. m = m0) (prune_directory now_ms policy)
        (\<lambda>report m. sound m0 m \<and> no_backups m \<and> pr_retained_bytes report = total_size m) (kept m0)"
      unfolding prune_directory_def io_then_def by (rule runs_bind [OF _ prune_directory_runs])
    then show "runs (\<lambda>m. m = m0) (prune_directory now_ms policy) (\<lambda>_. safe ?parse) (safe ?parse)"
      by (rule runs_post) (use kept_safe [of ?parse m0] m0 in \<open>auto simp: sound_def\<close>)
  qed
  have state: "runs (safe ?parse) recover_store_state (\<lambda>_ m. safe ?parse m \<and> sound m m) (safe ?parse)"
  proof (rule runs_each)
    fix m0 assume m0: "safe ?parse m0"
    show "runs (\<lambda>m. m = m0) recover_store_state (\<lambda>_ m. safe ?parse m \<and> sound m m) (safe ?parse)"
      by (rule runs_pre [OF runs_post [OF recover_state_runs [of m0]]])
        (use m0 kept_safe [OF m0] in \<open>auto simp: safe_def sound_def kept_def\<close>)
  qed
  let ?Q = "\<lambda>store m. safe ?parse m \<and> \<not> ds_poisoned store \<and> store_ok ?parse store m"
  have startup: "runs ?P (case startup of None \<Rightarrow> io_return ()
      | Some (now_ms, policy) \<Rightarrow> io_then (prune_directory now_ms policy) recover_store_state) (\<lambda>_ m. safe ?parse m \<and> sound m m) (safe ?parse)"
  proof (cases startup)
    case None
    have "runs ?P (io_return ()) (\<lambda>_ m. safe ?parse m \<and> sound m m) (safe ?parse)" by (rule runs_return) simp
    then show ?thesis by (simp only: None option.case)
  next
    case (Some p)
    show ?thesis
      unfolding Some option.case by (cases p) (simp only: prod.case, rule runs_then [OF prune state])
  qed
  have load: "runs (\<lambda>m. safe ?parse m \<and> sound m m) (io_bind (load_index ?parse) (\<lambda>index.
      io_return \<lparr>ds_poisoned = False, ds_index = index, ds_identity_key = key\<rparr>)) ?Q (safe ?parse)" for key
  proof (rule runs_each)
    fix m0 assume m0: "safe ?parse m0 \<and> sound m0 m0"
    have "runs (\<lambda>m. m = m0) (load_index ?parse) (ready ?parse) (safe ?parse)"
      by (rule runs_pre [OF runs_post [OF load_index_runs [of m0]]])
        (use m0 in \<open>auto simp: ready_def safe_def sound_self\<close>)
    then show "runs (\<lambda>m. m = m0) (io_bind (load_index ?parse) (\<lambda>index.
        io_return \<lparr>ds_poisoned = False, ds_index = index, ds_identity_key = key\<rparr>)) ?Q (safe ?parse)"
      by (rule runs_bind) (auto intro!: runs_return simp: store_ok_def ready_safe)
  qed
  have rest: "runs ?P (io_bind (load_or_create_identity_key random_key) (\<lambda>key.
       io_then (case startup of None \<Rightarrow> io_return ()
                | Some (now_ms, policy) \<Rightarrow> io_then (prune_directory now_ms policy) recover_store_state) (
       io_bind (load_index ?parse) (\<lambda>index. io_return \<lparr>ds_poisoned = False, ds_index = index, ds_identity_key = key\<rparr>)))) ?Q (safe ?parse)"
    by (rule runs_bind [OF identity_key_runs [where b = True]], rule runs_then [OF startup load])
  have lock: "safe ?parse m' \<and> (no_backups m \<longrightarrow> no_backups m')"
    if "safe ?parse m" "(case hm_get m STORAGE_LOCK_FILE of Some _ \<Rightarrow> Inr ((), m) | None \<Rightarrow> Inr ((), hm_insert STORAGE_LOCK_FILE [] m)) = Inr (a, m')"
    for m m' :: files and a
  proof -
    have "alongside m m'"
      using that(2) alongside_insert [OF aside_names(1) alongside_refl] by (auto split: option.splits)
    note view = alongside_view [OF this]
    show ?thesis using view(2,4) same_held(2) [OF view(1), of ?parse] that(1) by (simp add: safe_def)
  qed
  have "calmly (safe ?parse) (io_then recover_store_state (io_bind (load_or_create_identity_key random_key) (\<lambda>key.
       io_then (case startup of None \<Rightarrow> io_return ()
                | Some (now_ms, policy) \<Rightarrow> io_then (prune_directory now_ms policy) recover_store_state) (
       io_bind (load_index ?parse) (\<lambda>index. io_return \<lparr>ds_poisoned = False, ds_index = index, ds_identity_key = key\<rparr>))))) ?Q (safe ?parse)"
    unfolding io_then_def [of recover_store_state] by (rule calmly_bind [OF recover_state_calm]) (rule runs_pre [OF rest], simp)
  then have "calmly (safe ?parse) (io_then (if locked then io_fail OtherError else io_return ()) (io_then recover_store_state (
       io_bind (load_or_create_identity_key random_key) (\<lambda>key.
       io_then (case startup of None \<Rightarrow> io_return ()
                | Some (now_ms, policy) \<Rightarrow> io_then (prune_directory now_ms policy) recover_store_state) (
       io_bind (load_index ?parse) (\<lambda>index. io_return \<lparr>ds_poisoned = False, ds_index = index, ds_identity_key = key\<rparr>)))))) ?Q (safe ?parse)"
    by (cases locked) (auto simp: calmly_def io_defs)
  then have "calmly (safe ?parse) (io_then fs_sync (io_then fs_sync (io_then (fs_open_append STORAGE_LOCK_FILE) (
       io_then (if locked then io_fail OtherError else io_return ()) (io_then recover_store_state (
       io_bind (load_or_create_identity_key random_key) (\<lambda>key.
       io_then (case startup of None \<Rightarrow> io_return ()
                | Some (now_ms, policy) \<Rightarrow> io_then (prune_directory now_ms policy) recover_store_state) (
       io_bind (load_index ?parse) (\<lambda>index. io_return \<lparr>ds_poisoned = False, ds_index = index, ds_identity_key = key\<rparr>))))))))) ?Q (safe ?parse)"
    unfolding fs_open_append_def
    by (intro calmly_then_sync calmly_then_call [OF _ lock])
  from calmly_lifted [OF this] show ?thesis
    unfolding open_internal_def by (rule calmly_post) (auto split: sum.splits)
qed

section \<open>Runs of the service\<close>

text \<open>
  Requests that change the store, with what they are given, and how the service goes on: it is started on the files
  that are there, answers requests one after the other, is stopped, or dies at any call. A request that dies takes the
  service with it. \<open>fair\<close> is what the clock and the random source give: a time before the year 9600 and draws of sixteen bytes.
\<close>

datatype incident_request =
    Ingest_request "string list" "string \<Rightarrow> string" string string u64 retention_policy
  | Delete_request "string \<Rightarrow> string" string
  | Prune_request u64 retention_policy

fun fair :: "incident_request \<Rightarrow> bool" where
  "fair (Ingest_request draws random identity body t policy) \<longleftrightarrow>
     unat t div unat MILLIS_PER_DAY < 2786860 \<and> (\<forall>draw \<in> set draws. length draw = 16)"
| "fair _ \<longleftrightarrow> True"

fun answer_request :: "incident_codec \<Rightarrow> incident_request \<Rightarrow> diagnostic_store \<Rightarrow> diagnostic_store io" where
  "answer_request codec (Ingest_request draws random identity body t policy) store =
     io_bind (ingest_with_policy codec draws random identity body t policy store) (\<lambda>(_, store). io_return store)"
| "answer_request codec (Delete_request random i) store =
     io_bind (delete_incident (ic_parse codec) random i store) (\<lambda>(_, store). io_return store)"
| "answer_request codec (Prune_request now_ms policy) store =
     io_bind (prune_store (ic_parse codec) now_ms policy store) (\<lambda>(_, store). io_return store)"

inductive incident_step :: "incident_codec \<Rightarrow> diagnostic_store option \<times> files \<Rightarrow> diagnostic_store option \<times> files \<Rightarrow> bool" for codec where
  start: "tidy d \<Longrightarrow> open_internal codec random_key locked startup d = (r, d') \<Longrightarrow>
     incident_step codec (None, dk_files d) (case r of Done (Inr store) \<Rightarrow> Some store | _ \<Rightarrow> None, dk_files d')"
| request: "tidy d \<Longrightarrow> fair q \<Longrightarrow> answer_request codec q store d = (r, d') \<Longrightarrow>
     incident_step codec (Some store, dk_files d) (case r of Done store' \<Rightarrow> Some store' | _ \<Rightarrow> None, dk_files d')"
| stop: "incident_step codec (Some store, m) (None, m)"

definition service_ok :: "incident_codec \<Rightarrow> diagnostic_store option \<times> files \<Rightarrow> bool" where
  "service_ok codec sm \<longleftrightarrow>
     (case sm of (None, m) \<Rightarrow> safe (ic_parse codec) m | (Some store, m) \<Rightarrow> store_ok (ic_parse codec) store m)"

lemma storage_name_of_time: "unat t div unat MILLIS_PER_DAY < 2786860 \<Longrightarrow> is_storage_name (storage_file_name t)"
  using storage_name_day [of t] by (simp add: is_storage_name_def)

lemma store_of_answer:
  assumes "calmly P p (\<lambda>a m. store_ok parse (snd a) m) I"
  shows "calmly P (io_bind p (\<lambda>(_, store). io_return store)) (\<lambda>store. store_ok parse store) I"
  by (rule calmly_bind [OF assms]) (auto intro: runs_return split: prod.split)

lemma answer_calm:
  assumes codec: "codec_ok codec" and q: "fair q"
  shows "calmly (store_ok (ic_parse codec) store) (answer_request codec q store) (\<lambda>store'. store_ok (ic_parse codec) store') (safe (ic_parse codec))"
proof (cases q)
  case (Ingest_request draws random identity body t policy)
  then have "is_storage_name (storage_file_name t)" "\<forall>draw \<in> set draws. length draw = 16"
    using q storage_name_of_time by simp_all
  note ingest = ingest_calm [OF codec this, of store random identity body policy]
  show ?thesis
    unfolding Ingest_request answer_request.simps by (rule store_of_answer, rule calmly_post [OF ingest]) auto
next
  case (Delete_request random i)
  have "calmly (store_ok (ic_parse codec) store) (delete_incident (ic_parse codec) random i store)
      (\<lambda>a m. store_ok (ic_parse codec) (snd a) m) (safe (ic_parse codec))"
  proof (rule calmly_runs, rule runs_each)
    fix m0 assume "store_ok (ic_parse codec) store m0"
    from runs_post [OF delete_runs [OF this]]
    show "runs (\<lambda>m. m = m0) (delete_incident (ic_parse codec) random i store) (\<lambda>a m. store_ok (ic_parse codec) (snd a) m) (safe (ic_parse codec))"
      by (auto simp: deleted_def)
  qed
  then show ?thesis unfolding Delete_request answer_request.simps by (rule store_of_answer)
next
  case (Prune_request now_ms policy)
  show ?thesis
    unfolding Prune_request answer_request.simps by (rule store_of_answer, rule calmly_post [OF prune_store_calm]) auto
qed

lemma step_keeps:
  assumes "codec_ok codec" "incident_step codec a b" "service_ok codec a"
  shows "service_ok codec b"
  using assms(2,3)
proof cases
  case (start d random_key locked startup r d')
  then have d: "safe (ic_parse codec) (dk_files d)" using assms(3) by (simp add: service_ok_def)
  from calmlyD [OF open_calm start(3) d start(4)] show ?thesis
    using start by (cases r) (auto simp: service_ok_def split: sum.splits)
next
  case (request d q store r d')
  then have d: "store_ok (ic_parse codec) store (dk_files d)" using assms(3) by (simp add: service_ok_def)
  from calmlyD [OF answer_calm [OF assms(1) request(4)] request(3) d request(5)] show ?thesis
    using request by (cases r) (auto simp: service_ok_def)
next
  case (stop store m)
  then show ?thesis using assms(3) by (simp add: service_ok_def store_ok_def)
qed

lemma once_empty: "safe parse []"
  by (simp add: safe_def plain_def once_def unique_def held_def disk_records_def disk_rows_def stored_def)

lemma service_stays_ok:
  assumes "codec_ok codec" "(incident_step codec)\<^sup>*\<^sup>* (None, []) sm"
  shows "service_ok codec sm"
  using assms(2)
proof (induction rule: rtranclp_induct)
  case base
  then show ?case using once_empty by (simp add: service_ok_def)
next
  case (step a b)
  then show ?case using step_keeps [OF assms(1)] by blast
qed

end
