(* ===== verification/DiagnosticKey.thy ===== *)
theory DiagnosticKey
  imports DiagnosticService
begin

text \<open>
  The key of the identities: its file is written by the first start and left alone by everything after it, so that
  the digest of an identity stays the same through requests, failures, deaths and new starts.
\<close>

section \<open>Leaving the key alone\<close>

lemma runs_any: "runs P p (\<lambda>_ _. True) (\<lambda>_. True)"
  by (auto simp: runs_def split: outcome.split)

definition keyed :: "string option \<Rightarrow> files \<Rightarrow> bool" where
  "keyed v m \<longleftrightarrow> hm_get m IDENTITY_KEY_FILE = v"

definition spares_key :: "'a io \<Rightarrow> bool" where
  "spares_key p \<longleftrightarrow> (\<forall>v. runs (keyed v) p (\<lambda>_. keyed v) (keyed v))"

named_theorems spares "what leaves the file of the key alone"

lemma spares_keyD: "spares_key p \<Longrightarrow> runs (keyed v) p (\<lambda>_. keyed v) (keyed v)"
  by (simp add: spares_key_def)

lemma spares_bind [spares]: "spares_key p \<Longrightarrow> (\<And>a. spares_key (f a)) \<Longrightarrow> spares_key (io_bind p f)"
  unfolding spares_key_def by (blast intro: runs_bind)

text \<open>With what is known of the value passed on.\<close>

lemma spares_bind_post:
  assumes "spares_key p" "\<And>P. runs P p (\<lambda>a _. S a) (\<lambda>_. True)" "\<And>a. S a \<Longrightarrow> spares_key (f a)"
  shows "spares_key (io_bind p f)"
  unfolding spares_key_def
proof
  fix v
  have "runs (keyed v) p (\<lambda>a m. keyed v m \<and> S a) (keyed v)"
    by (rule runs_post [OF runs_conj [OF spares_keyD [OF assms(1)] assms(2)]]) auto
  moreover have "runs (\<lambda>m. keyed v m \<and> S a) (f a) (\<lambda>_. keyed v) (keyed v)" for a
  proof (cases "S a")
    case True
    show ?thesis by (rule runs_pre [OF spares_keyD [OF assms(3) [OF True]]]) simp
  next
    case False
    then show ?thesis by (simp add: runs_def)
  qed
  ultimately show "runs (keyed v) (io_bind p f) (\<lambda>_. keyed v) (keyed v)" by (rule runs_bind)
qed

lemma spares_then [spares]: "spares_key p \<Longrightarrow> spares_key q \<Longrightarrow> spares_key (io_then p q)"
  unfolding io_then_def by (rule spares_bind)

lemma spares_ends [spares]: "spares_key (io_return a)" "spares_key (io_fail k)"
  by (auto simp: spares_key_def intro: runs_return runs_fail)

lemma spares_catch [spares]: "spares_key p \<Longrightarrow> (\<And>k. spares_key (h k)) \<Longrightarrow> spares_key (io_catch p h)"
  unfolding spares_key_def by (blast intro: runs_catch)

lemma spares_when [spares]: "(b \<Longrightarrow> spares_key p) \<Longrightarrow> spares_key (io_when b p)"
  by (simp add: io_when_def spares_ends)

lemma spares_if [spares]: "(b \<Longrightarrow> spares_key p) \<Longrightarrow> (\<not> b \<Longrightarrow> spares_key q) \<Longrightarrow> spares_key (if b then p else q)"
  by simp

lemma spares_exists [spares]: "spares_key (io_exists n)"
  by (simp add: spares_key_def runs_def io_exists_def)

lemma spares_call:
  "(\<And>m a m'. f m = Inr (a, m') \<Longrightarrow> hm_get m' IDENTITY_KEY_FILE = hm_get m IDENTITY_KEY_FILE) \<Longrightarrow> spares_key (fs_call f)"
  unfolding spares_key_def keyed_def by (blast intro: runs_call)

lemma spares_reads [spares]:
  "spares_key (fs_read n)" "spares_key fs_read_dir" "spares_key storage_files" "spares_key fs_sync" "spares_key (fs_len n)"
  unfolding fs_read_def fs_read_dir_def storage_files_def fs_sync_def fs_len_def
  by (rule spares_call; auto split: option.splits)+

lemma spares_writes [spares]:
  "n \<noteq> IDENTITY_KEY_FILE \<Longrightarrow> spares_key (fs_create_new n)" "n \<noteq> IDENTITY_KEY_FILE \<Longrightarrow> spares_key (fs_open_append n)"
  "n \<noteq> IDENTITY_KEY_FILE \<Longrightarrow> spares_key (fs_remove n)" "n \<noteq> IDENTITY_KEY_FILE \<Longrightarrow> spares_key (fs_set_len n k)"
  "n \<noteq> IDENTITY_KEY_FILE \<Longrightarrow> n' \<noteq> IDENTITY_KEY_FILE \<Longrightarrow> spares_key (fs_rename n n')"
  unfolding fs_create_new_def fs_open_append_def fs_remove_def fs_set_len_def fs_rename_def
  by (rule spares_call; auto simp: hm_simps split: option.splits)+

lemma spares_write_all [spares]: "n \<noteq> IDENTITY_KEY_FILE \<Longrightarrow> spares_key (fs_write_all n bytes)"
  unfolding spares_key_def by (intro allI runs_write) (simp_all add: keyed_def hm_simps)

lemma spares_try [spares]: "spares_key p \<Longrightarrow> spares_key (io_try p)" "spares_key q \<Longrightarrow> spares_key (io_ignore q)"
  by (simp_all add: io_try_def io_ignore_def spares)

lemma spares_checked [spares]:
  "spares_key p \<Longrightarrow> spares_key (lifted p)" "spares_key r \<Longrightarrow> (\<And>a. spares_key (f a)) \<Longrightarrow> spares_key (ck_bind r f)"
  unfolding lifted_def ck_bind_def by (auto intro!: spares split: sum.split)

section \<open>Names beside the key\<close>

lemma storage_name_start:
  assumes "is_storage_name n"
  shows "n @ x \<noteq> IDENTITY_KEY_FILE"
proof -
  have "take (length STORAGE_PREFIX) n = STORAGE_PREFIX"
    using assms by (auto simp: is_storage_name_def parse_storage_file_name_def strip_prefix_def split: option.splits if_splits)
  then obtain r where "n = STORAGE_PREFIX @ r" by (metis append_take_drop_id)
  then show ?thesis by (simp add: STORAGE_PREFIX_def IDENTITY_KEY_FILE_def)
qed

lemma beside_key [simp]:
  assumes "is_storage_name n"
  shows "n \<noteq> IDENTITY_KEY_FILE" "backup_path n \<noteq> IDENTITY_KEY_FILE" "temp_path n r \<noteq> IDENTITY_KEY_FILE"
  using storage_name_start [OF assms, of "[]"] storage_name_start [OF assms]
  by (simp_all add: backup_path_def temp_path_def)

lemma key_is_no_artifact: "strip_suffix ''.bak'' IDENTITY_KEY_FILE = None" "\<not> is_rewrite_temp IDENTITY_KEY_FILE"
  by code_simp+

lemma listed_names: "runs P storage_files (\<lambda>es _. \<forall>e \<in> set es. is_storage_name (entry_name e)) (\<lambda>_. True)"
proof -
  have "is_storage_name (entry_name e)" if "e \<in> set (storage_entries m)" for e m
  proof -
    have "set (storage_entries m) = set_mset (mset (storage_entries m))" by simp
    also have "\<dots> = set (List.map_filter (\<lambda>(n, c). map_option (\<lambda>day. (day, n, length c)) (parse_storage_file_name n)) m)"
      by (simp add: storage_entries_def sort_by_mset)
    finally show ?thesis using that by (auto simp: List.map_filter_def is_storage_name_def entry_name_def)
  qed
  then show ?thesis unfolding storage_files_def by (intro runs_call) auto
qed

section \<open>The operations\<close>

lemma spares_restore [spares]: "spares_key (restore_backups names)"
proof (induction names)
  case (Cons n names)
  have "n \<noteq> IDENTITY_KEY_FILE" if "strip_suffix ''.bak'' n = Some original" for original
    using that key_is_no_artifact by auto
  then show ?case using Cons by (auto intro!: spares dest: beside_key(1) split: option.split)
qed (simp add: spares)

lemma spares_clean [spares]: "spares_key (clean_artifacts names)"
proof (induction names)
  case (Cons n names)
  have "n \<noteq> IDENTITY_KEY_FILE" if "strip_suffix ''.bak'' n \<noteq> None \<or> is_rewrite_temp n"
    using that key_is_no_artifact by auto
  then show ?case using Cons by (auto intro!: spares split: option.split)
qed (simp add: spares)

lemma spares_cut: "\<forall>e \<in> set entries. is_storage_name (entry_name e) \<Longrightarrow> spares_key (cut_tails entries)"
proof (induction entries)
  case (Cons e entries)
  obtain day path bytes where e: "e = (day, path, bytes)" by (cases e)
  have "path \<noteq> IDENTITY_KEY_FILE" using Cons.prems by (simp add: e entry_name_def)
  then show ?case using Cons unfolding e cut_tails.simps by (intro spares) auto
qed (simp add: spares)

lemma spares_recover [spares]: "spares_key recover_rewrite_artifacts" "spares_key recover_store_state"
proof -
  show "spares_key recover_rewrite_artifacts"
    unfolding recover_rewrite_artifacts_def Let_def by (intro spares)
  moreover have "spares_key recover_crash_tails"
    unfolding recover_crash_tails_def by (rule spares_bind_post [OF _ listed_names spares_cut]) (simp add: spares)
  ultimately show "spares_key recover_store_state" unfolding recover_store_state_def by (intro spares)
qed

lemma spares_load [spares]: "spares_key (load_index parse)"
proof -
  have "spares_key (read_each parse entries)" for entries
    by (induction entries) (auto intro!: spares simp: read_jsonl_records_def)
  then show ?thesis by (auto simp: load_index_def for_each_record_def intro!: spares)
qed

lemma spares_rebuild [spares]:
  "spares_key (reconcile_or_poison parse store)" "spares_key (rebuild_or_fail parse store)"
  unfolding reconcile_or_poison_def rebuild_or_fail_def recover_and_rebuild_index_def by (intro spares)+

lemma spares_commit [spares]: "is_storage_name n \<Longrightarrow> spares_key (commit_rewrite n (temp_path n r) (backup_path n))"
  unfolding commit_rewrite_def by (intro spares) simp_all

lemma spares_copy: "temp \<noteq> IDENTITY_KEY_FILE \<Longrightarrow> spares_key (copy_others parse temp i removed ls)"
  by (induction ls arbitrary: removed) (auto intro!: spares)

lemma spares_rewrites [spares]:
  "spares_key (rewrite_without_incident parse r n i)" "spares_key (rewrite_drop_oldest_bytes r n k)"
proof -
  have "is_storage_name n \<Longrightarrow> spares_key (rewrite_without_incident parse r n i)"
    unfolding rewrite_without_incident_def Let_def by (intro spares spares_copy) simp_all
  moreover have "is_storage_name n \<Longrightarrow> spares_key (rewrite_drop_oldest_bytes r n k)"
    unfolding rewrite_drop_oldest_bytes_def Let_def by (intro spares) simp_all
  ultimately show "spares_key (rewrite_without_incident parse r n i)" "spares_key (rewrite_drop_oldest_bytes r n k)"
    by (cases "is_storage_name n";
      simp add: is_storage_name_def rewrite_without_incident_def rewrite_drop_oldest_bytes_def spares)+
qed

lemma spares_remove_old: "\<forall>e \<in> set entries. is_storage_name (entry_name e) \<Longrightarrow> spares_key (remove_old cutoff entries)"
proof (induction entries)
  case (Cons e entries)
  obtain day path bytes where e: "e = (day, path, bytes)" by (cases e)
  have rest: "spares_key (io_bind (remove_old cutoff entries) (\<lambda>(left, removed). io_return (f left removed)))"
    for f :: "storage_entry list \<Rightarrow> storage_entry list \<Rightarrow> storage_entry list \<times> storage_entry list"
    using Cons by (auto intro!: spares)
  have "path \<noteq> IDENTITY_KEY_FILE" using Cons.prems by (simp add: e entry_name_def)
  then show ?case unfolding e remove_old.simps by (intro spares rest)
qed (simp add: spares)

lemma remove_old_part:
  "runs P (remove_old cutoff entries) (\<lambda>(left, _) _. set left \<subseteq> set entries) (\<lambda>_. True)"
proof (induction entries arbitrary: P)
  case Nil
  then show ?case by (auto intro: runs_return)
next
  case (Cons e entries)
  obtain day path bytes where e: "e = (day, path, bytes)" by (cases e)
  have rest: "runs Q (io_bind (remove_old cutoff entries) (\<lambda>(left, removed). io_return (if b then left else e # left, f removed)))
      (\<lambda>(left, _) _. set left \<subseteq> set (e # entries)) (\<lambda>_. True)" for Q b and f :: "storage_entry list \<Rightarrow> storage_entry list"
    by (rule runs_bind [OF Cons.IH]) (auto intro!: runs_return split: prod.split)
  show ?case
    using runs_then [OF runs_any rest [where b = True and f = "\<lambda>removed. e # removed"]] rest [where b = False and f = "\<lambda>removed. removed"]
    unfolding e remove_old.simps by auto
qed

lemma spares_remove_over: "\<forall>e \<in> set entries. is_storage_name (entry_name e) \<Longrightarrow> spares_key (remove_over limit entries held_bytes)"
proof (induction entries arbitrary: held_bytes)
  case (Cons e entries)
  obtain day path bytes where e: "e = (day, path, bytes)" by (cases e)
  have "path \<noteq> IDENTITY_KEY_FILE" using Cons.prems by (simp add: e entry_name_def)
  moreover have "spares_key (remove_over limit entries k)" for k using Cons by simp
  ultimately show ?case unfolding e remove_over.simps by (auto intro!: spares)
qed (simp add: spares)

lemma spares_evict:
  "\<forall>e \<in> set entries. is_storage_name (entry_name e) \<Longrightarrow> spares_key (evict random target entries rc)"
proof (induction random target entries rc rule: evict.induct)
  case (2 random target day path bytes entries retained changed)
  have "path \<noteq> IDENTITY_KEY_FILE" using "2.prems" by (simp add: entry_name_def)
  then show ?case using 2 unfolding evict.simps by (auto intro!: spares)
qed (simp add: spares)

text \<open>What is listed is passed on: through \<open>lifted\<close> as well.\<close>

lemma spares_ck_bind_post:
  assumes "spares_key p" "\<And>P. runs P p (\<lambda>a _. S a) (\<lambda>_. True)" "\<And>a. S a \<Longrightarrow> spares_key (f a)"
  shows "spares_key (ck_bind (lifted p) f)"
  unfolding ck_bind_def
proof (rule spares_bind_post [where S = "\<lambda>r. case r of Inr a \<Rightarrow> S a | Inl _ \<Rightarrow> True"])
  show "runs P (lifted p) (\<lambda>r _. case r of Inr a \<Rightarrow> S a | Inl _ \<Rightarrow> True) (\<lambda>_. True)" for P
    by (rule runs_post [OF runs_lifted [OF assms(2)]]) (auto split: sum.splits)
qed (auto simp: spares assms(1,3) split: sum.splits)

lemma spares_prunes [spares]:
  "spares_key (prune_for_append random t policy n)" "spares_key (prune_directory t policy)"
proof -
  let ?named = "\<lambda>es :: storage_entry list. \<forall>e \<in> set es. is_storage_name (entry_name e)"
  have left: "runs P (remove_old cutoff entries) (\<lambda>a _. ?named (fst a)) (\<lambda>_. True)" if "?named entries" for cutoff entries P
    by (rule runs_post [OF remove_old_part]) (use that in auto)
  note old = spares_remove_old left
  show "spares_key (prune_for_append random t policy n)"
    unfolding prune_for_append_def
    by (intro spares spares_ck_bind_post [OF _ listed_names] spares_ck_bind_post [OF old])
      (auto simp: Let_def intro!: spares spares_evict split: prod.split)
  show "spares_key (prune_directory t policy)"
    unfolding prune_directory_def
    by (intro spares spares_bind_post [OF _ listed_names] spares_bind_post [OF old])
      (auto intro!: spares spares_remove_over split: prod.split)
qed

text \<open>An operation answers with the store it was given, whose key is still the same.\<close>

abbreviation same_key :: "diagnostic_store \<Rightarrow> 'a \<times> diagnostic_store \<Rightarrow> files \<Rightarrow> bool" where
  "same_key store a m \<equiv> ds_identity_key (snd a) = ds_identity_key store"

lemma reconcile_key: "runs P (reconcile_or_poison parse store) (\<lambda>store' _. ds_identity_key store' = ds_identity_key store) (\<lambda>_. True)"
  unfolding reconcile_or_poison_def
  by (rule runs_catch, rule runs_bind [OF runs_any]) (auto intro!: runs_return)

lemma rebuild_key: "runs P (rebuild_or_fail parse store) (same_key store) (\<lambda>_. True)"
  unfolding rebuild_or_fail_def
  by (rule runs_catch, rule runs_bind [OF runs_any]) (auto intro!: runs_return)

lemma make_room_key: "runs P (make_room parse random t policy n store) (same_key store) (\<lambda>_. True)"
proof (cases policy)
  case (Some p)
  have "runs Q (io_bind (reconcile_or_poison parse store) (\<lambda>store. io_return (Inl e, store))) (same_key store) (\<lambda>_. True)" for Q e
    by (rule runs_bind [OF reconcile_key]) (auto intro: runs_return)
  then show ?thesis
    unfolding make_room_def Some option.case
    by (intro runs_bind [OF runs_any]) (auto intro!: rebuild_key runs_return split: sum.split)
qed (auto simp: make_room_def intro: runs_return)

lemma write_record_key: "runs P (write_record parse r line store) (same_key store) (\<lambda>_. True)"
proof -
  have "runs Q (append_failed parse path store) (same_key store) (\<lambda>_. True)" for Q path
  proof -
    have "runs Q' (io_bind (reconcile_or_poison parse store) (\<lambda>store. io_return (Inl IoFailed, store))) (same_key store) (\<lambda>_. True)" for Q'
      by (rule runs_bind [OF reconcile_key]) (auto intro: runs_return)
    then show ?thesis unfolding append_failed_def by (intro runs_bind [OF runs_any]) (auto intro!: runs_return)
  qed
  then show ?thesis
    unfolding write_record_def Let_def by (intro runs_bind [OF runs_any]) (auto intro!: runs_return simp: index_new_def)
qed

lemma append_key: "runs P (append_internal codec draws random identity envelope t policy store) (same_key store) (\<lambda>_. True)"
proof -
  have "runs Q (case a of (room, store') \<Rightarrow> case room of Inl error \<Rightarrow> io_return (Inl error, store')
      | Inr _ \<Rightarrow> write_record parse r line store') (same_key store) (\<lambda>_. True)"
    if "\<And>m. Q m \<Longrightarrow> same_key store a m" for Q and a :: "(diagnostics_error + unit) \<times> diagnostic_store" and parse r line
  proof (cases "\<exists>m. Q m")
    case True
    then have "ds_identity_key (snd a) = ds_identity_key store" using that by blast
    then show ?thesis
      using runs_post [OF write_record_key [of Q parse r line "snd a"]] by (cases a; cases "fst a") (auto intro!: runs_return)
  qed (use runs_none in blast)
  then have rest: "runs P (io_bind (make_room parse random t policy n store) (\<lambda>(room, store').
      case room of Inl error \<Rightarrow> io_return (Inl error, store') | Inr _ \<Rightarrow> write_record parse r line store')) (same_key store) (\<lambda>_. True)" for parse n r line
    by (intro runs_bind [OF make_room_key]) auto
  have stop: "runs P (io_return (x, store)) (same_key store) (\<lambda>_. True)" for x :: "diagnostics_error + append_outcome"
    by (rule runs_return) simp
  show ?thesis
    unfolding append_internal_def Let_def using rest stop by (auto split: option.split)
qed

section \<open>Requests\<close>

lemma spares_make_room [spares]: "spares_key (make_room parse random t policy n store)"
  unfolding make_room_def by (auto intro!: spares split: option.split sum.split)

lemma spares_append [spares]: "is_storage_name n \<Longrightarrow> spares_key (append_json_line n line)"
  unfolding append_json_line_def end_torn_row_def by (intro spares) simp_all

lemma spares_write_record [spares]:
  "is_storage_name (storage_file_name (si_received_at_ms r)) \<Longrightarrow> spares_key (write_record parse r line store)"
proof -
  have "spares_key (fs_call (\<lambda>m. if hm_get m path = None then Inl NotFound else Inr ((), m)))" for path
    by (rule spares_call) (auto split: if_splits)
  then have "spares_key (append_failed parse path store)" for path unfolding append_failed_def by (auto intro!: spares)
  then show ?thesis if "is_storage_name (storage_file_name (si_received_at_ms r))"
    using that unfolding write_record_def Let_def by (auto intro!: spares)
qed

lemma spares_ingest:
  assumes "is_storage_name (storage_file_name t)"
  shows "spares_key (ingest_with_policy codec draws random identity body t policy store)"
proof -
  have "spares_key (append_internal codec draws random identity envelope t (Some policy) store)" for envelope
    unfolding append_internal_def Let_def
    by (auto intro!: spares spares_write_record simp: assms split: option.split sum.split prod.split)
  then show ?thesis unfolding ingest_with_policy_def by (auto simp: spares split: sum.split)
qed

lemma spares_delete: "spares_key (delete_incident parse random i store)"
  unfolding delete_incident_def by (auto intro!: spares split: option.split sum.split)

lemma spares_prune_store: "spares_key (prune_store parse t policy store)"
  unfolding prune_store_def by (auto intro!: spares split: prod.split)

lemma spares_answer: "fair q \<Longrightarrow> spares_key (answer_request codec q store)"
  using storage_name_of_time
  by (cases q) (auto intro!: spares spares_ingest spares_delete spares_prune_store split: prod.split)

text \<open>No request changes the key in memory.\<close>

lemma rebuilt_key: "runs P (delete_incident parse random i store) (same_key store) (\<lambda>_. True)"
proof -
  have "runs Q (io_bind (reconcile_or_poison parse store) (\<lambda>store. io_return (Inl e, store))) (same_key store) (\<lambda>_. True)" for Q e
    by (rule runs_bind [OF reconcile_key]) (auto intro: runs_return)
  then have tail: "runs Q (case removed of Inl error \<Rightarrow> io_bind (reconcile_or_poison parse store) (\<lambda>store. io_return (Inl error, store))
      | Inr removed \<Rightarrow> io_return (Inr removed, if removed then forget_incident i store else store)) (same_key store) (\<lambda>_. True)"
    for Q and removed :: "diagnostics_error + bool"
    by (cases removed) (auto intro!: runs_return simp: forget_incident_def)
  have stop: "runs P (io_return (x, store)) (same_key store) (\<lambda>_. True)" for x :: "diagnostics_error + bool"
    by (rule runs_return) simp
  show ?thesis
    unfolding delete_incident_def using stop runs_bind [OF runs_any tail] by (auto split: option.split sum.split)
qed

lemma pruned_key: "runs P (prune_store parse t policy store) (same_key store) (\<lambda>_. True)"
proof -
  have "runs Q (io_bind (rebuild_or_fail parse store) (\<lambda>(rebuilt, store).
      io_return (case rebuilt of Inl error \<Rightarrow> Inl error | Inr _ \<Rightarrow> report, store))) (same_key store) (\<lambda>_. True)" for Q report
    by (rule runs_bind [OF rebuild_key]) (auto intro!: runs_return split: prod.split)
  note rest = runs_bind [OF runs_any this]
  have stop: "runs P (io_return (Inl LockPoisoned, store)) (same_key store) (\<lambda>_. True)" by (rule runs_return) simp
  show ?thesis unfolding prune_store_def by (cases "ds_poisoned store") (simp_all only: if_True if_False stop rest)
qed

lemma answer_key: "runs P (answer_request codec q store) (\<lambda>store' _. ds_identity_key store' = ds_identity_key store) (\<lambda>_. True)"
proof (cases q)
  case (Ingest_request draws random identity body t policy)
  have "runs P (ingest_with_policy codec draws random identity body t policy store) (same_key store) (\<lambda>_. True)"
    unfolding ingest_with_policy_def by (auto intro!: append_key runs_return split: sum.split)
  then show ?thesis unfolding Ingest_request answer_request.simps
    by (rule runs_bind) (auto intro!: runs_return split: prod.split)
next
  case (Delete_request random i)
  show ?thesis unfolding Delete_request answer_request.simps
    by (rule runs_bind [OF rebuilt_key]) (auto intro!: runs_return split: prod.split)
next
  case (Prune_request t policy)
  show ?thesis unfolding Prune_request answer_request.simps
    by (rule runs_bind [OF pruned_key]) (auto intro!: runs_return split: prod.split)
qed

section \<open>A start\<close>

text \<open>A start that finds the key file uses what it holds, and one that creates it what it wrote.\<close>

lemma key_file_runs:
  "runs P (load_or_create_identity_key random_key) (\<lambda>key. keyed (Some key)) (\<lambda>_. True)"
proof -
  have found: "runs P (io_catch (io_bind (fs_read IDENTITY_KEY_FILE) (\<lambda>key. io_return (Some key)))
      (\<lambda>error. if error = NotFound then io_return None else io_fail error))
      (\<lambda>found m. \<forall>key. found = Some key \<longrightarrow> keyed (Some key) m) (\<lambda>_. True)"
  proof (rule runs_catch [where J = "\<lambda>_. True"])
    show "runs P (io_bind (fs_read IDENTITY_KEY_FILE) (\<lambda>key. io_return (Some key)))
      (\<lambda>found m. \<forall>key. found = Some key \<longrightarrow> keyed (Some key) m) (\<lambda>_. True)"
    proof (rule runs_bind)
      show "runs P (fs_read IDENTITY_KEY_FILE) (\<lambda>key. keyed (Some key)) (\<lambda>_. True)"
        unfolding fs_read_def by (rule runs_call) (auto simp: keyed_def split: option.splits)
    qed (auto intro: runs_return)
  qed (auto intro: runs_return runs_fail)
  have created: "runs Q (fs_create_new IDENTITY_KEY_FILE) (\<lambda>_. keyed (Some [])) (\<lambda>_. True)" for Q
    unfolding fs_create_new_def by (rule runs_call) (auto simp: keyed_def hm_simps split: option.splits)
  have filled: "runs (keyed (Some [])) (io_catch (io_then (fs_write_all IDENTITY_KEY_FILE random_key) fs_sync) (\<lambda>error.
      io_then (io_ignore (fs_remove IDENTITY_KEY_FILE)) (io_fail error))) (\<lambda>_. keyed (Some random_key)) (\<lambda>_. True)"
  proof (rule runs_catch [where J = "\<lambda>_. True"])
    have "runs (keyed (Some [])) (fs_write_all IDENTITY_KEY_FILE random_key) (\<lambda>_. keyed (Some random_key)) (\<lambda>_. True)"
      by (rule runs_write) (auto simp: keyed_def hm_simps or_default_def)
    moreover have "runs (keyed (Some random_key)) fs_sync (\<lambda>_. keyed (Some random_key)) (\<lambda>_. True)"
      by (rule runs_post [OF spares_keyD]) (auto simp: spares)
    ultimately show "runs (keyed (Some [])) (io_then (fs_write_all IDENTITY_KEY_FILE random_key) fs_sync)
      (\<lambda>_. keyed (Some random_key)) (\<lambda>_. True)" by (rule runs_then)
    show "runs (\<lambda>_. True) (io_then (io_ignore (fs_remove IDENTITY_KEY_FILE)) (io_fail k)) (\<lambda>_. keyed (Some random_key)) (\<lambda>_. True)"
      for k by (rule runs_then [OF runs_any]) (rule runs_fail, simp)
  qed simp
  have wrote: "runs Q (io_then (fs_create_new IDENTITY_KEY_FILE) (
        io_then (io_catch (io_then (fs_write_all IDENTITY_KEY_FILE random_key) fs_sync) (\<lambda>error.
          io_then (io_ignore (fs_remove IDENTITY_KEY_FILE)) (io_fail error)))
        (io_return random_key))) (\<lambda>key. keyed (Some key)) (\<lambda>_. True)" for Q
    by (rule runs_then [OF created runs_then [OF filled]]) (rule runs_return, simp)
  show ?thesis
    unfolding load_or_create_identity_key_def
  proof (rule runs_bind [OF found])
    fix found
    show "runs (\<lambda>m. \<forall>key. found = Some key \<longrightarrow> keyed (Some key) m) (case found of
         Some key \<Rightarrow> if length key \<noteq> IDENTITY_KEY_BYTES then io_fail InvalidData else io_return key
       | None \<Rightarrow> io_bind storage_files (\<lambda>entries. if entries \<noteq> [] then io_fail InvalidData
             else io_then (fs_create_new IDENTITY_KEY_FILE) (
               io_then (io_catch (io_then (fs_write_all IDENTITY_KEY_FILE random_key) fs_sync) (\<lambda>error.
                 io_then (io_ignore (fs_remove IDENTITY_KEY_FILE)) (io_fail error)))
               (io_return random_key)))) (\<lambda>key. keyed (Some key)) (\<lambda>_. True)"
    proof (cases found)
      case None
      have "runs (\<lambda>_. True) (if entries \<noteq> [] then io_fail InvalidData
             else io_then (fs_create_new IDENTITY_KEY_FILE) (
               io_then (io_catch (io_then (fs_write_all IDENTITY_KEY_FILE random_key) fs_sync) (\<lambda>error.
                 io_then (io_ignore (fs_remove IDENTITY_KEY_FILE)) (io_fail error)))
               (io_return random_key))) (\<lambda>key. keyed (Some key)) (\<lambda>_. True)" for entries :: "storage_entry list"
        using wrote by (cases "entries = []") (auto intro!: runs_fail)
      then show ?thesis unfolding None option.case by (intro runs_bind [OF runs_any])
    qed (auto intro!: runs_fail runs_return)
  qed
qed

lemma key_file_kept:
  "runs (keyed (Some v)) (load_or_create_identity_key random_key) (\<lambda>_. keyed (Some v)) (keyed (Some v))"
proof -
  have found: "runs (keyed (Some v)) (io_catch (io_bind (fs_read IDENTITY_KEY_FILE) (\<lambda>key. io_return (Some key)))
      (\<lambda>error. if error = NotFound then io_return None else io_fail error))
      (\<lambda>found m. keyed (Some v) m \<and> found \<noteq> None) (keyed (Some v))"
  proof (rule runsI)
    fix d r d'
    assume d: "keyed (Some v) (dk_files d)"
      and run: "io_catch (io_bind (fs_read IDENTITY_KEY_FILE) (\<lambda>key. io_return (Some key)))
        (\<lambda>error. if error = NotFound then io_return None else io_fail error) d = (r, d')"
    obtain e d1 where e: "next_event d = (e, d1)" by fastforce
    have d1: "dk_files d1 = dk_files d" by (rule next_event_files [OF e])
    show "case r of Done found \<Rightarrow> keyed (Some v) (dk_files d') \<and> found \<noteq> None | _ \<Rightarrow> keyed (Some v) (dk_files d')"
      using run d [folded d1] by (cases e) (auto simp: io_defs fs_read_def fs_call_def e keyed_def)
  qed
  have go: "runs (\<lambda>m. keyed (Some v) m \<and> found \<noteq> None) (case found of
         Some key \<Rightarrow> if length key \<noteq> IDENTITY_KEY_BYTES then io_fail InvalidData else io_return key
       | None \<Rightarrow> p) (\<lambda>_. keyed (Some v)) (keyed (Some v))" for found and p :: "string io"
  proof (cases found)
    case None
    then show ?thesis by (simp add: runs_def)
  qed (auto intro!: runs_fail runs_return)
  show ?thesis
    unfolding load_or_create_identity_key_def by (rule runs_bind [OF found go])
qed

lemma open_key:
  "runs P (open_internal codec random_key locked startup)
     (\<lambda>r m. \<forall>store. r = Inr store \<longrightarrow> keyed (Some (ds_identity_key store)) m) (\<lambda>_. True)"
proof -
  let ?Q = "\<lambda>store. keyed (Some (ds_identity_key store))"
  have load: "runs (keyed (Some key)) (io_bind (load_index (ic_parse codec)) (\<lambda>index.
      io_return \<lparr>ds_poisoned = False, ds_index = index, ds_identity_key = key\<rparr>)) ?Q (\<lambda>_. True)" for key
  proof (rule runs_bind)
    show "runs (keyed (Some key)) (load_index (ic_parse codec)) (\<lambda>_. keyed (Some key)) (\<lambda>_. True)"
      by (rule runs_post [OF spares_keyD]) (auto simp: spares)
  qed (auto intro: runs_return)
  have prune: "runs (keyed (Some key)) (case startup of None \<Rightarrow> io_return ()
      | Some (now_ms, policy) \<Rightarrow> io_then (prune_directory now_ms policy) recover_store_state) (\<lambda>_. keyed (Some key)) (\<lambda>_. True)" for key
    by (rule runs_post [OF spares_keyD]) (auto simp: spares split: option.split)
  show ?thesis
    unfolding open_internal_def
    by (rule runs_post [OF runs_lifted [OF runs_then [OF runs_any runs_then [OF runs_any runs_then [OF runs_any
        runs_then [OF runs_any runs_then [OF runs_any runs_bind [OF key_file_runs runs_then [OF prune load]]]]]]]]]) auto
qed

lemma open_keeps:
  "runs (keyed (Some v)) (open_internal codec random_key locked startup) (\<lambda>_. keyed (Some v)) (keyed (Some v))"
proof -
  have lock: "STORAGE_LOCK_FILE \<noteq> IDENTITY_KEY_FILE" by (simp add: STORAGE_LOCK_FILE_def IDENTITY_KEY_FILE_def)
  have rest: "runs (keyed (Some v)) (io_then (case startup of None \<Rightarrow> io_return ()
      | Some (now_ms, policy) \<Rightarrow> io_then (prune_directory now_ms policy) recover_store_state)
      (io_bind (load_index (ic_parse codec)) (\<lambda>index.
        io_return \<lparr>ds_poisoned = False, ds_index = index, ds_identity_key = key\<rparr>))) (\<lambda>_. keyed (Some v)) (keyed (Some v))" for key
    by (rule spares_keyD) (auto intro!: spares split: option.split)
  have "runs (keyed (Some v)) (if locked then io_fail OtherError else io_return ()) (\<lambda>_. keyed (Some v)) (keyed (Some v))"
    by (rule spares_keyD) (auto simp: spares)
  note steps = runs_then [OF spares_keyD [OF spares_reads(4)] runs_then [OF spares_keyD [OF spares_reads(4)]
      runs_then [OF spares_keyD [OF spares_writes(2) [OF lock]] runs_then [OF this
      runs_then [OF spares_keyD [OF spares_recover(2)] runs_bind [OF key_file_kept rest]]]]]]
  show ?thesis
    unfolding open_internal_def by (rule runs_post [OF runs_lifted [OF steps]]) (auto split: sum.splits)
qed

section \<open>The key of the service\<close>

definition service_keyed :: "diagnostic_store option \<times> files \<Rightarrow> bool" where
  "service_keyed sm \<longleftrightarrow> (case sm of (None, _) \<Rightarrow> True | (Some store, m) \<Rightarrow> keyed (Some (ds_identity_key store)) m)"

lemma step_keeps_key:
  assumes step: "incident_step codec a b" and keyed: "service_keyed a"
  shows "service_keyed b \<and> (keyed (Some v) (snd a) \<longrightarrow> keyed (Some v) (snd b))"
  using step
proof cases
  case (start d random_key locked startup r d')
  from runsD [OF open_key TrueI start(4)] have "\<forall>store. r = Done (Inr store) \<longrightarrow> keyed (Some (ds_identity_key store)) (dk_files d')"
    by (cases r) auto
  moreover have "keyed (Some v) (dk_files d) \<longrightarrow> keyed (Some v) (dk_files d')"
    using runsD [OF open_keeps _ start(4)] by (cases r) auto
  ultimately show ?thesis using start by (auto simp: service_keyed_def split: outcome.splits sum.splits)
next
  case (request d q store r d')
  have kept: "keyed w (dk_files d) \<Longrightarrow> keyed w (dk_files d')" for w
    using runsD [OF spares_keyD [OF spares_answer [OF request(4)]] _ request(5)] by (cases r) auto
  have "\<forall>store'. r = Done store' \<longrightarrow> ds_identity_key store' = ds_identity_key store"
    using runsD [OF answer_key TrueI request(5)] by (cases r) auto
  then show ?thesis using request(1,2) keyed kept by (auto simp: service_keyed_def split: outcome.splits)
next
  case (stop store m)
  then show ?thesis by (simp add: service_keyed_def)
qed

lemma steps_keep_key:
  "(incident_step codec)\<^sup>*\<^sup>* a b \<Longrightarrow> service_keyed a \<Longrightarrow> service_keyed b \<and> (keyed (Some v) (snd a) \<longrightarrow> keyed (Some v) (snd b))"
proof (induction rule: rtranclp_induct)
  case (step b c)
  then show ?case using step_keeps_key [OF step(2)] by blast
qed simp

text \<open>Every later store of a service has the key of the first.\<close>

lemma same_key_later:
  assumes "(incident_step codec)\<^sup>*\<^sup>* (None, []) (Some store, m)" "(incident_step codec)\<^sup>*\<^sup>* (Some store, m) (Some store2, m2)"
  shows "ds_identity_key store2 = ds_identity_key store"
proof -
  have "service_keyed (Some store, m)"
    using steps_keep_key [OF assms(1)] by (simp add: service_keyed_def)
  with steps_keep_key [OF assms(2) this, of "ds_identity_key store"] show ?thesis
    by (auto simp: service_keyed_def keyed_def)
qed

end
