(* ===== verification/IncidentProperties.thy ===== *)
theory IncidentProperties
  imports DiagnosticKey
begin

text \<open>
  What the store of incident reports promises, over all runs of the service.
\<close>

section \<open>A day of the service\<close>

definition plain_report :: incident_envelope where
  "plain_report = \<lparr>en_schema_version = 1, en_envelope_id = ''0123abcd-0000-4000-8000-0123456789ab'',
     en_install_id = ''0123abcd-0000-4000-8000-0123456789ac'', en_session_id = ''0123abcd-0000-4000-8000-0123456789ad'',
     en_captured_at_ms = 900, en_sent_at_ms = 1100,
     en_app = \<lparr>app_version = ''1'', app_git_sha = ''abc1234'', app_channel = ''web'',
       app_runtimes = \<lparr>rt_browser_name = None, rt_browser_version = None, rt_webview_version = None,
         rt_livekit_version = None, rt_tauri_version = None\<rparr>\<rparr>,
     en_platform = \<lparr>pl_client_kind = BrowserClient, pl_operating_system = Linux, pl_architecture = X86_64,
       pl_os_version = None, pl_os_build = None\<rparr>,
     en_events = [\<lparr>ev_sequence = 1, ev_timestamp_ms = 1000, ev_event_type = Connection, ev_severity = Warning,
       ev_code = ''ice.x'', ev_fingerprint = None, ev_message = None, ev_details = []\<rparr>]\<rparr>"

lemma plain_version: "sanitize_text ''1'' = ''1''"
  by code_simp

lemma plain_sha: "sanitize_text ''abc1234'' = ''abc1234''"
  by code_simp

lemma plain_channel: "sanitize_text ''web'' = ''web''"
  by code_simp

lemma plain_code: "sanitize_text ''ice.x'' = ''ice.x''"
  by code_simp

lemma plain_user: "sanitize_text ''me'' = ''me''"
  by code_simp

lemmas plain_texts = plain_version plain_sha plain_channel plain_code plain_user

lemma plain_report_kept: "sanitize_envelope plain_report = plain_report"
  using plain_texts
  by (simp add: plain_report_def sanitize_envelope_def sanitize_runtimes_def sanitize_event_def sanitize_optional_text_def)

lemma plain_report_valid: "validate_envelope plain_report 2000 = None"
proof -
  have "uuid_shaped (en_envelope_id plain_report)" by code_simp
  moreover have "uuid_shaped (en_install_id plain_report)" by code_simp
  moreover have "uuid_shaped (en_session_id plain_report)" by code_simp
  moreover have "app_ok (en_app plain_report)" by code_simp
  moreover have "code_ok Connection ''ice.x''" by code_simp
  ultimately show ?thesis
    by (simp add: validation_decides envelope_ok_def timely_def) (simp add: plain_report_def event_ok_def)
qed

definition demo_record :: stored_incident where
  "demo_record = \<lparr>si_record_version = STORED_RECORD_VERSION, si_incident_id = INCIDENT_ID_PREFIX @ hex_bytes (replicate 16 CHR 0x00),
     si_received_at_ms = 2000, si_authenticated_identity = ''me'',
     si_authenticated_identity_digest = ''hmac-sha256:'' @ hex_bytes (replicate 32 CHR 0x0A),
     si_payload_digest = ''fnv1a128:'' @ hex_u128 (fnv1a128 ''c''), si_envelope = plain_report\<rparr>"

definition demo_codec :: incident_codec where
  "demo_codec = \<lparr>ic_parse = \<lambda>l. if l = ''x'' then Some demo_record else None,
     ic_render = \<lambda>r. if r = demo_record then Some ''x'' else None, ic_canonical = \<lambda>_. Some ''c'',
     ic_parse_envelope = \<lambda>_. Some plain_report, ic_mac = \<lambda>_ _. replicate 32 CHR 0x0A\<rparr>"

lemma demo_codec_ok: "codec_ok demo_codec"
  by (auto simp: codec_ok_def demo_codec_def same_identity_def)

definition demo_key :: string where
  "demo_key = replicate 32 CHR 0x41"

definition demo_policy :: retention_policy where
  "demo_policy = \<lparr>rp_max_age_ms = 1000, rp_max_total_bytes = 100\<rparr>"

definition demo_day :: string where
  "demo_day = ''diagnostics-1970-01-01.jsonl''"

definition demo_disk :: disk where
  "demo_disk = \<lparr>dk_files = [(STORAGE_LOCK_FILE, []), (IDENTITY_KEY_FILE, demo_key)], dk_events = []\<rparr>"

definition demo_store :: diagnostic_store where
  "demo_store = \<lparr>ds_poisoned = False, ds_index = \<lparr>ix_by_envelope_key = [], ix_by_incident_id = []\<rparr>, ds_identity_key = demo_key\<rparr>"

definition quiet :: "string \<Rightarrow> bool" where
  "quiet name \<longleftrightarrow> strip_suffix ''.bak'' name = None \<and> \<not> is_rewrite_temp name"

lemma quiet_names: "quiet STORAGE_LOCK_FILE" "quiet IDENTITY_KEY_FILE" "quiet demo_day"
  by code_simp+

lemma quiet_recovery:
  assumes "list_all quiet (map fst (dk_files d))" "dk_events d = []"
  shows "recover_rewrite_artifacts d = (Done (), d)"
proof -
  have "restore_backups names d = (Done (), d) \<and> clean_artifacts names d = (Done (), d)" if "list_all quiet names" for names
    using that by (induction names) (simp_all add: io_defs quiet_def)
  moreover have "list_all quiet (sort (map fst (dk_files d)))" using assms(1) by (simp add: list_all_iff)
  ultimately show ?thesis
    using assms(2) by (simp add: recover_rewrite_artifacts_def fs_read_dir_def fs_call_def next_event_def io_defs Let_def)
qed

lemma demo_days: "parse_storage_file_name STORAGE_LOCK_FILE = None" "parse_storage_file_name IDENTITY_KEY_FILE = None"
  "parse_storage_file_name demo_day = Some 0"
  by code_simp+

lemma demo_distinct: "STORAGE_LOCK_FILE \<noteq> IDENTITY_KEY_FILE" "IDENTITY_KEY_FILE \<noteq> STORAGE_LOCK_FILE" "demo_day \<noteq> IDENTITY_KEY_FILE" "demo_day \<noteq> STORAGE_LOCK_FILE"
  "IDENTITY_KEY_FILE \<noteq> demo_day" "STORAGE_LOCK_FILE \<noteq> demo_day"
  by (simp_all add: STORAGE_LOCK_FILE_def IDENTITY_KEY_FILE_def demo_day_def)

lemmas demo_calls = io_defs fs_call_def next_event_def fs_sync_def fs_open_append_def fs_read_def fs_create_new_def fs_write_all_def
  append_bytes_def hm_insert_def hm_get_def hm_remove_def storage_files_def storage_entries_def sort_by_def map_filter_simps demo_days demo_distinct quiet_names quiet_recovery
  or_default_def

lemma demo_open:
  "open_internal demo_codec demo_key False None \<lparr>dk_files = [], dk_events = []\<rparr> = (Done (Inr demo_store), demo_disk)"
  by (simp add: open_internal_def lifted_def recover_store_state_def load_or_create_identity_key_def load_index_def
   for_each_record_def recover_crash_tails_def demo_key_def IDENTITY_KEY_BYTES_def empty_index_def demo_store_def demo_disk_def demo_calls)

lemma tidy_no_events: "dk_events d = [] \<Longrightarrow> tidy d"
  by (simp add: tidy_def no_fails_def)

lemma demo_started: "(incident_step demo_codec)\<^sup>*\<^sup>* (None, []) (Some demo_store, dk_files demo_disk)"
  using incident_step.start [OF tidy_no_events demo_open] by (simp add: r_into_rtranclp)

definition demo_written :: disk where
  "demo_written = \<lparr>dk_files = dk_files demo_disk @ [(demo_day, ''x'' @ [newline])], dk_events = []\<rparr>"

abbreviation demo_id :: string where
  "demo_id \<equiv> INCIDENT_ID_PREFIX @ hex_bytes (replicate 16 CHR 0x00)"


lemma demo_room: "make_room (ic_parse demo_codec) (\<lambda>_. ''t'') 2000 (Some demo_policy) 2 demo_store demo_disk = (Done (Inr (), demo_store), demo_disk)"
  by (simp add: make_room_def prune_for_append_def demo_policy_def lifted_def ck_bind_def total_bytes_def demo_disk_def demo_calls)

lemma demo_name: "storage_file_name 2000 = demo_day"
  by code_simp

lemma demo_row_written: "write_record (ic_parse demo_codec) demo_record ''x'' demo_store demo_disk
    = (Done (Inr (Stored demo_id), index_new demo_record demo_day demo_store), demo_written)"
  by (simp add: write_record_def append_json_line_def io_try_def end_torn_row_def demo_name demo_record_def demo_disk_def demo_written_def demo_calls)

lemma demo_draw: "generate_unique_incident_id [replicate 16 CHR 0x00] (\<lambda>i. hm_get [] i \<noteq> None) = Some demo_id"
  by (simp add: generate_unique_incident_id_def hm_get_def)

lemma demo_ingest:
  "ingest_with_policy demo_codec [replicate 16 CHR 0x00] (\<lambda>_. ''t'') ''me'' ''{}'' 2000 demo_policy demo_store demo_disk
     = (Done (Inr (Stored demo_id), index_new demo_record demo_day demo_store), demo_written)"
proof -
  have me: "validate_server_identity ''me'' = None" by code_simp
  let ?r = "\<lparr>si_record_version = STORED_RECORD_VERSION, si_incident_id = demo_id, si_received_at_ms = 2000,
      si_authenticated_identity = ''me'', si_authenticated_identity_digest = identity_digest (ic_mac demo_codec) demo_key ''me'',
      si_payload_digest = ''fnv1a128:'' @ hex_u128 (fnv1a128 ''c''), si_envelope = plain_report\<rparr>"
  have "ic_render demo_codec ?r = Some ''x''"
    by (simp add: demo_codec_def demo_record_def identity_digest_def)
  moreover have "?r = demo_record" by (simp add: demo_codec_def demo_record_def identity_digest_def)
  moreover have "payload_digest (ic_canonical demo_codec) plain_report = Some (''fnv1a128:'' @ hex_u128 (fnv1a128 ''c''))"
    by (simp add: payload_digest_def demo_codec_def)
  moreover have "parse_validate_and_sanitize (ic_parse_envelope demo_codec) ''{}'' 2000 = Inr plain_report"
    by (simp add: parse_validate_and_sanitize_def demo_codec_def plain_report_valid plain_report_kept MAX_REQUEST_BYTES_def)
  ultimately show ?thesis
    using me plain_report_valid plain_report_kept plain_user demo_draw demo_room demo_row_written
    by (simp add: ingest_with_policy_def append_internal_def MAX_STORED_RECORD_BYTES_def io_bind_def demo_store_def numeral_2_eq_2)
qed

section \<open>Properties\<close>

lemma store_reached:
  assumes "codec_ok codec" "(incident_step codec)\<^sup>*\<^sup>* (None, []) (Some store, m)"
  shows "store_ok (ic_parse codec) store m"
  using service_stays_ok [OF assms] by (simp add: service_ok_def)

text \<open>
  C3. The service starts in an empty directory. However it is then used, stopped, killed in the middle of a call and
  started again, and whatever calls fail while no backup of an interrupted rewrite is left over: no incident id and no
  envelope of a user is held twice by the files of the days, and as long as the running store does not refuse work, its
  index names exactly what the files hold.
\<close>

theorem incidents_are_held_once:
  assumes "codec_ok codec" "(incident_step codec)\<^sup>*\<^sup>* (None, []) (service, m)"
  shows "once (ic_parse codec) m
    \<and> (case service of None \<Rightarrow> True | Some store \<Rightarrow> ds_poisoned store \<or> indexed (ic_parse codec) m (ds_index store))"
  using service_stays_ok [OF assms]
  by (auto simp: service_ok_def store_ok_def safe_def ready_def split: option.splits)

lemma incidents_are_held_once_witness:
  "once (ic_parse demo_codec) (dk_files demo_disk) \<and> indexed (ic_parse demo_codec) (dk_files demo_disk) (ds_index demo_store)"
  using incidents_are_held_once [OF demo_codec_ok demo_started] by (simp add: demo_store_def)

text \<open>
  C10. When a report was stored, the files of the days hold no more bytes than the policy allows, the new row counted.
\<close>

theorem stored_reports_keep_to_the_cap:
  assumes codec: "codec_ok codec" and reached: "(incident_step codec)\<^sup>*\<^sup>* (None, []) (Some store, dk_files d)"
    and d: "tidy d" and fair: "fair (Ingest_request draws random identity body t policy)"
    and run: "ingest_with_policy codec draws random identity body t policy store d = (Done (Inr (Stored i), store'), d')"
  shows "total_size (dk_files d') \<le> rp_max_total_bytes policy"
proof -
  have "is_storage_name (storage_file_name t)" "\<forall>draw \<in> set draws. length draw = 16"
    using fair storage_name_of_time by simp_all
  from calmlyD [OF ingest_calm [OF codec this] d store_reached [OF codec reached] run] show ?thesis by simp
qed

lemma demo_fair: "fair (Ingest_request [replicate 16 CHR 0x00] (\<lambda>_. ''t'') ''me'' ''{}'' 2000 demo_policy)"
  by (simp add: MILLIS_PER_DAY_def)

lemma stored_reports_keep_to_the_cap_witness: "total_size (dk_files demo_written) \<le> 100"
  using stored_reports_keep_to_the_cap [OF demo_codec_ok demo_started tidy_no_events demo_fair demo_ingest]
  by (simp add: demo_disk_def demo_policy_def)

text \<open>
  C6. A deletion never touches another incident. When it answers that the incident was removed, exactly its records are
  gone; with any other answer, and when it is killed, what is left is between that and what there was.
\<close>

theorem deletion_is_exact:
  assumes codec: "codec_ok codec" and reached: "(incident_step codec)\<^sup>*\<^sup>* (None, []) (Some store, dk_files d)"
    and run: "delete_incident (ic_parse codec) random i store d = (r, d')"
  shows "held (ic_parse codec) (dk_files d') \<subseteq> held (ic_parse codec) (dk_files d)
    \<and> {(x, n) \<in> held (ic_parse codec) (dk_files d). si_incident_id x \<noteq> i} \<subseteq> held (ic_parse codec) (dk_files d')
    \<and> ((\<exists>store'. r = Done (Inr True, store'))
        \<longrightarrow> held (ic_parse codec) (dk_files d') = {(x, n) \<in> held (ic_parse codec) (dk_files d). si_incident_id x \<noteq> i})"
  using runsD [OF delete_runs [OF store_reached [OF codec reached]] refl run]
  by (cases r) (auto simp: deleted_def without_def)

definition demo_filled :: diagnostic_store where
  "demo_filled = index_new demo_record demo_day demo_store"

lemma demo_stored: "(incident_step demo_codec)\<^sup>*\<^sup>* (None, []) (Some demo_filled, dk_files demo_written)"
proof -
  have "answer_request demo_codec (Ingest_request [replicate 16 CHR 0x00] (\<lambda>_. ''t'') ''me'' ''{}'' 2000 demo_policy) demo_store demo_disk
      = (Done demo_filled, demo_written)"
    by (simp add: demo_ingest demo_filled_def io_defs)
  from incident_step.request [OF tidy_no_events demo_fair this] show ?thesis
    using demo_started by (simp add: demo_disk_def rtranclp.rtrancl_into_rtrancl)
qed

lemma demo_rewrite:
  "\<exists>d'. rewrite_without_incident (ic_parse demo_codec) ''t'' demo_day demo_id demo_written = (Done True, d')"
proof -
  have names: "temp_path demo_day ''t'' \<notin> {demo_day, STORAGE_LOCK_FILE, IDENTITY_KEY_FILE, backup_path demo_day}"
    "backup_path demo_day \<notin> {demo_day, STORAGE_LOCK_FILE, IDENTITY_KEY_FILE}"
    by (simp_all add: temp_path_def backup_path_def demo_day_def STORAGE_LOCK_FILE_def IDENTITY_KEY_FILE_def)
  have "utf8_valid ''x''" by code_simp
  moreover have "line_matches (ic_parse demo_codec) demo_id ''x''" by (simp add: line_matches_def demo_codec_def demo_record_def)
  moreover have "split_lines [] (''x'' @ [newline]) = [''x'']" by code_simp
  ultimately show ?thesis
    using names [simplified]
    by (simp add: rewrite_without_incident_def commit_rewrite_def demo_written_def demo_disk_def fs_rename_def fs_remove_def Let_def fs_exists_def demo_calls)
qed

lemma demo_deletion:
  "\<exists>d'. delete_incident (ic_parse demo_codec) (\<lambda>_. ''t'') demo_id demo_filled demo_written
     = (Done (Inr True, forget_incident demo_id demo_filled), d')"
proof -
  have id: "validate_incident_id demo_id = None" by code_simp
  have "hm_get (ix_by_incident_id (ds_index demo_filled)) demo_id = Some (index_entry_of demo_record demo_day)" "\<not> ds_poisoned demo_filled"
    by (simp_all add: demo_filled_def index_new_def hm_simps demo_record_def demo_store_def)
  moreover have "checked_storage_path (ie_file_name (index_entry_of demo_record demo_day)) = Inr demo_day"
    by (simp add: checked_storage_path_def index_entry_of_def demo_days)
  ultimately show ?thesis
    using id demo_rewrite by (auto simp: delete_incident_def lifted_def io_defs)
qed

lemma deletion_is_exact_witness:
  "\<exists>d'. delete_incident (ic_parse demo_codec) (\<lambda>_. ''t'') demo_id demo_filled demo_written
       = (Done (Inr True, forget_incident demo_id demo_filled), d')
     \<and> demo_id \<notin> (si_incident_id \<circ> fst) ` held (ic_parse demo_codec) (dk_files d')"
proof -
  obtain d' where run: "delete_incident (ic_parse demo_codec) (\<lambda>_. ''t'') demo_id demo_filled demo_written
     = (Done (Inr True, forget_incident demo_id demo_filled), d')" using demo_deletion by blast
  from deletion_is_exact [OF demo_codec_ok demo_stored this]
  have "demo_id \<notin> (si_incident_id \<circ> fst) ` held (ic_parse demo_codec) (dk_files d')" by auto
  with run show ?thesis by blast
qed

lemma ingest_ends:
  assumes codec: "codec_ok codec" and store: "store_ok (ic_parse codec) store (dk_files d)" and d: "tidy d"
    and fair: "fair (Ingest_request draws random identity body t policy)"
    and run: "ingest_with_policy codec draws random identity body t policy store d = (Done (Inr (Stored i), store'), d')"
    and parsed: "parse_validate_and_sanitize (ic_parse_envelope codec) body t = Inr envelope"
  shows "ingested codec (ds_identity_key store) identity envelope policy (Inr (Stored i), store') (dk_files d')"
    "ds_identity_key store' = ds_identity_key store" "validate_server_identity identity = None"
proof -
  have run: "append_internal codec draws random identity envelope t (Some policy) store d = (Done (Inr (Stored i), store'), d')"
    using run parsed by (simp add: ingest_with_policy_def)
  then have go: "\<not> ds_poisoned store" by (auto simp: append_internal_def io_return_def)
  then have m0: "ready (ic_parse codec) (ds_index store) (dk_files d)" using store by (simp add: store_ok_def)
  have "is_storage_name (storage_file_name t)" "\<forall>draw \<in> set draws. length draw = 16"
    using fair storage_name_of_time by simp_all
  from calmlyD [OF append_internal_calm [OF codec this m0 go] d refl run]
  show "ingested codec (ds_identity_key store) identity envelope policy (Inr (Stored i), store') (dk_files d')" by simp
  from runsD [OF append_key TrueI run] show "ds_identity_key store' = ds_identity_key store" by simp
  show "validate_server_identity identity = None"
  proof (rule ccontr)
    assume "validate_server_identity identity \<noteq> None"
    then show False
      using run go by (cases "validate_envelope envelope t") (auto simp: append_internal_def Let_def io_return_def)
  qed
qed

lemma parsed_again:
  assumes "parse_validate_and_sanitize parse body t = Inr e" "parse_validate_and_sanitize parse body t' = Inr e'"
  shows "e' = e"
  using assms by (auto simp: parse_validate_and_sanitize_def split: if_splits option.splits)

text \<open>
  C4. A client that did not hear the answer sends its report again. However the service was used in between, stopped,
  killed and started again: as long as the files still hold the record of the first, the store does its work and the
  report is still accepted, the answer is that it is a duplicate of the incident that was stored, and nothing is changed.
  (Once the record was deleted, or dropped for its age or for room, the report is stored anew.)
\<close>

theorem a_retry_is_told_the_first_id:
  assumes codec: "codec_ok codec" and reached: "(incident_step codec)\<^sup>*\<^sup>* (None, []) (Some store, dk_files d)"
    and d: "tidy d" and fair: "fair (Ingest_request draws random identity body t policy)"
    and run: "ingest_with_policy codec draws random identity body t policy store d = (Done (Inr (Stored i), store'), d')"
    and later: "(incident_step codec)\<^sup>*\<^sup>* (Some store', dk_files d') (Some store2, dk_files d2)" "\<not> ds_poisoned store2"
    and again: "parse_validate_and_sanitize (ic_parse_envelope codec) body t' = Inr envelope" "validate_envelope envelope t' = None"
  shows "\<exists>r. (\<exists>n. (r, n) \<in> held (ic_parse codec) (dk_files d')) \<and> si_incident_id r = i
    \<and> ((\<exists>n. (r, n) \<in> held (ic_parse codec) (dk_files d2)) \<longrightarrow>
        ingest_with_policy codec draws' random' identity body t' policy' store2 d2 = (Done (Inr (Duplicate i), store2), d2))"
proof -
  let ?parse = "ic_parse codec"
  obtain e where e: "parse_validate_and_sanitize (ic_parse_envelope codec) body t = Inr e"
    using run by (auto simp: ingest_with_policy_def io_return_def split: sum.splits)
  with again(1) have [simp]: "e = envelope" using parsed_again by blast
  note first = ingest_ends [OF codec store_reached [OF codec reached] d fair run e]
  let ?digest = "identity_digest (ic_mac codec) (ds_identity_key store) identity"
  obtain x where x: "hm_get (ix_by_envelope_key (ds_index store')) (?digest, en_envelope_id envelope) = Some x"
      "ie_incident_id x = i" "payload_digest (ic_canonical codec) (sanitize_envelope envelope) = Some (ie_payload_digest x)"
    and ok: "store_ok ?parse store' (dk_files d')" "\<not> ds_poisoned store'"
    using first(1) by (auto simp: ingested_def)
  have "names_held envelope_key (ix_by_envelope_key (ds_index store')) (held ?parse (dk_files d'))"
    using ok by (simp add: store_ok_def ready_def indexed_def)
  then obtain r n where r: "(r, n) \<in> held ?parse (dk_files d')" "envelope_key r = (?digest, en_envelope_id envelope)"
      "x = index_entry_of r n" using x(1) unfolding names_held_def by blast
  have "answer_request codec (Ingest_request draws random identity body t policy) store d = (Done store', d')"
    by (simp add: run io_defs)
  from incident_step.request [OF d fair this] have stored: "(incident_step codec)\<^sup>*\<^sup>* (None, []) (Some store', dk_files d')"
    using reached by (simp add: rtranclp.rtrancl_into_rtrancl)
  have key: "ds_identity_key store2 = ds_identity_key store" using same_key_later [OF stored later(1)] first(2) by simp
  have "names_held envelope_key (ix_by_envelope_key (ds_index store2)) (held ?parse (dk_files d2))"
    using store_reached [OF codec rtranclp_trans [OF stored later(1)]] later(2) by (simp add: store_ok_def ready_def indexed_def)
  then have found: "hm_get (ix_by_envelope_key (ds_index store2)) (?digest, en_envelope_id envelope) = Some (index_entry_of r n2)"
    if "(r, n2) \<in> held ?parse (dk_files d2)" for n2 using that r(2) unfolding names_held_def by blast
  have "ingest_with_policy codec draws' random' identity body t' policy' store2 d2 = (Done (Inr (Duplicate i), store2), d2)"
    if "(r, n2) \<in> held ?parse (dk_files d2)" for n2
    using found [OF that] x r(3) first(3) again later(2) key envelope_id_kept [OF again(2)]
    by (simp add: ingest_with_policy_def append_internal_def Let_def io_return_def index_entry_of_def)
  then show ?thesis using r(1,3) x(2) by (auto simp: index_entry_of_def)
qed

text \<open>The report is sent again after the service was stopped and started again.\<close>

lemma demo_record_kept: "sanitize_stored_incident demo_record = demo_record"
  by (simp add: sanitize_stored_incident_def demo_record_def plain_report_kept plain_user)

lemma demo_record_sound: "well_formed_record demo_record"
proof -
  have "validate_incident_id demo_id = None" "validate_identity_digest (''hmac-sha256:'' @ hex_bytes (replicate 32 CHR 0x0A))"
    "validate_uuid (en_envelope_id plain_report) ''envelope_id'' = None"
    by code_simp+
  then show ?thesis by (simp add: well_formed_record_def demo_record_def)
qed

lemma demo_rows: "jsonl_records (ic_parse demo_codec) (''x'' @ [newline]) = [demo_record]"
proof -
  have "split_inclusive [] (''x'' @ [newline]) = [''x'' @ [newline]]" "strip_line_end (''x'' @ [newline]) = ''x''" by code_simp+
  then show ?thesis
    by (simp add: jsonl_records_def read_record_def demo_codec_def demo_record_kept MAX_STORED_RECORD_BYTES_def map_filter_simps)
qed

lemma demo_opened_again: "open_internal demo_codec demo_key False None demo_written = (Done (Inr demo_filled), demo_written)"
  using demo_rows [simplified]
  by (simp add: open_internal_def lifted_def recover_store_state_def load_or_create_identity_key_def load_index_def
   for_each_record_def recover_crash_tails_def demo_key_def IDENTITY_KEY_BYTES_def empty_index_def demo_store_def demo_written_def
   demo_disk_def demo_filled_def index_new_def index_record_def demo_record_sound hm_or_insert_def read_jsonl_records_def demo_calls)

lemma a_retry_is_told_the_first_id_witness:
  "incident_step demo_codec (Some demo_filled, dk_files demo_written) (None, dk_files demo_written)
   \<and> incident_step demo_codec (None, dk_files demo_written) (Some demo_filled, dk_files demo_written)
   \<and> ingest_with_policy demo_codec [] (\<lambda>_. []) ''me'' ''{}'' 2000 demo_policy demo_filled demo_written
       = (Done (Inr (Duplicate demo_id), demo_filled), demo_written)"
proof -
  have parsed: "parse_validate_and_sanitize (ic_parse_envelope demo_codec) ''{}'' 2000 = Inr plain_report"
    by (simp add: parse_validate_and_sanitize_def demo_codec_def plain_report_valid plain_report_kept MAX_REQUEST_BYTES_def)
  have ran: "ingest_with_policy demo_codec [replicate 16 CHR 0x00] (\<lambda>_. ''t'') ''me'' ''{}'' 2000 demo_policy demo_store demo_disk
      = (Done (Inr (Stored demo_id), demo_filled), demo_written)"
    using demo_ingest by (simp add: demo_filled_def)
  have stop: "incident_step demo_codec (Some demo_filled, dk_files demo_written) (None, dk_files demo_written)"
    by (rule incident_step.stop)
  have start: "incident_step demo_codec (None, dk_files demo_written) (Some demo_filled, dk_files demo_written)"
    using incident_step.start [OF tidy_no_events demo_opened_again] by (simp add: demo_written_def)
  have later: "(incident_step demo_codec)\<^sup>*\<^sup>* (Some demo_filled, dk_files demo_written) (Some demo_filled, dk_files demo_written)"
    using stop start by (meson r_into_rtranclp rtranclp_trans)
  have "\<not> ds_poisoned demo_filled" by (simp add: demo_filled_def index_new_def demo_store_def)
  from a_retry_is_told_the_first_id [OF demo_codec_ok demo_started tidy_no_events demo_fair ran later this parsed plain_report_valid,
      of "[]" "\<lambda>_. []" demo_policy] stop start
  show ?thesis by (auto simp: demo_disk_def)
qed

text \<open>
  C11. While no call fails, an incident is found exactly if the files hold it, and nothing is changed by looking.
\<close>

theorem lookups_find_what_is_held:
  assumes codec: "codec_ok codec" and reached: "(incident_step codec)\<^sup>*\<^sup>* (None, []) (Some store, dk_files d)"
    and run: "\<not> ds_poisoned store" "dk_events d = []" "validate_incident_id i = None"
  shows "\<exists>found. get_incident (ic_parse codec) i store d = (Done (Inr found, store), d)
    \<and> (found \<noteq> None \<longleftrightarrow> (\<exists>r n. (r, n) \<in> held (ic_parse codec) (dk_files d) \<and> si_incident_id r = i))
    \<and> list_all (\<lambda>r. si_incident_id r = i) (case found of None \<Rightarrow> [] | Some r \<Rightarrow> [r])"
proof -
  let ?parse = "ic_parse codec" and ?m = "dk_files d"
  have m: "ready ?parse (ds_index store) ?m" using store_reached [OF codec reached] run(1) by (simp add: store_ok_def)
  then have names: "hm_get (ix_by_incident_id (ds_index store)) i = Some e \<longleftrightarrow>
      (\<exists>r n. (r, n) \<in> held ?parse ?m \<and> si_incident_id r = i \<and> e = index_entry_of r n)" for e
    by (simp add: ready_def indexed_def names_held_def)
  show ?thesis
  proof (cases "hm_get (ix_by_incident_id (ds_index store)) i")
    case None
    have "si_incident_id r \<noteq> i" if "(r, n) \<in> held ?parse ?m" for r n
      using names [of "index_entry_of r n"] None that by auto
    then show ?thesis using None run by (auto simp: get_incident_def io_return_def)
  next
    case (Some e)
    then obtain r n where r: "(r, n) \<in> held ?parse ?m" "si_incident_id r = i" "e = index_entry_of r n" using names by auto
    have n: "is_storage_name n" "disk_rows ?m n \<noteq> []" using r(1) by (auto simp: held_def disk_records_def)
    have "all_settled ?m" and plain: "plain ?m" using m by (simp_all add: ready_def sound_self)
    then have "settled n ?m" using n(1) by (simp add: all_settled_def)
    moreover have "stored n ?m \<noteq> None" using n(2) by (cases "stored n ?m") (simp_all add: disk_rows_def)
    ultimately obtain c where c: "hm_get ?m n = Some c"
      by (cases "hm_get ?m n") (simp_all add: stored_def settled_def)
    then have "carriage_return \<notin> set c" using plain n(1) c by (auto simp: plain_def)
    then have "jsonl_records ?parse c = List.map_filter (row_record ?parse) (disk_rows ?m n)"
      using c by (simp add: disk_rows_def stored_def jsonl_rows)
    then have "r \<in> set (jsonl_records ?parse c)" using r(1) by (simp add: held_def disk_records_def)
    then obtain x where x: "find (\<lambda>x. si_incident_id x = i) (jsonl_records ?parse c) = Some x" "si_incident_id x = i"
      using r(2) by (cases "find (\<lambda>x. si_incident_id x = i) (jsonl_records ?parse c)") (auto simp: find_None_iff dest: found_member)
    have "find_record ?parse n i d = (Done (Some x), d)"
      using c x(1) run(2)
      by (simp add: find_record_def read_jsonl_records_def fs_read_def fs_call_def next_event_def io_defs)
    moreover have "checked_storage_path (ie_file_name e) = Inr n"
      using n(1) r(3) by (simp add: checked_storage_path_def index_entry_of_def is_storage_name_def)
    ultimately have "get_incident ?parse i store d = (Done (Inr (Some (sanitize_stored_incident x)), store), d)"
      using Some run by (simp add: get_incident_def lifted_def io_defs)
    then show ?thesis using r(1,2) x(2) by (auto simp: sanitize_stored_incident_def)
  qed
qed

lemma lookups_find_what_is_held_witness:
  "\<exists>r. get_incident (ic_parse demo_codec) demo_id demo_filled demo_written = (Done (Inr (Some r), demo_filled), demo_written)
     \<and> si_incident_id r = demo_id"
proof -
  have id: "validate_incident_id demo_id = None" by code_simp
  have go: "\<not> ds_poisoned demo_filled" "dk_events demo_written = []"
    by (simp_all add: demo_filled_def index_new_def demo_store_def demo_written_def)
  have "indexed (ic_parse demo_codec) (dk_files demo_written) (ds_index demo_filled)"
    using store_reached [OF demo_codec_ok demo_stored] go(1) by (simp add: store_ok_def ready_def)
  moreover have "hm_get (ix_by_incident_id (ds_index demo_filled)) demo_id = Some (index_entry_of demo_record demo_day)"
    by (simp add: demo_filled_def index_new_def hm_simps demo_record_def)
  ultimately have "\<exists>r n. (r, n) \<in> held (ic_parse demo_codec) (dk_files demo_written) \<and> si_incident_id r = demo_id"
    unfolding indexed_def names_held_def by blast
  with lookups_find_what_is_held [OF demo_codec_ok demo_stored go id] show ?thesis by auto
qed

lemma eight: "replicate 8 x = [x, x, x, x, x, x, x, x]"
  by (simp add: eval_nat_numeral)


end
