(* ===== verification/Spec2Isabelle.thy ===== *)
theory Spec2Isabelle
  imports SourceProperties ClientProperties LifecycleProperties QueueApiProperties
    HistoryProperties RefreshProperties PlaylistCacheProperties FavoriteProperties
    OwnerProperties ConfigUtil ParticipantProperties LoginProperties
    SkipProperties SpotifyAuth StreamProperties ChatProperties SoundboardProperties
    DiagnosticProperties ReportProperties IncidentProperties
begin

text \<open>
  Verification of the Echo Chamber control service (\<open>core/control/src\<close>): the shared listening
  sessions, called Jams, in which one source PC plays Spotify for everyone in a room.

  How the program is built. A source PC keeps a WebSocket to the service; \<open>jam_source.rs\<close> is the
  registry of that connection: what was asked of the source, what it announced, its audio. A Jam
  runs a bot (\<open>jam_bot.rs\<close>) that waits for the source, converts its audio and relays it to the
  listeners. \<open>jam_session.rs\<close> holds the Jam itself: one \<open>JamState\<close> behind a lock, with its queue,
  its listeners and the Spotify device it is bound to, changed by HTTP handlers, by background
  tasks that observe Spotify's player, and by the pump that hands queued tracks to Spotify.
  Spotify gives no transactions: a request may be accepted without an answer, and the player may
  be moved by anyone. Most of the code, and most of the properties here, are about that.

  The theories, in the order they build on each other:
  \<open>Prelude\<close>: words, clocks, UTF-8 strings as byte lists, \<open>HashMap\<close> as an association list without
  duplicate keys, and the list searches the code uses.
  \<open>Catalog\<close> (\<open>jam_library.rs\<close>): validation of catalogue requests, and the loops that expand a
  playlist page by page or fetch a selection of it.
  \<open>JamModel\<close> (\<open>jam_session.rs\<close>): \<open>JamState\<close> and everything in it; \<open>queue_ok\<close> is the queue's invariant.
  \<open>JamReceipts\<close>: the three idempotency tables, under the locale \<open>receipt_table\<close>.
  \<open>JamQueue\<close>: how an observed track advances the queue, under the locale \<open>queue_advance\<close>.
  \<open>JamSkipQueue\<close>: skips, ambiguous skips and track ends, under the locale \<open>jam_observation\<close>.
  \<open>JamSource\<close> (\<open>jam_source.rs\<close>): the registry as a state machine, \<open>source_step\<close>, with its invariant
  \<open>source_ok\<close>; admission, messages, audio, restarts and repairs.
  \<open>JamBot\<close> (\<open>jam_bot.rs\<close>): the start of the source, the sample conversion and the relay.
  \<open>SpotifyClient\<close>: Spotify's answers, the rate limit, one authorised request, device selection and
  the bounded repair of a missing device.
  \<open>JamLifecycle\<close>: ending a Jam, the watchdog, revoked participants, the readiness checks and the
  guarded operations that pause playback when they are refused.
  \<open>JamHandlers\<close>: \<open>jam_start\<close>, \<open>jam_stop\<close>, \<open>jam_stop_playback\<close>, \<open>jam_join\<close>, \<open>jam_leave\<close> and the
  listeners' audio connections.
  \<open>JamFrontier\<close>: placing, committing, resuming and pumping the queue.
  \<open>JamQueueApi\<close>: \<open>jam_queue_add\<close>, \<open>jam_queue_remove\<close>, \<open>jam_queue_playlist\<close> and
  \<open>jam_queue_playlist_selection\<close>, with \<open>admit_entries\<close>, the fence both enqueues share.
  \<open>FileStore\<close>: the files the service keeps, the calls of \<open>std::fs\<close> with what the operating system may
  answer to each, and the routines shared by the JSON stores (\<open>write_atomic\<close>, \<open>open\<close>,
  \<open>recover_read_only\<close>), under the locale \<open>durable_store\<close>.
  \<open>JamHistory\<close> (\<open>jam_history.rs\<close>): the history of tracks played, one file of rows per day; \<open>HistoryLog\<close>:
  the files as a log of entries, and what each operation does to it.
  \<open>JamRefresh\<close> (\<open>jam_session.rs\<close>): \<open>jam_state\<close> with its refresh of the player, and \<open>jam_search\<close>.
  \<open>PlaylistCache\<close> (\<open>jam_playlist_cache.rs\<close>): the cache of playlist chunks with its windows, validation,
  merging and eviction; an interpretation of \<open>durable_store\<close>.
  \<open>FavoriteStore\<close> (\<open>jam_library.rs\<close>): the library of favourites with its file, and the cache of covers;
  the other interpretation of \<open>durable_store\<close>. \<open>FavoriteApi\<close>: Spotify's objects, the listing, adding,
  removing and the import of a Spotify library.
  \<open>Participants\<close> (\<open>auth.rs\<close>): the bindings of identities to installations, the tokens that carry them and
  the checks of every route. \<open>RoomApi\<close> (\<open>auth.rs\<close>, \<open>rooms.rs\<close>, \<open>main.rs\<close>): the requests on a \<open>server\<close>:
  logging in, tokens, heartbeats, leaving, the cleanup of silent participants, kicks, rooms, and
  \<open>jam_join\<close> with its check.
  \<open>OwnerAuth\<close> (\<open>diagnostics_auth.rs\<close>): the login and the tokens of the owner of the diagnostics.
  \<open>ConfigUtil\<close> (\<open>config.rs\<close>): the dates that name log files and the encoding of query parameters, with
  their properties.
  \<open>JamSkip\<close> (\<open>jam_session.rs\<close>): the request \<open>jam_skip\<close>, with its preflight, the one request to Spotify and what
  its answer may mean. \<open>AudioStream\<close>: the WebSocket on which a listener hears the Jam. \<open>SpotifyAuth\<close>: the
  connection of a Spotify account and the token file, with their properties.
  \<open>PlainFiles\<close>: files written in place. \<open>Chat\<close> (\<open>chat.rs\<close>, \<open>rooms.rs\<close>): messages, uploads, avatars, chimes and
  the log of sessions, each history under the locale \<open>list_reader\<close>. \<open>Soundboard\<close> (\<open>soundboard.rs\<close>): the sounds of
  the rooms.
  \<open>DiagnosticText\<close> (\<open>diagnostics.rs\<close>): the recognisers that clean a client's text, each a function of a
  position, and \<open>redact_with\<close>, which runs one of them over a text. \<open>DiagnosticRecord\<close>: a report of incidents, its
  validation, what is kept of it and the digests. \<open>DiagnosticFiles\<close>: the files of the incidents, one of JSON rows
  per day, their names, reading, rewriting and recovery. \<open>DiagnosticStore\<close>: \<open>DiagnosticStore\<close>, that is the index over
  them, ingestion under a retention policy, listing, deletion, pruning and opening. \<open>DiagnosticView\<close>: what the files
  hold, seen through an interrupted rewrite; \<open>DiagnosticRoom\<close>: pruning and recovery of the whole directory;
  \<open>DiagnosticIndex\<close>: the records of the files, the index that is loaded from them and the row that is appended;
  \<open>DiagnosticDates\<close>: the days that name the files; \<open>DiagnosticService\<close>: the store as a whole, and the steps
  \<open>incident_step\<close> of a service that is started, asked, stopped and killed; \<open>DiagnosticKey\<close>: the file of the key, which
  nothing but the first start writes (\<open>spares_key\<close>), so that every later store has the same key (\<open>same_key_later\<close>).
  \<open>QueueProperties\<close>, \<open>SourceProperties\<close>, \<open>ClientProperties\<close>, \<open>LifecycleProperties\<close>,
  \<open>QueueApiProperties\<close>, \<open>HistoryProperties\<close>, \<open>RefreshProperties\<close>, \<open>PlaylistCacheProperties\<close>,
  \<open>FavoriteProperties\<close>, \<open>OwnerProperties\<close>, \<open>ParticipantProperties\<close>, \<open>LoginProperties\<close>, \<open>SkipProperties\<close>,
  \<open>StreamProperties\<close>, \<open>ChatProperties\<close>, \<open>SoundboardProperties\<close>, \<open>DiagnosticProperties\<close>,
  \<open>ReportProperties\<close> and \<open>IncidentProperties\<close> hold the properties, each with the concrete
  states at which its hypotheses hold.

  How files are modelled. A directory maps names to bytes. An operation takes the answers of the
  operating system as a list of events, one per call: success, failure (a write after some of its
  bytes) or the death of the process, after which nothing of the program runs. An invariant that
  holds whenever the program may stop is the last argument of \<open>runs\<close>. \<open>durable_store\<close> asks of a store
  that validation accepts exactly the valid contents, up to a relation \<open>alike\<close>, and gives that a
  commit, whatever fails in it, leaves files from which \<open>open\<close> answers the contents before or after.
  The codec of a file or a row (serde) is an argument; where a property needs it, that what was
  rendered parses back is a hypothesis about the one value written.

  How state and effects are modelled. A struct is a record whose fields keep their Rust names
  behind a prefix; a \<open>u64\<close>, \<open>u32\<close>, \<open>u8\<close> is a word of that width and wraps as \<open>wrapping_add\<close> does;
  \<open>saturating_add\<close> is \<open>sat_add\<close>; a \<open>usize\<close> is a nat; an \<open>f32\<close> is its bit pattern, with the one
  arithmetic operation the code needs an argument. An error is the left side of a sum, with the
  code's status and message. An asynchronous handler runs on a \<open>world\<close>: the Jam, the bot and the
  log of commands sent to Spotify and to the source. Each \<open>await\<close> in it is an argument, a function
  that answers and may change the world, since other tasks run there. What a handler may rely on
  is stated about these functions: \<open>fenced\<close> (other tasks respect the lock \<open>jam_lifecycle\<close>: they do
  not start, end or rebind the Jam and do not start playback), \<open>relied\<close> (other tasks respect the
  queue's lock: they only observe the player or end the Jam) and \<open>still\<close> (no other task runs).

  How people are modelled. A \<open>server\<close> is the \<open>world\<close> with the maps of presence, bindings and rooms. A
  handler that lets go of its locks between two critical sections takes what other tasks do there as
  an argument. \<open>presence_step\<close> runs the requests; \<open>tasks K R\<close> are their interleavings, in which further requests
  run, interleaved in turn, wherever a request lets go, as long as no identity of \<open>K\<close> is kicked or displaced and
  none of \<open>R\<close> becomes present (a heartbeat and a kick ask that of their own identity). Lemmas about one request at
  a time leave presence alone meanwhile (\<open>undisturbed\<close>), and those about races put in the request that interferes.

  What the lemmas show. For the stores: the history's files are a log (\<open>entry_log\<close>) under pruning,
  appending and listing, through crashes; the cache answers what was merged, each position once; the
  library is a relation between items and actors (\<open>favored_by\<close>). For people: presence and bindings under
  every sequence of requests (\<open>bound_presence\<close>), and the bounds on guessing passwords and secrets. For files
  written in place: what a list kept in a file reads as after any failures (\<open>list_at\<close>, under \<open>list_codec\<close>, the law
  of a codec that reads back what it wrote and rejects what a stopped write left). For the diagnostics: a pass over a text leaves what no recogniser finds
  (\<open>redact_prefix\<close>) and marks what it replaces (\<open>marks\<close>), from which a labelled secret is followed through all of
  them; the validation of a report is its declarative description (\<open>envelope_ok\<close>). For the store of incidents: every
  routine on its files, wherever it stops, only drops rows (\<open>kept\<close>), recovery leaves them in order (\<open>sound\<close>), the index
  that is loaded names exactly the records held (\<open>indexed\<close>), and every request keeps both, with each name held once
  (\<open>store_ok\<close>); by induction over the steps this holds of every service that began in an empty directory
  (\<open>service_stays_ok\<close>). It asks of the codec that a row parses back and no part of it does (\<open>codec_ok\<close>), of the clock a
  time before the year 9600 and of the random source sixteen bytes a draw (\<open>fair\<close>), and of the disk that no backup of a
  rewrite is left over or no call fails (\<open>tidy\<close>): otherwise a deleted incident can come back.
  For the Jam: the locale \<open>queue_advance\<close> says that a step only retires accepted entries from the front; its
  consequences (the invariant stays, unaccepted entries stay in order) hold for each of the code's
  seven transitions by interpretation. \<open>jam_observation\<close> adds that the revision
  moves with the queue, so that equal revisions mean equal queues. \<open>receipt_table\<close> gives the bound
  and the honesty of the three receipt tables. \<open>release_scan\<close> reads the log of commands: it is None
  once the source was released while Spotify may still have been told to play, and the lemmas on
  starting and ending show that this never happens. For the pump, \<open>candidate_slot\<close> and
  \<open>slot_advances\<close> carry the place of the entry being committed through whatever other tasks do; an entry whose
  acceptance is unknown stays (\<open>unknown_entry_kept\<close>) through \<open>observe_player\<close>, all that is taken from the player, and
  while it does the pump places nothing (\<open>placements\<close>, \<open>unknown_pump_places_nothing\<close>).

  Bounds. The pages of an import are a list, one answer each; one page more than the items Spotify says
  there are is enough (\<open>import_ends\<close>). The pump's loop takes the surroundings of its turns as a list;
  nine turns are enough, because every turn that goes on uses room in the frontier, the stop flag or the one look at the
  player (\<open>turns_left\<close>, at most eight). All other loops are total functions: the expansion of a
  playlist by the measure of the offset left below a thousand, the polls by their count.

  Not modelled. JSON parsing, HTTP and WebSockets are arguments or left out, and where an error
  message ends in the transport's own text that text is left out. An import is modelled with no other
  request between its pages, a directory without the failure of single entries. Signatures, keyed
  hashes and password hashes are arguments. The search and items endpoints of the catalogue, the
  routes of the diagnostics, muting and the desktop client are not modelled.
\<close>

end
